(* ===== verification/CP_Prelude.thy ===== *)
theory CP_Prelude
  imports Main "HOL-Library.Multiset"
begin

text \<open>
  Prelude of the control-plane development: the vocabulary every component theory shares.

  \<^item> Outcomes. A method of the in-memory store either returns or throws, and a throw does not
    roll the JavaScript heap back. An operation therefore has type
    \<open>state \<Rightarrow> (error + 'a) \<times> state\<close>: the state component is the heap after the call in both cases.
  \<^item> \<open>Map\<close>. A JavaScript \<open>Map\<close> iterates in insertion order, and several operations depend on it
    (\<open>find\<close>, stable sorts, bounded prunes). It is an association list whose keys are distinct:
    \<open>map_set\<close> updates in place or appends, \<open>map_delete\<close> removes.
  \<^item> \<open>Array.prototype.sort\<close> is the stable sort \<open>js_sort\<close> over an integer-valued comparator.
  \<^item> Numbers. \<open>jsnum\<close> keeps of a JavaScript number what the code observes of it: an integer, a
    non-integer strictly between \<open>i\<close> and \<open>i + 1\<close>, an infinity or NaN. It is used where the source
    itself tests \<open>Number.isInteger\<close>, \<open>Number.isFinite\<close> or truthiness; elsewhere numbers are \<open>int\<close>.
  \<^item> Strings are lists of code units; a \<open>char\<close> is a code unit below 256.
  \<^item> Timestamps. An ISO string produced by \<open>Date.prototype.toISOString\<close> is represented by the
    millisecond it denotes (\<open>Date.parse\<close> is the inverse), so a lexicographic comparison of two
    such strings is the comparison of two integers.
\<close>

named_theorems cp_simps "equations and case splits of the store operations"
named_theorems cp_frames "fields an operation leaves unchanged"


section \<open>Outcomes and errors\<close>

type_synonym iso = int

record quota_info =
  qe_message :: string
  qe_policyCode :: string
  qe_retryAfterMs :: int
  qe_limit :: int
  qe_used :: int
  qe_resetAt :: iso

datatype error = Error string | QuotaExceeded quota_info | IdConflict string

type_synonym ('s, 'a) outcome = "(error + 'a) \<times> 's"

text \<open>A pure computation that may throw, followed by the rest of the method.\<close>

definition try_in :: "'s \<Rightarrow> error + 'a \<Rightarrow> ('a \<Rightarrow> ('s, 'b) outcome) \<Rightarrow> ('s, 'b) outcome" where
  "try_in s m k = (case m of Inl e \<Rightarrow> (Inl e, s) | Inr a \<Rightarrow> k a)"

text \<open>The same over pure computations only.\<close>

definition try_pure :: "error + 'a \<Rightarrow> ('a \<Rightarrow> error + 'b) \<Rightarrow> error + 'b" where
  "try_pure m k = (case m of Inl e \<Rightarrow> Inl e | Inr a \<Rightarrow> k a)"

text \<open>A call that may throw and may change the state, followed by the rest of the method.\<close>

definition then_do :: "('s, 'a) outcome \<Rightarrow> ('a \<Rightarrow> 's \<Rightarrow> ('s, 'b) outcome) \<Rightarrow> ('s, 'b) outcome" where
  "then_do r k = (case r of (Inl e, s) \<Rightarrow> (Inl e, s) | (Inr a, s) \<Rightarrow> k a s)"


section \<open>JavaScript Map\<close>

type_synonym 'v jsmap = "(string \<times> 'v) list"

definition map_get :: "'v jsmap \<Rightarrow> string \<Rightarrow> 'v option" where
  "map_get m k = map_of m k"

primrec map_set :: "string \<Rightarrow> 'v \<Rightarrow> 'v jsmap \<Rightarrow> 'v jsmap" where
  "map_set k v [] = [(k, v)]"
| "map_set k v (p # ps) = (if fst p = k then (k, v) # ps else p # map_set k v ps)"

definition map_delete :: "string \<Rightarrow> 'v jsmap \<Rightarrow> 'v jsmap" where
  "map_delete k m = filter (\<lambda>p. fst p \<noteq> k) m"

definition map_values :: "'v jsmap \<Rightarrow> 'v list" where
  "map_values m = map snd m"

definition map_has :: "'v jsmap \<Rightarrow> string \<Rightarrow> bool" where
  "map_has m k = (map_get m k \<noteq> None)"

definition map_ok :: "'v jsmap \<Rightarrow> bool" where
  "map_ok m = distinct (map fst m)"


section \<open>Comparators and sorting\<close>

fun js_insert :: "('a \<Rightarrow> 'a \<Rightarrow> int) \<Rightarrow> 'a \<Rightarrow> 'a list \<Rightarrow> 'a list" where
  "js_insert c x [] = [x]"
| "js_insert c x (y # ys) = (if c x y \<le> 0 then x # y # ys else y # js_insert c x ys)"

definition js_sort :: "('a \<Rightarrow> 'a \<Rightarrow> int) \<Rightarrow> 'a list \<Rightarrow> 'a list" where
  "js_sort c xs = foldr (js_insert c) xs []"

definition cmp_int :: "int \<Rightarrow> int \<Rightarrow> int" where
  "cmp_int a b = a - b"

definition cmp_by :: "('a \<Rightarrow> 'b) \<Rightarrow> ('b \<Rightarrow> 'b \<Rightarrow> int) \<Rightarrow> 'a \<Rightarrow> 'a \<Rightarrow> int" where
  "cmp_by f c x y = c (f x) (f y)"

definition cmp_rev :: "('a \<Rightarrow> 'a \<Rightarrow> int) \<Rightarrow> 'a \<Rightarrow> 'a \<Rightarrow> int" where
  "cmp_rev c x y = c y x"

text \<open>\<open>left.compare(right) || next\<close>: the second comparator decides only when the first is 0.\<close>

definition cmp_then :: "('a \<Rightarrow> 'a \<Rightarrow> int) \<Rightarrow> ('a \<Rightarrow> 'a \<Rightarrow> int) \<Rightarrow> 'a \<Rightarrow> 'a \<Rightarrow> int" where
  "cmp_then c d x y = (if c x y \<noteq> 0 then c x y else d x y)"

text \<open>The code-unit order of strings, JavaScript's \<open><\<close> on strings.\<close>

fun str_less :: "string \<Rightarrow> string \<Rightarrow> bool" where
  "str_less xs [] = False"
| "str_less [] (y # ys) = True"
| "str_less (x # xs) (y # ys) =
     (if x = y then str_less xs ys else (of_char x :: nat) < of_char y)"

definition cmp_code_units :: "string \<Rightarrow> string \<Rightarrow> int" where
  "cmp_code_units x y = (if x = y then 0 else if str_less x y then -1 else 1)"


section \<open>Strings\<close>

definition is_js_space :: "char \<Rightarrow> bool" where
  "is_js_space c = ((of_char c :: nat) \<in> {9, 10, 11, 12, 13, 32, 160})"

definition js_trim :: "string \<Rightarrow> string" where
  "js_trim s = rev (dropWhile is_js_space (rev (dropWhile is_js_space s)))"

definition js_lower_char :: "char \<Rightarrow> char" where
  "js_lower_char c =
     (let n = (of_char c :: nat) in
      if (65 \<le> n \<and> n \<le> 90) \<or> (192 \<le> n \<and> n \<le> 222 \<and> n \<noteq> 215) then char_of (n + 32) else c)"

definition js_lower :: "string \<Rightarrow> string" where
  "js_lower s = map js_lower_char s"

text \<open>\<open>s || null\<close>, \<open>s || other\<close> and \<open>a ?? b\<close> on nullable strings.\<close>

definition or_null :: "string option \<Rightarrow> string option" where
  "or_null v = (case v of Some s \<Rightarrow> (if s = [] then None else Some s) | None \<Rightarrow> None)"

definition or_else :: "string option \<Rightarrow> string \<Rightarrow> string" where
  "or_else v d = (case or_null v of Some s \<Rightarrow> s | None \<Rightarrow> d)"

definition coalesce :: "'a option \<Rightarrow> 'a \<Rightarrow> 'a" where
  "coalesce v d = (case v of Some x \<Rightarrow> x | None \<Rightarrow> d)"

text \<open>Decimal rendering, as in \<open>`${n}`\<close> and \<open>String(n)\<close>.\<close>

definition digit_char :: "nat \<Rightarrow> char" where
  "digit_char d = char_of (48 + d)"

fun show_nat :: "nat \<Rightarrow> string" where
  "show_nat n = (if n < 10 then [digit_char n] else show_nat (n div 10) @ [digit_char (n mod 10)])"

declare show_nat.simps [simp del]

definition show_int :: "int \<Rightarrow> string" where
  "show_int i = (if i < 0 then CHR ''-'' # show_nat (nat (- i)) else show_nat (nat i))"

fun join_with :: "char \<Rightarrow> string list \<Rightarrow> string" where
  "join_with c [] = []"
| "join_with c [x] = x"
| "join_with c (x # y # ys) = x @ c # join_with c (y # ys)"

fun starts_with :: "string \<Rightarrow> string \<Rightarrow> bool" where
  "starts_with s [] = True"
| "starts_with [] (p # ps) = False"
| "starts_with (x # xs) (p # ps) = (x = p \<and> starts_with xs ps)"

fun str_includes :: "string \<Rightarrow> string \<Rightarrow> bool" where
  "str_includes [] p = (p = [])"
| "str_includes (x # xs) p = (starts_with (x # xs) p \<or> str_includes xs p)"


text \<open>
  \<open>Date.prototype.toISOString\<close> on a millisecond: the proleptic Gregorian date of the day number
  (eras of 400 years counted from 0000-03-01) and the time of day, zero-padded.
\<close>

definition pad_to :: "nat \<Rightarrow> int \<Rightarrow> string" where
  "pad_to w i = replicate (w - length (show_nat (nat i))) (CHR ''0'') @ show_nat (nat i)"

definition iso_year :: "int \<Rightarrow> string" where
  "iso_year y =
     (if 0 \<le> y \<and> y \<le> 9999 then pad_to 4 y
      else (if y < 0 then CHR ''-'' else CHR ''+'') # pad_to 6 (abs y))"

definition iso_text :: "iso \<Rightarrow> string" where
  "iso_text t =
     (let z = t div 86400000 + 719468; ms = t mod 86400000;
          era = z div 146097; doe = z mod 146097;
          yoe = (doe - doe div 1460 + doe div 36524 - doe div 146096) div 365;
          doy = doe - (365 * yoe + yoe div 4 - yoe div 100);
          mp = (5 * doy + 2) div 153;
          d = doy - (153 * mp + 2) div 5 + 1;
          m = (if mp < 10 then mp + 3 else mp - 9);
          y = yoe + era * 400 + (if m \<le> 2 then 1 else 0)
      in iso_year y @ CHR ''-'' # pad_to 2 m @ CHR ''-'' # pad_to 2 d @ CHR ''T'' #
         pad_to 2 (ms div 3600000) @ CHR '':'' # pad_to 2 (ms div 60000 mod 60) @ CHR '':'' #
         pad_to 2 (ms div 1000 mod 60) @ CHR ''.'' # pad_to 3 (ms mod 1000) @ ''Z'')"


text \<open>\<open>[...new Set(xs)]\<close>: the first occurrence of every element. \<open>s.slice(-n)\<close>: the last \<open>n\<close> code units.\<close>

fun js_unique :: "'a list \<Rightarrow> 'a list" where
  "js_unique [] = []"
| "js_unique (x # xs) = x # filter (\<lambda>y. y \<noteq> x) (js_unique xs)"

definition slice_last :: "nat \<Rightarrow> string \<Rightarrow> string" where
  "slice_last n s = drop (length s - n) s"


section \<open>Numbers\<close>

datatype jsnum = JInt int | JFrac int | JPosInf | JNegInf | JNaN

fun js_is_integer :: "jsnum \<Rightarrow> bool" where
  "js_is_integer (JInt _) = True"
| "js_is_integer _ = False"

fun js_is_finite :: "jsnum \<Rightarrow> bool" where
  "js_is_finite (JInt _) = True"
| "js_is_finite (JFrac _) = True"
| "js_is_finite _ = False"

fun js_truthy :: "jsnum \<Rightarrow> bool" where
  "js_truthy (JInt i) = (i \<noteq> 0)"
| "js_truthy JNaN = False"
| "js_truthy _ = True"

fun js_floor :: "jsnum \<Rightarrow> jsnum" where
  "js_floor (JFrac i) = JInt i"
| "js_floor x = x"

text \<open>\<open>Math.max(lo, x)\<close> and \<open>Math.min(hi, x)\<close> with an integer bound.\<close>

fun js_max :: "int \<Rightarrow> jsnum \<Rightarrow> jsnum" where
  "js_max lo (JInt i) = JInt (max lo i)"
| "js_max lo (JFrac i) = (if lo \<le> i then JFrac i else JInt lo)"
| "js_max lo JPosInf = JPosInf"
| "js_max lo JNegInf = JInt lo"
| "js_max lo JNaN = JNaN"

fun js_min :: "int \<Rightarrow> jsnum \<Rightarrow> jsnum" where
  "js_min hi (JInt i) = JInt (min hi i)"
| "js_min hi (JFrac i) = (if hi \<le> i then JInt hi else JFrac i)"
| "js_min hi JPosInf = JInt hi"
| "js_min hi JNegInf = JNegInf"
| "js_min hi JNaN = JNaN"

text \<open>\<open>x > 0\<close> and \<open>x < 0\<close>.\<close>

fun js_positive :: "jsnum \<Rightarrow> bool" where
  "js_positive (JInt i) = (0 < i)"
| "js_positive (JFrac i) = (0 \<le> i)"
| "js_positive JPosInf = True"
| "js_positive _ = False"

text \<open>\<open>xs.slice(0, n)\<close>: the end index is truncated towards zero, a negative one counts from the end.\<close>

definition slice_int :: "'a list \<Rightarrow> int \<Rightarrow> 'a list" where
  "slice_int xs i = (if i < 0 then take (nat (int (length xs) + i)) xs else take (nat i) xs)"

fun js_slice :: "'a list \<Rightarrow> jsnum \<Rightarrow> 'a list" where
  "js_slice xs (JInt i) = slice_int xs i"
| "js_slice xs (JFrac i) = slice_int xs (if i < 0 then i + 1 else i)"
| "js_slice xs JPosInf = xs"
| "js_slice xs JNegInf = []"
| "js_slice xs JNaN = []"


section \<open>The environment of a call\<close>

text \<open>
  What an operation reads from outside the store: the wall clock (\<open>Date.now()\<close>, \<open>new Date()\<close>; one
  reading per call), \<open>node:crypto\<close>'s SHA-256 and random bytes, the ICU collation behind
  \<open>String.prototype.localeCompare\<close>, and the regular-expression passes of the text redactors
  (\<open>operational-text-redaction.ts\<close>, \<open>audit-redaction.ts\<close>, \<open>secret-redaction.ts\<close>), which are arguments
  of the model: what is proved holds for every choice of them.
\<close>

record env =
  clock :: iso
  sha256_hex :: "string \<Rightarrow> string"
  random_text :: string
  locale_compare :: "string \<Rightarrow> string \<Rightarrow> int"
  redact_patterns :: "string \<Rightarrow> string"
  sanitize_audit_text :: "string \<Rightarrow> string"
  redact_secret :: "string \<Rightarrow> int \<Rightarrow> string"


text \<open>A concrete environment, for witnesses: code-unit collation, identity redactors, clock at 0.\<close>

definition sample_env :: env where
  "sample_env = \<lparr> clock = 0, sha256_hex = (\<lambda>t. t), random_text = ''r'', locale_compare = cmp_code_units,
     redact_patterns = (\<lambda>t. t), sanitize_audit_text = (\<lambda>t. t), redact_secret = (\<lambda>t n. ''***'') \<rparr>"


section \<open>Laws of Map\<close>

lemma map_get_Nil [simp]: "map_get [] k = None"
  by (simp add: map_get_def)

lemma map_get_set [simp]: "map_get (map_set k v m) k' = (if k' = k then Some v else map_get m k')"
  by (induction m) (auto simp: map_get_def)

lemma keys_map_set: "map fst (map_set k v m) = (if k \<in> fst ` set m then map fst m else map fst m @ [k])"
  by (induction m) auto

lemma map_ok_Nil [simp, intro]: "map_ok []"
  by (simp add: map_ok_def)

lemma map_ok_set [simp, intro]: "map_ok m \<Longrightarrow> map_ok (map_set k v m)"
  by (auto simp: map_ok_def keys_map_set)

lemma map_ok_delete [simp, intro]: "map_ok m \<Longrightarrow> map_ok (map_delete k m)"
  by (induction m) (auto simp: map_ok_def map_delete_def)

lemma map_get_delete [simp]: "map_get (map_delete k m) k' = (if k' = k then None else map_get m k')"
  by (induction m) (auto simp: map_get_def map_delete_def)

lemma map_get_in_set: "map_get m k = Some v \<Longrightarrow> (k, v) \<in> set m"
  by (simp add: map_get_def map_of_SomeD)

lemma map_get_values: "map_get m k = Some v \<Longrightarrow> v \<in> set (map_values m)"
  by (force simp: map_values_def dest: map_get_in_set)

lemma in_set_map_get: "map_ok m \<Longrightarrow> (k, v) \<in> set m \<Longrightarrow> map_get m k = Some v"
  by (simp add: map_ok_def map_get_def)

lemma map_get_iff: "map_ok m \<Longrightarrow> map_get m k = Some v \<longleftrightarrow> (k, v) \<in> set m"
  by (auto dest: map_get_in_set in_set_map_get)

lemma values_map_get: "map_ok m \<Longrightarrow> v \<in> set (map_values m) \<longleftrightarrow> (\<exists>k. map_get m k = Some v)"
  by (auto simp: map_values_def map_get_iff image_iff) force

lemma set_values_map_set: "set (map_values (map_set k v m)) \<subseteq> insert v (set (map_values m))"
  by (induction m) (auto simp: map_values_def)

lemma map_set_fresh: "map_get m k = None \<Longrightarrow> map_set k v m = m @ [(k, v)]"
  by (induction m) (auto simp: map_get_def split: if_splits)

lemma length_map_set: "length (map_set k v m) = (if map_get m k = None then Suc (length m) else length m)"
  by (induction m) (auto simp: map_get_def)

text \<open>
  The interface a component relies on when it keeps its records in a keyed collection: what a
  read returns after a write or a deletion. Clients that only use these laws are proved once here.
\<close>

locale keyed_store =
  fixes get :: "'m \<Rightarrow> 'k \<Rightarrow> 'v option"
    and put :: "'k \<Rightarrow> 'v \<Rightarrow> 'm \<Rightarrow> 'm"
    and del :: "'k \<Rightarrow> 'm \<Rightarrow> 'm"
  assumes get_put: "get (put k v m) k' = (if k' = k then Some v else get m k')"
    and get_del: "get (del k m) k' = (if k' = k then None else get m k')"
begin

lemma put_frame: "k' \<noteq> k \<Longrightarrow> get (put k v m) k' = get m k'"
  by (simp add: get_put)

lemma put_put_get: "get (put k v (put k w m)) = get (put k v m)"
  by (rule ext) (simp add: get_put)

lemma del_put_get: "get (del k (put k v m)) = get (del k m)"
  by (rule ext) (simp add: get_put get_del)

lemma put_all: "(\<And>k v. get m k = Some v \<Longrightarrow> P k v) \<Longrightarrow> P k v \<Longrightarrow> get (put k v m) j = Some w \<Longrightarrow> P j w"
  by (auto simp: get_put split: if_splits)

lemma del_all: "(\<And>k v. get m k = Some v \<Longrightarrow> P k v) \<Longrightarrow> get (del k m) j = Some w \<Longrightarrow> P j w"
  by (auto simp: get_del split: if_splits)

end

interpretation js: keyed_store map_get map_set map_delete
  by unfold_locales simp_all


section \<open>Laws of sorting\<close>

lemma mset_js_insert [simp]: "mset (js_insert c x xs) = {#x#} + mset xs"
  by (induction xs) auto

lemma mset_js_sort [simp]: "mset (js_sort c xs) = mset xs"
  by (induction xs) (auto simp: js_sort_def)

lemma set_js_insert [simp]: "set (js_insert c x xs) = insert x (set xs)"
  by (induction xs) auto

lemma set_js_sort [simp]: "set (js_sort c xs) = set xs"
  by (metis mset_js_sort set_mset_mset)

lemma length_js_sort [simp]: "length (js_sort c xs) = length xs"
  by (metis mset_js_sort size_mset)

lemma distinct_js_sort [simp]: "distinct (js_sort c xs) = distinct xs"
  by (metis mset_js_sort mset_eq_imp_distinct_iff)

lemma distinct_map_js_sort [simp]: "distinct (map f (js_sort c xs)) = distinct (map f xs)"
  by (rule mset_eq_imp_distinct_iff) simp

text \<open>Comparators that agree on the elements sort them alike.\<close>

lemma js_sort_cong:
  assumes "\<And>x y. x \<in> set xs \<Longrightarrow> y \<in> set xs \<Longrightarrow> c x y \<le> 0 \<longleftrightarrow> c' x y \<le> 0"
  shows "js_sort c xs = js_sort c' xs"
proof -
  have ins: "js_insert c x ys = js_insert c' x ys" if "x \<in> set xs" "set ys \<subseteq> set xs" for x ys
    using that by (induction ys) (auto simp: assms)
  have "set zs \<subseteq> set xs \<Longrightarrow> js_sort c zs = js_sort c' zs" for zs
  proof (induction zs)
    case (Cons z zs)
    then have "js_sort c zs = js_sort c' zs" by simp
    moreover have "set (js_sort c' zs) \<subseteq> set xs" using Cons.prems by simp
    ultimately show ?case using ins Cons.prems by (simp add: js_sort_def)
  qed (simp add: js_sort_def)
  then show ?thesis by simp
qed

text \<open>
  The contract of a comparator handed to \<open>sort\<close>: antisymmetric in sign and transitive. Under it
  the result of \<open>js_sort\<close> is sorted, and elements the comparator identifies keep their order.
\<close>

locale js_comparator =
  fixes cmp :: "'a \<Rightarrow> 'a \<Rightarrow> int"
  assumes cmp_sgn: "sgn (cmp y x) = - sgn (cmp x y)"
    and cmp_trans: "cmp x y \<le> 0 \<Longrightarrow> cmp y z \<le> 0 \<Longrightarrow> cmp x z \<le> 0"
begin

lemma cmp_refl: "cmp x x = 0"
  using cmp_sgn [of x x] by (simp add: sgn_if split: if_splits)

lemma cmp_total: "\<not> cmp x y \<le> 0 \<Longrightarrow> cmp y x < 0"
  using cmp_sgn [of x y] by (auto simp: sgn_if split: if_splits)

lemma cmp_zero_sym: "cmp x y = 0 \<longleftrightarrow> cmp y x = 0"
  using cmp_sgn [of x y] by (auto simp: sgn_if split: if_splits)

lemma sorted_insert:
  "sorted_wrt (\<lambda>x y. cmp x y \<le> 0) xs \<Longrightarrow> sorted_wrt (\<lambda>x y. cmp x y \<le> 0) (js_insert cmp x xs)"
proof (induction xs)
  case Nil
  then show ?case by simp
next
  case (Cons y ys)
  then show ?case
    using cmp_total [of x y] by (auto intro: cmp_trans)
qed

lemma sorted_sort: "sorted_wrt (\<lambda>x y. cmp x y \<le> 0) (js_sort cmp xs)"
  by (induction xs) (auto simp: js_sort_def sorted_insert)

lemma hd_sort_least:
  assumes "y \<in> set xs"
  shows "cmp (hd (js_sort cmp xs)) y \<le> 0"
proof -
  have "js_sort cmp xs \<noteq> []" using assms by (metis empty_iff list.set(1) set_js_sort)
  then obtain z zs where z: "js_sort cmp xs = z # zs" by (cases "js_sort cmp xs") auto
  have "y \<in> set (z # zs)" using assms z by (metis set_js_sort)
  moreover have "sorted_wrt (\<lambda>x y. cmp x y \<le> 0) (z # zs)" using sorted_sort [of xs] z by simp
  ultimately show ?thesis using z cmp_refl by auto
qed

lemma take_sort_least:
  assumes "x \<in> set (take n (js_sort cmp xs))" and "y \<in> set (drop n (js_sort cmp xs))"
  shows "cmp x y \<le> 0"
proof -
  have "sorted_wrt (\<lambda>x y. cmp x y \<le> 0) (take n (js_sort cmp xs) @ drop n (js_sort cmp xs))"
    using sorted_sort [of xs] by simp
  then show ?thesis using assms unfolding sorted_wrt_append by blast
qed

end

lemma js_comparator_rev [intro]: "js_comparator c \<Longrightarrow> js_comparator (cmp_rev c)"
  unfolding js_comparator_def cmp_rev_def by (metis minus_minus)

lemma js_comparator_by [intro]: "js_comparator c \<Longrightarrow> js_comparator (cmp_by f c)"
  unfolding js_comparator_def cmp_by_def by metis

lemma js_comparator_then [intro]:
  assumes c: "js_comparator c" and d: "js_comparator d"
  shows "js_comparator (cmp_then c d)"
proof (unfold_locales)
  fix x y z
  note cs = js_comparator.cmp_sgn [OF c] and ct = js_comparator.cmp_trans [OF c]
  note cz = js_comparator.cmp_zero_sym [OF c]
  show "sgn (cmp_then c d y x) = - sgn (cmp_then c d x y)"
    using cs [of x y] cs [of y x] cz [of x y] js_comparator.cmp_sgn [OF d, of x y] js_comparator.cmp_sgn [OF d, of y x]
    by (simp add: cmp_then_def)
  assume xy: "cmp_then c d x y \<le> 0" and yz: "cmp_then c d y z \<le> 0"
  then have le: "c x y \<le> 0" "c y z \<le> 0" by (auto simp: cmp_then_def split: if_splits)
  then have xz: "c x z \<le> 0" by (rule ct)
  show "cmp_then c d x z \<le> 0"
  proof (cases "c x z = 0")
    case True
    then have "c z x \<le> 0" using cz [of x z] by simp
    then have "c y x \<le> 0" "c z y \<le> 0" using le ct by blast+
    then have "c x y = 0" "c y z = 0"
      using le cs [of x y] cs [of y z] by (auto simp: sgn_if split: if_splits)
    then show ?thesis
      using xy yz True js_comparator.cmp_trans [OF d] by (simp add: cmp_then_def)
  next
    case False
    with xz show ?thesis by (simp add: cmp_then_def)
  qed
qed

interpretation int_order: js_comparator cmp_int
  by unfold_locales (auto simp: cmp_int_def sgn_if)

lemma str_less_irrefl [simp]: "\<not> str_less x x"
  by (induction x) auto

lemma str_less_trans: "str_less x y \<Longrightarrow> str_less y z \<Longrightarrow> str_less x z"
proof (induction x y arbitrary: z rule: str_less.induct)
  case (3 a as b bs)
  show ?case
  proof (cases z)
    case (Cons d ds)
    have inj: "\<And>p q :: char. (of_char p :: nat) = of_char q \<longleftrightarrow> p = q" by simp
    from 3 Cons show ?thesis by (auto split: if_splits)
  qed (use 3 in simp)
next
  case (2 b bs)
  then show ?case by (cases z) auto
qed simp

lemma str_less_total: "x \<noteq> y \<Longrightarrow> str_less x y \<or> str_less y x"
proof (induction x y rule: str_less.induct)
  case (1 xs)
  then show ?case by (cases xs) auto
next
  case (3 a as b bs)
  show ?case
  proof (cases "a = b")
    case False
    then have "(of_char a :: nat) < of_char b \<or> (of_char b :: nat) < of_char a"
      by (meson linorder_neqE_nat of_char_eq_iff)
    with False show ?thesis by simp
  qed (use 3 in simp)
qed simp

lemma str_less_asym: "str_less x y \<Longrightarrow> \<not> str_less y x"
  using str_less_trans str_less_irrefl by blast

interpretation code_unit_order: js_comparator cmp_code_units
proof unfold_locales
  fix x y z
  show "sgn (cmp_code_units y x) = - sgn (cmp_code_units x y)"
    using str_less_total [of x y] str_less_asym [of x y] by (auto simp: cmp_code_units_def)
  show "cmp_code_units x y \<le> 0 \<Longrightarrow> cmp_code_units y z \<le> 0 \<Longrightarrow> cmp_code_units x z \<le> 0"
    using str_less_trans [of x y z] by (auto simp: cmp_code_units_def split: if_splits)
qed


section \<open>Laws of strings\<close>

lemma digit_char_inj: "a < 10 \<Longrightarrow> b < 10 \<Longrightarrow> digit_char a = digit_char b \<Longrightarrow> a = b"
  by (simp add: digit_char_def char_of_eq_iff take_bit_eq_mod)

lemma show_nat_nonempty [simp]: "show_nat n \<noteq> []"
  by (subst show_nat.simps) simp

lemma show_nat_inj: "show_nat m = show_nat n \<Longrightarrow> m = n"
proof (induction m arbitrary: n rule: show_nat.induct)
  case (1 m)
  show ?case
  proof (cases "m < 10")
    case True
    show ?thesis
    proof (cases "n < 10")
      case True
      with 1 \<open>m < 10\<close> show ?thesis
        by (simp add: show_nat.simps [of m] show_nat.simps [of n] digit_char_inj)
    next
      case False
      have "show_nat (n div 10) \<noteq> []" by simp
      with 1 \<open>m < 10\<close> False show ?thesis
        by (simp add: show_nat.simps [of m] show_nat.simps [of n] Cons_eq_append_conv)
    qed
  next
    case False
    show ?thesis
    proof (cases "n < 10")
      case True
      have "show_nat (m div 10) \<noteq> []" by simp
      with 1 \<open>\<not> m < 10\<close> True show ?thesis
        by (simp add: show_nat.simps [of m] show_nat.simps [of n] append_eq_Cons_conv)
    next
      case False
      with 1 \<open>\<not> m < 10\<close> have eq: "show_nat (m div 10) = show_nat (n div 10)"
        and dg: "digit_char (m mod 10) = digit_char (n mod 10)"
        by (simp_all add: show_nat.simps [of m] show_nat.simps [of n])
      from 1 \<open>\<not> m < 10\<close> eq have "m div 10 = n div 10" by simp
      moreover from dg have "m mod 10 = n mod 10" by (rule digit_char_inj [rotated 2]) auto
      ultimately show ?thesis by (metis div_mult_mod_eq)
    qed
  qed
qed

lemma digit_char_range: "d < 10 \<Longrightarrow> c = digit_char d \<Longrightarrow> 48 \<le> (of_char c :: nat) \<and> (of_char c :: nat) \<le> 57"
  by (simp add: digit_char_def take_bit_eq_mod)

lemma show_nat_digits: "c \<in> set (show_nat n) \<Longrightarrow> 48 \<le> (of_char c :: nat) \<and> (of_char c :: nat) \<le> 57"
proof (induction n rule: show_nat.induct)
  case (1 n)
  show ?case
  proof (cases "n < 10")
    case True
    with 1 show ?thesis by (simp add: show_nat.simps [of n] digit_char_range)
  next
    case False
    with 1 consider "c \<in> set (show_nat (n div 10))" | "c = digit_char (n mod 10)"
      by (auto simp: show_nat.simps [of n])
    then show ?thesis
    proof cases
      case 1
      with "1.IH" False show ?thesis by simp
    next
      case 2
      then show ?thesis by (rule digit_char_range [rotated]) simp
    qed
  qed
qed

lemma show_nat_no_sep: "c \<in> {CHR '':'', CHR 0x00, CHR ''-''} \<Longrightarrow> c \<notin> set (show_nat n)"
  using show_nat_digits [of c n] by auto

text \<open>A separator that occurs in neither part makes a concatenation decodable.\<close>

lemma sep_append_inj:
  assumes "x @ c # y = x' @ c # y'" and "c \<notin> set x" and "c \<notin> set x'"
  shows "x = x' \<and> y = y'"
  using assms
proof (induction x arbitrary: x')
  case Nil
  then show ?case by (cases x') auto
next
  case (Cons a as)
  then show ?case by (cases x') auto
qed

lemma set_js_unique [simp]: "set (js_unique xs) = set xs"
  by (induction xs) auto

lemma distinct_js_unique [simp]: "distinct (js_unique xs)"
  by (induction xs) auto

end
