(* ===== verification/Store_Helpers.thy ===== *)
theory Store_Helpers
  imports CP_Prelude
begin

text \<open>
  The shared pure helpers of \<open>in-memory-domains/store-helpers.ts\<close> and the quota error constructors
  of \<open>control-plane-errors.ts\<close>: storage keys, list limits, text and integer normalizers, the
  event-replay slice and the bounded oldest-first prune.
\<close>


section \<open>Definitions\<close>

definition nowIso :: "env \<Rightarrow> iso option \<Rightarrow> iso" where
  "nowIso e now = (case now of Some t \<Rightarrow> t | None \<Rightarrow> clock e)"

text \<open>The loop of \<open>pruneOldestByCreatedAt\<close>: delete while fewer than \<open>limit\<close> were removed.\<close>

fun prune_loop :: "(string \<times> iso) list \<Rightarrow> int \<Rightarrow> int \<Rightarrow> 'v jsmap \<Rightarrow> int \<times> 'v jsmap" where
  "prune_loop [] removed limit records = (removed, records)"
| "prune_loop (entry # rest) removed limit records =
     (if removed \<ge> limit then (removed, records)
      else prune_loop rest (removed + 1) limit (map_delete (fst entry) records))"

definition pruneOldestByCreatedAt ::
  "'v jsmap \<Rightarrow> ('v \<Rightarrow> iso) \<Rightarrow> iso \<Rightarrow> int \<Rightarrow> int \<times> 'v jsmap" where
  "pruneOldestByCreatedAt records createdAtOf cutoffIso limit =
     (let stale = filter (\<lambda>p. snd p < cutoffIso)
                    (map (\<lambda>p. (fst p, createdAtOf (snd p))) records)
      in prune_loop (js_sort (cmp_by snd cmp_int) stale) 0 limit records)"

definition normalizeListLimit :: "jsnum option \<Rightarrow> int \<Rightarrow> int \<Rightarrow> jsnum" where
  "normalizeListLimit value fallback mx =
     (case value of
        None \<Rightarrow> JInt fallback
      | Some v \<Rightarrow>
          if \<not> js_is_finite v then JInt fallback
          else js_max 1 (js_min mx (js_floor (if js_truthy v then v else JInt fallback))))"

definition key :: "string list \<Rightarrow> string" where
  "key parts = join_with (CHR 0x00) parts"

definition is_word_char :: "char \<Rightarrow> bool" where
  "is_word_char c =
     (let n = (of_char c :: nat) in
      (48 \<le> n \<and> n \<le> 57) \<or> (65 \<le> n \<and> n \<le> 90) \<or> (97 \<le> n \<and> n \<le> 122) \<or> n = 95)"

text \<open>\<open>/\b(w)\b/.test(s)\<close>; the flag says whether the code unit before \<open>s\<close> is a word character.\<close>

fun has_word_from :: "bool \<Rightarrow> string \<Rightarrow> string \<Rightarrow> bool" where
  "has_word_from prev w [] = False"
| "has_word_from prev w (c # cs) =
     ((\<not> prev \<and> starts_with (c # cs) w
        \<and> (case drop (length w) (c # cs) of [] \<Rightarrow> True | d # ds \<Rightarrow> \<not> is_word_char d))
      \<or> has_word_from (is_word_char c) w cs)"

definition workspaceOperationFromType :: "string \<Rightarrow> string" where
  "workspaceOperationFromType t =
     (if list_ex (\<lambda>w. has_word_from False w t) [''created'', ''submitted'', ''uploaded'', ''started'']
      then ''create''
      else if list_ex (\<lambda>w. has_word_from False w t) [''deleted'', ''removed'', ''archived'']
      then ''delete''
      else ''update'')"

definition optionalTrimmedText :: "string option \<Rightarrow> string option" where
  "optionalTrimmedText value =
     (case value of
        Some v \<Rightarrow> (if js_trim v \<noteq> [] then Some (js_trim v) else None)
      | None \<Rightarrow> None)"

definition sliceEventsAfter :: "('e \<Rightarrow> int) \<Rightarrow> 'e list \<Rightarrow> int \<Rightarrow> jsnum option \<Rightarrow> 'e list" where
  "sliceEventsAfter sequence events afterSequence limit =
     (let matching = filter (\<lambda>event. sequence event > afterSequence) events in
      case limit of
        Some l \<Rightarrow> (if js_is_integer l \<and> js_positive l then js_slice matching l else matching)
      | None \<Rightarrow> matching)"

text \<open>A value that is not a string is \<open>None\<close>.\<close>

definition normalizeText :: "string option \<Rightarrow> int \<Rightarrow> string \<Rightarrow> error + string" where
  "normalizeText value maxLength label =
     (case value of
        None \<Rightarrow> Inl (Error (label @ '' is required.''))
      | Some v \<Rightarrow>
          if js_trim v = [] then Inl (Error (label @ '' is required.''))
          else if int (length (js_trim v)) > maxLength
          then Inl (Error (label @ '' exceeds '' @ show_int maxLength @ '' characters.''))
          else Inr (js_trim v))"

definition normalizeOptionalText :: "string option \<Rightarrow> int \<Rightarrow> string \<Rightarrow> error + string option" where
  "normalizeOptionalText value maxLength label =
     (case value of
        None \<Rightarrow> Inr None
      | Some v \<Rightarrow> try_pure (normalizeText (Some v) maxLength label) (\<lambda>t. Inr (Some t)))"

definition normalizeNullableText :: "string option \<Rightarrow> int \<Rightarrow> string \<Rightarrow> error + string option" where
  "normalizeNullableText value maxLength label =
     (if value = None \<or> value = Some [] then Inr None
      else try_pure (normalizeText value maxLength label) (\<lambda>t. Inr (Some t)))"

definition normalizeNonNegativeInteger :: "jsnum option \<Rightarrow> string \<Rightarrow> error + int" where
  "normalizeNonNegativeInteger value label =
     (case coalesce value (JInt 0) of
        JInt i \<Rightarrow> (if i < 0 then Inl (Error (label @ '' must be a non-negative integer.'')) else Inr i)
      | _ \<Rightarrow> Inl (Error (label @ '' must be a non-negative integer.'')))"

definition normalizePositiveInteger :: "jsnum option \<Rightarrow> string \<Rightarrow> error + int" where
  "normalizePositiveInteger value label =
     (case coalesce value (JInt 0) of
        JInt i \<Rightarrow> (if i \<le> 0 then Inl (Error (label @ '' must be a positive integer.'')) else Inr i)
      | _ \<Rightarrow> Inl (Error (label @ '' must be a positive integer.'')))"

definition redactOperationalText :: "env \<Rightarrow> string \<Rightarrow> int \<Rightarrow> string \<Rightarrow> error + string" where
  "redactOperationalText e value maxLength label =
     (if js_trim value = [] then Inl (Error (label @ '' is required.''))
      else let redacted = redact_patterns e (js_trim value) in
        if int (length redacted) \<le> maxLength then Inr redacted
        else Inr (slice_int redacted (if maxLength \<le> 3 then maxLength else maxLength - 3)
                  @ (if maxLength \<le> 3 then '''' else ''...'')))"

text \<open>\<open>stableId\<close>, repeated in most domain modules: a prefix and 32 hex digits of a SHA-256.\<close>

definition stableId :: "env \<Rightarrow> string \<Rightarrow> string list \<Rightarrow> string" where
  "stableId e prefix parts = prefix @ ''_'' @ take 32 (sha256_hex e (join_with (CHR 0x00) parts))"

definition publicQuotaMessage :: "string option \<Rightarrow> string" where
  "publicQuotaMessage policyCode =
     (if policyCode = Some ''quota.prompts_per_hour_exceeded'' then ''Cloud prompt quota exceeded.''
      else if policyCode = Some ''quota.gateway_prompts_per_hour_exceeded'' then ''Gateway prompt quota exceeded.''
      else if policyCode = Some ''quota.workflow_runs_per_hour_exceeded'' then ''Cloud workflow run quota exceeded.''
      else if policyCode = Some ''quota.worker_minutes_per_hour_exceeded'' then ''Cloud worker minute quota exceeded.''
      else if policyCode = Some ''quota.queued_commands_exceeded'' then ''Cloud command queue is full.''
      else if policyCode = Some ''quota.queue_age_exceeded''
      then ''Cloud command queue is too old to accept more work.''
      else ''Cloud usage quota exceeded.'')"

definition quotaExceeded ::
  "string \<Rightarrow> string \<Rightarrow> int \<Rightarrow> int \<Rightarrow> int \<Rightarrow> iso \<Rightarrow> error" where
  "quotaExceeded message policyCode retryAfterMs limit used resetAt =
     QuotaExceeded \<lparr> qe_message = message, qe_policyCode = policyCode, qe_retryAfterMs = retryAfterMs,
       qe_limit = limit, qe_used = used, qe_resetAt = resetAt \<rparr>"


section \<open>Storage keys\<close>

lemma key_two: "key [a, b] = a @ CHR 0x00 # b"
  by (simp add: key_def)

lemma join_with_inj:
  assumes "join_with c xs = join_with c ys" and "length xs = length ys"
    and "\<forall>x \<in> set xs. c \<notin> set x" and "\<forall>y \<in> set ys. c \<notin> set y"
  shows "xs = ys"
  using assms(2,1,3,4)
proof (induction xs ys rule: list_induct2)
  case (Cons x xs y ys)
  show ?case
  proof (cases xs)
    case Nil
    with Cons show ?thesis by simp
  next
    case x2: (Cons x' xs')
    with Cons.hyps obtain y' ys' where y2: "ys = y' # ys'" by (cases ys) auto
    have "x @ c # join_with c xs = y @ c # join_with c ys"
      using Cons.prems(1) x2 y2 by simp
    then have "x = y \<and> join_with c xs = join_with c ys"
      by (rule sep_append_inj) (use Cons.prems in auto)
    with Cons show ?thesis by simp
  qed
qed simp

lemma join_with_suffix_free:
  "c \<notin> set x \<Longrightarrow> c \<notin> set x' \<Longrightarrow> x @ c # y = x' @ c # y' \<Longrightarrow> x = x' \<and> y = y'"
  by (rule sep_append_inj)


section \<open>Text and integer normalizers\<close>

lemma js_trim_Nil [simp]: "js_trim [] = []"
  by (simp add: js_trim_def)

lemma dropWhile_hd: "dropWhile P xs \<noteq> [] \<Longrightarrow> \<not> P (hd (dropWhile P xs))"
  by (simp add: hd_dropWhile)

lemma js_trim_ends:
  assumes "js_trim s \<noteq> []"
  shows "\<not> is_js_space (hd (js_trim s)) \<and> \<not> is_js_space (last (js_trim s))"
proof -
  let ?l = "dropWhile is_js_space s"
  let ?r = "dropWhile is_js_space (rev ?l)"
  have r: "?r \<noteq> []" using assms by (simp add: js_trim_def)
  have "\<not> is_js_space (hd ?r)" using r by (rule dropWhile_hd)
  then have last: "\<not> is_js_space (last (js_trim s))" using r by (simp add: js_trim_def last_rev)
  obtain p where p: "rev ?l = p @ ?r" by (metis takeWhile_dropWhile_id)
  then have l: "?l = rev ?r @ rev p" by (metis rev_append rev_rev_ident)
  have "hd ?l = hd (rev ?r)" using l r by (metis hd_append2 rev_is_Nil_conv)
  moreover have "?l \<noteq> []" using r by (metis dropWhile.simps(1) rev.simps(1))
  ultimately have "\<not> is_js_space (hd (rev ?r))" using dropWhile_hd [of is_js_space s] by simp
  then show ?thesis using last by (simp add: js_trim_def)
qed

lemma dropWhile_id_hd: "xs = [] \<or> \<not> P (hd xs) \<Longrightarrow> dropWhile P xs = xs"
  by (cases xs) auto

lemma js_trim_idem [simp]: "js_trim (js_trim s) = js_trim s"
proof (cases "js_trim s = []")
  case False
  let ?t = "js_trim s"
  have "dropWhile is_js_space ?t = ?t"
    using js_trim_ends [OF False] by (intro dropWhile_id_hd) simp
  moreover have "dropWhile is_js_space (rev ?t) = rev ?t"
    using js_trim_ends [OF False] False by (intro dropWhile_id_hd) (simp add: hd_rev)
  ultimately show ?thesis by (simp add: js_trim_def [of ?t])
qed simp

lemma normalizeText_Inr:
  "normalizeText v n l = Inr t \<Longrightarrow> t \<noteq> [] \<and> int (length t) \<le> n \<and> js_trim t = t"
  by (auto simp: normalizeText_def split: option.splits if_splits)

lemma normalizeText_idem: "normalizeText v n l = Inr t \<Longrightarrow> normalizeText (Some t) n l = Inr t"
  by (auto simp: normalizeText_def split: option.splits if_splits)

lemma normalizeNullableText_Inr:
  "normalizeNullableText v n l = Inr (Some t) \<Longrightarrow> t \<noteq> [] \<and> int (length t) \<le> n \<and> js_trim t = t"
  by (auto simp: normalizeNullableText_def try_pure_def split: if_splits sum.splits dest: normalizeText_Inr)

lemma redactOperationalText_bounded:
  assumes "redactOperationalText e v n l = Inr t" and "0 \<le> n"
  shows "int (length t) \<le> n"
  using assms by (auto simp: redactOperationalText_def slice_int_def Let_def split: if_splits)

lemma normalizePositiveInteger_Inr [simp]:
  "normalizePositiveInteger v l = Inr i \<longleftrightarrow> v = Some (JInt i) \<and> 0 < i"
  by (auto simp: normalizePositiveInteger_def coalesce_def split: option.splits jsnum.splits)

lemma normalizeNonNegativeInteger_Inr [simp]:
  "normalizeNonNegativeInteger v l = Inr i \<longleftrightarrow> (v = Some (JInt i) \<or> v = None \<and> i = 0) \<and> 0 \<le> i"
  by (auto simp: normalizeNonNegativeInteger_def coalesce_def split: option.splits jsnum.splits)

lemma normalizeListLimit_range:
  assumes "1 \<le> fb" and "fb \<le> mx"
  shows "\<exists>n. normalizeListLimit v fb mx = JInt n \<and> 1 \<le> n \<and> n \<le> mx"
proof (cases v)
  case (Some x)
  then show ?thesis using assms by (cases x) (auto simp: normalizeListLimit_def max_def min_def)
qed (use assms in \<open>auto simp: normalizeListLimit_def\<close>)


section \<open>Bounded prune\<close>

lemma prune_loop_eq:
  "removed \<le> limit \<Longrightarrow>
   prune_loop es removed limit m =
     (removed + int (length (take (nat (limit - removed)) es)),
      foldl (\<lambda>m p. map_delete (fst p) m) m (take (nat (limit - removed)) es))"
proof (induction es arbitrary: removed m)
  case (Cons p es)
  show ?case
  proof (cases "removed < limit")
    case True
    then have "nat (limit - removed) = Suc (nat (limit - (removed + 1)))" by linarith
    with True Cons.IH [of "removed + 1" "map_delete (fst p) m"] show ?thesis by simp
  next
    case False
    with Cons.prems show ?thesis by simp
  qed
qed simp

lemma map_get_fold_delete:
  "map_get (foldl (\<lambda>m p. map_delete (fst p) m) m ps) k = (if k \<in> fst ` set ps then None else map_get m k)"
  by (induction ps arbitrary: m) auto

text \<open>What a prune of at most \<open>limit\<close> oldest entries keeps and removes, over any record map.\<close>

lemma pruneOldest_spec:
  assumes ok: "map_ok m" and lim: "0 \<le> limit"
    and run: "pruneOldestByCreatedAt m f cutoff limit = (n, m')"
  shows "0 \<le> n" and "n \<le> limit"
    and "\<And>k v. map_get m' k = Some v \<Longrightarrow> map_get m k = Some v"
    and "\<And>k v. map_get m k = Some v \<Longrightarrow> map_get m' k = None \<Longrightarrow> f v < cutoff"
    and "\<And>k v k' v'. map_get m k = Some v \<Longrightarrow> map_get m' k = None \<Longrightarrow>
           map_get m' k' = Some v' \<Longrightarrow> f v' < cutoff \<Longrightarrow> f v \<le> f v'"
    and "n < limit \<Longrightarrow> map_get m' k' = Some v' \<Longrightarrow> cutoff \<le> f v'"
proof -
  define stale where "stale = filter (\<lambda>p. snd p < cutoff) (map (\<lambda>p. (fst p, f (snd p))) m)"
  define s where "s = js_sort (cmp_by snd cmp_int) stale"
  have res: "n = int (length (take (nat limit) s))"
    "m' = foldl (\<lambda>m p. map_delete (fst p) m) m (take (nat limit) s)"
    using run prune_loop_eq [OF lim, of s m]
    by (simp_all add: pruneOldestByCreatedAt_def stale_def s_def)
  have get': "map_get m' k = (if k \<in> fst ` set (take (nat limit) s) then None else map_get m k)" for k
    unfolding res(2) by (rule map_get_fold_delete)
  have stale_iff: "(k, t) \<in> set s \<longleftrightarrow> (\<exists>v. map_get m k = Some v \<and> t = f v \<and> t < cutoff)" for k t
  proof -
    have "(k, t) \<in> set s \<longleftrightarrow> (\<exists>v. (k, v) \<in> set m \<and> t = f v \<and> t < cutoff)"
      by (force simp: s_def stale_def image_iff)
    then show ?thesis by (simp add: map_get_iff [OF ok])
  qed
  show "0 \<le> n" and "n \<le> limit" using res(1) lim by auto
  show "map_get m' k = Some v \<Longrightarrow> map_get m k = Some v" for k v
    using get' [of k] by (simp split: if_splits)
  have removed: "map_get m k = Some v \<Longrightarrow> map_get m' k = None \<Longrightarrow> (k, f v) \<in> set (take (nat limit) s)" for k v
  proof -
    assume a: "map_get m k = Some v" "map_get m' k = None"
    then have "k \<in> fst ` set (take (nat limit) s)" using get' [of k] by (simp split: if_splits)
    then obtain t where t: "(k, t) \<in> set (take (nat limit) s)" by force
    then have "(k, t) \<in> set s" by (rule in_set_takeD)
    then have "t = f v" using stale_iff [of k t] a(1) by simp
    with t show "(k, f v) \<in> set (take (nat limit) s)" by simp
  qed
  show "map_get m k = Some v \<Longrightarrow> map_get m' k = None \<Longrightarrow> f v < cutoff" for k v
    using removed [of k v] stale_iff [of k "f v"] by (blast dest: in_set_takeD)
  have cmpr: "js_comparator (cmp_by snd cmp_int :: string \<times> int \<Rightarrow> string \<times> int \<Rightarrow> int)"
    by (intro js_comparator_by int_order.js_comparator_axioms)
  show "map_get m k = Some v \<Longrightarrow> map_get m' k = None \<Longrightarrow> map_get m' k' = Some v' \<Longrightarrow> f v' < cutoff
      \<Longrightarrow> f v \<le> f v'" for k v k' v'
  proof -
    assume a: "map_get m k = Some v" "map_get m' k = None" "map_get m' k' = Some v'" "f v' < cutoff"
    from a(1,2) have t: "(k, f v) \<in> set (take (nat limit) s)" by (rule removed)
    have k': "k' \<notin> fst ` set (take (nat limit) s)" and "map_get m k' = Some v'"
      using a(3) get' [of k'] by (simp_all split: if_splits)
    then have "(k', f v') \<in> set s" using stale_iff a(4) by blast
    then have "(k', f v') \<in> set (take (nat limit) s) \<union> set (drop (nat limit) s)"
      by (metis append_take_drop_id set_append)
    with k' have "(k', f v') \<in> set (drop (nat limit) s)" by force
    with t have "cmp_by snd cmp_int (k, f v) (k', f v') \<le> 0"
      unfolding s_def by (rule js_comparator.take_sort_least [OF cmpr])
    then show "f v \<le> f v'" by (simp add: cmp_by_def cmp_int_def)
  qed
  show "n < limit \<Longrightarrow> map_get m' k' = Some v' \<Longrightarrow> cutoff \<le> f v'"
  proof (rule ccontr)
    assume a: "n < limit" "map_get m' k' = Some v'" "\<not> cutoff \<le> f v'"
    then have "take (nat limit) s = s" using res(1) by simp
    moreover have "map_get m k' = Some v'" and "k' \<notin> fst ` set (take (nat limit) s)"
      using a(2) get' [of k'] by (simp_all split: if_splits)
    moreover have "(k', f v') \<in> set s" using stale_iff a(3) calculation(2) by force
    ultimately show False by force
  qed
qed


section \<open>Event replay\<close>

lemma sliceEventsAfter_unbounded: "sliceEventsAfter q es a None = filter (\<lambda>x. q x > a) es"
  by (simp add: sliceEventsAfter_def)

lemma sliceEventsAfter_bounded:
  "0 < n \<Longrightarrow> sliceEventsAfter q es a (Some (JInt n)) = take (nat n) (filter (\<lambda>x. q x > a) es)"
  by (simp add: sliceEventsAfter_def slice_int_def)

lemma filter_gt_last:
  assumes "sorted_wrt (\<lambda>x y. q x < q y) xs" and "xs = ys @ z # zs"
  shows "filter (\<lambda>x. q x > (q z :: int)) xs = zs"
proof -
  from assms have "\<forall>y \<in> set ys. \<not> q y > q z" and "\<forall>x \<in> set zs. q x > q z"
    by (auto simp: sorted_wrt_append)
  then show ?thesis using assms(2) by (simp add: filter_id_conv filter_empty_conv)
qed

text \<open>
  Replaying a log page by page loses and repeats nothing: the page after \<open>a\<close> followed by the
  replay after the last sequence of that page is the whole replay after \<open>a\<close>.
\<close>

lemma sliceEventsAfter_resume:
  assumes srt: "sorted_wrt (\<lambda>x y. q x < q y) es" and n: "0 < n"
    and page: "page = sliceEventsAfter q es a (Some (JInt n))" and ne: "page \<noteq> []"
  shows "page @ sliceEventsAfter q es (q (last page)) None = sliceEventsAfter q es a None"
proof -
  let ?m = "filter (\<lambda>x. q x > a) es"
  have pg: "page = take (nat n) ?m" using page n by (simp add: sliceEventsAfter_bounded)
  have ms: "sorted_wrt (\<lambda>x y. q x < q y) ?m" using srt by (rule sorted_wrt_filter)
  have split: "?m = butlast page @ last page # drop (nat n) ?m"
    using ne pg by (metis append_butlast_last_id append_take_drop_id append.assoc append_Cons append_Nil)
  have gt: "filter (\<lambda>x. q x > q (last page)) ?m = drop (nat n) ?m"
    using filter_gt_last [OF ms split] .
  have "last page \<in> set ?m" using ne pg by (metis in_set_takeD last_in_set)
  then have "q (last page) > a" by simp
  then have "filter (\<lambda>x. q x > q (last page)) es = filter (\<lambda>x. q x > q (last page)) ?m"
    by (auto simp: intro!: filter_cong)
  then show ?thesis using gt pg by (simp add: sliceEventsAfter_unbounded)
qed

end
