(* ===== verification/Json_Canon.thy ===== *)
theory Json_Canon
  imports Store_Helpers
begin

text \<open>
  JSON payloads and their canonical text. Most idempotency checks of the store compare payloads by
  \<open>stableJson\<close> (\<open>store-helpers.ts\<close>): object entries sorted by \<open>localeCompare\<close>, strings quoted by
  \<open>JSON.stringify\<close>. The central facts: two payloads with the same text are the same JSON value up to the
  order of object entries, under any collation; and two payloads that are the same up to that order have
  the same text, when the collation tells the names of an object apart (\<open>names_apart\<close>). A JSON number is represented by its ECMAScript decimal text.
\<close>


section \<open>Definitions\<close>

datatype json =
    JNull
  | JBool bool
  | JNum string
  | JStr string
  | JArr "json list"
  | JObj "(string \<times> json) list"

definition hex_digit :: "nat \<Rightarrow> char" where
  "hex_digit n = (if n < 10 then char_of (48 + n) else char_of (87 + n))"

text \<open>\<open>JSON.stringify\<close> on one code unit of a string.\<close>

definition json_escape :: "char \<Rightarrow> string" where
  "json_escape c =
     (if c = CHR 0x22 then [CHR 0x5C, CHR 0x22]
      else if c = CHR 0x5C then [CHR 0x5C, CHR 0x5C]
      else if c = CHR 0x08 then [CHR 0x5C, CHR ''b'']
      else if c = CHR 0x0C then [CHR 0x5C, CHR ''f'']
      else if c = CHR 0x0A then [CHR 0x5C, CHR ''n'']
      else if c = CHR 0x0D then [CHR 0x5C, CHR ''r'']
      else if c = CHR 0x09 then [CHR 0x5C, CHR ''t'']
      else if (of_char c :: nat) < 32
      then [CHR 0x5C, CHR ''u'', CHR ''0'', CHR ''0'', hex_digit (of_char c div 16), hex_digit (of_char c mod 16)]
      else [c])"

definition json_quote :: "string \<Rightarrow> string" where
  "json_quote s = CHR 0x22 # concat (map json_escape s) @ [CHR 0x22]"

fun stableJson :: "(string \<Rightarrow> string \<Rightarrow> int) \<Rightarrow> json \<Rightarrow> string" where
  "stableJson lc (JArr vs) = CHR ''['' # join_with (CHR '','') (map (stableJson lc) vs) @ '']''"
| "stableJson lc (JObj kvs) =
     CHR ''{'' # join_with (CHR '','')
       (map (\<lambda>(field, text). json_quote field @ CHR '':'' # text)
         (js_sort (cmp_by fst lc) (map (\<lambda>(field, entry). (field, stableJson lc entry)) kvs))) @ ''}''"
| "stableJson lc JNull = ''null''"
| "stableJson lc (JBool b) = (if b then ''true'' else ''false'')"
| "stableJson lc (JNum t) = t"
| "stableJson lc (JStr s) = json_quote s"

definition utf8_length :: "string \<Rightarrow> int" where
  "utf8_length s = sum_list (map (\<lambda>c. if (of_char c :: nat) < 128 then 1 else 2) s)"

text \<open>\<open>normalizeRecord\<close>, repeated in the channel, worker and billing modules.\<close>

definition normalizeRecord :: "env \<Rightarrow> json option \<Rightarrow> string \<Rightarrow> int \<Rightarrow> error + json" where
  "normalizeRecord e value label maxBytes =
     (let record = (case value of Some (JObj kvs) \<Rightarrow> JObj kvs | _ \<Rightarrow> JObj []);
          serialized = stableJson (locale_compare e) record
      in if utf8_length serialized > maxBytes
         then Inl (Error (label @ '' exceeds '' @ show_int maxBytes @ '' bytes.''))
         else Inr record)"

definition sensitive_audit_field :: "string \<Rightarrow> bool" where
  "sensitive_audit_field field =
     list_ex (str_includes (js_lower field))
       [''token'', ''secret'', ''key'', ''password'', ''credential'', ''ref'', ''ciphertext'', ''envelope'']"

fun redact_audit_entry :: "env \<Rightarrow> string \<times> json \<Rightarrow> string \<times> json" where
  "redact_audit_entry e (field, entry) =
     (if sensitive_audit_field field then (field, JStr ''[redacted]'')
      else case entry of
        JArr _ \<Rightarrow> (field, JStr ''[object]'')
      | JObj _ \<Rightarrow> (field, JStr ''[object]'')
      | JStr s \<Rightarrow>
          (let sanitized = sanitize_audit_text e s in
           (field, JStr (if length sanitized > 256 then take 253 sanitized @ ''...'' else sanitized)))
      | _ \<Rightarrow> (field, entry))"

fun redactAuditMetadata :: "env \<Rightarrow> json option \<Rightarrow> json" where
  "redactAuditMetadata e (Some (JObj kvs)) = JObj (map (redact_audit_entry e) kvs)"
| "redactAuditMetadata e _ = JObj []"

text \<open>Nullable text as a JSON value, for audit metadata.\<close>

definition json_opt :: "string option \<Rightarrow> json" where
  "json_opt v = (case v of Some s \<Rightarrow> JStr s | None \<Rightarrow> JNull)"

text \<open>
  Well-formed values: number texts are number literals, the keys of an object are distinct, as
  \<open>JSON.parse\<close> produces them.
\<close>

definition num_char :: "char \<Rightarrow> bool" where
  "num_char c = (c \<in> set ''0123456789+-.eE'')"

fun json_wf :: "json \<Rightarrow> bool" where
  "json_wf (JNum t) = (t \<noteq> [] \<and> hd t \<in> set ''-0123456789'' \<and> list_all num_char t)"
| "json_wf (JArr vs) = list_all json_wf vs"
| "json_wf (JObj kvs) = (distinct (map fst kvs) \<and> list_all (\<lambda>(k, v). json_wf v) kvs)"
| "json_wf _ = True"

text \<open>Equality of JSON values up to the order of object entries.\<close>

fun json_same :: "json \<Rightarrow> json \<Rightarrow> bool" where
  "json_same (JArr vs) (JArr ws) = list_all2 json_same vs ws"
| "json_same (JObj xs) (JObj ys) =
     (length xs = length ys \<and>
      list_all (\<lambda>(k, v). case map_of ys k of Some w \<Rightarrow> json_same v w | None \<Rightarrow> False) xs)"
| "json_same JNull JNull = True"
| "json_same (JBool a) (JBool b) = (a = b)"
| "json_same (JNum a) (JNum b) = (a = b)"
| "json_same (JStr a) (JStr b) = (a = b)"
| "json_same _ _ = False"

text \<open>The two halves of \<open>stableJson\<close>: sort every object, then print.\<close>

fun json_canon :: "(string \<Rightarrow> string \<Rightarrow> int) \<Rightarrow> json \<Rightarrow> json" where
  "json_canon lc (JArr vs) = JArr (map (json_canon lc) vs)"
| "json_canon lc (JObj kvs) = JObj (js_sort (cmp_by fst lc) (map (\<lambda>(k, v). (k, json_canon lc v)) kvs))"
| "json_canon lc v = v"

fun json_print :: "json \<Rightarrow> string" where
  "json_print (JArr vs) = CHR ''['' # join_with (CHR '','') (map json_print vs) @ '']''"
| "json_print (JObj kvs) =
     CHR ''{'' # join_with (CHR '','') (map (\<lambda>(k, v). json_quote k @ CHR '':'' # json_print v) kvs) @ ''}''"
| "json_print JNull = ''null''"
| "json_print (JBool b) = (if b then ''true'' else ''false'')"
| "json_print (JNum t) = t"
| "json_print (JStr s) = json_quote s"


section \<open>Printing is injective\<close>

text \<open>One escaped code unit is read back by its first characters.\<close>

definition hex_value :: "char \<Rightarrow> nat" where
  "hex_value c = (let n = of_char c in if n < 58 then n - 48 else n - 87)"

fun unescape :: "string \<Rightarrow> (char \<times> string) option" where
  "unescape [] = None"
| "unescape (c # cs) =
     (if c \<noteq> CHR 0x5C then Some (c, cs)
      else case cs of
        [] \<Rightarrow> None
      | d # r \<Rightarrow>
          if d = CHR ''b'' then Some (CHR 0x08, r)
          else if d = CHR ''f'' then Some (CHR 0x0C, r)
          else if d = CHR ''n'' then Some (CHR 0x0A, r)
          else if d = CHR ''r'' then Some (CHR 0x0D, r)
          else if d = CHR ''t'' then Some (CHR 0x09, r)
          else if d = CHR ''u''
          then (case r of z1 # z2 # h # l # r' \<Rightarrow> Some (char_of (hex_value h * 16 + hex_value l), r') | _ \<Rightarrow> None)
          else Some (d, r))"

lemma hex_value_digit: "n < 16 \<Longrightarrow> hex_value (hex_digit n) = n"
  by (auto simp: hex_value_def hex_digit_def Let_def take_bit_eq_mod)

lemma unescape_escape: "unescape (json_escape c @ r) = Some (c, r)"
proof -
  have c: "char_of (of_char c :: nat) = c" by simp
  have ctl: "(of_char c :: nat) < 32 \<Longrightarrow> of_char c div 16 < (16::nat)" by simp
  have "(of_char c :: nat) div 16 * 16 + of_char c mod 16 = of_char c" by simp
  with c ctl show ?thesis by (auto simp: json_escape_def hex_value_digit simp del: div_mult_mod_eq)
qed

lemma escape_cons: "\<exists>d ds. json_escape c = d # ds \<and> d \<noteq> CHR 0x22"
  by (auto simp: json_escape_def)

lemma quote_body_inj:
  "concat (map json_escape s) @ CHR 0x22 # r = concat (map json_escape s') @ CHR 0x22 # r' \<Longrightarrow>
   s = s' \<and> r = r'"
proof (induction s arbitrary: s')
  case Nil
  show ?case
  proof (cases s')
    case (Cons c cs)
    obtain d ds where d: "json_escape c = d # ds" "d \<noteq> CHR 0x22" using escape_cons by blast
    then show ?thesis using Nil Cons by simp
  qed (use Nil in simp)
next
  case (Cons c cs)
  show ?case
  proof (cases s')
    case Nil
    obtain d ds where d: "json_escape c = d # ds" "d \<noteq> CHR 0x22" using escape_cons by blast
    then show ?thesis using Nil Cons by simp
  next
    case s': (Cons c' cs')
    let ?x = "concat (map json_escape cs) @ CHR 0x22 # r"
    let ?x' = "concat (map json_escape cs') @ CHR 0x22 # r'"
    have "json_escape c @ ?x = json_escape c' @ ?x'" using Cons.prems s' by simp
    then have "Some (c, ?x) = Some (c', ?x')" by (metis unescape_escape)
    then show ?thesis using Cons.IH [of cs'] s' by simp
  qed
qed

lemma json_quote_inj: "json_quote s @ r = json_quote s' @ r' \<Longrightarrow> s = s' \<and> r = r'"
  using quote_body_inj [of s r s' r'] by (simp add: json_quote_def)

text \<open>What may follow a printed value: nothing, or a separator or closing bracket.\<close>

definition delim :: "string \<Rightarrow> bool" where
  "delim r = (r = [] \<or> hd r \<in> {CHR '','', CHR '']'', CHR ''}''})"

lemma delim_not_num: "delim (c # r) \<Longrightarrow> \<not> num_char c"
  by (auto simp: delim_def num_char_def)

lemma num_inj:
  "list_all num_char t \<Longrightarrow> list_all num_char t' \<Longrightarrow> delim r \<Longrightarrow> delim r' \<Longrightarrow> t @ r = t' @ r' \<Longrightarrow> t = t' \<and> r = r'"
proof (induction t arbitrary: t')
  case Nil
  then show ?case by (cases t') (auto dest: delim_not_num)
next
  case (Cons c cs)
  then show ?case by (cases t') (auto dest: delim_not_num)
qed

lemma join_items_inj:
  assumes close: "close \<in> {CHR '']'', CHR ''}''}"
    and inj: "\<And>x y r r'. x \<in> set xs \<Longrightarrow> y \<in> set ys \<Longrightarrow> p x @ r = p y @ r' \<Longrightarrow> delim r \<Longrightarrow> delim r' \<Longrightarrow> x = y \<and> r = r'"
    and hdx: "\<And>x. x \<in> set xs \<union> set ys \<Longrightarrow> p x \<noteq> [] \<and> \<not> delim (p x)"
    and eq: "join_with (CHR '','') (map p xs) @ close # r = join_with (CHR '','') (map p ys) @ close # r'"
  shows "xs = ys \<and> r = r'"
  using inj hdx eq
proof (induction xs arbitrary: ys)
  case Nil
  show ?case
  proof (cases ys)
    case (Cons y ys')
    have "p y \<noteq> [] \<and> \<not> delim (p y)" using Nil Cons by simp
    then have "hd (p y) \<noteq> close" and "p y \<noteq> []" using close by (auto simp: delim_def)
    moreover have "close = hd (join_with (CHR '','') (map p ys) @ close # r')" using Nil.prems(3) by (metis append_Nil join_with.simps(1) list.map(1) list.sel(1))
    moreover have "hd (join_with (CHR '','') (map p ys) @ close # r') = hd (p y)"
      using Cons \<open>p y \<noteq> []\<close> by (cases ys') auto
    ultimately show ?thesis by simp
  qed (use Nil in simp)
next
  case (Cons x xs)
  show ?case
  proof (cases ys)
    case Nil
    have "p x \<noteq> [] \<and> \<not> delim (p x)" using Cons by simp
    then have "hd (p x) \<noteq> close" and "p x \<noteq> []" using close by (auto simp: delim_def)
    moreover have "hd (join_with (CHR '','') (map p (x # xs)) @ close # r) = hd (p x)"
      using \<open>p x \<noteq> []\<close> by (cases xs) auto
    ultimately show ?thesis using Cons.prems(3) Nil by auto
  next
    case ys: (Cons y ys')
    define tx where "tx = (case xs of [] \<Rightarrow> close # r | _ \<Rightarrow> CHR '','' # join_with (CHR '','') (map p xs) @ close # r)"
    define ty where "ty = (case ys' of [] \<Rightarrow> close # r' | _ \<Rightarrow> CHR '','' # join_with (CHR '','') (map p ys') @ close # r')"
    have dl: "delim tx" "delim ty" using close by (auto simp: tx_def ty_def delim_def split: list.splits)
    have "p x @ tx = p y @ ty"
      using Cons.prems(3) ys by (auto simp: tx_def ty_def split: list.splits)
    then have xy: "x = y" and t: "tx = ty"
      using Cons.prems(1) [of x y tx ty] dl ys by auto
    have ne: "CHR '','' \<noteq> close" using close by auto
    have "join_with (CHR '','') (map p xs) @ close # r = join_with (CHR '','') (map p ys') @ close # r'"
      using t ne by (auto simp: tx_def ty_def split: list.splits)
    then have "xs = ys' \<and> r = r'"
    proof (rule Cons.IH [rotated 2])
      show "u = v \<and> s = s'" if "u \<in> set xs" "v \<in> set ys'" "p u @ s = p v @ s'" "delim s" "delim s'" for u v s s'
        by (rule Cons.prems(1)) (use that ys in auto)
      show "p u \<noteq> [] \<and> \<not> delim (p u)" if "u \<in> set xs \<union> set ys'" for u
        by (rule Cons.prems(2)) (use that ys in auto)
    qed
    then show ?thesis using xy ys by simp
  qed
qed

lemma json_quote_head: "json_quote s = CHR 0x22 # tl (json_quote s)"
  by (simp add: json_quote_def)

lemma json_print_head:
  "json_wf v \<Longrightarrow> json_print v \<noteq> [] \<and>
    hd (json_print v) \<in> (case v of JArr _ \<Rightarrow> {CHR ''[''} | JObj _ \<Rightarrow> {CHR ''{''} | JNull \<Rightarrow> {CHR ''n''}
      | JBool b \<Rightarrow> {if b then CHR ''t'' else CHR ''f''} | JStr _ \<Rightarrow> {CHR 0x22} | JNum _ \<Rightarrow> set ''-0123456789'')"
  by (cases v) (auto simp: json_quote_def)

lemma json_print_not_delim: "json_wf v \<Longrightarrow> json_print v \<noteq> [] \<and> \<not> delim (json_print v)"
  using json_print_head [of v] by (auto simp: delim_def split: json.splits if_splits)

lemma json_print_prefix_free:
  "json_wf a \<Longrightarrow> json_wf b \<Longrightarrow> json_print a @ r = json_print b @ r' \<Longrightarrow> delim r \<Longrightarrow> delim r' \<Longrightarrow> a = b \<and> r = r'"
proof (induction a arbitrary: b r r')
  case (JArr vs)
  have "hd (json_print b) = CHR ''[''"
    using JArr.prems(1-3) json_print_head [of b] by (metis append_Cons hd_append2 json_print.simps(1) list.sel(1))
  then obtain ws where b: "b = JArr ws"
    using json_print_head [OF JArr.prems(2)] by (cases b) (auto split: if_splits)
  have "vs = ws \<and> r = r'"
  proof (rule join_items_inj [where close = "CHR '']''" and p = json_print])
    show "CHR '']'' \<in> {CHR '']'', CHR ''}''}" by simp
    show "join_with (CHR '','') (map json_print vs) @ CHR '']'' # r = join_with (CHR '','') (map json_print ws) @ CHR '']'' # r'"
      using JArr.prems(3) b by simp
    show "json_print x \<noteq> [] \<and> \<not> delim (json_print x)" if "x \<in> set vs \<union> set ws" for x
      using that JArr.prems(1,2) b by (intro json_print_not_delim) (auto simp: list_all_iff)
    show "x = y \<and> s = s'" if "x \<in> set vs" "y \<in> set ws" "json_print x @ s = json_print y @ s'" "delim s" "delim s'" for x y s s'
      using that JArr.IH [of x y s s'] JArr.prems(1,2) b by (simp add: list_all_iff)
  qed
  with b show ?case by simp
next
  case (JObj kvs)
  have "hd (json_print b) = CHR ''{''"
    using JObj.prems(1-3) json_print_head [of b] by (metis append_Cons hd_append2 json_print.simps(2) list.sel(1))
  then obtain ws where b: "b = JObj ws"
    using json_print_head [OF JObj.prems(2)] by (cases b) (auto split: if_splits)
  let ?p = "\<lambda>(k, v). json_quote k @ CHR '':'' # json_print v"
  have "kvs = ws \<and> r = r'"
  proof (rule join_items_inj [where close = "CHR ''}''" and p = ?p])
    show "CHR ''}'' \<in> {CHR '']'', CHR ''}''}" by simp
    show "join_with (CHR '','') (map ?p kvs) @ CHR ''}'' # r = join_with (CHR '','') (map ?p ws) @ CHR ''}'' # r'"
      using JObj.prems(3) b by simp
    show "?p x \<noteq> [] \<and> \<not> delim (?p x)" for x
      by (cases x) (auto simp: delim_def json_quote_def)
    show "x = y \<and> s = s'" if h: "x \<in> set kvs" "y \<in> set ws" "?p x @ s = ?p y @ s'" "delim s" "delim s'" for x y s s'
    proof -
      obtain k v where x: "x = (k, v)" by (cases x)
      obtain k' v' where y: "y = (k', v')" by (cases y)
      have "json_quote k @ CHR '':'' # json_print v @ s = json_quote k' @ CHR '':'' # json_print v' @ s'"
        using h(3) x y by simp
      then have "k = k'" and vv: "json_print v @ s = json_print v' @ s'"
        using json_quote_inj [of k "CHR '':'' # json_print v @ s" k' "CHR '':'' # json_print v' @ s'"] by simp_all
      have "json_wf v" "json_wf v'" using h(1,2) x y JObj.prems(1,2) b by (auto simp: list_all_iff)
      then have "v = v' \<and> s = s'"
        using JObj.IH [of x v v' s s'] h(1,4,5) vv x by (simp add: snds.simps)
      then show ?thesis using \<open>k = k'\<close> x y by simp
    qed
  qed
  with b show ?case by simp
next
  case (JNum t)
  then have "hd (json_print b) \<in> set ''-0123456789''"
    using json_print_head [of b] by (metis hd_append2 json_print.simps(5) json_wf.simps(1))
  then obtain t' where b: "b = JNum t'"
    using json_print_head [OF JNum.prems(2)] by (cases b) (auto split: if_splits)
  show ?case using JNum b num_inj [of t t' r r'] by simp
next
  case (JStr s)
  have "hd (json_print b) = CHR 0x22"
    using JStr.prems(2,3) json_print_head [of b]
    by (metis append_Cons hd_append2 json_print.simps(6) json_quote_head list.sel(1))
  then obtain s' where b: "b = JStr s'"
    using json_print_head [OF JStr.prems(2)] by (cases b) (auto split: if_splits)
  show ?case using JStr b json_quote_inj [of s r s' r'] by simp
next
  case JNull
  have "hd (json_print b) = CHR ''n''"
    using JNull.prems(2,3) json_print_head [of b] by (metis append_Cons hd_append2 json_print.simps(3) list.sel(1))
  then have "b = JNull"
    using json_print_head [OF JNull.prems(2)] by (cases b) (auto split: if_splits)
  then show ?case using JNull by simp
next
  case (JBool c)
  have "hd (json_print b) = (if c then CHR ''t'' else CHR ''f'')"
    using JBool.prems(2,3) json_print_head [of b]
    by (metis append_Cons hd_append2 json_print.simps(4) list.sel(1))
  then have "b = JBool c"
    using json_print_head [OF JBool.prems(2)] by (cases b) (auto split: if_splits)
  then show ?case using JBool by (simp split: if_splits)
qed

lemma json_print_inj: "json_wf a \<Longrightarrow> json_wf b \<Longrightarrow> json_print a = json_print b \<Longrightarrow> a = b"
  using json_print_prefix_free [of a b "[]" "[]"] by (simp add: delim_def)


section \<open>Canonical form\<close>

lemma js_insert_map:
  "(\<And>x y. c' (f x) (f y) = c x y) \<Longrightarrow> js_insert c' (f x) (map f xs) = map f (js_insert c x xs)"
  by (induction xs) auto

lemma js_sort_map: "(\<And>x y. c' (f x) (f y) = c x y) \<Longrightarrow> js_sort c' (map f xs) = map f (js_sort c xs)"
  by (induction xs) (auto simp: js_sort_def js_insert_map)

lemma stableJson_print_canon: "stableJson lc v = json_print (json_canon lc v)"
proof (induction v)
  case (JObj kvs)
  let ?q = "\<lambda>(k, w). (k, json_print w)"
  have "map (\<lambda>(k, w). (k, stableJson lc w)) kvs = map ?q (map (\<lambda>(k, w). (k, json_canon lc w)) kvs)"
    using JObj.IH by (auto simp: snds.simps)
  moreover have q: "js_sort (cmp_by fst lc) (map ?q xs) = map ?q (js_sort (cmp_by fst lc) xs)" for xs
    by (rule js_sort_map) (auto simp: cmp_by_def split: prod.splits)
  ultimately have "js_sort (cmp_by fst lc) (map (\<lambda>(k, w). (k, stableJson lc w)) kvs)
      = map ?q (js_sort (cmp_by fst lc) (map (\<lambda>(k, w). (k, json_canon lc w)) kvs))"
    by (simp only: q)
  then show ?case by (simp add: case_prod_unfold comp_def)
qed (auto cong: map_cong)

lemma json_canon_wf: "json_wf v \<Longrightarrow> json_wf (json_canon lc v)"
proof (induction v)
  case (JObj kvs)
  let ?ys = "map (\<lambda>(k, v). (k, json_canon lc v)) kvs"
  have keys: "map fst ?ys = map fst kvs" by (simp add: case_prod_unfold comp_def)
  have "json_wf (json_canon lc v)" if "(k, v) \<in> set kvs" for k v
  proof (rule JObj.IH)
    show "(k, v) \<in> set kvs" and "v \<in> Basic_BNFs.snds (k, v)" using that by (auto simp: snds.simps)
    show "json_wf v" using JObj.prems that by (auto simp: list_all_iff)
  qed
  then show ?case using JObj.prems keys by (auto simp: list_all_iff case_prod_unfold comp_def)
qed (auto simp: list_all_iff)

lemma sorted_strict_unique:
  assumes "sorted_wrt R xs" "sorted_wrt R ys" "set xs = set ys"
    and asym: "\<And>x y. R x y \<Longrightarrow> \<not> R y x"
  shows "xs = ys"
  using assms(1-3)
proof (induction xs arbitrary: ys)
  case (Cons x xs)
  then obtain y ys' where ys: "ys = y # ys'" by (cases ys) auto
  have "x = y"
    using Cons.prems ys asym by (metis insert_iff list.simps(15) sorted_wrt.simps(2))
  moreover have "x \<notin> set xs" "y \<notin> set ys'"
    using Cons.prems(1,2) ys asym by auto
  then have "set xs = set ys'" using Cons.prems(3) ys \<open>x = y\<close> by auto
  then have "xs = ys'" using Cons ys by simp
  ultimately show ?case using ys by simp
qed simp

text \<open>
  The collation tells the property names of every object apart: it returns 0 for two names of one object
  only when they are the same name. \<open>localeCompare\<close> does so except on names that differ in canonically
  equivalent or ignorable characters only.
\<close>

fun names_apart :: "(string \<Rightarrow> string \<Rightarrow> int) \<Rightarrow> json \<Rightarrow> bool" where
  "names_apart lc (JArr vs) = list_all (names_apart lc) vs"
| "names_apart lc (JObj kvs) =
     (list_all (\<lambda>k. list_all (\<lambda>k'. lc k k' = 0 \<longrightarrow> k = k') (map fst kvs)) (map fst kvs) \<and> list_all (\<lambda>(k, v). names_apart lc v) kvs)"
| "names_apart lc _ = True"

context js_comparator
begin

lemma sorted_entries:
  assumes "distinct (map fst kvs)" and "\<And>p q. p \<in> set kvs \<Longrightarrow> q \<in> set kvs \<Longrightarrow> cmp (fst p) (fst q) = 0 \<Longrightarrow> fst p = fst q"
  shows "sorted_wrt (\<lambda>p q. cmp (fst p) (fst q) < 0) (js_sort (cmp_by fst cmp) kvs)"
proof -
  note le = js_comparator.sorted_sort [OF js_comparator_by [OF js_comparator_axioms], of fst kvs]
  have d: "distinct (map fst (js_sort (cmp_by fst cmp) kvs))" using assms(1) by simp
  show ?thesis
    unfolding sorted_wrt_iff_nth_less
  proof (intro allI impI)
    fix i j
    let ?s = "js_sort (cmp_by fst cmp) kvs"
    assume ij: "i < j" "j < length ?s"
    have "map fst ?s ! i \<noteq> map fst ?s ! j"
      using d ij by (subst nth_eq_iff_index_eq) auto
    then have "fst (?s ! i) \<noteq> fst (?s ! j)" using ij by simp
    moreover have "?s ! i \<in> set kvs" "?s ! j \<in> set kvs" using ij by (metis nth_mem order_less_trans set_js_sort)+
    moreover have "cmp (fst (?s ! i)) (fst (?s ! j)) \<le> 0"
      using le ij by (simp add: sorted_wrt_iff_nth_less cmp_by_def)
    ultimately show "cmp (fst (?s ! i)) (fst (?s ! j)) < 0"
      using assms(2) by (metis order_le_less)
  qed
qed

lemma sorted_entries_unique:
  assumes "distinct (map fst xs)" "distinct (map fst ys)" "set xs = set ys"
    and "\<And>p q. p \<in> set xs \<Longrightarrow> q \<in> set xs \<Longrightarrow> cmp (fst p) (fst q) = 0 \<Longrightarrow> fst p = fst q"
  shows "js_sort (cmp_by fst cmp) xs = js_sort (cmp_by fst cmp) ys"
proof (rule sorted_strict_unique [OF sorted_entries sorted_entries])
  show "\<not> cmp (fst y) (fst x) < 0" if "cmp (fst x) (fst y) < 0" for x y
    using that cmp_sgn [of "fst y" "fst x"] by (auto simp: sgn_if split: if_splits)
qed (use assms in auto)

end

text \<open>Values with the same canonical form are the same up to order, under any collation.\<close>

lemma canon_same: "json_wf a \<Longrightarrow> json_wf b \<Longrightarrow> json_canon lc a = json_canon lc b \<Longrightarrow> json_same a b"
proof (induction a arbitrary: b)
  case (JArr vs)
  then obtain ws where b: "b = JArr ws" and eq: "map (json_canon lc) vs = map (json_canon lc) ws" by (cases b) auto
  have len: "length vs = length ws" using eq by (rule map_eq_imp_length_eq)
  have "list_all2 json_same vs ws"
  proof (rule list_all2_all_nthI [OF len])
    fix i assume i: "i < length vs"
    have "json_canon lc (vs ! i) = json_canon lc (ws ! i)" using arg_cong [OF eq, of "\<lambda>l. l ! i"] i len by simp
    then show "json_same (vs ! i) (ws ! i)"
      by (intro JArr.IH) (use i len JArr.prems b in \<open>simp_all add: list_all_length\<close>)
  qed
  then show ?case using b by simp
next
  case (JObj xs)
  let ?c = "\<lambda>(k, v). (k, json_canon lc v)"
  obtain ys where b: "b = JObj ys" and srt: "js_sort (cmp_by fst lc) (map ?c xs) = js_sort (cmp_by fst lc) (map ?c ys)"
    using JObj.prems(3) by (cases b) auto
  have dy: "distinct (map fst ys)" using JObj.prems b by auto
  have eq: "set (map ?c xs) = set (map ?c ys)" using arg_cong [OF srt, of set] by (simp only: set_js_sort)
  have "length xs = length ys" using arg_cong [OF srt, of length] by simp
  moreover have "case map_of ys k of Some w \<Rightarrow> json_same v w | None \<Rightarrow> False" if kv: "(k, v) \<in> set xs" for k v
  proof -
    have "?c (k, v) \<in> set (map ?c xs)" using kv by (simp only: set_map imageI)
    then have "(k, json_canon lc v) \<in> set (map ?c ys)" by (simp only: eq prod.case)
    then obtain w where w: "(k, w) \<in> set ys" "json_canon lc v = json_canon lc w" by auto
    have "json_same v w"
    proof (rule JObj.IH [OF kv _ _ _ w(2)])
      show "v \<in> Basic_BNFs.snds (k, v)" by (simp add: snds.simps)
      show "json_wf v" "json_wf w" using kv w(1) JObj.prems b by (auto simp: list_all_iff)
    qed
    then show ?thesis using dy w(1) by simp
  qed
  ultimately show ?case using b by (auto simp: list_all_iff)
next
  case (JNum t)
  then show ?case by (cases b) auto
next
  case (JStr t)
  then show ?case by (cases b) auto
next
  case (JBool t)
  then show ?case by (cases b) auto
next
  case JNull
  then show ?case by (cases b) auto
qed

text \<open>Values that are the same up to order have the same canonical form, when the collation tells their names apart.\<close>

lemma same_canon:
  assumes "js_comparator lc"
  shows "json_wf a \<Longrightarrow> json_wf b \<Longrightarrow> names_apart lc a \<Longrightarrow> json_same a b \<Longrightarrow> json_canon lc a = json_canon lc b"
proof (induction a arbitrary: b)
  case (JArr vs)
  then obtain ws where b: "b = JArr ws" and all: "list_all2 json_same vs ws" by (cases b) auto
  have len: "length vs = length ws" using all by (rule list_all2_lengthD)
  have "map (json_canon lc) vs = map (json_canon lc) ws"
  proof (rule nth_equalityI)
    fix i assume "i < length (map (json_canon lc) vs)"
    then have i: "i < length vs" by simp
    have "json_canon lc (vs ! i) = json_canon lc (ws ! i)"
      by (rule JArr.IH) (use i len JArr.prems b list_all2_nthD [OF all i] in \<open>simp_all add: list_all_length\<close>)
    then show "map (json_canon lc) vs ! i = map (json_canon lc) ws ! i" using i len by simp
  qed (use len in simp)
  then show ?case using b by simp
next
  case (JObj xs)
  let ?c = "\<lambda>(k, v). (k, json_canon lc v)"
  obtain ys where b: "b = JObj ys" using JObj.prems(4) by (cases b) auto
  have dx: "distinct (map fst xs)" and dy: "distinct (map fst ys)" using JObj.prems b by auto
  have ck: "map fst (map ?c zs) = map fst zs" for zs by (simp add: case_prod_unfold comp_def)
  have sub: "set (map ?c xs) \<subseteq> set (map ?c ys)"
  proof
    fix p assume "p \<in> set (map ?c xs)"
    then obtain k v where kv: "(k, v) \<in> set xs" "p = (k, json_canon lc v)" by auto
    then obtain w where w: "map_of ys k = Some w" "json_same v w"
      using JObj.prems(4) b by (auto simp: list_all_iff split: option.splits)
    then have yw: "(k, w) \<in> set ys" by (simp add: map_of_SomeD)
    have "json_canon lc v = json_canon lc w"
    proof (rule JObj.IH [OF kv(1) _ _ _ _ w(2)])
      show "v \<in> Basic_BNFs.snds (k, v)" by (simp add: snds.simps)
      show "json_wf v" "json_wf w" using kv(1) yw JObj.prems(1,2) b by (auto simp: list_all_iff)
      show "names_apart lc v" using kv(1) JObj.prems(3) by (simp add: list_all_iff) fast
    qed
    moreover have "?c (k, w) \<in> set (map ?c ys)" using yw by (simp only: set_map imageI)
    ultimately show "p \<in> set (map ?c ys)" by (simp only: kv(2) prod.case)
  qed
  have dcx: "distinct (map ?c xs)" using dx by (simp only: ck [of xs, symmetric] distinct_map)
  have dcy: "distinct (map ?c ys)" using dy by (simp only: ck [of ys, symmetric] distinct_map)
  have "length xs = length ys" using JObj.prems(4) b by simp
  then have "card (set (map ?c xs)) = card (set (map ?c ys))"
    by (simp only: distinct_card [OF dcx] distinct_card [OF dcy] length_map)
  then have eq: "set (map ?c xs) = set (map ?c ys)" by (intro card_subset_eq sub) simp
  have "js_sort (cmp_by fst lc) (map ?c xs) = js_sort (cmp_by fst lc) (map ?c ys)"
  proof (rule js_comparator.sorted_entries_unique [OF assms _ _ eq])
    show "distinct (map fst (map ?c xs))" "distinct (map fst (map ?c ys))" using dx dy by (simp_all only: ck)
    have apart: "k = k'" if "(k, v) \<in> set xs" "(k', v') \<in> set xs" "lc k k' = 0" for k k' v v'
      using that JObj.prems(3) by (fastforce simp: list_all_iff)
    show "fst p = fst q" if "p \<in> set (map ?c xs)" "q \<in> set (map ?c xs)" "lc (fst p) (fst q) = 0" for p q
      using that apart by auto
  qed
  then show ?case using b by simp
next
  case (JNum t)
  then show ?case by (cases b) auto
next
  case (JStr t)
  then show ?case by (cases b) auto
next
  case (JBool t)
  then show ?case by (cases b) auto
next
  case JNull
  then show ?case by (cases b) auto
qed

lemma stableJson_sound: "json_wf a \<Longrightarrow> json_wf b \<Longrightarrow> stableJson lc a = stableJson lc b \<Longrightarrow> json_same a b"
  using json_print_inj [of "json_canon lc a" "json_canon lc b"] json_canon_wf canon_same by (metis stableJson_print_canon)

lemma stableJson_complete:
  "js_comparator lc \<Longrightarrow> names_apart lc a \<Longrightarrow> json_wf a \<Longrightarrow> json_wf b \<Longrightarrow> json_same a b \<Longrightarrow> stableJson lc a = stableJson lc b"
  using same_canon by (metis stableJson_print_canon)

end
