(* ===== verification/Permissions.thy ===== *)
theory Permissions
  imports Json_Canon
begin

text \<open>
  The RBAC vocabulary of \<open>control-plane-permissions.ts\<close>: the ordered permission catalog, the
  built-in role maps, the normalizers of permission lists and custom-role keys, and the
  resolution of a member's effective permissions.
\<close>


section \<open>Definitions\<close>

datatype role = Owner | Admin | Member

primrec role_text :: "role \<Rightarrow> string" where
  "role_text Owner = ''owner''"
| "role_text Admin = ''admin''"
| "role_text Member = ''member''"

text \<open>A permission is a string literal; the code tests membership in the catalog at run time.\<close>

type_synonym permission = string

definition CONTROL_PLANE_PERMISSIONS :: "permission list" where
  "CONTROL_PLANE_PERMISSIONS =
     [''org:read'', ''org:manage'', ''members:read'', ''members:manage'', ''roles:manage'', ''sso:manage'',
      ''api_tokens:read'', ''api_tokens:manage'', ''billing:manage'', ''policy:manage'', ''audit:read'',
      ''sessions:read'', ''sessions:write'', ''workflows:manage'', ''operations:view'', ''diagnostics:view'']"

definition ADMIN_PERMISSIONS :: "permission list" where
  "ADMIN_PERMISSIONS =
     [''org:read'', ''org:manage'', ''members:read'', ''members:manage'', ''api_tokens:read'', ''api_tokens:manage'',
      ''policy:manage'', ''audit:read'', ''sessions:read'', ''sessions:write'', ''workflows:manage'',
      ''operations:view'', ''diagnostics:view'']"

primrec BUILTIN_ROLE_PERMISSIONS :: "role \<Rightarrow> permission list" where
  "BUILTIN_ROLE_PERMISSIONS Owner = CONTROL_PLANE_PERMISSIONS"
| "BUILTIN_ROLE_PERMISSIONS Admin = ADMIN_PERMISSIONS"
| "BUILTIN_ROLE_PERMISSIONS Member = [''org:read'', ''members:read'', ''sessions:read'', ''sessions:write'']"

record custom_role =
  cr_orgId :: string
  cr_roleKey :: string
  cr_name :: string
  cr_description :: "string option"
  cr_baseRole :: role
  cr_permissions :: "permission list"
  cr_createdAt :: iso
  cr_updatedAt :: iso

definition isControlPlanePermission :: "string \<Rightarrow> bool" where
  "isControlPlanePermission value = (value \<in> set CONTROL_PLANE_PERMISSIONS)"

text \<open>The validation loop of \<open>normalizeControlPlanePermissions\<close>: the set of values seen so far.\<close>

fun permissions_seen :: "string \<Rightarrow> string list \<Rightarrow> permission list \<Rightarrow> error + permission list" where
  "permissions_seen label [] seen = Inr seen"
| "permissions_seen label (value # rest) seen =
     (if \<not> isControlPlanePermission value
      then Inl (Error (label @ '' includes an unsupported permission: '' @ value @ ''.''))
      else permissions_seen label rest (if value \<in> set seen then seen else seen @ [value]))"

text \<open>\<open>None\<close> is a value that is not an array.\<close>

definition normalizeControlPlanePermissions :: "string list option \<Rightarrow> string \<Rightarrow> error + permission list" where
  "normalizeControlPlanePermissions values label =
     (case values of
        None \<Rightarrow> Inl (Error (label @ '' must be an array.''))
      | Some vs \<Rightarrow>
          try_pure (permissions_seen label vs [])
            (\<lambda>seen. Inr (filter (\<lambda>permission. permission \<in> set seen) CONTROL_PLANE_PERMISSIONS)))"

definition role_key_start :: "char \<Rightarrow> bool" where
  "role_key_start c = (97 \<le> (of_char c :: nat) \<and> (of_char c :: nat) \<le> 122)"

definition role_key_char :: "char \<Rightarrow> bool" where
  "role_key_char c =
     (role_key_start c \<or> (48 \<le> (of_char c :: nat) \<and> (of_char c :: nat) \<le> 57) \<or> c = CHR ''_'' \<or> c = CHR ''-'')"

text \<open>\<open>/^[a-z][a-z0-9_-]{1,63}$/\<close>\<close>

fun CUSTOM_ROLE_KEY_PATTERN :: "string \<Rightarrow> bool" where
  "CUSTOM_ROLE_KEY_PATTERN [] = False"
| "CUSTOM_ROLE_KEY_PATTERN (c # cs) =
     (role_key_start c \<and> 1 \<le> length cs \<and> length cs \<le> 63 \<and> list_all role_key_char cs)"

definition BUILTIN_ROLE_KEYS :: "string list" where
  "BUILTIN_ROLE_KEYS = [''owner'', ''admin'', ''member'']"

definition normalizeCustomRoleKey :: "string option \<Rightarrow> error + string" where
  "normalizeCustomRoleKey value =
     (let k = (case value of Some v \<Rightarrow> js_lower (js_trim v) | None \<Rightarrow> []) in
      if \<not> CUSTOM_ROLE_KEY_PATTERN k
      then Inl (Error ''Custom role key must be 2-64 chars of lowercase letters, digits, \"-\" or \"_\", starting with a letter.'')
      else if k \<in> set BUILTIN_ROLE_KEYS
      then Inl (Error (''Custom role key \"'' @ k @ ''\" collides with a built-in role.''))
      else Inr k)"

definition builtinRolePermissions :: "role \<Rightarrow> permission list" where
  "builtinRolePermissions r = BUILTIN_ROLE_PERMISSIONS r"

definition resolveEffectivePermissions :: "role \<Rightarrow> custom_role option \<Rightarrow> permission list" where
  "resolveEffectivePermissions r customRole =
     (case customRole of
        Some c \<Rightarrow> filter (\<lambda>permission. permission \<in> set (cr_permissions c)) CONTROL_PLANE_PERMISSIONS
      | None \<Rightarrow> builtinRolePermissions r)"

definition permissionsRemoved :: "permission list \<Rightarrow> permission list \<Rightarrow> permission list" where
  "permissionsRemoved before after = filter (\<lambda>permission. permission \<notin> set after) before"

definition hasPermission :: "permission list option \<Rightarrow> permission \<Rightarrow> bool" where
  "hasPermission permissions permission =
     (case permissions of Some ps \<Rightarrow> permission \<in> set ps | None \<Rightarrow> False)"


section \<open>Properties of the normalizers\<close>

lemma permissions_seen_Inr:
  "permissions_seen l vs seen = Inr out \<longleftrightarrow>
     list_all isControlPlanePermission vs \<and> out = fold (\<lambda>v acc. if v \<in> set acc then acc else acc @ [v]) vs seen"
  by (induction vs arbitrary: seen) auto

lemma set_seen_fold: "set (fold (\<lambda>v acc. if v \<in> set acc then acc else acc @ [v]) vs seen) = set seen \<union> set vs"
  by (induction vs arbitrary: seen) auto

lemma normalizePermissions_Inr:
  assumes "normalizeControlPlanePermissions vs l = Inr ps"
  shows "\<exists>xs. vs = Some xs \<and> set xs \<subseteq> set CONTROL_PLANE_PERMISSIONS \<and> set ps = set xs
     \<and> ps = filter (\<lambda>p. p \<in> set xs) CONTROL_PLANE_PERMISSIONS"
proof -
  obtain xs seen where xs: "vs = Some xs" and seen: "permissions_seen l xs [] = Inr seen"
    and ps: "ps = filter (\<lambda>p. p \<in> set seen) CONTROL_PLANE_PERMISSIONS"
    using assms by (auto simp: normalizeControlPlanePermissions_def try_pure_def split: option.splits sum.splits)
  have valid: "set xs \<subseteq> set CONTROL_PLANE_PERMISSIONS" and "set seen = set xs"
    using seen by (auto simp: permissions_seen_Inr set_seen_fold list_all_iff isControlPlanePermission_def)
  then show ?thesis using xs ps by auto
qed

lemma normalizePermissions_unsupported:
  assumes "x \<in> set xs" and "x \<notin> set CONTROL_PLANE_PERMISSIONS"
  shows "\<exists>msg. normalizeControlPlanePermissions (Some xs) l = Inl (Error msg)"
proof -
  have "\<exists>msg. permissions_seen l xs seen = Inl (Error msg)" for seen
    using assms
  proof (induction xs arbitrary: seen)
    case (Cons y ys)
    then show ?case by (cases "x = y") (auto simp: isControlPlanePermission_def)
  qed simp
  then obtain msg where "permissions_seen l xs [] = Inl (Error msg)" by blast
  then show ?thesis by (simp add: normalizeControlPlanePermissions_def try_pure_def)
qed

lemma CUSTOM_ROLE_KEY_PATTERN_iff:
  "CUSTOM_ROLE_KEY_PATTERN k \<longleftrightarrow>
     2 \<le> length k \<and> length k \<le> 64 \<and> role_key_start (hd k) \<and> list_all role_key_char k"
  by (cases k) (auto simp: role_key_char_def)

lemma normalizeCustomRoleKey_Inr:
  "normalizeCustomRoleKey v = Inr k \<Longrightarrow> CUSTOM_ROLE_KEY_PATTERN k \<and> k \<notin> set BUILTIN_ROLE_KEYS"
  by (auto simp: normalizeCustomRoleKey_def Let_def split: if_splits)

lemma role_key_char_lower [simp]: "role_key_char c \<Longrightarrow> js_lower_char c = c"
  by (auto simp: role_key_char_def role_key_start_def js_lower_char_def Let_def)

lemma role_key_char_space: "role_key_char c \<Longrightarrow> \<not> is_js_space c"
  by (auto simp: role_key_char_def role_key_start_def is_js_space_def)

lemma js_trim_no_space: "list_all (\<lambda>c. \<not> is_js_space c) s \<Longrightarrow> js_trim s = s"
proof -
  assume a: "list_all (\<lambda>c. \<not> is_js_space c) s"
  then have "dropWhile is_js_space s = s" and "dropWhile is_js_space (rev s) = rev s"
    by (auto intro!: dropWhile_id_hd simp: list_all_iff hd_in_set)
      (metis hd_in_set set_rev rev_is_Nil_conv)
  then show ?thesis by (simp add: js_trim_def)
qed

text \<open>A normalized role key is a fixed point: stored keys and re-normalized keys agree.\<close>

lemma normalizeCustomRoleKey_idem:
  assumes "normalizeCustomRoleKey v = Inr k"
  shows "normalizeCustomRoleKey (Some k) = Inr k"
proof -
  have pat: "CUSTOM_ROLE_KEY_PATTERN k" and nb: "k \<notin> set BUILTIN_ROLE_KEYS"
    using normalizeCustomRoleKey_Inr [OF assms] by auto
  have chars: "list_all role_key_char k" using pat by (simp add: CUSTOM_ROLE_KEY_PATTERN_iff)
  have "js_trim k = k" using chars by (intro js_trim_no_space) (auto simp: list_all_iff role_key_char_space)
  moreover have "js_lower k = k"
    using chars by (simp add: js_lower_def list_all_iff map_idI)
  ultimately show ?thesis using pat nb by (simp add: normalizeCustomRoleKey_def)
qed

lemma permission_catalog_distinct: "distinct CONTROL_PLANE_PERMISSIONS"
  by (simp add: CONTROL_PLANE_PERMISSIONS_def)

lemma builtin_in_catalog: "set (BUILTIN_ROLE_PERMISSIONS r) \<subseteq> set CONTROL_PLANE_PERMISSIONS"
  by (cases r) (auto simp: ADMIN_PERMISSIONS_def CONTROL_PLANE_PERMISSIONS_def)

lemma effective_in_catalog: "set (resolveEffectivePermissions r c) \<subseteq> set CONTROL_PLANE_PERMISSIONS"
  using builtin_in_catalog by (auto simp: resolveEffectivePermissions_def builtinRolePermissions_def split: option.splits)

end
