(* ===== verification/Keyset_Paging.thy ===== *)
theory Keyset_Paging
  imports Json_Canon
begin

text \<open>
  Keyset pagination, the contract behind every paged listing of the store: rows are sorted by a
  comparator, a page is a prefix of the sorted rows, and the next request keeps the rows after the
  cursor built from the last row of the page. The locale states what the comparator and the
  cursor predicate owe each other; its lemma is that consecutive pages lose and repeat nothing.
\<close>

locale keyset_paging = js_comparator cmp for cmp :: "'a \<Rightarrow> 'a \<Rightarrow> int" +
  fixes after :: "'a \<Rightarrow> 'c \<Rightarrow> bool"
    and cursor :: "'a \<Rightarrow> 'c"
  assumes after_cursor: "after x (cursor y) \<longleftrightarrow> cmp y x < 0"
begin

lemma sorted_strict:
  assumes "\<And>x y. x \<in> set xs \<Longrightarrow> y \<in> set xs \<Longrightarrow> cmp x y = 0 \<Longrightarrow> x = y" and d: "distinct xs"
  shows "sorted_wrt (\<lambda>x y. cmp x y < 0) (js_sort cmp xs)"
  unfolding sorted_wrt_iff_nth_less
proof (intro allI impI)
  fix i j
  let ?s = "js_sort cmp xs"
  assume ij: "i < j" "j < length ?s"
  have le: "cmp (?s ! i) (?s ! j) \<le> 0" using sorted_sort [of xs] ij by (simp add: sorted_wrt_iff_nth_less)
  have "?s ! i \<noteq> ?s ! j" using ij d by (subst nth_eq_iff_index_eq) auto
  moreover have "?s ! i \<in> set xs" "?s ! j \<in> set xs" using ij by (metis length_js_sort nth_mem order_less_trans set_js_sort)+
  ultimately have "cmp (?s ! i) (?s ! j) \<noteq> 0" using assms(1) by blast
  with le show "cmp (?s ! i) (?s ! j) < 0" by simp
qed

lemma cmp_less_asym: "cmp x y < 0 \<Longrightarrow> \<not> cmp y x < 0"
  using cmp_sgn [of x y] by (auto simp: sgn_if split: if_splits)

lemma sort_filter_strict:
  assumes "sorted_wrt (\<lambda>x y. cmp x y < 0) (js_sort cmp xs)" and "sorted_wrt (\<lambda>x y. cmp x y < 0) (js_sort cmp (filter P xs))"
  shows "js_sort cmp (filter P xs) = filter P (js_sort cmp xs)"
  using assms(2) sorted_wrt_filter [OF assms(1)]
  by (rule sorted_strict_unique) (simp_all add: cmp_less_asym)

lemma filter_after_split:
  assumes "sorted_wrt (\<lambda>x y. cmp x y < 0) (ys @ z # zs)"
  shows "filter (\<lambda>x. after x (cursor z)) (ys @ z # zs) = zs"
proof -
  have "\<forall>y \<in> set ys. \<not> after y (cursor z)" and "\<forall>x \<in> set zs. after x (cursor z)"
    using assms cmp_less_asym by (auto simp: sorted_wrt_append after_cursor)
  then show ?thesis using cmp_refl by (simp add: after_cursor filter_id_conv filter_empty_conv)
qed

text \<open>The rows after the cursor of a page are exactly the rows the page left out, in order.\<close>

lemma page_resume:
  assumes uniq: "\<And>x y. x \<in> set xs \<Longrightarrow> y \<in> set xs \<Longrightarrow> cmp x y = 0 \<Longrightarrow> x = y" and d: "distinct xs"
    and n: "0 < n" "n \<le> length xs"
  shows "js_sort cmp (filter (\<lambda>x. after x (cursor (last (take n (js_sort cmp xs))))) xs) = drop n (js_sort cmp xs)"
proof -
  let ?s = "js_sort cmp xs" and ?z = "last (take n (js_sort cmp xs))"
  have srt: "sorted_wrt (\<lambda>x y. cmp x y < 0) ?s" using uniq d by (rule sorted_strict)
  have "take n ?s \<noteq> []" using n by (cases "js_sort cmp xs") (auto simp flip: length_js_sort [of cmp xs])
  then have split: "butlast (take n ?s) @ ?z # drop n ?s = ?s"
    by (metis append_butlast_last_id append_take_drop_id append.assoc append_Cons append_Nil)
  have "filter (\<lambda>x. after x (cursor ?z)) ?s = drop n ?s"
    using filter_after_split [of "butlast (take n ?s)" ?z "drop n ?s"] srt split by simp
  moreover have "sorted_wrt (\<lambda>x y. cmp x y < 0) (js_sort cmp (filter (\<lambda>x. after x (cursor ?z)) xs))"
    using uniq d by (intro sorted_strict) auto
  ultimately show ?thesis using sort_filter_strict [OF srt] by simp
qed

end

text \<open>A total order on rows by a descending timestamp with the id as tie-breaker, cursor predicate included.\<close>

lemma keyset_paging_desc:
  fixes t :: "'a \<Rightarrow> int" and i :: "'a \<Rightarrow> string"
  shows "keyset_paging (\<lambda>x y. if t x \<noteq> t y then cmp_int (t y) (t x) else cmp_code_units (i y) (i x))
     (\<lambda>x c. if t x \<noteq> fst c then t x < fst c else str_less (i x) (snd c)) (\<lambda>y. (t y, i y))"
proof -
  have c: "js_comparator (cmp_then (cmp_rev (cmp_by t cmp_int)) (cmp_rev (cmp_by i cmp_code_units)))"
    by (intro js_comparator_then js_comparator_rev js_comparator_by int_order.js_comparator_axioms code_unit_order.js_comparator_axioms)
  have eq: "cmp_then (cmp_rev (cmp_by t cmp_int)) (cmp_rev (cmp_by i cmp_code_units))
      = (\<lambda>x y. if t x \<noteq> t y then cmp_int (t y) (t x) else cmp_code_units (i y) (i x))"
    by (intro ext) (auto simp: cmp_then_def cmp_rev_def cmp_by_def cmp_int_def)
  show ?thesis
    using c unfolding eq keyset_paging_def keyset_paging_axioms_def
    using str_less_asym by (auto simp: cmp_int_def cmp_code_units_def)
qed

end
