(* ===== verification/Identity_Directory.thy ===== *)
theory Identity_Directory
  imports Permissions Keyset_Paging
begin

text \<open>
  The identity root (\<open>in-memory-domains/identity.ts\<close>) and the audit log (\<open>in-memory-domains/audit.ts\<close>,
  \<open>audit-query.ts\<close>): tenants, users, orgs, accounts, memberships with their lookup indexes, and
  the audit trail every mutating operation writes to. The two domains call each other through
  injected hosts, so their state is one record; the later components extend it.
\<close>


section \<open>Records\<close>

datatype membership_status = MActive | MInvited | MDisabled

primrec membership_status_text :: "membership_status \<Rightarrow> string" where
  "membership_status_text MActive = ''active''"
| "membership_status_text MInvited = ''invited''"
| "membership_status_text MDisabled = ''disabled''"

datatype actor_type = ActorUser | ActorApiToken | ActorSystem

record tenant_record =
  tn_tenantId :: string
  tn_name :: string
  tn_createdAt :: iso

record user_record =
  us_tenantId :: string
  us_userId :: string
  us_email :: string
  us_role :: role
  us_createdAt :: iso

record org_record =
  og_orgId :: string
  og_tenantId :: string
  og_name :: string
  og_planKey :: "string option"
  og_status :: string
  og_createdAt :: iso
  og_updatedAt :: iso

record account_record =
  ac_accountId :: string
  ac_idpSubject :: "string option"
  ac_email :: string
  ac_displayName :: "string option"
  ac_createdAt :: iso
  ac_updatedAt :: iso

record membership_record =
  mb_orgId :: string
  mb_accountId :: string
  mb_role :: role
  mb_customRoleKey :: "string option"
  mb_status :: membership_status
  mb_createdAt :: iso
  mb_updatedAt :: iso

record org_member_record =
  om_orgId :: string
  om_accountId :: string
  om_email :: string
  om_displayName :: "string option"
  om_role :: role
  om_customRoleKey :: "string option"
  om_status :: membership_status
  om_createdAt :: iso
  om_updatedAt :: iso

record principal_membership =
  pm_org :: org_record
  pm_account :: account_record
  pm_membership :: membership_record

record audit_event =
  ae_eventId :: string
  ae_orgId :: string
  ae_accountId :: "string option"
  ae_actorType :: actor_type
  ae_actorId :: "string option"
  ae_eventType :: string
  ae_targetType :: "string option"
  ae_targetId :: "string option"
  ae_metadata :: json
  ae_createdAt :: iso

record audit_actor =
  aa_actorType :: actor_type
  aa_actorId :: "string option"
  aa_accountId :: "string option"

record audit_input =
  ai_eventId :: "string option"
  ai_orgId :: string
  ai_accountId :: "string option"
  ai_actorType :: actor_type
  ai_actorId :: "string option"
  ai_eventType :: string
  ai_targetType :: "string option"
  ai_targetId :: "string option"
  ai_metadata :: "json option"
  ai_createdAt :: "iso option"

record account_input =
  aci_accountId :: string
  aci_idpSubject :: "string option"
  aci_email :: string
  aci_displayName :: "string option"
  aci_createdAt :: "iso option"

text \<open>\<open>customRoleKey\<close> distinguishes absent (\<open>None\<close>), \<open>null\<close> (\<open>Some None\<close>) and a string.\<close>

record membership_input =
  mi_orgId :: string
  mi_accountId :: string
  mi_role :: role
  mi_customRoleKey :: "string option option"
  mi_status :: "membership_status option"
  mi_updatedAt :: "iso option"
  mi_actor :: "audit_actor option"

record audit_cursor =
  cu_createdAt :: iso
  cu_eventId :: string

record audit_query =
  aq_orgId :: string
  aq_actorId :: "string option"
  aq_actorType :: "actor_type option"
  aq_eventTypePrefix :: "string option"
  aq_targetType :: "string option"
  aq_targetId :: "string option"
  aq_result :: "string option"
  aq_from :: "iso option"
  aq_to :: "iso option"
  aq_limit :: "jsnum option"
  aq_cursor :: "audit_cursor option"

record audit_page =
  ap_events :: "audit_event list"
  ap_nextCursor :: "audit_cursor option"

record identity_store =
  tenants :: "tenant_record jsmap"
  users :: "user_record jsmap"
  orgs :: "org_record jsmap"
  orgsByTenant :: "string jsmap"
  accounts :: "account_record jsmap"
  accountsBySubject :: "string jsmap"
  accountsByEmail :: "string jsmap"
  memberships :: "membership_record jsmap"
  auditEvents :: "audit_event jsmap"


section \<open>Lookups\<close>

definition orgExists :: "'a identity_store_scheme \<Rightarrow> string \<Rightarrow> bool" where
  "orgExists s orgId = map_has (orgs s) orgId"

definition accountExists :: "'a identity_store_scheme \<Rightarrow> string \<Rightarrow> bool" where
  "accountExists s accountId = map_has (accounts s) accountId"

definition orgIdForTenant :: "'a identity_store_scheme \<Rightarrow> string \<Rightarrow> string" where
  "orgIdForTenant s tenantId = or_else (map_get (orgsByTenant s) tenantId) tenantId"

definition orgTenantId :: "'a identity_store_scheme \<Rightarrow> string \<Rightarrow> string option" where
  "orgTenantId s orgId = or_null (map_option og_tenantId (map_get (orgs s) orgId))"

definition resolveOrgIdOrNull :: "'a identity_store_scheme \<Rightarrow> string \<Rightarrow> string option" where
  "resolveOrgIdOrNull s tenantId =
     (case or_null (map_get (orgsByTenant s) tenantId) of
        Some orgId \<Rightarrow> Some orgId
      | None \<Rightarrow> (if orgExists s tenantId then Some tenantId else None))"

definition requireTenant :: "'a identity_store_scheme \<Rightarrow> string \<Rightarrow> error + tenant_record" where
  "requireTenant s tenantId =
     (case map_get (tenants s) tenantId of
        Some t \<Rightarrow> Inr t
      | None \<Rightarrow> Inl (Error (''Unknown tenant '' @ tenantId @ ''.'')))"

definition requireTenantUser :: "'a identity_store_scheme \<Rightarrow> string \<Rightarrow> string \<Rightarrow> error + user_record" where
  "requireTenantUser s tenantId userId =
     try_pure (requireTenant s tenantId) (\<lambda>_.
       case map_get (users s) (key [tenantId, userId]) of
         Some u \<Rightarrow> Inr u
       | None \<Rightarrow> Inl (Error (''User '' @ userId @ '' does not belong to tenant '' @ tenantId @ ''.'')))"

definition requireOrg :: "'a identity_store_scheme \<Rightarrow> string \<Rightarrow> error + unit" where
  "requireOrg s orgId =
     (if orgExists s orgId then Inr () else Inl (Error (''Unknown org '' @ orgId @ ''.'')))"


section \<open>The audit log\<close>

definition audit_event_id :: "env \<Rightarrow> audit_input \<Rightarrow> 'a identity_store_scheme \<Rightarrow> string" where
  "audit_event_id e inp s = or_else (ai_eventId inp)
     (stableId e ''audit'' [ai_orgId inp, ai_eventType inp, show_nat (length (auditEvents s) + 1),
        iso_text (nowIso e (ai_createdAt inp))])"

definition audit_event_of :: "env \<Rightarrow> audit_input \<Rightarrow> string \<Rightarrow> audit_event" where
  "audit_event_of e inp eventId =
     \<lparr> ae_eventId = eventId, ae_orgId = ai_orgId inp, ae_accountId = or_null (ai_accountId inp),
       ae_actorType = ai_actorType inp, ae_actorId = or_null (ai_actorId inp),
       ae_eventType = ai_eventType inp, ae_targetType = or_null (ai_targetType inp),
       ae_targetId = or_null (ai_targetId inp), ae_metadata = redactAuditMetadata e (ai_metadata inp),
       ae_createdAt = nowIso e (ai_createdAt inp) \<rparr>"

definition recordAuditEvent ::
  "env \<Rightarrow> audit_input \<Rightarrow> 'a identity_store_scheme \<Rightarrow> ('a identity_store_scheme, audit_event) outcome" where
  "recordAuditEvent e inp s =
     try_in s (requireOrg s (ai_orgId inp)) (\<lambda>_.
       let eventId = audit_event_id e inp s in
       case map_get (auditEvents s) eventId of
         Some existing \<Rightarrow> (Inr existing, s)
       | None \<Rightarrow>
           let record = audit_event_of e inp eventId
           in (Inr record, s\<lparr> auditEvents := map_set eventId record (auditEvents s) \<rparr>))"

definition listAuditEvents :: "'a identity_store_scheme \<Rightarrow> string \<Rightarrow> jsnum \<Rightarrow> error + audit_event list" where
  "listAuditEvents s orgId limit =
     try_pure (requireOrg s orgId) (\<lambda>_.
       Inr (js_slice (js_sort (cmp_rev (cmp_by ae_createdAt cmp_int))
              (filter (\<lambda>event. ae_orgId event = orgId) (map_values (auditEvents s)))) limit))"

definition normalizeAuditQueryLimit :: "jsnum option \<Rightarrow> jsnum" where
  "normalizeAuditQueryLimit limit =
     js_max 1 (js_min 500 (case limit of
        Some v \<Rightarrow> (if js_is_finite v then js_floor v else JInt 100)
      | None \<Rightarrow> JInt 100))"

definition resultTag :: "audit_event \<Rightarrow> string option" where
  "resultTag event =
     (case ae_metadata event of
        JObj kvs \<Rightarrow> (case map_of kvs ''result'' of Some (JStr v) \<Rightarrow> Some v | _ \<Rightarrow> None)
      | _ \<Rightarrow> None)"

definition compareAuditEventsDescending :: "env \<Rightarrow> audit_event \<Rightarrow> audit_event \<Rightarrow> int" where
  "compareAuditEventsDescending e left right =
     (if ae_createdAt left \<noteq> ae_createdAt right then cmp_int (ae_createdAt right) (ae_createdAt left)
      else locale_compare e (ae_eventId right) (ae_eventId left))"

definition isAuditEventAfterCursor :: "audit_event \<Rightarrow> audit_cursor \<Rightarrow> bool" where
  "isAuditEventAfterCursor event cursor =
     (if ae_createdAt event \<noteq> cu_createdAt cursor then ae_createdAt event < cu_createdAt cursor
      else str_less (ae_eventId event) (cu_eventId cursor))"

definition auditEventMatchesQuery :: "audit_event \<Rightarrow> audit_query \<Rightarrow> bool" where
  "auditEventMatchesQuery event q =
     ((case or_null (aq_actorId q) of Some a \<Rightarrow> ae_actorId event = Some a | None \<Rightarrow> True)
      \<and> (case aq_actorType q of Some t \<Rightarrow> ae_actorType event = t | None \<Rightarrow> True)
      \<and> (case or_null (aq_eventTypePrefix q) of Some p \<Rightarrow> starts_with (ae_eventType event) p | None \<Rightarrow> True)
      \<and> (case or_null (aq_targetType q) of Some t \<Rightarrow> ae_targetType event = Some t | None \<Rightarrow> True)
      \<and> (case or_null (aq_targetId q) of Some t \<Rightarrow> ae_targetId event = Some t | None \<Rightarrow> True)
      \<and> (case or_null (aq_result q) of Some r \<Rightarrow> resultTag event = Some r | None \<Rightarrow> True)
      \<and> (case aq_from q of Some t \<Rightarrow> \<not> ae_createdAt event < t | None \<Rightarrow> True)
      \<and> (case aq_to q of Some t \<Rightarrow> \<not> ae_createdAt event > t | None \<Rightarrow> True))"

definition paginateAuditEvents :: "audit_event list \<Rightarrow> int \<Rightarrow> audit_page" where
  "paginateAuditEvents ordered limit =
     (if int (length ordered) \<le> limit then \<lparr> ap_events = ordered, ap_nextCursor = None \<rparr>
      else let events = slice_int ordered limit in
        \<lparr> ap_events = events,
          ap_nextCursor = (if events = [] then None
            else Some \<lparr> cu_createdAt = ae_createdAt (last events), cu_eventId = ae_eventId (last events) \<rparr>) \<rparr>)"

text \<open>\<open>normalizeAuditQueryLimit\<close> is always an integer (its argument is floored or a default).\<close>

definition js_int :: "jsnum \<Rightarrow> int" where
  "js_int n = (case n of JInt i \<Rightarrow> i | JFrac i \<Rightarrow> i | _ \<Rightarrow> 0)"

definition queryAuditEvents :: "env \<Rightarrow> 'a identity_store_scheme \<Rightarrow> audit_query \<Rightarrow> error + audit_page" where
  "queryAuditEvents e s q =
     try_pure (requireOrg s (aq_orgId q)) (\<lambda>_.
       let limit = js_int (normalizeAuditQueryLimit (aq_limit q));
           matching = filter (\<lambda>event. ae_orgId event = aq_orgId q \<and> auditEventMatchesQuery event q)
             (map_values (auditEvents s));
           later = filter (\<lambda>event. case aq_cursor q of Some c \<Rightarrow> isAuditEventAfterCursor event c | None \<Rightarrow> True) matching
       in Inr (paginateAuditEvents (slice_int (js_sort (compareAuditEventsDescending e) later) (limit + 1)) limit))"

definition pruneAuditEvents :: "iso \<Rightarrow> int \<Rightarrow> 'a identity_store_scheme \<Rightarrow> int \<times> 'a identity_store_scheme" where
  "pruneAuditEvents cutoffIso limit s =
     (let (n, m) = pruneOldestByCreatedAt (auditEvents s) ae_createdAt cutoffIso limit
      in (n, s\<lparr> auditEvents := m \<rparr>))"


section \<open>Tenants, orgs, accounts and memberships\<close>

text \<open>The result is \<open>None\<close> where the code would clone an org that the index names and the map lacks.\<close>

definition ensureOrgForTenant ::
  "env \<Rightarrow> string \<Rightarrow> string \<Rightarrow> string option \<Rightarrow> string option \<Rightarrow> string option \<Rightarrow> iso option
    \<Rightarrow> 'a identity_store_scheme \<Rightarrow> org_record option \<times> 'a identity_store_scheme" where
  "ensureOrgForTenant e tenantId name orgIdIn planKey status createdAtIn s =
     (case or_null (map_get (orgsByTenant s) tenantId) of
        Some existingOrgId \<Rightarrow> (map_get (orgs s) existingOrgId, s)
      | None \<Rightarrow>
          let createdAt = nowIso e createdAtIn; orgId = or_else orgIdIn tenantId;
              record = \<lparr> og_orgId = orgId, og_tenantId = tenantId, og_name = name, og_planKey = planKey,
                og_status = or_else status ''active'', og_createdAt = createdAt, og_updatedAt = createdAt \<rparr>
          in (Some record, s\<lparr> orgs := map_set orgId record (orgs s),
                orgsByTenant := map_set tenantId orgId (orgsByTenant s) \<rparr>))"

definition createTenant ::
  "env \<Rightarrow> string \<Rightarrow> string \<Rightarrow> string option \<Rightarrow> iso option \<Rightarrow> 'a identity_store_scheme
    \<Rightarrow> ('a identity_store_scheme, tenant_record) outcome" where
  "createTenant e tenantId name orgId createdAt s =
     (case map_get (tenants s) tenantId of
        Some existing \<Rightarrow>
          (Inr existing, snd (ensureOrgForTenant e tenantId (tn_name existing) orgId None None createdAt s))
      | None \<Rightarrow>
          let record = \<lparr> tn_tenantId = tenantId, tn_name = name, tn_createdAt = nowIso e createdAt \<rparr>;
              s1 = s\<lparr> tenants := map_set tenantId record (tenants s) \<rparr>
          in (Inr record, snd (ensureOrgForTenant e tenantId name orgId None None createdAt s1)))"

definition createAccount ::
  "env \<Rightarrow> account_input \<Rightarrow> 'a identity_store_scheme \<Rightarrow> account_record \<times> 'a identity_store_scheme" where
  "createAccount e inp s =
     (let bySubject = (case or_null (aci_idpSubject inp) of
             Some subject \<Rightarrow> map_get (accountsBySubject s) subject | None \<Rightarrow> None);
          byEmail = map_get (accountsByEmail s) (js_lower (aci_email inp));
          accountKey = or_else bySubject (or_else byEmail (aci_accountId inp))
      in case map_get (accounts s) accountKey of
        Some existing \<Rightarrow>
          let linked = (or_null (aci_idpSubject inp) \<noteq> None \<and> or_null (ac_idpSubject existing) = None);
              named = (or_null (aci_displayName inp) \<noteq> None \<and> or_null (ac_displayName existing) = None);
              account = existing\<lparr>
                ac_idpSubject := (if linked then aci_idpSubject inp else ac_idpSubject existing),
                ac_displayName := (if named then aci_displayName inp else ac_displayName existing),
                ac_updatedAt := (if linked \<or> named then nowIso e (aci_createdAt inp) else ac_updatedAt existing) \<rparr>;
              s1 = (if linked
                then s\<lparr> accountsBySubject := map_set (the (aci_idpSubject inp)) (ac_accountId existing) (accountsBySubject s) \<rparr>
                else s)
          in (account, s1\<lparr> accounts := map_set accountKey account (accounts s1) \<rparr>)
      | None \<Rightarrow>
          let createdAt = nowIso e (aci_createdAt inp);
              record = \<lparr> ac_accountId = aci_accountId inp, ac_idpSubject = or_null (aci_idpSubject inp),
                ac_email = js_lower (aci_email inp), ac_displayName = or_null (aci_displayName inp),
                ac_createdAt = createdAt, ac_updatedAt = createdAt \<rparr>;
              s1 = s\<lparr> accounts := map_set (ac_accountId record) record (accounts s) \<rparr>;
              s2 = (case ac_idpSubject record of
                Some subject \<Rightarrow>
                  s1\<lparr> accountsBySubject := map_set subject (ac_accountId record) (accountsBySubject s1) \<rparr>
              | None \<Rightarrow> s1)
          in (record, s2\<lparr> accountsByEmail := map_set (ac_email record) (ac_accountId record) (accountsByEmail s2) \<rparr>))"

definition findAccountBySubject :: "'a identity_store_scheme \<Rightarrow> string \<Rightarrow> account_record option" where
  "findAccountBySubject s idpSubject =
     (case or_null (map_get (accountsBySubject s) idpSubject) of
        Some accountId \<Rightarrow> map_get (accounts s) accountId | None \<Rightarrow> None)"

definition findAccountByEmail :: "'a identity_store_scheme \<Rightarrow> string \<Rightarrow> account_record option" where
  "findAccountByEmail s email =
     (case or_null (map_get (accountsByEmail s) (js_lower email)) of
        Some accountId \<Rightarrow> map_get (accounts s) accountId | None \<Rightarrow> None)"

definition normalize_membership_role_key ::
  "string option option \<Rightarrow> membership_record option \<Rightarrow> error + string option" where
  "normalize_membership_role_key customRoleKey existing =
     (case customRoleKey of
        None \<Rightarrow> Inr (case existing of Some m \<Rightarrow> mb_customRoleKey m | None \<Rightarrow> None)
      | Some None \<Rightarrow> Inr None
      | Some (Some v) \<Rightarrow> try_pure (normalizeCustomRoleKey (Some v)) (\<lambda>k. Inr (Some k)))"

definition upsertMembership ::
  "env \<Rightarrow> membership_input \<Rightarrow> 'a identity_store_scheme \<Rightarrow> ('a identity_store_scheme, membership_record) outcome" where
  "upsertMembership e inp s =
     try_in s (requireOrg s (mi_orgId inp)) (\<lambda>_.
       if \<not> accountExists s (mi_accountId inp)
       then (Inl (Error (''Unknown account '' @ mi_accountId inp @ ''.'')), s)
       else
         let membershipKey = key [mi_orgId inp, mi_accountId inp];
             existing = map_get (memberships s) membershipKey;
             now = nowIso e (mi_updatedAt inp)
         in try_in s (normalize_membership_role_key (mi_customRoleKey inp) existing) (\<lambda>customRoleKey.
           let record = \<lparr> mb_orgId = mi_orgId inp, mb_accountId = mi_accountId inp, mb_role = mi_role inp,
                 mb_customRoleKey = customRoleKey, mb_status = coalesce (mi_status inp) MActive,
                 mb_createdAt = (case existing of Some m \<Rightarrow> mb_createdAt m | None \<Rightarrow> now), mb_updatedAt = now \<rparr>;
               s1 = s\<lparr> memberships := map_set membershipKey record (memberships s) \<rparr>
           in then_do (recordAuditEvent e
                \<lparr> ai_eventId = None, ai_orgId = mi_orgId inp, ai_accountId = Some (mi_accountId inp),
                  ai_actorType = (case mi_actor inp of Some a \<Rightarrow> aa_actorType a | None \<Rightarrow> ActorSystem),
                  ai_actorId = (case mi_actor inp of Some a \<Rightarrow> or_null (aa_actorId a) | None \<Rightarrow> None),
                  ai_eventType = (if existing \<noteq> None then ''membership.updated'' else ''membership.created''),
                  ai_targetType = Some ''membership'', ai_targetId = Some membershipKey,
                  ai_metadata = Some (JObj [(''role'', JStr (role_text (mb_role record))),
                    (''status'', JStr (membership_status_text (mb_status record)))]),
                  ai_createdAt = mi_updatedAt inp \<rparr> s1)
                (\<lambda>_ s2. (Inr record, s2))))"

definition ensureUser ::
  "env \<Rightarrow> string \<Rightarrow> string \<Rightarrow> string \<Rightarrow> role option \<Rightarrow> iso option \<Rightarrow> 'a identity_store_scheme
    \<Rightarrow> ('a identity_store_scheme, user_record) outcome" where
  "ensureUser e tenantId userId email r createdAt s =
     try_in s (requireTenant s tenantId) (\<lambda>_.
       let userKey = key [tenantId, userId] in
       case map_get (users s) userKey of
         Some existing \<Rightarrow> (Inr existing, s)
       | None \<Rightarrow>
           let record = \<lparr> us_tenantId = tenantId, us_userId = userId, us_email = email,
                 us_role = coalesce r Member, us_createdAt = nowIso e createdAt \<rparr>;
               s1 = s\<lparr> users := map_set userKey record (users s) \<rparr>;
               (org, s2) = ensureOrgForTenant e tenantId tenantId None None None createdAt s1;
               (account, s3) = createAccount e \<lparr> aci_accountId = userId, aci_idpSubject = Some userId,
                 aci_email = email, aci_displayName = None, aci_createdAt = createdAt \<rparr> s2
           in case org of
                None \<Rightarrow> (Inl (Error ''Cannot read properties of undefined (reading orgId)''), s3)
              | Some og \<Rightarrow>
                  then_do (upsertMembership e \<lparr> mi_orgId = og_orgId og, mi_accountId = ac_accountId account,
                      mi_role = coalesce r Member, mi_customRoleKey = None, mi_status = Some MActive,
                      mi_updatedAt = createdAt,
                      mi_actor = Some \<lparr> aa_actorType = ActorSystem, aa_actorId = Some ''identity.ensureUser'',
                        aa_accountId = None \<rparr> \<rparr> s3)
                    (\<lambda>_ s4. (Inr record, s4)))"

definition or_num :: "jsnum option \<Rightarrow> int \<Rightarrow> jsnum" where
  "or_num v d = (case v of Some n \<Rightarrow> (if js_truthy n then n else JInt d) | None \<Rightarrow> JInt d)"

definition org_member :: "'a identity_store_scheme \<Rightarrow> membership_record \<Rightarrow> org_member_record option" where
  "org_member s m =
     map_option (\<lambda>a. \<lparr> om_orgId = mb_orgId m, om_accountId = mb_accountId m, om_email = ac_email a,
         om_displayName = ac_displayName a, om_role = mb_role m, om_customRoleKey = mb_customRoleKey m,
         om_status = mb_status m, om_createdAt = mb_createdAt m, om_updatedAt = mb_updatedAt m \<rparr>)
       (map_get (accounts s) (mb_accountId m))"

definition org_members :: "'a identity_store_scheme \<Rightarrow> string \<Rightarrow> org_member_record list" where
  "org_members s orgId =
     List.map_filter (org_member s) (filter (\<lambda>m. mb_orgId m = orgId) (map_values (memberships s)))"

definition member_search_text :: "org_member_record \<Rightarrow> string" where
  "member_search_text m =
     js_lower (join_with (CHR '' '') (filter (\<lambda>t. t \<noteq> [])
       ([om_accountId m, om_email m] @ (case om_displayName m of Some d \<Rightarrow> [d] | None \<Rightarrow> [])
        @ [role_text (om_role m), membership_status_text (om_status m)])))"

definition listOrgMembers ::
  "env \<Rightarrow> 'a identity_store_scheme \<Rightarrow> string \<Rightarrow> string option \<Rightarrow> jsnum option \<Rightarrow> error + org_member_record list" where
  "listOrgMembers e s orgId query limitIn =
     try_pure (requireOrg s orgId) (\<lambda>_.
       let queryText = (case query of Some t \<Rightarrow> js_lower (js_trim t) | None \<Rightarrow> []);
           limit = js_max 1 (js_min 500 (or_num limitIn 100))
       in Inr (js_slice (js_sort (cmp_then (cmp_rev (cmp_by om_updatedAt cmp_int)) (cmp_by om_email (locale_compare e)))
            (filter (\<lambda>m. queryText = [] \<or> str_includes (member_search_text m) queryText) (org_members s orgId))) limit))"

definition listOrgMembersPage ::
  "env \<Rightarrow> 'a identity_store_scheme \<Rightarrow> string \<Rightarrow> string option \<Rightarrow> jsnum option \<Rightarrow> error + org_member_record list" where
  "listOrgMembersPage e s orgId afterIn limitIn =
     try_pure (requireOrg s orgId) (\<lambda>_.
       let afterAccountId = (case afterIn of Some t \<Rightarrow> js_trim t | None \<Rightarrow> []);
           limit = js_max 1 (js_min 1000 (or_num limitIn 500))
       in Inr (js_slice (js_sort (cmp_by om_accountId (locale_compare e))
            (filter (\<lambda>m. afterAccountId = [] \<or> locale_compare e (om_accountId m) afterAccountId > 0)
              (org_members s orgId))) limit))"

definition listMembershipsForAccount :: "'a identity_store_scheme \<Rightarrow> string \<Rightarrow> membership_record list" where
  "listMembershipsForAccount s accountId = filter (\<lambda>m. mb_accountId m = accountId) (map_values (memberships s))"

definition first_some :: "'a option \<Rightarrow> 'a option \<Rightarrow> 'a option" where
  "first_some a b = (case a of Some x \<Rightarrow> Some x | None \<Rightarrow> b)"

definition resolvePrincipalMembership ::
  "'a identity_store_scheme \<Rightarrow> string \<Rightarrow> string option \<Rightarrow> string option \<Rightarrow> string option \<Rightarrow> string option
    \<Rightarrow> principal_membership option" where
  "resolvePrincipalMembership s tenantId userId accountId idpSubject email =
     (case or_null (resolveOrgIdOrNull s tenantId) of
        None \<Rightarrow> None
      | Some orgId \<Rightarrow>
          (let account =
             first_some (Option.bind (or_null accountId) (map_get (accounts s)))
               (first_some (Option.bind (or_null idpSubject) (findAccountBySubject s))
                 (first_some (Option.bind (or_null email) (findAccountByEmail s))
                   (Option.bind (or_null userId) (map_get (accounts s)))))
           in case (map_get (orgs s) orgId, account) of
             (Some org, Some a) \<Rightarrow>
               map_option (\<lambda>m. \<lparr> pm_org = org, pm_account = a, pm_membership = m \<rparr>)
                 (map_get (memberships s) (key [og_orgId org, ac_accountId a]))
           | _ \<Rightarrow> None))"


section \<open>Well-formed identity state\<close>

text \<open>What redaction leaves of one metadata entry, and of a whole metadata object.\<close>

fun audit_entry_clean :: "string \<times> json \<Rightarrow> bool" where
  "audit_entry_clean (field, v) =
     (if sensitive_audit_field field then v = JStr ''[redacted]''
      else case v of JArr _ \<Rightarrow> False | JObj _ \<Rightarrow> False | JStr t \<Rightarrow> length t \<le> 256 | _ \<Rightarrow> True)"

fun audit_clean :: "json \<Rightarrow> bool" where
  "audit_clean (JObj kvs) = list_all audit_entry_clean kvs"
| "audit_clean _ = False"

definition audit_event_ok :: "'a identity_store_scheme \<Rightarrow> string \<Rightarrow> audit_event \<Rightarrow> bool" where
  "audit_event_ok s k ev = (ae_eventId ev = k \<and> orgExists s (ae_orgId ev) \<and> audit_clean (ae_metadata ev))"

definition membership_ok :: "'a identity_store_scheme \<Rightarrow> string \<Rightarrow> membership_record \<Rightarrow> bool" where
  "membership_ok s k m =
     (k = key [mb_orgId m, mb_accountId m] \<and> orgExists s (mb_orgId m) \<and> accountExists s (mb_accountId m))"

definition maps_ok :: "'a identity_store_scheme \<Rightarrow> bool" where
  "maps_ok s = (map_ok (tenants s) \<and> map_ok (users s) \<and> map_ok (orgs s) \<and> map_ok (orgsByTenant s) \<and> map_ok (accounts s)
     \<and> map_ok (accountsBySubject s) \<and> map_ok (accountsByEmail s) \<and> map_ok (memberships s) \<and> map_ok (auditEvents s))"

definition identity_ok :: "'a identity_store_scheme \<Rightarrow> bool" where
  "identity_ok s =
     (maps_ok s
      \<and> (\<forall>k t. map_get (tenants s) k = Some t \<longrightarrow> tn_tenantId t = k \<and> map_has (orgsByTenant s) k)
      \<and> (\<forall>k u. map_get (users s) k = Some u \<longrightarrow>
            k = key [us_tenantId u, us_userId u] \<and> map_has (tenants s) (us_tenantId u))
      \<and> (\<forall>k og. map_get (orgs s) k = Some og \<longrightarrow> og_orgId og = k)
      \<and> (\<forall>t k. map_get (orgsByTenant s) t = Some k \<longrightarrow> orgExists s k)
      \<and> (\<forall>k a. map_get (accounts s) k = Some a \<longrightarrow> ac_accountId a = k)
      \<and> (\<forall>t k. map_get (accountsBySubject s) t = Some k \<longrightarrow> accountExists s k)
      \<and> (\<forall>t k. map_get (accountsByEmail s) t = Some k \<longrightarrow> accountExists s k)
      \<and> (\<forall>k m. map_get (memberships s) k = Some m \<longrightarrow> membership_ok s k m)
      \<and> (\<forall>k ev. map_get (auditEvents s) k = Some ev \<longrightarrow> audit_event_ok s k ev))"

lemmas identity_defs = identity_ok_def maps_ok_def membership_ok_def audit_event_ok_def orgExists_def accountExists_def
  map_has_def

lemma or_null_simps [simp]: "or_null None = None" "or_null (Some t) = (if t = [] then None else Some t)"
  by (auto simp: or_null_def)

lemma or_null_Some_iff: "or_null v = Some t \<longleftrightarrow> v = Some t \<and> t \<noteq> []"
  by (cases v) auto

lemma try_in_Inr: "try_in s m k = (Inr r, s') \<longleftrightarrow> (\<exists>a. m = Inr a \<and> k a = (Inr r, s'))"
  by (auto simp: try_in_def split: sum.splits)

lemma requireOrg_Inr [simp]: "requireOrg s k = Inr u \<longleftrightarrow> orgExists s k"
  by (auto simp: requireOrg_def)

lemma redact_entry_clean: "audit_entry_clean (redact_audit_entry e p)"
  by (cases p) (auto simp: Let_def split: json.splits)

lemma redact_clean: "audit_clean (redactAuditMetadata e m)"
  by (induction e m rule: redactAuditMetadata.induct) (auto simp: list_all_iff redact_entry_clean)

text \<open>Every outcome of an audit write: nothing changes but the log, and the log grows by one event or not at all.\<close>

lemma recordAuditEvent_effect:
  assumes "recordAuditEvent e inp s = (r, s')"
  obtains "s' = s" | ev where "s' = s\<lparr> auditEvents := map_set (ae_eventId ev) ev (auditEvents s) \<rparr>"
      "map_get (auditEvents s) (ae_eventId ev) = None" "ae_orgId ev = ai_orgId inp" "orgExists s (ai_orgId inp)"
      "audit_clean (ae_metadata ev)" "r = Inr ev"
proof (cases "orgExists s (ai_orgId inp)")
  case False
  with assms that(1) show thesis by (simp add: recordAuditEvent_def try_in_def requireOrg_def)
next
  case True
  define eid where "eid = audit_event_id e inp s"
  define ev where "ev = audit_event_of e inp eid"
  have run: "recordAuditEvent e inp s = (case map_get (auditEvents s) eid of Some existing \<Rightarrow> (Inr existing, s)
      | None \<Rightarrow> (Inr ev, s\<lparr> auditEvents := map_set eid ev (auditEvents s) \<rparr>))"
    unfolding recordAuditEvent_def Let_def eid_def ev_def using True by (simp add: try_in_def requireOrg_def)
  have ev: "ae_eventId ev = eid" "ae_orgId ev = ai_orgId inp" "audit_clean (ae_metadata ev)"
    by (simp_all add: ev_def audit_event_of_def redact_clean)
  show thesis
  proof (cases "map_get (auditEvents s) eid")
    case None
    with run assms have "r = Inr ev" "s' = s\<lparr> auditEvents := map_set eid ev (auditEvents s) \<rparr>" by simp_all
    then show thesis using that(2) [of ev] ev None True by simp
  next
    case (Some existing)
    with run assms that(1) show thesis by simp
  qed
qed

lemma identity_ok_audit:
  assumes "identity_ok s" "map_get (auditEvents s) (ae_eventId ev) = None" "orgExists s (ae_orgId ev)" "audit_clean (ae_metadata ev)"
  shows "identity_ok (s\<lparr> auditEvents := map_set (ae_eventId ev) ev (auditEvents s) \<rparr>)"
  using assms by (simp add: identity_defs)

lemma recordAuditEvent_ok: "identity_ok s \<Longrightarrow> recordAuditEvent e inp s = (r, s') \<Longrightarrow> identity_ok s'"
  by (erule recordAuditEvent_effect) (simp_all add: identity_ok_audit)

lemma ensureOrgForTenant_effect:
  assumes "ensureOrgForTenant e t n oid pk st ca s = (r, s')"
  obtains k where "map_get (orgsByTenant s) t = Some k" "r = map_get (orgs s) k" "s' = s"
  | og where "r = Some og" "s' = s\<lparr> orgs := map_set (og_orgId og) og (orgs s),
      orgsByTenant := map_set t (og_orgId og) (orgsByTenant s) \<rparr>"
proof (cases "or_null (map_get (orgsByTenant s) t)")
  case None
  with assms show thesis by (auto simp: ensureOrgForTenant_def Let_def intro!: that(2))
next
  case (Some k)
  with assms show thesis by (auto simp: ensureOrgForTenant_def or_null_Some_iff intro!: that(1))
qed

lemma identity_ok_org:
  assumes "identity_ok s"
  shows "identity_ok (s\<lparr> orgs := map_set (og_orgId og) og (orgs s), orgsByTenant := map_set t (og_orgId og) (orgsByTenant s) \<rparr>)"
  using assms by (simp add: identity_defs) blast

lemma identity_ok_orgRef:
  "identity_ok s \<Longrightarrow> map_get (orgsByTenant s) t = Some k \<Longrightarrow> \<exists>og. map_get (orgs s) k = Some og \<and> og_orgId og = k"
  unfolding identity_ok_def orgExists_def map_has_def by blast

lemma ensureOrgForTenant_ok:
  assumes ok: "identity_ok s" and run: "ensureOrgForTenant e t n oid pk st ca s = (r, s')"
  shows "identity_ok s'" and "\<exists>og. r = Some og \<and> orgExists s' (og_orgId og)" and "map_has (orgsByTenant s') t"
proof -
  from run show "identity_ok s'" by (rule ensureOrgForTenant_effect) (simp_all add: ok identity_ok_org)
  from run show "\<exists>og. r = Some og \<and> orgExists s' (og_orgId og)"
  proof (rule ensureOrgForTenant_effect)
    fix k assume k: "map_get (orgsByTenant s) t = Some k" "r = map_get (orgs s) k" "s' = s"
    then obtain og where "map_get (orgs s) k = Some og" "og_orgId og = k" using identity_ok_orgRef [OF ok] by blast
    then show ?thesis using k by (simp add: orgExists_def map_has_def)
  qed (simp add: orgExists_def map_has_def)
  from run show "map_has (orgsByTenant s') t"
    by (rule ensureOrgForTenant_effect) (simp_all add: map_has_def)
qed

lemma identity_ok_tenant:
  assumes "identity_ok s" "map_has (orgsByTenant s) (tn_tenantId t)"
  shows "identity_ok (s\<lparr> tenants := map_set (tn_tenantId t) t (tenants s) \<rparr>)"
  using assms by (simp add: identity_defs)

lemma createTenant_ok:
  assumes ok: "identity_ok s" and run: "createTenant e t n oid ca s = (r, s')"
  shows "identity_ok s'" and "\<exists>t'. r = Inr t' \<and> map_get (tenants s') t = Some t' \<and> tn_tenantId t' = t"
proof -
  define p where "p = ensureOrgForTenant e t n oid None None ca s"
  define rec where "rec = \<lparr> tn_tenantId = t, tn_name = n, tn_createdAt = nowIso e ca \<rparr>"
  have swap: "snd (ensureOrgForTenant e t n oid None None ca (s\<lparr> tenants := m \<rparr>)) = (snd p)\<lparr> tenants := m \<rparr>" for m
    by (cases "or_null (map_get (orgsByTenant s) t)") (simp_all add: p_def ensureOrgForTenant_def Let_def)
  obtain r0 s0 where p: "p = (r0, s0)" by (cases p)
  have pok: "identity_ok (snd p)" "map_has (orgsByTenant (snd p)) t"
    using ensureOrgForTenant_ok(1,3) [OF ok, of e t n oid None None ca r0 s0] p by (simp_all add: p_def)
  have pt: "tenants (snd p) = tenants s"
    by (simp add: p_def ensureOrgForTenant_def Let_def split: option.splits)
  show "identity_ok s'"
  proof (cases "map_get (tenants s) t")
    case None
    with run swap have "s' = (snd p)\<lparr> tenants := map_set (tn_tenantId rec) rec (tenants (snd p)) \<rparr>"
      by (simp add: createTenant_def Let_def rec_def pt)
    then show ?thesis using identity_ok_tenant [OF pok(1), of rec] pok(2) by (simp add: rec_def)
  next
    case (Some old)
    with run have "s' = snd (ensureOrgForTenant e t (tn_name old) oid None None ca s)" by (simp add: createTenant_def)
    then show ?thesis
      using ensureOrgForTenant_ok(1) [OF ok, of e t "tn_name old" oid None None ca] by (metis prod.collapse)
  qed
  show "\<exists>t'. r = Inr t' \<and> map_get (tenants s') t = Some t' \<and> tn_tenantId t' = t"
  proof (cases "map_get (tenants s) t")
    case None
    with run swap show ?thesis by (auto simp: createTenant_def Let_def)
  next
    case (Some old)
    moreover from this ok have "tn_tenantId old = t" by (simp add: identity_ok_def)
    moreover have "tenants (snd (ensureOrgForTenant e t (tn_name old) oid None None ca s)) = tenants s"
      by (simp add: ensureOrgForTenant_def Let_def split: option.splits)
    ultimately show ?thesis using run by (auto simp: createTenant_def)
  qed
qed

lemma identity_ok_account:
  assumes "identity_ok s"
  shows "identity_ok (s\<lparr> accounts := map_set (ac_accountId a) a (accounts s) \<rparr>)"
  using assms by (simp add: identity_defs)

lemma identity_ok_account_index:
  assumes "identity_ok s" "accountExists s k"
  shows "identity_ok (s\<lparr> accountsBySubject := map_set t k (accountsBySubject s) \<rparr>)"
    and "identity_ok (s\<lparr> accountsByEmail := map_set t k (accountsByEmail s) \<rparr>)"
  using assms by (simp_all add: identity_defs)

lemma map_set_same: "map_get m k = Some v \<Longrightarrow> map_set k v m = m"
  by (induction m) (auto simp: map_get_def split: if_splits)

lemma createAccount_existing:
  assumes ok: "identity_ok s" and ex: "map_get (accounts s) k = Some a"
    and "k = or_else (case or_null (aci_idpSubject inp) of Some subject \<Rightarrow> map_get (accountsBySubject s) subject | None \<Rightarrow> None)
       (or_else (map_get (accountsByEmail s) (js_lower (aci_email inp))) (aci_accountId inp))"
  shows "identity_ok (snd (createAccount e inp s))" and "ac_accountId (fst (createAccount e inp s)) = k"
    and "accountExists (snd (createAccount e inp s)) k"
proof -
  have ak: "ac_accountId a = k" using ok ex by (simp add: identity_ok_def)
  have aex: "accountExists s k" using ex by (simp add: accountExists_def map_has_def)
  have ix: "identity_ok (s\<lparr> accountsBySubject := map_set t k (accountsBySubject s) \<rparr>)" for t
    using ok aex by (rule identity_ok_account_index)
  define a3 where "a3 = fst (createAccount e inp s)"
  define s1 where "s1 = (if or_null (aci_idpSubject inp) \<noteq> None \<and> or_null (ac_idpSubject a) = None
     then s\<lparr> accountsBySubject := map_set (the (aci_idpSubject inp)) k (accountsBySubject s) \<rparr> else s)"
  have run: "createAccount e inp s = (a3, s1\<lparr> accounts := map_set k a3 (accounts s1) \<rparr>)"
    unfolding a3_def s1_def createAccount_def Let_def assms(3) [symmetric] ex option.case prod.sel ak ..
  have s1: "s1 = s \<or> (\<exists>t. s1 = s\<lparr> accountsBySubject := map_set t k (accountsBySubject s) \<rparr>)"
    by (auto simp: s1_def)
  have a3: "ac_accountId a3 = k"
    unfolding a3_def createAccount_def Let_def assms(3) [symmetric] ex option.case prod.sel by (simp add: ak)
  have "identity_ok s1" using s1 ix ok by blast
  then show "identity_ok (snd (createAccount e inp s))" using identity_ok_account [of s1 a3] a3 run by simp
  show "ac_accountId (fst (createAccount e inp s)) = k" using run a3 by simp
  show "accountExists (snd (createAccount e inp s)) k" using run by (simp add: accountExists_def map_has_def)
qed

lemma createAccount_new:
  assumes ok: "identity_ok s" and new: "map_get (accounts s) k = None"
    and "k = or_else (case or_null (aci_idpSubject inp) of Some subject \<Rightarrow> map_get (accountsBySubject s) subject | None \<Rightarrow> None)
       (or_else (map_get (accountsByEmail s) (js_lower (aci_email inp))) (aci_accountId inp))"
  shows "identity_ok (snd (createAccount e inp s))"
    and "ac_accountId (fst (createAccount e inp s)) = aci_accountId inp"
    and "accountExists (snd (createAccount e inp s)) (aci_accountId inp)"
proof -
  obtain a where a: "ac_accountId a = aci_accountId inp" and
    run: "createAccount e inp s = (let s1 = s\<lparr> accounts := map_set (ac_accountId a) a (accounts s) \<rparr>;
        s2 = (case ac_idpSubject a of Some t \<Rightarrow> s1\<lparr> accountsBySubject := map_set t (ac_accountId a) (accountsBySubject s1) \<rparr> | None \<Rightarrow> s1)
        in (a, s2\<lparr> accountsByEmail := map_set (ac_email a) (ac_accountId a) (accountsByEmail s2) \<rparr>))"
    using new unfolding createAccount_def Let_def assms(3) [symmetric] by simp
  define s1 where "s1 = s\<lparr> accounts := map_set (ac_accountId a) a (accounts s) \<rparr>"
  define s2 where "s2 = (case ac_idpSubject a of Some t \<Rightarrow> s1\<lparr> accountsBySubject := map_set t (ac_accountId a) (accountsBySubject s1) \<rparr> | None \<Rightarrow> s1)"
  have s1: "identity_ok s1" "accountExists s1 (ac_accountId a)"
    using identity_ok_account [OF ok] by (auto simp: s1_def accountExists_def map_has_def)
  have s2: "identity_ok s2" "accountExists s2 (ac_accountId a)"
    using s1 identity_ok_account_index [OF s1] by (auto simp: s2_def accountExists_def split: option.splits)
  have run': "createAccount e inp s = (a, s2\<lparr> accountsByEmail := map_set (ac_email a) (ac_accountId a) (accountsByEmail s2) \<rparr>)"
    using run by (simp only: Let_def s1_def s2_def)
  show "identity_ok (snd (createAccount e inp s))" using run' identity_ok_account_index(2) [OF s2] by simp
  show "ac_accountId (fst (createAccount e inp s)) = aci_accountId inp" using run' a by simp
  show "accountExists (snd (createAccount e inp s)) (aci_accountId inp)"
    using run' s2(2) a by (simp add: accountExists_def)
qed

lemma createAccount_ok:
  assumes "identity_ok s"
  shows "identity_ok (snd (createAccount e inp s))"
    and "accountExists (snd (createAccount e inp s)) (ac_accountId (fst (createAccount e inp s)))"
proof -
  define k where "k = or_else (case or_null (aci_idpSubject inp) of Some subject \<Rightarrow> map_get (accountsBySubject s) subject | None \<Rightarrow> None)
       (or_else (map_get (accountsByEmail s) (js_lower (aci_email inp))) (aci_accountId inp))"
  note ex = createAccount_existing [OF assms _ k_def, where e = e] and new = createAccount_new [OF assms _ k_def, where e = e]
  show "identity_ok (snd (createAccount e inp s))"
    using ex(1) new(1) by (cases "map_get (accounts s) k") auto
  show "accountExists (snd (createAccount e inp s)) (ac_accountId (fst (createAccount e inp s)))"
    using ex(2,3) new(2,3) by (cases "map_get (accounts s) k") auto
qed

lemma createAccount_frame: "orgs (snd (createAccount e inp s)) = orgs s" "tenants (snd (createAccount e inp s)) = tenants s"
    "users (snd (createAccount e inp s)) = users s" "memberships (snd (createAccount e inp s)) = memberships s"
    "auditEvents (snd (createAccount e inp s)) = auditEvents s" "orgsByTenant (snd (createAccount e inp s)) = orgsByTenant s"
  by (simp_all add: createAccount_def Let_def split: option.splits)

lemma recordAuditEvent_Inr:
  "orgExists s (ai_orgId inp) \<Longrightarrow> \<exists>ev s'. recordAuditEvent e inp s = (Inr ev, s')"
  by (simp add: recordAuditEvent_def try_in_def requireOrg_def Let_def split: option.splits)

lemma recordAuditEvent_frame:
  assumes "recordAuditEvent e inp s = (r, s')"
  shows "tenants s' = tenants s" "users s' = users s" "orgs s' = orgs s" "orgsByTenant s' = orgsByTenant s"
    "accounts s' = accounts s" "accountsBySubject s' = accountsBySubject s" "accountsByEmail s' = accountsByEmail s"
    "memberships s' = memberships s"
  using assms by (auto elim: recordAuditEvent_effect)

lemma identity_ok_membership:
  assumes "identity_ok s" "membership_ok s k m"
  shows "identity_ok (s\<lparr> memberships := map_set k m (memberships s) \<rparr>)"
  using assms by (simp add: identity_defs)

lemma identity_ok_user:
  assumes "identity_ok s" "map_has (tenants s) (us_tenantId u)"
  shows "identity_ok (s\<lparr> users := map_set (key [us_tenantId u, us_userId u]) u (users s) \<rparr>)"
  using assms by (simp add: identity_defs)

lemma upsertMembership_success:
  assumes org: "orgExists s (mi_orgId inp)" and acc: "accountExists s (mi_accountId inp)"
    and k: "normalize_membership_role_key (mi_customRoleKey inp) (map_get (memberships s) (key [mi_orgId inp, mi_accountId inp])) = Inr k"
  obtains m ainp ev s' where "upsertMembership e inp s = (Inr m, s')"
      "recordAuditEvent e ainp (s\<lparr> memberships := map_set (key [mi_orgId inp, mi_accountId inp]) m (memberships s) \<rparr>) = (Inr ev, s')"
      "mb_orgId m = mi_orgId inp" "mb_accountId m = mi_accountId inp" "mb_role m = mi_role inp" "mb_status m = coalesce (mi_status inp) MActive"
proof -
  define m where "m = \<lparr> mb_orgId = mi_orgId inp, mb_accountId = mi_accountId inp, mb_role = mi_role inp,
     mb_customRoleKey = k, mb_status = coalesce (mi_status inp) MActive,
     mb_createdAt = (case map_get (memberships s) (key [mi_orgId inp, mi_accountId inp]) of
        Some m \<Rightarrow> mb_createdAt m | None \<Rightarrow> nowIso e (mi_updatedAt inp)),
     mb_updatedAt = nowIso e (mi_updatedAt inp) \<rparr>"
  define s1 where "s1 = s\<lparr> memberships := map_set (key [mi_orgId inp, mi_accountId inp]) m (memberships s) \<rparr>"
  obtain ainp where rr: "upsertMembership e inp s = then_do (recordAuditEvent e ainp s1) (\<lambda>_ s2. (Inr m, s2))"
    and ai: "ai_orgId ainp = mi_orgId inp"
    using org acc k unfolding upsertMembership_def try_in_def requireOrg_def Let_def m_def s1_def by simp
  have "orgExists s1 (ai_orgId ainp)" using org ai by (simp add: s1_def orgExists_def)
  then obtain ev s2 where ev: "recordAuditEvent e ainp s1 = (Inr ev, s2)" using recordAuditEvent_Inr by blast
  then have "upsertMembership e inp s = (Inr m, s2)" using rr by (simp add: then_do_def)
  then show thesis using that [of m s2 ainp ev] ev by (simp add: s1_def m_def)
qed

lemma upsertMembership_failure:
  assumes "\<not> (orgExists s (mi_orgId inp) \<and> accountExists s (mi_accountId inp)
    \<and> (\<exists>k. normalize_membership_role_key (mi_customRoleKey inp) (map_get (memberships s) (key [mi_orgId inp, mi_accountId inp])) = Inr k))"
  shows "\<exists>er. upsertMembership e inp s = (Inl er, s)"
  using assms by (auto simp: upsertMembership_def try_in_def requireOrg_def Let_def split: sum.splits if_splits)

lemma upsertMembership_ok:
  assumes ok: "identity_ok s" and run: "upsertMembership e inp s = (r, s')"
  shows "identity_ok s'"
proof (cases "orgExists s (mi_orgId inp) \<and> accountExists s (mi_accountId inp)
    \<and> (\<exists>k. normalize_membership_role_key (mi_customRoleKey inp) (map_get (memberships s) (key [mi_orgId inp, mi_accountId inp])) = Inr k)")
  case False
  then show ?thesis using upsertMembership_failure [of s inp e] run ok by auto
next
  case True
  then obtain k where org: "orgExists s (mi_orgId inp)" and acc: "accountExists s (mi_accountId inp)"
    and k: "normalize_membership_role_key (mi_customRoleKey inp) (map_get (memberships s) (key [mi_orgId inp, mi_accountId inp])) = Inr k"
    by blast
  show ?thesis
  proof (rule upsertMembership_success [OF org acc k, of e])
    fix m ainp ev s2
    assume a: "upsertMembership e inp s = (Inr m, s2)"
      "recordAuditEvent e ainp (s\<lparr> memberships := map_set (key [mi_orgId inp, mi_accountId inp]) m (memberships s) \<rparr>) = (Inr ev, s2)"
      "mb_orgId m = mi_orgId inp" "mb_accountId m = mi_accountId inp"
    then have "membership_ok s (key [mi_orgId inp, mi_accountId inp]) m" using org acc by (simp add: membership_ok_def)
    from recordAuditEvent_ok [OF identity_ok_membership [OF ok this] a(2)] show "identity_ok s'" using a(1) run by simp
  qed
qed

text \<open>Provisioning a user under a known tenant succeeds and leaves an active membership in the tenant's org.\<close>

lemma ensureUser_known:
  assumes "identity_ok s" "map_get (users s) (key [t, u]) = Some rec" "map_has (tenants s) t"
  shows "ensureUser e t u em r ca s = (Inr rec, s)"
  using assms by (auto simp: ensureUser_def try_in_def requireTenant_def map_has_def)

lemma ensureUser_new:
  assumes ok: "identity_ok s" and t: "map_has (tenants s) t" and new: "map_get (users s) (key [t, u]) = None"
  obtains rec s' orgId a m where "ensureUser e t u em r ca s = (Inr rec, s')" "identity_ok s'"
    "map_get (users s') (key [t, u]) = Some rec" "map_get (orgsByTenant s') t = Some orgId"
    "map_get (memberships s') (key [orgId, a]) = Some m" "mb_status m = MActive" "mb_role m = coalesce r Member"
proof -
  define rec where "rec = \<lparr> us_tenantId = t, us_userId = u, us_email = em, us_role = coalesce r Member, us_createdAt = nowIso e ca \<rparr>"
  define s1 where "s1 = s\<lparr> users := map_set (key [t, u]) rec (users s) \<rparr>"
  have ok1: "identity_ok s1" using identity_ok_user [OF ok, of rec] t by (simp add: s1_def rec_def)
  obtain og0 s2 where org: "ensureOrgForTenant e t t None None None ca s1 = (og0, s2)" by (cases "ensureOrgForTenant e t t None None None ca s1")
  note ok2 = ensureOrgForTenant_ok [OF ok1 org]
  from ok2(2) obtain og where og: "og0 = Some og" "orgExists s2 (og_orgId og)" by blast
  define ai where "ai = \<lparr> aci_accountId = u, aci_idpSubject = Some u, aci_email = em, aci_displayName = None, aci_createdAt = ca \<rparr>"
  define a s3 where "a = fst (createAccount e ai s2)" and "s3 = snd (createAccount e ai s2)"
  have acc: "createAccount e ai s2 = (a, s3)" by (simp add: a_def s3_def)
  have ok3: "identity_ok s3" "accountExists s3 (ac_accountId a)" using createAccount_ok [OF ok2(1)] by (simp_all add: a_def s3_def)
  have org3: "orgExists s3 (og_orgId og)" using og(2) by (simp add: orgExists_def s3_def createAccount_frame)
  define mi where "mi = \<lparr> mi_orgId = og_orgId og, mi_accountId = ac_accountId a, mi_role = coalesce r Member, mi_customRoleKey = None,
     mi_status = Some MActive, mi_updatedAt = ca,
     mi_actor = Some \<lparr> aa_actorType = ActorSystem, aa_actorId = Some ''identity.ensureUser'', aa_accountId = None \<rparr> \<rparr>"
  have run: "ensureUser e t u em r ca s = then_do (upsertMembership e mi s3) (\<lambda>_ s4. (Inr rec, s4))"
    using t new org og(1) acc
    by (auto simp: ensureUser_def try_in_def requireTenant_def map_has_def Let_def rec_def [symmetric] s1_def [symmetric]
      ai_def [symmetric] mi_def [symmetric])
  have frames: "orgsByTenant s3 = orgsByTenant s2" "users s3 = users s2" by (simp_all add: s3_def createAccount_frame)
  have fr2: "users s2 = users s1" "map_get (orgsByTenant s2) t = Some (og_orgId og)"
    using org og(1) identity_ok_orgRef [OF ok1, of t] by (auto elim!: ensureOrgForTenant_effect)
  show thesis
  proof (rule upsertMembership_success [of s3 mi
      "case map_get (memberships s3) (key [mi_orgId mi, mi_accountId mi]) of Some m \<Rightarrow> mb_customRoleKey m | None \<Rightarrow> None" e])
    fix m ainp ev s4
    assume a: "upsertMembership e mi s3 = (Inr m, s4)"
      "recordAuditEvent e ainp (s3\<lparr> memberships := map_set (key [mi_orgId mi, mi_accountId mi]) m (memberships s3) \<rparr>) = (Inr ev, s4)"
      "mb_role m = mi_role mi" "mb_status m = coalesce (mi_status mi) MActive"
    show thesis
    proof (rule that)
      show "ensureUser e t u em r ca s = (Inr rec, s4)" using run a(1) by (simp add: then_do_def)
      show "identity_ok s4" using upsertMembership_ok [OF ok3(1) a(1)] .
      show "map_get (users s4) (key [t, u]) = Some rec"
        using recordAuditEvent_frame [OF a(2)] frames fr2(1) by (simp add: s1_def)
      show "map_get (orgsByTenant s4) t = Some (og_orgId og)"
        using recordAuditEvent_frame [OF a(2)] frames fr2(2) by simp
      show "map_get (memberships s4) (key [og_orgId og, ac_accountId a]) = Some m"
        using recordAuditEvent_frame [OF a(2)] by (simp add: mi_def)
      show "mb_status m = MActive" using a(4) by (simp add: mi_def coalesce_def)
      show "mb_role m = coalesce r Member" using a(3) by (simp add: mi_def)
    qed
  qed (use org3 ok3(2) in \<open>simp_all add: mi_def normalize_membership_role_key_def\<close>)
qed

section \<open>Audit queries\<close>

definition audit_cursor_of :: "audit_event \<Rightarrow> audit_cursor" where
  "audit_cursor_of ev = \<lparr> cu_createdAt = ae_createdAt ev, cu_eventId = ae_eventId ev \<rparr>"

text \<open>The rows a query would return with no page limit, newest first.\<close>

definition audit_rows :: "env \<Rightarrow> 'a identity_store_scheme \<Rightarrow> audit_query \<Rightarrow> audit_event list" where
  "audit_rows e s q = js_sort (compareAuditEventsDescending e)
     (filter (\<lambda>event. ae_orgId event = aq_orgId q \<and> auditEventMatchesQuery event q
        \<and> (case aq_cursor q of Some c \<Rightarrow> isAuditEventAfterCursor event c | None \<Rightarrow> True)) (map_values (auditEvents s)))"

interpretation audit_keyset: keyset_paging "compareAuditEventsDescending (e\<lparr> locale_compare := cmp_code_units \<rparr>)"
    isAuditEventAfterCursor audit_cursor_of for e
proof -
  have eq: "compareAuditEventsDescending (e\<lparr> locale_compare := cmp_code_units \<rparr>) = (\<lambda>x y.
      if ae_createdAt x \<noteq> ae_createdAt y then cmp_int (ae_createdAt y) (ae_createdAt x)
      else cmp_code_units (ae_eventId y) (ae_eventId x))"
    by (intro ext) (auto simp: compareAuditEventsDescending_def)
  have base: "keyset_paging (compareAuditEventsDescending (e\<lparr> locale_compare := cmp_code_units \<rparr>))
      (\<lambda>x c. if ae_createdAt x \<noteq> fst c then ae_createdAt x < fst c else str_less (ae_eventId x) (snd c))
      (\<lambda>y. (ae_createdAt y, ae_eventId y))"
    unfolding eq by (rule keyset_paging_desc)
  then show "keyset_paging (compareAuditEventsDescending (e\<lparr> locale_compare := cmp_code_units \<rparr>)) isAuditEventAfterCursor audit_cursor_of"
    unfolding keyset_paging_def keyset_paging_axioms_def isAuditEventAfterCursor_def audit_cursor_of_def
      fst_conv snd_conv audit_cursor.select_convs .
qed

lemma audit_limit_range: "1 \<le> js_int (normalizeAuditQueryLimit l) \<and> js_int (normalizeAuditQueryLimit l) \<le> 500"
proof (cases l)
  case (Some x)
  then show ?thesis by (cases x) (auto simp: normalizeAuditQueryLimit_def js_int_def max_def min_def)
qed (simp add: normalizeAuditQueryLimit_def js_int_def)

lemma queryAuditEvents_rows:
  assumes "orgExists s (aq_orgId q)" and n: "n = nat (js_int (normalizeAuditQueryLimit (aq_limit q)))"
  shows "queryAuditEvents e s q = Inr \<lparr> ap_events = take n (audit_rows e s q),
     ap_nextCursor = (if length (audit_rows e s q) \<le> n then None
       else Some (audit_cursor_of (last (take n (audit_rows e s q))))) \<rparr>"
proof -
  define l where "l = js_int (normalizeAuditQueryLimit (aq_limit q))"
  define rows where "rows = audit_rows e s q"
  have l: "1 \<le> l" "n = nat l" using audit_limit_range [of "aq_limit q"] n by (simp_all add: l_def)
  have "queryAuditEvents e s q = Inr (paginateAuditEvents (slice_int rows (l + 1)) l)"
    using assms(1) by (simp add: queryAuditEvents_def try_pure_def requireOrg_def Let_def l_def rows_def audit_rows_def
      conj_ac)
  moreover have "take n (take (nat (l + 1)) rows) = take n rows" using l by (simp add: min_def)
  ultimately show ?thesis unfolding rows_def [symmetric]
    using l by (auto simp: paginateAuditEvents_def slice_int_def Let_def audit_cursor_of_def min_def)
qed

lemma audit_values_distinct:
  assumes "identity_ok s"
  shows "distinct (map_values (auditEvents s))"
    and "\<And>x y. x \<in> set (map_values (auditEvents s)) \<Longrightarrow> y \<in> set (map_values (auditEvents s)) \<Longrightarrow> ae_eventId x = ae_eventId y \<Longrightarrow> x = y"
proof -
  have ok: "map_ok (auditEvents s)" and ev: "\<And>k v. map_get (auditEvents s) k = Some v \<Longrightarrow> ae_eventId v = k"
    using assms by (auto simp: identity_ok_def maps_ok_def audit_event_ok_def)
  have "map ae_eventId (map_values (auditEvents s)) = map fst (auditEvents s)"
    using ev in_set_map_get [OF ok] by (force simp: map_values_def)
  then have "distinct (map ae_eventId (map_values (auditEvents s)))" using ok by (simp add: map_ok_def)
  then show "distinct (map_values (auditEvents s))" by (simp add: distinct_map)
  show "x = y" if "x \<in> set (map_values (auditEvents s))" "y \<in> set (map_values (auditEvents s))" "ae_eventId x = ae_eventId y" for x y
    using that ev values_map_get [OF ok] by (metis option.inject)
qed

lemma auditEventMatchesQuery_cursor [simp]: "auditEventMatchesQuery ev (q\<lparr> aq_cursor := c \<rparr>) = auditEventMatchesQuery ev q"
  by (simp add: auditEventMatchesQuery_def)

text \<open>Following the cursor of a page continues exactly where that page stopped.\<close>

lemma audit_rows_resume:
  assumes ok: "identity_ok s" and e: "locale_compare e = cmp_code_units"
    and n: "0 < n" "n \<le> length (audit_rows e s q)"
  shows "audit_rows e s (q\<lparr> aq_cursor := Some (audit_cursor_of (last (take n (audit_rows e s q)))) \<rparr>) = drop n (audit_rows e s q)"
proof -
  define xs where "xs = filter (\<lambda>event. ae_orgId event = aq_orgId q \<and> auditEventMatchesQuery event q
        \<and> (case aq_cursor q of Some c \<Rightarrow> isAuditEventAfterCursor event c | None \<Rightarrow> True)) (map_values (auditEvents s))"
  let ?cmp = "compareAuditEventsDescending e"
  have e': "e\<lparr> locale_compare := cmp_code_units \<rparr> = e" using e by simp
  note ks = audit_keyset.page_resume [of _ e, unfolded e']
  have rows: "audit_rows e s q = js_sort ?cmp xs" by (simp add: audit_rows_def xs_def)
  define z where "z = last (take n (audit_rows e s q))"
  have ne: "take n (audit_rows e s q) \<noteq> []" using n by auto
  have "z \<in> set (take n (audit_rows e s q))" using ne by (simp add: z_def)
  then have z: "z \<in> set xs" using rows by (metis in_set_takeD set_js_sort)
  have res: "js_sort ?cmp (filter (\<lambda>x. isAuditEventAfterCursor x (audit_cursor_of z)) xs) = drop n (js_sort ?cmp xs)"
    unfolding z_def rows
  proof (rule ks)
    show "x = y" if "x \<in> set xs" "y \<in> set xs" "?cmp x y = 0" for x y
      using that audit_values_distinct(2) [OF ok, of x y] e
      by (auto simp: compareAuditEventsDescending_def cmp_int_def cmp_code_units_def xs_def split: if_splits)
    show "distinct xs" using audit_values_distinct(1) [OF ok] by (simp add: xs_def)
    show "n \<le> length xs" using n(2) rows by simp
  qed (rule n(1))
  have trans: "isAuditEventAfterCursor x c" if "isAuditEventAfterCursor x (audit_cursor_of z)" "isAuditEventAfterCursor z c" for x c
    using that str_less_trans by (auto simp: isAuditEventAfterCursor_def audit_cursor_of_def split: if_splits)
  have keep: "isAuditEventAfterCursor x (audit_cursor_of z) \<Longrightarrow>
      (case aq_cursor q of Some c \<Rightarrow> isAuditEventAfterCursor x c | None \<Rightarrow> True)" for x
    using z trans by (cases "aq_cursor q") (auto simp: xs_def)
  have "filter (\<lambda>x. isAuditEventAfterCursor x (audit_cursor_of z)) xs
      = filter (\<lambda>event. ae_orgId event = aq_orgId q \<and> auditEventMatchesQuery event q
        \<and> isAuditEventAfterCursor event (audit_cursor_of z)) (map_values (auditEvents s))"
    unfolding xs_def filter_filter using keep by (intro filter_cong refl) blast
  then have "audit_rows e s (q\<lparr> aq_cursor := Some (audit_cursor_of z) \<rparr>) = drop n (audit_rows e s q)"
    using res rows by (simp add: audit_rows_def)
  then show ?thesis by (simp only: z_def)
qed

end
