(* ===== verification/Quota_Windows.thy ===== *)
theory Quota_Windows
  imports Identity_Directory
begin

text \<open>
  Fixed-window counters: the rate limiter (\<open>in-memory-domains/rate-limits.ts\<close>), the sign-in backoff
  (\<open>auth-backoff.ts\<close>), the metered usage quotas (\<open>usage-quota.ts\<close>) and the admission checks built on
  them (\<open>quotas.ts\<close>). The quantities of interest are how many claims one window admits and when a
  blocked source is admitted again.
\<close>


section \<open>Records\<close>

record rate_counter =
  rl_windowStartedAtMs :: int
  rl_count :: int

record rate_claim_input =
  rli_scope :: string
  rli_source :: string
  rli_limit :: jsnum
  rli_windowMs :: jsnum
  rli_now :: "iso option"
  rli_policyCode :: "string option"

record rate_claim =
  rc_allowed :: bool
  rc_scope :: string
  rc_source :: string
  rc_limit :: int
  rc_count :: int
  rc_resetAt :: iso
  rc_retryAfterMs :: int
  rc_policyCode :: "string option"

record backoff_record =
  bo_allowed :: bool
  bo_scope :: string
  bo_source :: string
  bo_failureCount :: int
  bo_blockedUntilMs :: int
  bo_retryAfterMs :: int

record backoff_store =
  authFailures :: "backoff_record jsmap"
  authFailureWindows :: "int jsmap"

record auth_failure_input =
  afi_scope :: string
  afi_source :: string
  afi_windowMs :: jsnum
  afi_limit :: jsnum
  afi_backoffMs :: jsnum
  afi_now :: "iso option"

record usage_counter =
  uc_windowStartedAtMs :: int
  uc_quantity :: int

record quota_store = identity_store +
  usageCounters :: "usage_counter jsmap"

record usage_quota_input =
  uq_orgId :: string
  uq_quotaKey :: string
  uq_limit :: jsnum
  uq_quantity :: "jsnum option"
  uq_windowMs :: jsnum
  uq_now :: "iso option"
  uq_policyCode :: "string option"

record quota_consumption =
  qc_allowed :: bool
  qc_orgId :: string
  qc_quotaKey :: string
  qc_limit :: int
  qc_used :: int
  qc_remaining :: int
  qc_resetAt :: iso
  qc_retryAfterMs :: int
  qc_policyCode :: "string option"

record usage_counter_record =
  ucr_orgId :: string
  ucr_quotaKey :: string
  ucr_windowStartedAtMs :: int
  ucr_quantity :: int

record command_queue_quota =
  cq_orgId :: "string option"
  cq_maxQueuedCommandsPerOrg :: "int option"
  cq_maxQueueAgeMs :: "int option"
  cq_policyCode :: "string option"
  cq_queueAgePolicyCode :: "string option"

record workflow_run_quota =
  wq_orgId :: "string option"
  wq_maxConcurrentWorkflowRunsPerOrg :: "int option"
  wq_maxWorkflowRunsPerHour :: "int option"
  wq_policyCode :: "string option"
  wq_workflowRunsPolicyCode :: "string option"


section \<open>Windows\<close>

definition windowStart :: "int \<Rightarrow> int \<Rightarrow> int" where
  "windowStart nowMs windowMs = (nowMs div windowMs) * windowMs"

definition quotaRetryAfterMs :: "int \<Rightarrow> int \<Rightarrow> int \<Rightarrow> int" where
  "quotaRetryAfterMs nowMs startedAtMs windowMs = max 1 (startedAtMs + windowMs - nowMs)"


section \<open>Rate limits\<close>

definition claimRateLimit ::
  "env \<Rightarrow> rate_claim_input \<Rightarrow> rate_counter jsmap \<Rightarrow> (rate_counter jsmap, rate_claim) outcome" where
  "claimRateLimit e inp m =
     try_in m (normalizePositiveInteger (Some (rli_limit inp)) ''Rate limit'') (\<lambda>limit.
     try_in m (normalizePositiveInteger (Some (rli_windowMs inp)) ''Rate-limit window'') (\<lambda>windowMs.
       let nowMs = nowIso e (rli_now inp);
           startedAtMs = windowStart nowMs windowMs;
           rateKey = key [rli_scope inp, rli_source inp];
           count = (case map_get m rateKey of
               Some c \<Rightarrow> (if rl_windowStartedAtMs c = startedAtMs then rl_count c + 1 else 1)
             | None \<Rightarrow> 1);
           retryAfterMs = quotaRetryAfterMs nowMs startedAtMs windowMs
       in (Inr \<lparr> rc_allowed = (count \<le> limit), rc_scope = rli_scope inp, rc_source = rli_source inp,
             rc_limit = limit, rc_count = count, rc_resetAt = nowMs + retryAfterMs,
             rc_retryAfterMs = retryAfterMs, rc_policyCode = rli_policyCode inp \<rparr>,
           map_set rateKey \<lparr> rl_windowStartedAtMs = startedAtMs, rl_count = count \<rparr> m)))"

text \<open>The retention loops visit the entries in insertion order and delete the one they are at.\<close>

fun prune_where :: "('v \<Rightarrow> bool) \<Rightarrow> 'v jsmap \<Rightarrow> int \<Rightarrow> int \<Rightarrow> string list" where
  "prune_where stale [] removed limit = []"
| "prune_where stale (p # rest) removed limit =
     (if removed \<ge> limit then []
      else if stale (snd p) then fst p # prune_where stale rest (removed + 1) limit
      else prune_where stale rest removed limit)"

definition delete_all :: "string list \<Rightarrow> 'v jsmap \<Rightarrow> 'v jsmap" where
  "delete_all ks m = foldl (\<lambda>acc k. map_delete k acc) m ks"

definition pruneRateLimits :: "int \<Rightarrow> int \<Rightarrow> rate_counter jsmap \<Rightarrow> int \<times> rate_counter jsmap" where
  "pruneRateLimits olderThanMs limit m =
     (let ks = prune_where (\<lambda>c. rl_windowStartedAtMs c < olderThanMs) m 0 limit
      in (int (length ks), delete_all ks m))"


section \<open>Sign-in backoff\<close>

definition checkCloudAuthBackoff ::
  "env \<Rightarrow> string \<Rightarrow> string option \<Rightarrow> iso option \<Rightarrow> backoff_store \<Rightarrow> backoff_record" where
  "checkCloudAuthBackoff e scope source now s =
     (let nowMs = nowIso e now; existing = map_get (authFailures s) scope in
      \<lparr> bo_allowed = (case existing of None \<Rightarrow> True | Some r \<Rightarrow> bo_blockedUntilMs r \<le> nowMs),
        bo_scope = scope,
        bo_source = or_else source (or_else (map_option bo_source existing) scope),
        bo_failureCount = (case existing of None \<Rightarrow> 0 | Some r \<Rightarrow> bo_failureCount r),
        bo_blockedUntilMs = (case existing of None \<Rightarrow> 0 | Some r \<Rightarrow> bo_blockedUntilMs r),
        bo_retryAfterMs = (case existing of None \<Rightarrow> 0 | Some r \<Rightarrow> max 0 (bo_blockedUntilMs r - nowMs)) \<rparr>)"

definition recordCloudAuthFailure ::
  "env \<Rightarrow> auth_failure_input \<Rightarrow> backoff_store \<Rightarrow> (backoff_store, backoff_record) outcome" where
  "recordCloudAuthFailure e inp s =
     try_in s (normalizePositiveInteger (Some (afi_windowMs inp)) ''Auth backoff window'') (\<lambda>windowMs.
     try_in s (normalizePositiveInteger (Some (afi_limit inp)) ''Auth failure limit'') (\<lambda>limit.
     try_in s (normalizePositiveInteger (Some (afi_backoffMs inp)) ''Auth backoff duration'') (\<lambda>backoffMs.
       let nowMs = nowIso e (afi_now inp);
           existing = map_get (authFailures s) (afi_scope inp);
           currentWindowStartedAtMs = windowStart nowMs windowMs;
           existingWindowStartedAtMs = map_get (authFailureWindows s) (afi_scope inp);
           failureCount = (case existing of
               Some r \<Rightarrow> (if existingWindowStartedAtMs = Some currentWindowStartedAtMs then bo_failureCount r + 1 else 1)
             | None \<Rightarrow> 1);
           earlier = (case existing of Some r \<Rightarrow> bo_blockedUntilMs r | None \<Rightarrow> 0);
           blockedUntilMs = (if failureCount \<ge> limit then max earlier (nowMs + backoffMs) else earlier);
           record = \<lparr> bo_allowed = (blockedUntilMs \<le> nowMs), bo_scope = afi_scope inp, bo_source = afi_source inp,
             bo_failureCount = failureCount, bo_blockedUntilMs = blockedUntilMs,
             bo_retryAfterMs = max 0 (blockedUntilMs - nowMs) \<rparr>
       in (Inr record, s\<lparr> authFailures := map_set (afi_scope inp) record (authFailures s),
             authFailureWindows := map_set (afi_scope inp) currentWindowStartedAtMs (authFailureWindows s) \<rparr>))))"

definition pruneAuthBackoff :: "int \<Rightarrow> int \<Rightarrow> backoff_store \<Rightarrow> int \<times> backoff_store" where
  "pruneAuthBackoff olderThanMs limit s =
     (let ks = prune_where (\<lambda>r. bo_blockedUntilMs r < olderThanMs) (authFailures s) 0 limit
      in (int (length ks), s\<lparr> authFailures := delete_all ks (authFailures s),
            authFailureWindows := delete_all ks (authFailureWindows s) \<rparr>))"


section \<open>Usage quotas\<close>

definition consumeUsageQuota ::
  "env \<Rightarrow> usage_quota_input \<Rightarrow> 'a quota_store_scheme \<Rightarrow> ('a quota_store_scheme, quota_consumption) outcome" where
  "consumeUsageQuota e inp s =
     try_in s (requireOrg s (uq_orgId inp)) (\<lambda>_.
     try_in s (normalizePositiveInteger (Some (uq_limit inp)) ''Quota limit'') (\<lambda>limit.
     try_in s (normalizePositiveInteger (Some (or_num (uq_quantity inp) 1)) ''Quota quantity'') (\<lambda>quantity.
     try_in s (normalizePositiveInteger (Some (uq_windowMs inp)) ''Quota window'') (\<lambda>windowMs.
       let nowMs = nowIso e (uq_now inp);
           startedAtMs = windowStart nowMs windowMs;
           counterKey = key [uq_orgId inp, uq_quotaKey inp];
           current = (case map_get (usageCounters s) counterKey of
               Some c \<Rightarrow> (if uc_windowStartedAtMs c = startedAtMs then uc_quantity c else 0)
             | None \<Rightarrow> 0);
           next = current + quantity;
           retryAfterMs = quotaRetryAfterMs nowMs startedAtMs windowMs;
           result = \<lparr> qc_allowed = (next \<le> limit), qc_orgId = uq_orgId inp, qc_quotaKey = uq_quotaKey inp,
             qc_limit = limit, qc_used = (if next > limit then current else next),
             qc_remaining = max 0 (limit - (if next > limit then current else next)),
             qc_resetAt = nowMs + retryAfterMs, qc_retryAfterMs = retryAfterMs, qc_policyCode = uq_policyCode inp \<rparr>
       in if next > limit then (Inr result, s)
          else (Inr result, s\<lparr> usageCounters :=
            map_set counterKey \<lparr> uc_windowStartedAtMs = startedAtMs, uc_quantity = next \<rparr> (usageCounters s) \<rparr>)))))"

definition adjustUsageQuota ::
  "string \<Rightarrow> string \<Rightarrow> int \<Rightarrow> jsnum \<Rightarrow> 'a quota_store_scheme \<Rightarrow> ('a quota_store_scheme, unit) outcome" where
  "adjustUsageQuota orgId quotaKey windowStartedAtMs quantityDelta s =
     try_in s (requireOrg s orgId) (\<lambda>_.
       case quantityDelta of
         JInt d \<Rightarrow>
           if d = 0 then (Inr (), s)
           else (case map_get (usageCounters s) (key [orgId, quotaKey]) of
               None \<Rightarrow> (Inr (), s)
             | Some c \<Rightarrow>
                 if uc_windowStartedAtMs c \<noteq> windowStartedAtMs then (Inr (), s)
                 else (Inr (), s\<lparr> usageCounters := map_set (key [orgId, quotaKey])
                   \<lparr> uc_windowStartedAtMs = uc_windowStartedAtMs c, uc_quantity = max 0 (uc_quantity c + d) \<rparr>
                   (usageCounters s) \<rparr>))
       | _ \<Rightarrow> (Inr (), s))"

text \<open>\<open>counterKey.split('\0', 2)\<close>, with \<open>''\<close> for a missing second part.\<close>

definition before_nul :: "string \<Rightarrow> string" where
  "before_nul s = takeWhile (\<lambda>c. c \<noteq> CHR 0x00) s"

definition after_nul :: "string \<Rightarrow> string" where
  "after_nul s = tl (dropWhile (\<lambda>c. c \<noteq> CHR 0x00) s)"

definition listUsageQuotaCounters ::
  "env \<Rightarrow> 'a quota_store_scheme \<Rightarrow> string \<Rightarrow> error + usage_counter_record list" where
  "listUsageQuotaCounters e s orgId =
     try_pure (requireOrg s orgId) (\<lambda>_.
       Inr (js_sort (cmp_by ucr_quotaKey (locale_compare e))
         (filter (\<lambda>c. ucr_orgId c = orgId)
           (map (\<lambda>(counterKey, c).
              \<lparr> ucr_orgId = before_nul counterKey, ucr_quotaKey = before_nul (after_nul counterKey),
                ucr_windowStartedAtMs = uc_windowStartedAtMs c, ucr_quantity = uc_quantity c \<rparr>)
             (usageCounters s)))))"

definition snapshotCounters :: "'a quota_store_scheme \<Rightarrow> usage_counter jsmap" where
  "snapshotCounters s = usageCounters s"

definition restoreCounters :: "usage_counter jsmap \<Rightarrow> 'a quota_store_scheme \<Rightarrow> 'a quota_store_scheme" where
  "restoreCounters snapshot s = s\<lparr> usageCounters := snapshot \<rparr>"


section \<open>Admission checks\<close>

definition tenantBelongsToOrg :: "'a identity_store_scheme \<Rightarrow> string \<Rightarrow> string \<Rightarrow> bool" where
  "tenantBelongsToOrg s tenantId orgId = (orgIdForTenant s tenantId = orgId)"

text \<open>
  The sessions the queue check iterates over, as (tenant, list of (is queued, created at)): the
  status test \<open>pending\<close> or \<open>running\<close> is part of the snapshot.
\<close>

type_synonym queue_snapshot = "(string \<times> (bool \<times> iso) list) list"

definition commandQueueStats ::
  "'a identity_store_scheme \<Rightarrow> queue_snapshot \<Rightarrow> string \<Rightarrow> int \<times> iso option" where
  "commandQueueStats s sessionList orgId =
     (let queued = concat (map (\<lambda>(tenantId, commands).
            if tenantBelongsToOrg s tenantId orgId then map snd (filter fst commands) else []) sessionList)
      in (int (length queued),
          fold (\<lambda>t oldest. case oldest of None \<Rightarrow> Some t | Some m \<Rightarrow> (if t < m then Some t else Some m)) queued None))"

definition positive_limit :: "int option \<Rightarrow> int option" where
  "positive_limit v = (case v of Some n \<Rightarrow> (if n > 0 then Some n else None) | None \<Rightarrow> None)"

definition assertCommandQueueQuota ::
  "env \<Rightarrow> 'a identity_store_scheme \<Rightarrow> queue_snapshot \<Rightarrow> string \<Rightarrow> command_queue_quota option \<Rightarrow> iso option \<Rightarrow> error + unit" where
  "assertCommandQueueQuota e s sessionList tenantId quotaIn nowIn =
     (case quotaIn of
        None \<Rightarrow> Inr ()
      | Some quota \<Rightarrow>
          let orgId = or_else (cq_orgId quota) (orgIdForTenant s tenantId);
              now = nowIso e nowIn;
              (queuedCommands, oldestCreatedAt) = commandQueueStats s sessionList orgId
          in try_pure
               (case positive_limit (cq_maxQueuedCommandsPerOrg quota) of
                  None \<Rightarrow> Inr ()
                | Some maxQueued \<Rightarrow>
                    if queuedCommands \<ge> maxQueued
                    then Inl (quotaExceeded ''Cloud command queue is full.''
                      (or_else (cq_policyCode quota) ''quota.queued_commands_exceeded'') 60000 maxQueued queuedCommands (now + 60000))
                    else Inr ())
               (\<lambda>_. case (positive_limit (cq_maxQueueAgeMs quota), oldestCreatedAt) of
                  (Some maxAge, Some oldest) \<Rightarrow>
                    (let oldestAgeMs = max 0 (now - oldest); retry = max 1000 (min 60000 maxAge) in
                     if oldestAgeMs \<ge> maxAge
                     then Inl (quotaExceeded ''Cloud command queue is too old to accept more work.''
                       (or_else (cq_queueAgePolicyCode quota) ''quota.queue_age_exceeded'') retry maxAge oldestAgeMs (now + retry))
                     else Inr ())
                | _ \<Rightarrow> Inr ()))"

text \<open>The runs are (tenant, is queued or running).\<close>

definition assertWorkflowRunQuota ::
  "env \<Rightarrow> (string \<times> bool) list \<Rightarrow> string \<Rightarrow> workflow_run_quota option \<Rightarrow> iso option \<Rightarrow> 'a quota_store_scheme
    \<Rightarrow> ('a quota_store_scheme, unit) outcome" where
  "assertWorkflowRunQuota e runs tenantId quota nowIn s =
     (let orgId = or_else (Option.bind quota wq_orgId) (orgIdForTenant s tenantId);
          now = nowIso e nowIn
      in try_in s
           (case positive_limit (Option.bind quota wq_maxConcurrentWorkflowRunsPerOrg) of
              None \<Rightarrow> Inr ()
            | Some maxRuns \<Rightarrow>
                (let activeRuns = int (length (filter (\<lambda>(t, active). tenantBelongsToOrg s t orgId \<and> active) runs)) in
                 if activeRuns \<ge> maxRuns
                 then Inl (quotaExceeded ''Concurrent cloud workflow run quota exceeded.''
                   (or_else (Option.bind quota wq_policyCode) ''quota.concurrent_workflow_runs_exceeded'')
                   60000 maxRuns activeRuns (now + 60000))
                 else Inr ()))
           (\<lambda>_. case positive_limit (Option.bind quota wq_maxWorkflowRunsPerHour) of
              None \<Rightarrow> (Inr (), s)
            | Some perHour \<Rightarrow>
                then_do (consumeUsageQuota e \<lparr> uq_orgId = orgId, uq_quotaKey = ''workflow_runs:hour'', uq_limit = JInt perHour,
                    uq_quantity = Some (JInt 1), uq_windowMs = JInt 3600000, uq_now = Some now,
                    uq_policyCode = Some (or_else (Option.bind quota wq_workflowRunsPolicyCode) ''quota.workflow_runs_per_hour_exceeded'') \<rparr> s)
                  (\<lambda>result s1.
                    if \<not> qc_allowed result
                    then (Inl (quotaExceeded ''Cloud workflow run quota exceeded.''
                      (or_else (qc_policyCode result) ''quota.workflow_runs_per_hour_exceeded'')
                      (qc_retryAfterMs result) (qc_limit result) (qc_used result) (qc_resetAt result)), s1)
                    else (Inr (), s1))))"

section \<open>Window arithmetic\<close>

lemma windowStart_bounds: "0 < w \<Longrightarrow> windowStart n w \<le> n \<and> n < windowStart n w + w"
  unfolding windowStart_def using pos_mod_sign [of w n] pos_mod_bound [of w n] div_mult_mod_eq [of n w] by linarith

lemma quotaRetryAfterMs_eq: "0 < w \<Longrightarrow> quotaRetryAfterMs n (windowStart n w) w = windowStart n w + w - n"
  using windowStart_bounds [of w n] by (simp add: quotaRetryAfterMs_def)

lemma windowStart_reset: "0 < w \<Longrightarrow> windowStart (n + quotaRetryAfterMs n (windowStart n w) w) w = windowStart n w + w"
proof -
  assume w: "0 < w"
  then have "n + quotaRetryAfterMs n (windowStart n w) w = (n div w + 1) * w"
    unfolding quotaRetryAfterMs_eq [OF w] by (simp add: windowStart_def algebra_simps)
  then have "windowStart (n + quotaRetryAfterMs n (windowStart n w) w) w = (n div w + 1) * w"
    using w by (simp add: windowStart_def)
  then show ?thesis by (simp add: windowStart_def algebra_simps)
qed


section \<open>Rate limits admit at most the limit per window\<close>

definition rate_count :: "rate_counter jsmap \<Rightarrow> string \<Rightarrow> int \<Rightarrow> int" where
  "rate_count m k w = (case map_get m k of Some c \<Rightarrow> (if rl_windowStartedAtMs c = w then rl_count c else 0) | None \<Rightarrow> 0)"

lemma claimRateLimit_eq:
  assumes "rli_limit inp = JInt l" "0 < l" "rli_windowMs inp = JInt w" "0 < w"
    and "k = key [rli_scope inp, rli_source inp]" "st = windowStart (nowIso e (rli_now inp)) w" "n = rate_count m k st + 1"
  shows "\<exists>r. claimRateLimit e inp m = (Inr r, map_set k \<lparr> rl_windowStartedAtMs = st, rl_count = n \<rparr> m)
     \<and> rc_allowed r = (n \<le> l) \<and> rc_count r = n \<and> rc_resetAt r = st + w"
  using assms
  by (auto simp: claimRateLimit_def try_in_def normalizePositiveInteger_def coalesce_def rate_count_def Let_def
      quotaRetryAfterMs_eq split: option.splits)

text \<open>Successive claims of one source, at the given times.\<close>

fun run_claims :: "env \<Rightarrow> rate_claim_input \<Rightarrow> iso list \<Rightarrow> rate_counter jsmap \<Rightarrow> bool list" where
  "run_claims e inp [] m = []"
| "run_claims e inp (t # ts) m =
     (case claimRateLimit e (inp\<lparr> rli_now := Some t \<rparr>) m of
        (Inr r, m') \<Rightarrow> rc_allowed r # run_claims e inp ts m'
      | (Inl _, m') \<Rightarrow> False # run_claims e inp ts m')"

lemma run_claims_flags:
  assumes "rli_limit inp = JInt l" "0 < l" "rli_windowMs inp = JInt w" "0 < w"
    and "\<forall>t \<in> set ts. windowStart t w = st" and "k = key [rli_scope inp, rli_source inp]"
  shows "run_claims e inp ts m = map (\<lambda>i. rate_count m k st + int i + 1 \<le> l) [0..<length ts]"
  using assms(5)
proof (induction ts arbitrary: m)
  case (Cons t ts)
  obtain r where r: "claimRateLimit e (inp\<lparr> rli_now := Some t \<rparr>) m
      = (Inr r, map_set k \<lparr> rl_windowStartedAtMs = st, rl_count = rate_count m k st + 1 \<rparr> m)"
      "rc_allowed r = (rate_count m k st + 1 \<le> l)"
    using claimRateLimit_eq [of "inp\<lparr> rli_now := Some t \<rparr>" l w k st e "rate_count m k st + 1" m] assms Cons.prems
    by (auto simp: nowIso_def)
  define m' where "m' = map_set k \<lparr> rl_windowStartedAtMs = st, rl_count = rate_count m k st + 1 \<rparr> m"
  have "rate_count m' k st = rate_count m k st + 1" by (simp add: rate_count_def m'_def)
  then have ih: "run_claims e inp ts m' = map (\<lambda>i. rate_count m k st + 1 + int i + 1 \<le> l) [0..<length ts]"
    using Cons by simp
  have "[0..<length (t # ts)] = 0 # map Suc [0..<length ts]"
    by (simp add: map_Suc_upt upt_conv_Cons del: upt_Suc)
  moreover have "run_claims e inp (t # ts) m = (rate_count m k st + 1 \<le> l) # run_claims e inp ts m'"
    unfolding m'_def by (simp add: r)
  ultimately show ?case using ih by (simp add: comp_def algebra_simps)
qed simp

lemma length_filter_prefix: "length (filter id (map (\<lambda>i. c + int i + 1 \<le> l) [0..<n])) = min n (nat (l - c))"
proof (induction n)
  case (Suc n)
  then show ?case by (auto simp: min_def)
qed simp


section \<open>Usage quotas never grant more than the limit\<close>

definition usage_count :: "'a quota_store_scheme \<Rightarrow> string \<Rightarrow> int \<Rightarrow> int" where
  "usage_count s k w =
     (case map_get (usageCounters s) k of Some c \<Rightarrow> (if uc_windowStartedAtMs c = w then uc_quantity c else 0) | None \<Rightarrow> 0)"

definition uq_key :: "usage_quota_input \<Rightarrow> string" where
  "uq_key inp = key [uq_orgId inp, uq_quotaKey inp]"

definition usage_valid :: "'a quota_store_scheme \<Rightarrow> usage_quota_input \<Rightarrow> bool" where
  "usage_valid s inp =
     (orgExists s (uq_orgId inp) \<and> (\<exists>l. uq_limit inp = JInt l \<and> 0 < l)
      \<and> (\<exists>q. or_num (uq_quantity inp) 1 = JInt q \<and> 0 < q) \<and> (\<exists>w. uq_windowMs inp = JInt w \<and> 0 < w))"

lemma consumeUsageQuota_invalid:
  "\<not> usage_valid s inp \<Longrightarrow> \<exists>er. consumeUsageQuota e inp s = (Inl er, s)"
  unfolding usage_valid_def consumeUsageQuota_def try_in_def requireOrg_def
  by (auto split: sum.splits)

lemma consumeUsageQuota_valid:
  assumes "orgExists s (uq_orgId inp)" "uq_limit inp = JInt l" "0 < l" "or_num (uq_quantity inp) 1 = JInt q" "0 < q"
    "uq_windowMs inp = JInt w" "0 < w"
    and st: "st = windowStart (nowIso e (uq_now inp)) w" and c: "c = usage_count s (uq_key inp) st"
  shows "\<exists>r. qc_allowed r = (c + q \<le> l) \<and> qc_limit r = l \<and> qc_used r = (if c + q \<le> l then c + q else c) \<and> qc_resetAt r = st + w
     \<and> qc_policyCode r = uq_policyCode inp
     \<and> consumeUsageQuota e inp s = (Inr r, if c + q \<le> l
         then s\<lparr> usageCounters := map_set (uq_key inp) \<lparr> uc_windowStartedAtMs = st, uc_quantity = c + q \<rparr> (usageCounters s) \<rparr> else s)"
  using assms
  by (simp add: consumeUsageQuota_def try_in_def requireOrg_def normalizePositiveInteger_def coalesce_def Let_def
      quotaRetryAfterMs_eq usage_count_def uq_key_def split: option.splits)

text \<open>Every outcome of a consumption, for the frame and invariant proofs of the callers.\<close>

lemma consumeUsageQuota_cases:
  assumes "consumeUsageQuota e inp s = (r, s')"
  obtains (error) er where "r = Inl er" "s' = s"
  | (granted) q l w c rr where "r = Inr rr" "qc_allowed rr" "0 < q" "0 < w" "uq_limit inp = JInt l" "or_num (uq_quantity inp) 1 = JInt q"
      "uq_windowMs inp = JInt w" "c = usage_count s (uq_key inp) (windowStart (nowIso e (uq_now inp)) w)" "c + q \<le> l"
      "s' = s\<lparr> usageCounters := map_set (uq_key inp)
         \<lparr> uc_windowStartedAtMs = windowStart (nowIso e (uq_now inp)) w, uc_quantity = c + q \<rparr> (usageCounters s) \<rparr>"
  | (denied) rr where "r = Inr rr" "\<not> qc_allowed rr" "s' = s"
proof (cases "usage_valid s inp")
  case False
  then show thesis using consumeUsageQuota_invalid [of s inp e] assms error by auto
next
  case True
  then obtain l q w where v: "orgExists s (uq_orgId inp)" "uq_limit inp = JInt l" "0 < l"
    "or_num (uq_quantity inp) 1 = JInt q" "0 < q" "uq_windowMs inp = JInt w" "0 < w" by (auto simp: usage_valid_def)
  define st c where "st = windowStart (nowIso e (uq_now inp)) w" and "c = usage_count s (uq_key inp) st"
  from consumeUsageQuota_valid [OF v st_def c_def] obtain rr where rr: "qc_allowed rr = (c + q \<le> l)"
    "consumeUsageQuota e inp s = (Inr rr, if c + q \<le> l
         then s\<lparr> usageCounters := map_set (uq_key inp) \<lparr> uc_windowStartedAtMs = st, uc_quantity = c + q \<rparr> (usageCounters s) \<rparr> else s)"
    by blast
  show thesis
  proof (cases "c + q \<le> l")
    case True
    then show thesis using rr assms v by (intro granted [of rr q w l c]) (simp_all add: st_def c_def)
  next
    case False
    then show thesis using rr assms by (intro denied [of rr]) simp_all
  qed
qed

definition uq_amount :: "usage_quota_input \<Rightarrow> int" where
  "uq_amount inp = js_int (or_num (uq_quantity inp) 1)"

text \<open>A sequence of consumptions: what each input was granted, and the final state.\<close>

fun run_consume ::
  "env \<Rightarrow> usage_quota_input list \<Rightarrow> 'a quota_store_scheme \<Rightarrow> (usage_quota_input \<times> int) list \<times> 'a quota_store_scheme" where
  "run_consume e [] s = ([], s)"
| "run_consume e (inp # inps) s =
     (case consumeUsageQuota e inp s of (r, s1) \<Rightarrow>
        (case run_consume e inps s1 of (gs, s2) \<Rightarrow>
          ((inp, case r of Inr c \<Rightarrow> (if qc_allowed c then uq_amount inp else 0) | Inl _ \<Rightarrow> 0) # gs, s2)))"

definition granted_for :: "string \<Rightarrow> (usage_quota_input \<times> int) list \<Rightarrow> int" where
  "granted_for k gs = sum_list (map snd (filter (\<lambda>g. uq_key (fst g) = k) gs))"

lemma consumeUsageQuota_step:
  assumes run: "consumeUsageQuota e inp s = (r, s1)"
    and w: "uq_key inp = k \<Longrightarrow> uq_windowMs inp = JInt w \<and> uq_limit inp = JInt l \<and> windowStart (nowIso e (uq_now inp)) w = st"
    and le: "usage_count s k st \<le> l"
  shows "usage_count s1 k st = usage_count s k st + (if uq_key inp = k then (case r of Inr c \<Rightarrow> (if qc_allowed c then uq_amount inp else 0) | Inl _ \<Rightarrow> 0) else 0)"
    and "usage_count s1 k st \<le> l"
  using run w le
  by (cases rule: consumeUsageQuota_cases; force simp: usage_count_def uq_amount_def js_int_def)+

text \<open>Whatever else the sequence consumes, one counter grants at most its limit in one window.\<close>

lemma run_consume_bound:
  assumes "run_consume e inps s = (gs, s')"
    and "\<forall>i \<in> set inps. uq_key i = k \<longrightarrow> uq_windowMs i = JInt w \<and> uq_limit i = JInt l \<and> windowStart (nowIso e (uq_now i)) w = st"
    and "usage_count s k st \<le> l"
  shows "usage_count s' k st = usage_count s k st + granted_for k gs \<and> usage_count s' k st \<le> l"
  using assms
proof (induction inps arbitrary: s gs)
  case (Cons inp inps)
  obtain r s1 where run: "consumeUsageQuota e inp s = (r, s1)" by fastforce
  obtain gs2 s2 where rest: "run_consume e inps s1 = (gs2, s2)" by fastforce
  have st: "uq_key inp = k \<Longrightarrow> uq_windowMs inp = JInt w \<and> uq_limit inp = JInt l \<and> windowStart (nowIso e (uq_now inp)) w = st"
    using Cons.prems(2) by simp
  note step = consumeUsageQuota_step [OF run st Cons.prems(3)]
  have "s2 = s'" and gs: "gs = (inp, case r of Inr c \<Rightarrow> (if qc_allowed c then uq_amount inp else 0) | Inl _ \<Rightarrow> 0) # gs2"
    using Cons.prems(1) run rest by simp_all
  then have "usage_count s' k st = usage_count s1 k st + granted_for k gs2 \<and> usage_count s' k st \<le> l"
    using Cons.IH [of s1 gs2] rest Cons.prems(2) step(2) by simp
  then show ?case using step(1) gs by (simp add: granted_for_def)
qed (simp add: granted_for_def)

section \<open>Sign-in backoff\<close>

definition blocked_until :: "backoff_store \<Rightarrow> string \<Rightarrow> int" where
  "blocked_until s scope = (case map_get (authFailures s) scope of Some r \<Rightarrow> bo_blockedUntilMs r | None \<Rightarrow> 0)"

definition failure_count :: "backoff_store \<Rightarrow> string \<Rightarrow> int \<Rightarrow> int" where
  "failure_count s scope w =
     (case map_get (authFailures s) scope of
        Some r \<Rightarrow> (if map_get (authFailureWindows s) scope = Some w then bo_failureCount r else 0) | None \<Rightarrow> 0)"

lemma recordCloudAuthFailure_eq:
  assumes "afi_windowMs inp = JInt w" "0 < w" "afi_limit inp = JInt l" "0 < l" "afi_backoffMs inp = JInt b" "0 < b"
    and "st = windowStart (nowIso e (afi_now inp)) w" and "n = failure_count s (afi_scope inp) st + 1"
  shows "\<exists>r s'. recordCloudAuthFailure e inp s = (Inr r, s') \<and> bo_failureCount r = n
     \<and> failure_count s' (afi_scope inp) st = n
     \<and> blocked_until s' (afi_scope inp) = (if n \<ge> l then max (blocked_until s (afi_scope inp)) (nowIso e (afi_now inp) + b)
          else blocked_until s (afi_scope inp))
     \<and> (\<forall>sc. sc \<noteq> afi_scope inp \<longrightarrow> map_get (authFailures s') sc = map_get (authFailures s) sc)"
  using assms
  by (auto simp: recordCloudAuthFailure_def try_in_def normalizePositiveInteger_def coalesce_def Let_def
      failure_count_def blocked_until_def split: option.splits if_splits)

text \<open>Failures of one scope at the given times.\<close>

fun run_failures :: "env \<Rightarrow> auth_failure_input \<Rightarrow> iso list \<Rightarrow> backoff_store \<Rightarrow> backoff_store" where
  "run_failures e inp [] s = s"
| "run_failures e inp (t # ts) s = run_failures e inp ts (snd (recordCloudAuthFailure e (inp\<lparr> afi_now := Some t \<rparr>) s))"

lemma run_failures_append: "run_failures e inp (ts @ us) s = run_failures e inp us (run_failures e inp ts s)"
  by (induction ts arbitrary: s) simp_all

lemma run_failures_count:
  assumes "afi_windowMs inp = JInt w" "0 < w" "afi_limit inp = JInt l" "0 < l" "afi_backoffMs inp = JInt b" "0 < b"
    and "\<forall>t \<in> set ts. windowStart t w = st"
  shows "failure_count (run_failures e inp ts s) (afi_scope inp) st = failure_count s (afi_scope inp) st + int (length ts)"
  using assms(7)
proof (induction ts arbitrary: s)
  case (Cons t ts)
  obtain r s' where "recordCloudAuthFailure e (inp\<lparr> afi_now := Some t \<rparr>) s = (Inr r, s')"
    "failure_count s' (afi_scope inp) st = failure_count s (afi_scope inp) st + 1"
    using recordCloudAuthFailure_eq [of "inp\<lparr> afi_now := Some t \<rparr>" w l b st e _ s] assms Cons.prems by (auto simp: nowIso_def)
  then show ?case using Cons by simp
qed simp

lemma blocked_until_mono:
  assumes "recordCloudAuthFailure e inp s = (r, s')"
  shows "blocked_until s sc \<le> blocked_until s' sc"
proof (cases "\<exists>w l b. afi_windowMs inp = JInt w \<and> 0 < w \<and> afi_limit inp = JInt l \<and> 0 < l \<and> afi_backoffMs inp = JInt b \<and> 0 < b")
  case False
  then have "s' = s" using assms
    by (auto simp: recordCloudAuthFailure_def try_in_def split: sum.splits)
  then show ?thesis by simp
next
  case True
  then obtain w l b where v: "afi_windowMs inp = JInt w" "0 < w" "afi_limit inp = JInt l" "0 < l" "afi_backoffMs inp = JInt b" "0 < b"
    by blast
  from recordCloudAuthFailure_eq [OF v refl refl, of e s] assms
  show ?thesis by (cases "sc = afi_scope inp") (auto simp: blocked_until_def split: if_splits)
qed

lemma checkCloudAuthBackoff_allowed:
  "0 \<le> nowIso e now \<Longrightarrow> bo_allowed (checkCloudAuthBackoff e sc src now s) \<longleftrightarrow> blocked_until s sc \<le> nowIso e now"
  by (simp add: checkCloudAuthBackoff_def blocked_until_def Let_def split: option.splits)


section \<open>Properties\<close>

text \<open>A rate-limited source is admitted exactly while its count in the current window is below the
  limit: of any sequence of claims in one window, the first \<open>limit - c\<close> succeed and no later one,
  where \<open>c\<close> claims were counted in that window before.\<close>

theorem rate_limit_window:
  assumes "rli_limit inp = JInt l" "0 < l" "rli_windowMs inp = JInt w" "0 < w"
    and "\<forall>t \<in> set ts. windowStart t w = st"
    and "c = rate_count m (key [rli_scope inp, rli_source inp]) st"
  shows "run_claims e inp ts m = map (\<lambda>i. c + int i + 1 \<le> l) [0..<length ts]
     \<and> length (filter id (run_claims e inp ts m)) = min (length ts) (nat (l - c))"
  using run_claims_flags [OF assms(1-5) refl, of e m] length_filter_prefix [of c l "length ts"] assms(6) by simp

definition sample_rate_claim :: rate_claim_input where
  "sample_rate_claim = \<lparr> rli_scope = ''login'', rli_source = ''ip'', rli_limit = JInt 2, rli_windowMs = JInt 1000,
     rli_now = None, rli_policyCode = None \<rparr>"

theorem rate_limit_window_witness:
  "run_claims sample_env sample_rate_claim [5, 6, 7] [] = map (\<lambda>i. 0 + int i + 1 \<le> 2) [0..<length [5, 6, 7 :: int]]
     \<and> length (filter id (run_claims sample_env sample_rate_claim [5, 6, 7] [])) = min (length [5, 6, 7 :: int]) (nat (2 - 0))"
  by (rule rate_limit_window [where w = 1000 and st = 0])
    (simp_all add: sample_rate_claim_def windowStart_def rate_count_def)

text \<open>C5: however consumptions of different orgs and quota keys interleave, one usage counter grants
  within one window at most its limit: what it held plus everything granted stays below the limit.\<close>

theorem usage_quota_window_bound:
  assumes "run_consume e inps s = (gs, s')"
    and "\<forall>i \<in> set inps. uq_key i = k \<longrightarrow> uq_windowMs i = JInt w \<and> uq_limit i = JInt l \<and> windowStart (nowIso e (uq_now i)) w = st"
    and "usage_count s k st \<le> l"
  shows "usage_count s' k st = usage_count s k st + granted_for k gs \<and> usage_count s k st + granted_for k gs \<le> l"
  using run_consume_bound [OF assms] by simp

definition sample_org :: org_record where
  "sample_org = \<lparr> og_orgId = ''o'', og_tenantId = ''t'', og_name = ''t'', og_planKey = None, og_status = ''active'',
     og_createdAt = 0, og_updatedAt = 0 \<rparr>"

definition sample_quota_store :: quota_store where
  "sample_quota_store = \<lparr> tenants = [], users = [], orgs = [(''o'', sample_org)], orgsByTenant = [], accounts = [],
     accountsBySubject = [], accountsByEmail = [], memberships = [], auditEvents = [], usageCounters = [] \<rparr>"

definition sample_consume :: "int \<Rightarrow> usage_quota_input" where
  "sample_consume q = \<lparr> uq_orgId = ''o'', uq_quotaKey = ''k'', uq_limit = JInt 5, uq_quantity = Some (JInt q),
     uq_windowMs = JInt 1000, uq_now = None, uq_policyCode = None \<rparr>"

theorem usage_quota_window_bound_witness:
  "granted_for (uq_key (sample_consume 2)) (fst (run_consume sample_env [sample_consume 2, sample_consume 3, sample_consume 1] sample_quota_store)) = 5
   \<and> usage_count sample_quota_store (uq_key (sample_consume 2)) 0
       + granted_for (uq_key (sample_consume 2)) (fst (run_consume sample_env [sample_consume 2, sample_consume 3, sample_consume 1] sample_quota_store)) \<le> 5"
  (is "?a = 5 \<and> ?b \<le> 5")
proof
  show "?a = 5" by code_simp
  have "\<forall>i \<in> set [sample_consume 2, sample_consume 3, sample_consume 1].
      uq_key i = uq_key (sample_consume 2) \<longrightarrow>
      uq_windowMs i = JInt 1000 \<and> uq_limit i = JInt 5 \<and> windowStart (nowIso sample_env (uq_now i)) 1000 = 0"
    by (simp add: sample_consume_def nowIso_def sample_env_def windowStart_def)
  moreover have "usage_count sample_quota_store (uq_key (sample_consume 2)) 0 \<le> 5"
    by (simp add: usage_count_def sample_quota_store_def)
  ultimately show "?b \<le> 5"
    using usage_quota_window_bound [OF surjective_pairing] by blast
qed

text \<open>Once a scope has failed \<open>limit\<close> times in a window, every check before the last failure plus
  the backoff is denied, whatever failures of the same window are recorded meanwhile.\<close>

theorem auth_backoff_blocks:
  assumes "afi_windowMs inp = JInt w" "0 < w" "afi_limit inp = JInt l" "0 < l" "afi_backoffMs inp = JInt b" "0 < b"
    and "\<forall>t \<in> set (ts @ [t]). windowStart t w = st" and "l \<le> int (length (ts @ [t]))"
    and "0 \<le> failure_count s (afi_scope inp) st" and "0 \<le> now" "now < t + b"
  shows "\<not> bo_allowed (checkCloudAuthBackoff e (afi_scope inp) src (Some now) (run_failures e inp (ts @ [t]) s))"
proof -
  define s1 where "s1 = run_failures e inp ts s"
  have cnt: "failure_count s1 (afi_scope inp) st = failure_count s (afi_scope inp) st + int (length ts)"
    unfolding s1_def using assms(7) by (intro run_failures_count [OF assms(1-6)]) simp
  obtain r s2 where s2: "recordCloudAuthFailure e (inp\<lparr> afi_now := Some t \<rparr>) s1 = (Inr r, s2)"
    "blocked_until s2 (afi_scope inp) = (if failure_count s1 (afi_scope inp) st + 1 \<ge> l
       then max (blocked_until s1 (afi_scope inp)) (t + b) else blocked_until s1 (afi_scope inp))"
    using recordCloudAuthFailure_eq [of "inp\<lparr> afi_now := Some t \<rparr>" w l b st e _ s1] assms(1-7) by (auto simp: nowIso_def)
  have "run_failures e inp (ts @ [t]) s = s2" using s2(1) by (simp add: run_failures_append s1_def)
  moreover have "t + b \<le> blocked_until s2 (afi_scope inp)" using s2(2) cnt assms(8,9) by simp
  ultimately show ?thesis using checkCloudAuthBackoff_allowed [of e "Some now" "afi_scope inp" src s2] assms(10,11)
    by (simp add: nowIso_def)
qed

definition sample_failure :: auth_failure_input where
  "sample_failure = \<lparr> afi_scope = ''ip'', afi_source = ''ip'', afi_windowMs = JInt 1000, afi_limit = JInt 2, afi_backoffMs = JInt 60000,
     afi_now = None \<rparr>"

theorem auth_backoff_blocks_witness:
  "\<not> bo_allowed (checkCloudAuthBackoff sample_env (afi_scope sample_failure) None (Some 50000)
     (run_failures sample_env sample_failure ([10] @ [20]) \<lparr> authFailures = [], authFailureWindows = [] \<rparr>))"
  by (rule auth_backoff_blocks [where w = 1000 and l = 2 and b = 60000 and st = 0])
    (simp_all add: sample_failure_def windowStart_def failure_count_def)

end
