(* ===== verification/Workflow_Steps.thy ===== *)
theory Workflow_Steps
  imports Json_Canon
begin

text \<open>
  The step outline of a workflow (\<open>packages/shared/src/workflow.ts\<close>): explicit steps of a draft are
  normalized entry by entry; otherwise the outline is derived from the instructions, by lines, by
  sentences, or as the fixed three-step fallback. The bullet character U+2022, which the marker
  stripper also accepts, is outside the code units of the model.
\<close>


section \<open>Definitions\<close>

record workflow_step =
  st_id :: string
  st_title :: string
  st_detail :: "string option"

definition MAX_WORKFLOW_STEPS :: nat where "MAX_WORKFLOW_STEPS = 8"
definition MAX_WORKFLOW_STEP_TITLE_LENGTH :: nat where "MAX_WORKFLOW_STEP_TITLE_LENGTH = 160"
definition MAX_WORKFLOW_STEP_DETAIL_LENGTH :: nat where "MAX_WORKFLOW_STEP_DETAIL_LENGTH = 500"

definition isWhitespace :: "char \<Rightarrow> bool" where
  "isWhitespace c = (c \<in> {CHR '' '', CHR 0x09, CHR 0x0A, CHR 0x0D, CHR 0x0C})"

definition isAsciiDigit :: "char \<Rightarrow> bool" where
  "isAsciiDigit c = (48 \<le> (of_char c :: nat) \<and> (of_char c :: nat) \<le> 57)"

definition isSentencePunctuation :: "char \<Rightarrow> bool" where
  "isSentencePunctuation c = (c \<in> {CHR ''.'', CHR ''!'', CHR ''?''})"

text \<open>The loop state is the result so far and the pending-space flag.\<close>

fun compact_step :: "char \<Rightarrow> string \<times> bool \<Rightarrow> string \<times> bool" where
  "compact_step c (result, pendingSpace) =
     (if isWhitespace c then (result, result \<noteq> [])
      else ((if pendingSpace then result @ '' '' else result) @ [c], False))"

definition compactWhitespace :: "string \<Rightarrow> string" where
  "compactWhitespace value = fst (fold compact_step (js_trim value) ([], False))"

text \<open>A value that is not a string is \<open>None\<close>.\<close>

definition trimmedString :: "string option \<Rightarrow> nat \<Rightarrow> string" where
  "trimmedString value maxLength =
     (case value of None \<Rightarrow> [] | Some v \<Rightarrow> js_trim (take maxLength (compactWhitespace v)))"

definition stripInstructionListMarker :: "string \<Rightarrow> string" where
  "stripInstructionListMarker value =
     (let line = js_trim value;
          digits = takeWhile isAsciiDigit line;
          rest = dropWhile isAsciiDigit line
      in if line = [] then []
         else if digits \<noteq> [] \<and> rest \<noteq> [] \<and> hd rest \<in> {CHR ''.'', CHR '')''} \<and> tl rest \<noteq> [] \<and> isWhitespace (hd (tl rest))
         then js_trim (dropWhile isWhitespace (tl rest))
         else if hd line \<in> {CHR ''-'', CHR ''*''} \<and> tl line \<noteq> [] \<and> isWhitespace (hd (tl line))
         then js_trim (dropWhile isWhitespace (tl line))
         else line)"

definition stripTrailingSentencePunctuation :: "string \<Rightarrow> string" where
  "stripTrailingSentencePunctuation value = rev (dropWhile isSentencePunctuation (rev value))"

definition push_title :: "string list \<Rightarrow> string \<Rightarrow> string list" where
  "push_title lines title = (if title = [] then lines else lines @ [title])"

fun explicit_lines :: "string list \<Rightarrow> string \<Rightarrow> string \<Rightarrow> string list" where
  "explicit_lines lines current [] = push_title lines (stripInstructionListMarker current)"
| "explicit_lines lines current (c # cs) =
     (if c = CHR 0x0A then explicit_lines (push_title lines (stripInstructionListMarker current)) [] cs
      else if c = CHR 0x0D
      then (case cs of
              d # ds \<Rightarrow> (if d = CHR 0x0A then explicit_lines (push_title lines (stripInstructionListMarker current)) [] ds
                        else explicit_lines (push_title lines (stripInstructionListMarker current)) [] cs)
            | [] \<Rightarrow> explicit_lines (push_title lines (stripInstructionListMarker current)) [] cs)
      else explicit_lines lines (current @ [c]) cs)"

definition collectExplicitInstructionLines :: "string \<Rightarrow> string list" where
  "collectExplicitInstructionLines instructions = take MAX_WORKFLOW_STEPS (explicit_lines [] [] instructions)"

definition sentence_title :: "string \<Rightarrow> string" where
  "sentence_title current = trimmedString (Some (stripTrailingSentencePunctuation current)) MAX_WORKFLOW_STEP_TITLE_LENGTH"

text \<open>The index loop of \<open>collectSentenceInstructionLines\<close>, over what is left of the text.\<close>

function sentence_loop :: "nat \<Rightarrow> string list \<Rightarrow> string \<Rightarrow> string \<Rightarrow> string list \<times> string" where
  "sentence_loop limit lines current rest =
     (if limit \<le> length lines then (lines, current)
      else case rest of
        [] \<Rightarrow> (lines, current)
      | c # cs \<Rightarrow>
          if \<not> isSentencePunctuation c then sentence_loop limit lines (current @ [c]) cs
          else let run = takeWhile isSentencePunctuation cs; after = dropWhile isSentencePunctuation cs in
            if after \<noteq> [] \<and> \<not> isWhitespace (hd after)
            then sentence_loop limit lines (current @ [c] @ run) after
            else sentence_loop limit (push_title lines (sentence_title (current @ [c] @ run))) [] (dropWhile isWhitespace after))"
  by pat_completeness auto
termination
  by (relation "measure (\<lambda>(limit, lines, current, rest). length rest)")
    (auto simp: less_Suc_eq_le intro: order_trans [OF length_dropWhile_le length_dropWhile_le] length_dropWhile_le)

declare sentence_loop.simps [simp del]

definition collectSentenceInstructionLines :: "string \<Rightarrow> string list" where
  "collectSentenceInstructionLines instructions =
     (let limit = min 3 MAX_WORKFLOW_STEPS; (lines, current) = sentence_loop limit [] [] instructions
      in if length lines < limit then push_title lines (sentence_title current) else lines)"

fun json_truthy :: "json \<Rightarrow> bool" where
  "json_truthy JNull = False"
| "json_truthy (JBool b) = b"
| "json_truthy (JNum t) = (t \<noteq> ''0'' \<and> t \<noteq> ''-0'')"
| "json_truthy (JStr s) = (s \<noteq> [])"
| "json_truthy _ = True"

definition json_field :: "json \<Rightarrow> string \<Rightarrow> json" where
  "json_field v f = (case v of JObj kvs \<Rightarrow> coalesce (map_of kvs f) JNull | _ \<Rightarrow> JNull)"

text \<open>\<open>a || b || c\<close> over the fields of a record, \<open>undefined\<close> being \<open>JNull\<close>.\<close>

fun first_truthy :: "json list \<Rightarrow> json" where
  "first_truthy [] = JNull"
| "first_truthy (v # vs) = (if json_truthy v \<or> vs = [] then v else first_truthy vs)"

definition json_string :: "json \<Rightarrow> string option" where
  "json_string v = (case v of JStr s \<Rightarrow> Some s | _ \<Rightarrow> None)"

definition step_id :: "nat \<Rightarrow> string" where
  "step_id index = ''step-'' @ show_nat (index + 1)"

definition normalizeWorkflowStepEntry :: "json \<Rightarrow> nat \<Rightarrow> workflow_step option" where
  "normalizeWorkflowStepEntry value index =
     (case value of
        JStr s \<Rightarrow>
          (let title = trimmedString (Some s) MAX_WORKFLOW_STEP_TITLE_LENGTH in
           if title = [] then None else Some \<lparr> st_id = step_id index, st_title = title, st_detail = None \<rparr>)
      | _ \<Rightarrow>
          (let title = trimmedString (json_string (first_truthy [json_field value ''title'', json_field value ''name'',
                 json_field value ''label'', json_field value ''summary''])) MAX_WORKFLOW_STEP_TITLE_LENGTH
           in if title = [] then None
              else Some \<lparr> st_id = or_else (Some (trimmedString (json_string (json_field value ''id'')) 64)) (step_id index),
                st_title = title,
                st_detail = or_null (Some (trimmedString (json_string (first_truthy [json_field value ''detail'',
                  json_field value ''description'', json_field value ''instructions''])) MAX_WORKFLOW_STEP_DETAIL_LENGTH)) \<rparr>))"

definition instructionStepLines :: "string option \<Rightarrow> string list" where
  "instructionStepLines instructions =
     (case instructions of
        None \<Rightarrow> []
      | Some t \<Rightarrow>
          (let explicit = collectExplicitInstructionLines t in
           if length explicit > 1 then explicit else collectSentenceInstructionLines t))"

definition plural_count :: "nat \<Rightarrow> string \<Rightarrow> string list" where
  "plural_count n noun =
     (if n = 0 then [] else [show_nat n @ '' '' @ noun @ (if n = 1 then '''' else ''s'') @ ''.''])"

definition normalizeWorkflowSteps ::
  "json list option \<Rightarrow> string option \<Rightarrow> string option \<Rightarrow> string list option \<Rightarrow> string list option \<Rightarrow> workflow_step list" where
  "normalizeWorkflowSteps value instructions agentNameIn skillNames toolIds =
     (let entries = (case value of None \<Rightarrow> [] | Some vs \<Rightarrow> take MAX_WORKFLOW_STEPS vs);
          steps = List.map_filter id (map2 normalizeWorkflowStepEntry entries [0..<length entries]);
          titles = instructionStepLines instructions;
          derived = map2 (\<lambda>title index. \<lparr> st_id = step_id index,
              st_title = or_else (Some (trimmedString (Some title) MAX_WORKFLOW_STEP_TITLE_LENGTH)) (''Step '' @ show_nat (index + 1)),
              st_detail = None \<rparr>) titles [0..<length titles];
          agentName = or_else (Some (trimmedString agentNameIn 80)) ''build'';
          capabilityDetail = join_with (CHR '' '') ([''Runs as '' @ agentName @ ''.'']
            @ plural_count (case skillNames of Some l \<Rightarrow> length l | None \<Rightarrow> 0) ''skill''
            @ plural_count (case toolIds of Some l \<Rightarrow> length l | None \<Rightarrow> 0) ''tool'');
          instructionDetail = trimmedString instructions MAX_WORKFLOW_STEP_DETAIL_LENGTH
      in if steps \<noteq> [] then steps
         else if length derived > 1 then derived
         else [\<lparr> st_id = ''step-1'', st_title = ''Prepare run context'', st_detail = or_null (Some capabilityDetail) \<rparr>,
               \<lparr> st_id = ''step-2'', st_title = ''Execute saved instructions'', st_detail = or_null (Some instructionDetail) \<rparr>,
               \<lparr> st_id = ''step-3'', st_title = ''Review and summarize output'',
                  st_detail = Some ''Capture the run result, errors, and follow-up actions.'' \<rparr>])"


section \<open>Every outline is bounded and titled\<close>

lemma length_js_trim: "length (js_trim s) \<le> length s"
  by (simp add: js_trim_def) (metis length_dropWhile_le length_rev order_trans)

lemma trimmedString_bound: "length (trimmedString v n) \<le> n"
  using length_js_trim by (fastforce simp: trimmedString_def split: option.splits intro: order_trans)

definition step_ok :: "workflow_step \<Rightarrow> bool" where
  "step_ok st = (st_title st \<noteq> [] \<and> length (st_title st) \<le> 160 \<and> st_id st \<noteq> [])"

lemma step_id_nonempty [simp]: "step_id i \<noteq> []"
  by (simp add: step_id_def)

lemma or_else_nonempty: "d \<noteq> [] \<Longrightarrow> or_else v d \<noteq> []"
  by (cases v) (auto simp: or_else_def or_null_def)

lemma entry_title:
  assumes "normalizeWorkflowStepEntry v i = Some st"
  obtains x where "st_title st = trimmedString x 160" "trimmedString x 160 \<noteq> []" "st_id st \<noteq> []"
proof (cases "\<exists>s. v = JStr s")
  case True
  then obtain s where "v = JStr s" by blast
  then show thesis using assms that [of "Some s"]
    by (auto simp: normalizeWorkflowStepEntry_def Let_def MAX_WORKFLOW_STEP_TITLE_LENGTH_def split: if_splits)
next
  case False
  define x where "x = json_string (first_truthy [json_field v ''title'', json_field v ''name'', json_field v ''label'', json_field v ''summary''])"
  define st' where "st' = \<lparr> st_id = or_else (Some (trimmedString (json_string (json_field v ''id'')) 64)) (step_id i),
     st_title = trimmedString x 160, st_detail = or_null (Some (trimmedString (json_string (first_truthy [json_field v ''detail'',
        json_field v ''description'', json_field v ''instructions''])) MAX_WORKFLOW_STEP_DETAIL_LENGTH)) \<rparr>"
  have "normalizeWorkflowStepEntry v i = (if trimmedString x 160 = [] then None else Some st')"
    using False unfolding normalizeWorkflowStepEntry_def st'_def x_def Let_def MAX_WORKFLOW_STEP_TITLE_LENGTH_def
    by (cases v) simp_all
  then have "trimmedString x 160 \<noteq> []" "st = st'" using assms by (auto split: if_splits)
  then show thesis using that [of x] by (simp add: st'_def or_else_nonempty)
qed

lemma entry_ok: "normalizeWorkflowStepEntry v i = Some st \<Longrightarrow> step_ok st"
  by (erule entry_title) (use trimmedString_bound in \<open>simp add: step_ok_def\<close>)

lemma map_filter_id_set: "x \<in> set (List.map_filter id ys) \<longleftrightarrow> Some x \<in> set ys"
  by (induction ys) (auto simp: List.map_filter_def split: option.splits)

lemma length_map_filter_id: "length (List.map_filter id ys) \<le> length ys"
  by (simp add: List.map_filter_def)

lemma steps_entries_ok:
  assumes "st \<in> set (List.map_filter id (map2 normalizeWorkflowStepEntry es [0..<length es]))"
  shows "step_ok st"
  using assms unfolding map_filter_id_set by (auto simp: entry_ok dest: sym)

lemma length_push_title: "length (push_title ls t) \<le> Suc (length ls)"
  by (simp add: push_title_def)

lemma sentence_loop_bound: "length ls \<le> l \<Longrightarrow> length (fst (sentence_loop l ls cur rest)) \<le> l"
proof (induction l ls cur rest rule: sentence_loop.induct)
  case (1 l ls cur rest)
  show ?case
  proof (cases "l \<le> length ls")
    case True
    with 1 show ?thesis by (simp add: sentence_loop.simps [of l])
  next
    case False
    then have "length (push_title ls t) \<le> l" for t using length_push_title [of ls t] by linarith
    with 1 False show ?thesis
      by (subst sentence_loop.simps) (auto simp: Let_def split: list.splits)
  qed
qed

lemma sentence_lines_bound: "length (collectSentenceInstructionLines t) \<le> 3"
proof -
  obtain ls cur where lc: "sentence_loop (min 3 MAX_WORKFLOW_STEPS) [] [] t = (ls, cur)" by fastforce
  have "length ls \<le> 3" using sentence_loop_bound [of "[]" "min 3 MAX_WORKFLOW_STEPS" "[]" t] lc by (simp add: MAX_WORKFLOW_STEPS_def)
  then show ?thesis using lc length_push_title [of ls "sentence_title cur"]
    by (simp add: collectSentenceInstructionLines_def Let_def MAX_WORKFLOW_STEPS_def)
qed

lemma instruction_lines_bound: "length (instructionStepLines t) \<le> MAX_WORKFLOW_STEPS"
  using sentence_lines_bound
  by (force simp: instructionStepLines_def collectExplicitInstructionLines_def Let_def MAX_WORKFLOW_STEPS_def split: option.splits
      intro: order_trans)

lemma workflow_steps_bounded:
  "normalizeWorkflowSteps v ins ag sk tids \<noteq> [] \<and> length (normalizeWorkflowSteps v ins ag sk tids) \<le> MAX_WORKFLOW_STEPS"
proof -
  define entries where "entries = (case v of None \<Rightarrow> [] | Some vs \<Rightarrow> take MAX_WORKFLOW_STEPS vs)"
  have "length (List.map_filter id (map2 normalizeWorkflowStepEntry entries [0..<length entries])) \<le> MAX_WORKFLOW_STEPS"
    using length_map_filter_id [of "map2 normalizeWorkflowStepEntry entries [0..<length entries]"]
    by (auto simp: entries_def split: option.splits)
  then show ?thesis using instruction_lines_bound [of ins]
    by (auto simp: normalizeWorkflowSteps_def Let_def entries_def [symmetric] MAX_WORKFLOW_STEPS_def)
qed

lemma workflow_steps_titled:
  assumes "st \<in> set (normalizeWorkflowSteps v ins ag sk tids)"
  shows "step_ok st"
proof -
  have derived: "step_ok \<lparr> st_id = step_id i,
       st_title = or_else (Some (trimmedString (Some t) MAX_WORKFLOW_STEP_TITLE_LENGTH)) (''Step '' @ show_nat (i + 1)), st_detail = None \<rparr>"
    if "i < 8" for t i
    using that trimmedString_bound [of "Some t" 160]
    by (auto simp: step_ok_def or_else_def or_null_def MAX_WORKFLOW_STEP_TITLE_LENGTH_def show_nat.simps [of "Suc i"] numeral_eq_Suc less_Suc_eq)
  show ?thesis
    using assms instruction_lines_bound [of ins] steps_entries_ok derived
    unfolding normalizeWorkflowSteps_def Let_def
    by (auto simp: step_ok_def [of "\<lparr> st_id = _ # _, st_title = _, st_detail = _ \<rparr>"] in_set_zip MAX_WORKFLOW_STEPS_def split: if_splits)
qed

end
