(* ===== verification/Project_Source.thy ===== *)
theory Project_Source
  imports Workflow_Steps
begin

text \<open>
  Project sources of a session (\<open>packages/shared/src/project-source.ts\<close>): the stored source is read out
  of the projection's JSON view, validated, and summarized without its credentials for listings.
\<close>


section \<open>Definitions\<close>

text \<open>Counts are kept as the JSON number text; \<open>readNumber\<close> is not observed by the summary.\<close>

datatype project_source =
    GitSource (gs_repositoryUrl: string) (gs_ref: "string option") (gs_subdirectory: "string option") (gs_credentialRef: "string option")
  | SnapshotSource (sn_snapshotId: string) (sn_objectKey: string) (sn_fileCount: json) (sn_byteCount: json) (sn_title: "string option")

datatype project_source_summary =
    GitSummary string "string option" "string option"
  | SnapshotSummary string "string option"

definition readString :: "json \<Rightarrow> string option" where
  "readString v = (case v of JStr s \<Rightarrow> (if js_trim s = [] then None else Some (js_trim s)) | _ \<Rightarrow> None)"

definition readNumber :: "json \<Rightarrow> json" where
  "readNumber v = (case v of JNum t \<Rightarrow> (if starts_with t ''-'' then JNum ''0'' else JNum t) | _ \<Rightarrow> JNum ''0'')"

definition scheme_start :: "char \<Rightarrow> bool" where
  "scheme_start c = (let n = (of_char c :: nat) in (65 \<le> n \<and> n \<le> 90) \<or> (97 \<le> n \<and> n \<le> 122))"

definition scheme_char :: "char \<Rightarrow> bool" where
  "scheme_char c = (scheme_start c \<or> isAsciiDigit c \<or> c \<in> {CHR ''+'', CHR ''.'', CHR ''-''})"

text \<open>\<open>/^([a-z][a-z0-9+.-]*:\/\/)([^/@]+@)/i\<close>: the scheme part and what follows it, if the text has one.\<close>

definition url_scheme :: "string \<Rightarrow> (string \<times> string) option" where
  "url_scheme u =
     (let sch = takeWhile scheme_char u; rest = dropWhile scheme_char u in
      if sch \<noteq> [] \<and> scheme_start (hd sch) \<and> starts_with rest ''://'' then Some (sch @ ''://'', drop 3 rest) else None)"

definition userinfo_char :: "char \<Rightarrow> bool" where
  "userinfo_char c = (c \<noteq> CHR ''/'' \<and> c \<noteq> CHR ''@'')"

definition before_query_char :: "char \<Rightarrow> bool" where
  "before_query_char c = (c \<noteq> CHR ''?'' \<and> c \<noteq> CHR ''#'')"

definition cloudSafeGitRepositoryUrl :: "string \<Rightarrow> string" where
  "cloudSafeGitRepositoryUrl value =
     (let stripped = or_else (Some (js_trim (takeWhile before_query_char value))) (js_trim value) in
      case url_scheme stripped of
        None \<Rightarrow> stripped
      | Some (sch, rest) \<Rightarrow>
          (let info = takeWhile userinfo_char rest; after = dropWhile userinfo_char rest in
           if info \<noteq> [] \<and> after \<noteq> [] \<and> hd after = CHR ''@'' then sch @ tl after else stripped))"

definition normalizeCloudProjectSource :: "json \<Rightarrow> project_source option" where
  "normalizeCloudProjectSource value =
     (if json_field value ''kind'' = JStr ''git''
      then (case readString (json_field value ''repositoryUrl'') of
              None \<Rightarrow> None
            | Some url \<Rightarrow> Some (GitSource url (readString (json_field value ''ref'')) (readString (json_field value ''subdirectory''))
                (readString (json_field value ''credentialRef''))))
      else if json_field value ''kind'' = JStr ''snapshot''
      then (case (readString (json_field value ''snapshotId''), readString (json_field value ''objectKey'')) of
              (Some sid, Some okey) \<Rightarrow> Some (SnapshotSource sid okey (readNumber (json_field value ''fileCount''))
                (readNumber (json_field value ''byteCount'')) (readString (json_field value ''title'')))
            | _ \<Rightarrow> None)
      else None)"

definition summarizeCloudProjectSource :: "project_source option \<Rightarrow> project_source_summary option" where
  "summarizeCloudProjectSource source =
     (case source of
        None \<Rightarrow> None
      | Some (GitSource url ref sub cred) \<Rightarrow> Some (GitSummary (cloudSafeGitRepositoryUrl url) ref sub)
      | Some (SnapshotSource sid okey files bytes title) \<Rightarrow> Some (SnapshotSummary sid title))"


section \<open>What the summary keeps\<close>

lemma takeWhile_app_stop: "\<forall>x \<in> set xs. P x \<Longrightarrow> \<not> P y \<Longrightarrow> takeWhile P (xs @ y # ys) = xs"
  by (induction xs) auto

lemma dropWhile_app_stop: "\<forall>x \<in> set xs. P x \<Longrightarrow> \<not> P y \<Longrightarrow> dropWhile P (xs @ y # ys) = y # ys"
  by (induction xs) auto

lemma starts_with_append [simp]: "starts_with (p @ s) p"
  by (induction p) auto

lemma url_scheme_app:
  assumes "sch \<noteq> []" "scheme_start (hd sch)" "list_all scheme_char sch"
  shows "url_scheme (sch @ ''://'' @ rest) = Some (sch @ ''://'', rest)"
proof -
  have colon: "\<not> scheme_char (CHR '':'')" by (simp add: scheme_char_def scheme_start_def isAsciiDigit_def Let_def)
  have tw: "takeWhile scheme_char (sch @ ''://'' @ rest) = sch"
    using takeWhile_app_stop [of sch scheme_char "CHR '':''" "''//'' @ rest"] assms(3) colon by (simp add: list_all_iff)
  have dw: "dropWhile scheme_char (sch @ ''://'' @ rest) = ''://'' @ rest"
    using dropWhile_app_stop [of sch scheme_char "CHR '':''" "''//'' @ rest"] assms(3) colon by (simp add: list_all_iff)
  have "starts_with (''://'' @ rest) ''://''" by simp
  then show ?thesis unfolding url_scheme_def tw dw Let_def using assms by simp
qed

lemma trim_keep: "s \<noteq> [] \<Longrightarrow> \<not> is_js_space (hd s) \<Longrightarrow> \<not> is_js_space (last s) \<Longrightarrow> js_trim s = s"
  by (simp add: js_trim_def dropWhile_id_hd hd_rev)

text \<open>A user-info part without a slash or a further \<open>@\<close> is removed, whatever the rest of the URL.\<close>

lemma safe_url_strips:
  assumes "sch \<noteq> []" "scheme_start (hd sch)" "list_all scheme_char sch"
    and "info \<noteq> []" "list_all (\<lambda>c. userinfo_char c \<and> before_query_char c) info"
    and "host \<noteq> []" "list_all before_query_char host" "\<not> is_js_space (last host)"
  shows "cloudSafeGitRepositoryUrl (sch @ ''://'' @ info @ ''@'' @ host) = sch @ ''://'' @ host"
proof -
  let ?u = "sch @ ''://'' @ info @ ''@'' @ host"
  have bad: "\<not> scheme_char (CHR ''?'')" "\<not> scheme_char (CHR ''#'')"
    by (simp_all add: scheme_char_def scheme_start_def isAsciiDigit_def Let_def)
  have noq: "before_query_char c" if "scheme_char c" for c
    unfolding before_query_char_def
  proof (intro conjI notI)
    show False if "c = CHR ''?''" using \<open>scheme_char c\<close> bad(1) unfolding that by contradiction
    show False if "c = CHR ''#''" using \<open>scheme_char c\<close> bad(2) unfolding that by contradiction
  qed
  have sep: "list_all before_query_char ''://''" "list_all before_query_char ''@''" by (simp_all add: before_query_char_def)
  have "list_all before_query_char sch" "list_all before_query_char info" using assms(3,5) noq by (auto simp: list_all_iff)
  then have "list_all before_query_char ?u" using assms(7) sep by (simp only: list_all_append)
  then have cut: "takeWhile before_query_char ?u = ?u" by (simp only: takeWhile_eq_all_conv list_all_iff)
  have "\<not> is_js_space (hd sch)" using assms(2) by (auto simp: scheme_start_def is_js_space_def Let_def)
  then have trim: "js_trim ?u = ?u" using assms by (intro trim_keep) simp_all
  have sch: "url_scheme ?u = Some (sch @ ''://'', info @ ''@'' @ host)" by (rule url_scheme_app) (use assms in simp_all)
  have at: "\<not> userinfo_char (CHR ''@'')" by (simp add: userinfo_char_def)
  have tw: "takeWhile userinfo_char (info @ ''@'' @ host) = info"
    using takeWhile_app_stop [of info userinfo_char "CHR ''@''" host] assms(5) at by (simp add: list_all_iff)
  have dw: "dropWhile userinfo_char (info @ ''@'' @ host) = ''@'' @ host"
    using dropWhile_app_stop [of info userinfo_char "CHR ''@''" host] assms(5) at by (simp add: list_all_iff)
  have ne: "?u \<noteq> []" by simp
  show ?thesis
    unfolding cloudSafeGitRepositoryUrl_def cut trim Let_def or_else_def or_null_def option.case if_not_P [OF ne] sch prod.case tw dw
    using assms(4) by simp
qed

end
