(* ===== verification/Session_Records.thy ===== *)
theory Session_Records
  imports Quota_Windows Project_Source
begin

text \<open>
  The session state of the control plane (\<open>control-plane-session-records.ts\<close>,
  \<open>control-plane-worker-records.ts\<close> and the \<open>SessionState\<close> of \<open>in-memory-domains/sessions.ts\<close>) and the
  lookups and lease checks that the workspace log and the workflow runs share with it.

  A lease token argument of type \<open>string | null | undefined\<close> is \<open>string option option\<close>: \<open>None\<close> is
  \<open>undefined\<close>, \<open>Some None\<close> is \<open>null\<close>.
\<close>


section \<open>Records\<close>

datatype session_status = SIdle | SRunning | SClosed | SErrored

datatype command_kind = CmdPrompt | CmdAbort | CmdPermissionRespond | CmdQuestionReply | CmdQuestionReject

datatype command_status = CPending | CRunning | CAcked | CFailed

datatype reaper_action = Retried | Failed | Released

record session_record =
  sr_tenantId :: string
  sr_userId :: string
  sr_sessionId :: string
  sr_opencodeSessionId :: string
  sr_profileName :: string
  sr_status :: session_status
  sr_title :: "string option"
  sr_createdAt :: iso
  sr_updatedAt :: iso
  sr_projectSource :: "project_source_summary option"

record session_event =
  ev_tenantId :: string
  ev_sessionId :: string
  ev_eventId :: string
  ev_sequence :: int
  ev_type :: string
  ev_payload :: json
  ev_createdAt :: iso

record session_projection =
  pj_tenantId :: string
  pj_sessionId :: string
  pj_sequence :: int
  pj_view :: json
  pj_updatedAt :: iso

record worker_lease =
  wl_tenantId :: string
  wl_sessionId :: string
  wl_leasedBy :: string
  wl_leaseToken :: string
  wl_leaseExpiresAt :: int
  wl_checkpointVersion :: int

record session_command =
  cmd_commandId :: string
  cmd_tenantId :: string
  cmd_userId :: string
  cmd_sessionId :: string
  cmd_kind :: command_kind
  cmd_payload :: json
  cmd_targetLeaseToken :: "string option"
  cmd_createdSequence :: int
  cmd_createdAt :: iso
  cmd_status :: command_status
  cmd_claimedBy :: "string option"
  cmd_claimedLeaseToken :: "string option"
  cmd_attemptCount :: int
  cmd_availableAt :: "iso option"
  cmd_lastErrorCode :: "string option"
  cmd_lastErrorSummary :: "string option"
  cmd_ackedAt :: "iso option"
  cmd_error :: "string option"

record session_state =
  ss_record :: session_record
  ss_nextEventSequence :: int
  ss_nextCommandSequence :: int
  ss_nextLeaseAttempt :: nat
  ss_lease :: "worker_lease option"
  ss_events :: "session_event list"
  ss_projection :: "session_projection option"
  ss_commands :: "session_command list"

record artifact_index_record =
  ax_tenantId :: string
  ax_userId :: string
  ax_sessionId :: string
  ax_sessionTitle :: "string option"
  ax_artifactId :: string
  ax_filename :: string
  ax_contentType :: "string option"
  ax_size :: int
  ax_key :: string
  ax_kind :: string
  ax_status :: string
  ax_authorAgentId :: "string option"
  ax_projectId :: "string option"
  ax_taskId :: "string option"
  ax_statusUpdatedBy :: "string option"
  ax_statusUpdatedAt :: "iso option"
  ax_createdAt :: iso
  ax_updatedAt :: iso

text \<open>Pending approvals and questions are opaque JSON to the store; only emptiness is observed.\<close>

record launchpad_summary =
  lp_tenantId :: string
  lp_userId :: string
  lp_sessionId :: string
  lp_sessionTitle :: "string option"
  lp_createdAt :: iso
  lp_updatedAt :: iso
  lp_pendingApprovals :: "json list"
  lp_pendingQuestions :: "json list"

record session_store = quota_store +
  sessions :: "session_state jsmap"
  artifactIndex :: "artifact_index_record jsmap"
  launchpadSessionSummaries :: "launchpad_summary jsmap"


section \<open>Lookups and lease checks\<close>

definition requireSession :: "'a session_store_scheme \<Rightarrow> string \<Rightarrow> string \<Rightarrow> error + session_state" where
  "requireSession s tenantId sessionId =
     try_pure (requireTenant s tenantId) (\<lambda>_.
       case map_get (sessions s) (key [tenantId, sessionId]) of
         Some ss \<Rightarrow> Inr ss
       | None \<Rightarrow> Inl (Error (''Unknown session '' @ sessionId @ ''.'')))"

definition assertLeaseTokenIfPresent :: "env \<Rightarrow> session_state \<Rightarrow> string option option \<Rightarrow> error + unit" where
  "assertLeaseTokenIfPresent e ss leaseToken =
     (case leaseToken of
        None \<Rightarrow> Inr ()
      | Some t \<Rightarrow>
          (case ss_lease ss of
             None \<Rightarrow> Inl (Error ''Worker lease is stale (missing).'')
           | Some l \<Rightarrow>
               if t \<noteq> Some (wl_leaseToken l) then Inl (Error ''Worker lease is stale (token mismatch).'')
               else if wl_leaseExpiresAt l \<le> clock e then Inl (Error ''Worker lease is stale (expired).'')
               else Inr ()))"

definition assertCurrentLease :: "session_state \<Rightarrow> worker_lease \<Rightarrow> int \<Rightarrow> error + worker_lease" where
  "assertCurrentLease ss lease nowMs =
     (case ss_lease ss of
        None \<Rightarrow> Inl (Error ''Worker lease is stale.'')
      | Some l \<Rightarrow>
          if wl_leaseToken l \<noteq> wl_leaseToken lease \<or> wl_leaseExpiresAt l \<le> nowMs
          then Inl (Error ''Worker lease is stale.'') else Inr l)"

definition assertSessionLease :: "env \<Rightarrow> 'a session_store_scheme \<Rightarrow> string \<Rightarrow> string \<Rightarrow> string option option \<Rightarrow> error + unit" where
  "assertSessionLease e s tenantId sessionId leaseToken =
     try_pure (requireSession s tenantId sessionId) (\<lambda>ss. assertLeaseTokenIfPresent e ss leaseToken)"

definition assertSessionBelongsToUser :: "'a session_store_scheme \<Rightarrow> string \<Rightarrow> string \<Rightarrow> string \<Rightarrow> error + unit" where
  "assertSessionBelongsToUser s tenantId sessionId userId =
     try_pure (requireSession s tenantId sessionId) (\<lambda>ss.
       if sr_userId (ss_record ss) \<noteq> userId
       then Inl (Error (''Session '' @ sessionId @ '' does not belong to user '' @ userId @ ''.'')) else Inr ())"

definition sessionHasCommands :: "'a session_store_scheme \<Rightarrow> string \<Rightarrow> string \<Rightarrow> bool" where
  "sessionHasCommands s tenantId sessionId =
     (case map_get (sessions s) (key [tenantId, sessionId]) of Some ss \<Rightarrow> ss_commands ss \<noteq> [] | None \<Rightarrow> False)"

definition findSessionCommandById :: "'a session_store_scheme \<Rightarrow> string \<Rightarrow> session_command option" where
  "findSessionCommandById s commandId =
     find (\<lambda>c. cmd_commandId c = commandId) (concat (map ss_commands (map_values (sessions s))))"

definition requireCommand :: "session_state \<Rightarrow> string \<Rightarrow> error + session_command" where
  "requireCommand ss commandId =
     (case find (\<lambda>c. cmd_commandId c = commandId) (ss_commands ss) of
        Some c \<Rightarrow> Inr c | None \<Rightarrow> Inl (Error (''Unknown command '' @ commandId @ ''.'')))"

text \<open>Mutation of the element \<open>Array.prototype.find\<close> returns.\<close>

fun update_first :: "('a \<Rightarrow> bool) \<Rightarrow> ('a \<Rightarrow> 'a) \<Rightarrow> 'a list \<Rightarrow> 'a list" where
  "update_first P f [] = []"
| "update_first P f (x # xs) = (if P x then f x # xs else x # update_first P f xs)"

text \<open>Writing a mutated session object back under its key.\<close>

definition put_session :: "string \<Rightarrow> string \<Rightarrow> session_state \<Rightarrow> 'a session_store_scheme \<Rightarrow> 'a session_store_scheme" where
  "put_session tenantId sessionId ss s = s\<lparr> sessions := map_set (key [tenantId, sessionId]) ss (sessions s) \<rparr>"

definition queue_snapshot_of :: "'a session_store_scheme \<Rightarrow> queue_snapshot" where
  "queue_snapshot_of s =
     map (\<lambda>ss. (sr_tenantId (ss_record ss),
        map (\<lambda>c. (cmd_status c = CPending \<or> cmd_status c = CRunning, cmd_createdAt c)) (ss_commands ss)))
       (map_values (sessions s))"


section \<open>Laws\<close>

lemma requireSession_Inr:
  "requireSession s t i = Inr ss \<longleftrightarrow> map_has (tenants s) t \<and> map_get (sessions s) (key [t, i]) = Some ss"
  by (auto simp: requireSession_def try_pure_def requireTenant_def map_has_def split: option.splits)

lemma assertCurrentLease_Inr:
  "assertCurrentLease ss lease now = Inr l \<longleftrightarrow>
     ss_lease ss = Some l \<and> wl_leaseToken l = wl_leaseToken lease \<and> now < wl_leaseExpiresAt l"
  by (auto simp: assertCurrentLease_def split: option.splits)

lemma assertLeaseTokenIfPresent_Inr:
  "assertLeaseTokenIfPresent e ss t = Inr u \<longleftrightarrow>
     t = None \<or> (\<exists>l. ss_lease ss = Some l \<and> t = Some (Some (wl_leaseToken l)) \<and> clock e < wl_leaseExpiresAt l)"
  by (auto simp: assertLeaseTokenIfPresent_def split: option.splits)

lemma requireCommand_Inr:
  "requireCommand ss i = Inr c \<longleftrightarrow> find (\<lambda>c. cmd_commandId c = i) (ss_commands ss) = Some c"
  by (auto simp: requireCommand_def split: option.splits)

lemma update_first_none: "\<forall>x \<in> set xs. \<not> P x \<Longrightarrow> update_first P f xs = xs"
  by (induction xs) auto

lemma map_update_first: "(\<And>x. P x \<Longrightarrow> g (f x) = g x) \<Longrightarrow> map g (update_first P f xs) = map g xs"
  by (induction xs) auto

lemma length_update_first [simp]: "length (update_first P f xs) = length xs"
  by (induction xs) auto

lemma find_Some_split:
  "find P xs = Some x \<longleftrightarrow> (\<exists>ys zs. xs = ys @ x # zs \<and> P x \<and> (\<forall>y \<in> set ys. \<not> P y))"
proof (induction xs)
  case (Cons a xs)
  show ?case
  proof (cases "P a")
    case True
    then show ?thesis by (auto simp: Cons_eq_append_conv)
  next
    case False
    then show ?thesis using Cons by (auto simp: Cons_eq_append_conv) (metis append_Cons set_ConsD)
  qed
qed simp

lemma update_first_split: "\<forall>y \<in> set ys. \<not> P y \<Longrightarrow> P x \<Longrightarrow> update_first P f (ys @ x # zs) = ys @ f x # zs"
  by (induction ys) auto

lemma update_first_nth:
  "i < length xs \<Longrightarrow> update_first P f xs ! i = xs ! i \<or> (P (xs ! i) \<and> update_first P f xs ! i = f (xs ! i))"
proof (induction xs arbitrary: i)
  case (Cons x xs)
  then show ?case by (cases i) auto
qed simp

lemma find_update_first_other:
  assumes "\<And>x. P x \<Longrightarrow> \<not> Q x" and "\<And>x. P x \<Longrightarrow> \<not> Q (f x)"
  shows "find Q (update_first P f xs) = find Q xs"
  using assms by (induction xs) auto

lemma put_session_simps [simp]:
  "sessions (put_session t i ss s) = map_set (key [t, i]) ss (sessions s)"
  "tenants (put_session t i ss s) = tenants s" "users (put_session t i ss s) = users s" "orgs (put_session t i ss s) = orgs s"
  "orgsByTenant (put_session t i ss s) = orgsByTenant s" "auditEvents (put_session t i ss s) = auditEvents s"
  "usageCounters (put_session t i ss s) = usageCounters s" "artifactIndex (put_session t i ss s) = artifactIndex s"
  "launchpadSessionSummaries (put_session t i ss s) = launchpadSessionSummaries s"
  by (simp_all add: put_session_def)

end
