(* ===== verification/Workspace_Log.thy ===== *)
theory Workspace_Log
  imports Session_Records
begin

text \<open>
  The per-user workspace event log (\<open>in-memory-domains/workspace-events.ts\<close>, \<open>workspace-event-cursor.ts\<close>):
  an append-only stream with a monotone sequence, idempotent on the event id, replayed by cursor
  and trimmed by retention.
\<close>


section \<open>Records\<close>

record workspace_event =
  we_tenantId :: string
  we_userId :: string
  we_sessionId :: "string option"
  we_eventId :: string
  we_sequence :: int
  we_entityType :: string
  we_entityId :: string
  we_operation :: string
  we_projectionVersion :: int
  we_type :: string
  we_payload :: json
  we_createdAt :: iso

record workspace_log =
  wsl_nextSequence :: int
  wsl_events :: "workspace_event list"

record workspace_event_input =
  wi_tenantId :: string
  wi_userId :: string
  wi_sessionId :: "string option"
  wi_eventId :: "string option"
  wi_entityType :: "string option"
  wi_entityId :: "string option"
  wi_operation :: "string option"
  wi_projectionVersion :: "jsnum option"
  wi_type :: string
  wi_payload :: "json option"
  wi_createdAt :: "iso option"

record workspace_cursor =
  wc_earliestSequence :: "int option"
  wc_latestSequence :: int

record workspace_store = session_store +
  workspaceEvents :: "workspace_log jsmap"


section \<open>Operations\<close>

definition workspace_key :: "string \<Rightarrow> string \<Rightarrow> string" where
  "workspace_key tenantId userId = tenantId @ '':'' @ userId"

definition workspace_log_of :: "'a workspace_store_scheme \<Rightarrow> string \<Rightarrow> string \<Rightarrow> workspace_log" where
  "workspace_log_of s tenantId userId =
     coalesce (map_get (workspaceEvents s) (workspace_key tenantId userId)) \<lparr> wsl_nextSequence = 0, wsl_events = [] \<rparr>"

text \<open>\<open>Number.isFinite(v) ? Math.max(0, Math.floor(v || 0)) : d\<close>\<close>

definition finite_version :: "jsnum option \<Rightarrow> int \<Rightarrow> int" where
  "finite_version v d =
     (case v of Some n \<Rightarrow> (if js_is_finite n then max 0 (js_int (js_floor n)) else d) | None \<Rightarrow> d)"

text \<open>The event an append would write into a log with the given next sequence.\<close>

definition workspace_event_of :: "env \<Rightarrow> workspace_event_input \<Rightarrow> string \<Rightarrow> int \<Rightarrow> workspace_event" where
  "workspace_event_of e inp eventId sequence =
     \<lparr> we_tenantId = wi_tenantId inp, we_userId = wi_userId inp, we_sessionId = or_null (wi_sessionId inp),
       we_eventId = eventId, we_sequence = sequence,
       we_entityType = or_else (optionalTrimmedText (wi_entityType inp))
         (if or_null (wi_sessionId inp) \<noteq> None then ''session'' else ''workspace''),
       we_entityId = or_else (optionalTrimmedText (wi_entityId inp)) (or_else (wi_sessionId inp) (wi_userId inp)),
       we_operation = or_else (optionalTrimmedText (wi_operation inp)) (workspaceOperationFromType (wi_type inp)),
       we_projectionVersion = finite_version (wi_projectionVersion inp) sequence,
       we_type = wi_type inp, we_payload = coalesce (wi_payload inp) (JObj []), we_createdAt = nowIso e (wi_createdAt inp) \<rparr>"

definition workspace_event_id :: "workspace_event_input \<Rightarrow> int \<Rightarrow> string" where
  "workspace_event_id inp sequence = or_else (wi_eventId inp) (wi_userId inp @ '':'' @ show_int sequence)"

text \<open>Same content: what an append with an event id already in the log is compared on.\<close>

definition workspace_same :: "env \<Rightarrow> workspace_event_input \<Rightarrow> workspace_event \<Rightarrow> workspace_event \<Rightarrow> bool" where
  "workspace_same e inp existing event =
     (we_type existing = we_type event
      \<and> stableJson (locale_compare e) (we_payload existing) = stableJson (locale_compare e) (we_payload event)
      \<and> we_sessionId existing = we_sessionId event
      \<and> we_entityType existing = we_entityType event \<and> we_entityId existing = we_entityId event
      \<and> we_operation existing = we_operation event
      \<and> we_projectionVersion existing = finite_version (wi_projectionVersion inp) (we_projectionVersion existing))"

definition appendWorkspaceEvent ::
  "env \<Rightarrow> workspace_event_input \<Rightarrow> 'a workspace_store_scheme \<Rightarrow> ('a workspace_store_scheme, workspace_event) outcome" where
  "appendWorkspaceEvent e inp s =
     try_in s (requireTenantUser s (wi_tenantId inp) (wi_userId inp)) (\<lambda>_.
     try_in s (case or_null (wi_sessionId inp) of
                 Some sid \<Rightarrow> assertSessionBelongsToUser s (wi_tenantId inp) sid (wi_userId inp) | None \<Rightarrow> Inr ()) (\<lambda>_.
       let lg = workspace_log_of s (wi_tenantId inp) (wi_userId inp);
           sequence = wsl_nextSequence lg + 1;
           eventId = workspace_event_id inp sequence;
           event = workspace_event_of e inp eventId sequence
       in case find (\<lambda>ev. we_eventId ev = eventId) (wsl_events lg) of
            Some existing \<Rightarrow>
              if \<not> workspace_same e inp existing event
              then (Inl (Error (''Workspace event id '' @ eventId @ '' was reused with different content.'')), s)
              else (Inr existing, s)
          | None \<Rightarrow>
              (Inr event, s\<lparr> workspaceEvents := map_set (workspace_key (wi_tenantId inp) (wi_userId inp))
                 \<lparr> wsl_nextSequence = sequence, wsl_events = wsl_events lg @ [event] \<rparr> (workspaceEvents s) \<rparr>)))"

definition findWorkspaceEvent :: "'a workspace_store_scheme \<Rightarrow> string \<Rightarrow> string \<Rightarrow> string \<Rightarrow> workspace_event option" where
  "findWorkspaceEvent s tenantId userId eventId =
     find (\<lambda>ev. we_eventId ev = eventId) (wsl_events (workspace_log_of s tenantId userId))"

definition listWorkspaceEventsForStream ::
  "'a workspace_store_scheme \<Rightarrow> string \<Rightarrow> string \<Rightarrow> int \<Rightarrow> jsnum option \<Rightarrow> workspace_event list" where
  "listWorkspaceEventsForStream s tenantId userId afterSequence limit =
     sliceEventsAfter we_sequence (wsl_events (workspace_log_of s tenantId userId)) afterSequence limit"

definition listWorkspaceEvents ::
  "'a workspace_store_scheme \<Rightarrow> string \<Rightarrow> string \<Rightarrow> int \<Rightarrow> jsnum option \<Rightarrow> error + workspace_event list" where
  "listWorkspaceEvents s tenantId userId afterSequence limit =
     try_pure (requireTenantUser s tenantId userId) (\<lambda>_.
       Inr (sliceEventsAfter we_sequence (wsl_events (workspace_log_of s tenantId userId)) afterSequence limit))"

definition workspaceEventCursor :: "workspace_event list \<Rightarrow> workspace_cursor" where
  "workspaceEventCursor events =
     \<lparr> wc_earliestSequence = (case events of [] \<Rightarrow> None | ev # _ \<Rightarrow> Some (we_sequence ev)),
       wc_latestSequence = (if events = [] then 0 else we_sequence (last events)) \<rparr>"

definition getWorkspaceEventCursor :: "'a workspace_store_scheme \<Rightarrow> string \<Rightarrow> string \<Rightarrow> error + workspace_cursor" where
  "getWorkspaceEventCursor s tenantId userId =
     try_pure (requireTenantUser s tenantId userId) (\<lambda>_.
       Inr (workspaceEventCursor (wsl_events (workspace_log_of s tenantId userId))))"

definition snapshotWorkspaceEvents :: "'a workspace_store_scheme \<Rightarrow> workspace_log jsmap" where
  "snapshotWorkspaceEvents s = workspaceEvents s"

definition restoreWorkspaceEvents :: "workspace_log jsmap \<Rightarrow> 'a workspace_store_scheme \<Rightarrow> 'a workspace_store_scheme" where
  "restoreWorkspaceEvents snapshot s = s\<lparr> workspaceEvents := snapshot \<rparr>"

definition stale_workspace_events :: "workspace_log jsmap \<Rightarrow> iso \<Rightarrow> jsnum \<Rightarrow> (string \<times> workspace_event) list" where
  "stale_workspace_events logs cutoff limit =
     js_slice (js_sort (cmp_by (\<lambda>p. we_createdAt (snd p)) cmp_int)
       (filter (\<lambda>p. we_createdAt (snd p) < cutoff)
         (concat (map (\<lambda>(k, lg). map (\<lambda>ev. (k, ev)) (wsl_events lg)) logs)))) limit"

definition pruneExpiredWorkspaceEvents ::
  "iso \<Rightarrow> jsnum \<Rightarrow> 'a workspace_store_scheme \<Rightarrow> int \<times> 'a workspace_store_scheme" where
  "pruneExpiredWorkspaceEvents olderThan limitIn s =
     (let limit = js_max 1 (js_min 10000 (js_floor limitIn));
          stale = stale_workspace_events (workspaceEvents s) olderThan limit
      in (int (length stale),
          s\<lparr> workspaceEvents := map (\<lambda>(k, lg).
            (k, lg\<lparr> wsl_events := filter (\<lambda>ev. \<not> (\<exists>p \<in> set stale. fst p = k \<and> we_eventId (snd p) = we_eventId ev)) (wsl_events lg) \<rparr>))
            (workspaceEvents s) \<rparr>))"


section \<open>The log invariant\<close>

definition workspace_log_ok :: "workspace_log \<Rightarrow> bool" where
  "workspace_log_ok lg =
     (sorted_wrt (\<lambda>x y. we_sequence x < we_sequence y) (wsl_events lg)
      \<and> list_all (\<lambda>ev. 0 < we_sequence ev \<and> we_sequence ev \<le> wsl_nextSequence lg) (wsl_events lg)
      \<and> distinct (map we_eventId (wsl_events lg)) \<and> 0 \<le> wsl_nextSequence lg)"

definition workspace_ok :: "'a workspace_store_scheme \<Rightarrow> bool" where
  "workspace_ok s = (map_ok (workspaceEvents s) \<and> (\<forall>k lg. map_get (workspaceEvents s) k = Some lg \<longrightarrow> workspace_log_ok lg))"

lemma workspace_log_ok_empty [simp]: "workspace_log_ok \<lparr> wsl_nextSequence = 0, wsl_events = [] \<rparr>"
  by (simp add: workspace_log_ok_def)

lemma workspace_log_of_ok: "workspace_ok s \<Longrightarrow> workspace_log_ok (workspace_log_of s t u)"
  by (auto simp: workspace_ok_def workspace_log_of_def coalesce_def split: option.splits)

lemma workspace_log_ok_append:
  assumes "workspace_log_ok lg" "we_eventId ev \<notin> we_eventId ` set (wsl_events lg)" "we_sequence ev = wsl_nextSequence lg + 1"
  shows "workspace_log_ok \<lparr> wsl_nextSequence = wsl_nextSequence lg + 1, wsl_events = wsl_events lg @ [ev] \<rparr>"
  using assms by (auto simp: workspace_log_ok_def sorted_wrt_append list_all_iff)

text \<open>Every outcome of an append.\<close>

lemma appendWorkspaceEvent_cases:
  assumes "appendWorkspaceEvent e inp s = (r, s')"
  obtains (error) er where "r = Inl er" "s' = s"
  | (existing) ev where "r = Inr ev" "s' = s" "ev \<in> set (wsl_events (workspace_log_of s (wi_tenantId inp) (wi_userId inp)))"
      "we_eventId ev = workspace_event_id inp (wsl_nextSequence (workspace_log_of s (wi_tenantId inp) (wi_userId inp)) + 1)"
  | (appended) lg seq where "lg = workspace_log_of s (wi_tenantId inp) (wi_userId inp)" "seq = wsl_nextSequence lg + 1"
      "r = Inr (workspace_event_of e inp (workspace_event_id inp seq) seq)"
      "workspace_event_id inp seq \<notin> we_eventId ` set (wsl_events lg)"
      "s' = s\<lparr> workspaceEvents := map_set (workspace_key (wi_tenantId inp) (wi_userId inp))
         \<lparr> wsl_nextSequence = seq, wsl_events = wsl_events lg @ [workspace_event_of e inp (workspace_event_id inp seq) seq] \<rparr> (workspaceEvents s) \<rparr>"
proof -
  define lg where "lg = workspace_log_of s (wi_tenantId inp) (wi_userId inp)"
  define seq where "seq = wsl_nextSequence lg + 1"
  define eid where "eid = workspace_event_id inp seq"
  note d = lg_def seq_def eid_def
  show thesis
  proof (cases "(\<exists>u. requireTenantUser s (wi_tenantId inp) (wi_userId inp) = Inr u)
      \<and> (case or_null (wi_sessionId inp) of Some sid \<Rightarrow> assertSessionBelongsToUser s (wi_tenantId inp) sid (wi_userId inp) | None \<Rightarrow> Inr ()) = Inr ()")
    case False
    then have "\<exists>er. r = Inl er \<and> s' = s" using assms
      by (auto simp: appendWorkspaceEvent_def try_in_def split: sum.splits)
    then show thesis using error by blast
  next
    case True
    then have run: "appendWorkspaceEvent e inp s = (case find (\<lambda>ev. we_eventId ev = eid) (wsl_events lg) of
            Some ex \<Rightarrow>
              if \<not> workspace_same e inp ex (workspace_event_of e inp eid seq)
              then (Inl (Error (''Workspace event id '' @ eid @ '' was reused with different content.'')), s)
              else (Inr ex, s)
          | None \<Rightarrow>
              (Inr (workspace_event_of e inp eid seq), s\<lparr> workspaceEvents := map_set (workspace_key (wi_tenantId inp) (wi_userId inp))
                 \<lparr> wsl_nextSequence = seq, wsl_events = wsl_events lg @ [workspace_event_of e inp eid seq] \<rparr> (workspaceEvents s) \<rparr>))"
      unfolding appendWorkspaceEvent_def Let_def d by (auto simp: try_in_def)
    show thesis
    proof (cases "find (\<lambda>ev. we_eventId ev = eid) (wsl_events lg)")
      case None
      then have "eid \<notin> we_eventId ` set (wsl_events lg)" by (auto simp: find_None_iff)
      then show thesis using run None assms appended [of lg seq] by (simp add: d)
    next
      case (Some ex)
      then have "ex \<in> set (wsl_events lg)" "we_eventId ex = eid" by (auto simp: find_Some_iff)
      then show thesis using run Some assms existing [of ex] error by (auto simp: d split: if_splits)
    qed
  qed
qed

lemma appendWorkspaceEvent_ok:
  assumes ok: "workspace_ok s" and run: "appendWorkspaceEvent e inp s = (r, s')"
  shows "workspace_ok s'"
  using run
proof (cases rule: appendWorkspaceEvent_cases)
  case (appended lg seq)
  then have "workspace_log_ok \<lparr> wsl_nextSequence = seq, wsl_events = wsl_events lg @ [workspace_event_of e inp (workspace_event_id inp seq) seq] \<rparr>"
    using workspace_log_ok_append [of lg "workspace_event_of e inp (workspace_event_id inp seq) seq"] workspace_log_of_ok [OF ok]
    by (simp add: workspace_event_of_def)
  then show ?thesis using ok appended(5) by (simp add: workspace_ok_def)
qed (use ok in simp_all)

lemma workspace_log_ok_filter: "workspace_log_ok lg \<Longrightarrow> workspace_log_ok (lg\<lparr> wsl_events := filter P (wsl_events lg) \<rparr>)"
  by (auto simp: workspace_log_ok_def sorted_wrt_filter list_all_iff distinct_map_filter)

lemma map_get_map: "map_get (map (\<lambda>(k, v). (k, f k v)) m) k = map_option (f k) (map_get m k)"
  by (induction m) (auto simp: map_get_def)

lemma map_ok_map: "map_ok (map (\<lambda>(k, v). (k, f k v)) m) = map_ok m"
  by (simp add: map_ok_def comp_def case_prod_unfold)

lemma prune_workspace_ok:
  assumes "workspace_ok s" "pruneExpiredWorkspaceEvents cutoff l s = (n, s')"
  shows "workspace_ok s'"
proof -
  define P :: "string \<Rightarrow> workspace_event \<Rightarrow> bool" where "P = (\<lambda>k ev. \<not> (\<exists>p \<in> set (stale_workspace_events (workspaceEvents s) cutoff (js_max 1 (js_min 10000 (js_floor l)))).
     fst p = k \<and> we_eventId (snd p) = we_eventId ev))"
  have "s' = s\<lparr> workspaceEvents := map (\<lambda>(k, lg). (k, lg\<lparr> wsl_events := filter (P k) (wsl_events lg) \<rparr>)) (workspaceEvents s) \<rparr>"
    using assms(2) unfolding pruneExpiredWorkspaceEvents_def Let_def P_def by simp
  then show ?thesis using assms(1)
    by (auto simp: workspace_ok_def map_get_map [of "\<lambda>k lg. lg\<lparr> wsl_events := filter (P k) (wsl_events lg) \<rparr>"]
        map_ok_map [of "\<lambda>k lg. lg\<lparr> wsl_events := filter (P k) (wsl_events lg) \<rparr>"] intro: workspace_log_ok_filter)
qed

lemma workspace_replay_resume:
  assumes "workspace_ok s" "0 < n" "page = listWorkspaceEventsForStream s t u a (Some (JInt n))" "page \<noteq> []"
  shows "page @ listWorkspaceEventsForStream s t u (we_sequence (last page)) None = listWorkspaceEventsForStream s t u a None"
  using assms workspace_log_of_ok [OF assms(1), of t u]
  by (simp add: listWorkspaceEventsForStream_def workspace_log_ok_def sliceEventsAfter_resume)

end
