(* ===== verification/Workflow_Store.thy ===== *)
theory Workflow_Store
  imports Workspace_Log
begin

text \<open>
  Workflows and workflow runs (\<open>in-memory-domains/workflows.ts\<close>): authoring, webhook secrets, and the
  run lifecycle of create, scheduled claim, claim reaping, session attachment, completion and
  failure.

  A run object is reachable from two places, the \<open>runs\<close> array of its workflow and the \<open>workflowRuns\<close>
  map, and a mutation through one is seen through the other. Runs therefore live in a heap
  \<open>runHeap\<close>, both places hold references (indices), and \<open>restore\<close>, which clones the two places
  separately, allocates separate objects for them.
\<close>


section \<open>Records\<close>

datatype workflow_status = WActive | WPaused | WRunning | WFailed | WArchived

datatype run_status = RQueued | RRunning | RCompleted | RFailed | RCancelled

datatype trigger_type = TManual | TSchedule | TWebhook

datatype secret_status = SecretActive | SecretRevoked

text \<open>\<open>webhookSecret\<close> is not part of the declared type; \<open>publicWorkflowTrigger\<close> removes it when present.\<close>

record workflow_trigger =
  wt_id :: string
  wt_type :: trigger_type
  wt_enabled :: bool
  wt_schedule :: "json option"
  wt_webhookSecret :: "json option"

record workflow_draft =
  wd_title :: string
  wd_instructions :: string
  wd_agentName :: string
  wd_skillNames :: "string list option"
  wd_toolIds :: "string list option"
  wd_steps :: "json list option"
  wd_projectDirectory :: "string option"
  wd_draftSessionId :: "string option"
  wd_triggers :: "workflow_trigger list"

record workflow_record =
  wf_tenantId :: string
  wf_userId :: string
  wf_id :: string
  wf_title :: string
  wf_instructions :: string
  wf_agentName :: string
  wf_skillNames :: "string list"
  wf_toolIds :: "string list"
  wf_steps :: "workflow_step list"
  wf_status :: workflow_status
  wf_projectDirectory :: "string option"
  wf_draftSessionId :: "string option"
  wf_triggers :: "workflow_trigger list"
  wf_createdAt :: iso
  wf_updatedAt :: iso
  wf_nextRunAt :: "iso option"
  wf_lastRunAt :: "iso option"
  wf_latestRunId :: "string option"
  wf_latestRunStatus :: "run_status option"
  wf_latestRunSessionId :: "string option"
  wf_latestRunSummary :: "string option"
  wf_webhookUrl :: "string option"

record run_record =
  rn_tenantId :: string
  rn_userId :: string
  rn_id :: string
  rn_workflowId :: string
  rn_sessionId :: "string option"
  rn_triggerType :: trigger_type
  rn_triggerPayload :: "json option"
  rn_status :: run_status
  rn_title :: string
  rn_summary :: "string option"
  rn_error :: "string option"
  rn_createdAt :: iso
  rn_startedAt :: "iso option"
  rn_finishedAt :: "iso option"
  rn_claimedBy :: "string option"
  rn_claimToken :: "string option"
  rn_claimExpiresAt :: "iso option"
  rn_attemptCount :: int
  rn_idempotencyKey :: "string option"
  rn_checkpointVersion :: int
  rn_lastErrorCode :: "string option"
  rn_lastErrorSummary :: "string option"

record webhook_secret =
  ws_tenantId :: string
  ws_workflowId :: string
  ws_triggerId :: string
  ws_ciphertext :: string
  ws_envelopeVersion :: int
  ws_status :: secret_status
  ws_createdAt :: iso
  ws_updatedAt :: iso

record legacy_webhook_secret =
  lw_tenantId :: string
  lw_workflowId :: string
  lw_triggerId :: string
  lw_plaintext :: string
  lw_updatedAt :: iso

record workflow_state =
  wst_record :: workflow_record
  wst_runs :: "nat list"

record workflow_store = workspace_store +
  workflows :: "workflow_state jsmap"
  runHeap :: "run_record list"
  workflowRuns :: "nat jsmap"
  workflowWebhookSecrets :: "webhook_secret jsmap"
  legacyWorkflowWebhookSecrets :: "legacy_webhook_secret jsmap"

record workflows_snapshot =
  sn_workflows :: "(string \<times> workflow_record \<times> run_record list) list"
  sn_workflowRuns :: "(string \<times> run_record) list"
  sn_webhookSecrets :: "webhook_secret jsmap"
  sn_legacySecrets :: "legacy_webhook_secret jsmap"

record secret_input =
  si_triggerId :: string
  si_ciphertext :: string
  si_envelopeVersion :: int

record workflow_input =
  wfi_tenantId :: string
  wfi_userId :: string
  wfi_workflowId :: string
  wfi_draft :: workflow_draft
  wfi_webhookSecrets :: "secret_input list option"
  wfi_nextRunAt :: "iso option"
  wfi_createdAt :: "iso option"

record run_input =
  ri_tenantId :: string
  ri_userId :: string
  ri_workflowId :: string
  ri_runId :: string
  ri_sessionId :: "string option"
  ri_triggerType :: trigger_type
  ri_triggerPayload :: "json option"
  ri_claimedBy :: "string option"
  ri_leaseTtlMs :: "int option"
  ri_createdAt :: "iso option"
  ri_quota :: "workflow_run_quota option"

record claim_due_input =
  cd_runId :: string
  cd_sessionId :: "string option"
  cd_claimedBy :: "string option"
  cd_leaseTtlMs :: "int option"
  cd_now :: "iso option"
  cd_quota :: "workflow_run_quota option"

record attach_input =
  at_tenantId :: string
  at_workflowId :: string
  at_runId :: string
  at_sessionId :: string
  at_claimToken :: "string option"
  at_startedAt :: "iso option"

record complete_run_input =
  cri_tenantId :: string
  cri_workflowId :: string
  cri_runId :: string
  cri_summary :: "string option"
  cri_nextStatus :: workflow_status
  cri_nextRunAt :: "iso option"
  cri_leaseToken :: "string option option"
  cri_finishedAt :: "iso option"

record fail_run_input =
  fri_tenantId :: string
  fri_workflowId :: string
  fri_runId :: string
  fri_error :: string
  fri_nextStatus :: workflow_status
  fri_nextRunAt :: "iso option"
  fri_leaseToken :: "string option option"
  fri_finishedAt :: "iso option"

record workflow_status_input =
  wsi_tenantId :: string
  wsi_userId :: string
  wsi_workflowId :: string
  wsi_status :: workflow_status
  wsi_nextRunAt :: "iso option"
  wsi_updatedAt :: "iso option"

record rotate_secret_input =
  rsi_tenantId :: string
  rsi_userId :: string
  rsi_workflowId :: string
  rsi_triggerId :: string
  rsi_ciphertext :: string
  rsi_envelopeVersion :: int
  rsi_updatedAt :: "iso option"

record migrate_secret_input =
  msi_tenantId :: string
  msi_workflowId :: string
  msi_triggerId :: string
  msi_expectedPlaintext :: string
  msi_expectedExistingCiphertext :: "string option"
  msi_expectedExistingEnvelopeVersion :: "int option"
  msi_ciphertext :: string
  msi_envelopeVersion :: int
  msi_migratedAt :: "iso option"

record reaped_claim =
  rp_tenantId :: string
  rp_workflowId :: string
  rp_runId :: string
  rp_claimToken :: string
  rp_claimedBy :: string
  rp_action :: reaper_action
  rp_reapedAt :: iso

record workflow_page =
  wp_items :: "workflow_record list"
  wp_nextCursor :: "(iso \<times> string) option"
  wp_totalEstimate :: int


section \<open>Helpers\<close>

definition publicWorkflowTrigger :: "workflow_trigger \<Rightarrow> workflow_trigger" where
  "publicWorkflowTrigger t = t\<lparr> wt_webhookSecret := None \<rparr>"

definition workflowRunSessionId :: "env \<Rightarrow> string \<Rightarrow> string \<Rightarrow> string \<Rightarrow> string" where
  "workflowRunSessionId e tenantId workflowId runId = stableId e ''workflow_session'' [tenantId, workflowId, runId]"

definition createWorkClaimToken :: "env \<Rightarrow> string \<Rightarrow> string \<Rightarrow> string \<Rightarrow> string" where
  "createWorkClaimToken e tenantId workId claimedBy = stableId e ''claim'' [tenantId, workId, claimedBy, random_text e]"

definition WORKFLOW_RUN_LIST_LIMIT :: int where "WORKFLOW_RUN_LIST_LIMIT = 100"
definition WORKFLOW_LIST_LIMIT :: int where "WORKFLOW_LIST_LIMIT = 500"

text \<open>\<open>value?.trim() || null\<close>\<close>

definition trimmed_or_null :: "string option \<Rightarrow> string option" where
  "trimmed_or_null v = or_null (map_option js_trim v)"

definition run_terminal :: "run_status \<Rightarrow> bool" where
  "run_terminal st = (st = RCompleted \<or> st = RFailed \<or> st = RCancelled)"

definition requireWorkflow :: "'a workflow_store_scheme \<Rightarrow> string \<Rightarrow> string \<Rightarrow> error + workflow_state" where
  "requireWorkflow s tenantId workflowId =
     try_pure (requireTenant s tenantId) (\<lambda>_.
       case map_get (workflows s) (key [tenantId, workflowId]) of
         Some w \<Rightarrow> Inr w
       | None \<Rightarrow> Inl (Error (''Unknown workflow '' @ workflowId @ ''.'')))"

definition assertWorkflowRunnable :: "workflow_record \<Rightarrow> error + unit" where
  "assertWorkflowRunnable w =
     (if wf_status w = WArchived then Inl (Error ''Archived workflows cannot run.'')
      else if wf_status w = WPaused then Inl (Error ''Paused workflows cannot run.'')
      else if wf_status w = WRunning then Inl (Error ''Workflow is already running.'')
      else Inr ())"

text \<open>The run object behind the \<open>workflowRuns\<close> entry of a key, and mutation of an object.\<close>

definition lookup_run :: "'a workflow_store_scheme \<Rightarrow> string \<Rightarrow> (nat \<times> run_record) option" where
  "lookup_run s k = map_option (\<lambda>r. (r, runHeap s ! r)) (map_get (workflowRuns s) k)"

definition put_run :: "nat \<Rightarrow> run_record \<Rightarrow> 'a workflow_store_scheme \<Rightarrow> 'a workflow_store_scheme" where
  "put_run r run s = s\<lparr> runHeap := (runHeap s)[r := run] \<rparr>"

definition put_workflow :: "string \<Rightarrow> workflow_state \<Rightarrow> 'a workflow_store_scheme \<Rightarrow> 'a workflow_store_scheme" where
  "put_workflow k w s = s\<lparr> workflows := map_set k w (workflows s) \<rparr>"

text \<open>A new run object: pushed to its workflow's array and registered under its key.\<close>

definition add_run :: "string \<Rightarrow> workflow_state \<Rightarrow> run_record \<Rightarrow> 'a workflow_store_scheme \<Rightarrow> 'a workflow_store_scheme" where
  "add_run wkey w run s =
     (let r = length (runHeap s) in
      s\<lparr> runHeap := runHeap s @ [run],
         workflowRuns := map_set (key [rn_tenantId run, rn_id run]) r (workflowRuns s),
         workflows := map_set wkey (w\<lparr> wst_runs := wst_runs w @ [r] \<rparr>) (workflows s) \<rparr>)"

text \<open>The assignments to the workflow record that follow a run's change.\<close>

definition note_latest_run :: "run_record \<Rightarrow> iso \<Rightarrow> workflow_record \<Rightarrow> workflow_record" where
  "note_latest_run run updatedAt w =
     w\<lparr> wf_status := WRunning, wf_latestRunId := Some (rn_id run), wf_latestRunStatus := Some (rn_status run),
        wf_latestRunSessionId := rn_sessionId run, wf_updatedAt := updatedAt \<rparr>"

definition run_quota_snapshot :: "'a workflow_store_scheme \<Rightarrow> (string \<times> bool) list" where
  "run_quota_snapshot s =
     map (\<lambda>r. (rn_tenantId (runHeap s ! r), rn_status (runHeap s ! r) = RQueued \<or> rn_status (runHeap s ! r) = RRunning))
       (map_values (workflowRuns s))"


section \<open>Authoring\<close>

definition snapshotWorkflows :: "'a workflow_store_scheme \<Rightarrow> workflows_snapshot" where
  "snapshotWorkflows s =
     \<lparr> sn_workflows = map (\<lambda>(k, w). (k, wst_record w, map (\<lambda>r. runHeap s ! r) (wst_runs w))) (workflows s),
       sn_workflowRuns = map (\<lambda>(k, r). (k, runHeap s ! r)) (workflowRuns s),
       sn_webhookSecrets = workflowWebhookSecrets s, sn_legacySecrets = legacyWorkflowWebhookSecrets s \<rparr>"

fun alloc_workflows :: "nat \<Rightarrow> (string \<times> workflow_record \<times> run_record list) list \<Rightarrow> workflow_state jsmap" where
  "alloc_workflows n [] = []"
| "alloc_workflows n ((k, w, runs) # rest) =
     (k, \<lparr> wst_record = w, wst_runs = [n..<n + length runs] \<rparr>) # alloc_workflows (n + length runs) rest"

definition restoreWorkflows :: "workflows_snapshot \<Rightarrow> 'a workflow_store_scheme \<Rightarrow> 'a workflow_store_scheme" where
  "restoreWorkflows snap s =
     (let base = length (runHeap s); own = concat (map (\<lambda>(k, w, runs). runs) (sn_workflows snap)) in
      s\<lparr> workflows := alloc_workflows base (sn_workflows snap),
         workflowRuns := map2 (\<lambda>(k, run) r. (k, r)) (sn_workflowRuns snap)
           [base + length own..<base + length own + length (sn_workflowRuns snap)],
         runHeap := runHeap s @ own @ map snd (sn_workflowRuns snap),
         workflowWebhookSecrets := sn_webhookSecrets snap, legacyWorkflowWebhookSecrets := sn_legacySecrets snap \<rparr>)"

definition createWorkflow ::
  "env \<Rightarrow> workflow_input \<Rightarrow> 'a workflow_store_scheme \<Rightarrow> ('a workflow_store_scheme, workflow_record) outcome" where
  "createWorkflow e inp s =
     try_in s (requireTenantUser s (wfi_tenantId inp) (wfi_userId inp)) (\<lambda>_.
       let workflowKey = key [wfi_tenantId inp, wfi_workflowId inp] in
       case map_get (workflows s) workflowKey of
         Some existing \<Rightarrow>
           if wf_userId (wst_record existing) \<noteq> wfi_userId inp
           then (Inl (Error (''Unknown workflow '' @ wfi_workflowId inp @ ''.'')), s)
           else (Inr (wst_record existing), s)
       | None \<Rightarrow>
           let createdAt = nowIso e (wfi_createdAt inp); draft = wfi_draft inp;
               record = \<lparr> wf_tenantId = wfi_tenantId inp, wf_userId = wfi_userId inp, wf_id = wfi_workflowId inp,
                 wf_title = wd_title draft, wf_instructions = wd_instructions draft, wf_agentName = wd_agentName draft,
                 wf_skillNames = coalesce (wd_skillNames draft) [], wf_toolIds = coalesce (wd_toolIds draft) [],
                 wf_steps = normalizeWorkflowSteps (wd_steps draft) (Some (wd_instructions draft)) (Some (wd_agentName draft))
                   (wd_skillNames draft) (wd_toolIds draft),
                 wf_status = WActive, wf_projectDirectory = or_null (wd_projectDirectory draft),
                 wf_draftSessionId = or_null (wd_draftSessionId draft),
                 wf_triggers = map publicWorkflowTrigger (wd_triggers draft),
                 wf_createdAt = createdAt, wf_updatedAt = createdAt, wf_nextRunAt = wfi_nextRunAt inp,
                 wf_lastRunAt = None, wf_latestRunId = None, wf_latestRunStatus = None, wf_latestRunSessionId = None,
                 wf_latestRunSummary = None, wf_webhookUrl = None \<rparr>;
               secrets = fold (\<lambda>si m. map_set (key [wfi_tenantId inp, wfi_workflowId inp, si_triggerId si])
                   \<lparr> ws_tenantId = wfi_tenantId inp, ws_workflowId = wfi_workflowId inp, ws_triggerId = si_triggerId si,
                     ws_ciphertext = si_ciphertext si, ws_envelopeVersion = si_envelopeVersion si, ws_status = SecretActive,
                     ws_createdAt = createdAt, ws_updatedAt = createdAt \<rparr> m)
                 (coalesce (wfi_webhookSecrets inp) []) (workflowWebhookSecrets s)
           in (Inr record, s\<lparr> workflows := map_set workflowKey \<lparr> wst_record = record, wst_runs = [] \<rparr> (workflows s),
                 workflowWebhookSecrets := secrets \<rparr>))"

definition findWorkflow :: "env \<Rightarrow> 'a workflow_store_scheme \<Rightarrow> string \<Rightarrow> workflow_record option" where
  "findWorkflow e s workflowId =
     (case js_sort (cmp_then (cmp_rev (cmp_by wf_updatedAt cmp_int)) (cmp_by wf_tenantId (locale_compare e)))
        (filter (\<lambda>w. wf_id w = workflowId) (map wst_record (map_values (workflows s)))) of
        [] \<Rightarrow> None | w # _ \<Rightarrow> Some w)"

text \<open>The cursor is the decoded (\<open>updatedAt\<close>, \<open>workflowId\<close>) pair.\<close>

definition listWorkflowsPage ::
  "env \<Rightarrow> 'a workflow_store_scheme \<Rightarrow> string \<Rightarrow> string \<Rightarrow> int option \<Rightarrow> (iso \<times> string) option \<Rightarrow> error + workflow_page" where
  "listWorkflowsPage e s tenantId userId limitIn cursor =
     try_pure (requireTenantUser s tenantId userId) (\<lambda>_.
       let limit = max 1 (min WORKFLOW_LIST_LIMIT (coalesce limitIn 100));
           filtered = filter (\<lambda>w. case cursor of None \<Rightarrow> True
               | Some c \<Rightarrow> wf_updatedAt w < fst c \<or> (wf_updatedAt w = fst c \<and> str_less (snd c) (wf_id w)))
             (js_sort (cmp_then (cmp_rev (cmp_by wf_updatedAt cmp_int)) (cmp_by wf_id (locale_compare e)))
               (filter (\<lambda>w. wf_tenantId w = tenantId \<and> wf_userId w = userId) (map wst_record (map_values (workflows s)))));
           page = slice_int filtered limit;
           hasMore = int (length filtered) > limit
       in Inr \<lparr> wp_items = page,
            wp_nextCursor = (if hasMore \<and> page \<noteq> [] then Some (wf_updatedAt (last page), wf_id (last page)) else None),
            wp_totalEstimate = (if hasMore then limit + 1 else int (length filtered)) \<rparr>)"

definition listWorkflows :: "env \<Rightarrow> 'a workflow_store_scheme \<Rightarrow> string \<Rightarrow> string \<Rightarrow> error + workflow_record list" where
  "listWorkflows e s tenantId userId =
     try_pure (listWorkflowsPage e s tenantId userId (Some WORKFLOW_LIST_LIMIT) None) (\<lambda>p. Inr (wp_items p))"

definition getWorkflow :: "'a workflow_store_scheme \<Rightarrow> string \<Rightarrow> string \<Rightarrow> string \<Rightarrow> error + workflow_record option" where
  "getWorkflow s tenantId userId workflowId =
     try_pure (requireTenantUser s tenantId userId) (\<lambda>_.
       Inr (case map_get (workflows s) (key [tenantId, workflowId]) of
              Some w \<Rightarrow> (if wf_userId (wst_record w) \<noteq> userId then None else Some (wst_record w)) | None \<Rightarrow> None))"

definition getWorkflowForTenant :: "'a workflow_store_scheme \<Rightarrow> string \<Rightarrow> string \<Rightarrow> error + workflow_record option" where
  "getWorkflowForTenant s tenantId workflowId =
     try_pure (requireTenant s tenantId) (\<lambda>_.
       Inr (map_option wst_record (map_get (workflows s) (key [tenantId, workflowId]))))"

definition webhook_trigger_ids :: "workflow_record \<Rightarrow> string list" where
  "webhook_trigger_ids w = map wt_id (filter (\<lambda>t. wt_type t = TWebhook) (wf_triggers w))"

definition secret_of_workflow :: "string \<Rightarrow> string \<Rightarrow> string list \<Rightarrow> webhook_secret \<Rightarrow> bool" where
  "secret_of_workflow tenantId workflowId triggerIds sec =
     (ws_tenantId sec = tenantId \<and> ws_workflowId sec = workflowId \<and> ws_triggerId sec \<in> set triggerIds \<and> ws_status sec = SecretActive)"

definition updateWorkflowStatus ::
  "env \<Rightarrow> workflow_status_input \<Rightarrow> 'a workflow_store_scheme \<Rightarrow> ('a workflow_store_scheme, workflow_record option) outcome" where
  "updateWorkflowStatus e inp s =
     try_in s (requireTenantUser s (wsi_tenantId inp) (wsi_userId inp)) (\<lambda>_.
       let wkey = key [wsi_tenantId inp, wsi_workflowId inp] in
       case map_get (workflows s) wkey of
         None \<Rightarrow> (Inr None, s)
       | Some w \<Rightarrow>
           if wf_userId (wst_record w) \<noteq> wsi_userId inp then (Inr None, s)
           else
             let ids = webhook_trigger_ids (wst_record w);
                 mine = secret_of_workflow (wsi_tenantId inp) (wsi_workflowId inp) ids
             in if wsi_status inp = WActive \<and> ids \<noteq> [] \<and> \<not> list_ex mine (map_values (workflowWebhookSecrets s))
                then (Inr None, s)
                else
                  let updatedAt = nowIso e (wsi_updatedAt inp);
                      s1 = (if wsi_status inp = WArchived
                        then s\<lparr> workflowWebhookSecrets := map (\<lambda>(k, sec).
                                 (k, if mine sec then sec\<lparr> ws_status := SecretRevoked, ws_updatedAt := updatedAt \<rparr> else sec))
                               (workflowWebhookSecrets s),
                               legacyWorkflowWebhookSecrets := filter (\<lambda>(k, sec).
                                 \<not> (lw_tenantId sec = wsi_tenantId inp \<and> lw_workflowId sec = wsi_workflowId inp))
                               (legacyWorkflowWebhookSecrets s) \<rparr>
                        else s);
                      record = (wst_record w)\<lparr> wf_status := wsi_status inp, wf_nextRunAt := wsi_nextRunAt inp, wf_updatedAt := updatedAt \<rparr>
                  in (Inr (Some record), put_workflow wkey (w\<lparr> wst_record := record \<rparr>) s1))"

definition getWorkflowWebhookSecret ::
  "env \<Rightarrow> 'a workflow_store_scheme \<Rightarrow> string \<Rightarrow> string \<Rightarrow> string option \<Rightarrow> webhook_secret option" where
  "getWorkflowWebhookSecret e s tenantId workflowId triggerId =
     (case js_sort (cmp_then (cmp_rev (cmp_by ws_updatedAt cmp_int)) (cmp_by ws_triggerId (locale_compare e)))
        (filter (\<lambda>sec. ws_tenantId sec = tenantId \<and> ws_workflowId sec = workflowId
           \<and> (case or_null triggerId of None \<Rightarrow> True | Some t \<Rightarrow> ws_triggerId sec = t)) (map_values (workflowWebhookSecrets s))) of
        [] \<Rightarrow> None | sec # _ \<Rightarrow> Some sec)"

definition rotateWorkflowWebhookSecret ::
  "env \<Rightarrow> rotate_secret_input \<Rightarrow> 'a workflow_store_scheme \<Rightarrow> ('a workflow_store_scheme, webhook_secret option) outcome" where
  "rotateWorkflowWebhookSecret e inp s =
     try_in s (requireTenantUser s (rsi_tenantId inp) (rsi_userId inp)) (\<lambda>_.
       let wkey = key [rsi_tenantId inp, rsi_workflowId inp] in
       case map_get (workflows s) wkey of
         None \<Rightarrow> (Inr None, s)
       | Some w \<Rightarrow>
           if wf_userId (wst_record w) \<noteq> rsi_userId inp \<or> rsi_triggerId inp \<notin> set (webhook_trigger_ids (wst_record w))
           then (Inr None, s)
           else
             let secretKey = key [rsi_tenantId inp, rsi_workflowId inp, rsi_triggerId inp];
                 updatedAt = nowIso e (rsi_updatedAt inp);
                 next = \<lparr> ws_tenantId = rsi_tenantId inp, ws_workflowId = rsi_workflowId inp, ws_triggerId = rsi_triggerId inp,
                   ws_ciphertext = rsi_ciphertext inp, ws_envelopeVersion = rsi_envelopeVersion inp, ws_status = SecretActive,
                   ws_createdAt = (case map_get (workflowWebhookSecrets s) secretKey of Some sec \<Rightarrow> ws_createdAt sec | None \<Rightarrow> updatedAt),
                   ws_updatedAt = updatedAt \<rparr>
             in (Inr (Some next),
                 put_workflow wkey (w\<lparr> wst_record := (wst_record w)\<lparr> wf_updatedAt := updatedAt \<rparr> \<rparr>)
                   (s\<lparr> workflowWebhookSecrets := map_set secretKey next (workflowWebhookSecrets s),
                      legacyWorkflowWebhookSecrets := map_delete secretKey (legacyWorkflowWebhookSecrets s) \<rparr>)))"

definition listLegacyWorkflowWebhookSecrets :: "env \<Rightarrow> 'a workflow_store_scheme \<Rightarrow> int \<Rightarrow> legacy_webhook_secret list" where
  "listLegacyWorkflowWebhookSecrets e s limit =
     slice_int (js_sort (cmp_then (cmp_by lw_updatedAt cmp_int) (cmp_by lw_workflowId (locale_compare e)))
       (map_values (legacyWorkflowWebhookSecrets s))) (max 1 (min 1000 limit))"

definition getLegacyWorkflowWebhookSecret :: "'a workflow_store_scheme \<Rightarrow> string \<Rightarrow> string \<Rightarrow> string \<Rightarrow> legacy_webhook_secret option" where
  "getLegacyWorkflowWebhookSecret s tenantId workflowId triggerId =
     map_get (legacyWorkflowWebhookSecrets s) (key [tenantId, workflowId, triggerId])"

definition migrateLegacyWorkflowWebhookSecret ::
  "env \<Rightarrow> migrate_secret_input \<Rightarrow> 'a workflow_store_scheme \<Rightarrow> bool \<times> 'a workflow_store_scheme" where
  "migrateLegacyWorkflowWebhookSecret e inp s =
     (let secretKey = key [msi_tenantId inp, msi_workflowId inp, msi_triggerId inp];
          wkey = key [msi_tenantId inp, msi_workflowId inp];
          existing = map_get (workflowWebhookSecrets s) secretKey
      in case (map_get (legacyWorkflowWebhookSecrets s) secretKey, map_get (workflows s) wkey) of
        (Some legacy, Some w) \<Rightarrow>
          (if lw_plaintext legacy \<noteq> msi_expectedPlaintext inp
              \<or> msi_triggerId inp \<notin> set (webhook_trigger_ids (wst_record w)) then (False, s)
           else
             let targetStatus = (if wf_status (wst_record w) = WArchived then SecretRevoked else SecretActive);
                 clash = (case (msi_expectedExistingCiphertext inp, existing) of
                     (None, _) \<Rightarrow> existing \<noteq> None
                   | (Some c, None) \<Rightarrow> True
                   | (Some c, Some ex) \<Rightarrow> ws_ciphertext ex \<noteq> c
                       \<or> Some (ws_envelopeVersion ex) \<noteq> msi_expectedExistingEnvelopeVersion inp
                       \<or> (targetStatus = SecretActive \<and> ws_status ex \<noteq> SecretActive))
             in if clash then (False, s)
                else
                  let migratedAt = nowIso e (msi_migratedAt inp);
                      sec = \<lparr> ws_tenantId = msi_tenantId inp, ws_workflowId = msi_workflowId inp, ws_triggerId = msi_triggerId inp,
                        ws_ciphertext = msi_ciphertext inp, ws_envelopeVersion = msi_envelopeVersion inp, ws_status = targetStatus,
                        ws_createdAt = (case existing of Some ex \<Rightarrow> ws_createdAt ex | None \<Rightarrow> migratedAt), ws_updatedAt = migratedAt \<rparr>;
                      record = (wst_record w)\<lparr> wf_triggers := map publicWorkflowTrigger (wf_triggers (wst_record w)), wf_updatedAt := migratedAt \<rparr>
                  in (True, put_workflow wkey (w\<lparr> wst_record := record \<rparr>)
                       (s\<lparr> workflowWebhookSecrets := map_set secretKey sec (workflowWebhookSecrets s),
                          legacyWorkflowWebhookSecrets := map_delete secretKey (legacyWorkflowWebhookSecrets s) \<rparr>)))
      | _ \<Rightarrow> (False, s))"


section \<open>Runs\<close>

definition cmp_runs :: "env \<Rightarrow> run_record \<Rightarrow> run_record \<Rightarrow> int" where
  "cmp_runs e = cmp_then (cmp_rev (cmp_by rn_createdAt cmp_int)) (cmp_by rn_id (locale_compare e))"

definition listWorkflowRuns :: "env \<Rightarrow> 'a workflow_store_scheme \<Rightarrow> string \<Rightarrow> string \<Rightarrow> jsnum \<Rightarrow> error + run_record list" where
  "listWorkflowRuns e s tenantId workflowId limit =
     try_pure (requireWorkflow s tenantId workflowId) (\<lambda>w.
       Inr (js_slice (js_sort (cmp_runs e) (map (\<lambda>r. runHeap s ! r) (wst_runs w))) (js_min WORKFLOW_RUN_LIST_LIMIT (js_max 1 limit))))"

definition listWorkflowRunsForWorkflows ::
  "env \<Rightarrow> 'a workflow_store_scheme \<Rightarrow> string \<Rightarrow> string \<Rightarrow> string list \<Rightarrow> int option \<Rightarrow> int option \<Rightarrow> error + run_record list" where
  "listWorkflowRunsForWorkflows e s tenantId userId workflowIds limitPerIn limitIn =
     try_pure (requireTenantUser s tenantId userId) (\<lambda>_.
       let ids = filter (\<lambda>i. i \<noteq> []) workflowIds;
           limitPerWorkflow = max 1 (min WORKFLOW_RUN_LIST_LIMIT (coalesce limitPerIn 25));
           limit = max 1 (min WORKFLOW_RUN_LIST_LIMIT (coalesce limitIn WORKFLOW_RUN_LIST_LIMIT));
           runs = concat (map (\<lambda>w. slice_int (js_sort (cmp_runs e) (map (\<lambda>r. runHeap s ! r) (wst_runs w))) limitPerWorkflow)
             (filter (\<lambda>w. wf_tenantId (wst_record w) = tenantId \<and> wf_userId (wst_record w) = userId \<and> wf_id (wst_record w) \<in> set ids)
               (map_values (workflows s))))
       in Inr (if ids = [] then [] else slice_int (js_sort (cmp_runs e) runs) limit))"

text \<open>The run object \<open>createWorkflowRun\<close> builds for a workflow.\<close>

definition planned_run :: "env \<Rightarrow> run_input \<Rightarrow> workflow_record \<Rightarrow> run_record" where
  "planned_run e inp w =
     (let createdAt = nowIso e (ri_createdAt inp);
          claimedBy = trimmed_or_null (ri_claimedBy inp);
          claimToken = map_option (createWorkClaimToken e (ri_tenantId inp) (ri_runId inp)) claimedBy;
          leaseTtlMs = max 1 (coalesce (ri_leaseTtlMs inp) 30000);
          plannedSessionId = or_else (trimmed_or_null (ri_sessionId inp))
            (workflowRunSessionId e (ri_tenantId inp) (ri_workflowId inp) (ri_runId inp))
      in \<lparr> rn_tenantId = ri_tenantId inp, rn_userId = ri_userId inp, rn_id = ri_runId inp,
           rn_workflowId = ri_workflowId inp, rn_sessionId = Some plannedSessionId, rn_triggerType = ri_triggerType inp,
           rn_triggerPayload = ri_triggerPayload inp, rn_status = RQueued, rn_title = ''Run '' @ wf_title w,
           rn_summary = None, rn_error = None, rn_createdAt = createdAt, rn_startedAt = None, rn_finishedAt = None,
           rn_claimedBy = claimedBy, rn_claimToken = claimToken,
           rn_claimExpiresAt = (if claimToken \<noteq> None then Some (createdAt + leaseTtlMs) else None),
           rn_attemptCount = (if claimToken \<noteq> None then 1 else 0), rn_idempotencyKey = None, rn_checkpointVersion = 0,
           rn_lastErrorCode = None, rn_lastErrorSummary = None \<rparr>)"

definition createWorkflowRun ::
  "env \<Rightarrow> run_input \<Rightarrow> 'a workflow_store_scheme \<Rightarrow> ('a workflow_store_scheme, run_record) outcome" where
  "createWorkflowRun e inp s =
     try_in s (requireTenantUser s (ri_tenantId inp) (ri_userId inp)) (\<lambda>_.
     try_in s (requireWorkflow s (ri_tenantId inp) (ri_workflowId inp)) (\<lambda>w0.
     if wf_userId (wst_record w0) \<noteq> ri_userId inp then (Inl (Error (''Unknown workflow '' @ ri_workflowId inp @ ''.'')), s)
     else try_in s (assertWorkflowRunnable (wst_record w0)) (\<lambda>_.
       case lookup_run s (key [ri_tenantId inp, ri_runId inp]) of
         Some (r, existing) \<Rightarrow> (Inr existing, s)
       | None \<Rightarrow>
           then_do (assertWorkflowRunQuota e (run_quota_snapshot s) (ri_tenantId inp) (ri_quota inp) (ri_createdAt inp) s) (\<lambda>_ s1.
             let run = planned_run e inp (wst_record w0)
             in (Inr run, add_run (key [ri_tenantId inp, ri_workflowId inp])
                   (w0\<lparr> wst_record := note_latest_run run (rn_createdAt run) (wst_record w0) \<rparr>) run s1)))))"

definition run_unstarted :: "'a workflow_store_scheme \<Rightarrow> run_record \<Rightarrow> bool" where
  "run_unstarted s run =
     ((rn_status run = RQueued \<and> (case rn_sessionId run of None \<Rightarrow> True | Some sid \<Rightarrow> \<not> sessionHasCommands s (rn_tenantId run) sid))
      \<or> (rn_status run = RRunning \<and> (case rn_sessionId run of None \<Rightarrow> False | Some sid \<Rightarrow> \<not> sessionHasCommands s (rn_tenantId run) sid)))"

definition run_retryable :: "'a workflow_store_scheme \<Rightarrow> run_record \<Rightarrow> bool" where
  "run_retryable s run =
     ((case map_get (workflows s) (key [rn_tenantId run, rn_workflowId run]) of
         Some w \<Rightarrow> wf_status (wst_record w) = WRunning | None \<Rightarrow> False)
      \<and> run_unstarted s run \<and> rn_claimToken run = None)"

definition claim_due_owner :: "claim_due_input \<Rightarrow> string" where
  "claim_due_owner inp = or_else (trimmed_or_null (cd_claimedBy inp)) ''scheduler''"

definition claim_due_ttl :: "claim_due_input \<Rightarrow> int" where
  "claim_due_ttl inp = max 1 (coalesce (cd_leaseTtlMs inp) 30000)"

text \<open>A retried run after its claim, and the run object a due schedule starts.\<close>

definition reclaimed_run :: "env \<Rightarrow> claim_due_input \<Rightarrow> run_record \<Rightarrow> run_record" where
  "reclaimed_run e inp run =
     run\<lparr> rn_claimedBy := Some (claim_due_owner inp),
        rn_claimToken := Some (createWorkClaimToken e (rn_tenantId run) (rn_id run) (claim_due_owner inp)),
        rn_claimExpiresAt := Some (nowIso e (cd_now inp) + claim_due_ttl inp), rn_attemptCount := rn_attemptCount run + 1,
        rn_lastErrorCode := None, rn_lastErrorSummary := None \<rparr>"

definition scheduled_run :: "env \<Rightarrow> claim_due_input \<Rightarrow> workflow_record \<Rightarrow> run_record" where
  "scheduled_run e inp w =
     (let now = nowIso e (cd_now inp); scheduledFor = the (wf_nextRunAt w);
          plannedSessionId = or_else (trimmed_or_null (cd_sessionId inp))
            (workflowRunSessionId e (wf_tenantId w) (wf_id w) (cd_runId inp))
      in \<lparr> rn_tenantId = wf_tenantId w, rn_userId = wf_userId w, rn_id = cd_runId inp,
           rn_workflowId = wf_id w, rn_sessionId = Some plannedSessionId, rn_triggerType = TSchedule,
           rn_triggerPayload = Some (JObj [(''source'', JStr ''schedule''), (''scheduledFor'', JStr (iso_text scheduledFor))]),
           rn_status = RQueued, rn_title = ''Run '' @ wf_title w, rn_summary = None, rn_error = None,
           rn_createdAt = now, rn_startedAt = None, rn_finishedAt = None, rn_claimedBy = Some (claim_due_owner inp),
           rn_claimToken = Some (createWorkClaimToken e (wf_tenantId w) (cd_runId inp) (claim_due_owner inp)),
           rn_claimExpiresAt = Some (now + claim_due_ttl inp), rn_attemptCount = 1,
           rn_idempotencyKey = Some (''schedule:'' @ wf_id w @ '':'' @ iso_text scheduledFor),
           rn_checkpointVersion = 0, rn_lastErrorCode = None, rn_lastErrorSummary = None \<rparr>)"

definition retryable_runs :: "env \<Rightarrow> 'a workflow_store_scheme \<Rightarrow> nat list" where
  "retryable_runs e s =
     js_sort (cmp_by (\<lambda>r. runHeap s ! r) (cmp_then (cmp_by rn_createdAt cmp_int) (cmp_by rn_id (locale_compare e))))
       (filter (\<lambda>r. run_retryable s (runHeap s ! r)) (map_values (workflowRuns s)))"

definition due_workflows :: "iso \<Rightarrow> 'a workflow_store_scheme \<Rightarrow> (string \<times> workflow_state) list" where
  "due_workflows now s =
     js_sort (cmp_by (\<lambda>p. the (wf_nextRunAt (wst_record (snd p)))) cmp_int)
       (filter (\<lambda>p. wf_status (wst_record (snd p)) = WActive
          \<and> (case wf_nextRunAt (wst_record (snd p)) of Some t \<Rightarrow> t \<le> now | None \<Rightarrow> False)) (workflows s))"

definition claimDueWorkflowRun ::
  "env \<Rightarrow> claim_due_input \<Rightarrow> 'a workflow_store_scheme
    \<Rightarrow> ('a workflow_store_scheme, (workflow_record \<times> run_record) option) outcome" where
  "claimDueWorkflowRun e inp s =
     (let now = nowIso e (cd_now inp) in
      case retryable_runs e s of
        r # _ \<Rightarrow>
          (let run0 = runHeap s ! r in
           try_in s (requireWorkflow s (rn_tenantId run0) (rn_workflowId run0)) (\<lambda>w.
             let run = reclaimed_run e inp run0; rcd = note_latest_run run now (wst_record w)
             in (Inr (Some (rcd, run)),
                 put_workflow (key [rn_tenantId run0, rn_workflowId run0]) (w\<lparr> wst_record := rcd \<rparr>) (put_run r run s))))
      | [] \<Rightarrow>
          (case due_workflows now s of
             [] \<Rightarrow> (Inr None, s)
           | (wkey, w) # _ \<Rightarrow>
               then_do (assertWorkflowRunQuota e (run_quota_snapshot s) (wf_tenantId (wst_record w)) (cd_quota inp) (Some now) s)
                 (\<lambda>_ s1.
                   let run = scheduled_run e inp (wst_record w); rcd = note_latest_run run now (wst_record w)
                   in (Inr (Some (rcd, run)), add_run wkey (w\<lparr> wst_record := rcd \<rparr>) run s1))))"

definition run_claim_expired :: "'a workflow_store_scheme \<Rightarrow> int \<Rightarrow> run_record \<Rightarrow> bool" where
  "run_claim_expired s nowMs run =
     (or_null (rn_claimToken run) \<noteq> None \<and> (case rn_claimExpiresAt run of Some t \<Rightarrow> t \<le> nowMs | None \<Rightarrow> False) \<and> run_unstarted s run)"

text \<open>What one iteration of the reaper writes into the run object and into its workflow.\<close>

definition reaped_run :: "iso \<Rightarrow> int \<Rightarrow> run_record \<Rightarrow> run_record" where
  "reaped_run now maxAttempts run =
     (let msg = ''Workflow run claim expired after the maximum retry attempts.'' in
      if rn_attemptCount run \<ge> maxAttempts
      then run\<lparr> rn_status := RFailed, rn_error := Some msg, rn_summary := Some msg, rn_finishedAt := Some now,
        rn_lastErrorCode := Some ''claim_expired_max_attempts'', rn_lastErrorSummary := Some msg,
        rn_claimedBy := None, rn_claimToken := None, rn_claimExpiresAt := None \<rparr>
      else run\<lparr> rn_claimedBy := None, rn_claimToken := None, rn_claimExpiresAt := None,
        rn_lastErrorCode := Some ''claim_expired'',
        rn_lastErrorSummary := Some (if rn_status run = RRunning
          then ''Workflow run claim expired before command enqueue.''
          else ''Workflow run claim expired before session attachment.'') \<rparr>)"

definition reaped_workflow :: "iso \<Rightarrow> int \<Rightarrow> run_record \<Rightarrow> workflow_record \<Rightarrow> workflow_record" where
  "reaped_workflow now maxAttempts run w =
     (let run' = reaped_run now maxAttempts run;
          w1 = (if rn_attemptCount run \<ge> maxAttempts
            then w\<lparr> wf_status := WFailed, wf_latestRunStatus := Some RFailed, wf_latestRunSummary := rn_error run', wf_nextRunAt := None \<rparr>
            else w\<lparr> wf_status := WRunning, wf_latestRunStatus := Some (rn_status run'), wf_latestRunSessionId := rn_sessionId run' \<rparr>)
      in w1\<lparr> wf_latestRunId := Some (rn_id run), wf_updatedAt := now \<rparr>)"

definition reap_run ::
  "iso \<Rightarrow> int \<Rightarrow> nat \<Rightarrow> 'a workflow_store_scheme \<Rightarrow> reaped_claim option \<times> 'a workflow_store_scheme" where
  "reap_run now maxAttempts r s =
     (let run = runHeap s ! r; wkey = key [rn_tenantId run, rn_workflowId run] in
      case (map_get (workflows s) wkey, or_null (rn_claimToken run)) of
        (Some w, Some claimToken) \<Rightarrow>
          (Some \<lparr> rp_tenantId = rn_tenantId run, rp_workflowId = rn_workflowId run, rp_runId = rn_id run,
              rp_claimToken = claimToken, rp_claimedBy = or_else (rn_claimedBy run) ''unknown'',
              rp_action = (if rn_attemptCount run \<ge> maxAttempts then Failed else Retried), rp_reapedAt = now \<rparr>,
           put_workflow wkey (w\<lparr> wst_record := reaped_workflow now maxAttempts run (wst_record w) \<rparr>)
             (put_run r (reaped_run now maxAttempts run) s))
      | _ \<Rightarrow> (None, s))"

fun reap_runs ::
  "iso \<Rightarrow> int \<Rightarrow> nat list \<Rightarrow> 'a workflow_store_scheme \<Rightarrow> reaped_claim list \<times> 'a workflow_store_scheme" where
  "reap_runs now maxAttempts [] s = ([], s)"
| "reap_runs now maxAttempts (r # rs) s =
     (let (x, s1) = reap_run now maxAttempts r s; (xs, s2) = reap_runs now maxAttempts rs s1
      in ((case x of Some c \<Rightarrow> c # xs | None \<Rightarrow> xs), s2))"

definition expired_claims :: "env \<Rightarrow> int \<Rightarrow> 'a workflow_store_scheme \<Rightarrow> nat list" where
  "expired_claims e nowMs s =
     js_sort (cmp_by (\<lambda>r. runHeap s ! r)
        (cmp_then (cmp_by (\<lambda>run. the (rn_claimExpiresAt run)) cmp_int) (cmp_then (cmp_by rn_tenantId (locale_compare e))
          (cmp_then (cmp_by rn_workflowId (locale_compare e)) (cmp_by rn_id (locale_compare e))))))
       (filter (\<lambda>r. run_claim_expired s nowMs (runHeap s ! r)) (map_values (workflowRuns s)))"

definition reapExpiredWorkflowClaims ::
  "env \<Rightarrow> iso option \<Rightarrow> int option \<Rightarrow> int option \<Rightarrow> 'a workflow_store_scheme \<Rightarrow> reaped_claim list \<times> 'a workflow_store_scheme" where
  "reapExpiredWorkflowClaims e nowIn maxAttemptsIn limitIn s =
     (let now = nowIso e nowIn;
          maxAttempts = max 1 (coalesce maxAttemptsIn 3);
          limit = max 1 (min 1000 (coalesce limitIn 100))
      in reap_runs now maxAttempts (slice_int (expired_claims e now s) limit) s)"

definition attached_run :: "attach_input \<Rightarrow> iso \<Rightarrow> run_record \<Rightarrow> run_record" where
  "attached_run inp startedAt run =
     run\<lparr> rn_sessionId := Some (at_sessionId inp), rn_status := RRunning,
        rn_startedAt := Some (coalesce (rn_startedAt run) startedAt),
        rn_claimedBy := None, rn_claimToken := None, rn_claimExpiresAt := None \<rparr>"

definition attachWorkflowRunSession ::
  "env \<Rightarrow> attach_input \<Rightarrow> 'a workflow_store_scheme \<Rightarrow> ('a workflow_store_scheme, run_record option) outcome" where
  "attachWorkflowRunSession e inp s =
     try_in s (requireWorkflow s (at_tenantId inp) (at_workflowId inp)) (\<lambda>w.
       case lookup_run s (key [at_tenantId inp, at_runId inp]) of
         None \<Rightarrow> (Inr None, s)
       | Some (r, run) \<Rightarrow>
           if rn_workflowId run \<noteq> at_workflowId inp then (Inr None, s)
           else if run_terminal (rn_status run) then (Inl (Error ''Workflow run is not attachable.''), s)
           else if rn_status run \<noteq> RQueued \<and> \<not> (rn_status run = RRunning \<and> rn_sessionId run = Some (at_sessionId inp))
           then (Inl (Error ''Workflow run is not attachable.''), s)
           else if or_null (rn_sessionId run) \<noteq> None \<and> rn_sessionId run \<noteq> Some (at_sessionId inp)
           then (Inl (Error ''Workflow run is already attached to another session.''), s)
           else if or_null (rn_claimToken run) \<noteq> None
             \<and> (rn_claimToken run \<noteq> at_claimToken inp
                \<or> (case rn_claimExpiresAt run of Some t \<Rightarrow> t \<le> clock e | None \<Rightarrow> False))
           then (Inl (Error ''Workflow run claim is stale.''), s)
           else if or_null (rn_claimToken run) = None \<and> or_null (at_claimToken inp) \<noteq> None
           then (Inl (Error ''Workflow run claim is stale.''), s)
           else
             let run' = attached_run inp (nowIso e (at_startedAt inp)) run
             in (Inr (Some run'), put_workflow (key [at_tenantId inp, at_workflowId inp])
                   (w\<lparr> wst_record := note_latest_run run' (nowIso e (at_startedAt inp)) (wst_record w) \<rparr>) (put_run r run' s)))"

definition finishWorkflowRun ::
  "env \<Rightarrow> string \<Rightarrow> string \<Rightarrow> string \<Rightarrow> run_status \<Rightarrow> string option \<Rightarrow> string option \<Rightarrow> workflow_status \<Rightarrow> iso option
    \<Rightarrow> string option option \<Rightarrow> iso option \<Rightarrow> 'a workflow_store_scheme \<Rightarrow> ('a workflow_store_scheme, run_record option) outcome" where
  "finishWorkflowRun e tenantId workflowId runId status summary error nextStatus nextRunAt leaseToken finishedAtIn s =
     try_in s (requireWorkflow s tenantId workflowId) (\<lambda>w.
       case lookup_run s (key [tenantId, runId]) of
         None \<Rightarrow> (Inr None, s)
       | Some (r, run) \<Rightarrow>
           if rn_workflowId run \<noteq> workflowId then (Inr None, s)
           else if run_terminal (rn_status run) then (Inr (Some run), s)
           else try_in s
             (if leaseToken = None then Inr ()
              else (case or_null (rn_sessionId run) of
                      None \<Rightarrow> Inl (Error ''Workflow run has no execution session to fence.'')
                    | Some sid \<Rightarrow> assertSessionLease e s tenantId sid leaseToken))
             (\<lambda>_.
               let finishedAt = nowIso e finishedAtIn;
                   run' = run\<lparr> rn_status := status, rn_summary := summary, rn_error := error, rn_finishedAt := Some finishedAt \<rparr>;
                   rec0 = wst_record w;
                   record = rec0\<lparr> wf_status := nextStatus, wf_latestRunId := Some (rn_id run), wf_latestRunStatus := Some status,
                     wf_latestRunSummary := summary, wf_lastRunAt := (if status = RCompleted then Some finishedAt else wf_lastRunAt rec0),
                     wf_nextRunAt := nextRunAt, wf_updatedAt := finishedAt \<rparr>
               in (Inr (Some run'), put_workflow (key [tenantId, workflowId]) (w\<lparr> wst_record := record \<rparr>) (put_run r run' s))))"

definition completeWorkflowRun ::
  "env \<Rightarrow> complete_run_input \<Rightarrow> 'a workflow_store_scheme \<Rightarrow> ('a workflow_store_scheme, run_record option) outcome" where
  "completeWorkflowRun e inp =
     finishWorkflowRun e (cri_tenantId inp) (cri_workflowId inp) (cri_runId inp) RCompleted (cri_summary inp) None
       (cri_nextStatus inp) (cri_nextRunAt inp) (cri_leaseToken inp) (cri_finishedAt inp)"

definition failWorkflowRun ::
  "env \<Rightarrow> fail_run_input \<Rightarrow> 'a workflow_store_scheme \<Rightarrow> ('a workflow_store_scheme, run_record option) outcome" where
  "failWorkflowRun e inp =
     (let safeError = redact_secret e (fri_error inp) 1000 in
      finishWorkflowRun e (fri_tenantId inp) (fri_workflowId inp) (fri_runId inp) RFailed (Some safeError) (Some safeError)
       (fri_nextStatus inp) (fri_nextRunAt inp) (fri_leaseToken inp) (fri_finishedAt inp))"

definition getWorkflowRun :: "'a workflow_store_scheme \<Rightarrow> string \<Rightarrow> string \<Rightarrow> error + run_record option" where
  "getWorkflowRun s tenantId runId =
     try_pure (requireTenant s tenantId) (\<lambda>_. Inr (map_option snd (lookup_run s (key [tenantId, runId]))))"

definition getWorkflowRunBySession :: "'a workflow_store_scheme \<Rightarrow> string \<Rightarrow> string \<Rightarrow> error + run_record option" where
  "getWorkflowRunBySession s tenantId sessionId =
     try_pure (requireTenant s tenantId) (\<lambda>_.
       Inr (find (\<lambda>run. rn_tenantId run = tenantId \<and> rn_sessionId run = Some sessionId)
         (map (\<lambda>r. runHeap s ! r) (map_values (workflowRuns s)))))"

end
