(* ===== verification/Workflow_Runs.thy ===== *)
theory Workflow_Runs
  imports Workflow_Store
begin

text \<open>
  Laws of the workflow run lifecycle: every reference stays inside the heap, no operation of the domain
  writes the object of a run that has completed, failed or been cancelled (\<open>runs_kept\<close>), claims are granted
  on unclaimed runs only, finishing a run under a lease token needs that very lease, and restoring a
  snapshot loses nothing.
\<close>


section \<open>Heap discipline\<close>

definition run_refs_ok :: "'a workflow_store_scheme \<Rightarrow> bool" where
  "run_refs_ok s =
     (map_ok (workflows s) \<and> map_ok (workflowRuns s)
      \<and> (\<forall>k r. map_get (workflowRuns s) k = Some r \<longrightarrow> r < length (runHeap s))
      \<and> (\<forall>k w. map_get (workflows s) k = Some w \<longrightarrow> (\<forall>r \<in> set (wst_runs w). r < length (runHeap s))))"

definition runs_kept :: "'a workflow_store_scheme \<Rightarrow> 'a workflow_store_scheme \<Rightarrow> bool" where
  "runs_kept s s' =
     (length (runHeap s) \<le> length (runHeap s')
      \<and> (\<forall>r < length (runHeap s). run_terminal (rn_status (runHeap s ! r)) \<longrightarrow> runHeap s' ! r = runHeap s ! r))"

lemma runs_kept_refl [simp, intro]: "runs_kept s s"
  by (simp add: runs_kept_def)

lemma runs_kept_trans: "runs_kept a b \<Longrightarrow> runs_kept b c \<Longrightarrow> runs_kept a c"
  by (force simp: runs_kept_def)

lemma runs_kept_heap: "runHeap s' = runHeap s \<Longrightarrow> runs_kept s s'"
  by (simp add: runs_kept_def)

lemma runs_kept_cong: "runHeap s1 = runHeap s \<Longrightarrow> runs_kept s1 s' \<Longrightarrow> runs_kept s s'"
  by (simp add: runs_kept_def)

lemma put_run_simps [simp]:
  "runHeap (put_run r run s) = (runHeap s)[r := run]" "workflows (put_run r run s) = workflows s"
  "workflowRuns (put_run r run s) = workflowRuns s" "sessions (put_run r run s) = sessions s" "tenants (put_run r run s) = tenants s"
  by (simp_all add: put_run_def)

lemma put_workflow_simps [simp]:
  "runHeap (put_workflow k w s) = runHeap s" "workflows (put_workflow k w s) = map_set k w (workflows s)"
  "workflowRuns (put_workflow k w s) = workflowRuns s" "sessions (put_workflow k w s) = sessions s" "tenants (put_workflow k w s) = tenants s"
  by (simp_all add: put_workflow_def)

lemma add_run_simps [simp]:
  "runHeap (add_run k w run s) = runHeap s @ [run]"
  "workflowRuns (add_run k w run s) = map_set (key [rn_tenantId run, rn_id run]) (length (runHeap s)) (workflowRuns s)"
  "workflows (add_run k w run s) = map_set k (w\<lparr> wst_runs := wst_runs w @ [length (runHeap s)] \<rparr>) (workflows s)"
  by (simp_all add: add_run_def Let_def)

lemma runs_kept_put_run:
  "\<not> run_terminal (rn_status (runHeap s ! r)) \<Longrightarrow> runs_kept s (put_workflow k w (put_run r run s))"
  by (simp add: runs_kept_def) (metis nth_list_update_neq)

lemma runs_kept_add_run: "runs_kept s (add_run k w run s)"
  by (auto simp: runs_kept_def nth_append)

lemma run_refs_ok_put:
  assumes "run_refs_ok s" "map_get (workflows s) k = Some w" "wst_runs w' = wst_runs w"
  shows "run_refs_ok (put_workflow k w' (put_run r run s))" and "run_refs_ok (put_workflow k w' s)"
  using assms by (auto simp: run_refs_ok_def split: if_splits)

lemma run_refs_ok_add:
  assumes "run_refs_ok s" "map_get (workflows s) k = Some w" "wst_runs w' = wst_runs w"
  shows "run_refs_ok (add_run k w' run s)"
  using assms by (auto simp: run_refs_ok_def less_SucI split: if_splits)

lemma run_refs_ok_same:
  "workflows s' = workflows s \<Longrightarrow> workflowRuns s' = workflowRuns s \<Longrightarrow> runHeap s' = runHeap s \<Longrightarrow> run_refs_ok s' = run_refs_ok s"
  by (simp add: run_refs_ok_def)

lemma lookup_run_Some:
  "lookup_run s k = Some (r, run) \<longleftrightarrow> map_get (workflowRuns s) k = Some r \<and> run = runHeap s ! r"
  by (auto simp: lookup_run_def)

lemma requireWorkflow_Inr:
  "requireWorkflow s t i = Inr w \<longleftrightarrow> map_has (tenants s) t \<and> map_get (workflows s) (key [t, i]) = Some w"
  by (auto simp: requireWorkflow_def try_pure_def requireTenant_def map_has_def split: option.splits)


section \<open>Quota consumption leaves workflows alone\<close>

lemma consumeUsageQuota_workflows:
  assumes "consumeUsageQuota e inp s = (r, s')"
  shows "workflows s' = workflows s" "workflowRuns s' = workflowRuns s" "runHeap s' = runHeap s" "sessions s' = sessions s" "tenants s' = tenants s"
  using assms by (cases rule: consumeUsageQuota_cases; simp)+

lemma assertWorkflowRunQuota_workflows:
  assumes "assertWorkflowRunQuota e rs t q now s = (r, s')"
  shows "workflows s' = workflows s" "workflowRuns s' = workflowRuns s" "runHeap s' = runHeap s" "sessions s' = sessions s" "tenants s' = tenants s"
proof -
  have "s' = s \<or> (\<exists>inp r0. consumeUsageQuota e inp s = (r0, s'))"
    using assms
    by (auto simp: assertWorkflowRunQuota_def Let_def try_in_def then_do_def split: sum.splits option.splits prod.splits if_splits)
  then show "workflows s' = workflows s" "workflowRuns s' = workflowRuns s" "runHeap s' = runHeap s" "sessions s' = sessions s" "tenants s' = tenants s"
    using consumeUsageQuota_workflows by fastforce+
qed


section \<open>Each operation\<close>

lemma finishWorkflowRun_cases:
  assumes "finishWorkflowRun e t wid rid st sm er ns nr lt fa s = (r, s')"
  obtains (same) "s' = s"
  | (finished) ref w w' run' where "r = Inr (Some run')" "map_get (workflows s) (key [t, wid]) = Some w"
      "map_get (workflowRuns s) (key [t, rid]) = Some ref" "\<not> run_terminal (rn_status (runHeap s ! ref))"
      "lt = None \<or> (\<exists>sid. rn_sessionId (runHeap s ! ref) = Some sid \<and> assertSessionLease e s t sid lt = Inr ())"
      "rn_status run' = st" "wst_runs w' = wst_runs w"
      "s' = put_workflow (key [t, wid]) w' (put_run ref run' s)"
proof (cases "requireWorkflow s t wid")
  case (Inl x)
  then show thesis using assms same by (simp add: finishWorkflowRun_def try_in_def)
next
  case w: (Inr w)
  show thesis
  proof (cases "lookup_run s (key [t, rid])")
    case None
    then show thesis using assms w same by (simp add: finishWorkflowRun_def try_in_def)
  next
    case (Some p)
    then obtain ref where p: "p = (ref, runHeap s ! ref)" "map_get (workflowRuns s) (key [t, rid]) = Some ref"
      by (auto simp: lookup_run_def)
    let ?run = "runHeap s ! ref"
    define chk where "chk = (if lt = None then Inr ()
        else (case or_null (rn_sessionId ?run) of
            None \<Rightarrow> Inl (Error ''Workflow run has no execution session to fence.'')
          | Some sid \<Rightarrow> assertSessionLease e s t sid lt))"
    show thesis
    proof (cases "rn_workflowId ?run \<noteq> wid \<or> run_terminal (rn_status ?run) \<or> (\<exists>x. chk = Inl x)")
      case True
      then show thesis using assms w Some p(1) same
        by (auto simp: finishWorkflowRun_def try_in_def chk_def split: if_splits sum.splits)
    next
      case False
      then have chk: "chk = Inr ()" by (cases chk) auto
      have lease: "lt = None \<or> (\<exists>sid. rn_sessionId ?run = Some sid \<and> assertSessionLease e s t sid lt = Inr ())"
        using chk by (auto simp: chk_def or_null_Some_iff split: if_splits option.splits)
      define run' where "run' = ?run\<lparr> rn_status := st, rn_summary := sm, rn_error := er, rn_finishedAt := Some (nowIso e fa) \<rparr>"
      define rcd where "rcd = (wst_record w)\<lparr> wf_status := ns, wf_latestRunId := Some (rn_id ?run), wf_latestRunStatus := Some st,
         wf_latestRunSummary := sm, wf_lastRunAt := (if st = RCompleted then Some (nowIso e fa) else wf_lastRunAt (wst_record w)),
         wf_nextRunAt := nr, wf_updatedAt := nowIso e fa \<rparr>"
      have "finishWorkflowRun e t wid rid st sm er ns nr lt fa s
          = (Inr (Some run'), put_workflow (key [t, wid]) (w\<lparr> wst_record := rcd \<rparr>) (put_run ref run' s))"
        unfolding finishWorkflowRun_def try_in_def w Some p(1) sum.case option.case prod.case chk_def [symmetric] chk Let_def
          run'_def rcd_def using False by simp
      then show thesis using assms w False finished [OF _ _ p(2) _ lease, of run' w "w\<lparr> wst_record := rcd \<rparr>"]
        by (simp add: requireWorkflow_Inr run'_def)
    qed
  qed
qed

lemma finishWorkflowRun_kept:
  assumes "finishWorkflowRun e t wid rid st sm er ns nr lt fa s = (r, s')"
  shows "runs_kept s s'" and "run_refs_ok s \<Longrightarrow> run_refs_ok s'"
  using assms
  by (cases rule: finishWorkflowRun_cases; simp add: runs_kept_put_run run_refs_ok_put)+

lemma createWorkflow_kept:
  assumes "createWorkflow e inp s = (r, s')"
  shows "runHeap s' = runHeap s" and "run_refs_ok s \<Longrightarrow> run_refs_ok s'"
proof -
  have eff: "s' = s \<or> (\<exists>rcd secs. s' = s\<lparr> workflows := map_set (key [wfi_tenantId inp, wfi_workflowId inp]) \<lparr> wst_record = rcd, wst_runs = [] \<rparr> (workflows s),
      workflowWebhookSecrets := secs \<rparr>)"
    using assms by (auto simp: createWorkflow_def try_in_def Let_def split: sum.splits option.splits if_splits)
  then show "runHeap s' = runHeap s" by auto
  show "run_refs_ok s \<Longrightarrow> run_refs_ok s'" using eff by (auto simp: run_refs_ok_def split: if_splits)
qed

lemma updateWorkflowStatus_kept:
  assumes "updateWorkflowStatus e inp s = (r, s')"
  shows "runHeap s' = runHeap s" and "run_refs_ok s \<Longrightarrow> run_refs_ok s'"
  using assms unfolding updateWorkflowStatus_def try_in_def Let_def
  by (auto simp: run_refs_ok_def split: sum.splits option.splits if_splits)

lemma rotateWorkflowWebhookSecret_kept:
  assumes "rotateWorkflowWebhookSecret e inp s = (r, s')"
  shows "runHeap s' = runHeap s" and "run_refs_ok s \<Longrightarrow> run_refs_ok s'"
  using assms unfolding rotateWorkflowWebhookSecret_def try_in_def Let_def
  by (auto simp: run_refs_ok_def split: sum.splits option.splits if_splits)

lemma migrateLegacyWorkflowWebhookSecret_kept:
  assumes "migrateLegacyWorkflowWebhookSecret e inp s = (r, s')"
  shows "runHeap s' = runHeap s" and "run_refs_ok s \<Longrightarrow> run_refs_ok s'"
  using assms unfolding migrateLegacyWorkflowWebhookSecret_def Let_def
  by (auto simp: run_refs_ok_def split: option.splits if_splits prod.splits)

lemma createWorkflowRun_cases:
  assumes "createWorkflowRun e inp s = (r, s')"
  obtains (nothing) "workflows s' = workflows s" "workflowRuns s' = workflowRuns s" "runHeap s' = runHeap s"
  | (created) w w' run s1 where "r = Inr run" "map_get (workflows s) (key [ri_tenantId inp, ri_workflowId inp]) = Some w"
      "wf_userId (wst_record w) = ri_userId inp" "wf_status (wst_record w) \<notin> {WArchived, WPaused, WRunning}"
      "map_get (workflowRuns s) (key [ri_tenantId inp, ri_runId inp]) = None"
      "workflows s1 = workflows s" "workflowRuns s1 = workflowRuns s" "runHeap s1 = runHeap s"
      "rn_status run = RQueued" "rn_id run = ri_runId inp" "rn_tenantId run = ri_tenantId inp" "wst_runs w' = wst_runs w"
      "wf_status (wst_record w') = WRunning" "s' = add_run (key [ri_tenantId inp, ri_workflowId inp]) w' run s1"
proof (cases "(\<exists>u. requireTenantUser s (ri_tenantId inp) (ri_userId inp) = Inr u)
    \<and> (\<exists>w. requireWorkflow s (ri_tenantId inp) (ri_workflowId inp) = Inr w \<and> wf_userId (wst_record w) = ri_userId inp
        \<and> assertWorkflowRunnable (wst_record w) = Inr ())
    \<and> lookup_run s (key [ri_tenantId inp, ri_runId inp]) = None")
  case False
  then have "s' = s" using assms unfolding createWorkflowRun_def try_in_def
    by (auto split: sum.splits option.splits if_splits)
  show thesis by (rule nothing) (simp_all add: \<open>s' = s\<close>)
next
  case True
  then obtain u w where u: "requireTenantUser s (ri_tenantId inp) (ri_userId inp) = Inr u"
    and w: "requireWorkflow s (ri_tenantId inp) (ri_workflowId inp) = Inr w" "wf_userId (wst_record w) = ri_userId inp"
    and runnable: "assertWorkflowRunnable (wst_record w) = Inr ()"
    and new: "lookup_run s (key [ri_tenantId inp, ri_runId inp]) = None" by blast
  obtain q s1 where q: "assertWorkflowRunQuota e (run_quota_snapshot s) (ri_tenantId inp) (ri_quota inp) (ri_createdAt inp) s = (q, s1)"
    by fastforce
  note fr = assertWorkflowRunQuota_workflows [OF q]
  show thesis
  proof (cases q)
    case (Inl x)
    then have "s' = s1" using assms u w runnable new q by (simp add: createWorkflowRun_def try_in_def then_do_def)
    show thesis by (rule nothing) (simp_all add: \<open>s' = s1\<close> fr)
  next
    case (Inr y)
    define run w' where "run = planned_run e inp (wst_record w)"
      and "w' = w\<lparr> wst_record := note_latest_run (planned_run e inp (wst_record w)) (rn_createdAt (planned_run e inp (wst_record w))) (wst_record w) \<rparr>"
    have eff: "r = Inr run" "s' = add_run (key [ri_tenantId inp, ri_workflowId inp]) w' run s1"
      using assms Inr u w runnable new q by (simp_all add: createWorkflowRun_def try_in_def then_do_def Let_def run_def w'_def)
    have props: "rn_status run = RQueued" "rn_id run = ri_runId inp" "rn_tenantId run = ri_tenantId inp" "wst_runs w' = wst_runs w"
      "wf_status (wst_record w') = WRunning"
      by (simp_all add: run_def w'_def planned_run_def Let_def note_latest_run_def)
    have "wf_status (wst_record w) \<notin> {WArchived, WPaused, WRunning}"
      using runnable by (auto simp: assertWorkflowRunnable_def split: if_splits)
    then show thesis using created [of run w s1 w'] eff props w fr new by (simp add: requireWorkflow_Inr lookup_run_def)
  qed
qed

lemma run_retryable_not_terminal: "run_retryable s run \<Longrightarrow> \<not> run_terminal (rn_status run)"
  by (auto simp: run_retryable_def run_unstarted_def run_terminal_def)

lemma run_claim_expired_not_terminal: "run_claim_expired s n run \<Longrightarrow> \<not> run_terminal (rn_status run)"
  by (auto simp: run_claim_expired_def run_unstarted_def run_terminal_def)

lemma claimDueWorkflowRun_cases:
  assumes run: "claimDueWorkflowRun e inp s = (r, s')"
  obtains (nothing) "workflows s' = workflows s" "workflowRuns s' = workflowRuns s" "runHeap s' = runHeap s" "\<forall>c. r \<noteq> Inr (Some c)"
  | (retried) ref w w' rc where "ref \<in> set (map_values (workflowRuns s))" "run_retryable s (runHeap s ! ref)"
      "map_get (workflows s) (key [rn_tenantId (runHeap s ! ref), rn_workflowId (runHeap s ! ref)]) = Some w" "wst_runs w' = wst_runs w"
      "r = Inr (Some (rc, reclaimed_run e inp (runHeap s ! ref)))"
      "s' = put_workflow (key [rn_tenantId (runHeap s ! ref), rn_workflowId (runHeap s ! ref)]) w'
         (put_run ref (reclaimed_run e inp (runHeap s ! ref)) s)"
  | (started) k w w' rc s1 where "(k, w) \<in> set (workflows s)" "wf_status (wst_record w) = WActive" "wst_runs w' = wst_runs w"
      "workflows s1 = workflows s" "workflowRuns s1 = workflowRuns s" "runHeap s1 = runHeap s"
      "r = Inr (Some (rc, scheduled_run e inp (wst_record w)))" "s' = add_run k w' (scheduled_run e inp (wst_record w)) s1"
proof (cases "retryable_runs e s")
  case (Cons ref rest)
  then have "ref \<in> set (retryable_runs e s)" by simp
  then have ref: "ref \<in> set (map_values (workflowRuns s))" "run_retryable s (runHeap s ! ref)"
    unfolding retryable_runs_def set_js_sort by auto
  show thesis
  proof (cases "requireWorkflow s (rn_tenantId (runHeap s ! ref)) (rn_workflowId (runHeap s ! ref))")
    case (Inl x)
    then have "s' = s" "r = Inl x" using run Cons by (simp_all add: claimDueWorkflowRun_def try_in_def)
    show thesis by (rule nothing) (simp_all add: \<open>s' = s\<close> \<open>r = Inl x\<close>)
  next
    case (Inr w)
    define rcd where "rcd = note_latest_run (reclaimed_run e inp (runHeap s ! ref)) (nowIso e (cd_now inp)) (wst_record w)"
    have "claimDueWorkflowRun e inp s = (Inr (Some (rcd, reclaimed_run e inp (runHeap s ! ref))),
        put_workflow (key [rn_tenantId (runHeap s ! ref), rn_workflowId (runHeap s ! ref)]) (w\<lparr> wst_record := rcd \<rparr>)
          (put_run ref (reclaimed_run e inp (runHeap s ! ref)) s))"
      using Cons Inr by (simp add: claimDueWorkflowRun_def try_in_def Let_def rcd_def)
    then show thesis using run ref Inr retried [of ref w "w\<lparr> wst_record := rcd \<rparr>" rcd] by (simp add: requireWorkflow_Inr)
  qed
next
  case Nil
  let ?now = "nowIso e (cd_now inp)"
  show thesis
  proof (cases "due_workflows ?now s")
    case none: Nil
    then have "s' = s" "r = Inr None" using run Nil by (simp_all add: claimDueWorkflowRun_def)
    show thesis by (rule nothing) (simp_all add: \<open>s' = s\<close> \<open>r = Inr None\<close>)
  next
    case (Cons p rest)
    obtain k w where p: "p = (k, w)" by fastforce
    have "p \<in> set (due_workflows ?now s)" using Cons by simp
    then have kw: "(k, w) \<in> set (workflows s)" "wf_status (wst_record w) = WActive" by (auto simp: due_workflows_def p)
    obtain q s1 where q: "assertWorkflowRunQuota e (run_quota_snapshot s) (wf_tenantId (wst_record w)) (cd_quota inp) (Some ?now) s = (q, s1)"
      by fastforce
    note fr = assertWorkflowRunQuota_workflows [OF q]
    show thesis
    proof (cases q)
      case (Inl x)
      then have "s' = s1" "r = Inl x" using run Nil Cons p q by (simp_all add: claimDueWorkflowRun_def then_do_def)
      show thesis by (rule nothing) (simp_all add: \<open>s' = s1\<close> \<open>r = Inl x\<close> fr)
    next
      case (Inr y)
      define rcd where "rcd = note_latest_run (scheduled_run e inp (wst_record w)) ?now (wst_record w)"
      have "claimDueWorkflowRun e inp s = (Inr (Some (rcd, scheduled_run e inp (wst_record w))),
          add_run k (w\<lparr> wst_record := rcd \<rparr>) (scheduled_run e inp (wst_record w)) s1)"
        using Nil Cons p q Inr by (simp add: claimDueWorkflowRun_def then_do_def Let_def rcd_def)
      then show thesis using run kw fr started [of k w "w\<lparr> wst_record := rcd \<rparr>" s1 rcd] by simp
    qed
  qed
qed

lemma claimDueWorkflowRun_kept:
  assumes "claimDueWorkflowRun e inp s = (r, s')"
  shows "runs_kept s s'" and "run_refs_ok s \<Longrightarrow> run_refs_ok s'"
proof -
  show "runs_kept s s'" using assms
  proof (cases rule: claimDueWorkflowRun_cases)
    case nothing
    then show ?thesis by (intro runs_kept_heap) simp
  next
    case (retried ref w w' rc)
    then show ?thesis by (simp add: runs_kept_put_run run_retryable_not_terminal)
  next
    case (started k w w' rc s1)
    then show ?thesis using runs_kept_cong [OF _ runs_kept_add_run] by blast
  qed
  assume ok: "run_refs_ok s"
  show "run_refs_ok s'" using assms
  proof (cases rule: claimDueWorkflowRun_cases)
    case nothing
    then show ?thesis using run_refs_ok_same ok by blast
  next
    case (retried ref w w' rc)
    then show ?thesis using ok by (simp add: run_refs_ok_put)
  next
    case (started k w w' rc s1)
    have "map_get (workflows s1) k = Some w" using started ok by (simp add: run_refs_ok_def in_set_map_get)
    moreover have "run_refs_ok s1" using run_refs_ok_same ok started by metis
    ultimately show ?thesis using started by (simp add: run_refs_ok_add)
  qed
qed

lemma reap_run_cases:
  assumes "reap_run now mx r s = (x, s')"
  obtains (skipped) "x = None" "s' = s"
  | (reaped) w w' run' c where "x = Some c" "map_get (workflows s) (key [rn_tenantId (runHeap s ! r), rn_workflowId (runHeap s ! r)]) = Some w"
      "rn_claimToken (runHeap s ! r) \<noteq> None" "wst_runs w' = wst_runs w" "run' = reaped_run now mx (runHeap s ! r)"
      "rp_action c = (if mx \<le> rn_attemptCount (runHeap s ! r) then Failed else Retried)"
      "s' = put_workflow (key [rn_tenantId (runHeap s ! r), rn_workflowId (runHeap s ! r)]) w' (put_run r run' s)"
proof (cases "map_get (workflows s) (key [rn_tenantId (runHeap s ! r), rn_workflowId (runHeap s ! r)])")
  case None
  then show thesis using assms skipped by (simp add: reap_run_def Let_def)
next
  case (Some w)
  show thesis
  proof (cases "or_null (rn_claimToken (runHeap s ! r))")
    case None
    then show thesis using assms Some skipped by (simp add: reap_run_def Let_def)
  next
    case tok: (Some t)
    then have "rn_claimToken (runHeap s ! r) \<noteq> None" by (auto simp: or_null_Some_iff)
    then show thesis using assms Some tok
      by (intro reaped [of _ w "w\<lparr> wst_record := reaped_workflow now mx (runHeap s ! r) (wst_record w) \<rparr>"]) (auto simp: reap_run_def Let_def)
  qed
qed

lemma reaped_run_simps [simp]: "rn_claimToken (reaped_run now mx run) = None"
  "rn_status (reaped_run now mx run) = (if mx \<le> rn_attemptCount run then RFailed else rn_status run)"
  by (simp_all add: reaped_run_def Let_def)

lemma reap_run_kept:
  assumes "reap_run now mx r s = (x, s')" and "\<not> run_terminal (rn_status (runHeap s ! r)) \<or> rn_claimToken (runHeap s ! r) = None"
  shows "runs_kept s s'" and "run_refs_ok s \<Longrightarrow> run_refs_ok s'"
    and "\<And>q. q < length (runHeap s) \<Longrightarrow> r < length (runHeap s) \<Longrightarrow>
      \<not> run_terminal (rn_status (runHeap s ! q)) \<or> rn_claimToken (runHeap s ! q) = None \<Longrightarrow>
      \<not> run_terminal (rn_status (runHeap s' ! q)) \<or> rn_claimToken (runHeap s' ! q) = None"
    and "length (runHeap s') = length (runHeap s)"
  using assms
  by (cases rule: reap_run_cases; auto simp: runs_kept_put_run run_refs_ok_put nth_list_update)+

lemma reap_runs_kept:
  assumes "reap_runs now mx rs s = (xs, s')"
    and "\<forall>r \<in> set rs. r < length (runHeap s) \<and> (\<not> run_terminal (rn_status (runHeap s ! r)) \<or> rn_claimToken (runHeap s ! r) = None)"
  shows "runs_kept s s' \<and> (run_refs_ok s \<longrightarrow> run_refs_ok s')"
  using assms
proof (induction rs arbitrary: s xs)
  case (Cons r rs)
  obtain x s1 where one: "reap_run now mx r s = (x, s1)" by fastforce
  obtain ys s2 where rest: "reap_runs now mx rs s1 = (ys, s2)" by fastforce
  have r: "r < length (runHeap s)" "\<not> run_terminal (rn_status (runHeap s ! r)) \<or> rn_claimToken (runHeap s ! r) = None"
    using Cons.prems by auto
  note k = reap_run_kept [OF one r(2)]
  have s': "s2 = s'" using Cons.prems one rest by (simp add: Let_def)
  have "\<forall>q \<in> set rs. q < length (runHeap s1) \<and> (\<not> run_terminal (rn_status (runHeap s1 ! q)) \<or> rn_claimToken (runHeap s1 ! q) = None)"
    using Cons.prems k(3) [OF _ r(1)] k(4) by auto
  then have "runs_kept s1 s' \<and> (run_refs_ok s1 \<longrightarrow> run_refs_ok s')" using Cons.IH [OF rest [unfolded s']] by blast
  then show ?case using k(1,2) runs_kept_trans by blast
qed simp

lemma reapExpiredWorkflowClaims_kept:
  assumes "reapExpiredWorkflowClaims e now mx lim s = (xs, s')" and ok: "run_refs_ok s"
  shows "runs_kept s s'" and "run_refs_ok s'"
proof -
  define rs where "rs = slice_int (expired_claims e (nowIso e now) s) (max 1 (min 1000 (coalesce lim 100)))"
  have run: "reap_runs (nowIso e now) (max 1 (coalesce mx 3)) rs s = (xs, s')"
    using assms(1) by (simp add: reapExpiredWorkflowClaims_def Let_def rs_def)
  have "set rs \<subseteq> set (expired_claims e (nowIso e now) s)" by (auto simp: rs_def slice_int_def dest: in_set_takeD)
  also have "\<dots> = set (filter (\<lambda>r. run_claim_expired s (nowIso e now) (runHeap s ! r)) (map_values (workflowRuns s)))"
    by (simp only: expired_claims_def set_js_sort)
  finally have sub: "set rs \<subseteq> {r \<in> set (map_values (workflowRuns s)). run_claim_expired s (nowIso e now) (runHeap s ! r)}" by auto
  have "\<forall>r \<in> set rs. r < length (runHeap s) \<and> (\<not> run_terminal (rn_status (runHeap s ! r)) \<or> rn_claimToken (runHeap s ! r) = None)"
  proof
    fix r assume "r \<in> set rs"
    then have r: "r \<in> set (map_values (workflowRuns s))" "run_claim_expired s (nowIso e now) (runHeap s ! r)" using sub by auto
    then obtain k where "map_get (workflowRuns s) k = Some r" using ok values_map_get by (force simp: run_refs_ok_def)
    then have "r < length (runHeap s)" using ok by (simp add: run_refs_ok_def)
    then show "r < length (runHeap s) \<and> (\<not> run_terminal (rn_status (runHeap s ! r)) \<or> rn_claimToken (runHeap s ! r) = None)"
      using run_claim_expired_not_terminal [OF r(2)] by simp
  qed
  from reap_runs_kept [OF run this] ok show "runs_kept s s'" and "run_refs_ok s'" by auto
qed

lemma attachWorkflowRunSession_cases:
  assumes "attachWorkflowRunSession e inp s = (r, s')"
  obtains (same) "s' = s" "\<forall>x. r \<noteq> Inr (Some x)"
  | (attached) ref w w' run' where "map_get (workflowRuns s) (key [at_tenantId inp, at_runId inp]) = Some ref"
      "map_get (workflows s) (key [at_tenantId inp, at_workflowId inp]) = Some w" "wst_runs w' = wst_runs w"
      "\<not> run_terminal (rn_status (runHeap s ! ref))" "or_null (rn_claimToken (runHeap s ! ref)) = or_null (at_claimToken inp)"
      "run' = attached_run inp (nowIso e (at_startedAt inp)) (runHeap s ! ref)" "r = Inr (Some run')"
      "s' = put_workflow (key [at_tenantId inp, at_workflowId inp]) w' (put_run ref run' s)"
proof (cases "\<exists>x. r = Inr (Some x)")
  case False
  then have "s' = s" using assms unfolding attachWorkflowRunSession_def try_in_def
    by (auto simp: Let_def split: sum.splits option.splits if_splits)
  then show thesis using False same by blast
next
  case True
  then obtain w p where w: "requireWorkflow s (at_tenantId inp) (at_workflowId inp) = Inr w"
    and p: "lookup_run s (key [at_tenantId inp, at_runId inp]) = Some p"
    using assms unfolding attachWorkflowRunSession_def try_in_def by (auto split: sum.splits option.splits)
  then obtain ref where ref: "p = (ref, runHeap s ! ref)" "map_get (workflowRuns s) (key [at_tenantId inp, at_runId inp]) = Some ref"
    by (auto simp: lookup_run_def)
  define run' where "run' = attached_run inp (nowIso e (at_startedAt inp)) (runHeap s ! ref)"
  define w' where "w' = w\<lparr> wst_record := note_latest_run run' (nowIso e (at_startedAt inp)) (wst_record w) \<rparr>"
  note eq = assms [unfolded attachWorkflowRunSession_def try_in_def w p ref(1) sum.case option.case prod.case Let_def run'_def [symmetric] w'_def [symmetric]]
  have nt: "\<not> run_terminal (rn_status (runHeap s ! ref))" using eq True by (auto split: if_splits)
  have tok: "or_null (rn_claimToken (runHeap s ! ref)) = or_null (at_claimToken inp)" using eq True by (auto split: if_splits)
  have "r = Inr (Some run')" "s' = put_workflow (key [at_tenantId inp, at_workflowId inp]) w' (put_run ref run' s)"
    using eq True by (auto split: if_splits)
  then show thesis using w ref(2) nt tok by (intro attached [of ref w w' run']) (simp_all add: requireWorkflow_Inr w'_def run'_def)
qed

lemma attachWorkflowRunSession_kept:
  assumes "attachWorkflowRunSession e inp s = (r, s')"
  shows "runs_kept s s'" and "run_refs_ok s \<Longrightarrow> run_refs_ok s'"
  using assms
  by (cases rule: attachWorkflowRunSession_cases; simp add: runs_kept_put_run run_refs_ok_put)+

lemma createWorkflowRun_kept:
  assumes "createWorkflowRun e inp s = (r, s')"
  shows "runs_kept s s'" and "run_refs_ok s \<Longrightarrow> run_refs_ok s'"
proof -
  show "runs_kept s s'" using assms
    by (cases rule: createWorkflowRun_cases) (auto intro: runs_kept_heap runs_kept_cong [OF _ runs_kept_add_run])
  show "run_refs_ok s \<Longrightarrow> run_refs_ok s'" using assms
  proof (cases rule: createWorkflowRun_cases)
    case nothing
    then show "run_refs_ok s \<Longrightarrow> run_refs_ok s'" using run_refs_ok_same by blast
  next
    case (created w w' run s1)
    then show "run_refs_ok s \<Longrightarrow> run_refs_ok s'" using run_refs_ok_add [of s1 _ w w' run] run_refs_ok_same [of s1 s] by simp
  qed
qed


section \<open>Snapshots of the workflow domain\<close>

lemma alloc_deref:
  assumes "\<forall>j < length own. heap ! (n + j) = own ! j" and "own = concat (map (\<lambda>(k, w, runs). runs) xs)"
  shows "map (\<lambda>(k, w). (k, wst_record w, map (\<lambda>r. heap ! r) (wst_runs w))) (alloc_workflows n xs) = xs"
  using assms
proof (induction n xs arbitrary: own rule: alloc_workflows.induct)
  case (2 n k w runs rest)
  have h: "heap ! (n + j) = runs ! j" if "j < length runs" for j using 2(2,3) that by (simp add: nth_append)
  have "map (\<lambda>r. heap ! r) [n..<n + length runs] = runs" by (rule nth_equalityI) (simp_all add: h)
  moreover have "heap ! (n + length runs + j) = concat (map (\<lambda>(k, w, runs). runs) rest) ! j" if "j < length (concat (map (\<lambda>(k, w, runs). runs) rest))" for j
  proof -
    have "heap ! (n + (length runs + j)) = own ! (length runs + j)" using 2(2,3) that by simp
    then show ?thesis using 2(3) by (simp add: add.assoc)
  qed
  ultimately show ?case using 2(1) [OF _ refl] by simp
qed simp

text \<open>Restoring a snapshot yields a state whose snapshot it is: no workflow, run or secret is lost.\<close>

lemma snapshot_restore: "snapshotWorkflows (restoreWorkflows snap s) = snap"
proof -
  define own where "own = concat (map (\<lambda>(k, w, runs). runs) (sn_workflows snap))"
  define heap where "heap = runHeap s @ own @ map snd (sn_workflowRuns snap)"
  let ?b = "length (runHeap s)" and ?n = "length (sn_workflowRuns snap)"
  have 1: "map (\<lambda>(k, w). (k, wst_record w, map (\<lambda>r. heap ! r) (wst_runs w))) (alloc_workflows ?b (sn_workflows snap)) = sn_workflows snap"
    by (rule alloc_deref [OF _ own_def]) (simp add: heap_def nth_append)
  have 2: "map (\<lambda>(k, r). (k, heap ! r)) (map2 (\<lambda>(k, run) r. (k, r)) (sn_workflowRuns snap) [?b + length own..<?b + length own + ?n]) = sn_workflowRuns snap"
  proof (rule nth_equalityI)
    fix j
    assume "j < length (map (\<lambda>(k, r). (k, heap ! r)) (map2 (\<lambda>(k, run) r. (k, r)) (sn_workflowRuns snap) [?b + length own..<?b + length own + ?n]))"
    then have j: "j < ?n" by simp
    have "heap ! (?b + length own + j) = snd (sn_workflowRuns snap ! j)" using j by (simp add: heap_def nth_append)
    then show "map (\<lambda>(k, r). (k, heap ! r)) (map2 (\<lambda>(k, run) r. (k, r)) (sn_workflowRuns snap) [?b + length own..<?b + length own + ?n]) ! j = sn_workflowRuns snap ! j"
      using j by (simp add: case_prod_unfold)
  qed simp
  show ?thesis unfolding snapshotWorkflows_def restoreWorkflows_def Let_def
    using 1 2 by (simp add: own_def [symmetric] heap_def [symmetric])
qed


section \<open>Properties\<close>

text \<open>A run is completed under a lease token only by the worker that holds an unexpired lease with
  exactly that token on the run's session; a stale worker changes nothing.\<close>

theorem complete_run_fenced:
  assumes "completeWorkflowRun e inp s = (r, s')" and "cri_leaseToken inp = Some tok" and "s' \<noteq> s"
  shows "\<exists>ref sid ss l. map_get (workflowRuns s) (key [cri_tenantId inp, cri_runId inp]) = Some ref
     \<and> rn_sessionId (runHeap s ! ref) = Some sid \<and> map_get (sessions s) (key [cri_tenantId inp, sid]) = Some ss
     \<and> ss_lease ss = Some l \<and> tok = Some (wl_leaseToken l) \<and> clock e < wl_leaseExpiresAt l"
  using assms(1) [unfolded completeWorkflowRun_def]
proof (cases rule: finishWorkflowRun_cases)
  case (finished ref w w' run')
  then obtain sid where sid: "rn_sessionId (runHeap s ! ref) = Some sid"
    "assertSessionLease e s (cri_tenantId inp) sid (Some tok) = Inr ()" using assms(2) by auto
  then obtain ss where ss: "requireSession s (cri_tenantId inp) sid = Inr ss" "assertLeaseTokenIfPresent e ss (Some tok) = Inr ()"
    by (auto simp: assertSessionLease_def try_pure_def split: sum.splits)
  then show ?thesis using finished(3) sid(1) by (fastforce simp: requireSession_Inr assertLeaseTokenIfPresent_Inr)
qed (use assms(3) in simp)

text \<open>A scheduled claim either re-claims a run that nobody holds or starts a new run of an active
  workflow; the run it returns is not finished, carries a claim that expires in the future, counts
  one more attempt, and is what the store now holds.\<close>

theorem claim_due_run_exclusive:
  assumes "claimDueWorkflowRun e inp s = (Inr (Some (w, run)), s')" and "run_refs_ok s"
  shows "\<not> run_terminal (rn_status run) \<and> rn_claimToken run \<noteq> None
     \<and> (\<exists>t. rn_claimExpiresAt run = Some t \<and> nowIso e (cd_now inp) < t)
     \<and> ((\<exists>ref < length (runHeap s). rn_claimToken (runHeap s ! ref) = None \<and> runHeap s' = (runHeap s)[ref := run]
            \<and> rn_attemptCount run = rn_attemptCount (runHeap s ! ref) + 1)
        \<or> (runHeap s' = runHeap s @ [run] \<and> rn_attemptCount run = 1 \<and> (\<exists>k w0. (k, w0) \<in> set (workflows s) \<and> wf_status (wst_record w0) = WActive)))"
  using assms(1)
proof (cases rule: claimDueWorkflowRun_cases)
  case (retried ref w0 w' rc)
  obtain k where "map_get (workflowRuns s) k = Some ref" using retried(1) assms(2) values_map_get by (force simp: run_refs_ok_def)
  then have "ref < length (runHeap s)" using assms(2) by (simp add: run_refs_ok_def)
  moreover have "rn_claimToken (runHeap s ! ref) = None" using retried(2) by (simp add: run_retryable_def)
  ultimately show ?thesis using retried run_retryable_not_terminal [OF retried(2)]
    by (auto simp: reclaimed_run_def claim_due_ttl_def)
next
  case (started k w0 w' rc s1)
  then show ?thesis by (auto simp: scheduled_run_def Let_def run_terminal_def claim_due_ttl_def)
qed simp

definition sample_run :: run_record where
  "sample_run = \<lparr> rn_tenantId = ''t'', rn_userId = ''u'', rn_id = ''r1'', rn_workflowId = ''w1'', rn_sessionId = Some ''s1'',
     rn_triggerType = TManual, rn_triggerPayload = None, rn_status = RQueued, rn_title = ''Run'', rn_summary = None, rn_error = None,
     rn_createdAt = 0, rn_startedAt = None, rn_finishedAt = None, rn_claimedBy = None, rn_claimToken = None, rn_claimExpiresAt = None,
     rn_attemptCount = 0, rn_idempotencyKey = None, rn_checkpointVersion = 0, rn_lastErrorCode = None, rn_lastErrorSummary = None \<rparr>"

definition sample_workflow :: workflow_record where
  "sample_workflow = \<lparr> wf_tenantId = ''t'', wf_userId = ''u'', wf_id = ''w1'', wf_title = ''W'', wf_instructions = ''Do it'', wf_agentName = ''build'',
     wf_skillNames = [], wf_toolIds = [], wf_steps = [], wf_status = WRunning, wf_projectDirectory = None, wf_draftSessionId = None,
     wf_triggers = [], wf_createdAt = 0, wf_updatedAt = 0, wf_nextRunAt = None, wf_lastRunAt = None, wf_latestRunId = None,
     wf_latestRunStatus = None, wf_latestRunSessionId = None, wf_latestRunSummary = None, wf_webhookUrl = None \<rparr>"

definition sample_session_record :: session_record where
  "sample_session_record = \<lparr> sr_tenantId = ''t'', sr_userId = ''u'', sr_sessionId = ''s1'', sr_opencodeSessionId = ''o1'', sr_profileName = ''p'',
     sr_status = SRunning, sr_title = None, sr_createdAt = 0, sr_updatedAt = 0, sr_projectSource = None \<rparr>"

definition sample_lease :: worker_lease where
  "sample_lease = \<lparr> wl_tenantId = ''t'', wl_sessionId = ''s1'', wl_leasedBy = ''wk'', wl_leaseToken = ''tok'', wl_leaseExpiresAt = 1000, wl_checkpointVersion = 0 \<rparr>"

definition sample_session :: session_state where
  "sample_session = \<lparr> ss_record = sample_session_record, ss_nextEventSequence = 0, ss_nextCommandSequence = 0, ss_nextLeaseAttempt = 1,
     ss_lease = Some sample_lease, ss_events = [], ss_projection = None, ss_commands = [] \<rparr>"

definition sample_tenant :: tenant_record where
  "sample_tenant = \<lparr> tn_tenantId = ''t'', tn_name = ''t'', tn_createdAt = 0 \<rparr>"

definition sample_user :: user_record where
  "sample_user = \<lparr> us_tenantId = ''t'', us_userId = ''u'', us_email = ''u@x'', us_role = Member, us_createdAt = 0 \<rparr>"

definition sample_workflow_store :: "run_record \<Rightarrow> workflow_store" where
  "sample_workflow_store run = \<lparr> tenants = [(''t'', sample_tenant)], users = [(key [''t'', ''u''], sample_user)], orgs = [(''o'', sample_org)],
     orgsByTenant = [(''t'', ''o'')], accounts = [], accountsBySubject = [], accountsByEmail = [], memberships = [], auditEvents = [],
     usageCounters = [], sessions = [(key [''t'', ''s1''], sample_session)], artifactIndex = [], launchpadSessionSummaries = [],
     workspaceEvents = [], workflows = [(key [''t'', ''w1''], \<lparr> wst_record = sample_workflow, wst_runs = [0] \<rparr>)], runHeap = [run],
     workflowRuns = [(key [''t'', ''r1''], 0)], workflowWebhookSecrets = [], legacyWorkflowWebhookSecrets = [] \<rparr>"

definition sample_complete :: complete_run_input where
  "sample_complete = \<lparr> cri_tenantId = ''t'', cri_workflowId = ''w1'', cri_runId = ''r1'', cri_summary = Some ''ok'', cri_nextStatus = WActive,
     cri_nextRunAt = None, cri_leaseToken = Some (Some ''tok''), cri_finishedAt = None \<rparr>"

lemma sample_refs_ok: "run_refs_ok (sample_workflow_store run)"
  by (simp add: run_refs_ok_def sample_workflow_store_def map_ok_def map_get_def)

theorem complete_run_fenced_witness:
  "\<exists>ref sid ss l. map_get (workflowRuns (sample_workflow_store sample_run)) (key [cri_tenantId sample_complete, cri_runId sample_complete]) = Some ref
     \<and> rn_sessionId (runHeap (sample_workflow_store sample_run) ! ref) = Some sid
     \<and> map_get (sessions (sample_workflow_store sample_run)) (key [cri_tenantId sample_complete, sid]) = Some ss
     \<and> ss_lease ss = Some l \<and> Some ''tok'' = Some (wl_leaseToken l) \<and> clock sample_env < wl_leaseExpiresAt l"
proof (rule complete_run_fenced [OF surjective_pairing])
  show "cri_leaseToken sample_complete = Some (Some ''tok'')" by (simp add: sample_complete_def)
  have "runHeap (snd (completeWorkflowRun sample_env sample_complete (sample_workflow_store sample_run))) ! 0 \<noteq> sample_run" by code_simp
  then show "snd (completeWorkflowRun sample_env sample_complete (sample_workflow_store sample_run)) \<noteq> sample_workflow_store sample_run"
    by (auto simp: sample_workflow_store_def)
qed

definition sample_claim :: claim_due_input where
  "sample_claim = \<lparr> cd_runId = ''r2'', cd_sessionId = None, cd_claimedBy = None, cd_leaseTtlMs = None, cd_now = None, cd_quota = None \<rparr>"

theorem claim_due_run_exclusive_witness:
  "\<exists>w run s'. claimDueWorkflowRun sample_env sample_claim (sample_workflow_store sample_run) = (Inr (Some (w, run)), s')
     \<and> rn_claimToken run \<noteq> None \<and> rn_id run = ''r1''"
proof -
  define c where "c = fst (claimDueWorkflowRun sample_env sample_claim (sample_workflow_store sample_run))"
  have "case c of Inr (Some (w, run)) \<Rightarrow> rn_id run = ''r1'' | _ \<Rightarrow> False" unfolding c_def by code_simp
  then obtain w run where "c = Inr (Some (w, run))" "rn_id run = ''r1''" by (auto split: sum.splits option.splits)
  then have run: "claimDueWorkflowRun sample_env sample_claim (sample_workflow_store sample_run)
      = (Inr (Some (w, run)), snd (claimDueWorkflowRun sample_env sample_claim (sample_workflow_store sample_run)))"
    by (simp add: c_def prod_eq_iff)
  from claim_due_run_exclusive [OF run sample_refs_ok] run \<open>rn_id run = ''r1''\<close> show ?thesis by blast
qed

end
