(* ===== verification/Session_Store.thy ===== *)
theory Session_Store
  imports Workflow_Runs
begin

text \<open>
  The session domain (\<open>in-memory-domains/sessions.ts\<close>): session lifecycle, the event log and its
  projection, worker leases with fencing, the command queue, lease recovery, and the derived artifact
  and launchpad indexes. An operation that mutates a session object writes the mutated record back
  under its key (\<open>put_session\<close>). Page cursors are the decoded pairs; their text encoding
  (\<open>session-page-cursor.ts\<close>) is not modelled.
\<close>


section \<open>Inputs and results\<close>

record session_quota =
  sq_orgId :: "string option"
  sq_maxPerOrg :: "int option"
  sq_policyCode :: "string option"

record create_session_input =
  cs_tenantId :: string
  cs_userId :: string
  cs_sessionId :: string
  cs_opencodeSessionId :: string
  cs_profileName :: string
  cs_title :: "string option"
  cs_createdAt :: "iso option"
  cs_quota :: "session_quota option"

record append_event_input =
  ap_tenantId :: string
  ap_sessionId :: string
  ap_eventId :: "string option"
  ap_type :: string
  ap_payload :: "json option"
  ap_leaseToken :: "string option option"
  ap_createdAt :: "iso option"

record write_projection_input =
  wpi_tenantId :: string
  wpi_sessionId :: string
  wpi_sequence :: int
  wpi_view :: json
  wpi_leaseToken :: "string option option"
  wpi_updatedAt :: "iso option"

record workspace_descriptor =
  de_eventId :: string
  de_entityType :: string
  de_entityId :: string
  de_operation :: string
  de_projectionVersion :: int

datatype workflow_terminal = TerminalCompleted complete_run_input | TerminalFailed fail_run_input

text \<open>\<open>workspace\<close> and \<open>project\<close> are callbacks of the caller; either may throw.\<close>

record projected_event_input =
  pe_event :: append_event_input
  pe_sessionStatus :: "session_status option"
  pe_workflowTerminal :: "workflow_terminal option"
  pe_workspace :: "session_record \<Rightarrow> session_event \<Rightarrow> error + workspace_descriptor"
  pe_project :: "session_record \<Rightarrow> session_event \<Rightarrow> session_projection option \<Rightarrow> error + (json \<times> iso option)"

record projected_event_result =
  pr_event :: session_event
  pr_workspaceEvent :: workspace_event
  pr_projection :: "session_projection option"
  pr_session :: session_record
  pr_sessionEventCreated :: bool
  pr_workspaceEventCreated :: bool
  pr_projectionAdvanced :: bool

record enqueue_input =
  en_commandId :: string
  en_tenantId :: string
  en_userId :: string
  en_sessionId :: string
  en_kind :: command_kind
  en_payload :: "json option"
  en_targetLeaseToken :: "string option"
  en_createdAt :: "iso option"
  en_quota :: "command_queue_quota option"
  en_usageQuotas :: "usage_quota_input list"

record quota_reservation =
  qr_quotaKey :: string
  qr_windowStartedAtMs :: int
  qr_quantity :: int

record defer_input =
  df_retryAfterMs :: jsnum
  df_errorCode :: string
  df_errorSummary :: string
  df_now :: "iso option"
  df_quotaReservation :: "quota_reservation option"

record checkpoint_ack_result =
  ca_lease :: worker_lease
  ca_command :: session_command
  ca_checkpointAdvanced :: bool
  ca_commandAcked :: bool

record reaped_lease =
  rd_tenantId :: string
  rd_sessionId :: string
  rd_leaseToken :: string
  rd_leasedBy :: string
  rd_action :: reaper_action
  rd_retriedCommandIds :: "string list"
  rd_failedCommandIds :: "string list"
  rd_reapedAt :: iso

record session_page_input =
  sp_tenantId :: string
  sp_userId :: string
  sp_limit :: "jsnum option"
  sp_cursor :: "(iso \<times> string) option"
  sp_status :: "session_status option"
  sp_profileName :: "string option"
  sp_query :: "string option"

record session_page =
  pg_items :: "session_record list"
  pg_nextCursor :: "(iso \<times> string) option"
  pg_totalEstimate :: int

record artifact_query =
  arq_tenantId :: string
  arq_userId :: string
  arq_sessionId :: "string option"
  arq_projectId :: "string option"
  arq_taskId :: "string option"
  arq_taskIds :: "string list option"
  arq_status :: "string option"
  arq_kind :: "string option"
  arq_limit :: "int option"


section \<open>Lifecycle and listings\<close>

definition activeSessionCount :: "'a session_store_scheme \<Rightarrow> string \<Rightarrow> int" where
  "activeSessionCount s orgId =
     int (length (filter (\<lambda>ss. orgIdForTenant s (sr_tenantId (ss_record ss)) = orgId \<and> sr_status (ss_record ss) \<noteq> SClosed)
       (map_values (sessions s))))"

definition createSession ::
  "env \<Rightarrow> create_session_input \<Rightarrow> 'a session_store_scheme \<Rightarrow> ('a session_store_scheme, session_record) outcome" where
  "createSession e inp s =
     try_in s (requireTenantUser s (cs_tenantId inp) (cs_userId inp)) (\<lambda>_.
       case map_get (sessions s) (key [cs_tenantId inp, cs_sessionId inp]) of
         Some existing \<Rightarrow> (Inr (ss_record existing), s)
       | None \<Rightarrow>
           try_in s
             (case positive_limit (Option.bind (cs_quota inp) sq_maxPerOrg) of
                None \<Rightarrow> Inr ()
              | Some mx \<Rightarrow>
                  (let orgId = or_else (Option.bind (cs_quota inp) sq_orgId) (orgIdForTenant s (cs_tenantId inp));
                       active = activeSessionCount s orgId
                   in if active \<ge> mx
                      then Inl (quotaExceeded ''Concurrent cloud session quota exceeded.''
                        (or_else (Option.bind (cs_quota inp) sq_policyCode) ''quota.concurrent_sessions_exceeded'')
                        60000 mx active (clock e + 60000))
                      else Inr ()))
             (\<lambda>_.
               let createdAt = nowIso e (cs_createdAt inp);
                   rcd = \<lparr> sr_tenantId = cs_tenantId inp, sr_userId = cs_userId inp, sr_sessionId = cs_sessionId inp,
                     sr_opencodeSessionId = cs_opencodeSessionId inp, sr_profileName = cs_profileName inp, sr_status = SIdle,
                     sr_title = or_null (cs_title inp), sr_createdAt = createdAt, sr_updatedAt = createdAt, sr_projectSource = None \<rparr>
               in (Inr rcd, put_session (cs_tenantId inp) (cs_sessionId inp)
                     \<lparr> ss_record = rcd, ss_nextEventSequence = 0, ss_nextCommandSequence = 0, ss_nextLeaseAttempt = 0, ss_lease = None,
                        ss_events = [], ss_projection = None, ss_commands = [] \<rparr> s)))"

definition getSession :: "'a session_store_scheme \<Rightarrow> string \<Rightarrow> string \<Rightarrow> string \<Rightarrow> error + session_record option" where
  "getSession s tenantId userId sessionId =
     try_pure (requireTenantUser s tenantId userId) (\<lambda>_.
       Inr (case map_get (sessions s) (key [tenantId, sessionId]) of
              Some ss \<Rightarrow> (if sr_userId (ss_record ss) \<noteq> userId then None else Some (ss_record ss)) | None \<Rightarrow> None))"

text \<open>The resulting \<open>Set\<close> as the list of its elements, in insertion order.\<close>

definition getOwnedSessionIds :: "'a session_store_scheme \<Rightarrow> string \<Rightarrow> string \<Rightarrow> string list \<Rightarrow> error + string list" where
  "getOwnedSessionIds s tenantId userId sessionIds =
     try_pure (requireTenantUser s tenantId userId) (\<lambda>_.
       Inr (fold (\<lambda>i owned. case map_get (sessions s) (key [tenantId, i]) of
              Some ss \<Rightarrow> (if sr_userId (ss_record ss) = userId \<and> i \<notin> set owned then owned @ [i] else owned) | None \<Rightarrow> owned)
            sessionIds []))"

definition getSessionForTenant :: "'a session_store_scheme \<Rightarrow> string \<Rightarrow> string \<Rightarrow> error + session_record option" where
  "getSessionForTenant s tenantId sessionId =
     try_pure (requireTenant s tenantId) (\<lambda>_.
       Inr (map_option ss_record (map_get (sessions s) (key [tenantId, sessionId]))))"

definition findSession :: "'a session_store_scheme \<Rightarrow> string \<Rightarrow> session_record option" where
  "findSession s sessionId =
     map_option ss_record (find (\<lambda>ss. sr_sessionId (ss_record ss) = sessionId \<or> sr_opencodeSessionId (ss_record ss) = sessionId)
       (map_values (sessions s)))"

definition sessionRecordWithProjectSource :: "'a session_store_scheme \<Rightarrow> session_record \<Rightarrow> session_record" where
  "sessionRecordWithProjectSource s rcd =
     (let source = (case map_get (sessions s) (key [sr_tenantId rcd, sr_sessionId rcd]) of
            Some ss \<Rightarrow> (case ss_projection ss of
                Some p \<Rightarrow> normalizeCloudProjectSource (json_field (pj_view p) ''projectSource'') | None \<Rightarrow> None)
          | None \<Rightarrow> None)
      in rcd\<lparr> sr_projectSource := summarizeCloudProjectSource source \<rparr>)"

definition cmp_sessions :: "env \<Rightarrow> session_record \<Rightarrow> session_record \<Rightarrow> int" where
  "cmp_sessions e = cmp_then (cmp_rev (cmp_by sr_updatedAt cmp_int)) (cmp_by sr_sessionId (locale_compare e))"

definition listSessions :: "env \<Rightarrow> 'a session_store_scheme \<Rightarrow> string \<Rightarrow> string \<Rightarrow> error + session_record list" where
  "listSessions e s tenantId userId =
     try_pure (requireTenantUser s tenantId userId) (\<lambda>_.
       Inr (map (sessionRecordWithProjectSource s) (take 1000 (js_sort (cmp_sessions e)
         (filter (\<lambda>r. sr_tenantId r = tenantId \<and> sr_userId r = userId) (map ss_record (map_values (sessions s))))))))"

definition session_after_cursor :: "session_record \<Rightarrow> iso \<times> string \<Rightarrow> bool" where
  "session_after_cursor r c = (sr_updatedAt r < fst c \<or> (sr_updatedAt r = fst c \<and> str_less (snd c) (sr_sessionId r)))"

definition session_matches :: "session_page_input \<Rightarrow> session_record \<Rightarrow> bool" where
  "session_matches inp r =
     (let query = or_null (map_option (\<lambda>q. js_lower (js_trim q)) (sp_query inp)) in
      sr_tenantId r = sp_tenantId inp \<and> sr_userId r = sp_userId inp
      \<and> (case sp_status inp of None \<Rightarrow> True | Some st \<Rightarrow> sr_status r = st)
      \<and> (case or_null (sp_profileName inp) of None \<Rightarrow> True | Some p \<Rightarrow> sr_profileName r = p)
      \<and> (case query of None \<Rightarrow> True
         | Some q \<Rightarrow> list_ex (\<lambda>field. str_includes (js_lower field) q)
             [coalesce (sr_title r) [], sr_sessionId r, sr_opencodeSessionId r, sr_profileName r]))"

definition listSessionsPage :: "env \<Rightarrow> 'a session_store_scheme \<Rightarrow> session_page_input \<Rightarrow> error + session_page" where
  "listSessionsPage e s inp =
     try_pure (requireTenantUser s (sp_tenantId inp) (sp_userId inp)) (\<lambda>_.
       let limit = js_int (normalizeListLimit (sp_limit inp) 100 500);
           filtered = filter (\<lambda>r. case sp_cursor inp of None \<Rightarrow> True | Some c \<Rightarrow> session_after_cursor r c)
             (js_sort (cmp_sessions e) (filter (session_matches inp) (map ss_record (map_values (sessions s)))));
           page = slice_int filtered limit;
           hasMore = int (length filtered) > limit
       in Inr \<lparr> pg_items = map (sessionRecordWithProjectSource s) page,
            pg_nextCursor = (if hasMore \<and> page \<noteq> [] then Some (sr_updatedAt (last page), sr_sessionId (last page)) else None),
            pg_totalEstimate = (if hasMore then limit + 1 else int (length filtered)) \<rparr>)"

text \<open>The oldest runnable command of a session, unless a live lease or a deferral holds it back.\<close>

definition runnable_first :: "int \<Rightarrow> session_state \<Rightarrow> int option" where
  "runnable_first nowMs ss =
     (if (case ss_lease ss of Some l \<Rightarrow> wl_leaseExpiresAt l > nowMs | None \<Rightarrow> False) then None
      else case js_sort (cmp_by cmd_createdSequence cmp_int)
             (filter (\<lambda>c. cmd_targetLeaseToken c = None \<and> (cmd_status c = CPending \<or> cmd_status c = CRunning)) (ss_commands ss)) of
        [] \<Rightarrow> None
      | c # _ \<Rightarrow>
          if cmd_status c = CPending \<and> (case cmd_availableAt c of Some t \<Rightarrow> t > nowMs | None \<Rightarrow> False) then None
          else Some (cmd_createdSequence c))"

definition runnableSessionCandidates :: "env \<Rightarrow> int \<Rightarrow> 'a session_store_scheme \<Rightarrow> (session_state \<times> int) list" where
  "runnableSessionCandidates e nowMs s =
     js_sort (cmp_then (cmp_by snd cmp_int)
         (cmp_then (cmp_by (\<lambda>p. sr_tenantId (ss_record (fst p))) (locale_compare e))
           (cmp_by (\<lambda>p. sr_sessionId (ss_record (fst p))) (locale_compare e))))
       (List.map_filter (\<lambda>ss. map_option (Pair ss) (runnable_first nowMs ss)) (map_values (sessions s)))"

definition listRunnableSessions ::
  "env \<Rightarrow> 'a session_store_scheme \<Rightarrow> int option \<Rightarrow> iso option \<Rightarrow> (string \<times> string) list \<times> int" where
  "listRunnableSessions e s limitIn nowIn =
     (let limit = max 1 (min 1000 (coalesce limitIn 100));
          candidates = runnableSessionCandidates e (nowIso e nowIn) s
      in (map (\<lambda>p. (sr_tenantId (ss_record (fst p)), sr_sessionId (ss_record (fst p)))) (slice_int candidates limit),
          if int (length candidates) > limit then limit + 1 else int (length candidates)))"

text \<open>A title argument of \<open>undefined\<close> (\<open>None\<close>) leaves the title; \<open>null\<close> clears it.\<close>

definition bindSessionRuntime ::
  "env \<Rightarrow> string \<Rightarrow> string \<Rightarrow> string \<Rightarrow> string option option \<Rightarrow> string option option \<Rightarrow> iso option \<Rightarrow> 'a session_store_scheme
    \<Rightarrow> ('a session_store_scheme, session_record) outcome" where
  "bindSessionRuntime e tenantId sessionId opencodeSessionId title leaseToken updatedAt s =
     try_in s (requireSession s tenantId sessionId) (\<lambda>ss.
     try_in s (assertLeaseTokenIfPresent e ss leaseToken) (\<lambda>_.
       let r0 = ss_record ss;
           rcd = r0\<lparr> sr_opencodeSessionId := opencodeSessionId, sr_title := coalesce title (sr_title r0), sr_updatedAt := nowIso e updatedAt \<rparr>
       in (Inr rcd, put_session tenantId sessionId (ss\<lparr> ss_record := rcd \<rparr>) s)))"

definition updateSessionStatus ::
  "env \<Rightarrow> string \<Rightarrow> string \<Rightarrow> session_status \<Rightarrow> string option option \<Rightarrow> string option option \<Rightarrow> iso option \<Rightarrow> 'a session_store_scheme
    \<Rightarrow> ('a session_store_scheme, session_record) outcome" where
  "updateSessionStatus e tenantId sessionId status title leaseToken updatedAt s =
     try_in s (requireSession s tenantId sessionId) (\<lambda>ss.
     try_in s (assertLeaseTokenIfPresent e ss leaseToken) (\<lambda>_.
       let r0 = ss_record ss;
           rcd = r0\<lparr> sr_status := status, sr_title := coalesce title (sr_title r0), sr_updatedAt := nowIso e updatedAt \<rparr>
       in (Inr rcd, put_session tenantId sessionId (ss\<lparr> ss_record := rcd \<rparr>) s)))"


section \<open>Events and projections\<close>

definition event_id :: "append_event_input \<Rightarrow> session_state \<Rightarrow> string" where
  "event_id inp ss = or_else (ap_eventId inp) (ap_sessionId inp @ '':'' @ show_int (ss_nextEventSequence ss + 1))"

definition event_of :: "env \<Rightarrow> append_event_input \<Rightarrow> session_state \<Rightarrow> session_event" where
  "event_of e inp ss =
     \<lparr> ev_tenantId = ap_tenantId inp, ev_sessionId = ap_sessionId inp, ev_eventId = event_id inp ss,
       ev_sequence = ss_nextEventSequence ss + 1, ev_type = ap_type inp, ev_payload = coalesce (ap_payload inp) (JObj []),
       ev_createdAt = nowIso e (ap_createdAt inp) \<rparr>"

definition append_event :: "session_event \<Rightarrow> session_state \<Rightarrow> session_state" where
  "append_event ev ss =
     ss\<lparr> ss_nextEventSequence := ss_nextEventSequence ss + 1, ss_events := ss_events ss @ [ev],
        ss_record := (ss_record ss)\<lparr> sr_updatedAt := ev_createdAt ev \<rparr> \<rparr>"

definition appendSessionEvent ::
  "env \<Rightarrow> append_event_input \<Rightarrow> 'a session_store_scheme \<Rightarrow> ('a session_store_scheme, session_event) outcome" where
  "appendSessionEvent e inp s =
     try_in s (requireSession s (ap_tenantId inp) (ap_sessionId inp)) (\<lambda>ss.
     try_in s (assertLeaseTokenIfPresent e ss (ap_leaseToken inp)) (\<lambda>_.
       case find (\<lambda>ev. ev_eventId ev = event_id inp ss) (ss_events ss) of
         Some existing \<Rightarrow>
           if ev_type existing \<noteq> ap_type inp
             \<or> stableJson (locale_compare e) (ev_payload existing) \<noteq> stableJson (locale_compare e) (coalesce (ap_payload inp) (JObj []))
           then (Inl (Error (''Event id '' @ event_id inp ss @ '' was reused with different content.'')), s)
           else (Inr existing, s)
       | None \<Rightarrow>
           (Inr (event_of e inp ss), put_session (ap_tenantId inp) (ap_sessionId inp) (append_event (event_of e inp ss) ss) s)))"

definition listSessionEvents ::
  "'a session_store_scheme \<Rightarrow> string \<Rightarrow> string \<Rightarrow> int \<Rightarrow> jsnum option \<Rightarrow> error + session_event list" where
  "listSessionEvents s tenantId sessionId afterSequence limit =
     try_pure (requireSession s tenantId sessionId) (\<lambda>ss. Inr (sliceEventsAfter ev_sequence (ss_events ss) afterSequence limit))"

definition listSessionEventsForStream ::
  "'a session_store_scheme \<Rightarrow> string \<Rightarrow> string \<Rightarrow> int \<Rightarrow> jsnum option \<Rightarrow> session_event list" where
  "listSessionEventsForStream s tenantId sessionId afterSequence limit =
     (case map_get (sessions s) (key [tenantId, sessionId]) of
        None \<Rightarrow> [] | Some ss \<Rightarrow> sliceEventsAfter ev_sequence (ss_events ss) afterSequence limit)"

definition getSessionEventStats ::
  "'a session_store_scheme \<Rightarrow> string \<Rightarrow> string \<Rightarrow> error + (int \<times> int option \<times> int)" where
  "getSessionEventStats s tenantId sessionId =
     try_pure (requireSession s tenantId sessionId) (\<lambda>ss.
       Inr (int (length (ss_events ss)),
         fold (\<lambda>ev earliest. case earliest of None \<Rightarrow> Some (ev_sequence ev)
             | Some m \<Rightarrow> (if ev_sequence ev < m then Some (ev_sequence ev) else Some m)) (ss_events ss) None,
         fold (\<lambda>ev latest. if ev_sequence ev > latest then ev_sequence ev else latest) (ss_events ss) 0))"

definition projection_sequence :: "session_state \<Rightarrow> int" where
  "projection_sequence ss = (case ss_projection ss of Some p \<Rightarrow> pj_sequence p | None \<Rightarrow> 0)"

definition put_projection :: "session_projection \<Rightarrow> session_state \<Rightarrow> session_state" where
  "put_projection p ss = ss\<lparr> ss_projection := Some p, ss_record := (ss_record ss)\<lparr> sr_updatedAt := pj_updatedAt p \<rparr> \<rparr>"

definition writeSessionProjection ::
  "env \<Rightarrow> write_projection_input \<Rightarrow> 'a session_store_scheme \<Rightarrow> ('a session_store_scheme, session_projection) outcome" where
  "writeSessionProjection e inp s =
     try_in s (requireSession s (wpi_tenantId inp) (wpi_sessionId inp)) (\<lambda>ss.
       if (case ss_lease ss of Some l \<Rightarrow> wpi_leaseToken inp \<noteq> Some (Some (wl_leaseToken l)) | None \<Rightarrow> False)
       then (Inl (Error ''Projection write used a stale worker lease.''), s)
       else if wpi_sequence inp < projection_sequence ss
       then (Inl (Error ''Projection sequence must be monotonic.''), s)
       else case ss_projection ss of
         Some p \<Rightarrow>
           if wpi_sequence inp = pj_sequence p
           then (if stableJson (locale_compare e) (pj_view p) \<noteq> stableJson (locale_compare e) (wpi_view inp)
                 then (Inl (Error ''Projection sequence was reused with different content.''), s)
                 else (Inr p, s))
           else (let np = \<lparr> pj_tenantId = wpi_tenantId inp, pj_sessionId = wpi_sessionId inp, pj_sequence = wpi_sequence inp,
                   pj_view = wpi_view inp, pj_updatedAt = nowIso e (wpi_updatedAt inp) \<rparr>
                 in (Inr np, put_session (wpi_tenantId inp) (wpi_sessionId inp) (put_projection np ss) s))
       | None \<Rightarrow>
           (let np = \<lparr> pj_tenantId = wpi_tenantId inp, pj_sessionId = wpi_sessionId inp, pj_sequence = wpi_sequence inp,
                   pj_view = wpi_view inp, pj_updatedAt = nowIso e (wpi_updatedAt inp) \<rparr>
            in (Inr np, put_session (wpi_tenantId inp) (wpi_sessionId inp) (put_projection np ss) s)))"

definition getSessionProjection :: "'a session_store_scheme \<Rightarrow> string \<Rightarrow> string \<Rightarrow> error + session_projection option" where
  "getSessionProjection s tenantId sessionId =
     try_pure (requireSession s tenantId sessionId) (\<lambda>ss. Inr (ss_projection ss))"

definition getMaxProjectionLag :: "env \<Rightarrow> 'a session_store_scheme \<Rightarrow> int" where
  "getMaxProjectionLag e s =
     (let windowStartMs = clock e - 60 * 60 * 1000 in
      fold (\<lambda>ss maxLag.
          if ss_nextEventSequence ss \<le> 0 \<or> sr_updatedAt (ss_record ss) \<le> windowStartMs then maxLag
          else max maxLag ((ss_nextEventSequence ss - 1) - projection_sequence ss)) (map_values (sessions s)) 0)"

definition applyProjectedEventEffects ::
  "env \<Rightarrow> projected_event_input \<Rightarrow> iso \<Rightarrow> 'a workflow_store_scheme \<Rightarrow> ('a workflow_store_scheme, unit) outcome" where
  "applyProjectedEventEffects e inp updatedAt s =
     (let t = ap_tenantId (pe_event inp); i = ap_sessionId (pe_event inp);
          s1 = (case (pe_sessionStatus inp, map_get (sessions s) (key [t, i])) of
              (Some st, Some ss) \<Rightarrow>
                put_session t i (ss\<lparr> ss_record := (ss_record ss)\<lparr> sr_status := st, sr_updatedAt := updatedAt \<rparr> \<rparr>) s
            | _ \<Rightarrow> s)
      in case pe_workflowTerminal inp of
           Some (TerminalCompleted ci) \<Rightarrow> then_do (completeWorkflowRun e ci s1) (\<lambda>_ s2. (Inr (), s2))
         | Some (TerminalFailed fi) \<Rightarrow> then_do (failWorkflowRun e fi s1) (\<lambda>_ s2. (Inr (), s2))
         | None \<Rightarrow> (Inr (), s1))"

definition session_at :: "'a session_store_scheme \<Rightarrow> string \<Rightarrow> string \<Rightarrow> session_state" where
  "session_at s tenantId sessionId = the (map_get (sessions s) (key [tenantId, sessionId]))"

definition workspace_input_of ::
  "projected_event_input \<Rightarrow> string \<Rightarrow> workspace_descriptor \<Rightarrow> session_event \<Rightarrow> workspace_event_input" where
  "workspace_input_of inp userId d event =
     \<lparr> wi_tenantId = ap_tenantId (pe_event inp), wi_userId = userId, wi_sessionId = Some (ap_sessionId (pe_event inp)),
       wi_eventId = Some (de_eventId d), wi_entityType = Some (de_entityType d), wi_entityId = Some (de_entityId d),
       wi_operation = Some (de_operation d), wi_projectionVersion = Some (JInt (de_projectionVersion d)),
       wi_type = ap_type (pe_event inp), wi_payload = Some (coalesce (ap_payload (pe_event inp)) (JObj [])),
       wi_createdAt = Some (ev_createdAt event) \<rparr>"

text \<open>The guarded block of \<open>appendProjectedSessionEvent\<close>, before the rollback of its \<open>catch\<close>.\<close>

definition projected_append ::
  "env \<Rightarrow> projected_event_input \<Rightarrow> session_state \<Rightarrow> 'a workflow_store_scheme \<Rightarrow> ('a workflow_store_scheme, projected_event_result) outcome" where
  "projected_append e inp ss0 s =
     (let t = ap_tenantId (pe_event inp); i = ap_sessionId (pe_event inp);
          eventExisted = (case or_null (ap_eventId (pe_event inp)) of
              Some eid \<Rightarrow> list_ex (\<lambda>ev. ev_eventId ev = eid) (ss_events ss0) | None \<Rightarrow> False)
      in then_do (appendSessionEvent e (pe_event inp) s) (\<lambda>event s1.
           let userId = sr_userId (ss_record (session_at s1 t i)) in
           try_in s1 (pe_workspace inp (ss_record (session_at s1 t i)) event) (\<lambda>d.
           let workspaceExisted = (findWorkspaceEvent s1 t userId (de_eventId d) \<noteq> None) in
           then_do (appendWorkspaceEvent e (workspace_input_of inp userId d event) s1) (\<lambda>wev s2.
           let current = ss_projection (session_at s2 t i) in
           if projection_sequence (session_at s2 t i) \<ge> ev_sequence event
           then then_do (applyProjectedEventEffects e inp (ev_createdAt event) s2) (\<lambda>_ s3.
                  (Inr \<lparr> pr_event = event, pr_workspaceEvent = wev, pr_projection = current,
                     pr_session = ss_record (session_at s3 t i), pr_sessionEventCreated = \<not> eventExisted,
                     pr_workspaceEventCreated = \<not> workspaceExisted, pr_projectionAdvanced = False \<rparr>, s3))
           else try_in s2 (pe_project inp (ss_record (session_at s2 t i)) event current) (\<lambda>(view, updatedAt).
                then_do (writeSessionProjection e \<lparr> wpi_tenantId = t, wpi_sessionId = i, wpi_sequence = ev_sequence event,
                    wpi_view = view, wpi_leaseToken = ap_leaseToken (pe_event inp),
                    wpi_updatedAt = Some (coalesce updatedAt (ev_createdAt event)) \<rparr> s2) (\<lambda>projection s3.
                then_do (applyProjectedEventEffects e inp (pj_updatedAt projection) s3) (\<lambda>_ s4.
                  (Inr \<lparr> pr_event = event, pr_workspaceEvent = wev, pr_projection = Some projection,
                     pr_session = ss_record (session_at s4 t i), pr_sessionEventCreated = \<not> eventExisted,
                     pr_workspaceEventCreated = \<not> workspaceExisted, pr_projectionAdvanced = True \<rparr>, s4))))))))"

definition appendProjectedSessionEvent ::
  "env \<Rightarrow> projected_event_input \<Rightarrow> 'a workflow_store_scheme \<Rightarrow> ('a workflow_store_scheme, projected_event_result) outcome" where
  "appendProjectedSessionEvent e inp s =
     (let t = ap_tenantId (pe_event inp); i = ap_sessionId (pe_event inp) in
      try_in s (requireSession s t i) (\<lambda>sessionBefore.
        let workspaceBefore = snapshotWorkspaceEvents s; workflowsBefore = snapshotWorkflows s in
        case projected_append e inp sessionBefore s of
          (Inr r, s') \<Rightarrow> (Inr r, s')
        | (Inl err, s') \<Rightarrow>
            (Inl err, restoreWorkflows workflowsBefore (restoreWorkspaceEvents workspaceBefore (put_session t i sessionBefore s')))))"


section \<open>Derived indexes\<close>

definition artifactIndexKey :: "string \<Rightarrow> string \<Rightarrow> string \<Rightarrow> string" where
  "artifactIndexKey tenantId sessionId artifactId = key [tenantId, sessionId, artifactId]"

definition session_title :: "'a session_store_scheme \<Rightarrow> string \<Rightarrow> string \<Rightarrow> string option" where
  "session_title s tenantId sessionId =
     (case map_get (sessions s) (key [tenantId, sessionId]) of Some ss \<Rightarrow> or_null (sr_title (ss_record ss)) | None \<Rightarrow> None)"

text \<open>The \<open>sessionTitle\<close> of the input record is ignored (the input type omits it).\<close>

definition upsertCloudArtifactIndex ::
  "artifact_index_record \<Rightarrow> 'a session_store_scheme \<Rightarrow> ('a session_store_scheme, artifact_index_record) outcome" where
  "upsertCloudArtifactIndex inp s =
     try_in s (requireTenantUser s (ax_tenantId inp) (ax_userId inp)) (\<lambda>_.
     try_in s (assertSessionBelongsToUser s (ax_tenantId inp) (ax_sessionId inp) (ax_userId inp)) (\<lambda>_.
     try_in s (requireSession s (ax_tenantId inp) (ax_sessionId inp)) (\<lambda>ss.
       let rcd = inp\<lparr> ax_sessionTitle := or_null (sr_title (ss_record ss)) \<rparr>
       in (Inr rcd, s\<lparr> artifactIndex := map_set (artifactIndexKey (ax_tenantId inp) (ax_sessionId inp) (ax_artifactId inp)) rcd (artifactIndex s) \<rparr>))))"

definition getCloudArtifactIndexRecord ::
  "'a session_store_scheme \<Rightarrow> string \<Rightarrow> string \<Rightarrow> string \<Rightarrow> string \<Rightarrow> error + artifact_index_record option" where
  "getCloudArtifactIndexRecord s tenantId userId sessionId artifactId =
     try_pure (requireTenantUser s tenantId userId) (\<lambda>_.
       Inr (case map_get (artifactIndex s) (artifactIndexKey tenantId sessionId artifactId) of
              None \<Rightarrow> None
            | Some r \<Rightarrow> if ax_userId r \<noteq> userId then None
                       else Some (r\<lparr> ax_sessionTitle := session_title s (ax_tenantId r) (ax_sessionId r) \<rparr>)))"

definition cloudArtifactMatchesIndexInput :: "artifact_index_record \<Rightarrow> artifact_query \<Rightarrow> bool" where
  "cloudArtifactMatchesIndexInput r q =
     (let taskIds = filter (\<lambda>t. t \<noteq> []) (coalesce (arq_taskIds q) []);
          inTasks = (case or_null (ax_taskId r) of Some t \<Rightarrow> t \<in> set taskIds | None \<Rightarrow> False)
      in ax_tenantId r = arq_tenantId q \<and> ax_userId r = arq_userId q
         \<and> (case or_null (arq_sessionId q) of None \<Rightarrow> True | Some i \<Rightarrow> ax_sessionId r = i)
         \<and> (case or_null (arq_projectId q) of None \<Rightarrow> True | Some p \<Rightarrow> ax_projectId r = Some p \<or> inTasks)
         \<and> (case or_null (arq_taskId q) of None \<Rightarrow> True | Some t \<Rightarrow> ax_taskId r = Some t)
         \<and> (or_null (arq_projectId q) \<noteq> None \<or> taskIds = [] \<or> inTasks)
         \<and> (case or_null (arq_status q) of None \<Rightarrow> True | Some st \<Rightarrow> ax_status r = st)
         \<and> (case or_null (arq_kind q) of None \<Rightarrow> True | Some k \<Rightarrow> ax_kind r = k))"

definition compareCloudArtifacts :: "env \<Rightarrow> artifact_index_record \<Rightarrow> artifact_index_record \<Rightarrow> int" where
  "compareCloudArtifacts e =
     cmp_then (cmp_rev (cmp_by ax_updatedAt cmp_int))
       (cmp_then (cmp_by ax_sessionId (locale_compare e)) (cmp_by ax_artifactId (locale_compare e)))"

definition list_limit_or_100 :: "int option \<Rightarrow> int" where
  "list_limit_or_100 l = max 1 (min 500 (case l of Some n \<Rightarrow> (if n = 0 then 100 else n) | None \<Rightarrow> 100))"

text \<open>Result: items, total estimate, truncated.\<close>

definition listCloudArtifactIndex ::
  "env \<Rightarrow> 'a session_store_scheme \<Rightarrow> artifact_query \<Rightarrow> error + (artifact_index_record list \<times> int \<times> bool)" where
  "listCloudArtifactIndex e s q =
     try_pure (requireTenantUser s (arq_tenantId q) (arq_userId q)) (\<lambda>_.
     try_pure (case or_null (arq_sessionId q) of
                 Some i \<Rightarrow> assertSessionBelongsToUser s (arq_tenantId q) i (arq_userId q) | None \<Rightarrow> Inr ()) (\<lambda>_.
       let limit = list_limit_or_100 (arq_limit q);
           rows = js_sort (compareCloudArtifacts e) (map (\<lambda>r. r\<lparr> ax_sessionTitle := session_title s (ax_tenantId r) (ax_sessionId r) \<rparr>)
             (filter (\<lambda>r. cloudArtifactMatchesIndexInput r q) (map_values (artifactIndex s))))
       in Inr (slice_int rows limit, if int (length rows) > limit then limit + 1 else int (length rows), int (length rows) > limit)))"

definition hasPendingLaunchpadWork :: "launchpad_summary \<Rightarrow> bool" where
  "hasPendingLaunchpadWork r = (lp_pendingApprovals r \<noteq> [] \<or> lp_pendingQuestions r \<noteq> [])"

definition upsertCloudLaunchpadSessionSummary ::
  "launchpad_summary \<Rightarrow> 'a session_store_scheme \<Rightarrow> ('a session_store_scheme, launchpad_summary) outcome" where
  "upsertCloudLaunchpadSessionSummary inp s =
     try_in s (requireTenantUser s (lp_tenantId inp) (lp_userId inp)) (\<lambda>_.
     try_in s (assertSessionBelongsToUser s (lp_tenantId inp) (lp_sessionId inp) (lp_userId inp)) (\<lambda>_.
     try_in s (requireSession s (lp_tenantId inp) (lp_sessionId inp)) (\<lambda>ss.
       let rcd = inp\<lparr> lp_sessionTitle := or_null (sr_title (ss_record ss)), lp_createdAt := sr_createdAt (ss_record ss) \<rparr>;
           k = key [lp_tenantId inp, lp_sessionId inp]
       in (Inr rcd, s\<lparr> launchpadSessionSummaries :=
            (if hasPendingLaunchpadWork rcd then map_set k rcd (launchpadSessionSummaries s)
             else map_delete k (launchpadSessionSummaries s)) \<rparr>))))"

definition compareLaunchpadSummaries :: "env \<Rightarrow> launchpad_summary \<Rightarrow> launchpad_summary \<Rightarrow> int" where
  "compareLaunchpadSummaries e = cmp_then (cmp_rev (cmp_by lp_updatedAt cmp_int)) (cmp_by lp_sessionId (locale_compare e))"

definition listCloudLaunchpadSessionSummaries ::
  "env \<Rightarrow> 'a session_store_scheme \<Rightarrow> string \<Rightarrow> string \<Rightarrow> int option \<Rightarrow> error + (launchpad_summary list \<times> int \<times> bool)" where
  "listCloudLaunchpadSessionSummaries e s tenantId userId limitIn =
     try_pure (requireTenantUser s tenantId userId) (\<lambda>_.
       let limit = list_limit_or_100 limitIn;
           rows = js_sort (compareLaunchpadSummaries e) (map (\<lambda>r. r\<lparr>
               lp_sessionTitle := session_title s (lp_tenantId r) (lp_sessionId r),
               lp_createdAt := (case map_get (sessions s) (key [lp_tenantId r, lp_sessionId r]) of
                 Some ss \<Rightarrow> sr_createdAt (ss_record ss) | None \<Rightarrow> lp_createdAt r) \<rparr>)
             (filter (\<lambda>r. lp_tenantId r = tenantId \<and> lp_userId r = userId) (map_values (launchpadSessionSummaries s))))
       in Inr (slice_int rows limit, if int (length rows) > limit then limit + 1 else int (length rows), int (length rows) > limit))"

end
