(* ===== verification/Session_Commands.thy ===== *)
theory Session_Commands
  imports Session_Store
begin

text \<open>
  Worker leases and the command queue of \<open>in-memory-domains/sessions.ts\<close>: claim, renew, checkpoint,
  release and recover a lease; enqueue, claim, acknowledge, defer and fail a command. A worker passes
  the lease record it was given; the store compares its token and its own expiry.
\<close>


section \<open>Leases\<close>

definition lease_token :: "string \<Rightarrow> string \<Rightarrow> nat \<Rightarrow> string \<Rightarrow> string" where
  "lease_token tenantId sessionId attempt workerId =
     tenantId @ '':'' @ sessionId @ '':'' @ show_nat attempt @ '':'' @ workerId"

definition activeLeaseCount :: "'a session_store_scheme \<Rightarrow> string \<Rightarrow> int \<Rightarrow> int" where
  "activeLeaseCount s orgId nowMs =
     int (length (filter (\<lambda>ss. orgIdForTenant s (sr_tenantId (ss_record ss)) = orgId
        \<and> (case ss_lease ss of Some l \<Rightarrow> wl_leaseExpiresAt l > nowMs | None \<Rightarrow> False)) (map_values (sessions s))))"

definition claim_lease :: "string \<Rightarrow> string \<Rightarrow> string \<Rightarrow> int \<Rightarrow> int \<Rightarrow> session_state \<Rightarrow> worker_lease" where
  "claim_lease tenantId sessionId workerId nowMs ttlMs ss =
     \<lparr> wl_tenantId = tenantId, wl_sessionId = sessionId, wl_leasedBy = workerId,
       wl_leaseToken = lease_token tenantId sessionId (ss_nextLeaseAttempt ss + 1) workerId,
       wl_leaseExpiresAt = nowMs + ttlMs,
       wl_checkpointVersion = (case ss_lease ss of Some l \<Rightarrow> wl_checkpointVersion l | None \<Rightarrow> 0) \<rparr>"

definition claimSessionLease ::
  "env \<Rightarrow> string \<Rightarrow> string \<Rightarrow> string \<Rightarrow> iso option \<Rightarrow> int \<Rightarrow> session_quota option \<Rightarrow> 'a session_store_scheme
    \<Rightarrow> ('a session_store_scheme, worker_lease option) outcome" where
  "claimSessionLease e tenantId sessionId workerId nowIn ttlMs quota s =
     try_in s (requireSession s tenantId sessionId) (\<lambda>ss.
       let nowMs = nowIso e nowIn in
       if (case ss_lease ss of Some l \<Rightarrow> wl_leaseExpiresAt l > nowMs | None \<Rightarrow> False) then (Inr None, s)
       else if (case positive_limit (Option.bind quota sq_maxPerOrg) of
            Some mx \<Rightarrow> activeLeaseCount s (or_else (Option.bind quota sq_orgId) (orgIdForTenant s tenantId)) nowMs \<ge> mx
          | None \<Rightarrow> False)
       then (Inr None, s)
       else
         let lease = claim_lease tenantId sessionId workerId nowMs ttlMs ss in
         (Inr (Some lease), put_session tenantId sessionId
            (ss\<lparr> ss_nextLeaseAttempt := ss_nextLeaseAttempt ss + 1, ss_lease := Some lease,
                ss_record := (ss_record ss)\<lparr> sr_status := SRunning, sr_updatedAt := nowMs \<rparr> \<rparr>) s))"

definition releaseSessionLease ::
  "env \<Rightarrow> worker_lease \<Rightarrow> iso option \<Rightarrow> 'a session_store_scheme \<Rightarrow> ('a session_store_scheme, bool) outcome" where
  "releaseSessionLease e lease nowIn s =
     try_in s (requireSession s (wl_tenantId lease) (wl_sessionId lease)) (\<lambda>ss.
       if (case ss_lease ss of Some l \<Rightarrow> wl_leaseToken l \<noteq> wl_leaseToken lease | None \<Rightarrow> True) then (Inr False, s)
       else (Inr True, put_session (wl_tenantId lease) (wl_sessionId lease)
              (ss\<lparr> ss_lease := None, ss_record := (ss_record ss)\<lparr> sr_status := SIdle, sr_updatedAt := nowIso e nowIn \<rparr> \<rparr>) s))"

definition renewSessionLease ::
  "env \<Rightarrow> worker_lease \<Rightarrow> iso option \<Rightarrow> int \<Rightarrow> 'a session_store_scheme \<Rightarrow> ('a session_store_scheme, worker_lease) outcome" where
  "renewSessionLease e lease nowIn ttlMs s =
     try_in s (requireSession s (wl_tenantId lease) (wl_sessionId lease)) (\<lambda>ss.
     try_in s (assertCurrentLease ss lease (clock e)) (\<lambda>l.
       let l' = l\<lparr> wl_leaseExpiresAt := nowIso e nowIn + ttlMs \<rparr>
       in (Inr l', put_session (wl_tenantId lease) (wl_sessionId lease) (ss\<lparr> ss_lease := Some l' \<rparr>) s)))"

definition checkpointSession ::
  "env \<Rightarrow> worker_lease \<Rightarrow> 'a session_store_scheme \<Rightarrow> ('a session_store_scheme, worker_lease) outcome" where
  "checkpointSession e lease s =
     try_in s (requireSession s (wl_tenantId lease) (wl_sessionId lease)) (\<lambda>ss.
     try_in s (assertCurrentLease ss lease (clock e)) (\<lambda>l.
       if wl_checkpointVersion lease \<noteq> wl_checkpointVersion l then (Inl (Error ''Checkpoint version is stale.''), s)
       else let l' = l\<lparr> wl_checkpointVersion := wl_checkpointVersion l + 1 \<rparr>
         in (Inr l', put_session (wl_tenantId lease) (wl_sessionId lease) (ss\<lparr> ss_lease := Some l' \<rparr>) s)))"


section \<open>Lease recovery\<close>

definition running_under :: "string \<Rightarrow> session_command \<Rightarrow> bool" where
  "running_under token c = (cmd_status c = CRunning \<and> cmd_claimedLeaseToken c = Some token)"

definition recovered_command :: "string \<Rightarrow> iso \<Rightarrow> int \<Rightarrow> session_command \<Rightarrow> session_command" where
  "recovered_command token now maxAttempts c =
     (if \<not> running_under token c then c
      else if cmd_attemptCount c \<ge> maxAttempts
      then c\<lparr> cmd_status := CFailed, cmd_error := Some ''Worker lease expired after the maximum retry attempts.'',
             cmd_lastErrorCode := Some ''lease_expired_max_attempts'',
             cmd_lastErrorSummary := Some ''Worker lease expired after the maximum retry attempts.'' \<rparr>
      else c\<lparr> cmd_status := CPending, cmd_claimedBy := None, cmd_claimedLeaseToken := None, cmd_availableAt := Some now,
             cmd_error := None, cmd_lastErrorCode := Some ''lease_expired'',
             cmd_lastErrorSummary := Some ''Worker lease expired before command completion.'' \<rparr>)"

definition recovered_session :: "worker_lease \<Rightarrow> iso \<Rightarrow> int \<Rightarrow> session_state \<Rightarrow> session_state" where
  "recovered_session lease now maxAttempts ss =
     (let running = filter (running_under (wl_leaseToken lease)) (ss_commands ss);
          failed = filter (\<lambda>c. cmd_attemptCount c \<ge> maxAttempts) running;
          retried = filter (\<lambda>c. \<not> cmd_attemptCount c \<ge> maxAttempts) running
      in ss\<lparr> ss_commands := map (recovered_command (wl_leaseToken lease) now maxAttempts) (ss_commands ss), ss_lease := None,
             ss_record := (ss_record ss)\<lparr> sr_status := (if failed \<noteq> [] \<and> retried = [] then SErrored else SIdle), sr_updatedAt := now \<rparr> \<rparr>)"

definition reaped_lease_of :: "worker_lease \<Rightarrow> iso \<Rightarrow> int \<Rightarrow> session_state \<Rightarrow> reaped_lease" where
  "reaped_lease_of lease now maxAttempts ss =
     (let running = filter (running_under (wl_leaseToken lease)) (ss_commands ss);
          failed = filter (\<lambda>c. cmd_attemptCount c \<ge> maxAttempts) running;
          retried = filter (\<lambda>c. \<not> cmd_attemptCount c \<ge> maxAttempts) running
      in \<lparr> rd_tenantId = wl_tenantId lease, rd_sessionId = wl_sessionId lease, rd_leaseToken = wl_leaseToken lease,
           rd_leasedBy = wl_leasedBy lease,
           rd_action = (if failed \<noteq> [] \<and> retried = [] then Failed else if retried \<noteq> [] then Retried else Released),
           rd_retriedCommandIds = map cmd_commandId retried, rd_failedCommandIds = map cmd_commandId failed, rd_reapedAt = now \<rparr>)"

primrec reaper_action_text :: "reaper_action \<Rightarrow> string" where
  "reaper_action_text Retried = ''retried''"
| "reaper_action_text Failed = ''failed''"
| "reaper_action_text Released = ''released''"

definition reap_audit :: "string \<Rightarrow> reaped_lease \<Rightarrow> audit_input" where
  "reap_audit orgId rd =
     \<lparr> ai_eventId = None, ai_orgId = orgId, ai_accountId = None, ai_actorType = ActorSystem, ai_actorId = Some ''managed-work-reaper'',
       ai_eventType = ''managed_work.session_lease_reaped'', ai_targetType = Some ''session'', ai_targetId = Some (rd_sessionId rd),
       ai_metadata = Some (JObj [(''action'', JStr (reaper_action_text (rd_action rd))), (''leasedBy'', JStr (rd_leasedBy rd)),
         (''retriedCommandIds'', JArr (map JStr (rd_retriedCommandIds rd))), (''failedCommandIds'', JArr (map JStr (rd_failedCommandIds rd)))]),
       ai_createdAt = Some (rd_reapedAt rd) \<rparr>"

text \<open>\<open>k\<close> is the key of the session object the caller holds.\<close>

definition recoverSessionLeaseRecord ::
  "env \<Rightarrow> string \<Rightarrow> session_state \<Rightarrow> worker_lease \<Rightarrow> iso \<Rightarrow> int \<Rightarrow> 'a session_store_scheme
    \<Rightarrow> ('a session_store_scheme, reaped_lease) outcome" where
  "recoverSessionLeaseRecord e k ss lease now maxAttempts s =
     (let rd = reaped_lease_of lease now maxAttempts ss;
          s1 = s\<lparr> sessions := map_set k (recovered_session lease now maxAttempts ss) (sessions s) \<rparr>
      in case or_null (resolveOrgIdOrNull s1 (wl_tenantId lease)) of
           None \<Rightarrow> (Inr rd, s1)
         | Some orgId \<Rightarrow> then_do (recordAuditEvent e (reap_audit orgId rd) s1) (\<lambda>_ s2. (Inr rd, s2)))"

definition recoverSessionLease ::
  "env \<Rightarrow> worker_lease \<Rightarrow> iso option \<Rightarrow> int option \<Rightarrow> 'a session_store_scheme \<Rightarrow> ('a session_store_scheme, reaped_lease option) outcome" where
  "recoverSessionLease e lease nowIn maxAttemptsIn s =
     try_in s (requireSession s (wl_tenantId lease) (wl_sessionId lease)) (\<lambda>ss.
       case ss_lease ss of
         None \<Rightarrow> (Inr None, s)
       | Some l \<Rightarrow>
           if wl_leaseToken l \<noteq> wl_leaseToken lease then (Inr None, s)
           else then_do (recoverSessionLeaseRecord e (key [wl_tenantId lease, wl_sessionId lease]) ss l (nowIso e nowIn)
                  (max 1 (coalesce maxAttemptsIn 3)) s) (\<lambda>rd s1. (Inr (Some rd), s1)))"

fun reap_leases ::
  "env \<Rightarrow> iso \<Rightarrow> int \<Rightarrow> (string \<times> session_state) list \<Rightarrow> 'a session_store_scheme \<Rightarrow> ('a session_store_scheme, reaped_lease list) outcome" where
  "reap_leases e now maxAttempts [] s = (Inr [], s)"
| "reap_leases e now maxAttempts ((k, ss) # rest) s =
     (case ss_lease ss of
        None \<Rightarrow> reap_leases e now maxAttempts rest s
      | Some l \<Rightarrow>
          then_do (recoverSessionLeaseRecord e k ss l now maxAttempts s) (\<lambda>rd s1.
          then_do (reap_leases e now maxAttempts rest s1) (\<lambda>rds s2. (Inr (rd # rds), s2))))"

definition expired_leases :: "env \<Rightarrow> int \<Rightarrow> 'a session_store_scheme \<Rightarrow> (string \<times> session_state) list" where
  "expired_leases e nowMs s =
     js_sort (cmp_by snd (cmp_then (cmp_by (\<lambda>ss. wl_leaseExpiresAt (the (ss_lease ss))) cmp_int)
         (cmp_then (cmp_by (\<lambda>ss. sr_tenantId (ss_record ss)) (locale_compare e))
           (cmp_by (\<lambda>ss. sr_sessionId (ss_record ss)) (locale_compare e)))))
       (filter (\<lambda>p. case ss_lease (snd p) of Some l \<Rightarrow> wl_leaseExpiresAt l \<le> nowMs | None \<Rightarrow> False) (sessions s))"

definition reapExpiredSessionLeases ::
  "env \<Rightarrow> iso option \<Rightarrow> int option \<Rightarrow> int option \<Rightarrow> 'a session_store_scheme \<Rightarrow> ('a session_store_scheme, reaped_lease list) outcome" where
  "reapExpiredSessionLeases e nowIn maxAttemptsIn limitIn s =
     (let now = nowIso e nowIn;
          maxAttempts = max 1 (coalesce maxAttemptsIn 3);
          limit = max 1 (min 1000 (coalesce limitIn 100))
      in reap_leases e now maxAttempts (slice_int (expired_leases e now s) limit) s)"


section \<open>The command queue\<close>

definition new_command :: "env \<Rightarrow> enqueue_input \<Rightarrow> session_state \<Rightarrow> session_command" where
  "new_command e inp ss =
     \<lparr> cmd_commandId = en_commandId inp, cmd_tenantId = en_tenantId inp, cmd_userId = en_userId inp, cmd_sessionId = en_sessionId inp,
       cmd_kind = en_kind inp, cmd_payload = coalesce (en_payload inp) (JObj []), cmd_targetLeaseToken = en_targetLeaseToken inp,
       cmd_createdSequence = ss_nextCommandSequence ss + 1, cmd_createdAt = nowIso e (en_createdAt inp), cmd_status = CPending,
       cmd_claimedBy = None, cmd_claimedLeaseToken = None, cmd_attemptCount = 0, cmd_availableAt = None, cmd_lastErrorCode = None,
       cmd_lastErrorSummary = None, cmd_ackedAt = None, cmd_error = None \<rparr>"

text \<open>The loop over \<open>usageQuotas\<close>: it stops at the first denial, which is thrown.\<close>

fun consume_all :: "env \<Rightarrow> usage_quota_input list \<Rightarrow> 'a session_store_scheme \<Rightarrow> ('a session_store_scheme, unit) outcome" where
  "consume_all e [] s = (Inr (), s)"
| "consume_all e (q # qs) s =
     then_do (consumeUsageQuota e q s) (\<lambda>result s1.
       if \<not> qc_allowed result
       then (Inl (quotaExceeded (publicQuotaMessage (qc_policyCode result))
               (or_else (qc_policyCode result) ''quota.prompts_per_hour_exceeded'')
               (qc_retryAfterMs result) (qc_limit result) (qc_used result) (qc_resetAt result)), s1)
       else consume_all e qs s1)"

definition consume_or_restore :: "env \<Rightarrow> usage_quota_input list \<Rightarrow> 'a session_store_scheme \<Rightarrow> ('a session_store_scheme, unit) outcome" where
  "consume_or_restore e qs s =
     (let countersSnapshot = snapshotCounters s in
      case consume_all e qs s of
        (Inr u, s1) \<Rightarrow> (Inr u, s1)
      | (Inl err, s1) \<Rightarrow> (Inl err, restoreCounters countersSnapshot s1))"

definition same_command :: "env \<Rightarrow> enqueue_input \<Rightarrow> session_command \<Rightarrow> bool" where
  "same_command e inp c =
     (cmd_tenantId c = en_tenantId inp \<and> cmd_userId c = en_userId inp \<and> cmd_sessionId c = en_sessionId inp
      \<and> cmd_kind c = en_kind inp \<and> cmd_targetLeaseToken c = en_targetLeaseToken inp
      \<and> stableJson (locale_compare e) (cmd_payload c) = stableJson (locale_compare e) (coalesce (en_payload inp) (JObj [])))"

definition enqueueSessionCommand ::
  "env \<Rightarrow> enqueue_input \<Rightarrow> 'a session_store_scheme \<Rightarrow> ('a session_store_scheme, session_command) outcome" where
  "enqueueSessionCommand e inp s =
     try_in s (requireTenantUser s (en_tenantId inp) (en_userId inp)) (\<lambda>_.
     try_in s (requireSession s (en_tenantId inp) (en_sessionId inp)) (\<lambda>ss.
       case findSessionCommandById s (en_commandId inp) of
         Some existing \<Rightarrow>
           if \<not> same_command e inp existing
           then (Inl (Error (''Command id '' @ en_commandId inp @ '' was reused with different content.'')), s)
           else (Inr existing, s)
       | None \<Rightarrow>
           try_in s (assertCommandQueueQuota e s (queue_snapshot_of s) (en_tenantId inp) (en_quota inp) (en_createdAt inp)) (\<lambda>_.
           then_do (consume_or_restore e (en_usageQuotas inp) s) (\<lambda>_ s1.
             let c = new_command e inp ss in
             (Inr c, put_session (en_tenantId inp) (en_sessionId inp)
                (ss\<lparr> ss_nextCommandSequence := ss_nextCommandSequence ss + 1, ss_commands := ss_commands ss @ [c] \<rparr>) s1)))))"

definition claimable :: "worker_lease \<Rightarrow> session_command \<Rightarrow> bool" where
  "claimable lease c =
     ((cmd_status c = CPending \<and> (cmd_targetLeaseToken c = None \<or> cmd_targetLeaseToken c = Some (wl_leaseToken lease)))
      \<or> (cmd_status c = CRunning \<and> cmd_claimedLeaseToken c \<noteq> Some (wl_leaseToken lease) \<and> cmd_targetLeaseToken c = None))"

definition claimed_command :: "worker_lease \<Rightarrow> session_command \<Rightarrow> session_command" where
  "claimed_command lease c =
     c\<lparr> cmd_status := CRunning, cmd_claimedBy := Some (wl_leasedBy lease), cmd_claimedLeaseToken := Some (wl_leaseToken lease),
        cmd_attemptCount := cmd_attemptCount c + 1, cmd_availableAt := None, cmd_lastErrorCode := None, cmd_lastErrorSummary := None \<rparr>"

definition claimNextSessionCommand ::
  "env \<Rightarrow> worker_lease \<Rightarrow> iso option \<Rightarrow> 'a session_store_scheme \<Rightarrow> ('a session_store_scheme, session_command option) outcome" where
  "claimNextSessionCommand e lease nowIn s =
     try_in s (requireSession s (wl_tenantId lease) (wl_sessionId lease)) (\<lambda>ss.
     try_in s (assertCurrentLease ss lease (nowIso e nowIn)) (\<lambda>_.
       case find (claimable lease) (ss_commands ss) of
         None \<Rightarrow> (Inr None, s)
       | Some c \<Rightarrow>
           if cmd_status c = CPending \<and> (case cmd_availableAt c of Some t \<Rightarrow> t > nowIso e nowIn | None \<Rightarrow> False)
           then (Inr None, s)
           else (Inr (Some (claimed_command lease c)), put_session (wl_tenantId lease) (wl_sessionId lease)
                  (ss\<lparr> ss_commands := update_first (claimable lease) (claimed_command lease) (ss_commands ss) \<rparr>) s)))"

definition has_command_id :: "string \<Rightarrow> session_command \<Rightarrow> bool" where
  "has_command_id i c = (cmd_commandId c = i)"

definition not_owned :: "string \<Rightarrow> error" where
  "not_owned commandId = Error (''Command '' @ commandId @ '' is not owned by this worker.'')"

definition acked_command :: "iso \<Rightarrow> session_command \<Rightarrow> session_command" where
  "acked_command now c = c\<lparr> cmd_status := CAcked, cmd_ackedAt := Some now, cmd_error := None \<rparr>"

definition ackSessionCommand ::
  "env \<Rightarrow> worker_lease \<Rightarrow> string \<Rightarrow> iso option \<Rightarrow> 'a session_store_scheme \<Rightarrow> ('a session_store_scheme, session_command) outcome" where
  "ackSessionCommand e lease commandId nowIn s =
     try_in s (requireSession s (wl_tenantId lease) (wl_sessionId lease)) (\<lambda>ss.
     try_in s (assertCurrentLease ss lease (clock e)) (\<lambda>_.
     try_in s (requireCommand ss commandId) (\<lambda>c.
       if cmd_status c = CAcked then (Inr c, s)
       else if \<not> running_under (wl_leaseToken lease) c then (Inl (not_owned commandId), s)
       else (Inr (acked_command (nowIso e nowIn) c), put_session (wl_tenantId lease) (wl_sessionId lease)
              (ss\<lparr> ss_commands := update_first (has_command_id commandId) (acked_command (nowIso e nowIn)) (ss_commands ss) \<rparr>) s))))"

definition checkpoint_acked_command :: "iso \<Rightarrow> session_command \<Rightarrow> session_command" where
  "checkpoint_acked_command now c = (acked_command now c)\<lparr> cmd_lastErrorCode := None, cmd_lastErrorSummary := None \<rparr>"

definition checkpointAndAckSessionCommand ::
  "env \<Rightarrow> worker_lease \<Rightarrow> string \<Rightarrow> iso option \<Rightarrow> 'a session_store_scheme \<Rightarrow> ('a session_store_scheme, checkpoint_ack_result) outcome" where
  "checkpointAndAckSessionCommand e lease commandId nowIn s =
     try_in s (requireSession s (wl_tenantId lease) (wl_sessionId lease)) (\<lambda>ss.
     try_in s (assertCurrentLease ss lease (clock e)) (\<lambda>l.
     try_in s (requireCommand ss commandId) (\<lambda>c.
       if cmd_status c = CAcked
       then (Inr \<lparr> ca_lease = l, ca_command = c, ca_checkpointAdvanced = False, ca_commandAcked = False \<rparr>, s)
       else if \<not> running_under (wl_leaseToken lease) c then (Inl (not_owned commandId), s)
       else if wl_checkpointVersion lease \<noteq> wl_checkpointVersion l then (Inl (Error ''Checkpoint version is stale.''), s)
       else
         let l' = l\<lparr> wl_checkpointVersion := wl_checkpointVersion l + 1 \<rparr>; c' = checkpoint_acked_command (nowIso e nowIn) c
         in (Inr \<lparr> ca_lease = l', ca_command = c', ca_checkpointAdvanced = True, ca_commandAcked = True \<rparr>,
             put_session (wl_tenantId lease) (wl_sessionId lease)
               (ss\<lparr> ss_lease := Some l',
                   ss_commands := update_first (has_command_id commandId) (checkpoint_acked_command (nowIso e nowIn)) (ss_commands ss) \<rparr>) s))))"

definition deferred_command :: "iso \<Rightarrow> string \<Rightarrow> string \<Rightarrow> session_command \<Rightarrow> session_command" where
  "deferred_command availableAt errorCode errorSummary c =
     c\<lparr> cmd_status := CPending, cmd_claimedBy := None, cmd_claimedLeaseToken := None, cmd_availableAt := Some availableAt,
        cmd_ackedAt := None, cmd_error := None, cmd_lastErrorCode := Some errorCode, cmd_lastErrorSummary := Some errorSummary \<rparr>"

definition deferSessionCommand ::
  "env \<Rightarrow> worker_lease \<Rightarrow> string \<Rightarrow> defer_input \<Rightarrow> 'a session_store_scheme \<Rightarrow> ('a session_store_scheme, session_command) outcome" where
  "deferSessionCommand e lease commandId inp s =
     (let now = nowIso e (df_now inp) in
      if \<not> js_is_finite (df_retryAfterMs inp) \<or> \<not> js_positive (df_retryAfterMs inp)
      then (Inl (Error ''Deferred command retryAfterMs must be a positive finite number.''), s)
      else
        try_in s (requireSession s (wl_tenantId lease) (wl_sessionId lease)) (\<lambda>ss.
        try_in s (assertCurrentLease ss lease now) (\<lambda>_.
        try_in s (requireCommand ss commandId) (\<lambda>c.
          if \<not> running_under (wl_leaseToken lease) c then (Inl (not_owned commandId), s)
          else try_in s (redactOperationalText e (df_errorSummary inp) 512 ''Command deferred'') (\<lambda>errorSummary.
            then_do
              (case df_quotaReservation inp of
                 None \<Rightarrow> (Inr (), s)
               | Some q \<Rightarrow> adjustUsageQuota (orgIdForTenant s (wl_tenantId lease)) (qr_quotaKey q) (qr_windowStartedAtMs q) (JInt (- qr_quantity q)) s)
              (\<lambda>_ s1.
                let defer = deferred_command (now + js_int (js_floor (df_retryAfterMs inp))) (df_errorCode inp) errorSummary
                in (Inr (defer c), put_session (wl_tenantId lease) (wl_sessionId lease)
                     (ss\<lparr> ss_commands := update_first (has_command_id commandId) defer (ss_commands ss), ss_lease := None,
                         ss_record := (ss_record ss)\<lparr> sr_status := SIdle, sr_updatedAt := now \<rparr> \<rparr>) s1)))))))"

definition failed_command :: "string \<Rightarrow> session_command \<Rightarrow> session_command" where
  "failed_command error c = c\<lparr> cmd_status := CFailed, cmd_error := Some error, cmd_lastErrorCode := Some ''execution_failed'' \<rparr>"

text \<open>The status, error and code are assigned before the redactor, which throws on a blank error, runs.\<close>

definition failSessionCommand ::
  "env \<Rightarrow> worker_lease \<Rightarrow> string \<Rightarrow> string \<Rightarrow> 'a session_store_scheme \<Rightarrow> ('a session_store_scheme, session_command) outcome" where
  "failSessionCommand e lease commandId error s =
     try_in s (requireSession s (wl_tenantId lease) (wl_sessionId lease)) (\<lambda>ss.
     try_in s (assertCurrentLease ss lease (clock e)) (\<lambda>_.
     try_in s (requireCommand ss commandId) (\<lambda>c.
       if \<not> running_under (wl_leaseToken lease) c then (Inl (not_owned commandId), s)
       else case redactOperationalText e error 512 ''Command error'' of
         Inl err \<Rightarrow> (Inl err, put_session (wl_tenantId lease) (wl_sessionId lease)
           (ss\<lparr> ss_commands := update_first (has_command_id commandId) (failed_command error) (ss_commands ss) \<rparr>) s)
       | Inr summary \<Rightarrow>
           let fail = (\<lambda>c. (failed_command error c)\<lparr> cmd_lastErrorSummary := Some summary \<rparr>)
           in (Inr (fail c), put_session (wl_tenantId lease) (wl_sessionId lease)
                (ss\<lparr> ss_commands := update_first (has_command_id commandId) fail (ss_commands ss) \<rparr>) s))))"

end
