(* ===== verification/Session_Invariants.thy ===== *)
theory Session_Invariants
  imports Session_Commands "HOL-Library.Sublist"
begin

text \<open>
  What the session domain keeps, however its operations interleave. A session only grows: its event
  log is extended at the end, its projection never goes back, a finished command is never written
  again, lease attempts only increase (\<open>session_le\<close>). The well-formedness invariant \<open>session_inv\<close> makes
  the log contiguous and ties the token of the current lease to the lease attempt that issued it.
  Every operation is shown to touch at most one session object and to advance it (\<open>touches_at\<close>);
  \<open>session_transition\<close> collects the operations and the results follow by rule induction.
\<close>


section \<open>The order on session objects\<close>

definition command_finished :: "session_command \<Rightarrow> bool" where
  "command_finished c = (cmd_status c = CAcked \<or> cmd_status c = CFailed)"

definition command_le :: "session_command \<Rightarrow> session_command \<Rightarrow> bool" where
  "command_le c c' =
     (cmd_commandId c' = cmd_commandId c \<and> cmd_createdSequence c' = cmd_createdSequence c \<and> cmd_payload c' = cmd_payload c
      \<and> cmd_attemptCount c \<le> cmd_attemptCount c' \<and> (command_finished c \<longrightarrow> c' = c))"

definition same_identity :: "session_record \<Rightarrow> session_record \<Rightarrow> bool" where
  "same_identity r r' =
     (sr_tenantId r' = sr_tenantId r \<and> sr_userId r' = sr_userId r \<and> sr_sessionId r' = sr_sessionId r \<and> sr_createdAt r' = sr_createdAt r)"

definition session_le :: "session_state \<Rightarrow> session_state \<Rightarrow> bool" where
  "session_le ss ss' =
     (prefix (ss_events ss) (ss_events ss') \<and> projection_sequence ss \<le> projection_sequence ss'
      \<and> ss_nextLeaseAttempt ss \<le> ss_nextLeaseAttempt ss' \<and> same_identity (ss_record ss) (ss_record ss')
      \<and> (\<exists>cs new. ss_commands ss' = cs @ new \<and> list_all2 command_le (ss_commands ss) cs))"

definition lease_of_attempt :: "string \<Rightarrow> session_state \<Rightarrow> bool" where
  "lease_of_attempt k ss =
     (case ss_lease ss of None \<Rightarrow> True
      | Some l \<Rightarrow> \<exists>t i w. key [t, i] = k \<and> wl_leaseToken l = lease_token t i (ss_nextLeaseAttempt ss) w)"

definition session_inv :: "string \<Rightarrow> session_state \<Rightarrow> bool" where
  "session_inv k ss =
     (map ev_sequence (ss_events ss) = map int [1..<Suc (length (ss_events ss))]
      \<and> ss_nextEventSequence ss = int (length (ss_events ss))
      \<and> distinct (map ev_eventId (ss_events ss))
      \<and> map cmd_createdSequence (ss_commands ss) = map int [1..<Suc (length (ss_commands ss))]
      \<and> ss_nextCommandSequence ss = int (length (ss_commands ss))
      \<and> lease_of_attempt k ss)"

definition advances :: "string \<Rightarrow> session_state \<Rightarrow> session_state \<Rightarrow> bool" where
  "advances k ss ss' = (session_le ss ss' \<and> (session_inv k ss \<longrightarrow> session_inv k ss'))"

definition same_command_ids :: "session_state \<Rightarrow> session_state \<Rightarrow> bool" where
  "same_command_ids ss ss' = (map cmd_commandId (ss_commands ss') = map cmd_commandId (ss_commands ss))"

text \<open>An operation leaves the sessions alone or replaces the object under one key by one it advances to.\<close>

definition touches_at :: "string \<Rightarrow> 'a session_store_scheme \<Rightarrow> 'b session_store_scheme \<Rightarrow> bool" where
  "touches_at k s s' =
     (sessions s' = sessions s
      \<or> (\<exists>ss ss'. map_get (sessions s) k = Some ss \<and> sessions s' = map_set k ss' (sessions s)
           \<and> advances k ss ss' \<and> same_command_ids ss ss'))"


section \<open>Laws of the order\<close>

lemma command_le_refl [simp]: "command_le c c"
  by (simp add: command_le_def)

lemma command_le_trans: "command_le a b \<Longrightarrow> command_le b c \<Longrightarrow> command_le a c"
  by (auto simp: command_le_def)

lemma commands_le_refl [simp]: "list_all2 command_le cs cs"
  by (simp add: list_all2_same)

lemma same_identity_refl [simp]: "same_identity r r"
  by (simp add: same_identity_def)

lemma session_le_refl [simp]: "session_le ss ss"
  unfolding session_le_def by (auto intro: exI [of _ "ss_commands ss"])

lemma session_le_trans:
  assumes "session_le a b" "session_le b c"
  shows "session_le a c"
proof -
  obtain cs new where b: "ss_commands b = cs @ new" "list_all2 command_le (ss_commands a) cs"
    using assms(1) by (auto simp: session_le_def)
  obtain ds more where c: "ss_commands c = ds @ more" "list_all2 command_le (cs @ new) ds"
    using assms(2) b(1) by (auto simp: session_le_def)
  from c(2) obtain d1 d2 where d: "ds = d1 @ d2" "list_all2 command_le cs d1"
    by (auto simp: list_all2_append1)
  have "list_all2 command_le (ss_commands a) d1"
    using list_all2_trans [OF command_le_trans b(2) d(2)] .
  then show ?thesis using assms c(1) d(1)
    by (auto simp: session_le_def same_identity_def)
qed

lemma advances_refl [simp]: "advances k ss ss"
  by (simp add: advances_def)

lemma advances_trans: "advances k a b \<Longrightarrow> advances k b c \<Longrightarrow> advances k a c"
  by (auto simp: advances_def intro: session_le_trans)

lemma command_le_ids: "list_all2 command_le xs ys \<Longrightarrow> map cmd_commandId ys = map cmd_commandId xs"
  by (induction rule: list_all2_induct) (auto simp: command_le_def)

lemma command_le_sequences: "list_all2 command_le xs ys \<Longrightarrow> map cmd_createdSequence ys = map cmd_createdSequence xs"
  by (induction rule: list_all2_induct) (auto simp: command_le_def)

lemma update_first_le: "(\<And>c. P c \<Longrightarrow> c \<in> set cs \<Longrightarrow> command_le c (f c)) \<Longrightarrow> list_all2 command_le cs (update_first P f cs)"
  by (induction cs) auto

text \<open>Updating the element \<open>find\<close> returns.\<close>

lemma update_found_le:
  assumes "find P cs = Some c" and "command_le c (f c)"
  shows "list_all2 command_le cs (update_first P f cs)"
proof -
  obtain ys zs where "cs = ys @ c # zs" "P c" "\<forall>y \<in> set ys. \<not> P y" using assms(1) by (auto simp: find_Some_split)
  then show ?thesis using assms(2) by (simp add: update_first_split list_all2_appendI)
qed

text \<open>The ways a session object is advanced: its record and lease, its commands, its log, its projection.\<close>

lemma advances_update:
  assumes "ss_events ss' = ss_events ss" "ss_nextEventSequence ss' = ss_nextEventSequence ss"
    "ss_projection ss' = ss_projection ss" "ss_nextCommandSequence ss' = ss_nextCommandSequence ss"
    "list_all2 command_le (ss_commands ss) (ss_commands ss')" "same_identity (ss_record ss) (ss_record ss')"
    "ss_nextLeaseAttempt ss \<le> ss_nextLeaseAttempt ss'" "lease_of_attempt k ss \<longrightarrow> lease_of_attempt k ss'"
  shows "advances k ss ss'" and "same_command_ids ss ss'"
proof -
  have len: "length (ss_commands ss') = length (ss_commands ss)" using assms(5) by (simp add: list_all2_lengthD)
  have le: "session_le ss ss'"
    unfolding session_le_def using assms(1,3,5,6,7) by (auto simp: projection_sequence_def intro: exI [of _ "ss_commands ss'"])
  have inv: "session_inv k ss \<longrightarrow> session_inv k ss'"
    unfolding session_inv_def using assms command_le_sequences [OF assms(5)] len by metis
  from le inv show "advances k ss ss'" by (simp add: advances_def)
  show "same_command_ids ss ss'" using command_le_ids [OF assms(5)] by (simp add: same_command_ids_def)
qed

lemma map_int_upt_Suc: "map int [1..<Suc (Suc n)] = map int [1..<Suc n] @ [int n + 1]"
  by simp

lemma advances_append_event:
  assumes "ev_sequence ev = ss_nextEventSequence ss + 1" "ev_eventId ev \<notin> ev_eventId ` set (ss_events ss)"
  shows "advances k ss (append_event ev ss)" and "same_command_ids ss (append_event ev ss)"
proof -
  have "session_le ss (append_event ev ss)"
    unfolding session_le_def append_event_def
    by (auto simp: projection_sequence_def same_identity_def intro: exI [of _ "ss_commands ss"])
  moreover have "session_inv k ss \<longrightarrow> session_inv k (append_event ev ss)"
    using assms by (auto simp: session_inv_def append_event_def lease_of_attempt_def map_int_upt_Suc split: option.splits)
  ultimately show "advances k ss (append_event ev ss)" by (simp add: advances_def)
  show "same_command_ids ss (append_event ev ss)" by (simp add: same_command_ids_def append_event_def)
qed

lemma advances_put_projection:
  assumes "projection_sequence ss \<le> pj_sequence p"
  shows "advances k ss (put_projection p ss)" and "same_command_ids ss (put_projection p ss)"
proof -
  have "session_le ss (put_projection p ss)"
    unfolding session_le_def using assms
    by (auto simp: put_projection_def projection_sequence_def same_identity_def intro: exI [of _ "ss_commands ss"])
  moreover have "session_inv k ss \<longrightarrow> session_inv k (put_projection p ss)"
    by (auto simp: session_inv_def put_projection_def lease_of_attempt_def split: option.splits)
  ultimately show "advances k ss (put_projection p ss)" by (simp add: advances_def)
  show "same_command_ids ss (put_projection p ss)" by (simp add: same_command_ids_def put_projection_def)
qed

lemma advances_enqueue:
  assumes "cmd_createdSequence c = ss_nextCommandSequence ss + 1"
  shows "advances k ss (ss\<lparr> ss_nextCommandSequence := ss_nextCommandSequence ss + 1, ss_commands := ss_commands ss @ [c] \<rparr>)"
proof -
  let ?ss = "ss\<lparr> ss_nextCommandSequence := ss_nextCommandSequence ss + 1, ss_commands := ss_commands ss @ [c] \<rparr>"
  have "session_le ss ?ss"
    unfolding session_le_def by (auto simp: projection_sequence_def intro: exI [of _ "ss_commands ss"])
  moreover have "session_inv k ss \<longrightarrow> session_inv k ?ss"
    using assms by (auto simp: session_inv_def lease_of_attempt_def map_int_upt_Suc split: option.splits)
  ultimately show ?thesis by (simp add: advances_def)
qed

section \<open>Every operation advances at most one session\<close>

lemma touches_same: "sessions s' = sessions s \<Longrightarrow> touches_at k s s'"
  by (simp add: touches_at_def)

lemma touches_put:
  "map_get (sessions s) k = Some ss \<Longrightarrow> sessions s' = map_set k ss' (sessions s) \<Longrightarrow> advances k ss ss'
    \<Longrightarrow> same_command_ids ss ss' \<Longrightarrow> touches_at k s s'"
  unfolding touches_at_def by blast

lemma map_set_get_same [simp]: "map_get m k = Some v \<Longrightarrow> map_set k v m = m"
  by (induction m) (auto simp: map_get_def)

lemma map_set_set [simp]: "map_set k v (map_set k w m) = map_set k v m"
  by (induction m) auto

lemma touches_trans:
  assumes "touches_at k s s1" "touches_at k s1 s'"
  shows "touches_at k s s'"
proof (cases "sessions s1 = sessions s")
  case True
  then show ?thesis using assms(2) by (simp add: touches_at_def)
next
  case False
  then obtain ss ss1 where 1: "map_get (sessions s) k = Some ss" "sessions s1 = map_set k ss1 (sessions s)"
    "advances k ss ss1" "same_command_ids ss ss1" using assms(1) by (auto simp: touches_at_def)
  from assms(2) consider "sessions s' = sessions s1"
    | ss' where "sessions s' = map_set k ss' (sessions s1)" "advances k ss1 ss'" "same_command_ids ss1 ss'"
    using 1(2) by (auto simp: touches_at_def)
  then show ?thesis
  proof cases
    case 1
    then show ?thesis using \<open>sessions s1 = _\<close> \<open>map_get _ _ = _\<close> \<open>advances k ss ss1\<close> \<open>same_command_ids ss ss1\<close>
      by (auto intro: touches_put)
  next
    case (2 ss')
    have "advances k ss ss'" using advances_trans [OF 1(3) 2(2)] .
    moreover have "same_command_ids ss ss'" using 1(4) 2(3) by (simp add: same_command_ids_def)
    ultimately show ?thesis using 1(1,2) 2(1) by (intro touches_put [of s k ss s' ss']) simp_all
  qed
qed

lemma lease_kept:
  assumes "map_option wl_leaseToken (ss_lease ss') = map_option wl_leaseToken (ss_lease ss)" "ss_nextLeaseAttempt ss' = ss_nextLeaseAttempt ss"
  shows "lease_of_attempt k ss \<longrightarrow> lease_of_attempt k ss'"
proof (cases "ss_lease ss")
  case None
  then show ?thesis using assms(1) by (simp add: lease_of_attempt_def)
next
  case (Some l)
  then obtain l' where "ss_lease ss' = Some l'" "wl_leaseToken l' = wl_leaseToken l" using assms(1) by (cases "ss_lease ss'") auto
  then show ?thesis using Some assms(2) by (simp add: lease_of_attempt_def)
qed

lemma lease_of_attempt_update [simp]:
  "lease_of_attempt k (ss\<lparr> ss_record := r \<rparr>) = lease_of_attempt k ss"
  "lease_of_attempt k (ss\<lparr> ss_commands := cs \<rparr>) = lease_of_attempt k ss"
  by (simp_all add: lease_of_attempt_def split: option.split)

lemma lease_of_attempt_None [simp]: "ss_lease ss = None \<Longrightarrow> lease_of_attempt k ss"
  by (simp add: lease_of_attempt_def)

text \<open>Writing the record, the lease or the commands of the session an operation has looked up.\<close>

lemma touches_put_session:
  assumes "requireSession s t i = Inr ss"
    and "ss_events ss' = ss_events ss" "ss_nextEventSequence ss' = ss_nextEventSequence ss"
    "ss_projection ss' = ss_projection ss" "ss_nextCommandSequence ss' = ss_nextCommandSequence ss"
    "list_all2 command_le (ss_commands ss) (ss_commands ss')" "same_identity (ss_record ss) (ss_record ss')"
    "ss_nextLeaseAttempt ss \<le> ss_nextLeaseAttempt ss'" "lease_of_attempt (key [t, i]) ss \<longrightarrow> lease_of_attempt (key [t, i]) ss'"
    and "sessions s1 = sessions s"
  shows "touches_at (key [t, i]) s (put_session t i ss' s1)"
  using assms(1,10) advances_update [OF assms(2-9)] by (intro touches_put) (simp_all add: requireSession_Inr)

lemma bindSessionRuntime_touches:
  assumes "bindSessionRuntime e t i oc ti lt u s = (r, s')"
  shows "touches_at (key [t, i]) s s'"
proof (cases "requireSession s t i")
  case (Inr ss)
  show ?thesis
  proof (cases "assertLeaseTokenIfPresent e ss lt")
    case Inr': (Inr x)
    show ?thesis using assms Inr Inr'
      by (auto simp: bindSessionRuntime_def try_in_def Let_def same_identity_def intro!: touches_put_session [OF Inr])
  qed (use assms Inr in \<open>simp add: bindSessionRuntime_def try_in_def touches_same\<close>)
qed (use assms in \<open>simp add: bindSessionRuntime_def try_in_def touches_same\<close>)

lemma updateSessionStatus_touches:
  assumes "updateSessionStatus e t i st ti lt u s = (r, s')"
  shows "touches_at (key [t, i]) s s'"
proof (cases "requireSession s t i")
  case (Inr ss)
  show ?thesis
  proof (cases "assertLeaseTokenIfPresent e ss lt")
    case Inr': (Inr x)
    show ?thesis using assms Inr Inr'
      by (auto simp: updateSessionStatus_def try_in_def Let_def same_identity_def intro!: touches_put_session [OF Inr])
  qed (use assms Inr in \<open>simp add: updateSessionStatus_def try_in_def touches_same\<close>)
qed (use assms in \<open>simp add: updateSessionStatus_def try_in_def touches_same\<close>)

text \<open>Every outcome of an event append.\<close>

lemma appendSessionEvent_cases:
  assumes "appendSessionEvent e inp s = (r, s')"
  obtains (error) er where "r = Inl er" "s' = s"
  | (existing) ss ev where "requireSession s (ap_tenantId inp) (ap_sessionId inp) = Inr ss" "r = Inr ev" "s' = s"
      "ev \<in> set (ss_events ss)" "ev_eventId ev = event_id inp ss" "ev_type ev = ap_type inp"
  | (appended) ss where "requireSession s (ap_tenantId inp) (ap_sessionId inp) = Inr ss"
      "assertLeaseTokenIfPresent e ss (ap_leaseToken inp) = Inr ()"
      "event_id inp ss \<notin> ev_eventId ` set (ss_events ss)" "r = Inr (event_of e inp ss)"
      "s' = put_session (ap_tenantId inp) (ap_sessionId inp) (append_event (event_of e inp ss) ss) s"
proof (cases "requireSession s (ap_tenantId inp) (ap_sessionId inp)")
  case (Inr ss)
  note ss = this
  show thesis
  proof (cases "assertLeaseTokenIfPresent e ss (ap_leaseToken inp)")
    case (Inr u)
    show thesis
    proof (cases "find (\<lambda>ev. ev_eventId ev = event_id inp ss) (ss_events ss)")
      case None
      then have "event_id inp ss \<notin> ev_eventId ` set (ss_events ss)" by (auto simp: find_None_iff)
      then show thesis using assms ss Inr None by (intro appended [of ss]) (simp_all add: appendSessionEvent_def try_in_def)
    next
      case (Some ev)
      then have "ev \<in> set (ss_events ss)" "ev_eventId ev = event_id inp ss" by (auto simp: find_Some_iff)
      then show thesis using assms ss Inr Some existing [of ss ev] error
        by (auto simp: appendSessionEvent_def try_in_def split: if_splits)
    qed
  qed (use assms Inr error in \<open>auto simp: appendSessionEvent_def try_in_def\<close>)
qed (use assms error in \<open>auto simp: appendSessionEvent_def try_in_def\<close>)

lemma appendSessionEvent_touches:
  assumes "appendSessionEvent e inp s = (r, s')"
  shows "touches_at (key [ap_tenantId inp, ap_sessionId inp]) s s'"
  using assms
proof (cases rule: appendSessionEvent_cases)
  case (appended ss)
  have ev: "ev_sequence (event_of e inp ss) = ss_nextEventSequence ss + 1" "ev_eventId (event_of e inp ss) \<notin> ev_eventId ` set (ss_events ss)"
    using appended(3) by (simp_all add: event_of_def)
  show ?thesis using appended(1) advances_append_event [OF ev]
    by (intro touches_put) (simp_all add: appended(5) requireSession_Inr)
qed (simp_all add: touches_same)

text \<open>Every outcome of a projection write.\<close>

lemma writeSessionProjection_cases:
  assumes "writeSessionProjection e inp s = (r, s')"
  obtains (error) er where "r = Inl er" "s' = s"
  | (existing) ss p where "requireSession s (wpi_tenantId inp) (wpi_sessionId inp) = Inr ss" "r = Inr p" "s' = s"
      "ss_projection ss = Some p" "pj_sequence p = wpi_sequence inp"
  | (written) ss p where "requireSession s (wpi_tenantId inp) (wpi_sessionId inp) = Inr ss" "r = Inr p"
      "pj_sequence p = wpi_sequence inp" "pj_view p = wpi_view inp" "projection_sequence ss \<le> wpi_sequence inp"
      "s' = put_session (wpi_tenantId inp) (wpi_sessionId inp) (put_projection p ss) s"
proof (cases "requireSession s (wpi_tenantId inp) (wpi_sessionId inp)")
  case (Inr ss)
  define np where "np = \<lparr> pj_tenantId = wpi_tenantId inp, pj_sessionId = wpi_sessionId inp, pj_sequence = wpi_sequence inp,
                   pj_view = wpi_view inp, pj_updatedAt = nowIso e (wpi_updatedAt inp) \<rparr>"
  note eq = assms [unfolded writeSessionProjection_def Inr try_in_def sum.case Let_def np_def [symmetric]]
  consider (bad) er where "r = Inl er" "s' = s" | (same) p where "ss_projection ss = Some p" "pj_sequence p = wpi_sequence inp" "r = Inr p" "s' = s"
    | (new) "r = Inr np" "s' = put_session (wpi_tenantId inp) (wpi_sessionId inp) (put_projection np ss) s" "projection_sequence ss \<le> wpi_sequence inp"
    using eq by (auto split: option.splits if_splits)
  then show thesis
  proof cases
    case bad
    then show thesis using error by blast
  next
    case (same p)
    then show thesis using existing Inr by blast
  next
    case new
    then show thesis using Inr by (intro written [of ss np]) (simp_all add: np_def)
  qed
qed (use assms error in \<open>auto simp: writeSessionProjection_def try_in_def\<close>)

lemma writeSessionProjection_touches:
  assumes "writeSessionProjection e inp s = (r, s')"
  shows "touches_at (key [wpi_tenantId inp, wpi_sessionId inp]) s s'"
  using assms
proof (cases rule: writeSessionProjection_cases)
  case (written ss p)
  then have "projection_sequence ss \<le> pj_sequence p" by simp
  from advances_put_projection [OF this] show ?thesis using written(1)
    by (intro touches_put) (simp_all add: written(6) requireSession_Inr)
qed (simp_all add: touches_same)

text \<open>Leases. Every outcome of a claim.\<close>

lemma claimSessionLease_cases:
  assumes "claimSessionLease e t i w now ttl q s = (r, s')"
  obtains (none) "s' = s" "\<forall>l. r \<noteq> Inr (Some l)"
  | (claimed) ss l where "requireSession s t i = Inr ss" "r = Inr (Some l)" "l = claim_lease t i w (nowIso e now) ttl ss"
      "\<forall>l0. ss_lease ss = Some l0 \<longrightarrow> wl_leaseExpiresAt l0 \<le> nowIso e now"
      "\<forall>mx. positive_limit (Option.bind q sq_maxPerOrg) = Some mx \<longrightarrow>
         activeLeaseCount s (or_else (Option.bind q sq_orgId) (orgIdForTenant s t)) (nowIso e now) < mx"
      "s' = put_session t i (ss\<lparr> ss_nextLeaseAttempt := ss_nextLeaseAttempt ss + 1, ss_lease := Some l,
                ss_record := (ss_record ss)\<lparr> sr_status := SRunning, sr_updatedAt := nowIso e now \<rparr> \<rparr>) s"
proof (cases "requireSession s t i")
  case (Inl a)
  then show thesis using assms none by (auto simp: claimSessionLease_def try_in_def)
next
  case (Inr ss)
  note eq = assms [unfolded claimSessionLease_def Inr try_in_def sum.case Let_def]
  show thesis
  proof (cases "(case ss_lease ss of Some l \<Rightarrow> wl_leaseExpiresAt l > nowIso e now | None \<Rightarrow> False)
      \<or> (case positive_limit (Option.bind q sq_maxPerOrg) of
            Some mx \<Rightarrow> activeLeaseCount s (or_else (Option.bind q sq_orgId) (orgIdForTenant s t)) (nowIso e now) \<ge> mx | None \<Rightarrow> False)")
    case True
    then show thesis using eq none by (auto split: if_splits)
  next
    case False
    then have live: "\<forall>l0. ss_lease ss = Some l0 \<longrightarrow> wl_leaseExpiresAt l0 \<le> nowIso e now"
      and quota: "\<forall>mx. positive_limit (Option.bind q sq_maxPerOrg) = Some mx \<longrightarrow>
         activeLeaseCount s (or_else (Option.bind q sq_orgId) (orgIdForTenant s t)) (nowIso e now) < mx" by auto
    from False eq have "r = Inr (Some (claim_lease t i w (nowIso e now) ttl ss))"
      "s' = put_session t i (ss\<lparr> ss_nextLeaseAttempt := ss_nextLeaseAttempt ss + 1, ss_lease := Some (claim_lease t i w (nowIso e now) ttl ss),
                ss_record := (ss_record ss)\<lparr> sr_status := SRunning, sr_updatedAt := nowIso e now \<rparr> \<rparr>) s"
      by (auto split: if_splits)
    then show thesis using claimed [OF Inr _ refl live quota] by blast
  qed
qed

lemma claimSessionLease_touches:
  assumes "claimSessionLease e t i w now ttl q s = (r, s')"
  shows "touches_at (key [t, i]) s s'"
  using assms
proof (cases rule: claimSessionLease_cases)
  case (claimed ss l)
  have "lease_of_attempt (key [t, i]) (ss\<lparr> ss_nextLeaseAttempt := ss_nextLeaseAttempt ss + 1, ss_lease := Some l,
                ss_record := (ss_record ss)\<lparr> sr_status := SRunning, sr_updatedAt := nowIso e now \<rparr> \<rparr>)"
    by (auto simp: lease_of_attempt_def claimed(3) claim_lease_def)
  then show ?thesis unfolding claimed(6)
    by (intro touches_put_session [OF claimed(1)]) (simp_all add: same_identity_def)
qed (simp add: touches_same)

lemma releaseSessionLease_touches:
  assumes "releaseSessionLease e l now s = (r, s')"
  shows "touches_at (key [wl_tenantId l, wl_sessionId l]) s s'"
proof (cases "requireSession s (wl_tenantId l) (wl_sessionId l)")
  case (Inr ss)
  from assms [unfolded releaseSessionLease_def Inr try_in_def sum.case] consider "s' = s"
    | "s' = put_session (wl_tenantId l) (wl_sessionId l)
              (ss\<lparr> ss_lease := None, ss_record := (ss_record ss)\<lparr> sr_status := SIdle, sr_updatedAt := nowIso e now \<rparr> \<rparr>) s"
    by (auto split: if_splits)
  then show ?thesis
  proof cases
    case 2
    then show ?thesis by (auto intro!: touches_put_session [OF Inr] simp: same_identity_def)
  qed (simp add: touches_same)
qed (use assms in \<open>simp add: releaseSessionLease_def try_in_def touches_same\<close>)

text \<open>An operation under a lease: the state changes only for the worker that holds the current lease.\<close>

definition under_lease :: "env \<Rightarrow> worker_lease \<Rightarrow> int \<Rightarrow> 'a session_store_scheme \<Rightarrow> session_state \<Rightarrow> worker_lease \<Rightarrow> bool" where
  "under_lease e lease now s ss l =
     (requireSession s (wl_tenantId lease) (wl_sessionId lease) = Inr ss \<and> ss_lease ss = Some l
      \<and> wl_leaseToken l = wl_leaseToken lease \<and> now < wl_leaseExpiresAt l)"

lemma leased_cases:
  assumes "try_in s (requireSession s (wl_tenantId lease) (wl_sessionId lease))
      (\<lambda>ss. try_in s (assertCurrentLease ss lease now) (\<lambda>l. body ss l)) = (r, s')"
  obtains (error) er where "r = Inl er" "s' = s"
  | (leased) ss l where "under_lease e lease now s ss l" "body ss l = (r, s')"
proof (cases "requireSession s (wl_tenantId lease) (wl_sessionId lease)")
  case (Inl er)
  then show thesis using assms error [of er] by (simp add: try_in_def)
next
  case ss: (Inr ss)
  show thesis
  proof (cases "assertCurrentLease ss lease now")
    case (Inl er)
    then show thesis using assms ss error [of er] by (simp add: try_in_def)
  next
    case (Inr l)
    have "body ss l = (r, s')" using assms ss Inr by (simp add: try_in_def)
    moreover have "under_lease e lease now s ss l" using ss Inr by (simp add: under_lease_def assertCurrentLease_Inr)
    ultimately show thesis by (rule leased [rotated])
  qed
qed

text \<open>The same for an operation on one command of the session.\<close>

lemma leased_command_cases:
  assumes "try_in s (requireSession s (wl_tenantId lease) (wl_sessionId lease))
      (\<lambda>ss. try_in s (assertCurrentLease ss lease now) (\<lambda>l. try_in s (requireCommand ss commandId) (\<lambda>c. body ss l c))) = (r, s')"
  obtains (error) er where "r = Inl er" "s' = s"
  | (leased) ss l c where "under_lease e lease now s ss l" "find (has_command_id commandId) (ss_commands ss) = Some c"
      "body ss l c = (r, s')"
  using assms
proof (cases rule: leased_cases [where e = e])
  case (leased ss l)
  have same: "(\<lambda>c. cmd_commandId c = commandId) = has_command_id commandId" by (auto simp: has_command_id_def)
  show thesis
  proof (cases "requireCommand ss commandId")
    case (Inl er)
    then show thesis using leased(2) error [of er] by (simp add: try_in_def)
  next
    case (Inr c)
    have "body ss l c = (r, s')" using leased(2) Inr by (simp add: try_in_def)
    moreover have "find (has_command_id commandId) (ss_commands ss) = Some c" using Inr by (simp add: requireCommand_Inr same)
    ultimately show thesis using that(2) [OF leased(1)] by blast
  qed
qed (rule error)

lemma renewSessionLease_cases:
  assumes "renewSessionLease e lease now ttl s = (r, s')"
  obtains (error) er where "r = Inl er" "s' = s"
  | (renewed) ss l where "under_lease e lease (clock e) s ss l" "r = Inr (l\<lparr> wl_leaseExpiresAt := nowIso e now + ttl \<rparr>)"
      "s' = put_session (wl_tenantId lease) (wl_sessionId lease) (ss\<lparr> ss_lease := Some (l\<lparr> wl_leaseExpiresAt := nowIso e now + ttl \<rparr>) \<rparr>) s"
  using assms [unfolded renewSessionLease_def]
proof (cases rule: leased_cases [where e = e])
  case (leased ss l)
  then show thesis by (intro renewed [OF leased(1)]) (simp_all add: Let_def)
qed (rule error)

lemma checkpointSession_cases:
  assumes "checkpointSession e lease s = (r, s')"
  obtains (error) er where "r = Inl er" "s' = s"
  | (advanced) ss l where "under_lease e lease (clock e) s ss l" "wl_checkpointVersion lease = wl_checkpointVersion l"
      "r = Inr (l\<lparr> wl_checkpointVersion := wl_checkpointVersion l + 1 \<rparr>)"
      "s' = put_session (wl_tenantId lease) (wl_sessionId lease) (ss\<lparr> ss_lease := Some (l\<lparr> wl_checkpointVersion := wl_checkpointVersion l + 1 \<rparr>) \<rparr>) s"
  using assms [unfolded checkpointSession_def]
proof (cases rule: leased_cases [where e = e])
  case (leased ss l)
  show thesis
  proof (cases "wl_checkpointVersion lease = wl_checkpointVersion l")
    case True
    then show thesis using leased(2) by (intro advanced [OF leased(1) True]) (simp_all add: Let_def)
  next
    case False
    then show thesis using leased(2) error [of "Error ''Checkpoint version is stale.''"] by simp
  qed
qed (rule error)

text \<open>Replacing the current lease by one with the same token, and the commands by later versions of them.\<close>

lemma touches_under_lease:
  assumes "under_lease e lease now s ss l" "list_all2 command_le (ss_commands ss) cs" "wl_leaseToken l' = wl_leaseToken l"
    and "sessions s1 = sessions s"
  shows "touches_at (key [wl_tenantId lease, wl_sessionId lease]) s
     (put_session (wl_tenantId lease) (wl_sessionId lease) (ss\<lparr> ss_lease := Some l', ss_commands := cs \<rparr>) s1)"
proof -
  have ss: "requireSession s (wl_tenantId lease) (wl_sessionId lease) = Inr ss" and l: "ss_lease ss = Some l"
    using assms(1) by (simp_all add: under_lease_def)
  show ?thesis
    by (rule touches_put_session [OF ss]) (use assms(2-4) l in \<open>simp_all add: same_identity_def lease_of_attempt_def\<close>)
qed

lemma renewSessionLease_touches:
  assumes "renewSessionLease e lease now ttl s = (r, s')"
  shows "touches_at (key [wl_tenantId lease, wl_sessionId lease]) s s'"
  using assms
proof (cases rule: renewSessionLease_cases)
  case (renewed ss l)
  show ?thesis using touches_under_lease [OF renewed(1), of "ss_commands ss" "l\<lparr> wl_leaseExpiresAt := nowIso e now + ttl \<rparr>" s]
    by (simp add: renewed(3))
qed (simp add: touches_same)

lemma checkpointSession_touches:
  assumes "checkpointSession e lease s = (r, s')"
  shows "touches_at (key [wl_tenantId lease, wl_sessionId lease]) s s'"
  using assms
proof (cases rule: checkpointSession_cases)
  case (advanced ss l)
  show ?thesis using touches_under_lease [OF advanced(1), of "ss_commands ss" "l\<lparr> wl_checkpointVersion := wl_checkpointVersion l + 1 \<rparr>" s]
    by (simp add: advanced(4))
qed (simp add: touches_same)

text \<open>The command queue: claim, acknowledge, defer, fail. Every outcome of each.\<close>

lemma claimNextSessionCommand_cases:
  assumes "claimNextSessionCommand e lease now s = (r, s')"
  obtains (none) "s' = s" "\<forall>c. r \<noteq> Inr (Some c)"
  | (claimed) ss l c where "under_lease e lease (nowIso e now) s ss l" "find (claimable lease) (ss_commands ss) = Some c"
      "r = Inr (Some (claimed_command lease c))"
      "s' = put_session (wl_tenantId lease) (wl_sessionId lease)
         (ss\<lparr> ss_commands := update_first (claimable lease) (claimed_command lease) (ss_commands ss) \<rparr>) s"
  using assms [unfolded claimNextSessionCommand_def]
proof (cases rule: leased_cases [where e = e])
  case (leased ss l)
  show thesis
  proof (cases "find (claimable lease) (ss_commands ss)")
    case None
    then show thesis using leased(2) none by auto
  next
    case (Some c)
    then show thesis using leased(2) none claimed [OF leased(1) Some] by (auto split: if_splits)
  qed
qed (use none in simp)

lemma claimable_unfinished: "claimable l c \<Longrightarrow> \<not> command_finished c"
  by (auto simp: claimable_def command_finished_def)

lemma claimed_command_le: "claimable l c \<Longrightarrow> command_le c (claimed_command l c)"
  by (auto simp: command_le_def claimed_command_def dest: claimable_unfinished)

text \<open>Replacing only the commands.\<close>

lemma touches_commands:
  assumes "under_lease e lease now s ss l" "list_all2 command_le (ss_commands ss) cs" "sessions s1 = sessions s"
  shows "touches_at (key [wl_tenantId lease, wl_sessionId lease]) s
     (put_session (wl_tenantId lease) (wl_sessionId lease) (ss\<lparr> ss_commands := cs \<rparr>) s1)"
proof -
  have "ss\<lparr> ss_lease := Some l, ss_commands := cs \<rparr> = ss\<lparr> ss_commands := cs \<rparr>" using assms(1) by (simp add: under_lease_def)
  then show ?thesis using touches_under_lease [OF assms(1,2) refl assms(3)] by simp
qed

lemma claimNextSessionCommand_touches:
  assumes "claimNextSessionCommand e lease now s = (r, s')"
  shows "touches_at (key [wl_tenantId lease, wl_sessionId lease]) s s'"
  using assms
proof (cases rule: claimNextSessionCommand_cases)
  case (claimed ss l c)
  have "claimable lease c" using claimed(2) by (simp add: find_Some_split) blast
  then show ?thesis unfolding claimed(4)
    by (intro touches_commands [OF claimed(1)] update_found_le [OF claimed(2)] claimed_command_le) simp_all
qed (simp add: touches_same)

lemma ackSessionCommand_cases:
  assumes "ackSessionCommand e lease i now s = (r, s')"
  obtains (error) er where "r = Inl er" "s' = s"
  | (already) ss l c where "under_lease e lease (clock e) s ss l" "find (has_command_id i) (ss_commands ss) = Some c"
      "cmd_status c = CAcked" "r = Inr c" "s' = s"
  | (acked) ss l c where "under_lease e lease (clock e) s ss l" "find (has_command_id i) (ss_commands ss) = Some c"
      "running_under (wl_leaseToken lease) c" "r = Inr (acked_command (nowIso e now) c)"
      "s' = put_session (wl_tenantId lease) (wl_sessionId lease)
         (ss\<lparr> ss_commands := update_first (has_command_id i) (acked_command (nowIso e now)) (ss_commands ss) \<rparr>) s"
  using assms [unfolded ackSessionCommand_def]
proof (cases rule: leased_command_cases [where e = e])
  case (leased ss l c)
  then show thesis using already [OF leased(1,2)] acked [OF leased(1,2)] error by (auto split: if_splits)
qed (rule error)

lemma running_le:
  "running_under tok c \<Longrightarrow> cmd_commandId c' = cmd_commandId c \<Longrightarrow> cmd_createdSequence c' = cmd_createdSequence c
    \<Longrightarrow> cmd_payload c' = cmd_payload c \<Longrightarrow> cmd_attemptCount c' = cmd_attemptCount c \<Longrightarrow> command_le c c'"
  by (auto simp: command_le_def command_finished_def running_under_def)

lemma ackSessionCommand_touches:
  assumes "ackSessionCommand e lease i now s = (r, s')"
  shows "touches_at (key [wl_tenantId lease, wl_sessionId lease]) s s'"
  using assms
proof (cases rule: ackSessionCommand_cases)
  case (acked ss l c)
  show ?thesis unfolding acked(5)
    by (intro touches_commands [OF acked(1)] update_found_le [OF acked(2)] running_le [OF acked(3)]) (simp_all add: acked_command_def)
qed (simp_all add: touches_same)

lemma checkpointAndAckSessionCommand_cases:
  assumes "checkpointAndAckSessionCommand e lease i now s = (r, s')"
  obtains (error) er where "r = Inl er" "s' = s"
  | (already) ss l c where "under_lease e lease (clock e) s ss l" "find (has_command_id i) (ss_commands ss) = Some c" "cmd_status c = CAcked"
      "r = Inr \<lparr> ca_lease = l, ca_command = c, ca_checkpointAdvanced = False, ca_commandAcked = False \<rparr>" "s' = s"
  | (acked) ss l c l' where "under_lease e lease (clock e) s ss l" "find (has_command_id i) (ss_commands ss) = Some c"
      "running_under (wl_leaseToken lease) c" "wl_checkpointVersion lease = wl_checkpointVersion l"
      "l' = l\<lparr> wl_checkpointVersion := wl_checkpointVersion l + 1 \<rparr>"
      "r = Inr \<lparr> ca_lease = l', ca_command = checkpoint_acked_command (nowIso e now) c, ca_checkpointAdvanced = True, ca_commandAcked = True \<rparr>"
      "s' = put_session (wl_tenantId lease) (wl_sessionId lease) (ss\<lparr> ss_lease := Some l',
          ss_commands := update_first (has_command_id i) (checkpoint_acked_command (nowIso e now)) (ss_commands ss) \<rparr>) s"
  using assms [unfolded checkpointAndAckSessionCommand_def]
proof (cases rule: leased_command_cases [where e = e])
  case (leased ss l c)
  then consider (a) "cmd_status c = CAcked" | (b) "cmd_status c \<noteq> CAcked" "\<not> running_under (wl_leaseToken lease) c \<or> wl_checkpointVersion lease \<noteq> wl_checkpointVersion l"
    | (c) "cmd_status c \<noteq> CAcked" "running_under (wl_leaseToken lease) c" "wl_checkpointVersion lease = wl_checkpointVersion l" by blast
  then show thesis
  proof cases
    case a
    then show thesis using leased(3) already [OF leased(1,2) a] by simp
  next
    case b
    then show thesis using leased(3) error by (auto split: if_splits)
  next
    case c
    then show thesis using leased(3) acked [OF leased(1,2) c(2,3) refl] by (simp add: Let_def)
  qed
qed (rule error)

lemma checkpointAndAckSessionCommand_touches:
  assumes "checkpointAndAckSessionCommand e lease i now s = (r, s')"
  shows "touches_at (key [wl_tenantId lease, wl_sessionId lease]) s s'"
  using assms
proof (cases rule: checkpointAndAckSessionCommand_cases)
  case (acked ss l c l')
  show ?thesis unfolding acked(7)
    by (intro touches_under_lease [OF acked(1)] update_found_le [OF acked(2)] running_le [OF acked(3)])
      (simp_all add: acked(5) checkpoint_acked_command_def acked_command_def)
qed (simp_all add: touches_same)

lemma adjustUsageQuota_effect:
  assumes "adjustUsageQuota org q w d s = (r, s')"
  obtains "s' = s" | c where "s' = s\<lparr> usageCounters := c \<rparr>"
  using assms by (auto simp: adjustUsageQuota_def try_in_def split: sum.splits jsnum.splits if_splits option.splits)

lemma adjustUsageQuota_sessions:
  fixes s :: "'a session_store_scheme"
  assumes "adjustUsageQuota org q w d s = (r, s')"
  shows "sessions s' = sessions s"
  by (rule adjustUsageQuota_effect [OF assms]) simp_all

lemma deferSessionCommand_cases:
  assumes "deferSessionCommand e lease i inp s = (r, s')"
  obtains (error) er where "r = Inl er" "sessions s' = sessions s"
  | (deferred) ss l c f s1 sm where "under_lease e lease (nowIso e (df_now inp)) s ss l" "find (has_command_id i) (ss_commands ss) = Some c"
      "running_under (wl_leaseToken lease) c" "js_positive (df_retryAfterMs inp)" "sessions s1 = sessions s"
      "f = deferred_command (nowIso e (df_now inp) + js_int (js_floor (df_retryAfterMs inp))) (df_errorCode inp) sm" "r = Inr (f c)"
      "s' = put_session (wl_tenantId lease) (wl_sessionId lease)
         (ss\<lparr> ss_commands := update_first (has_command_id i) f (ss_commands ss), ss_lease := None,
             ss_record := (ss_record ss)\<lparr> sr_status := SIdle, sr_updatedAt := nowIso e (df_now inp) \<rparr> \<rparr>) s1"
proof (cases "\<not> js_is_finite (df_retryAfterMs inp) \<or> \<not> js_positive (df_retryAfterMs inp)")
  case True
  then show thesis using assms error by (auto simp: deferSessionCommand_def)
next
  case False
  define now where "now = nowIso e (df_now inp)"
  note eq = assms [unfolded deferSessionCommand_def Let_def now_def [symmetric] if_not_P [OF False]]
  from eq show thesis
  proof (cases rule: leased_command_cases [where e = e])
    case (leased ss l c)
    show thesis
    proof (cases "running_under (wl_leaseToken lease) c")
      case False
      then show thesis using leased(3) error by auto
    next
      case run: True
      show thesis
      proof (cases "redactOperationalText e (df_errorSummary inp) 512 ''Command deferred''")
        case (Inl er)
        then show thesis using leased(3) run error [of er] by (auto simp: try_in_def)
      next
        case (Inr sm)
        define q where "q = (case df_quotaReservation inp of
                 None \<Rightarrow> (Inr (), s)
               | Some q \<Rightarrow> adjustUsageQuota (orgIdForTenant s (wl_tenantId lease)) (qr_quotaKey q) (qr_windowStartedAtMs q) (JInt (- qr_quantity q)) s)"
        obtain qr s1 where q1: "q = (qr, s1)" by fastforce
        have s1: "sessions s1 = sessions s"
        proof (cases "df_quotaReservation inp")
          case None
          then show ?thesis using q1 by (simp add: q_def)
        next
          case (Some a)
          then show ?thesis using q1 by (auto simp: q_def intro: adjustUsageQuota_sessions)
        qed
        have body: "then_do q (\<lambda>_ s1. (Inr (deferred_command (now + js_int (js_floor (df_retryAfterMs inp))) (df_errorCode inp) sm c),
            put_session (wl_tenantId lease) (wl_sessionId lease)
             (ss\<lparr> ss_commands := update_first (has_command_id i) (deferred_command (now + js_int (js_floor (df_retryAfterMs inp))) (df_errorCode inp) sm) (ss_commands ss),
                 ss_lease := None, ss_record := (ss_record ss)\<lparr> sr_status := SIdle, sr_updatedAt := now \<rparr> \<rparr>) s1)) = (r, s')"
          using leased(3) run Inr by (simp add: try_in_def q_def)
        show thesis
        proof (cases qr)
          case (Inl er)
          then show thesis using body q1 s1 error [of er] by (simp add: then_do_def)
        next
          case (Inr u)
          then show thesis using body q1 False
            by (intro deferred [OF leased(1) [unfolded now_def] leased(2) run _ s1 refl, of sm]) (simp_all add: then_do_def now_def)
        qed
      qed
    qed
  qed (use error in blast)
qed

lemma deferSessionCommand_touches:
  assumes "deferSessionCommand e lease i inp s = (r, s')"
  shows "touches_at (key [wl_tenantId lease, wl_sessionId lease]) s s'"
  using assms
proof (cases rule: deferSessionCommand_cases)
  case (deferred ss l c f s1 sm)
  have ss: "requireSession s (wl_tenantId lease) (wl_sessionId lease) = Inr ss" using deferred(1) by (simp add: under_lease_def)
  have "list_all2 command_le (ss_commands ss) (update_first (has_command_id i) f (ss_commands ss))"
    by (intro update_found_le [OF deferred(2)] running_le [OF deferred(3)]) (simp_all add: deferred(6) deferred_command_def)
  then show ?thesis unfolding deferred(8)
    by (intro touches_put_session [OF ss]) (simp_all add: same_identity_def deferred(5))
qed (simp_all add: touches_same)

lemma failSessionCommand_cases:
  assumes "failSessionCommand e lease i msg s = (r, s')"
  obtains (error) er where "r = Inl er" "s' = s"
  | (failed) ss l c f where "under_lease e lease (clock e) s ss l" "find (has_command_id i) (ss_commands ss) = Some c"
      "running_under (wl_leaseToken lease) c" "f = failed_command msg \<or> (\<exists>sm. f = (\<lambda>c. (failed_command msg c)\<lparr> cmd_lastErrorSummary := Some sm \<rparr>))"
      "s' = put_session (wl_tenantId lease) (wl_sessionId lease) (ss\<lparr> ss_commands := update_first (has_command_id i) f (ss_commands ss) \<rparr>) s"
  using assms [unfolded failSessionCommand_def]
proof (cases rule: leased_command_cases [where e = e])
  case (leased ss l c)
  show thesis
  proof (cases "running_under (wl_leaseToken lease) c")
    case False
    then show thesis using leased(3) error by auto
  next
    case True
    then show thesis using leased(3) failed [OF leased(1,2) True] by (cases "redactOperationalText e msg 512 ''Command error''") (auto simp: Let_def)
  qed
qed (rule error)

lemma failSessionCommand_touches:
  assumes "failSessionCommand e lease i msg s = (r, s')"
  shows "touches_at (key [wl_tenantId lease, wl_sessionId lease]) s s'"
  using assms
proof (cases rule: failSessionCommand_cases)
  case (failed ss l c f)
  show ?thesis unfolding failed(5)
    by (intro touches_commands [OF failed(1)] update_found_le [OF failed(2)] running_le [OF failed(3)])
      (use failed(4) in \<open>auto simp: failed_command_def\<close>)
qed (simp add: touches_same)

text \<open>Recovery of a lease.\<close>

lemma recovered_command_le: "command_le c (recovered_command tok now mx c)"
  by (auto simp: recovered_command_def command_le_def command_finished_def running_under_def)

lemma recovered_session_advances:
  "advances k ss (recovered_session l now mx ss)" "same_command_ids ss (recovered_session l now mx ss)"
proof -
  have le: "list_all2 command_le (ss_commands ss) (map (recovered_command (wl_leaseToken l) now mx) (ss_commands ss))"
    by (simp add: list_all2_map2 list_all2_same recovered_command_le)
  show "advances k ss (recovered_session l now mx ss)" "same_command_ids ss (recovered_session l now mx ss)"
    by (rule advances_update; use le in \<open>simp add: recovered_session_def Let_def same_identity_def\<close>)+
qed

lemma recordAuditEvent_sessions:
  fixes s :: "'a session_store_scheme"
  assumes "recordAuditEvent e inp s = (r, s')"
  shows "sessions s' = sessions s"
  using assms by (auto elim: recordAuditEvent_effect)

lemma recoverSessionLeaseRecord_sessions:
  assumes "recoverSessionLeaseRecord e k ss l now mx s = (r, s')"
  shows "sessions s' = map_set k (recovered_session l now mx ss) (sessions s)"
proof -
  define s1 where "s1 = s\<lparr> sessions := map_set k (recovered_session l now mx ss) (sessions s) \<rparr>"
  have s1: "sessions s1 = map_set k (recovered_session l now mx ss) (sessions s)" by (simp add: s1_def)
  show ?thesis
  proof (cases "or_null (resolveOrgIdOrNull s1 (wl_tenantId l))")
    case None
    then show ?thesis using assms s1 by (simp add: recoverSessionLeaseRecord_def Let_def s1_def [symmetric])
  next
    case (Some org)
    obtain x s2 where x: "recordAuditEvent e (reap_audit org (reaped_lease_of l now mx ss)) s1 = (x, s2)" by fastforce
    have "s' = s2" using assms Some x
      by (cases x) (simp_all add: recoverSessionLeaseRecord_def Let_def s1_def [symmetric] then_do_def)
    then show ?thesis using recordAuditEvent_sessions [OF x] s1 by simp
  qed
qed

lemma recoverSessionLease_cases:
  assumes "recoverSessionLease e lease now mx s = (r, s')"
  obtains (none) "s' = s" "\<forall>x. r \<noteq> Inr (Some x)"
  | (recovered) ss l r0 where "requireSession s (wl_tenantId lease) (wl_sessionId lease) = Inr ss" "ss_lease ss = Some l"
      "wl_leaseToken l = wl_leaseToken lease"
      "recoverSessionLeaseRecord e (key [wl_tenantId lease, wl_sessionId lease]) ss l (nowIso e now) (max 1 (coalesce mx 3)) s = (r0, s')"
proof (cases "requireSession s (wl_tenantId lease) (wl_sessionId lease)")
  case (Inl er)
  then show thesis using assms none by (auto simp: recoverSessionLease_def try_in_def)
next
  case (Inr ss)
  show thesis
  proof (cases "\<exists>l. ss_lease ss = Some l \<and> wl_leaseToken l = wl_leaseToken lease")
    case False
    then show thesis using assms Inr none by (auto simp: recoverSessionLease_def try_in_def split: option.splits)
  next
    case True
    then obtain l where l: "ss_lease ss = Some l" "wl_leaseToken l = wl_leaseToken lease" by blast
    obtain r0 s0 where r0: "recoverSessionLeaseRecord e (key [wl_tenantId lease, wl_sessionId lease]) ss l (nowIso e now) (max 1 (coalesce mx 3)) s = (r0, s0)"
      by fastforce
    then have "s0 = s'" using assms Inr l by (cases r0) (simp_all add: recoverSessionLease_def try_in_def then_do_def)
    then show thesis using recovered [OF Inr l] r0 by blast
  qed
qed

lemma recoverSessionLease_touches:
  assumes "recoverSessionLease e lease now mx s = (r, s')"
  shows "touches_at (key [wl_tenantId lease, wl_sessionId lease]) s s'"
  using assms
proof (cases rule: recoverSessionLease_cases)
  case (recovered ss l r0)
  show ?thesis using recovered(1) recoverSessionLeaseRecord_sessions [OF recovered(4)]
    by (intro touches_put [OF _ _ recovered_session_advances]) (simp_all add: requireSession_Inr)
qed (simp add: touches_same)

text \<open>Effects of a projected event on the session it belongs to.\<close>

lemma finishWorkflowRun_sessions:
  assumes "finishWorkflowRun e t wid rid st sm er ns nr lt fa s = (r, s')"
  shows "sessions s' = sessions s"
  using assms by (cases rule: finishWorkflowRun_cases) simp_all

lemma terminal_sessions:
  "completeWorkflowRun e ci s = (r, s') \<Longrightarrow> sessions s' = sessions s"
  "failWorkflowRun e fi s = (r, s') \<Longrightarrow> sessions s' = sessions s"
  by (auto simp: completeWorkflowRun_def failWorkflowRun_def Let_def dest: finishWorkflowRun_sessions)

lemma then_do_state: "then_do m (\<lambda>_ s. (Inr (), s)) = (r, s') \<Longrightarrow> snd m = s'"
  by (auto simp: then_do_def split: prod.splits sum.splits)

lemma applyProjectedEventEffects_touches:
  assumes "applyProjectedEventEffects e inp u s = (r, s')"
  shows "touches_at (key [ap_tenantId (pe_event inp), ap_sessionId (pe_event inp)]) s s'"
proof -
  let ?t = "ap_tenantId (pe_event inp)" and ?i = "ap_sessionId (pe_event inp)"
  define s1 where "s1 = (case (pe_sessionStatus inp, map_get (sessions s) (key [?t, ?i])) of
              (Some st, Some ss) \<Rightarrow>
                put_session ?t ?i (ss\<lparr> ss_record := (ss_record ss)\<lparr> sr_status := st, sr_updatedAt := u \<rparr> \<rparr>) s
            | _ \<Rightarrow> s)"
  have 1: "touches_at (key [?t, ?i]) s s1"
  proof (cases "map_get (sessions s) (key [?t, ?i])")
    case (Some ss)
    have "advances (key [?t, ?i]) ss (ss\<lparr> ss_record := (ss_record ss)\<lparr> sr_status := st, sr_updatedAt := u \<rparr> \<rparr>)"
      "same_command_ids ss (ss\<lparr> ss_record := (ss_record ss)\<lparr> sr_status := st, sr_updatedAt := u \<rparr> \<rparr>)" for st
      by (rule advances_update; simp add: same_identity_def)+
    then show ?thesis using Some by (auto simp: s1_def touches_same split: option.splits intro!: touches_put)
  qed (simp add: s1_def touches_same split: option.splits)
  have 2: "sessions s' = sessions s1"
  proof (cases "pe_workflowTerminal inp")
    case None
    then show ?thesis using assms by (simp add: applyProjectedEventEffects_def Let_def s1_def)
  next
    case (Some tm)
    note eq = assms [unfolded applyProjectedEventEffects_def Let_def s1_def [symmetric] Some]
    have "s' = (case tm of TerminalCompleted ci \<Rightarrow> snd (completeWorkflowRun e ci s1) | TerminalFailed fi \<Rightarrow> snd (failWorkflowRun e fi s1))"
      using eq by (cases tm) (auto dest!: then_do_state)
    then show ?thesis by (cases tm) (auto intro: terminal_sessions surjective_pairing)
  qed
  show ?thesis using touches_trans [OF 1 touches_same [OF 2]] .
qed

text \<open>Composition: a chain of calls touches the session if every call does.\<close>

lemma touches_then_do:
  "touches_at k s (snd m) \<Longrightarrow> (\<And>a s1. m = (Inr a, s1) \<Longrightarrow> touches_at k s1 (snd (f a s1))) \<Longrightarrow> touches_at k s (snd (then_do m f))"
  by (cases m; cases "fst m") (auto simp: then_do_def intro: touches_trans)

lemma touches_try_in: "(\<And>a. m = Inr a \<Longrightarrow> touches_at k s (snd (f a))) \<Longrightarrow> touches_at k s (snd (try_in s m f))"
  by (cases m) (auto simp: try_in_def touches_same)

lemma appendWorkspaceEvent_sessions:
  assumes "appendWorkspaceEvent e inp s = (r, s')"
  shows "sessions s' = sessions s"
  using assms by (cases rule: appendWorkspaceEvent_cases) simp_all

lemma projected_append_touches:
  "touches_at (key [ap_tenantId (pe_event inp), ap_sessionId (pe_event inp)]) s (snd (projected_append e inp ss0 s))"
proof -
  let ?k = "key [ap_tenantId (pe_event inp), ap_sessionId (pe_event inp)]"
  have ev: "touches_at ?k s1 (snd (appendSessionEvent e (pe_event inp) s1))" for s1
    by (rule appendSessionEvent_touches [OF surjective_pairing])
  have ws: "touches_at k s1 (snd (appendWorkspaceEvent e wi s1))" for k s1 wi
    by (rule touches_same [OF appendWorkspaceEvent_sessions [OF surjective_pairing]])
  have pj: "touches_at ?k s1 (snd (writeSessionProjection e \<lparr> wpi_tenantId = ap_tenantId (pe_event inp), wpi_sessionId = ap_sessionId (pe_event inp),
      wpi_sequence = a, wpi_view = b, wpi_leaseToken = c, wpi_updatedAt = d \<rparr> s1))" for s1 a b c d
    using writeSessionProjection_touches [OF surjective_pairing, where e = e and s = s1 and inp = "\<lparr> wpi_tenantId = ap_tenantId (pe_event inp),
      wpi_sessionId = ap_sessionId (pe_event inp), wpi_sequence = a, wpi_view = b, wpi_leaseToken = c, wpi_updatedAt = d \<rparr>"] by simp
  have ef: "touches_at ?k s1 (snd (applyProjectedEventEffects e inp u s1))" for s1 u
    by (rule applyProjectedEventEffects_touches [OF surjective_pairing])
  show ?thesis unfolding projected_append_def Let_def
    by (intro touches_then_do touches_try_in) (auto intro!: touches_then_do touches_try_in simp: ev ws pj ef touches_same split: prod.splits)
qed

lemma restore_simps [simp]:
  "sessions (restoreWorkflows w s) = sessions s" "sessions (restoreWorkspaceEvents x s) = sessions s"
  "workspaceEvents (restoreWorkflows w s) = workspaceEvents s" "workspaceEvents (restoreWorkspaceEvents x s) = x"
  by (simp_all add: restoreWorkflows_def restoreWorkspaceEvents_def Let_def)

text \<open>Every outcome of a projected append: on failure the sessions are those before the call.\<close>

lemma appendProjectedSessionEvent_cases:
  assumes "appendProjectedSessionEvent e inp s = (r, s')"
  obtains (unknown) er where "r = Inl er" "s' = s"
  | (rolled_back) er ss s1 where "requireSession s (ap_tenantId (pe_event inp)) (ap_sessionId (pe_event inp)) = Inr ss"
      "projected_append e inp ss s = (Inl er, s1)" "r = Inl er"
      "s' = restoreWorkflows (snapshotWorkflows s) (restoreWorkspaceEvents (snapshotWorkspaceEvents s)
         (put_session (ap_tenantId (pe_event inp)) (ap_sessionId (pe_event inp)) ss s1))"
  | (appended) x ss where "requireSession s (ap_tenantId (pe_event inp)) (ap_sessionId (pe_event inp)) = Inr ss"
      "projected_append e inp ss s = (Inr x, s')" "r = Inr x"
proof (cases "requireSession s (ap_tenantId (pe_event inp)) (ap_sessionId (pe_event inp))")
  case (Inl er)
  then show thesis using assms unknown [of er] by (simp add: appendProjectedSessionEvent_def try_in_def)
next
  case (Inr ss)
  obtain q s1 where q: "projected_append e inp ss s = (q, s1)" by fastforce
  note eq = assms [unfolded appendProjectedSessionEvent_def Let_def Inr try_in_def sum.case q prod.case]
  show thesis
  proof (cases q)
    case (Inl er)
    show thesis
      by (rule rolled_back [OF Inr q [unfolded Inl]]) (use eq [unfolded Inl sum.case] in simp_all)
  next
    case x: (Inr x)
    from eq [unfolded x sum.case] have "r = Inr x" "s' = s1" by simp_all
    then show thesis using appended [OF Inr] q x by blast
  qed
qed

lemma appendProjectedSessionEvent_touches:
  assumes "appendProjectedSessionEvent e inp s = (r, s')"
  shows "touches_at (key [ap_tenantId (pe_event inp), ap_sessionId (pe_event inp)]) s s'"
  using assms
proof (cases rule: appendProjectedSessionEvent_cases)
  case (rolled_back er ss s1)
  have ss: "map_get (sessions s) (key [ap_tenantId (pe_event inp), ap_sessionId (pe_event inp)]) = Some ss"
    using rolled_back(1) by (simp add: requireSession_Inr)
  have "touches_at (key [ap_tenantId (pe_event inp), ap_sessionId (pe_event inp)]) s s1"
    using projected_append_touches [of inp s e ss] rolled_back(2) by simp
  then have "map_set (key [ap_tenantId (pe_event inp), ap_sessionId (pe_event inp)]) ss (sessions s1) = sessions s"
    using ss by (auto simp: touches_at_def)
  then show ?thesis by (intro touches_same) (simp add: rolled_back(4))
next
  case (appended x ss)
  then show ?thesis using projected_append_touches [of inp s e ss] by simp
qed (simp add: touches_same)

text \<open>Enqueueing. A denied or failing admission leaves the store as it was.\<close>

lemma consume_all_effect:
  fixes s :: "'a session_store_scheme"
  assumes "consume_all e qs s = (r, s')"
  shows "\<exists>c. s' = s\<lparr> usageCounters := c \<rparr>"
  using assms
proof (induction qs arbitrary: s)
  case Nil
  then have "s' = s\<lparr> usageCounters := usageCounters s \<rparr>" by simp
  then show ?case by blast
next
  case (Cons q qs)
  obtain x s1 where x: "consumeUsageQuota e q s = (x, s1)" by fastforce
  have s1: "\<exists>c. s1 = s\<lparr> usageCounters := c \<rparr>"
    using x
  proof (cases rule: consumeUsageQuota_cases)
    case (error er)
    then have "s1 = s\<lparr> usageCounters := usageCounters s \<rparr>" by simp
    then show ?thesis by blast
  next
    case (denied rr)
    then have "s1 = s\<lparr> usageCounters := usageCounters s \<rparr>" by simp
    then show ?thesis by blast
  qed blast
  show ?case
  proof (cases "\<exists>y. x = Inr y \<and> qc_allowed y")
    case True
    then have "consume_all e qs s1 = (r, s')" using Cons.prems x by (auto simp: then_do_def)
    then show ?thesis using Cons.IH [of s1] s1 by auto
  next
    case False
    then have "s' = s1" using Cons.prems x by (cases x) (auto simp: then_do_def)
    then show ?thesis using s1 by simp
  qed
qed

lemma consume_or_restore_cases:
  fixes s :: "'a session_store_scheme"
  assumes "consume_or_restore e qs s = (r, s')"
  obtains (error) er where "r = Inl er" "s' = s" | (consumed) c where "r = Inr ()" "s' = s\<lparr> usageCounters := c \<rparr>"
proof -
  obtain x s1 where x: "consume_all e qs s = (x, s1)" by fastforce
  obtain c where c: "s1 = s\<lparr> usageCounters := c \<rparr>" using consume_all_effect [OF x] by blast
  show thesis
  proof (cases x)
    case (Inl er)
    then show thesis using assms x c error [of er] by (simp add: consume_or_restore_def snapshotCounters_def restoreCounters_def Let_def)
  next
    case (Inr u)
    then show thesis using assms x c consumed [of c] by (simp add: consume_or_restore_def)
  qed
qed

end
