(* ===== verification/Session_Safety.thy ===== *)
theory Session_Safety
  imports Session_Invariants
begin

text \<open>
  Safety of the session domain: the transition relation over all of its operations, the store
  invariant \<open>sessions_ok\<close>, and the properties that follow for every interleaving: the event log is
  contiguous and append-only, finished commands stay finished, a worker that lost its lease is
  fenced off, a failed projected append or enqueue leaves no trace.
\<close>


section \<open>Creation, admission and reaping\<close>

lemma createSession_cases:
  assumes "createSession e inp s = (r, s')"
  obtains (same) "s' = s"
  | (created) ss where "map_get (sessions s) (key [cs_tenantId inp, cs_sessionId inp]) = None" "r = Inr (ss_record ss)"
      "ss_nextEventSequence ss = 0" "ss_nextCommandSequence ss = 0" "ss_lease ss = None" "ss_events ss = []" "ss_commands ss = []"
      "sr_tenantId (ss_record ss) = cs_tenantId inp" "sr_userId (ss_record ss) = cs_userId inp" "sr_sessionId (ss_record ss) = cs_sessionId inp"
      "sr_status (ss_record ss) = SIdle"
      "\<forall>mx. positive_limit (Option.bind (cs_quota inp) sq_maxPerOrg) = Some mx \<longrightarrow>
         activeSessionCount s (or_else (Option.bind (cs_quota inp) sq_orgId) (orgIdForTenant s (cs_tenantId inp))) < mx"
      "s' = put_session (cs_tenantId inp) (cs_sessionId inp) ss s"
proof (cases "requireTenantUser s (cs_tenantId inp) (cs_userId inp)")
  case (Inl er)
  then show thesis using assms same by (simp add: createSession_def try_in_def)
next
  case u: (Inr u)
  define org where "org = or_else (Option.bind (cs_quota inp) sq_orgId) (orgIdForTenant s (cs_tenantId inp))"
  define admit where "admit = (case positive_limit (Option.bind (cs_quota inp) sq_maxPerOrg) of
                None \<Rightarrow> Inr ()
              | Some mx \<Rightarrow> (let active = activeSessionCount s org
                   in if active \<ge> mx
                      then Inl (quotaExceeded ''Concurrent cloud session quota exceeded.''
                        (or_else (Option.bind (cs_quota inp) sq_policyCode) ''quota.concurrent_sessions_exceeded'')
                        60000 mx active (clock e + 60000))
                      else Inr ()))"
  define rcd where "rcd = \<lparr> sr_tenantId = cs_tenantId inp, sr_userId = cs_userId inp, sr_sessionId = cs_sessionId inp,
                     sr_opencodeSessionId = cs_opencodeSessionId inp, sr_profileName = cs_profileName inp, sr_status = SIdle,
                     sr_title = or_null (cs_title inp), sr_createdAt = nowIso e (cs_createdAt inp), sr_updatedAt = nowIso e (cs_createdAt inp), sr_projectSource = None \<rparr>"
  define ss where "ss = \<lparr> ss_record = rcd, ss_nextEventSequence = 0, ss_nextCommandSequence = 0, ss_nextLeaseAttempt = 0, ss_lease = None,
                        ss_events = [], ss_projection = None, ss_commands = [] \<rparr>"
  note eq = assms [unfolded createSession_def u try_in_def sum.case Let_def org_def [symmetric], folded admit_def [unfolded Let_def], folded rcd_def, folded ss_def]
  show thesis
  proof (cases "map_get (sessions s) (key [cs_tenantId inp, cs_sessionId inp])")
    case (Some x)
    then show thesis using eq same by simp
  next
    case None
    show thesis
    proof (cases admit)
      case (Inl er)
      then show thesis using eq None same by simp
    next
      case (Inr v)
      then have "\<forall>mx. positive_limit (Option.bind (cs_quota inp) sq_maxPerOrg) = Some mx \<longrightarrow> activeSessionCount s org < mx"
        by (auto simp: admit_def Let_def split: if_splits)
      then show thesis using eq None Inr by (intro created [of ss]) (simp_all add: ss_def rcd_def org_def)
    qed
  qed
qed

lemma enqueueSessionCommand_cases:
  assumes "enqueueSessionCommand e inp s = (r, s')"
  obtains (error) er where "r = Inl er" "s' = s"
  | (existing) c where "findSessionCommandById s (en_commandId inp) = Some c" "same_command e inp c" "r = Inr c" "s' = s"
  | (enqueued) ss cs where "requireSession s (en_tenantId inp) (en_sessionId inp) = Inr ss" "findSessionCommandById s (en_commandId inp) = None"
      "r = Inr (new_command e inp ss)"
      "s' = put_session (en_tenantId inp) (en_sessionId inp)
         (ss\<lparr> ss_nextCommandSequence := ss_nextCommandSequence ss + 1, ss_commands := ss_commands ss @ [new_command e inp ss] \<rparr>) (s\<lparr> usageCounters := cs \<rparr>)"
proof (cases "requireTenantUser s (en_tenantId inp) (en_userId inp)")
  case (Inl er)
  then show thesis using assms error [of er] by (simp add: enqueueSessionCommand_def try_in_def)
next
  case u: (Inr u)
  show thesis
  proof (cases "requireSession s (en_tenantId inp) (en_sessionId inp)")
    case (Inl er)
    then show thesis using assms u error [of er] by (simp add: enqueueSessionCommand_def try_in_def)
  next
    case ss: (Inr ss)
    note eq = assms [unfolded enqueueSessionCommand_def u ss try_in_def sum.case Let_def]
    show thesis
    proof (cases "findSessionCommandById s (en_commandId inp)")
      case (Some c)
      show thesis
      proof (cases "same_command e inp c")
        case True
        then show thesis using eq Some by (intro existing [OF Some]) simp_all
      next
        case False
        then show thesis using eq Some error by auto
      qed
    next
      case None
      show thesis
      proof (cases "assertCommandQueueQuota e s (queue_snapshot_of s) (en_tenantId inp) (en_quota inp) (en_createdAt inp)")
        case (Inl er)
        then show thesis using eq None error [of er] by simp
      next
        case a: (Inr a)
        obtain x s1 where x: "consume_or_restore e (en_usageQuotas inp) s = (x, s1)" by fastforce
        from x show thesis
        proof (cases rule: consume_or_restore_cases)
          case (error er)
          then show thesis using eq None a x that(1) [of er] by (simp add: then_do_def)
        next
          case (consumed c)
          then show thesis using eq None a x by (intro enqueued [OF ss None, of c]) (simp_all add: then_do_def)
        qed
      qed
    qed
  qed
qed

text \<open>Reaping recovers distinct sessions one after the other.\<close>

definition touch_some :: "'a session_store_scheme \<Rightarrow> 'a session_store_scheme \<Rightarrow> bool" where
  "touch_some s s' = (\<exists>k. touches_at k s s')"

lemma reap_leases_touches:
  assumes "reap_leases e now mx xs s = (r, s')" "distinct (map fst xs)" "\<forall>(k, ss) \<in> set xs. map_get (sessions s) k = Some ss"
  shows "touch_some\<^sup>*\<^sup>* s s'"
  using assms
proof (induction xs arbitrary: s r)
  case (Cons p xs)
  obtain k ss where p: "p = (k, ss)" by fastforce
  show ?case
  proof (cases "ss_lease ss")
    case None
    then show ?thesis using Cons by (auto simp: p)
  next
    case (Some l)
    obtain x s1 where x: "recoverSessionLeaseRecord e k ss l now mx s = (x, s1)" by fastforce
    note se = recoverSessionLeaseRecord_sessions [OF x]
    have "touches_at k s s1" using Cons.prems(3) se by (intro touches_put [OF _ _ recovered_session_advances]) (simp_all add: p)
    then have step: "touch_some s s1" by (auto simp: touch_some_def)
    show ?thesis
    proof (cases x)
      case (Inl er)
      then show ?thesis using Cons.prems(1) x Some step by (auto simp: p then_do_def)
    next
      case (Inr rd)
      obtain y s2 where y: "reap_leases e now mx xs s1 = (y, s2)" by fastforce
      have s2: "s' = s2" using Cons.prems(1) x Some Inr y by (cases y) (auto simp: p then_do_def)
      have "\<forall>(k', ss') \<in> set xs. map_get (sessions s1) k' = Some ss'" using Cons.prems(2,3) se by (force simp: p)
      then have "touch_some\<^sup>*\<^sup>* s1 s2" using Cons.IH [of s1 y] y s2 Cons.prems(2) by simp
      then show ?thesis using step s2 by (simp add: converse_rtranclp_into_rtranclp)
    qed
  qed
qed simp

lemma reapExpiredSessionLeases_touches:
  assumes "reapExpiredSessionLeases e now mx lim s = (r, s')" "map_ok (sessions s)"
  shows "touch_some\<^sup>*\<^sup>* s s'"
proof -
  define xs where "xs = slice_int (expired_leases e (nowIso e now) s) (max 1 (min 1000 (coalesce lim 100)))"
  have run: "reap_leases e (nowIso e now) (max 1 (coalesce mx 3)) xs s = (r, s')"
    using assms(1) by (simp add: reapExpiredSessionLeases_def Let_def xs_def)
  have "distinct (map fst (expired_leases e (nowIso e now) s))"
    using assms(2) by (simp add: expired_leases_def map_ok_def distinct_map_filter)
  then have "distinct (map fst xs)" by (simp add: xs_def slice_int_def take_map [symmetric] distinct_take)
  moreover have "set xs \<subseteq> set (sessions s)"
    by (auto simp: xs_def slice_int_def expired_leases_def dest!: in_set_takeD)
  then have "\<forall>(k, ss) \<in> set xs. map_get (sessions s) k = Some ss" using assms(2) by (auto simp: map_get_iff)
  ultimately show ?thesis by (rule reap_leases_touches [OF run])
qed

section \<open>The store invariant and the transition relation\<close>

definition command_ids :: "'a session_store_scheme \<Rightarrow> string \<Rightarrow> string list" where
  "command_ids s k = (case map_get (sessions s) k of Some ss \<Rightarrow> map cmd_commandId (ss_commands ss) | None \<Rightarrow> [])"

definition sessions_ok :: "'a session_store_scheme \<Rightarrow> bool" where
  "sessions_ok s =
     (map_ok (sessions s) \<and> (\<forall>k ss. map_get (sessions s) k = Some ss \<longrightarrow> session_inv k ss)
      \<and> (\<forall>k. distinct (command_ids s k))
      \<and> (\<forall>k k'. k \<noteq> k' \<longrightarrow> set (command_ids s k) \<inter> set (command_ids s k') = {}))"

definition sessions_kept :: "'a session_store_scheme \<Rightarrow> 'a session_store_scheme \<Rightarrow> bool" where
  "sessions_kept s s' =
     (\<forall>k ss. map_get (sessions s) k = Some ss \<longrightarrow> (\<exists>ss'. map_get (sessions s') k = Some ss' \<and> session_le ss ss'))"

text \<open>
  One operation of the session domain under any environment; \<open>se_other\<close> stands for the operations of
  the other domains, which hold no reference to a session object.
\<close>

inductive session_transition :: "'a workflow_store_scheme \<Rightarrow> 'a workflow_store_scheme \<Rightarrow> bool" where
  se_create: "createSession e i1 s = (r1, s') \<Longrightarrow> session_transition s s'"
| se_bind: "bindSessionRuntime e t i oc ti lt u s = (r2, s') \<Longrightarrow> session_transition s s'"
| se_status: "updateSessionStatus e t i st ti lt u s = (r3, s') \<Longrightarrow> session_transition s s'"
| se_append: "appendSessionEvent e i4 s = (r4, s') \<Longrightarrow> session_transition s s'"
| se_projection: "writeSessionProjection e i5 s = (r5, s') \<Longrightarrow> session_transition s s'"
| se_projected: "appendProjectedSessionEvent e i6 s = (r6, s') \<Longrightarrow> session_transition s s'"
| se_claim: "claimSessionLease e t i w now ttl q s = (r7, s') \<Longrightarrow> session_transition s s'"
| se_release: "releaseSessionLease e l now s = (r8, s') \<Longrightarrow> session_transition s s'"
| se_renew: "renewSessionLease e l now ttl s = (r9, s') \<Longrightarrow> session_transition s s'"
| se_checkpoint: "checkpointSession e l s = (r10, s') \<Longrightarrow> session_transition s s'"
| se_recover: "recoverSessionLease e l now mx s = (r11, s') \<Longrightarrow> session_transition s s'"
| se_reap: "reapExpiredSessionLeases e now mx lim s = (r12, s') \<Longrightarrow> session_transition s s'"
| se_enqueue: "enqueueSessionCommand e i13 s = (r13, s') \<Longrightarrow> session_transition s s'"
| se_next: "claimNextSessionCommand e l now s = (r14, s') \<Longrightarrow> session_transition s s'"
| se_ack: "ackSessionCommand e l cid now s = (r15, s') \<Longrightarrow> session_transition s s'"
| se_check_ack: "checkpointAndAckSessionCommand e l cid now s = (r16, s') \<Longrightarrow> session_transition s s'"
| se_defer: "deferSessionCommand e l cid i17 s = (r17, s') \<Longrightarrow> session_transition s s'"
| se_fail: "failSessionCommand e l cid msg s = (r18, s') \<Longrightarrow> session_transition s s'"
| se_other: "sessions s' = sessions s \<Longrightarrow> session_transition s s'"

lemma sessions_kept_refl [simp]: "sessions_kept s s"
  by (auto simp: sessions_kept_def intro: session_le_refl)

lemma sessions_kept_trans: "sessions_kept a b \<Longrightarrow> sessions_kept b c \<Longrightarrow> sessions_kept a c"
  unfolding sessions_kept_def by (meson session_le_trans)

lemma touches_kept:
  assumes "touches_at k s s'" "sessions_ok s"
  shows "sessions_ok s' \<and> sessions_kept s s'"
proof (cases "sessions s' = sessions s")
  case True
  then show ?thesis using assms(2) by (auto simp: sessions_ok_def sessions_kept_def command_ids_def)
next
  case False
  then obtain ss ss' where t: "map_get (sessions s) k = Some ss" "sessions s' = map_set k ss' (sessions s)"
    "advances k ss ss'" "same_command_ids ss ss'" using assms(1) by (auto simp: touches_at_def)
  have ids: "command_ids s' k' = command_ids s k'" for k'
    using t(1,2,4) by (simp add: command_ids_def same_command_ids_def)
  have "sessions_kept s s'" using t by (auto simp: sessions_kept_def advances_def)
  moreover have "\<forall>k' ss. map_get (sessions s') k' = Some ss \<longrightarrow> session_inv k' ss"
    using t assms(2) by (auto simp: sessions_ok_def advances_def)
  ultimately show ?thesis using assms(2) t(2) by (simp add: sessions_ok_def ids)
qed

lemma touch_some_kept: "touch_some\<^sup>*\<^sup>* s s' \<Longrightarrow> sessions_ok s \<Longrightarrow> sessions_ok s' \<and> sessions_kept s s'"
proof (induction rule: rtranclp_induct)
  case (step s1 s2)
  then obtain k where "touches_at k s1 s2" by (auto simp: touch_some_def)
  then show ?case using touches_kept step.IH [OF step.prems] sessions_kept_trans by blast
qed simp

lemma createSession_kept:
  assumes "createSession e inp s = (r, s')" "sessions_ok s"
  shows "sessions_ok s' \<and> sessions_kept s s'"
  using assms(1)
proof (cases rule: createSession_cases)
  case (created ss)
  have inv: "session_inv k ss" for k using created by (simp add: session_inv_def)
  have ids: "command_ids s' k = command_ids s k" for k using created by (simp add: command_ids_def)
  have "sessions_kept s s'" using created by (auto simp: sessions_kept_def)
  moreover have "\<forall>k ss. map_get (sessions s') k = Some ss \<longrightarrow> session_inv k ss"
    using created inv assms(2) by (simp add: sessions_ok_def)
  moreover have "map_ok (sessions s')" using assms(2) created(13) by (simp add: sessions_ok_def)
  ultimately show ?thesis using assms(2) unfolding sessions_ok_def ids by blast
qed (use assms(2) in simp)

lemma findSessionCommandById_None:
  assumes "findSessionCommandById s i = None"
  shows "i \<notin> set (command_ids s k)"
proof (cases "map_get (sessions s) k")
  case (Some ss)
  then have "ss \<in> set (map_values (sessions s))" by (rule map_get_values)
  then show ?thesis using assms Some by (auto simp: findSessionCommandById_def find_None_iff command_ids_def)
qed (simp add: command_ids_def)

lemma enqueueSessionCommand_kept:
  assumes "enqueueSessionCommand e inp s = (r, s')" "sessions_ok s"
  shows "sessions_ok s' \<and> sessions_kept s s'"
  using assms(1)
proof (cases rule: enqueueSessionCommand_cases)
  case (enqueued ss cs)
  let ?k = "key [en_tenantId inp, en_sessionId inp]"
  let ?ss = "ss\<lparr> ss_nextCommandSequence := ss_nextCommandSequence ss + 1, ss_commands := ss_commands ss @ [new_command e inp ss] \<rparr>"
  have get: "map_get (sessions s) ?k = Some ss" using enqueued(1) by (simp add: requireSession_Inr)
  have s': "sessions s' = map_set ?k ?ss (sessions s)" by (simp add: enqueued(4))
  have adv: "advances ?k ss ?ss" by (rule advances_enqueue) (simp add: new_command_def)
  have ids: "command_ids s' k = command_ids s k @ (if k = ?k then [en_commandId inp] else [])" for k
    using get s' by (simp add: command_ids_def new_command_def)
  have "sessions_kept s s'" using get s' adv by (auto simp: sessions_kept_def advances_def)
  moreover have "\<forall>k ss. map_get (sessions s') k = Some ss \<longrightarrow> session_inv k ss"
    using get s' adv assms(2) by (auto simp: sessions_ok_def advances_def)
  moreover have "map_ok (sessions s')" using assms(2) s' by (simp add: sessions_ok_def)
  moreover have "\<forall>k. distinct (command_ids s' k)"
    using assms(2) findSessionCommandById_None [OF enqueued(2)] by (simp add: ids sessions_ok_def)
  moreover have "\<forall>k k'. k \<noteq> k' \<longrightarrow> set (command_ids s' k) \<inter> set (command_ids s' k') = {}"
  proof (intro allI impI)
    fix k k' :: string
    assume "k \<noteq> k'"
    moreover from this have "set (command_ids s k) \<inter> set (command_ids s k') = {}" using assms(2) by (simp add: sessions_ok_def)
    ultimately show "set (command_ids s' k) \<inter> set (command_ids s' k') = {}"
      using findSessionCommandById_None [OF enqueued(2), of k] findSessionCommandById_None [OF enqueued(2), of k'] by (auto simp: ids)
  qed
  ultimately show ?thesis unfolding sessions_ok_def by blast
qed (use assms(2) in simp_all)

lemmas session_ops_kept = createSession_kept enqueueSessionCommand_kept touches_kept [OF bindSessionRuntime_touches]
  touches_kept [OF updateSessionStatus_touches] touches_kept [OF appendSessionEvent_touches] touches_kept [OF writeSessionProjection_touches]
  touches_kept [OF appendProjectedSessionEvent_touches] touches_kept [OF claimSessionLease_touches] touches_kept [OF releaseSessionLease_touches]
  touches_kept [OF renewSessionLease_touches] touches_kept [OF checkpointSession_touches] touches_kept [OF recoverSessionLease_touches]
  touches_kept [OF claimNextSessionCommand_touches] touches_kept [OF ackSessionCommand_touches]
  touches_kept [OF checkpointAndAckSessionCommand_touches] touches_kept [OF deferSessionCommand_touches] touches_kept [OF failSessionCommand_touches]

lemma session_transition_kept:
  assumes "session_transition s s'" "sessions_ok s"
  shows "sessions_ok s' \<and> sessions_kept s s'"
  using assms
proof (induction rule: session_transition.induct)
  case (se_reap e now mx lim s r12 s')
  have "map_ok (sessions s)" using se_reap(2) by (simp add: sessions_ok_def)
  from touch_some_kept [OF reapExpiredSessionLeases_touches [OF se_reap(1) this] se_reap(2)] show ?case .
next
  case (se_other s' s)
  then show ?case using touches_kept [OF touches_same] by blast
qed (erule (1) session_ops_kept)+

lemma session_transitions_kept:
  "session_transition\<^sup>*\<^sup>* s s' \<Longrightarrow> sessions_ok s \<Longrightarrow> sessions_ok s' \<and> sessions_kept s s'"
  by (induction rule: rtranclp_induct) (auto dest: session_transition_kept intro: sessions_kept_trans)

section \<open>Lease tokens\<close>

lemma key_pair: "key [t, i] = t @ CHR 0x00 # i"
  by (simp add: key_def)

lemma nul_not_colon: "CHR 0x00 \<noteq> CHR '':''"
  by simp

lemma key_pair_cases:
  assumes "key [t, i] = key [t', i']"
  obtains (same) "t = t'" "i = i'" | (left) us where "t = t' @ CHR 0x00 # us" | (right) us where "t' = t @ CHR 0x00 # us"
proof -
  have "t @ CHR 0x00 # i = t' @ CHR 0x00 # i'" using assms by (simp only: key_pair)
  then obtain us where "(t = t' @ us \<and> us @ CHR 0x00 # i = CHR 0x00 # i') \<or> (t @ us = t' \<and> CHR 0x00 # i = us @ CHR 0x00 # i')"
    unfolding append_eq_append_conv2 by blast
  then show thesis using that by (cases us) auto
qed

text \<open>A token determines the attempt that issued it, among all tokens of the session under one key.\<close>

lemma lease_token_attempt:
  assumes "key [t, i] = key [t', i']" and "lease_token t i n w = lease_token t' i' n' w'"
  shows "n = n'"
  using assms(1)
proof (cases rule: key_pair_cases)
  case same
  then have eq: "show_nat n @ CHR '':'' # w = show_nat n' @ CHR '':'' # w'" using assms(2) by (simp add: lease_token_def)
  have "CHR '':'' \<notin> set (show_nat m)" for m by (rule show_nat_no_sep) simp
  then have "show_nat n = show_nat n'" using sep_append_inj [OF eq] by simp
  then show ?thesis by (rule show_nat_inj)
qed (use assms(2) nul_not_colon in \<open>simp_all add: lease_token_def\<close>)

lemma claim_attempt:
  assumes "claimSessionLease e t i w now ttl q s = (Inr (Some l), s')"
  shows "wl_tenantId l = t" "wl_sessionId l = i"
    "\<exists>ss'. map_get (sessions s') (key [t, i]) = Some ss' \<and> ss_lease ss' = Some l \<and> wl_leaseToken l = lease_token t i (ss_nextLeaseAttempt ss') w
       \<and> (\<exists>ss. map_get (sessions s) (key [t, i]) = Some ss \<and> ss_nextLeaseAttempt ss' = ss_nextLeaseAttempt ss + 1)"
  using assms
  by (cases rule: claimSessionLease_cases; auto simp: claim_lease_def requireSession_Inr)+

text \<open>Once a later attempt has been made, the old token is not the current one.\<close>

lemma old_token_not_current:
  assumes ok: "sessions_ok s" and get: "map_get (sessions s) (key [t, i]) = Some ss"
    and "wl_leaseToken l = lease_token t i n w" and "n < ss_nextLeaseAttempt ss" and cur: "ss_lease ss = Some l'"
  shows "wl_leaseToken l' \<noteq> wl_leaseToken l"
proof
  assume "wl_leaseToken l' = wl_leaseToken l"
  moreover have "lease_of_attempt (key [t, i]) ss" using ok get by (simp add: sessions_ok_def session_inv_def)
  ultimately obtain t' i' w' where "key [t', i'] = key [t, i]" "lease_token t' i' (ss_nextLeaseAttempt ss) w' = lease_token t i n w"
    using assms(3) cur by (auto simp: lease_of_attempt_def)
  then have "ss_nextLeaseAttempt ss = n" by (rule lease_token_attempt)
  then show False using assms(4) by simp
qed

lemma unleased:
  assumes "\<And>ss l. \<not> under_lease e lease now s ss l"
  shows "\<exists>er. try_in s (requireSession s (wl_tenantId lease) (wl_sessionId lease))
      (\<lambda>ss. try_in s (assertCurrentLease ss lease now) (\<lambda>l. body ss l)) = (Inl er, s)"
proof -
  obtain r s' where run: "try_in s (requireSession s (wl_tenantId lease) (wl_sessionId lease))
      (\<lambda>ss. try_in s (assertCurrentLease ss lease now) (\<lambda>l. body ss l)) = (r, s')" by fastforce
  from run obtain er where "r = Inl er" "s' = s" by (rule leased_cases [where e = e]) (use assms in blast)+
  then show ?thesis using run by simp
qed

lemma one_transition: "session_transition s s' \<Longrightarrow> session_transition\<^sup>*\<^sup>* s s'"
  by (rule r_into_rtranclp)


section \<open>A token that is no longer current\<close>

text \<open>The session exists and whatever lease it has carries another token: every check against the old token fails.\<close>

definition outdated :: "'a session_store_scheme \<Rightarrow> string \<Rightarrow> string \<Rightarrow> string \<Rightarrow> bool" where
  "outdated s t i tok =
     (case map_get (sessions s) (key [t, i]) of
        Some ss \<Rightarrow> (case ss_lease ss of Some l \<Rightarrow> wl_leaseToken l \<noteq> tok | None \<Rightarrow> True)
      | None \<Rightarrow> False)"

lemma outdated_lease:
  assumes "outdated s t i tok" "requireSession s t i = Inr ss" "ss_lease ss = Some l'"
  shows "wl_leaseToken l' \<noteq> tok"
  using assms by (auto simp: outdated_def requireSession_Inr split: option.splits)

lemma superseded_outdated:
  assumes "sessions_ok s0"
    and "claimSessionLease e1 t i w1 now1 ttl1 q1 s0 = (Inr (Some l), s1)" and "session_transition\<^sup>*\<^sup>* s1 s2"
    and "claimSessionLease e2 t i w2 now2 ttl2 q2 s2 = (Inr (Some l2), s3)" and "session_transition\<^sup>*\<^sup>* s3 s"
  shows "outdated s t i (wl_leaseToken l)"
proof -
  note tr = session_transition_kept [OF se_claim]
  have ok1: "sessions_ok s1" using tr [OF assms(2,1)] by simp
  have ok2: "sessions_ok s2" and k2: "sessions_kept s1 s2" using session_transitions_kept [OF assms(3) ok1] by simp_all
  have ok3: "sessions_ok s3" using tr [OF assms(4) ok2] by simp
  have ok: "sessions_ok s" and k: "sessions_kept s3 s" using session_transitions_kept [OF assms(5) ok3] by simp_all
  obtain ss1 where ss1: "map_get (sessions s1) (key [t, i]) = Some ss1" "wl_leaseToken l = lease_token t i (ss_nextLeaseAttempt ss1) w1"
    using claim_attempt(3) [OF assms(2)] by blast
  obtain ss2 ss3 where ss3: "map_get (sessions s3) (key [t, i]) = Some ss3" "map_get (sessions s2) (key [t, i]) = Some ss2"
    "ss_nextLeaseAttempt ss3 = ss_nextLeaseAttempt ss2 + 1" using claim_attempt(3) [OF assms(4)] by blast
  obtain ss where ss: "map_get (sessions s) (key [t, i]) = Some ss" "ss_nextLeaseAttempt ss3 \<le> ss_nextLeaseAttempt ss"
    using k ss3(1) by (auto simp: sessions_kept_def session_le_def)
  have "ss_nextLeaseAttempt ss1 \<le> ss_nextLeaseAttempt ss2" using k2 ss1(1) ss3(2) by (fastforce simp: sessions_kept_def session_le_def)
  then have lt: "ss_nextLeaseAttempt ss1 < ss_nextLeaseAttempt ss" using ss3(3) ss(2) by simp
  show ?thesis using old_token_not_current [OF ok ss(1) ss1(2) lt] ss(1) by (auto simp: outdated_def split: option.split)
qed

lemma outdated_not_leased:
  assumes "outdated s (wl_tenantId l) (wl_sessionId l) (wl_leaseToken l)"
  shows "\<not> under_lease e l now s ss l'"
  using outdated_lease [OF assms] by (auto simp: under_lease_def)

lemma outdated_leased_ops:
  assumes "outdated s (wl_tenantId l) (wl_sessionId l) (wl_leaseToken l)"
  shows "\<exists>er. renewSessionLease e l now ttl s = (Inl er, s)" "\<exists>er. checkpointSession e l s = (Inl er, s)"
    "\<exists>er. claimNextSessionCommand e l now s = (Inl er, s)" "\<exists>er. ackSessionCommand e l c now s = (Inl er, s)"
    "\<exists>er. checkpointAndAckSessionCommand e l c now s = (Inl er, s)" "\<exists>er. failSessionCommand e l c msg s = (Inl er, s)"
  unfolding renewSessionLease_def checkpointSession_def claimNextSessionCommand_def ackSessionCommand_def
    checkpointAndAckSessionCommand_def failSessionCommand_def by (intro unleased outdated_not_leased assms)+

lemma outdated_defer:
  assumes "outdated s (wl_tenantId l) (wl_sessionId l) (wl_leaseToken l)"
  shows "\<exists>er. deferSessionCommand e l c d s = (Inl er, s)"
  unfolding deferSessionCommand_def Let_def using unleased [OF outdated_not_leased [OF assms]]
  by (cases "\<not> js_is_finite (df_retryAfterMs d) \<or> \<not> js_positive (df_retryAfterMs d)") auto

lemma outdated_release:
  assumes "outdated s (wl_tenantId l) (wl_sessionId l) (wl_leaseToken l)"
  shows "\<exists>r. releaseSessionLease e l now s = (r, s) \<and> r \<noteq> Inr True"
    and "\<exists>r. recoverSessionLease e l now mx s = (r, s) \<and> (\<forall>rd. r \<noteq> Inr (Some rd))"
  using outdated_lease [OF assms]
  by (cases "requireSession s (wl_tenantId l) (wl_sessionId l)";
      auto simp: releaseSessionLease_def recoverSessionLease_def try_in_def split: option.split)+

lemma outdated_fenced:
  assumes "outdated s t i tok"
  shows "\<exists>er. try_in s (requireSession s t i) (\<lambda>ss. try_in s (assertLeaseTokenIfPresent e ss (Some (Some tok))) (body ss)) = (Inl er, s)"
proof (cases "requireSession s t i")
  case (Inr ss)
  have "\<exists>er. assertLeaseTokenIfPresent e ss (Some (Some tok)) = Inl er"
    using outdated_lease [OF assms Inr] by (force simp: assertLeaseTokenIfPresent_def split: option.split)
  then show ?thesis using Inr by (auto simp: try_in_def)
qed (simp add: try_in_def)

lemma outdated_append:
  assumes "outdated s t i tok" "ap_tenantId ev = t" "ap_sessionId ev = i" "ap_leaseToken ev = Some (Some tok)"
  shows "\<exists>er. appendSessionEvent e ev s = (Inl er, s)"
  unfolding appendSessionEvent_def assms(2-4) by (rule outdated_fenced [OF assms(1)])

text \<open>A projected append under the old token fails at its first stage; the rollback finds nothing to undo.\<close>

lemma outdated_projected:
  assumes "outdated s t i tok" "ap_tenantId (pe_event inp) = t" "ap_sessionId (pe_event inp) = i" "ap_leaseToken (pe_event inp) = Some (Some tok)"
  shows "\<exists>er s'. appendProjectedSessionEvent e inp s = (Inl er, s') \<and> sessions s' = sessions s
    \<and> workspaceEvents s' = workspaceEvents s \<and> snapshotWorkflows s' = snapshotWorkflows s"
proof -
  obtain er where er: "appendSessionEvent e (pe_event inp) s = (Inl er, s)" using outdated_append [OF assms] by blast
  show ?thesis
  proof (cases "requireSession s t i")
    case (Inr ss)
    then have "map_set (key [t, i]) ss (sessions s) = sessions s" by (simp add: requireSession_Inr)
    then show ?thesis using Inr
      by (simp add: appendProjectedSessionEvent_def projected_append_def Let_def try_in_def then_do_def er put_session_def assms(2,3)
          snapshot_restore snapshotWorkspaceEvents_def)
  qed (simp add: appendProjectedSessionEvent_def Let_def try_in_def assms(2,3))
qed

text \<open>A projection write compares the token with the lease, when the session has one.\<close>

lemma outdated_projection:
  assumes "outdated s t i tok" "wpi_tenantId wp = t" "wpi_sessionId wp = i" "wpi_leaseToken wp = Some (Some tok)"
    and "requireSession s t i = Inr ss" "ss_lease ss = Some l'"
  shows "\<exists>er. writeSessionProjection e wp s = (Inl er, s)"
  using outdated_lease [OF assms(1,5,6)] assms(2-6) by (auto simp: writeSessionProjection_def try_in_def)


section \<open>Properties\<close>

text \<open>A store with one idle session, for witnesses.\<close>

definition sample_store :: workflow_store where
  "sample_store = (sample_workflow_store sample_run)\<lparr> sessions :=
     [(key [''t'', ''s1''], sample_session\<lparr> ss_lease := None, ss_nextLeaseAttempt := 0 \<rparr>)] \<rparr>"

lemma sample_store_ok: "sessions_ok sample_store"
  by (simp add: sessions_ok_def sample_store_def sample_session_def session_inv_def map_ok_def map_get_def command_ids_def)

lemma sample_store_get: "map_get (sessions sample_store) (key [''t'', ''s1'']) = Some (sample_session\<lparr> ss_lease := None, ss_nextLeaseAttempt := 0 \<rparr>)"
  by (simp add: sample_store_def map_get_def)

definition sample_event :: "string \<Rightarrow> append_event_input" where
  "sample_event i = \<lparr> ap_tenantId = ''t'', ap_sessionId = ''s1'', ap_eventId = Some i, ap_type = ''message'', ap_payload = None, ap_leaseToken = None, ap_createdAt = None \<rparr>"

text \<open>C2: however the operations of the session domain interleave, the event log of a session is only
  ever extended at its end, its events are numbered 1, 2, ..., n without a gap, the sequence counter
  is the number of the last event, and no two events share an id.\<close>

theorem event_log_contiguous:
  assumes "session_transition\<^sup>*\<^sup>* s s'" and "sessions_ok s" and "map_get (sessions s) k = Some ss"
  shows "\<exists>ss'. map_get (sessions s') k = Some ss' \<and> prefix (ss_events ss) (ss_events ss')
     \<and> map ev_sequence (ss_events ss') = map int [1..<Suc (length (ss_events ss'))]
     \<and> ss_nextEventSequence ss' = int (length (ss_events ss')) \<and> distinct (map ev_eventId (ss_events ss'))"
proof -
  have k: "sessions_ok s'" "sessions_kept s s'" using session_transitions_kept [OF assms(1,2)] by simp_all
  then obtain ss' where g: "map_get (sessions s') k = Some ss'" "session_le ss ss'" using assms(3) by (auto simp: sessions_kept_def)
  then have "session_inv k ss'" using k(1) by (simp add: sessions_ok_def)
  then show ?thesis using g by (simp add: session_inv_def session_le_def)
qed

theorem event_log_contiguous_witness:
  "\<exists>ss'. map_get (sessions (snd (appendSessionEvent sample_env (sample_event ''e1'') sample_store))) (key [''t'', ''s1'']) = Some ss'
     \<and> map ev_sequence (ss_events ss') = map int [1..<Suc (length (ss_events ss'))]"
  using event_log_contiguous [OF one_transition [OF se_append [OF surjective_pairing]] sample_store_ok sample_store_get,
      of sample_env "sample_event ''e1''"] by blast

text \<open>C6: a command that has been acknowledged or has failed is never written again, at no position of
  the queue, whatever operations of the session domain follow; commands are never dropped or reordered.\<close>

theorem finished_commands_final:
  assumes "session_transition\<^sup>*\<^sup>* s s'" and "sessions_ok s" and "map_get (sessions s) k = Some ss" and "n < length (ss_commands ss)"
  shows "\<exists>ss'. map_get (sessions s') k = Some ss' \<and> n < length (ss_commands ss')
     \<and> cmd_commandId (ss_commands ss' ! n) = cmd_commandId (ss_commands ss ! n)
     \<and> cmd_attemptCount (ss_commands ss ! n) \<le> cmd_attemptCount (ss_commands ss' ! n)
     \<and> (command_finished (ss_commands ss ! n) \<longrightarrow> ss_commands ss' ! n = ss_commands ss ! n)"
proof -
  have k: "sessions_kept s s'" using session_transitions_kept [OF assms(1,2)] by simp
  then obtain ss' where g: "map_get (sessions s') k = Some ss'" "session_le ss ss'" using assms(3) by (auto simp: sessions_kept_def)
  then obtain cs new where c: "ss_commands ss' = cs @ new" "list_all2 command_le (ss_commands ss) cs" by (auto simp: session_le_def)
  then have "n < length cs" "command_le (ss_commands ss ! n) (cs ! n)" using assms(4) by (auto dest: list_all2_lengthD list_all2_nthD)
  then show ?thesis using g(1) c(1) by (auto simp: command_le_def nth_append)
qed

definition sample_command :: session_command where
  "sample_command = \<lparr> cmd_commandId = ''c1'', cmd_tenantId = ''t'', cmd_userId = ''u'', cmd_sessionId = ''s1'', cmd_kind = CmdPrompt, cmd_payload = JObj [],
     cmd_targetLeaseToken = None, cmd_createdSequence = 1, cmd_createdAt = 0, cmd_status = CAcked, cmd_claimedBy = None, cmd_claimedLeaseToken = None,
     cmd_attemptCount = 1, cmd_availableAt = None, cmd_lastErrorCode = None, cmd_lastErrorSummary = None, cmd_ackedAt = Some 0, cmd_error = None \<rparr>"

definition sample_queue_session :: session_state where
  "sample_queue_session = sample_session\<lparr> ss_lease := None, ss_nextLeaseAttempt := 0, ss_nextCommandSequence := 1, ss_commands := [sample_command] \<rparr>"

definition sample_queue_store :: workflow_store where
  "sample_queue_store = (sample_workflow_store sample_run)\<lparr> sessions := [(key [''t'', ''s1''], sample_queue_session)] \<rparr>"

lemma sample_queue_store_ok: "sessions_ok sample_queue_store"
  by (simp add: sessions_ok_def sample_queue_store_def sample_queue_session_def sample_command_def sample_session_def session_inv_def map_ok_def map_get_def command_ids_def)

theorem finished_commands_final_witness:
  "\<exists>ss'. map_get (sessions (snd (claimSessionLease sample_env ''t'' ''s1'' ''wk'' None 1000 None sample_queue_store))) (key [''t'', ''s1'']) = Some ss'
     \<and> ss_commands ss' ! 0 = sample_command"
proof -
  have g: "map_get (sessions sample_queue_store) (key [''t'', ''s1'']) = Some sample_queue_session" by (simp add: sample_queue_store_def map_get_def)
  have c: "ss_commands sample_queue_session = [sample_command]" by (simp add: sample_queue_session_def)
  have "command_finished sample_command" by (simp add: command_finished_def sample_command_def)
  then show ?thesis
    using finished_commands_final [OF one_transition [OF se_claim [OF surjective_pairing]] sample_queue_store_ok g, of 0 sample_env "''t''" "''s1''" "''wk''" None 1000 None] c
    by fastforce
qed

text \<open>C1: fencing. After a second worker has been granted the lease of a session, the first worker's
  lease is dead for good: in any later state every renewal, checkpoint, release, recovery, command
  operation, runtime binding, status update, event append and projected append it attempts under its
  lease fails and leaves the sessions, the workspace log and the workflows as they were. A projection
  write under its token is refused too, as long as some worker holds a lease of the session.\<close>

theorem stale_lease_fenced:
  assumes "sessions_ok s0"
    and "claimSessionLease e1 t i w1 now1 ttl1 q1 s0 = (Inr (Some l), s1)" and "session_transition\<^sup>*\<^sup>* s1 s2"
    and "claimSessionLease e2 t i w2 now2 ttl2 q2 s2 = (Inr (Some l2), s3)" and "session_transition\<^sup>*\<^sup>* s3 s"
  shows "(\<exists>er. renewSessionLease e l now ttl s = (Inl er, s)) \<and> (\<exists>er. checkpointSession e l s = (Inl er, s))
    \<and> (\<exists>er. claimNextSessionCommand e l now s = (Inl er, s)) \<and> (\<exists>er. ackSessionCommand e l c now s = (Inl er, s))
    \<and> (\<exists>er. checkpointAndAckSessionCommand e l c now s = (Inl er, s)) \<and> (\<exists>er. deferSessionCommand e l c d s = (Inl er, s))
    \<and> (\<exists>er. failSessionCommand e l c msg s = (Inl er, s))
    \<and> (\<exists>r. releaseSessionLease e l now s = (r, s) \<and> r \<noteq> Inr True)
    \<and> (\<exists>r. recoverSessionLease e l now mx s = (r, s) \<and> (\<forall>rd. r \<noteq> Inr (Some rd)))
    \<and> (\<exists>er. bindSessionRuntime e t i oc ti (Some (Some (wl_leaseToken l))) u s = (Inl er, s))
    \<and> (\<exists>er. updateSessionStatus e t i st ti (Some (Some (wl_leaseToken l))) u s = (Inl er, s))
    \<and> (ap_tenantId ev = t \<and> ap_sessionId ev = i \<and> ap_leaseToken ev = Some (Some (wl_leaseToken l)) \<longrightarrow>
         (\<exists>er. appendSessionEvent e ev s = (Inl er, s))
         \<and> (pe_event inp = ev \<longrightarrow> (\<exists>er s'. appendProjectedSessionEvent e inp s = (Inl er, s') \<and> sessions s' = sessions s
              \<and> workspaceEvents s' = workspaceEvents s \<and> snapshotWorkflows s' = snapshotWorkflows s)))
    \<and> (wpi_tenantId wp = t \<and> wpi_sessionId wp = i \<and> wpi_leaseToken wp = Some (Some (wl_leaseToken l))
         \<and> requireSession s t i = Inr ss \<and> ss_lease ss = Some l' \<longrightarrow> (\<exists>er. writeSessionProjection e wp s = (Inl er, s)))"
proof -
  have old: "outdated s t i (wl_leaseToken l)" using assms by (rule superseded_outdated)
  then have old': "outdated s (wl_tenantId l) (wl_sessionId l) (wl_leaseToken l)" using claim_attempt(1,2) [OF assms(2)] by simp
  have "\<exists>er. bindSessionRuntime e t i oc ti (Some (Some (wl_leaseToken l))) u s = (Inl er, s)"
    "\<exists>er. updateSessionStatus e t i st ti (Some (Some (wl_leaseToken l))) u s = (Inl er, s)"
    unfolding bindSessionRuntime_def updateSessionStatus_def by (rule outdated_fenced [OF old])+
  then show ?thesis
    using outdated_leased_ops [OF old'] outdated_defer [OF old'] outdated_release [OF old'] outdated_append [OF old]
      outdated_projected [OF old] outdated_projection [OF old] by simp
qed

theorem stale_lease_fenced_witness:
  "\<exists>l1 s1 l2 s3. claimSessionLease sample_env ''t'' ''s1'' ''w1'' None 1000 None sample_store = (Inr (Some l1), s1)
     \<and> claimSessionLease sample_env ''t'' ''s1'' ''w2'' (Some 5000) 1000 None s1 = (Inr (Some l2), s3)
     \<and> (\<exists>er. ackSessionCommand sample_env l1 ''c1'' None s3 = (Inl er, s3))"
proof -
  define o1 where "o1 = claimSessionLease sample_env ''t'' ''s1'' ''w1'' None 1000 None sample_store"
  define o2 where "o2 = claimSessionLease sample_env ''t'' ''s1'' ''w2'' (Some 5000) 1000 None (snd o1)"
  have "case fst o1 of Inr (Some _) \<Rightarrow> True | _ \<Rightarrow> False" unfolding o1_def by code_simp
  then obtain l1 where l1: "fst o1 = Inr (Some l1)" by (auto split: sum.splits option.splits)
  have "case fst o2 of Inr (Some _) \<Rightarrow> True | _ \<Rightarrow> False" unfolding o2_def o1_def by code_simp
  then obtain l2 where l2: "fst o2 = Inr (Some l2)" by (auto split: sum.splits option.splits)
  have 1: "claimSessionLease sample_env ''t'' ''s1'' ''w1'' None 1000 None sample_store = (Inr (Some l1), snd o1)"
    using l1 by (simp add: o1_def prod_eq_iff)
  have 2: "claimSessionLease sample_env ''t'' ''s1'' ''w2'' (Some 5000) 1000 None (snd o1) = (Inr (Some l2), snd o2)"
    using l2 by (simp add: o2_def prod_eq_iff)
  note fenced = stale_lease_fenced [OF sample_store_ok 1 rtranclp.rtrancl_refl 2 rtranclp.rtrancl_refl, of sample_env None 0 "''c1''"]
  have "\<exists>er. ackSessionCommand sample_env l1 ''c1'' None (snd o2) = (Inl er, snd o2)" by (rule fenced [THEN conjunct2, THEN conjunct2, THEN conjunct2, THEN conjunct1])
  then show ?thesis using 1 2 by blast
qed

end
