(* ===== verification/Session_Guarantees.thy ===== *)
theory Session_Guarantees
  imports Session_Safety
begin

text \<open>
  What a single call of the session domain guarantees its caller: atomicity of the projected append
  and of the enqueue, safe retries, the effect of recovery, session quotas,
  and complete replay of the event log by pages.
\<close>


section \<open>Atomicity\<close>

text \<open>C4: appending a projected event is atomic. When any step of it fails (a stale lease, a reused event
  id, a throwing projector, a projection conflict, a fenced workflow completion), the sessions and
  the workspace log are exactly those before the call, and every workflow, run and webhook secret has
  its old content.\<close>

theorem projected_append_atomic:
  assumes "appendProjectedSessionEvent e inp s = (Inl er, s')"
  shows "sessions s' = sessions s \<and> workspaceEvents s' = workspaceEvents s \<and> snapshotWorkflows s' = snapshotWorkflows s"
  using assms
proof (cases rule: appendProjectedSessionEvent_cases)
  case (rolled_back er' ss s1)
  let ?k = "key [ap_tenantId (pe_event inp), ap_sessionId (pe_event inp)]"
  have ss: "map_get (sessions s) ?k = Some ss" using rolled_back(1) by (simp add: requireSession_Inr)
  have "touches_at ?k s s1" using projected_append_touches [of inp s e ss] rolled_back(2) by simp
  then have "sessions s' = sessions s" using ss by (auto simp: rolled_back(4) touches_at_def)
  then show ?thesis by (simp add: rolled_back(4) snapshotWorkspaceEvents_def snapshot_restore)
qed simp_all

definition failing_projection :: projected_event_input where
  "failing_projection = \<lparr> pe_event = sample_event ''e1'', pe_sessionStatus = None, pe_workflowTerminal = None,
     pe_workspace = (\<lambda>_ _. Inr \<lparr> de_eventId = ''w1'', de_entityType = ''session'', de_entityId = ''s1'', de_operation = ''update'', de_projectionVersion = 1 \<rparr>),
     pe_project = (\<lambda>_ _ _. Inl (Error ''projector failed'')) \<rparr>"

theorem projected_append_atomic_witness:
  "(\<exists>er. fst (appendProjectedSessionEvent sample_env failing_projection sample_store) = Inl er)
    \<and> workspaceEvents (snd (appendProjectedSessionEvent sample_env failing_projection sample_store)) = workspaceEvents sample_store"
proof -
  define out where "out = appendProjectedSessionEvent sample_env failing_projection sample_store"
  have "case fst out of Inl _ \<Rightarrow> True | _ \<Rightarrow> False" unfolding out_def by code_simp
  then obtain er where "fst out = Inl er" by (auto split: sum.splits)
  then have "appendProjectedSessionEvent sample_env failing_projection sample_store = (Inl er, snd out)" by (simp add: out_def prod_eq_iff)
  from projected_append_atomic [OF this] \<open>fst out = Inl er\<close> show ?thesis by (auto simp: out_def)
qed

lemma then_do_Inr:
  "then_do m f = (Inr x, s') \<longleftrightarrow> (\<exists>a s1. m = (Inr a, s1) \<and> f a s1 = (Inr x, s'))"
  by (auto simp: then_do_def split: prod.splits sum.splits)

lemma touches_le:
  assumes "touches_at k s s'" "map_get (sessions s) k = Some ss"
  obtains ss' where "map_get (sessions s') k = Some ss'" "session_le ss ss'"
  using assms by (auto simp: touches_at_def advances_def)

lemma effects_workspace:
  assumes "applyProjectedEventEffects e inp u s = (r, s')"
  shows "workspaceEvents s' = workspaceEvents s"
proof -
  have f: "workspaceEvents s2 = workspaceEvents s1" if "finishWorkflowRun e t wid rid st sm er ns nr lt fa s1 = (q, s2)"
    for s1 s2 :: "'a workflow_store_scheme" and e t wid rid st sm er ns nr lt fa q
    using that by (cases rule: finishWorkflowRun_cases) (simp_all add: put_workflow_def put_run_def)
  have p: "workspaceEvents (put_session t i ss s1) = workspaceEvents s1" for t i ss and s1 :: "'a workflow_store_scheme" by (simp add: put_session_def)
  show ?thesis using assms
    by (auto simp: applyProjectedEventEffects_def Let_def completeWorkflowRun_def failWorkflowRun_def p
        split: option.splits workflow_terminal.splits dest!: then_do_state intro!: trans [OF f [OF surjective_pairing]])
qed

text \<open>The stages of a successful projected append.\<close>

lemma appendSessionEvent_logged:
  assumes "appendSessionEvent e inp s = (Inr ev, s')"
  shows "\<exists>ss. map_get (sessions s') (key [ap_tenantId inp, ap_sessionId inp]) = Some ss \<and> ev \<in> set (ss_events ss)"
  using assms by (cases rule: appendSessionEvent_cases) (auto simp: requireSession_Inr append_event_def)

lemma appendWorkspaceEvent_logged:
  assumes "appendWorkspaceEvent e inp s = (Inr ev, s')"
  shows "ev \<in> set (wsl_events (workspace_log_of s' (wi_tenantId inp) (wi_userId inp)))"
  using assms by (cases rule: appendWorkspaceEvent_cases) (auto simp: workspace_log_of_def coalesce_def)

lemma writeSessionProjection_reached:
  assumes "writeSessionProjection e inp s = (Inr p, s')"
  shows "\<exists>ss. map_get (sessions s') (key [wpi_tenantId inp, wpi_sessionId inp]) = Some ss \<and> projection_sequence ss = wpi_sequence inp"
  using assms by (cases rule: writeSessionProjection_cases) (auto simp: requireSession_Inr put_projection_def projection_sequence_def)

lemma writeSessionProjection_workspace:
  assumes "writeSessionProjection e inp s = (r, s')"
  shows "workspaceEvents s' = workspaceEvents (s :: 'a workspace_store_scheme)"
  using assms by (cases rule: writeSessionProjection_cases) (simp_all add: put_session_def)

lemma projected_append_stages:
  assumes "projected_append e inp ss0 s = (Inr x, s')"
  obtains s1 d s2 s3 u where "appendSessionEvent e (pe_event inp) s = (Inr (pr_event x), s1)"
    "appendWorkspaceEvent e (workspace_input_of inp u d (pr_event x)) s1 = (Inr (pr_workspaceEvent x), s2)"
    "u = sr_userId (ss_record (session_at s1 (ap_tenantId (pe_event inp)) (ap_sessionId (pe_event inp))))"
    "(ev_sequence (pr_event x) \<le> projection_sequence (session_at s2 (ap_tenantId (pe_event inp)) (ap_sessionId (pe_event inp))) \<and> s3 = s2)
       \<or> (\<exists>v at p. writeSessionProjection e \<lparr> wpi_tenantId = ap_tenantId (pe_event inp), wpi_sessionId = ap_sessionId (pe_event inp),
             wpi_sequence = ev_sequence (pr_event x), wpi_view = v, wpi_leaseToken = ap_leaseToken (pe_event inp), wpi_updatedAt = at \<rparr> s2 = (Inr p, s3))"
    "\<exists>at. applyProjectedEventEffects e inp at s3 = (Inr (), s')"
  using assms unfolding projected_append_def Let_def then_do_Inr try_in_Inr
  by (auto simp: then_do_Inr try_in_Inr split: if_splits prod.splits) blast+

text \<open>C8: when a projected append succeeds, all three records of the event are in place together: the
  event is in the session log, its workspace event is in the owner's workspace log, and the session's
  projection has reached the event's sequence.\<close>

theorem projected_append_complete:
  assumes "appendProjectedSessionEvent e inp s = (Inr x, s')"
  shows "\<exists>ss. map_get (sessions s') (key [ap_tenantId (pe_event inp), ap_sessionId (pe_event inp)]) = Some ss
     \<and> pr_event x \<in> set (ss_events ss) \<and> ev_sequence (pr_event x) \<le> projection_sequence ss
     \<and> pr_workspaceEvent x \<in> set (wsl_events (workspace_log_of s' (ap_tenantId (pe_event inp)) (sr_userId (ss_record ss))))"
proof -
  let ?t = "ap_tenantId (pe_event inp)" and ?i = "ap_sessionId (pe_event inp)"
  let ?k = "key [?t, ?i]"
  obtain ss0 where run: "projected_append e inp ss0 s = (Inr x, s')"
    using assms by (rule appendProjectedSessionEvent_cases) simp_all
  from run obtain s1 d s2 s3 u where st: "appendSessionEvent e (pe_event inp) s = (Inr (pr_event x), s1)"
    "appendWorkspaceEvent e (workspace_input_of inp u d (pr_event x)) s1 = (Inr (pr_workspaceEvent x), s2)"
    and u: "u = sr_userId (ss_record (session_at s1 ?t ?i))"
    and pj: "(ev_sequence (pr_event x) \<le> projection_sequence (session_at s2 ?t ?i) \<and> s3 = s2)
       \<or> (\<exists>v at p. writeSessionProjection e \<lparr> wpi_tenantId = ?t, wpi_sessionId = ?i,
             wpi_sequence = ev_sequence (pr_event x), wpi_view = v, wpi_leaseToken = ap_leaseToken (pe_event inp), wpi_updatedAt = at \<rparr> s2 = (Inr p, s3))"
    and ef: "\<exists>at. applyProjectedEventEffects e inp at s3 = (Inr (), s')"
    by (rule projected_append_stages)
  obtain ss1 where ss1: "map_get (sessions s2) ?k = Some ss1" "pr_event x \<in> set (ss_events ss1)"
    using appendSessionEvent_logged [OF st(1)] appendWorkspaceEvent_sessions [OF st(2)] by auto
  have u1: "u = sr_userId (ss_record ss1)" using u ss1(1) appendWorkspaceEvent_sessions [OF st(2)] by (simp add: session_at_def)
  obtain ss3 where ss3: "map_get (sessions s3) ?k = Some ss3" "session_le ss1 ss3" "ev_sequence (pr_event x) \<le> projection_sequence ss3"
    and ws3: "workspaceEvents s3 = workspaceEvents s2"
    using pj
  proof (elim disjE conjE exE)
    assume "ev_sequence (pr_event x) \<le> projection_sequence (session_at s2 ?t ?i)" "s3 = s2"
    then show thesis using ss1(1) that [of ss1] by (simp add: session_at_def)
  next
    fix v at p
    assume w: "writeSessionProjection e \<lparr> wpi_tenantId = ?t, wpi_sessionId = ?i, wpi_sequence = ev_sequence (pr_event x), wpi_view = v,
      wpi_leaseToken = ap_leaseToken (pe_event inp), wpi_updatedAt = at \<rparr> s2 = (Inr p, s3)"
    obtain ss3 where "map_get (sessions s3) ?k = Some ss3" "session_le ss1 ss3"
      using touches_le [OF writeSessionProjection_touches [OF w]] ss1(1) by auto
    then show thesis using that [of ss3] writeSessionProjection_reached [OF w] writeSessionProjection_workspace [OF w] by auto
  qed
  obtain at where ef: "applyProjectedEventEffects e inp at s3 = (Inr (), s')" using ef by blast
  obtain ss where ss: "map_get (sessions s') ?k = Some ss" "session_le ss3 ss"
    using touches_le [OF applyProjectedEventEffects_touches [OF ef] ss3(1)] by blast
  have "pr_event x \<in> set (ss_events ss)" using ss1(2) ss3(2) ss(2) by (auto simp: session_le_def prefix_def)
  moreover have "ev_sequence (pr_event x) \<le> projection_sequence ss" using ss3(3) ss(2) by (simp add: session_le_def)
  moreover have "u = sr_userId (ss_record ss)" using u1 ss3(2) ss(2) by (simp add: session_le_def same_identity_def)
  moreover have "pr_workspaceEvent x \<in> set (wsl_events (workspace_log_of s' ?t u))"
    using appendWorkspaceEvent_logged [OF st(2)] effects_workspace [OF ef] ws3 by (simp add: workspace_log_of_def workspace_input_of_def)
  ultimately show ?thesis using ss(1) by blast
qed

definition working_projection :: projected_event_input where
  "working_projection = failing_projection\<lparr> pe_project := (\<lambda>_ _ _. Inr (JObj [], None)) \<rparr>"

theorem projected_append_complete_witness:
  "\<exists>x s'. appendProjectedSessionEvent sample_env working_projection sample_store = (Inr x, s')
     \<and> (\<exists>ss. map_get (sessions s') (key [''t'', ''s1'']) = Some ss \<and> pr_event x \<in> set (ss_events ss) \<and> ev_sequence (pr_event x) \<le> projection_sequence ss)"
proof -
  define out where "out = appendProjectedSessionEvent sample_env working_projection sample_store"
  have "case fst out of Inr _ \<Rightarrow> True | _ \<Rightarrow> False" unfolding out_def by code_simp
  then obtain x where "fst out = Inr x" by (auto split: sum.splits)
  then have run: "appendProjectedSessionEvent sample_env working_projection sample_store = (Inr x, snd out)" by (simp add: out_def prod_eq_iff)
  have "ap_tenantId (pe_event working_projection) = ''t''" "ap_sessionId (pe_event working_projection) = ''s1''"
    by (simp_all add: working_projection_def failing_projection_def sample_event_def)
  with projected_append_complete [OF run] run show ?thesis by auto
qed

section \<open>Safe retries\<close>

text \<open>C11: enqueueing a command is idempotent on the command id. Repeating a call that succeeded returns
  the same command and changes nothing; a call that fails has changed nothing, the usage counters it
  had consumed before the denial included.\<close>

theorem enqueue_retry_safe:
  assumes "enqueueSessionCommand e inp s = (r, s')"
  shows "case r of Inl _ \<Rightarrow> s' = s | Inr c \<Rightarrow> cmd_commandId c = en_commandId inp \<and> enqueueSessionCommand e inp s' = (Inr c, s')"
  using assms
proof (cases rule: enqueueSessionCommand_cases)
  case (existing c)
  then have "cmd_commandId c = en_commandId inp" by (auto simp: findSessionCommandById_def find_Some_iff)
  then show ?thesis using existing assms by simp
next
  case (enqueued ss cs)
  let ?c = "new_command e inp ss"
  have u: "\<exists>u. requireTenantUser s (en_tenantId inp) (en_userId inp) = Inr u"
    using assms enqueued(3) by (cases "requireTenantUser s (en_tenantId inp) (en_userId inp)") (simp_all add: enqueueSessionCommand_def try_in_def)
  then have u': "\<exists>u. requireTenantUser s' (en_tenantId inp) (en_userId inp) = Inr u"
    by (simp add: requireTenantUser_def requireTenant_def enqueued(4))
  have get: "map_get (sessions s) (key [en_tenantId inp, en_sessionId inp]) = Some ss" and tn: "map_has (tenants s) (en_tenantId inp)"
    using enqueued(1) by (simp_all add: requireSession_Inr)
  have ss': "requireSession s' (en_tenantId inp) (en_sessionId inp)
      = Inr (ss\<lparr> ss_nextCommandSequence := ss_nextCommandSequence ss + 1, ss_commands := ss_commands ss @ [?c] \<rparr>)"
    using tn by (simp add: requireSession_Inr enqueued(4))
  have old: "\<forall>ss0 \<in> set (map_values (sessions s)). \<forall>c \<in> set (ss_commands ss0). cmd_commandId c \<noteq> en_commandId inp"
    using enqueued(2) by (auto simp: findSessionCommandById_def find_None_iff)
  have vals: "set (map_values (sessions s')) \<subseteq> insert (ss\<lparr> ss_nextCommandSequence := ss_nextCommandSequence ss + 1, ss_commands := ss_commands ss @ [?c] \<rparr>) (set (map_values (sessions s)))"
    unfolding enqueued(4) by (simp add: set_values_map_set)
  have only: "c = ?c" if in_queue: "c \<in> set (concat (map ss_commands (map_values (sessions s'))))" and cid: "cmd_commandId c = en_commandId inp" for c
  proof -
    obtain ss0 where ss0: "ss0 \<in> set (map_values (sessions s'))" "c \<in> set (ss_commands ss0)" using in_queue by auto
    then consider "ss0 \<in> set (map_values (sessions s))" | "c \<in> set (ss_commands ss @ [?c])" using vals by auto
    then show "c = ?c" using old map_get_values [OF get] cid ss0(2) by cases auto
  qed
  have "?c \<in> set (concat (map ss_commands (map_values (sessions s'))))"
    using map_get_values [of "sessions s'" "key [en_tenantId inp, en_sessionId inp]"] by (force simp: enqueued(4))
  then obtain c where c: "findSessionCommandById s' (en_commandId inp) = Some c"
    by (cases "findSessionCommandById s' (en_commandId inp)") (auto simp: findSessionCommandById_def find_None_iff new_command_def)
  then have "c = ?c" using only [of c] unfolding findSessionCommandById_def find_Some_split by force
  moreover have "same_command e inp ?c" by (simp add: same_command_def new_command_def)
  ultimately have "enqueueSessionCommand e inp s' = (Inr ?c, s')"
    using u' ss' c by (auto simp: enqueueSessionCommand_def try_in_def)
  then show ?thesis using enqueued(3) by (simp add: new_command_def)
qed simp

definition sample_enqueue :: enqueue_input where
  "sample_enqueue = \<lparr> en_commandId = ''c9'', en_tenantId = ''t'', en_userId = ''u'', en_sessionId = ''s1'', en_kind = CmdPrompt, en_payload = None,
     en_targetLeaseToken = None, en_createdAt = None, en_quota = None, en_usageQuotas = [] \<rparr>"

theorem enqueue_retry_safe_witness:
  "\<exists>c s'. enqueueSessionCommand sample_env sample_enqueue sample_store = (Inr c, s') \<and> enqueueSessionCommand sample_env sample_enqueue s' = (Inr c, s')"
proof -
  define out where "out = enqueueSessionCommand sample_env sample_enqueue sample_store"
  have "case fst out of Inr _ \<Rightarrow> True | _ \<Rightarrow> False" unfolding out_def by code_simp
  then obtain c where "fst out = Inr c" by (auto split: sum.splits)
  then have run: "enqueueSessionCommand sample_env sample_enqueue sample_store = (Inr c, snd out)" by (simp add: out_def prod_eq_iff)
  from enqueue_retry_safe [OF run] run show ?thesis by auto
qed

text \<open>Appending an event under an explicit event id is idempotent: repeating a call that succeeded
  returns the logged event and appends nothing.\<close>

theorem append_event_retry_safe:
  assumes "appendSessionEvent e inp s = (Inr ev, s')" and "or_null (ap_eventId inp) = Some i"
  shows "ev_eventId ev = i \<and> appendSessionEvent e inp s' = (Inr ev, s')"
proof -
  have eid: "event_id inp ss = i" for ss using assms(2) by (auto simp: event_id_def or_else_def or_null_def split: option.splits if_splits)
  show ?thesis using assms(1)
  proof (cases rule: appendSessionEvent_cases)
    case (existing ss ev')
    then show ?thesis using assms(1) eid by simp
  next
    case (appended ss)
    let ?ss = "append_event (event_of e inp ss) ss"
    have ss': "requireSession s' (ap_tenantId inp) (ap_sessionId inp) = Inr ?ss"
      using appended(1) by (simp add: requireSession_Inr appended(5))
    have lease: "assertLeaseTokenIfPresent e ?ss (ap_leaseToken inp) = Inr ()"
      using appended(2) unfolding assertLeaseTokenIfPresent_Inr by (simp add: append_event_def)
    have "\<forall>ev \<in> set (ss_events ss). ev_eventId ev \<noteq> i" using appended(3) eid [of ss] by (metis imageI)
    then have "find (\<lambda>ev. ev_eventId ev = event_id inp ?ss) (ss_events ?ss) = Some (event_of e inp ss)"
      unfolding find_Some_split eid by (intro exI [of _ "ss_events ss"] exI [of _ "[]"]) (simp add: append_event_def event_of_def eid)
    then have "appendSessionEvent e inp s' = (Inr (event_of e inp ss), s')"
      using ss' lease by (simp add: appendSessionEvent_def try_in_def event_of_def)
    then show ?thesis using appended(4) eid by (simp add: event_of_def)
  qed simp
qed

theorem append_event_retry_safe_witness:
  "\<exists>ev s'. appendSessionEvent sample_env (sample_event ''e1'') sample_store = (Inr ev, s')
     \<and> ev_eventId ev = ''e1'' \<and> appendSessionEvent sample_env (sample_event ''e1'') s' = (Inr ev, s')"
proof -
  define out where "out = appendSessionEvent sample_env (sample_event ''e1'') sample_store"
  have "case fst out of Inr _ \<Rightarrow> True | _ \<Rightarrow> False" unfolding out_def by code_simp
  then obtain ev where "fst out = Inr ev" by (auto split: sum.splits)
  then have run: "appendSessionEvent sample_env (sample_event ''e1'') sample_store = (Inr ev, snd out)" by (simp add: out_def prod_eq_iff)
  have "or_null (ap_eventId (sample_event ''e1'')) = Some ''e1''" by (simp add: sample_event_def or_null_def)
  from append_event_retry_safe [OF run this] run show ?thesis by blast
qed

text \<open>C10: checkpointing and acknowledging a command in one call is exactly-once. A call that advanced the
  checkpoint advanced it by one and finished the command; repeating it with the same lease record
  reports the command as acknowledged and advances nothing.\<close>

theorem checkpoint_ack_once:
  assumes "checkpointAndAckSessionCommand e lease i now s = (Inr x, s')" and "ca_checkpointAdvanced x"
  shows "wl_checkpointVersion (ca_lease x) = wl_checkpointVersion lease + 1 \<and> cmd_status (ca_command x) = CAcked
    \<and> (\<exists>y. checkpointAndAckSessionCommand e lease i now s' = (Inr y, s') \<and> \<not> ca_checkpointAdvanced y \<and> ca_command y = ca_command x \<and> ca_lease y = ca_lease x)"
  using assms(1)
proof (cases rule: checkpointAndAckSessionCommand_cases)
  case (acked ss l c l')
  let ?f = "checkpoint_acked_command (nowIso e now)"
  let ?ss = "ss\<lparr> ss_lease := Some l', ss_commands := update_first (has_command_id i) ?f (ss_commands ss) \<rparr>"
  have u: "requireSession s (wl_tenantId lease) (wl_sessionId lease) = Inr ss" "wl_leaseToken l = wl_leaseToken lease" "clock e < wl_leaseExpiresAt l"
    using acked(1) by (simp_all add: under_lease_def)
  have ss': "requireSession s' (wl_tenantId lease) (wl_sessionId lease) = Inr ?ss"
    using u(1) by (simp add: requireSession_Inr acked(7))
  have cur: "assertCurrentLease ?ss lease (clock e) = Inr l'" using u(2,3) by (simp add: assertCurrentLease_Inr acked(5))
  obtain ys zs where sp: "ss_commands ss = ys @ c # zs" "has_command_id i c" "\<forall>y \<in> set ys. \<not> has_command_id i y"
    using acked(2) by (auto simp: find_Some_split)
  have "ss_commands ?ss = ys @ ?f c # zs" using update_first_split [OF sp(3,2)] by (simp add: sp(1))
  moreover have "has_command_id i (?f c)" using sp(2) by (simp add: has_command_id_def checkpoint_acked_command_def acked_command_def)
  ultimately have "requireCommand ?ss i = Inr (?f c)"
    unfolding requireCommand_Inr find_Some_split using sp(3) by (intro exI [of _ ys] exI [of _ zs]) (simp add: has_command_id_def)
  then have "checkpointAndAckSessionCommand e lease i now s'
      = (Inr \<lparr> ca_lease = l', ca_command = ?f c, ca_checkpointAdvanced = False, ca_commandAcked = False \<rparr>, s')"
    using ss' cur by (simp add: checkpointAndAckSessionCommand_def try_in_def checkpoint_acked_command_def acked_command_def)
  then show ?thesis using acked(4-6) by (simp add: checkpoint_acked_command_def acked_command_def)
qed (use assms(2) in auto)

definition sample_running_store :: workflow_store where
  "sample_running_store = (sample_workflow_store sample_run)\<lparr> sessions := [(key [''t'', ''s1''], sample_session\<lparr> ss_nextCommandSequence := 1,
     ss_commands := [sample_command\<lparr> cmd_status := CRunning, cmd_claimedLeaseToken := Some ''tok'' \<rparr>] \<rparr>)] \<rparr>"

theorem checkpoint_ack_once_witness:
  "\<exists>x s'. checkpointAndAckSessionCommand sample_env sample_lease ''c1'' None sample_running_store = (Inr x, s')
     \<and> cmd_status (ca_command x) = CAcked \<and> (\<exists>y. checkpointAndAckSessionCommand sample_env sample_lease ''c1'' None s' = (Inr y, s'))"
proof -
  define out where "out = checkpointAndAckSessionCommand sample_env sample_lease ''c1'' None sample_running_store"
  have "case fst out of Inr x \<Rightarrow> ca_checkpointAdvanced x | _ \<Rightarrow> False" unfolding out_def by code_simp
  then obtain x where x: "fst out = Inr x" "ca_checkpointAdvanced x" by (auto split: sum.splits)
  then have run: "checkpointAndAckSessionCommand sample_env sample_lease ''c1'' None sample_running_store = (Inr x, snd out)" by (simp add: out_def prod_eq_iff)
  from checkpoint_ack_once [OF run x(2)] run show ?thesis by blast
qed

section \<open>Recovery and quotas\<close>

lemma filter_map_set_length:
  "length (filter P (map_values (map_set k v m))) \<le> Suc (length (filter P (map_values m)))"
  by (induction m) (auto simp: map_values_def)

lemma filter_map_set_int:
  "int (length (filter P (map_values (map_set k v m)))) \<le> int (length (filter P (map_values m))) + 1"
  using filter_map_set_length [of P k v m] by linarith

lemma put_session_orgs [simp]: "orgIdForTenant (put_session t i ss s) u = orgIdForTenant s u"
  by (simp add: orgIdForTenant_def resolveOrgIdOrNull_def)

text \<open>Recovering a lease leaves no command behind. Afterwards the session has no lease, no command
  is running under the recovered lease, a command that was is either pending again with its claim
  cleared (while attempts remain) or failed (when they are used up), and every other command is as it was.\<close>

theorem recover_frees_commands:
  assumes "recoverSessionLease e lease now mx s = (Inr (Some rd), s')"
  shows "\<exists>ss ss'. map_get (sessions s) (key [wl_tenantId lease, wl_sessionId lease]) = Some ss
     \<and> map_get (sessions s') (key [wl_tenantId lease, wl_sessionId lease]) = Some ss'
     \<and> ss_lease ss' = None \<and> (\<forall>c \<in> set (ss_commands ss'). \<not> running_under (wl_leaseToken lease) c)
     \<and> length (ss_commands ss') = length (ss_commands ss)
     \<and> (\<forall>n < length (ss_commands ss). let c = ss_commands ss ! n; c' = ss_commands ss' ! n in
          if \<not> running_under (wl_leaseToken lease) c then c' = c
          else if cmd_attemptCount c \<ge> max 1 (coalesce mx 3) then cmd_status c' = CFailed
          else cmd_status c' = CPending \<and> cmd_claimedBy c' = None \<and> cmd_claimedLeaseToken c' = None \<and> cmd_availableAt c' = Some (nowIso e now))"
  using assms
proof (cases rule: recoverSessionLease_cases)
  case (recovered ss l r0)
  let ?ss = "recovered_session l (nowIso e now) (max 1 (coalesce mx 3)) ss"
  have get: "map_get (sessions s) (key [wl_tenantId lease, wl_sessionId lease]) = Some ss" using recovered(1) by (simp add: requireSession_Inr)
  have get': "map_get (sessions s') (key [wl_tenantId lease, wl_sessionId lease]) = Some ?ss"
    using recoverSessionLeaseRecord_sessions [OF recovered(4)] by simp
  have c: "ss_commands ?ss = map (recovered_command (wl_leaseToken lease) (nowIso e now) (max 1 (coalesce mx 3))) (ss_commands ss)" "ss_lease ?ss = None"
    using recovered(3) by (simp_all add: recovered_session_def Let_def)
  have none: "\<not> running_under (wl_leaseToken lease) (recovered_command (wl_leaseToken lease) n m c)" for n m c
    by (simp add: recovered_command_def running_under_def)
  have each: "let c' = recovered_command (wl_leaseToken lease) (nowIso e now) (max 1 (coalesce mx 3)) c in
          if \<not> running_under (wl_leaseToken lease) c then c' = c
          else if cmd_attemptCount c \<ge> max 1 (coalesce mx 3) then cmd_status c' = CFailed
          else cmd_status c' = CPending \<and> cmd_claimedBy c' = None \<and> cmd_claimedLeaseToken c' = None \<and> cmd_availableAt c' = Some (nowIso e now)" for c
    by (simp add: recovered_command_def)
  have "\<forall>c \<in> set (ss_commands ?ss). \<not> running_under (wl_leaseToken lease) c" using none by (auto simp: c(1))
  moreover have "length (ss_commands ?ss) = length (ss_commands ss)" by (simp add: c(1))
  moreover have "\<forall>n < length (ss_commands ss). let c = ss_commands ss ! n; c' = ss_commands ?ss ! n in
          if \<not> running_under (wl_leaseToken lease) c then c' = c
          else if cmd_attemptCount c \<ge> max 1 (coalesce mx 3) then cmd_status c' = CFailed
          else cmd_status c' = CPending \<and> cmd_claimedBy c' = None \<and> cmd_claimedLeaseToken c' = None \<and> cmd_availableAt c' = Some (nowIso e now)"
    unfolding Let_def c(1) using each [unfolded Let_def] by (metis nth_map)
  ultimately show ?thesis using get get' c(2) by blast
qed simp

theorem recover_frees_commands_witness:
  "\<exists>rd s' ss'. recoverSessionLease sample_env sample_lease None None sample_running_store = (Inr (Some rd), s')
     \<and> map_get (sessions s') (key [wl_tenantId sample_lease, wl_sessionId sample_lease]) = Some ss' \<and> ss_lease ss' = None"
proof -
  define out where "out = recoverSessionLease sample_env sample_lease None None sample_running_store"
  have "case fst out of Inr (Some _) \<Rightarrow> True | _ \<Rightarrow> False" unfolding out_def by code_simp
  then obtain rd where "fst out = Inr (Some rd)" by (auto split: sum.splits option.splits)
  then have run: "recoverSessionLease sample_env sample_lease None None sample_running_store = (Inr (Some rd), snd out)" by (simp add: out_def prod_eq_iff)
  from recover_frees_commands [OF run] run show ?thesis by blast
qed

text \<open>A bounded organisation never has more open sessions than its quota: a session is created under a
  quota only if afterwards the number of sessions of the organisation that are not closed is within it.\<close>

theorem session_quota_bound:
  assumes "createSession e inp s = (Inr r, s')" and "s' \<noteq> s" and "positive_limit (Option.bind (cs_quota inp) sq_maxPerOrg) = Some mx"
  shows "activeSessionCount s' (or_else (Option.bind (cs_quota inp) sq_orgId) (orgIdForTenant s (cs_tenantId inp))) \<le> mx"
  using assms(1)
proof (cases rule: createSession_cases)
  case (created ss)
  have "activeSessionCount s' org \<le> activeSessionCount s org + 1" for org
    unfolding activeSessionCount_def created(13) put_session_orgs put_session_simps(1) by (rule filter_map_set_int)
  then show ?thesis using created(12) assms(3) by (meson order_trans zless_imp_add1_zle)
qed (use assms(2) in simp)

definition sample_create :: create_session_input where
  "sample_create = \<lparr> cs_tenantId = ''t'', cs_userId = ''u'', cs_sessionId = ''s2'', cs_opencodeSessionId = ''o2'', cs_profileName = ''p'', cs_title = None,
     cs_createdAt = None, cs_quota = Some \<lparr> sq_orgId = None, sq_maxPerOrg = Some 2, sq_policyCode = None \<rparr> \<rparr>"

theorem session_quota_bound_witness:
  "activeSessionCount (snd (createSession sample_env sample_create sample_store)) ''o'' \<le> 2"
proof -
  define out where "out = createSession sample_env sample_create sample_store"
  have "case fst out of Inr _ \<Rightarrow> True | _ \<Rightarrow> False" unfolding out_def by code_simp
  then obtain r where "fst out = Inr r" by (auto split: sum.splits)
  then have run: "createSession sample_env sample_create sample_store = (Inr r, snd out)" by (simp add: out_def prod_eq_iff)
  have "length (sessions (snd out)) = 2" unfolding out_def by code_simp
  then have "snd out \<noteq> sample_store" by (auto simp: sample_store_def)
  moreover have "positive_limit (Option.bind (cs_quota sample_create) sq_maxPerOrg) = Some 2" by code_simp
  moreover have "or_else (Option.bind (cs_quota sample_create) sq_orgId) (orgIdForTenant sample_store (cs_tenantId sample_create)) = ''o''" by code_simp
  ultimately show ?thesis using session_quota_bound [OF run] by (simp add: out_def)
qed


section \<open>Replay\<close>

lemma session_inv_sorted: "session_inv k ss \<Longrightarrow> sorted_wrt (\<lambda>x y. ev_sequence x < ev_sequence y) (ss_events ss)"
proof -
  assume "session_inv k ss"
  then have "map ev_sequence (ss_events ss) = map int [1..<Suc (length (ss_events ss))]" by (simp add: session_inv_def)
  moreover have "sorted_wrt (<) (map int [1..<Suc n])" for n unfolding sorted_wrt_map using sorted_wrt_upt [of 1 "Suc n"] by simp
  ultimately have "sorted_wrt (<) (map ev_sequence (ss_events ss))" by metis
  then show ?thesis by (simp add: sorted_wrt_map)
qed

text \<open>C12: a client that pages through a session's events, resuming after the sequence of the last event it
  has seen, receives every event after its start exactly once and in order.\<close>

theorem session_replay_resume:
  assumes "sessions_ok s" and "0 < n" and "listSessionEvents s t i a (Some (JInt n)) = Inr page" and "page \<noteq> []"
  shows "\<exists>rest. listSessionEvents s t i (ev_sequence (last page)) None = Inr rest \<and> listSessionEvents s t i a None = Inr (page @ rest)
     \<and> (\<forall>ev \<in> set (page @ rest). a < ev_sequence ev) \<and> sorted_wrt (\<lambda>x y. ev_sequence x < ev_sequence y) (page @ rest)"
proof -
  obtain ss where ss: "requireSession s t i = Inr ss" and page: "page = sliceEventsAfter ev_sequence (ss_events ss) a (Some (JInt n))"
    using assms(3) by (cases "requireSession s t i") (auto simp: listSessionEvents_def try_pure_def)
  have "session_inv (key [t, i]) ss" using ss assms(1) by (simp add: requireSession_Inr sessions_ok_def)
  then have srt: "sorted_wrt (\<lambda>x y. ev_sequence x < ev_sequence y) (ss_events ss)" by (rule session_inv_sorted)
  have eq: "page @ sliceEventsAfter ev_sequence (ss_events ss) (ev_sequence (last page)) None = sliceEventsAfter ev_sequence (ss_events ss) a None"
    by (rule sliceEventsAfter_resume [OF srt assms(2) page assms(4)])
  have all: "sliceEventsAfter ev_sequence (ss_events ss) a None = filter (\<lambda>x. ev_sequence x > a) (ss_events ss)"
    by (simp add: sliceEventsAfter_def)
  define rest where "rest = sliceEventsAfter ev_sequence (ss_events ss) (ev_sequence (last page)) None"
  have pr: "page @ rest = filter (\<lambda>x. a < ev_sequence x) (ss_events ss)" using eq all by (simp add: rest_def)
  have "\<forall>ev \<in> set (page @ rest). a < ev_sequence ev" "sorted_wrt (\<lambda>x y. ev_sequence x < ev_sequence y) (page @ rest)"
    unfolding pr using srt by (simp_all add: sorted_wrt_filter)
  moreover have "listSessionEvents s t i (ev_sequence (last page)) None = Inr rest" "listSessionEvents s t i a None = Inr (page @ rest)"
    using ss all pr by (simp_all add: listSessionEvents_def try_pure_def rest_def)
  ultimately show ?thesis by blast
qed

theorem session_replay_resume_witness:
  "\<exists>page rest. page \<noteq> [] \<and> listSessionEvents (snd (appendSessionEvent sample_env (sample_event ''e1'') sample_store)) ''t'' ''s1'' 0 None = Inr (page @ rest)"
proof -
  let ?s = "snd (appendSessionEvent sample_env (sample_event ''e1'') sample_store)"
  have ok: "sessions_ok ?s" using session_transition_kept [OF se_append [OF surjective_pairing] sample_store_ok] by blast
  define p where "p = listSessionEvents ?s ''t'' ''s1'' 0 (Some (JInt 1))"
  have "case p of Inr page \<Rightarrow> page \<noteq> [] | _ \<Rightarrow> False" unfolding p_def by code_simp
  then obtain page where page: "p = Inr page" "page \<noteq> []" by (auto split: sum.splits)
  then have "listSessionEvents ?s ''t'' ''s1'' 0 (Some (JInt 1)) = Inr page" by (simp add: p_def)
  from session_replay_resume [OF ok _ this page(2)] page(2) show ?thesis by auto
qed

end
