(* ===== verification/Directory_Guarantees.thy ===== *)
theory Directory_Guarantees
  imports Session_Guarantees
begin

text \<open>
  What the identity directory, the audit log and the shared helpers guarantee: referential integrity of
  the directory over every sequence of operations, provisioning, complete audit exports, canonical JSON,
  and the bounds of normalised permissions and workflow steps.
\<close>


section \<open>The directory under any sequence of operations\<close>

inductive identity_transition :: "'a identity_store_scheme \<Rightarrow> 'a identity_store_scheme \<Rightarrow> bool" where
  id_tenant: "createTenant e t n oid ca s = (r, s') \<Longrightarrow> identity_transition s s'"
| id_org: "ensureOrgForTenant e t n oid pk st ca s = (og, s') \<Longrightarrow> identity_transition s s'"
| id_user: "ensureUser e t u em ro ca s = (r, s') \<Longrightarrow> identity_transition s s'"
| id_account: "createAccount e ai s = (a, s') \<Longrightarrow> identity_transition s s'"
| id_membership: "upsertMembership e mi s = (r, s') \<Longrightarrow> identity_transition s s'"
| id_audit: "recordAuditEvent e au s = (r, s') \<Longrightarrow> identity_transition s s'"
| id_prune: "0 \<le> limit \<Longrightarrow> pruneAuditEvents cutoff limit s = (n, s') \<Longrightarrow> identity_transition s s'"

lemma ensureUser_ok:
  assumes ok: "identity_ok s" and run: "ensureUser e t u em ro ca s = (r, s')"
  shows "identity_ok s'"
proof (cases "map_has (tenants s) t")
  case False
  then have "s' = s" using run by (simp add: ensureUser_def try_in_def requireTenant_def map_has_def)
  then show ?thesis using ok by simp
next
  case t: True
  show ?thesis
  proof (cases "map_get (users s) (key [t, u])")
    case None
    from ensureUser_new [OF ok t None, of e em ro ca] run show ?thesis by (metis prod.inject)
  next
    case (Some x)
    then show ?thesis using ensureUser_known [OF ok Some t, of e em ro ca] run ok by simp
  qed
qed

lemma prune_loop_map_ok: "map_ok m \<Longrightarrow> map_ok (snd (prune_loop es removed limit m))"
  by (induction es removed limit m rule: prune_loop.induct) simp_all

lemma identity_ok_auditEvents:
  assumes "map_ok m" "\<And>k v. map_get m k = Some v \<Longrightarrow> map_get (auditEvents s) k = Some v" "identity_ok s"
  shows "identity_ok (s\<lparr> auditEvents := m \<rparr>)"
proof -
  have "audit_event_ok s k ev" if "map_get m k = Some ev" for k ev
    using assms(2) [OF that] assms(3) unfolding identity_ok_def by blast
  then show ?thesis using assms(1,3) by (simp add: identity_defs)
qed

lemma pruneAuditEvents_ok:
  assumes ok: "identity_ok s" and "0 \<le> limit" and run: "pruneAuditEvents cutoff limit s = (n, s')"
  shows "identity_ok s'"
proof -
  obtain m where p: "pruneOldestByCreatedAt (auditEvents s) ae_createdAt cutoff limit = (n, m)" and s': "s' = s\<lparr> auditEvents := m \<rparr>"
    using run by (auto simp: pruneAuditEvents_def split: prod.splits)
  have m0: "map_ok (auditEvents s)" using ok by (simp add: identity_ok_def maps_ok_def)
  have "map_ok (snd (pruneOldestByCreatedAt (auditEvents s) ae_createdAt cutoff limit))"
    unfolding pruneOldestByCreatedAt_def Let_def by (rule prune_loop_map_ok [OF m0])
  then have "map_ok m" by (simp add: p)
  moreover have "\<And>k v. map_get m k = Some v \<Longrightarrow> map_get (auditEvents s) k = Some v" by (rule pruneOldest_spec(3) [OF m0 assms(2) p])
  ultimately show ?thesis using ok unfolding s' by (intro identity_ok_auditEvents)
qed

lemma identity_transition_ok: "identity_transition s s' \<Longrightarrow> identity_ok s \<Longrightarrow> identity_ok s'"
proof (induction rule: identity_transition.induct)
  case (id_account e ai s a s')
  then show ?case using createAccount_ok(1) [of s e ai] by simp
qed (auto dest: createTenant_ok(1) ensureOrgForTenant_ok(1) ensureUser_ok upsertMembership_ok recordAuditEvent_ok pruneAuditEvents_ok)

text \<open>C14: the directory keeps its referential integrity under any sequence of operations. Every tenant has an
  organisation, every user a tenant, every membership an organisation and an account that exist, every
  index entry points to a record, every record is stored under its own key, and every audit event belongs
  to an existing organisation and carries only redacted, bounded, flat metadata.\<close>

theorem directory_integrity:
  assumes "identity_transition\<^sup>*\<^sup>* s s'" and "identity_ok s"
  shows "identity_ok s'"
  using assms by (induction rule: rtranclp_induct) (auto intro: identity_transition_ok)

definition empty_directory :: identity_store where
  "empty_directory = \<lparr> tenants = [], users = [], orgs = [], orgsByTenant = [], accounts = [], accountsBySubject = [], accountsByEmail = [],
     memberships = [], auditEvents = [] \<rparr>"

definition sample_directory :: identity_store where
  "sample_directory = snd (createTenant sample_env ''t'' ''Tenant'' None None empty_directory)"

lemma empty_directory_ok: "identity_ok empty_directory"
  by (simp add: identity_defs empty_directory_def)

lemma sample_directory_ok: "identity_ok sample_directory"
  unfolding sample_directory_def by (rule createTenant_ok(1) [OF empty_directory_ok surjective_pairing])

theorem directory_integrity_witness:
  "identity_ok (snd (ensureUser sample_env ''t'' ''u'' ''u@x'' None None (snd (createTenant sample_env ''t'' ''Tenant'' None None empty_directory))))"
proof (rule directory_integrity [OF _ empty_directory_ok])
  let ?s = "snd (createTenant sample_env ''t'' ''Tenant'' None None empty_directory)"
  have "identity_transition empty_directory ?s" by (rule id_tenant [OF surjective_pairing])
  moreover have "identity_transition ?s (snd (ensureUser sample_env ''t'' ''u'' ''u@x'' None None ?s))" by (rule id_user [OF surjective_pairing])
  ultimately show "identity_transition\<^sup>*\<^sup>* empty_directory (snd (ensureUser sample_env ''t'' ''u'' ''u@x'' None None ?s))"
    by (meson r_into_rtranclp rtranclp.rtrancl_into_rtrancl)
qed

text \<open>Provisioning a user never fails under a known tenant. A known user is returned unchanged; a new one
  is stored, and holds an active membership with the requested role in the organisation of the tenant.\<close>

theorem user_provisioned:
  assumes "identity_ok s" and "map_has (tenants s) t"
  shows "case map_get (users s) (key [t, u]) of
      Some rec \<Rightarrow> ensureUser e t u em ro ca s = (Inr rec, s)
    | None \<Rightarrow> (\<exists>rec s' orgId a m. ensureUser e t u em ro ca s = (Inr rec, s') \<and> map_get (users s') (key [t, u]) = Some rec
        \<and> map_get (orgsByTenant s') t = Some orgId \<and> map_get (memberships s') (key [orgId, a]) = Some m
        \<and> mb_status m = MActive \<and> mb_role m = coalesce ro Member)"
proof (cases "map_get (users s) (key [t, u])")
  case None
  from ensureUser_new [OF assms None, of e em ro ca] show ?thesis unfolding None option.case by metis
qed (simp add: ensureUser_known assms)

theorem user_provisioned_witness:
  "\<exists>rec s' orgId a m. ensureUser sample_env ''t'' ''u'' ''u@x'' None None sample_directory = (Inr rec, s') \<and> map_get (users s') (key [''t'', ''u'']) = Some rec
        \<and> map_get (orgsByTenant s') ''t'' = Some orgId \<and> map_get (memberships s') (key [orgId, a]) = Some m \<and> mb_status m = MActive
        \<and> mb_role m = coalesce None Member"
proof -
  have t: "map_has (tenants sample_directory) ''t''" and u: "map_get (users sample_directory) (key [''t'', ''u'']) = None"
    by code_simp+
  show ?thesis using user_provisioned [OF sample_directory_ok t, where u = "''u''" and e = sample_env and em = "''u@x''" and ro = None and ca = None] unfolding u option.case .
qed


section \<open>Exporting the audit log\<close>

text \<open>The events a query matches, and the collation agreeing with code units on the ids of those of one millisecond.\<close>

definition audit_matching :: "'a identity_store_scheme \<Rightarrow> audit_query \<Rightarrow> audit_event list" where
  "audit_matching s q = filter (\<lambda>event. ae_orgId event = aq_orgId q \<and> auditEventMatchesQuery event q) (map_values (auditEvents s))"

definition ids_collated :: "env \<Rightarrow> audit_event list \<Rightarrow> bool" where
  "ids_collated e evs = list_all (\<lambda>x. list_all (\<lambda>y. ae_createdAt x = ae_createdAt y \<longrightarrow>
      (locale_compare e (ae_eventId x) (ae_eventId y) \<le> 0 \<longleftrightarrow> cmp_code_units (ae_eventId x) (ae_eventId y) \<le> 0)) evs) evs"

text \<open>A client that follows the cursors of \<open>queryAuditEvents\<close> until there is none; \<open>None\<close> when \<open>fuel\<close> requests
  were not enough or a request failed.\<close>

fun audit_export :: "nat \<Rightarrow> env \<Rightarrow> 'a identity_store_scheme \<Rightarrow> audit_query \<Rightarrow> audit_event list option" where
  "audit_export 0 e s q = None"
| "audit_export (Suc fuel) e s q =
     (case queryAuditEvents e s q of
        Inl _ \<Rightarrow> None
      | Inr page \<Rightarrow>
          (case ap_nextCursor page of
             None \<Rightarrow> Some (ap_events page)
           | Some c \<Rightarrow> map_option (\<lambda>rest. ap_events page @ rest) (audit_export fuel e s (q\<lparr> aq_cursor := Some c \<rparr>))))"

lemma audit_matching_cursor [simp]: "audit_matching s (q\<lparr> aq_cursor := c \<rparr>) = audit_matching s q"
  by (simp add: audit_matching_def)

lemma audit_rows_matching: "set (audit_rows e s q) = {ev \<in> set (audit_matching s q). case aq_cursor q of Some c \<Rightarrow> isAuditEventAfterCursor ev c | None \<Rightarrow> True}"
  by (auto simp: audit_rows_def audit_matching_def)

text \<open>The order of the rows looks at the collation of ids of equal creation time only.\<close>

lemma audit_rows_collated:
  assumes "ids_collated e (audit_matching s q)"
  shows "audit_rows e s q = audit_rows (e\<lparr> locale_compare := cmp_code_units \<rparr>) s q"
  unfolding audit_rows_def
proof (rule js_sort_cong)
  fix x y
  assume "x \<in> set (filter (\<lambda>event. ae_orgId event = aq_orgId q \<and> auditEventMatchesQuery event q
        \<and> (case aq_cursor q of Some c \<Rightarrow> isAuditEventAfterCursor event c | None \<Rightarrow> True)) (map_values (auditEvents s)))"
    "y \<in> set (filter (\<lambda>event. ae_orgId event = aq_orgId q \<and> auditEventMatchesQuery event q
        \<and> (case aq_cursor q of Some c \<Rightarrow> isAuditEventAfterCursor event c | None \<Rightarrow> True)) (map_values (auditEvents s)))"
  then have "x \<in> set (audit_matching s q)" "y \<in> set (audit_matching s q)" by (simp_all add: audit_matching_def)
  then show "compareAuditEventsDescending e x y \<le> 0 \<longleftrightarrow> compareAuditEventsDescending (e\<lparr> locale_compare := cmp_code_units \<rparr>) x y \<le> 0"
    using assms by (auto simp: ids_collated_def list_all_iff compareAuditEventsDescending_def)
qed

lemma audit_export_collated:
  assumes "ids_collated e (audit_matching s q)" "orgExists s (aq_orgId q)"
  shows "audit_export fuel e s q = audit_export fuel (e\<lparr> locale_compare := cmp_code_units \<rparr>) s q"
  using assms
proof (induction fuel arbitrary: q)
  case (Suc fuel)
  note page = queryAuditEvents_rows [OF Suc.prems(2) refl]
  have "queryAuditEvents e s q = queryAuditEvents (e\<lparr> locale_compare := cmp_code_units \<rparr>) s q"
    unfolding page audit_rows_collated [OF Suc.prems(1)] ..
  moreover have "audit_export fuel e s (q\<lparr> aq_cursor := c \<rparr>) = audit_export fuel (e\<lparr> locale_compare := cmp_code_units \<rparr>) s (q\<lparr> aq_cursor := c \<rparr>)" for c
    using Suc.prems by (intro Suc.IH) simp_all
  ultimately show ?case by (simp split: sum.split option.split)
qed simp

text \<open>The cursor moves strictly on, whatever the collation.\<close>

lemma audit_rows_shrink:
  assumes "z \<in> set (audit_rows e s q)"
  shows "length (audit_rows e s (q\<lparr> aq_cursor := Some (audit_cursor_of z) \<rparr>)) < length (audit_rows e s q)"
proof -
  let ?after = "\<lambda>c event. case c of Some c \<Rightarrow> isAuditEventAfterCursor event c | None \<Rightarrow> True"
  have len: "length (audit_rows e s (q\<lparr> aq_cursor := c \<rparr>)) = length (filter (?after c) (audit_matching s q))" for c
    by (simp add: audit_rows_def audit_matching_def conj_ac)
  have z: "?after (aq_cursor q) z" "z \<in> set (audit_matching s q)" using assms by (simp_all add: audit_rows_matching)
  have trans: "isAuditEventAfterCursor x c" if "isAuditEventAfterCursor x (audit_cursor_of z)" "isAuditEventAfterCursor z c" for x c
    using that str_less_trans by (auto simp: isAuditEventAfterCursor_def audit_cursor_of_def split: if_splits)
  have "filter (?after (Some (audit_cursor_of z))) (audit_matching s q)
      = filter (\<lambda>x. isAuditEventAfterCursor x (audit_cursor_of z)) (filter (?after (aq_cursor q)) (audit_matching s q))"
    using trans z(1) by (auto intro!: filter_cong split: option.splits)
  moreover have "length (filter (\<lambda>x. isAuditEventAfterCursor x (audit_cursor_of z)) (filter (?after (aq_cursor q)) (audit_matching s q)))
      < length (filter (?after (aq_cursor q)) (audit_matching s q))"
    by (rule length_filter_less [of z]) (use z in \<open>simp_all add: isAuditEventAfterCursor_def audit_cursor_of_def\<close>)
  moreover have "length (audit_rows e s q) = length (filter (?after (aq_cursor q)) (audit_matching s q))" using len [of "aq_cursor q"] by simp
  ultimately show ?thesis unfolding len by simp
qed

lemma audit_export_ends:
  assumes "orgExists s (aq_orgId q)" and "length (audit_rows e s q) < fuel"
  shows "\<exists>evs. audit_export fuel e s q = Some evs \<and> set evs \<subseteq> set (audit_matching s q)"
  using assms
proof (induction fuel arbitrary: q)
  case (Suc fuel)
  define n where "n = nat (js_int (normalizeAuditQueryLimit (aq_limit q)))"
  have n: "0 < n" using audit_limit_range [of "aq_limit q"] by (simp add: n_def)
  note page = queryAuditEvents_rows [OF Suc.prems(1) n_def, of e]
  have sub: "set (take n (audit_rows e s q)) \<subseteq> set (audit_matching s q)" using audit_rows_matching [of e s q] by (auto dest: in_set_takeD)
  show ?case
  proof (cases "length (audit_rows e s q) \<le> n")
    case True
    then show ?thesis using sub by (simp add: page)
  next
    case False
    define z where "z = last (take n (audit_rows e s q))"
    have "take n (audit_rows e s q) \<noteq> []" using False n by auto
    then have "z \<in> set (audit_rows e s q)" unfolding z_def by (meson in_set_takeD last_in_set)
    then have "length (audit_rows e s (q\<lparr> aq_cursor := Some (audit_cursor_of z) \<rparr>)) < fuel" using audit_rows_shrink Suc.prems(2) by fastforce
    then obtain evs where "audit_export fuel e s (q\<lparr> aq_cursor := Some (audit_cursor_of z) \<rparr>) = Some evs" "set evs \<subseteq> set (audit_matching s q)"
      using Suc.IH [of "q\<lparr> aq_cursor := Some (audit_cursor_of z) \<rparr>"] Suc.prems(1) by auto
    then show ?thesis using False sub by (simp add: page z_def)
  qed
qed simp

lemma audit_export_rows:
  assumes ok: "identity_ok s" and e: "locale_compare e = cmp_code_units" and org: "orgExists s (aq_orgId q)"
    and "length (audit_rows e s q) < fuel"
  shows "audit_export fuel e s q = Some (audit_rows e s q)"
  using org assms(4)
proof (induction fuel arbitrary: q)
  case (Suc fuel)
  define n where "n = nat (js_int (normalizeAuditQueryLimit (aq_limit q)))"
  have n: "0 < n" using audit_limit_range [of "aq_limit q"] by (simp add: n_def)
  note page = queryAuditEvents_rows [OF Suc.prems(1) n_def, of e]
  show ?case
  proof (cases "length (audit_rows e s q) \<le> n")
    case True
    then show ?thesis by (simp add: page)
  next
    case False
    let ?q = "q\<lparr> aq_cursor := Some (audit_cursor_of (last (take n (audit_rows e s q)))) \<rparr>"
    have rows: "audit_rows e s ?q = drop n (audit_rows e s q)" using False n by (intro audit_rows_resume [OF ok e]) simp_all
    have "audit_export fuel e s ?q = Some (audit_rows e s ?q)" using Suc.prems False n by (intro Suc.IH) (simp_all add: rows)
    then show ?thesis using False rows by (simp add: page)
  qed
qed simp

lemma audit_rows_length: "aq_cursor q = None \<Longrightarrow> length (audit_rows e s q) \<le> length (auditEvents s)"
  using length_filter_le [of "\<lambda>event. ae_orgId event = aq_orgId q \<and> auditEventMatchesQuery event q" "map_values (auditEvents s)"]
  by (simp add: audit_rows_def map_values_def)

text \<open>C15: an export of the audit log terminates, and is complete. A client that follows the cursors reaches the
  end within one request more than there are events, whatever the page size it asks for and whatever the
  collation, and has then received matching events of the organisation only. It has received each of them
  exactly once, newest first, provided that the collation orders the ids of matching events of the same
  millisecond as their code units do; without this proviso events can be missed
  (\<open>audit_export_missed\<close>).\<close>

theorem audit_export_complete:
  assumes "identity_ok s" and "orgExists s (aq_orgId q)" and "aq_cursor q = None" and "length (auditEvents s) < fuel"
  shows "\<exists>evs. audit_export fuel e s q = Some evs \<and> set evs \<subseteq> set (audit_matching s q)
     \<and> (ids_collated e (audit_matching s q) \<longrightarrow> distinct evs \<and> set evs = set (audit_matching s q)
          \<and> sorted_wrt (\<lambda>x y. ae_createdAt y \<le> ae_createdAt x) evs)"
proof -
  let ?e = "e\<lparr> locale_compare := cmp_code_units \<rparr>"
  have len: "length (audit_rows e' s q) < fuel" for e' using audit_rows_length [OF assms(3), of e' s] assms(4) by simp
  obtain evs where evs: "audit_export fuel e s q = Some evs" "set evs \<subseteq> set (audit_matching s q)"
    using audit_export_ends [OF assms(2) len] by blast
  have "distinct evs \<and> set evs = set (audit_matching s q) \<and> sorted_wrt (\<lambda>x y. ae_createdAt y \<le> ae_createdAt x) evs"
    if "ids_collated e (audit_matching s q)"
  proof -
    have rows: "evs = js_sort (compareAuditEventsDescending ?e) (audit_matching s q)"
      using audit_export_rows [OF assms(1) _ assms(2) len, of ?e] audit_export_collated [OF that assms(2)] evs(1)
      by (simp add: audit_rows_def audit_matching_def assms(3))
    have "sorted_wrt (\<lambda>x y. compareAuditEventsDescending ?e x y \<le> 0) evs" unfolding rows by (rule audit_keyset.sorted_sort)
    then have "sorted_wrt (\<lambda>x y. ae_createdAt y \<le> ae_createdAt x) evs"
      by (rule sorted_wrt_mono_rel [rotated]) (auto simp: compareAuditEventsDescending_def cmp_int_def split: if_splits)
    then show ?thesis using rows audit_values_distinct(1) [OF assms(1)] by (simp add: audit_matching_def)
  qed
  then show ?thesis using evs by blast
qed

definition sample_audit :: "string \<Rightarrow> iso \<Rightarrow> audit_event" where
  "sample_audit i at = \<lparr> ae_eventId = i, ae_orgId = ''t'', ae_accountId = None, ae_actorType = ActorSystem, ae_actorId = None,
     ae_eventType = ''member.added'', ae_targetType = None, ae_targetId = None, ae_metadata = JObj [], ae_createdAt = at \<rparr>"

definition sample_audit_directory :: identity_store where
  "sample_audit_directory = empty_directory\<lparr>
     orgs := [(''t'', \<lparr> og_orgId = ''t'', og_tenantId = ''t'', og_name = ''T'', og_planKey = None, og_status = ''active'', og_createdAt = 0, og_updatedAt = 0 \<rparr>)],
     auditEvents := [(''a'', sample_audit ''a'' 1), (''b'', sample_audit ''b'' 2)] \<rparr>"

definition sample_audit_query :: audit_query where
  "sample_audit_query = \<lparr> aq_orgId = ''t'', aq_actorId = None, aq_actorType = None, aq_eventTypePrefix = Some ''member'', aq_targetType = None,
     aq_targetId = None, aq_result = None, aq_from = None, aq_to = None, aq_limit = Some (JInt 1), aq_cursor = None \<rparr>"

text \<open>The proviso is needed. Under a collation that ignores case, as \<open>localeCompare\<close> nearly does, a page ends with
  an id that is before the next one in code units, and the cursor skips that event.\<close>

definition caseless_env :: env where
  "caseless_env = sample_env\<lparr> locale_compare := (\<lambda>x y. cmp_code_units (js_lower x) (js_lower y)) \<rparr>"

lemma audit_export_missed:
  "map_option (map ae_eventId) (audit_export 3 caseless_env
      (sample_audit_directory\<lparr> auditEvents := [(''a'', sample_audit ''a'' 1), (''B'', sample_audit ''B'' 1)] \<rparr>) sample_audit_query)
    = Some [''B'']"
  by code_simp

theorem audit_export_complete_witness:
  "\<exists>evs. audit_export 3 sample_env sample_audit_directory sample_audit_query = Some evs \<and> distinct evs \<and> map ae_eventId evs = [''b'', ''a'']
     \<and> set evs = set (audit_matching sample_audit_directory sample_audit_query)"
proof -
  have ok: "identity_ok sample_audit_directory"
    by (simp add: identity_defs sample_audit_directory_def empty_directory_def sample_audit_def map_ok_def map_get_def)
  have lc: "ids_collated sample_env (audit_matching sample_audit_directory sample_audit_query)" by code_simp
  have org: "orgExists sample_audit_directory (aq_orgId sample_audit_query)" and n: "length (auditEvents sample_audit_directory) < 3"
    and ids: "map_option (map ae_eventId) (audit_export 3 sample_env sample_audit_directory sample_audit_query) = Some [''b'', ''a'']"
    by code_simp+
  have q: "aq_cursor sample_audit_query = None" by (simp add: sample_audit_query_def)
  show ?thesis using audit_export_complete [OF ok org q n, of sample_env] lc ids by auto
qed


section \<open>Shared helpers\<close>

text \<open>C16: the canonical text of a JSON value decides equality of values. Two values with the same canonical
  text are the same value up to the order of the properties of their objects, at every depth and under any
  collation. Conversely two values that are the same up to that order have the same canonical text, when the
  collation is a consistent comparator that returns 0 on no two different property names of one object;
  names it identifies keep the order they have (\<open>stableJson_identified_names\<close>).\<close>

theorem canonical_json_equivalence:
  assumes "json_wf a" and "json_wf b"
  shows "(stableJson lc a = stableJson lc b \<longrightarrow> json_same a b)
    \<and> (js_comparator lc \<and> names_apart lc a \<and> json_same a b \<longrightarrow> stableJson lc a = stableJson lc b)"
  using stableJson_sound [OF assms] stableJson_complete [OF _ _ assms] by blast

theorem canonical_json_equivalence_witness:
  "stableJson cmp_code_units (JObj [(''b'', JNum ''1''), (''a'', JArr [JNull])]) = stableJson cmp_code_units (JObj [(''a'', JArr [JNull]), (''b'', JNum ''1'')])
   \<and> stableJson cmp_code_units (JArr [JNum ''1'', JNull]) \<noteq> stableJson cmp_code_units (JArr [JNull, JNum ''1''])"
proof -
  have wf: "json_wf (JObj [(''b'', JNum ''1''), (''a'', JArr [JNull])])" "json_wf (JObj [(''a'', JArr [JNull]), (''b'', JNum ''1'')])"
    "json_wf (JArr [JNum ''1'', JNull])" "json_wf (JArr [JNull, JNum ''1''])" by (simp_all add: num_char_def)
  have "names_apart cmp_code_units (JObj [(''b'', JNum ''1''), (''a'', JArr [JNull])])" by code_simp
  then show ?thesis
    using canonical_json_equivalence [OF wf(1,2), of cmp_code_units] code_unit_order.js_comparator_axioms
      canonical_json_equivalence [OF wf(3,4), of cmp_code_units] by simp
qed

lemma stableJson_identified_names:
  "stableJson (\<lambda>x y. 0) (JObj [(''a'', JNull), (''b'', JNull)]) \<noteq> stableJson (\<lambda>x y. 0) (JObj [(''b'', JNull), (''a'', JNull)])"
  by code_simp

text \<open>C17: a normalised permission list is a set of catalogued permissions in catalogue order. Every listed
  permission is kept and nothing is added, an unknown permission is refused, normalising again changes
  nothing, and two requests for the same set of permissions are normalised to the same list.\<close>

theorem permissions_normal_form:
  assumes "normalizeControlPlanePermissions (Some xs) l = Inr ps"
  shows "set ps = set xs \<and> distinct ps \<and> subseq ps CONTROL_PLANE_PERMISSIONS
    \<and> normalizeControlPlanePermissions (Some ps) l = Inr ps
    \<and> (\<forall>ys. set ys = set xs \<longrightarrow> normalizeControlPlanePermissions (Some ys) l = Inr ps)"
proof -
  have ps: "set ps = set xs" "ps = filter (\<lambda>p. p \<in> set xs) CONTROL_PLANE_PERMISSIONS"
    using normalizePermissions_Inr [OF assms] by (metis option.inject)+
  have same: "normalizeControlPlanePermissions (Some ys) l = Inr ps" if "set ys = set xs" for ys
  proof -
    have "list_all isControlPlanePermission xs"
      using assms by (auto simp: normalizeControlPlanePermissions_def try_pure_def permissions_seen_Inr split: sum.splits)
    then have "list_all isControlPlanePermission ys" using that by (simp add: list_all_iff)
    then have "permissions_seen l ys [] = Inr (fold (\<lambda>v acc. if v \<in> set acc then acc else acc @ [v]) ys [])"
      by (simp add: permissions_seen_Inr)
    then show ?thesis using that ps(2) by (simp add: normalizeControlPlanePermissions_def try_pure_def set_seen_fold)
  qed
  have "distinct ps" using ps(2) permission_catalog_distinct by simp
  moreover have "subseq ps CONTROL_PLANE_PERMISSIONS" unfolding ps(2) by (rule subseq_filter_left)
  ultimately show ?thesis using same ps(1) by blast
qed

theorem permissions_normal_form_witness:
  "normalizeControlPlanePermissions (Some [last CONTROL_PLANE_PERMISSIONS, hd CONTROL_PLANE_PERMISSIONS]) []
    = Inr [hd CONTROL_PLANE_PERMISSIONS, last CONTROL_PLANE_PERMISSIONS]"
proof -
  have "normalizeControlPlanePermissions (Some [hd CONTROL_PLANE_PERMISSIONS, last CONTROL_PLANE_PERMISSIONS]) []
    = Inr [hd CONTROL_PLANE_PERMISSIONS, last CONTROL_PLANE_PERMISSIONS]" by code_simp
  from permissions_normal_form [OF this] show ?thesis by (simp add: insert_commute)
qed

text \<open>The steps of a workflow are always usable. Whatever the client sent, and whatever the instructions
  say, there is at least one step and at most the maximum, and each has an id and a non-empty title within
  the title bound.\<close>

theorem workflow_steps_usable:
  "normalizeWorkflowSteps v ins ag sk tids \<noteq> [] \<and> length (normalizeWorkflowSteps v ins ag sk tids) \<le> MAX_WORKFLOW_STEPS
   \<and> list_all (\<lambda>st. st_id st \<noteq> [] \<and> st_title st \<noteq> [] \<and> length (st_title st) \<le> MAX_WORKFLOW_STEP_TITLE_LENGTH)
       (normalizeWorkflowSteps v ins ag sk tids)"
  using workflow_steps_bounded workflow_steps_titled
  by (fastforce simp: list_all_iff step_ok_def MAX_WORKFLOW_STEP_TITLE_LENGTH_def)

text \<open>A snapshot of the workflow domain loses nothing. Restoring it into any state gives a state
  whose workflows with their run lists, run records and webhook secrets are those of the snapshot.\<close>

theorem workflow_snapshot_roundtrip: "snapshotWorkflows (restoreWorkflows (snapshotWorkflows s) s1) = snapshotWorkflows s"
  by (rule snapshot_restore)

end
