(* ===== verification/Artifact_Uploads.thy ===== *)
theory Artifact_Uploads
  imports Session_Guarantees
begin

text \<open>
  Artifact upload reservations (\<open>in-memory-domains/artifact-upload-reservations.ts\<close>,
  \<open>artifact-upload-publication.ts\<close>): a saga over an object store. A reservation is created against a
  usage quota, finalized under a claim, or cleaned up in at least two passes, after which its quota is
  given back; a reconciler claims bounded batches of reservations whose owner has disappeared.
  The abstract lifecycle is \<open>upload_edge\<close>; every operation is shown to follow it.
\<close>


section \<open>Records\<close>

datatype upload_status = UReserved | UFinalizing | UFinalized | UCleanupPending | UCleaned

datatype cleanup_reason = ReasonAborted | ReasonExpired | ReasonMismatch | ReasonFailed

datatype reconcile_action = ActFinalize | ActCleanup | ActCleanupStaging

record publication =
  pb_kind :: string
  pb_artifactStatus :: string
  pb_authorAgentId :: "string option"
  pb_projectId :: "string option"
  pb_taskId :: "string option"
  pb_statusUpdatedBy :: "string option"
  pb_statusUpdatedAt :: "string option"

record upload_reservation =
  ur_orgId :: string
  ur_tenantId :: string
  ur_userId :: string
  ur_sessionId :: string
  ur_artifactId :: string
  ur_objectKey :: string
  ur_stagingObjectKey :: string
  ur_finalObjectKey :: string
  ur_filename :: string
  ur_contentType :: "string option"
  ur_checksumSha256 :: "string option"
  ur_stagingCleanedAt :: "iso option"
  ur_publication :: publication
  ur_quotaKey :: "string option"
  ur_quotaWindowMs :: "int option"
  ur_quotaWindowStartedAtMs :: "int option"
  ur_reservedBytes :: int
  ur_status :: upload_status
  ur_cleanupReason :: "cleanup_reason option"
  ur_cleanupRequestedAt :: "iso option"
  ur_claimOwner :: "string option"
  ur_claimToken :: "string option"
  ur_claimExpiresAt :: "iso option"
  ur_cleanupAttempts :: int
  ur_cleanupPasses :: int
  ur_finalizationAttempts :: int
  ur_nextCleanupAttemptAt :: "iso option"
  ur_lastErrorCode :: "string option"
  ur_expiresAt :: iso
  ur_createdAt :: iso
  ur_updatedAt :: iso

record upload_store = workflow_store +
  uploadReservations :: "upload_reservation jsmap"

record upload_create_input =
  uc_orgId :: string
  uc_tenantId :: string
  uc_userId :: string
  uc_sessionId :: string
  uc_artifactId :: string
  uc_objectKey :: string
  uc_stagingObjectKey :: "string option"
  uc_finalObjectKey :: "string option"
  uc_filename :: string
  uc_contentType :: "string option"
  uc_checksumSha256 :: "string option"
  uc_publication :: "publication option"
  uc_reservedBytes :: jsnum
  uc_expiresAt :: iso
  uc_quota :: "usage_quota_input option"
  uc_createdAt :: "iso option"

text \<open>The four parts of a reservation's identity.\<close>

record upload_id =
  ui_orgId :: string
  ui_tenantId :: string
  ui_sessionId :: string
  ui_artifactId :: string

record upload_claim_input =
  uk_id :: upload_id
  uk_claimOwner :: string
  uk_claimToken :: string
  uk_claimTtlMs :: int
  uk_now :: "iso option"

record upload_release_input =
  ul_id :: upload_id
  ul_claimOwner :: string
  ul_claimToken :: string
  ul_errorCode :: string
  ul_retryAt :: iso
  ul_cleanupNotBefore :: iso
  ul_maxAttempts :: int
  ul_cleanupOnExhaustion :: "bool option"
  ul_now :: "iso option"

text \<open>The expected finalization claim is \<open>string | null | undefined\<close>.\<close>

record upload_cleanup_input =
  un_id :: upload_id
  un_reason :: cleanup_reason
  un_claimOwner :: string
  un_claimToken :: string
  un_claimTtlMs :: int
  un_cleanupNotBefore :: "iso option"
  un_expectedOwner :: "string option option"
  un_expectedToken :: "string option option"
  un_now :: "iso option"

record upload_reconcile_input =
  uz_claimOwner :: string
  uz_claimToken :: string
  uz_claimTtlMs :: int
  uz_limit :: int
  uz_now :: "iso option"


section \<open>Publication metadata\<close>

definition ARTIFACT_STATUSES :: "string list" where
  "ARTIFACT_STATUSES = [''draft'', ''in-review'', ''final'']"

definition ARTIFACT_KINDS :: "string list" where
  "ARTIFACT_KINDS = [''document'', ''chart'', ''deck'', ''spreadsheet'', ''draft'']"

definition EMPTY_PUBLICATION :: publication where
  "EMPTY_PUBLICATION = \<lparr> pb_kind = ''draft'', pb_artifactStatus = ''draft'', pb_authorAgentId = None, pb_projectId = None,
     pb_taskId = None, pb_statusUpdatedBy = None, pb_statusUpdatedAt = None \<rparr>"

definition publication_invalid :: error where
  "publication_invalid = Error ''Artifact upload publication metadata is invalid.''"

definition boundedNullableString :: "string option \<Rightarrow> error + string option" where
  "boundedNullableString value =
     (case or_null value of
        None \<Rightarrow> Inr None
      | Some v \<Rightarrow> if js_trim v = [] then Inr None
          else if utf8_length (js_trim v) > 512 then Inl publication_invalid else Inr (Some (js_trim v)))"

definition ascii_digit :: "char \<Rightarrow> bool" where
  "ascii_digit c = (48 \<le> (of_char c :: nat) \<and> (of_char c :: nat) \<le> 57)"

text \<open>A pattern of digits (\<open>None\<close>) and literal characters, matched at the start of a string.\<close>

fun match_shape :: "char option list \<Rightarrow> string \<Rightarrow> string option" where
  "match_shape [] t = Some t"
| "match_shape (p # ps) [] = None"
| "match_shape (p # ps) (c # cs) =
     (if (case p of None \<Rightarrow> ascii_digit c | Some l \<Rightarrow> c = l) then match_shape ps cs else None)"

definition digits_value :: "string \<Rightarrow> nat" where
  "digits_value t = foldl (\<lambda>n c. 10 * n + (of_char c - 48)) 0 t"

definition date_shape :: "char option list" where
  "date_shape = [None, None, None, None, Some CHR ''-'', None, None, Some CHR ''-'', None, None, Some CHR ''T'',
     None, None, Some CHR '':'', None, None, Some CHR '':'', None, None]"

definition offset_shape :: "char option list" where
  "offset_shape = [None, None, Some CHR '':'', None, None]"

definition zone_text :: "string \<Rightarrow> bool" where
  "zone_text z =
     (z = ''Z'' \<or> (z \<noteq> [] \<and> (hd z = CHR ''+'' \<or> hd z = CHR ''-'') \<and> match_shape offset_shape (tl z) = Some []))"

definition drop_fraction :: "string \<Rightarrow> string list" where
  "drop_fraction t =
     (if t \<noteq> [] \<and> hd t = CHR ''.''
      then (let ds = takeWhile ascii_digit (tl t) in
            if ds \<noteq> [] \<and> length ds \<le> 3 then [drop (length ds) (tl t)] else [])
      else [t])"

text \<open>The test against \<open>isoLike\<close>.\<close>

definition isoLike :: "string \<Rightarrow> bool" where
  "isoLike t = (case match_shape date_shape t of None \<Rightarrow> False | Some rest \<Rightarrow> list_ex zone_text (drop_fraction rest))"

text \<open>\<open>Number.isFinite(Date.parse(t))\<close> for a string of that shape: every element within its bounds.\<close>

definition date_in_bounds :: "string \<Rightarrow> bool" where
  "date_in_bounds t =
     (let part = (\<lambda>i. digits_value (take 2 (drop i t)));
          h = part 11; m = part 14; sec = part 17;
          rest = drop 19 t;
          frac = (if rest \<noteq> [] \<and> hd rest = CHR ''.'' then digits_value (takeWhile ascii_digit (tl rest)) else 0);
          zone = (if rest \<noteq> [] \<and> hd rest = CHR ''.'' then dropWhile ascii_digit (tl rest) else rest)
      in 1 \<le> part 5 \<and> part 5 \<le> 12 \<and> 1 \<le> part 8 \<and> part 8 \<le> 31
         \<and> (h \<le> 23 \<or> (h = 24 \<and> m = 0 \<and> sec = 0 \<and> frac = 0)) \<and> m \<le> 59 \<and> sec \<le> 59
         \<and> (zone = ''Z'' \<or> (digits_value (take 2 (tl zone)) \<le> 23 \<and> digits_value (take 2 (drop 4 zone)) \<le> 59)))"

definition boundedNullableDate :: "string option \<Rightarrow> error + string option" where
  "boundedNullableDate value =
     try_pure (boundedNullableString value) (\<lambda>n.
       case n of None \<Rightarrow> Inr None
       | Some t \<Rightarrow> if \<not> isoLike t \<or> \<not> date_in_bounds t then Inl publication_invalid else Inr (Some t))"

definition normalizeArtifactUploadPublicationMetadata :: "publication option \<Rightarrow> error + publication" where
  "normalizeArtifactUploadPublicationMetadata value =
     (case value of
        None \<Rightarrow> Inr EMPTY_PUBLICATION
      | Some p \<Rightarrow>
          if pb_kind p \<notin> set ARTIFACT_KINDS \<or> pb_artifactStatus p \<notin> set ARTIFACT_STATUSES then Inl publication_invalid
          else try_pure (boundedNullableString (pb_authorAgentId p)) (\<lambda>a.
               try_pure (boundedNullableString (pb_projectId p)) (\<lambda>pr.
               try_pure (boundedNullableString (pb_taskId p)) (\<lambda>t.
               try_pure (boundedNullableString (pb_statusUpdatedBy p)) (\<lambda>by.
               try_pure (boundedNullableDate (pb_statusUpdatedAt p)) (\<lambda>at.
                 Inr (p\<lparr> pb_authorAgentId := a, pb_projectId := pr, pb_taskId := t, pb_statusUpdatedBy := by, pb_statusUpdatedAt := at \<rparr>)))))))"


section \<open>Operations\<close>

definition reservationKey :: "upload_id \<Rightarrow> string" where
  "reservationKey i = key [ui_orgId i, ui_tenantId i, ui_sessionId i, ui_artifactId i]"

definition put_upload :: "upload_id \<Rightarrow> upload_reservation \<Rightarrow> 'a upload_store_scheme \<Rightarrow> 'a upload_store_scheme" where
  "put_upload i r s = s\<lparr> uploadReservations := map_set (reservationKey i) r (uploadReservations s) \<rparr>"

definition find_upload :: "'a upload_store_scheme \<Rightarrow> upload_id \<Rightarrow> upload_reservation option" where
  "find_upload s i = map_get (uploadReservations s) (reservationKey i)"

definition create_id :: "upload_create_input \<Rightarrow> upload_id" where
  "create_id inp = \<lparr> ui_orgId = uc_orgId inp, ui_tenantId = uc_tenantId inp, ui_sessionId = uc_sessionId inp, ui_artifactId = uc_artifactId inp \<rparr>"

definition replay_matches :: "upload_create_input \<Rightarrow> publication \<Rightarrow> upload_reservation \<Rightarrow> bool" where
  "replay_matches inp pub r =
     (ur_userId r = uc_userId inp \<and> ur_stagingObjectKey r = or_else (uc_stagingObjectKey inp) (uc_objectKey inp)
      \<and> ur_finalObjectKey r = or_else (uc_finalObjectKey inp) (uc_objectKey inp) \<and> ur_filename r = uc_filename inp
      \<and> ur_contentType r = or_null (uc_contentType inp) \<and> ur_checksumSha256 r = or_null (uc_checksumSha256 inp)
      \<and> ur_publication r = pub)"

definition new_reservation :: "env \<Rightarrow> upload_create_input \<Rightarrow> publication \<Rightarrow> int \<Rightarrow> upload_reservation" where
  "new_reservation e inp pub bytes =
     (let now = (case uc_createdAt inp of Some t \<Rightarrow> t | None \<Rightarrow> nowIso e (Option.bind (uc_quota inp) uq_now)) in
      \<lparr> ur_orgId = uc_orgId inp, ur_tenantId = uc_tenantId inp, ur_userId = uc_userId inp, ur_sessionId = uc_sessionId inp,
        ur_artifactId = uc_artifactId inp, ur_objectKey = uc_objectKey inp,
        ur_stagingObjectKey = or_else (uc_stagingObjectKey inp) (uc_objectKey inp),
        ur_finalObjectKey = or_else (uc_finalObjectKey inp) (uc_objectKey inp),
        ur_filename = uc_filename inp, ur_contentType = or_null (uc_contentType inp), ur_checksumSha256 = or_null (uc_checksumSha256 inp),
        ur_stagingCleanedAt = None, ur_publication = pub, ur_quotaKey = map_option uq_quotaKey (uc_quota inp),
        ur_quotaWindowMs = map_option (\<lambda>q. js_int (uq_windowMs q)) (uc_quota inp),
        ur_quotaWindowStartedAtMs = map_option (\<lambda>q. windowStart (coalesce (uq_now q) now) (js_int (uq_windowMs q))) (uc_quota inp),
        ur_reservedBytes = bytes, ur_status = UReserved, ur_cleanupReason = None, ur_cleanupRequestedAt = None, ur_claimOwner = None,
        ur_claimToken = None, ur_claimExpiresAt = None, ur_cleanupAttempts = 0, ur_cleanupPasses = 0, ur_finalizationAttempts = 0,
        ur_nextCleanupAttemptAt = None, ur_lastErrorCode = None, ur_expiresAt = uc_expiresAt inp, ur_createdAt = now, ur_updatedAt = now \<rparr>)"

text \<open>Result: the reservation, if one was made, and the quota decision, if one was taken.\<close>

definition createArtifactUploadReservation ::
  "env \<Rightarrow> upload_create_input \<Rightarrow> 'a upload_store_scheme
    \<Rightarrow> ('a upload_store_scheme, upload_reservation option \<times> quota_consumption option) outcome" where
  "createArtifactUploadReservation e inp s =
     (if \<not> orgExists s (uc_orgId inp) then (Inl (Error (''Unknown org '' @ uc_orgId inp @ ''.'')), s)
      else
        try_in s (requireSession s (uc_tenantId inp) (uc_sessionId inp)) (\<lambda>_.
        try_in s (normalizeArtifactUploadPublicationMetadata (uc_publication inp)) (\<lambda>pub.
          case find_upload s (create_id inp) of
            Some existing \<Rightarrow>
              let conflict = (Inl (Error ''Artifact upload idempotency key conflicts with an existing reservation.''), s) in
              if \<not> replay_matches inp pub existing then conflict
              else try_in s (normalizeNonNegativeInteger (Some (uc_reservedBytes inp)) ''Reserved artifact bytes'') (\<lambda>bytes.
                     if ur_reservedBytes existing \<noteq> bytes then conflict else (Inr (Some existing, None), s))
          | None \<Rightarrow>
              then_do (case uc_quota inp of
                         None \<Rightarrow> (Inr None, s)
                       | Some q \<Rightarrow> then_do (consumeUsageQuota e q s) (\<lambda>r s1. (Inr (Some r), s1)))
                (\<lambda>quota s1.
                  if (case quota of Some q \<Rightarrow> \<not> qc_allowed q | None \<Rightarrow> False) then (Inr (None, quota), s1)
                  else try_in s1 (normalizeNonNegativeInteger (Some (uc_reservedBytes inp)) ''Reserved artifact bytes'') (\<lambda>bytes.
                    let r = new_reservation e inp pub bytes
                    in (Inr (Some r, quota), put_upload (create_id inp) r s1))))))"

definition getArtifactUploadReservation :: "'a upload_store_scheme \<Rightarrow> upload_id \<Rightarrow> upload_reservation option" where
  "getArtifactUploadReservation s i = find_upload s i"

definition held_by :: "string \<Rightarrow> string \<Rightarrow> upload_reservation \<Rightarrow> bool" where
  "held_by owner token r = (ur_claimOwner r = Some owner \<and> ur_claimToken r = Some token)"

definition claim_active :: "int \<Rightarrow> upload_reservation \<Rightarrow> bool" where
  "claim_active nowMs r =
     (ur_claimOwner r \<noteq> None \<and> ur_claimToken r \<noteq> None \<and> (case ur_claimExpiresAt r of Some t \<Rightarrow> t > nowMs | None \<Rightarrow> False))"

definition retry_due :: "int \<Rightarrow> upload_reservation \<Rightarrow> bool" where
  "retry_due nowMs r = (case ur_nextCleanupAttemptAt r of Some t \<Rightarrow> t \<le> nowMs | None \<Rightarrow> True)"

definition release_fields :: "iso \<Rightarrow> upload_reservation \<Rightarrow> upload_reservation" where
  "release_fields now r = r\<lparr> ur_claimOwner := None, ur_claimToken := None, ur_claimExpiresAt := None, ur_updatedAt := now \<rparr>"

definition claim_fields :: "string \<Rightarrow> string \<Rightarrow> int \<Rightarrow> iso \<Rightarrow> upload_reservation \<Rightarrow> upload_reservation" where
  "claim_fields owner token ttl now r =
     r\<lparr> ur_claimOwner := Some owner, ur_claimToken := Some token, ur_claimExpiresAt := Some (now + max 1 ttl), ur_updatedAt := now \<rparr>"

text \<open>Replacing the reservation an operation has looked up: every operation below returns null when there is none.\<close>

definition with_upload ::
  "upload_id \<Rightarrow> 'a upload_store_scheme \<Rightarrow> (upload_reservation \<Rightarrow> upload_reservation option \<times> 'a upload_store_scheme)
    \<Rightarrow> upload_reservation option \<times> 'a upload_store_scheme" where
  "with_upload i s f = (case find_upload s i of None \<Rightarrow> (None, s) | Some r \<Rightarrow> f r)"

definition claimArtifactUploadFinalization ::
  "env \<Rightarrow> upload_claim_input \<Rightarrow> 'a upload_store_scheme \<Rightarrow> upload_reservation option \<times> 'a upload_store_scheme" where
  "claimArtifactUploadFinalization e inp s =
     with_upload (uk_id inp) s (\<lambda>r.
       let nowMs = nowIso e (uk_now inp);
           sameClaim = (ur_status r = UFinalizing \<and> held_by (uk_claimOwner inp) (uk_claimToken inp) r);
           claimAvailable = (ur_status r = UReserved
             \<or> (ur_status r = UFinalizing \<and> (case ur_claimExpiresAt r of Some t \<Rightarrow> t \<le> nowMs | None \<Rightarrow> True) \<and> retry_due nowMs r))
       in if \<not> sameClaim \<and> \<not> claimAvailable then (None, s)
          else if ur_status r = UReserved \<and> ur_expiresAt r \<le> nowMs then (None, s)
          else let claimed = (claim_fields (uk_claimOwner inp) (uk_claimToken inp) (uk_claimTtlMs inp) nowMs r)
                 \<lparr> ur_status := UFinalizing, ur_lastErrorCode := None \<rparr>
               in (Some claimed, put_upload (uk_id inp) claimed s))"

definition completeArtifactUploadFinalization ::
  "env \<Rightarrow> upload_id \<Rightarrow> string \<Rightarrow> string \<Rightarrow> iso option \<Rightarrow> 'a upload_store_scheme \<Rightarrow> upload_reservation option \<times> 'a upload_store_scheme" where
  "completeArtifactUploadFinalization e i owner token nowIn s =
     with_upload i s (\<lambda>r.
       if ur_status r = UFinalized then (Some r, s)
       else if ur_status r \<noteq> UFinalizing \<or> \<not> held_by owner token r then (None, s)
       else let finalized = (release_fields (nowIso e nowIn) r)\<lparr> ur_status := UFinalized, ur_nextCleanupAttemptAt := None, ur_lastErrorCode := None \<rparr>
            in (Some finalized, put_upload i finalized s))"

definition released_upload :: "iso \<Rightarrow> upload_release_input \<Rightarrow> upload_reservation \<Rightarrow> upload_reservation" where
  "released_upload now inp r =
     (let attempts = ur_finalizationAttempts r + 1;
          exhausted = (ul_cleanupOnExhaustion inp \<noteq> Some False \<and> attempts \<ge> max 1 (ul_maxAttempts inp));
          r1 = (release_fields now r)\<lparr> ur_finalizationAttempts := attempts, ur_lastErrorCode := Some (ul_errorCode inp) \<rparr>
      in if exhausted
         then r1\<lparr> ur_status := UCleanupPending, ur_cleanupReason := Some (coalesce (ur_cleanupReason r) ReasonFailed),
                 ur_cleanupRequestedAt := Some (coalesce (ur_cleanupRequestedAt r) now),
                 ur_nextCleanupAttemptAt := Some (max now (ul_cleanupNotBefore inp)) \<rparr>
         else r1\<lparr> ur_nextCleanupAttemptAt := Some (ul_retryAt inp) \<rparr>)"

definition releaseArtifactUploadClaim ::
  "env \<Rightarrow> upload_release_input \<Rightarrow> 'a upload_store_scheme \<Rightarrow> upload_reservation option \<times> 'a upload_store_scheme" where
  "releaseArtifactUploadClaim e inp s =
     with_upload (ul_id inp) s (\<lambda>r.
       if ur_status r \<noteq> UFinalizing \<or> \<not> held_by (ul_claimOwner inp) (ul_claimToken inp) r then (Some r, s)
       else let released = released_upload (nowIso e (ul_now inp)) inp r in (Some released, put_upload (ul_id inp) released s))"

definition pending_cleanup :: "iso \<Rightarrow> upload_cleanup_input \<Rightarrow> upload_reservation \<Rightarrow> upload_reservation" where
  "pending_cleanup now inp r =
     (let r1 = r\<lparr> ur_status := UCleanupPending, ur_cleanupReason := Some (coalesce (ur_cleanupReason r) (un_reason inp)),
                 ur_cleanupRequestedAt := Some (coalesce (ur_cleanupRequestedAt r) now), ur_lastErrorCode := None \<rparr>
      in case un_cleanupNotBefore inp of
           Some t \<Rightarrow> if t > now then (release_fields now r1)\<lparr> ur_nextCleanupAttemptAt := Some t \<rparr>
                    else (claim_fields (un_claimOwner inp) (un_claimToken inp) (un_claimTtlMs inp) now r1)\<lparr> ur_nextCleanupAttemptAt := None \<rparr>
         | None \<Rightarrow> (claim_fields (un_claimOwner inp) (un_claimToken inp) (un_claimTtlMs inp) now r1)\<lparr> ur_nextCleanupAttemptAt := None \<rparr>)"

definition requestArtifactUploadCleanup ::
  "env \<Rightarrow> upload_cleanup_input \<Rightarrow> 'a upload_store_scheme \<Rightarrow> upload_reservation option \<times> 'a upload_store_scheme" where
  "requestArtifactUploadCleanup e inp s =
     with_upload (un_id inp) s (\<lambda>r.
       let now = nowIso e (un_now inp) in
       if ur_status r = UCleaned \<or> ur_status r = UFinalized then (Some r, s)
       else if ur_status r = UCleanupPending \<and> (held_by (un_claimOwner inp) (un_claimToken inp) r \<or> claim_active now r \<or> \<not> retry_due now r)
       then (Some r, s)
       else if ur_status r = UFinalizing \<and> (Some (ur_claimOwner r) \<noteq> un_expectedOwner inp \<or> Some (ur_claimToken r) \<noteq> un_expectedToken inp)
       then (None, s)
       else let pending = pending_cleanup now inp r in (Some pending, put_upload (un_id inp) pending s))"

definition deferArtifactUploadCleanup ::
  "env \<Rightarrow> upload_id \<Rightarrow> string \<Rightarrow> string \<Rightarrow> iso \<Rightarrow> iso option \<Rightarrow> 'a upload_store_scheme \<Rightarrow> upload_reservation option \<times> 'a upload_store_scheme" where
  "deferArtifactUploadCleanup e i owner token retryAt nowIn s =
     with_upload i s (\<lambda>r.
       if ur_status r \<noteq> UCleanupPending \<and> ur_status r \<noteq> UFinalized then (None, s)
       else if \<not> held_by owner token r then (None, s)
       else let deferred = (release_fields (nowIso e nowIn) r)\<lparr> ur_cleanupPasses := ur_cleanupPasses r + 1,
                  ur_nextCleanupAttemptAt := Some retryAt, ur_lastErrorCode := None \<rparr>
            in (Some deferred, put_upload i deferred s))"

definition completeArtifactUploadCleanup ::
  "env \<Rightarrow> upload_id \<Rightarrow> string \<Rightarrow> string \<Rightarrow> iso option \<Rightarrow> 'a upload_store_scheme
    \<Rightarrow> ('a upload_store_scheme, upload_reservation option) outcome" where
  "completeArtifactUploadCleanup e i owner token nowIn s =
     (case find_upload s i of
        None \<Rightarrow> (Inr None, s)
      | Some r \<Rightarrow>
          let done = (release_fields (nowIso e nowIn) r)\<lparr> ur_nextCleanupAttemptAt := None, ur_lastErrorCode := None \<rparr> in
          if ur_status r = UCleaned then (Inr (Some r), s)
          else if ur_status r \<noteq> UCleanupPending \<and> ur_status r \<noteq> UFinalized then (Inr None, s)
          else if \<not> held_by owner token r then (Inr None, s)
          else if ur_cleanupPasses r < 1 then (Inr None, s)
          else if ur_status r = UFinalized
          then (let stagingCleaned = done\<lparr> ur_stagingCleanedAt := Some (nowIso e nowIn) \<rparr>
                in (Inr (Some stagingCleaned), put_upload i stagingCleaned s))
          else
            then_do (case (or_null (ur_quotaKey r), ur_quotaWindowStartedAtMs r) of
                       (Some q, Some w) \<Rightarrow> adjustUsageQuota (ur_orgId r) q w (JInt (- ur_reservedBytes r)) s
                     | _ \<Rightarrow> (Inr (), s))
              (\<lambda>_ s1. let cleaned = done\<lparr> ur_status := UCleaned \<rparr> in (Inr (Some cleaned), put_upload i cleaned s1)))"

definition failArtifactUploadCleanup ::
  "env \<Rightarrow> upload_id \<Rightarrow> string \<Rightarrow> string \<Rightarrow> string \<Rightarrow> iso \<Rightarrow> iso option \<Rightarrow> 'a upload_store_scheme
    \<Rightarrow> upload_reservation option \<times> 'a upload_store_scheme" where
  "failArtifactUploadCleanup e i owner token errorCode retryAt nowIn s =
     with_upload i s (\<lambda>r.
       if ur_status r \<noteq> UCleanupPending \<and> ur_status r \<noteq> UFinalized then (Some r, s)
       else if \<not> held_by owner token r then (Some r, s)
       else let failed = (release_fields (nowIso e nowIn) r)\<lparr> ur_cleanupAttempts := ur_cleanupAttempts r + 1,
                  ur_nextCleanupAttemptAt := Some retryAt, ur_lastErrorCode := Some errorCode \<rparr>
            in (Some failed, put_upload i failed s))"

text \<open>What the reconciler does with one reservation.\<close>

definition reconcile_one :: "upload_reconcile_input \<Rightarrow> int \<Rightarrow> upload_reservation \<Rightarrow> (reconcile_action \<times> upload_reservation) option" where
  "reconcile_one inp nowMs r =
     (let claimed = claim_fields (uz_claimOwner inp) (uz_claimToken inp) (uz_claimTtlMs inp) nowMs r in
      case ur_status r of
        UCleanupPending \<Rightarrow> if claim_active nowMs r \<or> \<not> retry_due nowMs r then None else Some (ActCleanup, claimed)
      | UFinalized \<Rightarrow>
          if ur_stagingCleanedAt r \<noteq> None \<or> \<not> ur_expiresAt r \<le> nowMs \<or> claim_active nowMs r \<or> \<not> retry_due nowMs r then None
          else Some (ActCleanupStaging, claimed)
      | UReserved \<Rightarrow> if \<not> ur_expiresAt r \<le> nowMs then None else Some (ActFinalize, claimed\<lparr> ur_status := UFinalizing \<rparr>)
      | UFinalizing \<Rightarrow> if claim_active nowMs r \<or> \<not> retry_due nowMs r then None else Some (ActFinalize, claimed\<lparr> ur_status := UFinalizing \<rparr>)
      | UCleaned \<Rightarrow> None)"

fun reconcile ::
  "upload_reconcile_input \<Rightarrow> int \<Rightarrow> nat \<Rightarrow> (string \<times> upload_reservation) list \<Rightarrow> 'a upload_store_scheme
    \<Rightarrow> (reconcile_action \<times> upload_reservation) list \<times> 'a upload_store_scheme" where
  "reconcile inp nowMs 0 rs s = ([], s)"
| "reconcile inp nowMs (Suc n) [] s = ([], s)"
| "reconcile inp nowMs (Suc n) ((k, r) # rs) s =
     (case reconcile_one inp nowMs r of
        None \<Rightarrow> reconcile inp nowMs (Suc n) rs s
      | Some (a, r') \<Rightarrow>
          (let (claims, s') = reconcile inp nowMs n rs (s\<lparr> uploadReservations := map_set k r' (uploadReservations s) \<rparr>)
           in ((a, r') # claims, s')))"

definition claimArtifactUploadReconciliation ::
  "env \<Rightarrow> upload_reconcile_input \<Rightarrow> 'a upload_store_scheme \<Rightarrow> (reconcile_action \<times> upload_reservation) list \<times> 'a upload_store_scheme" where
  "claimArtifactUploadReconciliation e inp s =
     reconcile inp (nowIso e (uz_now inp)) (nat (uz_limit inp)) (js_sort (cmp_by fst (locale_compare e)) (uploadReservations s)) s"

definition MAX_SAFE_INTEGER :: int where
  "MAX_SAFE_INTEGER = 9007199254740991"

definition pending_at :: "int \<Rightarrow> upload_reservation \<Rightarrow> iso option" where
  "pending_at nowMs r =
     (if ur_status r = UCleanupPending then Some (coalesce (ur_cleanupRequestedAt r) (ur_updatedAt r))
      else if ur_expiresAt r \<le> nowMs \<and> (ur_status r = UReserved \<or> ur_status r = UFinalizing \<or> (ur_status r = UFinalized \<and> ur_stagingCleanedAt r = None))
      then Some (ur_expiresAt r) else None)"

text \<open>Result: pending count, age of the oldest.\<close>

definition getArtifactUploadReconciliationStats :: "int \<Rightarrow> 'a upload_store_scheme \<Rightarrow> int \<times> int" where
  "getArtifactUploadReconciliationStats nowMs s =
     (case List.map_filter (pending_at nowMs) (map_values (uploadReservations s)) of
        [] \<Rightarrow> (0, 0)
      | t # ts \<Rightarrow> (min MAX_SAFE_INTEGER (int (length (t # ts))), min MAX_SAFE_INTEGER (max 0 (nowMs - foldl min t ts))))"

definition prunable :: "iso \<Rightarrow> upload_reservation \<Rightarrow> bool" where
  "prunable cutoff r =
     (ur_updatedAt r < cutoff \<and> (ur_status r = UCleaned \<or> (ur_status r = UFinalized \<and> ur_stagingCleanedAt r \<noteq> None)))"

definition pruneArtifactUploadReservations :: "env \<Rightarrow> iso \<Rightarrow> int \<Rightarrow> 'a upload_store_scheme \<Rightarrow> int \<times> 'a upload_store_scheme" where
  "pruneArtifactUploadReservations e cutoff limitIn s =
     (let limit = min 1000 (max 0 limitIn);
          terminal = take (nat limit) (js_sort (cmp_then (cmp_by (\<lambda>p. ur_updatedAt (snd p)) cmp_int) (cmp_by fst (locale_compare e)))
            (filter (\<lambda>p. prunable cutoff (snd p)) (uploadReservations s)))
      in (int (length terminal), s\<lparr> uploadReservations := fold map_delete (map fst terminal) (uploadReservations s) \<rparr>))"

end
