(* ===== verification/Upload_Lifecycle.thy ===== *)
theory Upload_Lifecycle
  imports Artifact_Uploads
begin

text \<open>
  The lifecycle of an upload reservation. \<open>upload_edge\<close> is the specification: which status may follow
  which. \<open>upload_le\<close> says that a reservation object evolves along it, keeping what was agreed at
  creation; \<open>upload_inv\<close> is the well-formedness of claims and clean-up bookkeeping. Every operation
  implements the specification, for any order of creators, finalizers and reconcilers.
\<close>


section \<open>Specification\<close>

fun upload_edge :: "upload_status \<Rightarrow> upload_status \<Rightarrow> bool" where
  "upload_edge UReserved b = (b \<in> {UReserved, UFinalizing, UCleanupPending})"
| "upload_edge UFinalizing b = (b \<in> {UFinalizing, UFinalized, UCleanupPending})"
| "upload_edge UCleanupPending b = (b \<in> {UCleanupPending, UCleaned})"
| "upload_edge UFinalized b = (b = UFinalized)"
| "upload_edge UCleaned b = (b = UCleaned)"

text \<open>What is agreed when the reservation is made.\<close>

definition upload_terms where
  "upload_terms r =
     ((ur_orgId r, ur_tenantId r, ur_userId r, ur_sessionId r, ur_artifactId r, ur_objectKey r, ur_stagingObjectKey r, ur_finalObjectKey r),
      (ur_filename r, ur_contentType r, ur_checksumSha256 r, ur_publication r, ur_quotaKey r, ur_quotaWindowMs r, ur_quotaWindowStartedAtMs r,
       ur_reservedBytes r, ur_expiresAt r, ur_createdAt r))"

definition upload_le :: "upload_reservation \<Rightarrow> upload_reservation \<Rightarrow> bool" where
  "upload_le r r' =
     (upload_terms r' = upload_terms r \<and> upload_edge (ur_status r) (ur_status r')
      \<and> ur_cleanupPasses r \<le> ur_cleanupPasses r' \<and> ur_cleanupAttempts r \<le> ur_cleanupAttempts r'
      \<and> ur_finalizationAttempts r \<le> ur_finalizationAttempts r' \<and> (ur_status r = UCleaned \<longrightarrow> r' = r)
      \<and> (ur_stagingCleanedAt r \<noteq> None \<longrightarrow> ur_stagingCleanedAt r' \<noteq> None))"

definition upload_inv :: "upload_reservation \<Rightarrow> bool" where
  "upload_inv r =
     ((ur_claimOwner r = None) = (ur_claimToken r = None) \<and> (ur_claimOwner r = None) = (ur_claimExpiresAt r = None)
      \<and> (ur_status r = UReserved \<longrightarrow> ur_claimOwner r = None)
      \<and> (ur_status r = UCleaned \<longrightarrow> 1 \<le> ur_cleanupPasses r \<and> ur_claimOwner r = None)
      \<and> (ur_status r = UCleanupPending \<or> ur_status r = UCleaned \<longrightarrow> ur_cleanupReason r \<noteq> None \<and> ur_cleanupRequestedAt r \<noteq> None)
      \<and> (ur_stagingCleanedAt r \<noteq> None \<longrightarrow> ur_status r = UFinalized \<and> 1 \<le> ur_cleanupPasses r)
      \<and> 0 \<le> ur_cleanupPasses r \<and> 0 \<le> ur_reservedBytes r)"

definition upload_moves :: "upload_reservation \<Rightarrow> upload_reservation \<Rightarrow> bool" where
  "upload_moves r r' = (upload_le r r' \<and> (upload_inv r \<longrightarrow> upload_inv r'))"


section \<open>Laws of the specification\<close>

lemma upload_edge_refl [simp]: "upload_edge a a"
  by (cases a) simp_all

lemma edges_from_final: "upload_edge UFinalized b \<Longrightarrow> b = UFinalized"
  by simp

lemma upload_le_refl [simp]: "upload_le r r"
  by (simp add: upload_le_def)

lemma upload_moves_refl [simp]: "upload_moves r r"
  by (simp add: upload_moves_def)

lemmas upload_step_defs = upload_moves_def upload_le_def upload_inv_def upload_terms_def claim_fields_def release_fields_def

text \<open>The updates the operations make.\<close>

lemma claim_finalization_moves:
  assumes "ur_status r = UReserved \<or> ur_status r = UFinalizing"
  shows "upload_moves r ((claim_fields ow tk ttl now r)\<lparr> ur_status := UFinalizing, ur_lastErrorCode := x \<rparr>)"
  using assms by (auto simp: upload_step_defs)

lemma claim_cleanup_moves:
  assumes "ur_status r = UCleanupPending \<or> ur_status r = UFinalized"
  shows "upload_moves r (claim_fields ow tk ttl now r)"
  using assms by (auto simp: upload_step_defs)

lemma reconcile_one_moves:
  assumes "reconcile_one inp now r = Some (a, r')"
  shows "upload_moves r r' \<and> held_by (uz_claimOwner inp) (uz_claimToken inp) r' \<and> claim_active now r'"
proof -
  have fin: "upload_moves r ((claim_fields ow tk ttl now r)\<lparr> ur_status := UFinalizing \<rparr>)" if "ur_status r = UReserved \<or> ur_status r = UFinalizing" for ow tk ttl
    using that by (auto simp: upload_step_defs)
  show ?thesis using assms claim_cleanup_moves [of r] fin
    by (auto simp: reconcile_one_def Let_def held_by_def claim_active_def claim_fields_def split: upload_status.splits if_splits)
qed

lemma finalized_moves:
  assumes "ur_status r = UFinalizing"
  shows "upload_moves r ((release_fields now r)\<lparr> ur_status := UFinalized, ur_nextCleanupAttemptAt := None, ur_lastErrorCode := None \<rparr>)"
  using assms by (auto simp: upload_step_defs)

lemma released_moves:
  assumes "ur_status r = UFinalizing"
  shows "upload_moves r (released_upload now inp r)"
  using assms by (auto simp: upload_step_defs released_upload_def Let_def)

lemma pending_cleanup_moves:
  assumes "ur_status r \<in> {UReserved, UFinalizing, UCleanupPending}"
  shows "upload_moves r (pending_cleanup now inp r)"
  using assms by (auto simp: upload_step_defs pending_cleanup_def Let_def split: option.splits)

lemma release_moves:
  assumes "ur_status r = UCleanupPending \<or> ur_status r = UFinalized" "ur_cleanupPasses r \<le> p" "ur_cleanupAttempts r \<le> a"
  shows "upload_moves r ((release_fields now r)\<lparr> ur_cleanupPasses := p, ur_cleanupAttempts := a, ur_nextCleanupAttemptAt := n, ur_lastErrorCode := x \<rparr>)"
  using assms by (auto simp: upload_step_defs)

lemma staging_cleaned_moves:
  assumes "ur_status r = UFinalized" "\<not> ur_cleanupPasses r < 1"
  shows "upload_moves r ((release_fields now r)\<lparr> ur_nextCleanupAttemptAt := None, ur_lastErrorCode := None, ur_stagingCleanedAt := Some n \<rparr>)"
  using assms by (auto simp: upload_step_defs)

lemma cleaned_moves:
  assumes "ur_status r = UCleanupPending" "\<not> ur_cleanupPasses r < 1"
  shows "upload_moves r ((release_fields now r)\<lparr> ur_nextCleanupAttemptAt := None, ur_lastErrorCode := None, ur_status := UCleaned \<rparr>)"
  using assms by (auto simp: upload_step_defs)


section \<open>Every operation moves reservations along the specification\<close>

text \<open>Reservations are kept and move; new ones are fresh and well formed; only prunable ones disappear.\<close>

definition uploads_move :: "'a upload_store_scheme \<Rightarrow> 'b upload_store_scheme \<Rightarrow> bool" where
  "uploads_move s s' =
     ((map_ok (uploadReservations s) \<longrightarrow> map_ok (uploadReservations s'))
      \<and> (\<forall>k r. map_get (uploadReservations s) k = Some r \<longrightarrow>
           (case map_get (uploadReservations s') k of Some r' \<Rightarrow> upload_moves r r' | None \<Rightarrow> ur_status r = UCleaned \<or> ur_status r = UFinalized))
      \<and> (\<forall>k r'. map_get (uploadReservations s) k = None \<longrightarrow> map_get (uploadReservations s') k = Some r' \<longrightarrow>
           ur_status r' = UReserved \<and> upload_inv r'))"

definition uploads_ok :: "'a upload_store_scheme \<Rightarrow> bool" where
  "uploads_ok s = (map_ok (uploadReservations s) \<and> (\<forall>k r. map_get (uploadReservations s) k = Some r \<longrightarrow> upload_inv r))"

lemma uploads_move_same: "uploadReservations s' = uploadReservations s \<Longrightarrow> uploads_move s s'"
  by (auto simp: uploads_move_def split: option.splits)

lemma uploads_move_put:
  assumes "find_upload s i = Some r" "upload_moves r r'" "uploadReservations s1 = uploadReservations s"
  shows "uploads_move s (put_upload i r' s1)"
  using assms by (auto simp: uploads_move_def find_upload_def put_upload_def split: option.splits)

lemma uploads_move_ok: "uploads_move s s' \<Longrightarrow> uploads_ok s \<Longrightarrow> uploads_ok s'"
proof -
  assume m: "uploads_move s s'" and ok: "uploads_ok s"
  have "upload_inv r'" if "map_get (uploadReservations s') k = Some r'" for k r'
  proof (cases "map_get (uploadReservations s) k")
    case None
    then show ?thesis using m that by (auto simp: uploads_move_def)
  next
    case (Some r)
    then have "upload_moves r r'" "upload_inv r" using m ok that by (fastforce simp: uploads_move_def uploads_ok_def)+
    then show ?thesis by (simp add: upload_moves_def)
  qed
  then show ?thesis using m ok by (simp add: uploads_ok_def uploads_move_def)
qed

lemma claimArtifactUploadFinalization_move:
  assumes "claimArtifactUploadFinalization e inp s = (x, s')"
  shows "uploads_move s s'"
proof (cases "find_upload s (uk_id inp)")
  case (Some r)
  show ?thesis using assms
    by (auto simp: claimArtifactUploadFinalization_def with_upload_def Some Let_def uploads_move_same split: if_splits
        intro!: uploads_move_put [OF Some] claim_finalization_moves)
qed (use assms in \<open>simp add: claimArtifactUploadFinalization_def with_upload_def uploads_move_same\<close>)

lemma completeArtifactUploadFinalization_move:
  assumes "completeArtifactUploadFinalization e i ow tk now s = (x, s')"
  shows "uploads_move s s'"
proof (cases "find_upload s i")
  case (Some r)
  show ?thesis using assms
    by (auto simp: completeArtifactUploadFinalization_def with_upload_def Some Let_def uploads_move_same split: if_splits
        intro!: uploads_move_put [OF Some] finalized_moves)
qed (use assms in \<open>simp add: completeArtifactUploadFinalization_def with_upload_def uploads_move_same\<close>)

lemma releaseArtifactUploadClaim_move:
  assumes "releaseArtifactUploadClaim e inp s = (x, s')"
  shows "uploads_move s s'"
proof (cases "find_upload s (ul_id inp)")
  case (Some r)
  show ?thesis using assms
    by (auto simp: releaseArtifactUploadClaim_def with_upload_def Some Let_def uploads_move_same split: if_splits
        intro!: uploads_move_put [OF Some] released_moves)
qed (use assms in \<open>simp add: releaseArtifactUploadClaim_def with_upload_def uploads_move_same\<close>)

lemma requestArtifactUploadCleanup_move:
  assumes "requestArtifactUploadCleanup e inp s = (x, s')"
  shows "uploads_move s s'"
proof (cases "find_upload s (un_id inp)")
  case (Some r)
  consider "s' = s" | "ur_status r \<in> {UReserved, UFinalizing, UCleanupPending}" "s' = put_upload (un_id inp) (pending_cleanup (nowIso e (un_now inp)) inp r) s"
    using assms by (cases "ur_status r") (auto simp: requestArtifactUploadCleanup_def with_upload_def Some Let_def split: if_splits)
  then show ?thesis by cases (auto simp: uploads_move_same intro!: uploads_move_put [OF Some] pending_cleanup_moves)
qed (use assms in \<open>simp add: requestArtifactUploadCleanup_def with_upload_def uploads_move_same\<close>)

lemma deferArtifactUploadCleanup_move:
  assumes "deferArtifactUploadCleanup e i ow tk retry now s = (x, s')"
  shows "uploads_move s s'"
proof (cases "find_upload s i")
  case (Some r)
  show ?thesis using assms release_moves [of r "ur_cleanupPasses r + 1" "ur_cleanupAttempts r", where n = "Some retry" and x = None]
    by (auto simp: deferArtifactUploadCleanup_def with_upload_def Some Let_def uploads_move_same release_fields_def split: if_splits
        intro!: uploads_move_put [OF Some])
qed (use assms in \<open>simp add: deferArtifactUploadCleanup_def with_upload_def uploads_move_same\<close>)

lemma failArtifactUploadCleanup_move:
  assumes "failArtifactUploadCleanup e i ow tk code retry now s = (x, s')"
  shows "uploads_move s s'"
proof (cases "find_upload s i")
  case (Some r)
  show ?thesis using assms release_moves [of r "ur_cleanupPasses r" "ur_cleanupAttempts r + 1", where n = "Some retry" and x = "Some code"]
    by (auto simp: failArtifactUploadCleanup_def with_upload_def Some Let_def uploads_move_same release_fields_def split: if_splits
        intro!: uploads_move_put [OF Some])
qed (use assms in \<open>simp add: failArtifactUploadCleanup_def with_upload_def uploads_move_same\<close>)

lemma completeArtifactUploadCleanup_cases:
  assumes "completeArtifactUploadCleanup e i ow tk now s = (x, s')"
  obtains (same) "uploadReservations s' = uploadReservations s" "\<forall>r. x = Inr (Some r) \<longrightarrow> ur_status r = UCleaned \<and> s' = s"
  | (staging) r where "find_upload s i = Some r" "ur_status r = UFinalized" "\<not> ur_cleanupPasses r < 1"
      "s' = put_upload i ((release_fields (nowIso e now) r)\<lparr> ur_nextCleanupAttemptAt := None, ur_lastErrorCode := None, ur_stagingCleanedAt := Some (nowIso e now) \<rparr>) s"
  | (cleaned) r s1 where "find_upload s i = Some r" "ur_status r = UCleanupPending" "held_by ow tk r" "\<not> ur_cleanupPasses r < 1"
      "(case (or_null (ur_quotaKey r), ur_quotaWindowStartedAtMs r) of
          (Some q, Some w) \<Rightarrow> adjustUsageQuota (ur_orgId r) q w (JInt (- ur_reservedBytes r)) s | _ \<Rightarrow> (Inr (), s)) = (Inr (), s1)"
      "s' = put_upload i ((release_fields (nowIso e now) r)\<lparr> ur_nextCleanupAttemptAt := None, ur_lastErrorCode := None, ur_status := UCleaned \<rparr>) s1"
proof (cases "find_upload s i")
  case None
  then show thesis using assms same by (auto simp: completeArtifactUploadCleanup_def)
next
  case (Some r)
  define q where "q = (case (or_null (ur_quotaKey r), ur_quotaWindowStartedAtMs r) of
          (Some q, Some w) \<Rightarrow> adjustUsageQuota (ur_orgId r) q w (JInt (- ur_reservedBytes r)) s | _ \<Rightarrow> (Inr (), s))"
  obtain qr s1 where q1: "q = (qr, s1)" by fastforce
  have q_up: "uploadReservations s1 = uploadReservations s"
    using q1 by (auto simp: q_def split: option.splits elim: adjustUsageQuota_effect)
  note eq = assms [unfolded completeArtifactUploadCleanup_def Some option.case Let_def q_def [symmetric]]
  show thesis
  proof (cases "ur_status r = UCleaned \<or> (ur_status r \<noteq> UCleanupPending \<and> ur_status r \<noteq> UFinalized) \<or> \<not> held_by ow tk r \<or> ur_cleanupPasses r < 1")
    case True
    then show thesis using eq same by (auto split: if_splits)
  next
    case False
    show thesis
    proof (cases "ur_status r = UFinalized")
      case True
      then show thesis using False eq by (intro staging [OF Some True]) auto
    next
      case nf: False
      show thesis
      proof (cases qr)
        case (Inl er)
        then show thesis using False nf eq q1 q_up same by (auto simp: then_do_def)
      next
        case (Inr u)
        have "s' = put_upload i ((release_fields (nowIso e now) r)\<lparr> ur_nextCleanupAttemptAt := None, ur_lastErrorCode := None, ur_status := UCleaned \<rparr>) s1"
          using False nf eq q1 Inr by (simp add: then_do_def)
        then show thesis using False nf q1 Inr by (intro cleaned [OF Some _ _ _ q_def [symmetric, unfolded q1, THEN trans]]) auto
      qed
    qed
  qed
qed

lemma completeArtifactUploadCleanup_move:
  assumes "completeArtifactUploadCleanup e i ow tk now s = (x, s')"
  shows "uploads_move s s'"
  using assms
proof (cases rule: completeArtifactUploadCleanup_cases)
  case (staging r)
  then show ?thesis by (auto intro: uploads_move_put [OF staging(1)] staging_cleaned_moves)
next
  case (cleaned r s1)
  have "uploadReservations s1 = uploadReservations s"
    using cleaned(5) by (auto split: option.splits elim: adjustUsageQuota_effect)
  then show ?thesis unfolding cleaned(6) by (intro uploads_move_put [OF cleaned(1)] cleaned_moves cleaned(2,4))
qed (simp add: uploads_move_same)

lemma uploads_move_trans_at:
  assumes "uploads_move s1 s'" "map_get (uploadReservations s) k = Some r" "upload_moves r r'"
    "uploadReservations s1 = map_set k r' (uploadReservations s)" "map_get (uploadReservations s') k = Some r'"
  shows "uploads_move s s'"
  unfolding uploads_move_def
proof (intro conjI allI impI)
  show "map_ok (uploadReservations s) \<Longrightarrow> map_ok (uploadReservations s')" using assms(1,4) by (simp add: uploads_move_def)
  fix j q
  assume "map_get (uploadReservations s) j = Some q"
  then show "case map_get (uploadReservations s') j of Some r' \<Rightarrow> upload_moves q r' | None \<Rightarrow> ur_status q = UCleaned \<or> ur_status q = UFinalized"
    using assms by (cases "j = k") (simp_all add: uploads_move_def)
next
  fix j q
  assume "map_get (uploadReservations s) j = None" "map_get (uploadReservations s') j = Some q"
  moreover from this have "map_get (uploadReservations s1) j = None" using assms(2,4) by auto
  ultimately show "ur_status q = UReserved" "upload_inv q" using assms(1) unfolding uploads_move_def by blast+
qed

text \<open>The reconciler: at most the limit, each reservation once, each claim handed to the caller.\<close>

lemma reconcile_moves:
  assumes "reconcile inp now n rs s = (cs, s')" "distinct (map fst rs)" "\<forall>(k, r) \<in> set rs. map_get (uploadReservations s) k = Some r"
  shows "uploads_move s s' \<and> length cs \<le> n
     \<and> (\<forall>c \<in> set cs. held_by (uz_claimOwner inp) (uz_claimToken inp) (snd c) \<and> claim_active now (snd c)
          \<and> (\<exists>(k, r) \<in> set rs. reconcile_one inp now r = Some c \<and> map_get (uploadReservations s') k = Some (snd c)))
     \<and> (\<forall>k. k \<notin> fst ` set rs \<longrightarrow> map_get (uploadReservations s') k = map_get (uploadReservations s) k)"
  using assms
proof (induction inp now n rs s arbitrary: cs rule: reconcile.induct)
  case (3 inp now n k r rs s)
  show ?case
  proof (cases "reconcile_one inp now r")
    case None
    then show ?thesis using "3.IH"(1) [OF None] "3.prems" by (auto simp: case_prod_unfold)
  next
    case (Some ar)
    obtain a r' where ar: "ar = (a, r')" by fastforce
    define s1 where "s1 = s\<lparr> uploadReservations := map_set k r' (uploadReservations s) \<rparr>"
    obtain cs1 where rec: "reconcile inp now n rs s1 = (cs1, s')" and out: "cs = (a, r') # cs1"
      using "3.prems"(1) Some ar by (auto simp: s1_def split: prod.splits)
    have k: "k \<notin> fst ` set rs" using "3.prems"(2) by (simp add: image_iff)
    have pre: "\<forall>(k, r) \<in> set rs. map_get (uploadReservations s1) k = Some r" using "3.prems"(3) k by (force simp: s1_def)
    have ih: "uploads_move s1 s' \<and> length cs1 \<le> n
     \<and> (\<forall>c \<in> set cs1. held_by (uz_claimOwner inp) (uz_claimToken inp) (snd c) \<and> claim_active now (snd c)
          \<and> (\<exists>(k, r) \<in> set rs. reconcile_one inp now r = Some c \<and> map_get (uploadReservations s') k = Some (snd c)))
     \<and> (\<forall>k. k \<notin> fst ` set rs \<longrightarrow> map_get (uploadReservations s') k = map_get (uploadReservations s1) k)"
      using "3.IH"(2) [OF Some ar [symmetric] rec [unfolded s1_def]] pre "3.prems"(2) by (simp add: s1_def)
    note mv = reconcile_one_moves [OF Some [unfolded ar]]
    have at_k: "map_get (uploadReservations s') k = Some r'" using ih k by (simp add: s1_def)
    have get: "map_get (uploadReservations s) k = Some r" using "3.prems"(3) by simp
    have "uploads_move s s'" by (rule uploads_move_trans_at [of s1, OF _ get _ _ at_k]) (use ih mv in \<open>simp_all add: s1_def\<close>)
    moreover have "\<forall>j. j \<notin> fst ` set ((k, r) # rs) \<longrightarrow> map_get (uploadReservations s') j = map_get (uploadReservations s) j"
      using ih by (auto simp: s1_def)
    moreover have "\<forall>c \<in> set cs. held_by (uz_claimOwner inp) (uz_claimToken inp) (snd c) \<and> claim_active now (snd c)
          \<and> (\<exists>(k, r) \<in> set ((k, r) # rs). reconcile_one inp now r = Some c \<and> map_get (uploadReservations s') k = Some (snd c))"
      using ih mv at_k Some ar out by auto
    ultimately show ?thesis using ih out by auto
  qed
qed (simp_all add: uploads_move_same)

lemma claimArtifactUploadReconciliation_effect:
  assumes "claimArtifactUploadReconciliation e inp s = (cs, s')" "map_ok (uploadReservations s)"
  shows "uploads_move s s' \<and> length cs \<le> nat (uz_limit inp)
     \<and> (\<forall>c \<in> set cs. held_by (uz_claimOwner inp) (uz_claimToken inp) (snd c) \<and> claim_active (nowIso e (uz_now inp)) (snd c)
          \<and> (\<exists>(k, r) \<in> set (uploadReservations s). reconcile_one inp (nowIso e (uz_now inp)) r = Some c
               \<and> map_get (uploadReservations s') k = Some (snd c)))"
proof -
  define rs where "rs = js_sort (cmp_by fst (locale_compare e)) (uploadReservations s)"
  have "reconcile inp (nowIso e (uz_now inp)) (nat (uz_limit inp)) rs s = (cs, s')"
    using assms(1) by (simp add: claimArtifactUploadReconciliation_def rs_def)
  moreover have "distinct (map fst rs)" using assms(2) by (simp add: rs_def map_ok_def)
  moreover have sub: "set rs = set (uploadReservations s)" by (simp add: rs_def)
  moreover have "\<forall>(k, r) \<in> set rs. map_get (uploadReservations s) k = Some r" using assms(2) sub by (auto simp: map_get_iff)
  ultimately show ?thesis using reconcile_moves [of inp _ _ rs s cs s'] by simp
qed

text \<open>Creation: a fresh reservation, or nothing new.\<close>

lemma consume_uploads:
  fixes s :: "'a upload_store_scheme"
  assumes "consumeUsageQuota e q s = (r, s')"
  shows "uploadReservations s' = uploadReservations s"
  using assms by (cases rule: consumeUsageQuota_cases) simp_all

lemma createArtifactUploadReservation_cases:
  assumes "createArtifactUploadReservation e inp s = (x, s')"
  obtains (same) "uploadReservations s' = uploadReservations s"
  | (created) pub bytes s1 q where "find_upload s (create_id inp) = None" "0 \<le> bytes" "uploadReservations s1 = uploadReservations s"
      "x = Inr (Some (new_reservation e inp pub bytes), q)" "s' = put_upload (create_id inp) (new_reservation e inp pub bytes) s1"
proof -
  define m where "m = (case uc_quota inp of None \<Rightarrow> (Inr None, s)
                       | Some q \<Rightarrow> then_do (consumeUsageQuota e q s) (\<lambda>r s1. (Inr (Some r), s1)))"
  obtain mr s1 where m1: "m = (mr, s1)" by fastforce
  have up: "uploadReservations s1 = uploadReservations s"
  proof (cases "uc_quota inp")
    case (Some q)
    obtain y t where y: "consumeUsageQuota e q s = (y, t)" by fastforce
    then have "s1 = t" using m1 Some by (cases y) (simp_all add: m_def then_do_def)
    then show ?thesis using consume_uploads [OF y] by simp
  qed (use m1 in \<open>simp add: m_def\<close>)
  define b where "b = normalizeNonNegativeInteger (Some (uc_reservedBytes inp)) ''Reserved artifact bytes''"
  note eq = assms [unfolded createArtifactUploadReservation_def m_def [symmetric] m1 b_def [symmetric] Let_def]
  show thesis
  proof (cases "find_upload s (create_id inp)")
    case (Some r)
    then have "s' = s" using eq by (auto simp: try_in_def split: if_splits sum.splits)
    then show thesis by (intro same) simp
  next
    case None
    consider (kept) "s' = s" | (consumed) "s' = s1" | (new) pub bytes q where "b = Inr bytes"
      "x = Inr (Some (new_reservation e inp pub bytes), q)" "s' = put_upload (create_id inp) (new_reservation e inp pub bytes) s1"
      using eq None by (cases mr) (auto simp: try_in_def then_do_def split: if_splits sum.splits)
    then show thesis
    proof cases
      case (new pub bytes q)
      have "0 \<le> bytes" using new(1) by (auto simp: b_def normalizeNonNegativeInteger_def coalesce_def split: jsnum.splits if_splits)
      then show thesis using created [OF None _ up] new(2,3) by blast
    qed (use same up in simp_all)
  qed
qed

lemma createArtifactUploadReservation_move:
  assumes "createArtifactUploadReservation e inp s = (x, s')"
  shows "uploads_move s s'"
  using assms
proof (cases rule: createArtifactUploadReservation_cases)
  case (created pub bytes s1 q)
  have "ur_status (new_reservation e inp pub bytes) = UReserved" "upload_inv (new_reservation e inp pub bytes)"
    using created(2) by (simp_all add: new_reservation_def upload_inv_def Let_def)
  then show ?thesis using created(1,3,5) by (auto simp: uploads_move_def put_upload_def find_upload_def split: option.splits)
qed (simp add: uploads_move_same)

lemma uploads_fold_delete: "map_get (fold map_delete ks m) k = (if k \<in> set ks then None else map_get m k)"
  by (induction ks arbitrary: m) auto

lemma map_ok_fold_delete: "map_ok m \<Longrightarrow> map_ok (fold map_delete ks m)"
  by (induction ks arbitrary: m) auto

lemma pruneArtifactUploadReservations_move:
  assumes "pruneArtifactUploadReservations e cutoff lim s = (n, s')" "map_ok (uploadReservations s)"
  shows "uploads_move s s'"
proof -
  define ts where "ts = take (nat (min 1000 (max 0 lim))) (js_sort (cmp_then (cmp_by (\<lambda>p. ur_updatedAt (snd p)) cmp_int) (cmp_by fst (locale_compare e)))
            (filter (\<lambda>p. prunable cutoff (snd p)) (uploadReservations s)))"
  have s': "uploadReservations s' = fold map_delete (map fst ts) (uploadReservations s)"
    using assms(1) by (auto simp: pruneArtifactUploadReservations_def Let_def ts_def)
  have sub: "set ts \<subseteq> {p \<in> set (uploadReservations s). prunable cutoff (snd p)}" by (auto simp: ts_def dest!: in_set_takeD)
  have "prunable cutoff r" if get: "map_get (uploadReservations s) k = Some r" and stale: "k \<in> set (map fst ts)" for k r
  proof -
    obtain b where "(k, b) \<in> set (uploadReservations s)" "prunable cutoff b" using stale sub by auto
    moreover from this have "map_get (uploadReservations s) k = Some b" using assms(2) by (simp add: map_get_iff)
    ultimately show ?thesis using get by simp
  qed
  then show ?thesis unfolding uploads_move_def s'
    by (auto simp: uploads_fold_delete map_ok_fold_delete prunable_def split: option.splits if_splits)
qed


section \<open>Reachability\<close>

inductive upload_transition :: "'a upload_store_scheme \<Rightarrow> 'a upload_store_scheme \<Rightarrow> bool" where
  up_create: "createArtifactUploadReservation e i1 s = (x1, s') \<Longrightarrow> upload_transition s s'"
| up_claim: "claimArtifactUploadFinalization e i2 s = (x2, s') \<Longrightarrow> upload_transition s s'"
| up_complete: "completeArtifactUploadFinalization e i ow tk now s = (x3, s') \<Longrightarrow> upload_transition s s'"
| up_release: "releaseArtifactUploadClaim e i4 s = (x4, s') \<Longrightarrow> upload_transition s s'"
| up_request: "requestArtifactUploadCleanup e i5 s = (x5, s') \<Longrightarrow> upload_transition s s'"
| up_defer: "deferArtifactUploadCleanup e i ow tk retry now s = (x6, s') \<Longrightarrow> upload_transition s s'"
| up_clean: "completeArtifactUploadCleanup e i ow tk now s = (x7, s') \<Longrightarrow> upload_transition s s'"
| up_fail: "failArtifactUploadCleanup e i ow tk code retry now s = (x8, s') \<Longrightarrow> upload_transition s s'"
| up_reconcile: "claimArtifactUploadReconciliation e i9 s = (x9, s') \<Longrightarrow> upload_transition s s'"
| up_prune: "pruneArtifactUploadReservations e cutoff lim s = (x10, s') \<Longrightarrow> upload_transition s s'"
| up_other: "uploadReservations s' = uploadReservations s \<Longrightarrow> upload_transition s s'"

lemmas upload_ops_move = createArtifactUploadReservation_move claimArtifactUploadFinalization_move completeArtifactUploadFinalization_move
  releaseArtifactUploadClaim_move requestArtifactUploadCleanup_move deferArtifactUploadCleanup_move completeArtifactUploadCleanup_move
  failArtifactUploadCleanup_move uploads_move_same

lemma upload_transition_move:
  assumes "upload_transition s s'" "uploads_ok s"
  shows "uploads_move s s' \<and> uploads_ok s'"
proof -
  have ok: "map_ok (uploadReservations s)" using assms(2) by (simp add: uploads_ok_def)
  have "uploads_move s s'" using assms(1) ok
  proof (induction rule: upload_transition.induct)
    case (up_reconcile e i9 s x9 s')
    then show ?case using claimArtifactUploadReconciliation_effect by blast
  next
    case (up_prune e cutoff lim s x10 s')
    then show ?case by (rule pruneArtifactUploadReservations_move)
  qed (erule upload_ops_move)+
  then show ?thesis using assms(2) uploads_move_ok by blast
qed

section \<open>Properties\<close>

lemma upload_transitions_ok: "upload_transition\<^sup>*\<^sup>* s s' \<Longrightarrow> uploads_ok s \<Longrightarrow> uploads_ok s'"
  by (induction rule: rtranclp_induct) (auto dest: upload_transition_move)

text \<open>C3: the reservation store implements the upload lifecycle. One operation moves each reservation
  along an edge of the lifecycle or leaves it alone, never changes what was agreed at its creation,
  removes only finished reservations, and adds only fresh ones in the initial status.\<close>

theorem upload_lifecycle_refined:
  assumes "upload_transition s s'" and "uploads_ok s"
  shows "uploads_ok s'
    \<and> (\<forall>k r r'. map_get (uploadReservations s) k = Some r \<and> map_get (uploadReservations s') k = Some r' \<longrightarrow>
         upload_edge (ur_status r) (ur_status r') \<and> upload_terms r' = upload_terms r)
    \<and> (\<forall>k r. map_get (uploadReservations s) k = Some r \<and> map_get (uploadReservations s') k = None \<longrightarrow> ur_status r \<in> {UCleaned, UFinalized})
    \<and> (\<forall>k r'. map_get (uploadReservations s) k = None \<and> map_get (uploadReservations s') k = Some r' \<longrightarrow> ur_status r' = UReserved)"
proof -
  have m: "uploads_move s s'" "uploads_ok s'" using upload_transition_move [OF assms] by simp_all
  have "upload_moves r r'" if "map_get (uploadReservations s) k = Some r" "map_get (uploadReservations s') k = Some r'" for k r r'
    using m(1) that unfolding uploads_move_def by fastforce
  moreover have "ur_status r = UCleaned \<or> ur_status r = UFinalized" if "map_get (uploadReservations s) k = Some r" "map_get (uploadReservations s') k = None" for k r
    using m(1) that unfolding uploads_move_def by fastforce
  moreover have "ur_status r' = UReserved" if "map_get (uploadReservations s) k = None" "map_get (uploadReservations s') k = Some r'" for k r'
    using m(1) that unfolding uploads_move_def by blast
  ultimately show ?thesis using m(2) unfolding upload_moves_def upload_le_def by blast
qed

text \<open>C13: a published artifact is never destroyed by the saga. Once a reservation is finalized, no
  interleaving of finalizers, clean-up requests and reconcilers ever turns it into one whose objects are
  being or have been cleaned up: while it is in the store it is finalized, with the same final object.\<close>

theorem finalized_upload_kept:
  assumes "(\<lambda>a b. upload_transition a b \<and> map_get (uploadReservations b) k \<noteq> None)\<^sup>*\<^sup>* s s'" and "uploads_ok s"
    and "map_get (uploadReservations s) k = Some r" and "ur_status r = UFinalized"
  shows "\<exists>r'. map_get (uploadReservations s') k = Some r' \<and> ur_status r' = UFinalized \<and> upload_terms r' = upload_terms r"
proof -
  from assms have "uploads_ok s' \<and> (\<exists>r'. map_get (uploadReservations s') k = Some r' \<and> ur_status r' = UFinalized \<and> upload_terms r' = upload_terms r)"
  proof (induction rule: rtranclp_induct)
    case (step s1 s2)
    then obtain r1 r2 where r1: "map_get (uploadReservations s1) k = Some r1" "ur_status r1 = UFinalized" "upload_terms r1 = upload_terms r"
      and r2: "map_get (uploadReservations s2) k = Some r2" and ok: "uploads_ok s1" by auto
    have m: "uploads_move s1 s2" "uploads_ok s2" using upload_transition_move [of s1 s2] step.hyps(2) ok by simp_all
    then have "upload_moves r1 r2" using r1(1) r2 unfolding uploads_move_def by fastforce
    then have "ur_status r2 = UFinalized" "upload_terms r2 = upload_terms r1"
      using edges_from_final r1(2) by (auto simp: upload_moves_def upload_le_def)
    then show ?case using r2 r1(3) m(2) by simp
  qed simp
  then show ?thesis ..
qed

text \<open>Quota held by an abandoned upload is given back exactly when its clean-up completes, and not
  before a first pass over the object store has been made and deferred. A reservation that is already
  cleaned is left alone, so the bytes are not given back twice.\<close>

theorem cleanup_refunds_once:
  assumes "completeArtifactUploadCleanup e i ow tk now s = (Inr (Some r'), s')" and "find_upload s i = Some r" and "ur_status r \<noteq> UFinalized"
  shows "ur_status r' = UCleaned \<and>
    (if ur_status r = UCleaned then s' = s
     else ur_status r = UCleanupPending \<and> held_by ow tk r \<and> 1 \<le> ur_cleanupPasses r \<and> find_upload s' i = Some r'
       \<and> (case (or_null (ur_quotaKey r), ur_quotaWindowStartedAtMs r) of
            (Some q, Some w) \<Rightarrow> usageCounters s' = usageCounters (snd (adjustUsageQuota (ur_orgId r) q w (JInt (- ur_reservedBytes r)) s))
          | _ \<Rightarrow> usageCounters s' = usageCounters s))"
proof (cases "ur_status r = UCleaned")
  case True
  then show ?thesis using assms(1,2) by (auto simp: completeArtifactUploadCleanup_def)
next
  case False
  let ?c = "(release_fields (nowIso e now) r)\<lparr> ur_nextCleanupAttemptAt := None, ur_lastErrorCode := None, ur_status := UCleaned \<rparr>"
  let ?q = "case (or_null (ur_quotaKey r), ur_quotaWindowStartedAtMs r) of
          (Some q, Some w) \<Rightarrow> adjustUsageQuota (ur_orgId r) q w (JInt (- ur_reservedBytes r)) s | _ \<Rightarrow> (Inr (), s)"
  have guards: "ur_status r = UCleanupPending" "held_by ow tk r" "\<not> ur_cleanupPasses r < 1"
    using assms False by (auto simp: completeArtifactUploadCleanup_def Let_def split: if_splits)
  then have "then_do ?q (\<lambda>_ s1. (Inr (Some ?c), put_upload i ?c s1)) = (Inr (Some r'), s')"
    using assms(1,2) by (simp add: completeArtifactUploadCleanup_def Let_def)
  then obtain s1 where s1: "?q = (Inr (), s1)" and out: "r' = ?c" "s' = put_upload i ?c s1"
    by (auto simp: then_do_def split: prod.splits sum.splits)
  have "usageCounters s' = usageCounters s1" "find_upload s' i = Some r'" using out by (simp_all add: put_upload_def find_upload_def)
  then show ?thesis using guards False s1 out(1) by (auto split: option.splits)
qed

text \<open>The reconciler takes bounded, exclusive batches: it claims at most the requested number of
  reservations, each is handed out in the caller's name with a claim that has not expired, each was not
  actively claimed by anyone before (unless it was an expired reservation that nobody had claimed), and
  the claim is what the store now holds.\<close>

theorem reconcile_bounded_exclusive:
  assumes "claimArtifactUploadReconciliation e inp s = (cs, s')" and "uploads_ok s"
  shows "length cs \<le> nat (uz_limit inp) \<and> uploads_ok s'
    \<and> (\<forall>c \<in> set cs. held_by (uz_claimOwner inp) (uz_claimToken inp) (snd c) \<and> claim_active (nowIso e (uz_now inp)) (snd c)
        \<and> (\<exists>k r. map_get (uploadReservations s) k = Some r \<and> \<not> claim_active (nowIso e (uz_now inp)) r
             \<and> map_get (uploadReservations s') k = Some (snd c)))"
proof -
  have ok: "map_ok (uploadReservations s)" using assms(2) by (simp add: uploads_ok_def)
  note ef = claimArtifactUploadReconciliation_effect [OF assms(1) ok]
  have free: "\<not> claim_active now r" if "reconcile_one inp now r = Some c" "upload_inv r" for now r c
    using that by (cases "ur_status r") (auto simp: reconcile_one_def Let_def upload_inv_def claim_active_def split: if_splits)
  have "\<exists>k r. map_get (uploadReservations s) k = Some r \<and> \<not> claim_active (nowIso e (uz_now inp)) r \<and> map_get (uploadReservations s') k = Some (snd c)"
    if claimed: "c \<in> set cs" for c
  proof -
    obtain k r where kr: "(k, r) \<in> set (uploadReservations s)" "reconcile_one inp (nowIso e (uz_now inp)) r = Some c"
      "map_get (uploadReservations s') k = Some (snd c)" using ef claimed by blast
    then have g: "map_get (uploadReservations s) k = Some r" using ok by (simp add: map_get_iff)
    then have "upload_inv r" using assms(2) by (simp add: uploads_ok_def)
    then show ?thesis using free [OF kr(2)] g kr(3) by blast
  qed
  moreover have "uploads_ok s'" using uploads_move_ok ef assms(2) by blast
  ultimately show ?thesis using ef by blast
qed

definition sample_reservation :: upload_reservation where
  "sample_reservation = \<lparr> ur_orgId = ''o'', ur_tenantId = ''t'', ur_userId = ''u'', ur_sessionId = ''s1'', ur_artifactId = ''a'', ur_objectKey = ''k'',
     ur_stagingObjectKey = ''k'', ur_finalObjectKey = ''k'', ur_filename = ''f'', ur_contentType = None, ur_checksumSha256 = None, ur_stagingCleanedAt = None,
     ur_publication = EMPTY_PUBLICATION, ur_quotaKey = Some ''bytes'', ur_quotaWindowMs = Some 1000, ur_quotaWindowStartedAtMs = Some 0, ur_reservedBytes = 5,
     ur_status = UCleanupPending, ur_cleanupReason = Some ReasonAborted, ur_cleanupRequestedAt = Some 0, ur_claimOwner = Some ''w'', ur_claimToken = Some ''tk'',
     ur_claimExpiresAt = Some 1000, ur_cleanupAttempts = 0, ur_cleanupPasses = 1, ur_finalizationAttempts = 0, ur_nextCleanupAttemptAt = None,
     ur_lastErrorCode = None, ur_expiresAt = 500, ur_createdAt = 0, ur_updatedAt = 0 \<rparr>"

definition sample_upload_id :: upload_id where
  "sample_upload_id = \<lparr> ui_orgId = ''o'', ui_tenantId = ''t'', ui_sessionId = ''s1'', ui_artifactId = ''a'' \<rparr>"

definition sample_uploads :: "upload_reservation \<Rightarrow> upload_store" where
  "sample_uploads r = \<lparr> tenants = [(''t'', sample_tenant)], users = [(key [''t'', ''u''], sample_user)], orgs = [(''o'', sample_org)],
     orgsByTenant = [(''t'', ''o'')], accounts = [], accountsBySubject = [], accountsByEmail = [], memberships = [], auditEvents = [],
     usageCounters = [(key [''o'', ''bytes''], \<lparr> uc_windowStartedAtMs = 0, uc_quantity = 9 \<rparr>)], sessions = [(key [''t'', ''s1''], sample_session)],
     artifactIndex = [], launchpadSessionSummaries = [], workspaceEvents = [], workflows = [], runHeap = [], workflowRuns = [],
     workflowWebhookSecrets = [], legacyWorkflowWebhookSecrets = [], uploadReservations = [(reservationKey sample_upload_id, r)] \<rparr>"

lemma sample_uploads_simps [simp]: "uploadReservations (sample_uploads r) = [(reservationKey sample_upload_id, r)]"
  by (simp add: sample_uploads_def)

lemma sample_uploads_ok: "upload_inv r \<Longrightarrow> uploads_ok (sample_uploads r)"
  by (simp add: uploads_ok_def map_ok_def map_get_def)

lemma sample_reservation_inv: "upload_inv sample_reservation" "upload_inv (sample_reservation\<lparr> ur_status := UFinalized \<rparr>)"
  by (simp_all add: upload_inv_def sample_reservation_def)

definition sample_reconcile :: upload_reconcile_input where
  "sample_reconcile = \<lparr> uz_claimOwner = ''rc'', uz_claimToken = ''t2'', uz_claimTtlMs = 100, uz_limit = 1, uz_now = Some 2000 \<rparr>"

theorem upload_lifecycle_refined_witness:
  "uploads_ok (snd (claimArtifactUploadReconciliation sample_env sample_reconcile (sample_uploads sample_reservation)))"
  using upload_lifecycle_refined [OF up_reconcile [OF surjective_pairing] sample_uploads_ok [OF sample_reservation_inv(1)], of sample_env sample_reconcile] by blast

definition sample_cleanup_request :: upload_cleanup_input where
  "sample_cleanup_request = \<lparr> un_id = sample_upload_id, un_reason = ReasonAborted, un_claimOwner = ''w'', un_claimToken = ''tk'', un_claimTtlMs = 10,
     un_cleanupNotBefore = None, un_expectedOwner = None, un_expectedToken = None, un_now = None \<rparr>"

theorem finalized_upload_kept_witness:
  "\<exists>r'. map_get (uploadReservations (snd (requestArtifactUploadCleanup sample_env sample_cleanup_request
      (sample_uploads (sample_reservation\<lparr> ur_status := UFinalized \<rparr>))))) (reservationKey sample_upload_id) = Some r' \<and> ur_status r' = UFinalized"
proof -
  let ?r = "sample_reservation\<lparr> ur_status := UFinalized \<rparr>"
  let ?s = "sample_uploads ?r" and ?k = "reservationKey sample_upload_id"
  let ?s' = "snd (requestArtifactUploadCleanup sample_env sample_cleanup_request ?s)"
  have g: "map_get (uploadReservations ?s) ?k = Some ?r" by (simp add: map_get_def)
  have "find_upload ?s (un_id sample_cleanup_request) = Some ?r" by (simp add: find_upload_def map_get_def sample_cleanup_request_def)
  then have "?s' = ?s" by (simp add: requestArtifactUploadCleanup_def with_upload_def)
  moreover have "upload_transition ?s ?s'" by (rule up_request [OF surjective_pairing])
  ultimately have "(\<lambda>a b. upload_transition a b \<and> map_get (uploadReservations b) ?k \<noteq> None) ?s ?s'" using g by simp
  then have "(\<lambda>a b. upload_transition a b \<and> map_get (uploadReservations b) ?k \<noteq> None)\<^sup>*\<^sup>* ?s ?s'" by (rule r_into_rtranclp)
  from finalized_upload_kept [OF this sample_uploads_ok [OF sample_reservation_inv(2)] g] show ?thesis by auto
qed

theorem cleanup_refunds_once_witness:
  "\<exists>r' s'. completeArtifactUploadCleanup sample_env sample_upload_id ''w'' ''tk'' None (sample_uploads sample_reservation) = (Inr (Some r'), s') \<and> ur_status r' = UCleaned"
proof -
  define out where "out = completeArtifactUploadCleanup sample_env sample_upload_id ''w'' ''tk'' None (sample_uploads sample_reservation)"
  have "case fst out of Inr (Some _) \<Rightarrow> True | _ \<Rightarrow> False" unfolding out_def by code_simp
  then obtain r' where "fst out = Inr (Some r')" by (auto split: sum.splits option.splits)
  then have run: "completeArtifactUploadCleanup sample_env sample_upload_id ''w'' ''tk'' None (sample_uploads sample_reservation) = (Inr (Some r'), snd out)"
    by (simp add: out_def prod_eq_iff)
  have "find_upload (sample_uploads sample_reservation) sample_upload_id = Some sample_reservation" by (simp add: find_upload_def map_get_def)
  moreover have "ur_status sample_reservation \<noteq> UFinalized" by (simp add: sample_reservation_def)
  ultimately show ?thesis using cleanup_refunds_once [OF run] run by blast
qed

theorem reconcile_bounded_exclusive_witness:
  "\<exists>cs s'. claimArtifactUploadReconciliation sample_env sample_reconcile (sample_uploads sample_reservation) = (cs, s')
     \<and> length cs = 1 \<and> (\<forall>c \<in> set cs. held_by ''rc'' ''t2'' (snd c))"
proof -
  obtain cs s' where run: "claimArtifactUploadReconciliation sample_env sample_reconcile (sample_uploads sample_reservation) = (cs, s')" by fastforce
  have "length (fst (claimArtifactUploadReconciliation sample_env sample_reconcile (sample_uploads sample_reservation))) = 1" by code_simp
  moreover have "uz_claimOwner sample_reconcile = ''rc''" "uz_claimToken sample_reconcile = ''t2''" by (simp_all add: sample_reconcile_def)
  ultimately show ?thesis using reconcile_bounded_exclusive [OF run sample_uploads_ok [OF sample_reservation_inv(1)]] run by auto
qed

end
