(* ===== verification/Secret_Hashes.thy ===== *)
theory Secret_Hashes
  imports Store_Helpers
begin

text \<open>
  Credential hashing (\<open>control-plane-tokens.ts\<close>): a stored credential is \<open>scrypt-v2:<salt>:<hash>\<close>
  with a fresh random salt; a plaintext carries the id of its record. The key derivation function and the
  random bytes, which come from \<open>node:crypto\<close>, are the record \<open>crypto\<close>.
\<close>


section \<open>The cryptographic library\<close>

text \<open>\<open>scrypt(password, salt, 32)\<close> in base64url, and the base64url text of each \<open>randomBytes\<close> call.\<close>

record crypto =
  cr_scrypt :: "string \<Rightarrow> string \<Rightarrow> string"
  cr_salt :: string
  cr_tokenBytes :: string
  cr_secretBytes :: string

definition base64url_char :: "char \<Rightarrow> bool" where
  "base64url_char c =
     (let n = (of_char c :: nat) in
      (48 \<le> n \<and> n \<le> 57) \<or> (65 \<le> n \<and> n \<le> 90) \<or> (97 \<le> n \<and> n \<le> 122) \<or> n = 45 \<or> n = 95)"

text \<open>What Node documents of these values: base64url text of a positive number of bytes.\<close>

definition base64url_text :: "string \<Rightarrow> bool" where
  "base64url_text t = (t \<noteq> [] \<and> list_all base64url_char t)"

definition crypto_ok :: "crypto \<Rightarrow> bool" where
  "crypto_ok c = (base64url_text (cr_salt c) \<and> (\<forall>p. base64url_text (cr_scrypt c p (cr_salt c))))"


section \<open>Hashing\<close>

definition constantTimeEquals :: "string \<Rightarrow> string \<Rightarrow> bool" where
  "constantTimeEquals left right = (left \<noteq> [] \<and> right \<noteq> [] \<and> left = right)"

text \<open>\<open>String.prototype.split\<close> on one character.\<close>

fun split_char :: "char \<Rightarrow> string \<Rightarrow> string list" where
  "split_char c [] = [[]]"
| "split_char c (d # ds) = (if d = c then [] # split_char c ds
     else case split_char c ds of [] \<Rightarrow> [[d]] | p # ps \<Rightarrow> (d # p) # ps)"

definition scryptHashPrefixV2 :: string where
  "scryptHashPrefixV2 = ''scrypt-v2''"

definition hashSecretWithRandomSalt :: "crypto \<Rightarrow> string \<Rightarrow> string" where
  "hashSecretWithRandomSalt c plaintext =
     scryptHashPrefixV2 @ CHR '':'' # cr_salt c @ CHR '':'' # cr_scrypt c plaintext (cr_salt c)"

definition verifySecretHash :: "crypto \<Rightarrow> string \<Rightarrow> string \<Rightarrow> bool" where
  "verifySecretHash c plaintext storedHash =
     (case split_char (CHR '':'') storedHash of
        prefix # salt # hash # _ \<Rightarrow>
          prefix = scryptHashPrefixV2 \<and> salt \<noteq> [] \<and> hash \<noteq> [] \<and> constantTimeEquals (cr_scrypt c plaintext salt) hash
      | _ \<Rightarrow> False)"

definition plaintextMatchesCloudApiTokenId :: "string \<Rightarrow> string \<Rightarrow> bool" where
  "plaintextMatchesCloudApiTokenId plaintext tokenId = starts_with plaintext (''occ_'' @ tokenId @ ''_'')"

definition plaintextMatchesChannelInteractionId :: "string \<Rightarrow> string \<Rightarrow> bool" where
  "plaintextMatchesChannelInteractionId plaintext interactionId = starts_with plaintext (''occi_'' @ interactionId @ ''_'')"

text \<open>Result: the token id and the plaintext.\<close>

definition generateCloudApiToken :: "crypto \<Rightarrow> string option \<Rightarrow> string option \<Rightarrow> string \<times> string" where
  "generateCloudApiToken c tokenIdIn secretIn =
     (let tokenId = or_else tokenIdIn (''tok_'' @ cr_tokenBytes c); secret = or_else secretIn (cr_secretBytes c)
      in (tokenId, ''occ_'' @ tokenId @ ''_'' @ secret))"

definition generateChannelInteractionToken :: "crypto \<Rightarrow> string \<Rightarrow> string option \<Rightarrow> string" where
  "generateChannelInteractionToken c interactionId secretIn =
     ''occi_'' @ interactionId @ ''_'' @ or_else secretIn (cr_secretBytes c)"


section \<open>Round trip\<close>

lemma starts_with_app: "starts_with (p @ r) p"
  by (induction p) simp_all

lemma split_char_none: "c \<notin> set t \<Longrightarrow> split_char c t = [t]"
  by (induction t) auto

lemma split_char_ne: "split_char c t \<noteq> []"
  by (induction t) (auto split: list.splits)

lemma split_char_app: "c \<notin> set t \<Longrightarrow> split_char c (t @ c # r) = t # split_char c r"
  using split_char_ne [of c r] by (induction t) (auto split: list.splits)

lemma base64url_no_colon: "base64url_text t \<Longrightarrow> CHR '':'' \<notin> set t"
  by (auto simp: base64url_text_def list_all_iff base64url_char_def Let_def)

lemma split_stored_hash:
  assumes "crypto_ok c"
  shows "split_char (CHR '':'') (hashSecretWithRandomSalt c p) = [scryptHashPrefixV2, cr_salt c, cr_scrypt c p (cr_salt c)]"
proof -
  have "CHR '':'' \<notin> set (cr_salt c)" "CHR '':'' \<notin> set (cr_scrypt c p (cr_salt c))" "CHR '':'' \<notin> set scryptHashPrefixV2"
    using assms base64url_no_colon by (auto simp: crypto_ok_def scryptHashPrefixV2_def)
  then show ?thesis unfolding hashSecretWithRandomSalt_def by (simp add: split_char_app split_char_none)
qed

lemma verify_own_hash:
  assumes "crypto_ok c"
  shows "verifySecretHash c q (hashSecretWithRandomSalt c p) \<longleftrightarrow> cr_scrypt c q (cr_salt c) = cr_scrypt c p (cr_salt c)"
  using assms by (auto simp: verifySecretHash_def split_stored_hash crypto_ok_def base64url_text_def constantTimeEquals_def)

lemma starts_with_generated:
  "plaintextMatchesCloudApiTokenId (snd (generateCloudApiToken c i s)) (fst (generateCloudApiToken c i s))"
  "plaintextMatchesChannelInteractionId (generateChannelInteractionToken c k s) k"
  using starts_with_app [of "fst (generateCloudApiToken c i s) @ ''_''"] starts_with_app [of "k @ ''_''"]
  by (simp_all add: plaintextMatchesCloudApiTokenId_def plaintextMatchesChannelInteractionId_def generateCloudApiToken_def
    generateChannelInteractionToken_def Let_def)

text \<open>C21: a stored credential accepts its own plaintext and nothing else that derives a different key. The
  hash of a secret under a fresh salt verifies exactly for the secrets with the same derived key; anything
  that is not of the \<open>scrypt-v2\<close> form verifies for no secret.\<close>

theorem secret_hash_roundtrip:
  assumes "crypto_ok c"
  shows "verifySecretHash c p (hashSecretWithRandomSalt c p)
    \<and> (verifySecretHash c q (hashSecretWithRandomSalt c p) \<longrightarrow> cr_scrypt c q (cr_salt c) = cr_scrypt c p (cr_salt c))
    \<and> (\<forall>stored. \<not> starts_with stored (scryptHashPrefixV2 @ '':'') \<longrightarrow> \<not> verifySecretHash c q stored)"
proof -
  have "starts_with stored (scryptHashPrefixV2 @ '':'')" if v: "verifySecretHash c q stored" for stored
  proof -
    obtain salt h rest where s: "split_char (CHR '':'') stored = scryptHashPrefixV2 # salt # h # rest"
      using v unfolding verifySecretHash_def by (auto split: list.splits)
    have "\<exists>r. stored = t @ CHR '':'' # r" if "split_char (CHR '':'') stored = t # u # us" for t u us
      using that
    proof (induction stored arbitrary: t)
      case (Cons d ds)
      then show ?case by (cases "d = CHR '':''") (fastforce split: list.splits)+
    qed simp
    from this [OF s] obtain r where "stored = (scryptHashPrefixV2 @ '':'') @ r" by auto
    then show ?thesis by (simp only: starts_with_app)
  qed
  then show ?thesis using verify_own_hash [OF assms] by blast
qed

definition sample_crypto :: crypto where
  "sample_crypto = \<lparr> cr_scrypt = (\<lambda>p salt. CHR ''k'' # map (\<lambda>ch. if base64url_char ch then ch else CHR ''-'') (p @ salt)), cr_salt = ''salt'',
     cr_tokenBytes = ''id'', cr_secretBytes = ''secret'' \<rparr>"

lemma sample_crypto_ok: "crypto_ok sample_crypto"
  by (auto simp: crypto_ok_def sample_crypto_def base64url_text_def list_all_iff base64url_char_def)

theorem secret_hash_roundtrip_witness:
  "verifySecretHash sample_crypto ''pw'' (hashSecretWithRandomSalt sample_crypto ''pw'')
   \<and> \<not> verifySecretHash sample_crypto ''px'' (hashSecretWithRandomSalt sample_crypto ''pw'') \<and> \<not> verifySecretHash sample_crypto ''pw'' ''plain''"
proof -
  have "\<not> starts_with ''plain'' (scryptHashPrefixV2 @ '':'')"
    "cr_scrypt sample_crypto ''px'' (cr_salt sample_crypto) \<noteq> cr_scrypt sample_crypto ''pw'' (cr_salt sample_crypto)"
    by code_simp+
  then show ?thesis
    using secret_hash_roundtrip [OF sample_crypto_ok, of "''pw''" "''px''"] secret_hash_roundtrip [OF sample_crypto_ok, of "''pw''" "''pw''"]
    by blast
qed

end
