(* ===== verification/Audited_Writes.thy ===== *)
theory Audited_Writes
  imports Identity_Directory
begin

text \<open>
  Writes that end with an audit entry, a pattern of every domain: the entry of the system or of the actor of
  the request, and what the pair of write and entry does to the store.
\<close>

text \<open>An audit entry of the system, and one of the actor of a request.\<close>

definition system_audit :: "string \<Rightarrow> string option \<Rightarrow> string \<Rightarrow> string \<Rightarrow> string \<Rightarrow> string \<Rightarrow> (string \<times> json) list \<Rightarrow> iso option \<Rightarrow> audit_input" where
  "system_audit orgId accountId actorId eventType targetType targetId meta createdAt =
     \<lparr> ai_eventId = None, ai_orgId = orgId, ai_accountId = accountId, ai_actorType = ActorSystem, ai_actorId = Some actorId,
       ai_eventType = eventType, ai_targetType = Some targetType, ai_targetId = Some targetId, ai_metadata = Some (JObj meta),
       ai_createdAt = createdAt \<rparr>"

definition actor_audit ::
  "string \<Rightarrow> string option \<Rightarrow> audit_actor option \<Rightarrow> string \<Rightarrow> string \<Rightarrow> string \<Rightarrow> (string \<times> json) list \<Rightarrow> iso option \<Rightarrow> audit_input" where
  "actor_audit orgId accountId actor eventType targetType targetId meta createdAt =
     \<lparr> ai_eventId = None, ai_orgId = orgId, ai_accountId = accountId,
       ai_actorType = (case actor of Some a \<Rightarrow> aa_actorType a | None \<Rightarrow> ActorSystem),
       ai_actorId = (case actor of Some a \<Rightarrow> or_null (aa_actorId a) | None \<Rightarrow> None),
       ai_eventType = eventType, ai_targetType = Some targetType, ai_targetId = Some targetId, ai_metadata = Some (JObj meta),
       ai_createdAt = createdAt \<rparr>"

definition audited :: "env \<Rightarrow> audit_input \<Rightarrow> 'r \<Rightarrow> 'a identity_store_scheme \<Rightarrow> ('a identity_store_scheme, 'r) outcome" where
  "audited e inp result s = then_do (recordAuditEvent e inp s) (\<lambda>_ s'. (Inr result, s'))"

definition require_account :: "'a identity_store_scheme \<Rightarrow> string option \<Rightarrow> error + unit" where
  "require_account s accountId =
     (case or_null accountId of
        Some a \<Rightarrow> if accountExists s a then Inr () else Inl (Error (''Unknown account '' @ a @ ''.''))
      | None \<Rightarrow> Inr ())"

lemma audited_effect:
  assumes "audited e inp res s = (r, s')"
  obtains A where "s' = s\<lparr> auditEvents := A \<rparr>" "r = Inr res \<or> (\<exists>er. r = Inl er)" "orgExists s (ai_orgId inp) \<Longrightarrow> r = Inr res"
proof -
  obtain x s1 where x: "recordAuditEvent e inp s = (x, s1)" by fastforce
  then have "s1 = s \<or> (\<exists>A. s1 = s\<lparr> auditEvents := A \<rparr>)" by (rule recordAuditEvent_effect) auto
  moreover have "s = s\<lparr> auditEvents := auditEvents s \<rparr>" by simp
  ultimately obtain A where A: "s1 = s\<lparr> auditEvents := A \<rparr>" by metis
  have "s' = s1" "r = Inr res \<or> (\<exists>er. r = Inl er)" "\<And>y. x = Inr y \<Longrightarrow> r = Inr res"
    using assms x by (auto simp: audited_def then_do_def split: sum.splits)
  moreover have "\<exists>y. x = Inr y" if "orgExists s (ai_orgId inp)" using recordAuditEvent_Inr [OF that, of e] x by auto
  ultimately show thesis using that [of A] A by blast
qed

section \<open>Maps keyed by an id of their records\<close>

text \<open>The first entry of a \<open>Map\<close> whose value satisfies a test, under the key of its record.\<close>

lemma find_in_map:
  assumes "find P (map_values m) = Some v" "map_ok m" "\<And>i v. map_get m i = Some v \<Longrightarrow> ident v = i"
  shows "map_get m (ident v) = Some v \<and> P v"
proof -
  have v: "v \<in> set (map_values m)" "P v" using assms(1) by (auto simp: find_Some_iff)
  obtain i where "map_get m i = Some v" using v(1) values_map_get [OF assms(2), of v] by auto
  then show ?thesis using assms(3) v(2) by blast
qed

lemma keyed_values:
  assumes "map_ok m" "\<And>i v. map_get m i = Some v \<Longrightarrow> ident v = i"
  shows "map ident (map_values m) = map fst m"
  using assms(2) in_set_map_get [OF assms(1)] by (force simp: map_values_def)

lemma keyed_values_distinct:
  assumes "map_ok m" "\<And>i v. map_get m i = Some v \<Longrightarrow> ident v = i"
  shows "distinct (map ident (map_values m))"
  using keyed_values [OF assms] assms(1) by (simp add: map_ok_def)

end
