(* ===== verification/Channel_Directory.thy ===== *)
theory Channel_Directory
  imports Session_Guarantees Secret_Hashes Audited_Writes
begin

text \<open>
  Chat channels of an organisation: headless agents (\<open>in-memory-domains/headless-agents.ts\<close>), their
  bindings to provider channels (\<open>channel-bindings.ts\<close>), external identities (\<open>channel-identities.ts\<close>),
  and the binding of a chat thread to a session with its delivery cursor
  (\<open>in-memory-control-plane-store.ts\<close>, \<open>bindChannelSession\<close> and \<open>updateChannelCursor\<close>).
\<close>


section \<open>Records\<close>

datatype agent_status = AgActive | AgDisabled

datatype binding_status = BdActive | BdDisabled | BdAuthRequired | BdError

datatype identity_status = IdActive | IdDisabled | IdPending

datatype thread_status = ThActive | ThArchived

datatype interaction_kind = KPermission | KQuestion

datatype interaction_status = IPending | IUsed | IExpired | IRevoked

datatype delivery_status = DPending | DClaimed | DSent | DFailed | DDead

datatype provider_event_status = PReceived | PProcessing | PProcessed | PFailed

record headless_agent =
  ha_agentId :: string
  ha_orgId :: string
  ha_tenantId :: string
  ha_profileName :: string
  ha_name :: string
  ha_status :: agent_status
  ha_managed :: bool
  ha_createdByAccountId :: "string option"
  ha_createdAt :: iso
  ha_updatedAt :: iso

record channel_binding =
  cb_bindingId :: string
  cb_orgId :: string
  cb_agentId :: string
  cb_provider :: string
  cb_externalWorkspaceId :: "string option"
  cb_displayName :: string
  cb_status :: binding_status
  cb_credentialRef :: "string option"
  cb_settings :: json
  cb_createdAt :: iso
  cb_updatedAt :: iso

record channel_identity =
  ci_identityId :: string
  ci_orgId :: string
  ci_provider :: string
  ci_externalWorkspaceId :: "string option"
  ci_externalUserId :: string
  ci_accountId :: "string option"
  ci_role :: string
  ci_status :: identity_status
  ci_metadata :: json
  ci_createdAt :: iso
  ci_updatedAt :: iso

record channel_session_binding =
  sb_bindingId :: string
  sb_orgId :: string
  sb_agentId :: string
  sb_channelBindingId :: string
  sb_provider :: string
  sb_externalWorkspaceId :: "string option"
  sb_externalThreadId :: string
  sb_externalChatId :: string
  sb_sessionId :: string
  sb_lastEventSequence :: int
  sb_lastWorkspaceSequence :: int
  sb_lastChatMessageId :: "string option"
  sb_status :: thread_status
  sb_createdAt :: iso
  sb_updatedAt :: iso

record channel_interaction =
  ix_interactionId :: string
  ix_orgId :: string
  ix_agentId :: string
  ix_channelBindingId :: "string option"
  ix_sessionBindingId :: "string option"
  ix_sessionId :: string
  ix_provider :: string
  ix_externalInteractionId :: "string option"
  ix_tokenHash :: string
  ix_kind :: interaction_kind
  ix_targetId :: string
  ix_status :: interaction_status
  ix_createdByIdentityId :: "string option"
  ix_expiresAt :: iso
  ix_usedAt :: "iso option"
  ix_createdAt :: iso
  ix_updatedAt :: iso

record channel_delivery =
  dl_deliveryId :: string
  dl_orgId :: string
  dl_agentId :: string
  dl_channelBindingId :: string
  dl_sessionBindingId :: "string option"
  dl_provider :: string
  dl_target :: json
  dl_eventType :: string
  dl_payload :: json
  dl_status :: delivery_status
  dl_attemptCount :: int
  dl_claimedBy :: "string option"
  dl_lastClaimedBy :: "string option"
  dl_claimExpiresAt :: "iso option"
  dl_nextAttemptAt :: iso
  dl_lastError :: "string option"
  dl_createdAt :: iso
  dl_updatedAt :: iso

record provider_event =
  pv_eventId :: string
  pv_orgId :: string
  pv_channelBindingId :: "string option"
  pv_provider :: string
  pv_providerInstanceId :: string
  pv_externalWorkspaceId :: "string option"
  pv_providerEventId :: string
  pv_eventType :: string
  pv_status :: provider_event_status
  pv_claimedBy :: "string option"
  pv_claimExpiresAt :: "iso option"
  pv_attemptCount :: int
  pv_retryable :: bool
  pv_lastError :: "string option"
  pv_metadata :: json
  pv_processedAt :: "iso option"
  pv_createdAt :: iso
  pv_updatedAt :: iso

text \<open>The maps of the channel domains, beside the stores they call.\<close>

record channel_store = workflow_store +
  headlessAgents :: "headless_agent jsmap"
  channelBindings :: "channel_binding jsmap"
  channelIdentities :: "channel_identity jsmap"
  identitiesByExternal :: "string jsmap"
  channelSessionBindings :: "channel_session_binding jsmap"
  channelSessionBindingsByThread :: "string jsmap"
  channelInteractions :: "channel_interaction jsmap"
  channelDeliveries :: "channel_delivery jsmap"
  providerEvents :: "provider_event jsmap"

record create_agent_input =
  ga_agentId :: string
  ga_orgId :: string
  ga_tenantId :: string
  ga_profileName :: string
  ga_name :: string
  ga_status :: "agent_status option"
  ga_managed :: "bool option"
  ga_createdByAccountId :: "string option"
  ga_createdAt :: "iso option"

record update_agent_input =
  gu_orgId :: string
  gu_agentId :: string
  gu_profileName :: "string option"
  gu_name :: "string option"
  gu_status :: "agent_status option"
  gu_managed :: "bool option"
  gu_updatedAt :: "iso option"
  gu_actor :: "audit_actor option"

record create_binding_input =
  gb_bindingId :: string
  gb_orgId :: string
  gb_agentId :: string
  gb_provider :: string
  gb_externalWorkspaceId :: "string option"
  gb_displayName :: string
  gb_status :: "binding_status option"
  gb_credentialRef :: "string option"
  gb_settings :: "json option"
  gb_createdAt :: "iso option"
  gb_maxPerOrg :: "int option"
  gb_policyCode :: "string option"

text \<open>\<open>credentialRef\<close> distinguishes undefined (\<open>None\<close>) from null (\<open>Some None\<close>).\<close>

record update_binding_input =
  gv_orgId :: string
  gv_bindingId :: string
  gv_displayName :: "string option"
  gv_status :: "binding_status option"
  gv_credentialRef :: "string option option"
  gv_settings :: "json option"
  gv_updatedAt :: "iso option"
  gv_actor :: "audit_actor option"

record upsert_identity_input =
  gi_identityId :: "string option"
  gi_orgId :: string
  gi_provider :: string
  gi_externalWorkspaceId :: "string option"
  gi_externalUserId :: string
  gi_accountId :: "string option option"
  gi_role :: "string option"
  gi_status :: "identity_status option"
  gi_metadata :: "json option"
  gi_updatedAt :: "iso option"

record list_identities_input =
  gl_provider :: "string option"
  gl_externalWorkspaceId :: "string option option"
  gl_role :: "string option"
  gl_status :: "identity_status option"
  gl_limit :: "jsnum option"

record bind_session_input =
  gs_bindingId :: string
  gs_orgId :: string
  gs_agentId :: string
  gs_channelBindingId :: string
  gs_provider :: string
  gs_externalWorkspaceId :: "string option"
  gs_externalThreadId :: string
  gs_externalChatId :: string
  gs_sessionId :: string
  gs_lastEventSequence :: "jsnum option"
  gs_lastWorkspaceSequence :: "jsnum option"
  gs_lastChatMessageId :: "string option"
  gs_status :: "thread_status option"
  gs_createdAt :: "iso option"

record cursor_input =
  gc_orgId :: string
  gc_bindingId :: string
  gc_lastEventSequence :: jsnum
  gc_lastWorkspaceSequence :: jsnum
  gc_lastChatMessageId :: "string option option"
  gc_updatedAt :: "iso option"

datatype cursor_result = CursorMoved channel_session_binding | CursorStale channel_session_binding | CursorNotFound


section \<open>Shared normalisation\<close>

definition CHANNEL_TEXT_MAX_LENGTH :: int where
  "CHANNEL_TEXT_MAX_LENGTH = 256"

definition CHANNEL_METADATA_MAX_BYTES :: int where
  "CHANNEL_METADATA_MAX_BYTES = 16384"

definition channel_text :: "string \<Rightarrow> string \<Rightarrow> error + string" where
  "channel_text v label = normalizeText (Some v) CHANNEL_TEXT_MAX_LENGTH label"

definition channel_nullable :: "string option \<Rightarrow> string \<Rightarrow> error + string option" where
  "channel_nullable v label = normalizeNullableText v CHANNEL_TEXT_MAX_LENGTH label"

text \<open>\<open>/^[a-z][a-z0-9_-]{1,63}$/\<close>.\<close>

definition provider_char :: "char \<Rightarrow> bool" where
  "provider_char c = (let n = (of_char c :: nat) in (97 \<le> n \<and> n \<le> 122) \<or> (48 \<le> n \<and> n \<le> 57) \<or> n = 95 \<or> n = 45)"

definition isChannelProviderId :: "string \<Rightarrow> bool" where
  "isChannelProviderId t =
     (t \<in> set [''telegram'', ''slack'', ''email'', ''discord'', ''whatsapp'', ''signal'', ''webhook'', ''cli'']
      \<or> (2 \<le> length t \<and> length t \<le> 64 \<and> 97 \<le> (of_char (hd t) :: nat) \<and> (of_char (hd t) :: nat) \<le> 122
         \<and> list_all provider_char t \<and> CHR ''-'' \<in> set t))"

definition normalizeChannelProviderId :: "string \<Rightarrow> error + string" where
  "normalizeChannelProviderId v =
     try_pure (normalizeText (Some v) 64 ''Channel provider'') (\<lambda>p.
       if isChannelProviderId p then Inr p else Inl (Error (''Unsupported channel provider '' @ p @ ''.'')))"

definition channelScopeKey :: "string \<Rightarrow> string option \<Rightarrow> string \<Rightarrow> string" where
  "channelScopeKey provider externalWorkspaceId externalId = key [provider, coalesce externalWorkspaceId [], externalId]"

definition channelThreadKey :: "string \<Rightarrow> string option \<Rightarrow> string \<Rightarrow> string \<Rightarrow> string" where
  "channelThreadKey provider externalWorkspaceId externalChatId externalThreadId =
     key [provider, coalesce externalWorkspaceId [], externalChatId, externalThreadId]"

definition channel_record :: "env \<Rightarrow> json option \<Rightarrow> string \<Rightarrow> error + json" where
  "channel_record e value label = normalizeRecord e value label CHANNEL_METADATA_MAX_BYTES"

section \<open>Headless agents\<close>

definition put_agent :: "string \<Rightarrow> headless_agent \<Rightarrow> 'a channel_store_scheme \<Rightarrow> 'a channel_store_scheme" where
  "put_agent k a s = s\<lparr> headlessAgents := map_set k a (headlessAgents s) \<rparr>"

definition agent_status_text :: "agent_status \<Rightarrow> string" where
  "agent_status_text st = (case st of AgActive \<Rightarrow> ''active'' | AgDisabled \<Rightarrow> ''disabled'')"

definition new_agent :: "env \<Rightarrow> create_agent_input \<Rightarrow> error + headless_agent" where
  "new_agent e inp =
     try_pure (channel_text (ga_agentId inp) ''Headless agent id'') (\<lambda>agentId.
     try_pure (channel_text (ga_profileName inp) ''Headless agent profile'') (\<lambda>profileName.
     try_pure (channel_text (ga_name inp) ''Headless agent name'') (\<lambda>name.
       Inr \<lparr> ha_agentId = agentId, ha_orgId = ga_orgId inp, ha_tenantId = ga_tenantId inp, ha_profileName = profileName, ha_name = name,
             ha_status = coalesce (ga_status inp) AgActive, ha_managed = (ga_managed inp = Some True),
             ha_createdByAccountId = or_null (ga_createdByAccountId inp),
             ha_createdAt = nowIso e (ga_createdAt inp), ha_updatedAt = nowIso e (ga_createdAt inp) \<rparr>)))"

definition createHeadlessAgent ::
  "env \<Rightarrow> create_agent_input \<Rightarrow> 'a channel_store_scheme \<Rightarrow> ('a channel_store_scheme, headless_agent) outcome" where
  "createHeadlessAgent e inp s =
     try_in s (requireOrg s (ga_orgId inp)) (\<lambda>_.
     try_in s (requireTenant s (ga_tenantId inp)) (\<lambda>_.
     try_in s (require_account s (ga_createdByAccountId inp)) (\<lambda>_.
       case map_get (headlessAgents s) (ga_agentId inp) of
         Some existing \<Rightarrow> if ha_orgId existing \<noteq> ga_orgId inp then (Inl (IdConflict ''headless_agent''), s) else (Inr existing, s)
       | None \<Rightarrow>
           try_in s (new_agent e inp) (\<lambda>a.
             audited e (system_audit (ha_orgId a) (ha_createdByAccountId a) ''headless_agent.create'' ''headless_agent.created''
                 ''headless_agent'' (ha_agentId a)
                 [(''name'', JStr (ha_name a)), (''profileName'', JStr (ha_profileName a)), (''managed'', JBool (ha_managed a))] (ga_createdAt inp))
               a (put_agent (ha_agentId a) a s)))))"

text \<open>An update writes field after field: when a later field is refused the earlier ones stay written.\<close>

definition optional_text :: "string option \<Rightarrow> string \<Rightarrow> string \<Rightarrow> error + string" where
  "optional_text v label old = (case v of None \<Rightarrow> Inr old | Some t \<Rightarrow> channel_text t label)"

definition updateHeadlessAgent ::
  "env \<Rightarrow> update_agent_input \<Rightarrow> 'a channel_store_scheme \<Rightarrow> ('a channel_store_scheme, headless_agent option) outcome" where
  "updateHeadlessAgent e inp s =
     (case map_get (headlessAgents s) (gu_agentId inp) of
        None \<Rightarrow> (Inr None, s)
      | Some existing \<Rightarrow>
          if ha_orgId existing \<noteq> gu_orgId inp then (Inr None, s)
          else
            try_in s (optional_text (gu_profileName inp) ''Headless agent profile'' (ha_profileName existing)) (\<lambda>profileName.
            let a1 = existing\<lparr> ha_profileName := profileName \<rparr>; s1 = put_agent (gu_agentId inp) a1 s in
            try_in s1 (optional_text (gu_name inp) ''Headless agent name'' (ha_name existing)) (\<lambda>name.
            let a = a1\<lparr> ha_name := name, ha_status := coalesce (gu_status inp) (ha_status existing),
                  ha_managed := coalesce (gu_managed inp) (ha_managed existing), ha_updatedAt := nowIso e (gu_updatedAt inp) \<rparr>
            in audited e (actor_audit (gu_orgId inp) (or_null (Option.bind (gu_actor inp) aa_accountId)) (gu_actor inp) ''headless_agent.updated''
                   ''headless_agent'' (ha_agentId a)
                   [(''profileName'', JStr (ha_profileName a)), (''name'', JStr (ha_name a)), (''status'', JStr (agent_status_text (ha_status a))),
                    (''managed'', JBool (ha_managed a))] (gu_updatedAt inp))
                 (Some a) (put_agent (gu_agentId inp) a s1))))"

definition getHeadlessAgent :: "'a channel_store_scheme \<Rightarrow> string \<Rightarrow> string \<Rightarrow> headless_agent option" where
  "getHeadlessAgent s orgId agentId =
     (case map_get (headlessAgents s) agentId of Some a \<Rightarrow> (if ha_orgId a = orgId then Some a else None) | None \<Rightarrow> None)"

definition listHeadlessAgents :: "env \<Rightarrow> 'a channel_store_scheme \<Rightarrow> string \<Rightarrow> headless_agent list" where
  "listHeadlessAgents e s orgId =
     js_sort (cmp_then (cmp_rev (cmp_by ha_updatedAt cmp_int)) (cmp_by ha_agentId (locale_compare e)))
       (filter (\<lambda>a. ha_orgId a = orgId) (map_values (headlessAgents s)))"


section \<open>Channel bindings\<close>

definition put_binding :: "string \<Rightarrow> channel_binding \<Rightarrow> 'a channel_store_scheme \<Rightarrow> 'a channel_store_scheme" where
  "put_binding k b s = s\<lparr> channelBindings := map_set k b (channelBindings s) \<rparr>"

definition binding_status_text :: "binding_status \<Rightarrow> string" where
  "binding_status_text st =
     (case st of BdActive \<Rightarrow> ''active'' | BdDisabled \<Rightarrow> ''disabled'' | BdAuthRequired \<Rightarrow> ''auth_required'' | BdError \<Rightarrow> ''error'')"

definition active_bindings :: "'a channel_store_scheme \<Rightarrow> string \<Rightarrow> int" where
  "active_bindings s orgId =
     int (length (filter (\<lambda>b. cb_orgId b = orgId \<and> cb_status b \<noteq> BdDisabled) (map_values (channelBindings s))))"

definition binding_quota :: "env \<Rightarrow> create_binding_input \<Rightarrow> 'a channel_store_scheme \<Rightarrow> error + unit" where
  "binding_quota e inp s =
     (case gb_maxPerOrg inp of
        None \<Rightarrow> Inr ()
      | Some limit \<Rightarrow>
          if limit > 0 \<and> active_bindings s (gb_orgId inp) \<ge> limit
          then Inl (quotaExceeded ''Gateway channel binding quota exceeded.'' (or_else (gb_policyCode inp) ''quota.gateway_channel_bindings_exceeded'')
                 60000 limit (active_bindings s (gb_orgId inp)) (clock e + 60000))
          else Inr ())"

definition new_binding :: "env \<Rightarrow> create_binding_input \<Rightarrow> error + channel_binding" where
  "new_binding e inp =
     try_pure (channel_text (gb_bindingId inp) ''Channel binding id'') (\<lambda>bindingId.
     try_pure (normalizeChannelProviderId (gb_provider inp)) (\<lambda>provider.
     try_pure (channel_nullable (gb_externalWorkspaceId inp) ''External workspace id'') (\<lambda>workspace.
     try_pure (channel_text (gb_displayName inp) ''Channel binding name'') (\<lambda>displayName.
     try_pure (channel_nullable (gb_credentialRef inp) ''Credential ref'') (\<lambda>credentialRef.
     try_pure (channel_record e (gb_settings inp) ''Channel binding settings'') (\<lambda>settings.
       Inr \<lparr> cb_bindingId = bindingId, cb_orgId = gb_orgId inp, cb_agentId = gb_agentId inp, cb_provider = provider,
             cb_externalWorkspaceId = workspace, cb_displayName = displayName, cb_status = coalesce (gb_status inp) BdActive,
             cb_credentialRef = credentialRef, cb_settings = settings,
             cb_createdAt = nowIso e (gb_createdAt inp), cb_updatedAt = nowIso e (gb_createdAt inp) \<rparr>))))))"

definition createChannelBinding ::
  "env \<Rightarrow> create_binding_input \<Rightarrow> 'a channel_store_scheme \<Rightarrow> ('a channel_store_scheme, channel_binding) outcome" where
  "createChannelBinding e inp s =
     (if getHeadlessAgent s (gb_orgId inp) (gb_agentId inp) = None
      then (Inl (Error (''Unknown headless agent '' @ gb_agentId inp @ ''.'')), s)
      else case map_get (channelBindings s) (gb_bindingId inp) of
        Some existing \<Rightarrow> if cb_orgId existing \<noteq> gb_orgId inp then (Inl (IdConflict ''channel_binding''), s) else (Inr existing, s)
      | None \<Rightarrow>
          try_in s (binding_quota e inp s) (\<lambda>_.
          try_in s (new_binding e inp) (\<lambda>b.
            audited e (system_audit (cb_orgId b) None ''channel_binding.create'' ''channel_binding.created'' ''channel_binding'' (cb_bindingId b)
                [(''provider'', JStr (cb_provider b)), (''displayName'', JStr (cb_displayName b)),
                 (''credentialRefConfigured'', JBool (or_null (cb_credentialRef b) \<noteq> None))] (gb_createdAt inp))
              b (put_binding (cb_bindingId b) b s))))"

definition updateChannelBinding ::
  "env \<Rightarrow> update_binding_input \<Rightarrow> 'a channel_store_scheme \<Rightarrow> ('a channel_store_scheme, channel_binding option) outcome" where
  "updateChannelBinding e inp s =
     (case map_get (channelBindings s) (gv_bindingId inp) of
        None \<Rightarrow> (Inr None, s)
      | Some existing \<Rightarrow>
          if cb_orgId existing \<noteq> gv_orgId inp then (Inr None, s)
          else
            try_in s (optional_text (gv_displayName inp) ''Channel binding name'' (cb_displayName existing)) (\<lambda>displayName.
            let b1 = existing\<lparr> cb_displayName := displayName, cb_status := coalesce (gv_status inp) (cb_status existing) \<rparr>;
                s1 = put_binding (gv_bindingId inp) b1 s in
            try_in s1 (case gv_credentialRef inp of None \<Rightarrow> Inr (cb_credentialRef existing) | Some r \<Rightarrow> channel_nullable r ''Credential ref'') (\<lambda>credentialRef.
            let b2 = b1\<lparr> cb_credentialRef := credentialRef \<rparr>; s2 = put_binding (gv_bindingId inp) b2 s1 in
            try_in s2 (case gv_settings inp of None \<Rightarrow> Inr (cb_settings existing) | Some v \<Rightarrow> channel_record e (Some v) ''Channel binding settings'') (\<lambda>settings.
            let b = b2\<lparr> cb_settings := settings, cb_updatedAt := nowIso e (gv_updatedAt inp) \<rparr> in
            audited e (actor_audit (gv_orgId inp) (or_null (Option.bind (gv_actor inp) aa_accountId)) (gv_actor inp) ''channel_binding.updated''
                ''channel_binding'' (cb_bindingId b)
                [(''provider'', JStr (cb_provider b)), (''displayName'', JStr (cb_displayName b)), (''status'', JStr (binding_status_text (cb_status b))),
                 (''credentialRefConfigured'', JBool (or_null (cb_credentialRef b) \<noteq> None)), (''settingsChanged'', JBool (gv_settings inp \<noteq> None))]
                (gv_updatedAt inp))
              (Some b) (put_binding (gv_bindingId inp) b s2)))))"

definition getChannelBinding :: "'a channel_store_scheme \<Rightarrow> string \<Rightarrow> string \<Rightarrow> channel_binding option" where
  "getChannelBinding s orgId bindingId =
     (case map_get (channelBindings s) bindingId of Some b \<Rightarrow> (if cb_orgId b = orgId then Some b else None) | None \<Rightarrow> None)"

definition listChannelBindings :: "env \<Rightarrow> 'a channel_store_scheme \<Rightarrow> string \<Rightarrow> string option \<Rightarrow> channel_binding list" where
  "listChannelBindings e s orgId agentId =
     js_sort (cmp_then (cmp_rev (cmp_by cb_updatedAt cmp_int)) (cmp_by cb_bindingId (locale_compare e)))
       (filter (\<lambda>b. cb_orgId b = orgId \<and> (case or_null agentId of Some a \<Rightarrow> cb_agentId b = a | None \<Rightarrow> True)) (map_values (channelBindings s)))"


section \<open>External identities\<close>

definition CHANNEL_IDENTITY_ROLES :: "string list" where
  "CHANNEL_IDENTITY_ROLES = [''owner'', ''admin'', ''member'', ''approver'', ''viewer'']"

definition normalizeChannelIdentityRole :: "string \<Rightarrow> error + string" where
  "normalizeChannelIdentityRole v =
     try_pure (normalizeText (Some (if v = [] then ''viewer'' else v)) 32 ''Channel identity role'') (\<lambda>r.
       if r \<in> set CHANNEL_IDENTITY_ROLES then Inr r else Inl (Error (''Unsupported channel identity role '' @ r @ ''.'')))"

text \<open>The identity of an external user: organisation, provider, workspace and user.\<close>

definition identity_key :: "string \<Rightarrow> string \<Rightarrow> string option \<Rightarrow> string \<Rightarrow> string" where
  "identity_key orgId provider workspace user = key [orgId, channelScopeKey provider workspace user]"

definition upsertChannelIdentity ::
  "env \<Rightarrow> upsert_identity_input \<Rightarrow> 'a channel_store_scheme \<Rightarrow> ('a channel_store_scheme, channel_identity) outcome" where
  "upsertChannelIdentity e inp s =
     try_in s (requireOrg s (gi_orgId inp)) (\<lambda>_.
     try_in s (require_account s (case gi_accountId inp of Some a \<Rightarrow> a | None \<Rightarrow> None)) (\<lambda>_.
     try_in s (normalizeChannelProviderId (gi_provider inp)) (\<lambda>provider.
     try_in s (channel_nullable (gi_externalWorkspaceId inp) ''External workspace id'') (\<lambda>workspace.
     try_in s (channel_text (gi_externalUserId inp) ''External user id'') (\<lambda>user.
       let externalKey = identity_key (gi_orgId inp) provider workspace user;
           existing = Option.bind (or_null (map_get (identitiesByExternal s) externalKey)) (map_get (channelIdentities s));
           now = nowIso e (gi_updatedAt inp)
       in
       try_in s (case gi_role inp of None \<Rightarrow> Inr (or_else (map_option ci_role existing) ''viewer'') | Some r \<Rightarrow> normalizeChannelIdentityRole r) (\<lambda>role.
       try_in s (case gi_metadata inp of None \<Rightarrow> Inr (case existing of Some i \<Rightarrow> ci_metadata i | None \<Rightarrow> JObj [])
                 | Some m \<Rightarrow> channel_record e (Some m) ''Channel identity metadata'') (\<lambda>meta.
         let i = \<lparr> ci_identityId = or_else (map_option ci_identityId existing) (or_else (gi_identityId inp)
                     (stableId e ''chid'' [gi_orgId inp, provider, coalesce workspace [], user])),
                   ci_orgId = gi_orgId inp, ci_provider = provider, ci_externalWorkspaceId = workspace, ci_externalUserId = user,
                   ci_accountId = (case gi_accountId inp of None \<Rightarrow> or_null (Option.bind existing ci_accountId) | Some a \<Rightarrow> or_null a),
                   ci_role = role, ci_status = coalesce (gi_status inp) (case existing of Some x \<Rightarrow> ci_status x | None \<Rightarrow> IdPending),
                   ci_metadata = meta, ci_createdAt = (case existing of Some x \<Rightarrow> ci_createdAt x | None \<Rightarrow> now), ci_updatedAt = now \<rparr>
         in (Inr i, s\<lparr> channelIdentities := map_set (ci_identityId i) i (channelIdentities s),
                      identitiesByExternal := map_set externalKey (ci_identityId i) (identitiesByExternal s) \<rparr>))))))))"

definition getChannelIdentity :: "'a channel_store_scheme \<Rightarrow> string \<Rightarrow> string \<Rightarrow> channel_identity option" where
  "getChannelIdentity s orgId identityId =
     (case map_get (channelIdentities s) identityId of Some i \<Rightarrow> (if ci_orgId i = orgId then Some i else None) | None \<Rightarrow> None)"

definition listChannelIdentities :: "env \<Rightarrow> 'a channel_store_scheme \<Rightarrow> string \<Rightarrow> list_identities_input \<Rightarrow> error + channel_identity list" where
  "listChannelIdentities e s orgId inp =
     try_pure (case or_null (gl_provider inp) of None \<Rightarrow> Inr None | Some p \<Rightarrow> try_pure (normalizeChannelProviderId p) (\<lambda>x. Inr (Some x))) (\<lambda>provider.
     try_pure (case gl_externalWorkspaceId inp of None \<Rightarrow> Inr None
               | Some w \<Rightarrow> try_pure (channel_nullable w ''External workspace id'') (\<lambda>x. Inr (Some x))) (\<lambda>workspace.
     try_pure (case or_null (gl_role inp) of None \<Rightarrow> Inr None | Some r \<Rightarrow> try_pure (normalizeChannelIdentityRole r) (\<lambda>x. Inr (Some x))) (\<lambda>role.
       let limit = (case gl_limit inp of Some (JInt n) \<Rightarrow> (if n > 0 then min n 500 else 100) | _ \<Rightarrow> 100)
       in Inr (slice_int (js_sort (cmp_then (cmp_rev (cmp_by ci_updatedAt cmp_int)) (cmp_by ci_identityId (locale_compare e)))
            (filter (\<lambda>i. ci_orgId i = orgId \<and> (provider = None \<or> Some (ci_provider i) = provider)
               \<and> (workspace = None \<or> Some (ci_externalWorkspaceId i) = workspace) \<and> (role = None \<or> Some (ci_role i) = role)
               \<and> (gl_status inp = None \<or> Some (ci_status i) = gl_status inp)) (map_values (channelIdentities s)))) limit))))"

definition findChannelIdentity ::
  "'a channel_store_scheme \<Rightarrow> string \<Rightarrow> string \<Rightarrow> string option \<Rightarrow> string \<Rightarrow> error + channel_identity option" where
  "findChannelIdentity s orgId providerIn workspaceIn userIn =
     try_pure (normalizeChannelProviderId providerIn) (\<lambda>provider.
     try_pure (channel_nullable workspaceIn ''External workspace id'') (\<lambda>workspace.
     try_pure (channel_text userIn ''External user id'') (\<lambda>user.
       Inr (Option.bind (or_null (map_get (identitiesByExternal s) (identity_key orgId provider workspace user))) (map_get (channelIdentities s))))))"


section \<open>Chat threads bound to sessions\<close>

definition thread_key :: "string \<Rightarrow> string \<Rightarrow> string option \<Rightarrow> string \<Rightarrow> string \<Rightarrow> string" where
  "thread_key orgId provider workspace chat thread = key [orgId, channelThreadKey provider workspace chat thread]"

definition new_session_binding ::
  "env \<Rightarrow> bind_session_input \<Rightarrow> string \<Rightarrow> string option \<Rightarrow> string \<Rightarrow> string \<Rightarrow> error + channel_session_binding" where
  "new_session_binding e inp provider workspace chat thread =
     try_pure (channel_text (gs_bindingId inp) ''Channel session binding id'') (\<lambda>bindingId.
     try_pure (normalizeNonNegativeInteger (gs_lastEventSequence inp) ''Last event sequence'') (\<lambda>lastEvent.
     try_pure (normalizeNonNegativeInteger (gs_lastWorkspaceSequence inp) ''Last workspace sequence'') (\<lambda>lastWorkspace.
     try_pure (channel_nullable (gs_lastChatMessageId inp) ''Last chat message id'') (\<lambda>lastChat.
       Inr \<lparr> sb_bindingId = bindingId, sb_orgId = gs_orgId inp, sb_agentId = gs_agentId inp, sb_channelBindingId = gs_channelBindingId inp,
             sb_provider = provider, sb_externalWorkspaceId = workspace, sb_externalThreadId = thread, sb_externalChatId = chat,
             sb_sessionId = gs_sessionId inp, sb_lastEventSequence = lastEvent, sb_lastWorkspaceSequence = lastWorkspace,
             sb_lastChatMessageId = lastChat, sb_status = coalesce (gs_status inp) ThActive,
             sb_createdAt = nowIso e (gs_createdAt inp), sb_updatedAt = nowIso e (gs_createdAt inp) \<rparr>))))"

definition require_known_session :: "'a session_store_scheme \<Rightarrow> string \<Rightarrow> string \<Rightarrow> error + unit" where
  "require_known_session s orgId sessionId =
     try_pure (getSessionForTenant s (or_else (orgTenantId s orgId) orgId) sessionId) (\<lambda>session.
       if session = None then Inl (Error (''Unknown session '' @ sessionId @ ''.'')) else Inr ())"

definition bindChannelSession ::
  "env \<Rightarrow> bind_session_input \<Rightarrow> 'a channel_store_scheme \<Rightarrow> ('a channel_store_scheme, channel_session_binding option) outcome" where
  "bindChannelSession e inp s =
     (case getChannelBinding s (gs_orgId inp) (gs_channelBindingId inp) of
        None \<Rightarrow> (Inl (Error (''Unknown channel binding '' @ gs_channelBindingId inp @ ''.'')), s)
      | Some cb \<Rightarrow>
      (case getHeadlessAgent s (gs_orgId inp) (gs_agentId inp) of
        None \<Rightarrow> (Inl (Error (''Unknown headless agent '' @ gs_agentId inp @ ''.'')), s)
      | Some agent \<Rightarrow>
        if cb_agentId cb \<noteq> ha_agentId agent then (Inl (Error ''Channel session binding agent does not match channel binding.''), s)
        else
          try_in s (normalizeChannelProviderId (gs_provider inp)) (\<lambda>provider.
          if cb_provider cb \<noteq> provider then (Inl (Error ''Channel session binding provider does not match channel binding.''), s)
          else
          try_in s (channel_nullable (gs_externalWorkspaceId inp) ''External workspace id'') (\<lambda>workspace.
          try_in s (channel_text (gs_externalChatId inp) ''External chat id'') (\<lambda>chat.
          try_in s (channel_text (gs_externalThreadId inp) ''External thread id'') (\<lambda>thread.
            let tk = thread_key (gs_orgId inp) provider workspace chat thread in
            (case or_null (map_get (channelSessionBindingsByThread s) tk) of
              Some existingId \<Rightarrow> (Inr (map_get (channelSessionBindings s) existingId), s)
            | None \<Rightarrow>
                try_in s (require_known_session s (gs_orgId inp) (gs_sessionId inp)) (\<lambda>_.
                  try_in s (new_session_binding e inp provider workspace chat thread) (\<lambda>b.
                    audited e (system_audit (sb_orgId b) None ''channel_session.bind'' ''channel_session_bound'' ''channel_session_binding''
                        (sb_bindingId b) [(''provider'', JStr (sb_provider b)), (''sessionId'', JStr (sb_sessionId b))] (gs_createdAt inp))
                      (Some b)
                      (s\<lparr> channelSessionBindings := map_set (sb_bindingId b) b (channelSessionBindings s),
                         channelSessionBindingsByThread := map_set tk (sb_bindingId b) (channelSessionBindingsByThread s) \<rparr>))))))))))"

definition getChannelSessionBinding :: "'a channel_store_scheme \<Rightarrow> string \<Rightarrow> string \<Rightarrow> channel_session_binding option" where
  "getChannelSessionBinding s orgId bindingId =
     (case map_get (channelSessionBindings s) bindingId of Some b \<Rightarrow> (if sb_orgId b = orgId then Some b else None) | None \<Rightarrow> None)"

definition findChannelSessionBindingByThread ::
  "'a channel_store_scheme \<Rightarrow> string \<Rightarrow> string \<Rightarrow> string option \<Rightarrow> string \<Rightarrow> string \<Rightarrow> error + channel_session_binding option" where
  "findChannelSessionBindingByThread s orgId providerIn workspaceIn chatIn threadIn =
     try_pure (normalizeChannelProviderId providerIn) (\<lambda>provider.
     try_pure (channel_nullable workspaceIn ''External workspace id'') (\<lambda>workspace.
     try_pure (channel_text chatIn ''External chat id'') (\<lambda>chat.
     try_pure (channel_text threadIn ''External thread id'') (\<lambda>thread.
       Inr (Option.bind (or_null (map_get (channelSessionBindingsByThread s) (thread_key orgId provider workspace chat thread)))
              (map_get (channelSessionBindings s)))))))"

definition listChannelSessionBindingsForSession :: "'a channel_store_scheme \<Rightarrow> string \<Rightarrow> string \<Rightarrow> channel_session_binding list" where
  "listChannelSessionBindingsForSession s orgId sessionId =
     filter (\<lambda>b. sb_orgId b = orgId \<and> sb_sessionId b = sessionId \<and> sb_status b = ThActive) (map_values (channelSessionBindings s))"

text \<open>A chat message id that is refused is refused after the two sequences have been written.\<close>

definition updateChannelCursor ::
  "env \<Rightarrow> cursor_input \<Rightarrow> 'a channel_store_scheme \<Rightarrow> ('a channel_store_scheme, cursor_result) outcome" where
  "updateChannelCursor e inp s =
     (case getChannelSessionBinding s (gc_orgId inp) (gc_bindingId inp) of
        None \<Rightarrow> (Inr CursorNotFound, s)
      | Some existing \<Rightarrow>
          try_in s (normalizeNonNegativeInteger (Some (gc_lastEventSequence inp)) ''Last event sequence'') (\<lambda>lastEvent.
          try_in s (normalizeNonNegativeInteger (Some (gc_lastWorkspaceSequence inp)) ''Last workspace sequence'') (\<lambda>lastWorkspace.
            if lastEvent < sb_lastEventSequence existing \<or> lastWorkspace < sb_lastWorkspaceSequence existing
            then (Inr (CursorStale existing), s)
            else
              let put = (\<lambda>b. s\<lparr> channelSessionBindings := map_set (gc_bindingId inp) b (channelSessionBindings s) \<rparr>);
                  b1 = existing\<lparr> sb_lastEventSequence := lastEvent, sb_lastWorkspaceSequence := lastWorkspace \<rparr> in
              try_in (put b1) (case gc_lastChatMessageId inp of None \<Rightarrow> Inr (sb_lastChatMessageId existing)
                               | Some m \<Rightarrow> channel_nullable m ''Last chat message id'') (\<lambda>lastChat.
                let b = b1\<lparr> sb_lastChatMessageId := lastChat, sb_updatedAt := nowIso e (gc_updatedAt inp) \<rparr>
                in (Inr (CursorMoved b), put b)))))"

end
