(* ===== verification/Channel_Messages.thy ===== *)
theory Channel_Messages
  imports Channel_Directory
begin

text \<open>
  Messages over chat channels: single-use interaction tokens (\<open>channel-interactions.ts\<close> and the
  interaction methods of \<open>in-memory-control-plane-store.ts\<close>), the deduplicating inbox of provider events
  (\<open>channel-provider-events.ts\<close>) and the outbound delivery queue (\<open>channel-deliveries.ts\<close>).
\<close>


section \<open>Interactions\<close>

record create_interaction_input =
  xi_interactionId :: string
  xi_orgId :: string
  xi_agentId :: string
  xi_channelBindingId :: string
  xi_sessionBindingId :: string
  xi_sessionId :: string
  xi_provider :: string
  xi_externalInteractionId :: "string option"
  xi_kind :: interaction_kind
  xi_targetId :: string
  xi_expiresAt :: iso
  xi_tokenSecret :: "string option"
  xi_createdAt :: "iso option"

text \<open>\<open>channelBindingIds\<close> is \<open>None\<close> when null or undefined.\<close>

record find_interaction_input =
  xf_orgId :: string
  xf_channelBindingIds :: "string list option"
  xf_token :: "string option"
  xf_externalInteractionId :: "string option"
  xf_provider :: "string option"

record resolve_interaction_input =
  xr_find :: find_interaction_input
  xr_identityId :: string
  xr_usedAt :: "iso option"

definition interaction_kind_text :: "interaction_kind \<Rightarrow> string" where
  "interaction_kind_text k = (case k of KPermission \<Rightarrow> ''permission'' | KQuestion \<Rightarrow> ''question'')"

definition put_interaction :: "channel_interaction \<Rightarrow> 'a channel_store_scheme \<Rightarrow> 'a channel_store_scheme" where
  "put_interaction i s = s\<lparr> channelInteractions := map_set (ix_interactionId i) i (channelInteractions s) \<rparr>"

definition same_references :: "create_interaction_input \<Rightarrow> channel_session_binding \<Rightarrow> bool" where
  "same_references inp b =
     (sb_channelBindingId b = xi_channelBindingId inp \<and> sb_agentId b = xi_agentId inp \<and> sb_sessionId b = xi_sessionId inp
      \<and> sb_provider b = xi_provider inp)"

text \<open>The provider is normalised for each candidate of the organisation and binding, so not when there is none.\<close>

definition external_taken :: "create_interaction_input \<Rightarrow> string option \<Rightarrow> channel_interaction list \<Rightarrow> error + unit" where
  "external_taken inp external vs =
     (case or_null external of
        None \<Rightarrow> Inr ()
      | Some x \<Rightarrow>
          (let cands = filter (\<lambda>i. ix_orgId i = xi_orgId inp \<and> ix_channelBindingId i = Some (xi_channelBindingId inp)) vs in
           if cands = [] then Inr ()
           else try_pure (normalizeChannelProviderId (xi_provider inp)) (\<lambda>p.
             if list_ex (\<lambda>i. ix_provider i = p \<and> ix_externalInteractionId i = Some x) cands
             then Inl (Error ''Channel interaction already exists for this binding and external interaction id.'') else Inr ())))"

definition new_interaction :: "env \<Rightarrow> create_interaction_input \<Rightarrow> string \<Rightarrow> string option \<Rightarrow> string \<Rightarrow> error + channel_interaction" where
  "new_interaction e inp interactionId external tokenHash =
     try_pure (channel_text (xi_agentId inp) ''Headless agent id'') (\<lambda>agentId.
     try_pure (channel_text (xi_channelBindingId inp) ''Channel binding id'') (\<lambda>channelBindingId.
     try_pure (channel_text (xi_sessionBindingId inp) ''Channel session binding id'') (\<lambda>sessionBindingId.
     try_pure (channel_text (xi_sessionId inp) ''Session id'') (\<lambda>sessionId.
     try_pure (normalizeChannelProviderId (xi_provider inp)) (\<lambda>provider.
     try_pure (channel_text (xi_targetId inp) ''Interaction target id'') (\<lambda>targetId.
       Inr \<lparr> ix_interactionId = interactionId, ix_orgId = xi_orgId inp, ix_agentId = agentId, ix_channelBindingId = Some channelBindingId,
             ix_sessionBindingId = Some sessionBindingId, ix_sessionId = sessionId, ix_provider = provider,
             ix_externalInteractionId = external, ix_tokenHash = tokenHash, ix_kind = xi_kind inp, ix_targetId = targetId,
             ix_status = IPending, ix_createdByIdentityId = None, ix_expiresAt = xi_expiresAt inp, ix_usedAt = None,
             ix_createdAt = nowIso e (xi_createdAt inp), ix_updatedAt = nowIso e (xi_createdAt inp) \<rparr>))))))"

text \<open>Result: the record and the plaintext token.\<close>

definition createChannelInteraction ::
  "crypto \<Rightarrow> env \<Rightarrow> create_interaction_input \<Rightarrow> 'a channel_store_scheme \<Rightarrow> ('a channel_store_scheme, channel_interaction \<times> string) outcome" where
  "createChannelInteraction c e inp s =
     try_in s (requireOrg s (xi_orgId inp)) (\<lambda>_.
     if getHeadlessAgent s (xi_orgId inp) (xi_agentId inp) = None then (Inl (Error (''Unknown headless agent '' @ xi_agentId inp @ ''.'')), s)
     else if \<not> (case getChannelSessionBinding s (xi_orgId inp) (xi_sessionBindingId inp) of Some b \<Rightarrow> same_references inp b | None \<Rightarrow> False)
     then (Inl (Error ''Channel interaction binding references must match the same agent, provider, and session.''), s)
     else
       try_in s (require_known_session s (xi_orgId inp) (xi_sessionId inp)) (\<lambda>_.
       try_in s (channel_text (xi_interactionId inp) ''Channel interaction id'') (\<lambda>interactionId.
         let plaintext = generateChannelInteractionToken c interactionId (xi_tokenSecret inp);
             tokenHash = hashSecretWithRandomSalt c plaintext in
         (case map_get (channelInteractions s) interactionId of
            Some existing \<Rightarrow>
              if ix_orgId existing \<noteq> xi_orgId inp then (Inl (IdConflict ''channel_interaction''), s)
              else (Inl (Error (''Channel interaction '' @ interactionId @ '' already exists.'')), s)
          | None \<Rightarrow>
              try_in s (channel_nullable (xi_externalInteractionId inp) ''External interaction id'') (\<lambda>external.
              try_in s (external_taken inp external (map_values (channelInteractions s))) (\<lambda>_.
              try_in s (new_interaction e inp interactionId external tokenHash) (\<lambda>i.
                (Inr (i, plaintext), put_interaction i s))))))))"

definition in_bindings :: "string list option \<Rightarrow> string option \<Rightarrow> bool" where
  "in_bindings ids b = (case ids of None \<Rightarrow> True | Some xs \<Rightarrow> (case b of None \<Rightarrow> False | Some x \<Rightarrow> x \<in> set xs))"

text \<open>The candidate that the token, or the external id, names; \<open>None\<close> when there is none or it is ambiguous.\<close>

definition named_interaction :: "crypto \<Rightarrow> find_interaction_input \<Rightarrow> channel_interaction list \<Rightarrow> channel_interaction option" where
  "named_interaction c inp vs =
     (case or_null (xf_token inp) of
        Some token \<Rightarrow>
          find (\<lambda>i. ix_orgId i = xf_orgId inp \<and> plaintextMatchesChannelInteractionId token (ix_interactionId i)
            \<and> verifySecretHash c token (ix_tokenHash i)) vs
      | None \<Rightarrow>
          (case (or_null (xf_externalInteractionId inp), or_null (xf_provider inp)) of
             (Some x, Some p) \<Rightarrow>
               (case filter (\<lambda>i. ix_orgId i = xf_orgId inp \<and> ix_provider i = p \<and> ix_externalInteractionId i = Some x
                    \<and> in_bindings (xf_channelBindingIds inp) (ix_channelBindingId i)) vs of
                  [i] \<Rightarrow> Some i
                | _ \<Rightarrow> None)
           | _ \<Rightarrow> None))"

definition findMutableChannelInteraction ::
  "crypto \<Rightarrow> find_interaction_input \<Rightarrow> iso \<Rightarrow> 'a channel_store_scheme \<Rightarrow> channel_interaction option \<times> 'a channel_store_scheme" where
  "findMutableChannelInteraction c inp now s =
     (if xf_channelBindingIds inp = Some [] then (None, s)
      else case named_interaction c inp (map_values (channelInteractions s)) of
        None \<Rightarrow> (None, s)
      | Some i \<Rightarrow>
          if ix_orgId i \<noteq> xf_orgId inp \<or> \<not> in_bindings (xf_channelBindingIds inp) (ix_channelBindingId i) \<or> ix_status i \<noteq> IPending
          then (None, s)
          else if ix_expiresAt i \<le> now then (None, put_interaction (i\<lparr> ix_status := IExpired, ix_updatedAt := now \<rparr>) s)
          else (Some i, s))"

definition findChannelInteraction ::
  "crypto \<Rightarrow> env \<Rightarrow> find_interaction_input \<Rightarrow> iso option \<Rightarrow> 'a channel_store_scheme \<Rightarrow> channel_interaction option \<times> 'a channel_store_scheme" where
  "findChannelInteraction c e inp now s = findMutableChannelInteraction c inp (nowIso e now) s"

definition used_interaction :: "iso \<Rightarrow> channel_interaction \<Rightarrow> channel_interaction" where
  "used_interaction now i = i\<lparr> ix_status := IUsed, ix_usedAt := Some now, ix_updatedAt := now \<rparr>"

text \<open>
  The object a lookup found is still the one in the map. Of an interaction object only the status, the time of
  use and the time of update are ever assigned, so the other fields, the salted token hash among them, identify it.
\<close>

definition still_stored :: "channel_interaction \<Rightarrow> 'a channel_store_scheme \<Rightarrow> bool" where
  "still_stored i s =
     (case map_get (channelInteractions s) (ix_interactionId i) of
        Some j \<Rightarrow> used_interaction 0 j = used_interaction 0 i
      | None \<Rightarrow> False)"

text \<open>The write that uses an interaction up, with its audit entry; an object no longer in the map is written unseen.\<close>

definition use_interaction ::
  "env \<Rightarrow> string \<Rightarrow> iso \<Rightarrow> channel_interaction \<Rightarrow> 'r \<Rightarrow> 'a channel_store_scheme \<Rightarrow> ('a channel_store_scheme, 'r) outcome" where
  "use_interaction e identityId now i result s =
     audited e (system_audit (ix_orgId i) None identityId ''channel_interaction.used'' ''channel_interaction'' (ix_interactionId i)
         [(''kind'', JStr (interaction_kind_text (ix_kind i))), (''targetId'', JStr (ix_targetId i))] (Some now))
       result (if still_stored i s then put_interaction (used_interaction now i) s else s)"

text \<open>
  Resolving awaits the lookup. The lookup ends with the test that the interaction is pending; the code after
  the \<open>await\<close> writes without testing again. \<open>meanwhile\<close> is what the rest of the program does to the store
  while the call is suspended between the two; it is the identity for a call that overlaps with nothing.
\<close>

definition resolveChannelInteraction ::
  "crypto \<Rightarrow> env \<Rightarrow> resolve_interaction_input \<Rightarrow> ('a channel_store_scheme \<Rightarrow> 'a channel_store_scheme)
    \<Rightarrow> 'a channel_store_scheme \<Rightarrow> ('a channel_store_scheme, channel_interaction option) outcome" where
  "resolveChannelInteraction c e inp meanwhile s =
     (let now = nowIso e (xr_usedAt inp) in
      case findMutableChannelInteraction c (xr_find inp) now s of
        (found, s1) \<Rightarrow>
          (let s2 = meanwhile s1 in
           case found of
             None \<Rightarrow> (Inr None, s2)
           | Some i \<Rightarrow> use_interaction e (xr_identityId inp) now i (Some (used_interaction now i)) s2))"

text \<open>The part of \<open>resolveChannelInteractionWithCommand\<close> after its \<open>await\<close>, for the interaction it found.\<close>

definition resolve_found_with_command ::
  "env \<Rightarrow> resolve_interaction_input \<Rightarrow> enqueue_input \<Rightarrow> channel_interaction \<Rightarrow> 'a channel_store_scheme
    \<Rightarrow> ('a channel_store_scheme, (channel_interaction \<times> session_command) option) outcome" where
  "resolve_found_with_command e inp command i s =
     (let now = nowIso e (xr_usedAt inp) in
      if en_sessionId command \<noteq> ix_sessionId i
      then (Inl (Error ''Channel interaction command session does not match interaction session.''), s)
      else then_do (enqueueSessionCommand e command s) (\<lambda>cmd s2.
        use_interaction e (xr_identityId inp) now i (Some (used_interaction now i, cmd)) s2))"

definition resolveChannelInteractionWithCommand ::
  "crypto \<Rightarrow> env \<Rightarrow> resolve_interaction_input \<Rightarrow> enqueue_input \<Rightarrow> ('a channel_store_scheme \<Rightarrow> 'a channel_store_scheme)
    \<Rightarrow> 'a channel_store_scheme \<Rightarrow> ('a channel_store_scheme, (channel_interaction \<times> session_command) option) outcome" where
  "resolveChannelInteractionWithCommand c e inp command meanwhile s =
     (case findMutableChannelInteraction c (xr_find inp) (nowIso e (xr_usedAt inp)) s of
        (found, s1) \<Rightarrow>
          (let s2 = meanwhile s1 in
           case found of
             None \<Rightarrow> (Inr None, s2)
           | Some i \<Rightarrow> resolve_found_with_command e inp command i s2))"

definition prune_limit :: "int \<Rightarrow> int" where
  "prune_limit limit = max 1 (min 10000 limit)"

definition pruneExpiredChannelInteractions :: "iso \<Rightarrow> int \<Rightarrow> 'a channel_store_scheme \<Rightarrow> int \<times> 'a channel_store_scheme" where
  "pruneExpiredChannelInteractions cutoff limit s =
     (let stale = slice_int (js_sort (cmp_by ix_expiresAt cmp_int)
            (filter (\<lambda>i. ix_expiresAt i < cutoff) (map_values (channelInteractions s)))) (prune_limit limit)
      in (int (length stale), s\<lparr> channelInteractions := fold (\<lambda>i. map_delete (ix_interactionId i)) stale (channelInteractions s) \<rparr>))"


section \<open>Provider events\<close>

record claim_event_input =
  xe_eventId :: "string option"
  xe_orgId :: string
  xe_provider :: string
  xe_providerInstanceId :: string
  xe_channelBindingId :: "string option"
  xe_externalWorkspaceId :: "string option"
  xe_providerEventId :: string
  xe_eventType :: string
  xe_claimedBy :: string
  xe_ttlMs :: "int option"
  xe_now :: "iso option"
  xe_metadata :: "json option"

record complete_event_input =
  xc_orgId :: string
  xc_eventId :: string
  xc_channelBindingIds :: "string list option"
  xc_claimedBy :: string
  xc_failed :: bool
  xc_retryable :: "bool option"
  xc_lastError :: "string option"
  xc_updatedAt :: "iso option"

record event_claim =
  ec_event :: provider_event
  ec_claimed :: bool
  ec_duplicate :: bool

definition channelProviderEventKey :: "claim_event_input \<Rightarrow> error + string" where
  "channelProviderEventKey inp =
     try_pure (channel_nullable (xe_channelBindingId inp) ''Channel binding id'') (\<lambda>binding.
     try_pure (normalizeChannelProviderId (xe_provider inp)) (\<lambda>provider.
     try_pure (channel_text (xe_providerInstanceId inp) ''Channel provider instance id'') (\<lambda>inst.
     try_pure (channel_nullable (xe_externalWorkspaceId inp) ''Channel external workspace id'') (\<lambda>workspace.
     try_pure (channel_text (xe_eventType inp) ''Channel provider event type'') (\<lambda>eventType.
     try_pure (channel_text (xe_providerEventId inp) ''Channel provider event id'') (\<lambda>providerEventId.
       Inr (key [xe_orgId inp, coalesce binding [], provider, inst, coalesce workspace [], eventType, providerEventId])))))))"

definition normalizeChannelProviderEventType :: "string \<Rightarrow> error + string" where
  "normalizeChannelProviderEventType v =
     try_pure (normalizeText (Some (if v = [] then ''message'' else v)) 32 ''Channel provider event type'') (\<lambda>t.
       if t \<in> set [''message'', ''command'', ''interaction''] then Inr t
       else Inl (Error (''Unsupported channel provider event type '' @ t @ ''.'')))"

text \<open>\<open>input.ttlMs || 5 * 60_000\<close>, within one millisecond and one hour.\<close>

definition event_ttl :: "int option \<Rightarrow> int" where
  "event_ttl ttl = max 1 (min (case ttl of Some t \<Rightarrow> (if t = 0 then 300000 else t) | None \<Rightarrow> 300000) 3600000)"

definition can_reclaim :: "int \<Rightarrow> provider_event \<Rightarrow> bool" where
  "can_reclaim nowMs ev =
     ((pv_status ev = PProcessing \<and> (case pv_claimExpiresAt ev of Some t \<Rightarrow> t \<le> nowMs | None \<Rightarrow> False))
      \<or> (pv_status ev = PFailed \<and> pv_retryable ev) \<or> pv_status ev = PReceived)"

definition put_event :: "string \<Rightarrow> provider_event \<Rightarrow> 'a channel_store_scheme \<Rightarrow> 'a channel_store_scheme" where
  "put_event k ev s = s\<lparr> providerEvents := map_set k ev (providerEvents s) \<rparr>"

definition new_event :: "env \<Rightarrow> claim_event_input \<Rightarrow> iso \<Rightarrow> string \<Rightarrow> string \<Rightarrow> error + provider_event" where
  "new_event e inp now provider eventType =
     try_pure (normalizeText (Some (or_else (xe_eventId inp) (stableId e ''channel_provider_event''
         [xe_orgId inp, coalesce (xe_channelBindingId inp) [], provider, xe_providerInstanceId inp, coalesce (xe_externalWorkspaceId inp) [],
          eventType, xe_providerEventId inp]))) CHANNEL_TEXT_MAX_LENGTH ''Channel provider event id'') (\<lambda>eventId.
     try_pure (channel_nullable (xe_channelBindingId inp) ''Channel binding id'') (\<lambda>binding.
     try_pure (channel_text (xe_providerInstanceId inp) ''Channel provider instance id'') (\<lambda>inst.
     try_pure (channel_nullable (xe_externalWorkspaceId inp) ''Channel external workspace id'') (\<lambda>workspace.
     try_pure (channel_text (xe_providerEventId inp) ''Provider event id'') (\<lambda>providerEventId.
     try_pure (channel_text (xe_claimedBy inp) ''Provider event claimant'') (\<lambda>claimedBy.
     try_pure (channel_record e (xe_metadata inp) ''Channel provider event metadata'') (\<lambda>meta.
       Inr \<lparr> pv_eventId = eventId, pv_orgId = xe_orgId inp, pv_channelBindingId = binding, pv_provider = provider, pv_providerInstanceId = inst,
             pv_externalWorkspaceId = workspace, pv_providerEventId = providerEventId, pv_eventType = eventType, pv_status = PProcessing,
             pv_claimedBy = Some claimedBy, pv_claimExpiresAt = Some (now + event_ttl (xe_ttlMs inp)), pv_attemptCount = 1, pv_retryable = True,
             pv_lastError = None, pv_metadata = meta, pv_processedAt = None, pv_createdAt = now, pv_updatedAt = now \<rparr>)))))))"

text \<open>A re-claim writes the record in place, so a refused field leaves the fields before it written.\<close>

definition claimChannelProviderEvent ::
  "env \<Rightarrow> claim_event_input \<Rightarrow> 'a channel_store_scheme \<Rightarrow> ('a channel_store_scheme, event_claim) outcome" where
  "claimChannelProviderEvent e inp s =
     try_in s (requireOrg s (xe_orgId inp)) (\<lambda>_.
     try_in s (channelProviderEventKey inp) (\<lambda>k.
     try_in s (normalizeChannelProviderId (xe_provider inp)) (\<lambda>provider.
     try_in s (normalizeChannelProviderEventType (xe_eventType inp)) (\<lambda>eventType.
       let now = nowIso e (xe_now inp) in
       (case map_get (providerEvents s) k of
          None \<Rightarrow>
            try_in s (new_event e inp now provider eventType) (\<lambda>ev.
              (Inr \<lparr> ec_event = ev, ec_claimed = True, ec_duplicate = False \<rparr>, put_event k ev s))
        | Some existing \<Rightarrow>
            let e0 = existing\<lparr> pv_updatedAt := now \<rparr> in
            if \<not> can_reclaim now existing
            then (Inr \<lparr> ec_event = e0, ec_claimed = False, ec_duplicate = True \<rparr>, put_event k e0 s)
            else
              let e1 = e0\<lparr> pv_provider := provider \<rparr> in
              try_in (put_event k e1 s) (channel_nullable (xe_channelBindingId inp) ''Channel binding id'') (\<lambda>binding.
              let e2 = e1\<lparr> pv_channelBindingId := binding, pv_eventType := eventType, pv_status := PProcessing \<rparr> in
              try_in (put_event k e2 s) (channel_text (xe_claimedBy inp) ''Provider event claimant'') (\<lambda>claimedBy.
              let e3 = e2\<lparr> pv_claimedBy := Some claimedBy, pv_claimExpiresAt := Some (now + event_ttl (xe_ttlMs inp)),
                    pv_attemptCount := pv_attemptCount existing + 1, pv_retryable := True, pv_lastError := None \<rparr> in
              try_in (put_event k e3 s) (channel_record e (xe_metadata inp) ''Channel provider event metadata'') (\<lambda>meta.
              let ev = e3\<lparr> pv_metadata := meta, pv_processedAt := None \<rparr>
              in (Inr \<lparr> ec_event = ev, ec_claimed = True, ec_duplicate = False \<rparr>, put_event k ev s)))))))))"

definition completeChannelProviderEvent ::
  "env \<Rightarrow> complete_event_input \<Rightarrow> 'a channel_store_scheme \<Rightarrow> ('a channel_store_scheme, provider_event option) outcome" where
  "completeChannelProviderEvent e inp s =
     (case find (\<lambda>p. pv_orgId (snd p) = xc_orgId inp \<and> pv_eventId (snd p) = xc_eventId inp) (providerEvents s) of
        None \<Rightarrow> (Inr None, s)
      | Some (k, ev) \<Rightarrow>
          if \<not> in_bindings (xc_channelBindingIds inp) (pv_channelBindingId ev) then (Inr None, s)
          else
            try_in s (channel_text (xc_claimedBy inp) ''Provider event claimant'') (\<lambda>claimedBy.
            if pv_claimedBy ev \<noteq> Some claimedBy then (Inr None, s)
            else
              let e1 = ev\<lparr> pv_status := (if xc_failed inp then PFailed else PProcessed), pv_claimedBy := None, pv_claimExpiresAt := None,
                    pv_retryable := (xc_failed inp \<and> xc_retryable inp \<noteq> Some False) \<rparr> in
              try_in (put_event k e1 s)
                (case (xc_failed inp, or_null (xc_lastError inp)) of
                   (True, Some t) \<Rightarrow> try_pure (redactOperationalText e t 1024 ''Provider event error'') (\<lambda>x. Inr (Some x))
                 | _ \<Rightarrow> Inr None) (\<lambda>lastError.
                let e2 = e1\<lparr> pv_lastError := lastError,
                      pv_processedAt := (if xc_failed inp then pv_processedAt ev else Some (nowIso e (xc_updatedAt inp))),
                      pv_updatedAt := nowIso e (xc_updatedAt inp) \<rparr>
                in (Inr (Some e2), put_event k e2 s))))"

section \<open>Deliveries\<close>

record create_delivery_input =
  xd_deliveryId :: string
  xd_orgId :: string
  xd_agentId :: string
  xd_channelBindingId :: string
  xd_sessionBindingId :: "string option"
  xd_provider :: string
  xd_target :: "json option"
  xd_eventType :: string
  xd_payload :: "json option"
  xd_status :: "delivery_status option"
  xd_nextAttemptAt :: "iso option"
  xd_createdAt :: "iso option"

text \<open>The quota of a claim is a usage quota of the claiming organisation at the time of the claim.\<close>

record claim_delivery_input =
  xk_orgId :: string
  xk_claimedBy :: string
  xk_lastClaimedBy :: "string option"
  xk_channelBindingIds :: "string list option"
  xk_now :: "iso option"
  xk_ttlMs :: "int option"
  xk_quota :: "usage_quota_input option"

record ack_delivery_input =
  xa_orgId :: string
  xa_deliveryId :: string
  xa_channelBindingId :: "string option"
  xa_channelBindingIds :: "string list option"
  xa_claimedBy :: "string option"
  xa_lastClaimedBy :: "string option"
  xa_status :: delivery_status
  xa_lastError :: "string option"
  xa_nextAttemptAt :: "iso option"
  xa_updatedAt :: "iso option"

record list_deliveries_input =
  xl_orgId :: string
  xl_deliveryId :: "string option"
  xl_status :: "delivery_status option"
  xl_channelBindingId :: "string option"
  xl_channelBindingIds :: "string list option"
  xl_lastClaimedBy :: "string option"
  xl_limit :: "jsnum option"

text \<open>\<open>JSON.stringify([orgId, channelBindingId, deliveryId])\<close>.\<close>

definition encodeChannelDeliveryIdentity :: "string \<Rightarrow> string \<Rightarrow> string \<Rightarrow> string" where
  "encodeChannelDeliveryIdentity orgId channelBindingId deliveryId =
     json_print (JArr [JStr orgId, JStr channelBindingId, JStr deliveryId])"

definition delivery_key :: "channel_delivery \<Rightarrow> string" where
  "delivery_key d = encodeChannelDeliveryIdentity (dl_orgId d) (dl_channelBindingId d) (dl_deliveryId d)"

definition put_delivery :: "string \<Rightarrow> channel_delivery \<Rightarrow> 'a channel_store_scheme \<Rightarrow> 'a channel_store_scheme" where
  "put_delivery k d s = s\<lparr> channelDeliveries := map_set k d (channelDeliveries s) \<rparr>"

definition delivery_references ::
  "create_delivery_input \<Rightarrow> headless_agent \<Rightarrow> channel_binding \<Rightarrow> string \<Rightarrow> 'a channel_store_scheme \<Rightarrow> error + unit" where
  "delivery_references inp agent binding provider s =
     (if cb_agentId binding \<noteq> ha_agentId agent then Inl (Error ''Channel delivery binding does not match headless agent.'')
      else if cb_provider binding \<noteq> provider then Inl (Error ''Channel delivery provider does not match channel binding.'')
      else case or_null (xd_sessionBindingId inp) of
        None \<Rightarrow> Inr ()
      | Some i \<Rightarrow>
          (case getChannelSessionBinding s (xd_orgId inp) i of
             None \<Rightarrow> Inl (Error (''Unknown channel session binding '' @ i @ ''.''))
           | Some sb \<Rightarrow>
               if sb_agentId sb \<noteq> ha_agentId agent \<or> sb_channelBindingId sb \<noteq> cb_bindingId binding \<or> sb_provider sb \<noteq> provider
               then Inl (Error ''Channel delivery session binding does not match channel binding.'') else Inr ()))"

definition new_delivery :: "env \<Rightarrow> create_delivery_input \<Rightarrow> string \<Rightarrow> string \<Rightarrow> error + channel_delivery" where
  "new_delivery e inp provider deliveryId =
     try_pure (channel_text (xd_agentId inp) ''Headless agent id'') (\<lambda>agentId.
     try_pure (channel_text (xd_channelBindingId inp) ''Channel binding id'') (\<lambda>bindingId.
     try_pure (channel_nullable (xd_sessionBindingId inp) ''Channel session binding id'') (\<lambda>sessionBindingId.
     try_pure (channel_record e (xd_target inp) ''Channel delivery target'') (\<lambda>target.
     try_pure (channel_text (xd_eventType inp) ''Channel delivery event type'') (\<lambda>eventType.
     try_pure (channel_record e (xd_payload inp) ''Channel delivery payload'') (\<lambda>payload.
       Inr \<lparr> dl_deliveryId = deliveryId, dl_orgId = xd_orgId inp, dl_agentId = agentId, dl_channelBindingId = bindingId,
             dl_sessionBindingId = sessionBindingId, dl_provider = provider, dl_target = target, dl_eventType = eventType, dl_payload = payload,
             dl_status = coalesce (xd_status inp) DPending, dl_attemptCount = 0, dl_claimedBy = None, dl_lastClaimedBy = None,
             dl_claimExpiresAt = None,
             dl_nextAttemptAt = (case xd_nextAttemptAt inp of Some t \<Rightarrow> t | None \<Rightarrow> nowIso e (xd_createdAt inp)),
             dl_lastError = None, dl_createdAt = nowIso e (xd_createdAt inp), dl_updatedAt = nowIso e (xd_createdAt inp) \<rparr>))))))"

definition createChannelDelivery ::
  "env \<Rightarrow> create_delivery_input \<Rightarrow> 'a channel_store_scheme \<Rightarrow> ('a channel_store_scheme, channel_delivery) outcome" where
  "createChannelDelivery e inp s =
     try_in s (requireOrg s (xd_orgId inp)) (\<lambda>_.
     (case getHeadlessAgent s (xd_orgId inp) (xd_agentId inp) of
        None \<Rightarrow> (Inl (Error (''Unknown headless agent '' @ xd_agentId inp @ ''.'')), s)
      | Some agent \<Rightarrow>
     (case getChannelBinding s (xd_orgId inp) (xd_channelBindingId inp) of
        None \<Rightarrow> (Inl (Error (''Unknown channel binding '' @ xd_channelBindingId inp @ ''.'')), s)
      | Some binding \<Rightarrow>
          try_in s (normalizeChannelProviderId (xd_provider inp)) (\<lambda>provider.
          try_in s (delivery_references inp agent binding provider s) (\<lambda>_.
          try_in s (channel_text (xd_deliveryId inp) ''Channel delivery id'') (\<lambda>deliveryId.
            let k = encodeChannelDeliveryIdentity (xd_orgId inp) (xd_channelBindingId inp) deliveryId in
            (case map_get (channelDeliveries s) k of
               Some existing \<Rightarrow> (Inr existing, s)
             | None \<Rightarrow> try_in s (new_delivery e inp provider deliveryId) (\<lambda>d. (Inr d, put_delivery k d s)))))))))"

definition listChannelDeliveries :: "'a channel_store_scheme \<Rightarrow> list_deliveries_input \<Rightarrow> channel_delivery list" where
  "listChannelDeliveries s inp =
     (if xl_channelBindingIds inp = Some [] then []
      else js_slice (js_sort (cmp_then (cmp_rev (cmp_by dl_updatedAt cmp_int)) (cmp_rev (cmp_by dl_createdAt cmp_int)))
        (filter (\<lambda>d. dl_orgId d = xl_orgId inp
           \<and> (case or_null (xl_deliveryId inp) of Some i \<Rightarrow> dl_deliveryId d = i | None \<Rightarrow> True)
           \<and> (case xl_status inp of Some st \<Rightarrow> dl_status d = st | None \<Rightarrow> True)
           \<and> (case or_null (xl_channelBindingId inp) of Some b \<Rightarrow> dl_channelBindingId d = b | None \<Rightarrow> True)
           \<and> in_bindings (xl_channelBindingIds inp) (Some (dl_channelBindingId d))
           \<and> (case or_null (xl_lastClaimedBy inp) of Some w \<Rightarrow> dl_lastClaimedBy d = Some w | None \<Rightarrow> True)) (map_values (channelDeliveries s))))
        (js_max 1 (js_min 200 (or_num (xl_limit inp) 50))))"

definition delivery_due :: "int \<Rightarrow> channel_delivery \<Rightarrow> bool" where
  "delivery_due nowMs d =
     (((dl_status d = DPending \<or> dl_status d = DFailed) \<and> dl_nextAttemptAt d \<le> nowMs)
      \<or> (dl_status d = DClaimed \<and> (case dl_claimExpiresAt d of Some t \<Rightarrow> t \<le> nowMs | None \<Rightarrow> False)))"

definition next_delivery :: "claim_delivery_input \<Rightarrow> int \<Rightarrow> (string \<times> channel_delivery) list \<Rightarrow> (string \<times> channel_delivery) option" where
  "next_delivery inp nowMs ds =
     (case js_sort (cmp_then (cmp_by (\<lambda>p. dl_nextAttemptAt (snd p)) cmp_int) (cmp_by (\<lambda>p. dl_createdAt (snd p)) cmp_int))
        (filter (\<lambda>p. dl_orgId (snd p) = xk_orgId inp \<and> in_bindings (xk_channelBindingIds inp) (Some (dl_channelBindingId (snd p)))
           \<and> delivery_due nowMs (snd p)) ds) of
        [] \<Rightarrow> None
      | p # _ \<Rightarrow> Some p)"

definition delivery_quota ::
  "env \<Rightarrow> claim_delivery_input \<Rightarrow> iso \<Rightarrow> 'a channel_store_scheme \<Rightarrow> ('a channel_store_scheme, unit) outcome" where
  "delivery_quota e inp now s =
     (case xk_quota inp of
        None \<Rightarrow> (Inr (), s)
      | Some q \<Rightarrow>
          then_do (consumeUsageQuota e (q\<lparr> uq_orgId := xk_orgId inp, uq_now := Some now \<rparr>) s) (\<lambda>r s1.
            if qc_allowed r then (Inr (), s1)
            else (Inl (quotaExceeded ''Gateway delivery quota exceeded.'' (or_else (qc_policyCode r) ''quota.gateway_deliveries_per_hour_exceeded'')
                   (qc_retryAfterMs r) (qc_limit r) (qc_used r) (qc_resetAt r)), s1)))"

definition claimed_delivery :: "claim_delivery_input \<Rightarrow> iso \<Rightarrow> string \<Rightarrow> string \<Rightarrow> channel_delivery \<Rightarrow> channel_delivery" where
  "claimed_delivery inp now claimedBy lastClaimedBy d =
     d\<lparr> dl_status := DClaimed, dl_claimedBy := Some claimedBy, dl_lastClaimedBy := Some lastClaimedBy,
       dl_claimExpiresAt := Some (now + (case xk_ttlMs inp of Some t \<Rightarrow> (if t = 0 then 30000 else t) | None \<Rightarrow> 30000)),
       dl_attemptCount := dl_attemptCount d + 1, dl_updatedAt := now \<rparr>"

definition claimNextChannelDelivery ::
  "env \<Rightarrow> claim_delivery_input \<Rightarrow> 'a channel_store_scheme \<Rightarrow> ('a channel_store_scheme, channel_delivery option) outcome" where
  "claimNextChannelDelivery e inp s =
     (if xk_channelBindingIds inp = Some [] then (Inr None, s)
      else
        let now = nowIso e (xk_now inp) in
        (case next_delivery inp now (channelDeliveries s) of
           None \<Rightarrow> (Inr None, s)
         | Some (k, d) \<Rightarrow>
             then_do (delivery_quota e inp now s) (\<lambda>_ s1.
               let d1 = d\<lparr> dl_status := DClaimed \<rparr> in
               try_in (put_delivery k d1 s1) (channel_text (xk_claimedBy inp) ''Delivery claimant'') (\<lambda>claimedBy.
               let d2 = d1\<lparr> dl_claimedBy := Some claimedBy \<rparr> in
               try_in (put_delivery k d2 s1) (channel_text (or_else (xk_lastClaimedBy inp) (xk_claimedBy inp)) ''Delivery owner'') (\<lambda>lastClaimedBy.
               let d' = claimed_delivery inp now claimedBy lastClaimedBy d
               in (Inr (Some d'), put_delivery k d' s1))))))"

definition ack_matches :: "ack_delivery_input \<Rightarrow> channel_delivery \<Rightarrow> bool" where
  "ack_matches inp d =
     (dl_orgId d = xa_orgId inp \<and> dl_deliveryId d = xa_deliveryId inp
      \<and> (case or_null (xa_channelBindingId inp) of Some b \<Rightarrow> dl_channelBindingId d = b | None \<Rightarrow> True)
      \<and> in_bindings (xa_channelBindingIds inp) (Some (dl_channelBindingId d))
      \<and> (case or_null (xa_claimedBy inp) of Some w \<Rightarrow> dl_claimedBy d = Some w | None \<Rightarrow> True)
      \<and> (case or_null (xa_lastClaimedBy inp) of Some w \<Rightarrow> dl_lastClaimedBy d = Some w | None \<Rightarrow> True))"

definition ackChannelDelivery ::
  "env \<Rightarrow> ack_delivery_input \<Rightarrow> 'a channel_store_scheme \<Rightarrow> ('a channel_store_scheme, channel_delivery option) outcome" where
  "ackChannelDelivery e inp s =
     (if xa_channelBindingIds inp = Some [] then (Inr None, s)
      else case filter (\<lambda>p. ack_matches inp (snd p)) (channelDeliveries s) of
        [(k, d)] \<Rightarrow>
          (let d1 = d\<lparr> dl_status := xa_status inp, dl_claimedBy := None, dl_claimExpiresAt := None \<rparr> in
           try_in (put_delivery k d1 s)
             (case or_null (xa_lastError inp) of
                Some t \<Rightarrow> try_pure (redactOperationalText e t 1024 ''Delivery error'') (\<lambda>x. Inr (Some x)) | None \<Rightarrow> Inr None) (\<lambda>lastError.
             let d' = d1\<lparr> dl_lastError := lastError,
                   dl_nextAttemptAt := (case xa_nextAttemptAt inp of Some t \<Rightarrow> t | None \<Rightarrow> nowIso e (xa_updatedAt inp)),
                   dl_updatedAt := nowIso e (xa_updatedAt inp) \<rparr>
             in (Inr (Some d'), put_delivery k d' s)))
      | _ \<Rightarrow> (Inr None, s))"

definition pruneTerminalChannelDeliveries :: "iso \<Rightarrow> int \<Rightarrow> 'a channel_store_scheme \<Rightarrow> int \<times> 'a channel_store_scheme" where
  "pruneTerminalChannelDeliveries cutoff limit s =
     (let stale = slice_int (js_sort (cmp_by dl_updatedAt cmp_int)
            (filter (\<lambda>d. (dl_status d = DSent \<or> dl_status d = DDead) \<and> dl_updatedAt d < cutoff) (map_values (channelDeliveries s)))) (prune_limit limit)
      in (int (length stale), s\<lparr> channelDeliveries := fold (\<lambda>d. map_delete (delivery_key d)) stale (channelDeliveries s) \<rparr>))"

end
