(* ===== verification/Channel_Guarantees.thy ===== *)
theory Channel_Guarantees
  imports Channel_Messages
begin

text \<open>
  What the channel domains guarantee: an interaction token is used at most once, and with its command in one
  step; a provider event is processed at most once; a claimed delivery is handed to nobody else while its
  claim lives; the cursor of a bound chat thread never moves back.
\<close>


section \<open>Frames\<close>

lemma enqueue_frame:
  fixes s :: "'a channel_store_scheme"
  assumes "enqueueSessionCommand e inp s = (r, s')"
  shows "channelInteractions s' = channelInteractions s" "orgs s' = orgs s" "\<And>er. r = Inl er \<Longrightarrow> s' = s"
  using assms by (cases rule: enqueueSessionCommand_cases; simp add: put_session_def)+


section \<open>Interactions\<close>

definition interactions_ok :: "'a channel_store_scheme \<Rightarrow> bool" where
  "interactions_ok s = (map_ok (channelInteractions s) \<and> (\<forall>k i. map_get (channelInteractions s) k = Some i \<longrightarrow> ix_interactionId i = k))"

text \<open>
  What a step may do to an interaction: it becomes used or expired. An expired one can still become used, by a
  call that had found it pending before; a used one stays used.
\<close>

definition interaction_next :: "channel_interaction \<Rightarrow> channel_interaction \<Rightarrow> bool" where
  "interaction_next i j =
     (j = i \<or> (ix_interactionId j = ix_interactionId i \<and> (ix_status j = IUsed \<or> ix_status j = IExpired \<and> ix_status i \<noteq> IUsed)))"

definition interactions_move :: "'a channel_store_scheme \<Rightarrow> 'a channel_store_scheme \<Rightarrow> bool" where
  "interactions_move s s' =
     (interactions_ok s' \<and> (\<forall>k i j. map_get (channelInteractions s) k = Some i \<and> map_get (channelInteractions s') k = Some j \<longrightarrow> interaction_next i j))"

lemma interactions_move_same: "interactions_ok s \<Longrightarrow> channelInteractions s' = channelInteractions s \<Longrightarrow> interactions_move s s'"
  by (auto simp: interactions_move_def interactions_ok_def interaction_next_def)

lemma interactions_move_put:
  assumes "interactions_ok s" "\<And>i. map_get (channelInteractions s) (ix_interactionId j) = Some i \<Longrightarrow> interaction_next i j"
    "channelInteractions s' = map_set (ix_interactionId j) j (channelInteractions s)"
  shows "interactions_move s s'"
  using assms by (auto simp: interactions_move_def interactions_ok_def interaction_next_def)

lemma named_interaction_mem:
  assumes "named_interaction c inp vs = Some i"
  shows "i \<in> set vs"
proof (cases "or_null (xf_token inp)")
  case None
  then obtain x p where "filter (\<lambda>i. ix_orgId i = xf_orgId inp \<and> ix_provider i = p \<and> ix_externalInteractionId i = Some x
      \<and> in_bindings (xf_channelBindingIds inp) (ix_channelBindingId i)) vs = [i]" (is "filter ?P vs = _")
    using assms by (auto simp: named_interaction_def split: option.splits list.splits)
  then have "i \<in> set (filter ?P vs)" by simp
  then show ?thesis by simp
qed (use assms in \<open>auto simp: named_interaction_def find_Some_iff\<close>)

lemma findMutable_cases:
  assumes "findMutableChannelInteraction c inp now s = (r, s')" "interactions_ok s"
  obtains (none) "r = None" "s' = s"
  | (expired) i where "r = None" "map_get (channelInteractions s) (ix_interactionId i) = Some i" "ix_status i = IPending"
      "s' = put_interaction (i\<lparr> ix_status := IExpired, ix_updatedAt := now \<rparr>) s"
  | (found) i where "r = Some i" "map_get (channelInteractions s) (ix_interactionId i) = Some i" "ix_status i = IPending" "now < ix_expiresAt i"
      "ix_orgId i = xf_orgId inp" "in_bindings (xf_channelBindingIds inp) (ix_channelBindingId i)" "s' = s"
proof (cases "named_interaction c inp (map_values (channelInteractions s))")
  case None
  then show thesis using assms(1) none by (auto simp: findMutableChannelInteraction_def split: if_splits)
next
  case (Some i)
  have ok: "map_ok (channelInteractions s)" using assms(2) by (simp add: interactions_ok_def)
  obtain k where k: "map_get (channelInteractions s) k = Some i" using named_interaction_mem [OF Some] values_map_get [OF ok, of i] by blast
  then have "ix_interactionId i = k" using assms(2) by (simp add: interactions_ok_def)
  with k have "map_get (channelInteractions s) (ix_interactionId i) = Some i" by simp
  note get = this
  show thesis
  proof (cases "xf_channelBindingIds inp = Some [] \<or> ix_orgId i \<noteq> xf_orgId inp \<or> \<not> in_bindings (xf_channelBindingIds inp) (ix_channelBindingId i)
      \<or> ix_status i \<noteq> IPending")
    case True
    then have "r = None \<and> s' = s" using Some assms(1) by (auto simp: findMutableChannelInteraction_def split: if_splits)
    then show thesis by (intro none) simp_all
  next
    case False
    then have eq: "(r, s') = (if ix_expiresAt i \<le> now then (None, put_interaction (i\<lparr> ix_status := IExpired, ix_updatedAt := now \<rparr>) s) else (Some i, s))"
      using Some assms(1) by (simp add: findMutableChannelInteraction_def)
    show thesis
    proof (cases "ix_expiresAt i \<le> now")
      case True
      then show thesis using eq get False by (intro expired [of i]) simp_all
    next
      case nexp: False
      then show thesis using eq get False by (intro found [of i]) simp_all
    qed
  qed
qed

lemma put_interaction_simps [simp]:
  "channelInteractions (put_interaction i s) = map_set (ix_interactionId i) i (channelInteractions s)"
  "orgs (put_interaction i s) = orgs s" "sessions (put_interaction i s) = sessions s"
  by (simp_all add: put_interaction_def)

lemma used_interaction_simps [simp]:
  "ix_interactionId (used_interaction now i) = ix_interactionId i" "ix_status (used_interaction now i) = IUsed"
  "ix_orgId (used_interaction now i) = ix_orgId i"
  by (simp_all add: used_interaction_def)

lemma findMutable_move:
  assumes "findMutableChannelInteraction c inp now s = (r, s')" "interactions_ok s"
  shows "interactions_move s s'"
  using assms
proof (cases rule: findMutable_cases)
  case (expired i)
  then show ?thesis by (intro interactions_move_put [OF assms(2), of "i\<lparr> ix_status := IExpired, ix_updatedAt := now \<rparr>"])
      (simp_all add: interaction_next_def)
qed (simp_all add: interactions_move_same assms(2))

lemma use_interaction_effect:
  assumes "use_interaction e who now i res s = (r, s')"
  shows "channelInteractions s' = (if still_stored i s then map_set (ix_interactionId i) (used_interaction now i) (channelInteractions s) else channelInteractions s)"
    "sessions s' = sessions s" "r = Inr res \<or> (\<exists>er. r = Inl er)" "orgExists s (ix_orgId i) \<Longrightarrow> r = Inr res"
  using assms unfolding use_interaction_def
  by (rule audited_effect; simp add: system_audit_def orgExists_def map_has_def)+

lemma use_interaction_orgs: "use_interaction e who now i res s = (r, s') \<Longrightarrow> orgs s' = orgs s"
  unfolding use_interaction_def by (erule audited_effect) simp

lemma use_interaction_move:
  assumes "use_interaction e who now i res s = (r, s')" "interactions_ok s"
  shows "interactions_move s s'"
proof (cases "still_stored i s")
  case True
  then show ?thesis using use_interaction_effect(1) [OF assms(1)]
    by (intro interactions_move_put [OF assms(2), of "used_interaction now i"]) (use assms(2) in \<open>auto simp: interaction_next_def interactions_ok_def\<close>)
qed (use use_interaction_effect(1) [OF assms(1)] assms(2) in \<open>simp add: interactions_move_same\<close>)

lemma use_interaction_ok: "use_interaction e who now i res s = (r, s') \<Longrightarrow> interactions_ok s \<Longrightarrow> interactions_ok s'"
  by (drule (1) use_interaction_move) (simp add: interactions_move_def)

text \<open>The code after the \<open>await\<close>, with a command.\<close>

lemma resolve_found_cases:
  assumes "resolve_found_with_command e inp command i s = (r, s')"
  obtains (error) er where "r = Inl er" "s' = s"
  | (used) x s2 where "ix_sessionId i = en_sessionId command" "enqueueSessionCommand e command s = (Inr x, s2)"
      "use_interaction e (xr_identityId inp) (nowIso e (xr_usedAt inp)) i (Some (used_interaction (nowIso e (xr_usedAt inp)) i, x)) s2 = (r, s')"
proof (cases "en_sessionId command = ix_sessionId i")
  case False
  then show thesis using assms error by (auto simp: resolve_found_with_command_def Let_def)
next
  case sess: True
  obtain z s2 where z: "enqueueSessionCommand e command s = (z, s2)" by fastforce
  show thesis
  proof (cases z)
    case (Inl er)
    then show thesis using assms sess z enqueue_frame(3) [OF z] error [of er] by (simp add: resolve_found_with_command_def then_do_def)
  next
    case (Inr x)
    then show thesis using assms sess z used [of x s2] by (simp add: resolve_found_with_command_def Let_def then_do_def)
  qed
qed

lemma resolve_found_move:
  assumes "resolve_found_with_command e inp command i s = (r, s')" "interactions_ok s"
  shows "interactions_move s s'"
  using assms(1)
proof (cases rule: resolve_found_cases)
  case (used x s2)
  have same: "channelInteractions s2 = channelInteractions s" by (rule enqueue_frame(1) [OF used(2)])
  then have "interactions_ok s2" using assms(2) by (simp add: interactions_ok_def)
  from use_interaction_move [OF used(3) this] same show ?thesis by (simp add: interactions_move_def)
qed (simp add: interactions_move_same assms(2))

text \<open>
  One step of the store as seen by the interactions. A call to resolve one is two steps, its lookup (\<open>ix_lookup\<close>) and
  what it does after the \<open>await\<close> (\<open>ix_use\<close>, \<open>ix_use_command\<close>), between which steps of other calls may happen;
  the second step is allowed for any interaction, so nothing is assumed of what an overlapping call had found.
  The operations of the other domains do not write interactions.
\<close>

inductive interaction_step :: "'a channel_store_scheme \<Rightarrow> 'a channel_store_scheme \<Rightarrow> bool" where
  ix_create: "createChannelInteraction c e ci s = (r, s') \<Longrightarrow> interaction_step s s'"
| ix_lookup: "findMutableChannelInteraction c fi now s = (x, s') \<Longrightarrow> interaction_step s s'"
| ix_use: "use_interaction e who now i (res :: channel_interaction option) s = (y, s') \<Longrightarrow> interaction_step s s'"
| ix_use_command: "resolve_found_with_command e ri command i s = (z, s') \<Longrightarrow> interaction_step s s'"
| ix_prune: "pruneExpiredChannelInteractions cutoff limit s = (n, s') \<Longrightarrow> interaction_step s s'"
| ix_other: "channelInteractions s' = channelInteractions s \<Longrightarrow> interaction_step s s'"

text \<open>What may happen while a call is suspended: any sequence of steps of the rest of the program.\<close>

definition other_calls :: "('a channel_store_scheme \<Rightarrow> 'a channel_store_scheme) \<Rightarrow> bool" where
  "other_calls m = (\<forall>s. interaction_step\<^sup>*\<^sup>* s (m s))"

text \<open>Every way to resolve an interaction, overlapping with other calls; \<open>i\<close> is the record as returned.\<close>

definition uses_interaction :: "'a channel_store_scheme \<Rightarrow> channel_interaction \<Rightarrow> 'a channel_store_scheme \<Rightarrow> bool" where
  "uses_interaction s i s' =
     ((\<exists>c e inp m. other_calls m \<and> resolveChannelInteraction c e inp m s = (Inr (Some i), s'))
      \<or> (\<exists>c e inp command x m. other_calls m \<and> resolveChannelInteractionWithCommand c e inp command m s = (Inr (Some (i, x)), s')))"

lemma createChannelInteraction_cases:
  assumes "createChannelInteraction c e inp s = (r, s')"
  obtains (error) "s' = s"
  | (created) i where "map_get (channelInteractions s) (ix_interactionId i) = None" "channelInteractions s' = map_set (ix_interactionId i) i (channelInteractions s)"
proof -
  have fresh: "ix_interactionId i = k" if "new_interaction e inp k x h = Inr i" for k x h i
    using that by (auto simp: new_interaction_def try_pure_def split: sum.splits)
  show thesis using assms
    by (auto simp: createChannelInteraction_def try_in_def Let_def split: if_splits sum.splits option.splits intro: error created dest: fresh)
qed

lemma map_get_deletes: "map_get (fold (\<lambda>x. map_delete (f x)) xs m) k = (if k \<in> f ` set xs then None else map_get m k)"
  by (induction xs arbitrary: m) auto

lemma map_ok_deletes: "map_ok m \<Longrightarrow> map_ok (fold (\<lambda>x. map_delete (f x)) xs m)"
  by (induction xs arbitrary: m) simp_all

lemma interaction_step_move: "interaction_step s s' \<Longrightarrow> interactions_ok s \<Longrightarrow> interactions_move s s'"
proof (induction rule: interaction_step.induct)
  case (ix_create c e ci s r s')
  from ix_create(1) show ?case
  proof (cases rule: createChannelInteraction_cases)
    case (created i)
    then show ?thesis by (intro interactions_move_put [OF ix_create(2), of i]) simp_all
  qed (simp add: interactions_move_same ix_create(2))
next
  case (ix_lookup c fi now s x s')
  then show ?case by (simp add: findMutable_move)
next
  case (ix_use e who now i res s y s')
  then show ?case by (rule use_interaction_move)
next
  case (ix_use_command e ri command i s z s')
  then show ?case by (rule resolve_found_move)
next
  case (ix_prune cutoff limit s n s')
  define xs where "xs = slice_int (js_sort (cmp_by ix_expiresAt cmp_int) (filter (\<lambda>i. ix_expiresAt i < cutoff) (map_values (channelInteractions s)))) (prune_limit limit)"
  have "channelInteractions s' = fold (\<lambda>i. map_delete (ix_interactionId i)) xs (channelInteractions s)"
    using ix_prune(1) by (auto simp: pruneExpiredChannelInteractions_def Let_def xs_def)
  then show ?case using ix_prune(2)
    by (auto simp: interactions_move_def interactions_ok_def interaction_next_def map_get_deletes map_ok_deletes)
qed (rule interactions_move_same)

lemma interaction_steps_ok: "interaction_step\<^sup>*\<^sup>* s s' \<Longrightarrow> interactions_ok s \<Longrightarrow> interactions_ok s'"
  by (induction rule: rtranclp_induct) (auto dest: interaction_step_move simp: interactions_move_def)

text \<open>A call that resolves an interaction had found it pending, and has used it up unless the record is gone.\<close>

lemma resolve_found:
  assumes "resolveChannelInteraction c e inp m s = (Inr (Some i), s')" "interactions_ok s"
  obtains j where "map_get (channelInteractions s) (ix_interactionId j) = Some j" "ix_status j = IPending"
    "i = used_interaction (nowIso e (xr_usedAt inp)) j"
    "use_interaction e (xr_identityId inp) (nowIso e (xr_usedAt inp)) j (Some i) (m s) = (Inr (Some i), s')"
proof -
  let ?now = "nowIso e (xr_usedAt inp)"
  obtain x s1 where x: "findMutableChannelInteraction c (xr_find inp) ?now s = (x, s1)" by fastforce
  then obtain j where j: "x = Some j" using assms(1) by (cases x) (auto simp: resolveChannelInteraction_def)
  have f: "s1 = s" "map_get (channelInteractions s) (ix_interactionId j) = Some j" "ix_status j = IPending"
    using x assms(2) j by (auto elim!: findMutable_cases)
  have u: "use_interaction e (xr_identityId inp) ?now j (Some (used_interaction ?now j)) (m s) = (Inr (Some i), s')"
    using assms(1) x j f(1) by (simp add: resolveChannelInteraction_def Let_def)
  have "i = used_interaction ?now j" using use_interaction_effect(3) [OF u] by simp
  then show thesis using that [OF f(2,3)] u by simp
qed

lemma resolve_command_found:
  assumes "resolveChannelInteractionWithCommand c e inp command m s = (Inr (Some (i, x)), s')" "interactions_ok s"
  obtains j s2 where "map_get (channelInteractions s) (ix_interactionId j) = Some j" "ix_status j = IPending"
    "nowIso e (xr_usedAt inp) < ix_expiresAt j" "i = used_interaction (nowIso e (xr_usedAt inp)) j" "ix_sessionId j = en_sessionId command"
    "enqueueSessionCommand e command (m s) = (Inr x, s2)"
    "use_interaction e (xr_identityId inp) (nowIso e (xr_usedAt inp)) j (Some (i, x)) s2 = (Inr (Some (i, x)), s')"
proof -
  let ?now = "nowIso e (xr_usedAt inp)"
  obtain y s1 where y: "findMutableChannelInteraction c (xr_find inp) ?now s = (y, s1)" by fastforce
  then obtain j where j: "y = Some j" using assms(1) by (cases y) (auto simp: resolveChannelInteractionWithCommand_def)
  have f: "s1 = s" "map_get (channelInteractions s) (ix_interactionId j) = Some j" "ix_status j = IPending" "?now < ix_expiresAt j"
    using y assms(2) j by (auto elim!: findMutable_cases)
  have "resolve_found_with_command e inp command j (m s) = (Inr (Some (i, x)), s')"
    using assms(1) y j f(1) by (simp add: resolveChannelInteractionWithCommand_def Let_def)
  then show thesis
  proof (cases rule: resolve_found_cases)
    case (used x' s2)
    have "i = used_interaction ?now j" "x' = x" using use_interaction_effect(3) [OF used(3)] by simp_all
    then show thesis using that [OF f(2-4)] used by simp
  qed simp
qed

lemma uses_interaction_pending:
  assumes "uses_interaction s i s'" "interactions_ok s"
  shows "ix_status i = IUsed" "\<exists>j. map_get (channelInteractions s) (ix_interactionId i) = Some j \<and> ix_status j = IPending"
proof -
  have "\<exists>j now. map_get (channelInteractions s) (ix_interactionId j) = Some j \<and> ix_status j = IPending \<and> i = used_interaction now j"
    using assms(1) unfolding uses_interaction_def
  proof (elim disjE exE conjE)
    fix c e inp m assume "resolveChannelInteraction c e inp m s = (Inr (Some i), s')"
    then show ?thesis using assms(2) by (rule resolve_found) blast
  next
    fix c e inp command x m assume "resolveChannelInteractionWithCommand c e inp command m s = (Inr (Some (i, x)), s')"
    then show ?thesis using assms(2) by (rule resolve_command_found) blast
  qed
  then show "ix_status i = IUsed" "\<exists>j. map_get (channelInteractions s) (ix_interactionId i) = Some j \<and> ix_status j = IPending" by auto
qed

lemma uses_interaction_ok:
  assumes "uses_interaction s i s'" "interactions_ok s"
  shows "interactions_ok s'"
  using assms(1) unfolding uses_interaction_def
proof (elim disjE exE conjE)
  fix c e inp m assume m: "other_calls m" and r: "resolveChannelInteraction c e inp m s = (Inr (Some i), s')"
  have ok: "interactions_ok (m s)" using m assms(2) interaction_steps_ok by (auto simp: other_calls_def)
  from r assms(2) show ?thesis by (rule resolve_found) (rule use_interaction_ok [OF _ ok])
next
  fix c e inp command x m assume m: "other_calls m" and r: "resolveChannelInteractionWithCommand c e inp command m s = (Inr (Some (i, x)), s')"
  have ok: "interactions_ok (m s)" using m assms(2) interaction_steps_ok by (auto simp: other_calls_def)
  from r assms(2) show ?thesis
  proof (rule resolve_command_found)
    fix j s2 assume q: "enqueueSessionCommand e command (m s) = (Inr x, s2)"
      and u: "use_interaction e (xr_identityId inp) (nowIso e (xr_usedAt inp)) j (Some (i, x)) s2 = (Inr (Some (i, x)), s')"
    have "interactions_ok s2" using ok enqueue_frame(1) [OF q] by (simp add: interactions_ok_def)
    then show ?thesis by (rule use_interaction_ok [OF u])
  qed
qed

text \<open>Two overlapping calls that find the same interaction: the second runs while the first is suspended, and both resolve it.\<close>

lemma overlapping_calls_both_resolve:
  assumes "findMutableChannelInteraction c (xr_find inp) (nowIso e (xr_usedAt inp)) s = (Some i, s)"
    and "findMutableChannelInteraction c2 (xr_find inp2) (nowIso e2 (xr_usedAt inp2)) s = (Some i, s)" and "orgExists s (ix_orgId i)"
  shows "\<exists>j2 s2. resolveChannelInteraction c2 e2 inp2 (\<lambda>s. s) s = (Inr (Some j2), s2) \<and> ix_interactionId j2 = ix_interactionId i
    \<and> (\<exists>j s1. resolveChannelInteraction c e inp (\<lambda>_. s2) s = (Inr (Some j), s1) \<and> ix_interactionId j = ix_interactionId i)"
proof -
  let ?now2 = "nowIso e2 (xr_usedAt inp2)" and ?now = "nowIso e (xr_usedAt inp)"
  obtain r2 s2 where u2: "use_interaction e2 (xr_identityId inp2) ?now2 i (Some (used_interaction ?now2 i)) s = (r2, s2)" by fastforce
  obtain r s1 where u: "use_interaction e (xr_identityId inp) ?now i (Some (used_interaction ?now i)) s2 = (r, s1)" by fastforce
  have r2: "r2 = Inr (Some (used_interaction ?now2 i))" by (rule use_interaction_effect(4) [OF u2 assms(3)])
  have "orgs s2 = orgs s" by (rule use_interaction_orgs [OF u2])
  then have "r = Inr (Some (used_interaction ?now i))" using assms(3) by (intro use_interaction_effect(4) [OF u]) (simp add: orgExists_def)
  then show ?thesis using u u2 r2 by (simp add: resolveChannelInteraction_def assms(1,2))
qed

text \<open>C18: an approval that has been used is not found again. After a call has resolved an interaction and used up
  its record, by its token or its external id, with or without a command, no call whose lookup is later
  resolves it again while the record is in the store, whatever happens in between and however the calls
  overlap: other interactions, expiries, prunes, uses by calls that had looked it up before, operations of
  every other domain. A call that looked the interaction up before it was used can still resolve it
  (\<open>overlapping_calls_both_resolve\<close>).\<close>

theorem interaction_single_use:
  assumes "interactions_ok s" and "uses_interaction s i s1" and "map_get (channelInteractions s1) (ix_interactionId i) = Some i"
    and "(\<lambda>a b. interaction_step a b \<and> map_has (channelInteractions b) (ix_interactionId i))\<^sup>*\<^sup>* s1 s2" and "uses_interaction s2 j s3"
  shows "ix_interactionId j \<noteq> ix_interactionId i"
proof -
  have used: "ix_status i = IUsed" and ok: "interactions_ok s1"
    using uses_interaction_pending(1) [OF assms(2,1)] uses_interaction_ok [OF assms(2,1)] by simp_all
  from assms(4) have "interactions_ok s2 \<and> (\<exists>k. map_get (channelInteractions s2) (ix_interactionId i) = Some k \<and> ix_status k = IUsed)"
  proof (induction rule: rtranclp_induct)
    case (step a b)
    then have m: "interactions_move a b" using interaction_step_move [of a b] by simp
    obtain k k' where k: "map_get (channelInteractions a) (ix_interactionId i) = Some k" "ix_status k = IUsed"
      and k': "map_get (channelInteractions b) (ix_interactionId i) = Some k'" using step.IH step.hyps(2) by (auto simp: map_has_def)
    have "interaction_next k k'" using m k(1) k' unfolding interactions_move_def by blast
    then show ?case using k(2) k' m by (auto simp: interaction_next_def interactions_move_def)
  qed (use used ok assms(3) in simp)
  then show ?thesis using uses_interaction_pending(2) [OF assms(5)] by fastforce
qed

text \<open>C19: resolving an approval and enqueueing its command happen together or not at all. A failing call changes
  nothing; a call that finds no live interaction enqueues nothing; a successful call had found the interaction
  pending and not expired, and after the \<open>await\<close>, whatever other calls did meanwhile, enqueued the command
  for the session of the interaction and used the interaction in one step.\<close>

theorem approval_enqueued_atomically:
  assumes "resolveChannelInteractionWithCommand c e inp command m s = (r, s')" and "interactions_ok s" and "orgExists (m s) (xf_orgId (xr_find inp))"
  shows "case r of Inl _ \<Rightarrow> s' = m s
    | Inr None \<Rightarrow> (\<exists>s1. s' = m s1 \<and> sessions s1 = sessions s)
    | Inr (Some (i, x)) \<Rightarrow> (\<exists>j s2. map_get (channelInteractions s) (ix_interactionId i) = Some j \<and> ix_status j = IPending
        \<and> nowIso e (xr_usedAt inp) < ix_expiresAt j \<and> ix_sessionId j = en_sessionId command
        \<and> enqueueSessionCommand e command (m s) = (Inr x, s2) \<and> sessions s' = sessions s2 \<and> ix_status i = IUsed
        \<and> (still_stored j (m s) \<longrightarrow> map_get (channelInteractions s') (ix_interactionId i) = Some i))"
proof -
  let ?now = "nowIso e (xr_usedAt inp)"
  obtain y s1 where y: "findMutableChannelInteraction c (xr_find inp) ?now s = (y, s1)" by fastforce
  show ?thesis
  proof (cases y)
    case None
    have "sessions s1 = sessions s" using y assms(2) by (rule findMutable_cases) simp_all
    moreover have "r = Inr None" "s' = m s1" using assms(1) y None by (simp_all add: resolveChannelInteractionWithCommand_def Let_def)
    ultimately show ?thesis by auto
  next
    case (Some j)
    have f: "s1 = s" "map_get (channelInteractions s) (ix_interactionId j) = Some j" "ix_status j = IPending" "?now < ix_expiresAt j"
      "ix_orgId j = xf_orgId (xr_find inp)" using y assms(2) Some by (auto elim!: findMutable_cases)
    have "resolve_found_with_command e inp command j (m s) = (r, s')"
      using assms(1) y Some f(1) by (simp add: resolveChannelInteractionWithCommand_def Let_def)
    then show ?thesis
    proof (cases rule: resolve_found_cases)
      case (used x s2)
      note fr = use_interaction_effect [OF used(3)] enqueue_frame(1,2) [OF used(2)]
      have "orgExists s2 (ix_orgId j)" using assms(3) f(5) fr(6) by (simp add: orgExists_def)
      then have r: "r = Inr (Some (used_interaction ?now j, x))" by (rule fr(4))
      have "still_stored j s2 = still_stored j (m s)" by (simp add: still_stored_def fr(5))
      then have "still_stored j (m s) \<longrightarrow> map_get (channelInteractions s') (ix_interactionId j) = Some (used_interaction ?now j)" using fr(1) by simp
      then show ?thesis using f(2-4) used(1,2) fr(2) by (simp add: r)
    qed simp
  qed
qed

definition sample_interaction :: "string \<Rightarrow> string \<Rightarrow> channel_interaction" where
  "sample_interaction i x = \<lparr> ix_interactionId = i, ix_orgId = ''o'', ix_agentId = ''ag'', ix_channelBindingId = Some ''b'', ix_sessionBindingId = Some ''sb'',
     ix_sessionId = ''s1'', ix_provider = ''slack'', ix_externalInteractionId = Some x, ix_tokenHash = [], ix_kind = KPermission, ix_targetId = ''p1'',
     ix_status = IPending, ix_createdByIdentityId = None, ix_expiresAt = 1000, ix_usedAt = None, ix_createdAt = 0, ix_updatedAt = 0 \<rparr>"

definition sample_thread :: channel_session_binding where
  "sample_thread = \<lparr> sb_bindingId = ''sb'', sb_orgId = ''o'', sb_agentId = ''ag'', sb_channelBindingId = ''b'', sb_provider = ''slack'',
     sb_externalWorkspaceId = None, sb_externalThreadId = ''th'', sb_externalChatId = ''ch'', sb_sessionId = ''s1'', sb_lastEventSequence = 4,
     sb_lastWorkspaceSequence = 2, sb_lastChatMessageId = None, sb_status = ThActive, sb_createdAt = 0, sb_updatedAt = 0 \<rparr>"

definition sample_channels :: "channel_interaction jsmap \<Rightarrow> channel_delivery jsmap \<Rightarrow> provider_event jsmap \<Rightarrow> channel_store" where
  "sample_channels ixs dls evs = \<lparr> tenants = [(''t'', sample_tenant)], users = [(key [''t'', ''u''], sample_user)], orgs = [(''o'', sample_org)],
     orgsByTenant = [(''t'', ''o'')], accounts = [], accountsBySubject = [], accountsByEmail = [], memberships = [], auditEvents = [],
     usageCounters = [], sessions = [(key [''t'', ''s1''], sample_session)], artifactIndex = [], launchpadSessionSummaries = [],
     workspaceEvents = [], workflows = [], runHeap = [], workflowRuns = [], workflowWebhookSecrets = [], legacyWorkflowWebhookSecrets = [],
     headlessAgents = [], channelBindings = [], channelIdentities = [], identitiesByExternal = [], channelSessionBindings = [(''sb'', sample_thread)],
     channelSessionBindingsByThread = [], channelInteractions = ixs, channelDeliveries = dls, providerEvents = evs \<rparr>"

definition sample_approvals :: channel_store where
  "sample_approvals = sample_channels [(''x1'', sample_interaction ''x1'' ''e1''), (''x2'', sample_interaction ''x2'' ''e2'')] [] []"

lemma sample_approvals_ok: "interactions_ok sample_approvals"
  by (simp add: interactions_ok_def sample_approvals_def sample_channels_def sample_interaction_def map_ok_def map_get_def)

definition sample_resolve :: "string \<Rightarrow> resolve_interaction_input" where
  "sample_resolve x = \<lparr> xr_find = \<lparr> xf_orgId = ''o'', xf_channelBindingIds = Some [''b''], xf_token = None, xf_externalInteractionId = Some x,
     xf_provider = Some ''slack'' \<rparr>, xr_identityId = ''who'', xr_usedAt = None \<rparr>"

theorem interaction_single_use_witness:
  "\<exists>i s1 j s2. resolveChannelInteraction sample_crypto sample_env (sample_resolve ''e1'') (\<lambda>s. s) sample_approvals = (Inr (Some i), s1)
     \<and> resolveChannelInteraction sample_crypto sample_env (sample_resolve ''e2'') (\<lambda>s. s) s1 = (Inr (Some j), s2) \<and> ix_interactionId j \<noteq> ix_interactionId i"
proof -
  define f where "f = (\<lambda>x (s :: channel_store). resolveChannelInteraction sample_crypto sample_env (sample_resolve x) (\<lambda>s. s) s)"
  have "case f ''e1'' sample_approvals of
      (Inr (Some _), s1) \<Rightarrow> (case f ''e2'' s1 of (Inr (Some _), _) \<Rightarrow> True | _ \<Rightarrow> False) | _ \<Rightarrow> False" unfolding f_def by code_simp
  then obtain i j s1 s2 where r: "f ''e1'' sample_approvals = (Inr (Some i), s1)" "f ''e2'' s1 = (Inr (Some j), s2)"
    by (auto split: prod.splits sum.splits option.splits)
  have "case f ''e1'' sample_approvals of (Inr (Some i), s1) \<Rightarrow> map_get (channelInteractions s1) (ix_interactionId i) = Some i | _ \<Rightarrow> False"
    unfolding f_def by code_simp
  then have i: "map_get (channelInteractions s1) (ix_interactionId i) = Some i" by (simp add: r(1))
  have "other_calls (\<lambda>s :: channel_store. s)" by (simp add: other_calls_def)
  then have "uses_interaction sample_approvals i s1" "uses_interaction s1 j s2" using r unfolding uses_interaction_def f_def by blast+
  from interaction_single_use [OF sample_approvals_ok this(1) i rtranclp.rtrancl_refl this(2)] r show ?thesis unfolding f_def by blast
qed

definition sample_approval_command :: "string \<Rightarrow> enqueue_input" where
  "sample_approval_command sess = \<lparr> en_commandId = ''cm'', en_tenantId = ''t'', en_userId = ''u'', en_sessionId = sess, en_kind = CmdPrompt, en_payload = None,
     en_targetLeaseToken = None, en_createdAt = None, en_quota = None, en_usageQuotas = [] \<rparr>"

theorem approval_enqueued_atomically_witness:
  "\<exists>i x s'. resolveChannelInteractionWithCommand sample_crypto sample_env (sample_resolve ''e1'') (sample_approval_command ''s1'') (\<lambda>s. s) sample_approvals = (Inr (Some (i, x)), s')
     \<and> ix_status i = IUsed"
proof -
  define out where "out = resolveChannelInteractionWithCommand sample_crypto sample_env (sample_resolve ''e1'') (sample_approval_command ''s1'') (\<lambda>s. s) sample_approvals"
  have "case fst out of Inr (Some _) \<Rightarrow> True | _ \<Rightarrow> False" unfolding out_def by code_simp
  then obtain i x where "fst out = Inr (Some (i, x))" by (auto split: sum.splits option.splits)
  then have run: "resolveChannelInteractionWithCommand sample_crypto sample_env (sample_resolve ''e1'') (sample_approval_command ''s1'') (\<lambda>s. s) sample_approvals = (Inr (Some (i, x)), snd out)"
    by (simp add: out_def prod_eq_iff)
  have "orgExists sample_approvals (xf_orgId (xr_find (sample_resolve ''e1'')))"
    by (simp add: orgExists_def sample_approvals_def sample_channels_def sample_resolve_def map_get_def map_has_def)
  from approval_enqueued_atomically [OF run sample_approvals_ok this] run show ?thesis by auto
qed

section \<open>Provider events\<close>

definition provider_events_ok :: "'a channel_store_scheme \<Rightarrow> bool" where
  "provider_events_ok s =
     (map_ok (providerEvents s) \<and> (\<forall>k ev. map_get (providerEvents s) k = Some ev \<longrightarrow> pv_status ev = PProcessed \<longrightarrow> pv_claimedBy ev = None))"

inductive provider_event_step :: "'a channel_store_scheme \<Rightarrow> 'a channel_store_scheme \<Rightarrow> bool" where
  pv_claim: "claimChannelProviderEvent e ci s = (r, s') \<Longrightarrow> provider_event_step s s'"
| pv_complete: "completeChannelProviderEvent e co s = (x, s') \<Longrightarrow> provider_event_step s s'"
| pv_other: "providerEvents s' = providerEvents s \<Longrightarrow> provider_event_step s s'"

text \<open>What a write may do to an event: a processed one keeps everything but its update time.\<close>

definition event_next :: "provider_event option \<Rightarrow> provider_event \<Rightarrow> bool" where
  "event_next old new =
     ((pv_status new = PProcessed \<longrightarrow> pv_claimedBy new = None)
      \<and> (case old of None \<Rightarrow> True | Some ev \<Rightarrow> (pv_status ev = PProcessed \<and> pv_claimedBy ev = None) \<longrightarrow> (\<exists>t. new = ev\<lparr> pv_updatedAt := t \<rparr>)))"

lemma put_event_simps [simp]: "providerEvents (put_event k ev s) = map_set k ev (providerEvents s)"
  by (simp add: put_event_def)

lemma claim_event_cases:
  assumes "claimChannelProviderEvent e inp s = (r, s')"
  obtains (error) er where "r = Inl er" "s' = s"
  | (duplicate) k ev where "channelProviderEventKey inp = Inr k" "map_get (providerEvents s) k = Some ev" "\<not> can_reclaim (nowIso e (xe_now inp)) ev"
      "r = Inr \<lparr> ec_event = ev\<lparr> pv_updatedAt := nowIso e (xe_now inp) \<rparr>, ec_claimed = False, ec_duplicate = True \<rparr>"
      "s' = put_event k (ev\<lparr> pv_updatedAt := nowIso e (xe_now inp) \<rparr>) s"
  | (written) k ev where "channelProviderEventKey inp = Inr k"
      "\<forall>old. map_get (providerEvents s) k = Some old \<longrightarrow> can_reclaim (nowIso e (xe_now inp)) old \<and> (pv_status ev = pv_status old \<or> pv_status ev = PProcessing)"
      "map_get (providerEvents s) k = None \<longrightarrow> pv_status ev = PProcessing"
      "s' = put_event k ev s" "\<forall>cl. r = Inr cl \<longrightarrow> ec_claimed cl \<and> ec_event cl = ev \<and> pv_status ev = PProcessing
         \<and> pv_claimExpiresAt ev = Some (nowIso e (xe_now inp) + event_ttl (xe_ttlMs inp))"
proof -
  let ?now = "nowIso e (xe_now inp)"
  consider er where "r = Inl er" "s' = s"
    | k provider eventType where "channelProviderEventKey inp = Inr k" "normalizeChannelProviderId (xe_provider inp) = Inr provider"
        "normalizeChannelProviderEventType (xe_eventType inp) = Inr eventType" "requireOrg s (xe_orgId inp) = Inr ()"
    using assms by (auto simp: claimChannelProviderEvent_def try_in_def split: sum.splits)
  then show thesis
  proof cases
    case (1 er)
    then show thesis by (rule error)
  next
    case (2 k provider eventType)
    note eq = assms [unfolded claimChannelProviderEvent_def 2 try_in_def sum.case Let_def]
    show thesis
    proof (cases "map_get (providerEvents s) k")
      case None
      show thesis
      proof (cases "new_event e inp ?now provider eventType")
        case (Inl er)
        then show thesis using eq None by (intro error [of er]) simp_all
      next
        case (Inr ev)
        then have "pv_status ev = PProcessing" "pv_claimExpiresAt ev = Some (?now + event_ttl (xe_ttlMs inp))"
          by (auto simp: new_event_def try_pure_def split: sum.splits)
        then show thesis using eq None Inr 2(1) by (intro written [of k ev]) auto
      qed
    next
      case (Some ev)
      show thesis
      proof (cases "can_reclaim ?now ev")
        case False
        then show thesis using eq Some 2(1) by (intro duplicate [of k ev]) simp_all
      next
        case True
        let ?e1 = "ev\<lparr> pv_updatedAt := ?now, pv_provider := provider \<rparr>"
        show thesis
        proof (cases "channel_nullable (xe_channelBindingId inp) ''Channel binding id''")
          case (Inl er)
          then show thesis using eq Some True 2(1) by (intro written [of k ?e1]) auto
        next
          case b: (Inr b)
          let ?e2 = "?e1\<lparr> pv_channelBindingId := b, pv_eventType := eventType, pv_status := PProcessing \<rparr>"
          show thesis
          proof (cases "channel_text (xe_claimedBy inp) ''Provider event claimant''")
            case (Inl er)
            then show thesis using eq Some True 2(1) b by (intro written [of k ?e2]) auto
          next
            case w: (Inr w)
            let ?e3 = "?e2\<lparr> pv_claimedBy := Some w, pv_claimExpiresAt := Some (?now + event_ttl (xe_ttlMs inp)),
                    pv_attemptCount := pv_attemptCount ev + 1, pv_retryable := True, pv_lastError := None \<rparr>"
            show thesis
            proof (cases "channel_record e (xe_metadata inp) ''Channel provider event metadata''")
              case (Inl er)
              then show thesis using eq Some True 2(1) b w by (intro written [of k ?e3]) auto
            next
              case (Inr m)
              then show thesis using eq Some True 2(1) b w by (intro written [of k "?e3\<lparr> pv_metadata := m, pv_processedAt := None \<rparr>"]) auto
            qed
          qed
        qed
      qed
    qed
  qed
qed

lemma complete_event_cases:
  assumes "completeChannelProviderEvent e inp s = (r, s')" "map_ok (providerEvents s)"
  obtains (same) "s' = s"
  | (written) k old ev w where "map_get (providerEvents s) k = Some old" "pv_claimedBy old = Some w" "pv_claimedBy ev = None" "s' = put_event k ev s"
proof (cases "find (\<lambda>p. pv_orgId (snd p) = xc_orgId inp \<and> pv_eventId (snd p) = xc_eventId inp) (providerEvents s)")
  case None
  then show thesis using assms(1) same by (simp add: completeChannelProviderEvent_def)
next
  case (Some p)
  obtain k old where p: "p = (k, old)" by fastforce
  have mem: "(k, old) \<in> set (providerEvents s)" using Some p by (auto simp: find_Some_iff)
  then have get: "map_get (providerEvents s) k = Some old" using assms(2) by (simp add: map_get_iff)
  note eq = assms(1) [unfolded completeChannelProviderEvent_def Some p option.case prod.case]
  show thesis
  proof (cases "in_bindings (xc_channelBindingIds inp) (pv_channelBindingId old)
      \<and> (\<exists>w. channel_text (xc_claimedBy inp) ''Provider event claimant'' = Inr w \<and> pv_claimedBy old = Some w)")
    case False
    then have "s' = s" using eq by (auto simp: try_in_def split: if_splits sum.splits)
    then show thesis by (rule same)
  next
    case True
    then obtain w where w: "channel_text (xc_claimedBy inp) ''Provider event claimant'' = Inr w" "pv_claimedBy old = Some w" by blast
    define e1 where "e1 = old\<lparr> pv_status := (if xc_failed inp then PFailed else PProcessed), pv_claimedBy := None, pv_claimExpiresAt := None,
                    pv_retryable := (xc_failed inp \<and> xc_retryable inp \<noteq> Some False) \<rparr>"
    have e1: "pv_claimedBy e1 = None" by (simp add: e1_def)
    define m where "m = (case (xc_failed inp, or_null (xc_lastError inp)) of
        (True, Some t) \<Rightarrow> try_pure (redactOperationalText e t 1024 ''Provider event error'') (\<lambda>x. Inr (Some x)) | _ \<Rightarrow> Inr None)"
    define f where "f = (\<lambda>lastError (ev :: provider_event). ev\<lparr> pv_lastError := lastError,
        pv_processedAt := (if xc_failed inp then pv_processedAt old else Some (nowIso e (xc_updatedAt inp))), pv_updatedAt := nowIso e (xc_updatedAt inp) \<rparr>)"
    have f: "pv_claimedBy (f x ev) = pv_claimedBy ev" for x ev by (simp add: f_def)
    have "try_in (put_event k e1 s) m (\<lambda>x. (Inr (Some (f x e1)), put_event k (f x e1) s)) = (r, s')"
      using eq True w unfolding m_def f_def e1_def Let_def by (simp add: try_in_def [of s])
    then have "s' = put_event k e1 s \<or> (\<exists>x. s' = put_event k (f x e1) s \<and> pv_claimedBy (f x e1) = None)"
      using e1 f by (auto simp: try_in_def split: sum.splits)
    then show thesis using written [OF get w(2) e1] written [OF get w(2)] by blast
  qed
qed

lemma events_write:
  assumes "provider_events_ok s" "s' = put_event k ev s" "event_next (map_get (providerEvents s) k) ev"
  shows "provider_events_ok s' \<and> (\<forall>k ev. map_get (providerEvents s) k = Some ev \<and> pv_status ev = PProcessed
      \<longrightarrow> (\<exists>t. map_get (providerEvents s') k = Some (ev\<lparr> pv_updatedAt := t \<rparr>)))"
proof -
  have same: "ev = ev\<lparr> pv_updatedAt := pv_updatedAt ev \<rparr>" for ev :: provider_event by simp
  have "\<exists>t. map_get (providerEvents s') k' = Some (old\<lparr> pv_updatedAt := t \<rparr>)"
    if old: "map_get (providerEvents s) k' = Some old" "pv_status old = PProcessed" for k' old
  proof (cases "k' = k")
    case True
    have "pv_claimedBy old = None" using old assms(1) unfolding provider_events_ok_def by blast
    then obtain t where "ev = old\<lparr> pv_updatedAt := t \<rparr>" using old True assms(3) by (auto simp: event_next_def)
    then show ?thesis using True assms(2) by (intro exI [of _ t]) simp
  next
    case False
    then show ?thesis using old(1) same [of old] by (intro exI [of _ "pv_updatedAt old"]) (simp add: assms(2))
  qed
  moreover have "provider_events_ok s'" using assms by (auto simp: provider_events_ok_def event_next_def)
  ultimately show ?thesis by blast
qed

lemma reclaim_not_processed: "can_reclaim now ev \<Longrightarrow> pv_status ev \<noteq> PProcessed"
  by (auto simp: can_reclaim_def)

lemma provider_event_step_kept:
  assumes "provider_event_step s s'" "provider_events_ok s"
  shows "provider_events_ok s' \<and> (\<forall>k ev. map_get (providerEvents s) k = Some ev \<and> pv_status ev = PProcessed
      \<longrightarrow> (\<exists>t. map_get (providerEvents s') k = Some (ev\<lparr> pv_updatedAt := t \<rparr>)))"
proof -
  have same: "\<exists>t. Some ev = Some (ev\<lparr> pv_updatedAt := t \<rparr>)" for ev :: provider_event by (intro exI [of _ "pv_updatedAt ev"]) simp
  then have unchanged: ?thesis if "providerEvents s' = providerEvents s" using that assms(2) by (auto simp: provider_events_ok_def)
  show ?thesis using assms(1)
  proof (cases rule: provider_event_step.cases)
    case (pv_claim e ci r)
    then show ?thesis
    proof (cases rule: claim_event_cases)
      case (duplicate k ev)
      have "pv_status ev = PProcessed \<longrightarrow> pv_claimedBy ev = None" using duplicate(2) assms(2) unfolding provider_events_ok_def by blast
      then show ?thesis using duplicate(2,5) by (intro events_write [OF assms(2) duplicate(5)]) (auto simp: event_next_def)
    next
      case (written k ev)
      have "event_next (map_get (providerEvents s) k) ev"
        using written(2,3) reclaim_not_processed by (cases "map_get (providerEvents s) k") (fastforce simp: event_next_def)+
      then show ?thesis by (rule events_write [OF assms(2) written(4)])
    qed (rule unchanged, simp)
  next
    case (pv_complete e co x)
    have "map_ok (providerEvents s)" using assms(2) by (simp add: provider_events_ok_def)
    with pv_complete show ?thesis
    proof (cases rule: complete_event_cases)
      case (written k old ev w)
      then show ?thesis by (intro events_write [OF assms(2) written(4)]) (simp add: event_next_def)
    qed (rule unchanged, simp)
  qed (rule unchanged)
qed

text \<open>C20: a provider event is processed at most once. Once it has been completed as processed, its record only
  ever changes its update time, and every later delivery of the same event by the provider, in any state
  reached by any operations, is answered as a duplicate and not claimed.\<close>

theorem processed_event_final:
  assumes "provider_event_step\<^sup>*\<^sup>* s s'" and "provider_events_ok s" and "map_get (providerEvents s) k = Some ev" and "pv_status ev = PProcessed"
  shows "(\<exists>t. map_get (providerEvents s') k = Some (ev\<lparr> pv_updatedAt := t \<rparr>))
    \<and> (\<forall>e inp cl s''. channelProviderEventKey inp = Inr k \<and> claimChannelProviderEvent e inp s' = (Inr cl, s'') \<longrightarrow> ec_duplicate cl \<and> \<not> ec_claimed cl)"
proof -
  from assms(1) have "provider_events_ok s' \<and> (\<exists>t. map_get (providerEvents s') k = Some (ev\<lparr> pv_updatedAt := t \<rparr>))"
  proof (induction rule: rtranclp_induct)
    case base
    then show ?case using assms(2,3) by (intro conjI exI [of _ "pv_updatedAt ev"]) simp_all
  next
    case (step a b)
    then obtain t where t: "map_get (providerEvents a) k = Some (ev\<lparr> pv_updatedAt := t \<rparr>)" by blast
    have "provider_events_ok b \<and> (\<exists>t'. map_get (providerEvents b) k = Some (ev\<lparr> pv_updatedAt := t, pv_updatedAt := t' \<rparr>))"
      using provider_event_step_kept [OF step.hyps(2)] step.IH t assms(4) by force
    then show ?case by simp
  qed
  then obtain t where t: "map_get (providerEvents s') k = Some (ev\<lparr> pv_updatedAt := t \<rparr>)" by blast
  have "ec_duplicate cl \<and> \<not> ec_claimed cl" if key: "channelProviderEventKey inp = Inr k" and run: "claimChannelProviderEvent e inp s' = (Inr cl, s'')" for e inp cl s''
    using run
  proof (cases rule: claim_event_cases)
    case (written k' ev')
    have "k' = k" using written(1) key by simp
    with t written(2) have "can_reclaim (nowIso e (xe_now inp)) (ev\<lparr> pv_updatedAt := t \<rparr>)" by blast
    from reclaim_not_processed [OF this] show ?thesis using assms(4) by simp
  qed simp_all
  then show ?thesis using t by blast
qed

definition sample_provider_event :: provider_event where
  "sample_provider_event = \<lparr> pv_eventId = ''pe'', pv_orgId = ''o'', pv_channelBindingId = Some ''b'', pv_provider = ''slack'', pv_providerInstanceId = ''in'',
     pv_externalWorkspaceId = None, pv_providerEventId = ''m1'', pv_eventType = ''message'', pv_status = PProcessed, pv_claimedBy = None, pv_claimExpiresAt = None,
     pv_attemptCount = 1, pv_retryable = False, pv_lastError = None, pv_metadata = JObj [], pv_processedAt = Some 5, pv_createdAt = 0, pv_updatedAt = 5 \<rparr>"

definition sample_redelivery :: claim_event_input where
  "sample_redelivery = \<lparr> xe_eventId = None, xe_orgId = ''o'', xe_provider = ''slack'', xe_providerInstanceId = ''in'', xe_channelBindingId = Some ''b'',
     xe_externalWorkspaceId = None, xe_providerEventId = ''m1'', xe_eventType = ''message'', xe_claimedBy = ''gw'', xe_ttlMs = None, xe_now = Some 9, xe_metadata = None \<rparr>"

definition sample_event_key :: string where
  "sample_event_key = key [''o'', ''b'', ''slack'', ''in'', [], ''message'', ''m1'']"

theorem processed_event_final_witness:
  "\<exists>cl s'. claimChannelProviderEvent sample_env sample_redelivery (sample_channels [] [] [(sample_event_key, sample_provider_event)]) = (Inr cl, s')
     \<and> ec_duplicate cl \<and> \<not> ec_claimed cl"
proof -
  let ?s = "sample_channels [] [] [(sample_event_key, sample_provider_event)]"
  define out where "out = claimChannelProviderEvent sample_env sample_redelivery ?s"
  have "case fst out of Inr _ \<Rightarrow> True | _ \<Rightarrow> False" unfolding out_def by code_simp
  then obtain cl where "fst out = Inr cl" by (auto split: sum.splits)
  then have run: "claimChannelProviderEvent sample_env sample_redelivery ?s = (Inr cl, snd out)" by (simp add: out_def prod_eq_iff)
  have key: "channelProviderEventKey sample_redelivery = Inr sample_event_key" by code_simp
  have ok: "provider_events_ok ?s" "map_get (providerEvents ?s) sample_event_key = Some sample_provider_event" "pv_status sample_provider_event = PProcessed"
    by (simp_all add: provider_events_ok_def sample_channels_def map_ok_def map_get_def sample_provider_event_def)
  from processed_event_final [OF rtranclp.rtrancl_refl ok] key run show ?thesis by blast
qed

section \<open>Deliveries\<close>

lemma put_delivery_simps [simp]: "channelDeliveries (put_delivery k d s) = map_set k d (channelDeliveries s)"
  by (simp add: put_delivery_def)

definition delivery_matches :: "claim_delivery_input \<Rightarrow> int \<Rightarrow> channel_delivery \<Rightarrow> bool" where
  "delivery_matches inp now d =
     (dl_orgId d = xk_orgId inp \<and> in_bindings (xk_channelBindingIds inp) (Some (dl_channelBindingId d)) \<and> delivery_due now d)"

text \<open>The order of the queue: by next attempt, then by creation.\<close>

lemma delivery_order:
  "js_comparator (cmp_then (cmp_by (\<lambda>p. dl_nextAttemptAt (snd p)) cmp_int) (cmp_by (\<lambda>p. dl_createdAt (snd p)) cmp_int))"
  by (intro js_comparator_then js_comparator_by int_order.js_comparator_axioms)

lemma next_delivery_spec:
  assumes "next_delivery inp now ds = Some (k, d)"
  shows "(k, d) \<in> set ds" "delivery_matches inp now d"
    "\<And>k' d'. (k', d') \<in> set ds \<Longrightarrow> delivery_matches inp now d' \<Longrightarrow> dl_nextAttemptAt d \<le> dl_nextAttemptAt d'"
proof -
  let ?c = "cmp_then (cmp_by (\<lambda>p :: string \<times> channel_delivery. dl_nextAttemptAt (snd p)) cmp_int) (cmp_by (\<lambda>p. dl_createdAt (snd p)) cmp_int)"
  define xs where "xs = filter (\<lambda>p. delivery_matches inp now (snd p)) ds"
  have eq: "next_delivery inp now ds = (case js_sort ?c xs of [] \<Rightarrow> None | p # _ \<Rightarrow> Some p)"
    by (simp add: next_delivery_def xs_def delivery_matches_def)
  then obtain ps where ps: "js_sort ?c xs = (k, d) # ps" using assms by (auto split: list.splits)
  then have "(k, d) \<in> set xs" by (metis list.set_intros(1) set_js_sort)
  then show "(k, d) \<in> set ds" "delivery_matches inp now d" by (simp_all add: xs_def)
  fix k' d' assume "(k', d') \<in> set ds" "delivery_matches inp now d'"
  then have "(k', d') \<in> set xs" by (simp add: xs_def)
  from js_comparator.hd_sort_least [OF delivery_order this] ps
  show "dl_nextAttemptAt d \<le> dl_nextAttemptAt d'" by (auto simp: cmp_then_def cmp_by_def cmp_int_def split: if_splits)
qed

lemma delivery_quota_frame:
  assumes "delivery_quota e inp now s = (r, s')"
  shows "channelDeliveries s' = channelDeliveries s"
proof (cases "xk_quota inp")
  case (Some q)
  let ?q = "q\<lparr> uq_orgId := xk_orgId inp, uq_now := Some now \<rparr>"
  obtain x s1 where x: "consumeUsageQuota e ?q s = (x, s1)" by fastforce
  then have "channelDeliveries s1 = channelDeliveries s" by (rule consumeUsageQuota_cases) simp_all
  moreover have "s' = s1" using assms Some x by (auto simp: delivery_quota_def then_do_def split: sum.splits if_splits)
  ultimately show ?thesis by simp
qed (use assms in \<open>simp add: delivery_quota_def\<close>)

lemma claim_delivery_cases:
  assumes "claimNextChannelDelivery e inp s = (r, s')" "map_ok (channelDeliveries s)"
  obtains (none) "channelDeliveries s' = channelDeliveries s" "\<And>x. r \<noteq> Inr (Some x)"
  | (failed) k d d' er where "next_delivery inp (nowIso e (xk_now inp)) (channelDeliveries s) = Some (k, d)"
      "channelDeliveries s' = map_set k d' (channelDeliveries s)" "r = Inl er"
  | (claimed) k d w l where "next_delivery inp (nowIso e (xk_now inp)) (channelDeliveries s) = Some (k, d)"
      "channel_text (xk_claimedBy inp) ''Delivery claimant'' = Inr w"
      "channelDeliveries s' = map_set k (claimed_delivery inp (nowIso e (xk_now inp)) w l d) (channelDeliveries s)"
      "r = Inr (Some (claimed_delivery inp (nowIso e (xk_now inp)) w l d))"
proof -
  let ?now = "nowIso e (xk_now inp)"
  show thesis
  proof (cases "xk_channelBindingIds inp = Some [] \<or> next_delivery inp ?now (channelDeliveries s) = None")
    case True
    then have "r = Inr None" "s' = s" using assms(1) by (auto simp: claimNextChannelDelivery_def split: if_splits)
    then show thesis by (intro none) simp_all
  next
    case False
    then obtain k d where kd: "next_delivery inp ?now (channelDeliveries s) = Some (k, d)" by auto
    obtain q s1 where q: "delivery_quota e inp ?now s = (q, s1)" by fastforce
    note fr = delivery_quota_frame [OF q]
    have eq: "then_do (q, s1) (\<lambda>_ s1. let d1 = d\<lparr> dl_status := DClaimed \<rparr> in
               try_in (put_delivery k d1 s1) (channel_text (xk_claimedBy inp) ''Delivery claimant'') (\<lambda>claimedBy.
               let d2 = d1\<lparr> dl_claimedBy := Some claimedBy \<rparr> in
               try_in (put_delivery k d2 s1) (channel_text (or_else (xk_lastClaimedBy inp) (xk_claimedBy inp)) ''Delivery owner'') (\<lambda>lastClaimedBy.
               let d' = claimed_delivery inp ?now claimedBy lastClaimedBy d in (Inr (Some d'), put_delivery k d' s1)))) = (r, s')"
      using assms(1) False kd q by (simp add: claimNextChannelDelivery_def Let_def)
    show thesis
    proof (cases q)
      case (Inl er)
      then have "r = Inl er" "s' = s1" using eq by (simp_all add: then_do_def)
      then show thesis using fr by (intro none) simp_all
    next
      case (Inr u)
      note eq1 = eq [unfolded Inr then_do_def prod.case sum.case Let_def]
      show thesis
      proof (cases "channel_text (xk_claimedBy inp) ''Delivery claimant''")
        case (Inl er)
        then show thesis using eq1 fr by (intro failed [OF kd, of "d\<lparr> dl_status := DClaimed \<rparr>" er]) (auto simp: try_in_def)
      next
        case w: (Inr w)
        show thesis
        proof (cases "channel_text (or_else (xk_lastClaimedBy inp) (xk_claimedBy inp)) ''Delivery owner''")
          case (Inl er)
          then show thesis using eq1 fr w by (intro failed [OF kd, of "d\<lparr> dl_status := DClaimed, dl_claimedBy := Some w \<rparr>" er]) (auto simp: try_in_def)
        next
          case (Inr l)
          then show thesis using eq1 fr w by (intro claimed [OF kd w, of l]) (auto simp: try_in_def)
        qed
      qed
    qed
  qed
qed

text \<open>A step of the queue before time \<open>limit\<close>: deliveries are created and claimed; other domains do not write the queue.\<close>

inductive delivery_step :: "int \<Rightarrow> 'a channel_store_scheme \<Rightarrow> 'a channel_store_scheme \<Rightarrow> bool" for limit where
  dl_create: "createChannelDelivery e cr s = (r, s') \<Longrightarrow> delivery_step limit s s'"
| dl_claim: "claimNextChannelDelivery e cl s = (x, s') \<Longrightarrow> nowIso e (xk_now cl) < limit \<Longrightarrow> delivery_step limit s s'"
| dl_other: "channelDeliveries s' = channelDeliveries s \<Longrightarrow> delivery_step limit s s'"

lemma create_delivery_cases:
  assumes "createChannelDelivery e inp s = (r, s')"
  obtains (same) "s' = s" | (created) k d where "map_get (channelDeliveries s) k = None" "s' = put_delivery k d s"
proof -
  have "s' = s \<or> (\<exists>k d. map_get (channelDeliveries s) k = None \<and> s' = put_delivery k d s)"
    using assms by (auto simp: createChannelDelivery_def try_in_def Let_def split: sum.splits option.splits)
  then show thesis using same created by blast
qed

lemma live_claim_not_due: "dl_status d = DClaimed \<Longrightarrow> dl_claimExpiresAt d = Some t \<Longrightarrow> now < t \<Longrightarrow> \<not> delivery_due now d"
  by (simp add: delivery_due_def)

lemma delivery_step_kept:
  assumes "delivery_step t s s'" "map_ok (channelDeliveries s)" "map_get (channelDeliveries s) k = Some d" "dl_status d = DClaimed" "dl_claimExpiresAt d = Some t"
  shows "map_ok (channelDeliveries s') \<and> map_get (channelDeliveries s') k = Some d"
  using assms(1)
proof (cases rule: delivery_step.cases)
  case (dl_create e cr r)
  then show ?thesis by (cases rule: create_delivery_cases) (use assms(2,3) in auto)
next
  case (dl_claim e cl x)
  have other: "k' \<noteq> k" if n: "next_delivery cl (nowIso e (xk_now cl)) (channelDeliveries s) = Some (k', d')" for k' d'
  proof
    assume "k' = k"
    have "map_get (channelDeliveries s) k' = Some d'" using next_delivery_spec(1) [OF n] assms(2) by (simp add: map_get_iff)
    then have "d' = d" using assms(3) \<open>k' = k\<close> by simp
    then show False using next_delivery_spec(2) [OF n] live_claim_not_due [OF assms(4,5) dl_claim(2)] by (simp add: delivery_matches_def)
  qed
  from dl_claim(1) assms(2) show ?thesis
  proof (cases rule: claim_delivery_cases)
    case (failed k' d' d'' er)
    then show ?thesis using other assms(2,3) by simp
  next
    case (claimed k' d' w l)
    then show ?thesis using other assms(2,3) by simp
  qed (use assms(2,3) in simp)
qed (use assms(2,3) in simp)

text \<open>A claimed delivery is handed to nobody else. A claim returns a delivery of the organisation that was
  due, with the earliest next attempt among those, recorded under the claimant; and until that claim expires
  or the delivery is acknowledged the record stays exactly as claimed, so that no other claim returns it,
  whatever is created and claimed in between.\<close>

theorem delivery_claim_exclusive:
  assumes "claimNextChannelDelivery e inp s = (Inr (Some d), s')" and "map_ok (channelDeliveries s)"
  shows "\<exists>k d0 t. map_get (channelDeliveries s) k = Some d0 \<and> delivery_due (nowIso e (xk_now inp)) d0 \<and> dl_orgId d0 = xk_orgId inp
    \<and> dl_attemptCount d = dl_attemptCount d0 + 1 \<and> dl_claimedBy d = Some (js_trim (xk_claimedBy inp)) \<and> dl_claimExpiresAt d = Some t
    \<and> (\<forall>d1 \<in> set (map_values (channelDeliveries s)). delivery_matches inp (nowIso e (xk_now inp)) d1 \<longrightarrow> dl_nextAttemptAt d0 \<le> dl_nextAttemptAt d1)
    \<and> (\<forall>s2. (delivery_step t)\<^sup>*\<^sup>* s' s2 \<longrightarrow> map_get (channelDeliveries s2) k = Some d)"
  using assms
proof (cases rule: claim_delivery_cases)
  case (claimed k d0 w l)
  let ?now = "nowIso e (xk_now inp)"
  note nx = next_delivery_spec [OF claimed(1)]
  have d: "d = claimed_delivery inp ?now w l d0" using claimed(4) by simp
  obtain t where t: "dl_claimExpiresAt d = Some t" "dl_status d = DClaimed" by (simp add: d claimed_delivery_def)
  have w: "w = js_trim (xk_claimedBy inp)" using claimed(2) by (auto simp: channel_text_def normalizeText_def split: if_splits)
  have get: "map_get (channelDeliveries s) k = Some d0" using nx(1) assms(2) by (simp add: map_get_iff)
  have "map_get (channelDeliveries s2) k = Some d" if "(delivery_step t)\<^sup>*\<^sup>* s' s2" for s2
  proof -
    from that have "map_ok (channelDeliveries s2) \<and> map_get (channelDeliveries s2) k = Some d"
    proof (induction rule: rtranclp_induct)
      case (step a b)
      then show ?case using delivery_step_kept [of t a b k d] t by simp
    qed (use claimed(3) d assms(2) in simp)
    then show ?thesis ..
  qed
  moreover have "dl_nextAttemptAt d0 \<le> dl_nextAttemptAt d1"
    if "d1 \<in> set (map_values (channelDeliveries s))" "delivery_matches inp ?now d1" for d1
    using that nx(3) by (auto simp: map_values_def)
  moreover have "delivery_due ?now d0" "dl_orgId d0 = xk_orgId inp" "dl_attemptCount d = dl_attemptCount d0 + 1" "dl_claimedBy d = Some (js_trim (xk_claimedBy inp))"
    using nx(2) w by (simp_all add: delivery_matches_def d claimed_delivery_def)
  ultimately show ?thesis using get t(1) by (intro exI [of _ k] exI [of _ d0] exI [of _ t]) simp
qed (blast, simp)

definition sample_delivery :: "string \<Rightarrow> iso \<Rightarrow> channel_delivery" where
  "sample_delivery i at = \<lparr> dl_deliveryId = i, dl_orgId = ''o'', dl_agentId = ''ag'', dl_channelBindingId = ''b'', dl_sessionBindingId = None, dl_provider = ''slack'',
     dl_target = JObj [], dl_eventType = ''msg'', dl_payload = JObj [], dl_status = DPending, dl_attemptCount = 0, dl_claimedBy = None, dl_lastClaimedBy = None,
     dl_claimExpiresAt = None, dl_nextAttemptAt = at, dl_lastError = None, dl_createdAt = 0, dl_updatedAt = 0 \<rparr>"

definition sample_delivery_queue :: channel_store where
  "sample_delivery_queue = sample_channels [] [(''k1'', sample_delivery ''d1'' 7), (''k2'', sample_delivery ''d2'' 3)] []"

definition sample_delivery_claim :: claim_delivery_input where
  "sample_delivery_claim = \<lparr> xk_orgId = ''o'', xk_claimedBy = '' gw '', xk_lastClaimedBy = None, xk_channelBindingIds = None, xk_now = Some 10, xk_ttlMs = Some 100,
     xk_quota = None \<rparr>"

theorem delivery_claim_exclusive_witness:
  "\<exists>d s'. claimNextChannelDelivery sample_env sample_delivery_claim sample_delivery_queue = (Inr (Some d), s') \<and> dl_claimedBy d = Some ''gw''"
proof -
  define out where "out = claimNextChannelDelivery sample_env sample_delivery_claim sample_delivery_queue"
  have "case fst out of Inr (Some _) \<Rightarrow> True | _ \<Rightarrow> False" unfolding out_def by code_simp
  then obtain d where "fst out = Inr (Some d)" by (auto split: sum.splits option.splits)
  then have run: "claimNextChannelDelivery sample_env sample_delivery_claim sample_delivery_queue = (Inr (Some d), snd out)"
    by (simp add: out_def prod_eq_iff)
  have ok: "map_ok (channelDeliveries sample_delivery_queue)" by (simp add: sample_delivery_queue_def sample_channels_def map_ok_def)
  have "js_trim (xk_claimedBy sample_delivery_claim) = ''gw''" by code_simp
  with delivery_claim_exclusive [OF run ok] run show ?thesis by metis
qed


section \<open>Cursors of bound threads\<close>

text \<open>The delivery cursor of a chat thread never moves back. Whatever an update asks for and whether or not it
  succeeds, both sequences of the thread are at least what they were; an accepted update sets exactly the
  requested sequences, one that would move either back is refused as stale with the current cursor, and
  leaves the store as it is.\<close>

theorem channel_cursor_monotone:
  assumes "updateChannelCursor e inp s = (r, s')" and "getChannelSessionBinding s (gc_orgId inp) (gc_bindingId inp) = Some b"
  shows "\<exists>b'. getChannelSessionBinding s' (gc_orgId inp) (gc_bindingId inp) = Some b'
    \<and> sb_lastEventSequence b \<le> sb_lastEventSequence b' \<and> sb_lastWorkspaceSequence b \<le> sb_lastWorkspaceSequence b'
    \<and> (case r of
         Inr (CursorMoved x) \<Rightarrow> x = b' \<and> gc_lastEventSequence inp = JInt (sb_lastEventSequence b') \<and> gc_lastWorkspaceSequence inp = JInt (sb_lastWorkspaceSequence b')
       | Inr (CursorStale x) \<Rightarrow> x = b \<and> s' = s
       | Inr CursorNotFound \<Rightarrow> False
       | Inl _ \<Rightarrow> True)"
proof -
  let ?put = "\<lambda>b. s\<lparr> channelSessionBindings := map_set (gc_bindingId inp) b (channelSessionBindings s) \<rparr>"
  have org: "sb_orgId b = gc_orgId inp" using assms(2) by (auto simp: getChannelSessionBinding_def split: option.splits if_splits)
  have found: "getChannelSessionBinding (?put x) (gc_orgId inp) (gc_bindingId inp) = Some x" if "sb_orgId x = gc_orgId inp" for x
    using that by (simp add: getChannelSessionBinding_def)
  note eq = assms(1) [unfolded updateChannelCursor_def assms(2) option.case]
  show ?thesis
  proof (cases "normalizeNonNegativeInteger (Some (gc_lastEventSequence inp)) ''Last event sequence''")
    case (Inl er)
    then show ?thesis using eq assms(2) by (auto simp: try_in_def)
  next
    case ev: (Inr le)
    show ?thesis
    proof (cases "normalizeNonNegativeInteger (Some (gc_lastWorkspaceSequence inp)) ''Last workspace sequence''")
      case (Inl er)
      then show ?thesis using eq ev assms(2) by (auto simp: try_in_def)
    next
      case ws: (Inr lw)
      have req: "gc_lastEventSequence inp = JInt le" "gc_lastWorkspaceSequence inp = JInt lw"
        using ev ws by (auto simp: normalizeNonNegativeInteger_def coalesce_def split: jsnum.splits if_splits)
      show ?thesis
      proof (cases "le < sb_lastEventSequence b \<or> lw < sb_lastWorkspaceSequence b")
        case True
        then show ?thesis using eq ev ws assms(2) by (auto simp: try_in_def)
      next
        case False
        define m where "m = (case gc_lastChatMessageId inp of None \<Rightarrow> Inr (sb_lastChatMessageId b) | Some c \<Rightarrow> channel_nullable c ''Last chat message id'')"
        let ?b1 = "b\<lparr> sb_lastEventSequence := le, sb_lastWorkspaceSequence := lw \<rparr>"
        have eq1: "try_in (?put ?b1) m (\<lambda>lastChat. let x = ?b1\<lparr> sb_lastChatMessageId := lastChat, sb_updatedAt := nowIso e (gc_updatedAt inp) \<rparr>
            in (Inr (CursorMoved x), ?put x)) = (r, s')"
          using eq ev ws False by (simp add: try_in_def [of s] Let_def m_def)
        show ?thesis
        proof (cases m)
          case (Inl er)
          then have "r = Inl er" "s' = ?put ?b1" using eq1 by (simp_all add: try_in_def)
          then show ?thesis using found [of ?b1] org False by (intro exI [of _ ?b1]) simp
        next
          case (Inr c)
          let ?x = "?b1\<lparr> sb_lastChatMessageId := c, sb_updatedAt := nowIso e (gc_updatedAt inp) \<rparr>"
          have "r = Inr (CursorMoved ?x)" "s' = ?put ?x" using eq1 Inr by (simp_all add: try_in_def Let_def)
          then show ?thesis using found [of ?x] org False req by (intro exI [of _ ?x]) simp
        qed
      qed
    qed
  qed
qed

definition sample_cursor :: "int \<Rightarrow> cursor_input" where
  "sample_cursor n = \<lparr> gc_orgId = ''o'', gc_bindingId = ''sb'', gc_lastEventSequence = JInt n, gc_lastWorkspaceSequence = JInt 2, gc_lastChatMessageId = None, gc_updatedAt = None \<rparr>"

theorem channel_cursor_monotone_witness:
  "\<exists>b. getChannelSessionBinding (snd (updateChannelCursor sample_env (sample_cursor 3) (sample_channels [] [] []))) ''o'' ''sb'' = Some b \<and> 4 \<le> sb_lastEventSequence b"
proof -
  have g: "getChannelSessionBinding (sample_channels [] [] []) (gc_orgId (sample_cursor 3)) (gc_bindingId (sample_cursor 3)) = Some sample_thread"
    by (simp add: getChannelSessionBinding_def sample_channels_def sample_cursor_def sample_thread_def map_get_def)
  have "gc_orgId (sample_cursor 3) = ''o''" "gc_bindingId (sample_cursor 3) = ''sb''" "sb_lastEventSequence sample_thread = 4"
    by (simp_all add: sample_cursor_def sample_thread_def)
  then show ?thesis using channel_cursor_monotone [OF surjective_pairing g, of sample_env] by auto
qed

end
