(* ===== verification/Byok_Secrets.thy ===== *)
theory Byok_Secrets
  imports Audited_Writes
begin

text \<open>
  Provider keys brought by an organisation (\<open>in-memory-domains/byok-secrets.ts\<close>): creation, rotation,
  validation and disabling. The invariant is that an organisation has at most one active key per provider
  and that every key is stored either encrypted or by reference, never both.
\<close>


section \<open>Records\<close>

datatype byok_status = KPendingValidation | KActive | KDisabled | KExpired | KInvalid | KUnsupported

record byok_secret =
  bk_secretId :: string
  bk_orgId :: string
  bk_providerId :: string
  bk_status :: byok_status
  bk_ciphertext :: "string option"
  bk_kmsRef :: "string option"
  bk_last4 :: string
  bk_keyFingerprint :: string
  bk_createdByAccountId :: "string option"
  bk_rotatedFromSecretId :: "string option"
  bk_lastValidatedAt :: "iso option"
  bk_validationError :: "string option"
  bk_createdAt :: iso
  bk_updatedAt :: iso

record byok_store = identity_store +
  byokSecrets :: "byok_secret jsmap"

record create_byok_input =
  kc_secretId :: string
  kc_orgId :: string
  kc_providerId :: string
  kc_status :: "byok_status option"
  kc_ciphertext :: "string option"
  kc_kmsRef :: "string option"
  kc_last4 :: string
  kc_keyFingerprint :: string
  kc_createdByAccountId :: "string option"
  kc_rotatedFromSecretId :: "string option"
  kc_createdAt :: "iso option"
  kc_actor :: "audit_actor option"

record disable_byok_input =
  kd_orgId :: string
  kd_providerId :: string
  kd_secretId :: "string option"
  kd_disabledAt :: "iso option"
  kd_actor :: "audit_actor option"

record validate_byok_input =
  kv_orgId :: string
  kv_providerId :: string
  kv_secretId :: "string option"
  kv_status :: "byok_status option"
  kv_validationError :: "string option"
  kv_validatedAt :: "iso option"
  kv_actor :: "audit_actor option"


section \<open>Operations\<close>

definition byok_status_text :: "byok_status \<Rightarrow> string" where
  "byok_status_text st = (case st of KPendingValidation \<Rightarrow> ''pending_validation'' | KActive \<Rightarrow> ''active'' | KDisabled \<Rightarrow> ''disabled''
     | KExpired \<Rightarrow> ''expired'' | KInvalid \<Rightarrow> ''invalid'' | KUnsupported \<Rightarrow> ''unsupported'')"

definition provider_id_char :: "char \<Rightarrow> bool" where
  "provider_id_char c = (let n = (of_char c :: nat) in (97 \<le> n \<and> n \<le> 122) \<or> (48 \<le> n \<and> n \<le> 57))"

text \<open>\<open>/^[a-z0-9][a-z0-9._-]*$/\<close> on the lower-cased text.\<close>

definition normalizeByokProviderId :: "string \<Rightarrow> error + string" where
  "normalizeByokProviderId v =
     try_pure (normalizeText (Some v) 64 ''BYOK provider id'') (\<lambda>t.
       let p = js_lower t in
       if p \<noteq> [] \<and> provider_id_char (hd p) \<and> list_all (\<lambda>c. provider_id_char c \<or> c \<in> set ''._-'') p then Inr p
       else Inl (Error (''Unsupported BYOK provider id '' @ p @ ''.'')))"

definition put_secret :: "byok_secret \<Rightarrow> 'a byok_store_scheme \<Rightarrow> 'a byok_store_scheme" where
  "put_secret k s = s\<lparr> byokSecrets := map_set (bk_secretId k) k (byokSecrets s) \<rparr>"

definition secret_of :: "string \<Rightarrow> string \<Rightarrow> byok_secret \<Rightarrow> bool" where
  "secret_of orgId providerId k = (bk_orgId k = orgId \<and> bk_providerId k = providerId)"

definition active_secret :: "string \<Rightarrow> string \<Rightarrow> byok_secret \<Rightarrow> bool" where
  "active_secret orgId providerId k = (secret_of orgId providerId k \<and> bk_status k = KActive)"

text \<open>Newest first.\<close>

definition newest_secrets :: "env \<Rightarrow> byok_secret list \<Rightarrow> byok_secret list" where
  "newest_secrets e ks = js_sort (cmp_then (cmp_rev (cmp_by bk_updatedAt cmp_int))
     (cmp_then (cmp_rev (cmp_by bk_createdAt cmp_int)) (cmp_rev (cmp_by bk_secretId (locale_compare e))))) ks"

definition first_of :: "'a list \<Rightarrow> 'a option" where
  "first_of xs = (case xs of [] \<Rightarrow> None | x # _ \<Rightarrow> Some x)"

definition getByokSecret :: "env \<Rightarrow> 'a byok_store_scheme \<Rightarrow> string \<Rightarrow> string \<Rightarrow> error + byok_secret option" where
  "getByokSecret e s orgId providerIn =
     try_pure (normalizeByokProviderId providerIn) (\<lambda>p.
       Inr (first_of (newest_secrets e (filter (secret_of orgId p) (map_values (byokSecrets s))))))"

definition getActiveByokSecret :: "env \<Rightarrow> 'a byok_store_scheme \<Rightarrow> string \<Rightarrow> string \<Rightarrow> error + byok_secret option" where
  "getActiveByokSecret e s orgId providerIn =
     try_pure (normalizeByokProviderId providerIn) (\<lambda>p.
       Inr (first_of (newest_secrets e (filter (active_secret orgId p) (map_values (byokSecrets s))))))"

definition listByokSecrets :: "env \<Rightarrow> 'a byok_store_scheme \<Rightarrow> string \<Rightarrow> error + byok_secret list" where
  "listByokSecrets e s orgId =
     try_pure (requireOrg s orgId) (\<lambda>_.
       Inr (js_sort (cmp_then (cmp_rev (cmp_by bk_updatedAt cmp_int)) (cmp_then (cmp_rev (cmp_by bk_createdAt cmp_int))
          (cmp_then (cmp_by bk_providerId (locale_compare e)) (cmp_rev (cmp_by bk_secretId (locale_compare e))))))
         (filter (\<lambda>k. bk_orgId k = orgId) (map_values (byokSecrets s)))))"

definition new_secret :: "create_byok_input \<Rightarrow> iso \<Rightarrow> string \<Rightarrow> string option \<Rightarrow> string option \<Rightarrow> string option \<Rightarrow> error + byok_secret" where
  "new_secret inp now provider ciphertext kmsRef prior =
     try_pure (normalizeText (Some (kc_secretId inp)) 256 ''BYOK secret id'') (\<lambda>secretId.
     try_pure (normalizeText (Some (kc_last4 inp)) 32 ''BYOK secret last4'') (\<lambda>last4.
     try_pure (normalizeText (Some (kc_keyFingerprint inp)) 128 ''BYOK key fingerprint'') (\<lambda>fingerprint.
       Inr \<lparr> bk_secretId = secretId, bk_orgId = kc_orgId inp, bk_providerId = provider, bk_status = coalesce (kc_status inp) KPendingValidation,
             bk_ciphertext = ciphertext, bk_kmsRef = kmsRef, bk_last4 = last4, bk_keyFingerprint = fingerprint,
             bk_createdByAccountId = or_null (kc_createdByAccountId inp),
             bk_rotatedFromSecretId = (case or_null (kc_rotatedFromSecretId inp) of Some x \<Rightarrow> Some x | None \<Rightarrow> or_null prior),
             bk_lastValidatedAt = None, bk_validationError = None, bk_createdAt = now, bk_updatedAt = now \<rparr>)))"

definition secret_meta :: "byok_secret \<Rightarrow> (string \<times> json) list" where
  "secret_meta k = [(''providerId'', JStr (bk_providerId k)), (''status'', JStr (byok_status_text (bk_status k))), (''last4'', JStr (bk_last4 k)),
     (''keyFingerprint'', JStr (bk_keyFingerprint k))]"

definition disabled_secret :: "iso \<Rightarrow> byok_secret \<Rightarrow> byok_secret" where
  "disabled_secret now k = k\<lparr> bk_status := KDisabled, bk_updatedAt := now \<rparr>"

text \<open>The active key is disabled before the new one has been checked, and stays so when the new one is refused.\<close>

definition createByokSecret ::
  "env \<Rightarrow> create_byok_input \<Rightarrow> 'a byok_store_scheme \<Rightarrow> ('a byok_store_scheme, byok_secret) outcome" where
  "createByokSecret e inp s =
     try_in s (requireOrg s (kc_orgId inp)) (\<lambda>_.
     try_in s (require_account s (kc_createdByAccountId inp)) (\<lambda>_.
     try_in s (normalizeByokProviderId (kc_providerId inp)) (\<lambda>provider.
     try_in s (normalizeNullableText (kc_ciphertext inp) 4096 ''BYOK ciphertext'') (\<lambda>ciphertext.
     try_in s (normalizeNullableText (kc_kmsRef inp) 4096 ''BYOK KMS ref'') (\<lambda>kmsRef.
     if (ciphertext \<noteq> None) = (kmsRef \<noteq> None) then (Inl (Error ''BYOK secret requires exactly one of ciphertext or kmsRef.''), s)
     else
     try_in s (getActiveByokSecret e s (kc_orgId inp) provider) (\<lambda>prior.
       let now = nowIso e (kc_createdAt inp);
           active = (kc_status inp = Some KActive);
           s1 = (case prior of Some k \<Rightarrow> (if active then put_secret (disabled_secret now k) s else s) | None \<Rightarrow> s)
       in try_in s1 (new_secret inp now provider ciphertext kmsRef (map_option bk_secretId prior)) (\<lambda>k.
            if map_has (byokSecrets s1) (bk_secretId k) then (Inl (Error (''BYOK secret '' @ bk_secretId k @ '' already exists.'')), s1)
            else audited e (actor_audit (bk_orgId k) (bk_createdByAccountId k) (kc_actor inp)
                (if prior = None then ''byok_secret.created'' else if active then ''byok_secret.rotated'' else ''byok_secret.rotation_started'')
                ''byok_secret'' (bk_secretId k) (secret_meta k @ [(''rotatedFromSecretId'', json_opt (bk_rotatedFromSecretId k))]) (kc_createdAt inp))
              k (put_secret k s1))))))))"

definition byok_account :: "audit_actor option \<Rightarrow> byok_secret \<Rightarrow> string option" where
  "byok_account actor k = (case or_null (Option.bind actor aa_accountId) of Some a \<Rightarrow> Some a | None \<Rightarrow> bk_createdByAccountId k)"

fun disable_all ::
  "env \<Rightarrow> disable_byok_input \<Rightarrow> byok_secret list \<Rightarrow> 'a byok_store_scheme \<Rightarrow> ('a byok_store_scheme, unit) outcome" where
  "disable_all e inp [] s = (Inr (), s)"
| "disable_all e inp (k # ks) s =
     (let k' = disabled_secret (nowIso e (kd_disabledAt inp)) k in
      then_do (audited e (actor_audit (bk_orgId k) (byok_account (kd_actor inp) k) (kd_actor inp) ''byok_secret.disabled'' ''byok_secret''
          (bk_secretId k) (secret_meta k') (kd_disabledAt inp)) () (put_secret k' s)) (\<lambda>_ s'. disable_all e inp ks s'))"

definition disableByokSecret ::
  "env \<Rightarrow> disable_byok_input \<Rightarrow> 'a byok_store_scheme \<Rightarrow> ('a byok_store_scheme, byok_secret option) outcome" where
  "disableByokSecret e inp s =
     try_in s (normalizeByokProviderId (kd_providerId inp)) (\<lambda>provider.
       let selected = (case or_null (kd_secretId inp) of
             Some i \<Rightarrow> (case map_get (byokSecrets s) i of Some k \<Rightarrow> [k] | None \<Rightarrow> [])
           | None \<Rightarrow> newest_secrets e (filter (\<lambda>k. secret_of (kd_orgId inp) provider k \<and> bk_status k \<noteq> KDisabled) (map_values (byokSecrets s))));
           matching = filter (\<lambda>k. secret_of (kd_orgId inp) provider k \<and> bk_status k \<noteq> KDisabled) selected
       in case matching of
            [] \<Rightarrow> (Inr None, s)
          | k # _ \<Rightarrow> then_do (disable_all e inp matching s) (\<lambda>_ s'. (Inr (Some (disabled_secret (nowIso e (kd_disabledAt inp)) k)), s')))"

text \<open>Making \<open>i\<close> the only active key of its organisation and provider.\<close>

definition retire_others :: "iso \<Rightarrow> byok_secret \<Rightarrow> byok_secret jsmap \<Rightarrow> byok_secret jsmap" where
  "retire_others now k m =
     map (\<lambda>(i, c). (i, if bk_secretId c \<noteq> bk_secretId k \<and> active_secret (bk_orgId k) (bk_providerId k) c then disabled_secret now c else c)) m"

definition validated_secret :: "validate_byok_input \<Rightarrow> iso \<Rightarrow> string option \<Rightarrow> byok_secret \<Rightarrow> byok_secret" where
  "validated_secret inp now prior k =
     k\<lparr> bk_lastValidatedAt := Some now, bk_validationError := or_null (kv_validationError inp),
       bk_rotatedFromSecretId := (if or_null (bk_rotatedFromSecretId k) = None \<and> prior \<noteq> None then prior else bk_rotatedFromSecretId k),
       bk_status := coalesce (kv_status inp) (bk_status k), bk_updatedAt := now \<rparr>"

definition recordByokSecretValidation ::
  "env \<Rightarrow> validate_byok_input \<Rightarrow> 'a byok_store_scheme \<Rightarrow> ('a byok_store_scheme, byok_secret option) outcome" where
  "recordByokSecretValidation e inp s =
     try_in s (normalizeByokProviderId (kv_providerId inp)) (\<lambda>provider.
       let found = (case or_null (kv_secretId inp) of
             Some i \<Rightarrow> map_get (byokSecrets s) i
           | None \<Rightarrow> find (active_secret (kv_orgId inp) provider) (map_values (byokSecrets s)))
       in case found of
            None \<Rightarrow> (Inr None, s)
          | Some k \<Rightarrow>
              if \<not> secret_of (kv_orgId inp) provider k then (Inr None, s)
              else
                let now = nowIso e (kv_validatedAt inp); active = (kv_status inp = Some KActive);
                    prior = (if active then map_option bk_secretId (find (\<lambda>c. bk_secretId c \<noteq> bk_secretId k \<and> active_secret (bk_orgId k) (bk_providerId k) c)
                        (map_values (byokSecrets s))) else None);
                    k' = validated_secret inp now prior k;
                    s1 = put_secret k' (if active then s\<lparr> byokSecrets := retire_others now k (byokSecrets s) \<rparr> else s);
                    account = byok_account (kv_actor inp) k
                in then_do (audited e (actor_audit (bk_orgId k) account (kv_actor inp) ''byok_secret.validated'' ''byok_secret'' (bk_secretId k)
                       (secret_meta k' @ [(''validationError'', json_opt (bk_validationError k'))]) (kv_validatedAt inp)) () s1) (\<lambda>_ s2.
                   if active \<and> (prior \<noteq> None \<or> or_null (bk_rotatedFromSecretId k') \<noteq> None)
                   then audited e (actor_audit (bk_orgId k) account (kv_actor inp) ''byok_secret.rotated'' ''byok_secret'' (bk_secretId k)
                       (secret_meta k' @ [(''rotatedFromSecretId'', json_opt (first_some (or_null (bk_rotatedFromSecretId k')) (or_null prior)))]) (kv_validatedAt inp))
                     (Some k') s2
                   else (Inr (Some k'), s2)))"

section \<open>At most one active key\<close>

definition secret_ok :: "byok_secret \<Rightarrow> bool" where
  "secret_ok k = ((bk_ciphertext k \<noteq> None) \<noteq> (bk_kmsRef k \<noteq> None))"

definition secrets_ok :: "byok_secret jsmap \<Rightarrow> bool" where
  "secrets_ok m =
     (map_ok m \<and> (\<forall>i k. map_get m i = Some k \<longrightarrow> bk_secretId k = i \<and> secret_ok k)
      \<and> (\<forall>i j k l. map_get m i = Some k \<and> map_get m j = Some l \<and> bk_status k = KActive \<and> active_secret (bk_orgId k) (bk_providerId k) l \<longrightarrow> i = j))"

lemma secrets_ok_put:
  assumes "secrets_ok m" "secret_ok k"
    and "bk_status k = KActive \<Longrightarrow> (\<forall>j l. map_get m j = Some l \<and> active_secret (bk_orgId k) (bk_providerId k) l \<longrightarrow> j = bk_secretId k)"
  shows "secrets_ok (map_set (bk_secretId k) k m)"
  unfolding secrets_ok_def
proof (intro conjI allI impI)
  show "map_ok (map_set (bk_secretId k) k m)" using assms(1) by (simp add: secrets_ok_def)
next
  fix i c assume "map_get (map_set (bk_secretId k) k m) i = Some c"
  then show "bk_secretId c = i" "secret_ok c" using assms(1,2) by (auto simp: secrets_ok_def split: if_splits)
next
  fix i j c d
  assume a: "map_get (map_set (bk_secretId k) k m) i = Some c \<and> map_get (map_set (bk_secretId k) k m) j = Some d
    \<and> bk_status c = KActive \<and> active_secret (bk_orgId c) (bk_providerId c) d"
  have old: "i = j" if "map_get m i = Some c" "map_get m j = Some d" using a that assms(1) unfolding secrets_ok_def by blast
  have sym: "active_secret (bk_orgId d) (bk_providerId d) c" "bk_status d = KActive" using a by (auto simp: active_secret_def secret_of_def)
  show "i = j" using a old assms(3) sym by (auto split: if_splits)
qed

lemma secrets_ok_disable: "secrets_ok m \<Longrightarrow> secret_ok k \<Longrightarrow> secrets_ok (map_set (bk_secretId k) (disabled_secret now k) m)"
  using secrets_ok_put [of m "disabled_secret now k"] by (simp add: disabled_secret_def secret_ok_def)

lemma put_secret_simps [simp]: "byokSecrets (put_secret k s) = map_set (bk_secretId k) k (byokSecrets s)"
  by (simp add: put_secret_def)

lemma disabled_secret_simps [simp]: "bk_secretId (disabled_secret now k) = bk_secretId k" "secret_ok (disabled_secret now k) = secret_ok k"
  "bk_status (disabled_secret now k) = KDisabled"
  by (simp_all add: disabled_secret_def secret_ok_def)

lemma audited_secrets:
  fixes s :: "'a byok_store_scheme"
  assumes "audited e inp res s = (r, s')"
  shows "byokSecrets s' = byokSecrets s"
  using assms by (rule audited_effect) simp

lemma get_secret_ok: "secrets_ok m \<Longrightarrow> map_get m i = Some k \<Longrightarrow> bk_secretId k = i \<and> secret_ok k"
  unfolding secrets_ok_def by blast

lemma values_secret_ok:
  assumes "secrets_ok m" "k \<in> set (map_values m)"
  shows "map_get m (bk_secretId k) = Some k \<and> secret_ok k"
proof -
  have ok: "map_ok m" using assms(1) by (simp add: secrets_ok_def)
  obtain i where i: "map_get m i = Some k" using assms(2) values_map_get [OF ok, of k] by auto
  then show ?thesis using get_secret_ok [OF assms(1) i] by simp
qed

lemma active_unique:
  assumes "secrets_ok m" "map_get m i = Some k" "map_get m j = Some l" "active_secret org p k" "active_secret org p l"
  shows "i = j"
proof -
  have "bk_status k = KActive" "active_secret (bk_orgId k) (bk_providerId k) l" using assms(4,5) by (auto simp: active_secret_def secret_of_def)
  then show ?thesis using assms(1-3) unfolding secrets_ok_def by blast
qed

lemma getActive_cases:
  assumes "getActiveByokSecret e s org p0 = Inr prior" "normalizeByokProviderId p0 = Inr p" "secrets_ok (byokSecrets s)"
    "map_get (byokSecrets s) j = Some l" "active_secret org p l"
  shows "\<exists>k. prior = Some k \<and> bk_secretId k = j \<and> secret_ok k"
proof -
  let ?xs = "filter (active_secret org p) (map_values (byokSecrets s))"
  have ok: "map_ok (byokSecrets s)" using assms(3) by (simp add: secrets_ok_def)
  have pr: "prior = first_of (newest_secrets e ?xs)" using assms(1,2) by (simp add: getActiveByokSecret_def try_pure_def)
  have l: "l \<in> set (newest_secrets e ?xs)" using assms(4,5) values_map_get [OF ok, of l] by (auto simp: newest_secrets_def)
  then obtain k ks where k: "newest_secrets e ?xs = k # ks" by (cases "newest_secrets e ?xs") auto
  then have "k \<in> set (newest_secrets e ?xs)" by simp
  then have kv: "k \<in> set (map_values (byokSecrets s))" "active_secret org p k" by (simp_all add: newest_secrets_def)
  note kk = values_secret_ok [OF assms(3) kv(1)]
  have "bk_secretId k = j"
    using active_unique [OF assms(3) _ assms(4) kv(2) assms(5)] kk by simp
  then show ?thesis using pr k kk by (simp add: first_of_def)
qed

lemma provider_id_idem:
  assumes "normalizeByokProviderId v = Inr p"
  shows "normalizeByokProviderId p = Inr p"
proof -
  obtain t where t: "normalizeText (Some v) 64 ''BYOK provider id'' = Inr t" "p = js_lower t"
    and p: "p \<noteq> []" "provider_id_char (hd p)" "list_all (\<lambda>c. provider_id_char c \<or> c \<in> set ''._-'') p"
    using assms by (auto simp: normalizeByokProviderId_def try_pure_def Let_def split: sum.splits if_splits)
  have len: "int (length p) \<le> 64" using t by (auto simp: normalizeText_def js_lower_def split: if_splits)
  have low: "provider_id_char c \<or> c \<in> set ''._-'' \<Longrightarrow> js_lower_char c = c \<and> \<not> is_js_space c" for c
    by (auto simp: provider_id_char_def js_lower_char_def is_js_space_def Let_def)
  have "js_trim p = p" using p(3) low by (intro js_trim_no_space) (auto simp: list_all_iff)
  moreover have "js_lower p = p" using p(3) low by (auto simp: js_lower_def list_all_iff intro!: map_idI)
  ultimately show ?thesis using p len by (simp add: normalizeByokProviderId_def normalizeText_def try_pure_def)
qed

lemma new_secret_Inr:
  "new_secret inp now p c m pr = Inr k \<Longrightarrow> bk_orgId k = kc_orgId inp \<and> bk_providerId k = p \<and> bk_ciphertext k = c \<and> bk_kmsRef k = m
     \<and> bk_status k = coalesce (kc_status inp) KPendingValidation"
  by (auto simp: new_secret_def try_pure_def split: sum.splits)

lemma createByokSecret_ok:
  assumes ok: "secrets_ok (byokSecrets s)" and run: "createByokSecret e inp s = (r, s')"
  shows "secrets_ok (byokSecrets s')"
proof -
  define s1 where "s1 prior = (case prior of Some k \<Rightarrow> (if kc_status inp = Some KActive then put_secret (disabled_secret (nowIso e (kc_createdAt inp)) k) s else s) | None \<Rightarrow> s)" for prior
  consider "s' = s" | p c m prior where "normalizeByokProviderId (kc_providerId inp) = Inr p" "(c \<noteq> None) \<noteq> (m \<noteq> None)"
      "getActiveByokSecret e s (kc_orgId inp) p = Inr prior"
      "try_in (s1 prior) (new_secret inp (nowIso e (kc_createdAt inp)) p c m (map_option bk_secretId prior)) (\<lambda>k.
            if map_has (byokSecrets (s1 prior)) (bk_secretId k) then (Inl (Error (''BYOK secret '' @ bk_secretId k @ '' already exists.'')), s1 prior)
            else audited e (actor_audit (bk_orgId k) (bk_createdByAccountId k) (kc_actor inp)
                (if prior = None then ''byok_secret.created'' else if kc_status inp = Some KActive then ''byok_secret.rotated'' else ''byok_secret.rotation_started'')
                ''byok_secret'' (bk_secretId k) (secret_meta k @ [(''rotatedFromSecretId'', json_opt (bk_rotatedFromSecretId k))]) (kc_createdAt inp))
              k (put_secret k (s1 prior))) = (r, s')"
    using run unfolding createByokSecret_def try_in_def [of s] Let_def s1_def by (auto split: sum.splits if_splits)
  then show ?thesis
  proof cases
    case 1
    then show ?thesis using ok by simp
  next
    case (2 p c m prior)
    note pid = provider_id_idem [OF 2(1)]
    have prior: "secret_ok k \<and> map_get (byokSecrets s) (bk_secretId k) = Some k" if "prior = Some k" for k
    proof -
      have "first_of (newest_secrets e (filter (active_secret (kc_orgId inp) p) (map_values (byokSecrets s)))) = Some k"
        using 2(3) pid that by (simp add: getActiveByokSecret_def try_pure_def)
      then have "k \<in> set (newest_secrets e (filter (active_secret (kc_orgId inp) p) (map_values (byokSecrets s))))"
        by (auto simp: first_of_def split: list.splits)
      then show ?thesis using values_secret_ok [OF ok, of k] by (simp add: newest_secrets_def)
    qed
    have ok1: "secrets_ok (byokSecrets (s1 prior))"
      using ok prior secrets_ok_disable [OF ok] by (cases prior) (auto simp: s1_def)
    have none: "\<not> active_secret (kc_orgId inp) p l" if "kc_status inp = Some KActive" "map_get (byokSecrets (s1 prior)) j = Some l" for j l
    proof
      assume act: "active_secret (kc_orgId inp) p l"
      have "map_get (byokSecrets s) j = Some l"
        using that act by (cases prior) (auto simp: s1_def active_secret_def split: if_splits)
      from getActive_cases [OF 2(3) pid ok this act] obtain k where "prior = Some k" "bk_secretId k = j" by blast
      then show False using that act by (auto simp: s1_def active_secret_def)
    qed
    show ?thesis
    proof (cases "new_secret inp (nowIso e (kc_createdAt inp)) p c m (map_option bk_secretId prior)")
      case (Inl er)
      then show ?thesis using 2(4) ok1 by (auto simp: try_in_def)
    next
      case (Inr k)
      note k = new_secret_Inr [OF Inr]
      have "byokSecrets s' = byokSecrets (s1 prior) \<or> byokSecrets s' = byokSecrets (put_secret k (s1 prior))"
        using 2(4) Inr audited_secrets [of e _ k "put_secret k (s1 prior)" r s'] by (auto simp: try_in_def split: if_splits)
      moreover have "secrets_ok (byokSecrets (put_secret k (s1 prior)))"
        unfolding put_secret_simps
      proof (rule secrets_ok_put [OF ok1])
        show "secret_ok k" using k 2(2) by (simp add: secret_ok_def)
        assume "bk_status k = KActive"
        then have "kc_status inp = Some KActive" using k by (auto simp: coalesce_def split: option.splits)
        then show "\<forall>j l. map_get (byokSecrets (s1 prior)) j = Some l \<and> active_secret (bk_orgId k) (bk_providerId k) l \<longrightarrow> j = bk_secretId k"
          using none k by auto
      qed
      ultimately show ?thesis using ok1 by auto
    qed
  qed
qed

lemma disable_all_ok:
  fixes s :: "'a byok_store_scheme"
  assumes "disable_all e inp ks s = (r, s')" "secrets_ok (byokSecrets s)" "\<forall>k \<in> set ks. secret_ok k"
  shows "secrets_ok (byokSecrets s')"
  using assms
proof (induction ks arbitrary: s)
  case (Cons k ks)
  let ?k = "disabled_secret (nowIso e (kd_disabledAt inp)) k"
  obtain x s1 where x: "audited e (actor_audit (bk_orgId k) (byok_account (kd_actor inp) k) (kd_actor inp) ''byok_secret.disabled'' ''byok_secret''
          (bk_secretId k) (secret_meta ?k) (kd_disabledAt inp)) () (put_secret ?k s) = (x, s1)" by fastforce
  have "byokSecrets s1 = map_set (bk_secretId k) ?k (byokSecrets s)" using audited_secrets [OF x] by simp
  then have ok1: "secrets_ok (byokSecrets s1)" using secrets_ok_disable [OF Cons.prems(2), of k] Cons.prems(3) by simp
  show ?case
  proof (cases x)
    case (Inl er)
    then show ?thesis using Cons.prems(1) x ok1 by (simp add: then_do_def Let_def)
  next
    case (Inr u)
    then have "disable_all e inp ks s1 = (r, s')" using Cons.prems(1) x by (simp add: then_do_def Let_def)
    then show ?thesis using Cons.IH ok1 Cons.prems(3) by simp
  qed
qed simp

lemma disableByokSecret_ok:
  fixes s :: "'a byok_store_scheme"
  assumes ok: "secrets_ok (byokSecrets s)" and run: "disableByokSecret e inp s = (r, s')"
  shows "secrets_ok (byokSecrets s')"
proof (cases "normalizeByokProviderId (kd_providerId inp)")
  case (Inl er)
  then show ?thesis using run ok by (simp add: disableByokSecret_def try_in_def)
next
  case (Inr p)
  let ?P = "\<lambda>k. secret_of (kd_orgId inp) p k \<and> bk_status k \<noteq> KDisabled"
  define sel where "sel = (case or_null (kd_secretId inp) of
             Some i \<Rightarrow> (case map_get (byokSecrets s) i of Some k \<Rightarrow> [k] | None \<Rightarrow> [])
           | None \<Rightarrow> newest_secrets e (filter ?P (map_values (byokSecrets s))))"
  have sel: "secret_ok k" if "k \<in> set (filter ?P sel)" for k
    using that get_secret_ok [OF ok] values_secret_ok [OF ok, of k] by (auto simp: sel_def newest_secrets_def split: option.splits)
  have eq: "(case filter ?P sel of [] \<Rightarrow> (Inr None, s)
      | k # _ \<Rightarrow> then_do (disable_all e inp (filter ?P sel) s) (\<lambda>_ s'. (Inr (Some (disabled_secret (nowIso e (kd_disabledAt inp)) k)), s'))) = (r, s')"
    using run [unfolded disableByokSecret_def Let_def Inr try_in_def sum.case] unfolding sel_def .
  show ?thesis
  proof (cases "filter ?P sel")
    case (Cons k ks)
    obtain x s1 where x: "disable_all e inp (filter ?P sel) s = (x, s1)" by fastforce
    have "s' = s1" using eq x Cons by (auto simp: then_do_def split: sum.splits)
    then show ?thesis using disable_all_ok [OF x ok] sel by blast
  qed (use eq ok in simp)
qed

lemma map_get_retire: "map_get (retire_others now k m) i
    = map_option (\<lambda>c. if bk_secretId c \<noteq> bk_secretId k \<and> active_secret (bk_orgId k) (bk_providerId k) c then disabled_secret now c else c) (map_get m i)"
  by (simp add: retire_others_def map_get_def map_of_map)

lemma retire_ok:
  assumes "secrets_ok m"
  shows "secrets_ok (retire_others now k m)"
  unfolding secrets_ok_def
proof (intro conjI allI impI)
  have "map fst (retire_others now k m) = map fst m" by (simp add: retire_others_def case_prod_unfold comp_def)
  then show "map_ok (retire_others now k m)" using assms by (simp add: secrets_ok_def map_ok_def)
next
  fix i c assume "map_get (retire_others now k m) i = Some c"
  then show "bk_secretId c = i" "secret_ok c" using get_secret_ok [OF assms] by (auto simp: map_get_retire split: if_splits)
next
  fix i j c d
  assume a: "map_get (retire_others now k m) i = Some c \<and> map_get (retire_others now k m) j = Some d \<and> bk_status c = KActive
    \<and> active_secret (bk_orgId c) (bk_providerId c) d"
  then have "map_get m i = Some c" "map_get m j = Some d" by (auto simp: map_get_retire active_secret_def split: if_splits)
  then show "i = j" using a assms unfolding secrets_ok_def by blast
qed

lemma recordByokSecretValidation_ok:
  fixes s :: "'a byok_store_scheme"
  assumes ok: "secrets_ok (byokSecrets s)" and run: "recordByokSecretValidation e inp s = (r, s')"
  shows "secrets_ok (byokSecrets s')"
proof -
  let ?now = "nowIso e (kv_validatedAt inp)"
  let ?s1 = "\<lambda>k prior. put_secret (validated_secret inp ?now prior k)
     (if kv_status inp = Some KActive then s\<lparr> byokSecrets := retire_others ?now k (byokSecrets s) \<rparr> else s)"
  have "byokSecrets s' = byokSecrets s \<or> (\<exists>k prior. map_get (byokSecrets s) (bk_secretId k) = Some k \<and> secret_ok k \<and> byokSecrets s' = byokSecrets (?s1 k prior))"
  proof (cases "normalizeByokProviderId (kv_providerId inp)")
    case (Inl er)
    then show ?thesis using run by (simp add: recordByokSecretValidation_def try_in_def)
  next
    case (Inr p)
    define found where "found = (case or_null (kv_secretId inp) of
             Some i \<Rightarrow> map_get (byokSecrets s) i
           | None \<Rightarrow> find (active_secret (kv_orgId inp) p) (map_values (byokSecrets s)))"
    have mem: "map_get (byokSecrets s) (bk_secretId k) = Some k \<and> secret_ok k" if "found = Some k" for k
    proof (cases "or_null (kv_secretId inp)")
      case None
      then have "k \<in> set (map_values (byokSecrets s))" using that by (auto simp: found_def find_Some_iff)
      then show ?thesis by (rule values_secret_ok [OF ok])
    next
      case (Some i)
      then show ?thesis using that get_secret_ok [OF ok, of i k] by (simp add: found_def)
    qed
    show ?thesis
    proof (cases "\<exists>k. found = Some k \<and> secret_of (kv_orgId inp) p k")
      case False
      then have "s' = s" using run Inr unfolding recordByokSecretValidation_def try_in_def found_def [symmetric]
        by (auto simp: found_def [symmetric] Let_def split: option.splits if_splits)
      then show ?thesis by simp
    next
      case True
      then obtain k where k: "found = Some k" "secret_of (kv_orgId inp) p k" by blast
      obtain prior a1 b a2 res where eq: "then_do (audited e a1 () (?s1 k prior)) (\<lambda>_ s2. if b then audited e a2 res s2 else (Inr res, s2)) = (r, s')"
        using run Inr k unfolding recordByokSecretValidation_def try_in_def
        by (simp add: found_def [symmetric] Let_def)
      obtain x s2 where x: "audited e a1 () (?s1 k prior) = (x, s2)" by fastforce
      have "byokSecrets s' = byokSecrets s2"
        using eq x audited_secrets [of e a2 res s2 r s'] by (auto simp: then_do_def split: sum.splits if_splits)
      then show ?thesis using mem [OF k(1)] audited_secrets [OF x] by auto
    qed
  qed
  then show ?thesis
  proof (elim disjE exE conjE)
    fix k prior assume k: "map_get (byokSecrets s) (bk_secretId k) = Some k" "secret_ok k" "byokSecrets s' = byokSecrets (?s1 k prior)"
    let ?k = "validated_secret inp ?now prior k"
    let ?m = "if kv_status inp = Some KActive then retire_others ?now k (byokSecrets s) else byokSecrets s"
    have v: "bk_secretId ?k = bk_secretId k" "bk_orgId ?k = bk_orgId k" "bk_providerId ?k = bk_providerId k" "secret_ok ?k"
      using k(2) by (simp_all add: validated_secret_def secret_ok_def)
    have m: "byokSecrets s' = map_set (bk_secretId ?k) ?k ?m" using k(3) by simp
    have "secrets_ok ?m" using ok retire_ok by simp
    then show ?thesis unfolding m
    proof (rule secrets_ok_put [OF _ v(4)])
      assume act: "bk_status ?k = KActive"
      show "\<forall>j l. map_get ?m j = Some l \<and> active_secret (bk_orgId ?k) (bk_providerId ?k) l \<longrightarrow> j = bk_secretId ?k"
      proof (cases "kv_status inp = Some KActive")
        case True
        have "j = bk_secretId k" if j: "map_get (retire_others ?now k (byokSecrets s)) j = Some l" and act: "active_secret (bk_orgId k) (bk_providerId k) l" for j l
        proof (rule ccontr)
          assume ne: "j \<noteq> bk_secretId k"
          obtain c where c: "map_get (byokSecrets s) j = Some c" and l: "l = (if bk_secretId c \<noteq> bk_secretId k \<and> active_secret (bk_orgId k) (bk_providerId k) c then disabled_secret ?now c else c)"
            using j by (auto simp: map_get_retire)
          have "bk_secretId c = j" using get_secret_ok [OF ok c] by simp
          then have "\<not> active_secret (bk_orgId k) (bk_providerId k) l" using l ne by (cases "active_secret (bk_orgId k) (bk_providerId k) c") (simp_all add: active_secret_def)
          then show False using act by simp
        qed
        then show ?thesis using True unfolding v by simp
      next
        case False
        then have "active_secret (bk_orgId k) (bk_providerId k) k"
          using act by (auto simp: validated_secret_def coalesce_def active_secret_def secret_of_def split: option.splits)
        then show ?thesis using False active_unique [OF ok _ k(1)] unfolding v by auto
      qed
    qed
  qed (use ok in simp)
qed

lemma distinct_equal_length:
  assumes "distinct xs" "\<And>x y. x \<in> set xs \<Longrightarrow> y \<in> set xs \<Longrightarrow> x = y"
  shows "length xs \<le> 1"
proof (cases xs)
  case (Cons a ys)
  then show ?thesis using assms(1) assms(2) [of a] by (cases ys) auto
qed simp

inductive byok_step :: "'a byok_store_scheme \<Rightarrow> 'a byok_store_scheme \<Rightarrow> bool" where
  bk_create: "createByokSecret e ci s = (r, s') \<Longrightarrow> byok_step s s'"
| bk_disable: "disableByokSecret e di s = (x, s') \<Longrightarrow> byok_step s s'"
| bk_validate: "recordByokSecretValidation e vi s = (x, s') \<Longrightarrow> byok_step s s'"
| bk_other: "byokSecrets s' = byokSecrets s \<Longrightarrow> byok_step s s'"

lemma byok_step_ok: "byok_step s s' \<Longrightarrow> secrets_ok (byokSecrets s) \<Longrightarrow> secrets_ok (byokSecrets s')"
proof (induction rule: byok_step.induct)
  case (bk_create e ci s r s')
  then show ?case using createByokSecret_ok by blast
next
  case (bk_disable e di s x s')
  then show ?case using disableByokSecret_ok by blast
next
  case (bk_validate e vi s x s')
  then show ?case using recordByokSecretValidation_ok by blast
next
  case (bk_other s' s)
  then show ?case by simp
qed

text \<open>C22: key rotation never leaves two active keys. However creations, validations, rotations and disablings
  interleave, failing ones included, an organisation has at most one active key per provider, and every
  stored key is either encrypted or held by reference, never both and never neither.\<close>

theorem byok_one_active_key:
  assumes "byok_step\<^sup>*\<^sup>* s s'" and "secrets_ok (byokSecrets s)"
  shows "length (filter (active_secret org p) (map_values (byokSecrets s'))) \<le> 1
    \<and> list_all (\<lambda>k. (bk_ciphertext k = None) \<noteq> (bk_kmsRef k = None)) (map_values (byokSecrets s'))"
proof -
  have ok: "secrets_ok (byokSecrets s')" using assms by (induction rule: rtranclp_induct) (auto intro: byok_step_ok)
  let ?xs = "filter (active_secret org p) (map_values (byokSecrets s'))"
  have id: "map_get (byokSecrets s') (bk_secretId k) = Some k" if "k \<in> set ?xs" for k using that values_secret_ok [OF ok] by simp
  have "k = l" if "k \<in> set ?xs" "l \<in> set ?xs" for k l
  proof -
    have "bk_secretId k = bk_secretId l"
      using active_unique [OF ok id [OF that(1)] id [OF that(2)], of org p] that by simp
    then show ?thesis using id [OF that(1)] id [OF that(2)] by (metis option.inject)
  qed
  moreover have "distinct ?xs"
  proof -
    have m: "map_ok (byokSecrets s')" and ids: "\<And>i k. map_get (byokSecrets s') i = Some k \<Longrightarrow> bk_secretId k = i"
      using ok by (simp_all add: secrets_ok_def)
    show ?thesis using keyed_values_distinct [OF m ids] by (simp add: distinct_map)
  qed
  ultimately have "length ?xs \<le> 1" by (intro distinct_equal_length) blast+
  moreover have "list_all (\<lambda>k. (bk_ciphertext k = None) \<noteq> (bk_kmsRef k = None)) (map_values (byokSecrets s'))"
    unfolding list_all_iff
  proof
    fix k assume "k \<in> set (map_values (byokSecrets s'))"
    then show "(bk_ciphertext k = None) \<noteq> (bk_kmsRef k = None)" using values_secret_ok [OF ok, of k] by (cases "bk_ciphertext k"; cases "bk_kmsRef k") (simp_all add: secret_ok_def)
  qed
  ultimately show ?thesis by blast
qed

definition sample_byok :: "string \<Rightarrow> create_byok_input" where
  "sample_byok i = \<lparr> kc_secretId = i, kc_orgId = ''o'', kc_providerId = ''OpenAI'', kc_status = Some KActive, kc_ciphertext = Some ''c'', kc_kmsRef = None, kc_last4 = ''1234'',
     kc_keyFingerprint = ''f'', kc_createdByAccountId = None, kc_rotatedFromSecretId = None, kc_createdAt = None, kc_actor = None \<rparr>"

definition sample_byok_store :: byok_store where
  "sample_byok_store = \<lparr> tenants = [], users = [], orgs = [(''o'', \<lparr> og_orgId = ''o'', og_tenantId = ''t'', og_name = ''O'', og_planKey = None, og_status = ''active'',
       og_createdAt = 0, og_updatedAt = 0 \<rparr>)],
     orgsByTenant = [], accounts = [], accountsBySubject = [], accountsByEmail = [], memberships = [], auditEvents = [], byokSecrets = [] \<rparr>"

lemma audited_secrets_snd [simp]: "byokSecrets (snd (audited e inp res s)) = byokSecrets (s :: 'a byok_store_scheme)"
  by (rule audited_secrets [OF surjective_pairing])

definition sample_key :: "string \<Rightarrow> byok_status \<Rightarrow> string option \<Rightarrow> byok_secret" where
  "sample_key i st prior = \<lparr> bk_secretId = i, bk_orgId = ''o'', bk_providerId = ''openai'', bk_status = st, bk_ciphertext = Some ''c'', bk_kmsRef = None, bk_last4 = ''1234'',
     bk_keyFingerprint = ''f'', bk_createdByAccountId = None, bk_rotatedFromSecretId = prior, bk_lastValidatedAt = None, bk_validationError = None,
     bk_createdAt = nowIso sample_env None, bk_updatedAt = nowIso sample_env None \<rparr>"

lemma sample_byok_parts:
  "normalizeByokProviderId ''OpenAI'' = Inr ''openai''" "normalizeByokProviderId ''openai'' = Inr ''openai''"
  "normalizeNullableText (Some ''c'') 4096 ''BYOK ciphertext'' = Inr (Some ''c'')" "normalizeNullableText None 4096 ''BYOK KMS ref'' = Inr None"
  "new_secret (sample_byok ''k1'') (nowIso sample_env None) ''openai'' (Some ''c'') None None = Inr (sample_key ''k1'' KActive None)"
  "new_secret (sample_byok ''k2'') (nowIso sample_env None) ''openai'' (Some ''c'') None (Some ''k1'') = Inr (sample_key ''k2'' KActive (Some ''k1''))"
  by code_simp+

lemma audited_orgs [simp]: "orgs (snd (audited e inp res s)) = orgs (s :: 'a byok_store_scheme)"
  by (rule audited_effect [OF surjective_pairing, of e inp res s]) simp

lemma sample_create:
  assumes "orgs s = orgs sample_byok_store" "getActiveByokSecret sample_env s ''o'' ''openai'' = Inr prior"
    "new_secret (sample_byok i) (nowIso sample_env None) ''openai'' (Some ''c'') None (map_option bk_secretId prior) = Inr k"
    "\<not> map_has (byokSecrets s) (bk_secretId k)" "map_option bk_secretId prior \<noteq> Some (bk_secretId k)"
  shows "byokSecrets (snd (createByokSecret sample_env (sample_byok i) s))
      = map_set (bk_secretId k) k (case prior of Some p \<Rightarrow> map_set (bk_secretId p) (disabled_secret (nowIso sample_env None) p) (byokSecrets s) | None \<Rightarrow> byokSecrets s)"
    "orgs (snd (createByokSecret sample_env (sample_byok i) s)) = orgs sample_byok_store"
proof -
  have "orgExists s ''o''" using assms(1) by (simp add: orgExists_def sample_byok_store_def map_has_def map_get_def)
  then have org: "requireOrg s ''o'' = Inr ()" by (simp add: requireOrg_def)
  have inp: "kc_orgId (sample_byok i) = ''o''" "require_account s (kc_createdByAccountId (sample_byok i)) = Inr ()" "kc_providerId (sample_byok i) = ''OpenAI''"
    "kc_ciphertext (sample_byok i) = Some ''c''" "kc_kmsRef (sample_byok i) = None" "kc_createdAt (sample_byok i) = None" "kc_status (sample_byok i) = Some KActive"
    by (simp_all add: sample_byok_def require_account_def or_null_def)
  have free: "\<not> map_has (byokSecrets (case prior of Some p \<Rightarrow> put_secret (disabled_secret (nowIso sample_env None) p) s | None \<Rightarrow> s)) (bk_secretId k)"
    using assms(4,5) by (cases prior) (auto simp: map_has_def)
  show "byokSecrets (snd (createByokSecret sample_env (sample_byok i) s))
      = map_set (bk_secretId k) k (case prior of Some p \<Rightarrow> map_set (bk_secretId p) (disabled_secret (nowIso sample_env None) p) (byokSecrets s) | None \<Rightarrow> byokSecrets s)"
    using free assms(3) by (cases prior) (simp_all add: createByokSecret_def try_in_def org inp sample_byok_parts(1-4) assms(2) Let_def)
  show "orgs (snd (createByokSecret sample_env (sample_byok i) s)) = orgs sample_byok_store"
    using free assms(1,3) by (cases prior) (simp_all add: createByokSecret_def try_in_def org inp sample_byok_parts(1-4) assms(2) Let_def put_secret_def)
qed

theorem byok_one_active_key_witness:
  "map bk_secretId (filter (active_secret ''o'' ''openai'') (map_values (byokSecrets
      (snd (createByokSecret sample_env (sample_byok ''k2'') (snd (createByokSecret sample_env (sample_byok ''k1'') sample_byok_store))))))) = [''k2'']
   \<and> length (filter (active_secret ''o'' ''openai'') (map_values (byokSecrets
      (snd (createByokSecret sample_env (sample_byok ''k2'') (snd (createByokSecret sample_env (sample_byok ''k1'') sample_byok_store))))))) \<le> 1"
proof
  let ?s1 = "snd (createByokSecret sample_env (sample_byok ''k1'') sample_byok_store)"
  let ?s2 = "snd (createByokSecret sample_env (sample_byok ''k2'') ?s1)"
  let ?k1 = "sample_key ''k1'' KActive None" and ?k2 = "sample_key ''k2'' KActive (Some ''k1'')"
  note fold_sort = getActiveByokSecret_def try_pure_def newest_secrets_def first_of_def js_sort_def sample_byok_parts(2) map_values_def
    active_secret_def secret_of_def sample_key_def
  have "getActiveByokSecret sample_env sample_byok_store ''o'' ''openai'' = Inr None" by (simp add: fold_sort sample_byok_store_def)
  from sample_create [OF refl this, of "''k1''" ?k1] sample_byok_parts(5)
  have s1: "byokSecrets ?s1 = [(''k1'', ?k1)]" "orgs ?s1 = orgs sample_byok_store"
    by (simp_all add: sample_byok_store_def map_has_def map_get_def sample_key_def)
  have "getActiveByokSecret sample_env ?s1 ''o'' ''openai'' = Inr (Some ?k1)" by (simp add: fold_sort s1)
  from sample_create [OF s1(2) this, of "''k2''" ?k2] sample_byok_parts(6)
  have "byokSecrets ?s2 = [(''k1'', disabled_secret (nowIso sample_env None) ?k1), (''k2'', ?k2)]"
    by (simp add: s1 map_has_def map_get_def sample_key_def)
  then show "map bk_secretId (filter (active_secret ''o'' ''openai'') (map_values (byokSecrets ?s2))) = [''k2'']"
    by (simp add: map_values_def active_secret_def secret_of_def sample_key_def)
  have "byok_step sample_byok_store ?s1" "byok_step ?s1 ?s2" by (rule bk_create [OF surjective_pairing])+
  then have "byok_step\<^sup>*\<^sup>* sample_byok_store ?s2" by (meson r_into_rtranclp rtranclp.rtrancl_into_rtrancl)
  moreover have "secrets_ok (byokSecrets sample_byok_store)" by (simp add: secrets_ok_def sample_byok_store_def)
  ultimately show "length (filter (active_secret ''o'' ''openai'') (map_values (byokSecrets ?s2))) \<le> 1" using byok_one_active_key by blast
qed

end
