(* ===== verification/Revocable_Credentials.thy ===== *)
theory Revocable_Credentials
  imports Secret_Hashes Audited_Writes
begin

text \<open>
  The contract that the credential registries share (API tokens, managed-worker credentials): resolution
  returns a stored credential that is not dead, and no operation brings a barred credential back to life.
  A client that has barred a class of credentials may then rely on none of them resolving again.
\<close>

locale credential_registry =
  fixes stored :: "'s \<Rightarrow> 'c \<Rightarrow> bool"
    and barred :: "'c \<Rightarrow> bool"
    and dead :: "'s \<Rightarrow> 'c \<Rightarrow> bool"
    and ok :: "'s \<Rightarrow> bool"
    and step :: "'s \<Rightarrow> 's \<Rightarrow> bool"
    and resolves :: "'s \<Rightarrow> 'c \<Rightarrow> bool"
  assumes step_ok: "ok s \<Longrightarrow> step s s' \<Longrightarrow> ok s'"
    and step_dead: "ok s \<Longrightarrow> step s s' \<Longrightarrow> (\<And>c. stored s c \<Longrightarrow> barred c \<Longrightarrow> dead s c) \<Longrightarrow> stored s' d \<Longrightarrow> barred d \<Longrightarrow> dead s' d"
    and resolves_live: "ok s \<Longrightarrow> resolves s c \<Longrightarrow> \<exists>c0. stored s c0 \<and> \<not> dead s c0 \<and> (barred c \<longrightarrow> barred c0)"
begin

definition shut :: "'s \<Rightarrow> bool" where
  "shut s \<longleftrightarrow> ok s \<and> (\<forall>c. stored s c \<longrightarrow> barred c \<longrightarrow> dead s c)"

lemma shut_step: "shut s \<Longrightarrow> step s s' \<Longrightarrow> shut s'"
  unfolding shut_def using step_ok step_dead by blast

lemma shut_steps: "step\<^sup>*\<^sup>* s s' \<Longrightarrow> shut s \<Longrightarrow> shut s'"
  by (induction rule: rtranclp_induct) (blast intro: shut_step)+

lemma ok_steps: "step\<^sup>*\<^sup>* s s' \<Longrightarrow> ok s \<Longrightarrow> ok s'"
  by (induction rule: rtranclp_induct) (blast intro: step_ok)+

lemma never_resolves:
  assumes "ok s" "\<And>c. stored s c \<Longrightarrow> barred c \<Longrightarrow> dead s c" "step\<^sup>*\<^sup>* s s'" "resolves s' c"
  shows "\<not> barred c"
proof
  assume c: "barred c"
  have shut: "shut s'" using shut_steps [OF assms(3)] assms(1,2) unfolding shut_def by blast
  then obtain c0 where "stored s' c0" "\<not> dead s' c0" "barred c0" using resolves_live assms(4) c unfolding shut_def by blast
  then show False using shut unfolding shut_def by blast
qed

end

end
