(* ===== verification/Api_Tokens.thy ===== *)
theory Api_Tokens
  imports Channel_Directory Revocable_Credentials
begin

text \<open>
  API tokens (\<open>in-memory-domains/api-tokens.ts\<close>): issuing, resolution of a presented plaintext, revocation
  of one token and of all tokens of a member, and the grants of a token on channel bindings.
\<close>


section \<open>Records\<close>

datatype token_scope = ScDesktop | ScGateway | ScAdmin | ScOperator | ScWorkerInternal

record api_token =
  at_tokenId :: string
  at_orgId :: string
  at_accountId :: "string option"
  at_name :: string
  at_tokenHash :: string
  at_scopes :: "token_scope list"
  at_last4 :: string
  at_expiresAt :: "iso option"
  at_revokedAt :: "iso option"
  at_lastUsedAt :: "iso option"
  at_createdAt :: iso
  at_updatedAt :: iso

record token_grant =
  tg_orgId :: string
  tg_tokenId :: string
  tg_channelBindingId :: string
  tg_createdAt :: iso

record token_store = channel_store +
  apiTokens :: "api_token jsmap"
  tokenGrants :: "token_grant jsmap"

record issue_token_input =
  ti_orgId :: string
  ti_accountId :: "string option"
  ti_name :: string
  ti_scopes :: "token_scope list"
  ti_expiresAt :: "iso option"
  ti_createdAt :: "iso option"
  ti_tokenId :: "string option"
  ti_secret :: "string option"
  ti_actor :: "audit_actor option"

record revoke_token_input =
  tr_tokenId :: string
  tr_orgId :: "string option"
  tr_revokedAt :: "iso option"
  tr_actor :: "audit_actor option"

record revoke_account_input =
  ta_orgId :: string
  ta_accountId :: string
  ta_reason :: "string option"
  ta_revokedAt :: "iso option"
  ta_actor :: "audit_actor option"

record grant_token_input =
  tb_orgId :: string
  tb_tokenId :: string
  tb_channelBindingId :: string
  tb_createdAt :: "iso option"
  tb_actor :: "audit_actor option"


section \<open>Operations\<close>

definition scope_text :: "token_scope \<Rightarrow> string" where
  "scope_text sc = (case sc of ScDesktop \<Rightarrow> ''desktop'' | ScGateway \<Rightarrow> ''gateway'' | ScAdmin \<Rightarrow> ''admin'' | ScOperator \<Rightarrow> ''operator''
     | ScWorkerInternal \<Rightarrow> ''worker-internal'')"

definition token_meta :: "api_token \<Rightarrow> (string \<times> json) list" where
  "token_meta t = [(''name'', JStr (at_name t)), (''scopes'', JArr (map (\<lambda>sc. JStr (scope_text sc)) (at_scopes t))), (''last4'', JStr (at_last4 t))]"

definition put_token :: "api_token \<Rightarrow> 'a token_store_scheme \<Rightarrow> 'a token_store_scheme" where
  "put_token t s = s\<lparr> apiTokens := map_set (at_tokenId t) t (apiTokens s) \<rparr>"

definition new_token :: "env \<Rightarrow> crypto \<Rightarrow> issue_token_input \<Rightarrow> string \<Rightarrow> api_token" where
  "new_token e c inp name =
     (let (tokenId, plaintext) = generateCloudApiToken c (ti_tokenId inp) (ti_secret inp); now = nowIso e (ti_createdAt inp)
      in \<lparr> at_tokenId = tokenId, at_orgId = ti_orgId inp, at_accountId = or_null (ti_accountId inp), at_name = name,
           at_tokenHash = hashSecretWithRandomSalt c plaintext, at_scopes = js_unique (ti_scopes inp), at_last4 = slice_last 4 plaintext,
           at_expiresAt = ti_expiresAt inp, at_revokedAt = None, at_lastUsedAt = None, at_createdAt = now, at_updatedAt = now \<rparr>)"

text \<open>Result: the record and the plaintext, which is not stored.\<close>

definition issueApiToken ::
  "env \<Rightarrow> crypto \<Rightarrow> issue_token_input \<Rightarrow> 'a token_store_scheme \<Rightarrow> ('a token_store_scheme, api_token \<times> string) outcome" where
  "issueApiToken e c inp s =
     try_in s (requireOrg s (ti_orgId inp)) (\<lambda>_.
     try_in s (require_account s (ti_accountId inp)) (\<lambda>_.
     try_in s (normalizeText (Some (ti_name inp)) 96 ''API token name'') (\<lambda>name.
       let t = new_token e c inp name; plaintext = snd (generateCloudApiToken c (ti_tokenId inp) (ti_secret inp))
       in audited e (actor_audit (ti_orgId inp) (or_null (ti_accountId inp)) (ti_actor inp) ''api_token.created'' ''api_token'' (at_tokenId t)
            (token_meta t) (ti_createdAt inp)) (t, plaintext) (put_token t s))))"

definition listApiTokens :: "'a token_store_scheme \<Rightarrow> string \<Rightarrow> api_token list" where
  "listApiTokens s orgId = js_sort (cmp_rev (cmp_by at_createdAt cmp_int)) (filter (\<lambda>t. at_orgId t = orgId) (map_values (apiTokens s)))"

text \<open>The first stored token that carries the id in the plaintext and whose hash verifies decides.\<close>

definition presents :: "crypto \<Rightarrow> string \<Rightarrow> api_token \<Rightarrow> bool" where
  "presents c plaintext t = (plaintextMatchesCloudApiTokenId plaintext (at_tokenId t) \<and> verifySecretHash c plaintext (at_tokenHash t))"

definition findApiTokenByPlaintext ::
  "env \<Rightarrow> crypto \<Rightarrow> string \<Rightarrow> iso option \<Rightarrow> 'a token_store_scheme \<Rightarrow> api_token option \<times> 'a token_store_scheme" where
  "findApiTokenByPlaintext e c plaintext now s =
     (case find (presents c plaintext) (map_values (apiTokens s)) of
        None \<Rightarrow> (None, s)
      | Some t \<Rightarrow>
          if at_revokedAt t \<noteq> None then (None, s)
          else if (case at_expiresAt t of Some x \<Rightarrow> x \<le> nowIso e now | None \<Rightarrow> False) then (None, s)
          else let t' = t\<lparr> at_lastUsedAt := Some (nowIso e now), at_updatedAt := nowIso e now \<rparr> in (Some t', put_token t' s))"

definition revoked_token :: "iso \<Rightarrow> api_token \<Rightarrow> api_token" where
  "revoked_token at t = t\<lparr> at_revokedAt := Some (coalesce (at_revokedAt t) at), at_updatedAt := at \<rparr>"

definition revokeApiToken ::
  "env \<Rightarrow> revoke_token_input \<Rightarrow> 'a token_store_scheme \<Rightarrow> ('a token_store_scheme, api_token option) outcome" where
  "revokeApiToken e inp s =
     (case map_get (apiTokens s) (tr_tokenId inp) of
        None \<Rightarrow> (Inr None, s)
      | Some t \<Rightarrow>
          if (case or_null (tr_orgId inp) of Some orgId \<Rightarrow> at_orgId t \<noteq> orgId | None \<Rightarrow> False) then (Inr None, s)
          else
            let t' = revoked_token (nowIso e (tr_revokedAt inp)) t in
            audited e (actor_audit (at_orgId t) (at_accountId t) (tr_actor inp) ''api_token.revoked'' ''api_token'' (at_tokenId t) (token_meta t')
              (tr_revokedAt inp)) (Some t') (put_token t' s))"

text \<open>The loop over the stored tokens, counting those it revokes.\<close>

fun revoke_account_loop ::
  "env \<Rightarrow> revoke_account_input \<Rightarrow> api_token list \<Rightarrow> int \<Rightarrow> 'a token_store_scheme \<Rightarrow> ('a token_store_scheme, int) outcome" where
  "revoke_account_loop e inp [] n s = (Inr n, s)"
| "revoke_account_loop e inp (t # ts) n s =
     (if at_orgId t \<noteq> ta_orgId inp \<or> at_accountId t \<noteq> Some (ta_accountId inp) \<or> at_revokedAt t \<noteq> None then revoke_account_loop e inp ts n s
      else let t' = revoked_token (nowIso e (ta_revokedAt inp)) t in
        then_do (audited e (actor_audit (at_orgId t) (at_accountId t) (ta_actor inp) ''api_token.revoked'' ''api_token'' (at_tokenId t)
            (token_meta t' @ [(''reason'', JStr (or_else (ta_reason inp) ''account_revocation''))]) (ta_revokedAt inp)) () (put_token t' s))
          (\<lambda>_ s'. revoke_account_loop e inp ts (n + 1) s'))"

definition revokeApiTokensForAccount ::
  "env \<Rightarrow> revoke_account_input \<Rightarrow> 'a token_store_scheme \<Rightarrow> ('a token_store_scheme, int) outcome" where
  "revokeApiTokensForAccount e inp s = revoke_account_loop e inp (map_values (apiTokens s)) 0 s"

definition grantApiTokenChannelBinding ::
  "env \<Rightarrow> grant_token_input \<Rightarrow> 'a token_store_scheme \<Rightarrow> ('a token_store_scheme, token_grant) outcome" where
  "grantApiTokenChannelBinding e inp s =
     (case map_get (apiTokens s) (tb_tokenId inp) of
        None \<Rightarrow> (Inl (Error (''Unknown API token '' @ tb_tokenId inp @ ''.'')), s)
      | Some t \<Rightarrow>
          if at_orgId t \<noteq> tb_orgId inp then (Inl (Error (''Unknown API token '' @ tb_tokenId inp @ ''.'')), s)
          else case getChannelBinding s (tb_orgId inp) (tb_channelBindingId inp) of
            None \<Rightarrow> (Inl (Error (''Unknown channel binding '' @ tb_channelBindingId inp @ ''.'')), s)
          | Some _ \<Rightarrow>
              let grantKey = key [tb_orgId inp, tb_tokenId inp, tb_channelBindingId inp] in
              case map_get (tokenGrants s) grantKey of
                Some g \<Rightarrow> (Inr g, s)
              | None \<Rightarrow>
                  let g = \<lparr> tg_orgId = tb_orgId inp, tg_tokenId = tb_tokenId inp, tg_channelBindingId = tb_channelBindingId inp,
                        tg_createdAt = nowIso e (tb_createdAt inp) \<rparr>
                  in audited e (actor_audit (tb_orgId inp)
                         (case or_null (Option.bind (tb_actor inp) aa_accountId) of Some a \<Rightarrow> Some a | None \<Rightarrow> at_accountId t)
                         (tb_actor inp) ''api_token.channel_binding_granted'' ''api_token'' (tb_tokenId inp)
                         [(''channelBindingId'', JStr (tb_channelBindingId inp))] (tb_createdAt inp))
                       g (s\<lparr> tokenGrants := map_set grantKey g (tokenGrants s) \<rparr>))"

definition listApiTokenChannelBindingGrants :: "env \<Rightarrow> 'a token_store_scheme \<Rightarrow> string \<Rightarrow> string \<Rightarrow> token_grant list" where
  "listApiTokenChannelBindingGrants e s orgId tokenId =
     js_sort (cmp_by tg_channelBindingId (locale_compare e))
       (filter (\<lambda>g. tg_orgId g = orgId \<and> tg_tokenId g = tokenId) (map_values (tokenGrants s)))"

section \<open>Frames and the key invariant\<close>

lemma audited_tokens [simp]: "apiTokens (snd (audited e inp res s)) = apiTokens (s :: 'a token_store_scheme)"
  by (rule audited_effect [OF surjective_pairing, of e inp res s]) simp

lemma audited_token_orgs [simp]: "orgs (snd (audited e inp res s)) = orgs (s :: 'a token_store_scheme)"
  by (rule audited_effect [OF surjective_pairing, of e inp res s]) simp

lemma put_token_simps [simp]: "apiTokens (put_token t s) = map_set (at_tokenId t) t (apiTokens s)" "orgs (put_token t s) = orgs s"
  by (simp_all add: put_token_def)

lemma revoked_token_simps [simp]: "at_tokenId (revoked_token now t) = at_tokenId t" "at_orgId (revoked_token now t) = at_orgId t"
  "at_accountId (revoked_token now t) = at_accountId t" "at_revokedAt (revoked_token now t) \<noteq> None"
  by (simp_all add: revoked_token_def)

definition tokens_keyed :: "api_token jsmap \<Rightarrow> bool" where
  "tokens_keyed m = (map_ok m \<and> (\<forall>i t. map_get m i = Some t \<longrightarrow> at_tokenId t = i))"

definition member_token :: "string \<Rightarrow> string \<Rightarrow> api_token \<Rightarrow> bool" where
  "member_token org acct t = (at_orgId t = org \<and> at_accountId t = Some acct)"

lemma keyed_put: "tokens_keyed m \<Longrightarrow> tokens_keyed (map_set (at_tokenId t) t m)"
  by (auto simp: tokens_keyed_def)

lemma keyed_get: "tokens_keyed m \<Longrightarrow> map_get m i = Some t \<Longrightarrow> at_tokenId t = i"
  by (simp add: tokens_keyed_def)

lemma audited_tokens_run: "audited e inp res s = (r, s') \<Longrightarrow> apiTokens s' = apiTokens (s :: 'a token_store_scheme)"
  using audited_tokens [of e inp res s] by simp

lemma new_token_simps [simp]: "at_orgId (new_token e c inp name) = ti_orgId inp" "at_accountId (new_token e c inp name) = or_null (ti_accountId inp)"
  "at_revokedAt (new_token e c inp name) = None" "at_expiresAt (new_token e c inp name) = ti_expiresAt inp"
  "at_tokenId (new_token e c inp name) = fst (generateCloudApiToken c (ti_tokenId inp) (ti_secret inp))"
  "at_tokenHash (new_token e c inp name) = hashSecretWithRandomSalt c (snd (generateCloudApiToken c (ti_tokenId inp) (ti_secret inp)))"
  by (simp_all add: new_token_def Let_def split: prod.splits)

lemma issue_effect:
  assumes "issueApiToken e c inp s = (r, s')"
  shows "s' = s \<and> (\<exists>er. r = Inl er) \<or> (\<exists>name. apiTokens s' = map_set (at_tokenId (new_token e c inp name)) (new_token e c inp name) (apiTokens s)
    \<and> (\<forall>t p. r = Inr (t, p) \<longrightarrow> t = new_token e c inp name \<and> p = snd (generateCloudApiToken c (ti_tokenId inp) (ti_secret inp))))"
proof -
  have "s' = s \<and> (\<exists>er. r = Inl er) \<or> (\<exists>name i. audited e i (new_token e c inp name, snd (generateCloudApiToken c (ti_tokenId inp) (ti_secret inp)))
      (put_token (new_token e c inp name) s) = (r, s'))"
    using assms unfolding issueApiToken_def try_in_def Let_def by (auto simp del: new_token_simps split: sum.splits)
  then show ?thesis
  proof (elim disjE exE)
    fix name i assume run: "audited e i (new_token e c inp name, snd (generateCloudApiToken c (ti_tokenId inp) (ti_secret inp)))
      (put_token (new_token e c inp name) s) = (r, s')"
    have "r = Inr (new_token e c inp name, snd (generateCloudApiToken c (ti_tokenId inp) (ti_secret inp))) \<or> (\<exists>er. r = Inl er)"
      by (rule audited_effect [OF run])
    then show ?thesis using audited_tokens_run [OF run] by fastforce
  qed simp
qed

lemma find_effect:
  assumes "findApiTokenByPlaintext e c p now s = (r, s')"
  shows "(r = None \<and> s' = s) \<or> (\<exists>t. find (presents c p) (map_values (apiTokens s)) = Some t \<and> at_revokedAt t = None
    \<and> (\<forall>x. at_expiresAt t = Some x \<longrightarrow> nowIso e now < x)
    \<and> r = Some (t\<lparr> at_lastUsedAt := Some (nowIso e now), at_updatedAt := nowIso e now \<rparr>)
    \<and> s' = put_token (t\<lparr> at_lastUsedAt := Some (nowIso e now), at_updatedAt := nowIso e now \<rparr>) s)"
  using assms unfolding findApiTokenByPlaintext_def Let_def by (auto split: option.splits if_splits)

lemma revoke_effect:
  assumes "revokeApiToken e inp s = (r, s')"
  shows "s' = s \<or> (\<exists>t. map_get (apiTokens s) (tr_tokenId inp) = Some t
    \<and> apiTokens s' = map_set (at_tokenId t) (revoked_token (nowIso e (tr_revokedAt inp)) t) (apiTokens s))"
proof (cases "map_get (apiTokens s) (tr_tokenId inp)")
  case None
  then show ?thesis using assms by (simp add: revokeApiToken_def)
next
  case (Some t)
  then show ?thesis using assms audited_tokens_run [of e _ _ "put_token (revoked_token (nowIso e (tr_revokedAt inp)) t) s" r s']
    by (auto simp: revokeApiToken_def Let_def split: if_splits)
qed

lemma grant_effect:
  assumes "grantApiTokenChannelBinding e inp s = (r, s')"
  shows "apiTokens s' = apiTokens s"
proof -
  have "s' = s \<or> (\<exists>i res g. audited e i res (s\<lparr> tokenGrants := g \<rparr>) = (r, s'))"
    using assms unfolding grantApiTokenChannelBinding_def Let_def by (auto split: option.splits if_splits)
  then show ?thesis
  proof (elim disjE exE)
    fix i res g assume run: "audited e i res (s\<lparr> tokenGrants := g \<rparr>) = (r, s')"
    show ?thesis using audited_tokens_run [OF run] by simp
  qed simp
qed

text \<open>The revocation loop: what is still live afterwards was stored before and not visited.\<close>

lemma revoke_loop:
  assumes "revoke_account_loop e inp ts n s = (r, s')" "tokens_keyed (apiTokens s)"
    "\<And>t. t \<in> set ts \<Longrightarrow> at_orgId t = ta_orgId inp \<Longrightarrow> orgExists s (ta_orgId inp)"
  shows "(\<exists>k. r = Inr k) \<and> tokens_keyed (apiTokens s')
    \<and> (\<forall>i t. map_get (apiTokens s') i = Some t \<and> at_revokedAt t = None \<longrightarrow> map_get (apiTokens s) i = Some t
        \<and> (t \<in> set ts \<longrightarrow> \<not> member_token (ta_orgId inp) (ta_accountId inp) t))"
  using assms
proof (induction ts arbitrary: n s)
  case (Cons t ts)
  show ?case
  proof (cases "at_orgId t \<noteq> ta_orgId inp \<or> at_accountId t \<noteq> Some (ta_accountId inp) \<or> at_revokedAt t \<noteq> None")
    case True
    then have run: "revoke_account_loop e inp ts n s = (r, s')" using Cons.prems(1) by simp
    have "\<not> member_token (ta_orgId inp) (ta_accountId inp) t" if "at_revokedAt t = None" using True that by (auto simp: member_token_def)
    then show ?thesis using Cons.IH [OF run Cons.prems(2)] Cons.prems(3) by auto
  next
    case False
    let ?t = "revoked_token (nowIso e (ta_revokedAt inp)) t"
    let ?i = "actor_audit (at_orgId t) (at_accountId t) (ta_actor inp) ''api_token.revoked'' ''api_token'' (at_tokenId t)
            (token_meta ?t @ [(''reason'', JStr (or_else (ta_reason inp) ''account_revocation''))]) (ta_revokedAt inp)"
    obtain x s1 where x: "audited e ?i () (put_token ?t s) = (x, s1)" by fastforce
    have s1: "apiTokens s1 = map_set (at_tokenId t) ?t (apiTokens s)" "orgs s1 = orgs s"
      using audited_tokens [of e ?i "()" "put_token ?t s"] audited_token_orgs [of e ?i "()" "put_token ?t s"] by (simp_all add: x)
    have "orgExists (put_token ?t s) (ai_orgId ?i)" using False Cons.prems(3) [of t] by (simp add: orgExists_def actor_audit_def)
    then have "x = Inr ()" using x by (rule_tac audited_effect [OF x]) blast
    then have run: "revoke_account_loop e inp ts (n + 1) s1 = (r, s')" using Cons.prems(1) False x by (simp add: then_do_def Let_def)
    have keyed: "tokens_keyed (apiTokens s1)" using keyed_put [OF Cons.prems(2), of ?t] s1 by simp
    have org: "orgExists s1 (ta_orgId inp)" using False Cons.prems(3) [of t] by (simp add: orgExists_def s1)
    note IH = Cons.IH [OF run keyed org]
    have "map_get (apiTokens s) i = Some u \<and> u \<noteq> t" if "map_get (apiTokens s1) i = Some u" "at_revokedAt u = None" for i u
    proof (cases "i = at_tokenId t")
      case True
      then have "u = ?t" using that(1) by (simp add: s1)
      then have "at_revokedAt u \<noteq> None" by (simp only: revoked_token_simps not_False_eq_True)
      then show ?thesis using that(2) by simp
    next
      case False
      then show ?thesis using that keyed_get [OF Cons.prems(2), of i u] by (auto simp: s1)
    qed
    then show ?thesis using IH by auto
  qed
qed auto

lemma revoke_account_effect:
  assumes "revokeApiTokensForAccount e inp s = (r, s')" "tokens_keyed (apiTokens s)" "orgExists s (ta_orgId inp)"
  shows "(\<exists>k. r = Inr k) \<and> tokens_keyed (apiTokens s')
    \<and> (\<forall>i t. map_get (apiTokens s') i = Some t \<and> member_token (ta_orgId inp) (ta_accountId inp) t \<longrightarrow> at_revokedAt t \<noteq> None)"
proof -
  have ok: "map_ok (apiTokens s)" using assms(2) by (simp add: tokens_keyed_def)
  have "t \<in> set (map_values (apiTokens s))" if "map_get (apiTokens s) i = Some t" for i t using that values_map_get [OF ok, of t] by auto
  then show ?thesis using revoke_loop [OF assms(1) [unfolded revokeApiTokensForAccount_def] assms(2) assms(3)] by fastforce
qed

section \<open>Revocation is final\<close>

text \<open>
  Everything that happens in the store between two resolutions, as long as no new token is issued to the
  member. \<open>tk_other\<close> is any operation of another domain.
\<close>

inductive token_step :: "string \<Rightarrow> string \<Rightarrow> 'a token_store_scheme \<Rightarrow> 'a token_store_scheme \<Rightarrow> bool" for org acct where
  tk_issue: "issueApiToken e c ii s = (ri, s') \<Longrightarrow> \<not> (ti_orgId ii = org \<and> or_null (ti_accountId ii) = Some acct) \<Longrightarrow> token_step org acct s s'"
| tk_find: "findApiTokenByPlaintext e c p now s = (rf, s') \<Longrightarrow> token_step org acct s s'"
| tk_revoke: "revokeApiToken e ir s = (rr, s') \<Longrightarrow> token_step org acct s s'"
| tk_revoke_all: "revokeApiTokensForAccount e ia s = (ra, s') \<Longrightarrow> orgExists s (ta_orgId ia) \<Longrightarrow> token_step org acct s s'"
| tk_grant: "grantApiTokenChannelBinding e ig s = (rg, s') \<Longrightarrow> token_step org acct s s'"
| tk_other: "apiTokens s' = apiTokens s \<Longrightarrow> token_step org acct s s'"

definition live_member :: "string \<Rightarrow> string \<Rightarrow> api_token jsmap \<Rightarrow> bool" where
  "live_member org acct m = (\<exists>i t. map_get m i = Some t \<and> member_token org acct t \<and> at_revokedAt t = None)"

lemma live_put:
  assumes "\<not> live_member org acct m" "member_token org acct t \<Longrightarrow> at_revokedAt t = None \<Longrightarrow> \<exists>i t0. map_get m i = Some t0 \<and> member_token org acct t0 \<and> at_revokedAt t0 = None"
  shows "\<not> live_member org acct (map_set (at_tokenId t) t m)"
  using assms unfolding live_member_def by (metis map_get_set option.inject)

lemma revoke_account_keeps:
  assumes "revokeApiTokensForAccount e inp s = (r, s')" "tokens_keyed (apiTokens s)" "orgExists s (ta_orgId inp)" "\<not> live_member org acct (apiTokens s)"
  shows "\<not> live_member org acct (apiTokens s')"
proof -
  have "map_get (apiTokens s) i = Some t" if "map_get (apiTokens s') i = Some t" "at_revokedAt t = None" for i t
    using revoke_loop [OF assms(1) [unfolded revokeApiTokensForAccount_def] assms(2,3)] that by simp
  then show ?thesis using assms(4) unfolding live_member_def by blast
qed

lemma find_stored:
  assumes "findApiTokenByPlaintext e c p now s = (Some t, s')" "tokens_keyed (apiTokens s)"
  obtains t0 where "map_get (apiTokens s) (at_tokenId t0) = Some t0" "presents c p t0" "at_revokedAt t0 = None"
    "t = t0\<lparr> at_lastUsedAt := Some (nowIso e now), at_updatedAt := nowIso e now \<rparr>" "\<forall>x. at_expiresAt t0 = Some x \<longrightarrow> nowIso e now < x"
    "apiTokens s' = map_set (at_tokenId t) t (apiTokens s)"
proof -
  obtain t0 where f: "find (presents c p) (map_values (apiTokens s)) = Some t0" and r: "at_revokedAt t0 = None"
      "\<forall>x. at_expiresAt t0 = Some x \<longrightarrow> nowIso e now < x" "t = t0\<lparr> at_lastUsedAt := Some (nowIso e now), at_updatedAt := nowIso e now \<rparr>"
      "s' = put_token t s"
    using find_effect [OF assms(1)] by auto
  have "map_get (apiTokens s) (at_tokenId t0) = Some t0 \<and> presents c p t0"
    by (rule find_in_map [OF f]) (use assms(2) in \<open>simp_all add: tokens_keyed_def\<close>)
  then have "map_get (apiTokens s) (at_tokenId t0) = Some t0" "presents c p t0" by blast+
  from that [OF this r(1,3,2)] r(4) show thesis by simp
qed

lemma token_step_keyed:
  assumes "token_step org acct s s'" "tokens_keyed (apiTokens s)"
  shows "tokens_keyed (apiTokens s')"
  using assms
proof (induction rule: token_step.induct)
  case (tk_issue e c ii s ri s')
  then show ?case using issue_effect [OF tk_issue(1)] keyed_put by metis
next
  case (tk_find e c p now s rf s')
  then show ?case using find_effect [OF tk_find(1)] keyed_put by (metis put_token_simps(1))
next
  case (tk_revoke e ir s rr s')
  then show ?case using revoke_effect [OF tk_revoke(1)] keyed_put by (metis revoked_token_simps(1))
next
  case (tk_revoke_all e ia s ra s')
  then show ?case using revoke_account_effect by blast
next
  case (tk_grant e ig s rg s')
  then show ?case using grant_effect by metis
qed simp

lemma token_step_shut:
  assumes "token_step org acct s s'" "tokens_keyed (apiTokens s)" "\<not> live_member org acct (apiTokens s)"
  shows "\<not> live_member org acct (apiTokens s')"
  using assms
proof (induction rule: token_step.induct)
  case (tk_issue e c ii s ri s')
  have "\<not> member_token org acct (new_token e c ii name)" for name using tk_issue(2) by (simp add: member_token_def)
  then show ?case using issue_effect [OF tk_issue(1)] live_put [OF tk_issue(4)] tk_issue(4) by metis
next
  case (tk_find e c p now s rf s')
  show ?case
  proof (cases rf)
    case None
    then show ?thesis using find_effect [OF tk_find(1)] tk_find(3) by auto
  next
    case (Some t)
    obtain t0 where t0: "map_get (apiTokens s) (at_tokenId t0) = Some t0" "at_revokedAt t0 = None"
        "t = t0\<lparr> at_lastUsedAt := Some (nowIso e now), at_updatedAt := nowIso e now \<rparr>" "apiTokens s' = map_set (at_tokenId t) t (apiTokens s)"
      using find_stored [OF tk_find(1) [unfolded Some] tk_find(2)] by metis
    have "member_token org acct t0" if "member_token org acct t" using that t0(3) by (simp add: member_token_def)
    then show ?thesis unfolding t0(4) using live_put [OF tk_find(3), of t] t0(1,2) by blast
  qed
next
  case (tk_revoke e ir s rr s')
  then show ?case using revoke_effect [OF tk_revoke(1)] live_put [OF tk_revoke(3)] by (metis revoked_token_simps(1,4))
next
  case (tk_revoke_all e ia s ra s')
  then show ?case using revoke_account_keeps by blast
next
  case (tk_grant e ig s rg s')
  then show ?case using grant_effect by metis
qed simp

definition token_resolves :: "'a token_store_scheme \<Rightarrow> api_token \<Rightarrow> bool" where
  "token_resolves s t = (\<exists>e c p now s'. findApiTokenByPlaintext e c p now s = (Some t, s'))"

interpretation member_tokens: credential_registry "\<lambda>s t. \<exists>i. map_get (apiTokens s) i = Some t" "member_token org acct" "\<lambda>s t. at_revokedAt t \<noteq> None"
  "\<lambda>s. tokens_keyed (apiTokens s)" "token_step org acct" token_resolves
proof unfold_locales
  fix s s' :: "'a token_store_scheme"
  assume "tokens_keyed (apiTokens s)" "token_step org acct s s'"
  then show "tokens_keyed (apiTokens s')" by (rule token_step_keyed [rotated])
next
  fix s s' :: "'a token_store_scheme" and d
  assume a: "tokens_keyed (apiTokens s)" "token_step org acct s s'"
    "\<And>c. \<exists>i. map_get (apiTokens s) i = Some c \<Longrightarrow> member_token org acct c \<Longrightarrow> at_revokedAt c \<noteq> None"
    "\<exists>i. map_get (apiTokens s') i = Some d" "member_token org acct d"
  have "\<not> live_member org acct (apiTokens s)" unfolding live_member_def using a(3) by blast
  from token_step_shut [OF a(2,1) this] show "at_revokedAt d \<noteq> None" unfolding live_member_def using a(4,5) by auto
next
  fix s :: "'a token_store_scheme" and c
  assume ok: "tokens_keyed (apiTokens s)" and "token_resolves s c"
  then obtain e cr p now s' where f: "findApiTokenByPlaintext e cr p now s = (Some c, s')" unfolding token_resolves_def by blast
  obtain t0 where "map_get (apiTokens s) (at_tokenId t0) = Some t0" "at_revokedAt t0 = None"
      "c = t0\<lparr> at_lastUsedAt := Some (nowIso e now), at_updatedAt := nowIso e now \<rparr>" by (rule find_stored [OF f ok])
  then show "\<exists>c0. (\<exists>i. map_get (apiTokens s) i = Some c0) \<and> \<not> at_revokedAt c0 \<noteq> None \<and> (member_token org acct c \<longrightarrow> member_token org acct c0)"
    by (intro exI [of _ t0]) (auto simp: member_token_def)
qed

text \<open>C23: deprovisioning a member is effective. Revoking the tokens of an account of a known organisation
  always succeeds, and afterwards, whatever else happens in the store short of issuing that member a new
  token, no plaintext resolves to a token of that member.\<close>

theorem account_revocation_final:
  assumes "tokens_keyed (apiTokens s)" "orgExists s (ta_orgId inp)" "revokeApiTokensForAccount e inp s = (r, s1)"
    and "(token_step (ta_orgId inp) (ta_accountId inp))\<^sup>*\<^sup>* s1 s2"
  shows "(\<exists>n. r = Inr n) \<and> (\<forall>e c p now t s3. findApiTokenByPlaintext e c p now s2 = (Some t, s3)
    \<longrightarrow> \<not> (at_orgId t = ta_orgId inp \<and> at_accountId t = Some (ta_accountId inp)))"
proof -
  note eff = revoke_account_effect [OF assms(3,1,2)]
  have "\<not> member_token (ta_orgId inp) (ta_accountId inp) t" if "token_resolves s2 t" for t
    by (rule member_tokens.never_resolves [OF _ _ assms(4) that]) (use eff in auto)
  then show ?thesis using eff unfolding token_resolves_def member_token_def by blast
qed

definition sample_tokens :: "api_token jsmap \<Rightarrow> token_store" where
  "sample_tokens ts = \<lparr> tenants = [], users = [], orgs = [(''o'', sample_org)], orgsByTenant = [], accounts = [], accountsBySubject = [], accountsByEmail = [],
     memberships = [], auditEvents = [], usageCounters = [], sessions = [], artifactIndex = [], launchpadSessionSummaries = [],
     workspaceEvents = [], workflows = [], runHeap = [], workflowRuns = [], workflowWebhookSecrets = [], legacyWorkflowWebhookSecrets = [],
     headlessAgents = [], channelBindings = [], channelIdentities = [], identitiesByExternal = [], channelSessionBindings = [],
     channelSessionBindingsByThread = [], channelInteractions = [], channelDeliveries = [], providerEvents = [], apiTokens = ts, tokenGrants = [] \<rparr>"

definition sample_token :: api_token where
  "sample_token = \<lparr> at_tokenId = ''t1'', at_orgId = ''o'', at_accountId = Some ''a'', at_name = ''ci'',
     at_tokenHash = hashSecretWithRandomSalt sample_crypto ''occ_t1_s'', at_scopes = [ScDesktop], at_last4 = ''t1_s'', at_expiresAt = None,
     at_revokedAt = None, at_lastUsedAt = None, at_createdAt = 0, at_updatedAt = 0 \<rparr>"

definition sample_deprovision :: revoke_account_input where
  "sample_deprovision = \<lparr> ta_orgId = ''o'', ta_accountId = ''a'', ta_reason = None, ta_revokedAt = None, ta_actor = None \<rparr>"

lemma sample_tokens_keyed: "tokens_keyed (apiTokens (sample_tokens [(''t1'', sample_token)]))"
  by (simp add: tokens_keyed_def sample_tokens_def sample_token_def map_get_def map_ok_def)

lemma sample_token_live: "fst (findApiTokenByPlaintext sample_env sample_crypto ''occ_t1_s'' None (sample_tokens [(''t1'', sample_token)])) \<noteq> None"
  by code_simp

theorem account_revocation_final_witness:
  "fst (findApiTokenByPlaintext sample_env sample_crypto ''occ_t1_s'' None (sample_tokens [(''t1'', sample_token)])) \<noteq> None
   \<and> (\<exists>n. fst (revokeApiTokensForAccount sample_env sample_deprovision (sample_tokens [(''t1'', sample_token)])) = Inr n)
   \<and> \<not> (\<exists>t. fst (findApiTokenByPlaintext sample_env sample_crypto ''occ_t1_s'' None
         (snd (revokeApiTokensForAccount sample_env sample_deprovision (sample_tokens [(''t1'', sample_token)])))) = Some t
       \<and> at_orgId t = ''o'' \<and> at_accountId t = Some ''a'')"
proof -
  let ?s = "sample_tokens [(''t1'', sample_token)]"
  let ?out = "revokeApiTokensForAccount sample_env sample_deprovision ?s"
  have "orgExists ?s (ta_orgId sample_deprovision)" by code_simp
  from account_revocation_final [OF sample_tokens_keyed this surjective_pairing [of ?out] rtranclp.rtrancl_refl]
  have "(\<exists>n. fst ?out = Inr n) \<and> (\<forall>e c p now t s3. findApiTokenByPlaintext e c p now (snd ?out) = (Some t, s3)
      \<longrightarrow> \<not> (at_orgId t = ''o'' \<and> at_accountId t = Some ''a''))" by (simp add: sample_deprovision_def)
  then show ?thesis using sample_token_live by (metis prod.collapse)
qed


section \<open>Issuing and resolving\<close>

lemma presents_same [simp]: "presents c p (t\<lparr> at_lastUsedAt := x, at_updatedAt := y \<rparr>) = presents c p t" "presents c p (revoked_token z t) = presents c p t"
  by (simp_all add: presents_def revoked_token_def)

text \<open>When one record only presents a plaintext, it is the one that is found.\<close>

lemma find_unique:
  assumes "tokens_keyed m" "map_get m i = Some t" "presents c p t" "\<And>j u. map_get m j = Some u \<Longrightarrow> j \<noteq> i \<Longrightarrow> \<not> presents c p u"
  shows "find (presents c p) (map_values m) = Some t"
proof -
  have ok: "map_ok m" and ids: "\<And>i t. map_get m i = Some t \<Longrightarrow> at_tokenId t = i" using assms(1) by (auto simp: tokens_keyed_def)
  have "t \<in> set (map_values m)" using assms(2) values_map_get [OF ok, of t] by auto
  then have "find (presents c p) (map_values m) \<noteq> None" using assms(3) by (auto simp: find_None_iff)
  then obtain u where u: "find (presents c p) (map_values m) = Some u" by blast
  have "map_get m (at_tokenId u) = Some u \<and> presents c p u" by (rule find_in_map [OF u ok ids])
  then have "at_tokenId u = i" "map_get m (at_tokenId u) = Some u" using assms(4) by blast+
  then show ?thesis using u assms(2) by simp
qed

text \<open>C24: a token works exactly from its issue to its revocation. The plaintext returned by the issue, which
  the store does not keep, resolves to the issued token at any time before its expiry, provided that no other
  stored token verifies it; once the token is revoked the same plaintext resolves to nothing.\<close>

theorem issued_token_resolves:
  assumes "tokens_keyed (apiTokens s)" "crypto_ok c" "issueApiToken e c inp s = (Inr (t, p), s1)"
    and "\<forall>x. ti_expiresAt inp = Some x \<longrightarrow> nowIso e' now < x"
    and "\<forall>j u. map_get (apiTokens s) j = Some u \<and> j \<noteq> at_tokenId t \<longrightarrow> \<not> presents c p u"
  shows "fst (findApiTokenByPlaintext e' c p now s1) = Some (t\<lparr> at_lastUsedAt := Some (nowIso e' now), at_updatedAt := nowIso e' now \<rparr>)
    \<and> (\<forall>ir r s2. tr_tokenId ir = at_tokenId t \<and> or_null (tr_orgId ir) \<in> {None, Some (ti_orgId inp)} \<and> revokeApiToken e' ir s1 = (r, s2)
        \<longrightarrow> findApiTokenByPlaintext e' c p now s2 = (None, s2))"
proof -
  obtain name where eff: "apiTokens s1 = map_set (at_tokenId t) t (apiTokens s)" "t = new_token e c inp name"
      "p = snd (generateCloudApiToken c (ti_tokenId inp) (ti_secret inp))" using issue_effect [OF assms(3)] by auto
  have own: "presents c p t" using starts_with_generated(1) verify_own_hash [OF assms(2)] by (simp add: presents_def eff(2,3))
  have keyed: "tokens_keyed (apiTokens s1)" unfolding eff(1) by (rule keyed_put [OF assms(1)])
  have others: "\<not> presents c p u" if "map_get (apiTokens s1) j = Some u" "j \<noteq> at_tokenId t" for j u using that assms(5) by (simp add: eff(1))
  have t: "map_get (apiTokens s1) (at_tokenId t) = Some t" by (simp add: eff(1))
  have org: "at_orgId t = ti_orgId inp" by (simp add: eff(2))
  have "fst (findApiTokenByPlaintext e' c p now s1) = Some (t\<lparr> at_lastUsedAt := Some (nowIso e' now), at_updatedAt := nowIso e' now \<rparr>)"
    using find_unique [OF keyed t own others] assms(4) eff(2)
    by (auto simp: findApiTokenByPlaintext_def Let_def split: option.splits)
  moreover have "findApiTokenByPlaintext e' c p now s2 = (None, s2)"
    if ir: "tr_tokenId ir = at_tokenId t" "or_null (tr_orgId ir) \<in> {None, Some (ti_orgId inp)}" "revokeApiToken e' ir s1 = (r, s2)" for ir r s2
  proof -
    let ?t = "revoked_token (nowIso e' (tr_revokedAt ir)) t"
    have s2: "apiTokens s2 = map_set (at_tokenId t) ?t (apiTokens s1)"
      using ir(2,3) audited_tokens_run [of e' _ _ "put_token ?t s1" r s2] org
      by (auto simp: revokeApiToken_def ir(1) t Let_def split: if_splits)
    have "tokens_keyed (apiTokens s2)" using keyed_put [OF keyed, of ?t] by (simp add: s2)
    then have "find (presents c p) (map_values (apiTokens s2)) = Some ?t"
      by (rule find_unique [of _ "at_tokenId t"]) (use own others in \<open>auto simp: s2\<close>)
    then show ?thesis using revoked_token_simps(4) [of _ t] by (simp add: findApiTokenByPlaintext_def)
  qed
  ultimately show ?thesis by blast
qed

definition sample_issue :: issue_token_input where
  "sample_issue = \<lparr> ti_orgId = ''o'', ti_accountId = None, ti_name = ''ci'', ti_scopes = [ScGateway], ti_expiresAt = Some 5, ti_createdAt = None,
     ti_tokenId = Some ''t2'', ti_secret = Some ''s'', ti_actor = None \<rparr>"

theorem issued_token_resolves_witness:
  "fst (findApiTokenByPlaintext sample_env sample_crypto ''occ_t2_s'' None
      (snd (issueApiToken sample_env sample_crypto sample_issue (sample_tokens [(''t1'', sample_token)])))) \<noteq> None"
proof -
  let ?s = "sample_tokens [(''t1'', sample_token)]"
  define out where "out = issueApiToken sample_env sample_crypto sample_issue ?s"
  have "case fst out of Inr (t, p) \<Rightarrow> p = ''occ_t2_s'' \<and> at_tokenId t = ''t2'' | Inl _ \<Rightarrow> False" unfolding out_def by code_simp
  then obtain t where "fst out = Inr (t, ''occ_t2_s'')" and t: "at_tokenId t = ''t2''" by (auto split: sum.splits)
  then have run: "issueApiToken sample_env sample_crypto sample_issue ?s = (Inr (t, ''occ_t2_s''), snd out)" by (simp add: out_def prod_eq_iff)
  have other: "\<not> presents sample_crypto ''occ_t2_s'' sample_token" by code_simp
  have "\<forall>x. ti_expiresAt sample_issue = Some x \<longrightarrow> nowIso sample_env None < x" by (simp add: sample_issue_def nowIso_def sample_env_def coalesce_def)
  moreover have "\<forall>j u. map_get (apiTokens ?s) j = Some u \<and> j \<noteq> at_tokenId t \<longrightarrow> \<not> presents sample_crypto ''occ_t2_s'' u"
    using other by (auto simp: sample_tokens_def map_get_def split: if_splits)
  ultimately show ?thesis
    using issued_token_resolves [OF sample_tokens_keyed sample_crypto_ok run] by (simp add: out_def)
qed

end
