(* ===== verification/Managed_Workers.thy ===== *)
theory Managed_Workers
  imports Audited_Writes Revocable_Credentials
begin

text \<open>
  Managed workers (\<open>in-memory-domains/workers.ts\<close>): pools, workers with their status machine, worker
  credentials and heartbeats. Updates that the code writes field by field are lists of setters, so that a
  setter that throws leaves the fields before it written.
\<close>


section \<open>Records\<close>

datatype pool_mode = PSaasOperated | PSelfHosted | PCustomerHosted | PHybrid
datatype pool_status = PoActive | PoPaused | PoRetired
datatype worker_status = WkPending | WkActive | WkDraining | WkPaused | WkRetired | WkRevoked | WkUnhealthy

record worker_pool =
  po_poolId :: string
  po_orgId :: string
  po_tenantId :: "string option"
  po_name :: string
  po_mode :: pool_mode
  po_status :: pool_status
  po_region :: "string option"
  po_capabilities :: json
  po_maxWorkers :: "int option"
  po_maxConcurrentWork :: "int option"
  po_createdAt :: iso
  po_updatedAt :: iso

record managed_worker =
  mw_workerId :: string
  mw_orgId :: string
  mw_tenantId :: "string option"
  mw_poolId :: string
  mw_displayName :: string
  mw_status :: worker_status
  mw_version :: "string option"
  mw_capabilities :: json
  mw_lastHeartbeatAt :: "iso option"
  mw_lastErrorCode :: "string option"
  mw_lastErrorSummary :: "string option"
  mw_currentLoad :: int
  mw_createdAt :: iso
  mw_updatedAt :: iso
  mw_revokedAt :: "iso option"

record worker_credential =
  wc_credentialId :: string
  wc_orgId :: string
  wc_workerId :: string
  wc_poolId :: string
  wc_tokenHash :: string
  wc_scopes :: "string list"
  wc_last4 :: string
  wc_expiresAt :: iso
  wc_revokedAt :: "iso option"
  wc_lastUsedAt :: "iso option"
  wc_rotatedFromCredentialId :: "string option"
  wc_createdAt :: iso
  wc_updatedAt :: iso

record managed_heartbeat =
  mh_workerId :: string
  mh_orgId :: string
  mh_tenantId :: "string option"
  mh_poolId :: string
  mh_version :: "string option"
  mh_capabilities :: json
  mh_currentLoad :: int
  mh_activeWorkIds :: "string list"
  mh_lastErrorCode :: "string option"
  mh_lastErrorSummary :: "string option"
  mh_heartbeatSequence :: "int option"
  mh_receivedAt :: iso

record worker_store = identity_store +
  pools :: "worker_pool jsmap"
  workers :: "managed_worker jsmap"
  credentials :: "worker_credential jsmap"
  heartbeats :: "managed_heartbeat jsmap"

text \<open>In an actor every field is optional.\<close>

record worker_actor =
  wa_actorType :: "actor_type option"
  wa_actorId :: "string option"
  wa_accountId :: "string option"

record create_pool_input =
  pc_poolId :: "string option"
  pc_orgId :: string
  pc_name :: string
  pc_mode :: pool_mode
  pc_status :: "pool_status option"
  pc_region :: "string option"
  pc_capabilities :: "json option"
  pc_maxWorkers :: "jsnum option"
  pc_maxConcurrentWork :: "jsnum option"
  pc_createdAt :: "iso option"
  pc_actor :: "worker_actor option"

text \<open>In an update \<open>None\<close> is \<open>undefined\<close>; of a nullable field \<open>Some None\<close> is \<open>null\<close>.\<close>

record update_pool_input =
  pu_orgId :: string
  pu_poolId :: string
  pu_name :: "string option"
  pu_status :: "pool_status option"
  pu_region :: "string option option"
  pu_capabilities :: "json option"
  pu_maxWorkers :: "jsnum option option"
  pu_maxConcurrentWork :: "jsnum option option"
  pu_updatedAt :: "iso option"
  pu_actor :: "worker_actor option"

record register_worker_input =
  wr_workerId :: "string option"
  wr_orgId :: string
  wr_poolId :: string
  wr_displayName :: string
  wr_status :: "worker_status option"
  wr_version :: "string option"
  wr_capabilities :: "json option"
  wr_createdAt :: "iso option"
  wr_actor :: "worker_actor option"

record worker_status_input =
  ws_orgId :: string
  ws_workerId :: string
  ws_status :: worker_status
  ws_reason :: "string option"
  ws_updatedAt :: "iso option"
  ws_actor :: "worker_actor option"

record issue_credential_input =
  wi_orgId :: string
  wi_workerId :: string
  wi_scopes :: "string list option"
  wi_expiresAt :: "iso option"
  wi_credentialId :: "string option"
  wi_secret :: "string option"
  wi_rotatedFromCredentialId :: "string option"
  wi_createdAt :: "iso option"
  wi_actor :: "worker_actor option"

record revoke_credential_input =
  wv_orgId :: string
  wv_credentialId :: string
  wv_workerId :: "string option"
  wv_revokedAt :: "iso option"
  wv_actor :: "worker_actor option"

record heartbeat_input =
  wh_orgId :: string
  wh_workerId :: string
  wh_credentialId :: string
  wh_version :: "string option option"
  wh_capabilities :: "json option"
  wh_currentLoad :: "jsnum option"
  wh_activeWorkIds :: "string list option"
  wh_lastErrorCode :: "string option option"
  wh_lastErrorSummary :: "string option option"
  wh_heartbeatSequence :: "jsnum option"
  wh_now :: "iso option"


section \<open>Validation\<close>

definition MANAGED_WORKER_TEXT_MAX_LENGTH :: int where
  "MANAGED_WORKER_TEXT_MAX_LENGTH = 256"

definition MANAGED_WORKER_METADATA_MAX_BYTES :: int where
  "MANAGED_WORKER_METADATA_MAX_BYTES = 16384"

definition MANAGED_WORKER_DEFAULT_CREDENTIAL_TTL_MS :: int where
  "MANAGED_WORKER_DEFAULT_CREDENTIAL_TTL_MS = 90 * 24 * 60 * 60 * 1000"

definition pool_mode_text :: "pool_mode \<Rightarrow> string" where
  "pool_mode_text m = (case m of PSaasOperated \<Rightarrow> ''saas_operated'' | PSelfHosted \<Rightarrow> ''self_hosted'' | PCustomerHosted \<Rightarrow> ''customer_hosted'' | PHybrid \<Rightarrow> ''hybrid'')"

definition pool_status_text :: "pool_status \<Rightarrow> string" where
  "pool_status_text st = (case st of PoActive \<Rightarrow> ''active'' | PoPaused \<Rightarrow> ''paused'' | PoRetired \<Rightarrow> ''retired'')"

definition worker_status_text :: "worker_status \<Rightarrow> string" where
  "worker_status_text st = (case st of WkPending \<Rightarrow> ''pending'' | WkActive \<Rightarrow> ''active'' | WkDraining \<Rightarrow> ''draining'' | WkPaused \<Rightarrow> ''paused''
     | WkRetired \<Rightarrow> ''retired'' | WkRevoked \<Rightarrow> ''revoked'' | WkUnhealthy \<Rightarrow> ''unhealthy'')"

definition normalizePoolMode :: "pool_mode \<Rightarrow> error + pool_mode" where
  "normalizePoolMode m = (if m \<in> {PSaasOperated, PSelfHosted} then Inr m
     else Inl (Error (''Managed worker pool mode '' @ pool_mode_text m @ '' is not supported in v1.'')))"

definition normalizePoolStatus :: "pool_status option \<Rightarrow> pool_status" where
  "normalizePoolStatus st = coalesce st PoActive"

definition normalizeWorkerStatus :: "worker_status option \<Rightarrow> worker_status" where
  "normalizeWorkerStatus st = coalesce st WkPending"

fun allowed_transitions :: "worker_status \<Rightarrow> worker_status list" where
  "allowed_transitions WkPending = [WkActive, WkRevoked]"
| "allowed_transitions WkActive = [WkDraining, WkPaused, WkUnhealthy, WkRetired, WkRevoked]"
| "allowed_transitions WkDraining = [WkActive, WkRetired, WkRevoked, WkUnhealthy]"
| "allowed_transitions WkPaused = [WkActive, WkRetired, WkRevoked]"
| "allowed_transitions WkUnhealthy = [WkActive, WkDraining, WkRetired, WkRevoked]"
| "allowed_transitions WkRetired = []"
| "allowed_transitions WkRevoked = []"

definition assertWorkerStatusTransition :: "worker_status \<Rightarrow> worker_status \<Rightarrow> error + unit" where
  "assertWorkerStatusTransition from to =
     (if from = to \<or> to \<in> set (allowed_transitions from) then Inr ()
      else Inl (Error (''Invalid managed worker transition from '' @ worker_status_text from @ '' to '' @ worker_status_text to @ ''.'')))"

definition normalizeNullablePositiveInteger :: "jsnum option \<Rightarrow> string \<Rightarrow> error + int option" where
  "normalizeNullablePositiveInteger v label =
     (case v of None \<Rightarrow> Inr None
      | Some (JInt i) \<Rightarrow> (if i < 0 then Inl (Error (label @ '' must be a non-negative integer.'')) else Inr (Some i))
      | Some _ \<Rightarrow> Inl (Error (label @ '' must be a non-negative integer.'')))"

definition normalizeCredentialScopes :: "string list option \<Rightarrow> error + string list" where
  "normalizeCredentialScopes scopes =
     (let normalized = js_unique (case scopes of Some (x # xs) \<Rightarrow> x # xs | _ \<Rightarrow> [''heartbeat''])
      in if list_ex (\<lambda>sc. sc \<noteq> ''heartbeat'') normalized then Inl (Error ''Managed worker credential scope is unsupported.'') else Inr normalized)"

definition normalizeMetadata :: "env \<Rightarrow> json option \<Rightarrow> string \<Rightarrow> error + json" where
  "normalizeMetadata e v label = normalizeRecord e v label MANAGED_WORKER_METADATA_MAX_BYTES"

fun normalize_all :: "string \<Rightarrow> string list \<Rightarrow> error + string list" where
  "normalize_all label [] = Inr []"
| "normalize_all label (x # xs) = try_pure (normalizeText (Some x) 256 label) (\<lambda>t. try_pure (normalize_all label xs) (\<lambda>ts. Inr (t # ts)))"

definition normalizeIdList :: "string list \<Rightarrow> string \<Rightarrow> int \<Rightarrow> error + string list" where
  "normalizeIdList values label maxLength =
     (if int (length values) > maxLength then Inl (Error (label @ '' exceeds '' @ show_int maxLength @ '' entries.''))
      else try_pure (normalize_all label values) (\<lambda>ts. Inr (js_unique ts)))"

definition worker_text :: "string \<Rightarrow> string \<Rightarrow> error + string" where
  "worker_text v label = normalizeText (Some v) MANAGED_WORKER_TEXT_MAX_LENGTH label"

definition worker_nullable :: "string option \<Rightarrow> string \<Rightarrow> error + string option" where
  "worker_nullable v label = normalizeNullableText v MANAGED_WORKER_TEXT_MAX_LENGTH label"

text \<open>An optional field: unset keeps the record, set replaces the field or throws.\<close>

definition set_field :: "'v option \<Rightarrow> ('v \<Rightarrow> error + 'w) \<Rightarrow> ('w \<Rightarrow> 'r \<Rightarrow> 'r) \<Rightarrow> 'r \<Rightarrow> error + 'r" where
  "set_field v check upd r = (case v of None \<Rightarrow> Inr r | Some x \<Rightarrow> try_pure (check x) (\<lambda>y. Inr (upd y r)))"

text \<open>Setters run in order; the record is what has been written when the first of them throws.\<close>

fun run_setters :: "('r \<Rightarrow> error + 'r) list \<Rightarrow> 'r \<Rightarrow> (error + unit) \<times> 'r" where
  "run_setters [] r = (Inr (), r)"
| "run_setters (f # fs) r = (case f r of Inl er \<Rightarrow> (Inl er, r) | Inr r' \<Rightarrow> run_setters fs r')"

definition worker_audit ::
  "string \<Rightarrow> worker_actor option \<Rightarrow> string \<Rightarrow> string \<Rightarrow> string \<Rightarrow> (string \<times> json) list \<Rightarrow> iso option \<Rightarrow> audit_input" where
  "worker_audit orgId actor eventType targetType targetId meta at =
     \<lparr> ai_eventId = None, ai_orgId = orgId, ai_accountId = or_null (Option.bind actor wa_accountId),
       ai_actorType = coalesce (Option.bind actor wa_actorType) ActorSystem, ai_actorId = or_null (Option.bind actor wa_actorId),
       ai_eventType = eventType, ai_targetType = Some targetType, ai_targetId = Some targetId, ai_metadata = Some (JObj meta), ai_createdAt = at \<rparr>"


section \<open>Pools\<close>

definition put_pool :: "string \<Rightarrow> worker_pool \<Rightarrow> 'a worker_store_scheme \<Rightarrow> 'a worker_store_scheme" where
  "put_pool k p s = s\<lparr> pools := map_set k p (pools s) \<rparr>"

definition new_pool :: "env \<Rightarrow> create_pool_input \<Rightarrow> string \<Rightarrow> error + worker_pool" where
  "new_pool e inp tenantId =
     (let now = nowIso e (pc_createdAt inp) in
      try_pure (worker_text (pc_name inp) ''Managed worker pool name'') (\<lambda>name.
      try_pure (normalizePoolMode (pc_mode inp)) (\<lambda>mode.
      try_pure (worker_nullable (pc_region inp) ''Managed worker pool region'') (\<lambda>region.
      try_pure (normalizeMetadata e (pc_capabilities inp) ''Managed worker pool capabilities'') (\<lambda>capabilities.
      try_pure (normalizeNullablePositiveInteger (pc_maxWorkers inp) ''Managed worker max workers'') (\<lambda>maxWorkers.
      try_pure (normalizeNullablePositiveInteger (pc_maxConcurrentWork inp) ''Managed worker max concurrent work'') (\<lambda>maxConcurrentWork.
        Inr \<lparr> po_poolId = or_else (pc_poolId inp) (stableId e ''mwp'' [pc_orgId inp, pc_name inp, iso_text now]), po_orgId = pc_orgId inp,
              po_tenantId = Some tenantId, po_name = name, po_mode = mode, po_status = normalizePoolStatus (pc_status inp), po_region = region,
              po_capabilities = capabilities, po_maxWorkers = maxWorkers, po_maxConcurrentWork = maxConcurrentWork,
              po_createdAt = now, po_updatedAt = now \<rparr>)))))))"

definition createPool :: "env \<Rightarrow> create_pool_input \<Rightarrow> 'a worker_store_scheme \<Rightarrow> ('a worker_store_scheme, worker_pool) outcome" where
  "createPool e inp s =
     (case orgTenantId s (pc_orgId inp) of
        None \<Rightarrow> (Inl (Error (''Unknown org '' @ pc_orgId inp @ ''.'')), s)
      | Some tenantId \<Rightarrow> try_in s (new_pool e inp tenantId) (\<lambda>p.
          case map_get (pools s) (po_poolId p) of
            Some existing \<Rightarrow> (Inr existing, s)
          | None \<Rightarrow> audited e (worker_audit (po_orgId p) (pc_actor inp) ''managed_worker_pool.created'' ''managed_worker_pool'' (po_poolId p)
              [(''name'', JStr (po_name p)), (''mode'', JStr (pool_mode_text (po_mode p))), (''status'', JStr (pool_status_text (po_status p))),
               (''region'', json_opt (po_region p))] (pc_createdAt inp)) p (put_pool (po_poolId p) p s)))"

definition pool_setters :: "env \<Rightarrow> update_pool_input \<Rightarrow> (worker_pool \<Rightarrow> error + worker_pool) list" where
  "pool_setters e inp =
     [set_field (pu_name inp) (\<lambda>v. worker_text v ''Managed worker pool name'') (\<lambda>x p. p\<lparr> po_name := x \<rparr>),
      set_field (pu_status inp) (\<lambda>v. Inr (normalizePoolStatus (Some v))) (\<lambda>x p. p\<lparr> po_status := x \<rparr>),
      set_field (pu_region inp) (\<lambda>v. worker_nullable v ''Managed worker pool region'') (\<lambda>x p. p\<lparr> po_region := x \<rparr>),
      set_field (pu_capabilities inp) (\<lambda>v. normalizeMetadata e (Some v) ''Managed worker pool capabilities'') (\<lambda>x p. p\<lparr> po_capabilities := x \<rparr>),
      set_field (pu_maxWorkers inp) (\<lambda>v. normalizeNullablePositiveInteger v ''Managed worker max workers'') (\<lambda>x p. p\<lparr> po_maxWorkers := x \<rparr>),
      set_field (pu_maxConcurrentWork inp) (\<lambda>v. normalizeNullablePositiveInteger v ''Managed worker max concurrent work'')
        (\<lambda>x p. p\<lparr> po_maxConcurrentWork := x \<rparr>)]"

definition updatePool :: "env \<Rightarrow> update_pool_input \<Rightarrow> 'a worker_store_scheme \<Rightarrow> ('a worker_store_scheme, worker_pool option) outcome" where
  "updatePool e inp s =
     (case map_get (pools s) (pu_poolId inp) of
        None \<Rightarrow> (Inr None, s)
      | Some existing \<Rightarrow>
          if po_orgId existing \<noteq> pu_orgId inp then (Inr None, s)
          else case run_setters (pool_setters e inp) existing of
            (Inl er, p) \<Rightarrow> (Inl er, put_pool (pu_poolId inp) p s)
          | (Inr _, p0) \<Rightarrow>
              let p = p0\<lparr> po_updatedAt := nowIso e (pu_updatedAt inp) \<rparr> in
              audited e (worker_audit (po_orgId p) (pu_actor inp) ''managed_worker_pool.updated'' ''managed_worker_pool'' (po_poolId p)
                [(''name'', JStr (po_name p)), (''status'', JStr (pool_status_text (po_status p)))] (pu_updatedAt inp))
                (Some p) (put_pool (pu_poolId inp) p s))"

definition getPool :: "'a worker_store_scheme \<Rightarrow> string \<Rightarrow> string \<Rightarrow> worker_pool option" where
  "getPool s orgId poolId = (case map_get (pools s) poolId of Some p \<Rightarrow> (if po_orgId p = orgId then Some p else None) | None \<Rightarrow> None)"

definition listPools :: "'a worker_store_scheme \<Rightarrow> string \<Rightarrow> pool_status option \<Rightarrow> jsnum option \<Rightarrow> worker_pool list" where
  "listPools s orgId status limit =
     js_slice (js_sort (cmp_rev (cmp_by po_updatedAt cmp_int))
       (filter (\<lambda>p. case status of Some st \<Rightarrow> po_status p = st | None \<Rightarrow> True) (filter (\<lambda>p. po_orgId p = orgId) (map_values (pools s)))))
       (normalizeListLimit limit 100 500)"


section \<open>Workers\<close>

definition put_worker :: "string \<Rightarrow> managed_worker \<Rightarrow> 'a worker_store_scheme \<Rightarrow> 'a worker_store_scheme" where
  "put_worker k w s = s\<lparr> workers := map_set k w (workers s) \<rparr>"

definition new_worker :: "env \<Rightarrow> register_worker_input \<Rightarrow> worker_pool \<Rightarrow> error + managed_worker" where
  "new_worker e inp pool =
     (let now = nowIso e (wr_createdAt inp) in
      try_pure (worker_text (wr_displayName inp) ''Managed worker display name'') (\<lambda>displayName.
      try_pure (worker_nullable (wr_version inp) ''Managed worker version'') (\<lambda>version.
      try_pure (normalizeMetadata e (wr_capabilities inp) ''Managed worker capabilities'') (\<lambda>capabilities.
        Inr \<lparr> mw_workerId = or_else (wr_workerId inp) (stableId e ''mworker'' [wr_orgId inp, wr_poolId inp, wr_displayName inp, iso_text now]),
              mw_orgId = wr_orgId inp, mw_tenantId = po_tenantId pool, mw_poolId = wr_poolId inp, mw_displayName = displayName,
              mw_status = normalizeWorkerStatus (wr_status inp), mw_version = version, mw_capabilities = capabilities, mw_lastHeartbeatAt = None,
              mw_lastErrorCode = None, mw_lastErrorSummary = None, mw_currentLoad = 0, mw_createdAt = now, mw_updatedAt = now,
              mw_revokedAt = (if wr_status inp = Some WkRevoked then Some now else None) \<rparr>))))"

definition registerWorker ::
  "env \<Rightarrow> register_worker_input \<Rightarrow> 'a worker_store_scheme \<Rightarrow> ('a worker_store_scheme, managed_worker) outcome" where
  "registerWorker e inp s =
     (case getPool s (wr_orgId inp) (wr_poolId inp) of
        None \<Rightarrow> (Inl (Error (''Unknown managed worker pool '' @ wr_poolId inp @ ''.'')), s)
      | Some pool \<Rightarrow> try_in s (new_worker e inp pool) (\<lambda>w.
          case map_get (workers s) (mw_workerId w) of
            Some existing \<Rightarrow> (Inr existing, s)
          | None \<Rightarrow> audited e (worker_audit (mw_orgId w) (wr_actor inp) ''managed_worker.registered'' ''managed_worker'' (mw_workerId w)
              [(''poolId'', JStr (mw_poolId w)), (''status'', JStr (worker_status_text (mw_status w))), (''displayName'', JStr (mw_displayName w))]
              (wr_createdAt inp)) w (put_worker (mw_workerId w) w s)))"

definition getWorker :: "'a worker_store_scheme \<Rightarrow> string \<Rightarrow> string \<Rightarrow> managed_worker option" where
  "getWorker s orgId workerId = (case map_get (workers s) workerId of Some w \<Rightarrow> (if mw_orgId w = orgId then Some w else None) | None \<Rightarrow> None)"

definition updateWorkerStatus ::
  "env \<Rightarrow> worker_status_input \<Rightarrow> 'a worker_store_scheme \<Rightarrow> ('a worker_store_scheme, managed_worker option) outcome" where
  "updateWorkerStatus e inp s =
     (case getWorker s (ws_orgId inp) (ws_workerId inp) of
        None \<Rightarrow> (Inr None, s)
      | Some worker \<Rightarrow>
          let status = normalizeWorkerStatus (Some (ws_status inp)) in
          try_in s (assertWorkerStatusTransition (mw_status worker) status) (\<lambda>_.
            let now = nowIso e (ws_updatedAt inp);
                w = worker\<lparr> mw_status := status, mw_updatedAt := now,
                      mw_revokedAt := (if status = WkRevoked then Some (coalesce (mw_revokedAt worker) now) else mw_revokedAt worker) \<rparr>
            in audited e (worker_audit (mw_orgId w) (ws_actor inp) (''managed_worker.'' @ worker_status_text status) ''managed_worker'' (mw_workerId w)
                 [(''poolId'', JStr (mw_poolId w)), (''status'', JStr (worker_status_text status)), (''reason'', json_opt (or_null (ws_reason inp)))]
                 (ws_updatedAt inp)) (Some w) (put_worker (ws_workerId inp) w s)))"

definition listWorkers ::
  "'a worker_store_scheme \<Rightarrow> string \<Rightarrow> string option \<Rightarrow> worker_status option \<Rightarrow> jsnum option \<Rightarrow> managed_worker list" where
  "listWorkers s orgId poolId status limit =
     js_slice (js_sort (cmp_rev (cmp_by mw_updatedAt cmp_int))
       (filter (\<lambda>w. case status of Some st \<Rightarrow> mw_status w = st | None \<Rightarrow> True)
         (filter (\<lambda>w. case or_null poolId of Some p \<Rightarrow> mw_poolId w = p | None \<Rightarrow> True)
           (filter (\<lambda>w. mw_orgId w = orgId) (map_values (workers s))))))
       (normalizeListLimit limit 100 500)"


section \<open>Credentials\<close>

definition plaintextMatchesManagedWorkerCredentialId :: "string \<Rightarrow> string \<Rightarrow> bool" where
  "plaintextMatchesManagedWorkerCredentialId plaintext credentialId = starts_with plaintext (''ocw_'' @ credentialId @ ''_'')"

definition generateManagedWorkerCredential :: "crypto \<Rightarrow> string option \<Rightarrow> string option \<Rightarrow> string \<times> string" where
  "generateManagedWorkerCredential c credentialIdIn secretIn =
     (let credentialId = or_else credentialIdIn (''mwcred_'' @ cr_tokenBytes c); secret = or_else secretIn (cr_secretBytes c)
      in (credentialId, ''ocw_'' @ credentialId @ ''_'' @ secret))"

definition put_credential :: "string \<Rightarrow> worker_credential \<Rightarrow> 'a worker_store_scheme \<Rightarrow> 'a worker_store_scheme" where
  "put_credential k c s = s\<lparr> credentials := map_set k c (credentials s) \<rparr>"

definition terminal_worker :: "managed_worker \<Rightarrow> bool" where
  "terminal_worker w = (mw_status w = WkRevoked \<or> mw_status w = WkRetired)"

definition issueCredential ::
  "env \<Rightarrow> crypto \<Rightarrow> issue_credential_input \<Rightarrow> 'a worker_store_scheme \<Rightarrow> ('a worker_store_scheme, worker_credential \<times> string) outcome" where
  "issueCredential e c inp s =
     (case getWorker s (wi_orgId inp) (wi_workerId inp) of
        None \<Rightarrow> (Inl (Error (''Unknown managed worker '' @ wi_workerId inp @ ''.'')), s)
      | Some worker \<Rightarrow>
          if terminal_worker worker then (Inl (Error ''Cannot issue credentials for a terminal managed worker.''), s)
          else
            let (credentialId, plaintext) = generateManagedWorkerCredential c (wi_credentialId inp) (wi_secret inp);
                now = nowIso e (wi_createdAt inp); expiresAt = coalesce (wi_expiresAt inp) (now + MANAGED_WORKER_DEFAULT_CREDENTIAL_TTL_MS) in
            if expiresAt \<le> now then (Inl (Error ''Managed worker credential expiration must be in the future.''), s)
            else try_in s (normalizeCredentialScopes (wi_scopes inp)) (\<lambda>scopes.
              let k = \<lparr> wc_credentialId = credentialId, wc_orgId = mw_orgId worker, wc_workerId = mw_workerId worker, wc_poolId = mw_poolId worker,
                    wc_tokenHash = hashSecretWithRandomSalt c plaintext, wc_scopes = scopes, wc_last4 = slice_last 4 plaintext, wc_expiresAt = expiresAt,
                    wc_revokedAt = None, wc_lastUsedAt = None, wc_rotatedFromCredentialId = or_null (wi_rotatedFromCredentialId inp),
                    wc_createdAt = now, wc_updatedAt = now \<rparr>
              in audited e (worker_audit (wc_orgId k) (wi_actor inp)
                   (if or_null (wi_rotatedFromCredentialId inp) \<noteq> None then ''managed_worker_credential.rotated'' else ''managed_worker_credential.issued'')
                   ''managed_worker_credential'' credentialId
                   [(''workerId'', JStr (wc_workerId k)), (''scopes'', JArr (map JStr (wc_scopes k))), (''last4'', JStr (wc_last4 k))] (wi_createdAt inp))
                   (k, plaintext) (put_credential credentialId k s)))"

definition listCredentials :: "'a worker_store_scheme \<Rightarrow> string \<Rightarrow> string \<Rightarrow> worker_credential list" where
  "listCredentials s orgId workerId =
     js_sort (cmp_rev (cmp_by wc_createdAt cmp_int)) (filter (\<lambda>c. wc_orgId c = orgId \<and> wc_workerId c = workerId) (map_values (credentials s)))"

definition recordHeartbeatRejected ::
  "env \<Rightarrow> worker_credential \<Rightarrow> string \<Rightarrow> iso \<Rightarrow> 'a worker_store_scheme
   \<Rightarrow> ('a worker_store_scheme, (worker_credential \<times> managed_worker \<times> worker_pool) option) outcome" where
  "recordHeartbeatRejected e k reason now s =
     audited e (system_audit (wc_orgId k) None (wc_workerId k) ''managed_worker_heartbeat.rejected'' ''managed_worker'' (wc_workerId k)
       [(''credentialId'', JStr (wc_credentialId k)), (''poolId'', JStr (wc_poolId k)), (''reason'', JStr reason), (''last4'', JStr (wc_last4 k))] (Some now))
       None s"

definition presents_credential :: "crypto \<Rightarrow> string \<Rightarrow> worker_credential \<Rightarrow> bool" where
  "presents_credential c plaintext k =
     (plaintextMatchesManagedWorkerCredentialId plaintext (wc_credentialId k) \<and> verifySecretHash c plaintext (wc_tokenHash k))"

definition findCredentialByPlaintext ::
  "env \<Rightarrow> crypto \<Rightarrow> string \<Rightarrow> iso option \<Rightarrow> 'a worker_store_scheme
   \<Rightarrow> ('a worker_store_scheme, (worker_credential \<times> managed_worker \<times> worker_pool) option) outcome" where
  "findCredentialByPlaintext e c plaintext nowIn s =
     (let now = nowIso e nowIn in
      case find (presents_credential c plaintext) (map_values (credentials s)) of
        None \<Rightarrow> (Inr None, s)
      | Some k \<Rightarrow>
          if wc_revokedAt k \<noteq> None then recordHeartbeatRejected e k ''credential_revoked'' now s
          else if wc_expiresAt k \<le> now then recordHeartbeatRejected e k ''credential_expired'' now s
          else case (map_get (workers s) (wc_workerId k), map_get (pools s) (wc_poolId k)) of
            (Some worker, Some pool) \<Rightarrow>
              if mw_orgId worker \<noteq> wc_orgId k \<or> mw_poolId worker \<noteq> po_poolId pool then recordHeartbeatRejected e k ''worker_missing'' now s
              else if terminal_worker worker then recordHeartbeatRejected e k (''worker_'' @ worker_status_text (mw_status worker)) now s
              else let k' = k\<lparr> wc_lastUsedAt := Some now, wc_updatedAt := now \<rparr>
                in (Inr (Some (k', worker, pool)), put_credential (wc_credentialId k) k' s)
          | _ \<Rightarrow> recordHeartbeatRejected e k ''worker_missing'' now s)"

definition revokeCredential ::
  "env \<Rightarrow> revoke_credential_input \<Rightarrow> 'a worker_store_scheme \<Rightarrow> ('a worker_store_scheme, worker_credential option) outcome" where
  "revokeCredential e inp s =
     (case map_get (credentials s) (wv_credentialId inp) of
        None \<Rightarrow> (Inr None, s)
      | Some k \<Rightarrow>
          if wc_orgId k \<noteq> wv_orgId inp then (Inr None, s)
          else if (case or_null (wv_workerId inp) of Some w \<Rightarrow> wc_workerId k \<noteq> w | None \<Rightarrow> False) then (Inr None, s)
          else
            let at = nowIso e (wv_revokedAt inp); k' = k\<lparr> wc_revokedAt := Some (coalesce (wc_revokedAt k) at), wc_updatedAt := at \<rparr>
            in audited e (worker_audit (wc_orgId k) (wv_actor inp) ''managed_worker_credential.revoked'' ''managed_worker_credential'' (wc_credentialId k)
                 [(''workerId'', JStr (wc_workerId k)), (''last4'', JStr (wc_last4 k))] (wv_revokedAt inp)) (Some k')
                 (put_credential (wv_credentialId inp) k' s))"


section \<open>Heartbeats\<close>

definition heartbeat_setters :: "env \<Rightarrow> heartbeat_input \<Rightarrow> (managed_worker \<Rightarrow> error + managed_worker) list" where
  "heartbeat_setters e inp =
     [set_field (wh_version inp) (\<lambda>v. worker_nullable v ''Managed worker version'') (\<lambda>x w. w\<lparr> mw_version := x \<rparr>),
      set_field (wh_capabilities inp) (\<lambda>v. normalizeMetadata e (Some v) ''Managed worker capabilities'') (\<lambda>x w. w\<lparr> mw_capabilities := x \<rparr>),
      set_field (Some (case wh_currentLoad inp of Some v \<Rightarrow> (if js_truthy v then v else JInt 0) | None \<Rightarrow> JInt 0))
        (\<lambda>v. normalizeNonNegativeInteger (Some v) ''Managed worker current load'') (\<lambda>x w. w\<lparr> mw_currentLoad := x \<rparr>),
      set_field (wh_lastErrorCode inp) (\<lambda>v. worker_nullable v ''Managed worker error code'') (\<lambda>x w. w\<lparr> mw_lastErrorCode := x \<rparr>),
      set_field (wh_lastErrorSummary inp) (\<lambda>v. case or_null v of
          Some t \<Rightarrow> try_pure (redactOperationalText e t 1024 ''Managed worker error summary'') (\<lambda>x. Inr (Some x)) | None \<Rightarrow> Inr None)
        (\<lambda>x w. w\<lparr> mw_lastErrorSummary := x \<rparr>)]"

definition heartbeat_guard :: "env \<Rightarrow> heartbeat_input \<Rightarrow> 'a worker_store_scheme \<Rightarrow> error + managed_worker \<times> worker_credential" where
  "heartbeat_guard e inp s =
     (case (getWorker s (wh_orgId inp) (wh_workerId inp), map_get (credentials s) (wh_credentialId inp)) of
        (Some worker, Some k) \<Rightarrow>
          if wc_workerId k \<noteq> mw_workerId worker then Inl (Error (''Managed worker '' @ wh_workerId inp @ '' is not registered.''))
          else if wc_revokedAt k \<noteq> None then Inl (Error ''Managed worker credential is revoked.'')
          else if wc_expiresAt k \<le> nowIso e (wh_now inp) then Inl (Error ''Managed worker credential is expired.'')
          else if terminal_worker worker
          then Inl (Error (''Managed worker '' @ mw_workerId worker @ '' cannot heartbeat while '' @ worker_status_text (mw_status worker) @ ''.''))
          else Inr (worker, k)
      | _ \<Rightarrow> Inl (Error (''Managed worker '' @ wh_workerId inp @ '' is not registered.'')))"

definition recordHeartbeat ::
  "env \<Rightarrow> heartbeat_input \<Rightarrow> 'a worker_store_scheme \<Rightarrow> ('a worker_store_scheme, managed_heartbeat) outcome" where
  "recordHeartbeat e inp s =
     try_in s (heartbeat_guard e inp s) (\<lambda>(worker, k).
       case run_setters (heartbeat_setters e inp) worker of
         (Inl er, w) \<Rightarrow> (Inl er, put_worker (wh_workerId inp) w s)
       | (Inr _, w0) \<Rightarrow>
           let now = nowIso e (wh_now inp); w = w0\<lparr> mw_lastHeartbeatAt := Some now, mw_updatedAt := now \<rparr>;
               s1 = put_credential (wh_credentialId inp) (k\<lparr> wc_lastUsedAt := Some now, wc_updatedAt := now \<rparr>) (put_worker (wh_workerId inp) w s) in
           try_in s1 (normalizeIdList (coalesce (wh_activeWorkIds inp) []) ''Managed worker active work ids'' 500) (\<lambda>activeWorkIds.
           try_in s1 (case wh_heartbeatSequence inp of None \<Rightarrow> Inr None
               | Some v \<Rightarrow> try_pure (normalizeNonNegativeInteger (Some v) ''Managed worker heartbeat sequence'') (\<lambda>i. Inr (Some i))) (\<lambda>heartbeatSequence.
             let h = \<lparr> mh_workerId = mw_workerId w, mh_orgId = mw_orgId w, mh_tenantId = mw_tenantId w, mh_poolId = mw_poolId w, mh_version = mw_version w,
                   mh_capabilities = mw_capabilities w, mh_currentLoad = mw_currentLoad w, mh_activeWorkIds = activeWorkIds,
                   mh_lastErrorCode = mw_lastErrorCode w, mh_lastErrorSummary = mw_lastErrorSummary w, mh_heartbeatSequence = heartbeatSequence,
                   mh_receivedAt = now \<rparr>
             in (Inr h, s1\<lparr> heartbeats := map_set (mw_workerId w) h (heartbeats s1) \<rparr>))))"

definition listHeartbeats :: "'a worker_store_scheme \<Rightarrow> string \<Rightarrow> string option \<Rightarrow> jsnum option \<Rightarrow> managed_heartbeat list" where
  "listHeartbeats s orgId workerId limit =
     js_slice (js_sort (cmp_rev (cmp_by mh_receivedAt cmp_int))
       (filter (\<lambda>h. case or_null workerId of Some w \<Rightarrow> mh_workerId h = w | None \<Rightarrow> True) (filter (\<lambda>h. mh_orgId h = orgId) (map_values (heartbeats s)))))
       (normalizeListLimit limit 100 500)"

section \<open>Frames\<close>

lemma audited_worker_fields [simp]:
  fixes s :: "'a worker_store_scheme"
  shows "pools (snd (audited e inp res s)) = pools s" "workers (snd (audited e inp res s)) = workers s"
    "credentials (snd (audited e inp res s)) = credentials s" "heartbeats (snd (audited e inp res s)) = heartbeats s"
  by (rule audited_effect [OF surjective_pairing, of e inp res s], simp)+

lemma audited_workers_run:
  fixes s :: "'a worker_store_scheme"
  assumes "audited e inp res s = (r, s')"
  shows "pools s' = pools s \<and> workers s' = workers s \<and> credentials s' = credentials s \<and> heartbeats s' = heartbeats s"
  using audited_worker_fields [of e inp res s] assms by simp

lemma put_worker_fields [simp]:
  "pools (put_worker k w s) = pools s" "workers (put_worker k w s) = map_set k w (workers s)" "credentials (put_worker k w s) = credentials s"
  "pools (put_pool k p s) = map_set k p (pools s)" "workers (put_pool k p s) = workers s" "credentials (put_pool k p s) = credentials s"
  "pools (put_credential k c s) = pools s" "workers (put_credential k c s) = workers s" "credentials (put_credential k c s) = map_set k c (credentials s)"
  by (simp_all add: put_worker_def put_pool_def put_credential_def)

lemma getWorker_Some: "getWorker s orgId i = Some w \<longleftrightarrow> map_get (workers s) i = Some w \<and> mw_orgId w = orgId"
  by (auto simp: getWorker_def split: option.splits)

lemma run_setters_keep:
  assumes "run_setters fs r = (x, r')" "\<And>f r r'. f \<in> set fs \<Longrightarrow> f r = Inr r' \<Longrightarrow> g r' = g r"
  shows "g r' = g r"
  using assms
proof (induction fs arbitrary: r)
  case (Cons f fs)
  show ?case
  proof (cases "f r")
    case (Inl er)
    then show ?thesis using Cons.prems(1) by simp
  next
    case (Inr r1)
    have "g r' = g r1"
    proof (rule Cons.IH)
      show "run_setters fs r1 = (x, r')" using Cons.prems(1) Inr by simp
      show "g b = g a" if "h \<in> set fs" "h a = Inr b" for h a b using Cons.prems(2) [of h a b] that by simp
    qed
    then show ?thesis using Cons.prems(2) [of f r r1] Inr by simp
  qed
qed simp

lemma set_field_keep: "set_field v check upd r = Inr r' \<Longrightarrow> (\<And>x r. g (upd x r) = g r) \<Longrightarrow> g r' = g r"
  by (auto simp: set_field_def try_pure_def split: option.splits sum.splits)

lemma heartbeat_setters_keep:
  assumes "run_setters (heartbeat_setters e inp) w = (x, w')"
  shows "mw_status w' = mw_status w" "mw_workerId w' = mw_workerId w" "mw_orgId w' = mw_orgId w" "mw_poolId w' = mw_poolId w"
  by (rule run_setters_keep [OF assms], auto simp: heartbeat_setters_def elim!: set_field_keep)+

section \<open>What each operation does to workers and credentials\<close>

text \<open>A worker stays where it is or moves along an allowed transition.\<close>

definition worker_moves :: "managed_worker \<Rightarrow> managed_worker \<Rightarrow> bool" where
  "worker_moves w w' = (mw_workerId w' = mw_workerId w \<and> mw_orgId w' = mw_orgId w \<and> mw_poolId w' = mw_poolId w
     \<and> (mw_status w' = mw_status w \<or> mw_status w' \<in> set (allowed_transitions (mw_status w))))"

lemma worker_moves_refl [simp]: "worker_moves w w"
  by (simp add: worker_moves_def)

lemma createPool_frame:
  assumes "createPool e inp s = (r, s')"
  shows "workers s' = workers s \<and> credentials s' = credentials s"
proof -
  have "s' = s \<or> (\<exists>i res k p. audited e i res (put_pool k p s) = (r, s'))"
    using assms unfolding createPool_def try_in_def by (auto split: option.splits sum.splits)
  then show ?thesis by (auto dest!: audited_workers_run)
qed

lemma updatePool_frame:
  assumes "updatePool e inp s = (r, s')"
  shows "workers s' = workers s \<and> credentials s' = credentials s"
proof -
  have "s' = s \<or> (\<exists>k p. s' = put_pool k p s) \<or> (\<exists>i res k p. audited e i res (put_pool k p s) = (r, s'))"
    using assms unfolding updatePool_def Let_def by (auto split: option.splits sum.splits prod.splits if_splits)
  then show ?thesis by (auto dest!: audited_workers_run)
qed

lemma registerWorker_effect:
  assumes "registerWorker e inp s = (r, s')"
  shows "credentials s' = credentials s \<and> (workers s' = workers s
    \<or> (\<exists>w. map_get (workers s) (mw_workerId w) = None \<and> workers s' = map_set (mw_workerId w) w (workers s)))"
proof -
  have "s' = s \<or> (\<exists>i res w. map_get (workers s) (mw_workerId w) = None \<and> audited e i res (put_worker (mw_workerId w) w s) = (r, s'))"
    using assms unfolding registerWorker_def try_in_def by (auto split: option.splits sum.splits)
  then show ?thesis by (auto dest!: audited_workers_run)
qed

lemma updateWorkerStatus_effect:
  assumes "updateWorkerStatus e inp s = (r, s')"
  shows "credentials s' = credentials s \<and> (workers s' = workers s
    \<or> (\<exists>w w'. map_get (workers s) (ws_workerId inp) = Some w \<and> worker_moves w w' \<and> mw_status w' = ws_status inp
        \<and> workers s' = map_set (ws_workerId inp) w' (workers s)))"
proof (cases "getWorker s (ws_orgId inp) (ws_workerId inp)")
  case None
  then show ?thesis using assms by (simp add: updateWorkerStatus_def)
next
  case (Some w)
  let ?now = "nowIso e (ws_updatedAt inp)"
  let ?w = "w\<lparr> mw_status := ws_status inp, mw_updatedAt := ?now,
     mw_revokedAt := (if ws_status inp = WkRevoked then Some (coalesce (mw_revokedAt w) ?now) else mw_revokedAt w) \<rparr>"
  have n: "normalizeWorkerStatus (Some (ws_status inp)) = ws_status inp" by (simp add: normalizeWorkerStatus_def coalesce_def)
  show ?thesis
  proof (cases "mw_status w = ws_status inp \<or> ws_status inp \<in> set (allowed_transitions (mw_status w))")
    case True
    obtain i res where run: "audited e i res (put_worker (ws_workerId inp) ?w s) = (r, s')"
      using assms True unfolding updateWorkerStatus_def Some Let_def n assertWorkerStatusTransition_def try_in_def by (auto split: if_splits)
    have "worker_moves w ?w" using True by (auto simp: worker_moves_def)
    moreover have "map_get (workers s) (ws_workerId inp) = Some w" using Some by (simp add: getWorker_Some)
    moreover have "mw_status ?w = ws_status inp" by simp
    moreover have "workers s' = map_set (ws_workerId inp) ?w (workers s)" "credentials s' = credentials s" using audited_workers_run [OF run] by simp_all
    ultimately show ?thesis by blast
  next
    case False
    then have "s' = s" using assms unfolding updateWorkerStatus_def Some Let_def n assertWorkerStatusTransition_def try_in_def by (auto split: if_splits)
    then show ?thesis by simp
  qed
qed

lemma issueCredential_effect:
  assumes "issueCredential e c inp s = (r, s')"
  shows "workers s' = workers s \<and> (credentials s' = credentials s
    \<or> (\<exists>w k. map_get (workers s) (wi_workerId inp) = Some w \<and> \<not> terminal_worker w \<and> wc_workerId k = mw_workerId w
        \<and> wc_credentialId k = fst (generateManagedWorkerCredential c (wi_credentialId inp) (wi_secret inp))
        \<and> credentials s' = map_set (wc_credentialId k) k (credentials s)))"
proof (cases "getWorker s (wi_orgId inp) (wi_workerId inp)")
  case None
  then show ?thesis using assms by (simp add: issueCredential_def)
next
  case (Some w)
  have "s' = s \<or> (\<not> terminal_worker w \<and> (\<exists>i res k. wc_workerId k = mw_workerId w
      \<and> wc_credentialId k = fst (generateManagedWorkerCredential c (wi_credentialId inp) (wi_secret inp))
      \<and> audited e i res (put_credential (wc_credentialId k) k s) = (r, s')))"
    using assms unfolding issueCredential_def Some Let_def try_in_def
    by (auto split: if_splits sum.splits prod.splits)
  then show ?thesis
  proof (elim disjE conjE exE)
    fix i res k
    assume a: "\<not> terminal_worker w" "wc_workerId k = mw_workerId w" "wc_credentialId k = fst (generateManagedWorkerCredential c (wi_credentialId inp) (wi_secret inp))"
      and run: "audited e i res (put_credential (wc_credentialId k) k s) = (r, s')"
    have "map_get (workers s) (wi_workerId inp) = Some w" using Some by (simp add: getWorker_Some)
    then show ?thesis using a audited_workers_run [OF run] by auto
  qed simp
qed

lemma find_credential_effect:
  assumes "findCredentialByPlaintext e c p nowIn s = (r, s')"
  shows "workers s' = workers s \<and> ((credentials s' = credentials s \<and> (\<forall>x. r \<noteq> Inr (Some x)))
    \<or> (\<exists>k w pool. find (presents_credential c p) (map_values (credentials s)) = Some k \<and> wc_revokedAt k = None \<and> nowIso e nowIn < wc_expiresAt k
        \<and> map_get (workers s) (wc_workerId k) = Some w \<and> map_get (pools s) (wc_poolId k) = Some pool \<and> \<not> terminal_worker w
        \<and> mw_orgId w = wc_orgId k \<and> mw_poolId w = po_poolId pool
        \<and> r = Inr (Some (k\<lparr> wc_lastUsedAt := Some (nowIso e nowIn), wc_updatedAt := nowIso e nowIn \<rparr>, w, pool))
        \<and> credentials s' = map_set (wc_credentialId k) (k\<lparr> wc_lastUsedAt := Some (nowIso e nowIn), wc_updatedAt := nowIso e nowIn \<rparr>) (credentials s)))"
proof -
  have rej: "workers s' = workers s \<and> credentials s' = credentials s \<and> (\<forall>x. r \<noteq> Inr (Some x))"
    if run: "recordHeartbeatRejected e k reason now s = (r, s')" for k reason now
  proof -
    have run': "audited e (system_audit (wc_orgId k) None (wc_workerId k) ''managed_worker_heartbeat.rejected'' ''managed_worker'' (wc_workerId k)
       [(''credentialId'', JStr (wc_credentialId k)), (''poolId'', JStr (wc_poolId k)), (''reason'', JStr reason), (''last4'', JStr (wc_last4 k))] (Some now))
       None s = (r, s')" using run unfolding recordHeartbeatRejected_def .
    have "r = Inr None \<or> (\<exists>er. r = Inl er)" by (rule audited_effect [OF run'])
    then show ?thesis using audited_workers_run [OF run'] by auto
  qed
  show ?thesis
  proof (cases "find (presents_credential c p) (map_values (credentials s))")
    case None
    then show ?thesis using assms by (auto simp: findCredentialByPlaintext_def)
  next
    case (Some k)
    have "(\<exists>reason. recordHeartbeatRejected e k reason (nowIso e nowIn) s = (r, s')) \<or> (wc_revokedAt k = None \<and> nowIso e nowIn < wc_expiresAt k
      \<and> (\<exists>w pool. map_get (workers s) (wc_workerId k) = Some w \<and> map_get (pools s) (wc_poolId k) = Some pool \<and> \<not> terminal_worker w
        \<and> mw_orgId w = wc_orgId k \<and> mw_poolId w = po_poolId pool
        \<and> r = Inr (Some (k\<lparr> wc_lastUsedAt := Some (nowIso e nowIn), wc_updatedAt := nowIso e nowIn \<rparr>, w, pool))
        \<and> s' = put_credential (wc_credentialId k) (k\<lparr> wc_lastUsedAt := Some (nowIso e nowIn), wc_updatedAt := nowIso e nowIn \<rparr>) s))"
      using assms unfolding findCredentialByPlaintext_def Let_def Some by (auto split: if_splits option.splits)
    then show ?thesis using rej Some by (elim disjE exE conjE) auto
  qed
qed

lemma revokeCredential_effect:
  assumes "revokeCredential e inp s = (r, s')"
  shows "workers s' = workers s \<and> (credentials s' = credentials s \<or> (\<exists>k k'. map_get (credentials s) (wv_credentialId inp) = Some k
    \<and> wc_workerId k' = wc_workerId k \<and> wc_credentialId k' = wc_credentialId k \<and> wc_revokedAt k' \<noteq> None
    \<and> credentials s' = map_set (wv_credentialId inp) k' (credentials s)))"
proof (cases "map_get (credentials s) (wv_credentialId inp)")
  case None
  then show ?thesis using assms by (simp add: revokeCredential_def)
next
  case (Some k)
  let ?at = "nowIso e (wv_revokedAt inp)"
  let ?k = "k\<lparr> wc_revokedAt := Some (coalesce (wc_revokedAt k) ?at), wc_updatedAt := ?at \<rparr>"
  have k: "wc_workerId ?k = wc_workerId k" "wc_credentialId ?k = wc_credentialId k" "wc_revokedAt ?k \<noteq> None" by simp_all
  have "s' = s \<or> (\<exists>i res. audited e i res (put_credential (wv_credentialId inp) ?k s) = (r, s'))"
    using assms unfolding revokeCredential_def Some Let_def by (auto split: if_splits option.splits)
  then have "workers s' = workers s \<and> (credentials s' = credentials s \<or> credentials s' = map_set (wv_credentialId inp) ?k (credentials s))"
    by (auto dest!: audited_workers_run)
  then show ?thesis using Some k by blast
qed

lemma heartbeat_guard_Inr:
  "heartbeat_guard e inp s = Inr (w, k) \<longleftrightarrow> getWorker s (wh_orgId inp) (wh_workerId inp) = Some w \<and> map_get (credentials s) (wh_credentialId inp) = Some k
    \<and> wc_workerId k = mw_workerId w \<and> wc_revokedAt k = None \<and> nowIso e (wh_now inp) < wc_expiresAt k \<and> \<not> terminal_worker w"
  by (auto simp: heartbeat_guard_def split: option.splits if_splits)

lemma recordHeartbeat_effect:
  assumes "recordHeartbeat e inp s = (r, s')"
  shows "(workers s' = workers s \<and> credentials s' = credentials s \<and> (\<exists>er. r = Inl er))
    \<or> (\<exists>w w' k k'. map_get (workers s) (wh_workerId inp) = Some w \<and> \<not> terminal_worker w \<and> worker_moves w w' \<and> mw_status w' = mw_status w
        \<and> map_get (credentials s) (wh_credentialId inp) = Some k \<and> wc_revokedAt k = None \<and> nowIso e (wh_now inp) < wc_expiresAt k \<and> wc_workerId k = mw_workerId w
        \<and> wc_workerId k' = wc_workerId k \<and> wc_credentialId k' = wc_credentialId k \<and> wc_revokedAt k' = wc_revokedAt k
        \<and> workers s' = map_set (wh_workerId inp) w' (workers s)
        \<and> (credentials s' = credentials s \<or> credentials s' = map_set (wh_credentialId inp) k' (credentials s)))"
proof (cases "heartbeat_guard e inp s")
  case (Inl er)
  then show ?thesis using assms by (auto simp: recordHeartbeat_def try_in_def)
next
  case (Inr wk)
  obtain w k where wk: "wk = (w, k)" by (cases wk)
  note g = Inr [unfolded wk heartbeat_guard_Inr getWorker_Some]
  obtain x w0 where x: "run_setters (heartbeat_setters e inp) w = (x, w0)" by fastforce
  let ?now = "nowIso e (wh_now inp)"
  let ?w = "w0\<lparr> mw_lastHeartbeatAt := Some ?now, mw_updatedAt := ?now \<rparr>" and ?k = "k\<lparr> wc_lastUsedAt := Some ?now, wc_updatedAt := ?now \<rparr>"
  have m: "worker_moves w w0" "worker_moves w ?w" "mw_status w0 = mw_status w" "mw_status ?w = mw_status w"
    using heartbeat_setters_keep [OF x] by (simp_all add: worker_moves_def)
  have "(workers s' = map_set (wh_workerId inp) w0 (workers s) \<and> credentials s' = credentials s)
      \<or> (workers s' = map_set (wh_workerId inp) ?w (workers s) \<and> credentials s' = map_set (wh_credentialId inp) ?k (credentials s))"
  proof (cases x)
    case (Inl er)
    then show ?thesis using assms Inr x by (auto simp: recordHeartbeat_def try_in_def wk)
  next
    case (Inr u)
    then show ?thesis using assms \<open>heartbeat_guard e inp s = Inr wk\<close> x
      by (auto simp: recordHeartbeat_def try_in_def [of s] wk Let_def) (auto simp: try_in_def split: sum.splits)
  qed
  moreover have "wc_workerId ?k = wc_workerId k" "wc_credentialId ?k = wc_credentialId k" "wc_revokedAt ?k = wc_revokedAt k" by simp_all
  ultimately show ?thesis using g m by metis
qed

section \<open>Terminal workers and revoked credentials\<close>

text \<open>Every operation of the domain; \<open>wk_other\<close> is any operation of another domain. The parameter is a
  credential id that is not issued a second time, when there is one.\<close>

inductive worker_step :: "string option \<Rightarrow> 'a worker_store_scheme \<Rightarrow> 'a worker_store_scheme \<Rightarrow> bool" for cid where
  wk_pool: "createPool e ip s = (rp, s') \<Longrightarrow> worker_step cid s s'"
| wk_update_pool: "updatePool e iu s = (ru, s') \<Longrightarrow> worker_step cid s s'"
| wk_register: "registerWorker e ir s = (rr, s') \<Longrightarrow> worker_step cid s s'"
| wk_status: "updateWorkerStatus e iw s = (rw, s') \<Longrightarrow> worker_step cid s s'"
| wk_issue: "issueCredential e c ii s = (ri, s') \<Longrightarrow> cid \<noteq> Some (fst (generateManagedWorkerCredential c (wi_credentialId ii) (wi_secret ii)))
    \<Longrightarrow> worker_step cid s s'"
| wk_find: "findCredentialByPlaintext e c p now s = (rf, s') \<Longrightarrow> worker_step cid s s'"
| wk_revoke: "revokeCredential e iv s = (rv, s') \<Longrightarrow> worker_step cid s s'"
| wk_heartbeat: "recordHeartbeat e ih s = (rh, s') \<Longrightarrow> worker_step cid s s'"
| wk_other: "pools s' = pools s \<Longrightarrow> workers s' = workers s \<Longrightarrow> credentials s' = credentials s \<Longrightarrow> worker_step cid s s'"

text \<open>A registered worker is never dropped, and moves only along the transition table.\<close>

lemma worker_step_moves:
  assumes "worker_step cid s s'" "map_get (workers s) i = Some w"
  shows "\<exists>w'. map_get (workers s') i = Some w' \<and> worker_moves w w'"
  using assms
proof (induction rule: worker_step.induct)
  case (wk_register e ir s rr s')
  then show ?case using registerWorker_effect [OF wk_register(1)] by (metis map_get_set option.distinct(1) worker_moves_refl)
next
  case (wk_status e iw s rw s')
  from updateWorkerStatus_effect [OF wk_status(1)] show ?case
  proof (elim conjE disjE exE)
    fix u u' assume "map_get (workers s) (ws_workerId iw) = Some u" "worker_moves u u'" "workers s' = map_set (ws_workerId iw) u' (workers s)"
    then show ?thesis using wk_status(2) by (cases "i = ws_workerId iw") simp_all
  qed (use wk_status(2) in simp)
next
  case (wk_heartbeat e ih s rh s')
  from recordHeartbeat_effect [OF wk_heartbeat(1)] show ?case
  proof (elim conjE disjE exE)
    fix u u' assume "map_get (workers s) (wh_workerId ih) = Some u" "worker_moves u u'" "workers s' = map_set (wh_workerId ih) u' (workers s)"
    then show ?thesis using wk_heartbeat(2) by (cases "i = wh_workerId ih") simp_all
  qed (use wk_heartbeat(2) in auto)
next
  case (wk_pool e ip s rp s')
  then show ?case using createPool_frame [OF wk_pool(1)] by simp
next
  case (wk_update_pool e iu s ru s')
  then show ?case using updatePool_frame [OF wk_update_pool(1)] by simp
next
  case (wk_issue e c ii s ri s')
  then show ?case using issueCredential_effect [OF wk_issue(1)] by simp
next
  case (wk_find e c p now s rf s')
  then show ?case using find_credential_effect [OF wk_find(1)] by simp
next
  case (wk_revoke e iv s rv s')
  then show ?case using revokeCredential_effect [OF wk_revoke(1)] by simp
qed simp

definition retired_worker :: "string \<Rightarrow> 'a worker_store_scheme \<Rightarrow> bool" where
  "retired_worker wid s = (\<exists>w. map_get (workers s) wid = Some w \<and> terminal_worker w)"

lemma terminal_moves: "worker_moves w w' \<Longrightarrow> terminal_worker w \<Longrightarrow> terminal_worker w' \<and> mw_status w' = mw_status w"
  by (auto simp: worker_moves_def terminal_worker_def)

lemma retired_step: "worker_step cid s s' \<Longrightarrow> retired_worker wid s \<Longrightarrow> retired_worker wid s'"
  unfolding retired_worker_def using worker_step_moves terminal_moves by blast

definition credential_resolves :: "'a worker_store_scheme \<Rightarrow> worker_credential \<Rightarrow> bool" where
  "credential_resolves s k = (\<exists>e c p now w pool s'. findCredentialByPlaintext e c p now s = (Inr (Some (k, w, pool)), s'))"

lemma credential_resolves_stored:
  assumes "credential_resolves s k"
  obtains k0 where "k0 \<in> set (map_values (credentials s))" "wc_revokedAt k0 = None" "wc_workerId k0 = wc_workerId k" "wc_credentialId k0 = wc_credentialId k"
    "\<not> retired_worker (wc_workerId k0) s"
proof -
  obtain e c p now w pool s' where f: "findCredentialByPlaintext e c p now s = (Inr (Some (k, w, pool)), s')"
    using assms unfolding credential_resolves_def by blast
  obtain k0 where k0: "find (presents_credential c p) (map_values (credentials s)) = Some k0" "wc_revokedAt k0 = None"
      "map_get (workers s) (wc_workerId k0) = Some w" "\<not> terminal_worker w" "k = k0\<lparr> wc_lastUsedAt := Some (nowIso e now), wc_updatedAt := nowIso e now \<rparr>"
    using find_credential_effect [OF f] by auto
  have "k0 \<in> set (map_values (credentials s))" using k0(1) by (auto simp: find_Some_iff)
  moreover have "\<not> retired_worker (wc_workerId k0) s" using k0(3,4) by (simp add: retired_worker_def)
  ultimately show thesis using that k0(2,5) by simp
qed

interpretation terminal_workers: credential_registry "\<lambda>s k. k \<in> set (map_values (credentials s))" "\<lambda>k. wc_workerId k = wid"
  "\<lambda>s k. retired_worker (wc_workerId k) s" "retired_worker wid" "worker_step None" credential_resolves
proof unfold_locales
  fix s s' :: "'a worker_store_scheme"
  show "retired_worker wid s \<Longrightarrow> worker_step None s s' \<Longrightarrow> retired_worker wid s'" by (rule retired_step)
  show "retired_worker wid s \<Longrightarrow> worker_step None s s' \<Longrightarrow> wc_workerId d = wid \<Longrightarrow> retired_worker (wc_workerId d) s'" for d
    using retired_step by blast
  show "\<exists>c0. c0 \<in> set (map_values (credentials s)) \<and> \<not> retired_worker (wc_workerId c0) s \<and> (wc_workerId c = wid \<longrightarrow> wc_workerId c0 = wid)"
    if "credential_resolves s c" for c by (rule credential_resolves_stored [OF that]) auto
qed

text \<open>C25: a retired or revoked worker is out for good. Whatever operations follow, its record stays in
  the store with the same status, no credential of it resolves again, no heartbeat of it is accepted and no
  credential is issued for it.\<close>

theorem terminal_worker_final:
  assumes "map_get (workers s) wid = Some w" "terminal_worker w" "(worker_step None)\<^sup>*\<^sup>* s s'"
  shows "(\<exists>w'. map_get (workers s') wid = Some w' \<and> mw_status w' = mw_status w)
    \<and> (\<forall>e c p now k wk pool s2. findCredentialByPlaintext e c p now s' = (Inr (Some (k, wk, pool)), s2) \<longrightarrow> wc_workerId k \<noteq> wid)
    \<and> (\<forall>e inp. wh_workerId inp = wid \<longrightarrow> (\<exists>er. recordHeartbeat e inp s' = (Inl er, s')))
    \<and> (\<forall>e c inp. wi_workerId inp = wid \<longrightarrow> (\<exists>er. issueCredential e c inp s' = (Inl er, s')))"
proof -
  have r: "retired_worker wid s" using assms(1,2) by (auto simp: retired_worker_def)
  have "\<exists>w'. map_get (workers s') wid = Some w' \<and> mw_status w' = mw_status w"
    using assms(3)
  proof (induction rule: rtranclp_induct)
    case (step s1 s2)
    then obtain w1 where "map_get (workers s1) wid = Some w1" "mw_status w1 = mw_status w" by blast
    moreover from this(2) have "terminal_worker w1" using assms(2) by (simp add: terminal_worker_def)
    ultimately show ?case using worker_step_moves [OF step(2)] terminal_moves by metis
  qed (use assms(1) in simp)
  moreover have "wc_workerId k \<noteq> wid" if "credential_resolves s' k" for k
    by (rule terminal_workers.never_resolves [OF r _ assms(3) that]) (use r in blast)
  moreover obtain w' where w': "map_get (workers s') wid = Some w'" "terminal_worker w'"
    using terminal_workers.ok_steps [OF assms(3) r] by (auto simp: retired_worker_def)
  moreover have "\<exists>er. recordHeartbeat e inp s' = (Inl er, s')" if "wh_workerId inp = wid" for e inp
  proof (cases "heartbeat_guard e inp s'")
    case (Inl er)
    then show ?thesis by (simp add: recordHeartbeat_def try_in_def)
  next
    case (Inr wk)
    then show ?thesis using w' that heartbeat_guard_Inr [of e inp s' "fst wk" "snd wk"] by (simp add: getWorker_Some)
  qed
  moreover have "\<exists>er. issueCredential e c inp s' = (Inl er, s')" if "wi_workerId inp = wid" for e c inp
    using w' that by (auto simp: issueCredential_def getWorker_def)
  ultimately show ?thesis unfolding credential_resolves_def by blast
qed

definition sample_worker :: "worker_status \<Rightarrow> managed_worker" where
  "sample_worker st = \<lparr> mw_workerId = ''w1'', mw_orgId = ''o'', mw_tenantId = Some ''t'', mw_poolId = ''p1'', mw_displayName = ''W'', mw_status = st,
     mw_version = None, mw_capabilities = JObj [], mw_lastHeartbeatAt = None, mw_lastErrorCode = None, mw_lastErrorSummary = None, mw_currentLoad = 0,
     mw_createdAt = 0, mw_updatedAt = 0, mw_revokedAt = None \<rparr>"

definition sample_credential :: worker_credential where
  "sample_credential = \<lparr> wc_credentialId = ''c1'', wc_orgId = ''o'', wc_workerId = ''w1'', wc_poolId = ''p1'',
     wc_tokenHash = hashSecretWithRandomSalt sample_crypto ''ocw_c1_s'', wc_scopes = [''heartbeat''], wc_last4 = ''c1_s'', wc_expiresAt = 100,
     wc_revokedAt = None, wc_lastUsedAt = None, wc_rotatedFromCredentialId = None, wc_createdAt = 0, wc_updatedAt = 0 \<rparr>"

definition sample_pool :: worker_pool where
  "sample_pool = \<lparr> po_poolId = ''p1'', po_orgId = ''o'', po_tenantId = Some ''t'', po_name = ''P'', po_mode = PSelfHosted, po_status = PoActive, po_region = None,
     po_capabilities = JObj [], po_maxWorkers = None, po_maxConcurrentWork = None, po_createdAt = 0, po_updatedAt = 0 \<rparr>"

definition sample_fleet :: "worker_status \<Rightarrow> worker_store" where
  "sample_fleet st = \<lparr> tenants = [], users = [], orgs = [(''o'', \<lparr> og_orgId = ''o'', og_tenantId = ''t'', og_name = ''O'', og_planKey = None,
       og_status = ''active'', og_createdAt = 0, og_updatedAt = 0 \<rparr>)],
     orgsByTenant = [], accounts = [], accountsBySubject = [], accountsByEmail = [], memberships = [], auditEvents = [],
     pools = [(''p1'', sample_pool)], workers = [(''w1'', sample_worker st)], credentials = [(''c1'', sample_credential)], heartbeats = [] \<rparr>"

definition sample_reactivate :: worker_status_input where
  "sample_reactivate = \<lparr> ws_orgId = ''o'', ws_workerId = ''w1'', ws_status = WkActive, ws_reason = None, ws_updatedAt = None, ws_actor = None \<rparr>"

definition sample_beat :: heartbeat_input where
  "sample_beat = \<lparr> wh_orgId = ''o'', wh_workerId = ''w1'', wh_credentialId = ''c1'', wh_version = None, wh_capabilities = None, wh_currentLoad = None,
     wh_activeWorkIds = None, wh_lastErrorCode = None, wh_lastErrorSummary = None, wh_heartbeatSequence = None, wh_now = None \<rparr>"

lemma sample_worker_beats: "case fst (recordHeartbeat sample_env sample_beat (sample_fleet WkActive)) of Inr _ \<Rightarrow> True | Inl _ \<Rightarrow> False"
  by code_simp

theorem terminal_worker_final_witness:
  "(case fst (recordHeartbeat sample_env sample_beat (sample_fleet WkActive)) of Inr _ \<Rightarrow> True | Inl _ \<Rightarrow> False)
   \<and> (\<exists>er. fst (recordHeartbeat sample_env sample_beat (snd (updateWorkerStatus sample_env sample_reactivate (sample_fleet WkRetired)))) = Inl er)"
proof -
  let ?s = "sample_fleet WkRetired"
  have "worker_step None ?s (snd (updateWorkerStatus sample_env sample_reactivate ?s))" by (rule wk_status [OF surjective_pairing])
  moreover have "map_get (workers ?s) ''w1'' = Some (sample_worker WkRetired)" "terminal_worker (sample_worker WkRetired)"
    by (simp_all add: sample_fleet_def map_get_def terminal_worker_def sample_worker_def)
  moreover have "wh_workerId sample_beat = ''w1''" by (simp add: sample_beat_def)
  ultimately show ?thesis using terminal_worker_final [of ?s "''w1''" "sample_worker WkRetired"] sample_worker_beats by (metis fst_conv r_into_rtranclp)
qed

definition credentials_keyed :: "worker_credential jsmap \<Rightarrow> bool" where
  "credentials_keyed m = (map_ok m \<and> (\<forall>i k. map_get m i = Some k \<longrightarrow> wc_credentialId k = i))"

definition shut_credential :: "string \<Rightarrow> worker_credential jsmap \<Rightarrow> bool" where
  "shut_credential cid m = (\<forall>k. map_get m cid = Some k \<longrightarrow> wc_revokedAt k \<noteq> None)"

lemma keyed_credential_put: "credentials_keyed m \<Longrightarrow> wc_credentialId k = i \<Longrightarrow> credentials_keyed (map_set i k m)"
  by (auto simp: credentials_keyed_def)

text \<open>What a step does to the credentials: nothing, a fresh one, or a new version of a stored one.\<close>

lemma worker_step_credentials:
  assumes "worker_step cid s s'" "credentials_keyed (credentials s)"
  shows "credentials s' = credentials s
    \<or> (\<exists>k. cid \<noteq> Some (wc_credentialId k) \<and> credentials s' = map_set (wc_credentialId k) k (credentials s))
    \<or> (\<exists>k0 k. map_get (credentials s) (wc_credentialId k) = Some k0 \<and> (wc_revokedAt k0 \<noteq> None \<longrightarrow> wc_revokedAt k \<noteq> None)
        \<and> credentials s' = map_set (wc_credentialId k) k (credentials s))"
  using assms
proof (induction rule: worker_step.induct)
  case (wk_pool e ip s rp s')
  then show ?case using createPool_frame [OF wk_pool(1)] by simp
next
  case (wk_update_pool e iu s ru s')
  then show ?case using updatePool_frame [OF wk_update_pool(1)] by simp
next
  case (wk_register e ir s rr s')
  then show ?case using registerWorker_effect [OF wk_register(1)] by simp
next
  case (wk_status e iw s rw s')
  then show ?case using updateWorkerStatus_effect [OF wk_status(1)] by simp
next
  case (wk_issue e c ii s ri s')
  then show ?case using issueCredential_effect [OF wk_issue(1)] by metis
next
  case (wk_find e c p now s rf s')
  from find_credential_effect [OF wk_find(1)] show ?case
  proof (elim conjE disjE exE)
    fix k assume f: "find (presents_credential c p) (map_values (credentials s)) = Some k" "wc_revokedAt k = None"
      and put: "credentials s' = map_set (wc_credentialId k) (k\<lparr> wc_lastUsedAt := Some (nowIso e now), wc_updatedAt := nowIso e now \<rparr>) (credentials s)"
    have "map_get (credentials s) (wc_credentialId k) = Some k \<and> presents_credential c p k"
      by (rule find_in_map [OF f(1)]) (use wk_find(2) in \<open>simp_all add: credentials_keyed_def\<close>)
    then show ?thesis using f(2) put
      by (intro disjI2 exI [of _ k] exI [of _ "k\<lparr> wc_lastUsedAt := Some (nowIso e now), wc_updatedAt := nowIso e now \<rparr>"]) simp
  qed simp
next
  case (wk_revoke e iv s rv s')
  from revokeCredential_effect [OF wk_revoke(1)] show ?case
  proof (elim conjE disjE exE)
    fix k k' assume k: "map_get (credentials s) (wv_credentialId iv) = Some k" "wc_credentialId k' = wc_credentialId k" "wc_revokedAt k' \<noteq> None"
      "credentials s' = map_set (wv_credentialId iv) k' (credentials s)"
    then have "wc_credentialId k' = wv_credentialId iv" using wk_revoke(2) by (simp add: credentials_keyed_def)
    then show ?thesis using k by (intro disjI2 exI [of _ k] exI [of _ k']) simp
  qed simp
next
  case (wk_heartbeat e ih s rh s')
  from recordHeartbeat_effect [OF wk_heartbeat(1)] show ?case
  proof (elim conjE disjE exE)
    fix k k' assume k: "map_get (credentials s) (wh_credentialId ih) = Some k" "wc_credentialId k' = wc_credentialId k" "wc_revokedAt k' = wc_revokedAt k"
      "credentials s' = map_set (wh_credentialId ih) k' (credentials s)"
    then have "wc_credentialId k' = wh_credentialId ih" using wk_heartbeat(2) by (simp add: credentials_keyed_def)
    then show ?thesis using k by (intro disjI2 exI [of _ k] exI [of _ k']) simp
  qed simp_all
qed simp

lemma credentials_step:
  assumes "worker_step cid s s'" "credentials_keyed (credentials s)"
  shows "credentials_keyed (credentials s')"
  using worker_step_credentials [OF assms] assms(2) keyed_credential_put by metis

lemma shut_credential_step:
  assumes "worker_step (Some cid) s s'" "credentials_keyed (credentials s)" "shut_credential cid (credentials s)"
  shows "shut_credential cid (credentials s')"
  using worker_step_credentials [OF assms(1,2)] assms(3) unfolding shut_credential_def by (elim disjE exE conjE) (auto split: if_splits)

interpretation revoked_credentials: credential_registry "\<lambda>s k. map_get (credentials s) (wc_credentialId k) = Some k" "\<lambda>k. wc_credentialId k = cid"
  "\<lambda>s k. wc_revokedAt k \<noteq> None" "\<lambda>s. credentials_keyed (credentials s) \<and> shut_credential cid (credentials s)" "worker_step (Some cid)" credential_resolves
proof unfold_locales
  fix s s' :: "'a worker_store_scheme"
  assume ok: "credentials_keyed (credentials s) \<and> shut_credential cid (credentials s)"
  show step: "credentials_keyed (credentials s') \<and> shut_credential cid (credentials s')" if "worker_step (Some cid) s s'"
    using ok that credentials_step shut_credential_step by blast
  show "wc_revokedAt d \<noteq> None" if "worker_step (Some cid) s s'" "map_get (credentials s') (wc_credentialId d) = Some d" "wc_credentialId d = cid" for d
    using step [OF that(1)] that(2,3) by (simp add: shut_credential_def)
  show "\<exists>c0. map_get (credentials s) (wc_credentialId c0) = Some c0 \<and> \<not> wc_revokedAt c0 \<noteq> None \<and> (wc_credentialId c = cid \<longrightarrow> wc_credentialId c0 = cid)"
    if "credential_resolves s c" for c
  proof (rule credential_resolves_stored [OF that])
    fix k0 assume k0: "k0 \<in> set (map_values (credentials s))" "wc_revokedAt k0 = None" "wc_credentialId k0 = wc_credentialId c"
    have m: "map_ok (credentials s)" using ok by (simp add: credentials_keyed_def)
    obtain i where "map_get (credentials s) i = Some k0" using k0(1) values_map_get [OF m, of k0] by auto
    then have "map_get (credentials s) (wc_credentialId k0) = Some k0" using ok by (simp add: credentials_keyed_def)
    then show ?thesis using k0(2,3) by (intro exI [of _ k0]) simp
  qed
qed

text \<open>A revoked worker credential is dead. As long as its id is not issued anew, no plaintext resolves to
  it after any sequence of operations, and no heartbeat that names it is accepted.\<close>

theorem revoked_credential_final:
  assumes "credentials_keyed (credentials s)" "map_get (credentials s) (wv_credentialId inp) = Some k" "wc_orgId k = wv_orgId inp"
    "or_null (wv_workerId inp) \<in> {None, Some (wc_workerId k)}" "revokeCredential e inp s = (r, s1)"
    and "(worker_step (Some (wv_credentialId inp)))\<^sup>*\<^sup>* s1 s2"
  shows "(\<forall>e c p now d w pool s3. findCredentialByPlaintext e c p now s2 = (Inr (Some (d, w, pool)), s3) \<longrightarrow> wc_credentialId d \<noteq> wv_credentialId inp)
    \<and> (\<forall>e ih. wh_credentialId ih = wv_credentialId inp \<longrightarrow> (\<exists>er. recordHeartbeat e ih s2 = (Inl er, s2)))"
proof -
  let ?k = "k\<lparr> wc_revokedAt := Some (coalesce (wc_revokedAt k) (nowIso e (wv_revokedAt inp))), wc_updatedAt := nowIso e (wv_revokedAt inp) \<rparr>"
  obtain i res where run: "audited e i res (put_credential (wv_credentialId inp) ?k s) = (r, s1)"
    using assms(3,4,5) unfolding revokeCredential_def assms(2) Let_def by auto
  have s1: "credentials s1 = map_set (wv_credentialId inp) ?k (credentials s)" using audited_workers_run [OF run] by simp
  have "wc_credentialId ?k = wv_credentialId inp" using assms(1,2) by (simp add: credentials_keyed_def)
  then have ok1: "credentials_keyed (credentials s1) \<and> shut_credential (wv_credentialId inp) (credentials s1)"
    unfolding s1 using keyed_credential_put [OF assms(1), of ?k "wv_credentialId inp"] by (simp add: shut_credential_def)
  note ok2 = revoked_credentials.ok_steps [OF assms(6) ok1]
  have "wc_credentialId d \<noteq> wv_credentialId inp" if "credential_resolves s2 d" for d
    by (rule revoked_credentials.never_resolves [OF ok1 _ assms(6) that]) (use ok1 in \<open>auto simp: shut_credential_def\<close>)
  moreover have "\<exists>er. recordHeartbeat e ih s2 = (Inl er, s2)" if "wh_credentialId ih = wv_credentialId inp" for e ih
  proof (cases "heartbeat_guard e ih s2")
    case (Inl er)
    then show ?thesis by (simp add: recordHeartbeat_def try_in_def)
  next
    case (Inr wk)
    then show ?thesis using ok2 that heartbeat_guard_Inr [of e ih s2 "fst wk" "snd wk"] by (auto simp: shut_credential_def)
  qed
  ultimately show ?thesis unfolding credential_resolves_def by blast
qed

definition sample_revoke :: revoke_credential_input where
  "sample_revoke = \<lparr> wv_orgId = ''o'', wv_credentialId = ''c1'', wv_workerId = None, wv_revokedAt = None, wv_actor = None \<rparr>"

theorem revoked_credential_final_witness:
  "(case fst (recordHeartbeat sample_env sample_beat (sample_fleet WkActive)) of Inr _ \<Rightarrow> True | Inl _ \<Rightarrow> False)
   \<and> (\<exists>er. fst (recordHeartbeat sample_env sample_beat (snd (revokeCredential sample_env sample_revoke (sample_fleet WkActive)))) = Inl er)"
proof -
  let ?s = "sample_fleet WkActive"
  have "credentials_keyed (credentials ?s)" "map_get (credentials ?s) (wv_credentialId sample_revoke) = Some sample_credential"
    by (simp_all add: credentials_keyed_def sample_fleet_def map_get_def map_ok_def sample_credential_def sample_revoke_def)
  moreover have "wc_orgId sample_credential = wv_orgId sample_revoke" "or_null (wv_workerId sample_revoke) \<in> {None, Some (wc_workerId sample_credential)}"
    "wh_credentialId sample_beat = wv_credentialId sample_revoke"
    by (simp_all add: sample_credential_def sample_revoke_def sample_beat_def or_null_def)
  ultimately show ?thesis
    using revoked_credential_final [OF _ _ _ _ surjective_pairing rtranclp.rtrancl_refl, of ?s sample_revoke sample_credential sample_env] sample_worker_beats
    by (metis fst_conv)
qed

end
