(* ===== verification/Sso_Scim.thy ===== *)
theory Sso_Scim
  imports Audited_Writes Secret_Hashes
begin

text \<open>
  Enterprise sign-on (\<open>in-memory-domains/sso.ts\<close>, \<open>control-plane-sso.ts\<close>, \<open>control-plane-scim.ts\<close>): the
  single sign-on configuration of an organisation, with its merge of partial updates, and the durable queue
  of SCIM provisioning events, which are claimed, completed, or retried with exponential back-off. The
  WHATWG parser behind \<open>new URL\<close> is an argument: protocol and serialisation of an absolute URL, if it is one.
\<close>


section \<open>Records\<close>

datatype sso_protocol = Saml | Oidc

record sso_config =
  so_orgId :: string
  so_protocol :: sso_protocol
  so_enabled :: bool
  so_enforced :: bool
  so_displayName :: "string option"
  so_verifiedDomains :: "string list"
  so_domainVerificationToken :: string
  so_oidcIssuer :: "string option"
  so_oidcClientId :: "string option"
  so_oidcClientSecretCiphertext :: "string option"
  so_samlEntityId :: "string option"
  so_samlAcsUrl :: "string option"
  so_samlSloUrl :: "string option"
  so_samlIdpEntityId :: "string option"
  so_samlIdpSsoUrl :: "string option"
  so_samlIdpMetadataUrl :: "string option"
  so_samlIdpCertificateCiphertext :: "string option"
  so_scimEnabled :: bool
  so_scimTokenHash :: "string option"
  so_createdAt :: iso
  so_updatedAt :: iso

text \<open>Of a field that may be null, \<open>None\<close> is undefined and \<open>Some None\<close> is null.\<close>

record upsert_sso_input =
  su_orgId :: string
  su_protocol :: "string option"
  su_enabled :: "bool option"
  su_enforced :: "bool option"
  su_displayName :: "string option option"
  su_verifiedDomains :: "string list option option"
  su_domainVerificationToken :: "string option"
  su_oidcIssuer :: "string option option"
  su_oidcClientId :: "string option option"
  su_oidcClientSecretCiphertext :: "string option option"
  su_samlEntityId :: "string option option"
  su_samlAcsUrl :: "string option option"
  su_samlSloUrl :: "string option option"
  su_samlIdpEntityId :: "string option option"
  su_samlIdpSsoUrl :: "string option option"
  su_samlIdpMetadataUrl :: "string option option"
  su_samlIdpCertificateCiphertext :: "string option option"
  su_scimEnabled :: "bool option"
  su_scimTokenHash :: "string option option"
  su_updatedAt :: "iso option"
  su_actor :: "audit_actor option"

datatype scim_operation = UserProvision | UserUpdate | UserDeprovision | GroupSync | Reconcile
datatype scim_status = ScPending | ScProcessing | ScSucceeded | ScFailed

record scim_event =
  sc_eventId :: string
  sc_orgId :: string
  sc_operation :: scim_operation
  sc_externalId :: "string option"
  sc_payload :: json
  sc_status :: scim_status
  sc_attempts :: int
  sc_maxAttempts :: jsnum
  sc_nextAttemptAt :: iso
  sc_lastError :: "string option"
  sc_createdAt :: iso
  sc_updatedAt :: iso





record sso_store = identity_store +
  ssoConfigs :: "sso_config jsmap"
  scimEvents :: "scim_event jsmap"


section \<open>Sign-on configuration\<close>

type_synonym url_parser = "string \<Rightarrow> (string \<times> string) option"

definition sso_protocol_text :: "sso_protocol \<Rightarrow> string" where
  "sso_protocol_text p = (case p of Saml \<Rightarrow> ''saml'' | Oidc \<Rightarrow> ''oidc'')"

definition normalizeSsoProtocol :: "string \<Rightarrow> error + sso_protocol" where
  "normalizeSsoProtocol v = (if v = ''saml'' then Inr Saml else if v = ''oidc'' then Inr Oidc
     else Inl (Error ''SSO protocol must be \"saml\" or \"oidc\".''))"

text \<open>\<open>DOMAIN_PATTERN\<close>: at most 253 characters, two labels or more, each of 1 to 63 letters, digits and inner hyphens.\<close>

definition domain_alnum :: "char \<Rightarrow> bool" where
  "domain_alnum c = (let n = (of_char c :: nat) in (97 \<le> n \<and> n \<le> 122) \<or> (48 \<le> n \<and> n \<le> 57))"

definition domain_label :: "string \<Rightarrow> bool" where
  "domain_label l = (l \<noteq> [] \<and> length l \<le> 63 \<and> domain_alnum (hd l) \<and> domain_alnum (last l) \<and> list_all (\<lambda>c. domain_alnum c \<or> c = CHR ''-'') l)"

definition DOMAIN_PATTERN :: "string \<Rightarrow> bool" where
  "DOMAIN_PATTERN d = (length d \<le> 253 \<and> 2 \<le> length (split_char (CHR ''.'') d) \<and> list_all domain_label (split_char (CHR ''.'') d))"

fun collect_domains :: "string list \<Rightarrow> string list \<Rightarrow> error + string list" where
  "collect_domains seen [] = Inr seen"
| "collect_domains seen (v # vs) =
     (let d = js_lower (js_trim v) in
      if \<not> DOMAIN_PATTERN d then Inl (Error (''SSO verified domain \"'' @ v @ ''\" is not a valid domain name.''))
      else collect_domains (if d \<in> set seen then seen else seen @ [d]) vs)"

definition normalizeVerifiedDomains :: "string list option \<Rightarrow> error + string list" where
  "normalizeVerifiedDomains values =
     (case values of None \<Rightarrow> Inr []
      | Some vs \<Rightarrow> try_pure (collect_domains [] vs) (\<lambda>seen.
          if length seen > 64 then Inl (Error ''SSO configuration allows at most 64 verified domains.'') else Inr (js_sort cmp_code_units seen)))"

definition normalizeHttpsUrl :: "url_parser \<Rightarrow> string option \<Rightarrow> string \<Rightarrow> error + string option" where
  "normalizeHttpsUrl url value label =
     (case map_option js_trim value of
        None \<Rightarrow> Inr None
      | Some t \<Rightarrow>
          if t = [] then Inr None
          else if length t > 2048 then Inl (Error (label @ '' exceeds 2048 characters.''))
          else case url t of
            None \<Rightarrow> Inl (Error (label @ '' must be a valid absolute URL.''))
          | Some (protocol, href) \<Rightarrow> if protocol \<noteq> ''https:'' then Inl (Error (label @ '' must use https.'')) else Inr (Some href))"

definition generateDomainVerificationToken :: "env \<Rightarrow> string" where
  "generateDomainVerificationToken e = ''ocw-sso-verify-'' @ random_text e"

definition emailDomain :: "string \<Rightarrow> string option" where
  "emailDomain email =
     (if CHR ''@'' \<notin> set email then None
      else or_null (Some (js_lower (js_trim (last (split_char (CHR ''@'') email))))))"

definition defaultOrgSsoConfig :: "env \<Rightarrow> string \<Rightarrow> sso_protocol \<Rightarrow> iso \<Rightarrow> sso_config" where
  "defaultOrgSsoConfig e orgId protocol now =
     \<lparr> so_orgId = orgId, so_protocol = protocol, so_enabled = False, so_enforced = False, so_displayName = None, so_verifiedDomains = [],
       so_domainVerificationToken = generateDomainVerificationToken e, so_oidcIssuer = None, so_oidcClientId = None,
       so_oidcClientSecretCiphertext = None, so_samlEntityId = None, so_samlAcsUrl = None, so_samlSloUrl = None, so_samlIdpEntityId = None,
       so_samlIdpSsoUrl = None, so_samlIdpMetadataUrl = None, so_samlIdpCertificateCiphertext = None, so_scimEnabled = False,
       so_scimTokenHash = None, so_createdAt = now, so_updatedAt = now \<rparr>"

text \<open>This module's own \<open>normalizeNullableText\<close>, which trims before it tests for an empty text.\<close>

definition sso_nullable :: "string option \<Rightarrow> int \<Rightarrow> string \<Rightarrow> error + string option" where
  "sso_nullable value maxLength label =
     (case map_option js_trim value of
        None \<Rightarrow> Inr None
      | Some t \<Rightarrow> if t = [] then Inr None
          else if int (length t) > maxLength then Inl (Error (label @ '' exceeds '' @ show_int maxLength @ '' characters.'')) else Inr (Some t))"

definition patched :: "'a option \<Rightarrow> 'b \<Rightarrow> ('a \<Rightarrow> error + 'b) \<Rightarrow> error + 'b" where
  "patched v current check = (case v of None \<Rightarrow> Inr current | Some x \<Rightarrow> check x)"

definition mergeOrgSsoConfig :: "env \<Rightarrow> url_parser \<Rightarrow> sso_config option \<Rightarrow> upsert_sso_input \<Rightarrow> iso \<Rightarrow> error + sso_config" where
  "mergeOrgSsoConfig e url existing inp now =
     try_pure (case or_null (su_protocol inp) of Some p \<Rightarrow> normalizeSsoProtocol p
         | None \<Rightarrow> Inr (case existing of Some x \<Rightarrow> so_protocol x | None \<Rightarrow> Oidc)) (\<lambda>protocol.
     let base = (case existing of Some x \<Rightarrow> x | None \<Rightarrow> defaultOrgSsoConfig e (su_orgId inp) protocol now) in
     try_pure (patched (su_displayName inp) (so_displayName base) (\<lambda>v. sso_nullable v 128 ''SSO display name'')) (\<lambda>displayName.
     try_pure (patched (su_verifiedDomains inp) (so_verifiedDomains base) normalizeVerifiedDomains) (\<lambda>verifiedDomains.
     try_pure (patched (su_oidcIssuer inp) (so_oidcIssuer base) (\<lambda>v. normalizeHttpsUrl url v ''OIDC issuer'')) (\<lambda>oidcIssuer.
     try_pure (patched (su_oidcClientId inp) (so_oidcClientId base) (\<lambda>v. sso_nullable v 512 ''OIDC client id'')) (\<lambda>oidcClientId.
     try_pure (patched (su_samlEntityId inp) (so_samlEntityId base) (\<lambda>v. sso_nullable v 1024 ''SAML entity id'')) (\<lambda>samlEntityId.
     try_pure (patched (su_samlAcsUrl inp) (so_samlAcsUrl base) (\<lambda>v. normalizeHttpsUrl url v ''SAML ACS URL'')) (\<lambda>samlAcsUrl.
     try_pure (patched (su_samlSloUrl inp) (so_samlSloUrl base) (\<lambda>v. normalizeHttpsUrl url v ''SAML SLO URL'')) (\<lambda>samlSloUrl.
     try_pure (patched (su_samlIdpEntityId inp) (so_samlIdpEntityId base) (\<lambda>v. sso_nullable v 1024 ''SAML IdP entity id'')) (\<lambda>samlIdpEntityId.
     try_pure (patched (su_samlIdpSsoUrl inp) (so_samlIdpSsoUrl base) (\<lambda>v. normalizeHttpsUrl url v ''SAML IdP SSO URL'')) (\<lambda>samlIdpSsoUrl.
     try_pure (patched (su_samlIdpMetadataUrl inp) (so_samlIdpMetadataUrl base) (\<lambda>v. normalizeHttpsUrl url v ''SAML IdP metadata URL''))
       (\<lambda>samlIdpMetadataUrl.
       Inr \<lparr> so_orgId = su_orgId inp, so_protocol = protocol, so_enabled = coalesce (su_enabled inp) (so_enabled base),
             so_enforced = coalesce (su_enforced inp) (so_enforced base), so_displayName = displayName, so_verifiedDomains = verifiedDomains,
             so_domainVerificationToken = or_else (map_option js_trim (su_domainVerificationToken inp)) (so_domainVerificationToken base),
             so_oidcIssuer = oidcIssuer, so_oidcClientId = oidcClientId,
             so_oidcClientSecretCiphertext = coalesce (su_oidcClientSecretCiphertext inp) (so_oidcClientSecretCiphertext base),
             so_samlEntityId = samlEntityId, so_samlAcsUrl = samlAcsUrl, so_samlSloUrl = samlSloUrl, so_samlIdpEntityId = samlIdpEntityId,
             so_samlIdpSsoUrl = samlIdpSsoUrl, so_samlIdpMetadataUrl = samlIdpMetadataUrl,
             so_samlIdpCertificateCiphertext = coalesce (su_samlIdpCertificateCiphertext inp) (so_samlIdpCertificateCiphertext base),
             so_scimEnabled = coalesce (su_scimEnabled inp) (so_scimEnabled base),
             so_scimTokenHash = coalesce (su_scimTokenHash inp) (so_scimTokenHash base),
             so_createdAt = so_createdAt base, so_updatedAt = now \<rparr>)))))))))))"

definition getOrgSsoConfig :: "'a sso_store_scheme \<Rightarrow> string \<Rightarrow> sso_config option" where
  "getOrgSsoConfig s orgId = map_get (ssoConfigs s) orgId"

definition upsertOrgSsoConfig ::
  "env \<Rightarrow> url_parser \<Rightarrow> upsert_sso_input \<Rightarrow> 'a sso_store_scheme \<Rightarrow> ('a sso_store_scheme, sso_config) outcome" where
  "upsertOrgSsoConfig e url inp s =
     try_in s (requireOrg s (su_orgId inp)) (\<lambda>_.
       let existing = map_get (ssoConfigs s) (su_orgId inp) in
       try_in s (mergeOrgSsoConfig e url existing inp (nowIso e (su_updatedAt inp))) (\<lambda>c.
         audited e (actor_audit (su_orgId inp) (or_null (Option.bind (su_actor inp) aa_accountId)) (su_actor inp)
             (if existing = None then ''sso_config.created'' else ''sso_config.updated'') ''sso_config'' (su_orgId inp)
             [(''protocol'', JStr (sso_protocol_text (so_protocol c))), (''enabled'', JBool (so_enabled c)), (''enforced'', JBool (so_enforced c)),
              (''scimEnabled'', JBool (so_scimEnabled c))] (su_updatedAt inp))
           c (s\<lparr> ssoConfigs := map_set (su_orgId inp) c (ssoConfigs s) \<rparr>)))"

definition deleteOrgSsoConfig :: "env \<Rightarrow> string \<Rightarrow> 'a sso_store_scheme \<Rightarrow> ('a sso_store_scheme, bool) outcome" where
  "deleteOrgSsoConfig e orgId s =
     (if \<not> map_has (ssoConfigs s) orgId then (Inr False, s)
      else audited e (system_audit orgId None ''sso_config.delete'' ''sso_config.deleted'' ''sso_config'' orgId [] None) True
        (s\<lparr> ssoConfigs := map_delete orgId (ssoConfigs s) \<rparr>))"

definition findOrgSsoConfigByScimToken :: "crypto \<Rightarrow> 'a sso_store_scheme \<Rightarrow> string \<Rightarrow> sso_config option" where
  "findOrgSsoConfigByScimToken c s plaintext =
     (if plaintext = [] then None
      else find (\<lambda>r. so_scimEnabled r \<and> (case or_null (so_scimTokenHash r) of Some h \<Rightarrow> verifySecretHash c plaintext h | None \<Rightarrow> False))
        (map_values (ssoConfigs s)))"

definition findOrgSsoConfigByDomain :: "'a sso_store_scheme \<Rightarrow> string \<Rightarrow> sso_config option" where
  "findOrgSsoConfigByDomain s domain =
     (let d = js_lower (js_trim domain) in
      if d = [] then None else find (\<lambda>r. so_enabled r \<and> d \<in> set (so_verifiedDomains r)) (map_values (ssoConfigs s)))"


section \<open>The SCIM queue\<close>




definition put_scim :: "scim_event \<Rightarrow> 'a sso_store_scheme \<Rightarrow> 'a sso_store_scheme" where
  "put_scim ev s = s\<lparr> scimEvents := map_set (sc_eventId ev) ev (scimEvents s) \<rparr>"




definition claimed_scim :: "iso \<Rightarrow> scim_event \<Rightarrow> scim_event" where
  "claimed_scim now ev = ev\<lparr> sc_status := ScProcessing, sc_attempts := sc_attempts ev + 1, sc_updatedAt := now \<rparr>"






definition listScimSyncEvents :: "env \<Rightarrow> 'a sso_store_scheme \<Rightarrow> string \<Rightarrow> scim_status option \<Rightarrow> jsnum option \<Rightarrow> scim_event list" where
  "listScimSyncEvents e s orgId status limit =
     js_slice (js_sort (cmp_then (cmp_rev (cmp_by sc_createdAt cmp_int)) (cmp_by sc_eventId (locale_compare e)))
       (filter (\<lambda>ev. sc_orgId ev = orgId \<and> (case status of Some st \<Rightarrow> sc_status ev = st | None \<Rightarrow> True)) (map_values (scimEvents s))))
       (js_max 1 (js_min 500 (js_floor (coalesce limit (JInt 100)))))"

section \<open>Attempts are bounded\<close>




definition handed_out :: "string \<Rightarrow> scim_event list \<Rightarrow> int" where
  "handed_out i hs = int (length (filter (\<lambda>h. sc_eventId h = i) hs))"

lemma handed_out_append [simp]: "handed_out i (hs @ evs) = handed_out i hs + handed_out i evs" "handed_out i [] = 0"
  by (simp_all add: handed_out_def)

lemma put_scim_events [simp]: "scimEvents (put_scim ev s) = map_set (sc_eventId ev) ev (scimEvents s)"
  by (simp add: put_scim_def)

lemma fold_put_scim [simp]: "scimEvents (fold put_scim evs s) = fold (\<lambda>ev. map_set (sc_eventId ev) ev) evs (scimEvents s)"
  by (induction evs arbitrary: s) simp_all





lemma claimed_scim_id [simp]: "sc_eventId (claimed_scim now ev) = sc_eventId ev"
  by (simp add: claimed_scim_def)





















end
