(* ===== verification/Org_Records.thy ===== *)
theory Org_Records
  imports Audited_Writes Workflow_Steps
begin

text \<open>
  Records of an organisation: custom roles (\<open>in-memory-domains/roles.ts\<close>), the managed policy
  (\<open>policy.ts\<close>, \<open>control-plane-policy.ts\<close>), settings (\<open>settings.ts\<close>), the billing subscription with its two
  provider indexes (\<open>billing.ts\<close>) and usage events (\<open>usage-events.ts\<close>).
\<close>


section \<open>State\<close>

datatype ceiling = CeilAllow | CeilAsk | CeilDeny
datatype key_management = KmAny | KmByokRequired | KmOrgManagedRequired

record extension_classes =
  xc_customProviders :: bool
  xc_customMcps :: bool
  xc_customSkills :: bool

record managed_policy =
  mp_allowedProviders :: "string list option"
  mp_deniedProviders :: "string list"
  mp_allowedModels :: "string list option"
  mp_deniedModels :: "string list"
  mp_keyManagement :: key_management
  mp_extensions :: extension_classes
  mp_features :: "(string \<times> bool) list"
  mp_permissionCeilings :: "ceiling jsmap"
  mp_updateChannel :: "string option"

record policy_record =
  pr_orgId :: string
  pr_policy :: managed_policy
  pr_createdAt :: iso
  pr_updatedAt :: iso

record setting_record =
  sm_tenantId :: string
  sm_userId :: "string option"
  sm_key :: string
  sm_value :: json
  sm_updatedAt :: iso

datatype billing_status = BTrialing | BActive | BPastDue | BCanceled | BIncomplete

record billing_subscription =
  bs_orgId :: string
  bs_planKey :: string
  bs_providerId :: string
  bs_providerCustomerId :: "string option"
  bs_providerSubscriptionId :: "string option"
  bs_status :: billing_status
  bs_seats :: int
  bs_entitlements :: json
  bs_currentPeriodEnd :: "iso option"
  bs_cancelAtPeriodEnd :: bool
  bs_metadata :: json
  bs_createdAt :: iso
  bs_updatedAt :: iso

record usage_event =
  ue_eventId :: string
  ue_orgId :: string
  ue_accountId :: "string option"
  ue_eventType :: string
  ue_quantity :: int
  ue_unit :: string
  ue_metadata :: json
  ue_createdAt :: iso

record org_store = identity_store +
  customRoles :: "custom_role jsmap"
  policies :: "policy_record jsmap"
  settings :: "setting_record jsmap"
  billingSubscriptions :: "billing_subscription jsmap"
  billingByProviderSubscription :: "string jsmap"
  billingByProviderCustomer :: "string jsmap"
  usageEvents :: "usage_event jsmap"


section \<open>Custom roles\<close>

record create_role_input =
  rc_orgId :: string
  rc_roleKey :: string
  rc_name :: string
  rc_description :: "string option"
  rc_baseRole :: "role option"
  rc_permissions :: "string list"
  rc_createdAt :: "iso option"
  rc_actor :: "audit_actor option"

text \<open>A name, base role or permission list that is undefined or null is \<open>None\<close>; of the description \<open>Some None\<close> is null.\<close>

record update_role_input =
  ru_orgId :: string
  ru_roleKey :: string
  ru_name :: "string option"
  ru_description :: "string option option"
  ru_baseRole :: "role option"
  ru_permissions :: "string list option"
  ru_updatedAt :: "iso option"
  ru_actor :: "audit_actor option"

definition normalizeBaseRole :: "role option \<Rightarrow> role" where
  "normalizeBaseRole r = coalesce r Member"

definition role_meta :: "custom_role \<Rightarrow> (string \<times> json) list" where
  "role_meta r = [(''name'', JStr (cr_name r)), (''baseRole'', JStr (role_text (cr_baseRole r))), (''permissions'', JArr (map JStr (cr_permissions r)))]"

definition put_role :: "string \<Rightarrow> custom_role \<Rightarrow> 'a org_store_scheme \<Rightarrow> 'a org_store_scheme" where
  "put_role k r s = s\<lparr> customRoles := map_set k r (customRoles s) \<rparr>"

definition createCustomRole :: "env \<Rightarrow> create_role_input \<Rightarrow> 'a org_store_scheme \<Rightarrow> ('a org_store_scheme, custom_role) outcome" where
  "createCustomRole e inp s =
     try_in s (requireOrg s (rc_orgId inp)) (\<lambda>_.
     try_in s (normalizeCustomRoleKey (Some (rc_roleKey inp))) (\<lambda>roleKey.
       let roleMapKey = key [rc_orgId inp, roleKey]; now = nowIso e (rc_createdAt inp) in
       if map_has (customRoles s) roleMapKey then (Inl (Error (''Custom role '' @ roleKey @ '' already exists.'')), s)
       else
       try_in s (normalizeText (Some (rc_name inp)) 96 ''Custom role name'') (\<lambda>name.
       try_in s (normalizeNullableText (rc_description inp) 512 ''Custom role description'') (\<lambda>description.
       try_in s (normalizeControlPlanePermissions (Some (rc_permissions inp)) ''Role permissions'') (\<lambda>permissions.
         let r = \<lparr> cr_orgId = rc_orgId inp, cr_roleKey = roleKey, cr_name = name, cr_description = description,
               cr_baseRole = normalizeBaseRole (rc_baseRole inp), cr_permissions = permissions, cr_createdAt = now, cr_updatedAt = now \<rparr>
         in audited e (actor_audit (rc_orgId inp) (or_null (Option.bind (rc_actor inp) aa_accountId)) (rc_actor inp) ''custom_role.created''
              ''custom_role'' roleKey (role_meta r) (rc_createdAt inp)) r (put_role roleMapKey r s))))))"

definition listCustomRoles :: "env \<Rightarrow> 'a org_store_scheme \<Rightarrow> string \<Rightarrow> custom_role list" where
  "listCustomRoles e s orgId = js_sort (cmp_by cr_roleKey (locale_compare e)) (filter (\<lambda>r. cr_orgId r = orgId) (map_values (customRoles s)))"

definition getCustomRole :: "'a org_store_scheme \<Rightarrow> string \<Rightarrow> string \<Rightarrow> custom_role option" where
  "getCustomRole s orgId roleKey =
     (case map_get (customRoles s) (key [orgId, roleKey]) of Some r \<Rightarrow> (if cr_orgId r = orgId then Some r else None) | None \<Rightarrow> None)"

record member_resolution =
  mx_orgId :: string
  mx_accountId :: string
  mx_role :: role
  mx_customRoleKey :: "string option"
  mx_permissions :: "permission list"

text \<open>The permissions of a member: of its custom role when one is assigned and still exists, else of its built-in role.\<close>

definition resolveMemberPermissions :: "'a org_store_scheme \<Rightarrow> string \<Rightarrow> string \<Rightarrow> member_resolution option" where
  "resolveMemberPermissions s orgId accountId =
     (case find (\<lambda>m. mb_orgId m = orgId) (listMembershipsForAccount s accountId) of
        None \<Rightarrow> None
      | Some m \<Rightarrow>
          let customRole = (case or_null (mb_customRoleKey m) of Some k \<Rightarrow> getCustomRole s orgId k | None \<Rightarrow> None)
          in Some \<lparr> mx_orgId = orgId, mx_accountId = accountId, mx_role = mb_role m,
                    mx_customRoleKey = (if customRole = None then None else mb_customRoleKey m),
                    mx_permissions = resolveEffectivePermissions (mb_role m) customRole \<rparr>)"

text \<open>Each field is written as soon as it is validated.\<close>

definition updateCustomRole :: "env \<Rightarrow> update_role_input \<Rightarrow> 'a org_store_scheme \<Rightarrow> ('a org_store_scheme, custom_role option) outcome" where
  "updateCustomRole e inp s =
     (case getCustomRole s (ru_orgId inp) (ru_roleKey inp) of
        None \<Rightarrow> (Inr None, s)
      | Some r0 \<Rightarrow>
          let put = put_role (key [ru_orgId inp, ru_roleKey inp]) in
          try_in s (case ru_name inp of None \<Rightarrow> Inr (cr_name r0) | Some v \<Rightarrow> normalizeText (Some v) 96 ''Custom role name'') (\<lambda>name.
          let r1 = r0\<lparr> cr_name := name \<rparr>; s1 = put r1 s in
          try_in s1 (case ru_description inp of None \<Rightarrow> Inr (cr_description r0) | Some v \<Rightarrow> normalizeNullableText v 512 ''Custom role description'') (\<lambda>description.
          let r2 = r1\<lparr> cr_description := description, cr_baseRole := (case ru_baseRole inp of None \<Rightarrow> cr_baseRole r0 | Some b \<Rightarrow> normalizeBaseRole (Some b)) \<rparr>;
              s2 = put r2 s1 in
          try_in s2 (case ru_permissions inp of None \<Rightarrow> Inr (cr_permissions r0)
                     | Some ps \<Rightarrow> normalizeControlPlanePermissions (Some ps) ''Role permissions'') (\<lambda>permissions.
          let r3 = r2\<lparr> cr_permissions := permissions, cr_updatedAt := nowIso e (ru_updatedAt inp) \<rparr>
          in audited e (actor_audit (ru_orgId inp) (or_null (Option.bind (ru_actor inp) aa_accountId)) (ru_actor inp) ''custom_role.updated''
               ''custom_role'' (cr_roleKey r3) (role_meta r3) (ru_updatedAt inp)) (Some r3) (put r3 s2)))))"

definition deleteCustomRole :: "env \<Rightarrow> string \<Rightarrow> string \<Rightarrow> 'a org_store_scheme \<Rightarrow> ('a org_store_scheme, bool) outcome" where
  "deleteCustomRole e orgId roleKey s =
     (case getCustomRole s orgId roleKey of
        None \<Rightarrow> (Inr False, s)
      | Some _ \<Rightarrow> audited e (system_audit orgId None ''custom_role.delete'' ''custom_role.deleted'' ''custom_role'' roleKey [] None) True
          (s\<lparr> customRoles := map_delete (key [orgId, roleKey]) (customRoles s) \<rparr>))"


section \<open>Managed policy\<close>

record set_policy_input =
  ps_orgId :: string
  ps_allowedProviders :: "string list option option"
  ps_deniedProviders :: "string list option"
  ps_allowedModels :: "string list option option"
  ps_deniedModels :: "string list option"
  ps_keyManagement :: "string option"
  ps_customProviders :: "json option"
  ps_customMcps :: "json option"
  ps_customSkills :: "json option"
  ps_features :: "(string \<times> json) list option"
  ps_permissionCeilings :: "(string \<times> json) list option"
  ps_updateChannel :: "string option option"
  ps_updatedAt :: "iso option"
  ps_actor :: "audit_actor option"

definition MANAGED_POLICY_PERMISSION_DIMENSIONS :: "string list" where
  "MANAGED_POLICY_PERMISSION_DIMENSIONS = [''bash'', ''fileWrite'', ''web'', ''webSearch'', ''task'', ''mcp'', ''externalDirectory'']"

definition defaultCeilings :: "ceiling jsmap" where
  "defaultCeilings = map (\<lambda>d. (d, CeilAllow)) MANAGED_POLICY_PERMISSION_DIMENSIONS"

definition DEFAULT_MANAGED_POLICY :: managed_policy where
  "DEFAULT_MANAGED_POLICY = \<lparr> mp_allowedProviders = None, mp_deniedProviders = [], mp_allowedModels = None, mp_deniedModels = [], mp_keyManagement = KmAny,
     mp_extensions = \<lparr> xc_customProviders = True, xc_customMcps = True, xc_customSkills = True \<rparr>, mp_features = [],
     mp_permissionCeilings = defaultCeilings, mp_updateChannel = None \<rparr>"

definition normalizeCeiling :: "json \<Rightarrow> string \<Rightarrow> error + ceiling" where
  "normalizeCeiling value label =
     (case value of
        JStr t \<Rightarrow> (if t = ''allow'' then Inr CeilAllow else if t = ''ask'' then Inr CeilAsk else if t = ''deny'' then Inr CeilDeny
                  else Inl (Error (label @ '' must be one of \"allow\", \"ask\" or \"deny\".'')))
      | _ \<Rightarrow> Inl (Error (label @ '' must be one of \"allow\", \"ask\" or \"deny\".'')))"

definition normalizeKeyManagement :: "string \<Rightarrow> error + key_management" where
  "normalizeKeyManagement value =
     (let t = js_trim value in
      if t = ''any'' then Inr KmAny else if t = ''byok_required'' then Inr KmByokRequired
      else if t = ''org_managed_required'' then Inr KmOrgManagedRequired
      else Inl (Error ''Policy keyManagement must be one of any, byok_required, org_managed_required.''))"

fun policy_ids :: "string \<Rightarrow> string list \<Rightarrow> string list \<Rightarrow> error + string list" where
  "policy_ids label seen [] = Inr seen"
| "policy_ids label seen (v # vs) =
     (let t = js_trim v in
      if t = [] then policy_ids label seen vs
      else if length t > 200 then Inl (Error (label @ '' entry is too long.''))
      else let seen' = (if t \<in> set seen then seen else seen @ [t]) in
        if length seen' > 500 then Inl (Error (label @ '' has too many entries.'')) else policy_ids label seen' vs)"

definition normalizePolicyIdList :: "string list \<Rightarrow> string \<Rightarrow> error + string list" where
  "normalizePolicyIdList values label = try_pure (policy_ids label [] values) (\<lambda>seen. Inr (js_sort cmp_code_units seen))"

definition normalizeAllowList :: "string list option \<Rightarrow> string \<Rightarrow> error + string list option" where
  "normalizeAllowList value label = (case value of None \<Rightarrow> Inr None | Some vs \<Rightarrow> try_pure (normalizePolicyIdList vs label) (\<lambda>xs. Inr (Some xs)))"

definition extension_flag :: "json option \<Rightarrow> bool \<Rightarrow> string \<Rightarrow> error + bool" where
  "extension_flag v old name = (case v of None \<Rightarrow> Inr old | Some (JBool b) \<Rightarrow> Inr b
     | Some _ \<Rightarrow> Inl (Error (''Policy extensions.'' @ name @ '' must be a boolean.'')))"

definition normalizeExtensions :: "extension_classes \<Rightarrow> set_policy_input \<Rightarrow> error + extension_classes" where
  "normalizeExtensions existing inp =
     try_pure (extension_flag (ps_customProviders inp) (xc_customProviders existing) ''customProviders'') (\<lambda>p.
     try_pure (extension_flag (ps_customMcps inp) (xc_customMcps existing) ''customMcps'') (\<lambda>m.
     try_pure (extension_flag (ps_customSkills inp) (xc_customSkills existing) ''customSkills'') (\<lambda>k.
       Inr \<lparr> xc_customProviders = p, xc_customMcps = m, xc_customSkills = k \<rparr>)))"

definition ascii_letter :: "char \<Rightarrow> bool" where
  "ascii_letter c = (let n = (of_char c :: nat) in (65 \<le> n \<and> n \<le> 90) \<or> (97 \<le> n \<and> n \<le> 122))"

text \<open>\<open>/^[a-zA-Z][a-zA-Z0-9_-]{0,63}$/\<close>\<close>

definition FEATURE_KEY_PATTERN :: "string \<Rightarrow> bool" where
  "FEATURE_KEY_PATTERN k = (k \<noteq> [] \<and> ascii_letter (hd k) \<and> length k \<le> 64
     \<and> list_all (\<lambda>c. ascii_letter c \<or> (48 \<le> (of_char c :: nat) \<and> (of_char c :: nat) \<le> 57) \<or> c = CHR ''_'' \<or> c = CHR ''-'') k)"

fun normalizeFeatures :: "(string \<times> json) list \<Rightarrow> error + (string \<times> bool) list" where
  "normalizeFeatures [] = Inr []"
| "normalizeFeatures ((k, raw) # kvs) =
     (if \<not> FEATURE_KEY_PATTERN k then Inl (Error (''Policy feature key \"'' @ k @ ''\" is invalid.''))
      else case raw of JBool b \<Rightarrow> try_pure (normalizeFeatures kvs) (\<lambda>fs. Inr ((k, b) # fs))
           | _ \<Rightarrow> Inl (Error (''Policy feature \"'' @ k @ ''\" must be a boolean.'')))"

fun normalizeCeilings :: "ceiling jsmap \<Rightarrow> (string \<times> json) list \<Rightarrow> error + ceiling jsmap" where
  "normalizeCeilings existing [] = Inr existing"
| "normalizeCeilings existing ((d, v) # kvs) =
     (if d \<notin> set MANAGED_POLICY_PERMISSION_DIMENSIONS
      then Inl (Error (''Policy permission ceiling \"'' @ d @ ''\" is not a known permission dimension.''))
      else try_pure (normalizeCeiling v (''Policy ceiling \"'' @ d @ ''\"'')) (\<lambda>c. normalizeCeilings (map_set d c existing) kvs))"

definition normalizeUpdateChannel :: "string option \<Rightarrow> error + string option" where
  "normalizeUpdateChannel value =
     (case value of None \<Rightarrow> Inr None
      | Some v \<Rightarrow> (let t = js_trim v in if t = [] then Inr None else if length t > 64 then Inl (Error ''Policy updateChannel is too long.'') else Inr (Some t)))"

definition set_or_keep :: "'v option \<Rightarrow> 'w \<Rightarrow> ('v \<Rightarrow> error + 'w) \<Rightarrow> error + 'w" where
  "set_or_keep v old f = (case v of None \<Rightarrow> Inr old | Some x \<Rightarrow> f x)"

definition applyManagedPolicyInput :: "managed_policy \<Rightarrow> set_policy_input \<Rightarrow> error + managed_policy" where
  "applyManagedPolicyInput base inp =
     try_pure (set_or_keep (ps_allowedProviders inp) (mp_allowedProviders base) (\<lambda>v. normalizeAllowList v ''allowedProviders'')) (\<lambda>allowedProviders.
     try_pure (set_or_keep (ps_deniedProviders inp) (mp_deniedProviders base) (\<lambda>v. normalizePolicyIdList v ''deniedProviders'')) (\<lambda>deniedProviders.
     try_pure (set_or_keep (ps_allowedModels inp) (mp_allowedModels base) (\<lambda>v. normalizeAllowList v ''allowedModels'')) (\<lambda>allowedModels.
     try_pure (set_or_keep (ps_deniedModels inp) (mp_deniedModels base) (\<lambda>v. normalizePolicyIdList v ''deniedModels'')) (\<lambda>deniedModels.
     try_pure (set_or_keep (ps_keyManagement inp) (mp_keyManagement base) normalizeKeyManagement) (\<lambda>keyManagement.
     try_pure (normalizeExtensions (mp_extensions base) inp) (\<lambda>extensions.
     try_pure (set_or_keep (ps_features inp) (mp_features base) normalizeFeatures) (\<lambda>features.
     try_pure (set_or_keep (ps_permissionCeilings inp) (mp_permissionCeilings base) (normalizeCeilings (mp_permissionCeilings base))) (\<lambda>permissionCeilings.
     try_pure (set_or_keep (ps_updateChannel inp) (mp_updateChannel base) normalizeUpdateChannel) (\<lambda>updateChannel.
       Inr \<lparr> mp_allowedProviders = allowedProviders, mp_deniedProviders = deniedProviders, mp_allowedModels = allowedModels, mp_deniedModels = deniedModels,
             mp_keyManagement = keyManagement, mp_extensions = extensions, mp_features = features, mp_permissionCeilings = permissionCeilings,
             mp_updateChannel = updateChannel \<rparr>)))))))))"

definition effectiveManagedPolicy :: "policy_record option \<Rightarrow> managed_policy" where
  "effectiveManagedPolicy r = (case r of None \<Rightarrow> DEFAULT_MANAGED_POLICY | Some p \<Rightarrow> pr_policy p)"

text \<open>The marked control ids in the order they are marked; every mark carries the same reason.\<close>

definition managedPolicyDisabledControls :: "managed_policy \<Rightarrow> string list" where
  "managedPolicyDisabledControls p =
     filter (\<lambda>d. map_get (mp_permissionCeilings p) d \<noteq> Some CeilAllow) MANAGED_POLICY_PERMISSION_DIMENSIONS
     @ (if mp_allowedProviders p \<noteq> None \<or> mp_deniedProviders p \<noteq> [] then [''providers''] else [])
     @ (if mp_allowedModels p \<noteq> None \<or> mp_deniedModels p \<noteq> [] then [''models''] else [])
     @ (if \<not> xc_customProviders (mp_extensions p) then [''customProviders''] else [])
     @ (if \<not> xc_customMcps (mp_extensions p) then [''customMcps''] else [])
     @ (if \<not> xc_customSkills (mp_extensions p) then [''customSkills''] else [])
     @ (if mp_keyManagement p \<noteq> KmAny then [''keyManagement''] else [])
     @ (if mp_updateChannel p \<noteq> None then [''updateChannel''] else [])"

definition toManagedDesktopPolicyView :: "policy_record option \<Rightarrow> managed_policy \<times> string list" where
  "toManagedDesktopPolicyView r = (let p = effectiveManagedPolicy r in (p, managedPolicyDisabledControls p))"

definition getManagedPolicy :: "'a org_store_scheme \<Rightarrow> string \<Rightarrow> policy_record option" where
  "getManagedPolicy s orgId = map_get (policies s) orgId"

definition ceiling_text :: "ceiling \<Rightarrow> string" where
  "ceiling_text c = (case c of CeilAllow \<Rightarrow> ''allow'' | CeilAsk \<Rightarrow> ''ask'' | CeilDeny \<Rightarrow> ''deny'')"

definition key_management_text :: "key_management \<Rightarrow> string" where
  "key_management_text k = (case k of KmAny \<Rightarrow> ''any'' | KmByokRequired \<Rightarrow> ''byok_required'' | KmOrgManagedRequired \<Rightarrow> ''org_managed_required'')"

definition json_list :: "string list option \<Rightarrow> json" where
  "json_list v = (case v of None \<Rightarrow> JNull | Some xs \<Rightarrow> JArr (map JStr xs))"

definition policy_meta :: "managed_policy \<Rightarrow> (string \<times> json) list" where
  "policy_meta p =
     [(''keyManagement'', JStr (key_management_text (mp_keyManagement p))),
      (''permissionCeilings'', JObj (map (\<lambda>(d, c). (d, JStr (ceiling_text c))) (mp_permissionCeilings p))),
      (''extensions'', JObj [(''customProviders'', JBool (xc_customProviders (mp_extensions p))), (''customMcps'', JBool (xc_customMcps (mp_extensions p))),
         (''customSkills'', JBool (xc_customSkills (mp_extensions p)))]),
      (''allowedProviders'', json_list (mp_allowedProviders p)), (''deniedProviders'', json_list (Some (mp_deniedProviders p))),
      (''allowedModels'', json_list (mp_allowedModels p)), (''deniedModels'', json_list (Some (mp_deniedModels p))),
      (''features'', JObj (map (\<lambda>(k, b). (k, JBool b)) (mp_features p))), (''updateChannel'', json_opt (mp_updateChannel p))]"

definition setManagedPolicy :: "env \<Rightarrow> set_policy_input \<Rightarrow> 'a org_store_scheme \<Rightarrow> ('a org_store_scheme, policy_record) outcome" where
  "setManagedPolicy e inp s =
     try_in s (requireOrg s (ps_orgId inp)) (\<lambda>_.
       let existing = map_get (policies s) (ps_orgId inp) in
       try_in s (applyManagedPolicyInput (effectiveManagedPolicy existing) inp) (\<lambda>p.
         let now = nowIso e (ps_updatedAt inp);
             r = \<lparr> pr_orgId = ps_orgId inp, pr_policy = p, pr_createdAt = (case existing of Some x \<Rightarrow> pr_createdAt x | None \<Rightarrow> now), pr_updatedAt = now \<rparr>
         in audited e (actor_audit (ps_orgId inp) (or_null (Option.bind (ps_actor inp) aa_accountId)) (ps_actor inp) ''managed_policy.updated''
              ''managed_policy'' (ps_orgId inp) (policy_meta p) (ps_updatedAt inp)) r (s\<lparr> policies := map_set (ps_orgId inp) r (policies s) \<rparr>)))"

section \<open>Settings\<close>

record set_setting_input =
  sx_tenantId :: string
  sx_userId :: "string option"
  sx_key :: string
  sx_value :: json
  sx_updatedAt :: "iso option"

definition setting_user :: "'a identity_store_scheme \<Rightarrow> string \<Rightarrow> string option \<Rightarrow> error + unit" where
  "setting_user s tenantId userId =
     try_pure (requireTenant s tenantId) (\<lambda>_.
       case or_null userId of Some u \<Rightarrow> try_pure (requireTenantUser s tenantId u) (\<lambda>_. Inr ()) | None \<Rightarrow> Inr ())"

definition setSettingMetadata :: "env \<Rightarrow> set_setting_input \<Rightarrow> 'a org_store_scheme \<Rightarrow> ('a org_store_scheme, setting_record) outcome" where
  "setSettingMetadata e inp s =
     try_in s (setting_user s (sx_tenantId inp) (sx_userId inp)) (\<lambda>_.
       let r = \<lparr> sm_tenantId = sx_tenantId inp, sm_userId = or_null (sx_userId inp), sm_key = sx_key inp, sm_value = sx_value inp,
             sm_updatedAt = nowIso e (sx_updatedAt inp) \<rparr>
       in (Inr r, s\<lparr> settings := map_set (key [sx_tenantId inp, or_else (sx_userId inp) [], sx_key inp]) r (settings s) \<rparr>))"

definition getSettingMetadata :: "'a org_store_scheme \<Rightarrow> string \<Rightarrow> string \<Rightarrow> string option \<Rightarrow> error + setting_record option" where
  "getSettingMetadata s tenantId keyName userId =
     try_pure (requireTenant s tenantId) (\<lambda>_. Inr (map_get (settings s) (key [tenantId, or_else userId [], keyName])))"

definition listSettingMetadata :: "env \<Rightarrow> 'a org_store_scheme \<Rightarrow> string \<Rightarrow> string option \<Rightarrow> error + setting_record list" where
  "listSettingMetadata e s tenantId userId =
     try_pure (setting_user s tenantId userId) (\<lambda>_.
       Inr (js_sort (cmp_by sm_key (locale_compare e)) (filter (\<lambda>r. sm_tenantId r = tenantId \<and> sm_userId r = or_null userId) (map_values (settings s)))))"


section \<open>Billing\<close>

record upsert_billing_input =
  bi_orgId :: string
  bi_planKey :: "string option"
  bi_providerId :: string
  bi_providerCustomerId :: "string option"
  bi_providerSubscriptionId :: "string option"
  bi_status :: "string option"
  bi_seats :: "jsnum option"
  bi_entitlements :: "json option"
  bi_currentPeriodEnd :: "iso option"
  bi_cancelAtPeriodEnd :: "bool option"
  bi_metadata :: "json option"
  bi_updatedAt :: "iso option"

definition billing_status_text :: "billing_status \<Rightarrow> string" where
  "billing_status_text st = (case st of BTrialing \<Rightarrow> ''trialing'' | BActive \<Rightarrow> ''active'' | BPastDue \<Rightarrow> ''past_due'' | BCanceled \<Rightarrow> ''canceled''
     | BIncomplete \<Rightarrow> ''incomplete'')"

definition normalizeBillingStatus :: "string option \<Rightarrow> error + billing_status" where
  "normalizeBillingStatus value =
     try_pure (normalizeText (Some (or_else value ''incomplete'')) 32 ''Billing subscription status'') (\<lambda>t.
       Inr (if t = ''trialing'' then BTrialing else if t = ''active'' then BActive else if t = ''past_due'' then BPastDue
            else if t = ''canceled'' then BCanceled else BIncomplete))"

definition billingProviderKey :: "string \<Rightarrow> string option \<Rightarrow> error + string" where
  "billingProviderKey providerId recordId =
     try_pure (normalizeText (Some providerId) 256 ''Billing provider id'') (\<lambda>p. Inr (key [p, or_else recordId []]))"

text \<open>\<open>input.seats || existing?.seats || 1\<close>.\<close>

definition billing_seats :: "jsnum option \<Rightarrow> billing_subscription option \<Rightarrow> jsnum" where
  "billing_seats seats existing =
     (case seats of
        Some v \<Rightarrow> if js_truthy v then v else (case existing of Some x \<Rightarrow> (if bs_seats x \<noteq> 0 then JInt (bs_seats x) else JInt 1) | None \<Rightarrow> JInt 1)
      | None \<Rightarrow> (case existing of Some x \<Rightarrow> (if bs_seats x \<noteq> 0 then JInt (bs_seats x) else JInt 1) | None \<Rightarrow> JInt 1))"

definition new_subscription :: "env \<Rightarrow> upsert_billing_input \<Rightarrow> billing_subscription option \<Rightarrow> error + billing_subscription" where
  "new_subscription e inp existing =
     (let now = nowIso e (bi_updatedAt inp) in
      try_pure (normalizeText (Some (bi_providerId inp)) 256 ''Billing provider id'') (\<lambda>providerId.
      try_pure (normalizeNullableText (bi_providerCustomerId inp) 256 ''Billing provider customer id'') (\<lambda>customerId.
      try_pure (normalizeNullableText (bi_providerSubscriptionId inp) 256 ''Billing provider subscription id'') (\<lambda>subscriptionId.
      try_pure (normalizeText (first_some (or_null (bi_planKey inp)) (map_option bs_planKey existing)) 256 ''Billing plan key'') (\<lambda>planKey.
      try_pure (normalizeBillingStatus (bi_status inp)) (\<lambda>status.
      try_pure (normalizePositiveInteger (Some (billing_seats (bi_seats inp) existing)) ''Billing seats'') (\<lambda>seats.
      try_pure (normalizeRecord e (bi_entitlements inp) ''Billing entitlements'' 16384) (\<lambda>entitlements.
      try_pure (normalizeRecord e (bi_metadata inp) ''Billing metadata'' 16384) (\<lambda>metadata.
        Inr \<lparr> bs_orgId = bi_orgId inp, bs_planKey = planKey, bs_providerId = providerId, bs_providerCustomerId = customerId,
              bs_providerSubscriptionId = subscriptionId, bs_status = status, bs_seats = seats, bs_entitlements = entitlements,
              bs_currentPeriodEnd = bi_currentPeriodEnd inp,
              bs_cancelAtPeriodEnd = (case bi_cancelAtPeriodEnd inp of Some b \<Rightarrow> b | None \<Rightarrow> (case existing of Some x \<Rightarrow> bs_cancelAtPeriodEnd x | None \<Rightarrow> False)),
              bs_metadata = redactAuditMetadata e (Some metadata), bs_createdAt = (case existing of Some x \<Rightarrow> bs_createdAt x | None \<Rightarrow> now),
              bs_updatedAt = now \<rparr>)))))))))"

text \<open>Removal of an index entry of a record, and its entry, when the record has the id.\<close>

definition drop_index :: "string jsmap \<Rightarrow> string \<Rightarrow> string option \<Rightarrow> error + string jsmap" where
  "drop_index ix providerId recordId =
     (case or_null recordId of Some x \<Rightarrow> try_pure (billingProviderKey providerId (Some x)) (\<lambda>k. Inr (map_delete k ix)) | None \<Rightarrow> Inr ix)"

definition add_index :: "string jsmap \<Rightarrow> string \<Rightarrow> string option \<Rightarrow> string \<Rightarrow> error + string jsmap" where
  "add_index ix providerId recordId orgId =
     (case or_null recordId of Some x \<Rightarrow> try_pure (billingProviderKey providerId (Some x)) (\<lambda>k. Inr (map_set k orgId ix)) | None \<Rightarrow> Inr ix)"

definition billing_meta :: "env \<Rightarrow> upsert_billing_input \<Rightarrow> billing_subscription option \<Rightarrow> billing_subscription \<Rightarrow> (string \<times> json) list" where
  "billing_meta e inp existing r =
     [(''providerId'', JStr (bs_providerId r)), (''previousPlanKey'', json_opt (or_null (map_option bs_planKey existing))),
      (''previousStatus'', json_opt (map_option (\<lambda>x. billing_status_text (bs_status x)) existing)),
      (''previousEntitlementsHash'', json_opt (map_option (\<lambda>x. stableJson (locale_compare e) (bs_entitlements x)) existing)),
      (''planKey'', JStr (bs_planKey r)), (''status'', JStr (billing_status_text (bs_status r))),
      (''entitlementsHash'', JStr (stableJson (locale_compare e) (bs_entitlements r))), (''seats'', JNum (show_int (bs_seats r))),
      (''providerCustomerId'', json_opt (bs_providerCustomerId r)), (''providerSubscriptionId'', json_opt (bs_providerSubscriptionId r)),
      (''providerEventId'', first_truthy [json_field (coalesce (bi_metadata inp) JNull) ''stripeEventId'',
         json_field (coalesce (bi_metadata inp) JNull) ''eventId'', JNull])]"

text \<open>The indexes of the previous record are dropped, the record is written, its indexes are added; each key is
  computed, and may throw, only when it is used.\<close>

definition upsertBillingSubscription ::
  "env \<Rightarrow> upsert_billing_input \<Rightarrow> 'a org_store_scheme \<Rightarrow> ('a org_store_scheme, billing_subscription) outcome" where
  "upsertBillingSubscription e inp s =
     try_in s (requireOrg s (bi_orgId inp)) (\<lambda>_.
       let existing = map_get (billingSubscriptions s) (bi_orgId inp) in
       try_in s (new_subscription e inp existing) (\<lambda>r.
       try_in s (case existing of Some x \<Rightarrow> drop_index (billingByProviderSubscription s) (bs_providerId x) (bs_providerSubscriptionId x)
                 | None \<Rightarrow> Inr (billingByProviderSubscription s)) (\<lambda>ixs.
       let s1 = s\<lparr> billingByProviderSubscription := ixs \<rparr> in
       try_in s1 (case existing of Some x \<Rightarrow> drop_index (billingByProviderCustomer s) (bs_providerId x) (bs_providerCustomerId x)
                  | None \<Rightarrow> Inr (billingByProviderCustomer s)) (\<lambda>ixc.
       let s2 = s1\<lparr> billingByProviderCustomer := ixc, billingSubscriptions := map_set (bs_orgId r) r (billingSubscriptions s) \<rparr> in
       try_in s2 (add_index ixs (bs_providerId r) (bs_providerSubscriptionId r) (bs_orgId r)) (\<lambda>ixs'.
       let s3 = s2\<lparr> billingByProviderSubscription := ixs' \<rparr> in
       try_in s3 (add_index ixc (bs_providerId r) (bs_providerCustomerId r) (bs_orgId r)) (\<lambda>ixc'.
       let s4 = s3\<lparr> billingByProviderCustomer := ixc' \<rparr> in
       audited e (system_audit (bs_orgId r) None ''billing.subscription.upsert''
           (if existing = None then ''billing.subscription.created'' else ''billing.subscription.updated'') ''billing_subscription''
           (or_else (bs_providerSubscriptionId r) (bs_orgId r)) (billing_meta e inp existing r) (bi_updatedAt inp)) r s4))))))"

definition getBillingSubscription :: "'a org_store_scheme \<Rightarrow> string \<Rightarrow> billing_subscription option" where
  "getBillingSubscription s orgId = map_get (billingSubscriptions s) orgId"

definition findBillingSubscriptionByProvider ::
  "'a org_store_scheme \<Rightarrow> string \<Rightarrow> string option \<Rightarrow> string option \<Rightarrow> error + billing_subscription option" where
  "findBillingSubscriptionByProvider s providerIn customerId subscriptionId =
     try_pure (normalizeText (Some providerIn) 256 ''Billing provider id'') (\<lambda>providerId.
     try_pure (case or_null subscriptionId of Some x \<Rightarrow> try_pure (billingProviderKey providerId (Some x)) (\<lambda>k. Inr (map_get (billingByProviderSubscription s) k))
               | None \<Rightarrow> Inr None) (\<lambda>bySubscription.
     try_pure (case or_null customerId of Some x \<Rightarrow> try_pure (billingProviderKey providerId (Some x)) (\<lambda>k. Inr (map_get (billingByProviderCustomer s) k))
               | None \<Rightarrow> Inr None) (\<lambda>byCustomer.
       Inr (map_get (billingSubscriptions s) (or_else (or_null bySubscription) (or_else byCustomer []))))))"


section \<open>Usage events\<close>

record record_usage_input =
  uv_eventId :: "string option"
  uv_orgId :: string
  uv_accountId :: "string option"
  uv_eventType :: string
  uv_quantity :: "jsnum option"
  uv_unit :: "string option"
  uv_metadata :: "json option"
  uv_createdAt :: "iso option"

definition recordUsageEvent :: "env \<Rightarrow> record_usage_input \<Rightarrow> 'a org_store_scheme \<Rightarrow> ('a org_store_scheme, usage_event) outcome" where
  "recordUsageEvent e inp s =
     try_in s (requireOrg s (uv_orgId inp)) (\<lambda>_.
       let now = nowIso e (uv_createdAt inp);
           eventId = or_else (uv_eventId inp) (stableId e ''usage'' [uv_orgId inp, uv_eventType inp, show_nat (length (usageEvents s) + 1), iso_text now])
       in case map_get (usageEvents s) eventId of
            Some existing \<Rightarrow> (Inr existing, s)
          | None \<Rightarrow>
              try_in s (normalizePositiveInteger (Some (case uv_quantity inp of Some v \<Rightarrow> (if js_truthy v then v else JInt 1) | None \<Rightarrow> JInt 1)) ''Usage quantity'') (\<lambda>quantity.
                let ev = \<lparr> ue_eventId = eventId, ue_orgId = uv_orgId inp, ue_accountId = or_null (uv_accountId inp), ue_eventType = uv_eventType inp,
                      ue_quantity = quantity, ue_unit = or_else (uv_unit inp) ''count'', ue_metadata = redactAuditMetadata e (uv_metadata inp), ue_createdAt = now \<rparr>
                in (Inr ev, s\<lparr> usageEvents := map_set eventId ev (usageEvents s) \<rparr>)))"

definition listUsageEvents :: "'a org_store_scheme \<Rightarrow> string \<Rightarrow> jsnum \<Rightarrow> error + usage_event list" where
  "listUsageEvents s orgId limit =
     try_pure (requireOrg s orgId) (\<lambda>_.
       Inr (js_slice (js_sort (cmp_rev (cmp_by ue_createdAt cmp_int)) (filter (\<lambda>ev. ue_orgId ev = orgId) (map_values (usageEvents s)))) limit))"

definition pruneStaleUsage :: "iso \<Rightarrow> int \<Rightarrow> 'a org_store_scheme \<Rightarrow> int \<times> 'a org_store_scheme" where
  "pruneStaleUsage cutoff limit s = (let (n, m) = pruneOldestByCreatedAt (usageEvents s) ue_createdAt cutoff limit in (n, s\<lparr> usageEvents := m \<rparr>))"

section \<open>The provider indexes\<close>

definition provider_normal :: "string \<Rightarrow> bool" where
  "provider_normal p = (normalizeText (Some p) 256 ''Billing provider id'' = Inr p)"

text \<open>Every entry of an index names an organisation whose current record carries the indexed id.\<close>

definition index_ok :: "(billing_subscription \<Rightarrow> string option) \<Rightarrow> billing_subscription jsmap \<Rightarrow> string jsmap \<Rightarrow> bool" where
  "index_ok f subs ix = (\<forall>k org. map_get ix k = Some org \<longrightarrow>
     (\<exists>r x. map_get subs org = Some r \<and> f r = Some x \<and> x \<noteq> [] \<and> k = key [bs_providerId r, x]))"

definition subscriptions_ok :: "billing_subscription jsmap \<Rightarrow> bool" where
  "subscriptions_ok subs = (map_get subs [] = None \<and> (\<forall>org r. map_get subs org = Some r \<longrightarrow> bs_orgId r = org \<and> provider_normal (bs_providerId r)))"

definition billing_ok :: "'a org_store_scheme \<Rightarrow> bool" where
  "billing_ok s = (subscriptions_ok (billingSubscriptions s)
     \<and> index_ok bs_providerSubscriptionId (billingSubscriptions s) (billingByProviderSubscription s)
     \<and> index_ok bs_providerCustomerId (billingSubscriptions s) (billingByProviderCustomer s))"

lemma billingProviderKey_normal: "provider_normal p \<Longrightarrow> x \<noteq> [] \<Longrightarrow> billingProviderKey p (Some x) = Inr (key [p, x])"
  by (simp add: billingProviderKey_def provider_normal_def try_pure_def or_else_def or_null_def)

lemma index_okD: "index_ok f subs ix \<Longrightarrow> map_get ix k = Some org \<Longrightarrow>
    \<exists>r x. map_get subs org = Some r \<and> f r = Some x \<and> x \<noteq> [] \<and> k = key [bs_providerId r, x]"
  by (simp add: index_ok_def)

text \<open>Replacing the record of an organisation: its old entry goes, its new entry comes.\<close>

lemma index_replaced:
  assumes ok: "index_ok f subs ix" and sub: "subscriptions_ok subs" and r: "bs_orgId r = org" "provider_normal (bs_providerId r)"
    and drop: "(case map_get subs org of Some x \<Rightarrow> drop_index ix (bs_providerId x) (f x) | None \<Rightarrow> Inr ix) = Inr ix1"
    and add: "add_index ix1 (bs_providerId r) (f r) org = Inr ix2"
  shows "index_ok f (map_set org r subs) ix1 \<and> index_ok f (map_set org r subs) ix2"
proof -
  have gone: "map_get ix k = Some org' \<and> org' \<noteq> org" if k: "map_get ix1 k = Some org'" for k org'
  proof (cases "map_get subs org")
    case None
    then have "ix1 = ix" using drop by simp
    moreover have "org' \<noteq> org" if "map_get ix k = Some org'" using index_okD [OF ok that] None by auto
    ultimately show ?thesis using k by auto
  next
    case (Some x)
    have px: "provider_normal (bs_providerId x)" using sub Some by (simp add: subscriptions_ok_def)
    have own: "f x = Some y \<and> y \<noteq> [] \<and> k' = key [bs_providerId x, y]" if "map_get ix k' = Some org" "f x = Some y" for k' y
      using index_okD [OF ok that(1)] that(2) Some by auto
    show ?thesis
    proof (cases "or_null (f x)")
      case None
      then have "ix1 = ix" using drop Some by (simp add: drop_index_def)
      moreover have "org' \<noteq> org" if "map_get ix k = Some org'" using index_okD [OF ok that] Some None by (auto simp: or_null_def split: if_splits)
      ultimately show ?thesis using k by auto
    next
      case (Some y)
      then have y: "f x = Some y" "y \<noteq> []" by (auto simp: or_null_def split: option.splits if_splits)
      have "ix1 = map_delete (key [bs_providerId x, y]) ix"
        using drop \<open>map_get subs org = Some x\<close> Some billingProviderKey_normal [OF px y(2)] by (simp add: drop_index_def try_pure_def)
      then have "k \<noteq> key [bs_providerId x, y]" "map_get ix k = Some org'" using k by (auto simp: map_get_delete split: if_splits)
      then show ?thesis using own [of k y] y(1) by auto
    qed
  qed
  have ok1: "index_ok f (map_set org r subs) ix1" unfolding index_ok_def
  proof (intro allI impI)
    fix k org' assume "map_get ix1 k = Some org'"
    then show "\<exists>r' x. map_get (map_set org r subs) org' = Some r' \<and> f r' = Some x \<and> x \<noteq> [] \<and> k = key [bs_providerId r', x]"
      using gone [of k org'] ok unfolding index_ok_def by simp
  qed
  moreover have "index_ok f (map_set org r subs) ix2"
  proof (cases "or_null (f r)")
    case None
    then have "ix2 = ix1" using add by (simp add: add_index_def)
    then show ?thesis using ok1 by simp
  next
    case (Some y)
    then have y: "f r = Some y" "y \<noteq> []" by (auto simp: or_null_def split: option.splits if_splits)
    have "ix2 = map_set (key [bs_providerId r, y]) org ix1"
      using add Some billingProviderKey_normal [OF r(2) y(2)] by (simp add: add_index_def try_pure_def)
    then show ?thesis using ok1 y by (auto simp: index_ok_def)
  qed
  ultimately show ?thesis by blast
qed

lemma new_subscription_Inr:
  assumes "new_subscription e inp existing = Inr r"
  shows "bs_orgId r = bi_orgId inp \<and> provider_normal (bs_providerId r) \<and> bs_providerSubscriptionId r \<noteq> Some [] \<and> bs_providerCustomerId r \<noteq> Some []"
  using assms normalizeText_idem normalizeNullableText_Inr [of _ _ _ "[]"] unfolding new_subscription_def Let_def try_pure_def provider_normal_def by (auto split: sum.splits)

lemma add_index_Inr: "provider_normal p \<Longrightarrow> \<exists>ix'. add_index ix p x org = Inr ix'"
  by (cases "or_null x") (auto simp: add_index_def try_pure_def billingProviderKey_def provider_normal_def)

lemma drop_index_Inr: "provider_normal p \<Longrightarrow> \<exists>ix'. drop_index ix p x = Inr ix'"
  by (cases "or_null x") (auto simp: drop_index_def try_pure_def billingProviderKey_def provider_normal_def)

lemma audited_billing:
  fixes s :: "'a org_store_scheme"
  assumes "audited e inp res s = (r, s')"
  shows "billingSubscriptions s' = billingSubscriptions s \<and> billingByProviderSubscription s' = billingByProviderSubscription s
    \<and> billingByProviderCustomer s' = billingByProviderCustomer s"
  by (rule audited_effect [OF assms]) simp

lemma upsert_billing_effect:
  fixes s :: "'a org_store_scheme"
  assumes run: "upsertBillingSubscription e inp s = (x, s')" and ok: "billing_ok s"
  shows "s' = s \<and> (\<exists>er. x = Inl er) \<or> (\<exists>r ixs ixs' ixc ixc'. new_subscription e inp (map_get (billingSubscriptions s) (bi_orgId inp)) = Inr r
    \<and> (case map_get (billingSubscriptions s) (bi_orgId inp) of Some y \<Rightarrow> drop_index (billingByProviderSubscription s) (bs_providerId y) (bs_providerSubscriptionId y)
        | None \<Rightarrow> Inr (billingByProviderSubscription s)) = Inr ixs
    \<and> (case map_get (billingSubscriptions s) (bi_orgId inp) of Some y \<Rightarrow> drop_index (billingByProviderCustomer s) (bs_providerId y) (bs_providerCustomerId y)
        | None \<Rightarrow> Inr (billingByProviderCustomer s)) = Inr ixc
    \<and> add_index ixs (bs_providerId r) (bs_providerSubscriptionId r) (bi_orgId inp) = Inr ixs'
    \<and> add_index ixc (bs_providerId r) (bs_providerCustomerId r) (bi_orgId inp) = Inr ixc'
    \<and> billingSubscriptions s' = map_set (bi_orgId inp) r (billingSubscriptions s) \<and> billingByProviderSubscription s' = ixs'
    \<and> billingByProviderCustomer s' = ixc' \<and> (\<forall>r'. x = Inr r' \<longrightarrow> r' = r))"
proof (cases "requireOrg s (bi_orgId inp)")
  case (Inl er)
  then have "x = Inl er" "s' = s" using run by (simp_all add: upsertBillingSubscription_def try_in_def)
  then show ?thesis by simp
next
  case org: (Inr u)
  let ?old = "map_get (billingSubscriptions s) (bi_orgId inp)"
  show ?thesis
  proof (cases "new_subscription e inp ?old")
    case (Inl er)
    then have "x = Inl er" "s' = s" using run org by (simp_all add: upsertBillingSubscription_def try_in_def Let_def)
    then show ?thesis by simp
  next
    case (Inr r)
    note r = new_subscription_Inr [OF Inr]
    have old: "provider_normal (bs_providerId y)" if "?old = Some y" for y using ok that by (simp add: billing_ok_def subscriptions_ok_def)
    have drops: "\<exists>ix'. (case ?old of Some y \<Rightarrow> drop_index ix (bs_providerId y) (g y) | None \<Rightarrow> Inr ix) = Inr ix'" for ix g
      using drop_index_Inr [OF old] by (cases ?old) simp_all
    obtain ixs where ixs: "(case ?old of Some y \<Rightarrow> drop_index (billingByProviderSubscription s) (bs_providerId y) (bs_providerSubscriptionId y)
        | None \<Rightarrow> Inr (billingByProviderSubscription s)) = Inr ixs" using drops by blast
    obtain ixc where ixc: "(case ?old of Some y \<Rightarrow> drop_index (billingByProviderCustomer s) (bs_providerId y) (bs_providerCustomerId y)
        | None \<Rightarrow> Inr (billingByProviderCustomer s)) = Inr ixc" using drops by blast
    obtain ixs' where ixs': "add_index ixs (bs_providerId r) (bs_providerSubscriptionId r) (bi_orgId inp) = Inr ixs'" using r add_index_Inr by blast
    obtain ixc' where ixc': "add_index ixc (bs_providerId r) (bs_providerCustomerId r) (bi_orgId inp) = Inr ixc'" using r add_index_Inr by blast
    let ?t = "s\<lparr> billingByProviderSubscription := ixs \<rparr>\<lparr> billingByProviderCustomer := ixc, billingSubscriptions := map_set (bi_orgId inp) r (billingSubscriptions s) \<rparr>
      \<lparr> billingByProviderSubscription := ixs' \<rparr>\<lparr> billingByProviderCustomer := ixc' \<rparr>"
    have "\<exists>i. audited e i r ?t = (x, s')"
      using run org Inr ixs ixc ixs' ixc' r by (simp add: upsertBillingSubscription_def try_in_def Let_def) blast
    then obtain i where aud: "audited e i r ?t = (x, s')" by blast
    have "x = Inr r \<or> (\<exists>er. x = Inl er)" by (rule audited_effect [OF aud])
    then show ?thesis using Inr ixs ixc ixs' ixc' audited_billing [OF aud] by auto
  qed
qed

lemma upsert_billing_ok:
  fixes s :: "'a org_store_scheme"
  assumes run: "upsertBillingSubscription e inp s = (x, s')" and ok: "billing_ok s" and ne: "bi_orgId inp \<noteq> []"
  shows "billing_ok s'"
  using upsert_billing_effect [OF run ok]
proof (elim disjE exE conjE)
  fix r ixs ixs' ixc ixc'
  assume new: "new_subscription e inp (map_get (billingSubscriptions s) (bi_orgId inp)) = Inr r"
    and ixs: "(case map_get (billingSubscriptions s) (bi_orgId inp) of
         Some y \<Rightarrow> drop_index (billingByProviderSubscription s) (bs_providerId y) (bs_providerSubscriptionId y)
       | None \<Rightarrow> Inr (billingByProviderSubscription s)) = Inr ixs"
    and ixc: "(case map_get (billingSubscriptions s) (bi_orgId inp) of
         Some y \<Rightarrow> drop_index (billingByProviderCustomer s) (bs_providerId y) (bs_providerCustomerId y)
       | None \<Rightarrow> Inr (billingByProviderCustomer s)) = Inr ixc"
    and add: "add_index ixs (bs_providerId r) (bs_providerSubscriptionId r) (bi_orgId inp) = Inr ixs'"
      "add_index ixc (bs_providerId r) (bs_providerCustomerId r) (bi_orgId inp) = Inr ixc'"
    and s': "billingSubscriptions s' = map_set (bi_orgId inp) r (billingSubscriptions s)" "billingByProviderSubscription s' = ixs'"
      "billingByProviderCustomer s' = ixc'"
  note r = new_subscription_Inr [OF new]
  note oks = ok [unfolded billing_ok_def]
  have "index_ok bs_providerSubscriptionId (map_set (bi_orgId inp) r (billingSubscriptions s)) ixs'"
    using index_replaced [OF _ _ _ _ ixs add(1)] oks r by blast
  moreover have "index_ok bs_providerCustomerId (map_set (bi_orgId inp) r (billingSubscriptions s)) ixc'"
    using index_replaced [OF _ _ _ _ ixc add(2)] oks r by blast
  moreover have "subscriptions_ok (map_set (bi_orgId inp) r (billingSubscriptions s))" using oks r ne by (simp add: subscriptions_ok_def)
  ultimately show ?thesis by (simp add: billing_ok_def s')
qed (use ok in simp)

inductive billing_step :: "'a org_store_scheme \<Rightarrow> 'a org_store_scheme \<Rightarrow> bool" where
  bl_upsert: "upsertBillingSubscription e inp s = (x, s') \<Longrightarrow> bi_orgId inp \<noteq> [] \<Longrightarrow> billing_step s s'"
| bl_other: "billingSubscriptions s' = billingSubscriptions s \<Longrightarrow> billingByProviderSubscription s' = billingByProviderSubscription s
    \<Longrightarrow> billingByProviderCustomer s' = billingByProviderCustomer s \<Longrightarrow> billing_step s s'"

lemma billing_steps_ok: "billing_step\<^sup>*\<^sup>* s s' \<Longrightarrow> billing_ok s \<Longrightarrow> billing_ok s'"
proof (induction rule: rtranclp_induct)
  case (step s1 s2)
  then have "billing_ok s1" by simp
  with step(2) show ?case
  proof (cases rule: billing_step.cases)
    case (bl_upsert e inp x)
    then show ?thesis using upsert_billing_ok \<open>billing_ok s1\<close> by blast
  next
    case bl_other
    then show ?thesis using \<open>billing_ok s1\<close> by (simp add: billing_ok_def)
  qed
qed simp

definition carries :: "string \<Rightarrow> string option \<Rightarrow> string option \<Rightarrow> string \<Rightarrow> bool" where
  "carries p wanted actual providerId = (\<exists>x y. wanted = Some x \<and> actual = Some y \<and> key [p, x] = key [providerId, y])"

lemma find_billing_sound:
  assumes ok: "billing_ok s" and f: "findBillingSubscriptionByProvider s provider customer subscription = Inr (Some r)"
  shows "map_get (billingSubscriptions s) (bs_orgId r) = Some r
    \<and> (carries (js_trim provider) subscription (bs_providerSubscriptionId r) (bs_providerId r)
       \<or> carries (js_trim provider) customer (bs_providerCustomerId r) (bs_providerId r))"
proof -
  obtain p where p: "normalizeText (Some provider) 256 ''Billing provider id'' = Inr p"
    using f by (auto simp: findBillingSubscriptionByProvider_def try_pure_def split: sum.splits)
  have pt: "p = js_trim provider" "provider_normal p"
    using p normalizeText_idem [OF p] by (auto simp: provider_normal_def normalizeText_def split: if_splits)
  define bysub where "bysub = (case or_null subscription of Some x \<Rightarrow> map_get (billingByProviderSubscription s) (key [p, x]) | None \<Rightarrow> None)"
  define bycust where "bycust = (case or_null customer of Some x \<Rightarrow> map_get (billingByProviderCustomer s) (key [p, x]) | None \<Rightarrow> None)"
  have key: "billingProviderKey p (Some x) = Inr (key [p, x])" if "or_null v = Some x" for x v
    using that by (intro billingProviderKey_normal [OF pt(2)]) (auto simp: or_null_def split: option.splits if_splits)
  have r: "map_get (billingSubscriptions s) (or_else (or_null bysub) (or_else bycust [])) = Some r"
    using f p by (auto simp: findBillingSubscriptionByProvider_def try_pure_def bysub_def bycust_def key split: option.splits)
  have org: "map_get (billingSubscriptions s) (bs_orgId r) = Some r" and none: "map_get (billingSubscriptions s) [] = None"
    using ok r by (auto simp: billing_ok_def subscriptions_ok_def)
  have sub: "carries p subscription (bs_providerSubscriptionId r) (bs_providerId r)" if hit: "bysub = Some org" and rec: "map_get (billingSubscriptions s) org = Some r" for org
  proof -
    obtain x where x: "or_null subscription = Some x" "map_get (billingByProviderSubscription s) (key [p, x]) = Some org"
      using hit by (auto simp: bysub_def split: option.splits)
    then show ?thesis using index_okD [of bs_providerSubscriptionId "billingSubscriptions s" "billingByProviderSubscription s" "key [p, x]" org] ok rec
      by (auto simp: carries_def billing_ok_def or_null_def split: option.splits if_splits)
  qed
  have cust: "carries p customer (bs_providerCustomerId r) (bs_providerId r)" if hit: "bycust = Some org" and rec: "map_get (billingSubscriptions s) org = Some r" for org
  proof -
    obtain x where x: "or_null customer = Some x" "map_get (billingByProviderCustomer s) (key [p, x]) = Some org"
      using hit by (auto simp: bycust_def split: option.splits)
    then show ?thesis using index_okD [of bs_providerCustomerId "billingSubscriptions s" "billingByProviderCustomer s" "key [p, x]" org] ok rec
      by (auto simp: carries_def billing_ok_def or_null_def split: option.splits if_splits)
  qed
  have "(\<exists>org. bysub = Some org \<and> map_get (billingSubscriptions s) org = Some r) \<or> (\<exists>org. bycust = Some org \<and> map_get (billingSubscriptions s) org = Some r)"
    using r none by (auto simp: or_else_def or_null_def split: option.splits if_splits)
  then show ?thesis using sub cust org pt(1) by blast
qed

text \<open>Right after an upsert both indexes lead to the record written.\<close>

lemma upserted_found:
  assumes ok: "billing_ok s" and up: "upsertBillingSubscription e inp s = (Inr q, s2)" and ne: "bi_orgId inp \<noteq> []"
  shows "bs_providerSubscriptionId q = Some x \<Longrightarrow> findBillingSubscriptionByProvider s2 (bs_providerId q) customer (Some x) = Inr (Some q)"
    and "bs_providerCustomerId q = Some y \<Longrightarrow> findBillingSubscriptionByProvider s2 (bs_providerId q) (Some y) None = Inr (Some q)"
proof -
  obtain ixs ixs' ixc ixc' where new: "new_subscription e inp (map_get (billingSubscriptions s) (bi_orgId inp)) = Inr q"
      and add: "add_index ixs (bs_providerId q) (bs_providerSubscriptionId q) (bi_orgId inp) = Inr ixs'"
        "add_index ixc (bs_providerId q) (bs_providerCustomerId q) (bi_orgId inp) = Inr ixc'"
      and s2: "billingSubscriptions s2 = map_set (bi_orgId inp) q (billingSubscriptions s)" "billingByProviderSubscription s2 = ixs'"
        "billingByProviderCustomer s2 = ixc'"
    using upsert_billing_effect [OF up ok] by auto
  have q: "provider_normal (bs_providerId q)" and ids: "bs_providerSubscriptionId q \<noteq> Some []" "bs_providerCustomerId q \<noteq> Some []"
    using new_subscription_Inr [OF new] by auto
  note k = billingProviderKey_normal [OF q]
  show "findBillingSubscriptionByProvider s2 (bs_providerId q) customer (Some x) = Inr (Some q)" if x: "bs_providerSubscriptionId q = Some x"
  proof -
    have nx: "x \<noteq> []" using ids x by simp
    have ixs': "map_get ixs' (key [bs_providerId q, x]) = Some (bi_orgId inp)" using add(1) x k [OF nx] nx by (auto simp: add_index_def or_null_def try_pure_def)
    obtain c where "(case or_null customer of Some x \<Rightarrow> try_pure (billingProviderKey (bs_providerId q) (Some x)) (\<lambda>k. Inr (map_get (billingByProviderCustomer s2) k))
                 | None \<Rightarrow> Inr None) = Inr c"
      using q by (cases "or_null customer") (auto simp: billingProviderKey_def provider_normal_def try_pure_def)
    then show ?thesis using q k [OF nx] nx ixs' s2 ne by (simp add: findBillingSubscriptionByProvider_def provider_normal_def try_pure_def or_null_def or_else_def)
  qed
  show "findBillingSubscriptionByProvider s2 (bs_providerId q) (Some y) None = Inr (Some q)" if y: "bs_providerCustomerId q = Some y"
  proof -
    have ny: "y \<noteq> []" using ids y by simp
    have "map_get ixc' (key [bs_providerId q, y]) = Some (bi_orgId inp)" using add(2) y k [OF ny] ny by (auto simp: add_index_def or_null_def try_pure_def)
    then show ?thesis using q k [OF ny] ny s2 ne by (simp add: findBillingSubscriptionByProvider_def provider_normal_def try_pure_def or_null_def or_else_def)
  qed
qed

text \<open>C27: a provider webhook reaches the right organisation. In every store that upserts build up, failing ones
  included, the lookup by customer or subscription id returns the current subscription of an organisation that
  carries the id it was found by; and right after an upsert the lookup by its subscription id, and the lookup
  by its customer id alone, return exactly the record that was written.\<close>

theorem billing_lookup_sound:
  fixes s s' :: "'a org_store_scheme"
  assumes "billing_ok s" "billing_step\<^sup>*\<^sup>* s s'"
  shows "(findBillingSubscriptionByProvider s' provider customer subscription = Inr (Some r) \<longrightarrow>
       map_get (billingSubscriptions s') (bs_orgId r) = Some r
       \<and> (carries (js_trim provider) subscription (bs_providerSubscriptionId r) (bs_providerId r)
          \<or> carries (js_trim provider) customer (bs_providerCustomerId r) (bs_providerId r)))
    \<and> (upsertBillingSubscription e inp s' = (Inr q, s2) \<and> bi_orgId inp \<noteq> [] \<and> bs_providerSubscriptionId q = Some x \<longrightarrow>
       findBillingSubscriptionByProvider s2 (bs_providerId q) customer (Some x) = Inr (Some q))
    \<and> (upsertBillingSubscription e inp s' = (Inr q, s2) \<and> bi_orgId inp \<noteq> [] \<and> bs_providerCustomerId q = Some y \<longrightarrow>
       findBillingSubscriptionByProvider s2 (bs_providerId q) (Some y) None = Inr (Some q))"
proof -
  have ok: "billing_ok s'" by (rule billing_steps_ok [OF assms(2,1)])
  show ?thesis using find_billing_sound [OF ok, of provider customer subscription r] upserted_found [OF ok, of e inp q s2] by blast
qed

definition sample_subscription :: billing_subscription where
  "sample_subscription = \<lparr> bs_orgId = ''o'', bs_planKey = ''pro'', bs_providerId = ''stripe'', bs_providerCustomerId = Some ''cus'',
     bs_providerSubscriptionId = Some ''sub'', bs_status = BActive, bs_seats = 1, bs_entitlements = JObj [], bs_currentPeriodEnd = None,
     bs_cancelAtPeriodEnd = False, bs_metadata = JObj [], bs_createdAt = 0, bs_updatedAt = 0 \<rparr>"

definition sample_org_store :: org_store where
  "sample_org_store = \<lparr> tenants = [], users = [], orgs = [], orgsByTenant = [], accounts = [], accountsBySubject = [], accountsByEmail = [],
     memberships = [], auditEvents = [], customRoles = [], policies = [], settings = [], billingSubscriptions = [(''o'', sample_subscription)],
     billingByProviderSubscription = [(key [''stripe'', ''sub''], ''o'')], billingByProviderCustomer = [(key [''stripe'', ''cus''], ''o'')], usageEvents = [] \<rparr>"

theorem billing_lookup_sound_witness:
  "findBillingSubscriptionByProvider sample_org_store ''stripe'' (Some ''cus'') None = Inr (Some sample_subscription)
   \<and> (carries ''stripe'' None (bs_providerSubscriptionId sample_subscription) (bs_providerId sample_subscription)
      \<or> carries ''stripe'' (Some ''cus'') (bs_providerCustomerId sample_subscription) (bs_providerId sample_subscription))"
proof
  have n: "provider_normal ''stripe''" unfolding provider_normal_def by code_simp
  have ok: "billing_ok sample_org_store" using n
    by (simp add: billing_ok_def subscriptions_ok_def index_ok_def sample_org_store_def map_get_def sample_subscription_def)
  show f: "findBillingSubscriptionByProvider sample_org_store ''stripe'' (Some ''cus'') None = Inr (Some sample_subscription)" by code_simp
  have "js_trim ''stripe'' = ''stripe''" by code_simp
  then show "carries ''stripe'' None (bs_providerSubscriptionId sample_subscription) (bs_providerId sample_subscription)
      \<or> carries ''stripe'' (Some ''cus'') (bs_providerCustomerId sample_subscription) (bs_providerId sample_subscription)"
    using billing_lookup_sound [OF ok rtranclp.rtrancl_refl] f by metis
qed


section \<open>Policy merging\<close>

definition ceilings_ok :: "ceiling jsmap \<Rightarrow> bool" where
  "ceilings_ok m = (map fst m = MANAGED_POLICY_PERMISSION_DIMENSIONS)"

lemma dimensions_distinct: "distinct MANAGED_POLICY_PERMISSION_DIMENSIONS"
  by (simp add: MANAGED_POLICY_PERMISSION_DIMENSIONS_def)

lemma ceilings_put: "ceilings_ok m \<Longrightarrow> d \<in> set MANAGED_POLICY_PERMISSION_DIMENSIONS \<Longrightarrow> ceilings_ok (map_set d c m)"
  unfolding ceilings_ok_def keys_map_set by (metis list.set_map)

lemma normalizeCeilings_keys: "normalizeCeilings m kvs = Inr m' \<Longrightarrow> ceilings_ok m \<Longrightarrow> ceilings_ok m'"
  by (induction m kvs rule: normalizeCeilings.induct) (auto simp: try_pure_def ceilings_put split: if_splits sum.splits)

text \<open>A patch is a list of assignments that does not depend on the map it is applied to.\<close>

lemma normalizeCeilings_patch:
  assumes "normalizeCeilings m kvs = Inr m'"
  shows "\<exists>ps. \<forall>n. normalizeCeilings n kvs = Inr (fold (\<lambda>(d, c). map_set d c) ps n)"
  using assms
proof (induction m kvs rule: normalizeCeilings.induct)
  case (1 m)
  show ?case by (rule exI [of _ "[]"]) simp
next
  case (2 m a v kvs)
  obtain c where a: "a \<in> set MANAGED_POLICY_PERMISSION_DIMENSIONS" and c: "normalizeCeiling v (''Policy ceiling \"'' @ a @ ''\"'') = Inr c"
      and rest: "normalizeCeilings (map_set a c m) kvs = Inr m'"
    using 2(2) by (auto simp: try_pure_def split: if_splits sum.splits)
  obtain ps where "\<forall>n. normalizeCeilings n kvs = Inr (fold (\<lambda>(d, c). map_set d c) ps n)" using 2(1) [OF _ rest] a by blast
  then show ?case using a c by (intro exI [of _ "(a, c) # ps"]) (simp add: try_pure_def)
qed

lemma map_get_patch: "map_get (fold (\<lambda>(d, c). map_set d c) ps n) d = (case map_of (rev ps) d of Some c \<Rightarrow> Some c | None \<Rightarrow> map_get n d)"
  by (induction ps arbitrary: n) (auto simp: map_add_def split: option.splits)

lemma same_map: "map fst m = map fst m' \<Longrightarrow> distinct (map fst m) \<Longrightarrow> (\<And>k. map_get m k = map_get m' k) \<Longrightarrow> m = m'"
proof (induction m arbitrary: m')
  case (Cons p m)
  then obtain q m2 where m': "m' = q # m2" "fst q = fst p" "map fst m2 = map fst m" by (cases m') auto
  have "snd q = snd p" using Cons.prems(3) [of "fst p"] m'(1,2) by (cases p; cases q) (simp add: map_get_def)
  moreover have "map_get m k = map_get m2 k" for k
  proof (cases "k = fst p")
    case True
    then have "k \<notin> set (map fst m)" "k \<notin> set (map fst m2)" using Cons.prems(2) m'(3) by auto
    then show ?thesis by (metis list.set_map map_get_def map_of_eq_None_iff)
  next
    case False
    then show ?thesis using Cons.prems(3) [of k] m'(1,2) by (cases p; cases q) (simp add: map_get_def)
  qed
  then have "m = m2" using Cons.IH [of m2] Cons.prems(2) m'(3) by simp
  ultimately show ?case using m'(1,2) by (simp add: prod_eq_iff)
qed simp

lemma normalizeCeilings_idem:
  assumes "normalizeCeilings m kvs = Inr m'" "ceilings_ok m"
  shows "normalizeCeilings m' kvs = Inr m'"
proof -
  obtain ps where ps: "\<And>n. normalizeCeilings n kvs = Inr (fold (\<lambda>(d, c). map_set d c) ps n)" using normalizeCeilings_patch [OF assms(1)] by blast
  have m': "m' = fold (\<lambda>(d, c). map_set d c) ps m" using assms(1) ps [of m] by simp
  have ok: "ceilings_ok m'" "ceilings_ok (fold (\<lambda>(d, c). map_set d c) ps m')"
    using normalizeCeilings_keys [OF assms] normalizeCeilings_keys [OF ps [of m']] by auto
  have "fold (\<lambda>(d, c). map_set d c) ps m' = m'"
    by (rule same_map) (use ok dimensions_distinct in \<open>auto simp: ceilings_ok_def map_get_patch m' split: option.splits\<close>)
  then show ?thesis using ps [of m'] by simp
qed

lemma normalizeExtensions_idem: "normalizeExtensions x inp = Inr y \<Longrightarrow> normalizeExtensions y inp = Inr y"
  unfolding normalizeExtensions_def extension_flag_def try_pure_def
  by (cases "ps_customProviders inp"; cases "ps_customMcps inp"; cases "ps_customSkills inp") (auto split: json.splits)

lemma set_or_keep_idem: "set_or_keep v old f = Inr x \<Longrightarrow> set_or_keep v x f = Inr x"
  by (auto simp: set_or_keep_def split: option.splits)

text \<open>C28: policy updates are safe to retry and honestly shown. Whatever partial updates an organisation has stored,
  every permission dimension has a ceiling; repeating an update changes nothing of the policy; and the delivered view marks
  no control as managed exactly when the policy, its feature flags aside, is the unrestricted default: a feature that is
  switched off is not listed as a managed control.\<close>

theorem policy_merge_sound:
  assumes "ceilings_ok (mp_permissionCeilings base)" "applyManagedPolicyInput base inp = Inr p"
  shows "ceilings_ok (mp_permissionCeilings p) \<and> applyManagedPolicyInput p inp = Inr p
    \<and> (managedPolicyDisabledControls p = [] \<longleftrightarrow> p = DEFAULT_MANAGED_POLICY\<lparr> mp_features := mp_features p \<rparr>)"
proof -
  have parts: "set_or_keep (ps_allowedProviders inp) (mp_allowedProviders base) (\<lambda>v. normalizeAllowList v ''allowedProviders'') = Inr (mp_allowedProviders p)"
    "set_or_keep (ps_deniedProviders inp) (mp_deniedProviders base) (\<lambda>v. normalizePolicyIdList v ''deniedProviders'') = Inr (mp_deniedProviders p)"
    "set_or_keep (ps_allowedModels inp) (mp_allowedModels base) (\<lambda>v. normalizeAllowList v ''allowedModels'') = Inr (mp_allowedModels p)"
    "set_or_keep (ps_deniedModels inp) (mp_deniedModels base) (\<lambda>v. normalizePolicyIdList v ''deniedModels'') = Inr (mp_deniedModels p)"
    "set_or_keep (ps_keyManagement inp) (mp_keyManagement base) normalizeKeyManagement = Inr (mp_keyManagement p)"
    "normalizeExtensions (mp_extensions base) inp = Inr (mp_extensions p)"
    "set_or_keep (ps_features inp) (mp_features base) normalizeFeatures = Inr (mp_features p)"
    "set_or_keep (ps_permissionCeilings inp) (mp_permissionCeilings base) (normalizeCeilings (mp_permissionCeilings base)) = Inr (mp_permissionCeilings p)"
    "set_or_keep (ps_updateChannel inp) (mp_updateChannel base) normalizeUpdateChannel = Inr (mp_updateChannel p)"
    using assms(2) unfolding applyManagedPolicyInput_def try_pure_def by (auto split: sum.splits)
  have ok: "ceilings_ok (mp_permissionCeilings p)"
    using parts(8) assms(1) normalizeCeilings_keys by (auto simp: set_or_keep_def split: option.splits)
  have ceil: "set_or_keep (ps_permissionCeilings inp) (mp_permissionCeilings p) (normalizeCeilings (mp_permissionCeilings p)) = Inr (mp_permissionCeilings p)"
    using parts(8) assms(1) normalizeCeilings_idem by (auto simp: set_or_keep_def split: option.splits)
  have "applyManagedPolicyInput p inp = Inr p"
    unfolding applyManagedPolicyInput_def
    by (simp add: parts(1-5,7,9) [THEN set_or_keep_idem] normalizeExtensions_idem [OF parts(6)] ceil try_pure_def)
  moreover have "managedPolicyDisabledControls p = [] \<longleftrightarrow> p = DEFAULT_MANAGED_POLICY\<lparr> mp_features := mp_features p \<rparr>"
  proof
    assume none: "managedPolicyDisabledControls p = []"
    have "map_get (mp_permissionCeilings p) d = map_get defaultCeilings d" for d
    proof (cases "d \<in> set MANAGED_POLICY_PERMISSION_DIMENSIONS")
      case True
      then have "map_get (mp_permissionCeilings p) d = Some CeilAllow" using none by (auto simp: managedPolicyDisabledControls_def filter_empty_conv)
      then show ?thesis using True by (auto simp: defaultCeilings_def map_get_def map_of_map_restrict restrict_map_def)
    next
      case False
      then have "d \<notin> set (map fst (mp_permissionCeilings p))" "d \<notin> set (map fst defaultCeilings)"
        using ok unfolding ceilings_ok_def defaultCeilings_def by (simp_all add: image_image)
      then show ?thesis by (metis list.set_map map_get_def map_of_eq_None_iff)
    qed
    then have "mp_permissionCeilings p = defaultCeilings"
      by (intro same_map) (use ok dimensions_distinct in \<open>simp_all add: ceilings_ok_def defaultCeilings_def comp_def\<close>)
    then show "p = DEFAULT_MANAGED_POLICY\<lparr> mp_features := mp_features p \<rparr>"
      using none by (cases p; cases "mp_extensions p") (auto simp: managedPolicyDisabledControls_def DEFAULT_MANAGED_POLICY_def split: if_splits)
  next
    assume p: "p = DEFAULT_MANAGED_POLICY\<lparr> mp_features := mp_features p \<rparr>"
    have "managedPolicyDisabledControls (DEFAULT_MANAGED_POLICY\<lparr> mp_features := fs \<rparr>) = []" for fs
      by (simp add: managedPolicyDisabledControls_def DEFAULT_MANAGED_POLICY_def defaultCeilings_def MANAGED_POLICY_PERMISSION_DIMENSIONS_def map_get_def)
    then show "managedPolicyDisabledControls p = []" using p by metis
  qed
  ultimately show ?thesis using ok by blast
qed

definition sample_policy_patch :: set_policy_input where
  "sample_policy_patch = \<lparr> ps_orgId = ''o'', ps_allowedProviders = None, ps_deniedProviders = Some [''b'', ''a'', ''b''], ps_allowedModels = None, ps_deniedModels = None,
     ps_keyManagement = None, ps_customProviders = None, ps_customMcps = Some (JBool False), ps_customSkills = None, ps_features = None,
     ps_permissionCeilings = Some [(''bash'', JStr ''deny'')], ps_updateChannel = None, ps_updatedAt = None, ps_actor = None \<rparr>"

theorem policy_merge_sound_witness:
  "case applyManagedPolicyInput DEFAULT_MANAGED_POLICY sample_policy_patch of
     Inr p \<Rightarrow> applyManagedPolicyInput p sample_policy_patch = Inr p \<and> managedPolicyDisabledControls p = [''bash'', ''providers'', ''customMcps'']
   | Inl _ \<Rightarrow> False"
proof -
  have c: "case applyManagedPolicyInput DEFAULT_MANAGED_POLICY sample_policy_patch of
     Inr p \<Rightarrow> managedPolicyDisabledControls p = [''bash'', ''providers'', ''customMcps''] | Inl _ \<Rightarrow> False" by code_simp
  then obtain p where p: "applyManagedPolicyInput DEFAULT_MANAGED_POLICY sample_policy_patch = Inr p" by (auto split: sum.splits)
  have "ceilings_ok (mp_permissionCeilings DEFAULT_MANAGED_POLICY)" by code_simp
  from policy_merge_sound [OF this p] c p show ?thesis by simp
qed

end
