(* ===== verification/Thread_Organizer.thy ===== *)
theory Thread_Organizer
  imports Session_Safety Audited_Writes
begin

text \<open>
  How a tenant organises its sessions (\<open>in-memory-domains/thread-tags.ts\<close>, \<open>thread-smart-filters.ts\<close>) and the
  two methods of the facade that read or prune across sessions (\<open>listThreadMetadata\<close>,
  \<open>pruneExpiredSessionEvents\<close>); also the two logs without a host, worker heartbeats and schema migrations.
  A \<open>Set\<close> of tag ids is a list in insertion order. Case folding and the case-insensitive collation depend on
  the locale of the process and are arguments. Shown: tag names stay unique per tenant up to case and no
  session is linked to a tag that does not exist; retention pruning is bounded and takes the oldest first.
\<close>


section \<open>Records\<close>

record thread_locale =
  locale_lower :: "string \<Rightarrow> string"
  base_compare :: "string \<Rightarrow> string \<Rightarrow> int"

record thread_tag =
  tg_tenantId :: string
  tg_tagId :: string
  tg_name :: string
  tg_color :: string
  tg_createdAt :: iso
  tg_updatedAt :: iso

record smart_filter =
  sg_tenantId :: string
  sg_filterId :: string
  sg_name :: string
  sg_query :: json
  sg_createdAt :: iso
  sg_updatedAt :: iso

record thread_metadata =
  tm_tenantId :: string
  tm_userId :: string
  tm_sessionId :: string
  tm_title :: "string option"
  tm_profileName :: string
  tm_status :: session_status
  tm_createdAt :: iso
  tm_updatedAt :: iso
  tm_tags :: "thread_tag list"

record create_tag_input =
  tc_tenantId :: string
  tc_tagId :: string
  tc_name :: string
  tc_color :: "string option"
  tc_createdAt :: "iso option"

text \<open>Of the colour of an update, \<open>None\<close> is undefined and \<open>Some None\<close> is null.\<close>

record update_tag_input =
  td_tenantId :: string
  td_tagId :: string
  td_name :: "string option"
  td_color :: "string option option"
  td_updatedAt :: "iso option"

record tag_link_input =
  tk_tenantId :: string
  tk_sessionIds :: "string list"
  tk_tagIds :: "string list"

record create_filter_input =
  fc_tenantId :: string
  fc_filterId :: string
  fc_name :: string
  fc_query :: json
  fc_createdAt :: "iso option"

record update_filter_input =
  fu_tenantId :: string
  fu_filterId :: string
  fu_name :: "string option"
  fu_query :: "json option"
  fu_updatedAt :: "iso option"

datatype worker_role = AllInOne | Web | Worker | Scheduler

record worker_heartbeat =
  wh_workerId :: string
  wh_role :: worker_role
  wh_activeSessionIds :: "string list"
  wh_lastSeenAt :: iso

record schema_migration =
  mg_id :: string
  mg_appliedAt :: iso

record thread_store = workflow_store +
  threadTags :: "thread_tag jsmap"
  threadTagLinks :: "string list jsmap"
  threadSmartFilters :: "smart_filter jsmap"
  heartbeats :: "worker_heartbeat jsmap"
  migrations :: "schema_migration jsmap"


section \<open>Tags\<close>

fun normalize_ids :: "string \<Rightarrow> string list \<Rightarrow> error + string list" where
  "normalize_ids label [] = Inr []"
| "normalize_ids label (v # vs) = try_pure (normalizeText (Some v) 256 label) (\<lambda>t. try_pure (normalize_ids label vs) (\<lambda>ts. Inr (t # ts)))"

definition normalizeThreadIdList :: "string list \<Rightarrow> string \<Rightarrow> int \<Rightarrow> error + string list" where
  "normalizeThreadIdList values label maxLength =
     (if int (length values) > maxLength then Inl (Error (label @ '' exceeds '' @ show_int maxLength @ '' entries.''))
      else try_pure (normalize_ids label values) (\<lambda>ids. Inr (js_unique ids)))"

definition is_hex_char :: "char \<Rightarrow> bool" where
  "is_hex_char c = (let n = (of_char c :: nat) in (48 \<le> n \<and> n \<le> 57) \<or> (97 \<le> n \<and> n \<le> 102) \<or> (65 \<le> n \<and> n \<le> 70))"

definition normalizeTagColor :: "string option \<Rightarrow> string" where
  "normalizeTagColor value =
     (case map_option js_trim value of
        Some (h # ds) \<Rightarrow> (if h = CHR ''#'' \<and> length ds = 6 \<and> list_all is_hex_char ds then h # ds else ''#64748b'')
      | _ \<Rightarrow> ''#64748b'')"

definition requireThreadTag :: "'a thread_store_scheme \<Rightarrow> string \<Rightarrow> string \<Rightarrow> error + thread_tag" where
  "requireThreadTag s tenantId tagId =
     (case map_get (threadTags s) (key [tenantId, tagId]) of Some t \<Rightarrow> Inr t | None \<Rightarrow> Inl (Error (''Unknown thread tag '' @ tagId @ ''.'')))"

definition assertUniqueThreadTagName :: "thread_locale \<Rightarrow> 'a thread_store_scheme \<Rightarrow> string \<Rightarrow> string \<Rightarrow> string \<Rightarrow> error + unit" where
  "assertUniqueThreadTagName loc s tenantId tagId name =
     (if list_ex (\<lambda>t. tg_tenantId t = tenantId \<and> tg_tagId t \<noteq> tagId \<and> locale_lower loc (tg_name t) = locale_lower loc name) (map_values (threadTags s))
      then Inl (Error (''Thread tag \"'' @ name @ ''\" already exists.'')) else Inr ())"

definition listThreadTags :: "thread_locale \<Rightarrow> 'a thread_store_scheme \<Rightarrow> string \<Rightarrow> error + thread_tag list" where
  "listThreadTags loc s tenantId =
     try_pure (requireTenant s tenantId) (\<lambda>_.
       Inr (js_sort (cmp_by tg_name (base_compare loc)) (filter (\<lambda>t. tg_tenantId t = tenantId) (map_values (threadTags s)))))"

definition put_tag :: "string \<Rightarrow> thread_tag \<Rightarrow> 'a thread_store_scheme \<Rightarrow> 'a thread_store_scheme" where
  "put_tag k t s = s\<lparr> threadTags := map_set k t (threadTags s) \<rparr>"

definition createThreadTag :: "env \<Rightarrow> thread_locale \<Rightarrow> create_tag_input \<Rightarrow> 'a thread_store_scheme \<Rightarrow> ('a thread_store_scheme, thread_tag) outcome" where
  "createThreadTag e loc inp s =
     try_in s (requireTenant s (tc_tenantId inp)) (\<lambda>_.
     try_in s (normalizeText (Some (tc_name inp)) 48 ''Tag name'') (\<lambda>name.
       let tagKey = key [tc_tenantId inp, tc_tagId inp]; color = normalizeTagColor (tc_color inp) in
       case map_get (threadTags s) tagKey of
         Some t \<Rightarrow>
           if tg_name t \<noteq> name \<or> tg_color t \<noteq> color
           then (Inl (Error (''Tag id '' @ tc_tagId inp @ '' was reused with different content.'')), s)
           else (Inr t, s)
       | None \<Rightarrow>
           try_in s (assertUniqueThreadTagName loc s (tc_tenantId inp) (tc_tagId inp) name) (\<lambda>_.
             let now = nowIso e (tc_createdAt inp);
                 t = \<lparr> tg_tenantId = tc_tenantId inp, tg_tagId = tc_tagId inp, tg_name = name, tg_color = color, tg_createdAt = now, tg_updatedAt = now \<rparr>
             in (Inr t, put_tag tagKey t s))))"

definition updateThreadTag :: "env \<Rightarrow> thread_locale \<Rightarrow> update_tag_input \<Rightarrow> 'a thread_store_scheme \<Rightarrow> ('a thread_store_scheme, thread_tag option) outcome" where
  "updateThreadTag e loc inp s =
     try_in s (requireTenant s (td_tenantId inp)) (\<lambda>_.
       let tagKey = key [td_tenantId inp, td_tagId inp] in
       case map_get (threadTags s) tagKey of
         None \<Rightarrow> (Inr None, s)
       | Some t \<Rightarrow>
           try_in s (normalizeOptionalText (td_name inp) 48 ''Tag name'') (\<lambda>given.
             let name = coalesce given (tg_name t) in
             try_in s (assertUniqueThreadTagName loc s (td_tenantId inp) (td_tagId inp) name) (\<lambda>_.
               let t' = t\<lparr> tg_name := name, tg_color := (case td_color inp of None \<Rightarrow> tg_color t | Some c \<Rightarrow> normalizeTagColor c),
                     tg_updatedAt := nowIso e (td_updatedAt inp) \<rparr>
               in (Inr (Some t'), put_tag tagKey t' s))))"

text \<open>The entries of the link index of the tenant lose the tag; an entry that becomes empty goes.\<close>

fun unlink_tag :: "string \<Rightarrow> string \<Rightarrow> string list jsmap \<Rightarrow> string list jsmap" where
  "unlink_tag tenantId tagId [] = []"
| "unlink_tag tenantId tagId ((linkKey, tags) # links) =
     (if \<not> starts_with linkKey (tenantId @ [CHR 0x00]) then (linkKey, tags) # unlink_tag tenantId tagId links
      else let tags' = filter (\<lambda>t. t \<noteq> tagId) tags
        in if tags' = [] then unlink_tag tenantId tagId links else (linkKey, tags') # unlink_tag tenantId tagId links)"

definition deleteThreadTag :: "string \<Rightarrow> string \<Rightarrow> 'a thread_store_scheme \<Rightarrow> ('a thread_store_scheme, bool) outcome" where
  "deleteThreadTag tenantId tagId s =
     try_in s (requireTenant s tenantId) (\<lambda>_.
       let k = key [tenantId, tagId]
       in (Inr (map_has (threadTags s) k),
           s\<lparr> threadTags := map_delete k (threadTags s), threadTagLinks := unlink_tag tenantId tagId (threadTagLinks s) \<rparr>))"

fun check_all :: "('a \<Rightarrow> error + 'b) \<Rightarrow> 'a list \<Rightarrow> error + unit" where
  "check_all f [] = Inr ()"
| "check_all f (x # xs) = try_pure (f x) (\<lambda>_. check_all f xs)"

definition link_check :: "tag_link_input \<Rightarrow> 'a thread_store_scheme \<Rightarrow> error + (string list \<times> string list)" where
  "link_check inp s =
     try_pure (requireTenant s (tk_tenantId inp)) (\<lambda>_.
     try_pure (normalizeThreadIdList (tk_sessionIds inp) ''sessionIds'' 500) (\<lambda>sessionIds.
     try_pure (normalizeThreadIdList (tk_tagIds inp) ''tagIds'' 50) (\<lambda>tagIds.
     try_pure (check_all (requireSession s (tk_tenantId inp)) sessionIds) (\<lambda>_.
     try_pure (check_all (requireThreadTag s (tk_tenantId inp)) tagIds) (\<lambda>_. Inr (sessionIds, tagIds))))))"

definition set_add :: "'a \<Rightarrow> 'a list \<Rightarrow> 'a list" where
  "set_add x xs = (if x \<in> set xs then xs else xs @ [x])"

definition link_session :: "string list \<Rightarrow> string \<Rightarrow> string list jsmap \<Rightarrow> string list jsmap" where
  "link_session tagIds linkKey links = map_set linkKey (fold set_add tagIds (coalesce (map_get links linkKey) [])) links"

definition unlink_session :: "string list \<Rightarrow> string \<Rightarrow> string list jsmap \<Rightarrow> string list jsmap" where
  "unlink_session tagIds linkKey links =
     (case map_get links linkKey of
        None \<Rightarrow> links
      | Some tags \<Rightarrow> let tags' = filter (\<lambda>t. t \<notin> set tagIds) tags
          in if tags' = [] then map_delete linkKey links else map_set linkKey tags' links)"

definition applyThreadTags :: "tag_link_input \<Rightarrow> 'a thread_store_scheme \<Rightarrow> ('a thread_store_scheme, unit) outcome" where
  "applyThreadTags inp s =
     try_in s (link_check inp s) (\<lambda>(sessionIds, tagIds).
       (Inr (), s\<lparr> threadTagLinks := fold (\<lambda>i. link_session tagIds (key [tk_tenantId inp, i])) sessionIds (threadTagLinks s) \<rparr>))"

definition removeThreadTags :: "tag_link_input \<Rightarrow> 'a thread_store_scheme \<Rightarrow> ('a thread_store_scheme, unit) outcome" where
  "removeThreadTags inp s =
     try_in s (link_check inp s) (\<lambda>(sessionIds, tagIds).
       (Inr (), s\<lparr> threadTagLinks := fold (\<lambda>i. unlink_session tagIds (key [tk_tenantId inp, i])) sessionIds (threadTagLinks s) \<rparr>))"

definition sessionTagLinkIds :: "'a thread_store_scheme \<Rightarrow> string \<Rightarrow> string \<Rightarrow> string list option" where
  "sessionTagLinkIds s tenantId sessionId = map_get (threadTagLinks s) (key [tenantId, sessionId])"

definition tagsForSession :: "thread_locale \<Rightarrow> 'a thread_store_scheme \<Rightarrow> string \<Rightarrow> string \<Rightarrow> thread_tag list" where
  "tagsForSession loc s tenantId sessionId =
     (case map_get (threadTagLinks s) (key [tenantId, sessionId]) of
        None \<Rightarrow> []
      | Some tagIds \<Rightarrow> js_sort (cmp_by tg_name (base_compare loc)) (List.map_filter (\<lambda>tagId. map_get (threadTags s) (key [tenantId, tagId])) tagIds))"


section \<open>Smart filters\<close>

definition normalizeThreadQuery :: "env \<Rightarrow> json \<Rightarrow> error + json" where
  "normalizeThreadQuery e value =
     (let query = (case value of JObj kvs \<Rightarrow> JObj kvs | _ \<Rightarrow> JObj [])
      in if utf8_length (stableJson (locale_compare e) query) > 16384 then Inl (Error ''Smart filter query exceeds 16384 bytes.'')
         else Inr query)"

definition listThreadSmartFilters :: "thread_locale \<Rightarrow> 'a thread_store_scheme \<Rightarrow> string \<Rightarrow> error + smart_filter list" where
  "listThreadSmartFilters loc s tenantId =
     try_pure (requireTenant s tenantId) (\<lambda>_.
       Inr (js_sort (cmp_by sg_name (base_compare loc)) (filter (\<lambda>f. sg_tenantId f = tenantId) (map_values (threadSmartFilters s)))))"

definition put_filter :: "string \<Rightarrow> smart_filter \<Rightarrow> 'a thread_store_scheme \<Rightarrow> 'a thread_store_scheme" where
  "put_filter k f s = s\<lparr> threadSmartFilters := map_set k f (threadSmartFilters s) \<rparr>"

definition createThreadSmartFilter :: "env \<Rightarrow> create_filter_input \<Rightarrow> 'a thread_store_scheme \<Rightarrow> ('a thread_store_scheme, smart_filter) outcome" where
  "createThreadSmartFilter e inp s =
     try_in s (requireTenant s (fc_tenantId inp)) (\<lambda>_.
     try_in s (normalizeText (Some (fc_name inp)) 64 ''Smart filter name'') (\<lambda>name.
     try_in s (normalizeThreadQuery e (fc_query inp)) (\<lambda>query.
       let filterKey = key [fc_tenantId inp, fc_filterId inp] in
       case map_get (threadSmartFilters s) filterKey of
         Some f \<Rightarrow>
           if sg_name f \<noteq> name \<or> stableJson (locale_compare e) (sg_query f) \<noteq> stableJson (locale_compare e) query
           then (Inl (Error (''Smart filter id '' @ fc_filterId inp @ '' was reused with different content.'')), s)
           else (Inr f, s)
       | None \<Rightarrow>
           let now = nowIso e (fc_createdAt inp);
               f = \<lparr> sg_tenantId = fc_tenantId inp, sg_filterId = fc_filterId inp, sg_name = name, sg_query = query, sg_createdAt = now, sg_updatedAt = now \<rparr>
           in (Inr f, put_filter filterKey f s))))"

text \<open>The name is written before the query is checked.\<close>

definition updateThreadSmartFilter :: "env \<Rightarrow> update_filter_input \<Rightarrow> 'a thread_store_scheme \<Rightarrow> ('a thread_store_scheme, smart_filter option) outcome" where
  "updateThreadSmartFilter e inp s =
     try_in s (requireTenant s (fu_tenantId inp)) (\<lambda>_.
       let filterKey = key [fu_tenantId inp, fu_filterId inp] in
       case map_get (threadSmartFilters s) filterKey of
         None \<Rightarrow> (Inr None, s)
       | Some f \<Rightarrow>
           try_in s (normalizeOptionalText (fu_name inp) 64 ''Smart filter name'') (\<lambda>given.
             let f1 = f\<lparr> sg_name := coalesce given (sg_name f) \<rparr>; s1 = put_filter filterKey f1 s in
             try_in s1 (case fu_query inp of None \<Rightarrow> Inr (sg_query f) | Some q \<Rightarrow> normalizeThreadQuery e q) (\<lambda>query.
               let f2 = f1\<lparr> sg_query := query, sg_updatedAt := nowIso e (fu_updatedAt inp) \<rparr>
               in (Inr (Some f2), put_filter filterKey f2 s1))))"

definition deleteThreadSmartFilter :: "string \<Rightarrow> string \<Rightarrow> 'a thread_store_scheme \<Rightarrow> ('a thread_store_scheme, bool) outcome" where
  "deleteThreadSmartFilter tenantId filterId s =
     try_in s (requireTenant s tenantId) (\<lambda>_.
       let k = key [tenantId, filterId]
       in (Inr (map_has (threadSmartFilters s) k), s\<lparr> threadSmartFilters := map_delete k (threadSmartFilters s) \<rparr>))"


section \<open>Logs without a host\<close>

definition recordWorkerHeartbeat :: "env \<Rightarrow> string \<Rightarrow> worker_role \<Rightarrow> string list option \<Rightarrow> iso option \<Rightarrow> 'a thread_store_scheme \<Rightarrow> worker_heartbeat \<times> 'a thread_store_scheme" where
  "recordWorkerHeartbeat e workerId role activeSessionIds now s =
     (let r = \<lparr> wh_workerId = workerId, wh_role = role, wh_activeSessionIds = js_unique (coalesce activeSessionIds []), wh_lastSeenAt = nowIso e now \<rparr>
      in (r, s\<lparr> heartbeats := map_set workerId r (heartbeats s) \<rparr>))"

definition listWorkerHeartbeats :: "'a thread_store_scheme \<Rightarrow> worker_heartbeat list" where
  "listWorkerHeartbeats s = map_values (heartbeats s)"

definition recordSchemaMigration :: "string \<Rightarrow> iso \<Rightarrow> 'a thread_store_scheme \<Rightarrow> schema_migration \<times> 'a thread_store_scheme" where
  "recordSchemaMigration i appliedAt s =
     (case map_get (migrations s) i of
        Some r \<Rightarrow> (r, s)
      | None \<Rightarrow> let r = \<lparr> mg_id = i, mg_appliedAt = appliedAt \<rparr> in (r, s\<lparr> migrations := map_set i r (migrations s) \<rparr>))"

definition listSchemaMigrations :: "'a thread_store_scheme \<Rightarrow> schema_migration list" where
  "listSchemaMigrations s = map_values (migrations s)"


section \<open>Across sessions\<close>

definition thread_limit :: "jsnum option \<Rightarrow> jsnum" where
  "thread_limit limit = (case limit of Some l \<Rightarrow> (if js_is_integer l \<and> js_positive l then js_min 500 l else JInt 500) | None \<Rightarrow> JInt 500)"

definition metadata_of :: "thread_locale \<Rightarrow> 'a thread_store_scheme \<Rightarrow> session_record \<Rightarrow> thread_metadata" where
  "metadata_of loc s r =
     \<lparr> tm_tenantId = sr_tenantId r, tm_userId = sr_userId r, tm_sessionId = sr_sessionId r, tm_title = sr_title r, tm_profileName = sr_profileName r,
       tm_status = sr_status r, tm_createdAt = sr_createdAt r, tm_updatedAt = sr_updatedAt r,
       tm_tags = tagsForSession loc s (sr_tenantId r) (sr_sessionId r) \<rparr>"

definition carries_tag :: "'a thread_store_scheme \<Rightarrow> string \<Rightarrow> string list \<Rightarrow> session_record \<Rightarrow> bool" where
  "carries_tag s tenantId tagIds r =
     (tagIds = [] \<or> (case sessionTagLinkIds s tenantId (sr_sessionId r) of Some ids \<Rightarrow> list_ex (\<lambda>t. t \<in> set ids) tagIds | None \<Rightarrow> False))"

definition listThreadMetadata ::
  "thread_locale \<Rightarrow> 'a thread_store_scheme \<Rightarrow> string \<Rightarrow> string \<Rightarrow> string list option \<Rightarrow> jsnum option \<Rightarrow> error + thread_metadata list" where
  "listThreadMetadata loc s tenantId userId tagIds limit =
     try_pure (requireTenantUser s tenantId userId) (\<lambda>_.
     try_pure (case tagIds of Some ids \<Rightarrow> normalizeThreadIdList ids ''tagIds'' 50 | None \<Rightarrow> Inr []) (\<lambda>ids.
       Inr (map (metadata_of loc s) (js_slice (js_sort (cmp_rev (cmp_by sr_updatedAt cmp_int))
         (filter (carries_tag s tenantId ids)
           (filter (\<lambda>r. sr_tenantId r = tenantId \<and> sr_userId r = userId) (map ss_record (map_values (sessions s)))))) (thread_limit limit)))))"

text \<open>An event is paired with the key of its session: the code groups the events to remove by session object.\<close>

definition stale_events :: "iso \<Rightarrow> session_state jsmap \<Rightarrow> (string \<times> session_event) list" where
  "stale_events cutoff m = filter (\<lambda>p. ev_createdAt (snd p) < cutoff) (concat (map (\<lambda>(k, ss). map (Pair k) (ss_events ss)) m))"

definition drop_events :: "(string \<times> session_event) list \<Rightarrow> string \<times> session_state \<Rightarrow> string \<times> session_state" where
  "drop_events stale = (\<lambda>(k, ss). (k, ss\<lparr> ss_events := filter (\<lambda>v. \<not> list_ex (\<lambda>p. fst p = k \<and> ev_eventId (snd p) = ev_eventId v) stale) (ss_events ss) \<rparr>))"

definition pruneExpiredSessionEvents :: "iso \<Rightarrow> jsnum \<Rightarrow> 'a session_store_scheme \<Rightarrow> nat \<times> 'a session_store_scheme" where
  "pruneExpiredSessionEvents cutoff limit s =
     (let stale = js_slice (js_sort (cmp_by (\<lambda>p. ev_createdAt (snd p)) cmp_int) (stale_events cutoff (sessions s))) (js_max 1 (js_min 10000 (js_floor limit)))
      in (length stale, s\<lparr> sessions := map (drop_events stale) (sessions s) \<rparr>))"

section \<open>Tags stay consistent\<close>

lemma starts_with_iff: "starts_with s p \<longleftrightarrow> (\<exists>r. s = p @ r)"
  by (induction s p rule: starts_with.induct) auto

lemma key_two_eq:
  assumes "CHR 0x00 \<notin> set t" "CHR 0x00 \<notin> set t'"
  shows "key [t, i] = key [t', i'] \<longleftrightarrow> t = t' \<and> i = i'"
  by (metis assms key_pair_cases in_set_conv_decomp)

lemma key_two_prefix:
  assumes "CHR 0x00 \<notin> set t" "CHR 0x00 \<notin> set t'"
  shows "starts_with (key [t', i]) (t @ [CHR 0x00]) \<longleftrightarrow> t' = t"
proof
  assume "starts_with (key [t', i]) (t @ [CHR 0x00])"
  then obtain r where "key [t', i] = key [t, r]" by (auto simp: starts_with_iff key_pair)
  then show "t' = t" using key_two_eq [OF assms(2,1)] by simp
qed (auto simp: starts_with_iff key_pair)

definition tags_named :: "thread_locale \<Rightarrow> thread_tag jsmap \<Rightarrow> bool" where
  "tags_named loc m = (map_ok m
     \<and> (\<forall>k t. map_get m k = Some t \<longrightarrow> key [tg_tenantId t, tg_tagId t] = k \<and> CHR 0x00 \<notin> set (tg_tenantId t))
     \<and> (\<forall>k t k' t'. map_get m k = Some t \<and> map_get m k' = Some t' \<and> tg_tenantId t = tg_tenantId t'
          \<and> locale_lower loc (tg_name t) = locale_lower loc (tg_name t') \<longrightarrow> k = k'))"

definition link_ok :: "thread_tag jsmap \<Rightarrow> string \<Rightarrow> string list \<Rightarrow> bool" where
  "link_ok m k ids = (\<exists>t i. k = key [t, i] \<and> CHR 0x00 \<notin> set t \<and> distinct ids \<and> (\<forall>j\<in>set ids. map_has m (key [t, j])))"

definition tags_linked :: "thread_tag jsmap \<Rightarrow> string list jsmap \<Rightarrow> bool" where
  "tags_linked m links = (map_ok links \<and> (\<forall>k ids. map_get links k = Some ids \<longrightarrow> link_ok m k ids))"

definition tags_ok :: "thread_locale \<Rightarrow> 'a thread_store_scheme \<Rightarrow> bool" where
  "tags_ok loc s = (tags_named loc (threadTags s) \<and> tags_linked (threadTags s) (threadTagLinks s))"

lemma assertUnique_Inr:
  "assertUniqueThreadTagName loc s tenantId tagId name = Inr u \<Longrightarrow> map_get (threadTags s) k = Some t \<Longrightarrow> tg_tenantId t = tenantId
     \<Longrightarrow> tg_tagId t \<noteq> tagId \<Longrightarrow> locale_lower loc (tg_name t) \<noteq> locale_lower loc name"
  by (auto simp: assertUniqueThreadTagName_def list_ex_iff split: if_splits dest: map_get_values)

text \<open>Writing a tag under its own key keeps the names unique, when the new name is not another tag's.\<close>

lemma tags_named_put:
  assumes "tags_named loc (threadTags s)" "CHR 0x00 \<notin> set (tg_tenantId t)" "assertUniqueThreadTagName loc s (tg_tenantId t) (tg_tagId t) (tg_name t) = Inr u"
  shows "tags_named loc (map_set (key [tg_tenantId t, tg_tagId t]) t (threadTags s))"
proof -
  have named: "map_ok (threadTags s)" "\<And>k t. map_get (threadTags s) k = Some t \<Longrightarrow> key [tg_tenantId t, tg_tagId t] = k \<and> CHR 0x00 \<notin> set (tg_tenantId t)"
    using assms(1) unfolding tags_named_def by blast+
  have other: "False" if "map_get (threadTags s) k = Some t'" "k \<noteq> key [tg_tenantId t, tg_tagId t]" "tg_tenantId t' = tg_tenantId t"
      "locale_lower loc (tg_name t') = locale_lower loc (tg_name t)" for k t'
  proof -
    have "key [tg_tenantId t', tg_tagId t'] = k" using assms(1) that(1) by (auto simp: tags_named_def)
    then have "tg_tagId t' \<noteq> tg_tagId t" using that(2,3) by auto
    then show False using assertUnique_Inr [OF assms(3) that(1,3)] that(4) by simp
  qed
  show ?thesis unfolding tags_named_def
  proof (intro conjI allI impI)
    fix k t1 k' t2
    let ?m = "map_set (key [tg_tenantId t, tg_tagId t]) t (threadTags s)"
    assume h: "map_get ?m k = Some t1 \<and> map_get ?m k' = Some t2 \<and> tg_tenantId t1 = tg_tenantId t2
      \<and> locale_lower loc (tg_name t1) = locale_lower loc (tg_name t2)"
    consider "k = k'" | "k = key [tg_tenantId t, tg_tagId t]" "k' \<noteq> k" | "k' = key [tg_tenantId t, tg_tagId t]" "k' \<noteq> k"
      | "map_get (threadTags s) k = Some t1" "map_get (threadTags s) k' = Some t2" using h by (auto split: if_splits)
    then show "k = k'"
    proof cases
      case 2
      then have "t1 = t" "map_get (threadTags s) k' = Some t2" using h by auto
      then have False by (intro other [of k' t2]) (use 2 h in auto)
      then show ?thesis ..
    next
      case 3
      then have "t2 = t" "map_get (threadTags s) k = Some t1" using h by auto
      then have False by (intro other [of k t1]) (use 3 h in auto)
      then show ?thesis ..
    next
      case 4
      then show ?thesis using assms(1) h unfolding tags_named_def by blast
    qed
  next
    fix k t1
    assume "map_get (map_set (key [tg_tenantId t, tg_tagId t]) t (threadTags s)) k = Some t1"
    then consider "k = key [tg_tenantId t, tg_tagId t]" "t1 = t" | "map_get (threadTags s) k = Some t1" unfolding map_get_set by (metis option.inject)
    then have "key [tg_tenantId t1, tg_tagId t1] = k \<and> CHR 0x00 \<notin> set (tg_tenantId t1)"
    proof cases
      case 1
      then show ?thesis using assms(2) by blast
    next
      case 2
      then show ?thesis by (rule named(2))
    qed
    then show "key [tg_tenantId t1, tg_tagId t1] = k" "CHR 0x00 \<notin> set (tg_tenantId t1)" by simp_all
  qed (use named(1) in simp)
qed

lemma tags_linked_mono: "tags_linked m links \<Longrightarrow> (\<And>k. map_has m k \<Longrightarrow> map_has m' k) \<Longrightarrow> tags_linked m' links"
  unfolding tags_linked_def link_ok_def by metis

lemma map_has_set: "map_has (map_set k v m) k' \<longleftrightarrow> k' = k \<or> map_has m k'"
  by (auto simp: map_has_def)

lemma put_tag_ok:
  assumes "tags_ok loc s" "CHR 0x00 \<notin> set (tg_tenantId t)" "assertUniqueThreadTagName loc s (tg_tenantId t) (tg_tagId t) (tg_name t) = Inr u"
  shows "tags_ok loc (put_tag (key [tg_tenantId t, tg_tagId t]) t s)"
  using assms tags_named_put tags_linked_mono [of "threadTags s" "threadTagLinks s"]
  by (auto simp: tags_ok_def put_tag_def map_has_set)

lemma createThreadTag_ok:
  assumes "tags_ok loc s" "CHR 0x00 \<notin> set (tc_tenantId inp)" "createThreadTag e loc inp s = (r, s')"
  shows "tags_ok loc s'"
proof -
  have "tags_ok loc (put_tag (key [tc_tenantId inp, tc_tagId inp]) \<lparr> tg_tenantId = tc_tenantId inp, tg_tagId = tc_tagId inp, tg_name = name, tg_color = c,
      tg_createdAt = d, tg_updatedAt = d' \<rparr> s)"
    if "assertUniqueThreadTagName loc s (tc_tenantId inp) (tc_tagId inp) name = Inr u" for name c d d' u
    using put_tag_ok [OF assms(1), of "\<lparr> tg_tenantId = tc_tenantId inp, tg_tagId = tc_tagId inp, tg_name = name, tg_color = c, tg_createdAt = d, tg_updatedAt = d' \<rparr>" u]
      that assms(2) by simp
  then show ?thesis using assms(1,3) unfolding createThreadTag_def Let_def try_in_def
    by (auto split: sum.splits option.splits if_splits)
qed

lemma updateThreadTag_ok:
  assumes "tags_ok loc s" "CHR 0x00 \<notin> set (td_tenantId inp)" "updateThreadTag e loc inp s = (r, s')"
  shows "tags_ok loc s'"
proof -
  have "tags_ok loc (put_tag (key [td_tenantId inp, td_tagId inp]) (t\<lparr> tg_name := name, tg_color := c, tg_updatedAt := d \<rparr>) s)"
    if t: "map_get (threadTags s) (key [td_tenantId inp, td_tagId inp]) = Some t"
      and a: "assertUniqueThreadTagName loc s (td_tenantId inp) (td_tagId inp) name = Inr u" for t name c d u
  proof -
    have "key [tg_tenantId t, tg_tagId t] = key [td_tenantId inp, td_tagId inp] \<and> CHR 0x00 \<notin> set (tg_tenantId t)"
      using assms(1) t unfolding tags_ok_def tags_named_def by blast
    then have "tg_tenantId t = td_tenantId inp" "tg_tagId t = td_tagId inp" using key_two_eq [OF _ assms(2)] by auto
    then show ?thesis using put_tag_ok [OF assms(1), of "t\<lparr> tg_name := name, tg_color := c, tg_updatedAt := d \<rparr>"] a assms(2) by simp
  qed
  then show ?thesis using assms(1,3) unfolding updateThreadTag_def Let_def try_in_def
    by (cases "map_get (threadTags s) (key [td_tenantId inp, td_tagId inp])") (auto split: sum.splits)
qed

lemma map_get_Cons: "map_get ((k', v) # m) k = (if k = k' then Some v else map_get m k)"
  by (simp add: map_get_def)

lemma unlink_tag_Cons:
  "unlink_tag tenantId tagId ((linkKey, tags) # links) =
     (if starts_with linkKey (tenantId @ [CHR 0x00]) \<and> filter (\<lambda>t. t \<noteq> tagId) tags = [] then [] 
      else [(linkKey, if starts_with linkKey (tenantId @ [CHR 0x00]) then filter (\<lambda>t. t \<noteq> tagId) tags else tags)]) @ unlink_tag tenantId tagId links"
  by (simp add: Let_def del: filter_empty_conv)

declare unlink_tag.simps(2) [simp del]

lemma keys_unlink: "set (map fst (unlink_tag tenantId tagId links)) \<subseteq> set (map fst links)"
proof (induction links)
  case (Cons p links)
  then show ?case by (cases p) (auto simp: unlink_tag_Cons split: if_splits)
qed simp

lemma map_ok_unlink: "map_ok links \<Longrightarrow> map_ok (unlink_tag tenantId tagId links)"
proof (induction links)
  case (Cons p links)
  then show ?case using keys_unlink [of tenantId tagId links] by (cases p) (auto simp: map_ok_def unlink_tag_Cons)
qed simp

lemma map_get_unlink:
  "map_ok links \<Longrightarrow> map_get (unlink_tag tenantId tagId links) k =
     (case map_get links k of None \<Rightarrow> None | Some ids \<Rightarrow>
        if \<not> starts_with k (tenantId @ [CHR 0x00]) then Some ids
        else if filter (\<lambda>t. t \<noteq> tagId) ids = [] then None else Some (filter (\<lambda>t. t \<noteq> tagId) ids))"
proof (induction links)
  case (Cons p links)
  obtain linkKey tags where p: "p = (linkKey, tags)" by (cases p)
  have ok: "map_ok links" "linkKey \<notin> set (map fst links)" using Cons.prems unfolding p by (simp_all add: map_ok_def)
  then have "map_get (unlink_tag tenantId tagId links) linkKey = None"
    using keys_unlink [of tenantId tagId links] unfolding map_get_def map_of_eq_None_iff by auto
  then show ?case unfolding p unlink_tag_Cons using Cons.IH [OF ok(1)]
    by (cases "k = linkKey") (simp_all add: map_get_Cons del: filter_empty_conv)
qed simp

lemma tags_named_subset:
  "tags_named loc m \<Longrightarrow> map_ok m' \<Longrightarrow> (\<And>k t. map_get m' k = Some t \<Longrightarrow> map_get m k = Some t) \<Longrightarrow> tags_named loc m'"
  unfolding tags_named_def by blast

lemma deleteThreadTag_ok:
  assumes ok: "tags_ok loc s" and nul: "CHR 0x00 \<notin> set tenantId" and del: "deleteThreadTag tenantId tagId s = (r, s')"
  shows "tags_ok loc s'"
proof (cases "requireTenant s tenantId")
  case (Inr u)
  let ?k = "key [tenantId, tagId]"
  have s': "threadTags s' = map_delete ?k (threadTags s)" "threadTagLinks s' = unlink_tag tenantId tagId (threadTagLinks s)"
    using del Inr by (auto simp: deleteThreadTag_def try_in_def Let_def)
  have named: "tags_named loc (threadTags s)" using ok by (simp add: tags_ok_def)
  have "map_ok (threadTags s)" using named by (simp only: tags_named_def)
  then have "tags_named loc (threadTags s')" unfolding s' by (intro tags_named_subset [OF named]) (auto split: if_splits)
  moreover have "link_ok (threadTags s') k ids'" if get: "map_get (threadTagLinks s') k = Some ids'" for k ids'
  proof -
    have links: "map_ok (threadTagLinks s)" using ok by (simp add: tags_ok_def tags_linked_def)
    obtain ids where ids: "map_get (threadTagLinks s) k = Some ids"
        "ids' = (if starts_with k (tenantId @ [CHR 0x00]) then filter (\<lambda>t. t \<noteq> tagId) ids else ids)"
      using get map_get_unlink [OF links, of tenantId tagId k] unfolding s' by (auto split: option.splits if_splits)
    then obtain t i where k: "k = key [t, i]" "CHR 0x00 \<notin> set t" "distinct ids" "\<forall>j\<in>set ids. map_has (threadTags s) (key [t, j])"
      using ok unfolding tags_ok_def tags_linked_def link_ok_def by metis
    have "map_has (threadTags s') (key [t, j])" if j: "j \<in> set ids'" for j
    proof -
      have "j \<in> set ids" "key [t, j] \<noteq> ?k" using j ids(2) key_two_prefix [OF nul k(2), of i] key_two_eq [OF k(2) nul] k(1) by (auto split: if_splits)
      then show ?thesis using k(4) unfolding s' by (auto simp: map_has_def)
    qed
    then show ?thesis unfolding link_ok_def using k(1,2,3) ids(2) by (metis distinct_filter)
  qed
  ultimately show ?thesis using ok map_ok_unlink unfolding tags_ok_def tags_linked_def s'(2) by blast
qed (use ok del in \<open>simp add: deleteThreadTag_def try_in_def\<close>)

lemma link_checkD:
  assumes "link_check inp s = Inr (sessionIds, tagIds)" "j \<in> set tagIds"
  shows "map_has (threadTags s) (key [tk_tenantId inp, j])"
proof -
  have "check_all (requireThreadTag s (tk_tenantId inp)) tagIds = Inr ()"
    using assms(1) by (auto simp: link_check_def try_pure_def split: sum.splits)
  then have "\<forall>j\<in>set tagIds. \<exists>t. requireThreadTag s (tk_tenantId inp) j = Inr t"
    by (induction tagIds) (auto simp: try_pure_def split: sum.splits)
  then show ?thesis using assms(2) by (fastforce simp: requireThreadTag_def map_has_def split: option.splits)
qed

lemma set_fold_add: "set (fold set_add xs ys) = set xs \<union> set ys"
  by (induction xs arbitrary: ys) (auto simp: set_add_def)

lemma distinct_fold_add: "distinct ys \<Longrightarrow> distinct (fold set_add xs ys)"
  by (induction xs arbitrary: ys) (auto simp: set_add_def)

lemma tags_linked_link:
  assumes "tags_linked m links" "CHR 0x00 \<notin> set t" "\<And>j. j \<in> set tagIds \<Longrightarrow> map_has m (key [t, j])"
  shows "tags_linked m (link_session tagIds (key [t, i]) links)"
proof -
  have new: "link_ok m (key [t, i]) (fold set_add tagIds (coalesce (map_get links (key [t, i])) []))"
  proof -
    have old: "distinct ids \<and> (\<forall>j\<in>set ids. map_has m (key [t, j]))" if get: "map_get links (key [t, i]) = Some ids" for ids
    proof -
      obtain t' i' where h: "key [t, i] = key [t', i']" "CHR 0x00 \<notin> set t'" "distinct ids" "\<forall>j\<in>set ids. map_has m (key [t', j])"
        using assms(1) get unfolding tags_linked_def link_ok_def by metis
      then show ?thesis using key_two_eq [OF assms(2) h(2)] by simp
    qed
    show ?thesis unfolding link_ok_def
    proof (intro exI conjI ballI)
      show "distinct (fold set_add tagIds (coalesce (map_get links (key [t, i])) []))"
        using old by (intro distinct_fold_add) (simp add: coalesce_def split: option.split)
      show "map_has m (key [t, j])" if "j \<in> set (fold set_add tagIds (coalesce (map_get links (key [t, i])) []))" for j
        using that old assms(3) by (cases "map_get links (key [t, i])") (auto simp: set_fold_add coalesce_def)
    qed (use assms(2) in auto)
  qed
  then show ?thesis using assms(1) unfolding tags_linked_def link_session_def by simp
qed

lemma tags_linked_unlink:
  assumes "tags_linked m links"
  shows "tags_linked m (unlink_session tagIds k links)"
proof (cases "map_get links k")
  case (Some ids)
  then have "link_ok m k ids" using assms unfolding tags_linked_def by blast
  then have "link_ok m k (filter (\<lambda>t. t \<notin> set tagIds) ids)" unfolding link_ok_def by (metis distinct_filter filter_is_subset subsetD)
  then show ?thesis using assms Some unfolding tags_linked_def unlink_session_def by (simp add: Let_def)
qed (use assms in \<open>simp add: unlink_session_def\<close>)

lemma applyThreadTags_ok:
  assumes "tags_ok loc s" "CHR 0x00 \<notin> set (tk_tenantId inp)" "applyThreadTags inp s = (r, s')"
  shows "tags_ok loc s'"
proof (cases "link_check inp s")
  case (Inr p)
  obtain sessionIds tagIds where p: "p = (sessionIds, tagIds)" by (cases p)
  have "tags_linked (threadTags s) (fold (\<lambda>i. link_session tagIds (key [tk_tenantId inp, i])) is links)" if "tags_linked (threadTags s) links" for "is" links
    using that link_checkD [OF Inr [unfolded p]] by (induction "is" arbitrary: links) (auto intro!: tags_linked_link assms(2))
  then show ?thesis using assms(1,3) Inr p by (auto simp: applyThreadTags_def try_in_def tags_ok_def)
qed (use assms in \<open>simp add: applyThreadTags_def try_in_def\<close>)

lemma removeThreadTags_ok:
  assumes "tags_ok loc s" "removeThreadTags inp s = (r, s')"
  shows "tags_ok loc s'"
proof (cases "link_check inp s")
  case (Inr p)
  obtain sessionIds tagIds where p: "p = (sessionIds, tagIds)" by (cases p)
  have "tags_linked (threadTags s) (fold (\<lambda>i. unlink_session tagIds (key [tk_tenantId inp, i])) is links)" if "tags_linked (threadTags s) links" for "is" links
    using that by (induction "is" arbitrary: links) (auto intro!: tags_linked_unlink)
  then show ?thesis using assms Inr p by (auto simp: removeThreadTags_def try_in_def tags_ok_def)
qed (use assms in \<open>simp add: removeThreadTags_def try_in_def\<close>)

text \<open>A tenant id is NUL-free; steps of the other domains do not touch the two maps.\<close>

inductive tag_step :: "thread_locale \<Rightarrow> 'a thread_store_scheme \<Rightarrow> 'a thread_store_scheme \<Rightarrow> bool" for loc where
  create: "CHR 0x00 \<notin> set (tc_tenantId inp) \<Longrightarrow> createThreadTag e loc inp s = (r, s') \<Longrightarrow> tag_step loc s s'"
| update: "CHR 0x00 \<notin> set (td_tenantId upd) \<Longrightarrow> updateThreadTag e loc upd s = (ru, s') \<Longrightarrow> tag_step loc s s'"
| delete: "CHR 0x00 \<notin> set tenantId \<Longrightarrow> deleteThreadTag tenantId tagId s = (rb, s') \<Longrightarrow> tag_step loc s s'"
| apply_tags: "CHR 0x00 \<notin> set (tk_tenantId l) \<Longrightarrow> applyThreadTags l s = (rl, s') \<Longrightarrow> tag_step loc s s'"
| remove_tags: "removeThreadTags l s = (rl, s') \<Longrightarrow> tag_step loc s s'"
| other: "threadTags s' = threadTags s \<Longrightarrow> threadTagLinks s' = threadTagLinks s \<Longrightarrow> tag_step loc s s'"

lemma tag_step_ok: "tag_step loc s s' \<Longrightarrow> tags_ok loc s \<Longrightarrow> tags_ok loc s'"
proof (induction rule: tag_step.induct)
  case (other s' s)
  then show ?case by (simp add: tags_ok_def)
qed (blast intro: createThreadTag_ok updateThreadTag_ok deleteThreadTag_ok applyThreadTags_ok removeThreadTags_ok)+

lemma tag_steps_ok: "(tag_step loc)\<^sup>*\<^sup>* s s' \<Longrightarrow> tags_ok loc s \<Longrightarrow> tags_ok loc s'"
  by (induction rule: rtranclp_induct) (auto intro: tag_step_ok)

lemma distinct_map_keys:
  "distinct (map fst xs) \<Longrightarrow> (\<And>p q. p \<in> set xs \<Longrightarrow> q \<in> set xs \<Longrightarrow> g p = g q \<Longrightarrow> fst p = fst q) \<Longrightarrow> distinct (map g xs)"
  unfolding distinct_map by (meson inj_on_def)

lemma listed_names_distinct:
  assumes "tags_named loc (threadTags s)" "listThreadTags loc s tenantId = Inr ts"
  shows "distinct (map (\<lambda>t. locale_lower loc (tg_name t)) ts)"
proof -
  let ?m = "filter (\<lambda>p. tg_tenantId (snd p) = tenantId) (threadTags s)"
  have ok: "map_ok (threadTags s)" using assms(1) by (simp only: tags_named_def)
  have same: "fst p = fst q" if h: "p \<in> set ?m" "q \<in> set ?m" "locale_lower loc (tg_name (snd p)) = locale_lower loc (tg_name (snd q))" for p q
  proof -
    have "map_get (threadTags s) (fst p) = Some (snd p)" "map_get (threadTags s) (fst q) = Some (snd q)" "tg_tenantId (snd p) = tg_tenantId (snd q)"
      using h(1,2) ok by (auto intro: in_set_map_get)
    then show ?thesis using assms(1) h(3) unfolding tags_named_def by blast
  qed
  have "distinct (map fst ?m)" using ok by (simp add: map_ok_def distinct_map_filter)
  from distinct_map_keys [OF this same] have names: "distinct (map (\<lambda>p. locale_lower loc (tg_name (snd p))) ?m)" .
  have "ts = js_sort (cmp_by tg_name (base_compare loc)) (map snd ?m)"
    using assms(2) by (auto simp: listThreadTags_def try_pure_def map_values_def filter_map comp_def split: sum.splits)
  then have "mset (map (\<lambda>t. locale_lower loc (tg_name t)) ts) = mset (map (\<lambda>p. locale_lower loc (tg_name (snd p))) ?m)"
    by (simp add: image_mset.compositionality comp_def)
  then show ?thesis using names by (metis mset_eq_imp_distinct_iff)
qed

lemma shown_tags:
  assumes "tags_ok loc s" "CHR 0x00 \<notin> set t" "sessionTagLinkIds s t i = Some ids"
  shows "distinct ids \<and> mset (map tg_tagId (tagsForSession loc s t i)) = mset ids"
proof -
  have get: "map_get (threadTagLinks s) (key [t, i]) = Some ids" using assms(3) by (simp add: sessionTagLinkIds_def)
  then obtain t' i' where h: "key [t, i] = key [t', i']" "CHR 0x00 \<notin> set t'" "distinct ids" "\<forall>j\<in>set ids. map_has (threadTags s) (key [t', j])"
    using assms(1) unfolding tags_ok_def tags_linked_def link_ok_def by metis
  have t: "t' = t" using h(1) key_two_eq [OF assms(2) h(2)] by simp
  have tag: "\<exists>x. map_get (threadTags s) (key [t, j]) = Some x \<and> tg_tagId x = j" if j: "j \<in> set ids" for j
  proof -
    obtain x where x: "map_get (threadTags s) (key [t, j]) = Some x" using h(4) j t by (auto simp: map_has_def)
    then have "key [tg_tenantId x, tg_tagId x] = key [t, j] \<and> CHR 0x00 \<notin> set (tg_tenantId x)"
      using assms(1) unfolding tags_ok_def tags_named_def by blast
    then show ?thesis using x key_two_eq [OF _ assms(2)] by metis
  qed
  then have shown: "map tg_tagId (List.map_filter (\<lambda>j. map_get (threadTags s) (key [t, j])) ids) = ids"
  proof (induction ids)
    case (Cons j ids)
    then obtain x where "map_get (threadTags s) (key [t, j]) = Some x" "tg_tagId x = j" using Cons.prems [of j] by auto
    moreover have "map tg_tagId (List.map_filter (\<lambda>j. map_get (threadTags s) (key [t, j])) ids) = ids" using Cons by simp
    ultimately show ?case by (simp add: List.map_filter_simps)
  qed (simp add: List.map_filter_simps)
  have "mset (map tg_tagId (js_sort c xs)) = mset (map tg_tagId xs)" for c and xs :: "thread_tag list" by simp
  then show ?thesis using h(3) get shown by (simp only: tagsForSession_def option.case)
qed

lemma deleted_tag_unlinked:
  assumes "tags_ok loc s" "deleteThreadTag t tagId s = (Inr b, s')" "sessionTagLinkIds s' t i = Some ids"
  shows "tagId \<notin> set ids"
proof -
  have links: "map_ok (threadTagLinks s)" using assms(1) by (simp add: tags_ok_def tags_linked_def)
  have "map_get (unlink_tag t tagId (threadTagLinks s)) (key [t, i]) = Some ids"
    using assms(2,3) by (auto simp: deleteThreadTag_def try_in_def Let_def sessionTagLinkIds_def split: sum.splits)
  moreover have "starts_with (key [t, i]) (t @ [CHR 0x00])" by (auto simp: starts_with_iff key_pair)
  ultimately show ?thesis using map_get_unlink [OF links, of t tagId "key [t, i]"] by (auto split: option.splits if_splits)
qed

text \<open>C29: the tags of a tenant stay consistent. However creations, renamings, deletions, taggings and untaggings by NUL-free
  tenants interleave, failing ones included, from an empty index: no two listed tags of a tenant have the same name up to case,
  a session shows each tag it is linked to exactly once and nothing else, and once a tag is deleted no session of its
  tenant is linked to its id, so that a later tag with the same id starts without sessions.\<close>

theorem thread_tags_consistent:
  assumes "threadTags s = []" "threadTagLinks s = []" "(tag_step loc)\<^sup>*\<^sup>* s s'" "CHR 0x00 \<notin> set t"
  shows "(listThreadTags loc s' t = Inr ts \<longrightarrow> distinct (map (\<lambda>x. locale_lower loc (tg_name x)) ts))
    \<and> (sessionTagLinkIds s' t i = Some ids \<longrightarrow> distinct ids \<and> mset (map tg_tagId (tagsForSession loc s' t i)) = mset ids)
    \<and> (deleteThreadTag t tagId s' = (Inr b, s2) \<and> sessionTagLinkIds s2 t j = Some js \<longrightarrow> tagId \<notin> set js)"
proof -
  have "tags_ok loc s" using assms(1,2) by (simp add: tags_ok_def tags_named_def tags_linked_def)
  then have ok: "tags_ok loc s'" by (rule tag_steps_ok [OF assms(3)])
  then show ?thesis using listed_names_distinct shown_tags [OF ok assms(4)] deleted_tag_unlinked [OF ok]
    by (auto simp: tags_ok_def)
qed

definition sample_locale :: thread_locale where
  "sample_locale = \<lparr> locale_lower = js_lower, base_compare = (\<lambda>a b. cmp_code_units (js_lower a) (js_lower b)) \<rparr>"

definition sample_thread_store :: thread_store where
  "sample_thread_store = workflow_store.extend sample_store
     \<lparr> threadTags = [], threadTagLinks = [], threadSmartFilters = [], heartbeats = [], migrations = [] \<rparr>"

definition sample_tag_input :: "string \<Rightarrow> string \<Rightarrow> create_tag_input" where
  "sample_tag_input i n = \<lparr> tc_tenantId = ''t'', tc_tagId = i, tc_name = n, tc_color = None, tc_createdAt = None \<rparr>"

definition tagged_store :: thread_store where
  "tagged_store = snd (applyThreadTags \<lparr> tk_tenantId = ''t'', tk_sessionIds = [''s1''], tk_tagIds = [''b'', ''a'', ''b''] \<rparr>
     (snd (createThreadTag sample_env sample_locale (sample_tag_input ''b'' ''Later'')
       (snd (createThreadTag sample_env sample_locale (sample_tag_input ''a'' ''Urgent'') sample_thread_store)))))"

lemma tagged_store_steps: "(tag_step sample_locale)\<^sup>*\<^sup>* sample_thread_store tagged_store"
proof -
  let ?s1 = "snd (createThreadTag sample_env sample_locale (sample_tag_input ''a'' ''Urgent'') sample_thread_store)"
  let ?s2 = "snd (createThreadTag sample_env sample_locale (sample_tag_input ''b'' ''Later'') ?s1)"
  have 1: "tag_step sample_locale sample_thread_store ?s1" "tag_step sample_locale ?s1 ?s2"
    by (rule tag_step.create [OF _ surjective_pairing], simp add: sample_tag_input_def)+
  have "tag_step sample_locale ?s2 tagged_store"
    unfolding tagged_store_def by (rule tag_step.apply_tags [OF _ surjective_pairing]) simp
  then show ?thesis using 1 by (meson converse_rtranclp_into_rtranclp rtranclp.rtrancl_refl)
qed

theorem thread_tags_consistent_witness:
  "(case listThreadTags sample_locale tagged_store ''t'' of
      Inr ts \<Rightarrow> map tg_name ts = [''Later'', ''Urgent''] \<and> distinct (map (\<lambda>x. locale_lower sample_locale (tg_name x)) ts) | Inl _ \<Rightarrow> False)
   \<and> sessionTagLinkIds tagged_store ''t'' ''s1'' = Some [''b'', ''a'']
   \<and> mset (map tg_tagId (tagsForSession sample_locale tagged_store ''t'' ''s1'')) = mset [''b'', ''a'']"
proof -
  have c: "case listThreadTags sample_locale tagged_store ''t'' of Inr ts \<Rightarrow> map tg_name ts = [''Later'', ''Urgent''] | Inl _ \<Rightarrow> False" by code_simp
  then obtain ts where ts: "listThreadTags sample_locale tagged_store ''t'' = Inr ts" by (auto split: sum.splits)
  have l: "sessionTagLinkIds tagged_store ''t'' ''s1'' = Some [''b'', ''a'']" by code_simp
  have e: "threadTags sample_thread_store = []" "threadTagLinks sample_thread_store = []" "CHR 0x00 \<notin> set ''t''"
    by (simp_all add: sample_thread_store_def workflow_store.extend_def)
  show ?thesis using thread_tags_consistent [OF e(1,2) tagged_store_steps e(3), of ts "''s1''" "[''b'', ''a'']"] c ts l by simp
qed

section \<open>Retention\<close>

definition all_events :: "session_state jsmap \<Rightarrow> (string \<times> session_event) list" where
  "all_events m = concat (map (\<lambda>(k, ss). map (Pair k) (ss_events ss)) m)"

definition event_ids_ok :: "session_state jsmap \<Rightarrow> bool" where
  "event_ids_ok m = (map_ok m \<and> (\<forall>p\<in>set m. distinct (map ev_eventId (ss_events (snd p)))))"

lemma all_events_mem: "(k, v) \<in> set (all_events m) \<longleftrightarrow> (\<exists>ss. (k, ss) \<in> set m \<and> v \<in> set (ss_events ss))"
  by (auto simp: all_events_def)

lemma event_ids_distinct: "event_ids_ok m \<Longrightarrow> distinct (map (\<lambda>p. (fst p, ev_eventId (snd p))) (all_events m))"
proof (induction m)
  case (Cons p m)
  obtain k ss where p: "p = (k, ss)" by (cases p)
  have "k \<notin> fst ` set m" "event_ids_ok m" "distinct (map ev_eventId (ss_events ss))"
    using Cons.prems unfolding p by (auto simp: event_ids_ok_def map_ok_def)
  moreover have "fst q \<in> fst ` set m" if "q \<in> set (all_events m)" for q
  proof -
    have "(fst q, snd q) \<in> set (all_events m)" using that by simp
    then obtain ss' where "(fst q, ss') \<in> set m" unfolding all_events_mem by blast
    then show ?thesis by force
  qed
  moreover have "distinct (map (\<lambda>v. (k, ev_eventId v)) (ss_events ss))"
    using \<open>distinct (map ev_eventId (ss_events ss))\<close> by (auto simp: distinct_map inj_on_def)
  moreover have "all_events (p # m) = map (Pair k) (ss_events ss) @ all_events m" by (simp add: all_events_def p)
  ultimately show ?case using Cons.IH by (auto simp: comp_def)
qed (simp add: all_events_def)

lemma all_events_drop:
  "all_events (map (drop_events L) m) = filter (\<lambda>p. \<not> list_ex (\<lambda>q. fst q = fst p \<and> ev_eventId (snd q) = ev_eventId (snd p)) L) (all_events m)"
  by (induction m) (auto simp: all_events_def drop_events_def filter_map comp_def)

lemma drop_exact:
  assumes "event_ids_ok m" "set L \<subseteq> set (all_events m)"
  shows "all_events (map (drop_events L) m) = filter (\<lambda>p. p \<notin> set L) (all_events m)"
  unfolding all_events_drop
proof (rule filter_cong [OF refl])
  fix p
  assume p: "p \<in> set (all_events m)"
  have "q = p" if "q \<in> set L" "fst q = fst p" "ev_eventId (snd q) = ev_eventId (snd p)" for q
    using event_ids_distinct [OF assms(1)] that p assms(2) by (auto simp: distinct_map inj_on_def)
  then show "(\<not> list_ex (\<lambda>q. fst q = fst p \<and> ev_eventId (snd q) = ev_eventId (snd p)) L) = (p \<notin> set L)"
    by (auto simp: list_ex_iff)
qed

lemma event_ids_drop: "event_ids_ok m \<Longrightarrow> event_ids_ok (map (drop_events L) m)"
proof -
  assume ok: "event_ids_ok m"
  have "map fst (map (drop_events L) m) = map fst m" by (simp add: drop_events_def split_beta)
  then have "map_ok (map (drop_events L) m)" using ok by (simp only: event_ids_ok_def map_ok_def)
  then show ?thesis using ok by (auto simp: event_ids_ok_def drop_events_def distinct_map_filter)
qed

definition prune_batch :: "iso \<Rightarrow> nat \<Rightarrow> session_state jsmap \<Rightarrow> (string \<times> session_event) list" where
  "prune_batch cutoff n m = take n (js_sort (cmp_by (\<lambda>p. ev_createdAt (snd p)) cmp_int) (stale_events cutoff m))"

lemma prune_is_batch:
  "pruneExpiredSessionEvents cutoff (JInt l) s =
     (let L = prune_batch cutoff (nat (max 1 (min 10000 l))) (sessions s) in (length L, s\<lparr> sessions := map (drop_events L) (sessions s) \<rparr>))"
  by (simp add: pruneExpiredSessionEvents_def prune_batch_def slice_int_def Let_def)

lemma stale_events_all: "stale_events cutoff m = filter (\<lambda>p. ev_createdAt (snd p) < cutoff) (all_events m)"
  by (simp add: stale_events_def all_events_def)

text \<open>C30: retention takes the oldest events and nothing else. A call removes at most the requested number of events, and
  never more than 10000 (a requested number below 1 counts as 1); every removed event is older than the cut-off and no older one stays; all other events
  stay in their order, and sessions are otherwise untouched. While events older than the cut-off remain, a call removes one,
  so that repeating it ends with none left.\<close>

theorem retention_prune_oldest_first:
  assumes "event_ids_ok (sessions s)" "pruneExpiredSessionEvents cutoff (JInt l) s = (n, s')"
  shows "event_ids_ok (sessions s') \<and> int n \<le> max 1 (min 10000 l)
    \<and> (\<exists>removed. length removed = n \<and> distinct removed \<and> set removed \<subseteq> set (all_events (sessions s))
        \<and> all_events (sessions s') = filter (\<lambda>p. p \<notin> set removed) (all_events (sessions s))
        \<and> (\<forall>p\<in>set removed. ev_createdAt (snd p) < cutoff \<and> (\<forall>q\<in>set (all_events (sessions s')). ev_createdAt (snd p) \<le> ev_createdAt (snd q))))
    \<and> map (\<lambda>(k, ss). (k, ss\<lparr> ss_events := [] \<rparr>)) (sessions s') = map (\<lambda>(k, ss). (k, ss\<lparr> ss_events := [] \<rparr>)) (sessions s)
    \<and> s' = s\<lparr> sessions := sessions s' \<rparr>
    \<and> (n = 0 \<longrightarrow> (\<forall>p\<in>set (all_events (sessions s')). cutoff \<le> ev_createdAt (snd p)))"
proof -
  define L where "L = prune_batch cutoff (nat (max 1 (min 10000 l))) (sessions s)"
  define c where "c = cmp_by (\<lambda>p :: string \<times> session_event. ev_createdAt (snd p)) cmp_int"
  have comparator: "js_comparator (cmp_by (\<lambda>p :: string \<times> session_event. ev_createdAt (snd p)) cmp_int)"
    by (rule js_comparator_by [OF int_order.js_comparator_axioms])
  have n: "n = length L" and s': "s' = s\<lparr> sessions := map (drop_events L) (sessions s) \<rparr>"
    using assms(2) by (simp_all add: prune_is_batch L_def Let_def)
  have ids: "distinct (stale_events cutoff (sessions s))"
    using event_ids_distinct [OF assms(1)] by (simp add: stale_events_all distinct_map)
  have L: "L = take (nat (max 1 (min 10000 l))) (js_sort c (stale_events cutoff (sessions s)))" by (simp add: L_def prune_batch_def c_def)
  have sub: "set L \<subseteq> set (stale_events cutoff (sessions s))" unfolding L by (metis set_js_sort set_take_subset)
  then have sub': "set L \<subseteq> set (all_events (sessions s))" by (auto simp: stale_events_all)
  note rest = drop_exact [OF assms(1) sub']
  have oldest: "ev_createdAt (snd p) \<le> ev_createdAt (snd q)" if p: "p \<in> set L" and q: "q \<in> set (all_events (sessions s))" "q \<notin> set L" for p q
  proof (cases "ev_createdAt (snd q) < cutoff")
    case True
    let ?k = "nat (max 1 (min 10000 l))"
    have "q \<in> set (js_sort c (stale_events cutoff (sessions s)))" using True q(1) by (simp add: stale_events_all)
    then have "q \<in> set (drop ?k (js_sort c (stale_events cutoff (sessions s))))" using q(2) unfolding L by (metis Un_iff append_take_drop_id set_append)
    then have "c p q \<le> 0" using p js_comparator.take_sort_least [OF comparator] unfolding L c_def by blast
    then show ?thesis by (simp add: c_def cmp_by_def cmp_int_def split: if_splits)
  next
    case False
    then show ?thesis using p sub by (auto simp: stale_events_all)
  qed
  have drained: "cutoff \<le> ev_createdAt (snd p)" if "n = 0" "p \<in> set (all_events (sessions s'))" for p
  proof -
    have "nat (max 1 (min 10000 l)) \<noteq> 0" by linarith
    then have "length (stale_events cutoff (sessions s)) = 0" using that(1) n unfolding L length_take length_js_sort by linarith
    then have "stale_events cutoff (sessions s) = []" by simp
    then show ?thesis using that(2) s' rest by (auto simp: stale_events_all filter_empty_conv not_less)
  qed
  show ?thesis
  proof (intro conjI)
    show "event_ids_ok (sessions s')" using event_ids_drop [OF assms(1)] by (simp add: s')
    have "n \<le> nat (max 1 (min 10000 l))" unfolding n L by simp
    then show "int n \<le> max 1 (min 10000 l)" by linarith
    show "\<exists>removed. length removed = n \<and> distinct removed \<and> set removed \<subseteq> set (all_events (sessions s))
        \<and> all_events (sessions s') = filter (\<lambda>p. p \<notin> set removed) (all_events (sessions s))
        \<and> (\<forall>p\<in>set removed. ev_createdAt (snd p) < cutoff \<and> (\<forall>q\<in>set (all_events (sessions s')). ev_createdAt (snd p) \<le> ev_createdAt (snd q)))"
      using n sub sub' ids rest oldest s' by (intro exI [of _ L]) (auto simp: L stale_events_all)
    show "map (\<lambda>(k, ss). (k, ss\<lparr> ss_events := [] \<rparr>)) (sessions s') = map (\<lambda>(k, ss). (k, ss\<lparr> ss_events := [] \<rparr>)) (sessions s)"
      by (simp add: s' drop_events_def split_beta)
    show "s' = s\<lparr> sessions := sessions s' \<rparr>" by (simp add: s')
    show "n = 0 \<longrightarrow> (\<forall>p\<in>set (all_events (sessions s')). cutoff \<le> ev_createdAt (snd p))" using drained by blast
  qed
qed

definition aged_event :: "string \<Rightarrow> iso \<Rightarrow> session_event" where
  "aged_event i t = \<lparr> ev_tenantId = ''t'', ev_sessionId = ''s1'', ev_eventId = i, ev_sequence = 1, ev_type = ''m'', ev_payload = JObj [], ev_createdAt = t \<rparr>"

definition aged_store :: workflow_store where
  "aged_store = sample_store\<lparr> sessions := map (\<lambda>(k, ss). (k, ss\<lparr> ss_events := [aged_event ''a'' 5, aged_event ''b'' 1, aged_event ''c'' 20] \<rparr>)) (sessions sample_store) \<rparr>"

theorem retention_prune_oldest_first_witness:
  "fst (pruneExpiredSessionEvents 10 (JInt 1) aged_store) = 1
   \<and> all_events (sessions (snd (pruneExpiredSessionEvents 10 (JInt 1) aged_store)))
       = [(key [''t'', ''s1''], aged_event ''a'' 5), (key [''t'', ''s1''], aged_event ''c'' 20)]
   \<and> event_ids_ok (sessions (snd (pruneExpiredSessionEvents 10 (JInt 1) aged_store)))"
proof -
  have ok: "event_ids_ok (sessions aged_store)"
    by (simp add: event_ids_ok_def map_ok_def aged_store_def sample_store_def aged_event_def)
  have "fst (pruneExpiredSessionEvents 10 (JInt 1) aged_store) = 1
   \<and> all_events (sessions (snd (pruneExpiredSessionEvents 10 (JInt 1) aged_store)))
       = [(key [''t'', ''s1''], aged_event ''a'' 5), (key [''t'', ''s1''], aged_event ''c'' 20)]" by code_simp
  then show ?thesis using retention_prune_oldest_first [OF ok surjective_pairing] by blast
qed

end
