(* ===== verification/Coordination_Watches.thy ===== *)
theory Coordination_Watches
  imports Session_Safety Audited_Writes
begin

text \<open>
  Watches: subscriptions of a chat channel to events of a workspace (\<open>in-memory-domains/coordination-watches.ts\<close>,
  \<open>coordination-watch-records.ts\<close>, the vocabularies of \<open>packages/shared/src/coordination.ts\<close>). A field the
  normalizers receive as \<open>unknown\<close> is \<open>None\<close> when it is undefined and \<open>Some\<close> of a JSON value otherwise. Shown:
  a stored watch is well formed after any sequence of operations, and an event reaches exactly the active
  watches that subscribe to it, most recently updated first.
\<close>


section \<open>Vocabularies\<close>

definition COORDINATION_WATCH_TARGETS :: "string list" where
  "COORDINATION_WATCH_TARGETS = [''conversation'', ''playbook'', ''project'', ''task'', ''workflow'', ''run'', ''session'']"

definition COORDINATION_WATCH_EVENTS :: "string list" where
  "COORDINATION_WATCH_EVENTS = [''task.moved'', ''task.review_ready'', ''run.finished'', ''needs_input'', ''daily_summary'']"

definition COORDINATION_WATCH_STATUSES :: "string list" where
  "COORDINATION_WATCH_STATUSES = [''active'', ''paused'', ''expired'']"

definition COORDINATION_WATCH_VERBOSITIES :: "string list" where
  "COORDINATION_WATCH_VERBOSITIES = [''quiet'', ''normal'', ''verbose'', ''debug'']"

definition COORDINATION_WATCH_RECIPIENT_ROLES :: "string list" where
  "COORDINATION_WATCH_RECIPIENT_ROLES = [''owner'', ''admin'', ''member'', ''approver'', ''viewer'']"

definition WORKSPACE_PRODUCT_SURFACES :: "string list" where
  "WORKSPACE_PRODUCT_SURFACES = [''desktop_local'', ''desktop_cloud'', ''cloud_web'', ''cloud_channel_gateway'', ''gateway_standalone'',
     ''desktop_paired'', ''admin_operator'']"


section \<open>Records\<close>

record watch_target =
  xt_kind :: string
  xt_id :: string

record watch_channel =
  wn_provider :: string
  wn_agentId :: string
  wn_channelBindingId :: string
  wn_sessionBindingId :: "string option"
  wn_target :: json

record watch_recipient =
  wr_identityId :: "string option"
  wr_role :: "string option"
  wr_label :: "string option"

text \<open>The text of the number, where the cursor is a number.\<close>

datatype watch_cursor = CursorText string | CursorNumber string

record watch =
  wx_id :: string
  wx_workspaceId :: string
  wx_ownerAuthority :: string
  wx_executionAuthority :: string
  wx_stateOwner :: string
  wx_target :: watch_target
  wx_events :: "string list"
  wx_channel :: watch_channel
  wx_recipient :: "watch_recipient option"
  wx_status :: string
  wx_deliverySurface :: string
  wx_verbosity :: string
  wx_cursor :: "watch_cursor option"
  wx_createdAt :: iso
  wx_updatedAt :: iso

record watch_patch =
  wp_target :: "json option"
  wp_events :: "json option"
  wp_channel :: "json option"
  wp_recipient :: "json option"
  wp_status :: "json option"
  wp_deliverySurface :: "json option"
  wp_verbosity :: "json option"
  wp_cursor :: "json option"

record create_watch_input = watch_patch +
  wp_workspaceId :: string
  wp_watchId :: "string option"
  wp_createdAt :: "iso option"

record update_watch_input =
  wu_workspaceId :: string
  wu_watchId :: string
  wu_patch :: watch_patch
  wu_updatedAt :: "iso option"

record list_watches_input =
  wq_workspaceId :: string
  wq_target :: "watch_target option"
  wq_status :: "string option"
  wq_limit :: "jsnum option"

record match_watches_input =
  wm_workspaceId :: string
  wm_eventType :: string
  wm_targets :: "watch_target list"
  wm_limit :: "jsnum option"


section \<open>Normalizers\<close>

fun json_text :: "json option \<Rightarrow> string \<Rightarrow> error + string option" where
  "json_text None label = Inr None"
| "json_text (Some JNull) label = Inr None"
| "json_text (Some (JStr s)) label = Inr (Some s)"
| "json_text (Some _) label = Inl (Error (label @ '' must be a string.''))"

definition optionalString :: "json option \<Rightarrow> string \<Rightarrow> int \<Rightarrow> error + string option" where
  "optionalString value label maxBytes =
     try_pure (json_text value label) (\<lambda>v.
       case map_option js_trim v of
         None \<Rightarrow> Inr None
       | Some t \<Rightarrow> if t = [] then Inr None
           else if utf8_length t > maxBytes then Inl (Error (label @ '' is too large.'')) else Inr (Some t))"

definition requiredString :: "json option \<Rightarrow> string \<Rightarrow> int \<Rightarrow> error + string" where
  "requiredString value label maxBytes =
     try_pure (optionalString value label maxBytes) (\<lambda>v.
       case v of None \<Rightarrow> Inl (Error (label @ '' is required.'')) | Some t \<Rightarrow> Inr t)"

definition jsonString :: "json \<Rightarrow> string \<Rightarrow> int \<Rightarrow> error + string" where
  "jsonString value label maxBytes =
     (let text = json_print value in if utf8_length text > maxBytes then Inl (Error (label @ '' is too large.'')) else Inr text)"

text \<open>Reading a property of a JavaScript object; of repeated keys the last assignment counts, so keys are distinct.\<close>

definition watch_field :: "(string \<times> json) list \<Rightarrow> string \<Rightarrow> json option" where
  "watch_field kvs k = map_of kvs k"

definition in_catalog :: "string list \<Rightarrow> json option \<Rightarrow> string option" where
  "in_catalog catalog v = (case v of Some (JStr s) \<Rightarrow> (if s \<in> set catalog then Some s else None) | _ \<Rightarrow> None)"

definition isCoordinationWatchTarget :: "json option \<Rightarrow> bool" where
  "isCoordinationWatchTarget v = (in_catalog COORDINATION_WATCH_TARGETS v \<noteq> None)"

definition isCoordinationWatchEvent :: "json option \<Rightarrow> bool" where
  "isCoordinationWatchEvent v = (in_catalog COORDINATION_WATCH_EVENTS v \<noteq> None)"

definition isCoordinationWatchStatus :: "json option \<Rightarrow> bool" where
  "isCoordinationWatchStatus v = (in_catalog COORDINATION_WATCH_STATUSES v \<noteq> None)"

definition isCoordinationWatchVerbosity :: "json option \<Rightarrow> bool" where
  "isCoordinationWatchVerbosity v = (in_catalog COORDINATION_WATCH_VERBOSITIES v \<noteq> None)"

definition isCoordinationWatchRecipientRole :: "json option \<Rightarrow> bool" where
  "isCoordinationWatchRecipientRole v = (in_catalog COORDINATION_WATCH_RECIPIENT_ROLES v \<noteq> None)"

definition as_text :: "json option \<Rightarrow> string" where
  "as_text v = (case v of Some (JStr s) \<Rightarrow> s | _ \<Rightarrow> [])"

definition normalizeWatchTarget :: "json option \<Rightarrow> error + watch_target" where
  "normalizeWatchTarget value =
     (case value of
        Some (JObj kvs) \<Rightarrow>
          if \<not> isCoordinationWatchTarget (watch_field kvs ''kind'') then Inl (Error ''Watch target kind is invalid.'')
          else try_pure (requiredString (watch_field kvs ''id'') ''Watch target id'' 512) (\<lambda>i.
            Inr \<lparr> xt_kind = as_text (watch_field kvs ''kind''), xt_id = i \<rparr>)
      | _ \<Rightarrow> Inl (Error ''Watch target is required.''))"

definition normalizeWatchEvents :: "json option \<Rightarrow> error + string list" where
  "normalizeWatchEvents value =
     (case value of
        Some (JArr (v # vs)) \<Rightarrow>
          if list_all (\<lambda>x. isCoordinationWatchEvent (Some x)) (v # vs)
          then Inr (take 16 (js_unique (map (\<lambda>x. as_text (Some x)) (v # vs)))) else Inl (Error ''Watch event is invalid.'')
      | _ \<Rightarrow> Inl (Error ''Watch events must be a non-empty array.''))"

definition absent :: "json option \<Rightarrow> bool" where
  "absent v = (v = None \<or> v = Some JNull)"

definition normalizeWatchStatus :: "json option \<Rightarrow> string \<Rightarrow> error + string" where
  "normalizeWatchStatus value fallback =
     (if absent value then Inr fallback
      else if isCoordinationWatchStatus value then Inr (as_text value) else Inl (Error ''Watch status is invalid.''))"

definition normalizeWatchVerbosity :: "json option \<Rightarrow> string \<Rightarrow> error + string" where
  "normalizeWatchVerbosity value fallback =
     (if absent value then Inr fallback
      else if isCoordinationWatchVerbosity value then Inr (as_text value) else Inl (Error ''Watch verbosity is invalid.''))"

definition normalizeWatchDeliverySurface :: "json option \<Rightarrow> string \<Rightarrow> error + string" where
  "normalizeWatchDeliverySurface value fallback =
     (if absent value then Inr fallback
      else if in_catalog (''gateway_channel'' # WORKSPACE_PRODUCT_SURFACES) value \<noteq> None then Inr (as_text value)
      else Inl (Error ''Watch delivery surface is invalid.''))"

definition normalizeWatchRecipientRole :: "json option \<Rightarrow> error + string option" where
  "normalizeWatchRecipientRole value =
     (if absent value then Inr None
      else if isCoordinationWatchRecipientRole value then Inr (Some (as_text value)) else Inl (Error ''Watch recipient role is invalid.''))"

definition normalizeWatchChannel :: "json option \<Rightarrow> error + watch_channel" where
  "normalizeWatchChannel value =
     (case value of
        Some (JObj kvs) \<Rightarrow>
          (case watch_field kvs ''target'' of
             Some (JObj t) \<Rightarrow>
               try_pure (requiredString (watch_field kvs ''provider'') ''Watch channel provider'' 128) (\<lambda>provider.
               try_pure (requiredString (watch_field kvs ''agentId'') ''Watch channel agent id'' 256) (\<lambda>agentId.
               try_pure (requiredString (watch_field kvs ''channelBindingId'') ''Watch channel binding id'' 512) (\<lambda>bindingId.
               try_pure (optionalString (watch_field kvs ''sessionBindingId'') ''Watch channel session binding id'' 512) (\<lambda>sessionBindingId.
               try_pure (jsonString (JObj t) ''Watch channel target'' 16384) (\<lambda>_.
                 Inr \<lparr> wn_provider = provider, wn_agentId = agentId, wn_channelBindingId = bindingId, wn_sessionBindingId = sessionBindingId,
                       wn_target = JObj t \<rparr>)))))
           | _ \<Rightarrow> Inl (Error ''Watch channel target is required.''))
      | _ \<Rightarrow> Inl (Error ''Watch channel is required.''))"

definition normalizeWatchRecipient :: "json option \<Rightarrow> error + watch_recipient option" where
  "normalizeWatchRecipient value =
     (if absent value then Inr None
      else case value of
        Some (JObj kvs) \<Rightarrow>
          try_pure (optionalString (watch_field kvs ''identityId'') ''Watch recipient identity id'' 512) (\<lambda>identityId.
          try_pure (normalizeWatchRecipientRole (watch_field kvs ''role'')) (\<lambda>role.
          try_pure (optionalString (watch_field kvs ''label'') ''Watch recipient label'' 240) (\<lambda>label.
            Inr (if identityId \<noteq> None \<or> role \<noteq> None \<or> label \<noteq> None
                 then Some \<lparr> wr_identityId = identityId, wr_role = role, wr_label = label \<rparr> else None))))
      | _ \<Rightarrow> Inl (Error ''Watch recipient must be an object.''))"

definition normalizeWatchCursor :: "json option \<Rightarrow> error + watch_cursor option" where
  "normalizeWatchCursor value =
     (if absent value then Inr None
      else case value of
        Some (JStr s) \<Rightarrow> try_pure (optionalString (Some (JStr s)) ''Watch cursor'' 512) (\<lambda>t. Inr (map_option CursorText t))
      | Some (JNum n) \<Rightarrow> Inr (Some (CursorNumber n))
      | _ \<Rightarrow> Inl (Error ''Watch cursor must be a string, number, or null.''))"

definition normalizeCloudCoordinationWatchLimit :: "jsnum option \<Rightarrow> int \<Rightarrow> int \<Rightarrow> int" where
  "normalizeCloudCoordinationWatchLimit value fallback mx =
     (case value of Some (JInt n) \<Rightarrow> (if n > 0 then min n mx else fallback) | _ \<Rightarrow> fallback)"


section \<open>Operations\<close>

definition createCloudCoordinationWatchRecord :: "env \<Rightarrow> create_watch_input \<Rightarrow> error + watch" where
  "createCloudCoordinationWatchRecord e inp =
     (let createdAt = nowIso e (wp_createdAt inp) in
      try_pure (requiredString (Some (JStr (wp_workspaceId inp))) ''Watch workspace id'' 512) (\<lambda>workspaceId.
      try_pure (normalizeWatchTarget (wp_target inp)) (\<lambda>target.
      try_pure (normalizeWatchEvents (wp_events inp)) (\<lambda>events.
      try_pure (normalizeWatchChannel (wp_channel inp)) (\<lambda>channel.
      try_pure (normalizeWatchRecipient (wp_recipient inp)) (\<lambda>recipient.
      try_pure (normalizeWatchStatus (wp_status inp) ''active'') (\<lambda>status.
      try_pure (normalizeWatchDeliverySurface (wp_deliverySurface inp) ''gateway_channel'') (\<lambda>deliverySurface.
      try_pure (normalizeWatchVerbosity (wp_verbosity inp) ''normal'') (\<lambda>verbosity.
      try_pure (normalizeWatchCursor (wp_cursor inp)) (\<lambda>cursor.
        Inr \<lparr> wx_id = or_else (map_option js_trim (wp_watchId inp)) (random_text e), wx_workspaceId = workspaceId,
              wx_ownerAuthority = ''cloud_channel_gateway'', wx_executionAuthority = ''cloud_channel_gateway'', wx_stateOwner = ''cloud_control_plane'',
              wx_target = target, wx_events = events, wx_channel = channel, wx_recipient = recipient, wx_status = status,
              wx_deliverySurface = deliverySurface, wx_verbosity = verbosity, wx_cursor = cursor, wx_createdAt = createdAt, wx_updatedAt = createdAt \<rparr>))))))))))"

definition kept_or :: "json option \<Rightarrow> 'b \<Rightarrow> (json option \<Rightarrow> error + 'b) \<Rightarrow> error + 'b" where
  "kept_or value old f = (case value of None \<Rightarrow> Inr old | Some _ \<Rightarrow> f value)"

definition updateCloudCoordinationWatchRecord :: "env \<Rightarrow> watch \<Rightarrow> watch_patch \<Rightarrow> iso option \<Rightarrow> error + watch" where
  "updateCloudCoordinationWatchRecord e w patch updatedAt =
     try_pure (kept_or (wp_target patch) (wx_target w) normalizeWatchTarget) (\<lambda>target.
     try_pure (kept_or (wp_events patch) (wx_events w) normalizeWatchEvents) (\<lambda>events.
     try_pure (kept_or (wp_channel patch) (wx_channel w) normalizeWatchChannel) (\<lambda>channel.
     try_pure (kept_or (wp_recipient patch) (wx_recipient w) normalizeWatchRecipient) (\<lambda>recipient.
     try_pure (kept_or (wp_status patch) (wx_status w) (\<lambda>v. normalizeWatchStatus v (wx_status w))) (\<lambda>status.
     try_pure (normalizeWatchDeliverySurface (wp_deliverySurface patch) (wx_deliverySurface w)) (\<lambda>deliverySurface.
     try_pure (kept_or (wp_verbosity patch) (wx_verbosity w) (\<lambda>v. normalizeWatchVerbosity v (wx_verbosity w))) (\<lambda>verbosity.
     try_pure (kept_or (wp_cursor patch) (wx_cursor w) normalizeWatchCursor) (\<lambda>cursor.
       Inr (w\<lparr> wx_target := target, wx_events := events, wx_channel := channel, wx_recipient := recipient, wx_status := status,
               wx_deliverySurface := deliverySurface, wx_verbosity := verbosity, wx_cursor := cursor, wx_updatedAt := nowIso e updatedAt \<rparr>)))))))))"

definition cloudCoordinationWatchMatchesEvent :: "watch \<Rightarrow> match_watches_input \<Rightarrow> bool" where
  "cloudCoordinationWatchMatchesEvent w inp =
     (if wx_workspaceId w \<noteq> wm_workspaceId inp then False
      else if wx_status w \<noteq> ''active'' then False
      else if wm_eventType inp \<notin> set (wx_events w) then False
      else list_ex (\<lambda>t. xt_kind t = xt_kind (wx_target w) \<and> xt_id t = xt_id (wx_target w)) (wm_targets inp))"

text \<open>The domain has no host: its state is the map of watches.\<close>

type_synonym watches = "watch jsmap"

definition watch_key :: "watch \<Rightarrow> string" where
  "watch_key w = key [wx_workspaceId w, wx_id w]"

definition createWatch :: "env \<Rightarrow> create_watch_input \<Rightarrow> watches \<Rightarrow> (watches, watch) outcome" where
  "createWatch e inp m = try_in m (createCloudCoordinationWatchRecord e inp) (\<lambda>w. (Inr w, map_set (watch_key w) w m))"

definition updateWatch :: "env \<Rightarrow> update_watch_input \<Rightarrow> watches \<Rightarrow> (watches, watch option) outcome" where
  "updateWatch e inp m =
     (case map_get m (key [wu_workspaceId inp, wu_watchId inp]) of
        None \<Rightarrow> (Inr None, m)
      | Some current \<Rightarrow>
          try_in m (updateCloudCoordinationWatchRecord e current (wu_patch inp) (wu_updatedAt inp)) (\<lambda>w. (Inr (Some w), map_set (watch_key w) w m)))"

definition getWatch :: "watches \<Rightarrow> string \<Rightarrow> string \<Rightarrow> watch option" where
  "getWatch m workspaceId watchId = map_get m (key [workspaceId, watchId])"

definition newest_first :: "watch list \<Rightarrow> watch list" where
  "newest_first ws = js_sort (cmp_rev (cmp_by wx_updatedAt cmp_int)) ws"

definition listWatches :: "list_watches_input \<Rightarrow> watches \<Rightarrow> watch list" where
  "listWatches inp m =
     slice_int (newest_first
       (filter (\<lambda>w. case wq_target inp of None \<Rightarrow> True | Some t \<Rightarrow> xt_kind (wx_target w) = xt_kind t \<and> xt_id (wx_target w) = xt_id t)
       (filter (\<lambda>w. case or_null (wq_status inp) of None \<Rightarrow> True | Some st \<Rightarrow> wx_status w = st)
       (filter (\<lambda>w. wx_workspaceId w = wq_workspaceId inp) (map_values m)))))
       (normalizeCloudCoordinationWatchLimit (wq_limit inp) 500 1000)"

definition listMatchingWatches :: "match_watches_input \<Rightarrow> watches \<Rightarrow> watch list" where
  "listMatchingWatches inp m =
     (let matches = newest_first (filter (\<lambda>w. cloudCoordinationWatchMatchesEvent w inp) (map_values m)) in
      case wm_limit inp of
        Some l \<Rightarrow> (if js_truthy l then slice_int matches (normalizeCloudCoordinationWatchLimit (Some l) 1000 10000) else matches)
      | None \<Rightarrow> matches)"

definition deleteWatch :: "string \<Rightarrow> string \<Rightarrow> watches \<Rightarrow> bool \<times> watches" where
  "deleteWatch workspaceId watchId m = (map_has m (key [workspaceId, watchId]), map_delete (key [workspaceId, watchId]) m)"

section \<open>Stored watches are well formed\<close>

definition watch_wf :: "watch \<Rightarrow> bool" where
  "watch_wf w = (wx_workspaceId w \<noteq> [] \<and> xt_kind (wx_target w) \<in> set COORDINATION_WATCH_TARGETS \<and> xt_id (wx_target w) \<noteq> []
     \<and> wx_events w \<noteq> [] \<and> distinct (wx_events w) \<and> set (wx_events w) \<subseteq> set COORDINATION_WATCH_EVENTS
     \<and> wn_provider (wx_channel w) \<noteq> [] \<and> wn_agentId (wx_channel w) \<noteq> [] \<and> wn_channelBindingId (wx_channel w) \<noteq> []
     \<and> wx_status w \<in> set COORDINATION_WATCH_STATUSES \<and> wx_verbosity w \<in> set COORDINATION_WATCH_VERBOSITIES
     \<and> wx_deliverySurface w \<in> set (''gateway_channel'' # WORKSPACE_PRODUCT_SURFACES))"

definition watches_ok :: "watches \<Rightarrow> bool" where
  "watches_ok m = (map_ok m \<and> (\<forall>k w. map_get m k = Some w \<longrightarrow> watch_key w = k \<and> watch_wf w))"

lemma requiredString_Inr: "requiredString v label n = Inr t \<Longrightarrow> t \<noteq> []"
  by (auto simp: requiredString_def optionalString_def try_pure_def split: sum.splits option.splits if_splits)

lemma in_catalog_some: "in_catalog c v = Some y \<Longrightarrow> as_text v \<in> set c"
  by (auto simp: in_catalog_def as_text_def split: option.splits json.splits if_splits)

lemma in_catalog_text: "in_catalog c v \<noteq> None \<Longrightarrow> as_text v \<in> set c"
  by (auto intro: in_catalog_some)

lemma normalizeWatchTarget_Inr: "normalizeWatchTarget v = Inr t \<Longrightarrow> xt_kind t \<in> set COORDINATION_WATCH_TARGETS \<and> xt_id t \<noteq> []"
  by (auto simp: normalizeWatchTarget_def isCoordinationWatchTarget_def try_pure_def
      split: option.splits json.splits if_splits sum.splits dest: requiredString_Inr in_catalog_some)

lemma normalizeWatchEvents_Inr:
  assumes "normalizeWatchEvents v = Inr es"
  shows "es \<noteq> [] \<and> distinct es \<and> set es \<subseteq> set COORDINATION_WATCH_EVENTS"
proof -
  obtain x xs where a: "list_all (\<lambda>x. isCoordinationWatchEvent (Some x)) (x # xs)" "es = take 16 (js_unique (map (\<lambda>x. as_text (Some x)) (x # xs)))"
    using assms by (auto simp: normalizeWatchEvents_def split: option.splits json.splits list.splits if_splits)
  have "set es \<subseteq> set (js_unique (map (\<lambda>x. as_text (Some x)) (x # xs)))" unfolding a(2) by (rule set_take_subset)
  then have "set es \<subseteq> (\<lambda>x. as_text (Some x)) ` set (x # xs)" by (simp only: set_js_unique list.set_map)
  moreover have "as_text (Some y) \<in> set COORDINATION_WATCH_EVENTS" if "y \<in> set (x # xs)" for y
    using a(1) that unfolding list_all_iff isCoordinationWatchEvent_def by (blast intro: in_catalog_text)
  moreover have "distinct es" unfolding a(2) by (rule distinct_take) (rule distinct_js_unique)
  moreover have "es \<noteq> []" unfolding a(2) by simp
  ultimately show ?thesis by blast
qed

lemma normalizeWatchChannel_Inr:
  "normalizeWatchChannel v = Inr c \<Longrightarrow> wn_provider c \<noteq> [] \<and> wn_agentId c \<noteq> [] \<and> wn_channelBindingId c \<noteq> []"
  unfolding normalizeWatchChannel_def try_pure_def
  by (auto split: option.splits json.splits sum.splits dest: requiredString_Inr)

lemma normalizeWatch_texts:
  "normalizeWatchStatus v d = Inr x \<Longrightarrow> d \<in> set COORDINATION_WATCH_STATUSES \<Longrightarrow> x \<in> set COORDINATION_WATCH_STATUSES"
  "normalizeWatchVerbosity v d = Inr x \<Longrightarrow> d \<in> set COORDINATION_WATCH_VERBOSITIES \<Longrightarrow> x \<in> set COORDINATION_WATCH_VERBOSITIES"
  "normalizeWatchDeliverySurface v d = Inr x \<Longrightarrow> d \<in> set (''gateway_channel'' # WORKSPACE_PRODUCT_SURFACES)
     \<Longrightarrow> x \<in> set (''gateway_channel'' # WORKSPACE_PRODUCT_SURFACES)"
  unfolding normalizeWatchStatus_def normalizeWatchVerbosity_def normalizeWatchDeliverySurface_def
    isCoordinationWatchStatus_def isCoordinationWatchVerbosity_def
  by (auto split: if_splits simp del: set_simps intro: in_catalog_text)

lemma try_pure_InrD: "try_pure r f = Inr y \<Longrightarrow> (\<And>x. r = Inr x \<Longrightarrow> f x = Inr y \<Longrightarrow> P) \<Longrightarrow> P"
  by (auto simp: try_pure_def split: sum.splits)

lemma created_watch:
  assumes "createCloudCoordinationWatchRecord e inp = Inr w"
  shows "watch_wf w"
proof -
  have "requiredString (Some (JStr (wp_workspaceId inp))) ''Watch workspace id'' 512 = Inr (wx_workspaceId w)"
    "normalizeWatchTarget (wp_target inp) = Inr (wx_target w)" "normalizeWatchEvents (wp_events inp) = Inr (wx_events w)"
    "normalizeWatchChannel (wp_channel inp) = Inr (wx_channel w)" "normalizeWatchStatus (wp_status inp) ''active'' = Inr (wx_status w)"
    "normalizeWatchDeliverySurface (wp_deliverySurface inp) ''gateway_channel'' = Inr (wx_deliverySurface w)"
    "normalizeWatchVerbosity (wp_verbosity inp) ''normal'' = Inr (wx_verbosity w)"
    using assms unfolding createCloudCoordinationWatchRecord_def Let_def by (auto elim!: try_pure_InrD)
  note n = this
  show ?thesis unfolding watch_wf_def
    using n(1) [THEN requiredString_Inr] n(2) [THEN normalizeWatchTarget_Inr] n(3) [THEN normalizeWatchEvents_Inr]
      n(4) [THEN normalizeWatchChannel_Inr] n(5) [THEN normalizeWatch_texts(1)]
      n(6) [THEN normalizeWatch_texts(3)] n(7) [THEN normalizeWatch_texts(2)]
    by (simp add: COORDINATION_WATCH_STATUSES_def COORDINATION_WATCH_VERBOSITIES_def)
qed

lemma kept_or_Inr: "kept_or v old f = Inr x \<Longrightarrow> P old \<Longrightarrow> (\<And>y. f v = Inr y \<Longrightarrow> P y) \<Longrightarrow> P x"
  by (auto simp: kept_or_def split: option.splits)

lemma updated_watch:
  assumes "updateCloudCoordinationWatchRecord e w p t = Inr w'" "watch_wf w"
  shows "watch_wf w' \<and> watch_key w' = watch_key w"
proof -
  have n: "kept_or (wp_target p) (wx_target w) normalizeWatchTarget = Inr (wx_target w')"
    "kept_or (wp_events p) (wx_events w) normalizeWatchEvents = Inr (wx_events w')"
    "kept_or (wp_channel p) (wx_channel w) normalizeWatchChannel = Inr (wx_channel w')"
    "kept_or (wp_status p) (wx_status w) (\<lambda>v. normalizeWatchStatus v (wx_status w)) = Inr (wx_status w')"
    "normalizeWatchDeliverySurface (wp_deliverySurface p) (wx_deliverySurface w) = Inr (wx_deliverySurface w')"
    "kept_or (wp_verbosity p) (wx_verbosity w) (\<lambda>v. normalizeWatchVerbosity v (wx_verbosity w)) = Inr (wx_verbosity w')"
    "wx_workspaceId w' = wx_workspaceId w" "wx_id w' = wx_id w"
    using assms(1) unfolding updateCloudCoordinationWatchRecord_def by (auto elim!: try_pure_InrD)
  note wf = assms(2) [unfolded watch_wf_def]
  have "xt_kind (wx_target w') \<in> set COORDINATION_WATCH_TARGETS \<and> xt_id (wx_target w') \<noteq> []"
    by (rule kept_or_Inr [OF n(1)]) (use wf normalizeWatchTarget_Inr in auto)
  moreover have "wx_events w' \<noteq> [] \<and> distinct (wx_events w') \<and> set (wx_events w') \<subseteq> set COORDINATION_WATCH_EVENTS"
    by (rule kept_or_Inr [OF n(2)]) (use wf normalizeWatchEvents_Inr in auto)
  moreover have "wn_provider (wx_channel w') \<noteq> [] \<and> wn_agentId (wx_channel w') \<noteq> [] \<and> wn_channelBindingId (wx_channel w') \<noteq> []"
    by (rule kept_or_Inr [OF n(3)]) (use wf normalizeWatchChannel_Inr in auto)
  moreover have "wx_status w' \<in> set COORDINATION_WATCH_STATUSES"
    by (rule kept_or_Inr [OF n(4)]) (use wf normalizeWatch_texts(1) in blast)+
  moreover have "wx_verbosity w' \<in> set COORDINATION_WATCH_VERBOSITIES"
    by (rule kept_or_Inr [OF n(6)]) (use wf normalizeWatch_texts(2) in blast)+
  moreover have "wx_deliverySurface w' \<in> set (''gateway_channel'' # WORKSPACE_PRODUCT_SURFACES)"
    using normalizeWatch_texts(3) [OF n(5)] wf by blast
  ultimately show ?thesis unfolding watch_wf_def watch_key_def n(7,8) using wf by blast
qed

inductive watch_step :: "watches \<Rightarrow> watches \<Rightarrow> bool" where
  create: "createWatch e inp m = (r, m') \<Longrightarrow> watch_step m m'"
| update: "updateWatch e upd m = (ru, m') \<Longrightarrow> watch_step m m'"
| delete: "deleteWatch ws i m = (b, m') \<Longrightarrow> watch_step m m'"

lemma watches_ok_put: "watches_ok m \<Longrightarrow> watch_wf w \<Longrightarrow> watches_ok (map_set (watch_key w) w m)"
  unfolding watches_ok_def by simp

lemma watch_step_ok: "watch_step m m' \<Longrightarrow> watches_ok m \<Longrightarrow> watches_ok m'"
proof (induction rule: watch_step.induct)
  case (create e inp m r m')
  then show ?case using created_watch [of e inp]
    by (auto simp: createWatch_def try_in_def intro: watches_ok_put split: sum.splits)
next
  case (update e upd m ru m')
  show ?case
  proof (cases "m' = m")
    case False
    then obtain w w' where w: "map_get m (key [wu_workspaceId upd, wu_watchId upd]) = Some w"
        "updateCloudCoordinationWatchRecord e w (wu_patch upd) (wu_updatedAt upd) = Inr w'" "m' = map_set (watch_key w') w' m"
      using update(1) by (auto simp: updateWatch_def try_in_def split: option.splits sum.splits)
    then have "watch_wf w" using update(2) unfolding watches_ok_def by blast
    then show ?thesis unfolding w(3) using updated_watch [OF w(2)] by (intro watches_ok_put update(2)) blast
  qed (use update(2) in simp)
next
  case (delete ws i m b m')
  have m': "m' = map_delete (key [ws, i]) m" using delete(1) by (simp add: deleteWatch_def)
  have ok: "map_ok m" "\<And>k w. map_get m k = Some w \<Longrightarrow> watch_key w = k \<and> watch_wf w" using delete(2) unfolding watches_ok_def by blast+
  show ?case unfolding watches_ok_def
  proof (intro conjI allI impI)
    show "map_ok m'" using ok(1) by (simp add: m')
  next
    fix k w
    assume "map_get m' k = Some w"
    then have "map_get m k = Some w" by (simp add: m' split: if_splits)
    from ok(2) [OF this] show "watch_key w = k" "watch_wf w" by blast+
  qed
qed

lemma watch_steps_ok: "watch_step\<^sup>*\<^sup>* m m' \<Longrightarrow> watches_ok m \<Longrightarrow> watches_ok m'"
  by (induction rule: rtranclp_induct) (auto intro: watch_step_ok)

lemma watches_key: "watches_ok m \<Longrightarrow> map_get m k = Some w \<Longrightarrow> watch_key w = k"
  unfolding watches_ok_def by blast

lemma watches_map_ok: "watches_ok m \<Longrightarrow> map_ok m"
  unfolding watches_ok_def by blast

lemma watches_wf: "watches_ok m \<Longrightarrow> map_get m k = Some w \<Longrightarrow> watch_wf w"
  unfolding watches_ok_def by blast

lemma stored_watch: "watches_ok m \<Longrightarrow> w \<in> set (map_values m) \<longleftrightarrow> getWatch m (wx_workspaceId w) (wx_id w) = Some w"
proof
  assume ok: "watches_ok m" and w: "w \<in> set (map_values m)"
  have "map_ok m" using ok by (simp only: watches_ok_def)
  then obtain k where k: "map_get m k = Some w" using w values_map_get [of m w] by auto
  have "watch_key w = k" using watches_key [OF ok k] .
  then show "getWatch m (wx_workspaceId w) (wx_id w) = Some w" using k by (simp add: getWatch_def watch_key_def)
next
  assume "getWatch m (wx_workspaceId w) (wx_id w) = Some w"
  then show "w \<in> set (map_values m)" by (auto simp: getWatch_def intro: map_get_values)
qed

lemma newest_first_sorted: "sorted_wrt (\<lambda>a b. wx_updatedAt b \<le> wx_updatedAt a) (newest_first ws)"
proof -
  have "js_comparator (cmp_rev (cmp_by wx_updatedAt cmp_int))"
    by (intro js_comparator_rev js_comparator_by int_order.js_comparator_axioms)
  from js_comparator.sorted_sort [OF this, of ws] show ?thesis
    unfolding newest_first_def by (rule sorted_wrt_mono_rel [rotated]) (simp add: cmp_rev_def cmp_by_def cmp_int_def sgn_if split: if_splits)
qed

text \<open>C31: an event reaches exactly its watches. Whatever watches were created, patched and deleted, failing calls included,
  every stored watch is well formed, and a listing without a limit returns exactly the stored, active watches of the
  event's workspace that name the event type and one of its targets, each once, most recently updated first.\<close>

theorem watch_matching_exact:
  assumes "watch_step\<^sup>*\<^sup>* [] m" "wm_limit inp = None"
  shows "(getWatch m ws i = Some v \<longrightarrow> watch_wf v)
    \<and> (w \<in> set (listMatchingWatches inp m) \<longleftrightarrow>
         getWatch m (wx_workspaceId w) (wx_id w) = Some w \<and> wx_workspaceId w = wm_workspaceId inp \<and> wx_status w = ''active''
         \<and> wm_eventType inp \<in> set (wx_events w) \<and> wx_target w \<in> set (wm_targets inp))
    \<and> distinct (listMatchingWatches inp m) \<and> sorted_wrt (\<lambda>a b. wx_updatedAt b \<le> wx_updatedAt a) (listMatchingWatches inp m)"
proof -
  have ok: "watches_ok m" by (rule watch_steps_ok [OF assms(1)]) (simp add: watches_ok_def)
  have l: "listMatchingWatches inp m = newest_first (filter (\<lambda>w. cloudCoordinationWatchMatchesEvent w inp) (map_values m))"
    using assms(2) by (simp add: listMatchingWatches_def)
  have "distinct (map_values m)" using keyed_values_distinct [OF watches_map_ok [OF ok], of watch_key] watches_key [OF ok] distinct_map by blast
  moreover have "xt_kind t = xt_kind u \<and> xt_id t = xt_id u \<longleftrightarrow> t = u" for t u :: watch_target by (cases t; cases u) simp
  ultimately show ?thesis using stored_watch [OF ok, of w] newest_first_sorted watches_wf [OF ok, of "key [ws, i]" v]
    unfolding l by (auto simp: newest_first_def cloudCoordinationWatchMatchesEvent_def list_ex_iff getWatch_def)
qed

definition sample_watch_input :: create_watch_input where
  "sample_watch_input = \<lparr> wp_target = Some (JObj [(''kind'', JStr ''session''), (''id'', JStr ''s1'')]), wp_events = Some (JArr [JStr ''run.finished'', JStr ''run.finished'']),
     wp_channel = Some (JObj [(''provider'', JStr ''slack''), (''agentId'', JStr ''a''), (''channelBindingId'', JStr ''b''), (''target'', JObj [])]),
     wp_recipient = None, wp_status = None, wp_deliverySurface = None, wp_verbosity = None, wp_cursor = None, wp_workspaceId = ''w'',
     wp_watchId = Some ''x'', wp_createdAt = None \<rparr>"

definition sample_match :: match_watches_input where
  "sample_match = \<lparr> wm_workspaceId = ''w'', wm_eventType = ''run.finished'', wm_targets = [\<lparr> xt_kind = ''session'', xt_id = ''s1'' \<rparr>], wm_limit = None \<rparr>"

theorem watch_matching_exact_witness:
  "case fst (createWatch sample_env sample_watch_input []) of
     Inr w \<Rightarrow> listMatchingWatches sample_match (snd (createWatch sample_env sample_watch_input [])) = [w] \<and> watch_wf w
   | Inl _ \<Rightarrow> False"
proof -
  let ?o = "createWatch sample_env sample_watch_input []"
  have c: "case fst ?o of Inr w \<Rightarrow> listMatchingWatches sample_match (snd ?o) = [w] | Inl _ \<Rightarrow> False" by code_simp
  then obtain w where w: "fst ?o = Inr w" by (auto split: sum.splits)
  have step: "watch_step\<^sup>*\<^sup>* [] (snd ?o)" by (rule r_into_rtranclp, rule watch_step.create [OF surjective_pairing])
  have lim: "wm_limit sample_match = None" by (simp add: sample_match_def)
  have l: "listMatchingWatches sample_match (snd ?o) = [w]" using c w by simp
  then have m: "w \<in> set (listMatchingWatches sample_match (snd ?o))" by simp
  have "getWatch (snd ?o) (wx_workspaceId w) (wx_id w) = Some w"
    using watch_matching_exact [OF step lim, of "[]" "[]" w w] m by blast
  then have "watch_wf w" using watch_matching_exact [OF step lim, of "wx_workspaceId w" "wx_id w" w w] by blast
  then show ?thesis using l w by simp
qed

end
