(* ===== verification/Progress_Watchdog.thy ===== *)
theory Progress_Watchdog
  imports Store_Helpers
begin

text \<open>
  The progress watchdog of a running session (\<open>packages/shared/src/progress-watchdog.ts\<close>): the closed vocabulary
  of events that count as progress, the state that remembers the last progress of each session, and the
  evaluation that reports sessions as suspect or stalled. Times are integers; an observation whose time is not
  finite carries \<open>None\<close>. An absent and a null field are both \<open>None\<close>, as the code treats them alike. Shown: a decision is
  reported only after real silence, once per stretch of silence, and is void as soon as the session progresses.
\<close>


section \<open>Vocabulary\<close>

datatype progress_source = Admission | DurableSequence | PhaseTransition | ToolTransition | OutputAdvance | InteractionRequested
  | InteractionResolved | ScheduledRetry | ProviderBackoff | ExplicitPause | ExplicitResume | Terminal

datatype waiting_reason = WaitApproval | WaitQuestion | WaitPause | WaitRetry | WaitBackoff

datatype progress_disposition = DispRunning | DispWaiting | DispTerminal

datatype watchdog_state_name = WdHealthy | WdWaiting | WdSuspect | WdStalled

record progress_identity =
  pi_scopeId :: string
  pi_sessionId :: string
  pi_runId :: string
  pi_runtimeGeneration :: int
  pi_executionGeneration :: int
  pi_leaseOwner :: string
  pi_leaseEpoch :: string

record progress_observation = progress_identity +
  po_source :: progress_source
  po_disposition :: progress_disposition
  po_waitingReason :: "waiting_reason option"
  po_resumeAtMs :: "int option"
  po_sequence :: "int option"
  po_progressCursor :: "int option"
  po_semanticKey :: "string option"
  po_observedAtMs :: "int option"

record open_code_event =
  oe_type :: string
  oe_sequence :: "jsnum option"
  oe_statusType :: "string option"
  oe_retryAtMs :: "jsnum option"
  oe_progressCursor :: "jsnum option"
  oe_outputLength :: "jsnum option"

record classified_event =
  ce_source :: "progress_source option"
  ce_disposition :: "progress_disposition option"
  ce_waitingReason :: "waiting_reason option"
  ce_resumeAtMs :: "int option"
  ce_sequence :: "int option"
  ce_progressCursor :: "int option"
  ce_semanticKey :: string

record vocabulary_entry =
  vo_source :: "progress_source option"
  vo_disposition :: "progress_disposition option"
  vo_waitingReason :: "waiting_reason option"

definition runs :: "progress_source \<Rightarrow> vocabulary_entry" where
  "runs src = \<lparr> vo_source = Some src, vo_disposition = Some DispRunning, vo_waitingReason = None \<rparr>"

definition waits :: "progress_source \<Rightarrow> waiting_reason \<Rightarrow> vocabulary_entry" where
  "waits src r = \<lparr> vo_source = Some src, vo_disposition = Some DispWaiting, vo_waitingReason = Some r \<rparr>"

definition ends :: "vocabulary_entry" where
  "ends = \<lparr> vo_source = Some Terminal, vo_disposition = Some DispTerminal, vo_waitingReason = None \<rparr>"

definition OPEN_CODE_PROGRESS_EVENT_VOCABULARY :: "(string \<times> vocabulary_entry) list" where
  "OPEN_CODE_PROGRESS_EVENT_VOCABULARY = [
     (''session.next.prompt.admitted'', runs Admission),
     (''session.next.prompted'', runs Admission),
     (''session.next.agent.switched'', runs PhaseTransition),
     (''session.next.moved'', runs PhaseTransition),
     (''session.next.synthetic'', runs PhaseTransition),
     (''session.next.shell.started'', runs ToolTransition),
     (''session.next.shell.ended'', runs ToolTransition),
     (''session.next.step.started'', runs PhaseTransition),
     (''session.next.step.ended'', runs PhaseTransition),
     (''session.next.text.started'', runs OutputAdvance),
     (''session.next.text.delta'', runs OutputAdvance),
     (''session.next.text.ended'', runs OutputAdvance),
     (''session.next.reasoning.started'', runs OutputAdvance),
     (''session.next.reasoning.delta'', runs OutputAdvance),
     (''session.next.reasoning.ended'', runs OutputAdvance),
     (''session.next.tool.input.started'', runs ToolTransition),
     (''session.next.tool.input.delta'', runs ToolTransition),
     (''session.next.tool.input.ended'', runs ToolTransition),
     (''session.next.tool.called'', runs ToolTransition),
     (''session.next.tool.progress'', runs ToolTransition),
     (''session.next.tool.success'', runs ToolTransition),
     (''session.next.tool.failed'', runs ToolTransition),
     (''session.next.context.updated'', runs PhaseTransition),
     (''session.next.model.switched'', runs PhaseTransition),
     (''session.next.compaction.started'', runs PhaseTransition),
     (''session.next.compaction.delta'', runs PhaseTransition),
     (''session.next.compaction.ended'', runs PhaseTransition),
     (''session.next.revert.staged'', runs PhaseTransition),
     (''session.next.revert.cleared'', runs PhaseTransition),
     (''session.next.revert.committed'', runs PhaseTransition),
     (''session.compacted'', runs PhaseTransition),
     (''message.part.delta'', runs OutputAdvance),
     (''message.part.updated'', runs OutputAdvance),
     (''message.updated'', runs OutputAdvance),
     (''todo.updated'', runs PhaseTransition),
     (''permission.asked'', waits InteractionRequested WaitApproval),
     (''permission.updated'', waits InteractionRequested WaitApproval),
     (''permission.v2.asked'', waits InteractionRequested WaitApproval),
     (''permission.replied'', runs InteractionResolved),
     (''permission.v2.replied'', runs InteractionResolved),
     (''question.asked'', waits InteractionRequested WaitQuestion),
     (''question.v2.asked'', waits InteractionRequested WaitQuestion),
     (''question.replied'', runs InteractionResolved),
     (''question.rejected'', runs InteractionResolved),
     (''question.v2.replied'', runs InteractionResolved),
     (''question.v2.rejected'', runs InteractionResolved),
     (''session.paused'', waits ExplicitPause WaitPause),
     (''session.resumed'', runs ExplicitResume),
     (''session.idle'', ends),
     (''session.aborted'', ends),
     (''runtime.error'', ends),
     (''session.next.step.failed'', ends)]"

text \<open>\<open>Number.isSafeInteger(x) && x >= 0\<close>.\<close>

fun safe_natural :: "jsnum option \<Rightarrow> int option" where
  "safe_natural (Some (JInt i)) = (if 0 \<le> i \<and> i \<le> 9007199254740991 then Some i else None)"
| "safe_natural _ = None"

text \<open>\<open>Math.max(0, x)\<close> of a finite \<open>x\<close>; a fractional deadline counts as its floor.\<close>

fun finite_deadline :: "jsnum option \<Rightarrow> int option" where
  "finite_deadline (Some (JInt i)) = Some (max 0 i)"
| "finite_deadline (Some (JFrac i)) = Some (max 0 i)"
| "finite_deadline _ = None"

definition needs_deadline :: "waiting_reason option \<Rightarrow> bool" where
  "needs_deadline r = (r = Some WaitRetry \<or> r = Some WaitBackoff)"

text \<open>
  The vocabulary is a plain object, so indexing it also finds what every object inherits from
  \<open>Object.prototype\<close>: a value with neither a source nor a disposition.
\<close>

definition OBJECT_PROTOTYPE_NAMES :: "string list" where
  "OBJECT_PROTOTYPE_NAMES = [''constructor'', ''__defineGetter__'', ''__defineSetter__'', ''hasOwnProperty'', ''__lookupGetter__'',
     ''__lookupSetter__'', ''isPrototypeOf'', ''propertyIsEnumerable'', ''toString'', ''valueOf'', ''__proto__'', ''toLocaleString'']"

definition vocabulary_lookup :: "string \<Rightarrow> vocabulary_entry option" where
  "vocabulary_lookup type =
     (case map_of OPEN_CODE_PROGRESS_EVENT_VOCABULARY type of
        Some entry \<Rightarrow> Some entry
      | None \<Rightarrow> if type \<in> set OBJECT_PROTOTYPE_NAMES then Some \<lparr> vo_source = None, vo_disposition = None, vo_waitingReason = None \<rparr> else None)"

definition vocabulary_entry_for :: "string \<Rightarrow> string option \<Rightarrow> vocabulary_entry option" where
  "vocabulary_entry_for type statusType =
     (if type = ''session.next.retried'' then Some (waits ScheduledRetry WaitRetry)
      else if type = ''session.status''
      then if statusType = Some ''retry'' then Some (waits ProviderBackoff WaitBackoff)
           else if statusType = Some ''idle'' then Some ends
           else if statusType = Some ''busy'' \<or> statusType = Some ''running'' then Some (runs PhaseTransition)
           else None
      else vocabulary_lookup type)"

definition classifyOpenCodeProgressEvent :: "open_code_event \<Rightarrow> classified_event option" where
  "classifyOpenCodeProgressEvent inp =
     (let type = js_trim (oe_type inp); statusType = or_null (map_option (\<lambda>t. js_lower (js_trim t)) (oe_statusType inp)) in
      case vocabulary_entry_for type statusType of
        None \<Rightarrow> None
      | Some entry \<Rightarrow>
          let resumeAtMs = (if vo_disposition entry = Some DispWaiting \<and> needs_deadline (vo_waitingReason entry) then finite_deadline (oe_retryAtMs inp) else None);
              disposition = (if vo_disposition entry = Some DispWaiting \<and> needs_deadline (vo_waitingReason entry) \<and> resumeAtMs = None then Some DispRunning
                             else vo_disposition entry);
              cursor = safe_natural (case oe_progressCursor inp of None \<Rightarrow> oe_outputLength inp | c \<Rightarrow> c);
              baseSemanticKey = type @ (if type = ''session.status'' then '':'' @ coalesce statusType ''null'' else [])
          in Some \<lparr> ce_source = vo_source entry, ce_disposition = disposition,
                    ce_waitingReason = (if disposition = Some DispWaiting then vo_waitingReason entry else None),
                    ce_resumeAtMs = resumeAtMs, ce_sequence = safe_natural (oe_sequence inp), ce_progressCursor = cursor,
                    ce_semanticKey = baseSemanticKey @ (case cursor of None \<Rightarrow> [] | Some c \<Rightarrow> '':'' @ show_int c) \<rparr>)"

text \<open>An event type that names an inherited property is classified, without a source; it is no progress event.\<close>

lemma inherited_name_classified:
  "type \<in> set OBJECT_PROTOTYPE_NAMES \<Longrightarrow> classifyOpenCodeProgressEvent
     \<lparr> oe_type = type, oe_sequence = None, oe_statusType = None, oe_retryAtMs = None, oe_progressCursor = None, oe_outputLength = None \<rparr>
     = Some \<lparr> ce_source = None, ce_disposition = None, ce_waitingReason = None, ce_resumeAtMs = None, ce_sequence = None, ce_progressCursor = None,
         ce_semanticKey = type \<rparr>"
  unfolding OBJECT_PROTOTYPE_NAMES_def list.set insert_iff empty_iff by (elim disjE FalseE; (hypsubst, code_simp))


section \<open>State\<close>

record progress_entry = progress_identity +
  pe_source :: progress_source
  pe_disposition :: progress_disposition
  pe_waitingReason :: "waiting_reason option"
  pe_resumeAtMs :: "int option"
  pe_lastSequence :: "int option"
  pe_lastProgressCursor :: "int option"
  pe_lastSemanticKey :: string
  pe_lastProgressAtMs :: int
  pe_revision :: nat
  pe_acknowledged :: "watchdog_state_name list"

type_synonym watchdog = "progress_entry jsmap"

record watchdog_decision = progress_identity +
  wd_state :: watchdog_state_name
  wd_source :: progress_source
  wd_ageMs :: int
  wd_revision :: nat

record watchdog_sample =
  ws_state :: watchdog_state_name
  ws_ageMs :: int
  ws_source :: progress_source
  ws_generation :: int

record watchdog_snapshot =
  sn_counts :: "watchdog_state_name \<Rightarrow> nat"
  sn_samples :: "watchdog_sample list"
  sn_truncated :: bool

record watchdog_thresholds =
  wt_suspectAfterMs :: int
  wt_stalledAfterMs :: int
  wt_maxSnapshotEntries :: int

definition createProgressWatchdogState :: watchdog where
  "createProgressWatchdogState = []"

definition entryKey :: "'a progress_identity_scheme \<Rightarrow> string" where
  "entryKey i = key [pi_scopeId i, pi_sessionId i]"

definition sameGeneration :: "'a progress_identity_scheme \<Rightarrow> 'b progress_identity_scheme \<Rightarrow> bool" where
  "sameGeneration l r =
     (pi_runtimeGeneration l = pi_runtimeGeneration r \<and> pi_executionGeneration l = pi_executionGeneration r \<and> pi_runId l = pi_runId r
      \<and> pi_leaseOwner l = pi_leaseOwner r \<and> pi_leaseEpoch l = pi_leaseEpoch r)"

definition compareGeneration :: "'a progress_identity_scheme \<Rightarrow> 'b progress_identity_scheme \<Rightarrow> int" where
  "compareGeneration l r =
     (if pi_runtimeGeneration l \<noteq> pi_runtimeGeneration r then pi_runtimeGeneration l - pi_runtimeGeneration r
      else pi_executionGeneration l - pi_executionGeneration r)"

definition source_text :: "progress_source \<Rightarrow> string" where
  "source_text s = (case s of Admission \<Rightarrow> ''admission'' | DurableSequence \<Rightarrow> ''durable_sequence'' | PhaseTransition \<Rightarrow> ''phase_transition''
     | ToolTransition \<Rightarrow> ''tool_transition'' | OutputAdvance \<Rightarrow> ''output_advance'' | InteractionRequested \<Rightarrow> ''interaction_requested''
     | InteractionResolved \<Rightarrow> ''interaction_resolved'' | ScheduledRetry \<Rightarrow> ''scheduled_retry'' | ProviderBackoff \<Rightarrow> ''provider_backoff''
     | ExplicitPause \<Rightarrow> ''explicit_pause'' | ExplicitResume \<Rightarrow> ''explicit_resume'' | Terminal \<Rightarrow> ''terminal'')"

definition disposition_text :: "progress_disposition \<Rightarrow> string" where
  "disposition_text d = (case d of DispRunning \<Rightarrow> ''running'' | DispWaiting \<Rightarrow> ''waiting'' | DispTerminal \<Rightarrow> ''terminal'')"

definition reason_text :: "waiting_reason \<Rightarrow> string" where
  "reason_text r = (case r of WaitApproval \<Rightarrow> ''approval'' | WaitQuestion \<Rightarrow> ''question'' | WaitPause \<Rightarrow> ''explicit_pause''
     | WaitRetry \<Rightarrow> ''scheduled_retry'' | WaitBackoff \<Rightarrow> ''provider_backoff'')"

definition semanticKey :: "progress_observation \<Rightarrow> string" where
  "semanticKey ob =
     or_else (map_option js_trim (po_semanticKey ob))
       (join_with (CHR '':'') [source_text (po_source ob), disposition_text (po_disposition ob),
          (case po_waitingReason ob of Some r \<Rightarrow> reason_text r | None \<Rightarrow> []), (case po_resumeAtMs ob of Some t \<Rightarrow> show_int t | None \<Rightarrow> [])])"

text \<open>The guards that ignore an observation in favour of the current entry: an older generation, another owner of the same
  generation, a replayed sequence or cursor, or the same lifecycle step again.\<close>

definition at_most :: "int option \<Rightarrow> int option \<Rightarrow> bool" where
  "at_most a b = (case (a, b) of (Some x, Some y) \<Rightarrow> x \<le> y | _ \<Rightarrow> False)"

definition fenced_out :: "progress_observation \<Rightarrow> progress_entry \<Rightarrow> bool" where
  "fenced_out ob cur =
     (compareGeneration ob cur < 0 \<or> (compareGeneration ob cur = 0 \<and> \<not> sameGeneration ob cur)
      \<or> (po_disposition ob = DispTerminal \<and> compareGeneration ob cur = 0 \<and> at_most (po_sequence ob) (pe_lastSequence cur)))"

definition no_progress :: "progress_observation \<Rightarrow> int \<Rightarrow> progress_entry \<Rightarrow> bool" where
  "no_progress ob observedAt cur =
     (compareGeneration ob cur = 0
      \<and> (observedAt < pe_lastProgressAtMs cur \<or> at_most (po_sequence ob) (pe_lastSequence cur)
         \<or> (po_sequence ob = None \<and> at_most (po_progressCursor ob) (pe_lastProgressCursor cur))
         \<or> (po_sequence ob = None \<and> po_progressCursor ob = None \<and> semanticKey ob = pe_lastSemanticKey cur)))"

definition next_entry :: "progress_observation \<Rightarrow> int \<Rightarrow> progress_entry option \<Rightarrow> progress_entry" where
  "next_entry ob observedAt current =
     (let same = (case current of Some c \<Rightarrow> if sameGeneration ob c then Some c else None | None \<Rightarrow> None)
      in \<lparr> pi_scopeId = pi_scopeId ob, pi_sessionId = pi_sessionId ob, pi_runId = pi_runId ob, pi_runtimeGeneration = pi_runtimeGeneration ob,
           pi_executionGeneration = pi_executionGeneration ob, pi_leaseOwner = pi_leaseOwner ob, pi_leaseEpoch = pi_leaseEpoch ob,
           pe_source = po_source ob, pe_disposition = po_disposition ob, pe_waitingReason = po_waitingReason ob, pe_resumeAtMs = po_resumeAtMs ob,
           pe_lastSequence = (case po_sequence ob of Some n \<Rightarrow> Some n | None \<Rightarrow> Option.bind same pe_lastSequence),
           pe_lastProgressCursor = (case po_progressCursor ob of Some n \<Rightarrow> Some n | None \<Rightarrow> Option.bind same pe_lastProgressCursor),
           pe_lastSemanticKey = semanticKey ob, pe_lastProgressAtMs = observedAt,
           pe_revision = (case same of Some c \<Rightarrow> pe_revision c + 1 | None \<Rightarrow> 1), pe_acknowledged = [] \<rparr>)"

definition oldest_first :: "watchdog \<Rightarrow> watchdog" where
  "oldest_first m = js_sort (cmp_by (\<lambda>p. pe_lastProgressAtMs (snd p)) cmp_int) m"

lemma map_delete_shrinks: "k \<in> fst ` set m \<Longrightarrow> length (map_delete k m) < length m"
  unfolding map_delete_def by (auto intro: length_filter_less)

text \<open>The eviction loop: while there are more entries than the limit, the one with the oldest progress goes.\<close>

function evict :: "nat \<Rightarrow> watchdog \<Rightarrow> watchdog" where
  "evict limit m = (if length m > limit then case oldest_first m of [] \<Rightarrow> m | p # _ \<Rightarrow> evict limit (map_delete (fst p) m) else m)"
  by pat_completeness auto

termination
proof (relation "measure (\<lambda>(limit, m). length m)")
  fix limit :: nat and m :: watchdog and p ps
  assume "oldest_first m = p # ps"
  then have "p \<in> set (oldest_first m)" by simp
  then have "fst p \<in> fst ` set m" by (simp add: oldest_first_def)
  then show "((limit, map_delete (fst p) m), limit, m) \<in> measure (\<lambda>(limit, m). length m)" by (simp add: map_delete_shrinks)
qed simp

definition recordProgressWatchdogObservation :: "watchdog \<Rightarrow> progress_observation \<Rightarrow> int \<Rightarrow> watchdog" where
  "recordProgressWatchdogObservation state ob maxEntries =
     (case po_observedAtMs ob of
        None \<Rightarrow> state
      | Some observedAt \<Rightarrow>
          let k = entryKey ob; current = map_get state k in
          if (case current of Some cur \<Rightarrow> fenced_out ob cur | None \<Rightarrow> False) then state
          else if current \<noteq> None \<and> po_disposition ob = DispTerminal then map_delete k state
          else if (case current of Some cur \<Rightarrow> no_progress ob observedAt cur | None \<Rightarrow> False) then state
          else if po_disposition ob = DispTerminal then state
          else evict (nat (max 1 maxEntries)) (map_set k (next_entry ob observedAt current) state))"


section \<open>Evaluation\<close>

definition indefinite_wait :: "progress_entry \<Rightarrow> bool" where
  "indefinite_wait en = (pe_waitingReason en \<in> {Some WaitApproval, Some WaitQuestion, Some WaitPause})"

definition entryState :: "progress_entry \<Rightarrow> int \<Rightarrow> watchdog_thresholds \<Rightarrow> watchdog_state_name \<times> int" where
  "entryState en nowMs th =
     (if pe_disposition en = DispWaiting
         \<and> (indefinite_wait en \<or> (case pe_resumeAtMs en of Some t \<Rightarrow> nowMs < t | None \<Rightarrow> False))
      then (WdWaiting, max 0 (nowMs - pe_lastProgressAtMs en))
      else
        let baseline = (case pe_resumeAtMs en of Some t \<Rightarrow> if pe_disposition en = DispWaiting then t else pe_lastProgressAtMs en
                        | None \<Rightarrow> pe_lastProgressAtMs en);
            ageMs = max 0 (nowMs - baseline)
        in if ageMs \<ge> wt_stalledAfterMs th then (WdStalled, ageMs)
           else if ageMs \<ge> wt_suspectAfterMs th then (WdSuspect, ageMs) else (WdHealthy, ageMs))"

definition decision_of :: "progress_entry \<Rightarrow> watchdog_state_name \<times> int \<Rightarrow> watchdog_decision" where
  "decision_of en ev =
     \<lparr> pi_scopeId = pi_scopeId en, pi_sessionId = pi_sessionId en, pi_runId = pi_runId en, pi_runtimeGeneration = pi_runtimeGeneration en,
       pi_executionGeneration = pi_executionGeneration en, pi_leaseOwner = pi_leaseOwner en, pi_leaseEpoch = pi_leaseEpoch en,
       wd_state = fst ev, wd_source = pe_source en, wd_ageMs = snd ev, wd_revision = pe_revision en \<rparr>"

definition severity :: "watchdog_state_name \<Rightarrow> int" where
  "severity n = (case n of WdStalled \<Rightarrow> 0 | WdSuspect \<Rightarrow> 1 | WdWaiting \<Rightarrow> 2 | WdHealthy \<Rightarrow> 3)"

definition watchdog_decisions :: "watchdog \<Rightarrow> int \<Rightarrow> watchdog_thresholds \<Rightarrow> watchdog_decision list" where
  "watchdog_decisions state nowMs th =
     map (\<lambda>en. decision_of en (entryState en nowMs th))
       (filter (\<lambda>en. fst (entryState en nowMs th) \<in> {WdSuspect, WdStalled} \<and> fst (entryState en nowMs th) \<notin> set (pe_acknowledged en)) (map_values state))"

definition evaluateProgressWatchdog :: "watchdog \<Rightarrow> int \<Rightarrow> watchdog_thresholds \<Rightarrow> watchdog_decision list \<times> watchdog_snapshot" where
  "evaluateProgressWatchdog state nowMs th =
     (let evaluated = map (\<lambda>en. (en, entryState en nowMs th)) (map_values state);
          samples = js_sort (cmp_then (cmp_by (\<lambda>s. severity (ws_state s)) cmp_int) (cmp_rev (cmp_by ws_ageMs cmp_int)))
            (map (\<lambda>(en, ev). \<lparr> ws_state = fst ev, ws_ageMs = snd ev, ws_source = pe_source en, ws_generation = pi_runtimeGeneration en \<rparr>) evaluated);
          sampleLimit = nat (max 0 (wt_maxSnapshotEntries th))
      in (watchdog_decisions state nowMs th,
          \<lparr> sn_counts = (\<lambda>n. length (filter (\<lambda>(en, ev). fst ev = n) evaluated)), sn_samples = take sampleLimit samples,
            sn_truncated = (length samples > sampleLimit) \<rparr>))"

definition isProgressWatchdogDecisionCurrent :: "watchdog \<Rightarrow> watchdog_decision \<Rightarrow> bool" where
  "isProgressWatchdogDecisionCurrent state d =
     (case map_get state (entryKey d) of Some cur \<Rightarrow> sameGeneration cur d \<and> pe_revision cur = wd_revision d | None \<Rightarrow> False)"

definition acknowledgeProgressWatchdogDecision :: "watchdog \<Rightarrow> watchdog_decision \<Rightarrow> watchdog" where
  "acknowledgeProgressWatchdogDecision state d =
     (case map_get state (entryKey d) of
        None \<Rightarrow> state
      | Some cur \<Rightarrow>
          if \<not> sameGeneration cur d \<or> pe_revision cur \<noteq> wd_revision d then state
          else if wd_state d \<in> set (pe_acknowledged cur) then state
          else map_set (entryKey d) (cur\<lparr> pe_acknowledged := pe_acknowledged cur @ [wd_state d] \<rparr>) state)"

section \<open>Silence, fencing and acknowledgement\<close>

declare evict.simps [simp del]

lemma evict_get: "map_get (evict limit m) k = Some en \<Longrightarrow> map_get m k = Some en"
proof (induction limit m rule: evict.induct)
  case (1 limit m)
  show ?case
  proof (cases "length m > limit \<and> oldest_first m \<noteq> []")
    case True
    then obtain p ps where p: "oldest_first m = p # ps" by (cases "oldest_first m") auto
    have "map_get (evict limit (map_delete (fst p) m)) k = Some en" using 1(2) True p by (simp add: evict.simps [of limit m])
    from 1(1) [OF _ p this] True show ?thesis by (simp split: if_splits)
  next
    case False
    then show ?thesis using 1(2) by (cases "oldest_first m") (simp_all add: evict.simps [of limit m] split: if_splits)
  qed
qed

lemma evict_ok: "map_ok m \<Longrightarrow> map_ok (evict limit m)"
proof (induction limit m rule: evict.induct)
  case (1 limit m)
  then show ?case by (cases "oldest_first m") (simp_all add: evict.simps [of limit m])
qed

lemma evict_length: "length (evict limit m) \<le> limit"
proof (induction limit m rule: evict.induct)
  case (1 limit m)
  show ?case
  proof (cases "oldest_first m")
    case Nil
    then have "m = []" unfolding oldest_first_def by (metis length_0_conv length_js_sort)
    then show ?thesis by (simp add: evict.simps)
  next
    case (Cons p ps)
    then show ?thesis using 1 [of p ps] by (simp add: evict.simps [of limit m])
  qed
qed

text \<open>Every entry is stored under its own key with a revision from 1 on.\<close>

definition watchdog_ok :: "nat \<Rightarrow> watchdog \<Rightarrow> bool" where
  "watchdog_ok limit m = (map_ok m \<and> length m \<le> limit \<and> (\<forall>k en. map_get m k = Some en \<longrightarrow> entryKey en = k))"

inductive watchdog_step :: "int \<Rightarrow> watchdog \<Rightarrow> watchdog \<Rightarrow> bool" for maxEntries where
  observe: "watchdog_step maxEntries m (recordProgressWatchdogObservation m ob maxEntries)"
| acknowledge: "watchdog_step maxEntries m (acknowledgeProgressWatchdogDecision m d)"

lemma entryKey_next: "entryKey (next_entry ob t c) = entryKey ob"
  by (simp add: entryKey_def next_entry_def Let_def)

lemma record_cases:
  obtains (same) "recordProgressWatchdogObservation m ob mx = m"
  | (drop) "recordProgressWatchdogObservation m ob mx = map_delete (entryKey ob) m"
  | (accept) t where "po_observedAtMs ob = Some t" "po_disposition ob \<noteq> DispTerminal"
      "\<And>cur. map_get m (entryKey ob) = Some cur \<Longrightarrow> \<not> fenced_out ob cur \<and> \<not> no_progress ob t cur"
      "recordProgressWatchdogObservation m ob mx = evict (nat (max 1 mx)) (map_set (entryKey ob) (next_entry ob t (map_get m (entryKey ob))) m)"
proof (cases "po_observedAtMs ob")
  case None
  then show ?thesis using same by (simp add: recordProgressWatchdogObservation_def)
next
  case (Some t)
  show ?thesis
  proof (cases "map_get m (entryKey ob)")
    case None
    show ?thesis
    proof (cases "po_disposition ob = DispTerminal")
      case True
      then show ?thesis using None Some by (intro same) (simp add: recordProgressWatchdogObservation_def Let_def)
    next
      case False
      then show ?thesis using None Some by (intro accept [of t]) (simp_all add: recordProgressWatchdogObservation_def Let_def)
    qed
  next
    case cur: (Some cur)
    consider "fenced_out ob cur" | "\<not> fenced_out ob cur" "po_disposition ob = DispTerminal"
      | "\<not> fenced_out ob cur" "po_disposition ob \<noteq> DispTerminal" "no_progress ob t cur"
      | "\<not> fenced_out ob cur" "po_disposition ob \<noteq> DispTerminal" "\<not> no_progress ob t cur" by blast
    then show ?thesis
    proof cases
      case 1
      then show ?thesis using Some cur by (intro same) (simp add: recordProgressWatchdogObservation_def Let_def)
    next
      case 2
      then show ?thesis using Some cur by (intro drop) (simp add: recordProgressWatchdogObservation_def Let_def)
    next
      case 3
      then show ?thesis using Some cur by (intro same) (simp add: recordProgressWatchdogObservation_def Let_def)
    next
      case 4
      then show ?thesis using Some cur by (intro accept [of t]) (simp_all add: recordProgressWatchdogObservation_def Let_def)
    qed
  qed
qed

lemma watchdog_step_ok:
  assumes "watchdog_step mx m m'" "watchdog_ok (nat (max 1 mx)) m"
  shows "watchdog_ok (nat (max 1 mx)) m'"
  using assms
proof (cases rule: watchdog_step.cases)
  case (observe ob)
  show ?thesis
  proof (cases rule: record_cases [of m ob mx])
    case same
    then show ?thesis using assms(2) observe by simp
  next
    case drop
    have "length (map_delete (entryKey ob) m) \<le> length m" by (simp add: map_delete_def)
    then show ?thesis using assms(2) observe drop by (auto simp: watchdog_ok_def split: if_splits)
  next
    case (accept t)
    let ?m = "map_set (entryKey ob) (next_entry ob t (map_get m (entryKey ob))) m"
    have "entryKey en = k" if "map_get (evict (nat (max 1 mx)) ?m) k = Some en" for k en
    proof -
      have "map_get ?m k = Some en" using that by (rule evict_get)
      then show ?thesis using assms(2) entryKey_next unfolding watchdog_ok_def map_get_set by (metis option.inject)
    qed
    then show ?thesis using assms(2) observe accept(4) evict_length [of "nat (max 1 mx)" ?m]
      by (auto simp: watchdog_ok_def intro: evict_ok)
  qed
next
  case (acknowledge d)
  show ?thesis
  proof (cases "m' = m")
    case False
    then obtain cur where cur: "map_get m (entryKey d) = Some cur"
        "m' = map_set (entryKey d) (cur\<lparr> pe_acknowledged := pe_acknowledged cur @ [wd_state d] \<rparr>) m"
      using acknowledge by (auto simp: acknowledgeProgressWatchdogDecision_def split: option.splits if_splits)
    have ok: "map_ok m" "length m \<le> nat (max 1 mx)" "\<And>k en. map_get m k = Some en \<Longrightarrow> entryKey en = k"
      using assms(2) unfolding watchdog_ok_def by blast+
    show ?thesis unfolding watchdog_ok_def
    proof (intro conjI allI impI)
      show "map_ok m'" unfolding cur(2) by (rule map_ok_set [OF ok(1)])
      show "length m' \<le> nat (max 1 mx)" unfolding cur(2) length_map_set using cur(1) ok(2) by simp
    next
      fix k en
      assume "map_get m' k = Some en"
      then consider "k = entryKey d" "en = cur\<lparr> pe_acknowledged := pe_acknowledged cur @ [wd_state d] \<rparr>" | "map_get m k = Some en"
        unfolding cur(2) map_get_set by (metis option.inject)
      then show "entryKey en = k"
      proof cases
        case 1
        then show ?thesis using ok(3) [OF cur(1)] by (simp add: entryKey_def)
      next
        case 2
        then show ?thesis by (rule ok(3))
      qed
    qed
  qed (use assms(2) in simp)
qed

text \<open>How an entry may change while it stays in the map: an acknowledgement keeps it otherwise, and an accepted
  observation moves the generation, or the revision within it, forward.\<close>

definition quiet :: "progress_entry \<Rightarrow> progress_entry \<Rightarrow> bool" where
  "quiet e e' = (e' = e\<lparr> pe_acknowledged := pe_acknowledged e' \<rparr> \<and> set (pe_acknowledged e) \<subseteq> set (pe_acknowledged e'))"

definition generation_less :: "'a progress_identity_scheme \<Rightarrow> 'b progress_identity_scheme \<Rightarrow> bool" where
  "generation_less l r = (compareGeneration l r < 0)"

definition progressed :: "progress_entry \<Rightarrow> progress_entry \<Rightarrow> bool" where
  "progressed e e' = (generation_less e e' \<or> (sameGeneration e e' \<and> pe_revision e < pe_revision e' \<and> pe_lastProgressAtMs e \<le> pe_lastProgressAtMs e'))"

lemma generation_less_trans: "generation_less a b \<Longrightarrow> generation_less b c \<Longrightarrow> generation_less a c"
  by (auto simp: generation_less_def compareGeneration_def split: if_splits)

lemma generation_same: "sameGeneration a b \<Longrightarrow> generation_less b c = generation_less a c" "sameGeneration b c \<Longrightarrow> generation_less a b = generation_less a c"
  by (auto simp: generation_less_def compareGeneration_def sameGeneration_def)

lemma sameGeneration_trans: "sameGeneration a b \<Longrightarrow> sameGeneration b c \<Longrightarrow> sameGeneration a c"
  by (simp add: sameGeneration_def)

lemma progressed_trans: "progressed a b \<Longrightarrow> progressed b c \<Longrightarrow> progressed a c"
  unfolding progressed_def using generation_less_trans generation_same sameGeneration_trans by (metis order.strict_trans order.trans)

lemma quiet_progressed:
  assumes "quiet a b"
  shows "progressed b c = progressed a c" "progressed c b = progressed c a" "quiet b c \<Longrightarrow> quiet a c"
proof -
  have f: "pi_runtimeGeneration b = pi_runtimeGeneration a" "pi_executionGeneration b = pi_executionGeneration a" "pi_runId b = pi_runId a"
    "pi_leaseOwner b = pi_leaseOwner a" "pi_leaseEpoch b = pi_leaseEpoch a" "pe_revision b = pe_revision a" "pe_lastProgressAtMs b = pe_lastProgressAtMs a"
  proof -
    obtain x where "b = a\<lparr> pe_acknowledged := x \<rparr>" using assms unfolding quiet_def by blast
    then show "pi_runtimeGeneration b = pi_runtimeGeneration a" "pi_executionGeneration b = pi_executionGeneration a" "pi_runId b = pi_runId a"
      "pi_leaseOwner b = pi_leaseOwner a" "pi_leaseEpoch b = pi_leaseEpoch a" "pe_revision b = pe_revision a" "pe_lastProgressAtMs b = pe_lastProgressAtMs a"
      by simp_all
  qed
  show "progressed b c = progressed a c" "progressed c b = progressed c a"
    by (simp_all add: progressed_def generation_less_def compareGeneration_def sameGeneration_def f)
  show "quiet b c \<Longrightarrow> quiet a c" using assms by (cases a; cases b; cases c) (auto simp: quiet_def)
qed

lemma sameGeneration_sym: "sameGeneration a b \<Longrightarrow> sameGeneration b a"
  by (simp add: sameGeneration_def)

lemma record_live:
  assumes ok: "watchdog_ok (nat (max 1 mx)) m"
    and get: "map_get m k = Some e" "map_get (recordProgressWatchdogObservation m ob mx) k = Some e'"
  shows "e' = e \<or> progressed e e'"
proof (cases rule: record_cases [of m ob mx])
  case (accept t)
  have get': "map_get (map_set (entryKey ob) (next_entry ob t (map_get m (entryKey ob))) m) k = Some e'"
    using get(2) unfolding accept(4) by (rule evict_get)
  show ?thesis
  proof (cases "k = entryKey ob")
    case True
    then have e': "e' = next_entry ob t (Some e)" using get' get(1) by simp
    have "\<not> fenced_out ob e" "\<not> no_progress ob t e" using accept(3) get(1) True by blast+
    then consider "compareGeneration ob e > 0" | "sameGeneration ob e" "pe_lastProgressAtMs e \<le> t"
      unfolding fenced_out_def no_progress_def by linarith
    then have "progressed e e'"
    proof cases
      case 1
      then have "generation_less e e'" by (auto simp: e' next_entry_def Let_def generation_less_def compareGeneration_def split: if_splits)
      then show ?thesis by (simp add: progressed_def)
    next
      case 2
      then show ?thesis by (simp add: progressed_def e' next_entry_def Let_def) (simp add: sameGeneration_def)
    qed
    then show ?thesis ..
  qed (use get get' in simp)
qed (use get in \<open>auto split: if_splits\<close>)

lemma acknowledge_live:
  assumes "map_get m k = Some e" "map_get (acknowledgeProgressWatchdogDecision m d) k = Some e'"
  shows "quiet e e'"
  using assms unfolding acknowledgeProgressWatchdogDecision_def quiet_def
  by (auto split: option.splits if_splits)

text \<open>Steps that keep the session of a key under watch.\<close>

inductive live_step :: "int \<Rightarrow> string \<Rightarrow> watchdog \<Rightarrow> watchdog \<Rightarrow> bool" for mx k where
  live_step: "watchdog_step mx m m' \<Longrightarrow> map_has m' k \<Longrightarrow> live_step mx k m m'"

lemma live_steps:
  assumes "(live_step mx k)\<^sup>*\<^sup>* m m'" "watchdog_ok (nat (max 1 mx)) m" "map_get m k = Some e"
  shows "watchdog_ok (nat (max 1 mx)) m' \<and> (\<exists>e'. map_get m' k = Some e' \<and> (quiet e e' \<or> progressed e e'))"
  using assms
proof (induction rule: rtranclp_induct)
  case base
  then show ?case by (auto simp: quiet_def)
next
  case (step m1 m2)
  then obtain e1 where ok: "watchdog_ok (nat (max 1 mx)) m1" and e1: "map_get m1 k = Some e1" "quiet e e1 \<or> progressed e e1" by blast
  have st: "watchdog_step mx m1 m2" and has: "map_has m2 k" using step(2) by (auto elim: live_step.cases)
  obtain e2 where e2: "map_get m2 k = Some e2" using has unfolding map_has_def by blast
  have "quiet e1 e2 \<or> progressed e1 e2" using st
  proof (cases rule: watchdog_step.cases)
    case (observe ob)
    have "quiet e1 e1" by (simp add: quiet_def)
    then show ?thesis using record_live [OF ok e1(1)] e2 observe by blast
  next
    case (acknowledge d)
    then show ?thesis using acknowledge_live [OF e1(1)] e2 by simp
  qed
  then have "quiet e e2 \<or> progressed e e2" using e1(2) quiet_progressed progressed_trans by metis
  then show ?case using watchdog_step_ok [OF st ok] e2 by blast
qed

lemma progressed_differs: "progressed e e' \<Longrightarrow> \<not> (sameGeneration e' e \<and> pe_revision e' = pe_revision e)"
  by (auto simp: progressed_def generation_less_def compareGeneration_def sameGeneration_def)

text \<open>The silence of a session: the time since its last progress, or since the retry it was waiting for.\<close>

definition silent_for :: "progress_entry \<Rightarrow> int \<Rightarrow> int \<Rightarrow> bool" where
  "silent_for e now ms =
     (pe_lastProgressAtMs e + ms \<le> now \<or> (\<exists>t. pe_disposition e = DispWaiting \<and> pe_resumeAtMs e = Some t \<and> t + ms \<le> now))"

lemma decision_entry:
  assumes "watchdog_ok n m" "d \<in> set (fst (evaluateProgressWatchdog m now th))" "0 < wt_suspectAfterMs th" "0 < wt_stalledAfterMs th"
  shows "\<exists>e. map_get m (entryKey d) = Some e \<and> sameGeneration e d \<and> pe_revision e = wd_revision d \<and> wd_state d \<notin> set (pe_acknowledged e)
    \<and> silent_for e now (if wd_state d = WdStalled then wt_stalledAfterMs th else wt_suspectAfterMs th)
    \<and> \<not> (pe_disposition e = DispWaiting \<and> indefinite_wait e) \<and> wd_state d \<in> {WdSuspect, WdStalled}"
proof -
  obtain e where e: "e \<in> set (map_values m)" "d = decision_of e (entryState e now th)" "fst (entryState e now th) \<in> {WdSuspect, WdStalled}"
      "fst (entryState e now th) \<notin> set (pe_acknowledged e)"
    using assms(2) by (auto simp: evaluateProgressWatchdog_def watchdog_decisions_def Let_def)
  have "map_ok m" using assms(1) by (simp only: watchdog_ok_def)
  then obtain k where k: "map_get m k = Some e" using e(1) values_map_get [of m e] by auto
  have "entryKey e = k" using assms(1) k unfolding watchdog_ok_def by blast
  moreover have "entryKey d = entryKey e" "sameGeneration e d" "pe_revision e = wd_revision d" "wd_state d = fst (entryState e now th)"
    by (simp_all add: e(2) decision_of_def entryKey_def sameGeneration_def)
  moreover have "silent_for e now (if fst (entryState e now th) = WdStalled then wt_stalledAfterMs th else wt_suspectAfterMs th)"
    using e(3) assms(3,4) by (auto simp: entryState_def silent_for_def Let_def split: if_splits option.splits)
  moreover have "\<not> (pe_disposition e = DispWaiting \<and> indefinite_wait e)" using e(3) by (auto simp: entryState_def)
  ultimately show ?thesis using k e(3,4) by auto
qed

text \<open>C40: the watchdog's decisions are fenced. From the empty state, after any sequence of observations
  and acknowledgements: at most the configured number of sessions is tracked; a decision is reported only for a session that was
  silent for the whole threshold and does not wait for a person; and, as long as the session stays under watch, which a
  terminal observation or an eviction ends, the decision is still current later exactly if no progress was accepted in
  between, and, once acknowledged, is not reported again.\<close>

theorem watchdog_decision_fenced:
  assumes "(watchdog_step mx)\<^sup>*\<^sup>* createProgressWatchdogState m" "0 < wt_suspectAfterMs th" "0 < wt_stalledAfterMs th"
    and "d \<in> set (fst (evaluateProgressWatchdog m now th))" and "(live_step mx (entryKey d))\<^sup>*\<^sup>* m m'"
  shows "int (length m) \<le> max 1 mx
    \<and> (\<exists>e e'. map_get m (entryKey d) = Some e \<and> map_get m' (entryKey d) = Some e'
        \<and> silent_for e now (if wd_state d = WdStalled then wt_stalledAfterMs th else wt_suspectAfterMs th)
        \<and> \<not> (pe_disposition e = DispWaiting \<and> indefinite_wait e)
        \<and> (isProgressWatchdogDecisionCurrent m' d \<longleftrightarrow> quiet e e')
        \<and> (quiet e e' \<or> progressed e e'))
    \<and> (\<forall>m2 now2. (live_step mx (entryKey d))\<^sup>*\<^sup>* (acknowledgeProgressWatchdogDecision m' d) m2 \<longrightarrow> isProgressWatchdogDecisionCurrent m' d
        \<longrightarrow> \<not> (\<exists>d2 \<in> set (fst (evaluateProgressWatchdog m2 now2 th)). entryKey d2 = entryKey d \<and> sameGeneration d2 d
              \<and> wd_revision d2 = wd_revision d \<and> wd_state d2 = wd_state d))"
proof -
  have ok: "watchdog_ok (nat (max 1 mx)) m" using assms(1)
  proof (induction rule: rtranclp_induct)
    case (step y z)
    then show ?case by (blast intro: watchdog_step_ok)
  qed (simp add: createProgressWatchdogState_def watchdog_ok_def)
  obtain e where e: "map_get m (entryKey d) = Some e" "sameGeneration e d" "pe_revision e = wd_revision d"
      "silent_for e now (if wd_state d = WdStalled then wt_stalledAfterMs th else wt_suspectAfterMs th)"
      "\<not> (pe_disposition e = DispWaiting \<and> indefinite_wait e)"
    using decision_entry [OF ok assms(4,2,3)] by blast
  obtain e' where ok': "watchdog_ok (nat (max 1 mx)) m'" and e': "map_get m' (entryKey d) = Some e'" "quiet e e' \<or> progressed e e'"
    using live_steps [OF assms(5) ok e(1)] by blast
  have cur: "isProgressWatchdogDecisionCurrent m' d \<longleftrightarrow> quiet e e'"
  proof
    assume "isProgressWatchdogDecisionCurrent m' d"
    then have "sameGeneration e' e \<and> pe_revision e' = pe_revision e"
      using e' (1) e(2,3) by (simp add: isProgressWatchdogDecisionCurrent_def sameGeneration_def)
    then show "quiet e e'" using e'(2) progressed_differs by blast
  next
    assume "quiet e e'"
    then obtain x where "e' = e\<lparr> pe_acknowledged := x \<rparr>" unfolding quiet_def by blast
    then show "isProgressWatchdogDecisionCurrent m' d" using e'(1) e(2,3) by (simp add: isProgressWatchdogDecisionCurrent_def sameGeneration_def)
  qed
  have once: "\<not> (sameGeneration d2 d \<and> wd_revision d2 = wd_revision d \<and> wd_state d2 = wd_state d)"
    if run: "(live_step mx (entryKey d))\<^sup>*\<^sup>* (acknowledgeProgressWatchdogDecision m' d) m2" and curr: "isProgressWatchdogDecisionCurrent m' d"
      and d2: "d2 \<in> set (fst (evaluateProgressWatchdog m2 now2 th))" "entryKey d2 = entryKey d" for m2 now2 d2
  proof
    assume same: "sameGeneration d2 d \<and> wd_revision d2 = wd_revision d \<and> wd_state d2 = wd_state d"
    let ?a = "acknowledgeProgressWatchdogDecision m' d"
    have oka: "watchdog_ok (nat (max 1 mx)) ?a" by (rule watchdog_step_ok [OF watchdog_step.acknowledge ok'])
    obtain ea where ea: "map_get ?a (entryKey d) = Some ea" "wd_state d \<in> set (pe_acknowledged ea)" "sameGeneration ea d" "pe_revision ea = wd_revision d"
      using curr e'(1) unfolding acknowledgeProgressWatchdogDecision_def isProgressWatchdogDecisionCurrent_def
      by (cases "wd_state d \<in> set (pe_acknowledged e')") (auto simp: sameGeneration_def)
    obtain e2 where ok2: "watchdog_ok (nat (max 1 mx)) m2" and e2: "map_get m2 (entryKey d) = Some e2" "quiet ea e2 \<or> progressed ea e2"
      using live_steps [OF run oka ea(1)] by blast
    have f: "sameGeneration e2 d2" "pe_revision e2 = wd_revision d2" "wd_state d2 \<notin> set (pe_acknowledged e2)"
      using decision_entry [OF ok2 d2(1) assms(2,3)] e2(1) d2(2) by auto
    have "sameGeneration e2 ea"
      using sameGeneration_trans [OF f(1) sameGeneration_trans [OF conjunct1 [OF same] sameGeneration_sym [OF ea(3)]]] .
    moreover have "pe_revision e2 = pe_revision ea" using same f(2) ea(4) by (simp only:)
    ultimately have "sameGeneration e2 ea \<and> pe_revision e2 = pe_revision ea" ..
    then have "quiet ea e2" using e2(2) progressed_differs by blast
    then have "set (pe_acknowledged ea) \<subseteq> set (pe_acknowledged e2)" unfolding quiet_def by (rule conjunct2)
    then have "wd_state d \<in> set (pe_acknowledged e2)" using ea(2) by (rule subsetD)
    moreover have "wd_state d2 = wd_state d" using same by (elim conjE)
    ultimately show False using f(3) by simp
  qed
  have "int (length m) \<le> max 1 mx" using ok unfolding watchdog_ok_def by linarith
  then show ?thesis using e(1,4,5) e' cur once by blast
qed

definition sample_progress :: "int \<Rightarrow> int \<Rightarrow> progress_observation" where
  "sample_progress n t = \<lparr> pi_scopeId = ''o'', pi_sessionId = ''s1'', pi_runId = ''r'', pi_runtimeGeneration = 1, pi_executionGeneration = 1,
     pi_leaseOwner = ''w'', pi_leaseEpoch = ''e'', po_source = DurableSequence, po_disposition = DispRunning, po_waitingReason = None,
     po_resumeAtMs = None, po_sequence = Some n, po_progressCursor = None, po_semanticKey = None, po_observedAtMs = Some t \<rparr>"

definition sample_thresholds :: watchdog_thresholds where
  "sample_thresholds = \<lparr> wt_suspectAfterMs = 10, wt_stalledAfterMs = 50, wt_maxSnapshotEntries = 5 \<rparr>"

text \<open>A session reports progress at 0 and is suspect at 20; it then progresses, and the decision is void.\<close>

theorem watchdog_decision_fenced_witness:
  "\<exists>d. fst (evaluateProgressWatchdog (recordProgressWatchdogObservation [] (sample_progress 1 0) 4) 20 sample_thresholds) = [d]
     \<and> wd_state d = WdSuspect
     \<and> \<not> isProgressWatchdogDecisionCurrent
          (recordProgressWatchdogObservation (recordProgressWatchdogObservation [] (sample_progress 1 0) 4) (sample_progress 2 21) 4) d"
proof -
  define m where "m = recordProgressWatchdogObservation [] (sample_progress 1 0) 4"
  define m' where "m' = recordProgressWatchdogObservation m (sample_progress 2 21) 4"
  have c: "case fst (evaluateProgressWatchdog m 20 sample_thresholds) of
       [d] \<Rightarrow> wd_state d = WdSuspect \<and> map_has m' (entryKey d)
         \<and> map_option pe_revision (map_get m (entryKey d)) = Some 1 \<and> map_option pe_revision (map_get m' (entryKey d)) = Some 2
     | _ \<Rightarrow> False"
    unfolding m_def m'_def by code_simp
  then obtain d where d: "fst (evaluateProgressWatchdog m 20 sample_thresholds) = [d]" by (auto split: list.splits)
  have r: "wd_state d = WdSuspect" "map_has m' (entryKey d)" "map_option pe_revision (map_get m (entryKey d)) = Some 1"
    "map_option pe_revision (map_get m' (entryKey d)) = Some 2" using c by (simp_all add: d)
  have 1: "(watchdog_step 4)\<^sup>*\<^sup>* createProgressWatchdogState m"
    unfolding m_def createProgressWatchdogState_def by (rule r_into_rtranclp, rule watchdog_step.observe)
  have 2: "(live_step 4 (entryKey d))\<^sup>*\<^sup>* m m'"
    by (rule r_into_rtranclp, rule live_step.intros [OF _ r(2)]) (simp add: m'_def watchdog_step.observe)
  have th: "0 < wt_suspectAfterMs sample_thresholds" "0 < wt_stalledAfterMs sample_thresholds" by (simp_all add: sample_thresholds_def)
  have mem: "d \<in> set (fst (evaluateProgressWatchdog m 20 sample_thresholds))" by (simp add: d)
  obtain e e' where e: "map_get m (entryKey d) = Some e" "map_get m' (entryKey d) = Some e'" "isProgressWatchdogDecisionCurrent m' d \<longleftrightarrow> quiet e e'"
    using watchdog_decision_fenced [OF 1 th mem 2] by blast
  have "\<not> quiet e e'"
  proof
    assume "quiet e e'"
    then obtain x where "e' = e\<lparr> pe_acknowledged := x \<rparr>" unfolding quiet_def by blast
    then show False using r(3,4) e(1,2) by simp
  qed
  then show ?thesis using d r(1) e(3) unfolding m_def m'_def by blast
qed

end
