(* ===== verification/Runtime_Sanitizer.thy ===== *)
theory Runtime_Sanitizer
  imports Json_Canon
begin

text \<open>
  The sanitizer at the durable boundary of a session (\<open>packages/shared/src/runtime-event-sanitizer.ts\<close>): a payload
  of the runtime is cut to a bounded size, and values under secret-looking names are replaced. The model is over
  JSON values; a cycle, a \<open>Date\<close> or a function does not occur in one. The regular-expression passes over one
  text (\<open>sanitizeForExport\<close>, and the path and URI patterns) are arguments. The search for a
  free property name is a loop that may not end, so results are \<open>None\<close> where the code does not return.
  Shown: when the call returns, what it returns on which inputs, and that secrets do not reach the result.
\<close>


section \<open>Texts\<close>

definition RUNTIME_EVENT_REDACTED :: string where
  "RUNTIME_EVENT_REDACTED = ''[REDACTED_RUNTIME_VALUE]''"

definition RUNTIME_EVENT_TRUNCATED :: string where
  "RUNTIME_EVENT_TRUNCATED = ''[TRUNCATED_RUNTIME_VALUE]''"

definition char_bytes :: "char \<Rightarrow> int" where
  "char_bytes c = (if (of_char c :: nat) < 128 then 1 else 2)"

text \<open>The characters before the first one that no longer fits into the bytes left.\<close>

fun utf8_prefix :: "int \<Rightarrow> string \<Rightarrow> string" where
  "utf8_prefix left [] = []"
| "utf8_prefix left (c # cs) = (if char_bytes c > left then [] else c # utf8_prefix (left - char_bytes c) cs)"

definition truncateUtf8 :: "string \<Rightarrow> int \<Rightarrow> string" where
  "truncateUtf8 value maxBytes =
     (if utf8_length value \<le> maxBytes then value else utf8_prefix maxBytes value @ RUNTIME_EVENT_TRUNCATED)"

definition SENSITIVE_RUNTIME_KEY :: "string \<Rightarrow> bool" where
  "SENSITIVE_RUNTIME_KEY k =
     list_ex (str_includes (js_lower k)) [''authorization'', ''cookie'', ''credential'', ''password'', ''passwd'', ''privatekey'', ''private_key'',
       ''private-key'', ''secret'', ''signature'', ''token'', ''apikey'', ''api_key'', ''api-key'']"

definition UNSAFE_OBJECT_KEYS :: "string list" where
  "UNSAFE_OBJECT_KEYS = [''__proto__'', ''constructor'', ''prototype'']"

definition managed_path_of :: "json \<Rightarrow> string option" where
  "managed_path_of v = (case v of JStr s \<Rightarrow> (let p = take 4096 (js_trim s) in if p = [] then None else Some p) | _ \<Rightarrow> None)"

definition normalizeManagedPaths :: "json option \<Rightarrow> string list" where
  "normalizeManagedPaths value =
     (case value of Some (JArr vs) \<Rightarrow> js_unique (List.map_filter managed_path_of (take 64 vs)) | _ \<Rightarrow> [])"

text \<open>\<open>String.replaceAll\<close> for a literal that is not empty, left to right; the fuel is the length of the text.\<close>

fun replace_all :: "string \<Rightarrow> string \<Rightarrow> string \<Rightarrow> nat \<Rightarrow> string" where
  "replace_all pat rep s 0 = s"
| "replace_all pat rep s (Suc n) =
     (if s = [] then [] else if take (length pat) s = pat then rep @ replace_all pat rep (drop (length pat) s) n
      else hd s # replace_all pat rep (tl s) n)"

definition replaceAll :: "string \<Rightarrow> string \<Rightarrow> string \<Rightarrow> string" where
  "replaceAll s pat rep = replace_all pat rep s (length s)"

text \<open>\<open>sz_export\<close> is \<open>sanitizeForExport\<close>, \<open>sz_patterns\<close> the four replacements by a pattern after it.\<close>

record sanitizer_context =
  sz_export :: "string \<Rightarrow> string"
  sz_patterns :: "string \<Rightarrow> string"
  sz_managedPaths :: "string list"
  sz_redactSensitive :: bool

definition redactRuntimeString :: "sanitizer_context \<Rightarrow> string \<Rightarrow> string" where
  "redactRuntimeString c value =
     truncateUtf8
       (if sz_redactSensitive c
        then sz_patterns c (foldl (\<lambda>s path. replaceAll s path ''[REDACTED_MANAGED_PATH]'') (sz_export c value) (sz_managedPaths c))
        else value) 65536"


section \<open>The walk\<close>

text \<open>The names the loop tries: the key itself, then the key with a running number, cut to 256 bytes.\<close>

definition key_candidate :: "string \<Rightarrow> nat \<Rightarrow> string" where
  "key_candidate k n = (if n \<le> 1 then k else truncateUtf8 (k @ ''#'' @ show_nat n) 256)"

partial_function (option) free_key :: "string list \<Rightarrow> string \<Rightarrow> nat \<Rightarrow> string option" where
  "free_key used k n = (if key_candidate k n \<in> set used then free_key used k (n + 1) else Some (key_candidate k n))"

definition is_file_part :: "(string \<times> json) list \<Rightarrow> bool" where
  "is_file_part kvs = (map_of kvs ''type'' = Some (JStr ''file''))"

fun sanitizeEntry :: "sanitizer_context \<Rightarrow> nat \<Rightarrow> json \<Rightarrow> nat \<Rightarrow> (json option \<times> nat) option"
  and sanitize_items :: "sanitizer_context \<Rightarrow> nat \<Rightarrow> json list \<Rightarrow> nat \<Rightarrow> nat \<Rightarrow> (json list \<times> nat) option"
  and sanitize_fields :: "sanitizer_context \<Rightarrow> nat \<Rightarrow> (string \<times> json) list \<Rightarrow> nat \<Rightarrow> (string \<times> json) list \<Rightarrow> nat \<Rightarrow> ((string \<times> json) list \<times> nat) option"
where
  "sanitizeEntry c depth (JStr s) nodes =
     Some (Some (JStr (if nodes + 1 > 2048 \<or> depth > 12 then RUNTIME_EVENT_TRUNCATED else redactRuntimeString c s)), nodes + 1)"
| "sanitizeEntry c depth (JArr vs) nodes =
     (if nodes + 1 > 2048 \<or> depth > 12 then Some (Some (JStr RUNTIME_EVENT_TRUNCATED), nodes + 1)
      else case sanitize_items c (depth + 1) vs 0 (nodes + 1) of
        None \<Rightarrow> None
      | Some (out, n) \<Rightarrow> Some (Some (JArr (out @ (if length vs > 256 then [JStr RUNTIME_EVENT_TRUNCATED] else []))), n))"
| "sanitizeEntry c depth (JObj kvs) nodes =
     (if nodes + 1 > 2048 \<or> depth > 12 then Some (Some (JStr RUNTIME_EVENT_TRUNCATED), nodes + 1)
      else if sz_redactSensitive c \<and> is_file_part kvs then Some (None, nodes + 1)
      else case sanitize_fields c (depth + 1) kvs 0 [] (nodes + 1) of
        None \<Rightarrow> None
      | Some (out, n) \<Rightarrow> Some (Some (JObj out), n))"
| "sanitizeEntry c depth JNull nodes = Some (Some (if nodes + 1 > 2048 \<or> depth > 12 then JStr RUNTIME_EVENT_TRUNCATED else JNull), nodes + 1)"
| "sanitizeEntry c depth (JBool b) nodes = Some (Some (if nodes + 1 > 2048 \<or> depth > 12 then JStr RUNTIME_EVENT_TRUNCATED else JBool b), nodes + 1)"
| "sanitizeEntry c depth (JNum t) nodes = Some (Some (if nodes + 1 > 2048 \<or> depth > 12 then JStr RUNTIME_EVENT_TRUNCATED else JNum t), nodes + 1)"
| "sanitize_items c depth [] k nodes = Some ([], nodes)"
| "sanitize_items c depth (v # vs) k nodes =
     (if k \<ge> 256 then Some ([], nodes)
      else case sanitizeEntry c depth v nodes of
        None \<Rightarrow> None
      | Some (r, n) \<Rightarrow>
          (case sanitize_items c depth vs (k + 1) n of
             None \<Rightarrow> None
           | Some (out, n') \<Rightarrow> Some ((case r of Some j \<Rightarrow> j # out | None \<Rightarrow> out), n')))"
| "sanitize_fields c depth [] examined out nodes = Some (out, nodes)"
| "sanitize_fields c depth ((rawKey, v) # rest) examined out nodes =
     (if examined + 1 > 256 then Some (map_set ''truncated'' (JStr RUNTIME_EVENT_TRUNCATED) out, nodes)
      else let k = truncateUtf8 (redactRuntimeString c rawKey) 256 in
        if k = [] \<or> k \<in> set UNSAFE_OBJECT_KEYS then sanitize_fields c depth rest (examined + 1) out nodes
        else case free_key (map fst out) k 1 of
          None \<Rightarrow> None
        | Some safeKey \<Rightarrow>
            if sz_redactSensitive c \<and> SENSITIVE_RUNTIME_KEY rawKey
            then sanitize_fields c depth rest (examined + 1) (out @ [(safeKey, JStr RUNTIME_EVENT_REDACTED)]) nodes
            else case sanitizeEntry c depth v nodes of
              None \<Rightarrow> None
            | Some (r, n) \<Rightarrow> sanitize_fields c depth rest (examined + 1) (case r of Some j \<Rightarrow> out @ [(safeKey, j)] | None \<Rightarrow> out) n)"

text \<open>The result of a call: \<open>None\<close> when it does not return, \<open>Some None\<close> when it returns undefined.\<close>

definition sanitizeRuntimeEventValue :: "sanitizer_context \<Rightarrow> json \<Rightarrow> json option option" where
  "sanitizeRuntimeEventValue c value =
     (case sanitizeEntry c 0 value 0 of
        None \<Rightarrow> None
      | Some (None, _) \<Rightarrow> Some None
      | Some (Some j, _) \<Rightarrow> Some (Some (if utf8_length (json_print j) \<le> 524288 then j else JStr RUNTIME_EVENT_TRUNCATED)))"

definition sanitizeRuntimeEventRecord :: "sanitizer_context \<Rightarrow> json \<Rightarrow> (string \<times> json) list option" where
  "sanitizeRuntimeEventRecord c value =
     (case sanitizeRuntimeEventValue c value of
        None \<Rightarrow> None
      | Some (Some (JObj kvs)) \<Rightarrow> Some kvs
      | Some (Some (JStr t)) \<Rightarrow> Some (if t = RUNTIME_EVENT_TRUNCATED then [(''truncated'', JStr RUNTIME_EVENT_TRUNCATED)] else [])
      | Some _ \<Rightarrow> Some [])"

section \<open>The search for a free name\<close>

lemma utf8_length_append [simp]: "utf8_length (a @ b) = utf8_length a + utf8_length b"
  by (simp add: utf8_length_def)

lemma utf8_length_nonneg [simp]: "0 \<le> utf8_length s"
  by (induction s) (auto simp: utf8_length_def)

lemma free_key_simps: "free_key used k n = (if key_candidate k n \<in> set used then free_key used k (n + 1) else Some (key_candidate k n))"
  by (rule free_key.simps)

lemma free_key_found: "n \<le> m \<Longrightarrow> key_candidate k m \<notin> set used \<Longrightarrow> \<exists>c. free_key used k n = Some c"
proof (induction "m - n" arbitrary: n)
  case 0
  then show ?case by (simp add: free_key_simps)
next
  case (Suc d)
  then show ?case
  proof (cases "key_candidate k n \<in> set used")
    case True
    then have "n \<noteq> m" using Suc.prems by blast
    then have "\<exists>c. free_key used k (n + 1) = Some c" using Suc.hyps Suc.prems by (intro Suc.hyps(1)) simp_all
    then show ?thesis using True by (simp add: free_key_simps [of _ _ n])
  qed (simp add: free_key_simps)
qed

text \<open>A result of the search is a candidate that is not in use; when all candidates are, there is none.\<close>

lemma free_key_sound:
  assumes "free_key used k n = Some c"
  shows "c \<notin> set used \<and> (\<exists>m\<ge>n. c = key_candidate k m)"
proof (rule free_key.raw_induct [where P = "\<lambda>used k n c. c \<notin> set used \<and> (\<exists>m\<ge>n. c = key_candidate k m)", OF _ assms])
  fix f used k n c
  assume ih: "\<And>used k n c. f used k n = Some c \<Longrightarrow> c \<notin> set used \<and> (\<exists>m\<ge>n. c = key_candidate k m)"
    and step: "(if key_candidate k n \<in> set used then f used k (n + 1) else Some (key_candidate k n)) = Some c"
  show "c \<notin> set used \<and> (\<exists>m\<ge>n. c = key_candidate k m)"
  proof (cases "key_candidate k n \<in> set used")
    case True
    then have "f used k (n + 1) = Some c" using step by simp
    from ih [OF this] show ?thesis by (blast intro: add_leD1)
  qed (use step in auto)
qed

lemma free_key_none:
  assumes "\<And>m. n \<le> m \<Longrightarrow> key_candidate k m \<in> set used"
  shows "free_key used k n = None"
proof (cases "free_key used k n")
  case (Some c)
  from free_key_sound [OF this] assms show ?thesis by blast
qed simp

lemma char_bytes_pos: "0 < char_bytes c"
  by (simp add: char_bytes_def)

lemma utf8_length_Cons [simp]: "utf8_length (c # s) = char_bytes c + utf8_length s" "utf8_length [] = 0"
  by (simp_all add: utf8_length_def char_bytes_def)

lemma digit_bytes: "utf8_length (show_nat n) = int (length (show_nat n))"
proof -
  have "utf8_length s = int (length s)" if "\<forall>c\<in>set s. (of_char c :: nat) \<le> 57" for s
    using that by (induction s) (auto simp: char_bytes_def)
  then show ?thesis using show_nat_digits by blast
qed

lemma show_nat_length: "n < 1000 \<Longrightarrow> length (show_nat n) \<le> 3"
  by (simp add: show_nat.simps [of n] show_nat.simps [of "n div 10"] show_nat.simps [of "n div 10 div 10"])

text \<open>A key of at most 252 bytes is never cut in its first 999 candidates, which are therefore different.\<close>

lemma short_candidate:
  assumes "utf8_length k \<le> 252" "2 \<le> n" "n < 1000"
  shows "key_candidate k n = k @ ''#'' @ show_nat n"
proof -
  have "utf8_length (show_nat n) \<le> 3" using show_nat_length [OF assms(3)] by (simp add: digit_bytes)
  then have "utf8_length (k @ ''#'' @ show_nat n) \<le> 256" using assms(1) by (simp add: char_bytes_def)
  then show ?thesis using assms(2) by (simp add: key_candidate_def truncateUtf8_def)
qed

lemma candidates_inj:
  assumes "utf8_length k \<le> 252"
  shows "inj_on (key_candidate k) {1..<1000}"
proof (rule inj_onI)
  fix m n :: nat
  assume h: "m \<in> {1..<1000}" "n \<in> {1..<1000}" "key_candidate k m = key_candidate k n"
  have one: "key_candidate k 1 = k" by (simp add: key_candidate_def)
  consider "m = 1" "n = 1" | "m = 1" "2 \<le> n" | "2 \<le> m" "n = 1" | "2 \<le> m" "2 \<le> n" using h(1,2) by force
  then show "m = n"
  proof cases
    case 2
    then show ?thesis using h short_candidate [OF assms, of n] one by simp
  next
    case 3
    then show ?thesis using h short_candidate [OF assms, of m] one by simp
  next
    case 4
    then show ?thesis using h short_candidate [OF assms] by (auto dest: show_nat_inj)
  qed simp
qed

lemma free_key_short:
  assumes "utf8_length k \<le> 252" "length used < 999"
  shows "\<exists>c. free_key used k 1 = Some c"
proof -
  have "card (key_candidate k ` {1..<1000}) = 999" using card_image [OF candidates_inj [OF assms(1)]] by simp
  moreover have "card (set used) < 999" using card_length [of used] assms(2) by linarith
  ultimately have "\<not> key_candidate k ` {1..<1000} \<subseteq> set used" by (metis card_mono List.finite_set leD)
  then obtain m where "m \<in> {1..<1000}" "key_candidate k m \<notin> set used" by blast
  then show ?thesis by (intro free_key_found [of 1 m]) simp_all
qed


section \<open>When the call returns\<close>

text \<open>All property names, after redaction, have at most 252 bytes.\<close>

fun keys_short :: "sanitizer_context \<Rightarrow> json \<Rightarrow> bool" where
  "keys_short c (JArr vs) = list_all (keys_short c) vs"
| "keys_short c (JObj kvs) = list_all (\<lambda>(k, v). utf8_length (redactRuntimeString c k) \<le> 252 \<and> keys_short c v) kvs"
| "keys_short c _ = True"

lemma sanitize_returns:
  "keys_short c v \<Longrightarrow> sanitizeEntry c d v n \<noteq> None"
  "list_all (keys_short c) vs \<Longrightarrow> sanitize_items c d vs k n \<noteq> None"
  "list_all (\<lambda>(k, v). utf8_length (redactRuntimeString c k) \<le> 252 \<and> keys_short c v) kvs \<Longrightarrow> length out \<le> ex \<Longrightarrow> sanitize_fields c d kvs ex out n \<noteq> None"
proof (induction c d v n and c d vs k n and c d kvs ex out n rule: sanitizeEntry_sanitize_items_sanitize_fields.induct)
  case (10 c depth rawKey v rest examined out nodes)
  let ?k = "truncateUtf8 (redactRuntimeString c rawKey) 256"
  show ?case
  proof (cases "examined + 1 > 256 \<or> ?k = [] \<or> ?k \<in> set UNSAFE_OBJECT_KEYS")
    case True
    then show ?thesis using 10(1) [of ?k] 10(5,6) by (simp add: Let_def) blast
  next
    case False
    have "?k = redactRuntimeString c rawKey" "utf8_length ?k \<le> 252" using 10(5) by (simp_all add: truncateUtf8_def)
    moreover have "length (map fst out) < 999" using 10(6) False by simp
    ultimately obtain sk where sk: "free_key (map fst out) ?k 1 = Some sk" using free_key_short by blast
    show ?thesis
    proof (cases "sz_redactSensitive c \<and> SENSITIVE_RUNTIME_KEY rawKey")
      case True
      then show ?thesis using 10(2) [of ?k sk] 10(5,6) False sk by (simp add: Let_def)
    next
      case hide: False
      obtain r n where r: "sanitizeEntry c depth v nodes = Some (r, n)"
        using 10(3) [of ?k sk] 10(5) False sk hide by auto
      have "length (case r of None \<Rightarrow> out | Some j \<Rightarrow> out @ [(sk, j)]) \<le> examined + 1" using 10(6) by (simp split: option.split)
      then show ?thesis using 10(4) [of ?k sk "(r, n)" r n] 10(5) False sk hide r by (auto simp: Let_def)
    qed
  qed
qed (auto split: option.splits, blast+)

text \<open>C39: A call of the sanitizer returns for every payload whose property names have at most 252 bytes after redaction:
  the search for a free name then always ends, whatever names collapse.\<close>

theorem sanitizer_terminates:
  assumes "keys_short c v"
  shows "\<exists>r. sanitizeRuntimeEventRecord c v = Some r"
proof -
  obtain r n where "sanitizeEntry c 0 v 0 = Some (r, n)" using sanitize_returns(1) [OF assms] by (metis not_None_eq surj_pair)
  then show ?thesis by (auto simp: sanitizeRuntimeEventRecord_def sanitizeRuntimeEventValue_def split: option.split json.split)
qed

definition opaque_context :: sanitizer_context where
  "opaque_context = \<lparr>sz_export = id, sz_patterns = id, sz_managedPaths = [''/w''], sz_redactSensitive = True\<rparr>"

theorem sanitizer_terminates_witness:
  "\<exists>r. sanitizeRuntimeEventRecord opaque_context (JObj [(''/w/a'', JNull), (''[REDACTED_MANAGED_PATH]/a'', JNull)]) = Some r"
  by (rule sanitizer_terminates) (simp add: opaque_context_def redactRuntimeString_def truncateUtf8_def char_bytes_def replaceAll_def)

text \<open>Two names of more than 256 bytes that agree on the first 256 do not: every candidate for the second is the same text.\<close>

lemma utf8_length_not_neg [simp]: "\<not> utf8_length s < 0"
  by (simp add: not_less)

lemma utf8_prefix_append: "utf8_length s = n \<Longrightarrow> t \<noteq> [] \<Longrightarrow> utf8_prefix n (s @ t) = s"
proof (induction s arbitrary: n)
  case Nil
  then show ?case using char_bytes_pos by (cases t) (simp_all add: not_le)
next
  case (Cons a s)
  then show ?case using char_bytes_pos [of a] by (auto simp: not_less)
qed

lemma truncate_long:
  assumes "utf8_length s = 256" "t \<noteq> []"
  shows "truncateUtf8 (s @ t) 256 = s @ RUNTIME_EVENT_TRUNCATED"
proof -
  have "0 < utf8_length t" using assms(2) char_bytes_pos utf8_length_nonneg by (cases t) (simp_all add: add_pos_nonneg)
  then show ?thesis using assms by (simp add: truncateUtf8_def utf8_prefix_append)
qed

theorem sanitizer_diverges:
  assumes k: "utf8_length k = 256" and a: "a \<noteq> []" "utf8_length (k @ a) \<le> 65536" and b: "b \<noteq> []" "utf8_length (k @ b) \<le> 65536"
    and c: "\<not> sz_redactSensitive c"
  shows "sanitizeRuntimeEventRecord c (JObj [(k @ a, JNull), (k @ b, JNull)]) = None"
proof -
  let ?t = "k @ RUNTIME_EVENT_TRUNCATED"
  have key: "truncateUtf8 (redactRuntimeString c (k @ x)) 256 = ?t" if "x \<noteq> []" "utf8_length (k @ x) \<le> 65536" for x
    using that c truncate_long [OF k] by (simp add: redactRuntimeString_def truncateUtf8_def [of _ 65536])
  have nonempty: "RUNTIME_EVENT_TRUNCATED \<noteq> []" by (simp add: RUNTIME_EVENT_TRUNCATED_def)
  have "set ?t \<noteq> {}" "CHR ''['' \<in> set ?t" by (simp_all add: RUNTIME_EVENT_TRUNCATED_def)
  then have safe: "?t \<notin> set UNSAFE_OBJECT_KEYS" unfolding UNSAFE_OBJECT_KEYS_def by (auto simp del: set_append dest: arg_cong [where f = set])
  have first: "free_key [] ?t 1 = Some ?t" by (simp add: free_key_simps key_candidate_def)
  have cand: "key_candidate ?t m = ?t" for m
    using truncate_long [OF k, of "RUNTIME_EVENT_TRUNCATED @ ''#'' @ show_nat m"] by (simp add: key_candidate_def RUNTIME_EVENT_TRUNCATED_def)
  have second: "free_key [?t] ?t 1 = None" by (rule free_key_none) (simp add: cand)
  have "sanitize_fields c 1 [(k @ a, JNull), (k @ b, JNull)] 0 [] 1 = None"
    using c nonempty safe first second by (simp add: key [OF a] key [OF b] Let_def)
  then show ?thesis using c by (simp add: sanitizeRuntimeEventRecord_def sanitizeRuntimeEventValue_def)
qed

section \<open>Secrets do not reach the result\<close>

text \<open>\<open>mask\<close> erases what must not matter: the values under a secret-looking name and the contents of file parts.\<close>

fun mask :: "json \<Rightarrow> json" where
  "mask (JArr vs) = JArr (map mask vs)"
| "mask (JObj kvs) =
     JObj (if is_file_part kvs then [(''type'', JStr ''file'')] else map (\<lambda>(k, v). (k, if SENSITIVE_RUNTIME_KEY k then JNull else mask v)) kvs)"
| "mask v = v"

lemma mask_text [simp]: "mask v = JStr s \<longleftrightarrow> v = JStr s"
  by (cases v) simp_all

lemma map_of_mask: "map_of (map (\<lambda>(k, v). (k, if P k then JNull else f v)) kvs) x = map_option (\<lambda>v. if P x then JNull else f v) (map_of kvs x)"
  by (induction kvs) auto

lemma is_file_part_mask [simp]:
  "is_file_part (map (\<lambda>(k, v). (k, if SENSITIVE_RUNTIME_KEY k then JNull else mask v)) kvs) = is_file_part kvs"
proof -
  have "\<not> SENSITIVE_RUNTIME_KEY ''type''" by code_simp
  then show ?thesis by (auto simp: is_file_part_def map_of_mask)
qed

lemma file_part_alone [simp]: "is_file_part [(''type'', JStr ''file'')]"
  by (simp add: is_file_part_def)

lemma sanitize_mask:
  "sz_redactSensitive c \<Longrightarrow> sanitizeEntry c d (mask v) n = sanitizeEntry c d v n"
  "sz_redactSensitive c \<Longrightarrow> sanitize_items c d (map mask vs) k n = sanitize_items c d vs k n"
  "sz_redactSensitive c \<Longrightarrow>
     sanitize_fields c d (map (\<lambda>(k, v). (k, if SENSITIVE_RUNTIME_KEY k then JNull else mask v)) kvs) ex out n = sanitize_fields c d kvs ex out n"
proof (induction c d v n and c d vs k n and c d kvs ex out n rule: sanitizeEntry_sanitize_items_sanitize_fields.induct)
  case (10 c depth rawKey v rest examined out nodes)
  then show ?case by (simp add: Let_def split: option.split prod.split)
qed (auto split: option.split prod.split)

text \<open>C37: With redaction on, two payloads that differ only in the values under secret-looking property names, and in the contents
  of file parts, give the same result at every depth: no bit of a secret reaches the durable record.\<close>

theorem sanitizer_noninterference:
  assumes "sz_redactSensitive c" "mask v = mask w"
  shows "sanitizeRuntimeEventValue c v = sanitizeRuntimeEventValue c w \<and> sanitizeRuntimeEventRecord c v = sanitizeRuntimeEventRecord c w"
proof -
  have "sanitizeEntry c 0 v 0 = sanitizeEntry c 0 w 0" using sanitize_mask(1) [OF assms(1)] assms(2) by metis
  then show ?thesis by (simp add: sanitizeRuntimeEventRecord_def sanitizeRuntimeEventValue_def)
qed

theorem sanitizer_noninterference_witness:
  "sanitizeRuntimeEventValue opaque_context (JObj [(''env'', JObj [(''API_TOKEN'', JStr ''s1''), (''n'', JNull)])]) =
     sanitizeRuntimeEventValue opaque_context (JObj [(''env'', JObj [(''API_TOKEN'', JArr [JStr ''other'']), (''n'', JNull)])])"
proof -
  have "SENSITIVE_RUNTIME_KEY ''API_TOKEN''" "\<not> SENSITIVE_RUNTIME_KEY ''env''" "\<not> SENSITIVE_RUNTIME_KEY ''n''" by code_simp+
  then show ?thesis
    by (intro sanitizer_noninterference [THEN conjunct1]) (simp_all add: opaque_context_def is_file_part_def)
qed


section \<open>Bounds of the result\<close>

fun within :: "nat \<Rightarrow> json \<Rightarrow> bool" where
  "within d (JStr s) = (utf8_length s \<le> 65536 + 25)"
| "within d (JArr vs) = (d \<le> 12 \<and> length vs \<le> 257 \<and> list_all (within (d + 1)) vs)"
| "within d (JObj kvs) =
     (d \<le> 12 \<and> length kvs \<le> 257 \<and> distinct (map fst kvs) \<and>
      list_all (\<lambda>(k, v). utf8_length k \<le> 256 + 25 \<and> k \<notin> set UNSAFE_OBJECT_KEYS \<and> within (d + 1) v) kvs)"
| "within d _ = True"

abbreviation fields_within :: "nat \<Rightarrow> (string \<times> json) list \<Rightarrow> bool" where
  "fields_within d kvs \<equiv>
     distinct (map fst kvs) \<and> list_all (\<lambda>(k, v). utf8_length k \<le> 256 + 25 \<and> k \<notin> set UNSAFE_OBJECT_KEYS \<and> within d v) kvs"

lemma utf8_prefix_length: "0 \<le> n \<Longrightarrow> utf8_length (utf8_prefix n s) \<le> n"
proof (induction s arbitrary: n)
  case (Cons a s)
  show ?case using Cons.IH [of "n - char_bytes a"] Cons.prems by (auto simp: not_less)
qed simp

lemma truncated_bytes [simp]: "utf8_length RUNTIME_EVENT_TRUNCATED = 25" "utf8_length RUNTIME_EVENT_REDACTED = 24"
  by (simp_all add: RUNTIME_EVENT_TRUNCATED_def RUNTIME_EVENT_REDACTED_def char_bytes_def)

lemma truncateUtf8_length: "0 \<le> n \<Longrightarrow> utf8_length (truncateUtf8 s n) \<le> n + 25"
  using utf8_prefix_length [of n s] by (simp add: truncateUtf8_def)

lemma redact_length [simp]: "utf8_length (redactRuntimeString c s) \<le> 65561"
  using truncateUtf8_length [of 65536] by (simp add: redactRuntimeString_def)

text \<open>A name the walk uses is not one of the unsafe ones: a candidate is the key itself or ends in a digit or the marker.\<close>

lemma candidate_safe:
  assumes "k \<notin> set UNSAFE_OBJECT_KEYS"
  shows "key_candidate k m \<notin> set UNSAFE_OBJECT_KEYS"
proof (cases "m \<le> 1")
  case False
  have marked: "CHR ''['' \<in> set RUNTIME_EVENT_TRUNCATED" by (simp add: RUNTIME_EVENT_TRUNCATED_def)
  have "\<exists>x\<in>set (key_candidate k m). x = CHR ''#'' \<or> x = CHR ''[''"
    using False marked by (auto simp: key_candidate_def truncateUtf8_def)
  then show ?thesis by (auto simp: UNSAFE_OBJECT_KEYS_def)
qed (use assms in \<open>simp add: key_candidate_def\<close>)

lemma candidate_length: "utf8_length k \<le> 256 + 25 \<Longrightarrow> utf8_length (key_candidate k m) \<le> 256 + 25"
  using truncateUtf8_length [of 256] by (simp add: key_candidate_def)

lemma free_key_within:
  assumes "free_key (map fst out) (truncateUtf8 s 256) 1 = Some sk" "truncateUtf8 s 256 \<notin> set UNSAFE_OBJECT_KEYS"
  shows "sk \<notin> fst ` set out \<and> sk \<notin> set UNSAFE_OBJECT_KEYS \<and> utf8_length sk \<le> 256 + 25"
proof -
  from free_key_sound [OF assms(1)] obtain m where m: "sk \<notin> set (map fst out)" "sk = key_candidate (truncateUtf8 s 256) m" by blast
  then show ?thesis
    using candidate_safe [OF assms(2), of m] candidate_length [of "truncateUtf8 s 256" m] truncateUtf8_length [of 256 s] by simp
qed

lemma fields_within_truncated:
  assumes "fields_within d out"
  shows "fields_within d (map_set ''truncated'' (JStr RUNTIME_EVENT_TRUNCATED) out)"
proof -
  have new: "utf8_length ''truncated'' \<le> 281" "''truncated'' \<notin> set UNSAFE_OBJECT_KEYS"
    by (simp_all add: char_bytes_def UNSAFE_OBJECT_KEYS_def)
  have "list_all P (map_set k v out)" if "list_all P out" "P (k, v)" for P k v using that by (induction out) auto
  then have "list_all (\<lambda>(k, v). utf8_length k \<le> 256 + 25 \<and> k \<notin> set UNSAFE_OBJECT_KEYS \<and> within d v) (map_set ''truncated'' (JStr RUNTIME_EVENT_TRUNCATED) out)"
    using assms new by (simp del: utf8_length_Cons)
  moreover have "distinct (map fst (map_set ''truncated'' (JStr RUNTIME_EVENT_TRUNCATED) out))"
    using assms by (auto simp: keys_map_set)
  ultimately show ?thesis by blast
qed

lemma fields_within_snoc:
  assumes "fields_within d out" "free_key (map fst out) (truncateUtf8 s 256) 1 = Some sk" "truncateUtf8 s 256 \<notin> set UNSAFE_OBJECT_KEYS" "within d j"
  shows "fields_within d (out @ [(sk, j)])"
  using free_key_within [OF assms(2,3)] assms(1,4) by simp

lemma sanitize_within:
  "sanitizeEntry c d v n = Some (Some j, n') \<Longrightarrow> within d j"
  "sanitize_items c d vs k n = Some (out, n') \<Longrightarrow> k \<le> 256 \<Longrightarrow> length out \<le> 256 - k \<and> list_all (within d) out"
  "sanitize_fields c d kvs ex acc n = Some (fs, n') \<Longrightarrow> fields_within d acc \<Longrightarrow> length acc \<le> ex \<Longrightarrow> ex \<le> 256
     \<Longrightarrow> fields_within d fs \<and> length fs \<le> 257"
proof (induction c d v n and c d vs k n and c d kvs ex acc n arbitrary: j n' and out n' and fs n'
    rule: sanitizeEntry_sanitize_items_sanitize_fields.induct)
  case (2 c depth vs nodes)
  then show ?case by (fastforce split: if_splits option.splits)
next
  case (3 c depth kvs nodes)
  then show ?case by (fastforce split: if_splits option.splits)
next
  case (8 c depth v vs k nodes)
  show ?case
  proof (cases "256 \<le> k")
    case False
    with 8(3) obtain r n1 out1 where
      r: "sanitizeEntry c depth v nodes = Some (r, n1)" "sanitize_items c depth vs (k + 1) n1 = Some (out1, n')"
      and out: "out = (case r of Some j \<Rightarrow> j # out1 | None \<Rightarrow> out1)"
      by (auto split: option.splits)
    have "length out1 \<le> 256 - (k + 1) \<and> list_all (within depth) out1" using 8(2) [of "(r, n1)" r n1 out1 n'] False r by simp
    moreover have "within depth j" if "r = Some j" for j using 8(1) [of j n1] False r that by simp
    ultimately show ?thesis using False out by (auto split: option.splits)
  qed (use 8(3) in simp)
next
  case (10 c depth rawKey v rest examined acc nodes)
  let ?k = "truncateUtf8 (redactRuntimeString c rawKey) 256"
  consider "examined + 1 > 256" | "\<not> examined + 1 > 256" "?k = [] \<or> ?k \<in> set UNSAFE_OBJECT_KEYS"
    | sk where "\<not> examined + 1 > 256" "\<not> (?k = [] \<or> ?k \<in> set UNSAFE_OBJECT_KEYS)" "free_key (map fst acc) ?k 1 = Some sk"
    using 10(5) by (cases "free_key (map fst acc) ?k 1") (auto simp: Let_def split: if_splits)
  then show ?case
  proof cases
    case 1
    then have "fs = map_set ''truncated'' (JStr RUNTIME_EVENT_TRUNCATED) acc" using 10(5) by simp
    then show ?thesis using fields_within_truncated [OF 10(6)] 10(7,8) by (simp add: length_map_set)
  next
    case 2
    then show ?thesis using 10(1) [of ?k] 10(5-8) by (simp add: Let_def)
  next
    case 3
    note snoc = fields_within_snoc [OF 10(6) 3(3)]
    show ?thesis
    proof (cases "sz_redactSensitive c \<and> SENSITIVE_RUNTIME_KEY rawKey")
      case True
      have "fields_within depth (acc @ [(sk, JStr RUNTIME_EVENT_REDACTED)])" using 3(2) by (intro snoc) simp_all
      moreover have "sanitize_fields c depth rest (examined + 1) (acc @ [(sk, JStr RUNTIME_EVENT_REDACTED)]) nodes = Some (fs, n')"
        using 10(5) 3 True by (simp add: Let_def)
      ultimately show ?thesis using 10(2) [of ?k sk fs n'] 10(7) 3 True by simp
    next
      case hide: False
      with 10(5) 3 obtain r n1 where r: "sanitizeEntry c depth v nodes = Some (r, n1)"
        and rest: "sanitize_fields c depth rest (examined + 1) (case r of Some j \<Rightarrow> acc @ [(sk, j)] | None \<Rightarrow> acc) n1 = Some (fs, n')"
        by (auto simp: Let_def split: option.splits)
      have "within depth j" if "r = Some j" for j using 10(3) [of ?k sk j n1] 3 hide r that by simp
      then have "fields_within depth (case r of Some j \<Rightarrow> acc @ [(sk, j)] | None \<Rightarrow> acc)"
        using snoc 3(2) 10(6) by (auto split: option.split)
      moreover have "length (case r of Some j \<Rightarrow> acc @ [(sk, j)] | None \<Rightarrow> acc) \<le> examined + 1" using 10(7) by (simp split: option.split)
      ultimately show ?thesis using 10(4) [of ?k sk "(r, n1)" r n1 fs n'] 3 hide r rest by simp
    qed
  qed
qed (auto split: if_splits)

text \<open>C38: What the sanitizer returns is bounded: at most 13 levels, at most 257 entries in a collection, texts of at most 65561
  bytes, distinct property names of at most 281 bytes, none of them a prototype name, and at most 524288 bytes serialized.\<close>

theorem sanitizer_bounds:
  assumes "sanitizeRuntimeEventValue c v = Some (Some j)"
  shows "within 0 j \<and> utf8_length (json_print j) \<le> 524288"
proof -
  obtain j' n where e: "sanitizeEntry c 0 v 0 = Some (Some j', n)"
    using assms by (auto simp: sanitizeRuntimeEventValue_def split: option.splits)
  have small: "utf8_length (json_print (JStr RUNTIME_EVENT_TRUNCATED)) \<le> 524288" by code_simp
  show ?thesis using assms e sanitize_within(1) [OF e] small
    by (auto simp: sanitizeRuntimeEventValue_def simp del: json_print.simps split: if_splits)
qed

theorem sanitizer_bounds_witness:
  "within 0 (JObj [(''constructor#'', JArr [JStr ''x''])]) \<and> utf8_length (json_print (JObj [(''constructor#'', JArr [JStr ''x''])])) \<le> 524288"
proof (rule sanitizer_bounds)
  have "utf8_length (json_print (JObj [(''constructor#'', JArr [JStr ''x''])])) \<le> 524288" by code_simp
  then show "sanitizeRuntimeEventValue (opaque_context\<lparr>sz_redactSensitive := False\<rparr>)
      (JObj [(''constructor'', JNull), (''constructor#'', JArr [JStr ''x''])]) = Some (Some (JObj [(''constructor#'', JArr [JStr ''x''])]))"
    by (simp add: opaque_context_def sanitizeRuntimeEventValue_def redactRuntimeString_def truncateUtf8_def char_bytes_def UNSAFE_OBJECT_KEYS_def
        free_key_simps key_candidate_def Let_def del: json_print.simps)
qed

end
