(* ===== verification/Session_View.thy ===== *)
theory Session_View
  imports Session_Store Runtime_Sanitizer
begin

text \<open>
  The projected view of a cloud session (\<open>packages/shared/src/cloud-session-projection.ts\<close>): its records, the
  normalizers that read one back from the stored JSON, and the JSON a view is stored as. Numbers are their decimal
  text; the addition of two costs and the test \<open>> 0\<close> are arguments. A result is \<open>None\<close> where the sanitizer of
  tool payloads does not return.
\<close>


section \<open>Records\<close>

datatype message_role = RoleUser | RoleAssistant | RoleSystem

datatype tool_status = ToolRunning | ToolComplete | ToolError

datatype task_status = TaskQueued | TaskRunning | TaskComplete | TaskError

record view_message =
  vm_id :: string
  vm_role :: message_role
  vm_content :: string
  vm_createdAt :: string
  vm_attachments :: "json list option"

record message_attachment =
  vh_mime :: string
  vh_url :: string
  vh_filename :: "string option"

record view_tool_call =
  vt_id :: string
  vt_name :: string
  vt_input :: "(string \<times> json) list"
  vt_status :: tool_status
  vt_output :: "json option"
  vt_attachments :: "message_attachment list option"
  vt_agent :: "string option"
  vt_sourceSessionId :: "string option"
  vt_order :: string

record session_tokens =
  vk_input :: string
  vk_output :: string
  vk_reasoning :: string
  vk_cacheRead :: string
  vk_cacheWrite :: string

record todo_item =
  vd_content :: string
  vd_status :: string
  vd_priority :: string
  vd_id :: "string option"

record view_task_run =
  vr_id :: string
  vr_title :: string
  vr_agent :: "string option"
  vr_status :: task_status
  vr_sourceSessionId :: "string option"
  vr_parentSessionId :: "string option"
  vr_content :: string
  vr_transcript :: "json list"
  vr_reasoning :: "json list option"
  vr_toolCalls :: "view_tool_call list"
  vr_compactions :: "json list"
  vr_todos :: "todo_item list"
  vr_error :: "string option"
  vr_sessionCost :: string
  vr_sessionTokens :: session_tokens
  vr_order :: string
  vr_startedAt :: "string option"
  vr_finishedAt :: "string option"

record pending_approval =
  va_id :: string
  va_sessionId :: string
  va_sourceSessionId :: "string option"
  va_taskRunId :: "string option"
  va_tool :: string
  va_input :: "(string \<times> json) list"
  va_description :: string
  va_order :: string

record question_prompt =
  qp_header :: string
  qp_question :: string
  qp_options :: "(string \<times> string) list"
  qp_multiple :: bool
  qp_custom :: bool

record pending_question =
  vq_id :: string
  vq_sessionId :: string
  vq_sourceSessionId :: "string option"
  vq_questions :: "question_prompt list"
  vq_tool :: "(string \<times> string) option"

record resolved_approval =
  xa_id :: string
  xa_sessionId :: string
  xa_taskRunId :: "string option"
  xa_tool :: string
  xa_description :: string
  xa_allowed :: bool
  xa_order :: string
  xa_resolvedAt :: string

record resolved_question =
  xq_id :: string
  xq_sessionId :: string
  xq_sourceSessionId :: "string option"
  xq_questions :: "question_prompt list"
  xq_answers :: "json list"
  xq_rejected :: bool
  xq_order :: string
  xq_resolvedAt :: string

record view_error =
  ve_id :: string
  ve_sessionId :: "string option"
  ve_message :: string
  ve_order :: string

record view_artifact =
  vf_id :: string
  vf_toolId :: string
  vf_toolName :: string
  vf_filePath :: string
  vf_filename :: string
  vf_order :: string
  vf_taskRunId :: "string option"
  vf_mime :: "string option"
  vf_size :: "string option"
  vf_createdAt :: "string option"
  vf_updatedAt :: "string option"
  vf_kind :: "string option"
  vf_status :: "string option"
  vf_authorAgentId :: "string option"
  vf_projectId :: "string option"
  vf_taskId :: "string option"
  vf_statusUpdatedBy :: "string option"
  vf_statusUpdatedAt :: "string option"

record projection_origin =
  og_sourceFingerprint :: string
  og_importedAt :: string
  og_itemCounts :: "(string \<times> string) list"

record projection_view =
  vw_sessionId :: string
  vw_title :: string
  vw_status :: session_status
  vw_profileName :: string
  vw_isGenerating :: bool
  vw_messages :: "view_message list"
  vw_toolCalls :: "view_tool_call list"
  vw_taskRuns :: "view_task_run list"
  vw_pendingApprovals :: "pending_approval list"
  vw_pendingQuestions :: "pending_question list"
  vw_resolvedApprovals :: "resolved_approval list"
  vw_resolvedQuestions :: "resolved_question list"
  vw_artifacts :: "view_artifact list"
  vw_todos :: "todo_item list"
  vw_errors :: "view_error list"
  vw_sessionCost :: string
  vw_sessionTokens :: session_tokens
  vw_lastInputTokens :: string
  vw_lastError :: "string option"
  vw_origin :: "projection_origin option"
  vw_projectSource :: "project_source option"
  vw_updatedAt :: string

text \<open>What the reducer takes from outside: the passes of the redactor over one text, arithmetic on numbers, and
  the millisecond an ISO text denotes.\<close>

record projection_env =
  pn_export :: "string \<Rightarrow> string"
  pn_patterns :: "string \<Rightarrow> string"
  pn_add :: "string \<Rightarrow> string \<Rightarrow> string"
  pn_positive :: "string \<Rightarrow> bool"
  pn_parse :: "string \<Rightarrow> iso"


section \<open>Readers\<close>

definition asRecord :: "json \<Rightarrow> (string \<times> json) list" where
  "asRecord v = (case v of JObj kvs \<Rightarrow> kvs | _ \<Rightarrow> [])"

definition readStringOr :: "json \<Rightarrow> string \<Rightarrow> string" where
  "readStringOr v fallback = (case v of JStr s \<Rightarrow> (if js_trim s = [] then fallback else s) | _ \<Rightarrow> fallback)"

definition readNumberOr :: "json \<Rightarrow> string \<Rightarrow> string" where
  "readNumberOr v fallback = (case v of JNum t \<Rightarrow> t | _ \<Rightarrow> fallback)"

definition readNullableString :: "json \<Rightarrow> string option" where
  "readNullableString v = (case v of JStr s \<Rightarrow> (if js_trim s = [] then None else Some (js_trim s)) | _ \<Rightarrow> None)"

definition readStatus :: "json \<Rightarrow> session_status option" where
  "readStatus v =
     (if v = JStr ''idle'' then Some SIdle else if v = JStr ''running'' then Some SRunning
      else if v = JStr ''closed'' then Some SClosed else if v = JStr ''errored'' then Some SErrored else None)"

definition read_array :: "json \<Rightarrow> json list option" where
  "read_array v = (case v of JArr vs \<Rightarrow> Some vs | _ \<Rightarrow> None)"

text \<open>\<open>Array.isArray(v) ? v.map(f).filter(Boolean) : []\<close>\<close>

definition read_list :: "(json \<Rightarrow> 'a option) \<Rightarrow> json \<Rightarrow> 'a list" where
  "read_list f v = List.map_filter f (coalesce (read_array v) [])"

definition read_role :: "json \<Rightarrow> message_role option" where
  "read_role v =
     (if v = JStr ''user'' then Some RoleUser else if v = JStr ''assistant'' then Some RoleAssistant
      else if v = JStr ''system'' then Some RoleSystem else None)"

definition toCloudSessionMessage :: "env \<Rightarrow> json \<Rightarrow> view_message option" where
  "toCloudSessionMessage e v =
     (case read_role (json_field v ''role'') of
        None \<Rightarrow> None
      | Some role \<Rightarrow>
          if readStringOr (json_field v ''id'') [] = [] then None
          else Some \<lparr> vm_id = readStringOr (json_field v ''id'') [], vm_role = role, vm_content = readStringOr (json_field v ''content'') [],
                 vm_createdAt = readStringOr (json_field v ''createdAt'') (iso_text (clock e)),
                 vm_attachments = read_array (json_field v ''attachments'') \<rparr>)"

definition EMPTY_TOKENS :: session_tokens where
  "EMPTY_TOKENS = \<lparr> vk_input = ''0'', vk_output = ''0'', vk_reasoning = ''0'', vk_cacheRead = ''0'', vk_cacheWrite = ''0'' \<rparr>"

definition normalizeSessionTokens :: "json \<Rightarrow> session_tokens" where
  "normalizeSessionTokens v =
     (let cache = json_field v ''cache'' in
      \<lparr> vk_input = readNumberOr (json_field v ''input'') ''0'', vk_output = readNumberOr (json_field v ''output'') ''0'',
        vk_reasoning = readNumberOr (json_field v ''reasoning'') ''0'',
        vk_cacheRead = readNumberOr (json_field v ''cacheRead'') (readNumberOr (json_field cache ''read'') ''0''),
        vk_cacheWrite = readNumberOr (json_field v ''cacheWrite'') (readNumberOr (json_field cache ''write'') ''0'') \<rparr>)"

definition addSessionTokens :: "projection_env \<Rightarrow> session_tokens \<Rightarrow> session_tokens \<Rightarrow> session_tokens" where
  "addSessionTokens pn current delta =
     \<lparr> vk_input = pn_add pn (vk_input current) (vk_input delta), vk_output = pn_add pn (vk_output current) (vk_output delta),
       vk_reasoning = pn_add pn (vk_reasoning current) (vk_reasoning delta),
       vk_cacheRead = pn_add pn (vk_cacheRead current) (vk_cacheRead delta),
       vk_cacheWrite = pn_add pn (vk_cacheWrite current) (vk_cacheWrite delta) \<rparr>"

definition normalizeToolStatus :: "json \<Rightarrow> tool_status" where
  "normalizeToolStatus v = (if v = JStr ''complete'' then ToolComplete else if v = JStr ''error'' then ToolError else ToolRunning)"

definition normalizeTaskStatus :: "json \<Rightarrow> task_status" where
  "normalizeTaskStatus v =
     (if v = JStr ''running'' then TaskRunning else if v = JStr ''complete'' then TaskComplete
      else if v = JStr ''error'' then TaskError else TaskQueued)"

definition normalizeTodoItem :: "json \<Rightarrow> todo_item option" where
  "normalizeTodoItem v =
     (let content = readStringOr (json_field v ''content'') [] in
      if content = [] then None
      else Some \<lparr> vd_content = content, vd_status = readStringOr (json_field v ''status'') ''pending'',
             vd_priority = readStringOr (json_field v ''priority'') ''medium'', vd_id = readNullableString (json_field v ''id'') \<rparr>)"

definition normalizeTodos :: "json \<Rightarrow> todo_item list" where
  "normalizeTodos v = read_list normalizeTodoItem v"


section \<open>Tool output and attachments\<close>

definition CLOUD_TOOL_ATTACHMENT_MAX_DATA_URL_BYTES :: nat where
  "CLOUD_TOOL_ATTACHMENT_MAX_DATA_URL_BYTES = 4194304"

definition control_char :: "char \<Rightarrow> bool" where
  "control_char c = (let n = (of_char c :: nat) in n \<le> 31 \<or> (127 \<le> n \<and> n \<le> 159))"

definition last_segment :: "string \<Rightarrow> string" where
  "last_segment s = rev (takeWhile (\<lambda>c. c \<noteq> CHR ''/'' \<and> c \<noteq> CHR 0x5C) (rev s))"

definition cloudToolAttachmentFilename :: "string \<Rightarrow> string option" where
  "cloudToolAttachmentFilename value =
     (let basename = last_segment (slice_last 4096 value);
          normalized = js_trim (utf8_prefix 128 (filter (\<lambda>c. \<not> control_char c) basename))
      in if normalized \<noteq> [] \<and> normalized \<noteq> ''.'' \<and> normalized \<noteq> ''..'' then Some normalized else None)"

definition alnum_char :: "char \<Rightarrow> bool" where
  "alnum_char c = (scheme_start c \<or> isAsciiDigit c)"

definition mime_char :: "char \<Rightarrow> bool" where
  "mime_char c = (alnum_char c \<or> c \<in> {CHR ''.'', CHR ''+'', CHR ''-''})"

definition base64_char :: "char \<Rightarrow> bool" where
  "base64_char c = (alnum_char c \<or> c \<in> {CHR ''+'', CHR ''/''})"

definition mime_part :: "nat \<Rightarrow> string \<Rightarrow> bool" where
  "mime_part n s = (s \<noteq> [] \<and> alnum_char (hd s) \<and> length s \<le> n)"

text \<open>\<open>CLOUD_TOOL_DATA_URL_PATTERN\<close>: the media type and the payload of a base64 data URL.\<close>

definition data_url_parts :: "string \<Rightarrow> (string \<times> string) option" where
  "data_url_parts url =
     (let rest = drop 5 url; ty = takeWhile mime_char rest; afterTy = drop (length ty) rest;
          sub = takeWhile mime_char (tl afterTy); afterSub = drop (length sub) (tl afterTy);
          body = drop 8 afterSub; tail = dropWhile base64_char body
      in if starts_with (js_lower url) ''data:'' \<and> mime_part 64 ty \<and> starts_with afterTy ''/'' \<and> mime_part 128 sub
            \<and> starts_with (js_lower afterSub) '';base64,'' \<and> tail \<in> {'''', ''='', ''==''}
         then Some (ty @ ''/'' @ sub, body) else None)"

definition cloudToolAttachment :: "json \<Rightarrow> message_attachment option" where
  "cloudToolAttachment v =
     (let mime = js_lower (readStringOr (json_field v ''mime'') []);
          url = readStringOr (json_field v ''url'') (readStringOr (json_field v ''uri'') [])
      in if mime = [] \<or> url = [] \<or> length url > CLOUD_TOOL_ATTACHMENT_MAX_DATA_URL_BYTES then None
         else case data_url_parts url of
           None \<Rightarrow> None
         | Some (media, body) \<Rightarrow>
             if js_lower media \<noteq> mime \<or> body = [] \<or> length body mod 4 \<noteq> 0 then None
             else Some \<lparr> vh_mime = mime, vh_url = url,
                    vh_filename = cloudToolAttachmentFilename (readStringOr (json_field v ''filename'') (readStringOr (json_field v ''name'') [])) \<rparr>)"

definition attachment_key :: "message_attachment \<Rightarrow> string" where
  "attachment_key a = key [vh_url a, vh_mime a, coalesce (vh_filename a) []]"

fun attachment_loop :: "json list \<Rightarrow> string list \<Rightarrow> nat \<Rightarrow> message_attachment list" where
  "attachment_loop [] seen totalBytes = []"
| "attachment_loop (candidate # rest) seen totalBytes =
     (case cloudToolAttachment candidate of
        None \<Rightarrow> attachment_loop rest seen totalBytes
      | Some a \<Rightarrow>
          if attachment_key a \<in> set seen then attachment_loop rest seen totalBytes
          else if totalBytes + length (vh_url a) > CLOUD_TOOL_ATTACHMENT_MAX_DATA_URL_BYTES then []
          else a # attachment_loop rest (attachment_key a # seen) (totalBytes + length (vh_url a)))"

definition normalizeCloudToolAttachments :: "json \<Rightarrow> message_attachment list" where
  "normalizeCloudToolAttachments v = attachment_loop (take 256 (coalesce (read_array v) [])) [] 0"

definition runtime_context :: "projection_env \<Rightarrow> json option \<Rightarrow> bool \<Rightarrow> sanitizer_context" where
  "runtime_context pn managedPaths redactSensitive =
     \<lparr> sz_export = pn_export pn, sz_patterns = pn_patterns pn, sz_managedPaths = normalizeManagedPaths managedPaths,
       sz_redactSensitive = redactSensitive \<rparr>"

definition sanitizeCloudToolOutput :: "projection_env \<Rightarrow> json \<Rightarrow> json option \<Rightarrow> json option option" where
  "sanitizeCloudToolOutput pn v managedOutputPaths =
     (if readStringOr (json_field v ''type'') [] = ''file'' then Some None
      else case sanitizeRuntimeEventValue (runtime_context pn managedOutputPaths True) v of
        None \<Rightarrow> None
      | Some sanitized \<Rightarrow>
          Some (case (v, sanitized) of (JArr _, Some (JArr [])) \<Rightarrow> None | (JObj _, Some (JObj [])) \<Rightarrow> None | _ \<Rightarrow> sanitized))"

section \<open>Normalizers of the entries\<close>

text \<open>\<open>Array.isArray(v) ? v.map(f).filter(Boolean) : []\<close> for a normalizer that may not return.\<close>

definition read_list_in :: "(json \<Rightarrow> 'a option option) \<Rightarrow> json \<Rightarrow> 'a list option" where
  "read_list_in f v = map_option (List.map_filter id) (those (map f (coalesce (read_array v) [])))"

text \<open>The two optional fields of a tool call, shared by its normalizer and its constructor from an event.\<close>

definition tool_output_of :: "projection_env \<Rightarrow> json \<Rightarrow> json option option" where
  "tool_output_of pn v =
     (case map_of (asRecord v) ''output'' of
        None \<Rightarrow> Some None
      | Some output \<Rightarrow> sanitizeCloudToolOutput pn output (map_of (asRecord v) ''outputPaths''))"

definition tool_attachments_of :: "json \<Rightarrow> message_attachment list option" where
  "tool_attachments_of v =
     (let attachments = normalizeCloudToolAttachments (json_field v ''attachments'') in if attachments = [] then None else Some attachments)"

definition normalizeToolCall :: "projection_env \<Rightarrow> json \<Rightarrow> view_tool_call option option" where
  "normalizeToolCall pn v =
     (let i = readStringOr (json_field v ''id'') [] in
      if i = [] then Some None
      else case tool_output_of pn v of
        None \<Rightarrow> None
      | Some output \<Rightarrow>
          (case sanitizeRuntimeEventRecord (runtime_context pn None True) (json_field v ''input'') of
             None \<Rightarrow> None
           | Some inp \<Rightarrow>
               Some (Some \<lparr> vt_id = i, vt_name = readStringOr (json_field v ''name'') ''tool'', vt_input = inp,
                 vt_status = normalizeToolStatus (json_field v ''status''), vt_output = output, vt_attachments = tool_attachments_of v,
                 vt_agent = readNullableString (json_field v ''agent''), vt_sourceSessionId = readNullableString (json_field v ''sourceSessionId''),
                 vt_order = readNumberOr (json_field v ''order'') ''0'' \<rparr>)))"

definition normalizeTaskRun :: "projection_env \<Rightarrow> json \<Rightarrow> view_task_run option option" where
  "normalizeTaskRun pn v =
     (let i = readStringOr (json_field v ''id'') [] in
      if i = [] then Some None
      else case read_list_in (normalizeToolCall pn) (json_field v ''toolCalls'') of
        None \<Rightarrow> None
      | Some toolCalls \<Rightarrow>
          Some (Some \<lparr> vr_id = i, vr_title = readStringOr (json_field v ''title'') ''Task'', vr_agent = readNullableString (json_field v ''agent''),
            vr_status = normalizeTaskStatus (json_field v ''status''), vr_sourceSessionId = readNullableString (json_field v ''sourceSessionId''),
            vr_parentSessionId = readNullableString (json_field v ''parentSessionId''), vr_content = readStringOr (json_field v ''content'') [],
            vr_transcript = coalesce (read_array (json_field v ''transcript'')) [], vr_reasoning = read_array (json_field v ''reasoning''),
            vr_toolCalls = toolCalls, vr_compactions = coalesce (read_array (json_field v ''compactions'')) [],
            vr_todos = normalizeTodos (json_field v ''todos''), vr_error = readNullableString (json_field v ''error''),
            vr_sessionCost = readNumberOr (json_field v ''sessionCost'') ''0'',
            vr_sessionTokens = normalizeSessionTokens (json_field v ''sessionTokens''), vr_order = readNumberOr (json_field v ''order'') ''0'',
            vr_startedAt = readNullableString (json_field v ''startedAt''), vr_finishedAt = readNullableString (json_field v ''finishedAt'') \<rparr>))"

definition question_option :: "json \<Rightarrow> (string \<times> string) option" where
  "question_option v =
     (let label = readStringOr (json_field v ''label'') []; description = readStringOr (json_field v ''description'') []
      in if label = [] \<and> description = [] then None else Some (label, description))"

definition normalizeQuestionPrompt :: "json \<Rightarrow> question_prompt option" where
  "normalizeQuestionPrompt v =
     (let question = readStringOr (json_field v ''question'') [] in
      if question = [] then None
      else Some \<lparr> qp_header = readStringOr (json_field v ''header'') [], qp_question = question,
             qp_options = read_list question_option (json_field v ''options''),
             qp_multiple = (json_field v ''multiple'' = JBool True), qp_custom = (json_field v ''custom'' \<noteq> JBool False) \<rparr>)"

definition normalizePendingQuestion :: "json \<Rightarrow> pending_question option" where
  "normalizePendingQuestion v =
     (let i = readStringOr (json_field v ''id'') []; sessionId = readStringOr (json_field v ''sessionId'') [];
          tool = json_field v ''tool''
      in if i = [] \<or> sessionId = [] then None
         else Some \<lparr> vq_id = i, vq_sessionId = sessionId, vq_sourceSessionId = readNullableString (json_field v ''sourceSessionId''),
                vq_questions = read_list normalizeQuestionPrompt (json_field v ''questions''),
                vq_tool = (if asRecord tool = [] then None
                           else Some (readStringOr (json_field tool ''messageId'') [], readStringOr (json_field tool ''callId'') [])) \<rparr>)"

definition normalizePendingApproval :: "json \<Rightarrow> pending_approval option" where
  "normalizePendingApproval v =
     (let i = readStringOr (json_field v ''id'') []; sessionId = readStringOr (json_field v ''sessionId'') []
      in if i = [] \<or> sessionId = [] then None
         else Some \<lparr> va_id = i, va_sessionId = sessionId, va_sourceSessionId = readNullableString (json_field v ''sourceSessionId''),
                va_taskRunId = readNullableString (json_field v ''taskRunId''), va_tool = readStringOr (json_field v ''tool'') ''permission'',
                va_input = asRecord (json_field v ''input''),
                va_description = readStringOr (json_field v ''description'') ''Permission requested'',
                va_order = readNumberOr (json_field v ''order'') ''0'' \<rparr>)"

definition normalizeResolvedApproval :: "json \<Rightarrow> resolved_approval option" where
  "normalizeResolvedApproval v =
     (let i = readStringOr (json_field v ''id'') []; sessionId = readStringOr (json_field v ''sessionId'') []
      in if i = [] \<or> sessionId = [] then None
         else Some \<lparr> xa_id = i, xa_sessionId = sessionId, xa_taskRunId = readNullableString (json_field v ''taskRunId''),
                xa_tool = readStringOr (json_field v ''tool'') ''permission'',
                xa_description = readStringOr (json_field v ''description'') ''Permission resolved'',
                xa_allowed = (json_field v ''allowed'' = JBool True), xa_order = readNumberOr (json_field v ''order'') ''0'',
                xa_resolvedAt = readStringOr (json_field v ''resolvedAt'') [] \<rparr>)"

definition normalizeResolvedQuestion :: "json \<Rightarrow> resolved_question option" where
  "normalizeResolvedQuestion v =
     (let i = readStringOr (json_field v ''id'') []; sessionId = readStringOr (json_field v ''sessionId'') []
      in if i = [] \<or> sessionId = [] then None
         else Some \<lparr> xq_id = i, xq_sessionId = sessionId, xq_sourceSessionId = readNullableString (json_field v ''sourceSessionId''),
                xq_questions = read_list normalizeQuestionPrompt (json_field v ''questions''),
                xq_answers = coalesce (read_array (json_field v ''answers'')) [], xq_rejected = (json_field v ''rejected'' = JBool True),
                xq_order = readNumberOr (json_field v ''order'') ''0'', xq_resolvedAt = readStringOr (json_field v ''resolvedAt'') [] \<rparr>)"

definition normalizeSessionError :: "json \<Rightarrow> view_error option" where
  "normalizeSessionError v =
     (let i = readStringOr (json_field v ''id'') []; message = readStringOr (json_field v ''message'') []
      in if i = [] \<or> message = [] then None
         else Some \<lparr> ve_id = i, ve_sessionId = readNullableString (json_field v ''sessionId''), ve_message = message,
                ve_order = readNumberOr (json_field v ''order'') ''0'' \<rparr>)"

text \<open>\<open>encodeURIComponent\<close> on code units below 256: all but the unreserved characters become their UTF-8 bytes.\<close>

definition upper_hex :: "nat \<Rightarrow> char" where
  "upper_hex n = (if n < 10 then char_of (48 + n) else char_of (55 + n))"

definition percent_byte :: "nat \<Rightarrow> string" where
  "percent_byte n = [CHR ''%'', upper_hex (n div 16), upper_hex (n mod 16)]"

definition encode_char :: "char \<Rightarrow> string" where
  "encode_char c =
     (let n = (of_char c :: nat) in
      if alnum_char c \<or> c \<in> set ''-_.!~*()'' \<or> n = 39 then [c]
      else if n < 128 then percent_byte n
      else percent_byte (192 + n div 64) @ percent_byte (128 + n mod 64))"

definition encodeURIComponent :: "string \<Rightarrow> string" where
  "encodeURIComponent s = concat (map encode_char s)"

definition cloudArtifactFilePath :: "string \<Rightarrow> string \<Rightarrow> string" where
  "cloudArtifactFilePath artifactId filename =
     ''cloud-artifact://'' @ encodeURIComponent artifactId @ ''/'' @
     encodeURIComponent (if js_trim filename = [] then ''artifact'' else js_trim filename)"

definition isArtifactKind :: "json \<Rightarrow> string option" where
  "isArtifactKind v =
     (case v of JStr s \<Rightarrow> (if s \<in> set [''document'', ''chart'', ''deck'', ''spreadsheet'', ''draft''] then Some s else None) | _ \<Rightarrow> None)"

definition isArtifactStatus :: "json \<Rightarrow> string option" where
  "isArtifactStatus v = (case v of JStr s \<Rightarrow> (if s \<in> set [''draft'', ''in-review'', ''final''] then Some s else None) | _ \<Rightarrow> None)"

definition first_some :: "'a option \<Rightarrow> 'a option \<Rightarrow> 'a option" where
  "first_some a b = (case a of Some x \<Rightarrow> Some x | None \<Rightarrow> b)"

definition normalizeSessionArtifact :: "json \<Rightarrow> string \<Rightarrow> view_artifact option" where
  "normalizeSessionArtifact v fallbackOrder =
     (let artifactId = readStringOr (json_field v ''artifactId'') (readStringOr (json_field v ''cloudArtifactId'') (readStringOr (json_field v ''id'') []));
          filename = readStringOr (json_field v ''filename'') ''artifact'';
          filePath = readStringOr (json_field v ''filePath'') (if artifactId = [] then [] else cloudArtifactFilePath artifactId filename)
      in if artifactId = [] \<or> filePath = [] then None
         else Some \<lparr> vf_id = artifactId, vf_toolId = readStringOr (json_field v ''toolId'') ''cloud-artifact'',
                vf_toolName = readStringOr (json_field v ''toolName'') ''cloud.artifact'', vf_filePath = filePath, vf_filename = filename,
                vf_order = readNumberOr (json_field v ''order'') fallbackOrder, vf_taskRunId = readNullableString (json_field v ''taskRunId''),
                vf_mime = first_some (readNullableString (json_field v ''mime'')) (readNullableString (json_field v ''contentType'')),
                vf_size = (case json_field v ''size'' of JNum t \<Rightarrow> Some t | _ \<Rightarrow> None),
                vf_createdAt = readNullableString (json_field v ''createdAt''), vf_updatedAt = readNullableString (json_field v ''updatedAt''),
                vf_kind = isArtifactKind (json_field v ''kind''), vf_status = isArtifactStatus (json_field v ''status''),
                vf_authorAgentId = readNullableString (json_field v ''authorAgentId''), vf_projectId = readNullableString (json_field v ''projectId''),
                vf_taskId = readNullableString (json_field v ''taskId''), vf_statusUpdatedBy = readNullableString (json_field v ''statusUpdatedBy''),
                vf_statusUpdatedAt = readNullableString (json_field v ''statusUpdatedAt'') \<rparr>)"

definition item_count :: "string \<times> json \<Rightarrow> (string \<times> string) option" where
  "item_count p = (case snd p of JNum t \<Rightarrow> (if fst p = ''__proto__'' then None else Some (fst p, t)) | _ \<Rightarrow> None)"

definition normalizeOrigin :: "json \<Rightarrow> projection_origin option" where
  "normalizeOrigin v =
     (let fingerprint = readStringOr (json_field v ''sourceFingerprint'') []; importedAt = readStringOr (json_field v ''importedAt'') []
      in if json_field v ''kind'' \<noteq> JStr ''local-session-import'' \<or> fingerprint = [] \<or> importedAt = [] then None
         else Some \<lparr> og_sourceFingerprint = fingerprint, og_importedAt = importedAt,
                og_itemCounts = List.map_filter item_count (asRecord (json_field v ''itemCounts'')) \<rparr>)"


section \<open>The view\<close>

definition session_title_of :: "session_record \<Rightarrow> string" where
  "session_title_of session = or_else (sr_title session) ''New session''"

definition createCloudSessionProjectionView :: "session_record \<Rightarrow> projection_view" where
  "createCloudSessionProjectionView session =
     \<lparr> vw_sessionId = sr_sessionId session, vw_title = session_title_of session, vw_status = sr_status session,
       vw_profileName = sr_profileName session, vw_isGenerating = (sr_status session = SRunning),
       vw_messages = [], vw_toolCalls = [], vw_taskRuns = [], vw_pendingApprovals = [], vw_pendingQuestions = [],
       vw_resolvedApprovals = [], vw_resolvedQuestions = [], vw_artifacts = [], vw_todos = [], vw_errors = [],
       vw_sessionCost = ''0'', vw_sessionTokens = EMPTY_TOKENS, vw_lastInputTokens = ''0'', vw_lastError = None,
       vw_origin = None, vw_projectSource = None, vw_updatedAt = iso_text (sr_updatedAt session) \<rparr>"

fun read_artifacts :: "nat \<Rightarrow> json list \<Rightarrow> view_artifact list" where
  "read_artifacts n [] = []"
| "read_artifacts n (v # vs) =
     (case normalizeSessionArtifact v (show_nat n) of Some a \<Rightarrow> a # read_artifacts (n + 1) vs | None \<Rightarrow> read_artifacts (n + 1) vs)"

definition normalizeCloudSessionProjectionView :: "projection_env \<Rightarrow> env \<Rightarrow> json \<Rightarrow> session_record \<Rightarrow> projection_view option" where
  "normalizeCloudSessionProjectionView pn e v session =
     (case (read_list_in (normalizeToolCall pn) (json_field v ''toolCalls''), read_list_in (normalizeTaskRun pn) (json_field v ''taskRuns'')) of
        (Some toolCalls, Some taskRuns) \<Rightarrow>
          Some \<lparr> vw_sessionId = readStringOr (json_field v ''sessionId'') (sr_sessionId session),
            vw_title = readStringOr (json_field v ''title'') (session_title_of session),
            vw_status = coalesce (readStatus (json_field v ''status'')) (sr_status session),
            vw_profileName = readStringOr (json_field v ''profileName'') (sr_profileName session),
            vw_isGenerating = (case json_field v ''isGenerating'' of JBool b \<Rightarrow> b | _ \<Rightarrow> sr_status session = SRunning),
            vw_messages = read_list (toCloudSessionMessage e) (json_field v ''messages''),
            vw_toolCalls = toolCalls, vw_taskRuns = taskRuns,
            vw_pendingApprovals = read_list normalizePendingApproval (json_field v ''pendingApprovals''),
            vw_pendingQuestions = read_list normalizePendingQuestion (json_field v ''pendingQuestions''),
            vw_resolvedApprovals = read_list normalizeResolvedApproval (json_field v ''resolvedApprovals''),
            vw_resolvedQuestions = read_list normalizeResolvedQuestion (json_field v ''resolvedQuestions''),
            vw_artifacts = read_artifacts 0 (coalesce (read_array (json_field v ''artifacts'')) []),
            vw_todos = normalizeTodos (json_field v ''todos''),
            vw_errors = read_list normalizeSessionError (json_field v ''errors''),
            vw_sessionCost = readNumberOr (json_field v ''sessionCost'') ''0'',
            vw_sessionTokens = normalizeSessionTokens (json_field v ''sessionTokens''),
            vw_lastInputTokens = readNumberOr (json_field v ''lastInputTokens'') ''0'',
            vw_lastError = (case json_field v ''lastError'' of JStr s \<Rightarrow> Some s | _ \<Rightarrow> None),
            vw_origin = normalizeOrigin (json_field v ''origin''),
            vw_projectSource = normalizeCloudProjectSource (json_field v ''projectSource''),
            vw_updatedAt = readStringOr (json_field v ''updatedAt'') (iso_text (sr_updatedAt session)) \<rparr>
      | _ \<Rightarrow> None)"

end
