(* ===== verification/Session_Projection.thy ===== *)
theory Session_Projection
  imports Session_View
begin

text \<open>
  The reducer of the cloud session projection (\<open>reduceCloudSessionProjectionEvent\<close> of
  \<open>packages/shared/src/cloud-session-projection.ts\<close>): one step of the fold that turns the event log of a session into
  the view its clients show. An entry of a list is merged into the one with its id by object spread; the merge of each
  kind of entry is written out over its optional fields. The contract of these lists is a locale of \<open>Projection_Guarantees\<close>.
\<close>


section \<open>Keyed lists\<close>

fun upsertById :: "('a \<Rightarrow> string) \<Rightarrow> ('a \<Rightarrow> 'a \<Rightarrow> 'a) \<Rightarrow> 'a list \<Rightarrow> 'a \<Rightarrow> 'a list" where
  "upsertById ident merge [] incoming = [incoming]"
| "upsertById ident merge (entry # entries) incoming =
     (if ident entry = ident incoming then merge entry incoming # entries else entry # upsertById ident merge entries incoming)"

definition removeById :: "('a \<Rightarrow> string) \<Rightarrow> 'a list \<Rightarrow> string \<Rightarrow> 'a list" where
  "removeById ident entries i = filter (\<lambda>entry. ident entry \<noteq> i) entries"

definition find_by_id :: "('a \<Rightarrow> string) \<Rightarrow> 'a list \<Rightarrow> string \<Rightarrow> 'a option" where
  "find_by_id ident entries i = List.find (\<lambda>entry. ident entry = i) entries"

definition merge_message :: "view_message \<Rightarrow> view_message \<Rightarrow> view_message" where
  "merge_message old new = new\<lparr> vm_attachments := first_some (vm_attachments new) (vm_attachments old) \<rparr>"

definition merge_tool_call :: "view_tool_call \<Rightarrow> view_tool_call \<Rightarrow> view_tool_call" where
  "merge_tool_call old new =
     new\<lparr> vt_output := first_some (vt_output new) (vt_output old), vt_attachments := first_some (vt_attachments new) (vt_attachments old),
          vt_order := vt_order old \<rparr>"

definition merge_task_run :: "view_task_run \<Rightarrow> view_task_run \<Rightarrow> view_task_run" where
  "merge_task_run old new = new\<lparr> vr_reasoning := first_some (vr_reasoning new) (vr_reasoning old), vr_order := vr_order old \<rparr>"

definition merge_pending_approval :: "pending_approval \<Rightarrow> pending_approval \<Rightarrow> pending_approval" where
  "merge_pending_approval old new = new\<lparr> va_order := va_order old \<rparr>"

definition merge_pending_question :: "pending_question \<Rightarrow> pending_question \<Rightarrow> pending_question" where
  "merge_pending_question old new = new\<lparr> vq_tool := first_some (vq_tool new) (vq_tool old) \<rparr>"

definition merge_resolved_approval :: "resolved_approval \<Rightarrow> resolved_approval \<Rightarrow> resolved_approval" where
  "merge_resolved_approval old new = new\<lparr> xa_order := xa_order old \<rparr>"

definition merge_resolved_question :: "resolved_question \<Rightarrow> resolved_question \<Rightarrow> resolved_question" where
  "merge_resolved_question old new = new\<lparr> xq_order := xq_order old \<rparr>"

definition merge_artifact :: "view_artifact \<Rightarrow> view_artifact \<Rightarrow> view_artifact" where
  "merge_artifact old new = new\<lparr> vf_size := first_some (vf_size new) (vf_size old), vf_order := vf_order old \<rparr>"

definition merge_error :: "view_error \<Rightarrow> view_error \<Rightarrow> view_error" where
  "merge_error old new = new\<lparr> ve_order := ve_order old \<rparr>"


section \<open>Entries of an event\<close>

definition eventPayloadId :: "json \<Rightarrow> string list \<Rightarrow> string \<Rightarrow> string" where
  "eventPayloadId payload keys fallback =
     (case List.find (\<lambda>s. s \<noteq> []) (map (\<lambda>k. readStringOr (json_field payload k) []) keys) of Some s \<Rightarrow> s | None \<Rightarrow> fallback)"

definition event_local_id :: "session_record \<Rightarrow> string \<Rightarrow> session_event \<Rightarrow> string" where
  "event_local_id session kind event = sr_sessionId session @ CHR '':'' # kind @ CHR '':'' # show_int (ev_sequence event)"

definition taskRunFromPayload :: "session_record \<Rightarrow> json \<Rightarrow> session_event \<Rightarrow> view_task_run" where
  "taskRunFromPayload session payload event =
     \<lparr> vr_id = eventPayloadId payload [''taskRunId'', ''id''] (event_local_id session ''task'' event),
       vr_title = readStringOr (json_field payload ''title'') (readStringOr (json_field payload ''taskTitle'') ''Task''),
       vr_agent = readNullableString (json_field payload ''agent''), vr_status = normalizeTaskStatus (json_field payload ''status''),
       vr_sourceSessionId = readNullableString (json_field payload ''sourceSessionId''),
       vr_parentSessionId = readNullableString (json_field payload ''parentSessionId''),
       vr_content = readStringOr (json_field payload ''content'') [], vr_transcript = [], vr_reasoning = None, vr_toolCalls = [],
       vr_compactions = [], vr_todos = [], vr_error = readNullableString (json_field payload ''error''),
       vr_sessionCost = readNumberOr (json_field payload ''sessionCost'') ''0'',
       vr_sessionTokens = normalizeSessionTokens (json_field payload ''sessionTokens''), vr_order = show_int (ev_sequence event),
       vr_startedAt = readNullableString (json_field payload ''startedAt''), vr_finishedAt = readNullableString (json_field payload ''finishedAt'') \<rparr>"

definition toolCallFromPayload :: "projection_env \<Rightarrow> session_record \<Rightarrow> json \<Rightarrow> session_event \<Rightarrow> view_tool_call option" where
  "toolCallFromPayload pn session payload event =
     (case tool_output_of pn payload of
        None \<Rightarrow> None
      | Some output \<Rightarrow>
          (case sanitizeRuntimeEventRecord (runtime_context pn None True) (json_field payload ''input'') of
             None \<Rightarrow> None
           | Some inp \<Rightarrow>
               Some \<lparr> vt_id = eventPayloadId payload [''id'', ''callId'', ''toolCallId''] (event_local_id session ''tool'' event),
                 vt_name = readStringOr (json_field payload ''name'') (readStringOr (json_field payload ''tool'') ''tool''), vt_input = inp,
                 vt_status = normalizeToolStatus (json_field payload ''status''), vt_output = output,
                 vt_attachments = tool_attachments_of payload, vt_agent = readNullableString (json_field payload ''agent''),
                 vt_sourceSessionId = readNullableString (json_field payload ''sourceSessionId''), vt_order = show_int (ev_sequence event) \<rparr>))"

text \<open>\<open>{ ...payload, id, status: 'running' }\<close>\<close>

definition running_task_payload :: "json \<Rightarrow> string \<Rightarrow> json" where
  "running_task_payload payload taskRunId =
     JObj (map_set ''status'' (JStr ''running'') (map_set ''id'' (JStr taskRunId) (asRecord payload)))"

definition withTaskRunToolCall ::
  "projection_view \<Rightarrow> session_record \<Rightarrow> string \<Rightarrow> view_tool_call \<Rightarrow> json \<Rightarrow> session_event \<Rightarrow> projection_view" where
  "withTaskRunToolCall view session taskRunId toolCall payload event =
     (let taskRun = (case find_by_id vr_id (vw_taskRuns view) taskRunId of
              Some existing \<Rightarrow> existing
            | None \<Rightarrow> (taskRunFromPayload session (running_task_payload payload taskRunId) event)\<lparr> vr_toolCalls := [] \<rparr>);
          updated = taskRun\<lparr> vr_status := (if vr_status taskRun = TaskQueued then TaskRunning else vr_status taskRun),
                      vr_toolCalls := upsertById vt_id merge_tool_call (vr_toolCalls taskRun) toolCall \<rparr>
      in view\<lparr> vw_taskRuns := upsertById vr_id merge_task_run (vw_taskRuns view) updated \<rparr>)"

definition pendingApprovalFromPayload :: "session_record \<Rightarrow> json \<Rightarrow> session_event \<Rightarrow> pending_approval" where
  "pendingApprovalFromPayload session payload event =
     \<lparr> va_id = eventPayloadId payload [''permissionId'', ''id'', ''requestId'', ''requestID''] (event_local_id session ''permission'' event),
       va_sessionId = sr_sessionId session, va_sourceSessionId = readNullableString (json_field payload ''sourceSessionId''),
       va_taskRunId = readNullableString (json_field payload ''taskRunId''), va_tool = readStringOr (json_field payload ''tool'') ''permission'',
       va_input = asRecord (json_field payload ''input''),
       va_description = readStringOr (json_field payload ''description'') (readStringOr (json_field payload ''tool'') ''Permission requested''),
       va_order = show_int (ev_sequence event) \<rparr>"

definition pendingQuestionFromPayload :: "session_record \<Rightarrow> json \<Rightarrow> session_event \<Rightarrow> pending_question" where
  "pendingQuestionFromPayload session payload event =
     (let tool = json_field payload ''tool'' in
      \<lparr> vq_id = eventPayloadId payload [''requestId'', ''requestID'', ''id''] (event_local_id session ''question'' event),
        vq_sessionId = sr_sessionId session, vq_sourceSessionId = readNullableString (json_field payload ''sourceSessionId''),
        vq_questions = read_list normalizeQuestionPrompt (json_field payload ''questions''),
        vq_tool = (if asRecord tool = [] then None
          else Some (readStringOr (json_field tool ''messageId'') (readStringOr (json_field tool ''messageID'') []),
                     readStringOr (json_field tool ''callId'') (readStringOr (json_field tool ''callID'') []))) \<rparr>)"

definition costTokensFromPayload :: "json \<Rightarrow> session_tokens" where
  "costTokensFromPayload payload = normalizeSessionTokens (json_field payload ''tokens'')"

text \<open>\<open>resolveAssistantMessageContent\<close> of \<open>session-machine-reducers.ts\<close>.\<close>

definition resolveAssistantMessageContent :: "string option \<Rightarrow> string option \<Rightarrow> json \<Rightarrow> string" where
  "resolveAssistantMessageContent mode existingContent content =
     (let deltaText = (case content of JStr s \<Rightarrow> s | _ \<Rightarrow> [])
      in if mode = Some ''append'' then coalesce existingContent [] @ deltaText else deltaText)"


section \<open>The branches of the reducer\<close>

abbreviation event_time :: "session_event \<Rightarrow> string" where
  "event_time event \<equiv> iso_text (ev_createdAt event)"

definition settle :: "session_status \<Rightarrow> session_event \<Rightarrow> projection_view \<Rightarrow> projection_view" where
  "settle status event view = view\<lparr> vw_status := status, vw_isGenerating := False, vw_updatedAt := event_time event \<rparr>"

definition addMessage :: "projection_view \<Rightarrow> view_message \<Rightarrow> projection_view" where
  "addMessage view message = view\<lparr> vw_messages := upsertById vm_id merge_message (vw_messages view) message \<rparr>"

definition reduce_prompt :: "session_record \<Rightarrow> projection_view \<Rightarrow> session_event \<Rightarrow> projection_view" where
  "reduce_prompt session current event =
     (let payload = ev_payload event in
      addMessage (current\<lparr> vw_status := SRunning, vw_isGenerating := True, vw_lastError := None, vw_updatedAt := event_time event \<rparr>)
        \<lparr> vm_id = readStringOr (json_field payload ''messageId'') (sr_sessionId session @ CHR '':'' # show_int (ev_sequence event) @ '':user''),
          vm_role = RoleUser, vm_content = readStringOr (json_field payload ''text'') [], vm_createdAt = event_time event,
          vm_attachments = read_array (json_field payload ''attachments'') \<rparr>)"

definition reduce_assistant :: "session_record \<Rightarrow> projection_view \<Rightarrow> session_event \<Rightarrow> projection_view" where
  "reduce_assistant session current event =
     (let payload = ev_payload event;
          messageId = readStringOr (json_field payload ''messageId'') (sr_sessionId session @ CHR '':'' # show_int (ev_sequence event) @ '':assistant'');
          existing = (if json_field payload ''mode'' = JStr ''append'' then find_by_id vm_id (vw_messages current) messageId else None);
          content = resolveAssistantMessageContent (case json_field payload ''mode'' of JStr m \<Rightarrow> Some m | _ \<Rightarrow> None)
                      (map_option vm_content existing) (json_field payload ''content'')
      in addMessage (current\<lparr> vw_lastError := None, vw_updatedAt := event_time event \<rparr>)
        \<lparr> vm_id = messageId, vm_role = RoleAssistant, vm_content = content,
          vm_createdAt = coalesce (map_option vm_createdAt existing) (event_time event),
          vm_attachments = read_array (json_field payload ''attachments'') \<rparr>)"

definition continued_tool_call :: "json \<Rightarrow> view_tool_call \<Rightarrow> view_tool_call \<Rightarrow> view_tool_call" where
  "continued_tool_call payload projected existing =
     projected\<lparr> vt_name := or_else (Some (readStringOr (json_field payload ''name'') (readStringOr (json_field payload ''tool'') []))) (vt_name existing),
       vt_input := (if vt_input projected \<noteq> [] then vt_input projected else vt_input existing),
       vt_output := (if map_of (asRecord payload) ''output'' = None \<and> vt_output existing \<noteq> None then vt_output existing else vt_output projected),
       vt_attachments := (if read_array (json_field payload ''attachments'') = None \<and> vt_attachments existing \<noteq> None
                          then vt_attachments existing else vt_attachments projected) \<rparr>"

definition reduce_tool_call :: "projection_env \<Rightarrow> session_record \<Rightarrow> projection_view \<Rightarrow> session_event \<Rightarrow> projection_view option" where
  "reduce_tool_call pn session current event =
     (let payload = ev_payload event in
      case toolCallFromPayload pn session payload event of
        None \<Rightarrow> None
      | Some projected \<Rightarrow>
          (let taskRunId = readNullableString (json_field payload ''taskRunId'');
               existing = (case taskRunId of
                   Some t \<Rightarrow> (case find_by_id vr_id (vw_taskRuns current) t of
                       Some run \<Rightarrow> find_by_id vt_id (vr_toolCalls run) (vt_id projected) | None \<Rightarrow> None)
                 | None \<Rightarrow> find_by_id vt_id (vw_toolCalls current) (vt_id projected));
               toolCall = (case existing of Some old \<Rightarrow> continued_tool_call payload projected old | None \<Rightarrow> projected);
               next = current\<lparr> vw_status := SRunning, vw_isGenerating := True, vw_lastError := None, vw_updatedAt := event_time event \<rparr>
           in Some (case taskRunId of
                Some t \<Rightarrow> withTaskRunToolCall next session t toolCall payload event
              | None \<Rightarrow> next\<lparr> vw_toolCalls := upsertById vt_id merge_tool_call (vw_toolCalls next) toolCall \<rparr>)))"

definition resolved_approval_of :: "session_record \<Rightarrow> projection_view \<Rightarrow> session_event \<Rightarrow> string \<Rightarrow> resolved_approval" where
  "resolved_approval_of session current event permissionId =
     (let payload = ev_payload event;
          pending = find_by_id va_id (vw_pendingApprovals current) permissionId;
          reply = readStringOr (json_field payload ''reply'') (readStringOr (json_field payload ''response'') [])
      in \<lparr> xa_id = permissionId, xa_sessionId = sr_sessionId session,
           xa_taskRunId = readNullableString (json_opt (first_some (Option.bind pending va_taskRunId) (readNullableString (json_field payload ''taskRunId'')))),
           xa_tool = readStringOr (JStr (or_else (map_option va_tool pending) (readStringOr (json_field payload ''tool'') ''permission''))) ''permission'',
           xa_description = readStringOr (JStr (or_else (map_option va_description pending)
             (readStringOr (json_field payload ''description'') ''Permission resolved''))) ''Permission resolved'',
           xa_allowed = (json_field payload ''allowed'' = JBool True \<or> reply \<in> {''allow'', ''once'', ''always''}),
           xa_order = show_int (ev_sequence event), xa_resolvedAt = event_time event \<rparr>)"

definition reduce_permission_resolved :: "session_record \<Rightarrow> projection_view \<Rightarrow> session_event \<Rightarrow> projection_view" where
  "reduce_permission_resolved session current event =
     (let permissionId = eventPayloadId (ev_payload event) [''permissionId'', ''id'', ''requestId'', ''requestID''] [];
          next = current\<lparr> vw_isGenerating := False, vw_updatedAt := event_time event \<rparr>
      in if permissionId = [] then next
         else let withoutIt = next\<lparr> vw_pendingApprovals := removeById va_id (vw_pendingApprovals current) permissionId \<rparr>
           in if js_trim (sr_sessionId session) = [] then withoutIt
              else withoutIt\<lparr> vw_resolvedApprovals :=
                upsertById xa_id merge_resolved_approval (vw_resolvedApprovals current) (resolved_approval_of session current event permissionId) \<rparr>)"

text \<open>Prompts of a pending question pass the normalizer a second time when it is resolved.\<close>

definition renormalize_prompt :: "question_prompt \<Rightarrow> question_prompt option" where
  "renormalize_prompt p =
     (if js_trim (qp_question p) = [] then None
      else Some (p\<lparr> qp_header := readStringOr (JStr (qp_header p)) [],
        qp_options := List.map_filter (\<lambda>(label, description).
          let l = readStringOr (JStr label) []; d = readStringOr (JStr description) [] in if l = [] \<and> d = [] then None else Some (l, d)) (qp_options p) \<rparr>))"

definition resolved_question_of :: "session_record \<Rightarrow> projection_view \<Rightarrow> session_event \<Rightarrow> string \<Rightarrow> resolved_question" where
  "resolved_question_of session current event questionId =
     (let payload = ev_payload event;
          pending = find_by_id vq_id (vw_pendingQuestions current) questionId
      in \<lparr> xq_id = questionId, xq_sessionId = sr_sessionId session,
           xq_sourceSessionId = readNullableString (json_opt (first_some (Option.bind pending vq_sourceSessionId) (readNullableString (json_field payload ''sourceSessionId'')))),
           xq_questions = (case pending of Some q \<Rightarrow> List.map_filter renormalize_prompt (vq_questions q) | None \<Rightarrow> []),
           xq_answers = coalesce (read_array (json_field payload ''answers'')) [], xq_rejected = (json_field payload ''rejected'' = JBool True),
           xq_order = show_int (ev_sequence event), xq_resolvedAt = event_time event \<rparr>)"

definition reduce_question_resolved :: "session_record \<Rightarrow> projection_view \<Rightarrow> session_event \<Rightarrow> projection_view" where
  "reduce_question_resolved session current event =
     (let questionId = eventPayloadId (ev_payload event) [''requestId'', ''requestID'', ''id''] [];
          next = current\<lparr> vw_isGenerating := False, vw_updatedAt := event_time event \<rparr>
      in if questionId = [] then next
         else let withoutIt = next\<lparr> vw_pendingQuestions := removeById vq_id (vw_pendingQuestions current) questionId \<rparr>
           in if js_trim (sr_sessionId session) = [] then withoutIt
              else withoutIt\<lparr> vw_resolvedQuestions :=
                upsertById xq_id merge_resolved_question (vw_resolvedQuestions current) (resolved_question_of session current event questionId) \<rparr>)"

definition reduce_artifact :: "projection_view \<Rightarrow> session_event \<Rightarrow> projection_view" where
  "reduce_artifact current event =
     current\<lparr> vw_artifacts := (case normalizeSessionArtifact (ev_payload event) (show_int (ev_sequence event)) of
         Some artifact \<Rightarrow> upsertById vf_id merge_artifact (vw_artifacts current) artifact | None \<Rightarrow> vw_artifacts current),
       vw_updatedAt := event_time event \<rparr>"

definition reduce_cost :: "projection_env \<Rightarrow> projection_view \<Rightarrow> session_event \<Rightarrow> projection_view" where
  "reduce_cost pn current event =
     (let tokens = costTokensFromPayload (ev_payload event) in
      current\<lparr> vw_sessionCost := pn_add pn (vw_sessionCost current) (readNumberOr (json_field (ev_payload event) ''cost'') ''0''),
        vw_sessionTokens := addSessionTokens pn (vw_sessionTokens current) tokens,
        vw_lastInputTokens := (if pn_positive pn (vk_input tokens) then vk_input tokens else vw_lastInputTokens current),
        vw_updatedAt := event_time event \<rparr>)"

text \<open>The status after an idle notice: a failed turn stays failed.\<close>

definition idle_status :: "session_status \<Rightarrow> session_status" where
  "idle_status status = (if status = SErrored then SErrored else SIdle)"

definition reduce_status :: "projection_view \<Rightarrow> session_event \<Rightarrow> projection_view" where
  "reduce_status current event =
     (let statusType = readStringOr (json_field (ev_payload event) ''statusType'') [];
          status = (if statusType = ''busy'' \<or> statusType = ''running'' then SRunning
                    else if statusType = ''idle'' then idle_status (vw_status current) else vw_status current)
      in current\<lparr> vw_status := status, vw_isGenerating := (status = SRunning), vw_updatedAt := event_time event \<rparr>)"

definition reduce_error :: "session_record \<Rightarrow> projection_view \<Rightarrow> session_event \<Rightarrow> projection_view" where
  "reduce_error session current event =
     (let message = readStringOr (json_field (ev_payload event) ''message'') ''Runtime command failed.'' in
      (settle SErrored event current)\<lparr> vw_lastError := Some message,
        vw_errors := upsertById ve_id merge_error (vw_errors current)
          \<lparr> ve_id = eventPayloadId (ev_payload event) [''id'', ''commandId''] (event_local_id session ''error'' event),
            ve_sessionId = Some (sr_sessionId session), ve_message = message, ve_order = show_int (ev_sequence event) \<rparr> \<rparr>)"

definition reduce_imported :: "projection_view \<Rightarrow> session_event \<Rightarrow> projection_view" where
  "reduce_imported current event =
     (let payload = ev_payload event in
      (settle SIdle event current)\<lparr> vw_lastError := None,
        vw_origin := normalizeOrigin (JObj [(''kind'', JStr ''local-session-import''),
          (''sourceFingerprint'', JStr (readStringOr (json_field payload ''sourceFingerprint'') [])),
          (''importedAt'', JStr (readStringOr (json_field payload ''importedAt'') (event_time event))),
          (''itemCounts'', JObj (asRecord (json_field payload ''itemCounts'')))]) \<rparr>)"

definition reduceCloudSessionProjectionEvent ::
  "projection_env \<Rightarrow> session_record \<Rightarrow> projection_view \<Rightarrow> session_event \<Rightarrow> projection_view option" where
  "reduceCloudSessionProjectionEvent pn session current event =
     (let t = ev_type event; payload = ev_payload event in
      if t = ''session.created'' then
        Some ((settle SIdle event current)\<lparr> vw_title := readStringOr (json_field payload ''title'') (vw_title current), vw_lastError := None \<rparr>)
      else if t = ''session.imported'' then Some (reduce_imported current event)
      else if t = ''session.project_source.bound'' then
        Some (current\<lparr> vw_projectSource := normalizeCloudProjectSource (json_field payload ''projectSource''), vw_updatedAt := event_time event \<rparr>)
      else if t = ''prompt.submitted'' then Some (reduce_prompt session current event)
      else if t = ''assistant.message'' then Some (reduce_assistant session current event)
      else if t = ''tool.call'' then reduce_tool_call pn session current event
      else if t = ''task.run'' then
        Some (current\<lparr> vw_taskRuns := upsertById vr_id merge_task_run (vw_taskRuns current) (taskRunFromPayload session payload event),
          vw_updatedAt := event_time event \<rparr>)
      else if t = ''permission.requested'' then
        Some ((settle SRunning event current)\<lparr> vw_pendingApprovals :=
          upsertById va_id merge_pending_approval (vw_pendingApprovals current) (pendingApprovalFromPayload session payload event) \<rparr>)
      else if t = ''permission.resolved'' then Some (reduce_permission_resolved session current event)
      else if t = ''question.asked'' then
        Some ((settle SRunning event current)\<lparr> vw_pendingQuestions :=
          upsertById vq_id merge_pending_question (vw_pendingQuestions current) (pendingQuestionFromPayload session payload event) \<rparr>)
      else if t = ''question.resolved'' then Some (reduce_question_resolved session current event)
      else if t = ''todos.updated'' then
        Some (current\<lparr> vw_todos := normalizeTodos (json_field payload ''todos''), vw_updatedAt := event_time event \<rparr>)
      else if t = ''cost.updated'' then Some (reduce_cost pn current event)
      else if t = ''artifact.created'' \<or> t = ''artifact.updated'' then Some (reduce_artifact current event)
      else if t = ''session.aborted'' then Some (settle SIdle event current)
      else if t = ''session.idle'' then Some (settle (idle_status (vw_status current)) event current)
      else if t = ''session.status'' then Some (reduce_status current event)
      else if t = ''runtime.error'' then Some (reduce_error session current event)
      else Some current)"

end
