(* ===== verification/Projection_Guarantees.thy ===== *)
theory Projection_Guarantees
  imports Session_Projection "HOL-Library.Sublist"
begin

text \<open>
  What the session projection guarantees over any event log: the keyed lists stay keyed and in order, a streamed answer is
  the concatenation of its chunks, a request that is resolved is no longer pending, and the reducer returns. The two
  locales are the contracts of the keyed lists, interpreted on every kind of entry of the view.
\<close>


section \<open>The contract of a keyed list\<close>

locale keyed_list =
  fixes ident :: "'a \<Rightarrow> string" and merge :: "'a \<Rightarrow> 'a \<Rightarrow> 'a"
  assumes ident_merge [simp]: "ident (merge old new) = ident new"
begin

lemma ids_upsert:
  "map ident (upsertById ident merge xs x) = (if ident x \<in> ident ` set xs then map ident xs else map ident xs @ [ident x])"
  by (induction xs) auto

lemma distinct_upsert: "distinct (map ident xs) \<Longrightarrow> distinct (map ident (upsertById ident merge xs x))"
  by (auto simp: ids_upsert)

lemma prefix_upsert: "prefix (map ident xs) (map ident (upsertById ident merge xs x))"
  by (simp add: ids_upsert)

lemma find_upsert:
  "find_by_id ident (upsertById ident merge xs x) i =
     (if i = ident x then Some (case find_by_id ident xs i of Some old \<Rightarrow> merge old x | None \<Rightarrow> x) else find_by_id ident xs i)"
  by (induction xs) (auto simp: find_by_id_def)

lemma distinct_remove: "distinct (map ident xs) \<Longrightarrow> distinct (map ident (removeById ident xs i))"
  by (simp add: removeById_def distinct_map_filter)

lemma find_remove: "find_by_id ident (removeById ident xs i) i = None"
  by (induction xs) (auto simp: find_by_id_def removeById_def)

lemma find_remove_other: "j \<noteq> i \<Longrightarrow> find_by_id ident (removeById ident xs i) j = find_by_id ident xs j"
  by (induction xs) (auto simp: find_by_id_def removeById_def)

lemma set_upsert: "set (upsertById ident merge xs x) \<subseteq> set xs \<union> {x} \<union> (\<lambda>old. merge old x) ` set xs"
  by (induction xs) auto

end

locale ordered_list = keyed_list ident merge for ident :: "'a \<Rightarrow> string" and merge +
  fixes position :: "'a \<Rightarrow> string"
  assumes position_merge [simp]: "position (merge old new) = position old"
begin

lemma prefix_positions: "prefix (map (\<lambda>x. (ident x, position x)) xs) (map (\<lambda>x. (ident x, position x)) (upsertById ident merge xs x))"
  by (induction xs) auto

end

interpretation messages: keyed_list vm_id merge_message
  by unfold_locales (simp add: merge_message_def)

interpretation pending_questions: keyed_list vq_id merge_pending_question
  by unfold_locales (simp add: merge_pending_question_def)

interpretation pending_approvals: ordered_list va_id merge_pending_approval va_order
  by unfold_locales (simp_all add: merge_pending_approval_def)

interpretation tool_calls: ordered_list vt_id merge_tool_call vt_order
  by unfold_locales (simp_all add: merge_tool_call_def)

interpretation task_runs: ordered_list vr_id merge_task_run vr_order
  by unfold_locales (simp_all add: merge_task_run_def)

interpretation resolved_approvals: ordered_list xa_id merge_resolved_approval xa_order
  by unfold_locales (simp_all add: merge_resolved_approval_def)

interpretation resolved_questions: ordered_list xq_id merge_resolved_question xq_order
  by unfold_locales (simp_all add: merge_resolved_question_def)

interpretation view_artifacts: ordered_list vf_id merge_artifact vf_order
  by unfold_locales (simp_all add: merge_artifact_def)

interpretation view_errors: ordered_list ve_id merge_error ve_order
  by unfold_locales (simp_all add: merge_error_def)


section \<open>The fold\<close>

fun reduce_events :: "projection_env \<Rightarrow> session_record \<Rightarrow> projection_view \<Rightarrow> session_event list \<Rightarrow> projection_view option" where
  "reduce_events pn session view [] = Some view"
| "reduce_events pn session view (event # events) =
     (case reduceCloudSessionProjectionEvent pn session view event of
        None \<Rightarrow> None | Some view' \<Rightarrow> reduce_events pn session view' events)"

lemma reduce_events_append:
  "reduce_events pn session view (xs @ ys) =
     (case reduce_events pn session view xs of None \<Rightarrow> None | Some view' \<Rightarrow> reduce_events pn session view' ys)"
  by (induction xs arbitrary: view) (auto split: option.split)

lemma reduce_events_invariant:
  assumes "reduce_events pn session view events = Some view'" "P view"
    and "\<And>v ev v'. reduceCloudSessionProjectionEvent pn session v ev = Some v' \<Longrightarrow> P v \<Longrightarrow> P v'"
  shows "P view'"
  using assms(1,2) by (induction events arbitrary: view) (auto split: option.splits intro: assms(3))

lemma task_tools_empty [simp]: "vr_toolCalls (taskRunFromPayload session payload ev) = []"
  by (simp add: taskRunFromPayload_def)

text \<open>One step, by what it does.\<close>

lemma step_elim: "(if c then a else b) = Some v \<Longrightarrow> (c \<Longrightarrow> a = Some v \<Longrightarrow> R) \<Longrightarrow> (b = Some v \<Longrightarrow> R) \<Longrightarrow> R"
  by (simp split: if_splits)

lemma some_elim: "Some a = Some b \<Longrightarrow> (b = a \<Longrightarrow> R) \<Longrightarrow> R"
  by simp

lemma reduce_cases:
  assumes "reduceCloudSessionProjectionEvent pn session v ev = Some v'"
  obtains (same) "v' = v"
  | (created) "v' = (settle SIdle ev v)\<lparr> vw_title := readStringOr (json_field (ev_payload ev) ''title'') (vw_title v), vw_lastError := None \<rparr>"
  | (imported) "v' = reduce_imported v ev"
  | (source) "v' = v\<lparr> vw_projectSource := normalizeCloudProjectSource (json_field (ev_payload ev) ''projectSource''), vw_updatedAt := event_time ev \<rparr>"
  | (prompt) "v' = reduce_prompt session v ev" "ev_type ev = ''prompt.submitted''"
  | (assistant) "v' = reduce_assistant session v ev" "ev_type ev = ''assistant.message''"
  | (tool) "reduce_tool_call pn session v ev = Some v'"
  | (task) "v' = v\<lparr> vw_taskRuns := upsertById vr_id merge_task_run (vw_taskRuns v) (taskRunFromPayload session (ev_payload ev) ev),
      vw_updatedAt := event_time ev \<rparr>"
  | (permission) "v' = (settle SRunning ev v)\<lparr> vw_pendingApprovals :=
      upsertById va_id merge_pending_approval (vw_pendingApprovals v) (pendingApprovalFromPayload session (ev_payload ev) ev) \<rparr>"
  | (permission_resolved) "v' = reduce_permission_resolved session v ev"
  | (question) "v' = (settle SRunning ev v)\<lparr> vw_pendingQuestions :=
      upsertById vq_id merge_pending_question (vw_pendingQuestions v) (pendingQuestionFromPayload session (ev_payload ev) ev) \<rparr>"
  | (question_resolved) "v' = reduce_question_resolved session v ev"
  | (todos) "v' = v\<lparr> vw_todos := normalizeTodos (json_field (ev_payload ev) ''todos''), vw_updatedAt := event_time ev \<rparr>"
  | (cost) "v' = reduce_cost pn v ev"
  | (artifact) "v' = reduce_artifact v ev"
  | (settled) st where "v' = settle st ev v"
  | (status) "v' = reduce_status v ev"
  | (error) "v' = reduce_error session v ev"
  using assms unfolding reduceCloudSessionProjectionEvent_def Let_def
  apply (elim step_elim)
  subgoal by (erule some_elim, erule created)
  subgoal by (erule some_elim, erule imported)
  subgoal by (erule some_elim, erule source)
  subgoal by (erule some_elim, erule prompt, assumption)
  subgoal by (erule some_elim, erule assistant, assumption)
  subgoal by (erule tool)
  subgoal by (erule some_elim, erule task)
  subgoal by (erule some_elim, erule permission)
  subgoal by (erule some_elim, erule permission_resolved)
  subgoal by (erule some_elim, erule question)
  subgoal by (erule some_elim, erule question_resolved)
  subgoal by (erule some_elim, erule todos)
  subgoal by (erule some_elim, erule cost)
  subgoal by (erule some_elim, erule artifact)
  subgoal by (erule some_elim, erule settled)
  subgoal by (erule some_elim, erule settled)
  subgoal by (erule some_elim, erule status)
  subgoal by (erule some_elim, erule error)
  subgoal by (erule some_elim, erule same)
  done

section \<open>The lists stay keyed\<close>

definition view_keyed :: "projection_view \<Rightarrow> bool" where
  "view_keyed v \<longleftrightarrow>
     distinct (map vm_id (vw_messages v)) \<and> distinct (map vt_id (vw_toolCalls v)) \<and> distinct (map vr_id (vw_taskRuns v)) \<and>
     list_all (\<lambda>run. distinct (map vt_id (vr_toolCalls run))) (vw_taskRuns v) \<and>
     distinct (map va_id (vw_pendingApprovals v)) \<and> distinct (map vq_id (vw_pendingQuestions v)) \<and>
     distinct (map xa_id (vw_resolvedApprovals v)) \<and> distinct (map xq_id (vw_resolvedQuestions v)) \<and>
     distinct (map vf_id (vw_artifacts v)) \<and> distinct (map ve_id (vw_errors v))"

lemma merge_task_run_tools [simp]: "vr_toolCalls (merge_task_run old new) = vr_toolCalls new"
  by (simp add: merge_task_run_def)

lemma task_tools_distinct:
  assumes "list_all (\<lambda>run. distinct (map vt_id (vr_toolCalls run))) runs" "distinct (map vt_id (vr_toolCalls run))"
  shows "list_all (\<lambda>run. distinct (map vt_id (vr_toolCalls run))) (upsertById vr_id merge_task_run runs run)"
  using assms by (induction runs) auto

lemma find_by_id_member: "find_by_id ident xs i = Some x \<Longrightarrow> x \<in> set xs \<and> ident x = i"
  by (auto simp: find_by_id_def find_Some_iff)

lemma keyed_with_task_tool:
  assumes "view_keyed v"
  shows "view_keyed (withTaskRunToolCall v session t toolCall payload ev)"
proof -
  have "distinct (map vt_id (vr_toolCalls run))" if "find_by_id vr_id (vw_taskRuns v) t = Some run" for run
    using assms find_by_id_member [OF that] by (auto simp: view_keyed_def list_all_iff)
  then show ?thesis
    using assms unfolding withTaskRunToolCall_def Let_def view_keyed_def
    by (auto intro!: task_tools_distinct task_runs.distinct_upsert tool_calls.distinct_upsert split: option.split)
qed

lemmas view_simps = settle_def reduce_imported_def reduce_prompt_def reduce_assistant_def addMessage_def reduce_permission_resolved_def
  reduce_question_resolved_def reduce_cost_def reduce_artifact_def reduce_status_def reduce_error_def Let_def

lemmas distinct_upserts = messages.distinct_upsert tool_calls.distinct_upsert task_runs.distinct_upsert pending_approvals.distinct_upsert
  pending_questions.distinct_upsert resolved_approvals.distinct_upsert resolved_questions.distinct_upsert view_artifacts.distinct_upsert
  view_errors.distinct_upsert pending_approvals.distinct_remove pending_questions.distinct_remove

lemma reduce_tool_call_result:
  assumes "reduce_tool_call pn session v ev = Some v'"
  obtains toolCall mid where "mid = v\<lparr> vw_status := SRunning, vw_isGenerating := True, vw_lastError := None, vw_updatedAt := event_time ev \<rparr>"
    "v' = mid\<lparr> vw_toolCalls := upsertById vt_id merge_tool_call (vw_toolCalls v) toolCall \<rparr>
     \<or> (\<exists>t. v' = withTaskRunToolCall mid session t toolCall (ev_payload ev) ev)"
  using assms unfolding reduce_tool_call_def Let_def by (auto split: option.splits)

lemma keyed_step:
  assumes "reduceCloudSessionProjectionEvent pn session v ev = Some v'" "view_keyed v"
  shows "view_keyed v'"
  using assms(1)
proof (cases rule: reduce_cases)
  case tool
  then show ?thesis
  proof (rule reduce_tool_call_result)
    fix toolCall mid
    assume mid: "mid = v\<lparr> vw_status := SRunning, vw_isGenerating := True, vw_lastError := None, vw_updatedAt := event_time ev \<rparr>"
      and v': "v' = mid\<lparr> vw_toolCalls := upsertById vt_id merge_tool_call (vw_toolCalls v) toolCall \<rparr>
        \<or> (\<exists>t. v' = withTaskRunToolCall mid session t toolCall (ev_payload ev) ev)"
    have "view_keyed mid" using assms(2) by (simp add: mid view_keyed_def)
    moreover have "view_keyed (w\<lparr> vw_toolCalls := upsertById vt_id merge_tool_call (vw_toolCalls w) toolCall \<rparr>)" if "view_keyed w" for w
      using that by (simp add: view_keyed_def distinct_upserts)
    moreover have "vw_toolCalls mid = vw_toolCalls v" by (simp add: mid)
    ultimately show ?thesis using v' keyed_with_task_tool by metis
  qed
qed (use assms(2) in \<open>auto simp: view_keyed_def view_simps distinct_upserts task_tools_distinct split: option.split\<close>)

lemma generating_step:
  assumes "reduceCloudSessionProjectionEvent pn session v ev = Some v'" "vw_isGenerating v \<longrightarrow> vw_status v = SRunning"
  shows "vw_isGenerating v' \<longrightarrow> vw_status v' = SRunning"
  using assms(1)
proof (cases rule: reduce_cases)
  case tool
  then show ?thesis by (rule reduce_tool_call_result) (auto simp: withTaskRunToolCall_def Let_def)
qed (use assms(2) in \<open>auto simp: view_simps\<close>)

lemma session_step:
  assumes "reduceCloudSessionProjectionEvent pn session v ev = Some v'"
  shows "vw_sessionId v' = vw_sessionId v \<and> vw_profileName v' = vw_profileName v"
  using assms
proof (cases rule: reduce_cases)
  case tool
  then show ?thesis by (rule reduce_tool_call_result) (auto simp: withTaskRunToolCall_def Let_def)
qed (auto simp: view_simps)

text \<open>C33: After any event log, however requests, tools and tasks reuse their ids, every list of the view, and the tool calls of
  every task, have one entry per id; the view still belongs to its session; and it says generating only while it says running.\<close>

theorem projection_view_invariant:
  assumes "reduce_events pn session (createCloudSessionProjectionView session) events = Some v"
  shows "view_keyed v \<and> (vw_isGenerating v \<longrightarrow> vw_status v = SRunning)
    \<and> vw_sessionId v = sr_sessionId session \<and> vw_profileName v = sr_profileName session"
proof -
  let ?P = "\<lambda>v. view_keyed v \<and> (vw_isGenerating v \<longrightarrow> vw_status v = SRunning)
    \<and> vw_sessionId v = sr_sessionId session \<and> vw_profileName v = sr_profileName session"
  have "?P (createCloudSessionProjectionView session)" by (simp add: createCloudSessionProjectionView_def view_keyed_def)
  with assms show ?thesis
    by (rule reduce_events_invariant [where P = ?P]) (use keyed_step generating_step session_step in \<open>metis (no_types, lifting)\<close>)
qed

definition sample_projection_env :: projection_env where
  "sample_projection_env = \<lparr> pn_export = id, pn_patterns = id, pn_add = (\<lambda>a b. a), pn_positive = (\<lambda>a. a \<noteq> ''0''), pn_parse = (\<lambda>a. 0) \<rparr>"

definition view_session :: session_record where
  "view_session = \<lparr> sr_tenantId = ''t'', sr_userId = ''u'', sr_sessionId = ''s'', sr_opencodeSessionId = ''o'', sr_profileName = ''p'',
     sr_status = SIdle, sr_title = None, sr_createdAt = 0, sr_updatedAt = 0, sr_projectSource = None \<rparr>"

definition view_event :: "int \<Rightarrow> string \<Rightarrow> (string \<times> json) list \<Rightarrow> session_event" where
  "view_event n t payload = \<lparr> ev_tenantId = ''t'', ev_sessionId = ''s'', ev_eventId = show_int n, ev_sequence = n, ev_type = t,
     ev_payload = JObj payload, ev_createdAt = n \<rparr>"

definition chunk_event :: "int \<Rightarrow> string \<Rightarrow> string \<Rightarrow> session_event" where
  "chunk_event n m d = view_event n ''assistant.message'' [(''messageId'', JStr m), (''mode'', JStr ''append''), (''content'', JStr d)]"

definition sample_log :: "session_event list" where
  "sample_log = [view_event 1 ''prompt.submitted'' [(''messageId'', JStr ''q''), (''text'', JStr ''hi'')], chunk_event 2 ''m'' ''ab'',
     view_event 3 ''session.status'' [(''statusType'', JStr ''busy'')], chunk_event 4 ''m'' ''cd'', chunk_event 5 ''n'' ''x'',
     view_event 6 ''prompt.submitted'' [(''messageId'', JStr ''q''), (''text'', JStr ''again'')]]"

lemma sample_log_returns: "\<exists>v. reduce_events sample_projection_env view_session (createCloudSessionProjectionView view_session) sample_log = Some v"
  by (simp add: sample_log_def chunk_event_def view_event_def reduceCloudSessionProjectionEvent_def Let_def)

theorem projection_view_invariant_witness:
  "view_keyed (the (reduce_events sample_projection_env view_session (createCloudSessionProjectionView view_session) sample_log))"
proof -
  obtain v where v: "reduce_events sample_projection_env view_session (createCloudSessionProjectionView view_session) sample_log = Some v"
    using sample_log_returns by blast
  then show ?thesis using projection_view_invariant [OF v] by simp
qed


section \<open>Entries keep their place\<close>

text \<open>\<open>v'\<close> has the entries of \<open>v\<close> at the same places, with the same order numbers, and possibly more after them.\<close>

definition extends :: "projection_view \<Rightarrow> projection_view \<Rightarrow> bool" where
  "extends v v' \<longleftrightarrow>
     prefix (map vm_id (vw_messages v)) (map vm_id (vw_messages v')) \<and>
     prefix (map (\<lambda>x. (vt_id x, vt_order x)) (vw_toolCalls v)) (map (\<lambda>x. (vt_id x, vt_order x)) (vw_toolCalls v')) \<and>
     prefix (map (\<lambda>x. (vr_id x, vr_order x)) (vw_taskRuns v)) (map (\<lambda>x. (vr_id x, vr_order x)) (vw_taskRuns v')) \<and>
     prefix (map (\<lambda>x. (xa_id x, xa_order x)) (vw_resolvedApprovals v)) (map (\<lambda>x. (xa_id x, xa_order x)) (vw_resolvedApprovals v')) \<and>
     prefix (map (\<lambda>x. (xq_id x, xq_order x)) (vw_resolvedQuestions v)) (map (\<lambda>x. (xq_id x, xq_order x)) (vw_resolvedQuestions v')) \<and>
     prefix (map (\<lambda>x. (vf_id x, vf_order x)) (vw_artifacts v)) (map (\<lambda>x. (vf_id x, vf_order x)) (vw_artifacts v')) \<and>
     prefix (map (\<lambda>x. (ve_id x, ve_order x)) (vw_errors v)) (map (\<lambda>x. (ve_id x, ve_order x)) (vw_errors v'))"

lemmas prefix_upserts = messages.prefix_upsert tool_calls.prefix_positions task_runs.prefix_positions resolved_approvals.prefix_positions
  resolved_questions.prefix_positions view_artifacts.prefix_positions view_errors.prefix_positions

lemma extends_refl: "extends v v"
  by (simp add: extends_def)

lemma extends_trans: "extends u v \<Longrightarrow> extends v w \<Longrightarrow> extends u w"
  unfolding extends_def by (elim conjE, intro conjI) (erule (1) prefix_order.trans)+

lemma extends_step:
  assumes "reduceCloudSessionProjectionEvent pn session v ev = Some v'"
  shows "extends v v'"
  using assms
proof (cases rule: reduce_cases)
  case tool
  then show ?thesis
    by (rule reduce_tool_call_result) (auto simp: withTaskRunToolCall_def Let_def extends_def prefix_upserts)
qed (auto simp: view_simps extends_def prefix_upserts split: option.split)

text \<open>The transcript never reorders: whatever events follow, messages, tool calls, tasks, resolved requests, artifacts and
  errors already shown stay at their places, and those with an order number keep it.\<close>

theorem projection_positions_stable:
  assumes "reduce_events pn session v events = Some v'"
  shows "extends v v'"
  using assms
proof (induction events arbitrary: v)
  case (Cons ev events)
  then show ?case using extends_step extends_trans by (fastforce split: option.splits)
qed (simp add: extends_refl)

theorem projection_positions_stable_witness:
  "extends (createCloudSessionProjectionView view_session)
     (the (reduce_events sample_projection_env view_session (createCloudSessionProjectionView view_session) sample_log))"
proof -
  obtain v where v: "reduce_events sample_projection_env view_session (createCloudSessionProjectionView view_session) sample_log = Some v"
    using sample_log_returns by blast
  then show ?thesis using projection_positions_stable [OF v] by simp
qed


section \<open>Streaming\<close>

text \<open>The message an event writes, and the chunk it appends.\<close>

definition message_target :: "session_record \<Rightarrow> session_event \<Rightarrow> string option" where
  "message_target session ev =
     (if ev_type ev = ''prompt.submitted''
      then Some (readStringOr (json_field (ev_payload ev) ''messageId'') (sr_sessionId session @ CHR '':'' # show_int (ev_sequence ev) @ '':user''))
      else if ev_type ev = ''assistant.message''
      then Some (readStringOr (json_field (ev_payload ev) ''messageId'') (sr_sessionId session @ CHR '':'' # show_int (ev_sequence ev) @ '':assistant''))
      else None)"

definition appended_chunk :: "session_event \<Rightarrow> string option" where
  "appended_chunk ev =
     (if ev_type ev = ''assistant.message'' \<and> json_field (ev_payload ev) ''mode'' = JStr ''append''
      then Some (case json_field (ev_payload ev) ''content'' of JStr d \<Rightarrow> d | _ \<Rightarrow> []) else None)"

definition chunks_of :: "session_record \<Rightarrow> string \<Rightarrow> session_event list \<Rightarrow> string list" where
  "chunks_of session m events = map (\<lambda>ev. coalesce (appended_chunk ev) []) (filter (\<lambda>ev. message_target session ev = Some m) events)"

lemma messages_untouched:
  assumes "reduceCloudSessionProjectionEvent pn session v ev = Some v'" "message_target session ev = None"
  shows "vw_messages v' = vw_messages v"
proof -
  have types: "ev_type ev \<noteq> ''prompt.submitted''" "ev_type ev \<noteq> ''assistant.message''"
    using assms(2) by (auto simp: message_target_def split: if_splits)
  show ?thesis using assms(1)
  proof (cases rule: reduce_cases)
    case tool
    then show ?thesis by (rule reduce_tool_call_result) (auto simp: withTaskRunToolCall_def Let_def)
  qed (use types in \<open>auto simp: view_simps\<close>)
qed

lemma prompt_messages:
  "vw_messages (reduce_prompt session v ev) = upsertById vm_id merge_message (vw_messages v)
     \<lparr> vm_id = readStringOr (json_field (ev_payload ev) ''messageId'') (sr_sessionId session @ CHR '':'' # show_int (ev_sequence ev) @ '':user''),
       vm_role = RoleUser, vm_content = readStringOr (json_field (ev_payload ev) ''text'') [], vm_createdAt = event_time ev,
       vm_attachments = read_array (json_field (ev_payload ev) ''attachments'') \<rparr>"
  by (simp add: reduce_prompt_def addMessage_def Let_def)

lemma assistant_messages:
  assumes "ev_type ev = ''assistant.message''" "message_target session ev = Some i"
  obtains msg where "vw_messages (reduce_assistant session v ev) = upsertById vm_id merge_message (vw_messages v) msg" "vm_id msg = i"
    "appended_chunk ev = Some d \<longrightarrow> vm_content msg = coalesce (map_option vm_content (find_by_id vm_id (vw_messages v) i)) [] @ d"
proof -
  have i: "i = readStringOr (json_field (ev_payload ev) ''messageId'') (sr_sessionId session @ CHR '':'' # show_int (ev_sequence ev) @ '':assistant'')"
    using assms by (simp add: message_target_def)
  show thesis
    by (rule that) (auto simp: i reduce_assistant_def addMessage_def Let_def appended_chunk_def resolveAssistantMessageContent_def
        split: if_splits json.splits)
qed

lemma other_message_step:
  assumes "reduceCloudSessionProjectionEvent pn session v ev = Some v'" "message_target session ev \<noteq> Some m"
  shows "find_by_id vm_id (vw_messages v') m = find_by_id vm_id (vw_messages v) m"
proof (cases "message_target session ev")
  case None
  then show ?thesis using messages_untouched [OF assms(1)] by simp
next
  case (Some i)
  then have "i \<noteq> m" using assms(2) by simp
  show ?thesis using assms(1)
  proof (cases rule: reduce_cases)
    case prompt
    then show ?thesis using Some \<open>i \<noteq> m\<close> by (simp add: prompt_messages messages.find_upsert message_target_def)
  next
    case assistant
    from assistant(2) Some show ?thesis
      by (rule assistant_messages [where v = v]) (use \<open>i \<noteq> m\<close> assistant(1) in \<open>simp add: messages.find_upsert\<close>)
  next
    case tool
    then show ?thesis by (rule reduce_tool_call_result) (auto simp: withTaskRunToolCall_def Let_def)
  qed (auto simp: view_simps)
qed

lemma merge_message_content [simp]: "vm_content (merge_message old new) = vm_content new"
  by (simp add: merge_message_def)

lemma chunk_step:
  assumes "reduceCloudSessionProjectionEvent pn session v ev = Some v'" "message_target session ev = Some m" "appended_chunk ev = Some d"
  shows "map_option vm_content (find_by_id vm_id (vw_messages v') m) = Some (coalesce (map_option vm_content (find_by_id vm_id (vw_messages v) m)) [] @ d)"
proof -
  have t: "ev_type ev = ''assistant.message''" using assms(3) by (simp add: appended_chunk_def split: if_splits)
  then have v': "v' = reduce_assistant session v ev" using assms(1) by (simp add: reduceCloudSessionProjectionEvent_def Let_def)
  from t assms(2) show ?thesis
    by (rule assistant_messages [where v = v and d = d]) (use assms(3) v' in \<open>simp add: messages.find_upsert split: option.split\<close>)
qed

lemma stream_content:
  assumes "reduce_events pn session v events = Some v'"
    and "list_all (\<lambda>ev. message_target session ev = Some m \<longrightarrow> appended_chunk ev \<noteq> None) events"
  shows "map_option vm_content (find_by_id vm_id (vw_messages v') m) =
    (if chunks_of session m events = [] then map_option vm_content (find_by_id vm_id (vw_messages v) m)
     else Some (coalesce (map_option vm_content (find_by_id vm_id (vw_messages v) m)) [] @ concat (chunks_of session m events)))"
  using assms
proof (induction events arbitrary: v)
  case (Cons ev events)
  then obtain w where w: "reduceCloudSessionProjectionEvent pn session v ev = Some w" "reduce_events pn session w events = Some v'"
    by (auto split: option.splits)
  have ih: "map_option vm_content (find_by_id vm_id (vw_messages v') m) =
    (if chunks_of session m events = [] then map_option vm_content (find_by_id vm_id (vw_messages w) m)
     else Some (coalesce (map_option vm_content (find_by_id vm_id (vw_messages w) m)) [] @ concat (chunks_of session m events)))"
    using Cons.IH [OF w(2)] Cons.prems(2) by simp
  show ?case
  proof (cases "message_target session ev = Some m")
    case True
    then obtain d where d: "appended_chunk ev = Some d" using Cons.prems(2) by auto
    have "chunks_of session m (ev # events) = d # chunks_of session m events" using True d by (simp add: chunks_of_def coalesce_def)
    moreover have "coalesce (Some x) y = x" for x y :: string by (simp add: coalesce_def)
    ultimately show ?thesis unfolding ih chunk_step [OF w(1) True d] by simp
  next
    case False
    then have "chunks_of session m (ev # events) = chunks_of session m events" by (simp add: chunks_of_def)
    then show ?thesis using ih other_message_step [OF w(1) False] by simp
  qed
qed (simp add: chunks_of_def)

text \<open>C35: A streamed answer is assembled exactly: when every event that writes message \<open>m\<close> is an append, the message's text after
  the log is the concatenation of the chunks in the order of the log, whatever other events come between them.\<close>

theorem streamed_answer_is_concat:
  assumes "reduce_events pn session v events = Some v'" "find_by_id vm_id (vw_messages v) m = None"
    and "list_all (\<lambda>ev. message_target session ev = Some m \<longrightarrow> appended_chunk ev \<noteq> None) events"
  shows "map_option vm_content (find_by_id vm_id (vw_messages v') m) =
    (if chunks_of session m events = [] then None else Some (concat (chunks_of session m events)))"
  using stream_content [OF assms(1,3)] assms(2) by (simp add: coalesce_def)

theorem streamed_answer_is_concat_witness:
  "map_option vm_content (find_by_id vm_id (vw_messages (the (reduce_events sample_projection_env view_session
     (createCloudSessionProjectionView view_session) sample_log))) ''m'') = Some ''abcd''"
proof -
  obtain v where v: "reduce_events sample_projection_env view_session (createCloudSessionProjectionView view_session) sample_log = Some v"
    using sample_log_returns by blast
  have "list_all (\<lambda>ev. message_target view_session ev = Some ''m'' \<longrightarrow> appended_chunk ev \<noteq> None) sample_log" by code_simp
  moreover have "chunks_of view_session ''m'' sample_log = [''ab'', ''cd'']" by code_simp
  moreover have "find_by_id vm_id (vw_messages (createCloudSessionProjectionView view_session)) ''m'' = None"
    by (simp add: createCloudSessionProjectionView_def find_by_id_def)
  ultimately show ?thesis using streamed_answer_is_concat [OF v, of "''m''"] v by simp
qed

section \<open>Requests\<close>

lemma readStringOr_text [simp]: "js_trim s \<noteq> [] \<Longrightarrow> readStringOr (JStr s) d = s"
  by (simp add: readStringOr_def)

text \<open>An answered permission request leaves the pending list, alone, and is recorded with the tool that was asked for and with
  the answer: allowed exactly when the event says so, refused in every other case.\<close>

theorem permission_resolution_recorded:
  assumes "ev_type ev = ''permission.resolved''" "i \<noteq> []" "js_trim (sr_sessionId session) \<noteq> []"
    and "eventPayloadId (ev_payload ev) [''permissionId'', ''id'', ''requestId'', ''requestID''] [] = i"
    and "find_by_id va_id (vw_pendingApprovals v) i = Some pa" "js_trim (va_tool pa) \<noteq> []"
  shows "\<exists>v' ra. reduceCloudSessionProjectionEvent pn session v ev = Some v' \<and> vw_isGenerating v' = False
    \<and> (\<forall>j. find_by_id va_id (vw_pendingApprovals v') j = (if j = i then None else find_by_id va_id (vw_pendingApprovals v) j))
    \<and> find_by_id xa_id (vw_resolvedApprovals v') i = Some ra \<and> xa_tool ra = va_tool pa
    \<and> xa_allowed ra = (json_field (ev_payload ev) ''allowed'' = JBool True
        \<or> readStringOr (json_field (ev_payload ev) ''reply'') (readStringOr (json_field (ev_payload ev) ''response'') []) \<in> {''allow'', ''once'', ''always''})"
proof -
  let ?v = "reduce_permission_resolved session v ev"
  let ?ra = "resolved_approval_of session v ev i"
  have red: "reduceCloudSessionProjectionEvent pn session v ev = Some ?v"
    using assms(1) by (simp add: reduceCloudSessionProjectionEvent_def Let_def)
  have tool: "va_tool pa \<noteq> []" using assms(6) by (auto simp: js_trim_def)
  have ra: "xa_id ?ra = i" "xa_tool ?ra = va_tool pa"
    using assms(5,6) tool by (simp_all add: resolved_approval_of_def Let_def or_else_def or_null_def)
  have merge: "xa_tool (merge_resolved_approval old new) = xa_tool new" "xa_allowed (merge_resolved_approval old new) = xa_allowed new" for old new
    by (simp_all add: merge_resolved_approval_def)
  have v': "vw_pendingApprovals ?v = removeById va_id (vw_pendingApprovals v) i"
    "vw_resolvedApprovals ?v = upsertById xa_id merge_resolved_approval (vw_resolvedApprovals v) ?ra" "vw_isGenerating ?v = False"
    using assms(2-4) by (simp_all add: reduce_permission_resolved_def Let_def)
  obtain ra where found: "find_by_id xa_id (vw_resolvedApprovals ?v) i = Some ra" and same: "xa_tool ra = xa_tool ?ra" "xa_allowed ra = xa_allowed ?ra"
    using ra(1) by (auto simp: v'(2) resolved_approvals.find_upsert merge split: option.split)
  have allowed: "xa_allowed ?ra = (json_field (ev_payload ev) ''allowed'' = JBool True
        \<or> readStringOr (json_field (ev_payload ev) ''reply'') (readStringOr (json_field (ev_payload ev) ''response'') []) \<in> {''allow'', ''once'', ''always''})"
    by (simp add: resolved_approval_of_def Let_def)
  have pending: "find_by_id va_id (vw_pendingApprovals ?v) j = (if j = i then None else find_by_id va_id (vw_pendingApprovals v) j)" for j
    by (simp add: v'(1) pending_approvals.find_remove pending_approvals.find_remove_other)
  from red v'(3) pending found same ra(2) allowed show ?thesis by (intro exI [of _ ?v] exI [of _ ra]) simp
qed

theorem permission_resolution_recorded_witness:
  "\<exists>v' ra. reduceCloudSessionProjectionEvent sample_projection_env view_session
      ((createCloudSessionProjectionView view_session)\<lparr> vw_pendingApprovals := [pendingApprovalFromPayload view_session
         (JObj [(''id'', JStr ''p1''), (''tool'', JStr ''bash'')]) (view_event 1 ''permission.requested'' [])] \<rparr>)
      (view_event 2 ''permission.resolved'' [(''permissionId'', JStr ''p1''), (''reply'', JStr ''reject'')]) = Some v'
    \<and> find_by_id xa_id (vw_resolvedApprovals v') ''p1'' = Some ra \<and> xa_tool ra = ''bash'' \<and> \<not> xa_allowed ra"
proof -
  let ?pa = "pendingApprovalFromPayload view_session (JObj [(''id'', JStr ''p1''), (''tool'', JStr ''bash'')]) (view_event 1 ''permission.requested'' [])"
  let ?ev = "view_event 2 ''permission.resolved'' [(''permissionId'', JStr ''p1''), (''reply'', JStr ''reject'')]"
  let ?v = "(createCloudSessionProjectionView view_session)\<lparr> vw_pendingApprovals := [?pa] \<rparr>"
  have h: "ev_type ?ev = ''permission.resolved''" "''p1'' \<noteq> []" "js_trim (sr_sessionId view_session) \<noteq> []"
    "eventPayloadId (ev_payload ?ev) [''permissionId'', ''id'', ''requestId'', ''requestID''] [] = ''p1''"
    "va_id ?pa = ''p1''" "va_tool ?pa = ''bash''" "js_trim (va_tool ?pa) \<noteq> []"
    "json_field (ev_payload ?ev) ''allowed'' \<noteq> JBool True"
    "readStringOr (json_field (ev_payload ?ev) ''reply'') (readStringOr (json_field (ev_payload ?ev) ''response'') []) = ''reject''"
    by code_simp+
  have found: "find_by_id va_id (vw_pendingApprovals ?v) ''p1'' = Some ?pa" using h(5) by (simp add: find_by_id_def)
  from permission_resolution_recorded [OF h(1-4) found h(7), of sample_projection_env] h(6,8,9) show ?thesis by force
qed


section \<open>The reducer returns\<close>

text \<open>The property names in the opaque parts of a tool event are short after redaction.\<close>

definition tool_payload_short :: "projection_env \<Rightarrow> session_event \<Rightarrow> bool" where
  "tool_payload_short pn ev \<longleftrightarrow>
     keys_short (runtime_context pn None True) (json_field (ev_payload ev) ''input'') \<and>
     (case map_of (asRecord (ev_payload ev)) ''output'' of
        None \<Rightarrow> True | Some output \<Rightarrow> keys_short (runtime_context pn (map_of (asRecord (ev_payload ev)) ''outputPaths'') True) output)"

lemma value_returns:
  assumes "keys_short c v"
  shows "\<exists>r. sanitizeRuntimeEventValue c v = Some r"
proof -
  obtain r n where "sanitizeEntry c 0 v 0 = Some (r, n)" using sanitize_returns(1) [OF assms] by (metis not_None_eq surj_pair)
  then show ?thesis by (simp add: sanitizeRuntimeEventValue_def split: option.split)
qed

lemma record_returns:
  assumes "keys_short c v"
  shows "\<exists>r. sanitizeRuntimeEventRecord c v = Some r"
  using value_returns [OF assms] by (auto simp: sanitizeRuntimeEventRecord_def split: option.split json.split)

lemma reducer_step_returns:
  assumes "ev_type ev = ''tool.call'' \<longrightarrow> tool_payload_short pn ev"
  shows "\<exists>v'. reduceCloudSessionProjectionEvent pn session v ev = Some v'"
proof (cases "ev_type ev = ''tool.call''")
  case True
  then have short: "tool_payload_short pn ev" using assms by simp
  obtain inp where inp: "sanitizeRuntimeEventRecord (runtime_context pn None True) (json_field (ev_payload ev) ''input'') = Some inp"
    using short record_returns by (auto simp: tool_payload_short_def)
  obtain out where out: "tool_output_of pn (ev_payload ev) = Some out"
  proof (cases "map_of (asRecord (ev_payload ev)) ''output''")
    case (Some outp)
    obtain r where "sanitizeRuntimeEventValue (runtime_context pn (map_of (asRecord (ev_payload ev)) ''outputPaths'') True) outp = Some r"
      using short value_returns Some by (auto simp: tool_payload_short_def)
    then have "\<exists>o'. tool_output_of pn (ev_payload ev) = Some o'" by (simp add: tool_output_of_def Some sanitizeCloudToolOutput_def)
    then show ?thesis using that by blast
  qed (auto simp: tool_output_of_def intro: that)
  obtain tc where tc: "toolCallFromPayload pn session (ev_payload ev) ev = Some tc" by (simp add: toolCallFromPayload_def inp out)
  then show ?thesis using True by (simp add: reduceCloudSessionProjectionEvent_def reduce_tool_call_def Let_def)
qed (simp add: reduceCloudSessionProjectionEvent_def Let_def)

text \<open>The projection of a log returns when the inputs and outputs of its tool events have short property names; no other
  event can keep the reducer from returning.\<close>

theorem reducer_returns:
  assumes "list_all (\<lambda>ev. ev_type ev = ''tool.call'' \<longrightarrow> tool_payload_short pn ev) events"
  shows "\<exists>v'. reduce_events pn session v events = Some v'"
  using assms
proof (induction events arbitrary: v)
  case (Cons ev events)
  then obtain w where "reduceCloudSessionProjectionEvent pn session v ev = Some w" using reducer_step_returns by fastforce
  then show ?case using Cons by simp
qed simp

theorem reducer_returns_witness:
  "\<exists>v'. reduce_events sample_projection_env view_session (createCloudSessionProjectionView view_session)
     [view_event 1 ''tool.call'' [(''id'', JStr ''c1''), (''input'', JObj [(''cmd'', JStr ''ls'')]), (''output'', JArr [JStr ''a''])]] = Some v'"
proof (rule reducer_returns)
  show "list_all (\<lambda>ev. ev_type ev = ''tool.call'' \<longrightarrow> tool_payload_short sample_projection_env ev)
     [view_event 1 ''tool.call'' [(''id'', JStr ''c1''), (''input'', JObj [(''cmd'', JStr ''ls'')]), (''output'', JArr [JStr ''a''])]]"
    by (simp add: view_event_def tool_payload_short_def asRecord_def json_field_def coalesce_def runtime_context_def redactRuntimeString_def
        sample_projection_env_def normalizeManagedPaths_def truncateUtf8_def char_bytes_def)
qed


section \<open>Updates that lose data\<close>

text \<open>A status update of a task empties its tool calls, transcript and todos: they are always present in the incoming entry.\<close>

lemma task_update_drops_tool_calls:
  assumes "ev_type ev = ''task.run''" "find_by_id vr_id (vw_taskRuns v) i = Some run"
    and "eventPayloadId (ev_payload ev) [''taskRunId'', ''id''] (event_local_id session ''task'' ev) = i"
  shows "\<exists>v' run'. reduceCloudSessionProjectionEvent pn session v ev = Some v' \<and> find_by_id vr_id (vw_taskRuns v') i = Some run'
    \<and> vr_toolCalls run' = [] \<and> vr_transcript run' = [] \<and> vr_todos run' = []"
proof -
  have "vr_id (taskRunFromPayload session (ev_payload ev) ev) = i" using assms(3) by (simp add: taskRunFromPayload_def)
  then show ?thesis using assms(1,2)
    by (simp add: reduceCloudSessionProjectionEvent_def Let_def task_runs.find_upsert merge_task_run_def taskRunFromPayload_def)
qed

end
