(* ===== verification/Projection_Storage.thy ===== *)
theory Projection_Storage
  imports Projection_Guarantees
begin

text \<open>
  The JSON a view is stored as, and reading it back (\<open>normalizeCloudSessionProjectionView\<close>). The projection service keeps
  the views of busy sessions in memory and normalizes the stored one otherwise
  (\<open>cloud-server/src/session-projection-service.ts\<close>), which is right only if reading back gives the same view. A
  property with the value undefined is absent from the JSON.
\<close>


section \<open>The stored JSON\<close>

definition opt_array :: "string \<Rightarrow> json list option \<Rightarrow> (string \<times> json) list" where
  "opt_array k v = (case v of Some vs \<Rightarrow> [(k, JArr vs)] | None \<Rightarrow> [])"

definition opt_text :: "string \<Rightarrow> string option \<Rightarrow> (string \<times> json) list" where
  "opt_text k v = (case v of Some s \<Rightarrow> [(k, JStr s)] | None \<Rightarrow> [])"

definition role_text :: "message_role \<Rightarrow> string" where
  "role_text r = (case r of RoleUser \<Rightarrow> ''user'' | RoleAssistant \<Rightarrow> ''assistant'' | RoleSystem \<Rightarrow> ''system'')"

definition tool_status_text :: "tool_status \<Rightarrow> string" where
  "tool_status_text s = (case s of ToolRunning \<Rightarrow> ''running'' | ToolComplete \<Rightarrow> ''complete'' | ToolError \<Rightarrow> ''error'')"

definition task_status_text :: "task_status \<Rightarrow> string" where
  "task_status_text s = (case s of TaskQueued \<Rightarrow> ''queued'' | TaskRunning \<Rightarrow> ''running'' | TaskComplete \<Rightarrow> ''complete'' | TaskError \<Rightarrow> ''error'')"

definition session_status_text :: "session_status \<Rightarrow> string" where
  "session_status_text s = (case s of SIdle \<Rightarrow> ''idle'' | SRunning \<Rightarrow> ''running'' | SClosed \<Rightarrow> ''closed'' | SErrored \<Rightarrow> ''errored'')"

definition message_json :: "view_message \<Rightarrow> json" where
  "message_json m = JObj ([(''id'', JStr (vm_id m)), (''role'', JStr (role_text (vm_role m))), (''content'', JStr (vm_content m)),
     (''createdAt'', JStr (vm_createdAt m))] @ opt_array ''attachments'' (vm_attachments m))"

definition attachment_json :: "message_attachment \<Rightarrow> json" where
  "attachment_json a = JObj ([(''mime'', JStr (vh_mime a)), (''url'', JStr (vh_url a))] @ opt_text ''filename'' (vh_filename a))"

definition tool_call_json :: "view_tool_call \<Rightarrow> json" where
  "tool_call_json t = JObj ([(''id'', JStr (vt_id t)), (''name'', JStr (vt_name t)), (''input'', JObj (vt_input t)),
     (''status'', JStr (tool_status_text (vt_status t))), (''agent'', json_opt (vt_agent t)),
     (''sourceSessionId'', json_opt (vt_sourceSessionId t)), (''order'', JNum (vt_order t))]
     @ (case vt_output t of Some v \<Rightarrow> [(''output'', v)] | None \<Rightarrow> [])
     @ opt_array ''attachments'' (map_option (map attachment_json) (vt_attachments t)))"

definition tokens_json :: "session_tokens \<Rightarrow> json" where
  "tokens_json k = JObj [(''input'', JNum (vk_input k)), (''output'', JNum (vk_output k)), (''reasoning'', JNum (vk_reasoning k)),
     (''cacheRead'', JNum (vk_cacheRead k)), (''cacheWrite'', JNum (vk_cacheWrite k))]"

definition todo_json :: "todo_item \<Rightarrow> json" where
  "todo_json d = JObj ([(''content'', JStr (vd_content d)), (''status'', JStr (vd_status d)), (''priority'', JStr (vd_priority d))]
     @ opt_text ''id'' (vd_id d))"

definition task_run_json :: "view_task_run \<Rightarrow> json" where
  "task_run_json r = JObj ([(''id'', JStr (vr_id r)), (''title'', JStr (vr_title r)), (''agent'', json_opt (vr_agent r)),
     (''status'', JStr (task_status_text (vr_status r))), (''sourceSessionId'', json_opt (vr_sourceSessionId r)),
     (''parentSessionId'', json_opt (vr_parentSessionId r)), (''content'', JStr (vr_content r)), (''transcript'', JArr (vr_transcript r)),
     (''toolCalls'', JArr (map tool_call_json (vr_toolCalls r))), (''compactions'', JArr (vr_compactions r)),
     (''todos'', JArr (map todo_json (vr_todos r))), (''error'', json_opt (vr_error r)), (''sessionCost'', JNum (vr_sessionCost r)),
     (''sessionTokens'', tokens_json (vr_sessionTokens r)), (''order'', JNum (vr_order r)), (''startedAt'', json_opt (vr_startedAt r)),
     (''finishedAt'', json_opt (vr_finishedAt r))] @ opt_array ''reasoning'' (vr_reasoning r))"

definition pending_approval_json :: "pending_approval \<Rightarrow> json" where
  "pending_approval_json a = JObj [(''id'', JStr (va_id a)), (''sessionId'', JStr (va_sessionId a)),
     (''sourceSessionId'', json_opt (va_sourceSessionId a)), (''taskRunId'', json_opt (va_taskRunId a)), (''tool'', JStr (va_tool a)),
     (''input'', JObj (va_input a)), (''description'', JStr (va_description a)), (''order'', JNum (va_order a))]"

definition prompt_json :: "question_prompt \<Rightarrow> json" where
  "prompt_json p = JObj [(''header'', JStr (qp_header p)), (''question'', JStr (qp_question p)),
     (''options'', JArr (map (\<lambda>(label, description). JObj [(''label'', JStr label), (''description'', JStr description)]) (qp_options p))),
     (''multiple'', JBool (qp_multiple p)), (''custom'', JBool (qp_custom p))]"

definition pending_question_json :: "pending_question \<Rightarrow> json" where
  "pending_question_json q = JObj ([(''id'', JStr (vq_id q)), (''sessionId'', JStr (vq_sessionId q)),
     (''sourceSessionId'', json_opt (vq_sourceSessionId q)), (''questions'', JArr (map prompt_json (vq_questions q)))]
     @ (case vq_tool q of Some (m, c) \<Rightarrow> [(''tool'', JObj [(''messageId'', JStr m), (''callId'', JStr c)])] | None \<Rightarrow> []))"

definition resolved_approval_json :: "resolved_approval \<Rightarrow> json" where
  "resolved_approval_json a = JObj [(''id'', JStr (xa_id a)), (''sessionId'', JStr (xa_sessionId a)), (''taskRunId'', json_opt (xa_taskRunId a)),
     (''tool'', JStr (xa_tool a)), (''description'', JStr (xa_description a)), (''allowed'', JBool (xa_allowed a)),
     (''order'', JNum (xa_order a)), (''resolvedAt'', JStr (xa_resolvedAt a))]"

definition resolved_question_json :: "resolved_question \<Rightarrow> json" where
  "resolved_question_json q = JObj [(''id'', JStr (xq_id q)), (''sessionId'', JStr (xq_sessionId q)),
     (''sourceSessionId'', json_opt (xq_sourceSessionId q)), (''questions'', JArr (map prompt_json (xq_questions q))),
     (''answers'', JArr (xq_answers q)), (''rejected'', JBool (xq_rejected q)), (''order'', JNum (xq_order q)),
     (''resolvedAt'', JStr (xq_resolvedAt q))]"

definition error_json :: "view_error \<Rightarrow> json" where
  "error_json x = JObj [(''id'', JStr (ve_id x)), (''sessionId'', json_opt (ve_sessionId x)), (''message'', JStr (ve_message x)),
     (''order'', JNum (ve_order x))]"

definition artifact_json :: "view_artifact \<Rightarrow> json" where
  "artifact_json f = JObj ([(''id'', JStr (vf_id f)), (''toolId'', JStr (vf_toolId f)), (''toolName'', JStr (vf_toolName f)),
     (''filePath'', JStr (vf_filePath f)), (''filename'', JStr (vf_filename f)), (''order'', JNum (vf_order f)), (''source'', JStr ''cloud''),
     (''cloudArtifactId'', JStr (vf_id f)), (''taskRunId'', json_opt (vf_taskRunId f)), (''authorAgentId'', json_opt (vf_authorAgentId f)),
     (''projectId'', json_opt (vf_projectId f)), (''taskId'', json_opt (vf_taskId f)), (''statusUpdatedBy'', json_opt (vf_statusUpdatedBy f)),
     (''statusUpdatedAt'', json_opt (vf_statusUpdatedAt f))]
     @ opt_text ''mime'' (vf_mime f) @ (case vf_size f of Some n \<Rightarrow> [(''size'', JNum n)] | None \<Rightarrow> []) @ opt_text ''createdAt'' (vf_createdAt f)
     @ opt_text ''updatedAt'' (vf_updatedAt f) @ opt_text ''kind'' (vf_kind f) @ opt_text ''status'' (vf_status f))"

definition origin_json :: "projection_origin \<Rightarrow> json" where
  "origin_json g = JObj [(''kind'', JStr ''local-session-import''), (''sourceFingerprint'', JStr (og_sourceFingerprint g)),
     (''importedAt'', JStr (og_importedAt g)), (''itemCounts'', JObj (map (\<lambda>(k, n). (k, JNum n)) (og_itemCounts g)))]"

definition project_source_json :: "project_source \<Rightarrow> json" where
  "project_source_json p = (case p of
       GitSource url ref sub cred \<Rightarrow> JObj [(''kind'', JStr ''git''), (''repositoryUrl'', JStr url), (''ref'', json_opt ref),
         (''subdirectory'', json_opt sub), (''credentialRef'', json_opt cred)]
     | SnapshotSource sid okey files bytes title \<Rightarrow> JObj [(''kind'', JStr ''snapshot''), (''snapshotId'', JStr sid), (''objectKey'', JStr okey),
         (''fileCount'', files), (''byteCount'', bytes), (''title'', json_opt title)])"

definition view_json :: "projection_view \<Rightarrow> json" where
  "view_json v = JObj [(''sessionId'', JStr (vw_sessionId v)), (''title'', JStr (vw_title v)),
     (''status'', JStr (session_status_text (vw_status v))), (''profileName'', JStr (vw_profileName v)),
     (''isGenerating'', JBool (vw_isGenerating v)), (''messages'', JArr (map message_json (vw_messages v))),
     (''toolCalls'', JArr (map tool_call_json (vw_toolCalls v))), (''taskRuns'', JArr (map task_run_json (vw_taskRuns v))),
     (''pendingApprovals'', JArr (map pending_approval_json (vw_pendingApprovals v))),
     (''pendingQuestions'', JArr (map pending_question_json (vw_pendingQuestions v))),
     (''resolvedApprovals'', JArr (map resolved_approval_json (vw_resolvedApprovals v))),
     (''resolvedQuestions'', JArr (map resolved_question_json (vw_resolvedQuestions v))),
     (''artifacts'', JArr (map artifact_json (vw_artifacts v))), (''todos'', JArr (map todo_json (vw_todos v))),
     (''errors'', JArr (map error_json (vw_errors v))), (''sessionCost'', JNum (vw_sessionCost v)),
     (''sessionTokens'', tokens_json (vw_sessionTokens v)), (''lastInputTokens'', JNum (vw_lastInputTokens v)),
     (''lastError'', json_opt (vw_lastError v)),
     (''origin'', (case vw_origin v of Some g \<Rightarrow> origin_json g | None \<Rightarrow> JNull)),
     (''projectSource'', (case vw_projectSource v of Some p \<Rightarrow> project_source_json p | None \<Rightarrow> JNull)),
     (''updatedAt'', JStr (vw_updatedAt v))]"


section \<open>Readable values\<close>

text \<open>What the readers give back as it is: texts that are not blank, nullable texts without surrounding space.\<close>

definition solid :: "string \<Rightarrow> bool" where
  "solid s = (js_trim s \<noteq> [])"

definition soft :: "string \<Rightarrow> bool" where
  "soft s = (s = [] \<or> js_trim s \<noteq> [])"

definition trimmed_opt :: "string option \<Rightarrow> bool" where
  "trimmed_opt v = (case v of None \<Rightarrow> True | Some s \<Rightarrow> s \<noteq> [] \<and> js_trim s = s)"

lemma trim_blank: "js_trim s = [] \<longleftrightarrow> list_all is_js_space s"
  by (auto simp: js_trim_def dropWhile_eq_Nil_conv list_all_iff dest: set_dropWhileD) (metis dropWhile_eq_Nil_conv hd_dropWhile hd_in_set set_rev)

lemma solid_append: "solid a \<Longrightarrow> solid (a @ b)" "solid b \<Longrightarrow> solid (a @ b)"
  by (auto simp: solid_def trim_blank)

lemma solid_member: "c \<in> set s \<Longrightarrow> \<not> is_js_space c \<Longrightarrow> solid s"
  by (auto simp: solid_def trim_blank list_all_iff)

lemma solid_ne [simp]: "solid s \<Longrightarrow> s \<noteq> []"
  by (auto simp: solid_def)

lemma read_solid [simp]: "solid s \<Longrightarrow> readStringOr (JStr s) d = s"
  by (simp add: solid_def readStringOr_def)

lemma read_soft [simp]: "soft s \<Longrightarrow> readStringOr (JStr s) [] = s"
  by (auto simp: soft_def readStringOr_def)

lemma read_nullable [simp]: "trimmed_opt v \<Longrightarrow> readNullableString (json_opt v) = v"
  by (auto simp: trimmed_opt_def readNullableString_def json_opt_def split: option.splits)

lemma solid_read: "solid d \<Longrightarrow> solid (readStringOr v d)"
  by (auto simp: readStringOr_def solid_def split: json.split)

lemma soft_read: "soft (readStringOr v [])"
  by (auto simp: readStringOr_def soft_def split: json.split)

lemma trimmed_read: "trimmed_opt (readNullableString v)"
  by (auto simp: readNullableString_def trimmed_opt_def split: json.split)

lemma solid_soft: "solid s \<Longrightarrow> soft s"
  by (simp add: solid_def soft_def)

lemma soft_Nil [simp]: "soft []"
  by (simp add: soft_def)

lemma read_num [simp]: "readNumberOr (JNum n) d = n"
  by (simp add: readNumberOr_def)

lemma read_arr [simp]: "read_array (JArr vs) = Some vs"
  by (simp add: read_array_def)

lemma read_list_map:
  assumes "\<And>x. x \<in> set xs \<Longrightarrow> f (g x) = Some x"
  shows "read_list f (JArr (map g xs)) = xs"
proof -
  have "List.map_filter f (map g xs) = xs" using assms by (induction xs) (simp_all add: List.map_filter_simps)
  then show ?thesis by (simp add: read_list_def coalesce_def)
qed

lemma read_list_in_map:
  assumes "\<And>x. x \<in> set xs \<Longrightarrow> f (g x) = Some (Some x)"
  shows "read_list_in f (JArr (map g xs)) = Some xs"
proof -
  have "those (map f (map g xs)) = Some (map Some xs)" using assms by (induction xs) simp_all
  moreover have "List.map_filter id (map Some xs) = xs" by (induction xs) (simp_all add: List.map_filter_simps)
  ultimately show ?thesis by (simp add: read_list_in_def coalesce_def)
qed

text \<open>Looking up a property of a stored object.\<close>

lemma field_obj: "json_field (JObj kvs) k = coalesce (map_of kvs k) JNull"
  by (simp add: json_field_def)

lemma map_of_opt_array: "map_of (opt_array k v @ kvs) f = (if f = k \<and> v \<noteq> None then Some (JArr (the v)) else map_of kvs f)"
  by (simp add: opt_array_def split: option.split)

lemma map_of_opt_text: "map_of (opt_text k v @ kvs) f = (if f = k \<and> v \<noteq> None then Some (JStr (the v)) else map_of kvs f)"
  by (simp add: opt_text_def split: option.split)

lemma map_of_opt_last: "map_of (opt_array k v) f = (if f = k \<and> v \<noteq> None then Some (JArr (the v)) else None)"
  "map_of (opt_text k s) f = (if f = k \<and> s \<noteq> None then Some (JStr (the s)) else None)"
  by (simp_all add: opt_array_def opt_text_def split: option.split)

lemmas stored_simps = field_obj map_of_opt_array map_of_opt_text map_of_opt_last coalesce_def Let_def

section \<open>Entries read back\<close>

definition message_readable :: "view_message \<Rightarrow> bool" where
  "message_readable m \<longleftrightarrow> solid (vm_id m) \<and> soft (vm_content m) \<and> solid (vm_createdAt m)"

definition tool_readable :: "view_tool_call \<Rightarrow> bool" where
  "tool_readable t \<longleftrightarrow> solid (vt_id t) \<and> solid (vt_name t) \<and> trimmed_opt (vt_agent t) \<and> trimmed_opt (vt_sourceSessionId t)"

text \<open>The sanitizer leaves the opaque parts of the stored call as they are.\<close>

definition tool_stable :: "projection_env \<Rightarrow> view_tool_call \<Rightarrow> bool" where
  "tool_stable pn t \<longleftrightarrow>
     sanitizeRuntimeEventRecord (runtime_context pn None True) (JObj (vt_input t)) = Some (vt_input t) \<and>
     (case vt_output t of Some v \<Rightarrow> sanitizeCloudToolOutput pn v None = Some (Some v) | None \<Rightarrow> True) \<and>
     (case vt_attachments t of Some as \<Rightarrow> as \<noteq> [] \<and> normalizeCloudToolAttachments (JArr (map attachment_json as)) = as | None \<Rightarrow> True)"

definition todo_readable :: "todo_item \<Rightarrow> bool" where
  "todo_readable d \<longleftrightarrow> solid (vd_content d) \<and> solid (vd_status d) \<and> solid (vd_priority d) \<and> trimmed_opt (vd_id d)"

definition task_readable :: "view_task_run \<Rightarrow> bool" where
  "task_readable r \<longleftrightarrow> solid (vr_id r) \<and> solid (vr_title r) \<and> trimmed_opt (vr_agent r) \<and> trimmed_opt (vr_sourceSessionId r)
     \<and> trimmed_opt (vr_parentSessionId r) \<and> soft (vr_content r) \<and> trimmed_opt (vr_error r) \<and> trimmed_opt (vr_startedAt r)
     \<and> trimmed_opt (vr_finishedAt r) \<and> list_all tool_readable (vr_toolCalls r) \<and> list_all todo_readable (vr_todos r)"

definition approval_readable :: "pending_approval \<Rightarrow> bool" where
  "approval_readable a \<longleftrightarrow> solid (va_id a) \<and> solid (va_sessionId a) \<and> trimmed_opt (va_sourceSessionId a) \<and> trimmed_opt (va_taskRunId a)
     \<and> solid (va_tool a) \<and> solid (va_description a)"

definition option_readable :: "string \<times> string \<Rightarrow> bool" where
  "option_readable o' \<longleftrightarrow> soft (fst o') \<and> soft (snd o') \<and> \<not> (fst o' = [] \<and> snd o' = [])"

definition prompt_readable :: "question_prompt \<Rightarrow> bool" where
  "prompt_readable p \<longleftrightarrow> soft (qp_header p) \<and> solid (qp_question p) \<and> list_all option_readable (qp_options p)"

definition question_readable :: "pending_question \<Rightarrow> bool" where
  "question_readable q \<longleftrightarrow> solid (vq_id q) \<and> solid (vq_sessionId q) \<and> trimmed_opt (vq_sourceSessionId q)
     \<and> list_all prompt_readable (vq_questions q) \<and> (case vq_tool q of Some (m, c) \<Rightarrow> soft m \<and> soft c | None \<Rightarrow> True)"

definition resolved_approval_readable :: "resolved_approval \<Rightarrow> bool" where
  "resolved_approval_readable a \<longleftrightarrow> solid (xa_id a) \<and> solid (xa_sessionId a) \<and> trimmed_opt (xa_taskRunId a) \<and> solid (xa_tool a)
     \<and> solid (xa_description a) \<and> soft (xa_resolvedAt a)"

definition resolved_question_readable :: "resolved_question \<Rightarrow> bool" where
  "resolved_question_readable q \<longleftrightarrow> solid (xq_id q) \<and> solid (xq_sessionId q) \<and> trimmed_opt (xq_sourceSessionId q)
     \<and> list_all prompt_readable (xq_questions q) \<and> soft (xq_resolvedAt q)"

definition error_readable :: "view_error \<Rightarrow> bool" where
  "error_readable x \<longleftrightarrow> solid (ve_id x) \<and> trimmed_opt (ve_sessionId x) \<and> solid (ve_message x)"

definition artifact_readable :: "view_artifact \<Rightarrow> bool" where
  "artifact_readable f \<longleftrightarrow> solid (vf_id f) \<and> solid (vf_toolId f) \<and> solid (vf_toolName f) \<and> solid (vf_filePath f) \<and> solid (vf_filename f)
     \<and> trimmed_opt (vf_taskRunId f) \<and> trimmed_opt (vf_mime f) \<and> trimmed_opt (vf_createdAt f) \<and> trimmed_opt (vf_updatedAt f)
     \<and> (case vf_kind f of Some s \<Rightarrow> isArtifactKind (JStr s) = Some s | None \<Rightarrow> True)
     \<and> (case vf_status f of Some s \<Rightarrow> isArtifactStatus (JStr s) = Some s | None \<Rightarrow> True)
     \<and> trimmed_opt (vf_authorAgentId f) \<and> trimmed_opt (vf_projectId f) \<and> trimmed_opt (vf_taskId f)
     \<and> trimmed_opt (vf_statusUpdatedBy f) \<and> trimmed_opt (vf_statusUpdatedAt f)"

lemma role_back [simp]: "read_role (JStr (role_text r)) = Some r"
  by (cases r) (simp_all add: read_role_def role_text_def)

lemma tool_status_back [simp]: "normalizeToolStatus (JStr (tool_status_text s)) = s"
  by (cases s) (simp_all add: normalizeToolStatus_def tool_status_text_def)

lemma task_status_back [simp]: "normalizeTaskStatus (JStr (task_status_text s)) = s"
  by (cases s) (simp_all add: normalizeTaskStatus_def task_status_text_def)

lemma session_status_back [simp]: "readStatus (JStr (session_status_text s)) = Some s"
  by (cases s) (simp_all add: readStatus_def session_status_text_def)

lemma read_array_null [simp]: "read_array JNull = None"
  by (simp add: read_array_def)

lemma read_nullable_null [simp]: "readNullableString JNull = None"
  by (simp add: readNullableString_def)

lemma message_back:
  assumes "message_readable m"
  shows "toCloudSessionMessage e (message_json m) = Some m"
  using assms by (cases "vm_attachments m") (simp_all add: message_readable_def toCloudSessionMessage_def message_json_def stored_simps)

lemma tokens_back [simp]: "normalizeSessionTokens (tokens_json k) = k"
  by (simp add: normalizeSessionTokens_def tokens_json_def stored_simps)

lemma read_opt_text: "trimmed_opt v \<Longrightarrow> readNullableString (coalesce (map_option JStr v) JNull) = v"
  by (cases v) (auto simp: coalesce_def readNullableString_def trimmed_opt_def)

lemma todo_back:
  assumes "todo_readable d"
  shows "normalizeTodoItem (todo_json d) = Some d"
  using assms by (cases "vd_id d") (auto simp: todo_readable_def normalizeTodoItem_def todo_json_def stored_simps trimmed_opt_def readNullableString_def)

lemma tool_back:
  assumes "tool_readable t" "tool_stable pn t"
  shows "normalizeToolCall pn (tool_call_json t) = Some (Some t)"
proof -
  have out: "tool_output_of pn (tool_call_json t) = Some (vt_output t)"
    using assms(2) by (cases "vt_output t") (simp_all add: tool_output_of_def tool_call_json_def asRecord_def stored_simps tool_stable_def)
  have att: "tool_attachments_of (tool_call_json t) = vt_attachments t"
  proof (cases "vt_attachments t")
    case None
    then show ?thesis
      by (cases "vt_output t") (simp_all add: tool_attachments_of_def tool_call_json_def stored_simps normalizeCloudToolAttachments_def)
  next
    case (Some as)
    then have "json_field (tool_call_json t) ''attachments'' = JArr (map attachment_json as)"
      by (cases "vt_output t") (simp_all add: tool_call_json_def stored_simps)
    then show ?thesis using Some assms(2) by (simp add: tool_attachments_of_def tool_stable_def Let_def)
  qed
  have fields: "json_field (tool_call_json t) ''id'' = JStr (vt_id t)" "json_field (tool_call_json t) ''name'' = JStr (vt_name t)"
    "json_field (tool_call_json t) ''input'' = JObj (vt_input t)" "json_field (tool_call_json t) ''status'' = JStr (tool_status_text (vt_status t))"
    "json_field (tool_call_json t) ''agent'' = json_opt (vt_agent t)"
    "json_field (tool_call_json t) ''sourceSessionId'' = json_opt (vt_sourceSessionId t)" "json_field (tool_call_json t) ''order'' = JNum (vt_order t)"
    by (simp_all add: tool_call_json_def stored_simps)
  show ?thesis using assms unfolding normalizeToolCall_def fields out att by (simp add: tool_readable_def tool_stable_def)
qed

lemma task_back:
  assumes "task_readable r" "list_all (tool_stable pn) (vr_toolCalls r)"
  shows "normalizeTaskRun pn (task_run_json r) = Some (Some r)"
proof -
  have tools: "read_list_in (normalizeToolCall pn) (JArr (map tool_call_json (vr_toolCalls r))) = Some (vr_toolCalls r)"
    using assms by (intro read_list_in_map tool_back) (auto simp: task_readable_def list_all_iff)
  have todos: "normalizeTodos (JArr (map todo_json (vr_todos r))) = vr_todos r"
    unfolding normalizeTodos_def using assms(1) by (intro read_list_map todo_back) (auto simp: task_readable_def list_all_iff)
  have reasoning: "read_array (json_field (task_run_json r) ''reasoning'') = vr_reasoning r"
    by (cases "vr_reasoning r") (simp_all add: task_run_json_def stored_simps)
  have fields: "json_field (task_run_json r) ''id'' = JStr (vr_id r)" "json_field (task_run_json r) ''title'' = JStr (vr_title r)"
    "json_field (task_run_json r) ''agent'' = json_opt (vr_agent r)" "json_field (task_run_json r) ''status'' = JStr (task_status_text (vr_status r))"
    "json_field (task_run_json r) ''sourceSessionId'' = json_opt (vr_sourceSessionId r)"
    "json_field (task_run_json r) ''parentSessionId'' = json_opt (vr_parentSessionId r)" "json_field (task_run_json r) ''content'' = JStr (vr_content r)"
    "json_field (task_run_json r) ''transcript'' = JArr (vr_transcript r)"
    "json_field (task_run_json r) ''toolCalls'' = JArr (map tool_call_json (vr_toolCalls r))"
    "json_field (task_run_json r) ''compactions'' = JArr (vr_compactions r)" "json_field (task_run_json r) ''todos'' = JArr (map todo_json (vr_todos r))"
    "json_field (task_run_json r) ''error'' = json_opt (vr_error r)" "json_field (task_run_json r) ''sessionCost'' = JNum (vr_sessionCost r)"
    "json_field (task_run_json r) ''sessionTokens'' = tokens_json (vr_sessionTokens r)" "json_field (task_run_json r) ''order'' = JNum (vr_order r)"
    "json_field (task_run_json r) ''startedAt'' = json_opt (vr_startedAt r)" "json_field (task_run_json r) ''finishedAt'' = json_opt (vr_finishedAt r)"
    by (simp_all add: task_run_json_def stored_simps)
  show ?thesis using assms(1) unfolding normalizeTaskRun_def fields reasoning tools todos Let_def
    by (simp add: task_readable_def coalesce_def)
qed

lemma approval_back:
  assumes "approval_readable a"
  shows "normalizePendingApproval (pending_approval_json a) = Some a"
  using assms by (simp add: approval_readable_def normalizePendingApproval_def pending_approval_json_def stored_simps asRecord_def)

lemma prompt_back:
  assumes "prompt_readable p"
  shows "normalizeQuestionPrompt (prompt_json p) = Some p"
proof -
  have "read_list question_option (JArr (map (\<lambda>(label, description). JObj [(''label'', JStr label), (''description'', JStr description)]) (qp_options p))) = qp_options p"
    using assms by (intro read_list_map) (auto simp: prompt_readable_def list_all_iff option_readable_def question_option_def stored_simps)
  then show ?thesis using assms by (simp add: prompt_readable_def normalizeQuestionPrompt_def prompt_json_def stored_simps)
qed

lemma prompts_back: "list_all prompt_readable ps \<Longrightarrow> read_list normalizeQuestionPrompt (JArr (map prompt_json ps)) = ps"
  by (intro read_list_map prompt_back) (simp add: list_all_iff)

lemma question_back:
  assumes "question_readable q"
  shows "normalizePendingQuestion (pending_question_json q) = Some q"
  using assms by (cases "vq_tool q")
    (auto simp: question_readable_def normalizePendingQuestion_def pending_question_json_def stored_simps asRecord_def prompts_back)

lemma resolved_approval_back:
  assumes "resolved_approval_readable a"
  shows "normalizeResolvedApproval (resolved_approval_json a) = Some a"
  using assms by (simp add: resolved_approval_readable_def normalizeResolvedApproval_def resolved_approval_json_def stored_simps)

lemma resolved_question_back:
  assumes "resolved_question_readable q"
  shows "normalizeResolvedQuestion (resolved_question_json q) = Some q"
  using assms by (simp add: resolved_question_readable_def normalizeResolvedQuestion_def resolved_question_json_def stored_simps prompts_back)

lemma error_back:
  assumes "error_readable x"
  shows "normalizeSessionError (error_json x) = Some x"
  using assms by (simp add: error_readable_def normalizeSessionError_def error_json_def stored_simps)

lemma artifact_back:
  assumes "artifact_readable f"
  shows "normalizeSessionArtifact (artifact_json f) d = Some f"
proof -
  have size: "map_of ((case s of Some n \<Rightarrow> [(''size'', JNum n)] | None \<Rightarrow> []) @ kvs) k' = (if k' = ''size'' \<and> s \<noteq> None then Some (JNum (the s)) else map_of kvs k')" for s kvs k'
    by (simp split: option.split)
  have opt: "readNullableString (if s \<noteq> None then JStr (the s) else JNull) = s" if "trimmed_opt s" for s
    using that by (cases s) (auto simp: trimmed_opt_def readNullableString_def)
  have fields: "json_field (artifact_json f) ''artifactId'' = JNull" "json_field (artifact_json f) ''cloudArtifactId'' = JStr (vf_id f)"
    "json_field (artifact_json f) ''filename'' = JStr (vf_filename f)" "json_field (artifact_json f) ''filePath'' = JStr (vf_filePath f)"
    "json_field (artifact_json f) ''toolId'' = JStr (vf_toolId f)" "json_field (artifact_json f) ''toolName'' = JStr (vf_toolName f)"
    "json_field (artifact_json f) ''order'' = JNum (vf_order f)" "json_field (artifact_json f) ''taskRunId'' = json_opt (vf_taskRunId f)"
    "json_field (artifact_json f) ''authorAgentId'' = json_opt (vf_authorAgentId f)" "json_field (artifact_json f) ''projectId'' = json_opt (vf_projectId f)"
    "json_field (artifact_json f) ''taskId'' = json_opt (vf_taskId f)" "json_field (artifact_json f) ''statusUpdatedBy'' = json_opt (vf_statusUpdatedBy f)"
    "json_field (artifact_json f) ''statusUpdatedAt'' = json_opt (vf_statusUpdatedAt f)" "json_field (artifact_json f) ''contentType'' = JNull"
    "json_field (artifact_json f) ''mime'' = (if vf_mime f \<noteq> None then JStr (the (vf_mime f)) else JNull)"
    "json_field (artifact_json f) ''size'' = (if vf_size f \<noteq> None then JNum (the (vf_size f)) else JNull)"
    "json_field (artifact_json f) ''createdAt'' = (if vf_createdAt f \<noteq> None then JStr (the (vf_createdAt f)) else JNull)"
    "json_field (artifact_json f) ''updatedAt'' = (if vf_updatedAt f \<noteq> None then JStr (the (vf_updatedAt f)) else JNull)"
    "json_field (artifact_json f) ''kind'' = (if vf_kind f \<noteq> None then JStr (the (vf_kind f)) else JNull)"
    "json_field (artifact_json f) ''status'' = (if vf_status f \<noteq> None then JStr (the (vf_status f)) else JNull)"
    by (simp_all add: artifact_json_def field_obj map_of_opt_text map_of_opt_last size del: map_of_append, simp_all add: coalesce_def)
  have null: "isArtifactKind JNull = None" "isArtifactStatus JNull = None" by (simp_all add: isArtifactKind_def isArtifactStatus_def)
  have kind: "isArtifactKind (if vf_kind f \<noteq> None then JStr (the (vf_kind f)) else JNull) = vf_kind f"
    "isArtifactStatus (if vf_status f \<noteq> None then JStr (the (vf_status f)) else JNull) = vf_status f"
    using assms null by (cases "vf_kind f"; cases "vf_status f"; simp add: artifact_readable_def)+
  have sz: "(case (if vf_size f \<noteq> None then JNum (the (vf_size f)) else JNull) of JNum t \<Rightarrow> Some t | _ \<Rightarrow> None) = vf_size f"
    by (cases "vf_size f") simp_all
  have opts: "readNullableString (if vf_mime f \<noteq> None then JStr (the (vf_mime f)) else JNull) = vf_mime f"
    "readNullableString (if vf_createdAt f \<noteq> None then JStr (the (vf_createdAt f)) else JNull) = vf_createdAt f"
    "readNullableString (if vf_updatedAt f \<noteq> None then JStr (the (vf_updatedAt f)) else JNull) = vf_updatedAt f"
    using assms by (intro opt; simp add: artifact_readable_def)+
  have "readStringOr JNull d' = d'" "first_some s None = s" for d' and s :: "string option"
    by (simp_all add: readStringOr_def first_some_def split: option.split)
  then show ?thesis using assms unfolding normalizeSessionArtifact_def fields kind sz opts Let_def
    by (simp add: artifact_readable_def)
qed

lemma artifacts_back: "list_all artifact_readable fs \<Longrightarrow> read_artifacts n (map artifact_json fs) = fs"
  by (induction fs arbitrary: n) (simp_all add: artifact_back)

definition origin_readable :: "projection_origin \<Rightarrow> bool" where
  "origin_readable g \<longleftrightarrow> solid (og_sourceFingerprint g) \<and> solid (og_importedAt g) \<and> list_all (\<lambda>p. fst p \<noteq> ''__proto__'') (og_itemCounts g)"

lemma origin_back:
  assumes "origin_readable g"
  shows "normalizeOrigin (origin_json g) = Some g"
proof -
  have "List.map_filter item_count (map (\<lambda>(k, n). (k, JNum n)) cs) = cs" if "list_all (\<lambda>p. fst p \<noteq> ''__proto__'') cs" for cs
    using that by (induction cs) (auto simp: item_count_def List.map_filter_simps)
  then show ?thesis using assms by (simp add: origin_readable_def normalizeOrigin_def origin_json_def stored_simps asRecord_def)
qed

definition source_readable :: "project_source \<Rightarrow> bool" where
  "source_readable p = (case p of
       GitSource url ref sub cred \<Rightarrow> trimmed_opt (Some url) \<and> trimmed_opt ref \<and> trimmed_opt sub \<and> trimmed_opt cred
     | SnapshotSource sid okey files bytes title \<Rightarrow>
         trimmed_opt (Some sid) \<and> trimmed_opt (Some okey) \<and> readNumber files = files \<and> readNumber bytes = bytes \<and> trimmed_opt title)"

lemma source_text: "trimmed_opt (Some s) \<Longrightarrow> readString (JStr s) = Some s" "trimmed_opt v \<Longrightarrow> readString (json_opt v) = v"
  by (auto simp: trimmed_opt_def readString_def json_opt_def split: option.split)

lemma source_back:
  assumes "source_readable p"
  shows "normalizeCloudProjectSource (project_source_json p) = Some p"
  using assms by (cases p) (simp_all add: source_readable_def project_source_json_def normalizeCloudProjectSource_def stored_simps source_text)

text \<open>Everything of a view that the reducer guarantees; the texts of messages are left out.\<close>

definition view_readable :: "projection_view \<Rightarrow> bool" where
  "view_readable v \<longleftrightarrow> solid (vw_sessionId v) \<and> solid (vw_title v) \<and> solid (vw_profileName v) \<and> solid (vw_updatedAt v)
     \<and> list_all (\<lambda>m. solid (vm_id m) \<and> solid (vm_createdAt m)) (vw_messages v) \<and> list_all tool_readable (vw_toolCalls v)
     \<and> list_all task_readable (vw_taskRuns v) \<and> list_all approval_readable (vw_pendingApprovals v)
     \<and> list_all question_readable (vw_pendingQuestions v) \<and> list_all resolved_approval_readable (vw_resolvedApprovals v)
     \<and> list_all resolved_question_readable (vw_resolvedQuestions v) \<and> list_all artifact_readable (vw_artifacts v)
     \<and> list_all todo_readable (vw_todos v) \<and> list_all error_readable (vw_errors v)
     \<and> (case vw_origin v of Some g \<Rightarrow> origin_readable g | None \<Rightarrow> True)
     \<and> (case vw_projectSource v of Some p \<Rightarrow> source_readable p | None \<Rightarrow> True)"

definition view_stable :: "projection_env \<Rightarrow> projection_view \<Rightarrow> bool" where
  "view_stable pn v \<longleftrightarrow> list_all (\<lambda>m. soft (vm_content m)) (vw_messages v) \<and> list_all (tool_stable pn) (vw_toolCalls v)
     \<and> list_all (\<lambda>r. list_all (tool_stable pn) (vr_toolCalls r)) (vw_taskRuns v)"

lemma view_back:
  assumes "view_readable v" "view_stable pn v"
  shows "normalizeCloudSessionProjectionView pn e (view_json v) session = Some v"
proof -
  note r = assms [unfolded view_readable_def view_stable_def list_all_iff]
  have lists: "read_list (toCloudSessionMessage e) (JArr (map message_json (vw_messages v))) = vw_messages v"
    "read_list_in (normalizeToolCall pn) (JArr (map tool_call_json (vw_toolCalls v))) = Some (vw_toolCalls v)"
    "read_list_in (normalizeTaskRun pn) (JArr (map task_run_json (vw_taskRuns v))) = Some (vw_taskRuns v)"
    "read_list normalizePendingApproval (JArr (map pending_approval_json (vw_pendingApprovals v))) = vw_pendingApprovals v"
    "read_list normalizePendingQuestion (JArr (map pending_question_json (vw_pendingQuestions v))) = vw_pendingQuestions v"
    "read_list normalizeResolvedApproval (JArr (map resolved_approval_json (vw_resolvedApprovals v))) = vw_resolvedApprovals v"
    "read_list normalizeResolvedQuestion (JArr (map resolved_question_json (vw_resolvedQuestions v))) = vw_resolvedQuestions v"
    "read_list normalizeSessionError (JArr (map error_json (vw_errors v))) = vw_errors v"
    "normalizeTodos (JArr (map todo_json (vw_todos v))) = vw_todos v"
    unfolding normalizeTodos_def using r
    by (intro read_list_map read_list_in_map message_back tool_back task_back approval_back question_back resolved_approval_back
        resolved_question_back error_back todo_back; simp add: message_readable_def list_all_iff)+
  have artifacts: "read_artifacts 0 (map artifact_json (vw_artifacts v)) = vw_artifacts v"
    using assms(1) by (intro artifacts_back) (simp add: view_readable_def)
  have last: "(case json_opt (vw_lastError v) of JStr s \<Rightarrow> Some s | _ \<Rightarrow> None) = vw_lastError v"
    by (cases "vw_lastError v") (simp_all add: json_opt_def)
  have null: "normalizeOrigin JNull = None" "normalizeCloudProjectSource JNull = None"
    by (simp_all add: normalizeOrigin_def normalizeCloudProjectSource_def json_field_def)
  have origin: "normalizeOrigin (case vw_origin v of Some g \<Rightarrow> origin_json g | None \<Rightarrow> JNull) = vw_origin v"
    using r null by (auto simp: origin_back split: option.split)
  have source: "normalizeCloudProjectSource (case vw_projectSource v of Some p \<Rightarrow> project_source_json p | None \<Rightarrow> JNull) = vw_projectSource v"
    using r null by (auto simp: source_back split: option.split)
  have "solid (vw_sessionId v)" "solid (vw_title v)" "solid (vw_profileName v)" "solid (vw_updatedAt v)" using r by simp_all
  then show ?thesis
    unfolding normalizeCloudSessionProjectionView_def view_json_def field_obj
    by (simp add: lists artifacts last origin source coalesce_def)
qed

section \<open>The reducer makes readable views\<close>

lemma upsert_all:
  assumes "list_all P xs" "P x" "\<And>old. P old \<Longrightarrow> P (merge old x)"
  shows "list_all P (upsertById ident merge xs x)"
  using assms by (induction xs) auto

lemma remove_all: "list_all P xs \<Longrightarrow> list_all P (removeById ident xs i)"
  by (auto simp: removeById_def list_all_iff)

lemma map_filter_all: "(\<And>x y. f x = Some y \<Longrightarrow> P y) \<Longrightarrow> list_all P (List.map_filter f xs)"
  by (induction xs) (auto simp: List.map_filter_simps split: option.split)

lemma read_list_all: "(\<And>x y. f x = Some y \<Longrightarrow> P y) \<Longrightarrow> list_all P (read_list f v)"
  unfolding read_list_def by (rule map_filter_all)

lemma find_all: "list_all P xs \<Longrightarrow> find_by_id ident xs i = Some x \<Longrightarrow> P x"
  using find_by_id_member by (fastforce simp: list_all_iff)

lemma solid_nonempty_read: "readStringOr v [] \<noteq> [] \<Longrightarrow> solid (readStringOr v [])"
  using soft_read [of v] by (simp add: soft_def solid_def)

lemma solid_payload_id: "solid d \<Longrightarrow> solid (eventPayloadId p ks d)"
  by (auto simp: eventPayloadId_def find_Some_iff intro: solid_nonempty_read split: option.split)

lemma solid_local_id [simp]: "solid (event_local_id session kind ev)"
  by (rule solid_member [of "CHR '':''"]) (simp_all add: event_local_id_def is_js_space_def)

lemma solid_iso [simp]: "solid (iso_text t)"
proof (rule solid_member [of "CHR ''T''"])
  show "CHR ''T'' \<in> set (iso_text t)"
    unfolding iso_text_def Let_def by (simp only: set_append list.set(2) Un_iff insert_iff simp_thms)
qed (simp add: is_js_space_def)

lemma solid_literals [simp]: "solid ''Task''" "solid ''tool''" "solid ''permission''" "solid ''Permission requested''" "solid ''Permission resolved''"
  "solid ''pending''" "solid ''medium''" "solid ''cloud-artifact''" "solid ''cloud.artifact''" "solid ''artifact''" "solid ''Runtime command failed.''"
  "solid ''New session''"
  by code_simp+

lemma solid_fallback_id [simp]: "solid (s @ CHR '':'' # n)"
  by (rule solid_member [of "CHR '':''"]) (simp_all add: is_js_space_def)

lemma todo_read: "normalizeTodoItem v = Some d \<Longrightarrow> todo_readable d"
  by (auto simp: normalizeTodoItem_def Let_def todo_readable_def trimmed_read solid_read intro: solid_nonempty_read split: if_splits)

lemma todos_read: "list_all todo_readable (normalizeTodos v)"
  unfolding normalizeTodos_def by (rule read_list_all) (rule todo_read)

lemma option_read: "question_option v = Some o' \<Longrightarrow> option_readable o'"
  by (auto simp: question_option_def Let_def option_readable_def soft_read split: if_splits)

lemma prompt_read: "normalizeQuestionPrompt v = Some p \<Longrightarrow> prompt_readable p"
proof -
  assume p: "normalizeQuestionPrompt v = Some p"
  have "list_all option_readable (read_list question_option w)" for w by (rule read_list_all) (rule option_read)
  then show ?thesis using p
    by (auto simp: normalizeQuestionPrompt_def Let_def prompt_readable_def soft_read intro: solid_nonempty_read split: if_splits)
qed

lemma renormalized_option:
  "(if l = [] \<and> d = [] then None else Some (l, d)) = Some o' \<Longrightarrow> soft l \<Longrightarrow> soft d \<Longrightarrow> option_readable o'"
  by (auto simp: option_readable_def split: if_splits)

lemma renormalize_read: "renormalize_prompt p = Some q \<Longrightarrow> prompt_readable q"
proof -
  assume q: "renormalize_prompt p = Some q"
  let ?f = "\<lambda>(label, description).
     let l = readStringOr (JStr label) []; d = readStringOr (JStr description) [] in if l = [] \<and> d = [] then None else Some (l, d)"
  have "?f o' = Some o'' \<Longrightarrow> option_readable o''" for o' o''
    unfolding Let_def by (cases o', simp only: prod.case) (erule renormalized_option, rule soft_read, rule soft_read)
  then have "list_all option_readable (List.map_filter ?f os)" for os by (rule map_filter_all)
  note options = this
  have some: "(if c then None else Some a) = Some b \<Longrightarrow> \<not> c \<and> b = a" for c and a b :: question_prompt by (cases c) simp_all
  have "js_trim (qp_question p) \<noteq> []"
    and eq: "q = p\<lparr> qp_header := readStringOr (JStr (qp_header p)) [], qp_options := List.map_filter ?f (qp_options p) \<rparr>"
    using some [OF q [unfolded renormalize_prompt_def]] by blast+
  moreover have "prompt_readable (p\<lparr> qp_header := h, qp_options := os \<rparr>)" if "soft h" "solid (qp_question p)" "list_all option_readable os" for h os
    using that by (simp add: prompt_readable_def)
  ultimately show ?thesis using options [of "qp_options p"] soft_read unfolding solid_def eq by blast
qed

lemma task_read: "task_readable (taskRunFromPayload session payload ev)"
  by (simp add: taskRunFromPayload_def task_readable_def solid_payload_id solid_read trimmed_read soft_read)

lemma tool_read:
  assumes "toolCallFromPayload pn session payload ev = Some t"
  shows "tool_readable t"
  using assms by (auto simp: toolCallFromPayload_def tool_readable_def solid_payload_id solid_read trimmed_read split: option.splits)

lemma soft_inner_read: "soft s \<Longrightarrow> soft (readStringOr v s)"
  by (cases v) (simp_all add: readStringOr_def soft_def)

lemma continued_read:
  assumes "tool_readable t" "tool_readable old"
  shows "tool_readable (continued_tool_call payload t old)"
proof -
  have "soft x \<Longrightarrow> solid d \<Longrightarrow> solid (or_else (Some x) d)" for x d
    by (auto simp: soft_def solid_def or_else_def or_null_def)
  then show ?thesis using assms by (simp add: continued_tool_call_def tool_readable_def soft_inner_read)
qed

lemma artifact_read:
  assumes "normalizeSessionArtifact v d = Some f"
  shows "artifact_readable f"
proof -
  have path: "solid (cloudArtifactFilePath i n)" for i n
    by (rule solid_member [of "CHR ''c''"]) (simp_all add: cloudArtifactFilePath_def is_js_space_def)
  have i: "solid (readStringOr a (readStringOr b (readStringOr c [])))" if "readStringOr a (readStringOr b (readStringOr c [])) \<noteq> []" for a b c
    using that soft_inner_read [OF soft_inner_read [OF soft_inner_read [OF soft_Nil]], of a b c] by (simp add: soft_def solid_def)
  have some: "trimmed_opt (first_some (readNullableString a) (readNullableString b))" for a b
    using trimmed_read [of a] trimmed_read [of b] by (cases "readNullableString a") (simp_all add: first_some_def)
  have kind: "case isArtifactKind w of Some s \<Rightarrow> isArtifactKind (JStr s) = Some s | None \<Rightarrow> True"
    "case isArtifactStatus w of Some s \<Rightarrow> isArtifactStatus (JStr s) = Some s | None \<Rightarrow> True" for w
    by (cases w; simp add: isArtifactKind_def isArtifactStatus_def)+
  let ?i = "readStringOr (json_field v ''artifactId'') (readStringOr (json_field v ''cloudArtifactId'') (readStringOr (json_field v ''id'') []))"
  have ne: "?i \<noteq> []" using assms by (auto simp: normalizeSessionArtifact_def Let_def)
  show ?thesis using assms unfolding normalizeSessionArtifact_def Let_def if_not_P [OF ne] option.inject
    by (elim step_elim some_elim) (simp_all add: artifact_readable_def i [OF ne] some kind path trimmed_read solid_read)
qed

lemma origin_read:
  assumes "normalizeOrigin v = Some g"
  shows "origin_readable g"
proof -
  have "list_all (\<lambda>p. fst p \<noteq> ''__proto__'') (List.map_filter item_count kvs)" for kvs
    by (rule map_filter_all) (auto simp: item_count_def split: json.splits if_splits)
  then show ?thesis using assms
    by (auto simp: normalizeOrigin_def Let_def origin_readable_def intro: solid_nonempty_read split: if_splits)
qed

lemma source_read:
  assumes "normalizeCloudProjectSource v = Some p"
  shows "source_readable p"
proof -
  have "trimmed_opt (readString w)" for w by (auto simp: readString_def trimmed_opt_def split: json.split)
  moreover have "trimmed_opt (Some s)" if "readString w = Some s" for w s using that by (auto simp: readString_def trimmed_opt_def split: json.splits if_splits)
  moreover have "readNumber (readNumber w) = readNumber w" for w by (auto simp: readNumber_def split: json.split)
  ultimately show ?thesis using assms
    by (auto simp: normalizeCloudProjectSource_def source_readable_def split: if_splits option.splits)
qed

definition session_readable :: "session_record \<Rightarrow> bool" where
  "session_readable session \<longleftrightarrow> trimmed_opt (Some (sr_sessionId session)) \<and> solid (sr_profileName session)
     \<and> (case sr_title session of Some t \<Rightarrow> soft t | None \<Rightarrow> True)"

lemma trimmed_solid: "trimmed_opt (Some s) \<Longrightarrow> solid s"
  by (simp add: trimmed_opt_def solid_def)

lemma created_readable:
  assumes "session_readable session"
  shows "view_readable (createCloudSessionProjectionView session)"
proof -
  have "solid t" if "soft t" "t \<noteq> []" for t using that by (simp add: soft_def solid_def)
  then have "solid (session_title_of session)" using assms
    by (auto simp: session_readable_def session_title_of_def or_else_def or_null_def split: option.splits)
  then show ?thesis using assms
    by (simp add: createCloudSessionProjectionView_def view_readable_def session_readable_def trimmed_solid)
qed

lemma task_tool_readable:
  assumes "view_readable v" "tool_readable t"
  shows "view_readable (withTaskRunToolCall v session i t payload ev)"
proof -
  define run where "run = (case find_by_id vr_id (vw_taskRuns v) i of Some existing \<Rightarrow> existing
    | None \<Rightarrow> (taskRunFromPayload session (running_task_payload payload i) ev)\<lparr> vr_toolCalls := [] \<rparr>)"
  have "list_all task_readable (vw_taskRuns v)" using assms(1) by (simp add: view_readable_def)
  then have "task_readable run" using task_read [of session "running_task_payload payload i" ev]
    by (auto simp: run_def task_readable_def dest: find_all split: option.split)
  then have "task_readable (run\<lparr> vr_status := st, vr_toolCalls := upsertById vt_id merge_tool_call (vr_toolCalls run) t \<rparr>)" for st
    using assms(2) by (simp add: task_readable_def upsert_all merge_tool_call_def tool_readable_def)
  then show ?thesis using assms(1)
    by (simp add: withTaskRunToolCall_def Let_def run_def [symmetric] view_readable_def upsert_all merge_task_run_def task_readable_def)
qed

lemma tool_step_readable:
  assumes "reduce_tool_call pn session v ev = Some v'" "view_readable v"
  shows "view_readable v'"
proof -
  let ?p = "ev_payload ev"
  from assms(1) obtain t where t: "toolCallFromPayload pn session ?p ev = Some t" by (auto simp: reduce_tool_call_def Let_def split: option.splits)
  define mid where "mid = v\<lparr> vw_status := SRunning, vw_isGenerating := True, vw_lastError := None, vw_updatedAt := event_time ev \<rparr>"
  have mid: "view_readable mid" using assms(2) by (simp add: mid_def view_readable_def)
  have tools: "list_all tool_readable (vw_toolCalls v)" "list_all task_readable (vw_taskRuns v)" using assms(2) by (simp_all add: view_readable_def)
  show ?thesis
  proof (cases "readNullableString (json_field ?p ''taskRunId'')")
    case None
    define call where "call = (case find_by_id vt_id (vw_toolCalls v) (vt_id t) of Some old \<Rightarrow> continued_tool_call ?p t old | None \<Rightarrow> t)"
    have "tool_readable call" using tool_read [OF t] find_all [OF tools(1)] by (auto simp: call_def intro: continued_read split: option.split)
    moreover have "v' = mid\<lparr> vw_toolCalls := upsertById vt_id merge_tool_call (vw_toolCalls mid) call \<rparr>"
      using assms(1) None t by (simp add: reduce_tool_call_def Let_def call_def mid_def)
    ultimately show ?thesis using mid by (simp add: view_readable_def upsert_all merge_tool_call_def tool_readable_def)
  next
    case (Some i)
    define old where "old = (case find_by_id vr_id (vw_taskRuns v) i of Some run \<Rightarrow> find_by_id vt_id (vr_toolCalls run) (vt_id t) | None \<Rightarrow> None)"
    have "tool_readable x" if "old = Some x" for x
      using that find_all [OF tools(2)] find_all by (fastforce simp: old_def task_readable_def split: option.splits)
    then have "tool_readable (case old of Some x \<Rightarrow> continued_tool_call ?p t x | None \<Rightarrow> t)"
      using tool_read [OF t] by (auto intro: continued_read split: option.split)
    moreover have "v' = withTaskRunToolCall mid session i (case old of Some x \<Rightarrow> continued_tool_call ?p t x | None \<Rightarrow> t) ?p ev"
      using assms(1) Some t by (simp add: reduce_tool_call_def Let_def old_def mid_def)
    ultimately show ?thesis using task_tool_readable [OF mid] by simp
  qed
qed

lemma message_step_readable:
  assumes "list_all (\<lambda>m. solid (vm_id m) \<and> solid (vm_createdAt m)) ms" "solid (vm_id m)" "solid (vm_createdAt m)"
  shows "list_all (\<lambda>m. solid (vm_id m) \<and> solid (vm_createdAt m)) (upsertById vm_id merge_message ms m)"
  using assms by (intro upsert_all) (simp_all add: merge_message_def)

lemma readable_step:
  assumes "reduceCloudSessionProjectionEvent pn session v ev = Some v'" "view_readable v" "session_readable session"
  shows "view_readable v'"
  using assms(1)
proof (cases rule: reduce_cases)
  case created
  then show ?thesis using assms(2) by (simp add: view_readable_def settle_def solid_read)
next
  case imported
  then show ?thesis using assms(2) origin_read by (simp add: view_readable_def reduce_imported_def settle_def Let_def split: option.split)
next
  case source
  then show ?thesis using assms(2) source_read by (simp add: view_readable_def split: option.split)
next
  case prompt
  then show ?thesis using assms(2)
    by (simp add: view_readable_def reduce_prompt_def addMessage_def Let_def message_step_readable solid_read)
next
  case assistant
  define existing where "existing = (if json_field (ev_payload ev) ''mode'' = JStr ''append''
    then find_by_id vm_id (vw_messages v) (readStringOr (json_field (ev_payload ev) ''messageId'') (sr_sessionId session @ CHR '':'' # show_int (ev_sequence ev) @ '':assistant''))
    else None)"
  have "solid (vm_createdAt m)" if "existing = Some m" for m
    using that assms(2) find_all by (fastforce simp: existing_def view_readable_def split: if_splits)
  then have "solid (coalesce (map_option vm_createdAt existing) (event_time ev))" by (cases existing) (simp_all add: coalesce_def)
  then show ?thesis using assms(2) assistant(1)
    by (simp add: view_readable_def reduce_assistant_def addMessage_def Let_def message_step_readable solid_read existing_def [symmetric])
next
  case tool
  then show ?thesis using tool_step_readable assms(2) by blast
next
  case task
  then show ?thesis using assms(2) task_read by (simp add: view_readable_def upsert_all merge_task_run_def task_readable_def)
next
  case permission
  have "approval_readable (pendingApprovalFromPayload session (ev_payload ev) ev)" using assms(3)
    by (simp add: pendingApprovalFromPayload_def approval_readable_def session_readable_def trimmed_solid trimmed_read solid_read solid_payload_id)
  then show ?thesis using assms(2) permission
    by (simp add: view_readable_def settle_def upsert_all merge_pending_approval_def approval_readable_def)
next
  case permission_resolved
  let ?i = "eventPayloadId (ev_payload ev) [''permissionId'', ''id'', ''requestId'', ''requestID''] []"
  have i: "solid ?i" if "?i \<noteq> []" using that by (auto simp: eventPayloadId_def find_Some_iff intro: solid_nonempty_read split: option.splits)
  have "resolved_approval_readable (resolved_approval_of session v ev ?i)" if "?i \<noteq> []" using i [OF that] assms(3)
    by (simp add: resolved_approval_readable_def resolved_approval_of_def Let_def session_readable_def trimmed_solid trimmed_read solid_read solid_soft)
  then show ?thesis using assms(2) permission_resolved
    by (auto simp: view_readable_def reduce_permission_resolved_def Let_def remove_all upsert_all merge_resolved_approval_def resolved_approval_readable_def)
next
  case question
  have "list_all prompt_readable (read_list normalizeQuestionPrompt w)" for w by (rule read_list_all) (rule prompt_read)
  then have "question_readable (pendingQuestionFromPayload session (ev_payload ev) ev)" using assms(3)
    by (simp add: pendingQuestionFromPayload_def Let_def question_readable_def session_readable_def trimmed_solid trimmed_read solid_payload_id
        soft_inner_read soft_read)
  moreover have "question_readable (merge_pending_question old new)" if "question_readable old" "question_readable new" for old new
    using that by (cases "vq_tool new") (auto simp: merge_pending_question_def question_readable_def first_some_def)
  ultimately have "list_all question_readable (upsertById vq_id merge_pending_question (vw_pendingQuestions v) (pendingQuestionFromPayload session (ev_payload ev) ev))"
    using assms(2) by (intro upsert_all) (simp_all add: view_readable_def)
  then show ?thesis using assms(2) question by (simp add: view_readable_def settle_def)
next
  case question_resolved
  let ?i = "eventPayloadId (ev_payload ev) [''requestId'', ''requestID'', ''id''] []"
  have i: "solid ?i" if "?i \<noteq> []" using that by (auto simp: eventPayloadId_def find_Some_iff intro: solid_nonempty_read split: option.splits)
  have "list_all prompt_readable (List.map_filter renormalize_prompt ps)" for ps by (rule map_filter_all) (rule renormalize_read)
  then have "resolved_question_readable (resolved_question_of session v ev ?i)" if "?i \<noteq> []" using i [OF that] assms(3)
    by (simp add: resolved_question_readable_def resolved_question_of_def Let_def session_readable_def trimmed_solid trimmed_read solid_soft split: option.split)
  then show ?thesis using assms(2) question_resolved
    by (auto simp: view_readable_def reduce_question_resolved_def Let_def remove_all upsert_all merge_resolved_question_def resolved_question_readable_def)
next
  case artifact
  then show ?thesis using assms(2) artifact_read
    by (auto simp: view_readable_def reduce_artifact_def upsert_all merge_artifact_def artifact_readable_def split: option.split)
next
  case error
  have "error_readable \<lparr> ve_id = eventPayloadId (ev_payload ev) ks (event_local_id session ''error'' ev), ve_sessionId = Some (sr_sessionId session),
      ve_message = readStringOr w ''Runtime command failed.'', ve_order = n \<rparr>" for ks w n
    using assms(3) by (simp add: error_readable_def solid_payload_id solid_read session_readable_def)
  then show ?thesis using assms(2) error
    by (simp add: view_readable_def reduce_error_def settle_def Let_def upsert_all merge_error_def error_readable_def)
qed (use assms(2) in \<open>simp_all add: view_readable_def reduce_cost_def reduce_status_def settle_def Let_def todos_read\<close>)

text \<open>C36: Storing a view and reading it back gives the same view, for every view the reducer can make, whatever the log. The
  conditions are that the session id is trimmed, the profile and title are not blank, no message text is blank without being empty,
  and the sanitizer leaves the stored tool payloads as they are.\<close>

theorem stored_view_reads_back:
  assumes "reduce_events pn session (createCloudSessionProjectionView session) events = Some v" "session_readable session" "view_stable pn v"
  shows "normalizeCloudSessionProjectionView pn e (view_json v) session' = Some v"
proof (rule view_back [OF _ assms(3)])
  show "view_readable v"
    using assms(1) created_readable [OF assms(2)] by (rule reduce_events_invariant) (rule readable_step [OF _ _ assms(2)])
qed

definition stored_log :: "session_event list" where
  "stored_log = [view_event 1 ''prompt.submitted'' [(''text'', JStr ''hi'')], view_event 2 ''permission.requested'' [(''tool'', JStr ''bash'')]]"

theorem stored_view_reads_back_witness:
  "normalizeCloudSessionProjectionView sample_projection_env sample_env
     (view_json (the (reduce_events sample_projection_env view_session (createCloudSessionProjectionView view_session) stored_log))) view_session
   = reduce_events sample_projection_env view_session (createCloudSessionProjectionView view_session) stored_log"
proof -
  let ?v0 = "createCloudSessionProjectionView view_session"
  have t: "ev_type (view_event n ty p) = ty" "ev_payload (view_event n ty p) = JObj p" for n ty p by (simp_all add: view_event_def)
  have ok: "session_readable view_session" "soft ''hi''" by code_simp+
  obtain v where v: "reduce_events sample_projection_env view_session ?v0 stored_log = Some v"
    and lists: "list_all (\<lambda>m. vm_content m = ''hi'') (vw_messages v)" "vw_toolCalls v = []" "vw_taskRuns v = []"
    using ok(2) by (simp add: stored_log_def reduceCloudSessionProjectionEvent_def t Let_def reduce_prompt_def addMessage_def settle_def
        createCloudSessionProjectionView_def json_field_def coalesce_def)
  have "view_stable sample_projection_env v" using lists ok(2) by (auto simp: view_stable_def list_all_iff)
  from stored_view_reads_back [OF v ok(1) this] v show ?thesis by simp
qed

end
