(* ===== verification/Projection_Service.thy ===== *)
theory Projection_Service
  imports Projection_Storage Session_Safety
begin

text \<open>
  The projection service (\<open>cloud-server/src/session-projection-service.ts\<close>): what it does to an event before it is
  stored, the callback that folds the event into the view, its cache of views with least-recently-used eviction, and the
  repair that rebuilds a projection from the event log of the store in batches. The append itself is
  \<open>appendProjectedSessionEvent\<close> of the store, which takes the callback as an argument.
\<close>


section \<open>Events at the boundary\<close>

definition CLOUD_PROJECTED_SESSION_EVENT_TYPES :: "string list" where
  "CLOUD_PROJECTED_SESSION_EVENT_TYPES = [''session.created'', ''session.imported'', ''session.project_source.bound'', ''prompt.submitted'',
     ''assistant.message'', ''tool.call'', ''task.run'', ''permission.requested'', ''permission.resolved'', ''question.asked'',
     ''question.resolved'', ''todos.updated'', ''cost.updated'', ''artifact.created'', ''artifact.updated'', ''session.status'', ''session.idle'',
     ''session.aborted'', ''runtime.error'']"

definition isCloudProjectedSessionEventType :: "string \<Rightarrow> bool" where
  "isCloudProjectedSessionEventType t = (t \<in> set CLOUD_PROJECTED_SESSION_EVENT_TYPES)"

text \<open>A tool payload without its attachments, of which at most 256 properties are looked at.\<close>

fun without_attachments :: "(string \<times> json) list \<Rightarrow> nat \<Rightarrow> (string \<times> json) list \<Rightarrow> (string \<times> json) list" where
  "without_attachments [] examined out = out"
| "without_attachments ((k, v) # rest) examined out =
     (if examined + 1 > 256 then map_set ''truncated'' (JStr RUNTIME_EVENT_TRUNCATED) out
      else if k \<in> set UNSAFE_OBJECT_KEYS \<or> k = ''attachments'' then without_attachments rest (examined + 1) out
      else without_attachments rest (examined + 1) (map_set k v out))"

definition sanitizeProjectedEventPayload :: "projection_env \<Rightarrow> string \<Rightarrow> (string \<times> json) list \<Rightarrow> (string \<times> json) list option" where
  "sanitizeProjectedEventPayload pn t v =
     (if t \<noteq> ''tool.call''
      then sanitizeRuntimeEventRecord (runtime_context pn None (t = ''permission.requested'' \<or> t = ''runtime.error'')) (JObj v)
      else case sanitizeRuntimeEventRecord (runtime_context pn None True) (JObj (without_attachments v 0 [])) of
        None \<Rightarrow> None
      | Some payload \<Rightarrow>
          (let attachments = normalizeCloudToolAttachments (json_field (JObj v) ''attachments'')
           in Some (if attachments = [] then payload else map_set ''attachments'' (JArr (map attachment_json attachments)) payload)))"

definition workspaceEntityForProjectedEvent :: "string \<Rightarrow> string \<Rightarrow> json \<Rightarrow> session_event \<Rightarrow> workspace_descriptor" where
  "workspaceEntityForProjectedEvent sessionId t payload event =
     \<lparr> de_eventId = (if starts_with (ev_eventId event) (sessionId @ '':'') then ev_eventId event else sessionId @ CHR '':'' # ev_eventId event),
       de_entityType = (if t = ''artifact.created'' \<or> t = ''artifact.updated'' then ''artifact'' else ''session''),
       de_entityId = (if t = ''artifact.created'' \<or> t = ''artifact.updated''
                      then eventPayloadId payload [''artifactId'', ''cloudArtifactId'', ''id''] sessionId else sessionId),
       de_operation = (if t = ''artifact.created'' then ''create'' else if t = ''artifact.updated'' then ''update'' else workspaceOperationFromType t),
       de_projectionVersion = ev_sequence event \<rparr>"

definition approxJsonBytes :: "json \<Rightarrow> int" where
  "approxJsonBytes v = int (length (json_print v))"


section \<open>The cache of views\<close>

record cached_view =
  cv_sequence :: int
  cv_view :: projection_view
  cv_bytes :: int

record view_cache =
  vc_viewCache :: "cached_view jsmap"
  vc_totalCachedBytes :: int

text \<open>The eviction loop: the oldest entry goes while there are more than 512, or too many bytes and more than one.\<close>

fun evict_views :: "cached_view jsmap \<Rightarrow> int \<Rightarrow> cached_view jsmap \<times> int" where
  "evict_views [] totalBytes = ([], totalBytes)"
| "evict_views (oldest # rest) totalBytes =
     (if length (oldest # rest) > 512 \<or> (totalBytes > 268435456 \<and> length (oldest # rest) > 1)
      then evict_views rest (totalBytes - cv_bytes (snd oldest)) else (oldest # rest, totalBytes))"

definition cacheView :: "string \<Rightarrow> int \<Rightarrow> projection_view \<Rightarrow> int \<Rightarrow> view_cache \<Rightarrow> view_cache" where
  "cacheView k sequence view bytes c =
     (let totalBytes = vc_totalCachedBytes c - (case map_get (vc_viewCache c) k of Some prev \<Rightarrow> cv_bytes prev | None \<Rightarrow> 0) + bytes;
          entries = map_set k \<lparr> cv_sequence = sequence, cv_view = view, cv_bytes = bytes \<rparr> (map_delete k (vc_viewCache c))
      in case evict_views entries totalBytes of (kept, bytesLeft) \<Rightarrow> \<lparr> vc_viewCache = kept, vc_totalCachedBytes = bytesLeft \<rparr>)"

text \<open>The callback of an append: the new view and its size, from the cached view or from the stored one.\<close>

definition warm_view :: "view_cache \<Rightarrow> string \<Rightarrow> session_projection option \<Rightarrow> cached_view option" where
  "warm_view c k current =
     (case (map_get (vc_viewCache c) k, current) of
        (Some cached, Some p) \<Rightarrow> (if cv_sequence cached = pj_sequence p then Some cached else None)
      | _ \<Rightarrow> None)"

definition project_event ::
  "projection_env \<Rightarrow> env \<Rightarrow> view_cache \<Rightarrow> string \<Rightarrow> json \<Rightarrow> session_record \<Rightarrow> session_event \<Rightarrow> session_projection option
    \<Rightarrow> (projection_view \<times> int) option" where
  "project_event pn e c k payload session event current =
     (case (case warm_view c k current of
              Some cached \<Rightarrow> Some (cv_view cached)
            | None \<Rightarrow> normalizeCloudSessionProjectionView pn e (case current of Some p \<Rightarrow> pj_view p | None \<Rightarrow> JNull) session) of
        None \<Rightarrow> None
      | Some currentView \<Rightarrow>
          map_option (\<lambda>view. (view, case warm_view c k current of
              Some cached \<Rightarrow> cv_bytes cached + approxJsonBytes payload | None \<Rightarrow> approxJsonBytes (view_json view)))
            (reduceCloudSessionProjectionEvent pn session currentView event))"


section \<open>Repair\<close>

record repair_input =
  rpi_tenantId :: string
  rpi_sessionId :: string
  rpi_leaseToken :: "string option option"

record repair_state =
  rs_view :: projection_view
  rs_latestEventSequence :: int
  rs_latestCreatedAt :: "iso option"
  rs_eventCount :: nat
  rs_workspaceEventCount :: nat

record repair_result =
  rr_repaired :: bool
  rr_eventCount :: nat
  rr_workspaceEventCount :: nat
  rr_latestEventSequence :: int
  rr_priorProjectionSequence :: int
  rr_projectionSequence :: int
  rr_lag :: int

definition repair_workspace_input :: "repair_input \<Rightarrow> string \<Rightarrow> session_event \<Rightarrow> workspace_event_input" where
  "repair_workspace_input inp userId event =
     (let d = workspaceEntityForProjectedEvent (rpi_sessionId inp) (ev_type event) (ev_payload event) event in
      \<lparr> wi_tenantId = rpi_tenantId inp, wi_userId = userId, wi_sessionId = Some (rpi_sessionId inp), wi_eventId = Some (de_eventId d),
        wi_entityType = Some (de_entityType d), wi_entityId = Some (de_entityId d), wi_operation = Some (de_operation d),
        wi_projectionVersion = Some (JInt (de_projectionVersion d)), wi_type = ev_type event, wi_payload = Some (ev_payload event),
        wi_createdAt = Some (ev_createdAt event) \<rparr>)"

text \<open>One batch. \<open>None\<close>: the reducer does not return.\<close>

fun repair_batch ::
  "env \<Rightarrow> projection_env \<Rightarrow> repair_input \<Rightarrow> session_record \<Rightarrow> session_event list \<Rightarrow> repair_state \<Rightarrow> 'a workspace_store_scheme
    \<Rightarrow> ('a workspace_store_scheme, repair_state) outcome option" where
  "repair_batch e pn inp session [] st s = Some (Inr st, s)"
| "repair_batch e pn inp session (event # events) st s =
     (let st1 = st\<lparr> rs_eventCount := rs_eventCount st + 1, rs_latestEventSequence := ev_sequence event,
                   rs_latestCreatedAt := Some (ev_createdAt event) \<rparr> in
      if \<not> isCloudProjectedSessionEventType (ev_type event) then repair_batch e pn inp session events st1 s
      else case appendWorkspaceEvent e (repair_workspace_input inp (sr_userId session) event) s of
        (Inl err, s1) \<Rightarrow> Some (Inl err, s1)
      | (Inr _, s1) \<Rightarrow>
          (case reduceCloudSessionProjectionEvent pn session (rs_view st1) event of
             None \<Rightarrow> None
           | Some view \<Rightarrow>
               repair_batch e pn inp session events (st1\<lparr> rs_workspaceEventCount := rs_workspaceEventCount st1 + 1, rs_view := view \<rparr>) s1))"

definition PROJECTION_REBUILD_BATCH :: nat where
  "PROJECTION_REBUILD_BATCH = 1000"

partial_function (option) repair_loop ::
  "env \<Rightarrow> projection_env \<Rightarrow> repair_input \<Rightarrow> session_record \<Rightarrow> int \<Rightarrow> repair_state \<Rightarrow> 'a workspace_store_scheme
    \<Rightarrow> ('a workspace_store_scheme, repair_state) outcome option" where
  "repair_loop e pn inp session afterSequence st s =
     (case listSessionEvents s (rpi_tenantId inp) (rpi_sessionId inp) afterSequence (Some (JInt (int PROJECTION_REBUILD_BATCH))) of
        Inl err \<Rightarrow> Some (Inl err, s)
      | Inr batch \<Rightarrow>
          if batch = [] then Some (Inr st, s)
          else Option.bind (repair_batch e pn inp session batch st s) (\<lambda>r.
            case r of
              (Inl err, s1) \<Rightarrow> Some (Inl err, s1)
            | (Inr st1, s1) \<Rightarrow>
                if length batch < PROJECTION_REBUILD_BATCH then Some (Inr st1, s1)
                else repair_loop e pn inp session (ev_sequence (last batch)) st1 s1))"

definition launchpad_input :: "projection_env \<Rightarrow> string \<Rightarrow> session_record \<Rightarrow> string \<Rightarrow> projection_view \<Rightarrow> launchpad_summary" where
  "launchpad_input pn tenantId session sessionId view =
     \<lparr> lp_tenantId = tenantId, lp_userId = sr_userId session, lp_sessionId = sessionId, lp_sessionTitle = None, lp_createdAt = sr_createdAt session,
       lp_updatedAt = pn_parse pn (vw_updatedAt view), lp_pendingApprovals = map pending_approval_json (vw_pendingApprovals view),
       lp_pendingQuestions = map pending_question_json (vw_pendingQuestions view) \<rparr>"

definition repair_start :: "projection_view \<Rightarrow> repair_state" where
  "repair_start view = \<lparr> rs_view = view, rs_latestEventSequence = 0, rs_latestCreatedAt = None, rs_eventCount = 0, rs_workspaceEventCount = 0 \<rparr>"

text \<open>The writes after the loop.\<close>

definition repair_finish ::
  "env \<Rightarrow> projection_env \<Rightarrow> repair_input \<Rightarrow> session_record \<Rightarrow> int \<Rightarrow> repair_state \<Rightarrow> 'a workspace_store_scheme
    \<Rightarrow> ('a workspace_store_scheme, repair_result) outcome" where
  "repair_finish e pn inp session prior st s =
     (if rs_eventCount st = 0
      then (Inr \<lparr> rr_repaired = False, rr_eventCount = 0, rr_workspaceEventCount = 0, rr_latestEventSequence = 0, rr_priorProjectionSequence = prior,
              rr_projectionSequence = prior, rr_lag = 0 \<rparr>, s)
      else then_do (writeSessionProjection e \<lparr> wpi_tenantId = rpi_tenantId inp, wpi_sessionId = rpi_sessionId inp,
             wpi_sequence = rs_latestEventSequence st, wpi_view = view_json (rs_view st), wpi_leaseToken = rpi_leaseToken inp,
             wpi_updatedAt = Some (coalesce (rs_latestCreatedAt st) (sr_updatedAt session)) \<rparr> s) (\<lambda>projection s1.
           then_do (upsertCloudLaunchpadSessionSummary (launchpad_input pn (rpi_tenantId inp) session (rpi_sessionId inp) (rs_view st)) s1) (\<lambda>_ s2.
             (Inr \<lparr> rr_repaired = (pj_sequence projection > prior), rr_eventCount = rs_eventCount st,
                rr_workspaceEventCount = rs_workspaceEventCount st, rr_latestEventSequence = rs_latestEventSequence st,
                rr_priorProjectionSequence = prior, rr_projectionSequence = pj_sequence projection,
                rr_lag = max 0 (rs_latestEventSequence st - pj_sequence projection) \<rparr>, s2))))"

definition repairSessionProjection ::
  "env \<Rightarrow> projection_env \<Rightarrow> repair_input \<Rightarrow> 'a workspace_store_scheme \<Rightarrow> ('a workspace_store_scheme, repair_result) outcome option" where
  "repairSessionProjection e pn inp s =
     (case getSessionForTenant s (rpi_tenantId inp) (rpi_sessionId inp) of
        Inl err \<Rightarrow> Some (Inl err, s)
      | Inr None \<Rightarrow> Some (Inl (Error (''Unknown session '' @ rpi_sessionId inp @ ''.'')), s)
      | Inr (Some session) \<Rightarrow>
          (case getSessionProjection s (rpi_tenantId inp) (rpi_sessionId inp) of
             Inl err \<Rightarrow> Some (Inl err, s)
           | Inr priorProjection \<Rightarrow>
               (case normalizeCloudSessionProjectionView pn e JNull session of
                  None \<Rightarrow> None
                | Some view \<Rightarrow>
                    Option.bind (repair_loop e pn inp session 0 (repair_start view) s) (\<lambda>r.
                      case r of
                        (Inl err, s1) \<Rightarrow> Some (Inl err, s1)
                      | (Inr st, s1) \<Rightarrow>
                          Some (repair_finish e pn inp session (case priorProjection of Some p \<Rightarrow> pj_sequence p | None \<Rightarrow> 0) st s1)))))"

section \<open>The cache is bounded and exact\<close>

definition cached_bytes :: "cached_view jsmap \<Rightarrow> int" where
  "cached_bytes m = sum_list (map (\<lambda>p. cv_bytes (snd p)) m)"

definition cache_exact :: "view_cache \<Rightarrow> bool" where
  "cache_exact c \<longleftrightarrow> map_ok (vc_viewCache c) \<and> vc_totalCachedBytes c = cached_bytes (vc_viewCache c)"

lemma evict_views_result:
  assumes "evict_views m total' = (kept, left)"
  shows "\<exists>dropped. m = dropped @ kept \<and> total' - left = cached_bytes dropped \<and> (m \<noteq> [] \<longrightarrow> kept \<noteq> [])
    \<and> length kept \<le> 512 \<and> (left \<le> 268435456 \<or> length kept \<le> 1)"
  using assms
proof (induction m total' rule: evict_views.induct)
  case (2 oldest rest total')
  show ?case
  proof (cases "length (oldest # rest) > 512 \<or> (total' > 268435456 \<and> length (oldest # rest) > 1)")
    case True
    with 2(2) have "evict_views rest (total' - cv_bytes (snd oldest)) = (kept, left)" by (simp split: if_splits)
    from 2(1) [OF True this] obtain dropped where "rest = dropped @ kept" "total' - cv_bytes (snd oldest) - left = cached_bytes dropped"
      "rest \<noteq> [] \<longrightarrow> kept \<noteq> []" "length kept \<le> 512" "left \<le> 268435456 \<or> length kept \<le> 1" by blast
    moreover have "rest \<noteq> []" using True by (cases rest) auto
    ultimately show ?thesis by (intro exI [of _ "oldest # dropped"]) (simp add: cached_bytes_def)
  next
    case False
    then have "kept = oldest # rest" "left = total'" using 2(2) by (auto split: if_splits)
    then show ?thesis using False by (intro exI [of _ "[]"]) (auto simp: cached_bytes_def)
  qed
qed (simp add: cached_bytes_def)

lemma cached_bytes_delete:
  "map_ok m \<Longrightarrow> cached_bytes (map_delete k m) = cached_bytes m - (case map_get m k of Some prev \<Rightarrow> cv_bytes prev | None \<Rightarrow> 0)"
proof (induction m)
  case (Cons p m)
  then have ok: "map_ok m" by (simp add: map_ok_def)
  show ?case
  proof (cases "fst p = k")
    case True
    then have "map_get m k = None" using Cons.prems by (auto simp: map_ok_def map_get_def map_of_eq_None_iff)
    then show ?thesis using True Cons.IH [OF ok] by (cases p) (simp add: cached_bytes_def map_delete_def map_get_def)
  next
    case False
    then show ?thesis using Cons.IH [OF ok] by (cases p) (simp add: cached_bytes_def map_delete_def map_get_def)
  qed
qed (simp add: cached_bytes_def map_delete_def map_get_def)

text \<open>The cache of views is bounded and its byte count exact: after any \<open>cacheView\<close> at most 512 views are kept, of at most
  256 MB together unless one alone is larger; the one just stored is kept; and those dropped are the least recently used.\<close>

theorem cacheView_bounded_lru:
  assumes "cache_exact c" "c' = cacheView k sequence view bytes c"
  shows "cache_exact c' \<and> length (vc_viewCache c') \<le> 512
    \<and> (vc_totalCachedBytes c' \<le> 268435456 \<or> length (vc_viewCache c') = 1)
    \<and> map_get (vc_viewCache c') k = Some \<lparr> cv_sequence = sequence, cv_view = view, cv_bytes = bytes \<rparr>
    \<and> (\<exists>dropped. map_delete k (vc_viewCache c) @ [(k, \<lparr> cv_sequence = sequence, cv_view = view, cv_bytes = bytes \<rparr>)] = dropped @ vc_viewCache c')"
proof -
  let ?new = "\<lparr> cv_sequence = sequence, cv_view = view, cv_bytes = bytes \<rparr>"
  let ?old = "map_delete k (vc_viewCache c)"
  let ?total = "vc_totalCachedBytes c - (case map_get (vc_viewCache c) k of Some prev \<Rightarrow> cv_bytes prev | None \<Rightarrow> 0) + bytes"
  have entries: "map_set k ?new ?old = ?old @ [(k, ?new)]" by (rule map_set_fresh) simp
  have ok: "map_ok (?old @ [(k, ?new)])" using assms(1) by (simp add: entries [symmetric] cache_exact_def)
  obtain kept left where ev: "evict_views (?old @ [(k, ?new)]) ?total = (kept, left)" by fastforce
  have c': "c' = \<lparr> vc_viewCache = kept, vc_totalCachedBytes = left \<rparr>"
    using assms(2) ev by (simp add: cacheView_def Let_def entries)
  from evict_views_result [OF ev] obtain dropped where d: "?old @ [(k, ?new)] = dropped @ kept" "?total - left = cached_bytes dropped" "kept \<noteq> []"
    "length kept \<le> 512" "left \<le> 268435456 \<or> length kept \<le> 1" by blast
  have "?total = cached_bytes (?old @ [(k, ?new)])" using assms(1) cached_bytes_delete [of "vc_viewCache c" k]
    by (simp add: cache_exact_def cached_bytes_def)
  then have left: "left = cached_bytes kept" using d(1,2) by (simp add: cached_bytes_def)
  have "last kept = (k, ?new)" using d(1,3) by (metis last_appendR last_snoc)
  then have mem: "(k, ?new) \<in> set kept" using d(3) by (metis last_in_set)
  have okk: "map_ok kept" using ok d(1) by (simp add: map_ok_def)
  then have "map_get kept k = Some ?new" using mem by (simp add: map_get_def map_ok_def)
  moreover have "length kept \<le> 1 \<Longrightarrow> length kept = 1" using d(3) by (cases kept) simp_all
  ultimately show ?thesis using okk left d c' by (auto simp: cache_exact_def)
qed

theorem cacheView_bounded_lru_witness:
  "cache_exact (cacheView ''k'' 3 (createCloudSessionProjectionView view_session) 10 \<lparr> vc_viewCache = [], vc_totalCachedBytes = 0 \<rparr>)"
proof -
  have "cache_exact \<lparr> vc_viewCache = [], vc_totalCachedBytes = 0 \<rparr>" by (simp add: cache_exact_def cached_bytes_def map_ok_def)
  from cacheView_bounded_lru [OF this refl, of "''k''" 3 "createCloudSessionProjectionView view_session" 10] show ?thesis by blast
qed


section \<open>A cached view is what the stored one reads as\<close>

text \<open>The callback gives the same view whether the cache holds the session's view or not: when the stored view is the one of the
  log so far and a cached entry of the same sequence is that view, the result is the reducer's step on it in both cases.\<close>

theorem warm_and_cold_projection_agree:
  assumes "reduce_events pn session0 (createCloudSessionProjectionView session0) events = Some v" "session_readable session0" "view_stable pn v"
    and "pj_view p = view_json v"
    and "\<forall>cached. map_get (vc_viewCache c) k = Some cached \<and> cv_sequence cached = pj_sequence p \<longrightarrow> cv_view cached = v"
  shows "map_option fst (project_event pn e c k payload session event (Some p)) = reduceCloudSessionProjectionEvent pn session v event"
proof -
  have "view_readable v"
    using assms(1) created_readable [OF assms(2)] by (rule reduce_events_invariant) (rule readable_step [OF _ _ assms(2)])
  then have cold: "normalizeCloudSessionProjectionView pn e (pj_view p) session = Some v"
    using view_back [OF _ assms(3)] assms(4) by simp
  show ?thesis
  proof (cases "warm_view c k (Some p)")
    case None
    then show ?thesis by (simp add: project_event_def cold option.map_comp o_def option.map_ident)
  next
    case (Some cached)
    then have "cv_view cached = v" using assms(5) by (auto simp: warm_view_def split: option.splits if_splits)
    then show ?thesis using Some by (simp add: project_event_def option.map_comp o_def option.map_ident)
  qed
qed

definition stored_projection :: "projection_view \<Rightarrow> session_projection" where
  "stored_projection v = \<lparr> pj_tenantId = ''t'', pj_sessionId = ''s'', pj_sequence = 1, pj_view = view_json v, pj_updatedAt = 0 \<rparr>"

theorem warm_and_cold_projection_agree_witness:
  "map_option fst (project_event sample_projection_env sample_env \<lparr> vc_viewCache = [], vc_totalCachedBytes = 0 \<rparr> ''k'' (JObj []) view_session
      (view_event 1 ''session.idle'' []) (Some (stored_projection (createCloudSessionProjectionView view_session))))
   = reduceCloudSessionProjectionEvent sample_projection_env view_session (createCloudSessionProjectionView view_session) (view_event 1 ''session.idle'' [])"
proof -
  let ?v = "createCloudSessionProjectionView view_session"
  have ok: "session_readable view_session" by code_simp
  have none: "reduce_events sample_projection_env view_session ?v [] = Some ?v" by simp
  have stable: "view_stable sample_projection_env ?v" by (simp add: view_stable_def createCloudSessionProjectionView_def)
  have p: "pj_view (stored_projection ?v) = view_json ?v" by (simp add: stored_projection_def)
  show ?thesis by (rule warm_and_cold_projection_agree [OF none ok stable p]) simp
qed

section \<open>Repair replays the log\<close>

lemma null_reads:
  "json_field JNull k = JNull" "readStringOr JNull d = d" "readNumberOr JNull d = d" "readStatus JNull = None"
  "normalizeOrigin JNull = None" "normalizeCloudProjectSource JNull = None" "normalizeSessionTokens JNull = EMPTY_TOKENS"
  by (simp_all add: json_field_def readStringOr_def readNumberOr_def readStatus_def normalizeOrigin_def normalizeCloudProjectSource_def
      normalizeSessionTokens_def EMPTY_TOKENS_def)

lemma null_lists: "read_list f JNull = []" "read_list_in g JNull = Some []" "normalizeTodos JNull = []"
  by (simp_all add: read_list_def read_list_in_def normalizeTodos_def coalesce_def List.map_filter_simps)

lemma normalize_null: "normalizeCloudSessionProjectionView pn e JNull session = Some (createCloudSessionProjectionView session)"
  by (simp add: normalizeCloudSessionProjectionView_def createCloudSessionProjectionView_def null_reads null_lists coalesce_def)

abbreviation projected_events :: "session_event list \<Rightarrow> session_event list" where
  "projected_events events \<equiv> filter (\<lambda>ev. isCloudProjectedSessionEventType (ev_type ev)) events"

lemma self_workspace: "\<exists>w. s = s\<lparr> workspaceEvents := w \<rparr>"
  by (rule exI [of _ "workspaceEvents s"]) simp

lemma appendWorkspaceEvent_only:
  assumes "appendWorkspaceEvent e inp s = (r, s')"
  shows "\<exists>w. s' = s\<lparr> workspaceEvents := w \<rparr>"
  using assms by (cases rule: appendWorkspaceEvent_cases) (use self_workspace in blast)+

lemma repair_batch_result:
  assumes "repair_batch e pn inp session events st s = Some (Inr st', s')"
  shows "reduce_events pn session (rs_view st) (projected_events events) = Some (rs_view st')
    \<and> rs_eventCount st' = rs_eventCount st + length events
    \<and> (events \<noteq> [] \<longrightarrow> rs_latestEventSequence st' = ev_sequence (last events))
    \<and> (events = [] \<longrightarrow> st' = st) \<and> (\<exists>w. s' = s\<lparr> workspaceEvents := w \<rparr>)"
  using assms
proof (induction events arbitrary: st s)
  case Nil
  then have "st' = st" "s' = s" by simp_all
  then show ?case using self_workspace [of s] by simp
next
  case (Cons event events)
  define st1 where "st1 = st\<lparr> rs_eventCount := rs_eventCount st + 1, rs_latestEventSequence := ev_sequence event, rs_latestCreatedAt := Some (ev_createdAt event) \<rparr>"
  have st1: "rs_view st1 = rs_view st" "rs_eventCount st1 = rs_eventCount st + 1" "rs_latestEventSequence st1 = ev_sequence event" by (simp_all add: st1_def)
  show ?case
  proof (cases "isCloudProjectedSessionEventType (ev_type event)")
    case False
    then have run: "repair_batch e pn inp session events st1 s = Some (Inr st', s')" using Cons.prems by (simp add: st1_def Let_def)
    note ih = Cons.IH [OF run]
    then show ?thesis using False st1 by (cases "events = []") auto
  next
    case True
    obtain r s1 where ap: "appendWorkspaceEvent e (repair_workspace_input inp (sr_userId session) event) s = (r, s1)" by fastforce
    then obtain we v where r: "r = Inr we" and v: "reduceCloudSessionProjectionEvent pn session (rs_view st1) event = Some v"
      and run: "repair_batch e pn inp session events (st1\<lparr> rs_workspaceEventCount := rs_workspaceEventCount st1 + 1, rs_view := v \<rparr>) s1 = Some (Inr st', s')"
      using Cons.prems True by (auto simp: st1_def Let_def split: sum.splits option.splits)
    obtain w where w: "s1 = s\<lparr> workspaceEvents := w \<rparr>" using appendWorkspaceEvent_only [OF ap] by blast
    note ih = Cons.IH [OF run]
    have view: "reduce_events pn session v (projected_events events) = Some (rs_view st')" using ih by simp
    have count: "rs_eventCount st' = rs_eventCount st + 1 + length events" using ih st1(2) by simp
    have latest: "rs_latestEventSequence st' = ev_sequence (last (event # events))"
    proof (cases "events = []")
      case True
      then have "st' = st1\<lparr> rs_workspaceEventCount := rs_workspaceEventCount st1 + 1, rs_view := v \<rparr>" using ih by blast
      then show ?thesis using True st1(3) by simp
    qed (use ih in simp)
    obtain w' where "s' = s1\<lparr> workspaceEvents := w' \<rparr>" using ih by blast
    then have store: "s' = s\<lparr> workspaceEvents := w' \<rparr>" by (simp add: w)
    have "reduce_events pn session (rs_view st) (projected_events (event # events)) = Some (rs_view st')" using True v view st1(1) by simp
    with count latest store show ?thesis by auto
  qed
qed

lemma listSessionEvents_workspace: "listSessionEvents (s\<lparr> workspaceEvents := w \<rparr>) t i a l = listSessionEvents s t i a l"
  by (simp add: listSessionEvents_def requireSession_def requireTenant_def)

lemma batch_of:
  assumes "requireSession s t i = Inr ss"
  shows "listSessionEvents s t i a (Some (JInt (int PROJECTION_REBUILD_BATCH)))
    = Inr (take PROJECTION_REBUILD_BATCH (filter (\<lambda>ev. ev_sequence ev > a) (ss_events ss)))"
  using assms by (simp add: listSessionEvents_def try_pure_def sliceEventsAfter_def Let_def slice_int_def PROJECTION_REBUILD_BATCH_def)

text \<open>In a log sorted by sequence, the events after the last of a batch are the rest.\<close>

lemma events_after_batch:
  assumes "sorted_wrt (<) (map ev_sequence log)" "filter (\<lambda>ev. ev_sequence ev > a) log = xs @ ys" "xs \<noteq> []"
  shows "filter (\<lambda>ev. ev_sequence ev > ev_sequence (last xs)) log = ys"
proof -
  have mem: "last xs \<in> set (filter (\<lambda>ev. ev_sequence ev > a) log)" using assms(2,3) by simp
  then have above: "a < ev_sequence (last xs)" by simp
  have "filter (\<lambda>ev. ev_sequence ev > ev_sequence (last xs)) log
      = filter (\<lambda>ev. ev_sequence ev > ev_sequence (last xs)) (filter (\<lambda>ev. ev_sequence ev > a) log)"
    using above by (auto simp: filter_filter intro: filter_cong)
  moreover have sorted: "sorted_wrt (\<lambda>x y. ev_sequence x < ev_sequence y) (xs @ ys)"
    using assms(1) sorted_wrt_filter [of "\<lambda>x y. ev_sequence x < ev_sequence y" log "\<lambda>ev. ev_sequence ev > a"]
    by (simp add: sorted_wrt_map assms(2))
  moreover have "filter (\<lambda>ev. ev_sequence ev > ev_sequence (last xs)) xs = []"
  proof -
    have "ev_sequence x \<le> ev_sequence (last xs)" if "x \<in> set xs" for x
    proof (cases "x = last xs")
      case False
      obtain us where us: "xs = us @ [last xs]" using assms(3) by (metis append_butlast_last_id)
      then have "x \<in> set us" using that False by (metis Un_iff empty_iff insert_iff list.set set_append)
      then show ?thesis using sorted us by (metis append.assoc less_imp_le list.set_intros(1) sorted_wrt_append)
    qed simp
    then show ?thesis by (auto simp: filter_empty_conv not_less)
  qed
  moreover have "filter (\<lambda>ev. ev_sequence ev > ev_sequence (last xs)) ys = ys"
    using sorted assms(3) by (simp add: sorted_wrt_append)
  ultimately show ?thesis using assms(2) by simp
qed

lemma requireSession_workspace: "requireSession (s\<lparr> workspaceEvents := w \<rparr>) t i = requireSession s t i"
  by (simp add: requireSession_def requireTenant_def)

lemma repair_loop_result:
  assumes "requireSession s (rpi_tenantId inp) (rpi_sessionId inp) = Inr ss" "sorted_wrt (<) (map ev_sequence (ss_events ss))"
    and "repair_loop e pn inp session a st s = Some (Inr st', s')"
  shows "reduce_events pn session (rs_view st) (projected_events (filter (\<lambda>ev. ev_sequence ev > a) (ss_events ss))) = Some (rs_view st')
    \<and> rs_eventCount st' = rs_eventCount st + length (filter (\<lambda>ev. ev_sequence ev > a) (ss_events ss))
    \<and> (filter (\<lambda>ev. ev_sequence ev > a) (ss_events ss) \<noteq> [] \<longrightarrow>
         rs_latestEventSequence st' = ev_sequence (last (filter (\<lambda>ev. ev_sequence ev > a) (ss_events ss))))
    \<and> (\<exists>w. s' = s\<lparr> workspaceEvents := w \<rparr>)"
  using assms(1,3)
proof (induction "length (filter (\<lambda>ev. ev_sequence ev > a) (ss_events ss))" arbitrary: a st s rule: less_induct)
  case less
  let ?evs = "filter (\<lambda>ev. ev_sequence ev > a) (ss_events ss)"
  let ?batch = "take PROJECTION_REBUILD_BATCH ?evs"
  have run: "(if ?batch = [] then Some (Inr st, s)
     else Option.bind (repair_batch e pn inp session ?batch st s) (\<lambda>r. case r of (Inl err, s1) \<Rightarrow> Some (Inl err, s1)
       | (Inr st1, s1) \<Rightarrow> if length ?batch < PROJECTION_REBUILD_BATCH then Some (Inr st1, s1)
           else repair_loop e pn inp session (ev_sequence (last ?batch)) st1 s1)) = Some (Inr st', s')"
    using less.prems(2) unfolding repair_loop.simps [of e pn inp session a st s] batch_of [OF less.prems(1)] by simp
  show ?case
  proof (cases "?evs = []")
    case True
    then have "st' = st" "s' = s" using run by simp_all
    then show ?thesis using True self_workspace [of s] by simp
  next
    case False
    then have ne: "?batch \<noteq> []" by (simp add: PROJECTION_REBUILD_BATCH_def)
    have bind: "Option.bind (repair_batch e pn inp session ?batch st s) (\<lambda>r. case r of (Inl err, s1) \<Rightarrow> Some (Inl err, s1)
       | (Inr st1, s1) \<Rightarrow> if length ?batch < PROJECTION_REBUILD_BATCH then Some (Inr st1, s1)
           else repair_loop e pn inp session (ev_sequence (last ?batch)) st1 s1) = Some (Inr st', s')"
      using run unfolding if_not_P [OF ne] .
    then obtain q s1 where b: "repair_batch e pn inp session ?batch st s = Some (q, s1)"
      by (cases "repair_batch e pn inp session ?batch st s") auto
    then obtain st1 where q: "q = Inr st1" using bind by (cases q) simp_all
    have rest: "(if length ?batch < PROJECTION_REBUILD_BATCH then Some (Inr st1, s1)
           else repair_loop e pn inp session (ev_sequence (last ?batch)) st1 s1) = Some (Inr st', s')"
      using bind b q by simp
    note batch = repair_batch_result [OF b [unfolded q]]
    obtain w where w: "s1 = s\<lparr> workspaceEvents := w \<rparr>" using batch by blast
    show ?thesis
    proof (cases "length ?batch < PROJECTION_REBUILD_BATCH")
      case True
      then have all: "?batch = ?evs" by simp
      have "st' = st1" "s' = s1" using rest unfolding if_P [OF True] by simp_all
      then show ?thesis using batch False unfolding all by blast
    next
      case full: False
      define ys where "ys = drop PROJECTION_REBUILD_BATCH ?evs"
      have split: "?evs = ?batch @ ys" by (simp add: ys_def)
      have after: "filter (\<lambda>ev. ev_sequence ev > ev_sequence (last ?batch)) (ss_events ss) = ys"
        by (rule events_after_batch [OF assms(2) split ne])
      have "length ys < length ?evs" using ne by (subst split) (simp del: append_take_drop_id)
      then have shorter: "length (filter (\<lambda>ev. ev_sequence ev > ev_sequence (last ?batch)) (ss_events ss)) < length ?evs" by (simp only: after)
      have req: "requireSession s1 (rpi_tenantId inp) (rpi_sessionId inp) = Inr ss" using less.prems(1) by (simp add: w requireSession_workspace)
      have "repair_loop e pn inp session (ev_sequence (last ?batch)) st1 s1 = Some (Inr st', s')" using rest unfolding if_not_P [OF full] .
      note ih = less.hyps [OF shorter req this, unfolded after]
      obtain w' where "s' = s1\<lparr> workspaceEvents := w' \<rparr>" using ih by blast
      then have store: "s' = s\<lparr> workspaceEvents := w' \<rparr>" by (simp add: w)
      have "reduce_events pn session (rs_view st) (projected_events (?batch @ ys)) = Some (rs_view st')"
        using batch ih by (simp add: reduce_events_append)
      moreover have "rs_eventCount st' = rs_eventCount st + length (?batch @ ys)" using batch ih by simp
      moreover have "rs_latestEventSequence st' = ev_sequence (last (?batch @ ys))"
      proof (cases "ys = []")
        case True
        have "st' = st1"
          using \<open>repair_loop e pn inp session (ev_sequence (last ?batch)) st1 s1 = Some (Inr st', s')\<close>
          unfolding repair_loop.simps [of e pn inp session "ev_sequence (last ?batch)"] batch_of [OF req] after True by simp
        then show ?thesis using batch ne True by simp
      qed (use ih in simp)
      ultimately show ?thesis using store unfolding split [symmetric] by blast
    qed
  qed
qed

lemma repair_batch_returns:
  assumes "list_all (\<lambda>ev. ev_type ev = ''tool.call'' \<longrightarrow> tool_payload_short pn ev) events"
  shows "repair_batch e pn inp session events st (s :: 'a workspace_store_scheme) \<noteq> None"
  using assms
proof (induction events arbitrary: st s)
  case (Cons event events)
  then have rest: "\<exists>r. repair_batch e pn inp session events st s = Some r" for st and s :: "'a workspace_store_scheme" by simp
  obtain v where v: "reduceCloudSessionProjectionEvent pn session (rs_view st) event = Some v" using Cons.prems reducer_step_returns by fastforce
  obtain r s1 where ap: "appendWorkspaceEvent e (repair_workspace_input inp (sr_userId session) event) s = (r, s1)" by fastforce
  show ?case
  proof (cases "isCloudProjectedSessionEventType (ev_type event)")
    case False
    then show ?thesis using rest by (simp add: Let_def)
  next
    case True
    then show ?thesis using rest by (cases r) (simp_all add: Let_def ap v)
  qed
qed simp

lemma repair_loop_returns:
  assumes "requireSession s (rpi_tenantId inp) (rpi_sessionId inp) = Inr ss" "sorted_wrt (<) (map ev_sequence (ss_events ss))"
    and "list_all (\<lambda>ev. ev_type ev = ''tool.call'' \<longrightarrow> tool_payload_short pn ev) (ss_events ss)"
  shows "repair_loop e pn inp session a st s \<noteq> None"
  using assms(1)
proof (induction "length (filter (\<lambda>ev. ev_sequence ev > a) (ss_events ss))" arbitrary: a st s rule: less_induct)
  case less
  let ?evs = "filter (\<lambda>ev. ev_sequence ev > a) (ss_events ss)"
  let ?batch = "take PROJECTION_REBUILD_BATCH ?evs"
  have "list_all (\<lambda>ev. ev_type ev = ''tool.call'' \<longrightarrow> tool_payload_short pn ev) ?batch"
    using assms(3) by (auto simp: list_all_iff dest: in_set_takeD)
  then obtain q s1 where b: "repair_batch e pn inp session ?batch st s = Some (q, s1)" using repair_batch_returns by fastforce
  show ?case
  proof (cases "?batch = [] \<or> isl q \<or> length ?batch < PROJECTION_REBUILD_BATCH")
    case True
    then show ?thesis unfolding repair_loop.simps [of e pn inp session a st s] batch_of [OF less.prems] by (cases q) (auto simp: b)
  next
    case False
    then obtain st1 where q: "q = Inr st1" by (cases q) simp_all
    obtain w where w: "s1 = s\<lparr> workspaceEvents := w \<rparr>" using repair_batch_result [OF b [unfolded q]] by blast
    define ys where "ys = drop PROJECTION_REBUILD_BATCH ?evs"
    have split: "?evs = ?batch @ ys" by (simp add: ys_def)
    have ne: "?batch \<noteq> []" using False by blast
    have after: "filter (\<lambda>ev. ev_sequence ev > ev_sequence (last ?batch)) (ss_events ss) = ys"
      by (rule events_after_batch [OF assms(2) split ne])
    have "length ys < length ?evs" using ne by (subst split) (simp del: append_take_drop_id)
    then have shorter: "length (filter (\<lambda>ev. ev_sequence ev > ev_sequence (last ?batch)) (ss_events ss)) < length ?evs" by (simp only: after)
    have req: "requireSession s1 (rpi_tenantId inp) (rpi_sessionId inp) = Inr ss" using less.prems by (simp add: w requireSession_workspace)
    have step: "repair_loop e pn inp session (ev_sequence (last ?batch)) st1 s1 \<noteq> None" by (rule less.hyps [OF shorter req])
    have cond: "(?batch = []) = False" "(length ?batch < PROJECTION_REBUILD_BATCH) = False" using False by blast+
    show ?thesis using step
      unfolding repair_loop.simps [of e pn inp session a st s] batch_of [OF less.prems] sum.case cond if_False b q Option.bind.simps prod.case .
  qed
qed

lemma numbered_log:
  assumes "map ev_sequence log = map int [1..<Suc (length log)]"
  shows "sorted_wrt (<) (map ev_sequence log)" "filter (\<lambda>ev. ev_sequence ev > 0) log = log"
    "log \<noteq> [] \<Longrightarrow> ev_sequence (last log) = int (length log)"
proof -
  show "sorted_wrt (<) (map ev_sequence log)" unfolding assms by (simp add: sorted_wrt_map del: upt_Suc)
  have "0 < ev_sequence ev" if "ev \<in> set log" for ev
  proof -
    have "ev_sequence ev \<in> set (map int [1..<Suc (length log)])" using that by (metis assms image_eqI list.set_map)
    then show ?thesis by auto
  qed
  then show "filter (\<lambda>ev. ev_sequence ev > 0) log = log" by simp
  assume "log \<noteq> []"
  then show "ev_sequence (last log) = int (length log)" using assms by (metis diff_Suc_1 last_map last_upt length_greater_0_conv length_map
      list.map_disc_iff map_is_Nil_conv One_nat_def Suc_leI Suc_less_eq less_Suc_eq_le upt_eq_Nil_conv not_less)
qed

lemma writeSessionProjection_stored:
  assumes "writeSessionProjection e inp s = (Inr p, s')"
  shows "\<exists>ss'. map_get (sessions s') (key [wpi_tenantId inp, wpi_sessionId inp]) = Some ss' \<and> ss_projection ss' = Some p
    \<and> pj_sequence p = wpi_sequence inp \<and> stableJson (locale_compare e) (pj_view p) = stableJson (locale_compare e) (wpi_view inp)"
  using assms unfolding writeSessionProjection_def try_in_def
  by (auto simp: requireSession_Inr put_session_def put_projection_def Let_def split: sum.splits option.splits if_splits)

lemma launchpad_sessions:
  assumes "upsertCloudLaunchpadSessionSummary inp s = (r, s')"
  shows "sessions s' = sessions s"
  using assms unfolding upsertCloudLaunchpadSessionSummary_def try_in_def Let_def by (auto split: sum.splits)

text \<open>The session and the projection a repair starts from.\<close>

lemma repair_start_of:
  assumes "requireSession s (rpi_tenantId inp) (rpi_sessionId inp) = Inr ss"
  shows "repairSessionProjection e pn inp s =
    Option.bind (repair_loop e pn inp (ss_record ss) 0 (repair_start (createCloudSessionProjectionView (ss_record ss))) s) (\<lambda>r.
      case r of
        (Inl err, s1) \<Rightarrow> Some (Inl err, s1)
      | (Inr st, s1) \<Rightarrow> Some (repair_finish e pn inp (ss_record ss) (case ss_projection ss of Some p \<Rightarrow> pj_sequence p | None \<Rightarrow> 0) st s1))"
proof -
  have "getSessionForTenant s (rpi_tenantId inp) (rpi_sessionId inp) = Inr (Some (ss_record ss))"
    using assms by (auto simp: requireSession_Inr getSessionForTenant_def requireTenant_def try_pure_def map_has_def)
  then show ?thesis using assms
    by (simp add: repairSessionProjection_def getSessionProjection_def try_pure_def normalize_null)
qed

text \<open>C34: A repair replays the log: when it succeeds on a session with events, the stored projection stands at the last event, its
  view is, up to the order of properties, the fold of the projected events from an empty view, in whatever batches the log was
  read, and the result reports every event and no lag.\<close>

theorem repair_replays_log:
  assumes "repairSessionProjection e pn inp s = Some (Inr r, s')"
    and "requireSession s (rpi_tenantId inp) (rpi_sessionId inp) = Inr ss" "session_inv k ss" "ss_events ss \<noteq> []"
  shows "\<exists>v ss' p. reduce_events pn (ss_record ss) (createCloudSessionProjectionView (ss_record ss)) (projected_events (ss_events ss)) = Some v
    \<and> map_get (sessions s') (key [rpi_tenantId inp, rpi_sessionId inp]) = Some ss' \<and> ss_projection ss' = Some p
    \<and> pj_sequence p = int (length (ss_events ss))
    \<and> stableJson (locale_compare e) (pj_view p) = stableJson (locale_compare e) (view_json v)
    \<and> rr_eventCount r = length (ss_events ss) \<and> rr_lag r = 0"
proof -
  note log = numbered_log [of "ss_events ss"]
  have seqs: "map ev_sequence (ss_events ss) = map int [1..<Suc (length (ss_events ss))]" using assms(3) by (simp only: session_inv_def)
  let ?st0 = "repair_start (createCloudSessionProjectionView (ss_record ss))"
  let ?prior = "case ss_projection ss of Some p \<Rightarrow> pj_sequence p | None \<Rightarrow> 0"
  obtain st s1 where loop: "repair_loop e pn inp (ss_record ss) 0 ?st0 s = Some (Inr st, s1)"
    and finish: "repair_finish e pn inp (ss_record ss) ?prior st s1 = (Inr r, s')"
  proof (cases "repair_loop e pn inp (ss_record ss) 0 ?st0 s")
    case None
    then show ?thesis using assms(1) unfolding repair_start_of [OF assms(2)] by simp
  next
    case (Some q)
    then show ?thesis using assms(1) that unfolding repair_start_of [OF assms(2)] by (cases q; cases "fst q") auto
  qed
  from repair_loop_result [OF assms(2) log(1) [OF seqs] loop] log(2,3) [OF seqs] assms(4)
  have st: "reduce_events pn (ss_record ss) (createCloudSessionProjectionView (ss_record ss)) (projected_events (ss_events ss)) = Some (rs_view st)"
    "rs_eventCount st = length (ss_events ss)" "rs_latestEventSequence st = int (length (ss_events ss))" by (simp_all add: repair_start_def)
  have ne: "\<not> rs_eventCount st = 0" using st(2) assms(4) by simp
  obtain p s2 l s3 where p: "writeSessionProjection e \<lparr> wpi_tenantId = rpi_tenantId inp, wpi_sessionId = rpi_sessionId inp,
             wpi_sequence = rs_latestEventSequence st, wpi_view = view_json (rs_view st), wpi_leaseToken = rpi_leaseToken inp,
             wpi_updatedAt = Some (coalesce (rs_latestCreatedAt st) (sr_updatedAt (ss_record ss))) \<rparr> s1 = (Inr p, s2)"
    and l: "upsertCloudLaunchpadSessionSummary (launchpad_input pn (rpi_tenantId inp) (ss_record ss) (rpi_sessionId inp) (rs_view st)) s2 = (Inr l, s3)"
    and r: "s' = s3" "rr_eventCount r = rs_eventCount st" "rr_lag r = max 0 (rs_latestEventSequence st - pj_sequence p)"
    using finish unfolding repair_finish_def if_not_P [OF ne] by (auto simp: then_do_def split: prod.splits sum.splits)
  from writeSessionProjection_stored [OF p] obtain ss' where ss': "map_get (sessions s2) (key [rpi_tenantId inp, rpi_sessionId inp]) = Some ss'"
    "ss_projection ss' = Some p" "pj_sequence p = rs_latestEventSequence st"
    "stableJson (locale_compare e) (pj_view p) = stableJson (locale_compare e) (view_json (rs_view st))" by auto
  have "sessions s' = sessions s2" using launchpad_sessions [OF l] r(1) by simp
  then show ?thesis using st ss' r by (intro exI [of _ "rs_view st"] exI [of _ ss'] exI [of _ p]) simp
qed

text \<open>A repair returns, with a result or an error, when the tool events of the log have short property names: the batches end.\<close>

theorem repair_returns:
  assumes "requireSession s (rpi_tenantId inp) (rpi_sessionId inp) = Inr ss" "session_inv k ss"
    and "list_all (\<lambda>ev. ev_type ev = ''tool.call'' \<longrightarrow> tool_payload_short pn ev) (ss_events ss)"
  shows "\<exists>r. repairSessionProjection e pn inp s = Some r"
proof -
  have "map ev_sequence (ss_events ss) = map int [1..<Suc (length (ss_events ss))]" using assms(2) by (simp only: session_inv_def)
  then have "sorted_wrt (<) (map ev_sequence (ss_events ss))" by (rule numbered_log)
  from repair_loop_returns [OF assms(1) this assms(3)]
  obtain q where "repair_loop e pn inp (ss_record ss) 0 (repair_start (createCloudSessionProjectionView (ss_record ss))) s = Some q" by blast
  then show ?thesis unfolding repair_start_of [OF assms(1)] by (cases q; cases "fst q") auto
qed

definition logged_event :: session_event where
  "logged_event = \<lparr> ev_tenantId = ''t'', ev_sessionId = ''s1'', ev_eventId = ''e1'', ev_sequence = 1, ev_type = ''session.idle'', ev_payload = JObj [],
     ev_createdAt = 0 \<rparr>"

definition logged_session :: session_state where
  "logged_session = Workflow_Runs.sample_session\<lparr> ss_lease := None, ss_nextLeaseAttempt := 0, ss_nextEventSequence := 1, ss_events := [logged_event] \<rparr>"

definition logged_store :: workflow_store where
  "logged_store = sample_store\<lparr> sessions := [(key [''t'', ''s1''], logged_session)] \<rparr>"

definition sample_repair :: repair_input where
  "sample_repair = \<lparr> rpi_tenantId = ''t'', rpi_sessionId = ''s1'', rpi_leaseToken = None \<rparr>"

lemma logged_store_session:
  "requireSession logged_store (rpi_tenantId sample_repair) (rpi_sessionId sample_repair) = Inr logged_session" "session_inv (key [''t'', ''s1'']) logged_session"
  "ss_events logged_session \<noteq> []"
  by (simp_all add: requireSession_Inr logged_store_def sample_repair_def sample_store_def sample_workflow_store_def map_has_def map_get_def
      logged_session_def logged_event_def session_inv_def Workflow_Runs.sample_session_def lease_of_attempt_def)

lemma logged_store_repairs: "\<exists>r s'. repairSessionProjection sample_env sample_projection_env sample_repair logged_store = Some (Inr r, s')"
proof -
  let ?session = "ss_record logged_session"
  let ?st0 = "repair_start (createCloudSessionProjectionView ?session)"
  let ?batch = "repair_batch sample_env sample_projection_env sample_repair ?session [logged_event] ?st0 logged_store"
  let ?e = "sample_env" and ?pn = "sample_projection_env" and ?inp = "sample_repair"
  obtain we w where ap: "appendWorkspaceEvent ?e (repair_workspace_input ?inp (sr_userId ?session) logged_event) logged_store = (Inr we, logged_store\<lparr> workspaceEvents := w \<rparr>)"
  proof -
    have "isl (fst (appendWorkspaceEvent ?e (repair_workspace_input ?inp (sr_userId ?session) logged_event) logged_store)) = False"
      by code_simp
    then obtain we s1 where ap: "appendWorkspaceEvent ?e (repair_workspace_input ?inp (sr_userId ?session) logged_event) logged_store = (Inr we, s1)"
      by (metis eq_fst_iff isl_def old.sum.exhaust)
    with appendWorkspaceEvent_only [OF ap] that show thesis by blast
  qed
  obtain v where v: "reduceCloudSessionProjectionEvent ?pn ?session (createCloudSessionProjectionView ?session) logged_event = Some v"
    by (simp add: reduceCloudSessionProjectionEvent_def logged_event_def Let_def)
  define st where "st = ?st0\<lparr> rs_eventCount := 1, rs_latestEventSequence := 1, rs_latestCreatedAt := Some 0, rs_workspaceEventCount := 1, rs_view := v \<rparr>"
  have projected: "isCloudProjectedSessionEventType (ev_type logged_event)" by code_simp
  have b: "?batch = Some (Inr st, logged_store\<lparr> workspaceEvents := w \<rparr>)"
    using ap v projected by (simp add: st_def repair_start_def Let_def) (simp add: logged_event_def)
  let ?s1 = "logged_store\<lparr> workspaceEvents := w \<rparr>"
  have store: "requireSession ?s1 (rpi_tenantId ?inp) (rpi_sessionId ?inp) = Inr logged_session"
    using logged_store_session(1) by (simp add: requireSession_workspace)
  have "\<exists>r s'. repair_finish ?e ?pn ?inp ?session 0 st ?s1 = (Inr r, s')"
  proof -
    have ss: "ss_lease logged_session = None" "ss_projection logged_session = None" "sr_userId (ss_record logged_session) = ''u''"
      by (simp_all add: logged_session_def Workflow_Runs.sample_session_def sample_session_record_def)
    have user: "requireTenantUser (put_session t i x ?s1) (rpi_tenantId ?inp) ''u'' = Inr sample_user" for t i x
      by (simp add: requireTenantUser_def requireTenant_def try_pure_def put_session_def logged_store_def sample_store_def sample_workflow_store_def
          sample_repair_def map_get_def)
    have req: "requireSession (put_session (rpi_tenantId ?inp) (rpi_sessionId ?inp) x ?s1) (rpi_tenantId ?inp) (rpi_sessionId ?inp) = Inr x" for x
      using store by (simp add: requireSession_Inr put_session_def)
    show ?thesis
      by (simp add: repair_finish_def st_def writeSessionProjection_def store ss projection_sequence_def try_in_def then_do_def Let_def
          upsertCloudLaunchpadSessionSummary_def launchpad_input_def user assertSessionBelongsToUser_def try_pure_def req put_projection_def)
  qed
  then obtain r s' where f: "repair_finish ?e ?pn ?inp ?session 0 st ?s1 = (Inr r, s')" by blast
  have log: "take PROJECTION_REBUILD_BATCH (filter (\<lambda>ev. ev_sequence ev > 0) (ss_events logged_session)) = [logged_event]"
    by (simp add: logged_session_def logged_event_def PROJECTION_REBUILD_BATCH_def)
  have "repair_loop sample_env sample_projection_env sample_repair ?session 0 ?st0 logged_store = Some (Inr st, ?s1)"
    unfolding repair_loop.simps [of _ _ _ _ 0] batch_of [OF logged_store_session(1)] log sum.case b by (simp add: PROJECTION_REBUILD_BATCH_def)
  moreover have "ss_projection logged_session = None" by (simp add: logged_session_def Workflow_Runs.sample_session_def)
  ultimately show ?thesis unfolding repair_start_of [OF logged_store_session(1)] using f by simp
qed

theorem repair_replays_log_witness:
  "\<exists>r s' ss' p. repairSessionProjection sample_env sample_projection_env sample_repair logged_store = Some (Inr r, s')
     \<and> map_get (sessions s') (key [''t'', ''s1'']) = Some ss' \<and> ss_projection ss' = Some p \<and> pj_sequence p = 1 \<and> rr_lag r = 0"
proof -
  obtain r s' where run: "repairSessionProjection sample_env sample_projection_env sample_repair logged_store = Some (Inr r, s')"
    using logged_store_repairs by blast
  from repair_replays_log [OF run logged_store_session] run show ?thesis by (force simp: sample_repair_def logged_session_def)
qed

theorem repair_returns_witness:
  "\<exists>r. repairSessionProjection sample_env sample_projection_env sample_repair logged_store = Some r"
proof (rule repair_returns [OF logged_store_session(1,2)])
  show "list_all (\<lambda>ev. ev_type ev = ''tool.call'' \<longrightarrow> tool_payload_short sample_projection_env ev) (ss_events logged_session)"
    by (simp add: logged_session_def logged_event_def)
qed


section \<open>Limits of the repair and of the cold path\<close>

text \<open>A projection that already stands at the last event is never rewritten: a differing one makes the repair throw.\<close>

lemma repair_refuses_current_projection:
  assumes "requireSession s (rpi_tenantId inp) (rpi_sessionId inp) = Inr ss" "ss_projection ss = Some p" "rs_eventCount st \<noteq> 0"
    and "pj_sequence p = rs_latestEventSequence st" "ss_lease ss = None"
    and "stableJson (locale_compare e) (pj_view p) \<noteq> stableJson (locale_compare e) (view_json (rs_view st))"
  shows "repair_finish e pn inp session prior st s = (Inl (Error ''Projection sequence was reused with different content.''), s)"
  using assms by (simp add: repair_finish_def writeSessionProjection_def try_in_def then_do_def projection_sequence_def)

text \<open>A first chunk of white space is in the view but not in what the stored view reads as.\<close>

lemma blank_chunk_lost:
  "map vm_content (vw_messages (reduce_assistant view_session (createCloudSessionProjectionView view_session) (chunk_event 1 ''m'' '' ''))) = ['' '']"
  "map_option vm_content (toCloudSessionMessage e (message_json \<lparr> vm_id = ''m'', vm_role = RoleAssistant, vm_content = '' '', vm_createdAt = ''t'', vm_attachments = None \<rparr>)) = Some []"
proof -
  have m: "js_trim ''m'' = ''m''" "js_trim ''t'' = ''t''" "js_trim '' '' = []" by code_simp+
  show "map vm_content (vw_messages (reduce_assistant view_session (createCloudSessionProjectionView view_session) (chunk_event 1 ''m'' '' ''))) = ['' '']"
    by (simp add: reduce_assistant_def addMessage_def chunk_event_def view_event_def createCloudSessionProjectionView_def json_field_def
        resolveAssistantMessageContent_def find_by_id_def coalesce_def Let_def)
  show "map_option vm_content (toCloudSessionMessage e (message_json \<lparr> vm_id = ''m'', vm_role = RoleAssistant, vm_content = '' '', vm_createdAt = ''t'',
      vm_attachments = None \<rparr>)) = Some []"
    by (simp add: toCloudSessionMessage_def message_json_def stored_simps readStringOr_def m)
qed

end
