(* ===== verification/Projection_Handoff.thy ===== *)
theory Projection_Handoff
  imports Projection_Service Session_Guarantees
begin

text \<open>
  The append of the projection service (\<open>appendProjectedEvent\<close> of \<open>cloud-server/src/session-projection-service.ts\<close>):
  sanitising, the store's atomic append with the service's callbacks, the cache and the launchpad summary. Each
  worker process has a cache of its own and sessions move between workers. Shown: however workers take turns, the stored
  projection is the replay of the log. What is published to the event buses is part of the result.
\<close>


section \<open>The append of the service\<close>

record append_projected_input =
  ai_event :: append_event_input
  ai_sessionStatus :: "session_status option"
  ai_workflowTerminal :: "workflow_terminal option"

record published =
  pb_event :: session_event
  pb_sessionEvents :: "session_event list"
  pb_workspaceEvents :: "workspace_event list"

text \<open>The error with an empty text, which no operation raises, stands for a callback that does not return.\<close>

definition no_return :: error where
  "no_return = Error []"

definition cache_key :: "append_projected_input \<Rightarrow> string" where
  "cache_key inp = key [ap_tenantId (ai_event inp), ap_sessionId (ai_event inp)]"

definition projected_input ::
  "env \<Rightarrow> projection_env \<Rightarrow> append_projected_input \<Rightarrow> json \<Rightarrow> view_cache \<Rightarrow> projected_event_input" where
  "projected_input e pn inp payload c =
     \<lparr> pe_event = (ai_event inp)\<lparr> ap_payload := Some payload \<rparr>, pe_sessionStatus = ai_sessionStatus inp,
       pe_workflowTerminal = ai_workflowTerminal inp,
       pe_workspace = (\<lambda>session event.
         Inr (workspaceEntityForProjectedEvent (ap_sessionId (ai_event inp)) (ap_type (ai_event inp)) payload event)),
       pe_project = (\<lambda>session event current.
         case project_event pn e c (cache_key inp) payload session event current of
           None \<Rightarrow> Inl no_return
         | Some (view, _) \<Rightarrow> Inr (view_json view, Some (ev_createdAt event))) \<rparr>"

text \<open>The view the service keeps after the append, with its size: the one its callback made (\<open>s1\<close> is the store once the
  event is logged, from which the callback's arguments are read), or else the stored one, normalized.\<close>

definition summary_view ::
  "env \<Rightarrow> projection_env \<Rightarrow> append_projected_input \<Rightarrow> json \<Rightarrow> view_cache \<Rightarrow> 'a session_store_scheme \<Rightarrow> projected_event_result
    \<Rightarrow> (projection_view \<times> int) option" where
  "summary_view e pn inp payload c s1 r =
     (if pr_projectionAdvanced r
      then let ss = session_at s1 (ap_tenantId (ai_event inp)) (ap_sessionId (ai_event inp))
           in project_event pn e c (cache_key inp) payload (ss_record ss) (pr_event r) (ss_projection ss)
      else map_option (\<lambda>v. (v, approxJsonBytes (view_json v)))
        (normalizeCloudSessionProjectionView pn e (case pr_projection r of Some p \<Rightarrow> pj_view p | None \<Rightarrow> JNull) (pr_session r)))"

definition append_summary :: "projection_env \<Rightarrow> append_projected_input \<Rightarrow> projected_event_result \<Rightarrow> projection_view \<Rightarrow> launchpad_summary" where
  "append_summary pn inp r view =
     (launchpad_input pn (ap_tenantId (ai_event inp)) (pr_session r) (ap_sessionId (ai_event inp)) view)
       \<lparr> lp_updatedAt := (if vw_updatedAt view = [] then ev_createdAt (pr_event r) else pn_parse pn (vw_updatedAt view)) \<rparr>"

definition appendProjectedEvent ::
  "env \<Rightarrow> projection_env \<Rightarrow> append_projected_input \<Rightarrow> view_cache \<Rightarrow> 'a workflow_store_scheme
    \<Rightarrow> ((error + published) \<times> 'a workflow_store_scheme \<times> view_cache) option" where
  "appendProjectedEvent e pn inp c s =
     (if \<not> isCloudProjectedSessionEventType (ap_type (ai_event inp))
      then Some (Inl (Error (''Unsupported cloud projection event type: '' @ ap_type (ai_event inp))), s, c)
      else case sanitizeProjectedEventPayload pn (ap_type (ai_event inp)) (asRecord (coalesce (ap_payload (ai_event inp)) (JObj []))) of
        None \<Rightarrow> None
      | Some kvs \<Rightarrow>
          (let payload = JObj kvs; pinp = projected_input e pn inp payload c in
           case appendProjectedSessionEvent e pinp s of
             (Inl err, s') \<Rightarrow> (if err = no_return then None else Some (Inl err, s', c))
           | (Inr r, s') \<Rightarrow>
               (case summary_view e pn inp payload c (snd (appendSessionEvent e (pe_event pinp) s)) r of
                  None \<Rightarrow> None
                | Some (view, bytes) \<Rightarrow>
                    (let c' = cacheView (cache_key inp) (case pr_projection r of Some p \<Rightarrow> pj_sequence p | None \<Rightarrow> 0) view bytes c in
                     case upsertCloudLaunchpadSessionSummary (append_summary pn inp r view) s' of
                       (Inl err, s2) \<Rightarrow> Some (Inl err, s2, c')
                     | (Inr _, s2) \<Rightarrow>
                         Some (Inr \<lparr> pb_event = pr_event r,
                           pb_sessionEvents = (if pr_sessionEventCreated r then [pr_event r] else []),
                           pb_workspaceEvents = (if pr_workspaceEventCreated r then [pr_workspaceEvent r] else []) \<rparr>, s2, c')))))"


section \<open>The reducer reads only the id of the session\<close>

lemma reduce_session_cong:
  assumes "sr_sessionId a = sr_sessionId b"
  shows "reduceCloudSessionProjectionEvent pn a v ev = reduceCloudSessionProjectionEvent pn b v ev"
proof -
  have id: "event_local_id a = event_local_id b" using assms by (simp add: event_local_id_def fun_eq_iff)
  have "taskRunFromPayload a = taskRunFromPayload b" by (simp add: taskRunFromPayload_def fun_eq_iff id)
  moreover have "toolCallFromPayload pn a = toolCallFromPayload pn b"
    by (simp add: toolCallFromPayload_def fun_eq_iff id cong: option.case_cong)
  moreover have "pendingApprovalFromPayload a = pendingApprovalFromPayload b" "pendingQuestionFromPayload a = pendingQuestionFromPayload b"
    "resolved_approval_of a = resolved_approval_of b" "resolved_question_of a = resolved_question_of b"
    by (simp_all add: pendingApprovalFromPayload_def pendingQuestionFromPayload_def resolved_approval_of_def resolved_question_of_def
        fun_eq_iff id assms)
  ultimately show ?thesis
    by (simp add: reduceCloudSessionProjectionEvent_def reduce_prompt_def reduce_assistant_def reduce_tool_call_def withTaskRunToolCall_def
        reduce_permission_resolved_def reduce_question_resolved_def reduce_error_def Let_def id assms cong: option.case_cong)
qed

section \<open>The stages of an append\<close>

definition same_names :: "session_record \<Rightarrow> session_record \<Rightarrow> bool" where
  "same_names r r' = (sr_sessionId r' = sr_sessionId r \<and> sr_profileName r' = sr_profileName r \<and> sr_title r' = sr_title r)"

lemma same_names_refl [simp]: "same_names r r"
  by (simp add: same_names_def)

lemma same_names_trans: "same_names a b \<Longrightarrow> same_names b c \<Longrightarrow> same_names a c"
  by (simp add: same_names_def)

lemma same_names_readable: "same_names a b \<Longrightarrow> session_readable b = session_readable a"
  by (simp add: same_names_def session_readable_def)

lemma effects_keep_projection:
  assumes "applyProjectedEventEffects e inp u s = (r, s')" "map_get (sessions s) k = Some ss"
  shows "\<exists>ss'. map_get (sessions s') k = Some ss' \<and> ss_events ss' = ss_events ss \<and> ss_projection ss' = ss_projection ss
    \<and> same_names (ss_record ss) (ss_record ss')"
proof -
  let ?t = "ap_tenantId (pe_event inp)" and ?i = "ap_sessionId (pe_event inp)"
  define s1 where "s1 = (case (pe_sessionStatus inp, map_get (sessions s) (key [?t, ?i])) of
              (Some st, Some ss) \<Rightarrow>
                put_session ?t ?i (ss\<lparr> ss_record := (ss_record ss)\<lparr> sr_status := st, sr_updatedAt := u \<rparr> \<rparr>) s
            | _ \<Rightarrow> s)"
  have "sessions s' = sessions s1"
  proof (cases "pe_workflowTerminal inp")
    case None
    then show ?thesis using assms(1) by (simp add: applyProjectedEventEffects_def Let_def s1_def)
  next
    case (Some tm)
    note eq = assms(1) [unfolded applyProjectedEventEffects_def Let_def s1_def [symmetric] Some]
    have "s' = (case tm of TerminalCompleted ci \<Rightarrow> snd (completeWorkflowRun e ci s1) | TerminalFailed fi \<Rightarrow> snd (failWorkflowRun e fi s1))"
      using eq by (cases tm) (auto dest!: then_do_state)
    then show ?thesis by (cases tm) (auto intro: terminal_sessions surjective_pairing)
  qed
  moreover have "\<exists>ss'. map_get (sessions s1) k = Some ss' \<and> ss_events ss' = ss_events ss \<and> ss_projection ss' = ss_projection ss
    \<and> same_names (ss_record ss) (ss_record ss')"
    using assms(2) by (auto simp: s1_def put_session_def same_names_def split: option.splits)
  ultimately show ?thesis by simp
qed

lemma result_fields:
  "\<lparr> pr_event = a, pr_workspaceEvent = b, pr_projection = p, pr_session = d, pr_sessionEventCreated = f, pr_workspaceEventCreated = g,
     pr_projectionAdvanced = h \<rparr> = x \<Longrightarrow> pr_event x = a \<and> pr_projection x = p \<and> pr_projectionAdvanced x = h"
  by auto

lemma projected_append_details:
  fixes e :: env and inp :: projected_event_input
  defines "t \<equiv> ap_tenantId (pe_event inp)" and "i \<equiv> ap_sessionId (pe_event inp)"
  assumes "projected_append e inp ss0 s = (Inr x, s')"
  obtains (kept) s1 s3 u where "appendSessionEvent e (pe_event inp) s = (Inr (pr_event x), s1)"
      "ev_sequence (pr_event x) \<le> projection_sequence (session_at s1 t i)" "\<not> pr_projectionAdvanced x"
      "pr_projection x = ss_projection (session_at s1 t i)" "sessions s3 = sessions s1" "applyProjectedEventEffects e inp u s3 = (Inr (), s')"
  | (advanced) s1 s2 s3 u at view at' p where "appendSessionEvent e (pe_event inp) s = (Inr (pr_event x), s1)"
      "projection_sequence (session_at s1 t i) < ev_sequence (pr_event x)" "pr_projectionAdvanced x"
      "pe_project inp (ss_record (session_at s1 t i)) (pr_event x) (ss_projection (session_at s1 t i)) = Inr (view, at)"
      "sessions s2 = sessions s1"
      "writeSessionProjection e \<lparr> wpi_tenantId = t, wpi_sessionId = i, wpi_sequence = ev_sequence (pr_event x), wpi_view = view,
         wpi_leaseToken = ap_leaseToken (pe_event inp), wpi_updatedAt = at' \<rparr> s2 = (Inr p, s3)"
      "pr_projection x = Some p" "applyProjectedEventEffects e inp u s3 = (Inr (), s')"
proof -
  obtain event s1 where ap: "appendSessionEvent e (pe_event inp) s = (Inr event, s1)"
    using assms(3) by (auto simp: projected_append_def Let_def then_do_Inr)
  obtain d wev s2 where ws: "appendWorkspaceEvent e (workspace_input_of inp (sr_userId (ss_record (session_at s1 t i))) d event) s1 = (Inr wev, s2)"
    and rest: "(if projection_sequence (session_at s2 t i) \<ge> ev_sequence event
           then then_do (applyProjectedEventEffects e inp (ev_createdAt event) s2) (\<lambda>_ s3.
                  (Inr \<lparr> pr_event = event, pr_workspaceEvent = wev, pr_projection = ss_projection (session_at s2 t i),
                     pr_session = ss_record (session_at s3 t i), pr_sessionEventCreated = pr_sessionEventCreated x,
                     pr_workspaceEventCreated = pr_workspaceEventCreated x, pr_projectionAdvanced = False \<rparr>, s3))
           else try_in s2 (pe_project inp (ss_record (session_at s2 t i)) event (ss_projection (session_at s2 t i))) (\<lambda>(view, updatedAt).
                then_do (writeSessionProjection e \<lparr> wpi_tenantId = t, wpi_sessionId = i, wpi_sequence = ev_sequence event,
                    wpi_view = view, wpi_leaseToken = ap_leaseToken (pe_event inp),
                    wpi_updatedAt = Some (coalesce updatedAt (ev_createdAt event)) \<rparr> s2) (\<lambda>projection s3.
                then_do (applyProjectedEventEffects e inp (pj_updatedAt projection) s3) (\<lambda>_ s4.
                  (Inr \<lparr> pr_event = event, pr_workspaceEvent = wev, pr_projection = Some projection,
                     pr_session = ss_record (session_at s4 t i), pr_sessionEventCreated = pr_sessionEventCreated x,
                     pr_workspaceEventCreated = pr_workspaceEventCreated x, pr_projectionAdvanced = True \<rparr>, s4))))) = (Inr x, s')"
    using assms(3) ap unfolding projected_append_def Let_def t_def i_def
    by (fastforce simp: then_do_Inr try_in_Inr split: if_splits prod.splits)
  have same: "sessions s2 = sessions s1" by (rule appendWorkspaceEvent_sessions [OF ws])
  then have at: "session_at s2 t i = session_at s1 t i" by (simp add: session_at_def)
  show thesis
  proof (cases "projection_sequence (session_at s1 t i) \<ge> ev_sequence event")
    case True
    with rest obtain s3 where "applyProjectedEventEffects e inp (ev_createdAt event) s2 = (Inr (), s')" "pr_event x = event"
      "\<not> pr_projectionAdvanced x" "pr_projection x = ss_projection (session_at s1 t i)"
      by (auto simp: at then_do_Inr dest!: result_fields)
    with ap True same show thesis by (intro kept [of s1 s2]) simp_all
  next
    case False
    with rest obtain view upd p s3 where
      "pe_project inp (ss_record (session_at s1 t i)) event (ss_projection (session_at s1 t i)) = Inr (view, upd)"
      "writeSessionProjection e \<lparr> wpi_tenantId = t, wpi_sessionId = i, wpi_sequence = ev_sequence event, wpi_view = view,
         wpi_leaseToken = ap_leaseToken (pe_event inp), wpi_updatedAt = Some (coalesce upd (ev_createdAt event)) \<rparr> s2 = (Inr p, s3)"
      "applyProjectedEventEffects e inp (pj_updatedAt p) s3 = (Inr (), s')" "pr_event x = event" "pr_projectionAdvanced x" "pr_projection x = Some p"
      by (auto simp: at then_do_Inr try_in_Inr dest!: result_fields)
    with ap False same show thesis by (intro advanced [of s1 view upd s2]) simp_all
  qed
qed

section \<open>Projections in step with the log\<close>

definition log_view :: "projection_env \<Rightarrow> session_record \<Rightarrow> session_event list \<Rightarrow> projection_view option" where
  "log_view pn session log = reduce_events pn session (createCloudSessionProjectionView session) log"

text \<open>What a worker's cache holds for a session is the view of a prefix of its log.\<close>

definition replays_prefix :: "projection_env \<Rightarrow> string \<Rightarrow> session_record \<Rightarrow> session_event list \<Rightarrow> view_cache \<Rightarrow> bool" where
  "replays_prefix pn k session log c \<longleftrightarrow> cache_exact c \<and> (\<forall>cached. map_get (vc_viewCache c) k = Some cached \<longrightarrow>
     cv_sequence cached \<le> int (length log) \<and> log_view pn session (take (nat (cv_sequence cached)) log) = Some (cv_view cached))"

definition projection_replays :: "projection_env \<Rightarrow> string \<Rightarrow> session_record \<Rightarrow> session_state \<Rightarrow> session_projection \<Rightarrow> projection_view \<Rightarrow> bool" where
  "projection_replays pn k session ss p v \<longleftrightarrow> sr_sessionId session = sr_sessionId (ss_record ss) \<and> session_readable session
     \<and> log_view pn session (ss_events ss) = Some v \<and> pj_view p = view_json v \<and> pj_sequence p = int (length (ss_events ss))"

text \<open>The worker processes are indexed by a type of the caller's choice.\<close>

definition in_sync :: "projection_env \<Rightarrow> string \<Rightarrow> 'a session_store_scheme \<Rightarrow> ('w \<Rightarrow> view_cache) \<Rightarrow> bool" where
  "in_sync pn k s caches \<longleftrightarrow> (\<exists>ss. map_get (sessions s) k = Some ss \<and> session_inv k ss \<and> session_readable (ss_record ss)
     \<and> (case ss_projection ss of
          None \<Rightarrow> ss_events ss = [] \<and> (\<forall>w. cache_exact (caches w) \<and> map_get (vc_viewCache (caches w)) k = None)
        | Some p \<Rightarrow> \<exists>session v. projection_replays pn k session ss p v \<and> (\<forall>w. replays_prefix pn k session (ss_events ss) (caches w))))"

definition stored_stable :: "projection_env \<Rightarrow> string \<Rightarrow> 'a session_store_scheme \<Rightarrow> bool" where
  "stored_stable pn k s \<longleftrightarrow> (\<forall>ss p v. map_get (sessions s) k = Some ss \<and> ss_projection ss = Some p \<and> pj_view p = view_json v \<longrightarrow> view_stable pn v)"

lemma cacheView_get:
  assumes "cache_exact c" "map_get (vc_viewCache (cacheView k n v b c)) k' = Some x"
  shows "if k' = k then x = \<lparr> cv_sequence = n, cv_view = v, cv_bytes = b \<rparr> else map_get (vc_viewCache c) k' = Some x"
proof (cases "k' = k")
  case True
  then show ?thesis using cacheView_bounded_lru [OF assms(1) refl, of k n v b] assms(2) by simp
next
  case False
  obtain dropped where d: "map_delete k (vc_viewCache c) @ [(k, \<lparr> cv_sequence = n, cv_view = v, cv_bytes = b \<rparr>)]
      = dropped @ vc_viewCache (cacheView k n v b c)"
    using cacheView_bounded_lru [OF assms(1) refl, of k n v b] by blast
  have "(k', x) \<in> set (vc_viewCache (cacheView k n v b c))" using assms(2) by (auto simp: map_get_def dest: map_of_SomeD)
  then have "(k', x) \<in> set (map_delete k (vc_viewCache c))"
    using d False by (metis Pair_inject Un_iff empty_iff insert_iff list.set set_append)
  then have "(k', x) \<in> set (vc_viewCache c)" by (auto simp: map_delete_def)
  then show ?thesis using False assms(1) by (simp add: cache_exact_def map_ok_def map_get_def)
qed

lemma cacheView_exact: "cache_exact c \<Longrightarrow> cache_exact (cacheView k n v b c)"
  using cacheView_bounded_lru [OF _ refl] by blast

lemma replays_prefix_append:
  "replays_prefix pn k session log c \<Longrightarrow> replays_prefix pn k session (log @ rest) c"
  by (auto simp: replays_prefix_def)

lemma replays_prefix_cache:
  assumes "replays_prefix pn k session log c"
    and "k' = k \<longrightarrow> n \<le> int (length log) \<and> log_view pn session (take (nat n) log) = Some v"
  shows "replays_prefix pn k session log (cacheView k' n v b c)"
proof -
  have exact: "cache_exact c" using assms(1) by (simp add: replays_prefix_def)
  have "cv_sequence x \<le> int (length log) \<and> log_view pn session (take (nat (cv_sequence x)) log) = Some (cv_view x)"
    if "map_get (vc_viewCache (cacheView k' n v b c)) k = Some x" for x
    using cacheView_get [OF exact that] assms by (auto simp: replays_prefix_def split: if_splits)
  then show ?thesis using cacheView_exact [OF exact] by (simp add: replays_prefix_def)
qed

text \<open>The callback makes the view of the extended log.\<close>

lemma callback_replays:
  assumes "projection_replays pn k session0 ss p v" "view_stable pn v" "replays_prefix pn k session0 (ss_events ss) c"
    and "project_event pn e c k payload session ev (Some p) = Some (view, b)" "sr_sessionId session = sr_sessionId session0"
  shows "log_view pn session0 (ss_events ss @ [ev]) = Some view"
proof -
  note p = assms(1) [unfolded projection_replays_def]
  have warm: "\<forall>cached. map_get (vc_viewCache c) k = Some cached \<and> cv_sequence cached = pj_sequence p \<longrightarrow> cv_view cached = v"
    using assms(3) p by (auto simp: replays_prefix_def)
  have log: "reduce_events pn session0 (createCloudSessionProjectionView session0) (ss_events ss) = Some v" using p by (simp add: log_view_def)
  have "reduceCloudSessionProjectionEvent pn session v ev = Some view"
    using warm_and_cold_projection_agree [OF log _ assms(2) _ warm, of e payload session ev] p assms(4) by simp
  then show ?thesis using log reduce_session_cong [OF assms(5)] by (simp add: log_view_def reduce_events_append)
qed

section \<open>One append\<close>

lemma appendProjectedSessionEvent_failed:
  assumes "appendProjectedSessionEvent e inp s = (Inl err, s')"
  shows "sessions s' = sessions s"
  using assms
proof (cases rule: appendProjectedSessionEvent_cases)
  case (rolled_back er ss s1)
  have ss: "map_get (sessions s) (key [ap_tenantId (pe_event inp), ap_sessionId (pe_event inp)]) = Some ss"
    using rolled_back(1) by (simp add: requireSession_Inr)
  have "touches_at (key [ap_tenantId (pe_event inp), ap_sessionId (pe_event inp)]) s s1"
    using projected_append_touches [of inp s e ss] rolled_back(2) by simp
  then show ?thesis using ss by (auto simp: touches_at_def rolled_back(4))
qed simp_all

lemma appendProjectedEvent_cases:
  assumes "appendProjectedEvent e pn inp c s = Some (r, s', c')"
  obtains (refused) "sessions s' = sessions s" "c' = c"
  | (appended) payload x s1 view bytes where "appendProjectedSessionEvent e (projected_input e pn inp payload c) s = (Inr x, s1)"
      "summary_view e pn inp payload c (snd (appendSessionEvent e (pe_event (projected_input e pn inp payload c)) s)) x = Some (view, bytes)"
      "c' = cacheView (cache_key inp) (case pr_projection x of Some p \<Rightarrow> pj_sequence p | None \<Rightarrow> 0) view bytes c" "sessions s' = sessions s1"
proof -
  have refused_if: thesis if "sessions s' = sessions s" "c' = c" using that by (rule refused)
  show thesis
  proof (cases "isCloudProjectedSessionEventType (ap_type (ai_event inp))")
    case False
    then show ?thesis using assms by (intro refused) (simp_all add: appendProjectedEvent_def)
  next
    case type: True
    obtain kvs where kvs: "sanitizeProjectedEventPayload pn (ap_type (ai_event inp)) (asRecord (coalesce (ap_payload (ai_event inp)) (JObj []))) = Some kvs"
      using assms type by (auto simp: appendProjectedEvent_def split: option.splits)
    let ?pinp = "projected_input e pn inp (JObj kvs) c"
    obtain q s1 where run: "appendProjectedSessionEvent e ?pinp s = (q, s1)" by fastforce
    note eq = assms [unfolded appendProjectedEvent_def, simplified type kvs not_True_eq_False if_False option.case Let_def run prod.case]
    show ?thesis
    proof (cases q)
      case (Inl err)
      then have "s' = s1" "c' = c" using eq by (simp_all split: if_splits)
      then show ?thesis using appendProjectedSessionEvent_failed run Inl by (intro refused) auto
    next
      case (Inr x)
      obtain view bytes where sv: "summary_view e pn inp (JObj kvs) c (snd (appendSessionEvent e (pe_event ?pinp) s)) x = Some (view, bytes)"
        using eq Inr by (auto split: option.splits)
      obtain y s2 where l: "upsertCloudLaunchpadSessionSummary (append_summary pn inp x view) s1 = (y, s2)" by fastforce
      have "c' = cacheView (cache_key inp) (case pr_projection x of Some p \<Rightarrow> pj_sequence p | None \<Rightarrow> 0) view bytes c" "s' = s2"
        using eq unfolding Inr sum.case sv option.case prod.case l by (auto split: sum.splits)
      then show ?thesis using run Inr sv launchpad_sessions [OF l] by (intro appended [of "JObj kvs" x s1 view bytes]) simp_all
    qed
  qed
qed

lemma touches_inv:
  assumes "touches_at k s s'" "map_get (sessions s) k = Some ss" "session_inv k ss" "map_get (sessions s') k = Some ss'"
  shows "session_inv k ss'"
  using assms by (auto simp: touches_at_def advances_def)

lemma touches_other: "touches_at k' s s' \<Longrightarrow> k \<noteq> k' \<Longrightarrow> map_get (sessions s') k = map_get (sessions s) k"
  by (auto simp: touches_at_def)

lemma pe_event_of [simp]:
  "ap_tenantId (pe_event (projected_input e pn inp payload c)) = ap_tenantId (ai_event inp)"
  "ap_sessionId (pe_event (projected_input e pn inp payload c)) = ap_sessionId (ai_event inp)"
  by (simp_all add: projected_input_def)

lemma projected_callback:
  "pe_project (projected_input e pn inp payload c) session ev current = Inr (j, at) \<longleftrightarrow>
    (\<exists>view b. project_event pn e c (cache_key inp) payload session ev current = Some (view, b) \<and> j = view_json view \<and> at = Some (ev_createdAt ev))"
  by (auto simp: projected_input_def split: option.splits prod.splits)

text \<open>The first event of a session: its view starts empty.\<close>

lemma first_callback:
  assumes "map_get (vc_viewCache c) k = None" "project_event pn e c k payload session ev None = Some (view, b)"
  shows "log_view pn session [ev] = Some view"
  using assms by (auto simp: project_event_def warm_view_def normalize_null log_view_def split: option.splits)

lemma in_sync_sessions: "sessions s' = sessions s \<Longrightarrow> in_sync pn k s' caches = in_sync pn k s caches"
  by (simp add: in_sync_def)

lemma in_sync_at_end:
  assumes "in_sync pn k s caches" "map_get (sessions s) k = Some ss"
  shows "projection_sequence ss = int (length (ss_events ss))" "ev \<in> set (ss_events ss) \<Longrightarrow> ev_sequence ev \<le> int (length (ss_events ss))"
    "ss_nextEventSequence ss = int (length (ss_events ss))" "session_inv k ss"
proof -
  show inv: "session_inv k ss" using assms by (auto simp: in_sync_def)
  show "projection_sequence ss = int (length (ss_events ss))"
    using assms by (auto simp: in_sync_def projection_sequence_def projection_replays_def split: option.splits)
  show "ss_nextEventSequence ss = int (length (ss_events ss))" using inv by (simp add: session_inv_def)
  assume "ev \<in> set (ss_events ss)"
  then have "ev_sequence ev \<in> set (map ev_sequence (ss_events ss))" by simp
  also have "map ev_sequence (ss_events ss) = map int [1..<Suc (length (ss_events ss))]" using inv by (simp only: session_inv_def)
  finally show "ev_sequence ev \<le> int (length (ss_events ss))" by auto
qed

text \<open>A new state of the session whose projection replays its log, with the view in the cache of the worker that made it.\<close>

lemma in_syncI:
  assumes "map_get (sessions s) k = Some ss" "session_inv k ss" "session_readable (ss_record ss)" "ss_projection ss = Some p"
    and "projection_replays pn k session ss p v" "\<And>w. replays_prefix pn k session (ss_events ss) (caches w)"
  shows "in_sync pn k s (caches(w := cacheView k (pj_sequence p) v b (caches w)))"
proof -
  have "replays_prefix pn k session (ss_events ss) (cacheView k (pj_sequence p) v b (caches w))"
    using assms(5) by (intro replays_prefix_cache [OF assms(6)]) (simp add: projection_replays_def)
  then show ?thesis using assms unfolding in_sync_def by (intro exI [of _ ss]) auto
qed

lemma kept_in_sync:
  assumes "in_sync pn k s caches" "stored_stable pn k s" "map_get (sessions s) k = Some ss" "ev \<in> set (ss_events ss)"
    and "map_get (sessions s') k = Some ss'" "session_inv k ss'" "ss_events ss' = ss_events ss" "ss_projection ss' = ss_projection ss"
    and "same_names (ss_record ss) (ss_record ss')" "ss_projection ss = Some p"
    and "normalizeCloudSessionProjectionView pn e (pj_view p) session = Some view"
  shows "in_sync pn k s' (caches(w := cacheView k (pj_sequence p) view b (caches w)))"
proof -
  obtain session0 v where p: "projection_replays pn k session0 ss p v" "\<And>w. replays_prefix pn k session0 (ss_events ss) (caches w)"
    and readable: "session_readable (ss_record ss)"
    using assms(1,3,10) by (auto simp: in_sync_def)
  have "view_readable v" using p(1) created_readable [of session0] unfolding projection_replays_def log_view_def
    by (blast intro: reduce_events_invariant [where P = view_readable] readable_step)
  moreover have "view_stable pn v" using assms(2,3,10) p(1) by (auto simp: stored_stable_def projection_replays_def)
  ultimately have view: "view = v" using view_back [of v pn e session] assms(11) p(1) by (simp add: projection_replays_def)
  show ?thesis unfolding view using assms(5-10) p readable
    by (intro in_syncI [of s' k ss' p pn session0 v caches]) (simp_all add: projection_replays_def same_names_def session_readable_def)
qed

lemma advanced_in_sync:
  assumes "in_sync pn k s caches" "stored_stable pn k s" "map_get (sessions s) k = Some ss" "ev_sequence ev = int (length (ss_events ss)) + 1"
    and "project_event pn e (caches w) k payload session ev (ss_projection ss) = Some (view, b0)" "same_names (ss_record ss) session"
    and "map_get (sessions s') k = Some ss'" "session_inv k ss'" "ss_events ss' = ss_events ss @ [ev]" "same_names (ss_record ss) (ss_record ss')"
    and "ss_projection ss' = Some p" "pj_view p = view_json view" "pj_sequence p = ev_sequence ev"
  shows "in_sync pn k s' (caches(w := cacheView k (pj_sequence p) view b (caches w)))"
proof -
  have readable: "session_readable (ss_record ss)" using assms(1,3) by (auto simp: in_sync_def)
  show ?thesis
  proof (cases "ss_projection ss")
    case None
    then have empty: "ss_events ss = []" "\<And>w. cache_exact (caches w)" "\<And>w. map_get (vc_viewCache (caches w)) k = None"
      using assms(1,3) by (auto simp: in_sync_def)
    have "log_view pn session [ev] = Some view" using assms(5) None by (intro first_callback [OF empty(3)]) simp
    then show ?thesis using assms(4,6-13) empty readable same_names_readable [OF assms(6)] same_names_readable [OF assms(10)]
      by (intro in_syncI [of s' k ss' p pn session view caches]) (simp_all add: projection_replays_def replays_prefix_def same_names_def)
  next
    case (Some p0)
    then obtain session0 v where p: "projection_replays pn k session0 ss p0 v" "\<And>w. replays_prefix pn k session0 (ss_events ss) (caches w)"
      using assms(1,3) by (auto simp: in_sync_def)
    have "view_stable pn v" using assms(2,3) Some p(1) by (auto simp: stored_stable_def projection_replays_def)
    moreover have "sr_sessionId session = sr_sessionId session0" using assms(6) p(1) by (simp add: projection_replays_def same_names_def)
    ultimately have "log_view pn session0 (ss_events ss @ [ev]) = Some view" by (rule callback_replays [OF p(1) _ p(2) assms(5) [unfolded Some]])
    then show ?thesis using assms(4,6-13) p readable same_names_readable [OF assms(10)]
      by (intro in_syncI [of s' k ss' p pn session0 view caches])
        (simp_all add: projection_replays_def same_names_def replays_prefix_append)
  qed
qed

text \<open>An append of the session keeps every cache and the stored projection in step with the log.\<close>

lemma own_append_in_sync:
  assumes "in_sync pn (cache_key inp) s caches" "stored_stable pn (cache_key inp) s"
    and "appendProjectedEvent e pn inp (caches w) s = Some (r, s', c')"
  shows "in_sync pn (cache_key inp) s' (caches(w := c'))"
  using assms(3)
proof (cases rule: appendProjectedEvent_cases)
  case refused
  then show ?thesis using assms(1) by (simp add: in_sync_sessions [OF refused(1)])
next
  case (appended payload x s1 view bytes)
  let ?t = "ap_tenantId (ai_event inp)" and ?i = "ap_sessionId (ai_event inp)" and ?k = "cache_key inp"
  let ?pinp = "projected_input e pn inp payload (caches w)"
  have k: "?k = key [?t, ?i]" by (simp add: cache_key_def)
  obtain ss0 where run: "projected_append e ?pinp ss0 s = (Inr x, s1)" and req: "requireSession s ?t ?i = Inr ss0"
    using appended(1) by (cases rule: appendProjectedSessionEvent_cases) simp_all
  have ss1: "map_get (sessions s) ?k = Some ss0" using req by (simp add: k requireSession_Inr)
  note ss = ss1 in_sync_at_end(4) [OF assms(1) ss1]
  have "touches_at ?k s s1" using projected_append_touches [of ?pinp s e ss0] run by (simp add: k)
  note inv = touches_inv [OF this ss]
  note at_end = in_sync_at_end [OF assms(1) ss(1)]
  have goal: "in_sync pn ?k s' (caches(w := c'))"
    if "in_sync pn ?k s1 (caches(w := cacheView ?k (case pr_projection x of Some p \<Rightarrow> pj_sequence p | None \<Rightarrow> 0) view bytes (caches w)))"
    using that by (simp add: appended(3) in_sync_sessions [OF appended(4)])
  from run show ?thesis
  proof (cases rule: projected_append_details)
    case (kept s2 s3 u)
    from kept(1) have "pr_event x \<in> set (ss_events ss0) \<and> s2 = s"
    proof (cases rule: appendSessionEvent_cases)
      case (existing ss ev)
      then show ?thesis using req by simp
    next
      case (appended ss)
      then have "ss = ss0" "session_at s2 ?t ?i = append_event (event_of e (pe_event ?pinp) ss) ss"
        using req by (simp_all add: session_at_def put_session_def)
      then show ?thesis using kept(2) appended(4) at_end by (simp add: append_event_def projection_sequence_def event_of_def)
    qed simp
    then have ev: "pr_event x \<in> set (ss_events ss0)" and at: "session_at s2 ?t ?i = ss0" using ss(1) by (simp_all add: session_at_def k)
    obtain p where p: "ss_projection ss0 = Some p" using assms(1) ss(1) ev by (auto simp: in_sync_def split: option.splits)
    have "map_get (sessions s3) ?k = Some ss0" using kept(5) ss(1) \<open>_ \<and> s2 = s\<close> by simp
    from effects_keep_projection [OF kept(6) this] obtain ss' where ss': "map_get (sessions s1) ?k = Some ss'" "ss_events ss' = ss_events ss0"
      "ss_projection ss' = ss_projection ss0" "same_names (ss_record ss0) (ss_record ss')" by blast
    have "normalizeCloudSessionProjectionView pn e (pj_view p) (pr_session x) = Some view"
      using appended(2) kept(3,4) p at by (auto simp: summary_view_def)
    from kept_in_sync [OF assms(1,2) ss(1) ev ss'(1) inv [OF ss'(1)] ss'(2-4) p this] goal kept(4) p at show ?thesis by simp
  next
    case (advanced s2 s3 s4 u at view' at' p)
    from advanced(1) have "ss_projection (session_at s2 ?t ?i) = ss_projection ss0 \<and> same_names (ss_record ss0) (ss_record (session_at s2 ?t ?i))
      \<and> map_get (sessions s2) ?k = Some (session_at s2 ?t ?i) \<and> ss_events (session_at s2 ?t ?i) = ss_events ss0 @ [pr_event x]
      \<and> ev_sequence (pr_event x) = int (length (ss_events ss0)) + 1"
    proof (cases rule: appendSessionEvent_cases)
      case (existing ss ev)
      then have "ev_sequence (pr_event x) \<le> projection_sequence ss0" "s2 = s" using req at_end by simp_all
      then show ?thesis using advanced(2) ss(1) by (simp add: session_at_def k)
    next
      case (appended ss)
      then have "ss = ss0" "session_at s2 ?t ?i = append_event (event_of e (pe_event ?pinp) ss) ss" "map_get (sessions s2) ?k = Some (session_at s2 ?t ?i)"
        using req by (simp_all add: session_at_def put_session_def k)
      then show ?thesis using appended(4) at_end by (simp add: append_event_def event_of_def same_names_def)
    qed simp
    then have ss2: "ss_projection (session_at s2 ?t ?i) = ss_projection ss0" "same_names (ss_record ss0) (ss_record (session_at s2 ?t ?i))"
      "map_get (sessions s2) ?k = Some (session_at s2 ?t ?i)" "ss_events (session_at s2 ?t ?i) = ss_events ss0 @ [pr_event x]"
      and seq: "ev_sequence (pr_event x) = int (length (ss_events ss0)) + 1" by blast+
    obtain b where cb: "project_event pn e (caches w) ?k payload (ss_record (session_at s2 ?t ?i)) (pr_event x) (ss_projection ss0) = Some (view, b)"
      and json: "view' = view_json view"
      using advanced(1,3,4) appended(2) ss2(1) by (auto simp: projected_callback summary_view_def Let_def)
    from advanced(6) obtain ss4 where ss4: "map_get (sessions s4) ?k = Some ss4" "ss_events ss4 = ss_events ss0 @ [pr_event x]"
      "ss_projection ss4 = Some p" "same_names (ss_record ss0) (ss_record ss4)" "pj_view p = view_json view" "pj_sequence p = ev_sequence (pr_event x)"
    proof (cases rule: writeSessionProjection_cases)
      case (existing ss p')
      then have "ss = session_at s2 ?t ?i" using ss2(3) advanced(5) by (simp add: requireSession_Inr k)
      then show ?thesis using existing(4,5) advanced(2) by (simp add: projection_sequence_def)
    next
      case (written ss p')
      then have "ss = session_at s2 ?t ?i" using ss2(3) advanced(5) by (simp add: requireSession_Inr k)
      then show ?thesis using written(2-4,6) ss2 json
        by (intro that [of "put_projection p ss"]) (simp_all add: put_session_def k put_projection_def same_names_def)
    qed simp
    from effects_keep_projection [OF advanced(8) ss4(1)] obtain ss' where ss': "map_get (sessions s1) ?k = Some ss'"
      "ss_events ss' = ss_events ss0 @ [pr_event x]" "ss_projection ss' = Some p" "same_names (ss_record ss0) (ss_record ss')"
      using ss4(2-4) same_names_trans by auto
    from advanced_in_sync [OF assms(1,2) ss(1) seq cb ss2(2) ss'(1) inv [OF ss'(1)] ss'(2,4,3) ss4(5,6)] goal advanced(7) show ?thesis by simp
  qed
qed

text \<open>Another cache of one worker, the session unchanged.\<close>

lemma cache_in_sync:
  assumes "in_sync pn k s caches" "map_get (sessions s') k = map_get (sessions s) k" "cache_exact c'"
    and "map_get (vc_viewCache (caches w)) k = None \<Longrightarrow> map_get (vc_viewCache c') k = None"
    and "\<And>session log. replays_prefix pn k session log (caches w) \<Longrightarrow> replays_prefix pn k session log c'"
  shows "in_sync pn k s' (caches(w := c'))"
proof -
  obtain ss where ss: "map_get (sessions s) k = Some ss" using assms(1) by (auto simp: in_sync_def)
  show ?thesis
  proof (cases "ss_projection ss")
    case None
    then have "ss_events ss = []" "\<And>w'. cache_exact (caches w') \<and> map_get (vc_viewCache (caches w')) k = None"
      using assms(1) ss by (auto simp: in_sync_def)
    then show ?thesis using None assms ss by (simp add: in_sync_def)
  next
    case (Some p)
    then obtain session v where p: "projection_replays pn k session ss p v" "\<And>w'. replays_prefix pn k session (ss_events ss) (caches w')"
      using assms(1) ss by (auto simp: in_sync_def)
    have "replays_prefix pn k session (ss_events ss) ((caches(w := c')) w')" for w' using p(2) assms(5) by simp
    then have "\<exists>session v. projection_replays pn k session ss p v \<and> (\<forall>w'. replays_prefix pn k session (ss_events ss) ((caches(w := c')) w'))"
      using p(1) by blast
    moreover have "session_inv k ss \<and> session_readable (ss_record ss)" using assms(1) ss by (auto simp: in_sync_def)
    ultimately show ?thesis using Some ss unfolding in_sync_def assms(2) by (intro exI [of _ ss]) simp
  qed
qed

text \<open>An append of another session leaves the session alone; the worker's cache may lose its view.\<close>

lemma other_append_in_sync:
  assumes "in_sync pn k s caches" "cache_key inp \<noteq> k" "appendProjectedEvent e pn inp (caches w) s = Some (r, s', c')"
  shows "in_sync pn k s' (caches(w := c'))"
  using assms(3)
proof (cases rule: appendProjectedEvent_cases)
  case refused
  then show ?thesis using assms(1) by (simp add: in_sync_sessions [OF refused(1)])
next
  case (appended payload x s1 view bytes)
  have "touches_at (cache_key inp) s s1" using appendProjectedSessionEvent_touches [OF appended(1)] by (simp add: cache_key_def)
  then have same: "map_get (sessions s') k = map_get (sessions s) k" using touches_other assms(2) by (metis appended(4))
  have exact: "cache_exact (caches w)" using assms(1) by (auto simp: in_sync_def replays_prefix_def split: option.splits)
  have none: "map_get (vc_viewCache c') k = None" if "map_get (vc_viewCache (caches w)) k = None"
    using cacheView_get [OF exact] that assms(2) unfolding appended(3) by (metis option.exhaust)
  have rep: "replays_prefix pn k session log c'" if "replays_prefix pn k session log (caches w)" for session log
    unfolding appended(3) using that assms(2) by (intro replays_prefix_cache) simp_all
  have "cache_exact c'" unfolding appended(3) by (rule cacheView_exact [OF exact])
  then show ?thesis using assms(1) none rep by (intro cache_in_sync [OF _ same])
qed


section \<open>Workers taking turns\<close>

text \<open>One step of a system of workers over one store, seen from the session \<open>k\<close>: a worker appends an event, of this session or of
  another; a worker restarts with an empty cache; or some other operation changes the store but not this session's log,
  projection and names (a lease, a command, a checkpoint).\<close>

inductive worker_step :: "projection_env \<Rightarrow> string \<Rightarrow> 'a workflow_store_scheme \<times> ('w \<Rightarrow> view_cache) \<Rightarrow>
    'a workflow_store_scheme \<times> ('w \<Rightarrow> view_cache) \<Rightarrow> bool" for pn :: projection_env and k :: string where
  append_own: "stored_stable pn k s \<Longrightarrow> cache_key inp = k \<Longrightarrow> appendProjectedEvent e pn inp (caches w) s = Some (r, s', c') \<Longrightarrow>
    worker_step pn k (s, caches) (s', caches(w := c'))"
| append_other: "cache_key inp \<noteq> k \<Longrightarrow> appendProjectedEvent e pn inp (caches w) s = Some (r, s', c') \<Longrightarrow>
    worker_step pn k (s, caches) (s', caches(w := c'))"
| restart: "worker_step pn k (s, caches) (s, caches(w := \<lparr> vc_viewCache = [], vc_totalCachedBytes = 0 \<rparr>))"
| operation: "(\<And>ss. map_get (sessions s) k = Some ss \<Longrightarrow> \<exists>ss'. map_get (sessions s') k = Some ss' \<and> ss_events ss' = ss_events ss
      \<and> ss_projection ss' = ss_projection ss \<and> same_names (ss_record ss) (ss_record ss') \<and> (session_inv k ss \<longrightarrow> session_inv k ss')) \<Longrightarrow>
    worker_step pn k (s, caches) (s', caches)"

lemma empty_cache: "cache_exact \<lparr> vc_viewCache = [], vc_totalCachedBytes = 0 \<rparr>" "map_get (vc_viewCache \<lparr> vc_viewCache = [], vc_totalCachedBytes = 0 \<rparr>) k = None"
  by (simp_all add: cache_exact_def cached_bytes_def map_ok_def map_get_def)

lemma restart_in_sync:
  assumes "in_sync pn k s caches"
  shows "in_sync pn k s (caches(w := \<lparr> vc_viewCache = [], vc_totalCachedBytes = 0 \<rparr>))"
  using assms by (rule cache_in_sync) (use empty_cache in \<open>auto simp: replays_prefix_def\<close>)

lemma operation_in_sync:
  assumes "in_sync pn k s caches" "\<And>ss. map_get (sessions s) k = Some ss \<Longrightarrow> \<exists>ss'. map_get (sessions s') k = Some ss' \<and> ss_events ss' = ss_events ss
      \<and> ss_projection ss' = ss_projection ss \<and> same_names (ss_record ss) (ss_record ss') \<and> (session_inv k ss \<longrightarrow> session_inv k ss')"
  shows "in_sync pn k s' caches"
proof -
  obtain ss where ss: "map_get (sessions s) k = Some ss" using assms(1) by (auto simp: in_sync_def)
  then obtain ss' where ss': "map_get (sessions s') k = Some ss'" "ss_events ss' = ss_events ss" "ss_projection ss' = ss_projection ss"
    "same_names (ss_record ss) (ss_record ss')" "session_inv k ss \<longrightarrow> session_inv k ss'" using assms(2) by blast
  have "projection_replays pn k session ss' = projection_replays pn k session ss" for session
    using ss'(2,4) by (simp add: projection_replays_def same_names_def fun_eq_iff)
  moreover have "session_inv k ss' \<and> session_readable (ss_record ss')"
    using assms(1) ss ss'(5) same_names_readable [OF ss'(4)] by (auto simp: in_sync_def)
  ultimately show ?thesis using assms(1) ss ss' by (simp add: in_sync_def cong: option.case_cong)
qed

lemma worker_step_in_sync:
  assumes "worker_step pn k (s, caches) (s', caches')" "in_sync pn k s caches"
  shows "in_sync pn k s' caches'"
  using assms(1)
proof (cases rule: worker_step.cases)
  case (append_own inp e w r c')
  then show ?thesis using own_append_in_sync assms(2) by metis
next
  case (append_other inp e w r c')
  then show ?thesis using other_append_in_sync [OF assms(2)] by metis
next
  case (restart w)
  then show ?thesis using restart_in_sync [OF assms(2)] by simp
next
  case operation
  show ?thesis unfolding operation(1) by (rule operation_in_sync [OF assms(2)]) (rule operation(2))
qed

text \<open>C32: Handing a session from worker to worker does not change what its clients see: a session starts with an empty log, any
  number of workers, each with its own cache, append events, restart and evict in any order, while operations run that leave
  the log, the projection and the names of the session alone, and
  the stored projection is always the reducer's fold of the whole log from an empty view, standing at the last event, as
  long as every view stored on the way reads back unchanged (no message text blank, tool payloads sanitized).\<close>

theorem handoff_replays_log:
  assumes "map_get (sessions s0) k = Some ss0" "session_inv k ss0" "session_readable (ss_record ss0)" "ss_events ss0 = []" "ss_projection ss0 = None"
    and "(worker_step pn k)\<^sup>*\<^sup>* (s0, \<lambda>w. \<lparr> vc_viewCache = [], vc_totalCachedBytes = 0 \<rparr>) (s, caches)"
  shows "\<exists>ss. map_get (sessions s) k = Some ss \<and>
    (case ss_projection ss of
       None \<Rightarrow> ss_events ss = []
     | Some p \<Rightarrow> \<exists>session v. sr_sessionId session = sr_sessionId (ss_record ss)
         \<and> reduce_events pn session (createCloudSessionProjectionView session) (ss_events ss) = Some v
         \<and> pj_view p = view_json v \<and> pj_sequence p = int (length (ss_events ss))
         \<and> (\<forall>w cached. map_get (vc_viewCache (caches w)) k = Some cached \<and> cv_sequence cached = pj_sequence p \<longrightarrow> cv_view cached = v))"
proof -
  have "in_sync pn k s0 (\<lambda>w. \<lparr> vc_viewCache = [], vc_totalCachedBytes = 0 \<rparr>)"
    using assms(1-5) empty_cache by (simp add: in_sync_def)
  with assms(6) have "in_sync pn k s caches"
    by (induction rule: rtranclp_induct2) (use worker_step_in_sync in blast)+
  then obtain ss where ss: "map_get (sessions s) k = Some ss" by (auto simp: in_sync_def)
  show ?thesis
  proof (cases "ss_projection ss")
    case None
    then show ?thesis using \<open>in_sync pn k s caches\<close> ss by (auto simp: in_sync_def)
  next
    case (Some p)
    then obtain session v where "projection_replays pn k session ss p v" "\<And>w. replays_prefix pn k session (ss_events ss) (caches w)"
      using \<open>in_sync pn k s caches\<close> ss by (auto simp: in_sync_def)
    then show ?thesis using ss Some by (force simp: projection_replays_def replays_prefix_def log_view_def)
  qed
qed

definition idle_notice :: append_projected_input where
  "idle_notice = \<lparr> ai_event = (sample_event ''e1'')\<lparr> ap_type := ''session.idle'' \<rparr>, ai_sessionStatus = Some SIdle, ai_workflowTerminal = None \<rparr>"

abbreviation cold_cache :: view_cache where
  "cold_cache \<equiv> \<lparr> vc_viewCache = [], vc_totalCachedBytes = 0 \<rparr>"

abbreviation fresh_session :: session_state where
  "fresh_session \<equiv> sample_session\<lparr> ss_lease := None, ss_nextLeaseAttempt := 0 \<rparr>"

lemma fresh_store:
  "requireSession sample_store ''t'' ''s1'' = Inr fresh_session" "ss_events fresh_session = []" "ss_projection fresh_session = None"
  "sr_userId (ss_record fresh_session) = ''u''"
  by (simp_all add: requireSession_Inr sample_store_def sample_workflow_store_def map_has_def map_get_def Workflow_Runs.sample_session_def
      sample_session_record_def)

lemma idle_view:
  assumes "ev_type ev = ''session.idle''"
  shows "\<exists>v b. project_event pn e cold_cache k payload session ev None = Some (v, b)"
  using assms by (simp add: project_event_def warm_view_def empty_cache normalize_null reduceCloudSessionProjectionEvent_def Let_def)

lemma idle_notice_appended: "\<exists>x s' ss'. appendProjectedSessionEvent sample_env (projected_input sample_env sample_projection_env idle_notice (JObj []) cold_cache)
    sample_store = (Inr x, s') \<and> pr_projectionAdvanced x \<and> map_get (sessions s') (key [''t'', ''s1'']) = Some ss' \<and> ss_events ss' = [pr_event x]
    \<and> (\<exists>v b. summary_view sample_env sample_projection_env idle_notice (JObj []) cold_cache
      (snd (appendSessionEvent sample_env (pe_event (projected_input sample_env sample_projection_env idle_notice (JObj []) cold_cache)) sample_store)) x
        = Some (v, b))"
proof -
  let ?inp = "projected_input sample_env sample_projection_env idle_notice (JObj []) cold_cache"
  let ?ev = "event_of sample_env (pe_event ?inp) fresh_session" and ?ss = "append_event (event_of sample_env (pe_event ?inp) fresh_session) fresh_session"
  let ?s1 = "put_session ''t'' ''s1'' ?ss sample_store"
  have pe: "ap_tenantId (ai_event idle_notice) = ''t''" "ap_sessionId (ai_event idle_notice) = ''s1''" "ap_leaseToken (pe_event ?inp) = None"
    "ap_type (pe_event ?inp) = ''session.idle''" "pe_workflowTerminal ?inp = None" "pe_sessionStatus ?inp = Some SIdle"
    by (simp_all add: projected_input_def idle_notice_def sample_event_def)
  have ap: "appendSessionEvent sample_env (pe_event ?inp) sample_store = (Inr ?ev, ?s1)"
    using fresh_store pe by (simp add: appendSessionEvent_def try_in_def assertLeaseTokenIfPresent_def)
  have at: "session_at ?s1 ''t'' ''s1'' = ?ss" by (simp add: session_at_def put_session_def)
  obtain d where d: "pe_workspace ?inp (ss_record ?ss) ?ev = Inr d" by (simp add: projected_input_def)
  obtain we w where ws: "appendWorkspaceEvent sample_env (workspace_input_of ?inp ''u'' d ?ev) ?s1 = (Inr we, ?s1\<lparr> workspaceEvents := w \<rparr>)"
  proof -
    have "isl (fst (appendWorkspaceEvent sample_env (workspace_input_of ?inp ''u'' (projr (pe_workspace ?inp (ss_record ?ss) ?ev)) ?ev) ?s1)) = False"
      by code_simp
    then obtain we s2 where ap: "appendWorkspaceEvent sample_env (workspace_input_of ?inp ''u'' d ?ev) ?s1 = (Inr we, s2)"
      unfolding d sum.sel by (metis eq_fst_iff isl_def old.sum.exhaust)
    with appendWorkspaceEvent_only [OF ap] that show thesis by blast
  qed
  let ?s2 = "?s1\<lparr> workspaceEvents := w \<rparr>"
  have ss: "sr_userId (ss_record ?ss) = ''u''" "ss_projection ?ss = None" "ss_lease ?ss = None" "ev_type ?ev = ''session.idle''"
    "0 < ev_sequence ?ev"
    using fresh_store pe by (simp_all add: append_event_def event_of_def Workflow_Runs.sample_session_def)
  obtain v b where cb: "project_event sample_projection_env sample_env cold_cache (cache_key idle_notice) (JObj []) (ss_record ?ss) ?ev None = Some (v, b)"
    using idle_view [OF ss(4)] by blast
  then have j: "pe_project ?inp (ss_record ?ss) ?ev None = Inr (view_json v, Some (ev_createdAt ?ev))" by (simp add: projected_callback)
  have req: "requireSession ?s2 ''t'' ''s1'' = Inr ?ss"
    using fresh_store(1) by (simp add: requireSession_Inr put_session_def)
  have at2: "session_at ?s2 ''t'' ''s1'' = ?ss" using at by (simp add: session_at_def)
  have seq: "(ev_sequence ?ev \<le> 0) = False" "(ev_sequence ?ev < 0) = False" using ss(5) by simp_all
  have events: "ss_events ?ss = [?ev]" using fresh_store(2) by (simp add: append_event_def)
  have get: "map_get (sessions (put_session ''t'' ''s1'' y s)) (key [''t'', ''s1'']) = Some y" for y and s :: workflow_store
    by (simp add: put_session_def)
  have kept: "ss_events (put_projection p y) = ss_events y" for p y by (simp add: put_projection_def)
  show ?thesis
    by (simp add: appendProjectedSessionEvent_def projected_append_def Let_def pe fresh_store try_in_def then_do_def ap at d ss ws at2 j seq events
        projection_sequence_def writeSessionProjection_def req applyProjectedEventEffects_def get kept summary_view_def cb)
qed

theorem handoff_replays_log_witness:
  "\<exists>s caches ss p. (worker_step sample_projection_env (key [''t'', ''s1'']))\<^sup>*\<^sup>* (sample_store, \<lambda>w :: bool. cold_cache) (s, caches)
    \<and> map_get (sessions s) (key [''t'', ''s1'']) = Some ss \<and> length (ss_events ss) = 1 \<and> ss_projection ss = Some p \<and> pj_sequence p = 1"
proof -
  let ?k = "key [''t'', ''s1'']" and ?pn = "sample_projection_env"
  let ?inp = "projected_input sample_env ?pn idle_notice (JObj []) cold_cache"
  have fresh: "map_get (sessions sample_store) ?k = Some fresh_session" using fresh_store(1) by (simp add: requireSession_Inr)
  have ok: "session_inv ?k fresh_session" "session_readable (ss_record fresh_session)"
    by (simp add: session_inv_def Workflow_Runs.sample_session_def lease_of_attempt_def) code_simp
  have inp: "ap_type (ai_event idle_notice) = ''session.idle''" "ap_payload (ai_event idle_notice) = None" "cache_key idle_notice = ?k"
    by (simp_all add: idle_notice_def sample_event_def cache_key_def)
  have payload: "sanitizeProjectedEventPayload ?pn ''session.idle'' (asRecord (JObj [])) = Some []" "isCloudProjectedSessionEventType ''session.idle''"
    by code_simp+
  obtain x s1 ss1 v b where run: "appendProjectedSessionEvent sample_env ?inp sample_store = (Inr x, s1)"
    and ss1: "map_get (sessions s1) ?k = Some ss1" "ss_events ss1 = [pr_event x]"
    and view: "summary_view sample_env ?pn idle_notice (JObj []) cold_cache (snd (appendSessionEvent sample_env (pe_event ?inp) sample_store)) x = Some (v, b)"
    using idle_notice_appended by blast
  obtain y s2 where l: "upsertCloudLaunchpadSessionSummary (append_summary ?pn idle_notice x v) s1 = (y, s2)" by fastforce
  obtain r c' where append: "appendProjectedEvent sample_env ?pn idle_notice cold_cache sample_store = Some (r, s2, c')"
    by (cases y) (simp_all add: appendProjectedEvent_def inp payload coalesce_def Let_def run view l)
  have "stored_stable ?pn ?k sample_store" using fresh fresh_store(3) by (simp add: stored_stable_def)
  from append_own [OF this inp(3), of sample_env "\<lambda>w. cold_cache" True r s2 c'] append
  have step: "(worker_step ?pn ?k)\<^sup>*\<^sup>* (sample_store, \<lambda>w :: bool. cold_cache) (s2, (\<lambda>w. cold_cache)(True := c'))" by blast
  have "map_get (sessions s2) ?k = Some ss1" using ss1(1) launchpad_sessions [OF l] by simp
  then show ?thesis using handoff_replays_log [OF fresh ok fresh_store(2,3) step] ss1(2) step by (fastforce split: option.splits)
qed

end
