(* ===== verification/Lease_Tenure.thy ===== *)
theory Lease_Tenure
  imports Session_Guarantees
begin

text \<open>
  How long a granted lease lasts. \<open>held s k tok T\<close> says that the session under key \<open>k\<close> has a lease with token
  \<open>tok\<close> that does not expire before \<open>T\<close>. \<open>tenure\<close> collects the operations of the session domain as they may
  happen before \<open>T\<close> while the holder keeps its lease: it does not release it, defer under it or shorten it
  by a renewal, and nobody recovers it; claims, by any worker, and reaping are at a time before \<open>T\<close>. Every such
  operation keeps the lease.
\<close>


section \<open>The tenure of a lease\<close>

definition held :: "'a session_store_scheme \<Rightarrow> string \<Rightarrow> string \<Rightarrow> int \<Rightarrow> bool" where
  "held s k tok T =
     (case map_get (sessions s) k of
        Some ss \<Rightarrow> (case ss_lease ss of Some l \<Rightarrow> wl_leaseToken l = tok \<and> T \<le> wl_leaseExpiresAt l | None \<Rightarrow> False)
      | None \<Rightarrow> False)"

definition lease_key :: "worker_lease \<Rightarrow> string" where
  "lease_key l = key [wl_tenantId l, wl_sessionId l]"

definition about_lease :: "string \<Rightarrow> string \<Rightarrow> worker_lease \<Rightarrow> bool" where
  "about_lease k tok l = (lease_key l = k \<and> wl_leaseToken l = tok)"

inductive tenure :: "string \<Rightarrow> string \<Rightarrow> int \<Rightarrow> 'a workflow_store_scheme \<Rightarrow> 'a workflow_store_scheme \<Rightarrow> bool" for k tok T where
  te_create: "createSession e i1 s = (r1, s') \<Longrightarrow> tenure k tok T s s'"
| te_bind: "bindSessionRuntime e t i oc ti lt u s = (r2, s') \<Longrightarrow> tenure k tok T s s'"
| te_status: "updateSessionStatus e t i st ti lt u s = (r3, s') \<Longrightarrow> tenure k tok T s s'"
| te_append: "appendSessionEvent e i4 s = (r4, s') \<Longrightarrow> tenure k tok T s s'"
| te_projection: "writeSessionProjection e i5 s = (r5, s') \<Longrightarrow> tenure k tok T s s'"
| te_projected: "appendProjectedSessionEvent e i6 s = (r6, s') \<Longrightarrow> tenure k tok T s s'"
| te_claim: "claimSessionLease e t i w now ttl q s = (r7, s') \<Longrightarrow> nowIso e now < T \<Longrightarrow> tenure k tok T s s'"
| te_release: "releaseSessionLease e l now s = (r8, s') \<Longrightarrow> \<not> about_lease k tok l \<Longrightarrow> tenure k tok T s s'"
| te_renew: "renewSessionLease e l now ttl s = (r9, s') \<Longrightarrow> \<not> about_lease k tok l \<or> T \<le> nowIso e now + ttl \<Longrightarrow> tenure k tok T s s'"
| te_checkpoint: "checkpointSession e l s = (r10, s') \<Longrightarrow> tenure k tok T s s'"
| te_recover: "recoverSessionLease e l now mx s = (r11, s') \<Longrightarrow> \<not> about_lease k tok l \<Longrightarrow> tenure k tok T s s'"
| te_reap: "reapExpiredSessionLeases e now mx lim s = (r12, s') \<Longrightarrow> nowIso e now < T \<Longrightarrow> tenure k tok T s s'"
| te_enqueue: "enqueueSessionCommand e i13 s = (r13, s') \<Longrightarrow> tenure k tok T s s'"
| te_next: "claimNextSessionCommand e l now s = (r14, s') \<Longrightarrow> tenure k tok T s s'"
| te_ack: "ackSessionCommand e l cid now s = (r15, s') \<Longrightarrow> tenure k tok T s s'"
| te_check_ack: "checkpointAndAckSessionCommand e l cid now s = (r16, s') \<Longrightarrow> tenure k tok T s s'"
| te_defer: "deferSessionCommand e l cid i17 s = (r17, s') \<Longrightarrow> \<not> about_lease k tok l \<Longrightarrow> tenure k tok T s s'"
| te_fail: "failSessionCommand e l cid msg s = (r18, s') \<Longrightarrow> tenure k tok T s s'"
| te_other: "sessions s' = sessions s \<Longrightarrow> tenure k tok T s s'"


section \<open>Every operation keeps the lease\<close>

lemma held_same: "sessions s' = sessions s \<Longrightarrow> held s' k tok T = held s k tok T"
  by (simp add: held_def)

lemma held_get: "held s k tok T \<longleftrightarrow> (\<exists>ss l. map_get (sessions s) k = Some ss \<and> ss_lease ss = Some l \<and> wl_leaseToken l = tok \<and> T \<le> wl_leaseExpiresAt l)"
  by (auto simp: held_def split: option.splits)

lemma held_put:
  assumes "held s k tok T" "sessions s' = map_set (key [t, i]) ss' (sessions s)" "requireSession s t i = Inr ss"
    and "\<And>l. ss_lease ss = Some l \<Longrightarrow> wl_leaseToken l = tok \<Longrightarrow> T \<le> wl_leaseExpiresAt l \<Longrightarrow> key [t, i] = k \<Longrightarrow>
      \<exists>l'. ss_lease ss' = Some l' \<and> wl_leaseToken l' = tok \<and> T \<le> wl_leaseExpiresAt l'"
  shows "held s' k tok T"
  using assms unfolding held_get requireSession_Inr by (cases "key [t, i] = k") auto

lemma held_create:
  assumes "createSession e i s = (r, s')" "held s k tok T"
  shows "held s' k tok T"
  using assms(1) by (cases rule: createSession_cases) (use assms(2) in \<open>auto simp: held_get\<close>)

lemma held_bind:
  assumes "bindSessionRuntime e t i oc ti lt u s = (r, s')" "held s k tok T"
  shows "held s' k tok T"
proof (cases "requireSession s t i")
  case (Inr ss)
  then show ?thesis using assms
    by (cases "assertLeaseTokenIfPresent e ss lt") (auto simp: bindSessionRuntime_def try_in_def Let_def intro: held_put [OF assms(2) _ Inr])
qed (use assms in \<open>simp add: bindSessionRuntime_def try_in_def\<close>)

lemma held_status:
  assumes "updateSessionStatus e t i st ti lt u s = (r, s')" "held s k tok T"
  shows "held s' k tok T"
proof (cases "requireSession s t i")
  case (Inr ss)
  then show ?thesis using assms
    by (cases "assertLeaseTokenIfPresent e ss lt") (auto simp: updateSessionStatus_def try_in_def Let_def intro: held_put [OF assms(2) _ Inr])
qed (use assms in \<open>simp add: updateSessionStatus_def try_in_def\<close>)

lemma held_append:
  assumes "appendSessionEvent e i s = (r, s')" "held s k tok T"
  shows "held s' k tok T"
  using assms(1) by (cases rule: appendSessionEvent_cases) (auto simp: assms(2) append_event_def intro!: held_put [OF assms(2)])

lemma held_projection:
  assumes "writeSessionProjection e i s = (r, s')" "held s k tok T"
  shows "held s' k tok T"
  using assms(1) by (cases rule: writeSessionProjection_cases) (auto simp: assms(2) put_projection_def intro!: held_put [OF assms(2)])

lemma held_claim:
  assumes "claimSessionLease e t i w now ttl q s = (r, s')" "held s k tok T" "nowIso e now < T"
  shows "held s' k tok T"
  using assms(1) by (cases rule: claimSessionLease_cases) (use assms(3) in \<open>auto simp: assms(2) intro!: held_put [OF assms(2)]\<close>)

lemma held_release:
  assumes "releaseSessionLease e l now s = (r, s')" "held s k tok T" "\<not> about_lease k tok l"
  shows "held s' k tok T"
proof (cases "requireSession s (wl_tenantId l) (wl_sessionId l)")
  case (Inr ss)
  then show ?thesis using assms
    by (auto simp: releaseSessionLease_def try_in_def about_lease_def lease_key_def split: if_splits option.splits intro: held_put [OF assms(2) _ Inr])
qed (use assms in \<open>simp add: releaseSessionLease_def try_in_def\<close>)

lemma under_leaseD: "under_lease e lease now s ss l \<Longrightarrow> requireSession s (wl_tenantId lease) (wl_sessionId lease) = Inr ss \<and> ss_lease ss = Some l \<and> wl_leaseToken l = wl_leaseToken lease"
  by (simp add: under_lease_def)

lemma held_leased:
  assumes "held s k tok T" "under_lease e lease now s ss l" "sessions s' = map_set (key [wl_tenantId lease, wl_sessionId lease]) ss' (sessions s)"
    and "about_lease k tok lease \<Longrightarrow> T \<le> wl_leaseExpiresAt l \<Longrightarrow> \<exists>l'. ss_lease ss' = Some l' \<and> wl_leaseToken l' = wl_leaseToken lease \<and> T \<le> wl_leaseExpiresAt l'"
  shows "held s' k tok T"
  using under_leaseD [OF assms(2)] assms(4) by (intro held_put [OF assms(1,3)]) (auto simp: about_lease_def lease_key_def)

lemma held_renew:
  assumes "renewSessionLease e l now ttl s = (r, s')" "held s k tok T" "\<not> about_lease k tok l \<or> T \<le> nowIso e now + ttl"
  shows "held s' k tok T"
  using assms(1)
proof (cases rule: renewSessionLease_cases)
  case (renewed ss l0)
  show ?thesis unfolding renewed(3) using assms(3) under_leaseD [OF renewed(1)] by (intro held_leased [OF assms(2) renewed(1)]) auto
qed (simp add: assms(2))

lemma held_checkpoint:
  assumes "checkpointSession e l s = (r, s')" "held s k tok T"
  shows "held s' k tok T"
  using assms(1)
proof (cases rule: checkpointSession_cases)
  case (advanced ss l0)
  show ?thesis unfolding advanced(4) using under_leaseD [OF advanced(1)] by (intro held_leased [OF assms(2) advanced(1)]) auto
qed (simp add: assms(2))

lemma held_recover:
  assumes "recoverSessionLease e l now mx s = (r, s')" "held s k tok T" "\<not> about_lease k tok l"
  shows "held s' k tok T"
  using assms(1)
proof (cases rule: recoverSessionLease_cases)
  case (recovered ss l0 r0)
  show ?thesis using recovered(2,3) assms(3)
    by (intro held_put [OF assms(2) recoverSessionLeaseRecord_sessions [OF recovered(4)] recovered(1)]) (auto simp: about_lease_def lease_key_def)
qed (simp add: assms(2))

lemma held_reap_leases:
  assumes "reap_leases e now mx xs s = (r, s')" "held s k tok T"
    and "\<And>ss l. (k, ss) \<in> set xs \<Longrightarrow> ss_lease ss = Some l \<Longrightarrow> False"
  shows "held s' k tok T"
  using assms
proof (induction xs arbitrary: s r)
  case (Cons p xs)
  obtain k' ss where p: "p = (k', ss)" by fastforce
  have rest: "held s' k tok T" if "reap_leases e now mx xs s0 = (r0, s')" "held s0 k tok T" for s0 r0
    using Cons.IH [OF that] Cons.prems(3) by auto
  show ?case
  proof (cases "ss_lease ss")
    case None
    then show ?thesis using Cons.prems(1,2) rest by (auto simp: p)
  next
    case (Some l)
    then have "k' \<noteq> k" using Cons.prems(3) by (auto simp: p)
    obtain x s1 where x: "recoverSessionLeaseRecord e k' ss l now mx s = (x, s1)" by fastforce
    have h1: "held s1 k tok T" using Cons.prems(2) \<open>k' \<noteq> k\<close> by (simp add: held_get recoverSessionLeaseRecord_sessions [OF x])
    show ?thesis
    proof (cases x)
      case (Inl er)
      then show ?thesis using Cons.prems(1) x Some h1 by (auto simp: p then_do_def)
    next
      case (Inr rd)
      obtain y s2 where y: "reap_leases e now mx xs s1 = (y, s2)" by fastforce
      have "s' = s2" using Cons.prems(1) x Some Inr y by (cases y) (auto simp: p then_do_def)
      then show ?thesis using rest y h1 by blast
    qed
  qed
qed simp

lemma held_reap:
  assumes "reapExpiredSessionLeases e now mx lim s = (r, s')" "held s k tok T" "nowIso e now < T" "map_ok (sessions s)"
  shows "held s' k tok T"
proof -
  define xs where "xs = slice_int (expired_leases e (nowIso e now) s) (max 1 (min 1000 (coalesce lim 100)))"
  have run: "reap_leases e (nowIso e now) (max 1 (coalesce mx 3)) xs s = (r, s')"
    using assms(1) by (simp add: reapExpiredSessionLeases_def Let_def xs_def)
  have sub: "(k', ss) \<in> set (sessions s) \<and> (\<exists>l. ss_lease ss = Some l \<and> wl_leaseExpiresAt l \<le> nowIso e now)" if "(k', ss) \<in> set xs" for k' ss
    using that by (auto simp: xs_def slice_int_def expired_leases_def split: option.splits dest!: in_set_takeD)
  show ?thesis
  proof (rule held_reap_leases [OF run assms(2)])
    fix ss l
    assume "(k, ss) \<in> set xs" "ss_lease ss = Some l"
    then have "map_get (sessions s) k = Some ss" "wl_leaseExpiresAt l \<le> nowIso e now"
      using sub [of k ss] map_get_iff [OF assms(4)] by auto
    then show False using \<open>ss_lease ss = Some l\<close> assms(2,3) by (auto simp: held_get)
  qed
qed

lemma held_enqueue:
  assumes "enqueueSessionCommand e i s = (r, s')" "held s k tok T"
  shows "held s' k tok T"
  using assms(1) by (cases rule: enqueueSessionCommand_cases) (auto simp: assms(2) intro!: held_put [OF assms(2)])

lemma held_commands:
  assumes "held s k tok T" "under_lease e lease now s ss l"
  shows "held (put_session (wl_tenantId lease) (wl_sessionId lease) (ss\<lparr> ss_commands := cs \<rparr>) s) k tok T"
  using under_leaseD [OF assms(2)] by (intro held_leased [OF assms]) auto

lemma held_next:
  assumes "claimNextSessionCommand e l now s = (r, s')" "held s k tok T"
  shows "held s' k tok T"
  using assms(1) by (cases rule: claimNextSessionCommand_cases) (auto simp: assms(2) intro: held_commands)

lemma held_ack:
  assumes "ackSessionCommand e l c now s = (r, s')" "held s k tok T"
  shows "held s' k tok T"
  using assms(1) by (cases rule: ackSessionCommand_cases) (auto simp: assms(2) intro: held_commands)

lemma held_check_ack:
  assumes "checkpointAndAckSessionCommand e l c now s = (r, s')" "held s k tok T"
  shows "held s' k tok T"
  using assms(1)
proof (cases rule: checkpointAndAckSessionCommand_cases)
  case (acked ss l0 c0 l')
  show ?thesis unfolding acked(7) using under_leaseD [OF acked(1)] acked(5) by (intro held_leased [OF assms(2) acked(1)]) auto
qed (simp_all add: assms(2))

lemma held_defer:
  assumes "deferSessionCommand e l c d s = (r, s')" "held s k tok T" "\<not> about_lease k tok l"
  shows "held s' k tok T"
  using assms(1)
proof (cases rule: deferSessionCommand_cases)
  case (error er)
  then show ?thesis using assms(2) held_same by blast
next
  case (deferred ss l0 c0 f s1 sm)
  show ?thesis unfolding deferred(8) using assms(3) deferred(5) by (intro held_leased [OF assms(2) deferred(1)]) auto
qed

lemma held_fail:
  assumes "failSessionCommand e l c msg s = (r, s')" "held s k tok T"
  shows "held s' k tok T"
  using assms(1) by (cases rule: failSessionCommand_cases) (auto simp: assms(2) intro: held_commands)

text \<open>A projected append: its stages are operations above, its effects write the session record only, and its
  rollback leaves the sessions of before.\<close>

lemma held_effects:
  assumes "applyProjectedEventEffects e inp u s = (r, s')" "held s k tok T"
  shows "held s' k tok T"
proof -
  let ?t = "ap_tenantId (pe_event inp)" and ?i = "ap_sessionId (pe_event inp)"
  define s1 where "s1 = (case (pe_sessionStatus inp, map_get (sessions s) (key [?t, ?i])) of
      (Some st, Some ss) \<Rightarrow> put_session ?t ?i (ss\<lparr> ss_record := (ss_record ss)\<lparr> sr_status := st, sr_updatedAt := u \<rparr> \<rparr>) s
    | _ \<Rightarrow> s)"
  note eq = assms(1) [unfolded applyProjectedEventEffects_def Let_def, folded s1_def]
  have "held s1 k tok T" using assms(2) by (auto simp: s1_def held_get split: option.split)
  moreover have "sessions s' = sessions s1"
    using eq by (auto simp: then_do_def completeWorkflowRun_def failWorkflowRun_def Let_def finishWorkflowRun_sessions
        split: option.splits workflow_terminal.splits prod.splits sum.splits)
  ultimately show ?thesis using held_same by blast
qed

lemma held_projected:
  assumes "appendProjectedSessionEvent e inp s = (r, s')" "held s k tok T"
  shows "held s' k tok T"
  using assms(1)
proof (cases rule: appendProjectedSessionEvent_cases)
  case (rolled_back er ss s1)
  then have "sessions s' = sessions s" using projected_append_atomic assms(1) by blast
  then show ?thesis using assms(2) held_same by blast
next
  case (appended x ss)
  obtain s1 d s2 s3 u where st: "appendSessionEvent e (pe_event inp) s = (Inr (pr_event x), s1)"
    "appendWorkspaceEvent e (workspace_input_of inp u d (pr_event x)) s1 = (Inr (pr_workspaceEvent x), s2)"
    and pj: "s3 = s2 \<or> (\<exists>wp p. writeSessionProjection e wp s2 = (Inr p, s3))"
    and ef: "\<exists>at. applyProjectedEventEffects e inp at s3 = (Inr (), s')"
    using projected_append_stages [OF appended(2)] by metis
  have "held s2 k tok T" using held_append [OF st(1) assms(2)] held_same [OF appendWorkspaceEvent_sessions [OF st(2)]] by blast
  then have "held s3 k tok T" using pj held_projection by blast
  then show ?thesis using ef held_effects by blast
qed (simp add: assms(2))

lemma tenure_session: "tenure k tok T s s' \<Longrightarrow> session_transition s s'"
  by (erule tenure.cases) (blast intro: session_transition.intros)+

lemma tenure_held:
  assumes "tenure k tok T s s'" "held s k tok T" "map_ok (sessions s)"
  shows "held s' k tok T"
  using assms(1)
proof cases
  case te_other
  then show ?thesis using assms(2) held_same by blast
qed (use assms(2,3) in \<open>blast intro: held_create held_bind held_status held_append held_projection held_projected held_claim held_release
    held_renew held_checkpoint held_recover held_reap held_enqueue held_next held_ack held_check_ack held_defer held_fail\<close>)+

lemma tenures_held:
  "(tenure k tok T)\<^sup>*\<^sup>* s s' \<Longrightarrow> held s k tok T \<Longrightarrow> sessions_ok s \<Longrightarrow> held s' k tok T \<and> sessions_ok s'"
proof (induction rule: rtranclp_induct)
  case (step s1 s2)
  then have "held s1 k tok T" "sessions_ok s1" by simp_all
  then show ?case using tenure_held [OF step(2)] session_transition_kept [OF tenure_session [OF step(2)]] by (simp add: sessions_ok_def)
qed simp

lemma held_refuses_claim:
  assumes "held s (key [t, i]) tok T" "nowIso e now < T"
  shows "\<exists>r. claimSessionLease e t i w now ttl q s = (r, s) \<and> (\<forall>l. r \<noteq> Inr (Some l))"
proof (cases "requireSession s t i")
  case (Inr ss)
  then obtain l where "ss_lease ss = Some l" "nowIso e now < wl_leaseExpiresAt l"
    using assms by (auto simp: held_get requireSession_Inr)
  then show ?thesis using Inr by (simp add: claimSessionLease_def try_in_def)
qed (simp add: claimSessionLease_def try_in_def)

text \<open>C9: leases are exclusive. A claim is granted only when the session has no unexpired lease. From then on,
  up to its expiry, and however the operations of the session domain interleave, the session keeps that
  lease and every claim of it, by any worker, is refused and changes nothing, unless the holder itself
  gives the lease up (a release, a deferral, a shortening renewal) or it is recovered under its own token
  or reaped. With an organisation quota the number of live leases of the organisation stays within it
  when a claim is granted.\<close>

theorem lease_claim_exclusive:
  assumes "claimSessionLease e t i w now ttl q s = (Inr (Some l), s')" and "sessions_ok s"
  shows "(\<forall>ss l0. map_get (sessions s) (key [t, i]) = Some ss \<and> ss_lease ss = Some l0 \<longrightarrow> wl_leaseExpiresAt l0 \<le> nowIso e now)
    \<and> (\<forall>T s2. T \<le> wl_leaseExpiresAt l \<and> (tenure (key [t, i]) (wl_leaseToken l) T)\<^sup>*\<^sup>* s' s2 \<longrightarrow>
         held s2 (key [t, i]) (wl_leaseToken l) T
         \<and> (\<forall>e2 w2 now2 ttl2 q2. nowIso e2 now2 < T \<longrightarrow>
              (\<exists>r. claimSessionLease e2 t i w2 now2 ttl2 q2 s2 = (r, s2) \<and> (\<forall>l2. r \<noteq> Inr (Some l2)))))
    \<and> (\<forall>e2 w2 now2 ttl2 q2. nowIso e2 now2 < wl_leaseExpiresAt l \<longrightarrow> claimSessionLease e2 t i w2 now2 ttl2 q2 s' = (Inr None, s'))
    \<and> (\<forall>mx. positive_limit (Option.bind q sq_maxPerOrg) = Some mx \<longrightarrow>
         activeLeaseCount s' (or_else (Option.bind q sq_orgId) (orgIdForTenant s t)) (nowIso e now) \<le> mx)"
  using assms(1)
proof (cases rule: claimSessionLease_cases)
  case (claimed ss l1)
  let ?ss = "ss\<lparr> ss_nextLeaseAttempt := ss_nextLeaseAttempt ss + 1, ss_lease := Some l,
                ss_record := (ss_record ss)\<lparr> sr_status := SRunning, sr_updatedAt := nowIso e now \<rparr> \<rparr>"
  have l1: "l1 = l" using claimed(2) by simp
  have get: "map_get (sessions s) (key [t, i]) = Some ss" using claimed(1) by (simp add: requireSession_Inr)
  have ss': "requireSession s' t i = Inr ?ss" using claimed(1) by (simp add: requireSession_Inr claimed(6) l1)
  have ok': "sessions_ok s'" using session_transition_kept [OF se_claim [OF assms(1)] assms(2)] by simp
  have "activeLeaseCount s' org n \<le> activeLeaseCount s org n + 1" for org n
    unfolding activeLeaseCount_def claimed(6) put_session_orgs put_session_simps(1) by (rule filter_map_set_int)
  then have quota: "\<forall>mx. positive_limit (Option.bind q sq_maxPerOrg) = Some mx \<longrightarrow>
         activeLeaseCount s' (or_else (Option.bind q sq_orgId) (orgIdForTenant s t)) (nowIso e now) \<le> mx"
    using claimed(5) by (meson order_trans zless_imp_add1_zle)
  have now: "\<forall>e2 w2 now2 ttl2 q2. nowIso e2 now2 < wl_leaseExpiresAt l \<longrightarrow> claimSessionLease e2 t i w2 now2 ttl2 q2 s' = (Inr None, s')"
    using ss' by (simp add: claimSessionLease_def try_in_def)
  have later: "held s2 (key [t, i]) (wl_leaseToken l) T"
    if "T \<le> wl_leaseExpiresAt l \<and> (tenure (key [t, i]) (wl_leaseToken l) T)\<^sup>*\<^sup>* s' s2" for T s2
  proof -
    have "held s' (key [t, i]) (wl_leaseToken l) T" using that by (simp add: held_get claimed(6) l1)
    then show ?thesis using tenures_held [OF conjunct2 [OF that] _ ok'] by simp
  qed
  have free: "\<forall>ss l0. map_get (sessions s) (key [t, i]) = Some ss \<and> ss_lease ss = Some l0 \<longrightarrow> wl_leaseExpiresAt l0 \<le> nowIso e now"
    using claimed(4) get by simp
  show ?thesis
    by (rule conjI [OF free conjI [OF _ conjI [OF now quota]]]) (intro allI impI conjI later held_refuses_claim [OF later]; simp)
qed simp

theorem lease_claim_exclusive_witness:
  "\<exists>l s'. claimSessionLease sample_env ''t'' ''s1'' ''w1'' None 1000 None sample_store = (Inr (Some l), s')
     \<and> claimSessionLease sample_env ''t'' ''s1'' ''w2'' (Some 999) 1000 None s' = (Inr None, s')
     \<and> (\<exists>r. claimSessionLease sample_env ''t'' ''s1'' ''w2'' (Some 999) 1000 None (snd (checkpointSession sample_env l s'))
            = (r, snd (checkpointSession sample_env l s')) \<and> (\<forall>l2. r \<noteq> Inr (Some l2)))"
proof -
  define out where "out = claimSessionLease sample_env ''t'' ''s1'' ''w1'' None 1000 None sample_store"
  have "case fst out of Inr (Some l) \<Rightarrow> wl_leaseExpiresAt l = 1000 | _ \<Rightarrow> False" unfolding out_def by code_simp
  then obtain l where l: "fst out = Inr (Some l)" "wl_leaseExpiresAt l = 1000" by (auto split: sum.splits option.splits)
  then have run: "claimSessionLease sample_env ''t'' ''s1'' ''w1'' None 1000 None sample_store = (Inr (Some l), snd out)" by (simp add: out_def prod_eq_iff)
  have now: "nowIso sample_env (Some 999) < wl_leaseExpiresAt l" by (simp add: l(2) nowIso_def)
  have "(tenure (key [''t'', ''s1'']) (wl_leaseToken l) (wl_leaseExpiresAt l))\<^sup>*\<^sup>* (snd out) (snd (checkpointSession sample_env l (snd out)))"
    by (rule r_into_rtranclp, rule te_checkpoint, rule surjective_pairing)
  then show ?thesis using lease_claim_exclusive [OF run sample_store_ok] run now by blast
qed

end
