(* ===== verification/Workflow_Finality.thy ===== *)
theory Workflow_Finality
  imports Session_Guarantees
begin

text \<open>
  Finality of workflow runs over everything that can happen to the store: the operations of the
  workflow domain, the projected append of the session domain, whose success finishes a run and whose
  failure restores a snapshot of the whole workflow domain into fresh objects, and the operations of the
  other domains. Because a restore replaces the objects, finality is stated of the run stored under its
  key, not of an object.
\<close>


section \<open>The run stored under a key\<close>

definition stored_run :: "'a workflow_store_scheme \<Rightarrow> string \<Rightarrow> run_record option" where
  "stored_run s k = map_option (\<lambda>r. runHeap s ! r) (map_get (workflowRuns s) k)"

definition finished_kept :: "'a workflow_store_scheme \<Rightarrow> 'a workflow_store_scheme \<Rightarrow> bool" where
  "finished_kept s s' = (\<forall>k run. stored_run s k = Some run \<and> run_terminal (rn_status run) \<longrightarrow> stored_run s' k = Some run)"

lemma finished_kept_refl [simp, intro]: "finished_kept s s"
  by (simp add: finished_kept_def)

lemma finished_kept_trans: "finished_kept a b \<Longrightarrow> finished_kept b c \<Longrightarrow> finished_kept a c"
  by (simp add: finished_kept_def)

lemma stored_run_snapshot: "stored_run s k = map_get (sn_workflowRuns (snapshotWorkflows s)) k"
  by (simp add: stored_run_def snapshotWorkflows_def map_get_map)

lemma runs_kept_finished:
  assumes "runs_kept s s'" "run_refs_ok s" "\<And>k r. map_get (workflowRuns s) k = Some r \<Longrightarrow> map_get (workflowRuns s') k = Some r"
  shows "finished_kept s s'"
  using assms by (auto simp: finished_kept_def stored_run_def runs_kept_def run_refs_ok_def)


section \<open>The references of a restored snapshot\<close>

lemma alloc_workflows_keys: "map fst (alloc_workflows n xs) = map fst xs"
  by (induction n xs rule: alloc_workflows.induct) simp_all

lemma alloc_workflows_bound:
  "(k, w) \<in> set (alloc_workflows n xs) \<Longrightarrow> r \<in> set (wst_runs w) \<Longrightarrow> r < n + length (concat (map (\<lambda>(k, w, runs). runs) xs))"
  by (induction n xs rule: alloc_workflows.induct) auto

lemma restore_refs_ok:
  assumes "run_refs_ok s"
  shows "run_refs_ok (restoreWorkflows (snapshotWorkflows s) s1)"
proof -
  let ?own = "concat (map (\<lambda>(k, w, runs). runs) (sn_workflows (snapshotWorkflows s)))" and ?runs = "sn_workflowRuns (snapshotWorkflows s)"
  let ?b = "length (runHeap s1)"
  have "map fst (workflows (restoreWorkflows (snapshotWorkflows s) s1)) = map fst (workflows s)"
    by (simp add: restoreWorkflows_def Let_def alloc_workflows_keys) (simp add: snapshotWorkflows_def case_prod_unfold)
  moreover have "map fst (workflowRuns (restoreWorkflows (snapshotWorkflows s) s1)) = map fst (workflowRuns s)"
    by (rule nth_equalityI) (simp_all add: restoreWorkflows_def Let_def snapshotWorkflows_def case_prod_unfold)
  moreover have "r < ?b + length ?own + length ?runs" if "map_get (workflowRuns (restoreWorkflows (snapshotWorkflows s) s1)) k = Some r" for k r
    using map_get_in_set [OF that] by (auto simp: restoreWorkflows_def Let_def case_prod_unfold set_zip)
  moreover have "r < ?b + length ?own + length ?runs"
    if "map_get (workflows (restoreWorkflows (snapshotWorkflows s) s1)) k = Some w" "r \<in> set (wst_runs w)" for k w r
  proof -
    have "(k, w) \<in> set (alloc_workflows ?b (sn_workflows (snapshotWorkflows s)))"
      using map_get_in_set [OF that(1)] by (simp add: restoreWorkflows_def Let_def)
    from alloc_workflows_bound [OF this that(2)] show ?thesis by simp
  qed
  moreover have "length (runHeap (restoreWorkflows (snapshotWorkflows s) s1)) = ?b + length ?own + length ?runs"
    by (simp add: restoreWorkflows_def Let_def)
  ultimately show ?thesis using assms by (simp add: run_refs_ok_def map_ok_def)
qed


section \<open>Every operation\<close>

text \<open>An operation that keeps the finished objects, the references and where the map points, keeps the finished runs.\<close>

definition runs_step :: "'a workflow_store_scheme \<Rightarrow> 'a workflow_store_scheme \<Rightarrow> bool" where
  "runs_step s s' = (finished_kept s s' \<and> run_refs_ok s')"

lemma runs_step_intro:
  assumes "run_refs_ok s" "runs_kept s s'" "run_refs_ok s'"
    "\<And>k r. map_get (workflowRuns s) k = Some r \<Longrightarrow> map_get (workflowRuns s') k = Some r"
  shows "runs_step s s'"
  using runs_kept_finished [OF assms(2,1,4)] assms(3) by (simp add: runs_step_def)

lemma runs_step_trans: "runs_step a b \<Longrightarrow> runs_step b c \<Longrightarrow> runs_step a c"
  by (auto simp: runs_step_def intro: finished_kept_trans)

lemma runs_step_same:
  assumes "run_refs_ok s" "workflows s' = workflows s" "workflowRuns s' = workflowRuns s" "runHeap s' = runHeap s"
  shows "runs_step s s'"
  using assms run_refs_ok_same [OF assms(2-4)] by (simp add: runs_step_def finished_kept_def stored_run_def)

text \<open>Authoring does not touch runs.\<close>

lemma createWorkflow_runs: "createWorkflow e inp s = (r, s') \<Longrightarrow> workflowRuns s' = workflowRuns s"
  by (auto simp: createWorkflow_def try_in_def Let_def split: sum.splits option.splits if_splits)

lemma updateWorkflowStatus_runs: "updateWorkflowStatus e inp s = (r, s') \<Longrightarrow> workflowRuns s' = workflowRuns s"
  by (auto simp: updateWorkflowStatus_def try_in_def Let_def split: sum.splits option.splits if_splits)

lemma rotateWorkflowWebhookSecret_runs: "rotateWorkflowWebhookSecret e inp s = (r, s') \<Longrightarrow> workflowRuns s' = workflowRuns s"
  by (auto simp: rotateWorkflowWebhookSecret_def try_in_def Let_def split: sum.splits option.splits if_splits)

lemma migrateLegacyWorkflowWebhookSecret_runs: "migrateLegacyWorkflowWebhookSecret e inp s = (r, s') \<Longrightarrow> workflowRuns s' = workflowRuns s"
  by (auto simp: migrateLegacyWorkflowWebhookSecret_def Let_def split: option.splits if_splits prod.splits)

lemma authoring_step:
  assumes "run_refs_ok s" "runHeap s' = runHeap s" "run_refs_ok s \<Longrightarrow> run_refs_ok s'" "workflowRuns s' = workflowRuns s"
  shows "runs_step s s'"
  by (rule runs_step_intro) (use assms in \<open>auto intro: runs_kept_heap\<close>)

text \<open>A new run never takes the place of a stored one: a manual or webhook run because the operation looks, a
  scheduled one because its id is fresh.\<close>

definition fresh_run_id :: "'a workflow_store_scheme \<Rightarrow> string \<Rightarrow> bool" where
  "fresh_run_id s i = (\<forall>t. map_get (workflowRuns s) (key [t, i]) = None)"

lemma createWorkflowRun_step:
  assumes "createWorkflowRun e inp s = (r, s')" "run_refs_ok s"
  shows "runs_step s s'"
proof (rule runs_step_intro [OF assms(2) createWorkflowRun_kept(1) [OF assms(1)] createWorkflowRun_kept(2) [OF assms]])
  show "map_get (workflowRuns s') k = Some r" if "map_get (workflowRuns s) k = Some r" for k r
    using assms(1) by (cases rule: createWorkflowRun_cases) (use that in auto)
qed

lemma claimDueWorkflowRun_step:
  assumes "claimDueWorkflowRun e inp s = (r, s')" "run_refs_ok s" "fresh_run_id s (cd_runId inp)"
  shows "runs_step s s'"
proof (rule runs_step_intro [OF assms(2) claimDueWorkflowRun_kept(1) [OF assms(1)] claimDueWorkflowRun_kept(2) [OF assms(1,2)]])
  have i: "rn_id (scheduled_run e inp w) = cd_runId inp" for w by (simp add: scheduled_run_def Let_def)
  show "map_get (workflowRuns s') k = Some r" if "map_get (workflowRuns s) k = Some r" for k r
    using assms(1) by (cases rule: claimDueWorkflowRun_cases) (use that assms(3) in \<open>auto simp: fresh_run_id_def i\<close>)
qed

lemma reap_runs_map: "reap_runs now mx rs s = (xs, s') \<Longrightarrow> workflowRuns s' = workflowRuns s"
proof (induction rs arbitrary: s xs s')
  case (Cons r rs)
  obtain x s1 where one: "reap_run now mx r s = (x, s1)" by fastforce
  obtain ys s2 where rest: "reap_runs now mx rs s1 = (ys, s2)" by fastforce
  have "workflowRuns s1 = workflowRuns s" using one by (cases rule: reap_run_cases) simp_all
  moreover have "s' = s2" using Cons.prems one rest by simp
  ultimately show ?case using Cons.IH [OF rest] by simp
qed simp

lemma reapExpiredWorkflowClaims_step:
  assumes "reapExpiredWorkflowClaims e now mx lim s = (r, s')" "run_refs_ok s"
  shows "runs_step s s'"
proof (rule runs_step_intro [OF assms(2) reapExpiredWorkflowClaims_kept [OF assms]])
  have "workflowRuns s' = workflowRuns s" using assms(1) reap_runs_map by (auto simp: reapExpiredWorkflowClaims_def Let_def)
  then show "map_get (workflowRuns s') k = Some r" if "map_get (workflowRuns s) k = Some r" for k r using that by simp
qed

lemma attachWorkflowRunSession_step:
  assumes "attachWorkflowRunSession e inp s = (r, s')" "run_refs_ok s"
  shows "runs_step s s'"
proof (rule runs_step_intro [OF assms(2) attachWorkflowRunSession_kept(1) [OF assms(1)] attachWorkflowRunSession_kept(2) [OF assms]])
  show "map_get (workflowRuns s') k = Some r" if "map_get (workflowRuns s) k = Some r" for k r
    using assms(1) by (cases rule: attachWorkflowRunSession_cases) (use that in auto)
qed

lemma finishWorkflowRun_step:
  assumes "finishWorkflowRun e t wid rid st sm er ns nr lt fa s = (r, s')" "run_refs_ok s"
  shows "runs_step s s'"
proof (rule runs_step_intro [OF assms(2) finishWorkflowRun_kept(1) [OF assms(1)] finishWorkflowRun_kept(2) [OF assms]])
  show "map_get (workflowRuns s') k = Some r" if "map_get (workflowRuns s) k = Some r" for k r
    using assms(1) by (cases rule: finishWorkflowRun_cases) (use that in auto)
qed

lemma completeWorkflowRun_step: "completeWorkflowRun e inp s = (r, s') \<Longrightarrow> run_refs_ok s \<Longrightarrow> runs_step s s'"
  unfolding completeWorkflowRun_def by (rule finishWorkflowRun_step)

lemma failWorkflowRun_step: "failWorkflowRun e inp s = (r, s') \<Longrightarrow> run_refs_ok s \<Longrightarrow> runs_step s s'"
  unfolding failWorkflowRun_def Let_def by (rule finishWorkflowRun_step)

text \<open>The projected append: its stages before the effects leave runs alone, its effects may finish one, and a
  failure brings back the content from before the call.\<close>

lemma applyProjectedEventEffects_step:
  assumes "applyProjectedEventEffects e inp u s = (r, s')" "run_refs_ok s"
  shows "runs_step s s'"
proof -
  define s1 where "s1 = (case (pe_sessionStatus inp, map_get (sessions s) (key [ap_tenantId (pe_event inp), ap_sessionId (pe_event inp)])) of
      (Some st, Some ss) \<Rightarrow> put_session (ap_tenantId (pe_event inp)) (ap_sessionId (pe_event inp))
          (ss\<lparr> ss_record := (ss_record ss)\<lparr> sr_status := st, sr_updatedAt := u \<rparr> \<rparr>) s
    | _ \<Rightarrow> s)"
  note eq = assms(1) [unfolded applyProjectedEventEffects_def Let_def, folded s1_def]
  have 1: "runs_step s s1"
    by (rule runs_step_same [OF assms(2)]) (simp_all add: s1_def put_session_def split: option.split)
  then have ok: "run_refs_ok s1" by (simp add: runs_step_def)
  have "runs_step s1 s'"
  proof (cases "pe_workflowTerminal inp")
    case None
    then have "s' = s1" using eq by simp
    then show ?thesis using ok by (simp add: runs_step_def)
  next
    case (Some tm)
    then show ?thesis using eq completeWorkflowRun_step [OF _ ok] failWorkflowRun_step [OF _ ok]
      by (cases tm) (auto simp: then_do_def split: prod.splits sum.splits)
  qed
  with 1 show ?thesis by (rule runs_step_trans)
qed

lemma appendSessionEvent_step: "appendSessionEvent e inp s = (r, s') \<Longrightarrow> run_refs_ok s \<Longrightarrow> runs_step s s'"
  by (erule appendSessionEvent_cases; rule runs_step_same) (simp_all add: put_session_def)

lemma writeSessionProjection_step: "writeSessionProjection e inp s = (r, s') \<Longrightarrow> run_refs_ok s \<Longrightarrow> runs_step s s'"
  by (erule writeSessionProjection_cases; rule runs_step_same) (simp_all add: put_session_def)

lemma appendWorkspaceEvent_step: "appendWorkspaceEvent e inp s = (r, s') \<Longrightarrow> run_refs_ok s \<Longrightarrow> runs_step s s'"
  by (erule appendWorkspaceEvent_cases; rule runs_step_same) simp_all

lemma appendProjectedSessionEvent_step:
  assumes "appendProjectedSessionEvent e inp s = (r, s')" "run_refs_ok s"
  shows "runs_step s s'"
  using assms(1)
proof (cases rule: appendProjectedSessionEvent_cases)
  case (unknown er)
  then show ?thesis using assms(2) by (simp add: runs_step_def)
next
  case (rolled_back er ss s1)
  have "stored_run s' = stored_run s" unfolding rolled_back(4) by (simp add: fun_eq_iff stored_run_snapshot snapshot_restore)
  moreover have "run_refs_ok s'" unfolding rolled_back(4) by (rule restore_refs_ok [OF assms(2)])
  ultimately show ?thesis by (simp add: runs_step_def finished_kept_def)
next
  case (appended x ss)
  obtain s1 d s2 s3 u where st: "appendSessionEvent e (pe_event inp) s = (Inr (pr_event x), s1)"
    "appendWorkspaceEvent e (workspace_input_of inp u d (pr_event x)) s1 = (Inr (pr_workspaceEvent x), s2)"
    and pj: "s3 = s2 \<or> (\<exists>wp p. writeSessionProjection e wp s2 = (Inr p, s3))"
    and ef: "\<exists>at. applyProjectedEventEffects e inp at s3 = (Inr (), s')"
    using projected_append_stages [OF appended(2)] by metis
  have 1: "runs_step s s1" by (rule appendSessionEvent_step [OF st(1) assms(2)])
  have 2: "runs_step s1 s2" by (rule appendWorkspaceEvent_step [OF st(2)]) (use 1 in \<open>simp add: runs_step_def\<close>)
  then have ok2: "run_refs_ok s2" by (simp add: runs_step_def)
  have 3: "runs_step s2 s3" using pj writeSessionProjection_step [OF _ ok2] ok2 by (auto simp: runs_step_def)
  then have ok3: "run_refs_ok s3" by (simp add: runs_step_def)
  obtain at where "applyProjectedEventEffects e inp at s3 = (Inr (), s')" using ef by blast
  from applyProjectedEventEffects_step [OF this ok3] show ?thesis using 1 2 3 runs_step_trans by blast
qed


section \<open>Reachability\<close>

text \<open>
  One operation on the store, under any environment: the operations of the workflow domain, a scheduled claim
  with a fresh run id (its callers pass a random UUID), the projected append, and with \<open>rt_other\<close> the other
  operations, which leave workflows and runs alone.
\<close>

inductive run_transition :: "'a workflow_store_scheme \<Rightarrow> 'a workflow_store_scheme \<Rightarrow> bool" where
  rt_create: "createWorkflow e i1 s = (r1, s') \<Longrightarrow> run_transition s s'"
| rt_status: "updateWorkflowStatus e i2 s = (r2, s') \<Longrightarrow> run_transition s s'"
| rt_rotate: "rotateWorkflowWebhookSecret e i3 s = (r3, s') \<Longrightarrow> run_transition s s'"
| rt_migrate: "migrateLegacyWorkflowWebhookSecret e i4 s = (r4, s') \<Longrightarrow> run_transition s s'"
| rt_run: "createWorkflowRun e i5 s = (r5, s') \<Longrightarrow> run_transition s s'"
| rt_claim: "claimDueWorkflowRun e i6 s = (r6, s') \<Longrightarrow> fresh_run_id s (cd_runId i6) \<Longrightarrow> run_transition s s'"
| rt_reap: "reapExpiredWorkflowClaims e now mx lim s = (r7, s') \<Longrightarrow> run_transition s s'"
| rt_attach: "attachWorkflowRunSession e i8 s = (r8, s') \<Longrightarrow> run_transition s s'"
| rt_complete: "completeWorkflowRun e i9 s = (r9, s') \<Longrightarrow> run_transition s s'"
| rt_fail: "failWorkflowRun e i10 s = (r10, s') \<Longrightarrow> run_transition s s'"
| rt_projected: "appendProjectedSessionEvent e i11 s = (r11, s') \<Longrightarrow> run_transition s s'"
| rt_other: "workflows s' = workflows s \<Longrightarrow> workflowRuns s' = workflowRuns s \<Longrightarrow> runHeap s' = runHeap s \<Longrightarrow> run_transition s s'"

lemma run_transition_step:
  assumes "run_transition s s'" "run_refs_ok s"
  shows "runs_step s s'"
  using assms(1)
proof cases
  case (rt_create e i1 r1)
  then show ?thesis using authoring_step [OF assms(2) createWorkflow_kept createWorkflow_runs] by blast
next
  case (rt_status e i2 r2)
  then show ?thesis using authoring_step [OF assms(2) updateWorkflowStatus_kept updateWorkflowStatus_runs] by blast
next
  case (rt_rotate e i3 r3)
  then show ?thesis using authoring_step [OF assms(2) rotateWorkflowWebhookSecret_kept rotateWorkflowWebhookSecret_runs] by blast
next
  case (rt_migrate e i4 r4)
  then show ?thesis using authoring_step [OF assms(2) migrateLegacyWorkflowWebhookSecret_kept migrateLegacyWorkflowWebhookSecret_runs] by blast
qed (use assms(2) in \<open>blast intro: createWorkflowRun_step claimDueWorkflowRun_step reapExpiredWorkflowClaims_step attachWorkflowRunSession_step
    completeWorkflowRun_step failWorkflowRun_step appendProjectedSessionEvent_step runs_step_same\<close>)+

lemma run_transitions_step: "run_transition\<^sup>*\<^sup>* s s' \<Longrightarrow> run_refs_ok s \<Longrightarrow> runs_step s s'"
proof (induction rule: rtranclp_induct)
  case base
  then show ?case by (simp add: runs_step_def)
next
  case (step s1 s2)
  then have 1: "runs_step s s1" by simp
  then show ?case using run_transition_step [OF step(2)] by (auto simp: runs_step_def intro: finished_kept_trans)
qed

text \<open>C7: a workflow run that has completed, failed or been cancelled is final. However the operations of the
  workflow domain, projected appends that succeed or are rolled back, and the operations of the other domains
  interleave, the run stored under its id stays stored there, unchanged, provided that a scheduled claim is
  given a run id not yet in use, as its caller does.\<close>

theorem terminal_runs_final:
  assumes "run_transition\<^sup>*\<^sup>* s s'" and "run_refs_ok s" and "stored_run s (key [t, i]) = Some run" and "run_terminal (rn_status run)"
  shows "stored_run s' (key [t, i]) = Some run"
  using run_transitions_step [OF assms(1,2)] assms(3,4) by (simp add: runs_step_def finished_kept_def)

theorem terminal_runs_final_witness:
  "stored_run (snd (failWorkflowRun sample_env \<lparr> fri_tenantId = ''t'', fri_workflowId = ''w1'', fri_runId = ''r1'', fri_error = ''late'',
      fri_nextStatus = WFailed, fri_nextRunAt = None, fri_leaseToken = None, fri_finishedAt = None \<rparr>
      (sample_workflow_store (sample_run\<lparr> rn_status := RCompleted \<rparr>)))) (key [''t'', ''r1'']) = Some (sample_run\<lparr> rn_status := RCompleted \<rparr>)"
  (is "stored_run (snd ?out) _ = Some ?run")
proof -
  let ?s = "sample_workflow_store (sample_run\<lparr> rn_status := RCompleted \<rparr>)"
  have "run_transition ?s (snd ?out)" by (rule rt_fail [OF surjective_pairing])
  then have tr: "run_transition\<^sup>*\<^sup>* ?s (snd ?out)" by (rule r_into_rtranclp)
  have "stored_run ?s (key [''t'', ''r1'']) = Some ?run" by (simp add: stored_run_def sample_workflow_store_def map_get_def)
  then show ?thesis by (rule terminal_runs_final [OF tr sample_refs_ok]) (simp add: run_terminal_def)
qed

end
