(* ===== verification/Spec2Isabelle.thy ===== *)
theory Spec2Isabelle
  imports Directory_Guarantees Upload_Lifecycle Channel_Guarantees Byok_Secrets Api_Tokens Managed_Workers Sso_Scim Org_Records Thread_Organizer
    Coordination_Watches Progress_Watchdog Projection_Handoff Lease_Tenure Workflow_Finality
begin

text \<open>
  The control plane of Open Cowork Cloud: a verification development.

  \<^bold>\<open>The program.\<close> Open Cowork Cloud runs agent sessions for organisations. Its state of record is the
  control plane (\<open>packages/cloud-server/src\<close>): tenants and users, sessions with their event logs, worker
  leases and command queues, scheduled workflows, uploads, chat channels, credentials and quotas. The
  reference implementation is the in-memory store, a facade (\<open>in-memory-control-plane-store.ts\<close>) over one
  module per domain (\<open>in-memory-domains/*.ts\<close>). Domains call one another through injected hosts: sessions
  consume usage quotas and write to the workspace log, workflows create sessions, channels enqueue
  commands, and almost every write ends in the audit log. What a client sees of a session is a view that is
  computed from its event log: the runtime's events pass the sanitizer, the projection service appends them to
  the log through the store, and the reducer of \<open>packages/shared/src/cloud-session-projection.ts\<close> folds each
  into the view that the store keeps as JSON.

  \<^bold>\<open>State and operations.\<close> The maps of the domains are fields of one extensible record: \<open>identity_store\<close>
  (identity and audit) is extended by \<open>quota_store\<close>, the session and workspace maps, \<open>workflow_store\<close>,
  \<open>channel_store\<close> and \<open>token_store\<close>; \<open>thread_store\<close> extends
  \<open>workflow_store\<close>; \<open>byok_store\<close>, \<open>worker_store\<close>, \<open>sso_store\<close> and \<open>org_store\<close> extend \<open>identity_store\<close>
  directly, as these domains call only it. The watches are a map of their own. An operation is a function from a state to an outcome
  \<open>(error + 'a) \<times> state\<close> and keeps the name of the method it models. A JavaScript throw is \<open>Inl\<close>
  with the heap as it is at that moment: a write before a throw is kept unless the code rolls it back.
  A method declared \<open>async\<close> is one step, except where the source awaits between a check and its write:
  \<open>resolveChannelInteraction\<close> and \<open>resolveChannelInteractionWithCommand\<close> take what the rest of the program
  does at the \<open>await\<close> as an argument, and their theorems are about overlapping calls.

  \<^bold>\<open>Theories.\<close>
  \<^item> \<open>CP_Prelude\<close>: outcomes, JavaScript maps as association lists in insertion order, stable sort, numbers,
    strings, times, the environment record \<open>env\<close>. Locales \<open>keyed_store\<close> (laws of a map) and
    \<open>js_comparator\<close> (laws of a comparator), interpreted on the prelude's own definitions.
  \<^item> \<open>Store_Helpers\<close>, \<open>Json_Canon\<close>: \<open>store-helpers.ts\<close>, the redactors, canonical JSON and its injectivity
    up to the order of properties.
  \<^item> \<open>Permissions\<close>: \<open>control-plane-permissions.ts\<close>. \<open>Keyset_Paging\<close>: the locale behind the paged listings.
  \<^item> \<open>Identity_Directory\<close>, \<open>Directory_Guarantees\<close>: \<open>identity.ts\<close>, \<open>audit.ts\<close>, \<open>audit-query.ts\<close>; referential
    integrity under any sequence of operations, provisioning, complete exports.
  \<^item> \<open>Quota_Windows\<close>: \<open>rate-limits.ts\<close>, \<open>auth-backoff.ts\<close>, \<open>usage-quota.ts\<close>, \<open>quotas.ts\<close>; what one window
    admits.
  \<^item> \<open>Workflow_Steps\<close>, \<open>Project_Source\<close>: the parts of \<open>packages/shared\<close> the store calls.
  \<^item> \<open>Session_Records\<close>, \<open>Workspace_Log\<close>, \<open>Session_Store\<close>, \<open>Session_Commands\<close>: \<open>sessions.ts\<close> and
    \<open>workspace-events.ts\<close>. \<open>Session_Invariants\<close>, \<open>Session_Safety\<close>, \<open>Session_Guarantees\<close>: what every
    operation keeps of a session, and the properties of logs, leases, commands and projected appends under
    any interleaving (the relation \<open>session_transition\<close>). \<open>Lease_Tenure\<close>: a granted lease lasts until its
    expiry unless it is given up or recovered (the relation \<open>tenure\<close>).
  \<^item> \<open>Workflow_Store\<close>, \<open>Workflow_Runs\<close>, \<open>Workflow_Finality\<close>: \<open>workflows.ts\<close>; runs live in a heap because the code
    shares a run object between two maps. Claims are exclusive and completion is fenced; the run stored under
    an id is final once it has finished, over the operations of the domain and projected appends with their
    rollback (the relation \<open>run_transition\<close>).
  \<^item> \<open>Artifact_Uploads\<close>, \<open>Upload_Lifecycle\<close>: \<open>artifact-upload-reservations.ts\<close>; the abstract lifecycle
    \<open>upload_edge\<close> and the refinement theorem that every operation follows it.
  \<^item> \<open>Audited_Writes\<close>: the write-then-audit pattern of the remaining domains.
  \<^item> \<open>Channel_Directory\<close>, \<open>Channel_Messages\<close>, \<open>Channel_Guarantees\<close>: \<open>headless-agents.ts\<close>, the
    \<open>channel-*.ts\<close> domains and the channel methods of the facade; single use of approvals under
    overlapping calls (\<open>interaction_step\<close>), exactly-once processing of provider events, exclusive delivery claims, monotone cursors.
  \<^item> \<open>Secret_Hashes\<close>, \<open>Revocable_Credentials\<close>: \<open>control-plane-tokens.ts\<close> and the locale
    \<open>credential_registry\<close>, the contract of a registry in which revocation is final. It is interpreted on
    the tokens of a member (\<open>Api_Tokens\<close>, \<open>api-tokens.ts\<close>) and, in \<open>Managed_Workers\<close> (\<open>workers.ts\<close>), on the
    credentials of a terminal worker and on a revoked credential.
  \<^item> \<open>Byok_Secrets\<close>: \<open>byok-secrets.ts\<close>; at most one active key per provider.
  \<^item> \<open>Sso_Scim\<close>: \<open>sso.ts\<close>, \<open>control-plane-sso.ts\<close>, \<open>control-plane-scim.ts\<close>; attempts to
    provision are bounded and an event is not given up early, whatever is reported when (\<open>scim_run\<close>).
  \<^item> \<open>Org_Records\<close>: \<open>roles.ts\<close>, \<open>policy.ts\<close> with \<open>control-plane-policy.ts\<close>, \<open>settings.ts\<close>, \<open>billing.ts\<close>,
    \<open>usage-events.ts\<close>; sound provider lookups, idempotent policy merge.
  \<^item> \<open>Thread_Organizer\<close>: \<open>thread-tags.ts\<close>, \<open>thread-smart-filters.ts\<close>, \<open>worker-heartbeats.ts\<close>,
    \<open>schema-migrations.ts\<close>, and the thread listing and event retention of the facade.
  \<^item> \<open>Coordination_Watches\<close>: \<open>coordination-watches.ts\<close>, \<open>coordination-watch-records.ts\<close>; exact matching.
  \<^item> \<open>Progress_Watchdog\<close>: \<open>packages/shared/src/progress-watchdog.ts\<close>; decisions only after silence, and fenced.
  \<^item> \<open>Runtime_Sanitizer\<close>: \<open>packages/shared/src/runtime-event-sanitizer.ts\<close>; bounds of the result, no
    dependence on secrets, and when a call returns.
  \<^item> \<open>Session_View\<close>, \<open>Session_Projection\<close>: the records, normalizers and reducer of
    \<open>packages/shared/src/cloud-session-projection.ts\<close>. \<open>Projection_Guarantees\<close>: what holds of the view after
    any log (locales \<open>keyed_list\<close> and \<open>ordered_list\<close>, interpreted on every list of the view).
    \<open>Projection_Storage\<close>: the stored JSON (\<open>view_json\<close>) and reading it back.
  \<^item> \<open>Projection_Service\<close>: \<open>session-projection-service.ts\<close>; the bounded cache of views, the callback that
    folds an event (the same with a warm and with a cold cache), and the repair, which replays the log.
    \<open>Projection_Handoff\<close>: the whole append of the service over the store, and the step relation \<open>worker_step\<close> of
    several workers, each with its own cache: the stored projection is always the replay of the log.

  \<^bold>\<open>Parameters.\<close> What comes from outside the sources is an argument. \<open>env\<close> carries the clock reading of a
  call, SHA-256, the collation behind \<open>localeCompare\<close> and the regular-expression passes of the redactors;
  the URL parser of the sign-on configuration and the case folding of tag names (\<open>thread_locale\<close>) are arguments;
  \<open>crypto\<close> carries scrypt and the random bytes, of which only \<open>crypto_ok\<close> (base64url text) is ever assumed.
  Nothing is assumed of the collation but in two places, and there of the data at hand: a complete audit
  export needs it to order the ids of events of one millisecond as code units do (\<open>ids_collated\<close>), a canonical
  text that does not depend on property order needs it to tell the names of an object apart (\<open>names_apart\<close>). The projector and
  the workspace callback of a projected append are function fields of its input. \<open>sanitizer_context\<close> carries
  \<open>sanitizeForExport\<close> and the path and URI patterns of the sanitizer; \<open>projection_env\<close> carries the same, the
  floating-point addition of two costs, the test of a count and the parsing of an ISO time.

  \<^bold>\<open>Bounds.\<close> Every recursion is structural or over the finite store, with two exceptions. The search for a free
  property name (\<open>free_key\<close>) and the batches of a repair (\<open>repair_loop\<close>) are \<open>partial_function (option)\<close>, \<open>None\<close> where
  the code does not return; \<open>sanitizer_terminates\<close> and \<open>repair_returns\<close> prove that they do and
  \<open>sanitizer_diverges\<close> shows where the sanitizer does not. Replacing all matches in a text uses the length of
  the text as fuel, which is enough since each step consumes a character. Numbers are integers
  except where the code itself tests for non-integers (\<open>jsnum\<close>) and in a view, where they are their decimal text; a character is a code unit below 256; a
  time is the millisecond an ISO text denotes, and an invalid \<open>Date\<close> is outside the model.

  \<^bold>\<open>Not modelled.\<close> The Postgres store (SQL run by a server), the HTTP application and the runtime adapters
  (I/O), the gateway, wiki and desktop products, the browser UI. In the control plane: the text codec of page
  cursors, schedule computation over time zones, the conversion of a projected view into the session view of the
  clients, and of the projection service the fences a reader waits on and the event buses. An error with an empty text stands for a
  projection callback that does not return. Retention (\<open>pruneExpiredSessionEvents\<close>) is opt-in and cuts
  the front of a log, so \<open>session_transition\<close>, whose logs are gapless, leaves it out; it has its own theorem.
\<close>

end
